(* ===== verification/Prelude.thy ===== *)
theory Prelude
  imports Complex_Main
begin

text \<open>
  Shared base of the development: Go results as sums, Go integers (64-bit wrap-around and
  truncating division), the rounding interface every money conversion implements, and the
  lemma collections that carry the component proofs.

  \<^item> A Go pair \<open>(value, error)\<close> is a value of \<open>'e + 'a\<close>: \<open>Inl\<close> the error, \<open>Inr\<close> the value.
    \<open>rbind\<close> is the statement \<open>v, err := f(); if err != nil { return err }\<close>.
  \<^item> An \<open>int64\<close> is an \<open>int\<close>; arithmetic of the source that may overflow goes through \<open>wrap64\<close>.
  \<^item> The locale \<open>half_ulp_rounding\<close> states what a money conversion promises about the integer
    it stores, and proves once what that implies for sums of rounded amounts.
\<close>

named_theorems result_simps "evaluation and inversion of results"
named_theorems numeric_simps "values of pgtype.Numeric terms"

subsection \<open>Results\<close>

type_synonym ('e, 'a) go_result = "'e + 'a"

definition rbind :: "('e, 'a) go_result \<Rightarrow> ('a \<Rightarrow> ('e, 'b) go_result) \<Rightarrow> ('e, 'b) go_result" where
  "rbind r f = (case r of Inl e \<Rightarrow> Inl e | Inr x \<Rightarrow> f x)"

lemma rbind_simps [simp, result_simps]:
  "rbind (Inl e) f = Inl e"
  "rbind (Inr x) f = f x"
  by (simp_all add: rbind_def)

lemma rbind_Inr_iff [result_simps]: "rbind r f = Inr y \<longleftrightarrow> (\<exists>x. r = Inr x \<and> f x = Inr y)"
  by (cases r) auto

lemma rbind_Inl_iff:
  "rbind r f = Inl e \<longleftrightarrow> r = Inl e \<or> (\<exists>x. r = Inr x \<and> f x = Inl e)"
  by (cases r) auto

lemma rbind_InrE:
  assumes "rbind r f = Inr y"
  obtains x where "r = Inr x" "f x = Inr y"
  using assms by (auto simp: rbind_Inr_iff)

lemma rbind_cong [cong]:
  assumes "r = r'" and "\<And>x. r' = Inr x \<Longrightarrow> f x = g x"
  shows "rbind r f = rbind r' g"
  using assms by (cases r') auto

lemma if_Inl_Inr_iff [result_simps]:
  "(if c then Inl e else r) = Inr y \<longleftrightarrow> \<not> c \<and> r = Inr y"
  by auto

text \<open>
  Inversion of the branches of an operation that returns a result with a state: an early return that
  leaves the state \<open>db\<close> as it is, or the rest of the operation.
\<close>

lemma return_caseE:
  assumes "(case x of Inl e \<Rightarrow> (f e, db) | Inr y \<Rightarrow> g y) = (r, db')"
  obtains e where "x = Inl e" "r = f e" "db' = db" | y where "x = Inr y" "g y = (r, db')"
  using assms by (cases x) auto

lemma lookup_caseE:
  assumes "(case x of Inr y \<Rightarrow> (f y, db) | Inl e \<Rightarrow> if e \<noteq> none then (h e, db) else g) = (r, db')"
  obtains y where "x = Inr y" "r = f y" "db' = db" | e where "r = h e" "db' = db" | "x = Inl none" "g = (r, db')"
  using assms by (cases x) (auto split: if_splits)

lemma pair_caseE:
  assumes "(case p of (a, b) \<Rightarrow> g a b) = z"
  obtains a b where "p = (a, b)" "g a b = z"
  using assms by (cases p) simp

lemma fail_caseE:
  assumes "(case x of Inl e \<Rightarrow> Inl (f e) | Inr y \<Rightarrow> g y) = Inr z"
  obtains y where "x = Inr y" "g y = Inr z"
  using assms by (cases x) auto

subsection \<open>Tables as lists\<close>

text \<open>Looking a row up by its key, after the row of a key was replaced.\<close>

lemma find_update:
  assumes "find (\<lambda>x. key x = k) rs = Some r" "key r' = k"
  shows "find (\<lambda>x. key x = k') (map (\<lambda>x. if key x = k then r' else x) rs)
    = (if k' = k then Some r' else find (\<lambda>x. key x = k') rs)"
proof (cases "k' = k")
  case True
  with assms show ?thesis by (induction rs) auto
next
  case False
  with assms(2) have "find (\<lambda>x. key x = k') (map (\<lambda>x. if key x = k then r' else x) xs) = find (\<lambda>x. key x = k') xs" for xs
    by (induction xs) auto
  with False show ?thesis by simp
qed

lemma find_key_Some: "find (\<lambda>x. key x = k) rs = Some r \<Longrightarrow> r \<in> set rs \<and> key r = k"
  by (induction rs) (auto split: if_splits)

lemma find_key_None: "find (\<lambda>x. key x = k) rs = None \<longleftrightarrow> k \<notin> key ` set rs"
  by (induction rs) auto

lemma find_distinct:
  "distinct (map key rs) \<Longrightarrow> r \<in> set rs \<Longrightarrow> key r = k \<Longrightarrow> find (\<lambda>x. key x = k) rs = Some r"
  by (induction rs) (auto simp: rev_image_eqI)

lemma find_append: "find P (xs @ ys) = (case find P xs of None \<Rightarrow> find P ys | Some x \<Rightarrow> Some x)"
  by (induction xs) auto

lemma map_key_update:
  "key r' = k \<Longrightarrow> map key (map (\<lambda>x. if key x = k then r' else x) rs) = map key rs"
  by (induction rs) auto

lemma member_le_sum_int: "(x :: int) \<in> set xs \<Longrightarrow> \<forall>y \<in> set xs. 0 \<le> y \<Longrightarrow> x \<le> sum_list xs"
proof (induction xs)
  case (Cons y xs)
  then have "0 \<le> y" "0 \<le> sum_list xs" by (auto intro: sum_list_nonneg)
  with Cons show ?case by auto
qed simp

subsection \<open>Go integers\<close>

definition int64_min :: int where "int64_min = - (2 ^ 63)"
definition int64_max :: int where "int64_max = 2 ^ 63 - 1"

definition is_int64 :: "int \<Rightarrow> bool" where
  "is_int64 x \<longleftrightarrow> int64_min \<le> x \<and> x \<le> int64_max"

text \<open>The value an \<open>int64\<close> operation leaves when its exact result is \<open>x\<close>.\<close>

definition wrap64 :: "int \<Rightarrow> int" where
  "wrap64 x = (x + 2 ^ 63) mod 2 ^ 64 - 2 ^ 63"

lemma wrap64_id: "is_int64 x \<Longrightarrow> wrap64 x = x"
  by (simp add: is_int64_def int64_min_def int64_max_def wrap64_def)

lemma wrap64_range: "is_int64 (wrap64 x)"
proof -
  have "0 \<le> (x + 2 ^ 63) mod 2 ^ 64" and "(x + 2 ^ 63) mod 2 ^ 64 < 2 ^ 64"
    by simp_all
  then show ?thesis by (simp add: is_int64_def int64_min_def int64_max_def wrap64_def)
qed

lemma wrap64_add: "wrap64 (wrap64 x + y) = wrap64 (x + y)"
proof -
  have "wrap64 x + y + 2 ^ 63 = (x + 2 ^ 63) mod 2 ^ 64 + y"
    unfolding wrap64_def by linarith
  then have "(wrap64 x + y + 2 ^ 63) mod 2 ^ 64 = ((x + 2 ^ 63) mod 2 ^ 64 + y) mod 2 ^ 64"
    by (rule arg_cong)
  also have "\<dots> = (x + 2 ^ 63 + y) mod 2 ^ 64"
    by (rule mod_add_left_eq)
  also have "x + 2 ^ 63 + y = x + y + 2 ^ 63"
    by (rule add.commute [THEN trans]) (simp only: ac_simps)
  finally show ?thesis
    unfolding wrap64_def [of "wrap64 x + y"] wrap64_def [of "x + y"] by (rule arg_cong)
qed

text \<open>Go's \<open>Quo\<close> and \<open>Rem\<close> truncate towards zero.\<close>

definition go_quo :: "int \<Rightarrow> int \<Rightarrow> int" where
  "go_quo a b = sgn a * sgn b * (\<bar>a\<bar> div \<bar>b\<bar>)"

definition go_rem :: "int \<Rightarrow> int \<Rightarrow> int" where
  "go_rem a b = a - b * go_quo a b"

lemma go_quo_nonneg: "0 \<le> a \<Longrightarrow> 0 < b \<Longrightarrow> go_quo a b = a div b"
  by (cases "a = 0") (simp_all add: go_quo_def)

lemma go_rem_nonneg: "0 \<le> a \<Longrightarrow> 0 < b \<Longrightarrow> go_rem a b = a mod b"
  by (simp add: go_rem_def go_quo_nonneg minus_mult_div_eq_mod)

lemma go_rem_neg: "a < 0 \<Longrightarrow> 0 < b \<Longrightarrow> go_rem a b \<le> 0"
proof -
  assume a: "a < 0" and b: "0 < b"
  have "b * (- a div b) \<le> - a"
    using b by (metis minus_mod_eq_mult_div diff_le_eq le_add_same_cancel1 pos_mod_sign)
  with a b show ?thesis by (simp add: go_rem_def go_quo_def)
qed

lemma floor_rat_numeral [simp]:
  "\<lfloor>(numeral a / numeral b :: rat)\<rfloor> = numeral a div numeral b"
  using floor_divide_of_int_eq [of "numeral a" "numeral b", where ?'a = rat] by simp

subsection \<open>The rounding interface\<close>

text \<open>
  \<open>rnd\<close> turns an exact amount, in units of the last stored digit, into the stored integer;
  \<open>dom\<close> says for which amounts it promises anything. A provider is at most half a unit off,
  keeps integers and is monotone; the client facts below follow for any of them.
\<close>

locale half_ulp_rounding =
  fixes rnd :: "rat \<Rightarrow> int" and dom :: "rat \<Rightarrow> bool"
  assumes rnd_upper: "dom x \<Longrightarrow> of_int (rnd x) \<le> x + 1 / 2"
    and rnd_lower: "dom x \<Longrightarrow> x - 1 / 2 \<le> of_int (rnd x)"
    and rnd_mono: "dom x \<Longrightarrow> dom y \<Longrightarrow> x \<le> y \<Longrightarrow> rnd x \<le> rnd y"
    and rnd_of_int: "dom (of_int n) \<Longrightarrow> rnd (of_int n) = n"
begin

lemma rnd_zero: "dom 0 \<Longrightarrow> rnd 0 = 0"
  using rnd_of_int [of 0] by simp

lemma rnd_nonneg: "dom 0 \<Longrightarrow> dom x \<Longrightarrow> 0 \<le> x \<Longrightarrow> 0 \<le> rnd x"
  using rnd_mono [of 0 x] rnd_zero by simp

lemma sum_rnd_upper:
  assumes "\<And>x. x \<in> set xs \<Longrightarrow> dom x"
  shows "of_int (sum_list (map rnd xs)) \<le> sum_list xs + of_nat (length xs) / 2"
  using assms
proof (induction xs)
  case Nil
  then show ?case by simp
next
  case (Cons x xs)
  then have "of_int (sum_list (map rnd xs)) \<le> sum_list xs + of_nat (length xs) / (2::rat)"
    and "of_int (rnd x) \<le> x + 1 / 2"
    by (auto intro: rnd_upper)
  then show ?case by (simp add: field_simps)
qed

lemma sum_rnd_lower:
  assumes "\<And>x. x \<in> set xs \<Longrightarrow> dom x"
  shows "sum_list xs - of_nat (length xs) / 2 \<le> of_int (sum_list (map rnd xs))"
  using assms
proof (induction xs)
  case Nil
  then show ?case by simp
next
  case (Cons x xs)
  then have "sum_list xs - of_nat (length xs) / (2::rat) \<le> of_int (sum_list (map rnd xs))"
    and "x - 1 / 2 \<le> of_int (rnd x)"
    by (auto intro: rnd_lower)
  then show ?case by (simp add: field_simps)
qed

end

end
