(* ===== verification/Go_Numeric.thy ===== *)
theory Go_Numeric
  imports Prelude
begin

text \<open>
  Money values. \<open>pgtype.Numeric\<close> is the record \<open>numeric\<close> (value \<open>Int * 10 ^ Exp\<close>); the three
  packages that compute with it keep their own copies of the conversion to \<open>big.Rat\<close>, and each
  copy is modelled as it is written:
  \<^item> \<open>internal/core/billing/numeric.go\<close>: \<open>numericToRat\<close>, \<open>ratToNumeric\<close>, \<open>roundHalfUp\<close>, ...;
  \<^item> \<open>internal/core/ledger/numeric.go\<close>: \<open>numericRat\<close>, \<open>sameNumeric\<close>, \<open>numericAdd\<close>, ...;
  \<^item> \<open>internal/core/providerledger/providerledger.go\<close>: the definitions with the prefix \<open>pl_\<close>.
  A \<open>big.Rat\<close> is a \<open>rat\<close> (exact, normalised, positive denominator), a nil \<open>*big.Int\<close> is \<open>None\<close>.
  \<open>Exp\<close> is an \<open>int32\<close> of the source and an \<open>int\<close> here: exponents near \<open>2 ^ 31\<close>, where the
  source's \<open>-value.Exp\<close> would wrap, are powers of ten no machine can build.
\<close>

datatype infinity_modifier = Finite | Infinity | NegativeInfinity

record numeric =
  nInt :: "int option"
  nExp :: int
  nNaN :: bool
  nInfinityModifier :: infinity_modifier
  nValid :: bool

text \<open>The zero value \<open>pgtype.Numeric{}\<close>: SQL NULL.\<close>

definition numeric_null :: numeric where
  "numeric_null = \<lparr>nInt = None, nExp = 0, nNaN = False, nInfinityModifier = Finite, nValid = False\<rparr>"

definition mkNumeric :: "int \<Rightarrow> int \<Rightarrow> numeric" where
  "mkNumeric i e = \<lparr>nInt = Some i, nExp = e, nNaN = False, nInfinityModifier = Finite, nValid = True\<rparr>"

lemma mkNumeric_sel [simp]:
  "nInt (mkNumeric i e) = Some i" "nExp (mkNumeric i e) = e" "\<not> nNaN (mkNumeric i e)"
  "nInfinityModifier (mkNumeric i e) = Finite" "nValid (mkNumeric i e)"
  by (simp_all add: mkNumeric_def)

lemma mkNumeric_inject [simp]: "mkNumeric i e = mkNumeric j f \<longleftrightarrow> i = j \<and> e = f"
  by (auto simp: mkNumeric_def)

lemma numeric_null_sel [simp]: "\<not> nValid numeric_null" "nInt numeric_null = None"
  by (simp_all add: numeric_null_def)

subsection \<open>billing/numeric.go\<close>

datatype billing_error =
    ErrInvalidUsage
  | ErrInvalidRate
  | ErrUnsupportedPricingUnit
  | ErrUnsupportedFormula
  | ErrSaleCostMismatch
  | Panic

definition pow10 :: "int \<Rightarrow> int" where
  "pow10 e = 10 ^ nat e"

definition numericToRat :: "numeric \<Rightarrow> (billing_error, rat) go_result" where
  "numericToRat value =
     (if \<not> nValid value \<or> nNaN value \<or> nInfinityModifier value \<noteq> Finite then Inl ErrInvalidRate
      else case nInt value of
        None \<Rightarrow> Inr 0
      | Some i \<Rightarrow>
          (let rat0 = of_int i;
               rat1 = (if nExp value > 0 then rat0 * of_int (pow10 (nExp value)) else rat0);
               rat2 = (if nExp value < 0 then rat1 / of_int (pow10 (- nExp value)) else rat1)
           in Inr rat2))"

definition requiredNonNegativeNumeric :: "numeric \<Rightarrow> (billing_error, rat) go_result" where
  "requiredNonNegativeNumeric value =
     rbind (numericToRat value) (\<lambda>rat. if rat < 0 then Inl ErrInvalidRate else Inr rat)"

definition requiredPositiveNumeric :: "numeric \<Rightarrow> (billing_error, rat) go_result" where
  "requiredPositiveNumeric value =
     rbind (requiredNonNegativeNumeric value) (\<lambda>rat. if rat \<le> 0 then Inl ErrInvalidRate else Inr rat)"

definition tokenCost :: "rat \<Rightarrow> int \<Rightarrow> rat" where
  "tokenCost unitPrice tokens = unitPrice * of_int tokens"

definition roundHalfUp :: "rat \<Rightarrow> int" where
  "roundHalfUp value =
     (let (num, denom) = quotient_of value;
          quotient = go_quo num denom;
          remainder = go_rem num denom
      in if remainder * 2 \<ge> denom then quotient + 1 else quotient)"

definition ratToNumeric :: "rat \<Rightarrow> int \<Rightarrow> numeric" where
  "ratToNumeric value scale = mkNumeric (roundHalfUp (value * of_int (pow10 scale))) (- scale)"

text \<open>\<open>None\<close> is the nil dereference of \<open>total.Add(total, value.Int)\<close>.\<close>

fun sumInts :: "int \<Rightarrow> numeric list \<Rightarrow> int option" where
  "sumInts t [] = Some t"
| "sumInts t (value # values) =
     (case nInt value of None \<Rightarrow> None | Some i \<Rightarrow> sumInts (t + i) values)"

definition sumRoundedNumerics :: "int \<Rightarrow> numeric list \<Rightarrow> numeric option" where
  "sumRoundedNumerics scale values = map_option (\<lambda>t. mkNumeric t (- scale)) (sumInts 0 values)"

definition maxRat :: "rat \<Rightarrow> rat \<Rightarrow> rat" where
  "maxRat left right = (if left \<ge> right then left else right)"

subsection \<open>ledger/numeric.go\<close>

definition ledger_pow10 :: "int \<Rightarrow> int" where
  "ledger_pow10 e = 10 ^ nat e"

definition numericRat :: "numeric \<Rightarrow> rat option" where
  "numericRat value =
     (if \<not> nValid value \<or> nNaN value \<or> nInfinityModifier value \<noteq> Finite then None
      else case nInt value of
        None \<Rightarrow> None
      | Some i \<Rightarrow>
          (let rat0 = of_int i;
               rat1 = (if nExp value > 0 then rat0 * of_int (ledger_pow10 (nExp value)) else rat0);
               rat2 = (if nExp value < 0 then rat1 / of_int (ledger_pow10 (- nExp value)) else rat1)
           in Some rat2))"

definition sameNumeric :: "numeric \<Rightarrow> numeric \<Rightarrow> bool" where
  "sameNumeric left right =
     (case (numericRat left, numericRat right) of
        (Some l, Some r) \<Rightarrow> l = r
      | (l, r) \<Rightarrow> (l \<noteq> None) = (r \<noteq> None))"

definition isPositiveNumeric :: "numeric \<Rightarrow> bool" where
  "isPositiveNumeric value = (case numericRat value of None \<Rightarrow> False | Some r \<Rightarrow> r > 0)"

definition numericLessOrEqual :: "numeric \<Rightarrow> numeric \<Rightarrow> bool" where
  "numericLessOrEqual left right =
     (case (numericRat left, numericRat right) of (Some l, Some r) \<Rightarrow> l \<le> r | _ \<Rightarrow> False)"

definition numericGreaterThan :: "numeric \<Rightarrow> numeric \<Rightarrow> bool" where
  "numericGreaterThan left right =
     (case (numericRat left, numericRat right) of (Some l, Some r) \<Rightarrow> l > r | _ \<Rightarrow> False)"

definition numericMin :: "numeric \<Rightarrow> numeric \<Rightarrow> numeric" where
  "numericMin left right = (if numericLessOrEqual left right then left else right)"

definition numericZero :: numeric where
  "numericZero = mkNumeric 0 0"

definition numericFinite :: "numeric \<Rightarrow> bool" where
  "numericFinite value \<longleftrightarrow>
     nValid value \<and> \<not> nNaN value \<and> nInfinityModifier value = Finite \<and> nInt value \<noteq> None"

text \<open>
  Called by the source on finite values only; \<open>the\<close> is applied to a non-nil \<open>Int\<close> there
  (\<open>numericAdd\<close> returns before).
\<close>

definition scaledNumericInt :: "numeric \<Rightarrow> int \<Rightarrow> int" where
  "scaledNumericInt value targetExp =
     (let diff = nExp value - targetExp
      in if diff \<le> 0 then the (nInt value) else the (nInt value) * ledger_pow10 diff)"

definition numericAdd :: "numeric \<Rightarrow> numeric \<Rightarrow> numeric" where
  "numericAdd left right =
     (if \<not> numericFinite left \<or> \<not> numericFinite right then numeric_null
      else (let e = (if nExp right < nExp left then nExp right else nExp left)
            in mkNumeric (scaledNumericInt left e + scaledNumericInt right e) e))"

subsection \<open>providerledger/providerledger.go\<close>

text \<open>\<open>pl_numericRat\<close> dereferences \<open>v.Int\<close> without a check; the callers test it first.\<close>

definition pl_numericRat :: "numeric \<Rightarrow> rat" where
  "pl_numericRat v =
     (let r0 = of_int (the (nInt v));
          r1 = (if nExp v > 0 then r0 * 10 ^ nat (nExp v) else r0)
      in if nExp v < 0 then r1 / 10 ^ nat (- nExp v) else r1)"

definition pl_sameNumeric :: "numeric \<Rightarrow> numeric \<Rightarrow> bool" where
  "pl_sameNumeric left right =
     (if \<not> nValid left \<or> \<not> nValid right \<or> nInt left = None \<or> nInt right = None then False
      else pl_numericRat left = pl_numericRat right)"

definition pl_isPositive :: "numeric \<Rightarrow> bool" where
  "pl_isPositive v =
     (if \<not> nValid v \<or> nNaN v \<or> nInfinityModifier v \<noteq> Finite \<or> nInt v = None then False
      else (let r0 = of_int (the (nInt v)) :: rat;
                r1 = (if nExp v > 0 then r0 * 10 ^ nat (nExp v) else r0);
                r2 = (if nExp v < 0 then r1 / 10 ^ nat (- nExp v) else r1)
            in r2 > 0))"

text \<open>
  Rounding of \<open>big.Rat.FloatString\<close> and of PostgreSQL's NUMERIC assignment: to the nearest
  integer, halves away from zero.
\<close>

definition round_half_away :: "rat \<Rightarrow> int" where
  "round_half_away x = (if 0 \<le> x then \<lfloor>x + 1 / 2\<rfloor> else - \<lfloor>- x + 1 / 2\<rfloor>)"

definition pl_ratToNumeric :: "rat \<Rightarrow> nat \<Rightarrow> numeric" where
  "pl_ratToNumeric v scale = mkNumeric (round_half_away (v * 10 ^ scale)) (- int scale)"

subsection \<open>The value of a numeric\<close>

text \<open>
  The common specification of the three conversions: a finite numeric has the value
  \<open>numeric_val Int Exp\<close>.
\<close>

definition numeric_val :: "int \<Rightarrow> int \<Rightarrow> rat" where
  "numeric_val i e = of_int i * 10 powi e"

lemma numeric_val_if:
  "numeric_val i e = (if 0 \<le> e then of_int i * 10 ^ nat e else of_int i / 10 ^ nat (- e))"
  by (simp add: numeric_val_def power_int_def field_simps)

lemma numeric_val_zero [simp]: "numeric_val 0 e = 0"
  by (simp add: numeric_val_def)

lemma numeric_val_nonpos: "e \<le> 0 \<Longrightarrow> numeric_val i e = of_int i / 10 ^ nat (- e)"
  by (cases "e = 0") (simp_all add: numeric_val_if)

lemma numeric_val_add: "numeric_val (i + j) e = numeric_val i e + numeric_val j e"
  by (simp add: numeric_val_def distrib_right)

lemma numeric_val_le_iff [simp]: "numeric_val i e \<le> numeric_val j e \<longleftrightarrow> i \<le> j"
  by (simp add: numeric_val_def)

lemma numeric_val_less_iff [simp]: "numeric_val i e < numeric_val j e \<longleftrightarrow> i < j"
  by (simp add: numeric_val_def)

lemma numeric_val_eq_iff [simp]: "numeric_val i e = numeric_val j e \<longleftrightarrow> i = j"
  by (simp add: numeric_val_def)

lemma numeric_val_sign [simp]:
  "0 < numeric_val i e \<longleftrightarrow> 0 < i" "0 \<le> numeric_val i e \<longleftrightarrow> 0 \<le> i"
  "numeric_val i e < 0 \<longleftrightarrow> i < 0" "numeric_val i e = 0 \<longleftrightarrow> i = 0"
  using numeric_val_less_iff [of 0 e i] numeric_val_le_iff [of 0 e i]
    numeric_val_less_iff [of i e 0] numeric_val_eq_iff [of i e 0]
  unfolding numeric_val_zero by fast+

text \<open>Moving to a smaller exponent multiplies the integer, and keeps the value.\<close>

lemma numeric_val_rescale:
  assumes "0 \<le> d"
  shows "numeric_val (i * 10 ^ nat d) (e - d) = numeric_val i e"
proof -
  have "(10::rat) ^ nat d * 10 powi (e - d) = 10 powi d * 10 powi (e - d)"
    using assms by (simp add: power_int_def)
  also have "\<dots> = 10 powi (d + (e - d))"
    by (rule power_int_add [symmetric]) simp
  finally have "(10::rat) ^ nat d * 10 powi (e - d) = 10 powi e" by simp
  then show ?thesis by (simp add: numeric_val_def mult.assoc)
qed

definition finite_num :: "numeric \<Rightarrow> bool" where
  "finite_num v \<longleftrightarrow> nValid v \<and> \<not> nNaN v \<and> nInfinityModifier v = Finite"

lemma finite_num_mkNumeric [simp]: "finite_num (mkNumeric i e)"
  by (simp add: finite_num_def)

lemma numericToRat_val:
  "numericToRat v =
     (if \<not> finite_num v then Inl ErrInvalidRate
      else Inr (case nInt v of None \<Rightarrow> 0 | Some i \<Rightarrow> numeric_val i (nExp v)))"
  by (auto simp: numericToRat_def finite_num_def numeric_val_if pow10_def Let_def split: option.splits)

lemma numericRat_val:
  "numericRat v =
     (if \<not> finite_num v then None else map_option (\<lambda>i. numeric_val i (nExp v)) (nInt v))"
  by (auto simp: numericRat_def finite_num_def numeric_val_if ledger_pow10_def Let_def
      split: option.splits)

lemma pl_numericRat_val: "pl_numericRat v = numeric_val (the (nInt v)) (nExp v)"
  by (simp add: pl_numericRat_def numeric_val_if Let_def)

lemma numericToRat_mkNumeric [simp, numeric_simps]:
  "numericToRat (mkNumeric i e) = Inr (numeric_val i e)"
  by (simp add: numericToRat_val)

lemma numericRat_mkNumeric [simp, numeric_simps]:
  "numericRat (mkNumeric i e) = Some (numeric_val i e)"
  by (simp add: numericRat_val)

lemma numericRat_null [simp]: "numericRat numeric_null = None"
  by (simp add: numericRat_val finite_num_def)

lemma numericRat_zero [simp]: "numericRat numericZero = Some 0"
  by (simp add: numericZero_def)

lemma numericFinite_iff: "numericFinite v \<longleftrightarrow> numericRat v \<noteq> None"
  by (auto simp: numericFinite_def numericRat_val finite_num_def)

lemma numericToRat_of_numericRat: "numericRat v = Some r \<Longrightarrow> numericToRat v = Inr r"
  by (auto simp: numericRat_val numericToRat_val split: if_splits)

lemma pl_numericRat_of_numericRat: "numericRat v = Some r \<Longrightarrow> pl_numericRat v = r"
  by (auto simp: numericRat_val pl_numericRat_val split: if_splits)

lemma numericAdd_val:
  assumes "numericRat a = Some x" "numericRat b = Some y"
  shows "numericRat (numericAdd a b) = Some (x + y)"
proof -
  have "numericFinite a" "numericFinite b" using assms by (simp_all add: numericFinite_iff)
  then obtain i j where ij: "nInt a = Some i" "nInt b = Some j"
    by (auto simp: numericFinite_def)
  define e where "e = min (nExp a) (nExp b)"
  have scaled: "scaledNumericInt v e = k * 10 ^ nat (nExp v - e)"
    if "nInt v = Some k" "e \<le> nExp v" for v k
    using that by (auto simp: scaledNumericInt_def ledger_pow10_def Let_def)
  have val: "numeric_val (scaledNumericInt v e) e = numeric_val k (nExp v)"
    if "nInt v = Some k" "e \<le> nExp v" for v k
    using numeric_val_rescale [of "nExp v - e" k "nExp v"] that by (simp add: scaled [OF that])
  have "numeric_val (scaledNumericInt a e + scaledNumericInt b e) e
      = numeric_val i (nExp a) + numeric_val j (nExp b)"
    using val [OF ij(1)] val [OF ij(2)] by (simp add: numeric_val_add e_def)
  moreover have "numericAdd a b = mkNumeric (scaledNumericInt a e + scaledNumericInt b e) e"
    using \<open>numericFinite a\<close> \<open>numericFinite b\<close>
    by (simp add: numericAdd_def e_def Let_def min_def)
  ultimately show ?thesis using assms ij by (auto simp: numericRat_val split: if_splits)
qed

lemma numericMin_val:
  assumes "numericRat a = Some x" "numericRat b = Some y"
  shows "numericRat (numericMin a b) = Some (min x y)"
  using assms by (simp add: numericMin_def numericLessOrEqual_def min_def)

lemma numericGreaterThan_val:
  "numericRat a = Some x \<Longrightarrow> numericRat b = Some y \<Longrightarrow> numericGreaterThan a b \<longleftrightarrow> y < x"
  by (simp add: numericGreaterThan_def)

lemma sameNumeric_val:
  "numericRat a = Some x \<Longrightarrow> numericRat b = Some y \<Longrightarrow> sameNumeric a b \<longleftrightarrow> x = y"
  by (simp add: sameNumeric_def)

lemma sameNumeric_iff: "sameNumeric a b \<longleftrightarrow> numericRat a = numericRat b"
  by (auto simp: sameNumeric_def split: option.splits)

lemma isPositiveNumeric_val: "isPositiveNumeric v \<longleftrightarrow> (\<exists>r. numericRat v = Some r \<and> 0 < r)"
  by (auto simp: isPositiveNumeric_def split: option.splits)

subsection \<open>Rounding\<close>

lemma roundHalfUp_nonneg: "0 \<le> x \<Longrightarrow> roundHalfUp x = \<lfloor>x + 1 / 2\<rfloor>"
proof -
  assume x: "0 \<le> x"
  obtain n d where nd: "quotient_of x = (n, d)" by (cases "quotient_of x")
  then have d: "0 < d" and x_nd: "x = of_int n / of_int d"
    by (simp_all add: quotient_of_denom_pos quotient_of_div)
  with x have n: "0 \<le> n" by (simp add: zero_le_divide_iff)
  have "x + 1 / 2 = of_int (2 * n + d) / of_int (2 * d)"
    using d by (simp add: x_nd field_simps)
  then have "\<lfloor>x + 1 / 2\<rfloor> = (2 * n + d) div (2 * d)"
    by (simp only: floor_divide_of_int_eq)
  also have "\<dots> = (if n mod d * 2 \<ge> d then n div d + 1 else n div d)"
  proof -
    define q r where "q = n div d" and "r = n mod d"
    have r: "0 \<le> r" "r < d" and "n = q * d + r" using d by (simp_all add: q_def r_def)
    then have eq: "2 * n + d = q * (2 * d) + (2 * r + d)" by (simp add: algebra_simps)
    have "(2 * n + d) div (2 * d) = q + (2 * r + d) div (2 * d)"
      unfolding eq using d by simp
    moreover have "(2 * r + d) div (2 * d) = (if r * 2 \<ge> d then 1 else 0)"
    proof (cases "r * 2 \<ge> d")
      case True
      have "2 * r + d = 1 * (2 * d) + (2 * r - d)" by simp
      moreover have "0 \<le> 2 * r - d" "2 * r - d < 2 * d" using r True by simp_all
      ultimately show ?thesis using True
        by (metis div_mult_self3 add.commute div_pos_pos_trivial add_0 mult_1 d zero_less_mult_iff
            zero_less_numeral less_irrefl add.right_neutral)
    next
      case False
      with r show ?thesis by (simp add: div_pos_pos_trivial)
    qed
    ultimately show ?thesis by (simp add: q_def r_def)
  qed
  finally show ?thesis
    using n d by (simp add: roundHalfUp_def nd go_quo_nonneg go_rem_nonneg)
qed

text \<open>Below zero the code truncates towards zero instead: no half is rounded there.\<close>

lemma roundHalfUp_neg: "x < 0 \<Longrightarrow> roundHalfUp x = - \<lfloor>- x\<rfloor>"
proof -
  assume x: "x < 0"
  obtain n d where nd: "quotient_of x = (n, d)" by (cases "quotient_of x")
  then have d: "0 < d" and x_nd: "x = of_int n / of_int d"
    by (simp_all add: quotient_of_denom_pos quotient_of_div)
  with x have n: "n < 0" by (simp add: divide_less_0_iff)
  have "- x = of_int (- n) / of_int d" by (simp add: x_nd)
  then have "\<lfloor>- x\<rfloor> = - n div d" by (simp only: floor_divide_of_int_eq)
  moreover have "\<not> go_rem n d * 2 \<ge> d" using go_rem_neg [OF n d] d by simp
  moreover have "go_quo n d = - (- n div d)" using n d by (simp add: go_quo_def)
  ultimately show ?thesis by (simp add: roundHalfUp_def nd)
qed

lemma floor_half_bounds:
  fixes x :: rat
  shows "of_int \<lfloor>x + 1 / 2\<rfloor> \<le> x + 1 / 2" and "x - 1 / 2 \<le> of_int \<lfloor>x + 1 / 2\<rfloor>"
proof -
  show "of_int \<lfloor>x + 1 / 2\<rfloor> \<le> x + 1 / 2" by (rule of_int_floor_le)
  have "x + 1 / 2 < of_int (\<lfloor>x + 1 / 2\<rfloor> + 1)" using floor_correct [of "x + 1 / 2"] by blast
  then show "x - 1 / 2 \<le> of_int \<lfloor>x + 1 / 2\<rfloor>" unfolding of_int_add of_int_1 by linarith
qed

lemma floor_half_of_int [simp]: "\<lfloor>(of_int n :: rat) + 1 / 2\<rfloor> = n"
  by (rule floor_unique) simp_all

interpretation rhu: half_ulp_rounding roundHalfUp "\<lambda>x. 0 \<le> x"
proof unfold_locales
  fix x :: rat assume "0 \<le> x"
  then show "of_int (roundHalfUp x) \<le> x + 1 / 2" "x - 1 / 2 \<le> of_int (roundHalfUp x)"
    by (simp_all only: roundHalfUp_nonneg floor_half_bounds)
next
  fix x y :: rat assume "0 \<le> x" "0 \<le> y" "x \<le> y"
  then show "roundHalfUp x \<le> roundHalfUp y"
    by (simp add: roundHalfUp_nonneg floor_mono)
next
  fix n :: int assume "0 \<le> (of_int n :: rat)"
  then show "roundHalfUp (of_int n) = n" by (simp add: roundHalfUp_nonneg)
qed

lemma round_half_away_if:
  "0 \<le> x \<Longrightarrow> round_half_away x = \<lfloor>x + 1 / 2\<rfloor>"
  "x < 0 \<Longrightarrow> round_half_away x = - \<lfloor>- x + 1 / 2\<rfloor>"
  by (simp_all add: round_half_away_def)

lemma round_half_away_bounds:
  "of_int (round_half_away x) \<le> x + 1 / 2 \<and> x - 1 / 2 \<le> of_int (round_half_away x)"
proof (cases "0 \<le> x")
  case True
  show ?thesis unfolding round_half_away_if(1) [OF True] by (intro conjI floor_half_bounds)
next
  case False
  then have x: "x < 0" by simp
  show ?thesis
    unfolding round_half_away_if(2) [OF x] of_int_minus using floor_half_bounds [of "- x"] by linarith
qed

lemma round_half_away_mono: "x \<le> y \<Longrightarrow> round_half_away x \<le> round_half_away y"
proof -
  assume xy: "x \<le> y"
  have up: "\<lfloor>x + 1 / 2\<rfloor> \<le> \<lfloor>y + 1 / 2\<rfloor>" and down: "\<lfloor>- y + 1 / 2\<rfloor> \<le> \<lfloor>- x + 1 / 2\<rfloor>"
    using xy by (auto intro!: floor_mono)
  have pos: "0 \<le> \<lfloor>z + 1 / 2\<rfloor>" if "0 \<le> z" for z :: rat using that by simp
  consider "0 \<le> x" "0 \<le> y" | "x < 0" "0 \<le> y" | "x < 0" "y < 0" using xy by linarith
  then show ?thesis
  proof cases
    case 1
    then show ?thesis
      unfolding round_half_away_if(1) [OF 1(1)] round_half_away_if(1) [OF 1(2)]
      using up by linarith
  next
    case 2
    then show ?thesis
      unfolding round_half_away_if(1) [OF 2(2)] round_half_away_if(2) [OF 2(1)]
      using pos [of y] pos [of "- x"] by linarith
  next
    case 3
    then show ?thesis
      unfolding round_half_away_if(2) [OF 3(1)] round_half_away_if(2) [OF 3(2)]
      using down by linarith
  qed
qed

lemma round_half_away_int: "round_half_away (of_int n) = n"
  using floor_half_of_int [of "- n"] by (simp add: round_half_away_def)

interpretation rha: half_ulp_rounding round_half_away "\<lambda>_. True"
  by unfold_locales (auto simp: round_half_away_bounds round_half_away_int intro: round_half_away_mono)

lemmas round_half_away_of_int [simp] = rha.rnd_of_int [OF TrueI]

text \<open>On the amounts the billing code produces, both roundings store the same integer.\<close>

lemma round_half_away_eq_roundHalfUp: "0 \<le> x \<Longrightarrow> round_half_away x = roundHalfUp x"
  by (simp add: round_half_away_def roundHalfUp_nonneg)

lemma roundHalfUp_of_int [simp]: "roundHalfUp (of_int n) = n"
  by (cases "0 \<le> n") (simp_all add: roundHalfUp_nonneg roundHalfUp_neg)

subsection \<open>Amounts with ten decimals\<close>

text \<open>
  Every money column is NUMERIC(20,10), and every amount the billing code stores is a
  numeric with exponent \<open>-10\<close>: an integer number of units of \<open>10 ^ -10\<close>. \<open>units n\<close> is its value.
\<close>

definition units :: "int \<Rightarrow> rat" where
  "units n = of_int n / 10 ^ 10"

lemma numeric_val_units [simp]: "numeric_val n (- 10) = units n"
  by (simp add: numeric_val_nonpos units_def)

lemma units_simps [simp]:
  "units 0 = 0" "units m + units n = units (m + n)" "units m - units n = units (m - n)"
  "units m \<le> units n \<longleftrightarrow> m \<le> n" "units m < units n \<longleftrightarrow> m < n" "units m = units n \<longleftrightarrow> m = n"
  "0 < units n \<longleftrightarrow> 0 < n" "0 \<le> units n \<longleftrightarrow> 0 \<le> n" "units n < 0 \<longleftrightarrow> n < 0" "units n = 0 \<longleftrightarrow> n = 0"
  by (simp_all add: units_def add_divide_distrib diff_divide_distrib divide_le_cancel
      divide_less_cancel zero_less_divide_iff zero_le_divide_iff divide_less_0_iff)

lemma units_min: "units (min m n) = min (units m) (units n)"
  by (simp add: min_def)

lemma units_times [simp]: "units n * 10 ^ 10 = of_int n" "units n * 10000000000 = of_int n"
  by (simp_all add: units_def)

lemma numericRat_units [simp, numeric_simps]: "numericRat (mkNumeric n (- 10)) = Some (units n)"
  by (simp add: numeric_val_units)

lemma units_round_error:
  assumes "0 \<le> x"
  shows "\<bar>units (roundHalfUp (x * 10 ^ 10)) - x\<bar> \<le> 1 / (2 * 10 ^ 10)"
proof -
  have "0 \<le> x * 10 ^ 10" using assms by simp
  then have "\<bar>of_int (roundHalfUp (x * 10 ^ 10)) - x * 10 ^ 10\<bar> \<le> 1 / 2"
    using rhu.rnd_upper [of "x * 10 ^ 10"] rhu.rnd_lower [of "x * 10 ^ 10"] by linarith
  moreover have "\<bar>k / 10 ^ 10 - x\<bar> \<le> 1 / (2 * 10 ^ 10)" if "\<bar>k - x * 10 ^ 10\<bar> \<le> 1 / 2" for k
    using that by (simp add: abs_le_iff field_simps)
  ultimately show ?thesis unfolding units_def by blast
qed

lemma units_sum_error:
  fixes xs :: "rat list"
  assumes "list_all (\<lambda>x. 0 \<le> x) xs"
  shows "\<bar>units (sum_list (map (\<lambda>x. roundHalfUp (x * 10 ^ 10)) xs)) - sum_list xs\<bar>
    \<le> of_nat (length xs) / (2 * 10 ^ 10)"
  using assms
proof (induction xs)
  case Nil
  then show ?case by simp
next
  case (Cons x xs)
  then have "\<bar>units (roundHalfUp (x * 10 ^ 10)) - x\<bar> \<le> 1 / (2 * 10 ^ 10)"
    by (intro units_round_error) simp
  moreover have "\<bar>units (sum_list (map (\<lambda>x. roundHalfUp (x * 10 ^ 10)) xs)) - sum_list xs\<bar>
    \<le> of_nat (length xs) / (2 * 10 ^ 10)"
    using Cons by simp
  moreover have "of_nat (length (x # xs)) / (2 * 10 ^ 10 :: rat)
      = of_nat (length xs) / (2 * 10 ^ 10) + 1 / (2 * 10 ^ 10)"
    by (simp add: add_divide_distrib)
  ultimately show ?case
    unfolding list.map sum_list.Cons units_simps(2) [symmetric] by linarith
qed

lemma ratToNumeric_10: "ratToNumeric x 10 = mkNumeric (roundHalfUp (x * 10 ^ 10)) (- 10)"
  by (simp add: ratToNumeric_def pow10_def)

lemma sumInts_map: "sumInts t (map (\<lambda>i. mkNumeric i e) is) = Some (t + sum_list is)"
  by (induction "is" arbitrary: t) simp_all

end
