(* ===== verification/Usage_Facts.thy ===== *)
theory Usage_Facts
  imports Prelude
begin

text \<open>
  \<open>internal/core/usage/facts.go\<close>: the protocol-independent usage facts. A Go string type
  (\<open>CountState\<close>, \<open>MeteredKind\<close>, \<open>Source\<close>) is a \<open>string\<close>, so that the \<open>default\<close> branches of the
  source's switches stay reachable; an \<open>int64\<close> is an \<open>int\<close>, and the sums are bounded by the
  code before they are formed. A pair \<open>(int64, bool)\<close> is a pair.
\<close>

definition maxLuaExactInteger :: int where
  "maxLuaExactInteger = 9007199254740991"

type_synonym CountState = string

abbreviation CountKnown :: CountState where "CountKnown \<equiv> ''known''"
abbreviation CountNotApplicable :: CountState where "CountNotApplicable \<equiv> ''not_applicable''"
abbreviation CountUnknown :: CountState where "CountUnknown \<equiv> ''unknown''"

record TokenCount =
  tcValue :: int
  tcState :: CountState

definition KnownTokens :: "int \<Rightarrow> TokenCount" where
  "KnownTokens value = \<lparr>tcValue = value, tcState = CountKnown\<rparr>"

definition NotApplicableTokens :: TokenCount where
  "NotApplicableTokens = \<lparr>tcValue = 0, tcState = CountNotApplicable\<rparr>"

definition UnknownTokens :: TokenCount where
  "UnknownTokens = \<lparr>tcValue = 0, tcState = CountUnknown\<rparr>"

definition IsKnown :: "TokenCount \<Rightarrow> bool" where
  "IsKnown c \<longleftrightarrow> tcState c = CountKnown"

definition BillableValue :: "TokenCount \<Rightarrow> int \<times> bool" where
  "BillableValue c =
     (if tcState c = CountKnown then (tcValue c, tcValue c \<ge> 0)
      else if tcState c = CountNotApplicable then (0, tcValue c = 0)
      else (0, False))"

type_synonym MeteredKind = string

abbreviation MeteredServerWebSearchRequest :: MeteredKind where
  "MeteredServerWebSearchRequest \<equiv> ''server_web_search_request''"
abbreviation MeteredServerWebFetchRequest :: MeteredKind where
  "MeteredServerWebFetchRequest \<equiv> ''server_web_fetch_request''"

definition MeteredKind_Valid :: "MeteredKind \<Rightarrow> bool" where
  "MeteredKind_Valid k \<longleftrightarrow> k = MeteredServerWebSearchRequest \<or> k = MeteredServerWebFetchRequest"

record MeteredItem =
  miKind :: MeteredKind
  miQuantity :: int

definition MeteredItem_Valid :: "MeteredItem \<Rightarrow> bool" where
  "MeteredItem_Valid i \<longleftrightarrow> MeteredKind_Valid (miKind i) \<and> miQuantity i > 0"

record Facts =
  UncachedInputTokens :: TokenCount
  CacheReadInputTokens :: TokenCount
  CacheWrite5mInputTokens :: TokenCount
  CacheWrite1hInputTokens :: TokenCount
  CacheWrite30mInputTokens :: TokenCount
  OutputTokensTotal :: TokenCount
  ReasoningOutputTokens :: TokenCount
  ServerToolUsage :: "MeteredItem list"

text \<open>The first loop of \<open>Valid\<close>: one count, then all of them.\<close>

definition count_valid :: "TokenCount \<Rightarrow> bool" where
  "count_valid count =
     (if tcState count = CountKnown then \<not> tcValue count < 0
      else if tcState count = CountNotApplicable \<or> tcState count = CountUnknown then \<not> tcValue count \<noteq> 0
      else False)"

text \<open>The last loop, with the map of the kinds seen so far as a list.\<close>

fun tool_usage_valid :: "MeteredKind list \<Rightarrow> MeteredItem list \<Rightarrow> bool" where
  "tool_usage_valid seenKinds [] = True"
| "tool_usage_valid seenKinds (item # items) =
     (if \<not> MeteredItem_Valid item then False
      else if miKind item \<in> set seenKinds then False
      else tool_usage_valid (miKind item # seenKinds) items)"

definition Facts_Valid :: "Facts \<Rightarrow> bool" where
  "Facts_Valid f =
     (if \<not> list_all count_valid
           [UncachedInputTokens f, CacheReadInputTokens f, CacheWrite5mInputTokens f,
            CacheWrite1hInputTokens f, CacheWrite30mInputTokens f, OutputTokensTotal f,
            ReasoningOutputTokens f] then False
      else if IsKnown (ReasoningOutputTokens f) \<and> IsKnown (OutputTokensTotal f)
           \<and> tcValue (ReasoningOutputTokens f) > tcValue (OutputTokensTotal f) then False
      else tool_usage_valid [] (ServerToolUsage f))"

text \<open>
  The loop shared by \<open>ActualTotalTokens\<close> and \<open>ObservedInputTokens\<close>: it stops with
  \<open>(0, False)\<close> at the first count that is not billable or would pass the bound.
\<close>

fun sum_counts :: "int \<Rightarrow> TokenCount list \<Rightarrow> int \<times> bool" where
  "sum_counts t [] = (t, True)"
| "sum_counts t (count # counts) =
     (case BillableValue count of (val, ok) \<Rightarrow>
        if \<not> ok \<or> val < 0 \<or> t > maxLuaExactInteger - val then (0, False)
        else sum_counts (t + val) counts)"

definition ActualTotalTokens :: "Facts \<Rightarrow> int \<times> bool" where
  "ActualTotalTokens f =
     (if \<not> Facts_Valid f then (0, False)
      else sum_counts 0
        [UncachedInputTokens f, CacheReadInputTokens f, CacheWrite5mInputTokens f,
         CacheWrite30mInputTokens f, CacheWrite1hInputTokens f, OutputTokensTotal f])"

definition ObservedInputTokens :: "Facts \<Rightarrow> int \<times> bool" where
  "ObservedInputTokens f =
     (if \<not> Facts_Valid f then (0, False)
      else sum_counts 0
        [UncachedInputTokens f, CacheReadInputTokens f, CacheWrite5mInputTokens f,
         CacheWrite30mInputTokens f, CacheWrite1hInputTokens f])"

definition ObservedOutputTokens :: "Facts \<Rightarrow> int \<times> bool" where
  "ObservedOutputTokens f =
     (if \<not> Facts_Valid f then (0, False)
      else (case BillableValue (OutputTokensTotal f) of (val, ok) \<Rightarrow>
        if \<not> ok \<or> val < 0 then (0, False) else (val, True)))"

type_synonym Source = string

abbreviation SourceUpstreamResponse :: Source where "SourceUpstreamResponse \<equiv> ''upstream_response''"
abbreviation SourceUpstreamStream :: Source where "SourceUpstreamStream \<equiv> ''upstream_stream''"
abbreviation SourcePartialStreamEstimate :: Source where
  "SourcePartialStreamEstimate \<equiv> ''partial_stream_estimate''"

definition Source_Valid :: "Source \<Rightarrow> bool" where
  "Source_Valid s \<longleftrightarrow>
     s = SourceUpstreamResponse \<or> s = SourceUpstreamStream \<or> s = SourcePartialStreamEstimate"

definition IsPartialEstimate :: "Source \<Rightarrow> bool" where
  "IsPartialEstimate s \<longleftrightarrow> s = SourcePartialStreamEstimate"

subsection \<open>Counts\<close>

abbreviation billed :: "TokenCount \<Rightarrow> int" where "billed c \<equiv> fst (BillableValue c)"
abbreviation billable :: "TokenCount \<Rightarrow> bool" where "billable c \<equiv> snd (BillableValue c)"

lemma billable_nonneg: "billable c \<Longrightarrow> 0 \<le> billed c"
  by (auto simp: BillableValue_def split: if_splits)

lemma billable_iff:
  "billable c \<longleftrightarrow> (tcState c = CountKnown \<and> 0 \<le> tcValue c)
     \<or> (tcState c = CountNotApplicable \<and> tcValue c = 0)"
  by (auto simp: BillableValue_def)

lemma billed_eq:
  "billed c = (if tcState c = CountKnown then tcValue c else 0)"
  by (simp add: BillableValue_def)

lemma billable_iff_known_state: "count_valid c \<Longrightarrow> billable c \<longleftrightarrow> tcState c \<noteq> CountUnknown"
  by (auto simp: billable_iff count_valid_def split: if_splits)

lemma sum_counts_spec:
  assumes "0 \<le> t" "t \<le> maxLuaExactInteger"
  shows "sum_counts t cs =
    (if list_all billable cs \<and> t + sum_list (map billed cs) \<le> maxLuaExactInteger
     then (t + sum_list (map billed cs), True) else (0, False))"
  using assms
proof (induction cs arbitrary: t)
  case Nil
  then show ?case by simp
next
  case (Cons c cs)
  have nonneg: "0 \<le> sum_list (map billed cs)" if "list_all billable cs"
    using that by (intro sum_list_nonneg) (auto simp: list_all_iff billable_nonneg)
  obtain v ok where c: "BillableValue c = (v, ok)" by (cases "BillableValue c")
  show ?case
  proof (cases "ok \<and> t + v \<le> maxLuaExactInteger")
    case True
    with c billable_nonneg [of c] have v: "0 \<le> v" by simp
    have "sum_counts t (c # cs) = sum_counts (t + v) cs" using True v by (simp add: c)
    also have "\<dots> = (if list_all billable cs \<and> t + v + sum_list (map billed cs) \<le> maxLuaExactInteger
        then (t + v + sum_list (map billed cs), True) else (0, False))"
      using Cons.IH [of "t + v"] Cons.prems True v by simp
    finally show ?thesis using True by (simp add: c add.assoc)
  next
    case False
    then have "sum_counts t (c # cs) = (0, False)" by (auto simp: c)
    moreover have "\<not> (list_all billable (c # cs) \<and>
        t + sum_list (map billed (c # cs)) \<le> maxLuaExactInteger)"
      using False nonneg by (auto simp: c)
    ultimately show ?thesis by simp
  qed
qed

lemma sum_counts_True_iff:
  assumes "0 \<le> t" "t \<le> maxLuaExactInteger"
  shows "sum_counts t cs = (s, True) \<longleftrightarrow>
    list_all billable cs \<and> s = t + sum_list (map billed cs) \<and> s \<le> maxLuaExactInteger"
  using sum_counts_spec [OF assms, of cs] by auto

lemma maxLua_nonneg [simp]: "0 \<le> maxLuaExactInteger"
  by (simp add: maxLuaExactInteger_def)

lemma tool_usage_valid_iff:
  "tool_usage_valid seen items \<longleftrightarrow>
     (\<forall>i \<in> set items. MeteredItem_Valid i) \<and> distinct (map miKind items)
     \<and> set (map miKind items) \<inter> set seen = {}"
  by (induction seen items rule: tool_usage_valid.induct) auto

definition facts_counts :: "Facts \<Rightarrow> TokenCount list" where
  "facts_counts f =
     [UncachedInputTokens f, CacheReadInputTokens f, CacheWrite5mInputTokens f,
      CacheWrite1hInputTokens f, CacheWrite30mInputTokens f, OutputTokensTotal f,
      ReasoningOutputTokens f]"

text \<open>What \<open>Valid\<close> decides, without the order in which it decides it.\<close>

lemma Facts_Valid_iff:
  "Facts_Valid f \<longleftrightarrow>
     list_all count_valid (facts_counts f)
     \<and> (IsKnown (ReasoningOutputTokens f) \<longrightarrow> IsKnown (OutputTokensTotal f) \<longrightarrow>
          tcValue (ReasoningOutputTokens f) \<le> tcValue (OutputTokensTotal f))
     \<and> (\<forall>i \<in> set (ServerToolUsage f). MeteredItem_Valid i)
     \<and> distinct (map miKind (ServerToolUsage f))"
  by (auto simp: Facts_Valid_def facts_counts_def tool_usage_valid_iff)

lemma ActualTotalTokens_iff:
  "ActualTotalTokens f = (t, True) \<longleftrightarrow>
     Facts_Valid f \<and>
     list_all billable [UncachedInputTokens f, CacheReadInputTokens f, CacheWrite5mInputTokens f,
       CacheWrite30mInputTokens f, CacheWrite1hInputTokens f, OutputTokensTotal f] \<and>
     t = billed (UncachedInputTokens f) + billed (CacheReadInputTokens f)
       + billed (CacheWrite5mInputTokens f) + billed (CacheWrite30mInputTokens f)
       + billed (CacheWrite1hInputTokens f) + billed (OutputTokensTotal f) \<and>
     t \<le> maxLuaExactInteger"
  unfolding ActualTotalTokens_def by (auto simp add: sum_counts_True_iff simp del: sum_counts.simps)

lemma ObservedInputTokens_iff:
  "ObservedInputTokens f = (t, True) \<longleftrightarrow>
     Facts_Valid f \<and>
     list_all billable [UncachedInputTokens f, CacheReadInputTokens f, CacheWrite5mInputTokens f,
       CacheWrite30mInputTokens f, CacheWrite1hInputTokens f] \<and>
     t = billed (UncachedInputTokens f) + billed (CacheReadInputTokens f)
       + billed (CacheWrite5mInputTokens f) + billed (CacheWrite30mInputTokens f)
       + billed (CacheWrite1hInputTokens f) \<and>
     t \<le> maxLuaExactInteger"
  unfolding ObservedInputTokens_def by (auto simp add: sum_counts_True_iff simp del: sum_counts.simps)

lemma ObservedOutputTokens_iff:
  "ObservedOutputTokens f = (t, True) \<longleftrightarrow>
     Facts_Valid f \<and> billable (OutputTokensTotal f) \<and> t = billed (OutputTokensTotal f)"
  using billable_nonneg [of "OutputTokensTotal f"]
  by (auto simp: ObservedOutputTokens_def split: prod.splits)

lemmas observed_iffs = ActualTotalTokens_iff ObservedInputTokens_iff ObservedOutputTokens_iff

subsection \<open>Properties\<close>

lemma known_counts_billable:
  assumes "Facts_Valid f"
  shows "list_all billable (facts_counts f) \<longleftrightarrow> list_all (\<lambda>c. tcState c \<noteq> CountUnknown) (facts_counts f)"
  using assms by (auto simp: Facts_Valid_iff list_all_iff billable_iff_known_state)

text \<open>
  the actual total of a response is its observed input plus its observed output: when the total is
  defined both parts are, they add up to it exactly, none of the three is negative
  or above \<open>2 ^ 53 - 1\<close> (the largest integer Redis Lua counts exactly), and reasoning tokens are not
  counted twice.
\<close>

theorem actual_total_splits:
  assumes "ActualTotalTokens f = (t, True)"
  shows "\<exists>i out. ObservedInputTokens f = (i, True) \<and> ObservedOutputTokens f = (out, True) \<and> t = i + out \<and>
    0 \<le> i \<and> 0 \<le> out \<and> t \<le> maxLuaExactInteger"
proof -
  let ?i = "billed (UncachedInputTokens f) + billed (CacheReadInputTokens f)
    + billed (CacheWrite5mInputTokens f) + billed (CacheWrite30mInputTokens f)
    + billed (CacheWrite1hInputTokens f)"
  have total: "t = ?i + billed (OutputTokensTotal f)" "t \<le> maxLuaExactInteger" and ok: "Facts_Valid f"
    "list_all billable [UncachedInputTokens f, CacheReadInputTokens f, CacheWrite5mInputTokens f,
       CacheWrite30mInputTokens f, CacheWrite1hInputTokens f, OutputTokensTotal f]"
    using assms by (simp_all add: ActualTotalTokens_iff)
  have pos: "0 \<le> ?i" "0 \<le> billed (OutputTokensTotal f)"
    using ok(2) by (auto intro!: add_nonneg_nonneg billable_nonneg)
  have "ObservedInputTokens f = (?i, True)" "ObservedOutputTokens f = (billed (OutputTokensTotal f), True)"
    using ok total pos unfolding observed_iffs by auto
  with total pos show ?thesis by blast
qed

lemma actual_total_splits_witness:
  "\<exists>f i out. ActualTotalTokens f = (12, True) \<and> ObservedInputTokens f = (i, True) \<and>
     ObservedOutputTokens f = (out, True) \<and> 12 = i + out"
proof -
  let ?f = "\<lparr>UncachedInputTokens = KnownTokens 7, CacheReadInputTokens = NotApplicableTokens,
    CacheWrite5mInputTokens = NotApplicableTokens, CacheWrite1hInputTokens = NotApplicableTokens,
    CacheWrite30mInputTokens = NotApplicableTokens, OutputTokensTotal = KnownTokens 5,
    ReasoningOutputTokens = UnknownTokens,
    ServerToolUsage = [\<lparr>miKind = MeteredServerWebSearchRequest, miQuantity = 2\<rparr>]\<rparr>"
  have "ActualTotalTokens ?f = (12, True)" by code_simp
  with actual_total_splits [OF this] show ?thesis by blast
qed

text \<open>
  C8: \<open>Valid\<close> accepts exactly the well-formed usage: every count has one of the three
  states, a known count is not negative, the other two carry no number, known reasoning tokens are at
  most the known output, and the server tool usage lists known kinds, each once, with positive
  quantities.
\<close>

theorem facts_valid_iff_well_formed:
  "Facts_Valid f \<longleftrightarrow>
     (\<forall>c. c \<in> set (facts_counts f) \<longrightarrow>
        (\<exists>n. 0 \<le> n \<and> c = KnownTokens n) \<or> c = NotApplicableTokens \<or> c = UnknownTokens) \<and>
     (\<forall>r out. ReasoningOutputTokens f = KnownTokens r \<and> OutputTokensTotal f = KnownTokens out \<longrightarrow> r \<le> out) \<and>
     (\<forall>item. item \<in> set (ServerToolUsage f) \<longrightarrow> MeteredKind_Valid (miKind item) \<and> 0 < miQuantity item) \<and>
     distinct (map miKind (ServerToolUsage f))"
proof -
  have count: "count_valid c \<longleftrightarrow> (\<exists>n. 0 \<le> n \<and> c = KnownTokens n) \<or> c = NotApplicableTokens \<or> c = UnknownTokens" for c
    by (cases c) (auto simp: count_valid_def KnownTokens_def NotApplicableTokens_def UnknownTokens_def)
  have known: "IsKnown c \<longleftrightarrow> c = KnownTokens (tcValue c)" for c
    by (cases c) (auto simp: IsKnown_def KnownTokens_def)
  have "(IsKnown r \<longrightarrow> IsKnown out \<longrightarrow> tcValue r \<le> tcValue out) \<longleftrightarrow>
      (\<forall>m n. r = KnownTokens m \<and> out = KnownTokens n \<longrightarrow> m \<le> n)" for r out
    by (cases r, cases out) (auto simp: IsKnown_def KnownTokens_def)
  then show ?thesis by (simp add: Facts_Valid_iff list_all_iff count MeteredItem_Valid_def Ball_def)
qed

definition bad_reasoning_facts :: Facts where
  "bad_reasoning_facts = \<lparr>UncachedInputTokens = KnownTokens 7, CacheReadInputTokens = NotApplicableTokens,
    CacheWrite5mInputTokens = NotApplicableTokens, CacheWrite1hInputTokens = NotApplicableTokens,
    CacheWrite30mInputTokens = NotApplicableTokens, OutputTokensTotal = KnownTokens 5,
    ReasoningOutputTokens = KnownTokens 6, ServerToolUsage = []\<rparr>"

lemma facts_valid_iff_well_formed_witness: "\<not> Facts_Valid bad_reasoning_facts"
proof
  assume "Facts_Valid bad_reasoning_facts"
  then have "\<forall>r out. ReasoningOutputTokens bad_reasoning_facts = KnownTokens r \<and>
      OutputTokensTotal bad_reasoning_facts = KnownTokens out \<longrightarrow> r \<le> out"
    unfolding facts_valid_iff_well_formed by blast
  from this [rule_format, of 6 5] show False by (simp add: bad_reasoning_facts_def)
qed

end
