(* ===== verification/Billing.thy ===== *)
theory Billing
  imports Go_Numeric Usage_Facts
begin

text \<open>
  \<open>internal/core/billing\<close>: price snapshots, their normalisation and scaling (\<open>price.go\<close>,
  \<open>scale.go\<close>, \<open>long_context.go\<close>), the token_v1 amounts (\<open>service.go\<close>) and the margin check
  (\<open>margin.go\<close>, \<open>cost_ratio.go\<close>). Every \<open>big.Rat\<close> is exact; a price is a \<open>numeric\<close>, with NULL for a
  component that is not configured. The Go loops over \<open>{base, target}\<close> pairs are written out field
  by field, in the order of the loop, stopping at the first error.
\<close>

definition PricingUnitPer1MTokens :: string where "PricingUnitPer1MTokens = ''per_1m_tokens''"
definition FormulaVersionV1 :: string where "FormulaVersionV1 = ''token_v1''"
definition amountDecimalScale :: int where "amountDecimalScale = 10"
definition priceDecimalScale :: int where "priceDecimalScale = 10"

lemmas billing_constants =
  PricingUnitPer1MTokens_def FormulaVersionV1_def amountDecimalScale_def priceDecimalScale_def

subsection \<open>types.go\<close>

record CustomerPriceSnapshot =
  cpCurrency :: string
  cpPricingUnit :: string
  UncachedInputPrice :: numeric
  CacheReadInputPrice :: numeric
  CacheWrite5mInputPrice :: numeric
  CacheWrite1hInputPrice :: numeric
  CacheWrite30mInputPrice :: numeric
  OutputPrice :: numeric
  ReasoningOutputPrice :: numeric
  cpFormulaVersion :: string

record ProviderCostSnapshot =
  pcCurrency :: string
  pcPricingUnit :: string
  UncachedInputCost :: numeric
  CacheReadInputCost :: numeric
  CacheWrite5mInputCost :: numeric
  CacheWrite1hInputCost :: numeric
  CacheWrite30mInputCost :: numeric
  OutputCost :: numeric
  ReasoningOutputCost :: numeric
  pcFormulaVersion :: string

record ProviderCost =
  UncachedInputCostAmount :: numeric
  CacheReadInputCostAmount :: numeric
  CacheWrite5mInputCostAmount :: numeric
  CacheWrite1hInputCostAmount :: numeric
  CacheWrite30mInputCostAmount :: numeric
  OutputCostAmount :: numeric
  ReasoningOutputCostAmount :: numeric
  TotalCostAmount :: numeric
  costCurrency :: string
  costFormulaVersion :: string

record CustomerCharge =
  chAmount :: numeric
  chCurrency :: string
  chFormulaVersion :: string

record AuthorizationEstimate =
  estInputTokens :: int
  estMaxCompletionTokens :: int

definition price_components :: "CustomerPriceSnapshot \<Rightarrow> numeric list" where
  "price_components p =
     [UncachedInputPrice p, CacheReadInputPrice p, CacheWrite5mInputPrice p,
      CacheWrite1hInputPrice p, CacheWrite30mInputPrice p, OutputPrice p, ReasoningOutputPrice p]"

definition IsEffectivelyFree :: "CustomerPriceSnapshot \<Rightarrow> bool" where
  "IsEffectivelyFree p =
     list_all (\<lambda>rate. case numericToRat rate of Inl _ \<Rightarrow> True | Inr rat \<Rightarrow> \<not> rat > 0)
       (price_components p)"

subsection \<open>price.go\<close>

record tokenRateSnapshot =
  rsCurrency :: string
  rsPricingUnit :: string
  rsUncachedInputRate :: numeric
  rsCacheReadInputRate :: numeric
  rsCacheWrite5mInputRate :: numeric
  rsCacheWrite1hInputRate :: numeric
  rsCacheWrite30mInputRate :: numeric
  rsOutputRate :: numeric
  rsReasoningOutputRate :: numeric
  rsFormulaVersion :: string

record tokenRates =
  trCurrency :: string
  trFormulaVersion :: string
  UncachedInputRate :: rat
  CacheReadInputRate :: rat
  CacheWrite5mInputRate :: rat
  CacheWrite1hInputRate :: rat
  CacheWrite30mInputRate :: rat
  OutputRate :: rat
  ReasoningOutputRate :: rat

text \<open>A rate that falls back to \<open>base\<close> when it is not configured.\<close>

definition optionalRate :: "rat \<Rightarrow> numeric \<Rightarrow> (billing_error, rat) go_result" where
  "optionalRate base rate = (if nValid rate then requiredNonNegativeNumeric rate else Inr base)"

definition normalizeTokenRates :: "tokenRateSnapshot \<Rightarrow> (billing_error, tokenRates) go_result" where
  "normalizeTokenRates snapshot =
     (if rsPricingUnit snapshot \<noteq> PricingUnitPer1MTokens then Inl ErrUnsupportedPricingUnit
      else if rsCurrency snapshot = '''' then Inl ErrInvalidRate
      else let formulaVersion =
             (if rsFormulaVersion snapshot = '''' then FormulaVersionV1 else rsFormulaVersion snapshot)
      in if formulaVersion \<noteq> FormulaVersionV1 then Inl ErrUnsupportedFormula
      else
        rbind (requiredNonNegativeNumeric (rsUncachedInputRate snapshot)) (\<lambda>uncachedInputRate.
        rbind (requiredNonNegativeNumeric (rsOutputRate snapshot)) (\<lambda>outputRate.
        rbind (optionalRate uncachedInputRate (rsCacheReadInputRate snapshot)) (\<lambda>cacheReadInputRate.
        rbind (optionalRate uncachedInputRate (rsCacheWrite5mInputRate snapshot)) (\<lambda>cacheWrite5mInputRate.
        rbind (optionalRate uncachedInputRate (rsCacheWrite1hInputRate snapshot)) (\<lambda>cacheWrite1hInputRate.
        rbind (optionalRate uncachedInputRate (rsCacheWrite30mInputRate snapshot)) (\<lambda>cacheWrite30mInputRate.
        rbind (optionalRate outputRate (rsReasoningOutputRate snapshot)) (\<lambda>reasoningOutputRate.
        Inr \<lparr>trCurrency = rsCurrency snapshot, trFormulaVersion = formulaVersion,
             UncachedInputRate = uncachedInputRate, CacheReadInputRate = cacheReadInputRate,
             CacheWrite5mInputRate = cacheWrite5mInputRate,
             CacheWrite1hInputRate = cacheWrite1hInputRate,
             CacheWrite30mInputRate = cacheWrite30mInputRate,
             OutputRate = outputRate, ReasoningOutputRate = reasoningOutputRate\<rparr>))))))))"

definition normalizeCustomerPriceRates ::
  "CustomerPriceSnapshot \<Rightarrow> (billing_error, tokenRates) go_result" where
  "normalizeCustomerPriceRates price = normalizeTokenRates
     \<lparr>rsCurrency = cpCurrency price, rsPricingUnit = cpPricingUnit price,
      rsUncachedInputRate = UncachedInputPrice price, rsCacheReadInputRate = CacheReadInputPrice price,
      rsCacheWrite5mInputRate = CacheWrite5mInputPrice price,
      rsCacheWrite1hInputRate = CacheWrite1hInputPrice price,
      rsCacheWrite30mInputRate = CacheWrite30mInputPrice price,
      rsOutputRate = OutputPrice price, rsReasoningOutputRate = ReasoningOutputPrice price,
      rsFormulaVersion = cpFormulaVersion price\<rparr>"

definition normalizeProviderCostRates ::
  "ProviderCostSnapshot \<Rightarrow> (billing_error, tokenRates) go_result" where
  "normalizeProviderCostRates cost = normalizeTokenRates
     \<lparr>rsCurrency = pcCurrency cost, rsPricingUnit = pcPricingUnit cost,
      rsUncachedInputRate = UncachedInputCost cost, rsCacheReadInputRate = CacheReadInputCost cost,
      rsCacheWrite5mInputRate = CacheWrite5mInputCost cost,
      rsCacheWrite1hInputRate = CacheWrite1hInputCost cost,
      rsCacheWrite30mInputRate = CacheWrite30mInputCost cost,
      rsOutputRate = OutputCost cost, rsReasoningOutputRate = ReasoningOutputCost cost,
      rsFormulaVersion = pcFormulaVersion cost\<rparr>"

subsection \<open>scale.go\<close>

definition scaleRate :: "numeric \<Rightarrow> rat \<Rightarrow> (billing_error, numeric) go_result" where
  "scaleRate rate ratio =
     (if \<not> nValid rate then Inr rate
      else rbind (numericToRat rate) (\<lambda>rateRat. Inr (ratToNumeric (rateRat * ratio) priceDecimalScale)))"

definition ScaleCustomerPrice ::
  "CustomerPriceSnapshot \<Rightarrow> numeric \<Rightarrow> (billing_error, CustomerPriceSnapshot) go_result" where
  "ScaleCustomerPrice base ratio =
     rbind (requiredNonNegativeNumeric ratio) (\<lambda>ratioRat.
     rbind (scaleRate (UncachedInputPrice base) ratioRat) (\<lambda>uncached.
     rbind (scaleRate (CacheReadInputPrice base) ratioRat) (\<lambda>cacheRead.
     rbind (scaleRate (CacheWrite5mInputPrice base) ratioRat) (\<lambda>cacheWrite5m.
     rbind (scaleRate (CacheWrite1hInputPrice base) ratioRat) (\<lambda>cacheWrite1h.
     rbind (scaleRate (CacheWrite30mInputPrice base) ratioRat) (\<lambda>cacheWrite30m.
     rbind (scaleRate (OutputPrice base) ratioRat) (\<lambda>output.
     rbind (scaleRate (ReasoningOutputPrice base) ratioRat) (\<lambda>reasoning.
     Inr \<lparr>cpCurrency = cpCurrency base, cpPricingUnit = cpPricingUnit base,
          UncachedInputPrice = uncached, CacheReadInputPrice = cacheRead,
          CacheWrite5mInputPrice = cacheWrite5m, CacheWrite1hInputPrice = cacheWrite1h,
          CacheWrite30mInputPrice = cacheWrite30m, OutputPrice = output,
          ReasoningOutputPrice = reasoning, cpFormulaVersion = cpFormulaVersion base\<rparr>))))))))"

definition ModelPriceToProviderCost :: "CustomerPriceSnapshot \<Rightarrow> ProviderCostSnapshot" where
  "ModelPriceToProviderCost price =
     \<lparr>pcCurrency = cpCurrency price, pcPricingUnit = cpPricingUnit price,
      UncachedInputCost = UncachedInputPrice price, CacheReadInputCost = CacheReadInputPrice price,
      CacheWrite5mInputCost = CacheWrite5mInputPrice price,
      CacheWrite1hInputCost = CacheWrite1hInputPrice price,
      CacheWrite30mInputCost = CacheWrite30mInputPrice price, OutputCost = OutputPrice price,
      ReasoningOutputCost = ReasoningOutputPrice price, pcFormulaVersion = cpFormulaVersion price\<rparr>"

definition scaleProviderCostByRat ::
  "ProviderCostSnapshot \<Rightarrow> rat \<Rightarrow> (billing_error, ProviderCostSnapshot) go_result" where
  "scaleProviderCostByRat base multiplierRat =
     rbind (scaleRate (UncachedInputCost base) multiplierRat) (\<lambda>uncached.
     rbind (scaleRate (CacheReadInputCost base) multiplierRat) (\<lambda>cacheRead.
     rbind (scaleRate (CacheWrite5mInputCost base) multiplierRat) (\<lambda>cacheWrite5m.
     rbind (scaleRate (CacheWrite1hInputCost base) multiplierRat) (\<lambda>cacheWrite1h.
     rbind (scaleRate (CacheWrite30mInputCost base) multiplierRat) (\<lambda>cacheWrite30m.
     rbind (scaleRate (OutputCost base) multiplierRat) (\<lambda>output.
     rbind (scaleRate (ReasoningOutputCost base) multiplierRat) (\<lambda>reasoning.
     Inr \<lparr>pcCurrency = pcCurrency base, pcPricingUnit = pcPricingUnit base,
          UncachedInputCost = uncached, CacheReadInputCost = cacheRead,
          CacheWrite5mInputCost = cacheWrite5m, CacheWrite1hInputCost = cacheWrite1h,
          CacheWrite30mInputCost = cacheWrite30m, OutputCost = output,
          ReasoningOutputCost = reasoning, pcFormulaVersion = pcFormulaVersion base\<rparr>)))))))"

definition ScaleProviderCostByFactors ::
  "ProviderCostSnapshot \<Rightarrow> numeric \<Rightarrow> numeric \<Rightarrow> (billing_error, ProviderCostSnapshot) go_result" where
  "ScaleProviderCostByFactors base priceMultiplier rechargeFactor =
     rbind (requiredNonNegativeNumeric priceMultiplier) (\<lambda>priceRat.
     rbind (requiredNonNegativeNumeric rechargeFactor) (\<lambda>rechargeRat.
     scaleProviderCostByRat base (priceRat * rechargeRat)))"

subsection \<open>long_context.go\<close>

record LongContextPolicy =
  lcEnabled :: bool
  lcThreshold :: int
  lcInputMultiplier :: numeric
  lcOutputMultiplier :: numeric

definition Active :: "LongContextPolicy \<Rightarrow> bool" where
  "Active p \<longleftrightarrow>
     lcEnabled p \<and> lcThreshold p > 0 \<and> nValid (lcInputMultiplier p) \<and> nValid (lcOutputMultiplier p)"

text \<open>The \<open>int64\<close> addition of the loop body wraps.\<close>

fun lc_sum :: "int \<Rightarrow> TokenCount list \<Rightarrow> int" where
  "lc_sum s [] = s"
| "lc_sum s (c # cs) = (if IsKnown c \<and> tcValue c > 0 then lc_sum (wrap64 (s + tcValue c)) cs else lc_sum s cs)"

definition LongContextInputTokenSum :: "Facts \<Rightarrow> int" where
  "LongContextInputTokenSum facts = lc_sum 0
     [UncachedInputTokens facts, CacheReadInputTokens facts, CacheWrite5mInputTokens facts,
      CacheWrite1hInputTokens facts, CacheWrite30mInputTokens facts]"

definition ShouldApplyLongContext :: "LongContextPolicy \<Rightarrow> int \<Rightarrow> bool" where
  "ShouldApplyLongContext policy inputTokenSum \<longleftrightarrow> Active policy \<and> inputTokenSum > lcThreshold policy"

definition longContextMultiplierRats :: "LongContextPolicy \<Rightarrow> (billing_error, rat \<times> rat) go_result" where
  "longContextMultiplierRats policy =
     rbind (requiredPositiveNumeric (lcInputMultiplier policy)) (\<lambda>input.
     rbind (requiredPositiveNumeric (lcOutputMultiplier policy)) (\<lambda>output.
     Inr (input, output)))"

definition ApplyLongContextToCustomerPrice ::
  "CustomerPriceSnapshot \<Rightarrow> LongContextPolicy \<Rightarrow> int \<Rightarrow>
     (billing_error, CustomerPriceSnapshot \<times> bool) go_result" where
  "ApplyLongContextToCustomerPrice price policy inputTokenSum =
     (if \<not> ShouldApplyLongContext policy inputTokenSum then Inr (price, False)
      else rbind (longContextMultiplierRats policy) (\<lambda>(inRat, outRat).
        rbind (scaleRate (UncachedInputPrice price) inRat) (\<lambda>uncached.
        rbind (scaleRate (CacheReadInputPrice price) inRat) (\<lambda>cacheRead.
        rbind (scaleRate (CacheWrite5mInputPrice price) inRat) (\<lambda>cacheWrite5m.
        rbind (scaleRate (CacheWrite1hInputPrice price) inRat) (\<lambda>cacheWrite1h.
        rbind (scaleRate (CacheWrite30mInputPrice price) inRat) (\<lambda>cacheWrite30m.
        rbind (scaleRate (OutputPrice price) outRat) (\<lambda>output.
        rbind (scaleRate (ReasoningOutputPrice price) outRat) (\<lambda>reasoning.
        Inr (\<lparr>cpCurrency = cpCurrency price, cpPricingUnit = cpPricingUnit price,
              UncachedInputPrice = uncached, CacheReadInputPrice = cacheRead,
              CacheWrite5mInputPrice = cacheWrite5m, CacheWrite1hInputPrice = cacheWrite1h,
              CacheWrite30mInputPrice = cacheWrite30m, OutputPrice = output,
              ReasoningOutputPrice = reasoning, cpFormulaVersion = cpFormulaVersion price\<rparr>,
             True))))))))))"

definition ApplyLongContextToProviderCost ::
  "ProviderCostSnapshot \<Rightarrow> LongContextPolicy \<Rightarrow> int \<Rightarrow>
     (billing_error, ProviderCostSnapshot \<times> bool) go_result" where
  "ApplyLongContextToProviderCost cost policy inputTokenSum =
     (if \<not> ShouldApplyLongContext policy inputTokenSum then Inr (cost, False)
      else rbind (longContextMultiplierRats policy) (\<lambda>(inRat, outRat).
        rbind (scaleRate (UncachedInputCost cost) inRat) (\<lambda>uncached.
        rbind (scaleRate (CacheReadInputCost cost) inRat) (\<lambda>cacheRead.
        rbind (scaleRate (CacheWrite5mInputCost cost) inRat) (\<lambda>cacheWrite5m.
        rbind (scaleRate (CacheWrite1hInputCost cost) inRat) (\<lambda>cacheWrite1h.
        rbind (scaleRate (CacheWrite30mInputCost cost) inRat) (\<lambda>cacheWrite30m.
        rbind (scaleRate (OutputCost cost) outRat) (\<lambda>output.
        rbind (scaleRate (ReasoningOutputCost cost) outRat) (\<lambda>reasoning.
        Inr (\<lparr>pcCurrency = pcCurrency cost, pcPricingUnit = pcPricingUnit cost,
              UncachedInputCost = uncached, CacheReadInputCost = cacheRead,
              CacheWrite5mInputCost = cacheWrite5m, CacheWrite1hInputCost = cacheWrite1h,
              CacheWrite30mInputCost = cacheWrite30m, OutputCost = output,
              ReasoningOutputCost = reasoning, pcFormulaVersion = pcFormulaVersion cost\<rparr>,
             True))))))))))"

subsection \<open>service.go\<close>

record billableUsage =
  buUncachedInputTokens :: int
  buCacheReadInputTokens :: int
  buCacheWrite5mInputTokens :: int
  buCacheWrite1hInputTokens :: int
  buCacheWrite30mInputTokens :: int
  buOutputTokensTotal :: int
  buReasoningOutputTokens :: int

definition normalizeUsageFacts :: "Facts \<Rightarrow> (billing_error, billableUsage) go_result" where
  "normalizeUsageFacts facts =
     (if \<not> Facts_Valid facts then Inl ErrInvalidUsage
      else
        (let (uncachedInput, uncachedInputOK) = BillableValue (UncachedInputTokens facts);
             (cacheReadInput, cacheReadInputOK) = BillableValue (CacheReadInputTokens facts);
             (cacheWrite5mInput, cacheWrite5mInputOK) = BillableValue (CacheWrite5mInputTokens facts);
             (cacheWrite1hInput, cacheWrite1hInputOK) = BillableValue (CacheWrite1hInputTokens facts);
             (cacheWrite30mInput, cacheWrite30mInputOK) = BillableValue (CacheWrite30mInputTokens facts);
             (outputTotal, outputTotalOK) = BillableValue (OutputTokensTotal facts);
             (reasoningOutput, reasoningOutputOK) = BillableValue (ReasoningOutputTokens facts)
         in if \<not> uncachedInputOK \<or> \<not> cacheReadInputOK \<or> \<not> cacheWrite5mInputOK \<or>
               \<not> cacheWrite1hInputOK \<or> \<not> cacheWrite30mInputOK \<or> \<not> outputTotalOK \<or> \<not> reasoningOutputOK
            then Inl ErrInvalidUsage
            else Inr \<lparr>buUncachedInputTokens = uncachedInput, buCacheReadInputTokens = cacheReadInput,
                      buCacheWrite5mInputTokens = cacheWrite5mInput,
                      buCacheWrite1hInputTokens = cacheWrite1hInput,
                      buCacheWrite30mInputTokens = cacheWrite30mInput,
                      buOutputTokensTotal = outputTotal,
                      buReasoningOutputTokens = reasoningOutput\<rparr>))"

definition tokenAmount :: "rat \<Rightarrow> int \<Rightarrow> rat" where
  "tokenAmount unitPrice tokens = tokenCost unitPrice tokens / 1000000"

record tokenAmountBreakdown =
  UncachedInputAmount :: rat
  CacheReadInputAmount :: rat
  CacheWrite5mInputAmount :: rat
  CacheWrite1hInputAmount :: rat
  CacheWrite30mInputAmount :: rat
  OutputAmount :: rat
  ReasoningOutputAmount :: rat
  TotalAmount :: rat

definition calculateTokenAmountBreakdown ::
  "billableUsage \<Rightarrow> tokenRates \<Rightarrow> tokenAmountBreakdown" where
  "calculateTokenAmountBreakdown usage rates =
     (let normalOutput = wrap64 (buOutputTokensTotal usage - buReasoningOutputTokens usage);
          uncachedInputAmount = tokenAmount (UncachedInputRate rates) (buUncachedInputTokens usage);
          cacheReadInputAmount = tokenAmount (CacheReadInputRate rates) (buCacheReadInputTokens usage);
          cacheWrite5mInputAmount =
            tokenAmount (CacheWrite5mInputRate rates) (buCacheWrite5mInputTokens usage);
          cacheWrite1hInputAmount =
            tokenAmount (CacheWrite1hInputRate rates) (buCacheWrite1hInputTokens usage);
          cacheWrite30mInputAmount =
            tokenAmount (CacheWrite30mInputRate rates) (buCacheWrite30mInputTokens usage);
          outputAmount = tokenAmount (OutputRate rates) normalOutput;
          reasoningOutputAmount =
            tokenAmount (ReasoningOutputRate rates) (buReasoningOutputTokens usage);
          totalAmount = 0 + uncachedInputAmount + cacheReadInputAmount + cacheWrite5mInputAmount
            + cacheWrite1hInputAmount + cacheWrite30mInputAmount + outputAmount + reasoningOutputAmount
      in \<lparr>UncachedInputAmount = uncachedInputAmount, CacheReadInputAmount = cacheReadInputAmount,
          CacheWrite5mInputAmount = cacheWrite5mInputAmount,
          CacheWrite1hInputAmount = cacheWrite1hInputAmount,
          CacheWrite30mInputAmount = cacheWrite30mInputAmount, OutputAmount = outputAmount,
          ReasoningOutputAmount = reasoningOutputAmount, TotalAmount = totalAmount\<rparr>)"

definition CalculateCustomerCharge ::
  "Facts \<Rightarrow> CustomerPriceSnapshot \<Rightarrow> (billing_error, CustomerCharge) go_result" where
  "CalculateCustomerCharge facts price =
     rbind (normalizeUsageFacts facts) (\<lambda>billableUsage.
     rbind (normalizeCustomerPriceRates price) (\<lambda>rates.
       let amounts = calculateTokenAmountBreakdown billableUsage rates
       in Inr \<lparr>chAmount = ratToNumeric (TotalAmount amounts) amountDecimalScale,
               chCurrency = trCurrency rates, chFormulaVersion = trFormulaVersion rates\<rparr>))"

definition CalculateProviderCost ::
  "Facts \<Rightarrow> ProviderCostSnapshot \<Rightarrow> (billing_error, ProviderCost) go_result" where
  "CalculateProviderCost facts cost =
     rbind (normalizeUsageFacts facts) (\<lambda>billableUsage.
     rbind (normalizeProviderCostRates cost) (\<lambda>rates.
       let amounts = calculateTokenAmountBreakdown billableUsage rates;
           uncachedInput = ratToNumeric (UncachedInputAmount amounts) amountDecimalScale;
           cacheReadInput = ratToNumeric (CacheReadInputAmount amounts) amountDecimalScale;
           cacheWrite5mInput = ratToNumeric (CacheWrite5mInputAmount amounts) amountDecimalScale;
           cacheWrite1hInput = ratToNumeric (CacheWrite1hInputAmount amounts) amountDecimalScale;
           cacheWrite30mInput = ratToNumeric (CacheWrite30mInputAmount amounts) amountDecimalScale;
           outputCost = ratToNumeric (OutputAmount amounts) amountDecimalScale;
           reasoningOutput = ratToNumeric (ReasoningOutputAmount amounts) amountDecimalScale
       in case sumRoundedNumerics amountDecimalScale
                 [uncachedInput, cacheReadInput, cacheWrite5mInput, cacheWrite1hInput,
                  cacheWrite30mInput, outputCost, reasoningOutput] of
            None \<Rightarrow> Inl Panic
          | Some totalCost \<Rightarrow>
              Inr \<lparr>UncachedInputCostAmount = uncachedInput, CacheReadInputCostAmount = cacheReadInput,
                   CacheWrite5mInputCostAmount = cacheWrite5mInput,
                   CacheWrite1hInputCostAmount = cacheWrite1hInput,
                   CacheWrite30mInputCostAmount = cacheWrite30mInput, OutputCostAmount = outputCost,
                   ReasoningOutputCostAmount = reasoningOutput, TotalCostAmount = totalCost,
                   costCurrency = trCurrency rates, costFormulaVersion = trFormulaVersion rates\<rparr>))"

definition EstimateAuthorizationAmount ::
  "AuthorizationEstimate \<Rightarrow> CustomerPriceSnapshot \<Rightarrow> (billing_error, CustomerCharge) go_result" where
  "EstimateAuthorizationAmount estimate price =
     (if estInputTokens estimate < 0 \<or> estMaxCompletionTokens estimate < 0 then Inl ErrInvalidUsage
      else rbind (normalizeCustomerPriceRates price) (\<lambda>rates.
        let maxInputRate =
              maxRat (maxRat (UncachedInputRate rates) (CacheReadInputRate rates))
                (maxRat (maxRat (CacheWrite5mInputRate rates) (CacheWrite1hInputRate rates))
                  (CacheWrite30mInputRate rates));
            maxCompletionRate = maxRat (OutputRate rates) (ReasoningOutputRate rates);
            amount = (0 + tokenCost maxInputRate (estInputTokens estimate)
              + tokenCost maxCompletionRate (estMaxCompletionTokens estimate)) / 1000000
        in Inr \<lparr>chAmount = ratToNumeric amount amountDecimalScale,
                chCurrency = trCurrency rates, chFormulaVersion = trFormulaVersion rates\<rparr>))"

subsection \<open>margin.go and cost_ratio.go\<close>

record normalizedRatePair =
  rpComponent :: string
  rpSale :: rat
  rpCost :: rat

text \<open>\<open>Sale\<close> and \<open>Cost\<close> are the exact rationals that the source prints with \<open>RatString\<close>.\<close>

record MarginViolation =
  mvComponent :: string
  mvSale :: rat
  mvCost :: rat

definition normalizedSaleCostPairs ::
  "CustomerPriceSnapshot \<Rightarrow> ProviderCostSnapshot \<Rightarrow> (billing_error, normalizedRatePair list) go_result" where
  "normalizedSaleCostPairs sale cost =
     (if cpCurrency sale \<noteq> pcCurrency cost \<or> cpPricingUnit sale \<noteq> pcPricingUnit cost
      then Inl ErrSaleCostMismatch
      else
        rbind (normalizeCustomerPriceRates sale) (\<lambda>saleRates.
        rbind (normalizeProviderCostRates cost) (\<lambda>costRates.
        Inr [\<lparr>rpComponent = ''uncached_input'', rpSale = UncachedInputRate saleRates, rpCost = UncachedInputRate costRates\<rparr>,
             \<lparr>rpComponent = ''cache_read_input'', rpSale = CacheReadInputRate saleRates, rpCost = CacheReadInputRate costRates\<rparr>,
             \<lparr>rpComponent = ''cache_write_5m_input'', rpSale = CacheWrite5mInputRate saleRates, rpCost = CacheWrite5mInputRate costRates\<rparr>,
             \<lparr>rpComponent = ''cache_write_1h_input'', rpSale = CacheWrite1hInputRate saleRates, rpCost = CacheWrite1hInputRate costRates\<rparr>,
             \<lparr>rpComponent = ''cache_write_30m_input'', rpSale = CacheWrite30mInputRate saleRates, rpCost = CacheWrite30mInputRate costRates\<rparr>,
             \<lparr>rpComponent = ''output'', rpSale = OutputRate saleRates, rpCost = OutputRate costRates\<rparr>,
             \<lparr>rpComponent = ''reasoning_output'', rpSale = ReasoningOutputRate saleRates, rpCost = ReasoningOutputRate costRates\<rparr>])))"

definition ValidateNonNegativeMargin ::
  "CustomerPriceSnapshot \<Rightarrow> ProviderCostSnapshot \<Rightarrow> (billing_error, MarginViolation list) go_result" where
  "ValidateNonNegativeMargin sale cost =
     rbind (normalizedSaleCostPairs sale cost) (\<lambda>pairs.
     Inr (map (\<lambda>pair. \<lparr>mvComponent = rpComponent pair, mvSale = rpSale pair, mvCost = rpCost pair\<rparr>)
       (filter (\<lambda>pair. rpSale pair < rpCost pair) pairs)))"

text \<open>
  The loop of \<open>ProviderCostToSaleRatio\<close>, up to the exact maximum it converts; the conversion to
  \<open>float64\<close> (and its check for an infinite result) is not modelled.
\<close>

fun max_ratio :: "rat \<Rightarrow> normalizedRatePair list \<Rightarrow> (billing_error, rat) go_result" where
  "max_ratio maximum [] = Inr maximum"
| "max_ratio maximum (pair # pairs) =
     (if rpSale pair = 0 then
        (if rpCost pair = 0 then max_ratio maximum pairs else Inl ErrInvalidRate)
      else let ratio = rpCost pair / rpSale pair
        in max_ratio (if ratio > maximum then ratio else maximum) pairs)"

definition ProviderCostToSaleRatio ::
  "CustomerPriceSnapshot \<Rightarrow> ProviderCostSnapshot \<Rightarrow> (billing_error, rat) go_result" where
  "ProviderCostToSaleRatio sale cost =
     rbind (normalizedSaleCostPairs sale cost) (\<lambda>pairs. max_ratio 0 pairs)"

subsection \<open>Rates\<close>

lemma requiredNonNegativeNumeric_Inr [result_simps]:
  "requiredNonNegativeNumeric v = Inr r \<longleftrightarrow> numericToRat v = Inr r \<and> 0 \<le> r"
  by (cases "numericToRat v") (auto simp: requiredNonNegativeNumeric_def)

lemma requiredPositiveNumeric_Inr [result_simps]:
  "requiredPositiveNumeric v = Inr r \<longleftrightarrow> numericToRat v = Inr r \<and> 0 < r"
  by (cases "numericToRat v") (auto simp: requiredPositiveNumeric_def requiredNonNegativeNumeric_def)

lemma numericToRat_error: "numericToRat v = Inl e \<Longrightarrow> e = ErrInvalidRate"
  by (auto simp: numericToRat_val split: if_splits)

lemma requiredNonNegativeNumeric_error: "requiredNonNegativeNumeric v = Inl e \<Longrightarrow> e = ErrInvalidRate"
  by (auto simp: requiredNonNegativeNumeric_def rbind_Inl_iff dest: numericToRat_error split: if_splits)

lemma optionalRate_Inr [result_simps]:
  "optionalRate base v = Inr r \<longleftrightarrow> (if nValid v then numericToRat v = Inr r \<and> 0 \<le> r else r = base)"
  by (auto simp: optionalRate_def requiredNonNegativeNumeric_Inr)

lemma optionalRate_error: "optionalRate base v = Inl e \<Longrightarrow> e = ErrInvalidRate"
  by (auto simp: optionalRate_def dest: requiredNonNegativeNumeric_error split: if_splits)

definition rate_list :: "tokenRates \<Rightarrow> rat list" where
  "rate_list r =
     [UncachedInputRate r, CacheReadInputRate r, CacheWrite5mInputRate r, CacheWrite1hInputRate r,
      CacheWrite30mInputRate r, OutputRate r, ReasoningOutputRate r]"

text \<open>The configured value of a component, or the value it falls back to.\<close>

definition rate_or :: "rat \<Rightarrow> numeric \<Rightarrow> rat" where
  "rate_or base v = (case numericToRat v of Inl _ \<Rightarrow> base | Inr r \<Rightarrow> r)"

text \<open>What \<open>normalizeTokenRates\<close> accepts: everything it checks, without the order.\<close>

definition rate_ok :: "numeric \<Rightarrow> bool" where
  "rate_ok v \<longleftrightarrow> (\<exists>r. numericToRat v = Inr r \<and> 0 \<le> r)"

definition snapshot_ok :: "tokenRateSnapshot \<Rightarrow> bool" where
  "snapshot_ok s \<longleftrightarrow>
     rsPricingUnit s = PricingUnitPer1MTokens \<and> rsCurrency s \<noteq> '''' \<and>
     rsFormulaVersion s \<in> {'''', FormulaVersionV1} \<and>
     rate_ok (rsUncachedInputRate s) \<and> rate_ok (rsOutputRate s) \<and>
     (\<forall>v \<in> set [rsCacheReadInputRate s, rsCacheWrite5mInputRate s, rsCacheWrite1hInputRate s,
        rsCacheWrite30mInputRate s, rsReasoningOutputRate s]. nValid v \<longrightarrow> rate_ok v)"

definition snapshot_rates :: "tokenRateSnapshot \<Rightarrow> tokenRates" where
  "snapshot_rates s =
     (let u = rate_or 0 (rsUncachedInputRate s); o' = rate_or 0 (rsOutputRate s)
      in \<lparr>trCurrency = rsCurrency s, trFormulaVersion = FormulaVersionV1,
          UncachedInputRate = u, CacheReadInputRate = rate_or u (rsCacheReadInputRate s),
          CacheWrite5mInputRate = rate_or u (rsCacheWrite5mInputRate s),
          CacheWrite1hInputRate = rate_or u (rsCacheWrite1hInputRate s),
          CacheWrite30mInputRate = rate_or u (rsCacheWrite30mInputRate s),
          OutputRate = o', ReasoningOutputRate = rate_or o' (rsReasoningOutputRate s)\<rparr>)"

lemma rate_ok_finite:
  "rate_ok v \<longleftrightarrow> finite_num v \<and> (case nInt v of None \<Rightarrow> True | Some i \<Rightarrow> 0 \<le> i)"
  by (auto simp: rate_ok_def numericToRat_val split: option.splits)

lemma rate_okE:
  assumes "rate_ok v"
  obtains r where "numericToRat v = Inr r" "requiredNonNegativeNumeric v = Inr r" "0 \<le> r"
    "rate_or b v = r"
  using assms by (auto simp: rate_ok_def requiredNonNegativeNumeric_Inr rate_or_def)

lemma requiredNonNegativeNumeric_if:
  "requiredNonNegativeNumeric v = (if rate_ok v then Inr (rate_or b v) else Inl ErrInvalidRate)"
proof (cases "requiredNonNegativeNumeric v")
  case (Inl e)
  then show ?thesis using requiredNonNegativeNumeric_error [OF Inl] by (auto elim: rate_okE)
next
  case (Inr r)
  then show ?thesis by (auto simp: requiredNonNegativeNumeric_Inr rate_ok_def rate_or_def)
qed

lemma numericToRat_invalid: "\<not> nValid v \<Longrightarrow> numericToRat v = Inl ErrInvalidRate"
  by (simp add: numericToRat_def)

lemma optionalRate_if:
  "optionalRate b v = (if nValid v \<longrightarrow> rate_ok v then Inr (rate_or b v) else Inl ErrInvalidRate)"
  by (auto simp: optionalRate_def requiredNonNegativeNumeric_if [of v b] rate_or_def numericToRat_invalid)

lemma normalizeTokenRates_ok: "snapshot_ok s \<Longrightarrow> normalizeTokenRates s = Inr (snapshot_rates s)"
  by (auto simp: normalizeTokenRates_def snapshot_ok_def snapshot_rates_def Let_def optionalRate_if
      requiredNonNegativeNumeric_if [of _ 0] FormulaVersionV1_def)

lemma normalizeTokenRates_bad:
  assumes "\<not> snapshot_ok s"
  shows "normalizeTokenRates s =
    Inl (if rsPricingUnit s \<noteq> PricingUnitPer1MTokens then ErrUnsupportedPricingUnit
         else if rsCurrency s = '''' then ErrInvalidRate
         else if rsFormulaVersion s \<notin> {'''', FormulaVersionV1} then ErrUnsupportedFormula
         else ErrInvalidRate)"
  using assms
  by (auto simp: normalizeTokenRates_def snapshot_ok_def Let_def optionalRate_if
      requiredNonNegativeNumeric_if [of _ 0] FormulaVersionV1_def)

lemma normalizeTokenRates_Inr [result_simps]:
  "normalizeTokenRates s = Inr r \<longleftrightarrow> snapshot_ok s \<and> r = snapshot_rates s"
  by (cases "snapshot_ok s") (auto simp: normalizeTokenRates_ok normalizeTokenRates_bad)

lemma rate_or_nonneg: "0 \<le> b \<Longrightarrow> nValid v \<longrightarrow> rate_ok v \<Longrightarrow> 0 \<le> rate_or b v"
  by (cases "nValid v") (auto simp: rate_or_def rate_ok_def numericToRat_invalid)

lemma snapshot_rates_nonneg: "snapshot_ok s \<Longrightarrow> list_all (\<lambda>x. 0 \<le> x) (rate_list (snapshot_rates s))"
proof -
  assume s: "snapshot_ok s"
  then have "0 \<le> rate_or 0 (rsUncachedInputRate s)" "0 \<le> rate_or 0 (rsOutputRate s)"
    by (simp_all add: snapshot_ok_def rate_or_nonneg)
  with s show ?thesis
    by (auto simp: rate_list_def snapshot_rates_def snapshot_ok_def Let_def intro!: rate_or_nonneg)
qed

definition customer_rs :: "CustomerPriceSnapshot \<Rightarrow> tokenRateSnapshot" where
  "customer_rs price =
     \<lparr>rsCurrency = cpCurrency price, rsPricingUnit = cpPricingUnit price,
      rsUncachedInputRate = UncachedInputPrice price, rsCacheReadInputRate = CacheReadInputPrice price,
      rsCacheWrite5mInputRate = CacheWrite5mInputPrice price,
      rsCacheWrite1hInputRate = CacheWrite1hInputPrice price,
      rsCacheWrite30mInputRate = CacheWrite30mInputPrice price,
      rsOutputRate = OutputPrice price, rsReasoningOutputRate = ReasoningOutputPrice price,
      rsFormulaVersion = cpFormulaVersion price\<rparr>"

definition provider_rs :: "ProviderCostSnapshot \<Rightarrow> tokenRateSnapshot" where
  "provider_rs cost =
     \<lparr>rsCurrency = pcCurrency cost, rsPricingUnit = pcPricingUnit cost,
      rsUncachedInputRate = UncachedInputCost cost, rsCacheReadInputRate = CacheReadInputCost cost,
      rsCacheWrite5mInputRate = CacheWrite5mInputCost cost,
      rsCacheWrite1hInputRate = CacheWrite1hInputCost cost,
      rsCacheWrite30mInputRate = CacheWrite30mInputCost cost,
      rsOutputRate = OutputCost cost, rsReasoningOutputRate = ReasoningOutputCost cost,
      rsFormulaVersion = pcFormulaVersion cost\<rparr>"

lemma normalize_rs:
  "normalizeCustomerPriceRates price = normalizeTokenRates (customer_rs price)"
  "normalizeProviderCostRates cost = normalizeTokenRates (provider_rs cost)"
  by (simp_all add: normalizeCustomerPriceRates_def customer_rs_def normalizeProviderCostRates_def
      provider_rs_def)

subsection \<open>Usage and amounts\<close>

definition usage_of :: "Facts \<Rightarrow> billableUsage" where
  "usage_of f =
     \<lparr>buUncachedInputTokens = billed (UncachedInputTokens f),
      buCacheReadInputTokens = billed (CacheReadInputTokens f),
      buCacheWrite5mInputTokens = billed (CacheWrite5mInputTokens f),
      buCacheWrite1hInputTokens = billed (CacheWrite1hInputTokens f),
      buCacheWrite30mInputTokens = billed (CacheWrite30mInputTokens f),
      buOutputTokensTotal = billed (OutputTokensTotal f),
      buReasoningOutputTokens = billed (ReasoningOutputTokens f)\<rparr>"

definition usage_ok :: "Facts \<Rightarrow> bool" where
  "usage_ok f \<longleftrightarrow> Facts_Valid f \<and> list_all billable (facts_counts f)"

lemma normalizeUsageFacts_if:
  "normalizeUsageFacts f = (if usage_ok f then Inr (usage_of f) else Inl ErrInvalidUsage)"
proof -
  have pair: "(let (v, ok) = p in g v ok) = g (fst p) (snd p)" for p :: "int \<times> bool" and g :: "int \<Rightarrow> bool \<Rightarrow> 'a"
    by (simp add: case_prod_beta)
  show ?thesis
    unfolding normalizeUsageFacts_def pair
    by (simp add: usage_ok_def facts_counts_def usage_of_def del: split_paired_All)
qed

text \<open>The billed tokens, in the order of the rates: what is not reasoning is normal output.\<close>

definition usage_counts :: "Facts \<Rightarrow> int list" where
  "usage_counts f =
     [billed (UncachedInputTokens f), billed (CacheReadInputTokens f),
      billed (CacheWrite5mInputTokens f), billed (CacheWrite1hInputTokens f),
      billed (CacheWrite30mInputTokens f), billed (OutputTokensTotal f) - billed (ReasoningOutputTokens f),
      billed (ReasoningOutputTokens f)]"

text \<open>The counts of a response are Go \<open>int64\<close> values.\<close>

definition counts_int64 :: "Facts \<Rightarrow> bool" where
  "counts_int64 f \<longleftrightarrow> list_all (\<lambda>c. is_int64 (tcValue c)) (facts_counts f)"

text \<open>
  \<open>Valid\<close> compares reasoning and output tokens only when both are known. Reasoning tokens are part of the output when the
  output is known, or when there are none.
\<close>

lemma reasoning_le_output:
  assumes "usage_ok f" "IsKnown (OutputTokensTotal f) \<or> tcValue (ReasoningOutputTokens f) = 0"
  shows "billed (ReasoningOutputTokens f) \<le> billed (OutputTokensTotal f)"
proof -
  have valid: "IsKnown (ReasoningOutputTokens f) \<longrightarrow> IsKnown (OutputTokensTotal f) \<longrightarrow>
      tcValue (ReasoningOutputTokens f) \<le> tcValue (OutputTokensTotal f)"
    and pos: "0 \<le> billed (OutputTokensTotal f)"
    using assms(1) by (simp_all add: usage_ok_def Facts_Valid_iff facts_counts_def billable_nonneg)
  then show ?thesis using assms(2) by (auto simp: billed_eq IsKnown_def split: if_splits)
qed

lemma usage_counts_nonneg:
  assumes "usage_ok f" "IsKnown (OutputTokensTotal f) \<or> tcValue (ReasoningOutputTokens f) = 0"
  shows "list_all (\<lambda>n. 0 \<le> n) (usage_counts f)"
  using assms(1) reasoning_le_output [OF assms]
  by (auto simp: usage_ok_def facts_counts_def usage_counts_def billable_nonneg)

definition exact_amounts :: "tokenRates \<Rightarrow> Facts \<Rightarrow> rat list" where
  "exact_amounts rates f = map2 (\<lambda>r n. r * of_int n / 10 ^ 6) (rate_list rates) (usage_counts f)"

lemma exact_amounts_nonneg:
  assumes "list_all (\<lambda>x. 0 \<le> x) (rate_list rates)" "list_all (\<lambda>n. 0 \<le> n) (usage_counts f)"
  shows "list_all (\<lambda>x. 0 \<le> x) (exact_amounts rates f)"
  using assms by (simp add: exact_amounts_def rate_list_def usage_counts_def)

lemma wrap_normal_output:
  assumes "usage_ok f" "counts_int64 f"
  shows "wrap64 (billed (OutputTokensTotal f) - billed (ReasoningOutputTokens f))
    = billed (OutputTokensTotal f) - billed (ReasoningOutputTokens f)"
proof (rule wrap64_id)
  have "0 \<le> billed (ReasoningOutputTokens f)" "0 \<le> billed (OutputTokensTotal f)"
    using assms(1) by (simp_all add: usage_ok_def facts_counts_def billable_nonneg)
  moreover have "is_int64 (billed (OutputTokensTotal f))" "is_int64 (billed (ReasoningOutputTokens f))"
    using assms(2) by (simp_all add: counts_int64_def facts_counts_def billed_eq is_int64_def int64_min_def int64_max_def)
  ultimately show "is_int64 (billed (OutputTokensTotal f) - billed (ReasoningOutputTokens f))"
    by (simp add: is_int64_def int64_min_def int64_max_def)
qed

lemma breakdown_exact:
  assumes "usage_ok f" "counts_int64 f" and "b = calculateTokenAmountBreakdown (usage_of f) rates"
  shows "[UncachedInputAmount b, CacheReadInputAmount b, CacheWrite5mInputAmount b,
          CacheWrite1hInputAmount b, CacheWrite30mInputAmount b, OutputAmount b, ReasoningOutputAmount b]
         = exact_amounts rates f"
    and "TotalAmount b = sum_list (exact_amounts rates f)"
  using wrap_normal_output [OF assms(1,2)]
  by (simp_all add: assms(3) calculateTokenAmountBreakdown_def Let_def usage_of_def tokenAmount_def
      tokenCost_def exact_amounts_def rate_list_def usage_counts_def)

lemma CalculateCustomerCharge_eq:
  "CalculateCustomerCharge f price =
     (if \<not> usage_ok f then Inl ErrInvalidUsage
      else rbind (normalizeTokenRates (customer_rs price)) (\<lambda>rates.
        Inr \<lparr>chAmount = ratToNumeric (TotalAmount (calculateTokenAmountBreakdown (usage_of f) rates)) 10,
             chCurrency = trCurrency rates, chFormulaVersion = trFormulaVersion rates\<rparr>))"
  by (simp add: CalculateCustomerCharge_def normalizeUsageFacts_if normalize_rs Let_def
      amountDecimalScale_def)

text \<open>
  How amounts are rounded: halves up, and a negative amount towards zero (Go's integer division truncates, and the remainder
  of a negative number never reaches half of the divisor).
\<close>

definition half_up :: "rat \<Rightarrow> int" where
  "half_up x = (if 0 \<le> x then \<lfloor>x + 1 / 2\<rfloor> else \<lceil>x\<rceil>)"

lemma roundHalfUp_half_up: "roundHalfUp x = half_up x"
  by (simp add: half_up_def roundHalfUp_nonneg roundHalfUp_neg ceiling_def)

lemma half_up_negative: "half_up x < 0 \<longleftrightarrow> x \<le> - 1"
proof (cases "0 \<le> x")
  case True
  then show ?thesis by (simp add: half_up_def not_less)
next
  case False
  then show ?thesis by (simp add: half_up_def ceiling_less_iff)
qed

lemma CalculateCustomerCharge_Inr_iff:
  assumes "counts_int64 f"
  shows "CalculateCustomerCharge f price = Inr c \<longleftrightarrow> usage_ok f \<and> snapshot_ok (customer_rs price) \<and>
    c = \<lparr>chAmount = mkNumeric (roundHalfUp (sum_list (exact_amounts (snapshot_rates (customer_rs price)) f) * 10 ^ 10)) (- 10), chCurrency = cpCurrency price,
      chFormulaVersion = FormulaVersionV1\<rparr>"
proof (cases "usage_ok f \<and> snapshot_ok (customer_rs price)")
  case True
  then have "TotalAmount (calculateTokenAmountBreakdown (usage_of f) (snapshot_rates (customer_rs price))) =
      sum_list (exact_amounts (snapshot_rates (customer_rs price)) f)"
    using breakdown_exact(2) [OF _ assms refl] by simp
  moreover have "trCurrency (snapshot_rates (customer_rs price)) = cpCurrency price"
    "trFormulaVersion (snapshot_rates (customer_rs price)) = FormulaVersionV1"
    by (simp_all add: snapshot_rates_def customer_rs_def Let_def)
  ultimately show ?thesis
    using True by (auto simp: CalculateCustomerCharge_eq normalizeTokenRates_ok ratToNumeric_10)
next
  case False
  then show ?thesis by (auto simp: CalculateCustomerCharge_eq rbind_Inr_iff normalizeTokenRates_Inr)
qed

lemma CalculateCustomerCharge_Inr:
  assumes "CalculateCustomerCharge f price = Inr c" "counts_int64 f"
    and "IsKnown (OutputTokensTotal f) \<or> tcValue (ReasoningOutputTokens f) = 0"
  defines "rates \<equiv> snapshot_rates (customer_rs price)"
  shows "usage_ok f" "snapshot_ok (customer_rs price)"
    and "chAmount c = mkNumeric (roundHalfUp (sum_list (exact_amounts rates f) * 10 ^ 10)) (- 10)"
    and "chCurrency c = cpCurrency price" "0 \<le> sum_list (exact_amounts rates f)"
proof -
  note charge = assms(1) [unfolded CalculateCustomerCharge_Inr_iff [OF assms(2)]]
  then show u: "usage_ok f" and s: "snapshot_ok (customer_rs price)"
    and "chAmount c = mkNumeric (roundHalfUp (sum_list (exact_amounts rates f) * 10 ^ 10)) (- 10)"
    and "chCurrency c = cpCurrency price" by (simp_all add: rates_def)
  show "0 \<le> sum_list (exact_amounts rates f)"
    using exact_amounts_nonneg [OF snapshot_rates_nonneg [OF s] usage_counts_nonneg [OF u assms(3)]]
    unfolding rates_def by (intro sum_list_nonneg) (auto simp: list_all_iff)
qed

lemma sumRounded_map:
  "sumRoundedNumerics 10 (map (\<lambda>x. ratToNumeric x 10) xs)
     = Some (mkNumeric (sum_list (map (\<lambda>x. roundHalfUp (x * 10 ^ 10)) xs)) (- 10))"
proof -
  have "map (\<lambda>x. ratToNumeric x 10) xs
      = map (\<lambda>i. mkNumeric i (- 10)) (map (\<lambda>x. roundHalfUp (x * 10 ^ 10)) xs)"
    by (simp add: ratToNumeric_10 o_def)
  then show ?thesis by (simp only: sumRoundedNumerics_def sumInts_map) simp
qed

definition provider_amounts :: "ProviderCost \<Rightarrow> numeric list" where
  "provider_amounts c =
     [UncachedInputCostAmount c, CacheReadInputCostAmount c, CacheWrite5mInputCostAmount c,
      CacheWrite1hInputCostAmount c, CacheWrite30mInputCostAmount c, OutputCostAmount c,
      ReasoningOutputCostAmount c]"

definition breakdown_list :: "tokenAmountBreakdown \<Rightarrow> rat list" where
  "breakdown_list b =
     [UncachedInputAmount b, CacheReadInputAmount b, CacheWrite5mInputAmount b,
      CacheWrite1hInputAmount b, CacheWrite30mInputAmount b, OutputAmount b, ReasoningOutputAmount b]"

text \<open>The shape of a provider cost: seven rounded amounts and their exact sum. It never panics.\<close>

definition cost_record :: "string \<Rightarrow> string \<Rightarrow> rat list \<Rightarrow> ProviderCost \<Rightarrow> bool" where
  "cost_record cur ver xs c \<longleftrightarrow>
     provider_amounts c = map (\<lambda>x. ratToNumeric x 10) xs \<and>
     TotalCostAmount c = mkNumeric (sum_list (map (\<lambda>x. roundHalfUp (x * 10 ^ 10)) xs)) (- 10) \<and>
     costCurrency c = cur \<and> costFormulaVersion c = ver"

lemma CalculateProviderCost_ok:
  assumes "usage_ok f" "snapshot_ok (provider_rs cost)"
  defines "rates \<equiv> snapshot_rates (provider_rs cost)"
  obtains c where "CalculateProviderCost f cost = Inr c"
    and "cost_record (pcCurrency cost) FormulaVersionV1
      (breakdown_list (calculateTokenAmountBreakdown (usage_of f) rates)) c"
proof -
  define b where "b = calculateTokenAmountBreakdown (usage_of f) rates"
  have rates: "trCurrency rates = pcCurrency cost" "trFormulaVersion rates = FormulaVersionV1"
    by (simp_all add: rates_def snapshot_rates_def provider_rs_def Let_def)
  have "sumRoundedNumerics 10 (map (\<lambda>x. ratToNumeric x 10) (breakdown_list b))
      = Some (mkNumeric (sum_list (map (\<lambda>x. roundHalfUp (x * 10 ^ 10)) (breakdown_list b))) (- 10))"
    by (rule sumRounded_map)
  then have "\<exists>c. CalculateProviderCost f cost = Inr c \<and>
      cost_record (pcCurrency cost) FormulaVersionV1 (breakdown_list b) c"
    using assms(1,2) rates
    by (simp add: CalculateProviderCost_def normalizeUsageFacts_if normalize_rs normalizeTokenRates_ok
        rates_def [symmetric] b_def [symmetric] Let_def amountDecimalScale_def breakdown_list_def
        cost_record_def provider_amounts_def)
  then show ?thesis using that by (auto simp: b_def)
qed

lemma CalculateProviderCost_bad:
  "\<not> usage_ok f \<Longrightarrow> CalculateProviderCost f cost = Inl ErrInvalidUsage"
  "usage_ok f \<Longrightarrow> \<not> snapshot_ok (provider_rs cost) \<Longrightarrow>
     \<exists>e. CalculateProviderCost f cost = Inl e \<and> normalizeTokenRates (provider_rs cost) = Inl e"
  by (auto simp: CalculateProviderCost_def normalizeUsageFacts_if normalize_rs normalizeTokenRates_bad)

lemma CalculateProviderCost_no_panic: "CalculateProviderCost f cost \<noteq> Inl Panic"
proof (cases "usage_ok f")
  case u: True
  show ?thesis
  proof (cases "snapshot_ok (provider_rs cost)")
    case True
    then obtain c where "CalculateProviderCost f cost = Inr c" using CalculateProviderCost_ok [OF u] by blast
    then show ?thesis by simp
  next
    case False
    then obtain e where "CalculateProviderCost f cost = Inl e" "normalizeTokenRates (provider_rs cost) = Inl e"
      using CalculateProviderCost_bad(2) [OF u] by blast
    with normalizeTokenRates_bad [OF False] show ?thesis by (simp split: if_splits)
  qed
qed (simp add: CalculateProviderCost_bad)

lemma CalculateProviderCost_Inr_iff:
  assumes "counts_int64 f"
  shows "CalculateProviderCost f cost = Inr c \<longleftrightarrow> usage_ok f \<and> snapshot_ok (provider_rs cost) \<and>
    cost_record (pcCurrency cost) FormulaVersionV1 (exact_amounts (snapshot_rates (provider_rs cost)) f) c"
proof (cases "usage_ok f \<and> snapshot_ok (provider_rs cost)")
  case True
  obtain d where d: "CalculateProviderCost f cost = Inr d"
    "cost_record (pcCurrency cost) FormulaVersionV1 (exact_amounts (snapshot_rates (provider_rs cost)) f) d"
    using CalculateProviderCost_ok [of f cost] True breakdown_exact(1) [OF _ assms refl]
    unfolding breakdown_list_def by metis
  moreover have "c = d" if "cost_record cur ver xs c" "cost_record cur ver xs d" for cur ver xs
  proof -
    have "provider_amounts c = provider_amounts d" using that by (simp add: cost_record_def)
    then show ?thesis using that by (cases c; cases d) (simp add: cost_record_def provider_amounts_def)
  qed
  ultimately show ?thesis using True by auto
next
  case False
  then show ?thesis using CalculateProviderCost_bad [of f cost] by fastforce
qed

lemma CalculateProviderCost_Inr:
  assumes "CalculateProviderCost f cost = Inr c" "counts_int64 f"
    and "IsKnown (OutputTokensTotal f) \<or> tcValue (ReasoningOutputTokens f) = 0"
  defines "xs \<equiv> exact_amounts (snapshot_rates (provider_rs cost)) f"
  shows "usage_ok f" "snapshot_ok (provider_rs cost)" "list_all (\<lambda>x. 0 \<le> x) xs"
    "cost_record (pcCurrency cost) FormulaVersionV1 xs c"
proof -
  show u: "usage_ok f" and s: "snapshot_ok (provider_rs cost)" and "cost_record (pcCurrency cost) FormulaVersionV1 xs c"
    using assms(1) by (simp_all add: CalculateProviderCost_Inr_iff [OF assms(2)] xs_def)
  show "list_all (\<lambda>x. 0 \<le> x) xs"
    using exact_amounts_nonneg [OF snapshot_rates_nonneg [OF s] usage_counts_nonneg [OF u assms(3)]]
    by (simp add: xs_def)
qed

subsection \<open>Scaling\<close>

text \<open>A scaled rate: the exact product, rounded to ten decimals.\<close>

definition scaled :: "rat \<Rightarrow> rat \<Rightarrow> rat" where
  "scaled m r = units (roundHalfUp (r * m * 10 ^ 10))"

lemma scaled_mono: "0 \<le> m \<Longrightarrow> m \<le> m' \<Longrightarrow> 0 \<le> r \<Longrightarrow> r \<le> r' \<Longrightarrow> scaled m r \<le> scaled m' r'"
  unfolding scaled_def units_simps
  by (rule rhu.rnd_mono) (simp_all add: mult_mono)

lemma scaled_nonneg: "0 \<le> m \<Longrightarrow> 0 \<le> r \<Longrightarrow> 0 \<le> scaled m r"
  unfolding scaled_def units_simps by (rule rhu.rnd_nonneg) simp_all

lemma scaleRate_valid:
  "nValid v \<Longrightarrow> scaleRate v m =
     rbind (numericToRat v) (\<lambda>r. Inr (mkNumeric (roundHalfUp (r * m * 10 ^ 10)) (- 10)))"
  by (simp add: scaleRate_def priceDecimalScale_def ratToNumeric_10)

lemma scaleRate_null: "\<not> nValid v \<Longrightarrow> scaleRate v m = Inr v"
  by (simp add: scaleRate_def)

text \<open>Rounding to a price keeps NULL, commutes with the fallback and keeps a rate chargeable.\<close>

lemma scaleRate_rate_or:
  assumes "scaleRate v m = Inr v'"
  shows "nValid v' = nValid v" "rate_or (scaled m b) v' = scaled m (rate_or b v)"
    "0 \<le> m \<Longrightarrow> rate_ok v \<Longrightarrow> rate_ok v'"
proof -
  have "(\<not> nValid v \<and> v' = v) \<or> (\<exists>r. nValid v \<and> numericToRat v = Inr r \<and>
      v' = mkNumeric (roundHalfUp (r * m * 10 ^ 10)) (- 10))"
    using assms by (cases "nValid v") (auto simp: scaleRate_valid scaleRate_null rbind_Inr_iff)
  moreover have "0 \<le> roundHalfUp (r * m * 10 ^ 10)" if "0 \<le> m" "0 \<le> r" for r
    using scaled_nonneg [OF that] by (simp add: scaled_def)
  ultimately show "nValid v' = nValid v" "rate_or (scaled m b) v' = scaled m (rate_or b v)"
    "0 \<le> m \<Longrightarrow> rate_ok v \<Longrightarrow> rate_ok v'"
    by (auto simp: rate_or_def numericToRat_invalid scaled_def numeric_val_units rate_ok_def)
qed

text \<open>The step every scaling of a snapshot makes: inputs by \<open>i\<close>, outputs by \<open>out\<close>.\<close>

definition rs_scaled :: "rat \<Rightarrow> rat \<Rightarrow> tokenRateSnapshot \<Rightarrow> tokenRateSnapshot \<Rightarrow> bool" where
  "rs_scaled i out s s' \<longleftrightarrow>
     rsCurrency s' = rsCurrency s \<and> rsPricingUnit s' = rsPricingUnit s \<and>
     rsFormulaVersion s' = rsFormulaVersion s \<and>
     scaleRate (rsUncachedInputRate s) i = Inr (rsUncachedInputRate s') \<and>
     scaleRate (rsCacheReadInputRate s) i = Inr (rsCacheReadInputRate s') \<and>
     scaleRate (rsCacheWrite5mInputRate s) i = Inr (rsCacheWrite5mInputRate s') \<and>
     scaleRate (rsCacheWrite1hInputRate s) i = Inr (rsCacheWrite1hInputRate s') \<and>
     scaleRate (rsCacheWrite30mInputRate s) i = Inr (rsCacheWrite30mInputRate s') \<and>
     scaleRate (rsOutputRate s) out = Inr (rsOutputRate s') \<and>
     scaleRate (rsReasoningOutputRate s) out = Inr (rsReasoningOutputRate s')"

lemma rs_scaled_ok:
  assumes "rs_scaled i out s s'" "snapshot_ok s" "0 \<le> i" "0 \<le> out"
  shows "snapshot_ok s'"
  using assms scaleRate_rate_or(1,3)
  unfolding rs_scaled_def snapshot_ok_def by (simp del: not_imp) blast

lemma scaled_zero [simp]: "scaled m 0 = 0"
  by (simp add: scaled_def rhu.rnd_zero)

lemma rs_scaled_rates:
  assumes "rs_scaled i out s s'"
  shows "rate_list (snapshot_rates s') =
    map2 scaled [i, i, i, i, i, out, out] (rate_list (snapshot_rates s))"
proof -
  have base: "rate_or 0 (rsUncachedInputRate s') = scaled i (rate_or 0 (rsUncachedInputRate s))"
    "rate_or 0 (rsOutputRate s') = scaled out (rate_or 0 (rsOutputRate s))"
    using assms scaleRate_rate_or(2) [where b = 0] by (auto simp: rs_scaled_def)
  show ?thesis
    using assms by (simp add: rate_list_def snapshot_rates_def Let_def base rs_scaled_def scaleRate_rate_or(2))
qed

text \<open>When a snapshot is chargeable, scaling it does not fail.\<close>

lemma rate_ok_scaleRate: "nValid v \<longrightarrow> rate_ok v \<Longrightarrow> \<exists>v'. scaleRate v m = Inr v'"
  by (cases "nValid v") (auto simp: scaleRate_valid scaleRate_null rate_ok_def)

lemma rate_ok_valid: "rate_ok v \<Longrightarrow> nValid v"
  by (auto simp: rate_ok_def numericToRat_def split: if_splits)

lemma ScaleCustomerPrice_Inr:
  "ScaleCustomerPrice base ratio = Inr p \<longleftrightarrow>
     (\<exists>r. requiredNonNegativeNumeric ratio = Inr r \<and> rs_scaled r r (customer_rs base) (customer_rs p))"
  by (cases p) (auto simp: ScaleCustomerPrice_def rbind_Inr_iff rs_scaled_def customer_rs_def)

lemma ScaleProviderCostByFactors_Inr:
  "ScaleProviderCostByFactors base multiplier factor = Inr c \<longleftrightarrow>
     (\<exists>m k. requiredNonNegativeNumeric multiplier = Inr m \<and> requiredNonNegativeNumeric factor = Inr k \<and>
        rs_scaled (m * k) (m * k) (provider_rs base) (provider_rs c))"
  by (cases c) (auto simp: ScaleProviderCostByFactors_def scaleProviderCostByRat_def rbind_Inr_iff
      rs_scaled_def provider_rs_def)

lemma longContextMultiplierRats_Inr:
  "longContextMultiplierRats policy = Inr (i, out) \<longleftrightarrow>
     requiredPositiveNumeric (lcInputMultiplier policy) = Inr i \<and>
     requiredPositiveNumeric (lcOutputMultiplier policy) = Inr out"
  by (auto simp: longContextMultiplierRats_def rbind_Inr_iff)

lemma ApplyLongContextToCustomerPrice_Inr:
  "ApplyLongContextToCustomerPrice price policy n = Inr (p, b) \<longleftrightarrow>
     b = ShouldApplyLongContext policy n \<and>
     (if b then \<exists>i out. longContextMultiplierRats policy = Inr (i, out) \<and>
        rs_scaled i out (customer_rs price) (customer_rs p)
      else p = price)"
  by (cases p) (auto simp: ApplyLongContextToCustomerPrice_def rbind_Inr_iff rs_scaled_def customer_rs_def)

lemma ApplyLongContextToProviderCost_Inr:
  "ApplyLongContextToProviderCost cost policy n = Inr (c, b) \<longleftrightarrow>
     b = ShouldApplyLongContext policy n \<and>
     (if b then \<exists>i out. longContextMultiplierRats policy = Inr (i, out) \<and>
        rs_scaled i out (provider_rs cost) (provider_rs c)
      else c = cost)"
  by (cases c) (auto simp: ApplyLongContextToProviderCost_def rbind_Inr_iff rs_scaled_def provider_rs_def)

lemma provider_rs_Model [simp]: "provider_rs (ModelPriceToProviderCost p) = customer_rs p"
  by (simp add: provider_rs_def customer_rs_def ModelPriceToProviderCost_def)

subsection \<open>Margins\<close>

definition pair_names :: "string list" where
  "pair_names =
     [''uncached_input'', ''cache_read_input'', ''cache_write_5m_input'', ''cache_write_1h_input'',
      ''cache_write_30m_input'', ''output'', ''reasoning_output'']"

definition comparable :: "CustomerPriceSnapshot \<Rightarrow> ProviderCostSnapshot \<Rightarrow> bool" where
  "comparable sale cost \<longleftrightarrow>
     cpCurrency sale = pcCurrency cost \<and> cpPricingUnit sale = pcPricingUnit cost \<and>
     snapshot_ok (customer_rs sale) \<and> snapshot_ok (provider_rs cost)"

abbreviation sale_rates :: "CustomerPriceSnapshot \<Rightarrow> rat list" where
  "sale_rates sale \<equiv> rate_list (snapshot_rates (customer_rs sale))"

abbreviation cost_rates :: "ProviderCostSnapshot \<Rightarrow> rat list" where
  "cost_rates cost \<equiv> rate_list (snapshot_rates (provider_rs cost))"

lemma rate_list_length [simp]: "length (rate_list r) = 7"
  by (simp add: rate_list_def)

lemma normalizedSaleCostPairs_Inr:
  "normalizedSaleCostPairs sale cost = Inr pairs \<longleftrightarrow>
     comparable sale cost \<and> map rpComponent pairs = pair_names \<and>
     map rpSale pairs = sale_rates sale \<and> map rpCost pairs = cost_rates cost"
proof -
  have build: "pairs = [\<lparr>rpComponent = n1, rpSale = s1, rpCost = c1\<rparr>, \<lparr>rpComponent = n2, rpSale = s2, rpCost = c2\<rparr>,
      \<lparr>rpComponent = n3, rpSale = s3, rpCost = c3\<rparr>, \<lparr>rpComponent = n4, rpSale = s4, rpCost = c4\<rparr>,
      \<lparr>rpComponent = n5, rpSale = s5, rpCost = c5\<rparr>, \<lparr>rpComponent = n6, rpSale = s6, rpCost = c6\<rparr>,
      \<lparr>rpComponent = n7, rpSale = s7, rpCost = c7\<rparr>] \<longleftrightarrow>
    map rpComponent pairs = [n1, n2, n3, n4, n5, n6, n7] \<and> map rpSale pairs = [s1, s2, s3, s4, s5, s6, s7] \<and>
    map rpCost pairs = [c1, c2, c3, c4, c5, c6, c7]"
    for n1 n2 n3 n4 n5 n6 n7 s1 s2 s3 s4 s5 s6 s7 c1 c2 c3 c4 c5 c6 c7
    by (auto simp: map_eq_Cons_conv)
  show ?thesis
    unfolding normalizedSaleCostPairs_def normalize_rs rbind_Inr_iff if_Inl_Inr_iff normalizeTokenRates_Inr
    by (auto simp: comparable_def rate_list_def pair_names_def build)
qed

lemma normalizedSaleCostPairs_ok:
  assumes "comparable sale cost"
  obtains pairs where "normalizedSaleCostPairs sale cost = Inr pairs"
    "map rpComponent pairs = pair_names" "map rpSale pairs = sale_rates sale" "map rpCost pairs = cost_rates cost"
proof -
  have "\<exists>pairs. normalizedSaleCostPairs sale cost = Inr pairs"
    using assms by (simp add: normalizedSaleCostPairs_def normalize_rs normalizeTokenRates_ok comparable_def)
  then show ?thesis using that by (auto simp: normalizedSaleCostPairs_Inr)
qed

lemma pairs_all2:
  "list_all (\<lambda>p. P (rpSale p) (rpCost p)) pairs \<longleftrightarrow> list_all2 P (map rpSale pairs) (map rpCost pairs)"
  by (induction pairs) simp_all

lemma ValidateNonNegativeMargin_Nil:
  "ValidateNonNegativeMargin sale cost = Inr [] \<longleftrightarrow>
     comparable sale cost \<and> list_all2 (\<lambda>s c. c \<le> s) (sale_rates sale) (cost_rates cost)"
proof (cases "comparable sale cost")
  case True
  then obtain pairs where pairs: "normalizedSaleCostPairs sale cost = Inr pairs"
    "map rpSale pairs = sale_rates sale" "map rpCost pairs = cost_rates cost"
    by (rule normalizedSaleCostPairs_ok)
  have "ValidateNonNegativeMargin sale cost = Inr [] \<longleftrightarrow> list_all (\<lambda>p. rpCost p \<le> rpSale p) pairs"
    by (simp add: ValidateNonNegativeMargin_def pairs(1) filter_empty_conv list_all_iff not_less)
  also have "\<dots> \<longleftrightarrow> list_all2 (\<lambda>s c. c \<le> s) (sale_rates sale) (cost_rates cost)"
    unfolding pairs(2,3) [symmetric] by (rule pairs_all2)
  finally show ?thesis using True by simp
next
  case False
  then have "ValidateNonNegativeMargin sale cost \<noteq> Inr []"
    unfolding ValidateNonNegativeMargin_def rbind_Inr_iff normalizedSaleCostPairs_Inr by blast
  with False show ?thesis by simp
qed

text \<open>Scaling both sides by the same factors keeps a margin that was not negative.\<close>

lemma rs_scaled_margin:
  assumes "rs_scaled i out s s'" "rs_scaled j out' c c'" "0 \<le> j" "j \<le> i" "0 \<le> out'" "out' \<le> out"
    and "snapshot_ok c" "list_all2 (\<lambda>s c. c \<le> s) (rate_list (snapshot_rates s)) (rate_list (snapshot_rates c))"
  shows "list_all2 (\<lambda>s c. c \<le> s) (rate_list (snapshot_rates s')) (rate_list (snapshot_rates c'))"
  unfolding rs_scaled_rates [OF assms(1)] rs_scaled_rates [OF assms(2)]
  using assms(3-6,8) snapshot_rates_nonneg [OF assms(7)] by (simp add: rate_list_def scaled_mono)

text \<open>The sum of seven rounded costs is less than four units above the exact sum.\<close>

lemma charge_covers_cost:
  fixes xs ys :: "rat list"
  assumes "list_all2 (\<lambda>s c. c \<le> s) xs ys" "list_all (\<lambda>y. 0 \<le> y) ys" "length ys = 7"
  shows "sum_list (map (\<lambda>y. roundHalfUp (y * 10 ^ 10)) ys) \<le> roundHalfUp (sum_list xs * 10 ^ 10) + 3"
proof -
  have le: "sum_list ys \<le> sum_list xs" and nonneg: "0 \<le> sum_list ys"
    using assms(1,2) by (induction rule: list_all2_induct) auto
  have "of_int (sum_list (map roundHalfUp (map (\<lambda>y. y * 10 ^ 10) ys)))
      \<le> sum_list (map (\<lambda>y. y * 10 ^ 10) ys) + of_nat (length (map (\<lambda>y. y * 10 ^ 10) ys)) / 2"
    using assms(2) by (intro rhu.sum_rnd_upper) (auto simp: list_all_iff)
  then have up: "of_int (sum_list (map (\<lambda>y. roundHalfUp (y * 10 ^ 10)) ys)) \<le> sum_list ys * 10 ^ 10 + 7 / 2"
    using assms(3) by (simp add: o_def sum_list_mult_const)
  have "sum_list xs * 10 ^ 10 + 1 / 2 < of_int (\<lfloor>sum_list xs * 10 ^ 10 + 1 / 2\<rfloor> + 1)"
    using floor_correct [of "sum_list xs * 10 ^ 10 + 1 / 2"] by blast
  then have "sum_list xs * 10 ^ 10 - 1 / 2 < of_int (roundHalfUp (sum_list xs * 10 ^ 10))"
    using le nonneg unfolding of_int_add of_int_1 by (simp add: roundHalfUp_nonneg)
  moreover have "sum_list ys * 10 ^ 10 \<le> sum_list xs * 10 ^ 10" using le by simp
  ultimately have "of_int (sum_list (map (\<lambda>y. roundHalfUp (y * 10 ^ 10)) ys))
      < (of_int (roundHalfUp (sum_list xs * 10 ^ 10)) + 4 :: rat)"
    using up by linarith
  then have "sum_list (map (\<lambda>y. roundHalfUp (y * 10 ^ 10)) ys) < roundHalfUp (sum_list xs * 10 ^ 10) + 4"
    by (metis of_int_add of_int_less_iff of_int_numeral)
  then show ?thesis by simp
qed

lemma exact_amounts_mono:
  assumes "list_all2 (\<lambda>s c. c \<le> s) (rate_list r) (rate_list r')" "list_all (\<lambda>n. 0 \<le> n) (usage_counts f)"
  shows "list_all2 (\<lambda>s c. c \<le> s) (exact_amounts r f) (exact_amounts r' f)"
  using assms
  by (simp add: exact_amounts_def rate_list_def usage_counts_def divide_right_mono mult_right_mono)

lemma length_exact_amounts [simp]: "length (exact_amounts r f) = 7"
  by (simp add: exact_amounts_def rate_list_def usage_counts_def)

text \<open>\<open>max_ratio\<close> is the least bound of the cost by the sale, component by component.\<close>

definition ratio_bounds :: "rat \<Rightarrow> normalizedRatePair list \<Rightarrow> bool" where
  "ratio_bounds m pairs \<longleftrightarrow> list_all (\<lambda>p. rpCost p \<le> m * rpSale p) pairs"

lemma max_ratio_spec:
  assumes "list_all (\<lambda>p. 0 \<le> rpSale p \<and> 0 \<le> rpCost p) pairs" "max_ratio m0 pairs = Inr m"
  shows "m0 \<le> m \<and> ratio_bounds m pairs \<and> (m = m0 \<or> (\<exists>p \<in> set pairs. 0 < rpSale p \<and> rpCost p = m * rpSale p))"
  using assms
proof (induction pairs arbitrary: m0)
  case Nil
  then show ?case by (simp add: ratio_bounds_def)
next
  case (Cons p pairs)
  show ?case
  proof (cases "rpSale p = 0")
    case True
    with Cons.prems have "rpCost p = 0" "max_ratio m0 pairs = Inr m" by (auto split: if_splits)
    with True Cons.prems(1) Cons.IH [of m0] show ?thesis by (auto simp: ratio_bounds_def)
  next
    case False
    with Cons.prems(1) have pos: "0 < rpSale p" by auto
    define m1 where "m1 = (if rpCost p / rpSale p > m0 then rpCost p / rpSale p else m0)"
    from False Cons.prems(2) have "max_ratio m1 pairs = Inr m" by (simp add: m1_def Let_def)
    with Cons.prems(1) Cons.IH [of m1] have IH: "m1 \<le> m" "ratio_bounds m pairs"
      "m = m1 \<or> (\<exists>p \<in> set pairs. 0 < rpSale p \<and> rpCost p = m * rpSale p)" by auto
    have "rpCost p / rpSale p \<le> m" "m0 \<le> m" using IH(1) by (auto simp: m1_def split: if_splits)
    moreover from this have "rpCost p \<le> m * rpSale p" using pos by (simp add: divide_le_eq)
    moreover have "m1 = m0 \<or> rpCost p = m1 * rpSale p" using pos by (simp add: m1_def)
    ultimately show ?thesis using IH pos by (auto simp: ratio_bounds_def)
  qed
qed

lemma max_ratio_error:
  "max_ratio m0 pairs = Inl e \<Longrightarrow> e = ErrInvalidRate \<and> (\<exists>p \<in> set pairs. rpSale p = 0 \<and> rpCost p \<noteq> 0)"
  by (induction m0 pairs rule: max_ratio.induct) (auto simp: Let_def split: if_splits)

lemma max_ratio_ok:
  "\<forall>p \<in> set pairs. rpSale p = 0 \<longrightarrow> rpCost p = 0 \<Longrightarrow> \<exists>m. max_ratio m0 pairs = Inr m"
  by (cases "max_ratio m0 pairs") (auto dest: max_ratio_error)

subsection \<open>Properties\<close>

lemma usage_ok_known:
  "usage_ok f \<longleftrightarrow> Facts_Valid f \<and> list_all (\<lambda>c. tcState c \<noteq> CountUnknown) (facts_counts f)"
  by (auto simp: usage_ok_def Facts_Valid_iff list_all_iff billable_iff_known_state)

text \<open>
  C1: a charge is computed exactly when the usage is valid with no unknown count and the price is chargeable,
  and then it is, in the price's currency, the exact token_v1 sum (over the seven components: rate times
  tokens per million, a missing rate replaced by its fallback) at ten decimals, halves rounded up and a
  negative sum rounded towards zero. The counts are int64 values, as they are in Go.
\<close>

theorem customer_charge_amount:
  assumes "counts_int64 f" and "T = sum_list (exact_amounts (snapshot_rates (customer_rs price)) f)"
  shows "CalculateCustomerCharge f price = Inr c \<longleftrightarrow>
    Facts_Valid f \<and> list_all (\<lambda>c. tcState c \<noteq> CountUnknown) (facts_counts f) \<and> snapshot_ok (customer_rs price) \<and>
    c = \<lparr>chAmount = mkNumeric (if 0 \<le> T then \<lfloor>T * 10 ^ 10 + 1 / 2\<rfloor> else \<lceil>T * 10 ^ 10\<rceil>) (- 10),
      chCurrency = cpCurrency price, chFormulaVersion = FormulaVersionV1\<rparr>"
  unfolding CalculateCustomerCharge_Inr_iff [OF assms(1)] assms(2) [symmetric] usage_ok_known roundHalfUp_half_up
  by (simp add: half_up_def zero_le_mult_iff)

definition witness_facts :: Facts where
  "witness_facts = \<lparr>UncachedInputTokens = KnownTokens 1200, CacheReadInputTokens = KnownTokens 300,
     CacheWrite5mInputTokens = NotApplicableTokens, CacheWrite1hInputTokens = NotApplicableTokens,
     CacheWrite30mInputTokens = NotApplicableTokens, OutputTokensTotal = KnownTokens 500,
     ReasoningOutputTokens = KnownTokens 200, ServerToolUsage = []\<rparr>"

definition witness_price :: CustomerPriceSnapshot where
  "witness_price = \<lparr>cpCurrency = ''USD'', cpPricingUnit = PricingUnitPer1MTokens,
     UncachedInputPrice = mkNumeric 3 0, CacheReadInputPrice = mkNumeric 3 (- 1),
     CacheWrite5mInputPrice = numeric_null, CacheWrite1hInputPrice = numeric_null,
     CacheWrite30mInputPrice = numeric_null, OutputPrice = mkNumeric 15 0,
     ReasoningOutputPrice = numeric_null, cpFormulaVersion = ''''\<rparr>"

lemmas witness_defs = witness_facts_def witness_price_def KnownTokens_def NotApplicableTokens_def

lemma witness_ok:
  "usage_ok witness_facts" "counts_int64 witness_facts" "snapshot_ok (customer_rs witness_price)"
  "IsKnown (OutputTokensTotal witness_facts) \<or> tcValue (ReasoningOutputTokens witness_facts) = 0"
  by (simp_all add: witness_defs usage_ok_def Facts_Valid_def facts_counts_def count_valid_def IsKnown_def
      BillableValue_def counts_int64_def is_int64_def int64_min_def int64_max_def snapshot_ok_def
      customer_rs_def rate_ok_finite)

lemma witness_charge:
  "CalculateCustomerCharge witness_facts witness_price =
     Inr \<lparr>chAmount = mkNumeric 111900000 (- 10), chCurrency = ''USD'', chFormulaVersion = FormulaVersionV1\<rparr>"
proof -
  have "CalculateCustomerCharge witness_facts witness_price =
    Inr \<lparr>chAmount = ratToNumeric (TotalAmount (calculateTokenAmountBreakdown (usage_of witness_facts)
            (snapshot_rates (customer_rs witness_price)))) 10,
         chCurrency = trCurrency (snapshot_rates (customer_rs witness_price)),
         chFormulaVersion = trFormulaVersion (snapshot_rates (customer_rs witness_price))\<rparr>"
    using witness_ok(1) by (simp add: CalculateCustomerCharge_eq normalizeTokenRates_ok [OF witness_ok(3)])
  also have "\<dots> = Inr \<lparr>chAmount = mkNumeric 111900000 (- 10), chCurrency = ''USD'',
      chFormulaVersion = FormulaVersionV1\<rparr>"
    by (simp add: snapshot_rates_def customer_rs_def
      Let_def witness_defs rate_or_def numericToRat_val calculateTokenAmountBreakdown_def usage_of_def
      BillableValue_def tokenAmount_def tokenCost_def ratToNumeric_10 roundHalfUp_nonneg numeric_val_if
      wrap64_def finite_num_def)
  finally show ?thesis .
qed

lemma witness_amount: "sum_list (exact_amounts (snapshot_rates (customer_rs witness_price)) witness_facts) = 1119 / 100000"
  by (simp add: exact_amounts_def usage_counts_def rate_list_def snapshot_rates_def customer_rs_def Let_def witness_defs
      rate_or_def numericToRat_val BillableValue_def numeric_val_if finite_num_def)

lemma customer_charge_amount_witness:
  "\<exists>c. CalculateCustomerCharge witness_facts witness_price = Inr c \<and> chAmount c = mkNumeric 111900000 (- 10)"
  using witness_ok(1,3) unfolding customer_charge_amount [OF witness_ok(2) witness_amount [symmetric]] usage_ok_known
  by simp

text \<open>
  C2: a provider cost is booked dimension by dimension: it is computed exactly when the usage is
  valid with no unknown count and the cost rates are chargeable, each of its seven amounts is then the exact amount of its own dimension
  (rate times tokens per million) rounded to ten decimals, halves up and a negative one towards zero, and the
  total is exactly the sum of the seven; the nil dereference in that sum is never reached. The counts are
  int64 values, as they are in Go.
\<close>

theorem provider_cost_total:
  assumes "counts_int64 f" and "xs = exact_amounts (snapshot_rates (provider_rs cost)) f"
    and "ns = map (\<lambda>x. if 0 \<le> x then \<lfloor>x * 10 ^ 10 + 1 / 2\<rfloor> else \<lceil>x * 10 ^ 10\<rceil>) xs"
  shows "(CalculateProviderCost f cost = Inr c \<longleftrightarrow>
      Facts_Valid f \<and> list_all (\<lambda>c. tcState c \<noteq> CountUnknown) (facts_counts f) \<and> snapshot_ok (provider_rs cost) \<and>
      [UncachedInputCostAmount c, CacheReadInputCostAmount c, CacheWrite5mInputCostAmount c, CacheWrite1hInputCostAmount c,
       CacheWrite30mInputCostAmount c, OutputCostAmount c, ReasoningOutputCostAmount c] = map (\<lambda>n. mkNumeric n (- 10)) ns \<and>
      TotalCostAmount c = mkNumeric (sum_list ns) (- 10) \<and> costCurrency c = pcCurrency cost \<and>
      costFormulaVersion c = FormulaVersionV1) \<and>
    CalculateProviderCost f cost \<noteq> Inl Panic"
proof -
  have ns: "ns = map (\<lambda>x. roundHalfUp (x * 10 ^ 10)) xs"
    unfolding assms(3) roundHalfUp_half_up half_up_def by (simp add: zero_le_mult_iff)
  then have parts: "map (\<lambda>x. ratToNumeric x 10) xs = map (\<lambda>n. mkNumeric n (- 10)) ns"
    by (simp add: ratToNumeric_10)
  show ?thesis
    using CalculateProviderCost_no_panic [of f cost]
    unfolding CalculateProviderCost_Inr_iff [OF assms(1)] assms(2) [symmetric] usage_ok_known cost_record_def parts
      ns [symmetric] provider_amounts_def by blast
qed

lemma provider_witness_ok: "snapshot_ok (provider_rs (ModelPriceToProviderCost witness_price))"
  by (simp add: witness_ok)

lemma witness_amounts:
  "exact_amounts (snapshot_rates (provider_rs (ModelPriceToProviderCost witness_price))) witness_facts =
     [9 / 2500, 9 / 100000, 0, 0, 0, 9 / 2000, 3 / 1000]"
  by (simp add: exact_amounts_def usage_counts_def rate_list_def snapshot_rates_def customer_rs_def Let_def witness_defs
      rate_or_def numericToRat_val BillableValue_def numeric_val_if finite_num_def)

lemma provider_cost_total_witness:
  "\<exists>c. CalculateProviderCost witness_facts (ModelPriceToProviderCost witness_price) = Inr c \<and>
     OutputCostAmount c = mkNumeric 45000000 (- 10) \<and> ReasoningOutputCostAmount c = mkNumeric 30000000 (- 10) \<and>
     TotalCostAmount c = mkNumeric 111900000 (- 10)"
proof -
  obtain c where c: "CalculateProviderCost witness_facts (ModelPriceToProviderCost witness_price) = Inr c"
    using CalculateProviderCost_ok [OF witness_ok(1) provider_witness_ok] by blast
  moreover have "\<lfloor>1 / 2 :: rat\<rfloor> = 0" by (simp add: floor_eq_iff)
  ultimately show ?thesis
    using provider_cost_total [OF witness_ok(2) witness_amounts [symmetric] refl, of c] by simp
qed

text \<open>
  C3: when the margin check of a sale price against a provider cost reports no violation, a request
  billed with both is never sold at a loss: the rounded charge is at least the rounded total cost, up
  to three units of the tenth decimal that come from rounding seven parts and one sum. This needs usage whose
  output count is known, or that has no reasoning tokens; the other usage that \<open>Valid\<close> accepts (reasoning
  tokens with an output count that is not applicable) has a negative output, for which no margin helps.
\<close>

theorem no_violation_charge_covers_cost:
  assumes "ValidateNonNegativeMargin sale cost = Inr []"
    and "CalculateCustomerCharge f sale = Inr c" "CalculateProviderCost f cost = Inr d" "counts_int64 f"
    and "IsKnown (OutputTokensTotal f) \<or> tcValue (ReasoningOutputTokens f) = 0"
  shows "\<exists>m n. chAmount c = mkNumeric m (- 10) \<and> TotalCostAmount d = mkNumeric n (- 10) \<and> n \<le> m + 3
    \<and> chCurrency c = costCurrency d"
proof -
  note charge = CalculateCustomerCharge_Inr [OF assms(2,4,5)]
  note cost = CalculateProviderCost_Inr [OF assms(3,4,5)]
  have pairs: "comparable sale cost" "list_all2 (\<lambda>s c. c \<le> s) (sale_rates sale) (cost_rates cost)"
    using assms(1) by (simp_all add: ValidateNonNegativeMargin_Nil)
  have "list_all2 (\<lambda>s c. c \<le> s) (exact_amounts (snapshot_rates (customer_rs sale)) f)
      (exact_amounts (snapshot_rates (provider_rs cost)) f)"
    by (rule exact_amounts_mono [OF pairs(2) usage_counts_nonneg [OF charge(1) assms(5)]])
  then show ?thesis
    using charge_covers_cost [OF _ cost(3)] charge(3,4) cost(4) pairs(1)
    by (auto simp: cost_record_def comparable_def)
qed

lemma list_all2_ge_refl: "list_all2 (\<lambda>s c. c \<le> s) xs (xs :: rat list)"
  by (simp add: list_all2_refl)

lemma no_violation_charge_covers_cost_witness:
  "\<exists>d m n. CalculateProviderCost witness_facts (ModelPriceToProviderCost witness_price) = Inr d \<and>
     mkNumeric 111900000 (- 10) = mkNumeric m (- 10) \<and> TotalCostAmount d = mkNumeric n (- 10) \<and> n \<le> m + 3"
proof -
  obtain d where d: "CalculateProviderCost witness_facts (ModelPriceToProviderCost witness_price) = Inr d"
    using CalculateProviderCost_ok [OF witness_ok(1) provider_witness_ok] by blast
  have "ValidateNonNegativeMargin witness_price (ModelPriceToProviderCost witness_price) = Inr []"
    using witness_ok(3) list_all2_ge_refl
    by (simp add: ValidateNonNegativeMargin_Nil comparable_def ModelPriceToProviderCost_def provider_rs_Model
        del: provider_rs_Model) (simp add: provider_rs_def customer_rs_def list_all2_ge_refl)
  then show ?thesis
    using no_violation_charge_covers_cost [OF _ witness_charge d witness_ok(2,4)] d by auto
qed

text \<open>
  C4: a long-context policy keeps a margin: a sale price and a provider cost without margin violation
  have none after the policy is applied to both for the same request, and it is applied to both
  or to neither.
\<close>

theorem long_context_keeps_margin:
  assumes "ValidateNonNegativeMargin sale cost = Inr []"
    and "ApplyLongContextToCustomerPrice sale policy n = Inr (sale', b)"
    and "ApplyLongContextToProviderCost cost policy n = Inr (cost', b')"
  shows "ValidateNonNegativeMargin sale' cost' = Inr [] \<and> b' = b"
proof (cases b)
  case False
  with assms show ?thesis
    by (auto simp: ApplyLongContextToCustomerPrice_Inr ApplyLongContextToProviderCost_Inr)
next
  case True
  with assms(2) obtain i out where rats: "longContextMultiplierRats policy = Inr (i, out)"
    and sale: "rs_scaled i out (customer_rs sale) (customer_rs sale')" and b: "b = ShouldApplyLongContext policy n"
    by (auto simp: ApplyLongContextToCustomerPrice_Inr)
  with assms(3) True have cost: "rs_scaled i out (provider_rs cost) (provider_rs cost')" and b': "b' = b"
    by (auto simp: ApplyLongContextToProviderCost_Inr)
  have pos: "0 \<le> i" "0 \<le> out"
    using rats by (auto simp: longContextMultiplierRats_Inr requiredPositiveNumeric_Inr)
  have old: "comparable sale cost" "list_all2 (\<lambda>s c. c \<le> s) (sale_rates sale) (cost_rates cost)"
    using assms(1) by (simp_all add: ValidateNonNegativeMargin_Nil)
  then have "snapshot_ok (customer_rs sale)" "snapshot_ok (provider_rs cost)" by (simp_all add: comparable_def)
  then have "comparable sale' cost'"
    using old(1) rs_scaled_ok [OF sale _ pos] rs_scaled_ok [OF cost _ pos] sale cost
    by (simp add: comparable_def rs_scaled_def customer_rs_def provider_rs_def)
  moreover have "list_all2 (\<lambda>s c. c \<le> s) (sale_rates sale') (cost_rates cost')"
    using rs_scaled_margin [OF sale cost pos(1) order_refl pos(2) order_refl] old
    by (simp add: comparable_def)
  ultimately show ?thesis using b' by (simp add: ValidateNonNegativeMargin_Nil)
qed

definition witness_policy :: LongContextPolicy where
  "witness_policy = \<lparr>lcEnabled = True, lcThreshold = 200000, lcInputMultiplier = mkNumeric 2 0,
     lcOutputMultiplier = mkNumeric 15 (- 1)\<rparr>"

lemma margin_with_itself:
  "snapshot_ok (customer_rs p) \<Longrightarrow> ValidateNonNegativeMargin p (ModelPriceToProviderCost p) = Inr []"
proof -
  assume ok: "snapshot_ok (customer_rs p)"
  have "cpCurrency p = pcCurrency (ModelPriceToProviderCost p)"
    "cpPricingUnit p = pcPricingUnit (ModelPriceToProviderCost p)"
    by (simp_all add: ModelPriceToProviderCost_def)
  with ok show ?thesis
    by (simp add: ValidateNonNegativeMargin_Nil comparable_def list_all2_ge_refl)
qed

lemma witness_long_context:
  "\<exists>p c. ApplyLongContextToCustomerPrice witness_price witness_policy 200001 = Inr (p, True) \<and>
     ApplyLongContextToProviderCost (ModelPriceToProviderCost witness_price) witness_policy 200001 = Inr (c, True)"
  by (simp add: ApplyLongContextToCustomerPrice_def ApplyLongContextToProviderCost_def ShouldApplyLongContext_def
      Active_def witness_policy_def longContextMultiplierRats_def requiredPositiveNumeric_def
      requiredNonNegativeNumeric_def witness_price_def scaleRate_def not_less not_le
      ModelPriceToProviderCost_def)

lemma long_context_keeps_margin_witness:
  "\<exists>p c. ApplyLongContextToCustomerPrice witness_price witness_policy 200001 = Inr (p, True) \<and>
     ValidateNonNegativeMargin p c = Inr []"
proof -
  obtain p c where pc: "ApplyLongContextToCustomerPrice witness_price witness_policy 200001 = Inr (p, True)"
    "ApplyLongContextToProviderCost (ModelPriceToProviderCost witness_price) witness_policy 200001 = Inr (c, True)"
    using witness_long_context by blast
  show ?thesis
    using long_context_keeps_margin [OF margin_with_itself [OF witness_ok(3)] pc] pc(1) by blast
qed

text \<open>
  a route whose price ratio is at least the channel's price multiplier times its recharge factor
  sells every component at or above cost: the sale price and the provider cost that are scaled from the
  same base price pass the margin check, whatever components the base leaves unset.
\<close>

theorem ratio_covers_multiplier:
  assumes "ScaleCustomerPrice base ratio = Inr sale"
    and "ScaleProviderCostByFactors (ModelPriceToProviderCost base) multiplier factor = Inr cost"
    and "numericToRat ratio = Inr r" "numericToRat multiplier = Inr m" "numericToRat factor = Inr k" "m * k \<le> r"
    and "snapshot_ok (customer_rs base)"
  shows "ValidateNonNegativeMargin sale cost = Inr []"
proof -
  have sale: "rs_scaled r r (customer_rs base) (customer_rs sale)"
    and cost: "rs_scaled (m * k) (m * k) (customer_rs base) (provider_rs cost)"
    and pos: "0 \<le> r" "0 \<le> m * k"
    using assms by (auto simp: ScaleCustomerPrice_Inr ScaleProviderCostByFactors_Inr requiredNonNegativeNumeric_Inr)
  have "snapshot_ok (customer_rs sale)" "snapshot_ok (provider_rs cost)"
    using rs_scaled_ok [OF sale assms(7)] rs_scaled_ok [OF cost assms(7)] pos by simp_all
  then have "comparable sale cost"
    using sale cost by (simp add: comparable_def rs_scaled_def customer_rs_def provider_rs_def)
  moreover have "list_all2 (\<lambda>s c. c \<le> s) (sale_rates sale) (cost_rates cost)"
    by (rule rs_scaled_margin [OF sale cost pos(2) assms(6) pos(2) assms(6) assms(7) list_all2_ge_refl])
  ultimately show ?thesis by (simp add: ValidateNonNegativeMargin_Nil)
qed

lemma ratio_covers_multiplier_witness:
  "\<exists>sale cost. ScaleCustomerPrice witness_price (mkNumeric 12 (- 1)) = Inr sale \<and>
     ScaleProviderCostByFactors (ModelPriceToProviderCost witness_price) (mkNumeric 8 (- 1)) (mkNumeric 15 (- 1))
       = Inr cost \<and> ValidateNonNegativeMargin sale cost = Inr []"
proof -
  obtain sale where sale: "ScaleCustomerPrice witness_price (mkNumeric 12 (- 1)) = Inr sale"
    by (simp add: ScaleCustomerPrice_def requiredNonNegativeNumeric_def witness_price_def scaleRate_def not_less)
  obtain cost where cost: "ScaleProviderCostByFactors (ModelPriceToProviderCost witness_price)
      (mkNumeric 8 (- 1)) (mkNumeric 15 (- 1)) = Inr cost"
    by (simp add: ScaleProviderCostByFactors_def scaleProviderCostByRat_def requiredNonNegativeNumeric_def
        ModelPriceToProviderCost_def witness_price_def scaleRate_def not_less)
  show ?thesis
    using ratio_covers_multiplier [OF sale cost numericToRat_mkNumeric numericToRat_mkNumeric
        numericToRat_mkNumeric _ witness_ok(3)] sale cost
    by (simp add: numeric_val_if)
qed

subsection \<open>The authorization estimate\<close>

definition estimate_amount :: "tokenRates \<Rightarrow> int \<Rightarrow> int \<Rightarrow> rat" where
  "estimate_amount r inp out =
     (max (max (max (UncachedInputRate r) (CacheReadInputRate r)) (max (CacheWrite5mInputRate r) (CacheWrite1hInputRate r)))
        (CacheWrite30mInputRate r) * of_int inp + max (OutputRate r) (ReasoningOutputRate r) * of_int out) / 10 ^ 6"

lemma maxRat_max: "maxRat a b = max a b"
  by (simp add: maxRat_def max_def)

lemma EstimateAuthorizationAmount_Inr:
  "EstimateAuthorizationAmount est price = Inr e \<longleftrightarrow>
     0 \<le> estInputTokens est \<and> 0 \<le> estMaxCompletionTokens est \<and> snapshot_ok (customer_rs price) \<and>
     e = \<lparr>chAmount = mkNumeric (roundHalfUp (estimate_amount (snapshot_rates (customer_rs price))
            (estInputTokens est) (estMaxCompletionTokens est) * 10 ^ 10)) (- 10),
          chCurrency = cpCurrency price, chFormulaVersion = FormulaVersionV1\<rparr>"
  (is "_ \<longleftrightarrow> ?R")
proof -
  have "trCurrency (snapshot_rates (customer_rs price)) = cpCurrency price"
    "trFormulaVersion (snapshot_rates (customer_rs price)) = FormulaVersionV1"
    by (simp_all add: snapshot_rates_def customer_rs_def Let_def)
  then show ?thesis
    by (cases "snapshot_ok (customer_rs price)")
      (auto simp: EstimateAuthorizationAmount_def normalize_rs normalizeTokenRates_ok normalizeTokenRates_bad
        Let_def amountDecimalScale_def ratToNumeric_10 estimate_amount_def maxRat_max tokenCost_def max.assoc)
qed

lemma weighted_le:
  fixes r M :: rat
  shows "r \<le> M \<Longrightarrow> 0 \<le> n \<Longrightarrow> r * of_int n \<le> M * of_int n"
  by (rule mult_right_mono) simp_all

lemma exact_amounts_le_estimate:
  assumes counts: "list_all (\<lambda>n. 0 \<le> n) (usage_counts f)" and rates: "list_all (\<lambda>x. 0 \<le> x) (rate_list r)"
    and inp: "billed (UncachedInputTokens f) + billed (CacheReadInputTokens f) + billed (CacheWrite5mInputTokens f)
      + billed (CacheWrite1hInputTokens f) + billed (CacheWrite30mInputTokens f) \<le> inp"
    and out: "billed (OutputTokensTotal f) \<le> out"
  shows "sum_list (exact_amounts r f) \<le> estimate_amount r inp out"
proof -
  define M where "M = max (max (max (UncachedInputRate r) (CacheReadInputRate r))
    (max (CacheWrite5mInputRate r) (CacheWrite1hInputRate r))) (CacheWrite30mInputRate r)"
  define N where "N = max (OutputRate r) (ReasoningOutputRate r)"
  have M: "UncachedInputRate r \<le> M" "CacheReadInputRate r \<le> M" "CacheWrite5mInputRate r \<le> M"
    "CacheWrite1hInputRate r \<le> M" "CacheWrite30mInputRate r \<le> M" "OutputRate r \<le> N" "ReasoningOutputRate r \<le> N"
    by (simp_all add: M_def N_def)
  have "0 \<le> M" "0 \<le> N" using rates M by (auto simp: rate_list_def)
  then have "M * (of_int (billed (UncachedInputTokens f) + billed (CacheReadInputTokens f)
      + billed (CacheWrite5mInputTokens f) + billed (CacheWrite1hInputTokens f)
      + billed (CacheWrite30mInputTokens f))) \<le> M * of_int inp"
    "N * of_int (billed (OutputTokensTotal f)) \<le> N * of_int out"
    using inp out by (auto intro!: mult_left_mono simp del: of_int_add)
  moreover have "UncachedInputRate r * of_int (billed (UncachedInputTokens f)) \<le> M * of_int (billed (UncachedInputTokens f))"
    "CacheReadInputRate r * of_int (billed (CacheReadInputTokens f)) \<le> M * of_int (billed (CacheReadInputTokens f))"
    "CacheWrite5mInputRate r * of_int (billed (CacheWrite5mInputTokens f)) \<le> M * of_int (billed (CacheWrite5mInputTokens f))"
    "CacheWrite1hInputRate r * of_int (billed (CacheWrite1hInputTokens f)) \<le> M * of_int (billed (CacheWrite1hInputTokens f))"
    "CacheWrite30mInputRate r * of_int (billed (CacheWrite30mInputTokens f)) \<le> M * of_int (billed (CacheWrite30mInputTokens f))"
    "OutputRate r * of_int (billed (OutputTokensTotal f) - billed (ReasoningOutputTokens f))
      \<le> N * of_int (billed (OutputTokensTotal f) - billed (ReasoningOutputTokens f))"
    "ReasoningOutputRate r * of_int (billed (ReasoningOutputTokens f)) \<le> N * of_int (billed (ReasoningOutputTokens f))"
    using counts M by (auto simp: usage_counts_def intro!: weighted_le simp del: of_int_diff)
  ultimately have "sum_list (map2 (\<lambda>r n. r * of_int n) (rate_list r) (usage_counts f)) \<le> M * of_int inp + N * of_int out"
    by (simp add: rate_list_def usage_counts_def algebra_simps)
  moreover have "sum_list (exact_amounts r f) = sum_list (map2 (\<lambda>r n. r * of_int n) (rate_list r) (usage_counts f)) / 10 ^ 6"
    by (simp add: exact_amounts_def rate_list_def usage_counts_def add_divide_distrib)
  ultimately show ?thesis unfolding estimate_amount_def M_def [symmetric] N_def [symmetric]
    by (simp add: divide_right_mono)
qed

text \<open>
  C5: the authorization estimate is an upper bound: a request whose input counts add up to
  at most the estimated input and whose output stays within the completion limit is never charged more
  than was estimated, in the same currency, whatever the cache and reasoning split turns out to be. This
  needs usage whose output count is known, or that has no reasoning tokens: reasoning tokens that come with an output count
  that is not applicable are within no limit.
\<close>

theorem estimate_covers_charge:
  assumes "EstimateAuthorizationAmount est price = Inr e" "CalculateCustomerCharge f price = Inr c"
    and "counts_int64 f" "IsKnown (OutputTokensTotal f) \<or> tcValue (ReasoningOutputTokens f) = 0"
    and "billed (UncachedInputTokens f) + billed (CacheReadInputTokens f) + billed (CacheWrite5mInputTokens f)
      + billed (CacheWrite1hInputTokens f) + billed (CacheWrite30mInputTokens f) \<le> estInputTokens est"
    and "billed (OutputTokensTotal f) \<le> estMaxCompletionTokens est"
  shows "\<exists>m n. chAmount c = mkNumeric m (- 10) \<and> chAmount e = mkNumeric n (- 10) \<and> m \<le> n \<and> chCurrency e = chCurrency c"
proof -
  let ?r = "snapshot_rates (customer_rs price)"
  note charge = CalculateCustomerCharge_Inr [OF assms(2,3,4)]
  have "sum_list (exact_amounts ?r f) \<le> estimate_amount ?r (estInputTokens est) (estMaxCompletionTokens est)"
    by (rule exact_amounts_le_estimate [OF usage_counts_nonneg [OF charge(1) assms(4)]
        snapshot_rates_nonneg [OF charge(2)] assms(5,6)])
  then have "roundHalfUp (sum_list (exact_amounts ?r f) * 10 ^ 10)
      \<le> roundHalfUp (estimate_amount ?r (estInputTokens est) (estMaxCompletionTokens est) * 10 ^ 10)"
    using charge(5) by (intro rhu.rnd_mono) auto
  then show ?thesis using charge(3,4) assms(1) by (auto simp: EstimateAuthorizationAmount_Inr)
qed

lemma estimate_covers_charge_witness:
  "\<exists>e m n. EstimateAuthorizationAmount \<lparr>estInputTokens = 1500, estMaxCompletionTokens = 4096\<rparr> witness_price = Inr e
     \<and> mkNumeric 111900000 (- 10) = mkNumeric m (- 10) \<and> chAmount e = mkNumeric n (- 10) \<and> m \<le> n"
proof -
  obtain e where e: "EstimateAuthorizationAmount \<lparr>estInputTokens = 1500, estMaxCompletionTokens = 4096\<rparr> witness_price = Inr e"
    using witness_ok(3) by (simp add: EstimateAuthorizationAmount_Inr)
  have "\<exists>m n. mkNumeric 111900000 (- 10) = mkNumeric m (- 10) \<and> chAmount e = mkNumeric n (- 10) \<and> m \<le> n"
    using estimate_covers_charge [OF e witness_charge witness_ok(2,4)]
    by (auto simp: witness_defs BillableValue_def)
  with e show ?thesis by blast
qed

subsection \<open>Errors, free prices and ratios\<close>

lemma normalizeTokenRates_not_usage_error: "normalizeTokenRates s \<noteq> Inl ErrInvalidUsage"
  by (cases "snapshot_ok s") (simp_all add: normalizeTokenRates_ok normalizeTokenRates_bad)

lemma invalid_usage_iff:
  "CalculateCustomerCharge f price = Inl ErrInvalidUsage \<longleftrightarrow> \<not> usage_ok f"
  "CalculateProviderCost f cost = Inl ErrInvalidUsage \<longleftrightarrow> \<not> usage_ok f"
proof -
  show "CalculateCustomerCharge f price = Inl ErrInvalidUsage \<longleftrightarrow> \<not> usage_ok f"
    by (simp add: CalculateCustomerCharge_eq rbind_Inl_iff normalizeTokenRates_not_usage_error)
  show "CalculateProviderCost f cost = Inl ErrInvalidUsage \<longleftrightarrow> \<not> usage_ok f"
  proof (cases "usage_ok f")
    case u: True
    have "CalculateProviderCost f cost \<noteq> Inl ErrInvalidUsage"
    proof (cases "snapshot_ok (provider_rs cost)")
      case True
      then show ?thesis using CalculateProviderCost_ok [OF u] by (metis sum.distinct(1))
    next
      case False
      then show ?thesis
        using CalculateProviderCost_bad(2) [OF u False] normalizeTokenRates_not_usage_error [of "provider_rs cost"] by auto
    qed
    with u show ?thesis by simp
  qed (simp add: CalculateProviderCost_bad)
qed

text \<open>
  C6: usage that is not fully known is never billed: when any of the seven counts is
  unknown (or malformed), both calculators return \<open>ErrInvalidUsage\<close> whatever the prices are,
  and they return it only then.
\<close>

theorem unknown_usage_never_billed:
  "(CalculateCustomerCharge f price = Inl ErrInvalidUsage \<longleftrightarrow>
      \<not> (Facts_Valid f \<and> list_all (\<lambda>c. tcState c \<noteq> CountUnknown) (facts_counts f))) \<and>
   (CalculateProviderCost f cost = Inl ErrInvalidUsage \<longleftrightarrow>
      \<not> (Facts_Valid f \<and> list_all (\<lambda>c. tcState c \<noteq> CountUnknown) (facts_counts f)))"
  unfolding invalid_usage_iff usage_ok_known by (rule conjI [OF refl refl])

lemma IsEffectivelyFree_rates:
  assumes "IsEffectivelyFree price" "snapshot_ok (customer_rs price)"
  shows "rate_list (snapshot_rates (customer_rs price)) = replicate 7 0"
proof -
  have zero: "rate_or 0 v = 0" if "v \<in> set (price_components price)" "nValid v \<longrightarrow> rate_ok v" for v
  proof -
    have "\<not> rate_or 0 v > 0"
      using assms(1) that(1) by (auto simp: IsEffectivelyFree_def list_all_iff rate_or_def split: sum.splits)
    moreover have "0 \<le> rate_or 0 v" using that(2) by (simp add: rate_or_nonneg)
    ultimately show ?thesis by simp
  qed
  have "\<forall>v \<in> set (price_components price). rate_or 0 v = 0"
    using assms(2) by (auto intro!: zero simp: price_components_def snapshot_ok_def customer_rs_def)
  then have "rate_or 0 (UncachedInputPrice price) = 0" "rate_or 0 (OutputPrice price) = 0"
    "rate_or 0 (CacheReadInputPrice price) = 0" "rate_or 0 (CacheWrite5mInputPrice price) = 0"
    "rate_or 0 (CacheWrite1hInputPrice price) = 0" "rate_or 0 (CacheWrite30mInputPrice price) = 0"
    "rate_or 0 (ReasoningOutputPrice price) = 0" by (simp_all add: price_components_def)
  then show ?thesis
    by (simp add: rate_list_def snapshot_rates_def customer_rs_def Let_def numeral_eq_Suc)
qed

text \<open>
  a price the gateway treats as free costs nothing: when \<open>IsEffectivelyFree\<close> holds, every charge
  and every authorization estimate that succeeds is exactly zero.
\<close>

theorem effectively_free_charges_nothing:
  assumes "IsEffectivelyFree price"
  shows "(\<forall>c. CalculateCustomerCharge f price = Inr c \<longrightarrow> chAmount c = mkNumeric 0 (- 10)) \<and>
    (\<forall>e. EstimateAuthorizationAmount est price = Inr e \<longrightarrow> chAmount e = mkNumeric 0 (- 10))"
proof -
  let ?r = "snapshot_rates (customer_rs price)"
  have "chAmount c = mkNumeric 0 (- 10)" if "CalculateCustomerCharge f price = Inr c" for c
  proof -
    have ok: "usage_ok f" "snapshot_ok (customer_rs price)"
      using that by (auto simp: CalculateCustomerCharge_eq rbind_Inr_iff normalizeTokenRates_Inr split: if_splits)
    have "TotalAmount (calculateTokenAmountBreakdown (usage_of f) ?r) = 0"
      using IsEffectivelyFree_rates [OF assms ok(2)]
      by (simp add: calculateTokenAmountBreakdown_def Let_def tokenAmount_def tokenCost_def rate_list_def numeral_eq_Suc)
    with that ok show ?thesis
      by (auto simp: CalculateCustomerCharge_eq normalizeTokenRates_ok ratToNumeric_10 rhu.rnd_zero)
  qed
  moreover have "chAmount e = mkNumeric 0 (- 10)" if "EstimateAuthorizationAmount est price = Inr e" for e
  proof -
    have ok: "snapshot_ok (customer_rs price)" using that by (simp add: EstimateAuthorizationAmount_Inr)
    have "estimate_amount ?r (estInputTokens est) (estMaxCompletionTokens est) = 0"
      using IsEffectivelyFree_rates [OF assms ok] by (simp add: estimate_amount_def rate_list_def numeral_eq_Suc)
    with that show ?thesis by (simp add: EstimateAuthorizationAmount_Inr rhu.rnd_zero)
  qed
  ultimately show ?thesis by blast
qed

definition free_price :: CustomerPriceSnapshot where
  "free_price = witness_price\<lparr>UncachedInputPrice := mkNumeric 0 0, CacheReadInputPrice := numeric_null,
     OutputPrice := mkNumeric 0 (- 4)\<rparr>"

lemma effectively_free_charges_nothing_witness:
  "\<exists>c e. CalculateCustomerCharge witness_facts free_price = Inr c \<and> chAmount c = mkNumeric 0 (- 10) \<and>
     EstimateAuthorizationAmount \<lparr>estInputTokens = 7, estMaxCompletionTokens = 9\<rparr> free_price = Inr e \<and>
     chAmount e = mkNumeric 0 (- 10)"
proof -
  have free: "IsEffectivelyFree free_price"
    by (simp add: IsEffectivelyFree_def price_components_def free_price_def witness_price_def numericToRat_invalid)
  have ok: "snapshot_ok (customer_rs free_price)"
    by (simp add: free_price_def witness_price_def snapshot_ok_def customer_rs_def rate_ok_finite)
  obtain c where c: "CalculateCustomerCharge witness_facts free_price = Inr c"
    using witness_ok(1) ok by (auto simp: CalculateCustomerCharge_eq normalizeTokenRates_ok)
  obtain e where e: "EstimateAuthorizationAmount \<lparr>estInputTokens = 7, estMaxCompletionTokens = 9\<rparr> free_price = Inr e"
    using ok by (simp add: EstimateAuthorizationAmount_Inr)
  show ?thesis using effectively_free_charges_nothing [OF free] c e by blast
qed

lemma comparable_pairs_nonneg:
  assumes "normalizedSaleCostPairs sale cost = Inr pairs"
  shows "list_all (\<lambda>p. 0 \<le> rpSale p \<and> 0 \<le> rpCost p) pairs"
proof -
  have "comparable sale cost" "map rpSale pairs = sale_rates sale" "map rpCost pairs = cost_rates cost"
    using assms by (simp_all add: normalizedSaleCostPairs_Inr)
  then have "list_all (\<lambda>x. 0 \<le> x) (map rpSale pairs)" "list_all (\<lambda>x. 0 \<le> x) (map rpCost pairs)"
    by (simp_all add: comparable_def snapshot_rates_nonneg)
  then show ?thesis by (auto simp: list_all_iff)
qed

text \<open>
  the cost ratio used to rank channels is the exact maximum of cost over sale: it
  bounds every component's cost by the ratio times its sale price and is attained (or zero), so it is
  at most one exactly when the margin check reports no violation; it fails exactly when a
  component is sold for nothing but costs something, or when the two snapshots cannot be compared.
\<close>

theorem cost_ratio_is_maximum:
  assumes "comparable sale cost"
  shows "case ProviderCostToSaleRatio sale cost of
      Inl e \<Rightarrow> e = ErrInvalidRate \<and> list_ex (\<lambda>(s, c). s = 0 \<and> c \<noteq> 0) (zip (sale_rates sale) (cost_rates cost))
    | Inr m \<Rightarrow> 0 \<le> m \<and> list_all2 (\<lambda>s c. c \<le> m * s) (sale_rates sale) (cost_rates cost) \<and>
        (m = 0 \<or> list_ex (\<lambda>(s, c). 0 < s \<and> c = m * s) (zip (sale_rates sale) (cost_rates cost))) \<and>
        (m \<le> 1 \<longleftrightarrow> ValidateNonNegativeMargin sale cost = Inr [])"
proof -
  obtain pairs where pairs: "normalizedSaleCostPairs sale cost = Inr pairs"
    "map rpSale pairs = sale_rates sale" "map rpCost pairs = cost_rates cost"
    using normalizedSaleCostPairs_ok [OF assms] by metis
  note nonneg = comparable_pairs_nonneg [OF pairs(1)]
  have zip: "zip (sale_rates sale) (cost_rates cost) = map (\<lambda>p. (rpSale p, rpCost p)) pairs"
    unfolding pairs(2,3) [symmetric] by (simp add: zip_map_map zip_same_conv_map)
  have margin: "ValidateNonNegativeMargin sale cost = Inr [] \<longleftrightarrow> list_all (\<lambda>p. rpCost p \<le> rpSale p) pairs"
    using assms unfolding ValidateNonNegativeMargin_Nil pairs(2,3) [symmetric]
    by (simp add: pairs_all2 [where P = "\<lambda>s c. c \<le> s"])
  show ?thesis
  proof (cases "max_ratio 0 pairs")
    case (Inl e)
    with max_ratio_error [OF Inl] pairs(1) show ?thesis
      by (auto simp: ProviderCostToSaleRatio_def zip list_ex_iff)
  next
    case (Inr m)
    note spec = max_ratio_spec [OF nonneg Inr]
    have "m \<le> 1 \<longleftrightarrow> list_all (\<lambda>p. rpCost p \<le> rpSale p) pairs"
    proof
      assume "m \<le> 1"
      then have "m * rpSale p \<le> rpSale p" if "p \<in> set pairs" for p
        using nonneg that by (auto simp: list_all_iff intro: mult_left_le_one_le spec [THEN conjunct1])
      with spec show "list_all (\<lambda>p. rpCost p \<le> rpSale p) pairs"
        by (fastforce simp: ratio_bounds_def list_all_iff)
    next
      assume all: "list_all (\<lambda>p. rpCost p \<le> rpSale p) pairs"
      show "m \<le> 1"
      proof (rule ccontr)
        assume "\<not> m \<le> 1"
        with spec obtain p where p: "p \<in> set pairs" "0 < rpSale p" "rpCost p = m * rpSale p" by auto
        with \<open>\<not> m \<le> 1\<close> have "rpSale p < rpCost p" by simp
        with all p(1) show False by (auto simp: list_all_iff)
      qed
    qed
    moreover have "list_all2 (\<lambda>s c. c \<le> m * s) (sale_rates sale) (cost_rates cost)"
      using spec unfolding pairs(2,3) [symmetric] by (simp add: ratio_bounds_def pairs_all2 [where P = "\<lambda>s c. c \<le> m * s"])
    ultimately show ?thesis
      using spec margin pairs(1) by (auto simp: ProviderCostToSaleRatio_def Inr zip list_ex_iff)
  qed
qed

lemma cost_ratio_is_maximum_witness:
  "ProviderCostToSaleRatio witness_price (ModelPriceToProviderCost witness_price) \<noteq> Inl ErrSaleCostMismatch"
proof -
  have "comparable witness_price (ModelPriceToProviderCost witness_price)"
    using margin_with_itself [OF witness_ok(3)] by (simp add: ValidateNonNegativeMargin_Nil)
  then show ?thesis using cost_ratio_is_maximum by (fastforce split: sum.splits)
qed

subsection \<open>The long-context input sum\<close>

lemma lc_sum_billed:
  assumes "list_all billable cs" "0 \<le> s" "s + sum_list (map billed cs) \<le> maxLuaExactInteger"
  shows "lc_sum s cs = s + sum_list (map billed cs)"
  using assms
proof (induction cs arbitrary: s)
  case Nil
  then show ?case by simp
next
  case (Cons c cs)
  have rest: "0 \<le> sum_list (map billed cs)"
    using Cons.prems(1) by (intro sum_list_nonneg) (auto simp: list_all_iff billable_nonneg)
  have c: "0 \<le> billed c" using Cons.prems(1) by (simp add: billable_nonneg)
  have "lc_sum s (c # cs) = lc_sum (s + billed c) cs"
  proof (cases "IsKnown c \<and> tcValue c > 0")
    case True
    then have b: "billed c = tcValue c" by (simp add: billed_eq IsKnown_def)
    have "is_int64 (s + tcValue c)"
      using Cons.prems rest c b by (simp add: is_int64_def int64_min_def int64_max_def maxLuaExactInteger_def)
    with True b show ?thesis by (simp add: wrap64_id)
  next
    case False
    then have "lc_sum s (c # cs) = lc_sum s cs" by (subst lc_sum.simps) (rule if_not_P)
    moreover have "billed c = 0" using False Cons.prems(1) by (auto simp: billed_eq billable_iff IsKnown_def)
    ultimately show ?thesis by simp
  qed
  with Cons.IH [of "s + billed c"] Cons.prems c show ?case by (simp add: add.assoc)
qed

text \<open>
  whenever the observed input total of a response is defined, the sum that decides
  about long-context pricing is that total: the overflow of the \<open>int64\<close> addition is never reached, and
  the same usage decides the same way everywhere.
\<close>

theorem long_context_sum_is_observed_input:
  assumes "ObservedInputTokens f = (t, True)"
  shows "LongContextInputTokenSum f = t \<and>
    (ShouldApplyLongContext policy (LongContextInputTokenSum f) \<longleftrightarrow> Active policy \<and> lcThreshold policy < t)"
proof -
  have "LongContextInputTokenSum f = t"
    unfolding LongContextInputTokenSum_def
    using assms by (subst lc_sum_billed) (auto simp: ObservedInputTokens_iff)
  then show ?thesis by (simp add: ShouldApplyLongContext_def)
qed

lemma long_context_sum_is_observed_input_witness:
  "LongContextInputTokenSum witness_facts = 1500 \<and>
     \<not> ShouldApplyLongContext witness_policy (LongContextInputTokenSum witness_facts)"
proof -
  have "ObservedInputTokens witness_facts = (1500, True)"
    using witness_ok(1)
    by (simp add: ObservedInputTokens_iff usage_ok_def witness_defs BillableValue_def maxLuaExactInteger_def)
  from long_context_sum_is_observed_input [OF this, of witness_policy] show ?thesis
    by (auto simp: witness_policy_def)
qed

subsection \<open>Reasoning tokens without an output count\<close>

text \<open>
  \<open>Valid\<close> compares reasoning and output tokens only when both are known. With a known reasoning count
  and an output count that is not applicable the usage is accepted, the normal output
  becomes negative, and so does the charge.
\<close>

definition reasoning_only_facts :: Facts where
  "reasoning_only_facts = witness_facts\<lparr>UncachedInputTokens := KnownTokens 0, CacheReadInputTokens := KnownTokens 0,
     OutputTokensTotal := NotApplicableTokens, ReasoningOutputTokens := KnownTokens 1000000\<rparr>"

definition cheap_reasoning_price :: CustomerPriceSnapshot where
  "cheap_reasoning_price = witness_price\<lparr>ReasoningOutputPrice := mkNumeric 10 0\<rparr>"

lemma reasoning_only_ok:
  "usage_ok reasoning_only_facts" "counts_int64 reasoning_only_facts" "snapshot_ok (customer_rs cheap_reasoning_price)"
  by (simp_all add: reasoning_only_facts_def cheap_reasoning_price_def witness_defs usage_ok_def Facts_Valid_def
      facts_counts_def count_valid_def IsKnown_def BillableValue_def counts_int64_def is_int64_def int64_min_def
      int64_max_def snapshot_ok_def customer_rs_def rate_ok_finite)

text \<open>
  C7: exactly which usage is charged a negative amount: usage that \<open>Valid\<close> accepts with an output
  count that is not known, when its reasoning tokens, at the difference of the reasoning and the output rate, take away at
  least one unit of the tenth decimal more than the five input amounts add. No usage with a known output count is. The
  counts are int64 values, as they are in Go.
\<close>

theorem reasoning_without_output_negative_charge:
  assumes "CalculateCustomerCharge f price = Inr c" "counts_int64 f"
    and "r = snapshot_rates (customer_rs price)"
  shows "\<exists>n. chAmount c = mkNumeric n (- 10) \<and>
    (n < 0 \<longleftrightarrow> \<not> IsKnown (OutputTokensTotal f) \<and>
      sum_list (take 5 (exact_amounts r f)) +
        (ReasoningOutputRate r - OutputRate r) * of_int (tcValue (ReasoningOutputTokens f)) / 10 ^ 6 \<le> - 1 / 10 ^ 10)"
proof (cases "IsKnown (OutputTokensTotal f)")
  case True
  then have "IsKnown (OutputTokensTotal f) \<or> tcValue (ReasoningOutputTokens f) = 0" by simp
  note charge = CalculateCustomerCharge_Inr [OF assms(1,2) this]
  have "0 \<le> sum_list (exact_amounts r f) * 10 ^ 10" using charge(5) assms(3) by simp
  then show ?thesis using charge(3) True rhu.rnd_nonneg [of "sum_list (exact_amounts r f) * 10 ^ 10"]
    by (simp add: assms(3) not_less)
next
  case False
  note charge = assms(1) [unfolded CalculateCustomerCharge_Inr_iff [OF assms(2)], folded assms(3)]
  have billed: "billed (OutputTokensTotal f) = 0" "billed (ReasoningOutputTokens f) = tcValue (ReasoningOutputTokens f)"
    using False charge by (auto simp: billed_eq IsKnown_def usage_ok_def facts_counts_def billable_iff)
  define U where "U = sum_list (take 5 (exact_amounts r f)) +
      (ReasoningOutputRate r - OutputRate r) * of_int (tcValue (ReasoningOutputTokens f)) / 10 ^ 6"
  have "sum_list (exact_amounts r f) = U"
    by (simp add: U_def exact_amounts_def rate_list_def usage_counts_def billed diff_divide_distrib left_diff_distrib)
  moreover have "U * 10 ^ 10 \<le> - 1 \<longleftrightarrow> U \<le> - 1 / 10 ^ 10" by (simp only: pos_le_divide_eq zero_less_power zero_less_numeral)
  ultimately show ?thesis unfolding U_def [symmetric] using charge False by (simp add: roundHalfUp_half_up half_up_negative)
qed

lemma reasoning_without_output_negative_charge_witness:
  "\<exists>c n. CalculateCustomerCharge reasoning_only_facts cheap_reasoning_price = Inr c \<and>
     chAmount c = mkNumeric n (- 10) \<and> n < 0"
proof -
  obtain c where c: "CalculateCustomerCharge reasoning_only_facts cheap_reasoning_price = Inr c"
    using reasoning_only_ok by (simp add: CalculateCustomerCharge_Inr_iff)
  let ?r = "snapshot_rates (customer_rs cheap_reasoning_price)"
  have "sum_list (take 5 (exact_amounts ?r reasoning_only_facts)) +
      (ReasoningOutputRate ?r - OutputRate ?r) * of_int (tcValue (ReasoningOutputTokens reasoning_only_facts)) / 10 ^ 6 = - 5"
    by (simp add: exact_amounts_def usage_counts_def rate_list_def snapshot_rates_def customer_rs_def Let_def
        cheap_reasoning_price_def reasoning_only_facts_def witness_defs rate_or_def numericToRat_val BillableValue_def
        numeric_val_if finite_num_def)
  moreover have "\<not> IsKnown (OutputTokensTotal reasoning_only_facts)"
    by (simp add: reasoning_only_facts_def witness_defs IsKnown_def)
  ultimately show ?thesis
    using reasoning_without_output_negative_charge [OF c reasoning_only_ok(2) refl] c by simp
qed

end
