(* ===== verification/Sql_Store.thy ===== *)
theory Sql_Store
  imports Go_Numeric
begin

text \<open>
  The PostgreSQL statements the ledger runs (\<open>internal/platform/store/sqlc\<close>: \<open>user_balances.sql.go\<close>,
  \<open>ledger_entries.sql.go\<close>, \<open>ledger_reservations.sql.go\<close>, \<open>ledger_billing_exceptions.sql.go\<close>) on the tables
  of \<open>src/migrations\<close> 20, 21, 22 and 35.

  \<^item> A table is the list of its rows in insertion order; one sequence numbers the rows of all tables; \<open>users\<close> and
    \<open>requests\<close> are what the foreign keys refer to.
  \<^item> A NUMERIC(20,10) column is an integer number of units of \<open>10 ^ -10\<close>; Go reads it as
    \<open>num n = mkNumeric n (- 10)\<close>. An assignment rounds halves away from zero and fails at \<open>10 ^ 10\<close>.
  \<^item> A parameter that is NULL keeps the meaning of SQL (a comparison with it is not true, arithmetic
    gives NULL, a NOT NULL column refuses it). NaN, an infinity and a numeric without digits are
    outside the model: the statement stops with \<open>NonFiniteParameter\<close>.
  \<^item> An INSERT evaluates CHECK, then UNIQUE, then FOREIGN KEY constraints; an UPDATE evaluates the CHECK
    constraints of the new row. A \<open>:one\<close> query without a row returns \<open>ErrNoRows\<close>.
  \<^item> An UPDATE by a unique key changes at most one row. Values of sequences that a rollback burns are
    given out again by the model, the identifiers stay unique.
\<close>

datatype db_error =
    ErrNoRows
  | UniqueViolation
  | CheckViolation
  | NotNullViolation
  | ForeignKeyViolation
  | ExclusionViolation
  | NumericOutOfRange
  | ConnFailure
  | NonFiniteParameter

datatype sql_num = SqlNull | SqlNum rat

abbreviation num :: "int \<Rightarrow> numeric" where "num n \<equiv> mkNumeric n (- 10)"

definition bind_num :: "numeric \<Rightarrow> (db_error, sql_num) go_result" where
  "bind_num v = (if \<not> nValid v then Inr SqlNull
     else case numericRat v of None \<Rightarrow> Inl NonFiniteParameter | Some r \<Rightarrow> Inr (SqlNum r))"

definition cast10 :: "rat \<Rightarrow> (db_error, int) go_result" where
  "cast10 x = (let n = round_half_away (x * 10 ^ 10)
     in if \<bar>n\<bar> < 10 ^ 20 then Inr n else Inl NumericOutOfRange)"

definition col10 :: "sql_num \<Rightarrow> (db_error, int) go_result" where
  "col10 p = (case p of SqlNull \<Rightarrow> Inl NotNullViolation | SqlNum r \<Rightarrow> cast10 r)"

fun sql_add :: "sql_num \<Rightarrow> sql_num \<Rightarrow> sql_num" where
  "sql_add (SqlNum a) (SqlNum b) = SqlNum (a + b)"
| "sql_add _ _ = SqlNull"

fun sql_sub :: "sql_num \<Rightarrow> sql_num \<Rightarrow> sql_num" where
  "sql_sub (SqlNum a) (SqlNum b) = SqlNum (a - b)"
| "sql_sub _ _ = SqlNull"

text \<open>A WHERE condition \<open>left >= right\<close>: NULL is not true.\<close>

fun sql_ge :: "sql_num \<Rightarrow> sql_num \<Rightarrow> bool" where
  "sql_ge (SqlNum a) (SqlNum b) \<longleftrightarrow> a \<ge> b"
| "sql_ge _ _ \<longleftrightarrow> False"

definition sql_col :: "int \<Rightarrow> sql_num" where "sql_col n = SqlNum (units n)"

subsection \<open>Rows and tables (models.go)\<close>

record UserBalance =
  ubID :: int
  ubUserID :: int
  ubCurrency :: string
  ubBalance :: int
  ubReservedBalance :: int
  ubCreatedAt :: int
  ubUpdatedAt :: int

record LedgerEntry =
  leID :: int
  leUserID :: int
  leRequestRecordID :: "int option"
  leEntryType :: string
  leAmount :: int
  leCurrency :: string
  leBalanceBefore :: int
  leBalanceAfter :: int
  leIdempotencyKey :: string
  leReason :: string
  leCreatedAt :: int

record LedgerReservation =
  lrID :: int
  lrUserID :: int
  lrRequestRecordID :: int
  lrCurrency :: string
  lrStatus :: string
  lrAuthorizedAmount :: int
  lrCapturedAmount :: int
  lrReleasedAmount :: int
  lrEstimatedAmount :: int
  lrCaptureLedgerEntryID :: "int option"
  lrIdempotencyKey :: string
  lrReason :: string
  lrCreatedAt :: int
  lrUpdatedAt :: int
  lrCapturedAt :: "int option"
  lrReleasedAt :: "int option"

record LedgerBillingException =
  beID :: int
  beUserID :: int
  beRequestRecordID :: int
  beReservationID :: int
  beEventType :: string
  beActualAmount :: "int option"
  beCapturedAmount :: int
  bePlatformAmount :: int
  beCurrency :: string
  beReasonCode :: string
  beReason :: string
  beCreatedAt :: int

record db =
  users :: "int list"
  requests :: "(int \<times> int) list"
  user_balances :: "UserBalance list"
  ledger_entries :: "LedgerEntry list"
  ledger_reservations :: "LedgerReservation list"
  billing_exceptions :: "LedgerBillingException list"
  next_id :: int

text \<open>\<open>now()\<close> of the running transaction is an argument of the statements that use it.\<close>

subsection \<open>CHECK constraints\<close>

definition check_user_balance :: "UserBalance \<Rightarrow> bool" where
  "check_user_balance r \<longleftrightarrow>
     ubReservedBalance r \<le> ubBalance r \<and> 0 \<le> ubBalance r \<and> ubCurrency r \<noteq> '''' \<and> 0 \<le> ubReservedBalance r"

definition credit_types :: "string list" where
  "credit_types = [''credit'', ''refund'', ''adjustment_credit'']"

definition debit_types :: "string list" where
  "debit_types = [''debit'', ''adjustment_debit'']"

definition check_ledger_entry :: "LedgerEntry \<Rightarrow> bool" where
  "check_ledger_entry r \<longleftrightarrow>
     ((leEntryType r \<in> set credit_types \<and> leBalanceAfter r = leBalanceBefore r + leAmount r) \<or>
      (leEntryType r \<in> set debit_types \<and> leBalanceAfter r = leBalanceBefore r - leAmount r)) \<and>
     leAmount r > 0 \<and> leBalanceAfter r \<ge> 0 \<and> leBalanceBefore r \<ge> 0 \<and> leCurrency r \<noteq> '''' \<and>
     leIdempotencyKey r \<noteq> '''' \<and> leReason r \<noteq> ''''"

definition check_ledger_reservation :: "LedgerReservation \<Rightarrow> bool" where
  "check_ledger_reservation r \<longleftrightarrow>
     lrCapturedAmount r + lrReleasedAmount r \<le> lrAuthorizedAmount r \<and>
     lrAuthorizedAmount r \<le> lrEstimatedAmount r \<and>
     ((lrStatus r = ''authorized'' \<and> lrCapturedAmount r = 0 \<and> lrReleasedAmount r = 0 \<and>
         lrCaptureLedgerEntryID r = None \<and> lrCapturedAt r = None \<and> lrReleasedAt r = None) \<or>
      (lrStatus r = ''captured'' \<and> lrCapturedAmount r > 0 \<and>
         lrCapturedAmount r + lrReleasedAmount r = lrAuthorizedAmount r \<and>
         lrCaptureLedgerEntryID r \<noteq> None \<and> lrCapturedAt r \<noteq> None \<and>
         ((lrReleasedAmount r = 0 \<and> lrReleasedAt r = None) \<or>
          (lrReleasedAmount r > 0 \<and> lrReleasedAt r \<noteq> None))) \<or>
      (lrStatus r = ''released'' \<and> lrCapturedAmount r = 0 \<and> lrReleasedAmount r = lrAuthorizedAmount r \<and>
         lrCaptureLedgerEntryID r = None \<and> lrCapturedAt r = None \<and> lrReleasedAt r \<noteq> None)) \<and>
     lrAuthorizedAmount r > 0 \<and> lrCapturedAmount r \<ge> 0 \<and> lrCurrency r \<noteq> '''' \<and>
     lrEstimatedAmount r > 0 \<and> lrIdempotencyKey r \<noteq> '''' \<and> lrReason r \<noteq> '''' \<and> lrReleasedAmount r \<ge> 0"

definition check_billing_exception :: "LedgerBillingException \<Rightarrow> bool" where
  "check_billing_exception r \<longleftrightarrow>
     (case beActualAmount r of
        Some a \<Rightarrow> beEventType r = ''write_off'' \<and> beCapturedAmount r < a \<and>
          bePlatformAmount r = a - beCapturedAmount r \<and> a > 0
      | None \<Rightarrow> beEventType r = ''risk_exposure'' \<and> beCapturedAmount r = 0) \<and>
     beCapturedAmount r \<ge> 0 \<and> beCurrency r \<noteq> '''' \<and> bePlatformAmount r > 0 \<and>
     beReason r \<noteq> '''' \<and> beReasonCode r \<noteq> ''''"

subsection \<open>user_balances.sql.go\<close>

definition is_balance :: "int \<Rightarrow> string \<Rightarrow> UserBalance \<Rightarrow> bool" where
  "is_balance userID cur r \<longleftrightarrow> ubUserID r = userID \<and> ubCurrency r = cur"

definition GetUserBalanceForUpdate :: "db \<Rightarrow> int \<Rightarrow> string \<Rightarrow> (db_error, UserBalance) go_result" where
  "GetUserBalanceForUpdate db userID cur =
     (case find (is_balance userID cur) (user_balances db) of None \<Rightarrow> Inl ErrNoRows | Some r \<Rightarrow> Inr r)"

definition put_balance :: "db \<Rightarrow> UserBalance \<Rightarrow> db" where
  "put_balance db r = db\<lparr>user_balances :=
     map (\<lambda>x. if is_balance (ubUserID r) (ubCurrency r) x then r else x) (user_balances db)\<rparr>"

text \<open>UPDATE user_balances of the row \<open>r\<close>: the new balance columns, their CHECKs, \<open>updated_at = now()\<close>.\<close>

definition set_balance ::
  "int \<Rightarrow> db \<Rightarrow> UserBalance \<Rightarrow> int \<Rightarrow> int \<Rightarrow> (db_error, UserBalance \<times> db) go_result" where
  "set_balance now db r bal res =
     (let r' = r\<lparr>ubBalance := bal, ubReservedBalance := res, ubUpdatedAt := now\<rparr>
      in if check_user_balance r' then Inr (r', put_balance db r') else Inl CheckViolation)"

definition AddUserBalance ::
  "int \<Rightarrow> db \<Rightarrow> numeric \<Rightarrow> int \<Rightarrow> string \<Rightarrow> (db_error, UserBalance \<times> db) go_result" where
  "AddUserBalance now db amount userID cur =
     rbind (bind_num amount) (\<lambda>a.
     rbind (GetUserBalanceForUpdate db userID cur) (\<lambda>r.
     rbind (col10 (sql_add (sql_col (ubBalance r)) a)) (\<lambda>bal.
     set_balance now db r bal (ubReservedBalance r))))"

definition SubtractUserBalance ::
  "int \<Rightarrow> db \<Rightarrow> numeric \<Rightarrow> int \<Rightarrow> string \<Rightarrow> (db_error, UserBalance \<times> db) go_result" where
  "SubtractUserBalance now db amount userID cur =
     rbind (bind_num amount) (\<lambda>a.
     rbind (GetUserBalanceForUpdate db userID cur) (\<lambda>r.
     if \<not> (sql_ge (sql_col (ubBalance r)) a \<and>
            sql_ge (sql_col (ubBalance r - ubReservedBalance r)) a) then Inl ErrNoRows
     else rbind (col10 (sql_sub (sql_col (ubBalance r)) a)) (\<lambda>bal.
     set_balance now db r bal (ubReservedBalance r))))"

definition CaptureUserReservedBalance ::
  "int \<Rightarrow> db \<Rightarrow> numeric \<Rightarrow> numeric \<Rightarrow> int \<Rightarrow> string \<Rightarrow> (db_error, UserBalance \<times> db) go_result" where
  "CaptureUserReservedBalance now db captured authorized userID cur =
     rbind (bind_num captured) (\<lambda>c.
     rbind (bind_num authorized) (\<lambda>a.
     rbind (GetUserBalanceForUpdate db userID cur) (\<lambda>r.
     if \<not> (sql_ge (sql_col (ubReservedBalance r)) a \<and> sql_ge (sql_col (ubBalance r)) c) then Inl ErrNoRows
     else rbind (col10 (sql_sub (sql_col (ubBalance r)) c)) (\<lambda>bal.
     rbind (col10 (sql_sub (sql_col (ubReservedBalance r)) a)) (\<lambda>res.
     set_balance now db r bal res)))))"

definition ReleaseUserReservedBalance ::
  "int \<Rightarrow> db \<Rightarrow> numeric \<Rightarrow> int \<Rightarrow> string \<Rightarrow> (db_error, UserBalance \<times> db) go_result" where
  "ReleaseUserReservedBalance now db amount userID cur =
     rbind (bind_num amount) (\<lambda>a.
     rbind (GetUserBalanceForUpdate db userID cur) (\<lambda>r.
     if \<not> sql_ge (sql_col (ubReservedBalance r)) a then Inl ErrNoRows
     else rbind (col10 (sql_sub (sql_col (ubReservedBalance r)) a)) (\<lambda>res.
     set_balance now db r (ubBalance r) res)))"

text \<open>
  \<open>$1::numeric(20, 10)\<close> rounds the parameter first. LEAST ignores a NULL argument, so
  the CTE then takes the whole available balance.
\<close>

definition cast_param :: "numeric \<Rightarrow> (db_error, int option) go_result" where
  "cast_param v = rbind (bind_num v) (\<lambda>p.
     case p of SqlNull \<Rightarrow> Inr None | SqlNum x \<Rightarrow> rbind (cast10 x) (\<lambda>n. Inr (Some n)))"

definition least_opt :: "int \<Rightarrow> int option \<Rightarrow> int" where
  "least_opt a b = (case b of None \<Rightarrow> a | Some n \<Rightarrow> min a n)"

definition ReserveAvailableUserBalance ::
  "int \<Rightarrow> db \<Rightarrow> numeric \<Rightarrow> int \<Rightarrow> string \<Rightarrow> (db_error, (UserBalance \<times> int) \<times> db) go_result" where
  "ReserveAvailableUserBalance now db estimated userID cur =
     rbind (cast_param estimated) (\<lambda>e.
     rbind (GetUserBalanceForUpdate db userID cur) (\<lambda>r.
       let authorized = least_opt (ubBalance r - ubReservedBalance r) e
       in if \<not> authorized > 0 then Inl ErrNoRows
          else rbind (set_balance now db r (ubBalance r) (ubReservedBalance r + authorized))
            (\<lambda>(r', db'). Inr ((r', authorized), db'))))"

text \<open>\<open>$1::numeric(20,10) - $2::numeric(20,10)\<close> is NULL when one of them is; GREATEST and LEAST ignore it.\<close>

definition CollectUserBalanceOverage ::
  "int \<Rightarrow> db \<Rightarrow> numeric \<Rightarrow> numeric \<Rightarrow> int \<Rightarrow> string \<Rightarrow> (db_error, (UserBalance \<times> int) \<times> db) go_result" where
  "CollectUserBalanceOverage now db actual authorized userID cur =
     rbind (cast_param actual) (\<lambda>a.
     rbind (cast_param authorized) (\<lambda>h.
     rbind (GetUserBalanceForUpdate db userID cur) (\<lambda>r.
       let excess = (case (a, h) of (Some x, Some y) \<Rightarrow> Some (x - y) | _ \<Rightarrow> None)
       in rbind (cast10 (units (max (least_opt (ubBalance r - ubReservedBalance r) excess) 0))) (\<lambda>collected.
          rbind (set_balance now db r (ubBalance r - collected) (ubReservedBalance r))
            (\<lambda>(r', db'). Inr ((r', collected), db'))))))"

definition EnsureUserBalance :: "int \<Rightarrow> db \<Rightarrow> int \<Rightarrow> string \<Rightarrow> (db_error, db) go_result" where
  "EnsureUserBalance now db userID cur =
     (let r = \<lparr>ubID = next_id db, ubUserID = userID, ubCurrency = cur, ubBalance = 0,
               ubReservedBalance = 0, ubCreatedAt = now, ubUpdatedAt = now\<rparr>
      in if \<not> check_user_balance r then Inl CheckViolation
         else if find (is_balance userID cur) (user_balances db) \<noteq> None then Inr db
         else if userID \<notin> set (users db) then Inl ForeignKeyViolation
         else Inr (db\<lparr>user_balances := user_balances db @ [r], next_id := next_id db + 1\<rparr>))"

subsection \<open>ledger_entries.sql.go\<close>

record CreateLedgerEntryParams =
  ceUserID :: int
  ceRequestRecordID :: "int option"
  ceEntryType :: string
  ceAmount :: numeric
  ceCurrency :: string
  ceBalanceBefore :: numeric
  ceBalanceAfter :: numeric
  ceIdempotencyKey :: string
  ceReason :: string

definition GetLedgerEntryByIdempotencyKey :: "db \<Rightarrow> string \<Rightarrow> (db_error, LedgerEntry) go_result" where
  "GetLedgerEntryByIdempotencyKey db key =
     (case find (\<lambda>r. leIdempotencyKey r = key) (ledger_entries db) of None \<Rightarrow> Inl ErrNoRows | Some r \<Rightarrow> Inr r)"

definition insert_ledger_entry :: "db \<Rightarrow> LedgerEntry \<Rightarrow> (db_error, LedgerEntry \<times> db) go_result" where
  "insert_ledger_entry db row =
     (if \<not> check_ledger_entry row then Inl CheckViolation
      else if leIdempotencyKey row \<in> leIdempotencyKey ` set (ledger_entries db) then Inl UniqueViolation
      else if leUserID row \<notin> set (users db) \<or>
        (case leRequestRecordID row of None \<Rightarrow> False | Some q \<Rightarrow> (q, leUserID row) \<notin> set (requests db))
      then Inl ForeignKeyViolation
      else Inr (row\<lparr>leID := next_id db\<rparr>,
        db\<lparr>ledger_entries := ledger_entries db @ [row\<lparr>leID := next_id db\<rparr>], next_id := next_id db + 1\<rparr>))"

definition CreateLedgerEntry ::
  "int \<Rightarrow> db \<Rightarrow> CreateLedgerEntryParams \<Rightarrow> (db_error, LedgerEntry \<times> db) go_result" where
  "CreateLedgerEntry now db arg =
     rbind (rbind (bind_num (ceAmount arg)) col10) (\<lambda>amount.
     rbind (rbind (bind_num (ceBalanceBefore arg)) col10) (\<lambda>balanceBefore.
     rbind (rbind (bind_num (ceBalanceAfter arg)) col10) (\<lambda>balanceAfter.
     insert_ledger_entry db
       \<lparr>leID = 0, leUserID = ceUserID arg, leRequestRecordID = ceRequestRecordID arg,
        leEntryType = ceEntryType arg, leAmount = amount, leCurrency = ceCurrency arg,
        leBalanceBefore = balanceBefore, leBalanceAfter = balanceAfter, leIdempotencyKey = ceIdempotencyKey arg,
        leReason = ceReason arg, leCreatedAt = now\<rparr>)))"

definition ListLedgerEntriesByRequest :: "db \<Rightarrow> int option \<Rightarrow> LedgerEntry list" where
  "ListLedgerEntriesByRequest db requestRecordID =
     sort_key leID (filter (\<lambda>r. requestRecordID \<noteq> None \<and> leRequestRecordID r = requestRecordID) (ledger_entries db))"

subsection \<open>ledger_reservations.sql.go\<close>

record CreateLedgerReservationParams =
  crUserID :: int
  crRequestRecordID :: int
  crCurrency :: string
  crEstimatedAmount :: numeric
  crAuthorizedAmount :: numeric
  crIdempotencyKey :: string
  crReason :: string

definition one_row :: "'r option \<Rightarrow> (db_error, 'r) go_result" where
  "one_row r = (case r of None \<Rightarrow> Inl ErrNoRows | Some x \<Rightarrow> Inr x)"

definition GetLedgerReservationByIdempotencyKey ::
  "db \<Rightarrow> string \<Rightarrow> (db_error, LedgerReservation) go_result" where
  "GetLedgerReservationByIdempotencyKey db key =
     one_row (find (\<lambda>r. lrIdempotencyKey r = key) (ledger_reservations db))"

definition GetLedgerReservationByRequestRecordID ::
  "db \<Rightarrow> int \<Rightarrow> (db_error, LedgerReservation) go_result" where
  "GetLedgerReservationByRequestRecordID db requestRecordID =
     one_row (find (\<lambda>r. lrRequestRecordID r = requestRecordID) (ledger_reservations db))"

definition GetLedgerReservationByRequestRecordIDForUpdate ::
  "db \<Rightarrow> int \<Rightarrow> (db_error, LedgerReservation) go_result" where
  "GetLedgerReservationByRequestRecordIDForUpdate db requestRecordID =
     one_row (find (\<lambda>r. lrRequestRecordID r = requestRecordID) (ledger_reservations db))"

definition insert_ledger_reservation ::
  "db \<Rightarrow> LedgerReservation \<Rightarrow> (db_error, LedgerReservation \<times> db) go_result" where
  "insert_ledger_reservation db row =
     (if \<not> check_ledger_reservation row then Inl CheckViolation
      else if lrIdempotencyKey row \<in> lrIdempotencyKey ` set (ledger_reservations db) \<or>
        lrRequestRecordID row \<in> lrRequestRecordID ` set (ledger_reservations db) then Inl UniqueViolation
      else if lrUserID row \<notin> set (users db) \<or> (lrRequestRecordID row, lrUserID row) \<notin> set (requests db)
      then Inl ForeignKeyViolation
      else Inr (row\<lparr>lrID := next_id db\<rparr>,
        db\<lparr>ledger_reservations := ledger_reservations db @ [row\<lparr>lrID := next_id db\<rparr>],
           next_id := next_id db + 1\<rparr>))"

definition CreateLedgerReservation ::
  "int \<Rightarrow> db \<Rightarrow> CreateLedgerReservationParams \<Rightarrow> (db_error, LedgerReservation \<times> db) go_result" where
  "CreateLedgerReservation now db arg =
     rbind (rbind (bind_num (crEstimatedAmount arg)) col10) (\<lambda>estimated.
     rbind (rbind (bind_num (crAuthorizedAmount arg)) col10) (\<lambda>authorized.
     insert_ledger_reservation db
       \<lparr>lrID = 0, lrUserID = crUserID arg, lrRequestRecordID = crRequestRecordID arg,
        lrCurrency = crCurrency arg, lrStatus = ''authorized'', lrAuthorizedAmount = authorized,
        lrCapturedAmount = 0, lrReleasedAmount = 0, lrEstimatedAmount = estimated,
        lrCaptureLedgerEntryID = None, lrIdempotencyKey = crIdempotencyKey arg, lrReason = crReason arg,
        lrCreatedAt = now, lrUpdatedAt = now, lrCapturedAt = None, lrReleasedAt = None\<rparr>))"

definition put_reservation :: "db \<Rightarrow> LedgerReservation \<Rightarrow> db" where
  "put_reservation db r = db\<lparr>ledger_reservations :=
     map (\<lambda>x. if lrID x = lrID r then r else x) (ledger_reservations db)\<rparr>"

text \<open>
  The UPDATE of a reservation \<open>r'\<close>: CHECK, the UNIQUE and the composite foreign key of
  \<open>capture_ledger_entry_id\<close>.
\<close>

definition update_reservation ::
  "db \<Rightarrow> LedgerReservation \<Rightarrow> (db_error, LedgerReservation \<times> db) go_result" where
  "update_reservation db r' =
     (if \<not> check_ledger_reservation r' then Inl CheckViolation
      else if lrCaptureLedgerEntryID r' \<noteq> None \<and>
        (\<exists>x \<in> set (ledger_reservations db). lrID x \<noteq> lrID r' \<and> lrCaptureLedgerEntryID x = lrCaptureLedgerEntryID r')
      then Inl UniqueViolation
      else if lrCaptureLedgerEntryID r' \<noteq> None \<and>
        \<not> (\<exists>e \<in> set (ledger_entries db). Some (leID e) = lrCaptureLedgerEntryID r' \<and>
              leUserID e = lrUserID r' \<and> leRequestRecordID e = Some (lrRequestRecordID r'))
      then Inl ForeignKeyViolation
      else Inr (r', put_reservation db r'))"

definition CaptureLedgerReservation ::
  "int \<Rightarrow> db \<Rightarrow> numeric \<Rightarrow> int option \<Rightarrow> int \<Rightarrow> (db_error, LedgerReservation \<times> db) go_result" where
  "CaptureLedgerReservation now db captured entryID rid =
     rbind (bind_num captured) (\<lambda>c.
     rbind (one_row (find (\<lambda>r. lrID r = rid \<and> lrStatus r = ''authorized'' \<and>
         sql_ge (sql_col (lrAuthorizedAmount r)) c) (ledger_reservations db))) (\<lambda>r.
     rbind (col10 c) (\<lambda>capturedAmount.
     rbind (col10 (sql_sub (sql_col (lrAuthorizedAmount r)) c)) (\<lambda>releasedAmount.
     update_reservation db
       (r\<lparr>lrStatus := ''captured'', lrCapturedAmount := capturedAmount, lrReleasedAmount := releasedAmount,
          lrCaptureLedgerEntryID := entryID, lrCapturedAt := Some now,
          lrReleasedAt := (if \<not> sql_ge c (sql_col (lrAuthorizedAmount r)) then Some now else None),
          lrUpdatedAt := now\<rparr>)))))"

definition ReleaseLedgerReservation ::
  "int \<Rightarrow> db \<Rightarrow> int \<Rightarrow> (db_error, LedgerReservation \<times> db) go_result" where
  "ReleaseLedgerReservation now db rid =
     rbind (one_row (find (\<lambda>r. lrID r = rid \<and> lrStatus r = ''authorized'') (ledger_reservations db))) (\<lambda>r.
     update_reservation db
       (r\<lparr>lrStatus := ''released'', lrReleasedAmount := lrAuthorizedAmount r,
          lrReleasedAt := Some now, lrUpdatedAt := now\<rparr>))"

subsection \<open>ledger_billing_exceptions.sql.go\<close>

definition GetLedgerBillingExceptionByReservationID ::
  "db \<Rightarrow> int \<Rightarrow> (db_error, LedgerBillingException) go_result" where
  "GetLedgerBillingExceptionByReservationID db reservationID =
     one_row (find (\<lambda>r. beReservationID r = reservationID) (billing_exceptions db))"

definition insert_billing_exception ::
  "db \<Rightarrow> LedgerBillingException \<Rightarrow> (db_error, LedgerBillingException \<times> db) go_result" where
  "insert_billing_exception db row =
     (if \<not> check_billing_exception row then Inl CheckViolation
      else if beRequestRecordID row \<in> beRequestRecordID ` set (billing_exceptions db) \<or>
        beReservationID row \<in> beReservationID ` set (billing_exceptions db) then Inl UniqueViolation
      else if beUserID row \<notin> set (users db) \<or> (beRequestRecordID row, beUserID row) \<notin> set (requests db) \<or>
        \<not> (\<exists>r \<in> set (ledger_reservations db). lrID r = beReservationID row \<and> lrUserID r = beUserID row \<and>
              lrRequestRecordID r = beRequestRecordID row)
      then Inl ForeignKeyViolation
      else Inr (row\<lparr>beID := next_id db\<rparr>,
        db\<lparr>billing_exceptions := billing_exceptions db @ [row\<lparr>beID := next_id db\<rparr>], next_id := next_id db + 1\<rparr>))"

record CreateLedgerWriteOffExceptionParams =
  cwUserID :: int
  cwRequestRecordID :: int
  cwReservationID :: int
  cwActualAmount :: numeric
  cwCapturedAmount :: numeric
  cwOverageAmount :: numeric
  cwCurrency :: string
  cwReasonCode :: string
  cwReason :: string

definition CreateLedgerWriteOffException ::
  "int \<Rightarrow> db \<Rightarrow> CreateLedgerWriteOffExceptionParams \<Rightarrow> (db_error, LedgerBillingException \<times> db) go_result" where
  "CreateLedgerWriteOffException now db arg =
     rbind (bind_num (cwActualAmount arg)) (\<lambda>a.
     rbind (bind_num (cwCapturedAmount arg)) (\<lambda>c.
     rbind (bind_num (cwOverageAmount arg)) (\<lambda>v.
     rbind (case a of SqlNull \<Rightarrow> Inr None | SqlNum x \<Rightarrow> rbind (cast10 x) (\<lambda>n. Inr (Some n))) (\<lambda>actualAmount.
     rbind (col10 (sql_add c v)) (\<lambda>capturedAmount.
     rbind (col10 (sql_sub (sql_sub a c) v)) (\<lambda>platformAmount.
     insert_billing_exception db
       \<lparr>beID = 0, beUserID = cwUserID arg, beRequestRecordID = cwRequestRecordID arg,
        beReservationID = cwReservationID arg, beEventType = ''write_off'', beActualAmount = actualAmount,
        beCapturedAmount = capturedAmount, bePlatformAmount = platformAmount, beCurrency = cwCurrency arg,
        beReasonCode = cwReasonCode arg, beReason = cwReason arg, beCreatedAt = now\<rparr>))))))"

record CreateLedgerRiskExposureExceptionParams =
  cxUserID :: int
  cxRequestRecordID :: int
  cxReservationID :: int
  cxPlatformAmount :: numeric
  cxCurrency :: string
  cxReasonCode :: string
  cxReason :: string

text \<open>
  ON CONFLICT (reservation_id) DO UPDATE keeps the row that is there (it assigns the \<open>reason_code\<close> it
  already has) and returns it.
\<close>

definition CreateLedgerRiskExposureException ::
  "int \<Rightarrow> db \<Rightarrow> CreateLedgerRiskExposureExceptionParams \<Rightarrow> (db_error, LedgerBillingException \<times> db) go_result" where
  "CreateLedgerRiskExposureException now db arg =
     rbind (rbind (bind_num (cxPlatformAmount arg)) col10) (\<lambda>platformAmount.
       let row = \<lparr>beID = 0, beUserID = cxUserID arg, beRequestRecordID = cxRequestRecordID arg,
         beReservationID = cxReservationID arg, beEventType = ''risk_exposure'', beActualAmount = None,
         beCapturedAmount = 0, bePlatformAmount = platformAmount, beCurrency = cxCurrency arg,
         beReasonCode = cxReasonCode arg, beReason = cxReason arg, beCreatedAt = now\<rparr>
       in if \<not> check_billing_exception row then Inl CheckViolation
          else case find (\<lambda>r. beReservationID r = beReservationID row) (billing_exceptions db) of
            Some existing \<Rightarrow> Inr (existing, db)
          | None \<Rightarrow> insert_billing_exception db row)"

subsection \<open>Parameters and columns\<close>

definition fits :: "int \<Rightarrow> bool" where "fits n \<longleftrightarrow> \<bar>n\<bar> < 10 ^ 20"

lemma bind_num_num [simp]: "bind_num (num n) = Inr (SqlNum (units n))"
  by (simp add: bind_num_def)

lemma bind_num_zero [simp]: "bind_num numericZero = Inr (SqlNum 0)"
  by (simp add: bind_num_def numericZero_def)

lemma bind_num_SqlNum: "bind_num v = Inr (SqlNum r) \<longleftrightarrow> numericRat v = Some r"
  by (auto simp: bind_num_def numericRat_val finite_num_def split: option.splits if_splits)

lemma bind_num_finite: "numericRat v = Some r \<Longrightarrow> bind_num v = Inr (SqlNum r)"
  by (simp add: bind_num_SqlNum)

lemma cast10_units [simp]: "cast10 (units n) = (if fits n then Inr n else Inl NumericOutOfRange)"
  by (simp add: cast10_def fits_def)

lemma cast10_Inr: "cast10 x = Inr n \<longleftrightarrow> n = round_half_away (x * 10 ^ 10) \<and> fits n"
  by (auto simp: cast10_def fits_def Let_def split: if_splits)

lemma col10_SqlNum [simp]: "col10 (SqlNum r) = cast10 r"
  by (simp add: col10_def)

lemma col10_Inr: "col10 p = Inr n \<longleftrightarrow> (\<exists>r. p = SqlNum r \<and> cast10 r = Inr n)"
  by (cases p) (simp_all add: col10_def)

lemma sql_col_arith [simp]:
  "sql_add (sql_col a) (SqlNum (units b)) = SqlNum (units (a + b))"
  "sql_sub (sql_col a) (SqlNum (units b)) = SqlNum (units (a - b))"
  "sql_ge (sql_col a) (SqlNum (units b)) \<longleftrightarrow> b \<le> a"
  by (simp_all add: sql_col_def)

lemma fits_between: "fits a \<Longrightarrow> fits b \<Longrightarrow> a \<le> x \<Longrightarrow> x \<le> b \<Longrightarrow> fits x"
  by (auto simp: fits_def)

lemma fits_zero [simp]: "fits 0"
  by (simp add: fits_def)

subsection \<open>Accounts\<close>

text \<open>What a row of \<open>user_balances\<close> means: total and reserved units; no row is an empty account.\<close>

definition account :: "db \<Rightarrow> int \<times> string \<Rightarrow> int \<times> int" where
  "account db k = (case find (is_balance (fst k) (snd k)) (user_balances db) of
     None \<Rightarrow> (0, 0) | Some r \<Rightarrow> (ubBalance r, ubReservedBalance r))"

abbreviation ub_key :: "UserBalance \<Rightarrow> int \<times> string" where "ub_key r \<equiv> (ubUserID r, ubCurrency r)"

definition balances_ok :: "db \<Rightarrow> bool" where
  "balances_ok db \<longleftrightarrow> distinct (map ub_key (user_balances db)) \<and>
     (\<forall>r \<in> set (user_balances db). check_user_balance r \<and> fits (ubBalance r))"

text \<open>Everything but the balances and the sequence.\<close>

definition same_tables :: "db \<Rightarrow> db \<Rightarrow> bool" where
  "same_tables db db' \<longleftrightarrow> users db' = users db \<and> requests db' = requests db \<and>
     ledger_entries db' = ledger_entries db \<and> ledger_reservations db' = ledger_reservations db \<and>
     billing_exceptions db' = billing_exceptions db \<and> next_id db \<le> next_id db'"

lemma is_balance_key: "is_balance u c = (\<lambda>r. ub_key r = (u, c))"
  by (auto simp: is_balance_def fun_eq_iff)

lemma account_eq:
  "account db k = (case find (\<lambda>r. ub_key r = k) (user_balances db) of
     None \<Rightarrow> (0, 0) | Some r \<Rightarrow> (ubBalance r, ubReservedBalance r))"
  by (simp add: account_def is_balance_key)

lemma put_balance_eq:
  "put_balance db r = db\<lparr>user_balances := map (\<lambda>x. if ub_key x = ub_key r then r else x) (user_balances db)\<rparr>"
  by (simp add: put_balance_def is_balance_key)

definition balance_set :: "db \<Rightarrow> db \<Rightarrow> int \<times> string \<Rightarrow> int \<Rightarrow> int \<Rightarrow> bool" where
  "balance_set db db' k bal res \<longleftrightarrow>
     (\<exists>r r'. find (\<lambda>x. ub_key x = k) (user_balances db) = Some r \<and> ub_key r' = k \<and>
        ubBalance r' = bal \<and> ubReservedBalance r' = res \<and> check_user_balance r' \<and> db' = put_balance db r')"

lemma balance_setE:
  assumes "balance_set db db' k bal res"
  obtains r r' where "find (\<lambda>x. ub_key x = k) (user_balances db) = Some r" "ub_key r' = k"
    "ubBalance r' = bal" "ubReservedBalance r' = res" "check_user_balance r'" "db' = put_balance db r'"
  using assms unfolding balance_set_def by blast

lemma balance_set_account:
  assumes "balance_set db db' k bal res"
  shows "account db' = (account db)(k := (bal, res))"
proof -
  obtain r r' where r: "find (\<lambda>x. ub_key x = k) (user_balances db) = Some r" "ub_key r' = k"
    "ubBalance r' = bal" "ubReservedBalance r' = res" and db': "db' = put_balance db r'"
    using assms by (rule balance_setE)
  have "find (\<lambda>x. ub_key x = j) (user_balances db')
      = (if j = k then Some r' else find (\<lambda>x. ub_key x = j) (user_balances db))" for j
    using find_update [where key = ub_key, OF r(1,2), of j] r(2) by (simp add: db' put_balance_eq)
  with r(3,4) show ?thesis by (auto simp: account_eq fun_eq_iff)
qed

lemma balance_set_frame:
  assumes "balance_set db db' k bal res"
  shows "same_tables db db'" "0 \<le> res" "res \<le> bal" "next_id db' = next_id db"
  using assms by (auto simp: balance_set_def same_tables_def put_balance_def check_user_balance_def)

lemma balance_set_ok:
  assumes "balance_set db db' k bal res" "balances_ok db" "fits bal"
  shows "balances_ok db'"
proof -
  obtain r' where r': "ub_key r' = k" "ubBalance r' = bal" "check_user_balance r'" "db' = put_balance db r'"
    using assms(1) by (rule balance_setE)
  have "map ub_key (user_balances db') = map ub_key (user_balances db)"
    using map_key_update [where key = ub_key and r' = r', OF refl, of "user_balances db"]
    by (simp add: r'(4) put_balance_eq)
  then have "distinct (map ub_key (user_balances db'))" using assms(2) by (simp add: balances_ok_def)
  moreover have "\<forall>r \<in> set (user_balances db'). check_user_balance r \<and> fits (ubBalance r)"
    using assms(2,3) r' by (auto simp: balances_ok_def put_balance_def)
  ultimately show ?thesis by (simp add: balances_ok_def)
qed

lemma account_ok:
  assumes "balances_ok db"
  shows "0 \<le> snd (account db k)" "snd (account db k) \<le> fst (account db k)" "fits (fst (account db k))"
  using assms find_key_Some [of ub_key k "user_balances db"]
  by (auto simp: account_eq balances_ok_def check_user_balance_def split: option.splits)

lemma GetUserBalanceForUpdate_Inr:
  "GetUserBalanceForUpdate db u c = Inr r \<longleftrightarrow> find (\<lambda>x. ub_key x = (u, c)) (user_balances db) = Some r"
  by (auto simp: GetUserBalanceForUpdate_def is_balance_key split: option.splits)

lemma GetUserBalance_account:
  assumes "GetUserBalanceForUpdate db u c = Inr r"
  shows "account db (u, c) = (ubBalance r, ubReservedBalance r)" "ub_key r = (u, c)"
  using assms find_key_Some [of ub_key "(u, c)" "user_balances db" r]
  by (auto simp: account_eq GetUserBalanceForUpdate_Inr)

lemma set_balance_Inr:
  assumes "set_balance now db r bal res = Inr (r', db')" "GetUserBalanceForUpdate db u c = Inr r"
  shows "balance_set db db' (u, c) bal res" "ubBalance r' = bal" "ubReservedBalance r' = res"
proof -
  have r: "find (\<lambda>x. ub_key x = (u, c)) (user_balances db) = Some r" "ub_key r = (u, c)"
    using assms(2) GetUserBalance_account(2) [OF assms(2)] by (simp_all add: GetUserBalanceForUpdate_Inr)
  have r': "r' = r\<lparr>ubBalance := bal, ubReservedBalance := res, ubUpdatedAt := now\<rparr>"
    "check_user_balance r'" "db' = put_balance db r'"
    using assms(1) by (auto simp: set_balance_def Let_def split: if_splits)
  then have "ub_key r' = (u, c)" "ubBalance r' = bal" "ubReservedBalance r' = res" using r(2) by simp_all
  with r(1) r'(2,3) show "balance_set db db' (u, c) bal res" "ubBalance r' = bal" "ubReservedBalance r' = res"
    unfolding balance_set_def by blast+
qed

subsection \<open>The balance statements\<close>

lemma AddUserBalance_Inr:
  assumes "AddUserBalance now db v u c = Inr (r', db')"
  obtains bal where "balance_set db db' (u, c) bal (snd (account db (u, c)))" "fits bal" "ubBalance r' = bal"
proof -
  from assms obtain r bal where r: "GetUserBalanceForUpdate db u c = Inr r"
    and bal: "fits bal" and set: "set_balance now db r bal (ubReservedBalance r) = Inr (r', db')"
    unfolding AddUserBalance_def by (fastforce simp: rbind_Inr_iff col10_Inr cast10_Inr)
  show ?thesis
    using that set_balance_Inr [OF set r] bal by (simp add: GetUserBalance_account(1) [OF r])
qed

lemma SubtractUserBalance_Inr:
  assumes "SubtractUserBalance now db v u c = Inr (r', db')"
  obtains bal where "balance_set db db' (u, c) bal (snd (account db (u, c)))" "fits bal" "ubBalance r' = bal"
proof -
  from assms obtain r bal where r: "GetUserBalanceForUpdate db u c = Inr r"
    and bal: "fits bal" and set: "set_balance now db r bal (ubReservedBalance r) = Inr (r', db')"
    unfolding SubtractUserBalance_def
    by (fastforce simp: rbind_Inr_iff if_Inl_Inr_iff col10_Inr cast10_Inr)
  show ?thesis
    using that set_balance_Inr [OF set r] bal by (simp add: GetUserBalance_account(1) [OF r])
qed

text \<open>Capturing the exact amount \<open>x\<close> of an authorization of \<open>a\<close> units.\<close>

lemma CaptureUserReservedBalance_Inr:
  assumes "CaptureUserReservedBalance now db cap (num a) u c = Inr (r', db')"
  obtains bal where "balance_set db db' (u, c) bal (snd (account db (u, c)) - a)" "fits bal" "ubBalance r' = bal"
    "ubReservedBalance r' = snd (account db (u, c)) - a"
proof -
  from assms obtain r bal where r: "GetUserBalanceForUpdate db u c = Inr r"
    and bal: "fits bal" and set: "set_balance now db r bal (ubReservedBalance r - a) = Inr (r', db')"
    unfolding CaptureUserReservedBalance_def
    by (fastforce simp: rbind_Inr_iff if_Inl_Inr_iff col10_Inr cast10_Inr split: if_splits)
  show ?thesis
    using that set_balance_Inr [OF set r] bal by (simp add: GetUserBalance_account(1) [OF r])
qed

lemma ReleaseUserReservedBalance_Inr:
  assumes "ReleaseUserReservedBalance now db (num a) u c = Inr (r', db')"
  shows "balance_set db db' (u, c) (fst (account db (u, c))) (snd (account db (u, c)) - a)"
proof -
  from assms obtain r where r: "GetUserBalanceForUpdate db u c = Inr r"
    and set: "set_balance now db r (ubBalance r) (ubReservedBalance r - a) = Inr (r', db')"
    unfolding ReleaseUserReservedBalance_def
    by (fastforce simp: rbind_Inr_iff if_Inl_Inr_iff split: if_splits)
  show ?thesis
    using set_balance_Inr [OF set r] by (simp add: GetUserBalance_account(1) [OF r])
qed

lemma ReserveAvailableUserBalance_Inr:
  assumes "ReserveAvailableUserBalance now db v u c = Inr ((r', a), db')"
  obtains e where "cast_param v = Inr e" "a = least_opt (fst (account db (u, c)) - snd (account db (u, c))) e" "0 < a"
    "balance_set db db' (u, c) (fst (account db (u, c))) (snd (account db (u, c)) + a)"
proof -
  from assms obtain e r where e: "cast_param v = Inr e" and r: "GetUserBalanceForUpdate db u c = Inr r"
    and a: "a = least_opt (ubBalance r - ubReservedBalance r) e" "0 < a"
    and set: "set_balance now db r (ubBalance r) (ubReservedBalance r + a) = Inr (r', db')"
    unfolding ReserveAvailableUserBalance_def
    by (fastforce simp: rbind_Inr_iff if_Inl_Inr_iff Let_def split: if_splits)
  show ?thesis
    using that e a set_balance_Inr [OF set r] by (simp add: GetUserBalance_account(1) [OF r])
qed

lemma cast_param_num [simp]: "cast_param (num n) = (if fits n then Inr (Some n) else Inl NumericOutOfRange)"
  by (simp add: cast_param_def)

lemma CollectUserBalanceOverage_Inr:
  assumes "CollectUserBalanceOverage now db v (num a) u c = Inr ((r', got), db')"
  obtains e where "cast_param v = Inr e"
    "got = max (least_opt (fst (account db (u, c)) - snd (account db (u, c))) (map_option (\<lambda>x. x - a) e)) 0"
    "balance_set db db' (u, c) (fst (account db (u, c)) - got) (snd (account db (u, c)))"
    "ubBalance r' = fst (account db (u, c)) - got"
proof -
  from assms obtain e r where e: "cast_param v = Inr e" and r: "GetUserBalanceForUpdate db u c = Inr r"
    and got: "got = max (least_opt (ubBalance r - ubReservedBalance r) (map_option (\<lambda>x. x - a) e)) 0"
    and set: "set_balance now db r (ubBalance r - got) (ubReservedBalance r) = Inr (r', db')"
    unfolding CollectUserBalanceOverage_def
    by (fastforce simp: rbind_Inr_iff if_Inl_Inr_iff Let_def split: if_splits option.splits)
  show ?thesis
    using that e got set_balance_Inr [OF set r] by (simp add: GetUserBalance_account(1) [OF r])
qed

lemma EnsureUserBalance_Inr:
  assumes "EnsureUserBalance now db u c = Inr db'"
  shows "account db' = account db" "same_tables db db'" "balances_ok db \<Longrightarrow> balances_ok db'"
    "\<exists>r. GetUserBalanceForUpdate db' u c = Inr r"
proof -
  define row where "row = \<lparr>ubID = next_id db, ubUserID = u, ubCurrency = c, ubBalance = 0,
    ubReservedBalance = 0, ubCreatedAt = now, ubUpdatedAt = now\<rparr>"
  let ?found = "find (\<lambda>x. ub_key x = (u, c)) (user_balances db)"
  have row: "ub_key row = (u, c)" "ubBalance row = 0" "ubReservedBalance row = 0" by (simp_all add: row_def)
  have cases: "check_user_balance row" and db': "db' = (if ?found \<noteq> None then db
      else db\<lparr>user_balances := user_balances db @ [row], next_id := next_id db + 1\<rparr>)"
    using assms unfolding EnsureUserBalance_def is_balance_key row_def [symmetric] Let_def
    by (auto split: if_splits)
  have "account db' k = account db k" for k
    using row by (cases "?found") (auto simp: db' account_eq find_append split: option.splits)
  then show "account db' = account db" ..
  show "same_tables db db'" by (simp add: db' same_tables_def)
  show "\<exists>r. GetUserBalanceForUpdate db' u c = Inr r"
    using row by (cases ?found) (auto simp: db' GetUserBalanceForUpdate_Inr find_append)
  assume ok: "balances_ok db"
  show "balances_ok db'"
  proof (cases ?found)
    case None
    then have "(u, c) \<notin> ub_key ` set (user_balances db)" by (simp only: find_key_None not_False_eq_True)
    with ok cases row None show ?thesis by (auto simp: db' balances_ok_def)
  next
    case (Some r)
    then show ?thesis using ok by (simp add: db')
  qed
qed

text \<open>When the money is there, the statements on a reservation's funds find their row.\<close>

lemma set_balance_ok:
  assumes "GetUserBalanceForUpdate db u c = Inr r" "balances_ok db" "0 \<le> res" "res \<le> bal"
  shows "\<exists>r' db'. set_balance now db r bal res = Inr (r', db')"
proof -
  have "check_user_balance r"
    using assms(1,2) find_key_Some [of ub_key "(u, c)" "user_balances db" r]
    by (simp add: GetUserBalanceForUpdate_Inr balances_ok_def)
  with assms(3,4) show ?thesis by (simp add: set_balance_def check_user_balance_def Let_def)
qed

lemma account_row:
  assumes "0 < snd (account db (u, c))"
  obtains r where "GetUserBalanceForUpdate db u c = Inr r"
    "account db (u, c) = (ubBalance r, ubReservedBalance r)"
  using assms that by (auto simp: account_eq GetUserBalanceForUpdate_Inr split: option.splits)

lemma ReleaseUserReservedBalance_ok:
  assumes "balances_ok db" "0 < a" "a \<le> snd (account db (u, c))"
  shows "\<exists>r' db'. ReleaseUserReservedBalance now db (num a) u c = Inr (r', db')"
proof -
  obtain r where r: "GetUserBalanceForUpdate db u c = Inr r"
    "account db (u, c) = (ubBalance r, ubReservedBalance r)"
    using assms by (metis account_row less_le_trans)
  note acc = account_ok [OF assms(1), of "(u, c)", unfolded r(2)]
  have "fits (ubReservedBalance r - a)" using acc assms r(2) by (auto simp: fits_def)
  moreover have "\<exists>r' db'. set_balance now db r (ubBalance r) (ubReservedBalance r - a) = Inr (r', db')"
    using acc assms r by (intro set_balance_ok) auto
  ultimately show ?thesis using assms r by (auto simp: ReleaseUserReservedBalance_def)
qed

subsection \<open>Tables with a unique key\<close>

text \<open>
  The interface behind every idempotent operation: a table of rows with a unique key, an INSERT that
  refuses a key it has, and the lookup by that key. The facts below are what the services rely on:
  a row that was written is found again by its key, stays found and stays the only one.
\<close>

locale keyed_log =
  fixes rows :: "'s \<Rightarrow> 'r list" and key :: "'r \<Rightarrow> 'k"
    and insert_row :: "'s \<Rightarrow> 'r \<Rightarrow> (db_error, 'r \<times> 's) go_result"
    and lookup :: "'s \<Rightarrow> 'k \<Rightarrow> (db_error, 'r) go_result"
  assumes insert_rows: "insert_row db r = Inr (r', db') \<Longrightarrow> rows db' = rows db @ [r'] \<and> key r' = key r"
    and insert_new: "insert_row db r = Inr (r', db') \<Longrightarrow> key r \<notin> key ` set (rows db)"
    and lookup_find: "lookup db k = one_row (find (\<lambda>x. key x = k) (rows db))"
begin

lemma lookup_Inr_iff: "lookup db k = Inr r \<longleftrightarrow> find (\<lambda>x. key x = k) (rows db) = Some r"
  by (auto simp: lookup_find one_row_def split: option.splits)

lemma lookup_Inr: "lookup db k = Inr r \<Longrightarrow> r \<in> set (rows db) \<and> key r = k"
  unfolding lookup_Inr_iff by (rule find_key_Some)

lemma lookup_Inl_iff: "lookup db k = Inl e \<longleftrightarrow> e = ErrNoRows \<and> k \<notin> key ` set (rows db)"
proof (cases "find (\<lambda>x. key x = k) (rows db)")
  case None
  then have "k \<notin> key ` set (rows db)" by (simp only: find_key_None not_False_eq_True)
  with None show ?thesis by (auto simp: lookup_find one_row_def)
next
  case (Some r)
  then have "k \<in> key ` set (rows db)" using find_key_Some [of key k "rows db" r] by auto
  with Some show ?thesis by (simp add: lookup_find one_row_def)
qed

lemma lookup_inserted:
  assumes "insert_row db r = Inr (r', db')"
  shows "lookup db' (key r) = Inr r'"
proof -
  have "find (\<lambda>x. key x = key r) (rows db) = None"
    using insert_new [OF assms] by (simp only: find_key_None not_False_eq_True)
  then show ?thesis using insert_rows [OF assms] by (simp add: lookup_Inr_iff find_append)
qed

lemma lookup_kept: "insert_row db r = Inr (r', db') \<Longrightarrow> lookup db k = Inr x \<Longrightarrow> lookup db' k = Inr x"
  using insert_rows [of db r r' db'] by (simp add: lookup_Inr_iff find_append)

lemma distinct_kept:
  "insert_row db r = Inr (r', db') \<Longrightarrow> distinct (map key (rows db)) \<Longrightarrow> distinct (map key (rows db'))"
  using insert_rows [of db r r' db'] insert_new [of db r r' db'] by auto

lemma insert_refused: "lookup db (key r) = Inr x \<Longrightarrow> \<exists>e. insert_row db r = Inl e"
  using insert_new [of db r] lookup_Inr [of db "key r" x]
  by (cases "insert_row db r") (auto simp: rev_image_eqI)

lemma lookup_member: "distinct (map key (rows db)) \<Longrightarrow> r \<in> set (rows db) \<Longrightarrow> lookup db (key r) = Inr r"
  unfolding lookup_Inr_iff by (rule find_distinct) auto

end

interpretation entries: keyed_log ledger_entries leIdempotencyKey insert_ledger_entry GetLedgerEntryByIdempotencyKey
  by unfold_locales
    (auto simp: insert_ledger_entry_def GetLedgerEntryByIdempotencyKey_def one_row_def split: if_splits)

interpretation reservations: keyed_log ledger_reservations lrIdempotencyKey insert_ledger_reservation
    GetLedgerReservationByIdempotencyKey
  by unfold_locales
    (auto simp: insert_ledger_reservation_def GetLedgerReservationByIdempotencyKey_def split: if_splits)

interpretation request_reservations: keyed_log ledger_reservations lrRequestRecordID insert_ledger_reservation
    GetLedgerReservationByRequestRecordIDForUpdate
  by unfold_locales
    (auto simp: insert_ledger_reservation_def GetLedgerReservationByRequestRecordIDForUpdate_def split: if_splits)

interpretation exceptions: keyed_log billing_exceptions beReservationID insert_billing_exception
    GetLedgerBillingExceptionByReservationID
  by unfold_locales
    (auto simp: insert_billing_exception_def GetLedgerBillingExceptionByReservationID_def split: if_splits)

subsection \<open>New entries\<close>

definition entry_keys :: "db \<Rightarrow> string set" where
  "entry_keys db = leIdempotencyKey ` set (ledger_entries db)"

definition entry_added :: "db \<Rightarrow> db \<Rightarrow> LedgerEntry \<Rightarrow> bool" where
  "entry_added db db' e \<longleftrightarrow> check_ledger_entry e \<and> leIdempotencyKey e \<notin> entry_keys db \<and> leID e = next_id db \<and>
     leUserID e \<in> set (users db) \<and>
     (\<forall>q. leRequestRecordID e = Some q \<longrightarrow> (q, leUserID e) \<in> set (requests db)) \<and>
     db' = db\<lparr>ledger_entries := ledger_entries db @ [e], next_id := next_id db + 1\<rparr>"

lemma CreateLedgerEntry_Inr:
  assumes "CreateLedgerEntry now db arg = Inr (e, db')"
  shows "entry_added db db' e" "rbind (bind_num (ceAmount arg)) col10 = Inr (leAmount e)"
    "leUserID e = ceUserID arg" "leRequestRecordID e = ceRequestRecordID arg" "leEntryType e = ceEntryType arg"
    "leCurrency e = ceCurrency arg" "leIdempotencyKey e = ceIdempotencyKey arg" "leReason e = ceReason arg"
    "ceBalanceBefore arg = num b \<Longrightarrow> leBalanceBefore e = b" "ceBalanceAfter arg = num b' \<Longrightarrow> leBalanceAfter e = b'"
proof -
  obtain am bb ba where am: "rbind (bind_num (ceAmount arg)) col10 = Inr am"
    and bb: "rbind (bind_num (ceBalanceBefore arg)) col10 = Inr bb"
    and ba: "rbind (bind_num (ceBalanceAfter arg)) col10 = Inr ba"
    and ins: "insert_ledger_entry db
       \<lparr>leID = 0, leUserID = ceUserID arg, leRequestRecordID = ceRequestRecordID arg,
        leEntryType = ceEntryType arg, leAmount = am, leCurrency = ceCurrency arg,
        leBalanceBefore = bb, leBalanceAfter = ba, leIdempotencyKey = ceIdempotencyKey arg,
        leReason = ceReason arg, leCreatedAt = now\<rparr> = Inr (e, db')"
    using assms unfolding CreateLedgerEntry_def by (blast elim: rbind_InrE)
  then have e: "e = \<lparr>leID = next_id db, leUserID = ceUserID arg, leRequestRecordID = ceRequestRecordID arg,
        leEntryType = ceEntryType arg, leAmount = am, leCurrency = ceCurrency arg,
        leBalanceBefore = bb, leBalanceAfter = ba, leIdempotencyKey = ceIdempotencyKey arg,
        leReason = ceReason arg, leCreatedAt = now\<rparr>"
    by (simp add: insert_ledger_entry_def split: if_splits)
  show "entry_added db db' e"
    using ins by (auto simp: insert_ledger_entry_def entry_added_def entry_keys_def check_ledger_entry_def
        split: if_splits option.splits)
  show "rbind (bind_num (ceAmount arg)) col10 = Inr (leAmount e)"
    "leUserID e = ceUserID arg" "leRequestRecordID e = ceRequestRecordID arg" "leEntryType e = ceEntryType arg"
    "leCurrency e = ceCurrency arg" "leIdempotencyKey e = ceIdempotencyKey arg" "leReason e = ceReason arg"
    using am by (simp_all add: e)
  show "ceBalanceBefore arg = num b \<Longrightarrow> leBalanceBefore e = b"
    "ceBalanceAfter arg = num b' \<Longrightarrow> leBalanceAfter e = b'"
    using bb ba by (auto simp: e split: if_splits)
qed

lemma account_entries_update [simp]:
  "account (db\<lparr>ledger_entries := x, next_id := n\<rparr>) = account db"
  "account (db\<lparr>ledger_reservations := y, next_id := n\<rparr>) = account db"
  "account (db\<lparr>ledger_reservations := y\<rparr>) = account db"
  "account (db\<lparr>billing_exceptions := z, next_id := n\<rparr>) = account db"
  by (auto simp: account_def fun_eq_iff)

lemma balances_ok_update [simp]:
  "balances_ok (db\<lparr>ledger_entries := x, next_id := n\<rparr>) = balances_ok db"
  "balances_ok (db\<lparr>ledger_reservations := y, next_id := n\<rparr>) = balances_ok db"
  "balances_ok (db\<lparr>ledger_reservations := y\<rparr>) = balances_ok db"
  "balances_ok (db\<lparr>billing_exceptions := z, next_id := n\<rparr>) = balances_ok db"
  by (simp_all add: balances_ok_def)

subsection \<open>Calls to the store\<close>

text \<open>
  \<open>env\<close> is what a transaction meets outside the database: which calls fail with a connection error (by the
  message the code gives the call), how the commit ends, and what \<open>now()\<close> is.
\<close>

datatype commit_outcome = CommitOk | CommitFailed | CommitReplyLost

record env =
  fault :: "string \<Rightarrow> bool"
  commit_outcome :: commit_outcome
  clock :: int

definition store_call :: "'z env_scheme \<Rightarrow> string \<Rightarrow> (db_error, 'a) go_result \<Rightarrow> (db_error, 'a) go_result" where
  "store_call env msg r = (if fault env msg then Inl ConnFailure else r)"

lemma store_call_Inr: "store_call env msg r = Inr x \<longleftrightarrow> \<not> fault env msg \<and> r = Inr x"
  by (simp add: store_call_def)

lemma store_call_ErrNoRows: "store_call env msg r = Inl ErrNoRows \<longleftrightarrow> \<not> fault env msg \<and> r = Inl ErrNoRows"
  by (simp add: store_call_def)

end
