(* ===== verification/Ledger_Entries.thy ===== *)
theory Ledger_Entries
  imports Sql_Store
begin

text \<open>
  \<open>internal/core/ledger/entry.go\<close> (with \<open>constant.go\<close>, \<open>convert.go\<close>, \<open>errors.go\<close>): credits and debits of a
  user balance, each with its ledger entry, idempotent by key.

  \<^item> An operation runs in one transaction and returns its result with the committed database. An error
    rolls back: the database is the one before. \<open>env\<close> says which store calls fail and how the commit ends.
  \<^item> Two views of the database appear where a transaction reads before it holds a lock: \<open>seen\<close> is what
    the idempotency lookup saw, \<open>db\<close> is the committed state in which the writes happen (and which
    a lookup after the rollback sees). A serial execution has \<open>seen = db\<close>.
  \<^item> \<open>failure.Wrap\<close> keeps a code, the cause (\<open>Some\<close> a store error, \<open>None\<close> for a sentinel) and the message.
\<close>

datatype ledger_code =
    CodeLedgerStoreFailed
  | CodeAdminInvalidArgument
  | CodeLedgerIdempotencyConflict
  | CodeLedgerInsufficientBalance
  | CodeLedgerInvalidAmount
  | CodeLedgerReservationNotFound

datatype ledger_error = LedgerFailure ledger_code "db_error option" string

definition ErrInsufficientBalance :: string where "ErrInsufficientBalance = ''ledger: insufficient balance''"
definition ErrIdempotencyConflict :: string where "ErrIdempotencyConflict = ''ledger: idempotency key conflict''"
definition ErrInvalidAmount :: string where "ErrInvalidAmount = ''ledger: invalid amount''"
definition ErrReservationNotFound :: string where "ErrReservationNotFound = ''ledger: reservation not found''"

abbreviation insufficient_balance :: ledger_error where
  "insufficient_balance \<equiv> LedgerFailure CodeLedgerInsufficientBalance None ErrInsufficientBalance"

abbreviation idempotency_conflict :: ledger_error where
  "idempotency_conflict \<equiv> LedgerFailure CodeLedgerIdempotencyConflict None ErrIdempotencyConflict"

abbreviation store_failed :: "db_error \<Rightarrow> string \<Rightarrow> ledger_error" where
  "store_failed e msg \<equiv> LedgerFailure CodeLedgerStoreFailed (Some e) msg"

text \<open>\<open>errors.As\<close> looks through the wrapper at the cause.\<close>

definition isUniqueViolation :: "ledger_error \<Rightarrow> bool" where
  "isUniqueViolation err = (case err of LedgerFailure _ c _ \<Rightarrow> c = Some UniqueViolation)"

definition begin_tx :: "env \<Rightarrow> string \<Rightarrow> (ledger_error, unit) go_result" where
  "begin_tx env msg = (if fault env msg then Inl (store_failed ConnFailure msg) else Inr ())"

text \<open>\<open>tx.Commit\<close>: done, refused, or done with the reply lost.\<close>

definition commit_tx :: "env \<Rightarrow> string \<Rightarrow> 's \<Rightarrow> 's \<Rightarrow> 'a \<Rightarrow> (ledger_error, 'a) go_result \<times> 's" where
  "commit_tx env msg db db' x =
     (case commit_outcome env of
        CommitOk \<Rightarrow> (Inr x, db')
      | CommitFailed \<Rightarrow> (Inl (store_failed ConnFailure msg), db)
      | CommitReplyLost \<Rightarrow> (Inl (store_failed ConnFailure msg), db'))"

type_synonym EntryType = string

abbreviation EntryTypeCredit :: EntryType where "EntryTypeCredit \<equiv> ''credit''"
abbreviation EntryTypeDebit :: EntryType where "EntryTypeDebit \<equiv> ''debit''"
abbreviation EntryTypeRefund :: EntryType where "EntryTypeRefund \<equiv> ''refund''"
abbreviation EntryTypeAdjustmentCredit :: EntryType where "EntryTypeAdjustmentCredit \<equiv> ''adjustment_credit''"
abbreviation EntryTypeAdjustmentDebit :: EntryType where "EntryTypeAdjustmentDebit \<equiv> ''adjustment_debit''"

record Entry =
  enID :: int
  enUserID :: int
  enRequestRecordID :: "int option"
  enEntryType :: EntryType
  enAmount :: numeric
  enCurrency :: string
  enBalanceBefore :: numeric
  enBalanceAfter :: numeric
  enIdempotencyKey :: string
  enReason :: string

text \<open>\<open>CreditParams\<close> and \<open>DebitParams\<close> have the same fields; \<open>*int64\<close> is an \<open>int option\<close>.\<close>

record EntryParams =
  epUserID :: int
  epRequestRecordID :: "int option"
  epAmount :: numeric
  epCurrency :: string
  epIdempotencyKey :: string
  epReason :: string

record AdjustParams =
  apUserID :: int
  apAmount :: numeric
  apCurrency :: string
  apIdempotencyKey :: string
  apReason :: string

definition sameOptionalInt64 :: "int option \<Rightarrow> int option \<Rightarrow> bool" where
  "sameOptionalInt64 left right =
     (case left of None \<Rightarrow> right = None
      | Some l \<Rightarrow> (case right of None \<Rightarrow> False | Some r \<Rightarrow> l = r))"

definition entryFromSQLC :: "LedgerEntry \<Rightarrow> Entry" where
  "entryFromSQLC row =
     \<lparr>enID = leID row, enUserID = leUserID row, enRequestRecordID = leRequestRecordID row,
      enEntryType = leEntryType row, enAmount = num (leAmount row), enCurrency = leCurrency row,
      enBalanceBefore = num (leBalanceBefore row), enBalanceAfter = num (leBalanceAfter row),
      enIdempotencyKey = leIdempotencyKey row, enReason = leReason row\<rparr>"

definition ensureIdempotentEntryMatches ::
  "LedgerEntry \<Rightarrow> int \<Rightarrow> int option \<Rightarrow> EntryType \<Rightarrow> numeric \<Rightarrow> string \<Rightarrow> (ledger_error, unit) go_result" where
  "ensureIdempotentEntryMatches row userID requestRecordID entryType amount cur =
     (if leUserID row \<noteq> userID then Inl idempotency_conflict
      else if leEntryType row \<noteq> entryType then Inl idempotency_conflict
      else if leCurrency row \<noteq> cur then Inl idempotency_conflict
      else if \<not> sameOptionalInt64 (leRequestRecordID row) requestRecordID then Inl idempotency_conflict
      else if \<not> sameNumeric (num (leAmount row)) amount then Inl idempotency_conflict
      else Inr ())"

definition resolveIdempotentCreateConflict ::
  "env \<Rightarrow> db \<Rightarrow> EntryParams \<Rightarrow> EntryType \<Rightarrow> (ledger_error, Entry) go_result" where
  "resolveIdempotentCreateConflict env db params entryType =
     (case store_call env ''lookup committed ledger idempotency key''
             (GetLedgerEntryByIdempotencyKey db (epIdempotencyKey params)) of
        Inl err \<Rightarrow> Inl (store_failed err ''lookup committed ledger idempotency key'')
      | Inr existing \<Rightarrow>
          rbind (ensureIdempotentEntryMatches existing (epUserID params) (epRequestRecordID params)
                   entryType (epAmount params) (epCurrency params)) (\<lambda>_.
          Inr (entryFromSQLC existing)))"

text \<open>The parameters of the entry both operations write from the two balance rows.\<close>

definition entry_args :: "EntryParams \<Rightarrow> EntryType \<Rightarrow> UserBalance \<Rightarrow> UserBalance \<Rightarrow> CreateLedgerEntryParams" where
  "entry_args params entryType balanceBefore balanceAfter =
     \<lparr>ceUserID = epUserID params, ceRequestRecordID = epRequestRecordID params, ceEntryType = entryType,
      ceAmount = epAmount params, ceCurrency = epCurrency params, ceBalanceBefore = num (ubBalance balanceBefore),
      ceBalanceAfter = num (ubBalance balanceAfter), ceIdempotencyKey = epIdempotencyKey params,
      ceReason = epReason params\<rparr>"

definition creditWithType ::
  "env \<Rightarrow> db \<Rightarrow> db \<Rightarrow> EntryParams \<Rightarrow> EntryType \<Rightarrow> (ledger_error, Entry) go_result \<times> db" where
  "creditWithType env seen db params entryType =
     (case begin_tx env ''begin ledger transaction'' of Inl e \<Rightarrow> (Inl e, db) | Inr _ \<Rightarrow>
     (case store_call env ''lookup ledger idempotency key''
             (GetLedgerEntryByIdempotencyKey seen (epIdempotencyKey params)) of
        Inr existing \<Rightarrow>
          (rbind (ensureIdempotentEntryMatches existing (epUserID params) (epRequestRecordID params)
                    entryType (epAmount params) (epCurrency params)) (\<lambda>_.
           Inr (entryFromSQLC existing)), db)
      | Inl err \<Rightarrow> if err \<noteq> ErrNoRows then (Inl (store_failed err ''lookup ledger idempotency key''), db) else
     (case store_call env ''ensure user balance''
             (EnsureUserBalance (clock env) db (epUserID params) (epCurrency params)) of
        Inl err \<Rightarrow> (Inl (store_failed err ''ensure user balance''), db)
      | Inr db1 \<Rightarrow>
     (case store_call env ''lock user balance''
             (GetUserBalanceForUpdate db1 (epUserID params) (epCurrency params)) of
        Inl err \<Rightarrow> (Inl (store_failed err ''lock user balance''), db)
      | Inr balanceBefore \<Rightarrow>
     (case store_call env ''add user balance''
             (AddUserBalance (clock env) db1 (epAmount params) (epUserID params) (epCurrency params)) of
        Inl err \<Rightarrow> (Inl (store_failed err ''add user balance''), db)
      | Inr (balanceAfter, db2) \<Rightarrow>
     (case store_call env ''create ledger entry''
             (CreateLedgerEntry (clock env) db2 (entry_args params entryType balanceBefore balanceAfter)) of
        Inl err \<Rightarrow>
          (if err = UniqueViolation then resolveIdempotentCreateConflict env db params entryType
           else Inl (store_failed err ''create ledger entry''), db)
      | Inr (created, db3) \<Rightarrow>
          commit_tx env ''commit ledger transaction'' db db3 (entryFromSQLC created)))))))"

definition Credit :: "env \<Rightarrow> db \<Rightarrow> db \<Rightarrow> EntryParams \<Rightarrow> (ledger_error, Entry) go_result \<times> db" where
  "Credit env seen db params = creditWithType env seen db params EntryTypeCredit"

definition adjust_entry :: "AdjustParams \<Rightarrow> EntryParams" where
  "adjust_entry params =
     \<lparr>epUserID = apUserID params, epRequestRecordID = None, epAmount = apAmount params,
      epCurrency = apCurrency params, epIdempotencyKey = apIdempotencyKey params, epReason = apReason params\<rparr>"

definition AdjustCredit :: "env \<Rightarrow> db \<Rightarrow> db \<Rightarrow> AdjustParams \<Rightarrow> (ledger_error, Entry) go_result \<times> db" where
  "AdjustCredit env seen db params = creditWithType env seen db (adjust_entry params) EntryTypeAdjustmentCredit"

text \<open>
  The transaction-level debit: an error leaves the caller's transaction to roll back. The advisory lock
  serialises it with other debits of the key, so \<open>seen\<close> differs from \<open>db\<close> only by writers that do not
  take that lock (credits and captures).
\<close>

definition debitWithQueriesType ::
  "env \<Rightarrow> db \<Rightarrow> db \<Rightarrow> EntryParams \<Rightarrow> EntryType \<Rightarrow> (ledger_error, Entry \<times> db) go_result" where
  "debitWithQueriesType env seen db params entryType =
     (if fault env ''lock ledger idempotency key''
      then Inl (store_failed ConnFailure ''lock ledger idempotency key'') else
     (case store_call env ''lookup ledger idempotency key''
             (GetLedgerEntryByIdempotencyKey seen (epIdempotencyKey params)) of
        Inr existing \<Rightarrow>
          rbind (ensureIdempotentEntryMatches existing (epUserID params) (epRequestRecordID params)
                   entryType (epAmount params) (epCurrency params)) (\<lambda>_.
          Inr (entryFromSQLC existing, db))
      | Inl err \<Rightarrow> if err \<noteq> ErrNoRows then Inl (store_failed err ''lookup ledger idempotency key'') else
     (case store_call env ''lock user balance''
             (GetUserBalanceForUpdate db (epUserID params) (epCurrency params)) of
        Inl err \<Rightarrow> Inl (if err = ErrNoRows then insufficient_balance else store_failed err ''lock user balance'')
      | Inr balanceBefore \<Rightarrow>
     (case store_call env ''subtract user balance''
             (SubtractUserBalance (clock env) db (epAmount params) (epUserID params) (epCurrency params)) of
        Inl err \<Rightarrow> Inl (if err = ErrNoRows then insufficient_balance else store_failed err ''subtract user balance'')
      | Inr (balanceAfter, db2) \<Rightarrow>
     (case store_call env ''create ledger entry''
             (CreateLedgerEntry (clock env) db2 (entry_args params entryType balanceBefore balanceAfter)) of
        Inl err \<Rightarrow> Inl (store_failed err ''create ledger entry'')
      | Inr (created, db3) \<Rightarrow> Inr (entryFromSQLC created, db3))))))"

definition DebitWithQueries :: "env \<Rightarrow> db \<Rightarrow> db \<Rightarrow> EntryParams \<Rightarrow> (ledger_error, Entry \<times> db) go_result" where
  "DebitWithQueries env seen db params = debitWithQueriesType env seen db params EntryTypeDebit"

definition debitTx ::
  "env \<Rightarrow> db \<Rightarrow> db \<Rightarrow> EntryParams \<Rightarrow> EntryType \<Rightarrow> (ledger_error, Entry) go_result \<times> db" where
  "debitTx env seen db params entryType =
     (case begin_tx env ''begin ledger transaction'' of Inl e \<Rightarrow> (Inl e, db) | Inr _ \<Rightarrow>
     (case debitWithQueriesType env seen db params entryType of
        Inl err \<Rightarrow>
          (if isUniqueViolation err then resolveIdempotentCreateConflict env db params entryType else Inl err, db)
      | Inr (entry, db') \<Rightarrow> commit_tx env ''commit ledger transaction'' db db' entry))"

definition Debit :: "env \<Rightarrow> db \<Rightarrow> db \<Rightarrow> EntryParams \<Rightarrow> (ledger_error, Entry) go_result \<times> db" where
  "Debit env seen db params = debitTx env seen db params EntryTypeDebit"

definition AdjustDebit :: "env \<Rightarrow> db \<Rightarrow> db \<Rightarrow> AdjustParams \<Rightarrow> (ledger_error, Entry) go_result \<times> db" where
  "AdjustDebit env seen db params = debitTx env seen db (adjust_entry params) EntryTypeAdjustmentDebit"

subsection \<open>What an entry does to the books\<close>

text \<open>
  The specification of a posting: one new entry under a new key, whose before and after are the account's
  balance before and after, and nothing else changes (the reserved part included).
\<close>

definition entry_key :: "LedgerEntry \<Rightarrow> int \<times> string" where
  "entry_key e = (leUserID e, leCurrency e)"

definition posted :: "db \<Rightarrow> db \<Rightarrow> LedgerEntry \<Rightarrow> bool" where
  "posted db db' e \<longleftrightarrow>
     check_ledger_entry e \<and> leIdempotencyKey e \<notin> entry_keys db \<and> next_id db \<le> leID e \<and> leID e < next_id db' \<and>
     leUserID e \<in> set (users db) \<and> (\<forall>q. leRequestRecordID e = Some q \<longrightarrow> (q, leUserID e) \<in> set (requests db)) \<and>
     ledger_entries db' = ledger_entries db @ [e] \<and> users db' = users db \<and> requests db' = requests db \<and>
     ledger_reservations db' = ledger_reservations db \<and> billing_exceptions db' = billing_exceptions db \<and>
     leBalanceBefore e = fst (account db (entry_key e)) \<and>
     account db' = (account db)(entry_key e := (leBalanceAfter e, snd (account db (entry_key e)))) \<and>
     (balances_ok db \<longrightarrow> balances_ok db')"

definition signed :: "LedgerEntry \<Rightarrow> int" where
  "signed e = (if leEntryType e \<in> set credit_types then leAmount e else - leAmount e)"

lemma check_entry_signed:
  "check_ledger_entry e \<Longrightarrow> leBalanceAfter e = leBalanceBefore e + signed e"
  "check_ledger_entry e \<Longrightarrow> 0 < leAmount e"
  by (auto simp: check_ledger_entry_def signed_def credit_types_def debit_types_def)

lemma posted_account:
  "posted db db' e \<Longrightarrow> account db' = (account db)
     (entry_key e := (fst (account db (entry_key e)) + signed e, snd (account db (entry_key e))))"
  by (simp add: posted_def check_entry_signed)

lemma postedI:
  assumes "balance_set db1 db2 (u, c) bal (snd (account db (u, c)))" "fits bal"
    and "same_tables db db1" "account db1 = account db" "balances_ok db \<Longrightarrow> balances_ok db1"
    and "entry_added db2 db3 e" "entry_key e = (u, c)" "leBalanceBefore e = fst (account db (u, c))" "leBalanceAfter e = bal"
  shows "posted db db3 e"
proof -
  note f1 = balance_set_frame [OF assms(1)]
  have db3: "db3 = db2\<lparr>ledger_entries := ledger_entries db2 @ [e], next_id := next_id db2 + 1\<rparr>"
    using assms(6) by (simp add: entry_added_def)
  have "account db3 = (account db)((u, c) := (bal, snd (account db (u, c))))"
    using balance_set_account [OF assms(1)] assms(4) by (simp add: db3)
  moreover have "balances_ok db \<longrightarrow> balances_ok db3"
    using balance_set_ok [OF assms(1) _ assms(2)] assms(5) by (simp add: db3)
  ultimately show ?thesis
    using f1(1) assms(3,6,7,8,9) by (auto simp: posted_def same_tables_def entry_added_def entry_keys_def db3)
qed

text \<open>The amount of an entry is the parameter, rounded to ten decimals.\<close>

definition entry_matches :: "EntryParams \<Rightarrow> EntryType \<Rightarrow> LedgerEntry \<Rightarrow> bool" where
  "entry_matches params entryType e \<longleftrightarrow>
     leUserID e = epUserID params \<and> leRequestRecordID e = epRequestRecordID params \<and> leEntryType e = entryType \<and>
     leCurrency e = epCurrency params \<and> leIdempotencyKey e = epIdempotencyKey params \<and> leReason e = epReason params \<and>
     (\<exists>r. numericRat (epAmount params) = Some r \<and> leAmount e = round_half_away (r * 10 ^ 10))"

lemma commit_tx_cases:
  "commit_tx env msg db db' x = (Inr x, db') \<and> commit_outcome env = CommitOk \<or>
   commit_tx env msg db db' x = (Inl (store_failed ConnFailure msg), db) \<or>
   commit_tx env msg db db' x = (Inl (store_failed ConnFailure msg), db')"
  by (cases "commit_outcome env") (simp_all add: commit_tx_def)

lemma entry_args_sel [simp]:
  "ceUserID (entry_args p t b a) = epUserID p" "ceRequestRecordID (entry_args p t b a) = epRequestRecordID p"
  "ceEntryType (entry_args p t b a) = t" "ceAmount (entry_args p t b a) = epAmount p"
  "ceCurrency (entry_args p t b a) = epCurrency p" "ceBalanceBefore (entry_args p t b a) = num (ubBalance b)"
  "ceBalanceAfter (entry_args p t b a) = num (ubBalance a)"
  "ceIdempotencyKey (entry_args p t b a) = epIdempotencyKey p" "ceReason (entry_args p t b a) = epReason p"
  by (simp_all add: entry_args_def)

lemma bind_col10:
  "rbind (bind_num v) col10 = Inr n \<longleftrightarrow> (\<exists>r. numericRat v = Some r \<and> n = round_half_away (r * 10 ^ 10) \<and> fits n)"
  unfolding rbind_Inr_iff col10_Inr cast10_Inr using bind_num_SqlNum by auto

lemma create_entry_posted:
  assumes "CreateLedgerEntry now db2 (entry_args params t before after) = Inr (e, db3)"
    and "balance_set db1 db2 (epUserID params, epCurrency params) bal (snd (account db (epUserID params, epCurrency params)))"
    and "fits bal" "ubBalance after = bal" "ubBalance before = fst (account db (epUserID params, epCurrency params))"
    and "same_tables db db1" "account db1 = account db" "balances_ok db \<Longrightarrow> balances_ok db1"
  shows "posted db db3 e" "entry_matches params t e"
proof -
  note c = CreateLedgerEntry_Inr [OF assms(1)]
  have k: "entry_key e = (epUserID params, epCurrency params)" using c(3,6) by (simp add: entry_key_def)
  show "posted db db3 e"
    using assms c(9,10) by (intro postedI [OF assms(2,3,6,7,8) c(1) k]) auto
  show "entry_matches params t e"
    using c by (auto simp: entry_matches_def bind_col10)
qed

text \<open>
  Every way a credit can end: an error, the answer of the entry that the lookup or the conflict
  found, or exactly one matching posting that is committed.
\<close>

lemma creditWithType_inv:
  assumes "creditWithType env seen db params t = (r, db')"
  obtains (failed) err where "r = Inl err" "db' = db"
  | (replay) existing where "GetLedgerEntryByIdempotencyKey seen (epIdempotencyKey params) = Inr existing"
      "r = rbind (ensureIdempotentEntryMatches existing (epUserID params) (epRequestRecordID params) t
             (epAmount params) (epCurrency params)) (\<lambda>_. Inr (entryFromSQLC existing))" "db' = db"
  | (conflict) "r = resolveIdempotentCreateConflict env db params t" "db' = db"
  | (posted) e db3 where "posted db db3 e" "entry_matches params t e" "epIdempotencyKey params \<notin> entry_keys seen"
      "commit_tx env ''commit ledger transaction'' db db3 (entryFromSQLC e) = (r, db')"
proof -
  let ?u = "epUserID params" and ?c = "epCurrency params" and ?k = "epIdempotencyKey params"
  consider "\<exists>err. r = Inl err \<and> db' = db"
    | existing where "GetLedgerEntryByIdempotencyKey seen ?k = Inr existing"
      "r = rbind (ensureIdempotentEntryMatches existing (epUserID params) (epRequestRecordID params) t
             (epAmount params) (epCurrency params)) (\<lambda>_. Inr (entryFromSQLC existing))" "db' = db"
    | err where "r = (if err = UniqueViolation then resolveIdempotentCreateConflict env db params t
           else Inl (store_failed err ''create ledger entry''))" "db' = db"
    | db1 before after db2 e db3 where
      "GetLedgerEntryByIdempotencyKey seen ?k = Inl ErrNoRows"
      "EnsureUserBalance (clock env) db ?u ?c = Inr db1" "GetUserBalanceForUpdate db1 ?u ?c = Inr before"
      "AddUserBalance (clock env) db1 (epAmount params) ?u ?c = Inr (after, db2)"
      "CreateLedgerEntry (clock env) db2 (entry_args params t before after) = Inr (e, db3)"
      "commit_tx env ''commit ledger transaction'' db db3 (entryFromSQLC e) = (r, db')"
    using assms unfolding creditWithType_def
    by (elim return_caseE lookup_caseE pair_caseE) (simp_all only: store_call_Inr store_call_ErrNoRows, blast+)
  then show ?thesis
  proof cases
    case 3
    then show ?thesis using failed conflict by (cases "err = UniqueViolation") auto
  next
    case 4
    note ens = EnsureUserBalance_Inr [OF 4(2)]
    obtain bal where bal: "balance_set db1 db2 (?u, ?c) bal (snd (account db1 (?u, ?c)))" "fits bal" "ubBalance after = bal"
      using AddUserBalance_Inr [OF 4(4)] by blast
    have before: "ubBalance before = fst (account db (?u, ?c))"
      using GetUserBalance_account(1) [OF 4(3)] by (simp add: ens(1))
    have "?k \<notin> entry_keys seen" using 4(1) by (simp add: entries.lookup_Inl_iff entry_keys_def)
    then show ?thesis
      using create_entry_posted [OF 4(5) bal(1) [unfolded ens(1)] bal(2,3) before ens(2) ens(1) ens(3)] 4(6)
        posted by blast
  qed (use failed replay in blast)+
qed

lemma commit_posted:
  assumes "commit_tx env msg db db3 x = (r, db')"
  shows "db' = db \<or> db' = db3" "r = Inr y \<Longrightarrow> y = x \<and> db' = db3" "r = Inr x \<or> (\<exists>err. r = Inl err)"
  using assms by (auto simp: commit_tx_def split: commit_outcome.splits)

lemma creditWithType_cases:
  assumes "creditWithType env seen db params t = (r, db')"
  obtains "db' = db" | e where "posted db db' e" "entry_matches params t e"
    "epIdempotencyKey params \<notin> entry_keys seen" "r = Inr (entryFromSQLC e) \<or> (\<exists>err. r = Inl err)"
  using assms
proof (cases rule: creditWithType_inv)
  case (posted e db3)
  then show ?thesis using that commit_posted(1,3) [OF posted(4)] by blast
qed (use that in blast)+

lemma debitWithQueriesType_cases:
  assumes "debitWithQueriesType env seen db params t = Inr (x, db')"
  obtains existing where "db' = db" "GetLedgerEntryByIdempotencyKey seen (epIdempotencyKey params) = Inr existing"
      "ensureIdempotentEntryMatches existing (epUserID params) (epRequestRecordID params) t (epAmount params)
         (epCurrency params) = Inr ()" "x = entryFromSQLC existing"
  | e where "posted db db' e" "entry_matches params t e" "epIdempotencyKey params \<notin> entry_keys seen" "x = entryFromSQLC e"
proof -
  let ?u = "epUserID params" and ?c = "epCurrency params" and ?k = "epIdempotencyKey params"
  show ?thesis
  proof (cases "store_call env ''lookup ledger idempotency key'' (GetLedgerEntryByIdempotencyKey seen ?k)")
    case (Inr existing)
    then have "GetLedgerEntryByIdempotencyKey seen ?k = Inr existing" by (simp add: store_call_Inr)
    with assms Inr show ?thesis
      by (intro that(1) [of existing]) (auto simp: debitWithQueriesType_def rbind_Inr_iff split: if_splits)
  next
    case (Inl err)
    obtain before after db2 e where none: "err = ErrNoRows"
      and before: "GetUserBalanceForUpdate db ?u ?c = Inr before"
      and sub: "SubtractUserBalance (clock env) db (epAmount params) ?u ?c = Inr (after, db2)"
      and cre: "CreateLedgerEntry (clock env) db2 (entry_args params t before after) = Inr (e, db')"
      and x: "x = entryFromSQLC e"
      using assms Inl
      by (auto simp: debitWithQueriesType_def store_call_Inr split: if_splits sum.splits prod.splits)
    have b: "ubBalance before = fst (account db (?u, ?c))"
      using GetUserBalance_account(1) [OF before] by simp
    obtain bal where bal: "balance_set db db2 (?u, ?c) bal (snd (account db (?u, ?c)))" "fits bal" "ubBalance after = bal"
      using SubtractUserBalance_Inr [OF sub] by blast
    have same: "same_tables db db" by (simp add: same_tables_def)
    have "?k \<notin> entry_keys seen"
      using Inl none by (simp add: store_call_ErrNoRows entries.lookup_Inl_iff entry_keys_def)
    then show ?thesis
      using create_entry_posted [OF cre bal b same refl] x that(2) by blast
  qed
qed

lemma posted_new_key: "posted db db' e \<Longrightarrow> entry_matches params t e \<Longrightarrow> epIdempotencyKey params \<notin> entry_keys db"
  by (simp add: posted_def entry_matches_def)

lemma debitTx_cases:
  assumes "debitTx env seen db params t = (r, db')"
  obtains "db' = db" | e where "posted db db' e" "entry_matches params t e"
    "epIdempotencyKey params \<notin> entry_keys seen" "r = Inr (entryFromSQLC e) \<or> (\<exists>err. r = Inl err)"
proof (cases "debitWithQueriesType env seen db params t")
  case (Inl err)
  with assms show ?thesis
    by (intro that(1)) (auto simp: debitTx_def split: sum.splits)
next
  case (Inr xd)
  obtain x db3 where xd: "xd = (x, db3)" by (cases xd)
  have out: "db' = db \<or> db' = db3 \<and> (r = Inr x \<or> (\<exists>err. r = Inl err))"
    using assms Inr commit_tx_cases [of env "''commit ledger transaction''" db db3 x]
    by (auto simp: debitTx_def xd split: sum.splits)
  from Inr show ?thesis
    unfolding xd by (cases rule: debitWithQueriesType_cases) (use out that in blast)+
qed

text \<open>Idempotency, whatever the lookup saw: a key that has an entry is never posted again.\<close>

lemma entry_key_known_unchanged:
  assumes "epIdempotencyKey params \<in> entry_keys db"
  shows "snd (creditWithType env seen db params t) = db" "snd (debitTx env seen db params t) = db"
proof -
  obtain r db' where c: "creditWithType env seen db params t = (r, db')" by (cases "creditWithType env seen db params t")
  then have "db' = db" using assms posted_new_key by (cases rule: creditWithType_cases) auto
  with c show "snd (creditWithType env seen db params t) = db" by simp
  obtain r db' where d: "debitTx env seen db params t = (r, db')" by (cases "debitTx env seen db params t")
  then have "db' = db" using assms posted_new_key by (cases rule: debitTx_cases) auto
  with d show "snd (debitTx env seen db params t) = db" by simp
qed

text \<open>What a successful answer promises to the caller.\<close>

definition answered_by :: "EntryParams \<Rightarrow> EntryType \<Rightarrow> db \<Rightarrow> Entry \<Rightarrow> bool" where
  "answered_by params t db x \<longleftrightarrow>
     (\<exists>e. e \<in> set (ledger_entries db) \<and> x = entryFromSQLC e \<and> leIdempotencyKey e = epIdempotencyKey params \<and>
        leUserID e = epUserID params \<and> leEntryType e = t \<and> leCurrency e = epCurrency params \<and>
        leRequestRecordID e = epRequestRecordID params)"

lemma ensure_matches_answers:
  assumes "ensureIdempotentEntryMatches e (epUserID params) (epRequestRecordID params) t (epAmount params)
      (epCurrency params) = Inr ()" "GetLedgerEntryByIdempotencyKey d (epIdempotencyKey params) = Inr e"
    and "set (ledger_entries d) \<subseteq> set (ledger_entries db)"
  shows "answered_by params t db (entryFromSQLC e)"
proof -
  have "e \<in> set (ledger_entries db)" "leIdempotencyKey e = epIdempotencyKey params"
    using entries.lookup_Inr [OF assms(2)] assms(3) by auto
  then show ?thesis
    using assms(1) unfolding answered_by_def
    by (intro exI [of _ e]) (auto simp: ensureIdempotentEntryMatches_def sameOptionalInt64_def
        split: if_splits option.splits)
qed

lemma posted_answers: "posted db db' e \<Longrightarrow> entry_matches params t e \<Longrightarrow> answered_by params t db' (entryFromSQLC e)"
  unfolding answered_by_def by (intro exI [of _ e]) (simp add: posted_def entry_matches_def)

lemma resolve_answers:
  assumes "resolveIdempotentCreateConflict env db params t = Inr x"
  shows "answered_by params t db x"
proof -
  obtain e where e: "GetLedgerEntryByIdempotencyKey db (epIdempotencyKey params) = Inr e"
    "ensureIdempotentEntryMatches e (epUserID params) (epRequestRecordID params) t (epAmount params)
      (epCurrency params) = Inr ()" "x = entryFromSQLC e"
    using assms by (auto simp: resolveIdempotentCreateConflict_def store_call_Inr rbind_Inr_iff split: sum.splits)
  then show ?thesis using ensure_matches_answers [OF e(2,1) subset_refl] by simp
qed

lemma creditWithType_answers:
  assumes "creditWithType env seen db params t = (Inr x, db')" "set (ledger_entries seen) \<subseteq> set (ledger_entries db)"
  shows "answered_by params t db' x"
  using assms(1)
proof (cases rule: creditWithType_inv)
  case (replay e)
  from replay(2) [symmetric] show ?thesis
    by (rule rbind_InrE) (use ensure_matches_answers [OF _ replay(1) assms(2)] replay(3) in auto)
next
  case conflict
  then show ?thesis using resolve_answers by simp
next
  case (posted e db3)
  then show ?thesis using posted_answers commit_posted(2) [OF posted(4) refl] by simp
qed simp

lemma debitTx_answers:
  assumes "debitTx env seen db params t = (Inr x, db')" "set (ledger_entries seen) \<subseteq> set (ledger_entries db)"
  shows "answered_by params t db' x"
proof (cases "debitWithQueriesType env seen db params t")
  case (Inl err)
  with assms(1) have "resolveIdempotentCreateConflict env db params t = Inr x" "db' = db"
    by (auto simp: debitTx_def split: sum.splits if_splits)
  then show ?thesis using resolve_answers by simp
next
  case (Inr xd)
  obtain y db3 where xd: "xd = (y, db3)" by (cases xd)
  have "commit_tx env ''commit ledger transaction'' db db3 y = (Inr x, db')"
    using assms(1) Inr xd
    by (cases "begin_tx env ''begin ledger transaction''") (simp_all add: debitTx_def)
  from commit_posted(2) [OF this refl] have y: "x = y" "db' = db3" by simp_all
  from Inr [unfolded xd] show ?thesis
  proof (cases rule: debitWithQueriesType_cases)
    case (1 e)
    then show ?thesis using ensure_matches_answers [OF 1(3,2) assms(2)] y by simp
  next
    case (2 e)
    then show ?thesis using posted_answers y by simp
  qed
qed

subsection \<open>Serial executions without store failures\<close>

definition healthy :: "env \<Rightarrow> bool" where
  "healthy env \<longleftrightarrow> (\<forall>msg. \<not> fault env msg) \<and> commit_outcome env = CommitOk"

lemma healthy_calls [simp]:
  "healthy env \<Longrightarrow> store_call env msg r = r" "healthy env \<Longrightarrow> begin_tx env msg = Inr ()"
  "healthy env \<Longrightarrow> commit_tx env msg db db' x = (Inr x, db')" "healthy env \<Longrightarrow> \<not> fault env msg"
  by (simp_all add: healthy_def store_call_def begin_tx_def commit_tx_def)

text \<open>Well-formed parameters: an amount of \<open>n > 0\<close> units for a user (and request) that exist.\<close>

definition params_ok :: "db \<Rightarrow> EntryParams \<Rightarrow> int \<Rightarrow> bool" where
  "params_ok db params n \<longleftrightarrow>
     numericRat (epAmount params) = Some (units n) \<and> 0 < n \<and> fits n \<and> epCurrency params \<noteq> '''' \<and>
     epIdempotencyKey params \<noteq> '''' \<and> epReason params \<noteq> '''' \<and> epUserID params \<in> set (users db) \<and>
     (\<forall>q. epRequestRecordID params = Some q \<longrightarrow> (q, epUserID params) \<in> set (requests db))"

lemma CreateLedgerEntry_ok:
  assumes "params_ok db params n" "users db2 = users db" "requests db2 = requests db"
    and "epIdempotencyKey params \<notin> entry_keys db2" "fits (ubBalance before)" "fits (ubBalance after)"
    and "0 \<le> ubBalance before" "0 \<le> ubBalance after"
    and "(t \<in> set credit_types \<and> ubBalance after = ubBalance before + n) \<or>
      (t \<in> set debit_types \<and> ubBalance after = ubBalance before - n)"
  obtains e db3 where "CreateLedgerEntry now db2 (entry_args params t before after) = Inr (e, db3)" "leAmount e = n"
proof -
  have "bind_num (epAmount params) = Inr (SqlNum (units n))"
    using assms(1) by (simp add: params_ok_def bind_num_finite)
  then have "\<exists>e db3. CreateLedgerEntry now db2 (entry_args params t before after) = Inr (e, db3) \<and> leAmount e = n"
    using assms
    by (auto simp: CreateLedgerEntry_def insert_ledger_entry_def check_ledger_entry_def params_ok_def entry_keys_def
        split: option.splits)
  then show ?thesis using that by blast
qed

lemma fresh_lookup: "k \<notin> entry_keys db \<Longrightarrow> GetLedgerEntryByIdempotencyKey db k = Inl ErrNoRows"
  by (simp add: entries.lookup_Inl_iff entry_keys_def)

lemma bind_params: "params_ok db params n \<Longrightarrow> bind_num (epAmount params) = Inr (SqlNum (units n))"
  by (simp add: params_ok_def bind_num_finite)

lemma SubtractUserBalance_if:
  assumes "balances_ok db" "params_ok db params n" "GetUserBalanceForUpdate db (epUserID params) (epCurrency params) = Inr r"
  shows "if n \<le> ubBalance r - ubReservedBalance r
    then \<exists>r' db'. SubtractUserBalance now db (epAmount params) (epUserID params) (epCurrency params) = Inr (r', db') \<and>
      ubBalance r' = ubBalance r - n \<and> same_tables db db'
    else SubtractUserBalance now db (epAmount params) (epUserID params) (epCurrency params) = Inl ErrNoRows"
proof -
  note acc = GetUserBalance_account(1) [OF assms(3)]
  note ok = account_ok [OF assms(1), of "(epUserID params, epCurrency params)", unfolded acc]
  have n: "0 < n" using assms(2) by (simp add: params_ok_def)
  show ?thesis
  proof (cases "n \<le> ubBalance r - ubReservedBalance r")
    case True
    then obtain r' db' where set: "set_balance now db r (ubBalance r - n) (ubReservedBalance r) = Inr (r', db')"
      using set_balance_ok [OF assms(3,1), of "ubReservedBalance r" "ubBalance r - n" now] ok by auto
    have "fits (ubBalance r - n)" using ok n True by (auto simp: fits_def)
    with set ok n True show ?thesis
      using set_balance_Inr [OF set assms(3)] balance_set_frame(1)
      by (auto simp: SubtractUserBalance_def bind_params [OF assms(2)] assms(3))
  qed (simp add: SubtractUserBalance_def bind_params [OF assms(2)] assms(3))
qed

lemma debitTx_spec:
  assumes "healthy env" "balances_ok db" "params_ok db params n" "epIdempotencyKey params \<notin> entry_keys db"
    and "t \<in> set debit_types" "account db (epUserID params, epCurrency params) = (bal, held)"
  shows "if n \<le> bal - held
    then \<exists>e db'. debitTx env db db params t = (Inr (entryFromSQLC e), db') \<and> posted db db' e \<and> entry_matches params t e \<and>
      leAmount e = n
    else debitTx env db db params t = (Inl insufficient_balance, db)"
proof (cases "GetUserBalanceForUpdate db (epUserID params) (epCurrency params)")
  case (Inl err)
  then have err: "err = ErrNoRows" and "find (is_balance (epUserID params) (epCurrency params)) (user_balances db) = None"
    by (simp_all add: GetUserBalanceForUpdate_def split: option.splits)
  then have "bal = 0" "held = 0" using assms(6) by (simp_all add: account_def)
  with Inl err assms(1,3,4) show ?thesis
    by (simp add: debitTx_def debitWithQueriesType_def fresh_lookup isUniqueViolation_def params_ok_def)
next
  case (Inr r)
  have acc: "bal = ubBalance r" "held = ubReservedBalance r"
    using GetUserBalance_account(1) [OF Inr] assms(6) by simp_all
  note ok = account_ok [OF assms(2), of "(epUserID params, epCurrency params)", unfolded assms(6)]
  note sub = SubtractUserBalance_if [OF assms(2,3) Inr, of "clock env"]
  show ?thesis
  proof (cases "n \<le> bal - held")
    case False
    with sub acc have "SubtractUserBalance (clock env) db (epAmount params) (epUserID params) (epCurrency params) = Inl ErrNoRows"
      by simp
    with False Inr assms(1,4) show ?thesis
      by (simp add: debitTx_def debitWithQueriesType_def fresh_lookup isUniqueViolation_def)
  next
    case True
    then obtain r' db2 where r': "SubtractUserBalance (clock env) db (epAmount params) (epUserID params) (epCurrency params) = Inr (r', db2)"
      "ubBalance r' = ubBalance r - n" "same_tables db db2" using sub acc by auto
    have n: "0 < n" using assms(3) by (simp add: params_ok_def)
    have "epIdempotencyKey params \<notin> entry_keys db2" "users db2 = users db" "requests db2 = requests db"
      using r'(3) assms(4) by (simp_all add: same_tables_def entry_keys_def)
    moreover have "fits (ubBalance r)" "fits (ubBalance r')" "0 \<le> ubBalance r" "0 \<le> ubBalance r'"
      using ok acc True n r'(2) by (auto simp: fits_def)
    ultimately obtain e db3 where e: "CreateLedgerEntry (clock env) db2 (entry_args params t r r') = Inr (e, db3)" "leAmount e = n"
      using CreateLedgerEntry_ok [OF assms(3), of db2 r r' t "clock env"] r'(2) assms(5) by blast
    have deb: "debitWithQueriesType env db db params t = Inr (entryFromSQLC e, db3)"
      using Inr r'(1) e(1) assms(1,4) by (simp add: debitWithQueriesType_def fresh_lookup)
    then have "posted db db3 e \<and> entry_matches params t e"
    proof (cases rule: debitWithQueriesType_cases)
      case (1 existing)
      then show ?thesis using fresh_lookup [OF assms(4)] by simp
    next
      case (2 e')
      have "entry_added db2 db3 e" by (rule CreateLedgerEntry_Inr(1) [OF e(1)])
      then have "ledger_entries db3 = ledger_entries db2 @ [e]" by (simp add: entry_added_def)
      with 2(1) r'(3) have "e' = e" by (simp add: posted_def same_tables_def)
      with 2 show ?thesis by simp
    qed
    with deb show ?thesis using True e(2) assms(1) by (auto simp: debitTx_def)
  qed
qed

end
