(* ===== verification/Ledger_Reservations.thy ===== *)
theory Ledger_Reservations
  imports Ledger_Entries
begin

text \<open>
  \<open>internal/core/ledger/reservation.go\<close>: the life of a balance reservation. \<open>PreAuthorize\<close> holds funds for one
  request, \<open>Capture\<close> turns the hold into a debit (and collects what exceeds it from the available
  balance, the rest being written off), \<open>Release\<close> and \<open>ReleaseWithBillingException\<close> give it back. The
  conventions of \<open>Ledger_Entries\<close> apply; an operation that locks the reservation row first has one view
  of the database.
\<close>

type_synonym ReservationStatus = string

abbreviation ReservationStatusAuthorized :: ReservationStatus where "ReservationStatusAuthorized \<equiv> ''authorized''"
abbreviation ReservationStatusCaptured :: ReservationStatus where "ReservationStatusCaptured \<equiv> ''captured''"
abbreviation ReservationStatusReleased :: ReservationStatus where "ReservationStatusReleased \<equiv> ''released''"

abbreviation BillingExceptionEventTypeWriteOff :: string where "BillingExceptionEventTypeWriteOff \<equiv> ''write_off''"

abbreviation invalid_amount :: ledger_error where
  "invalid_amount \<equiv> LedgerFailure CodeLedgerInvalidAmount None ErrInvalidAmount"

abbreviation reservation_not_found :: ledger_error where
  "reservation_not_found \<equiv> LedgerFailure CodeLedgerReservationNotFound None ErrReservationNotFound"

abbreviation unexpected_status :: ledger_error where
  "unexpected_status \<equiv> LedgerFailure CodeLedgerStoreFailed None ''unexpected reservation status''"

record Reservation =
  rvID :: int
  rvUserID :: int
  rvRequestRecordID :: int
  rvCurrency :: string
  rvStatus :: ReservationStatus
  rvAuthorizedAmount :: numeric
  rvCapturedAmount :: numeric
  rvReleasedAmount :: numeric
  rvEstimatedAmount :: numeric
  rvCaptureLedgerEntryID :: "int option"
  rvIdempotencyKey :: string
  rvReason :: string
  rvOverageCapturedAmount :: numeric

record PreAuthorizeParams =
  paUserID :: int
  paRequestRecordID :: int
  paEstimatedAmount :: numeric
  paCurrency :: string
  paIdempotencyKey :: string
  paReason :: string

record CaptureParams =
  caRequestRecordID :: int
  caReservationID :: "int option"
  caActualAmount :: numeric
  caIdempotencyKey :: string
  caReason :: string

record ReleaseParams =
  rlRequestRecordID :: int
  rlReservationID :: "int option"

record ReleaseWithBillingExceptionParams =
  rbRequestRecordID :: int
  rbReservationID :: "int option"
  rbReasonCode :: string
  rbReason :: string

definition reservationFromSQLC :: "LedgerReservation \<Rightarrow> Reservation" where
  "reservationFromSQLC row =
     \<lparr>rvID = lrID row, rvUserID = lrUserID row, rvRequestRecordID = lrRequestRecordID row,
      rvCurrency = lrCurrency row, rvStatus = lrStatus row, rvAuthorizedAmount = num (lrAuthorizedAmount row),
      rvCapturedAmount = num (lrCapturedAmount row), rvReleasedAmount = num (lrReleasedAmount row),
      rvEstimatedAmount = num (lrEstimatedAmount row), rvCaptureLedgerEntryID = lrCaptureLedgerEntryID row,
      rvIdempotencyKey = lrIdempotencyKey row, rvReason = lrReason row, rvOverageCapturedAmount = numericZero\<rparr>"

definition ensureIdempotentReservationMatches ::
  "LedgerReservation \<Rightarrow> int \<Rightarrow> int \<Rightarrow> numeric \<Rightarrow> string \<Rightarrow> (ledger_error, unit) go_result" where
  "ensureIdempotentReservationMatches row userID requestRecordID amount cur =
     (if lrUserID row \<noteq> userID then Inl idempotency_conflict
      else if lrRequestRecordID row \<noteq> requestRecordID then Inl idempotency_conflict
      else if lrCurrency row \<noteq> cur then Inl idempotency_conflict
      else if \<not> sameNumeric (num (lrEstimatedAmount row)) amount then Inl idempotency_conflict
      else Inr ())"

definition overageIdempotencyKey :: "string \<Rightarrow> string" where
  "overageIdempotencyKey captureIdempotencyKey = captureIdempotencyKey @ '':overage''"

abbreviation matching_reservation ::
  "LedgerReservation \<Rightarrow> PreAuthorizeParams \<Rightarrow> (ledger_error, Reservation) go_result" where
  "matching_reservation existing params \<equiv>
     rbind (ensureIdempotentReservationMatches existing (paUserID params) (paRequestRecordID params)
              (paEstimatedAmount params) (paCurrency params)) (\<lambda>_. Inr (reservationFromSQLC existing))"

definition resolveReservationCreateConflict ::
  "env \<Rightarrow> db \<Rightarrow> PreAuthorizeParams \<Rightarrow> (ledger_error, Reservation) go_result" where
  "resolveReservationCreateConflict env db params =
     (case store_call env ''lookup committed reservation idempotency key''
             (GetLedgerReservationByIdempotencyKey db (paIdempotencyKey params)) of
        Inr existing \<Rightarrow> matching_reservation existing params
      | Inl err \<Rightarrow> if err \<noteq> ErrNoRows then Inl (store_failed err ''lookup committed reservation idempotency key'')
          else (case store_call env ''lookup committed reservation request''
                  (GetLedgerReservationByRequestRecordID db (paRequestRecordID params)) of
             Inr _ \<Rightarrow> Inl idempotency_conflict
           | Inl err \<Rightarrow> if err \<noteq> ErrNoRows then Inl (store_failed err ''lookup committed reservation request'')
               else Inl (store_failed ErrNoRows ''resolve reservation create conflict'')))"

definition resolveReservationUnavailable ::
  "env \<Rightarrow> db \<Rightarrow> PreAuthorizeParams \<Rightarrow> (ledger_error, Reservation) go_result" where
  "resolveReservationUnavailable env db params =
     (case store_call env ''lookup committed reservation idempotency key''
             (GetLedgerReservationByIdempotencyKey db (paIdempotencyKey params)) of
        Inr existing \<Rightarrow> matching_reservation existing params
      | Inl err \<Rightarrow> if err \<noteq> ErrNoRows then Inl (store_failed err ''lookup committed reservation idempotency key'')
          else Inl insufficient_balance)"

definition PreAuthorize ::
  "env \<Rightarrow> db \<Rightarrow> db \<Rightarrow> PreAuthorizeParams \<Rightarrow> (ledger_error, Reservation) go_result \<times> db" where
  "PreAuthorize env seen db params =
     (if \<not> isPositiveNumeric (paEstimatedAmount params) then (Inl invalid_amount, db) else
     (case begin_tx env ''begin ledger transaction'' of Inl e \<Rightarrow> (Inl e, db) | Inr _ \<Rightarrow>
     (case store_call env ''lookup reservation idempotency key''
             (GetLedgerReservationByIdempotencyKey seen (paIdempotencyKey params)) of
        Inr existing \<Rightarrow> (matching_reservation existing params, db)
      | Inl err \<Rightarrow> if err \<noteq> ErrNoRows then (Inl (store_failed err ''lookup reservation idempotency key''), db) else
     (case store_call env ''reserve available user balance''
             (ReserveAvailableUserBalance (clock env) db (paEstimatedAmount params) (paUserID params) (paCurrency params)) of
        Inl err \<Rightarrow>
          (if err = ErrNoRows then resolveReservationUnavailable env db params
           else Inl (store_failed err ''reserve available user balance''), db)
      | Inr (reserved, db1) \<Rightarrow>
     (case store_call env ''create ledger reservation''
             (CreateLedgerReservation (clock env) db1
               \<lparr>crUserID = paUserID params, crRequestRecordID = paRequestRecordID params,
                crCurrency = paCurrency params, crEstimatedAmount = paEstimatedAmount params,
                crAuthorizedAmount = num (snd reserved), crIdempotencyKey = paIdempotencyKey params,
                crReason = paReason params\<rparr>) of
        Inl err \<Rightarrow>
          (if err = UniqueViolation then resolveReservationCreateConflict env db params
           else Inl (store_failed err ''create ledger reservation''), db)
      | Inr (created, db2) \<Rightarrow>
          commit_tx env ''commit ledger transaction'' db db2 (reservationFromSQLC created))))))"

subsection \<open>Capture\<close>

text \<open>The branch of a reservation that is already captured: a replay is compared with the first capture.\<close>

definition capture_replay ::
  "env \<Rightarrow> db \<Rightarrow> CaptureParams \<Rightarrow> LedgerReservation \<Rightarrow> numeric \<Rightarrow> (ledger_error, Reservation) go_result" where
  "capture_replay env db params reservation capturedAmount =
     (if \<not> sameNumeric (num (lrCapturedAmount reservation)) capturedAmount then Inl idempotency_conflict
      else
        (let overage =
           (case store_call env ''lookup ledger overage entry''
                   (GetLedgerEntryByIdempotencyKey db (overageIdempotencyKey (caIdempotencyKey params))) of
              Inr overageEntry \<Rightarrow> Inr (num (leAmount overageEntry))
            | Inl err \<Rightarrow> if err \<noteq> ErrNoRows then Inl (store_failed err ''lookup ledger overage entry'')
                else Inr numericZero)
         in rbind overage (\<lambda>overageCaptured.
           let residualWriteOff = numericGreaterThan (caActualAmount params) (numericAdd capturedAmount overageCaptured);
               replay = (reservationFromSQLC reservation)\<lparr>rvOverageCapturedAmount := overageCaptured\<rparr>
           in case store_call env ''lookup ledger billing exception''
                     (GetLedgerBillingExceptionByReservationID db (lrID reservation)) of
                Inr exception \<Rightarrow>
                  if beEventType exception \<noteq> BillingExceptionEventTypeWriteOff \<or> \<not> residualWriteOff \<or>
                     \<not> sameNumeric (case beActualAmount exception of None \<Rightarrow> numeric_null | Some n \<Rightarrow> num n)
                         (caActualAmount params) \<or>
                     \<not> sameNumeric (num (beCapturedAmount exception)) (numericAdd capturedAmount overageCaptured)
                  then Inl idempotency_conflict else Inr replay
              | Inl err \<Rightarrow>
                  if err = ErrNoRows then (if residualWriteOff then Inl idempotency_conflict else Inr replay)
                  else Inl (store_failed err ''lookup ledger billing exception''))))"

text \<open>
  What exceeds the authorization: collected from the balance that is not reserved, with its own entry, and
  what is still missing written off by the platform. \<open>after\<close> is the balance row after the hold was captured.
\<close>

definition capture_overage ::
  "env \<Rightarrow> db \<Rightarrow> CaptureParams \<Rightarrow> LedgerReservation \<Rightarrow> UserBalance \<Rightarrow> numeric \<Rightarrow>
     (ledger_error, numeric \<times> db) go_result" where
  "capture_overage env db params reservation balanceAfter capturedAmount =
     (case store_call env ''collect user balance overage''
             (CollectUserBalanceOverage (clock env) db (caActualAmount params) (num (lrAuthorizedAmount reservation))
               (lrUserID reservation) (lrCurrency reservation)) of
        Inl err \<Rightarrow> Inl (store_failed err ''collect user balance overage'')
      | Inr ((balance, collected), db1) \<Rightarrow>
     (let overageCaptured = num collected in
     (case (if isPositiveNumeric overageCaptured then
              (case store_call env ''create overage capture ledger entry''
                      (CreateLedgerEntry (clock env) db1
                        \<lparr>ceUserID = lrUserID reservation, ceRequestRecordID = Some (lrRequestRecordID reservation),
                         ceEntryType = EntryTypeDebit, ceAmount = overageCaptured, ceCurrency = lrCurrency reservation,
                         ceBalanceBefore = num (ubBalance balanceAfter), ceBalanceAfter = num (ubBalance balance),
                         ceIdempotencyKey = overageIdempotencyKey (caIdempotencyKey params),
                         ceReason = caReason params @ '' (overage)''\<rparr>) of
                 Inl err \<Rightarrow> Inl (if err = UniqueViolation then idempotency_conflict
                                else store_failed err ''create overage capture ledger entry'')
               | Inr (_, db2) \<Rightarrow> Inr db2)
            else Inr db1) of
        Inl e \<Rightarrow> Inl e
      | Inr db2 \<Rightarrow>
          if numericGreaterThan (caActualAmount params) (numericAdd capturedAmount overageCaptured) then
            (case store_call env ''create ledger billing exception''
                    (CreateLedgerWriteOffException (clock env) db2
                      \<lparr>cwUserID = lrUserID reservation, cwRequestRecordID = lrRequestRecordID reservation,
                       cwReservationID = lrID reservation, cwActualAmount = caActualAmount params,
                       cwCapturedAmount = capturedAmount, cwOverageAmount = overageCaptured,
                       cwCurrency = lrCurrency reservation, cwReasonCode = ''authorization_underfunded'',
                       cwReason = ''actual amount exceeded authorized amount and available balance''\<rparr>) of
               Inl err \<Rightarrow> Inl (store_failed err ''create ledger billing exception'')
             | Inr (_, db3) \<Rightarrow> Inr (overageCaptured, db3))
          else Inr (overageCaptured, db2))))"

text \<open>The first capture of an authorized reservation.\<close>

definition capture_authorized ::
  "env \<Rightarrow> db \<Rightarrow> CaptureParams \<Rightarrow> LedgerReservation \<Rightarrow> numeric \<Rightarrow> bool \<Rightarrow> (ledger_error, Reservation \<times> db) go_result" where
  "capture_authorized env db params reservation capturedAmount overageRequired =
     (case store_call env ''lock user balance''
             (GetUserBalanceForUpdate db (lrUserID reservation) (lrCurrency reservation)) of
        Inl err \<Rightarrow> Inl (store_failed err ''lock user balance'')
      | Inr balanceBefore \<Rightarrow>
     (case store_call env ''capture user reserved balance''
             (CaptureUserReservedBalance (clock env) db capturedAmount (num (lrAuthorizedAmount reservation))
               (lrUserID reservation) (lrCurrency reservation)) of
        Inl err \<Rightarrow> Inl (store_failed err ''capture user reserved balance'')
      | Inr (balanceAfter, db1) \<Rightarrow>
     (case store_call env ''create capture ledger entry''
             (CreateLedgerEntry (clock env) db1
               \<lparr>ceUserID = lrUserID reservation, ceRequestRecordID = Some (lrRequestRecordID reservation),
                ceEntryType = EntryTypeDebit, ceAmount = capturedAmount, ceCurrency = lrCurrency reservation,
                ceBalanceBefore = num (ubBalance balanceBefore), ceBalanceAfter = num (ubBalance balanceAfter),
                ceIdempotencyKey = caIdempotencyKey params, ceReason = caReason params\<rparr>) of
        Inl err \<Rightarrow> Inl (if err = UniqueViolation then idempotency_conflict
                       else store_failed err ''create capture ledger entry'')
      | Inr (entry, db2) \<Rightarrow>
     (case store_call env ''capture ledger reservation''
             (CaptureLedgerReservation (clock env) db2 capturedAmount (Some (leID entry)) (lrID reservation)) of
        Inl err \<Rightarrow> Inl (store_failed err ''capture ledger reservation'')
      | Inr (captured, db3) \<Rightarrow>
     (case (if overageRequired then capture_overage env db3 params reservation balanceAfter capturedAmount
            else Inr (numericZero, db3)) of
        Inl e \<Rightarrow> Inl e
      | Inr (overageCaptured, db4) \<Rightarrow>
          Inr ((reservationFromSQLC captured)\<lparr>rvOverageCapturedAmount := overageCaptured\<rparr>, db4))))))"

text \<open>The guard both \<open>Capture\<close> and \<open>Release\<close> make on the caller's reservation id.\<close>

abbreviation wrong_reservation :: "int option \<Rightarrow> LedgerReservation \<Rightarrow> bool" where
  "wrong_reservation rid reservation \<equiv> rid \<noteq> None \<and> rid \<noteq> Some (lrID reservation)"

definition captureWithQueries ::
  "env \<Rightarrow> db \<Rightarrow> CaptureParams \<Rightarrow> (ledger_error, Reservation \<times> db) go_result" where
  "captureWithQueries env db params =
     (if \<not> isPositiveNumeric (caActualAmount params) then Inl invalid_amount else
     (case store_call env ''lock ledger reservation''
             (GetLedgerReservationByRequestRecordIDForUpdate db (caRequestRecordID params)) of
        Inl err \<Rightarrow> Inl (if err = ErrNoRows then reservation_not_found else store_failed err ''lock ledger reservation'')
      | Inr reservation \<Rightarrow>
          if wrong_reservation (caReservationID params) reservation then Inl idempotency_conflict else
          (let capturedAmount = numericMin (caActualAmount params) (num (lrAuthorizedAmount reservation));
               overageRequired = numericGreaterThan (caActualAmount params) (num (lrAuthorizedAmount reservation))
           in if lrStatus reservation = ReservationStatusCaptured then
                rbind (capture_replay env db params reservation capturedAmount) (\<lambda>rv. Inr (rv, db))
              else if lrStatus reservation = ReservationStatusReleased then Inl idempotency_conflict
              else if lrStatus reservation \<noteq> ReservationStatusAuthorized then Inl unexpected_status
              else capture_authorized env db params reservation capturedAmount overageRequired)))"

definition CaptureWithQueries ::
  "env \<Rightarrow> db \<Rightarrow> CaptureParams \<Rightarrow> (ledger_error, Reservation \<times> db) go_result" where
  "CaptureWithQueries env db params = captureWithQueries env db params"

definition Capture :: "env \<Rightarrow> db \<Rightarrow> CaptureParams \<Rightarrow> (ledger_error, Reservation) go_result \<times> db" where
  "Capture env db params =
     (case begin_tx env ''begin ledger transaction'' of Inl e \<Rightarrow> (Inl e, db) | Inr _ \<Rightarrow>
     (case captureWithQueries env db params of
        Inl e \<Rightarrow> (Inl e, db)
      | Inr (captured, db') \<Rightarrow> commit_tx env ''commit ledger transaction'' db db' captured))"

subsection \<open>Release\<close>

definition releaseWithQueries ::
  "env \<Rightarrow> db \<Rightarrow> ReleaseParams \<Rightarrow> (ledger_error, Reservation \<times> db) go_result" where
  "releaseWithQueries env db params =
     (case store_call env ''lock ledger reservation''
             (GetLedgerReservationByRequestRecordIDForUpdate db (rlRequestRecordID params)) of
        Inl err \<Rightarrow> Inl (if err = ErrNoRows then reservation_not_found else store_failed err ''lock ledger reservation'')
      | Inr reservation \<Rightarrow>
          if wrong_reservation (rlReservationID params) reservation then Inl idempotency_conflict
          else if lrStatus reservation = ReservationStatusReleased then Inr (reservationFromSQLC reservation, db)
          else if lrStatus reservation = ReservationStatusCaptured then Inl idempotency_conflict
          else if lrStatus reservation \<noteq> ReservationStatusAuthorized then Inl unexpected_status
          else
     (case store_call env ''release user reserved balance''
             (ReleaseUserReservedBalance (clock env) db (num (lrAuthorizedAmount reservation))
               (lrUserID reservation) (lrCurrency reservation)) of
        Inl err \<Rightarrow> Inl (store_failed err ''release user reserved balance'')
      | Inr (_, db1) \<Rightarrow>
     (case store_call env ''release ledger reservation''
             (ReleaseLedgerReservation (clock env) db1 (lrID reservation)) of
        Inl err \<Rightarrow> Inl (store_failed err ''release ledger reservation'')
      | Inr (released, db2) \<Rightarrow> Inr (reservationFromSQLC released, db2))))"

definition ReleaseWithQueries ::
  "env \<Rightarrow> db \<Rightarrow> ReleaseParams \<Rightarrow> (ledger_error, Reservation \<times> db) go_result" where
  "ReleaseWithQueries env db params = releaseWithQueries env db params"

definition Release :: "env \<Rightarrow> db \<Rightarrow> ReleaseParams \<Rightarrow> (ledger_error, Reservation) go_result \<times> db" where
  "Release env db params =
     (case begin_tx env ''begin ledger transaction'' of Inl e \<Rightarrow> (Inl e, db) | Inr _ \<Rightarrow>
     (case releaseWithQueries env db params of
        Inl e \<Rightarrow> (Inl e, db)
      | Inr (released, db') \<Rightarrow> commit_tx env ''commit ledger transaction'' db db' released))"

definition ReleaseWithBillingException ::
  "env \<Rightarrow> db \<Rightarrow> ReleaseWithBillingExceptionParams \<Rightarrow> (ledger_error, Reservation) go_result \<times> db" where
  "ReleaseWithBillingException env db params =
     (case begin_tx env ''begin ledger billing exception transaction'' of Inl e \<Rightarrow> (Inl e, db) | Inr _ \<Rightarrow>
     (case releaseWithQueries env db
             \<lparr>rlRequestRecordID = rbRequestRecordID params, rlReservationID = rbReservationID params\<rparr> of
        Inl e \<Rightarrow> (Inl e, db)
      | Inr (released, db1) \<Rightarrow>
     (case store_call env ''create ledger billing exception''
             (CreateLedgerRiskExposureException (clock env) db1
               \<lparr>cxUserID = rvUserID released, cxRequestRecordID = rvRequestRecordID released,
                cxReservationID = rvID released, cxPlatformAmount = rvAuthorizedAmount released,
                cxCurrency = rvCurrency released, cxReasonCode = rbReasonCode params, cxReason = rbReason params\<rparr>) of
        Inl err \<Rightarrow> (Inl (store_failed err ''create ledger billing exception''), db)
      | Inr (_, db2) \<Rightarrow> commit_tx env ''commit ledger billing exception transaction'' db db2 released)))"

end
