(* ===== verification/Ledger_Books.thy ===== *)
theory Ledger_Books
  imports Ledger_Reservations
begin

text \<open>
  The books: the invariant that ties the balance projection (\<open>user_balances\<close>) to the facts it projects
  (\<open>ledger_entries\<close>, \<open>ledger_reservations\<close>), that every ledger operation keeps it, and what each operation
  does to an account. The balance of an account is the signed sum of its entries; its reserved part is
  the sum of its authorized reservations.
\<close>

abbreviation res_key :: "LedgerReservation \<Rightarrow> int \<times> string" where
  "res_key r \<equiv> (lrUserID r, lrCurrency r)"

definition entry_sum :: "db \<Rightarrow> int \<times> string \<Rightarrow> int" where
  "entry_sum db k = sum_list (map signed (filter (\<lambda>e. entry_key e = k) (ledger_entries db)))"

definition held :: "LedgerReservation \<Rightarrow> int" where
  "held r = (if lrStatus r = ReservationStatusAuthorized then lrAuthorizedAmount r else 0)"

definition held_sum :: "db \<Rightarrow> int \<times> string \<Rightarrow> int" where
  "held_sum db k = sum_list (map held (filter (\<lambda>r. res_key r = k) (ledger_reservations db)))"

definition books :: "db \<Rightarrow> bool" where
  "books db \<longleftrightarrow> account db = (\<lambda>k. (entry_sum db k, held_sum db k))"

definition entries_ok :: "db \<Rightarrow> bool" where
  "entries_ok db \<longleftrightarrow> distinct (map leIdempotencyKey (ledger_entries db)) \<and>
     distinct (map leID (ledger_entries db)) \<and>
     (\<forall>e \<in> set (ledger_entries db). check_ledger_entry e \<and> leID e < next_id db)"

text \<open>A captured reservation points at the debit entry of exactly the captured amount.\<close>

definition capture_linked :: "LedgerEntry list \<Rightarrow> LedgerReservation \<Rightarrow> bool" where
  "capture_linked es r \<longleftrightarrow> (lrStatus r = ReservationStatusCaptured \<longrightarrow>
     (\<exists>e \<in> set es. lrCaptureLedgerEntryID r = Some (leID e) \<and> leAmount e = lrCapturedAmount r \<and>
        entry_key e = res_key r \<and> leRequestRecordID e = Some (lrRequestRecordID r) \<and> leEntryType e = EntryTypeDebit))"

text \<open>The user and the request of a reservation exist.\<close>

definition owned :: "db \<Rightarrow> LedgerReservation \<Rightarrow> bool" where
  "owned db r \<longleftrightarrow> lrUserID r \<in> set (users db) \<and> (lrRequestRecordID r, lrUserID r) \<in> set (requests db)"

definition reservations_ok :: "db \<Rightarrow> bool" where
  "reservations_ok db \<longleftrightarrow> distinct (map lrID (ledger_reservations db)) \<and>
     distinct (map lrIdempotencyKey (ledger_reservations db)) \<and>
     distinct (map lrRequestRecordID (ledger_reservations db)) \<and>
     (\<forall>r \<in> set (ledger_reservations db). check_ledger_reservation r \<and> lrID r < next_id db \<and> owned db r \<and>
        capture_linked (ledger_entries db) r)"

text \<open>A write-off belongs to a captured reservation, a risk exposure to a released one.\<close>

definition exception_linked :: "LedgerReservation list \<Rightarrow> LedgerBillingException \<Rightarrow> bool" where
  "exception_linked rs x \<longleftrightarrow> (\<exists>r \<in> set rs. lrID r = beReservationID x \<and> lrUserID r = beUserID x \<and>
     lrCurrency r = beCurrency x \<and> lrRequestRecordID r = beRequestRecordID x \<and>
     lrStatus r = (if beActualAmount x = None then ReservationStatusReleased else ReservationStatusCaptured))"

definition exceptions_ok :: "db \<Rightarrow> bool" where
  "exceptions_ok db \<longleftrightarrow> distinct (map beReservationID (billing_exceptions db)) \<and>
     (\<forall>x \<in> set (billing_exceptions db). check_billing_exception x \<and> exception_linked (ledger_reservations db) x)"

definition ledger_inv :: "db \<Rightarrow> bool" where
  "ledger_inv db \<longleftrightarrow> balances_ok db \<and> books db \<and> entries_ok db \<and> reservations_ok db \<and> exceptions_ok db"

lemmas inv_parts = ledger_inv_def entries_ok_def reservations_ok_def exceptions_ok_def

subsection \<open>Sums over the tables\<close>

lemma entry_sum_append:
  "ledger_entries db' = ledger_entries db @ [e] \<Longrightarrow>
     entry_sum db' = (entry_sum db)(entry_key e := entry_sum db (entry_key e) + signed e)"
  by (auto simp: entry_sum_def fun_eq_iff)

lemma entry_sum_same: "ledger_entries db' = ledger_entries db \<Longrightarrow> entry_sum db' = entry_sum db"
  by (simp add: entry_sum_def fun_eq_iff)

lemma held_sum_append:
  "ledger_reservations db' = ledger_reservations db @ [r] \<Longrightarrow>
     held_sum db' = (held_sum db)(res_key r := held_sum db (res_key r) + held r)"
  by (auto simp: held_sum_def fun_eq_iff)

lemma held_sum_same: "ledger_reservations db' = ledger_reservations db \<Longrightarrow> held_sum db' = held_sum db"
  by (simp add: held_sum_def fun_eq_iff)

lemma held_update_list:
  assumes "distinct (map lrID rs)" "r \<in> set rs" "lrID r' = lrID r" "res_key r' = res_key r"
  shows "sum_list (map held (filter (\<lambda>x. res_key x = k) (map (\<lambda>x. if lrID x = lrID r' then r' else x) rs)))
    = sum_list (map held (filter (\<lambda>x. res_key x = k) rs)) + (if res_key r = k then held r' - held r else 0)"
  using assms
proof (induction rs)
  case Nil
  then show ?case by simp
next
  case (Cons x rs)
  show ?case
  proof (cases "x = r")
    case True
    with Cons.prems have "\<forall>y \<in> set rs. lrID y \<noteq> lrID r'" by (metis distinct.simps(2) image_eqI list.simps(9) set_map)
    then have "map (\<lambda>y. if lrID y = lrID r' then r' else y) rs = rs" by (intro map_idI) auto
    with True Cons.prems(3,4) show ?thesis by auto
  next
    case False
    with Cons.prems have "lrID x \<noteq> lrID r'" "r \<in> set rs" by auto
    with Cons show ?thesis by auto
  qed
qed

lemma held_sum_update:
  assumes "distinct (map lrID (ledger_reservations db))" "r \<in> set (ledger_reservations db)" "lrID r' = lrID r"
    and "res_key r' = res_key r"
    and "ledger_reservations db' = map (\<lambda>x. if lrID x = lrID r' then r' else x) (ledger_reservations db)"
  shows "held_sum db' = (held_sum db)(res_key r := held_sum db (res_key r) + held r' - held r)"
  using held_update_list [OF assms(1-4)] by (auto simp: held_sum_def assms(5) fun_eq_iff)

lemma held_nonneg: "check_ledger_reservation r \<Longrightarrow> 0 \<le> held r"
  by (simp add: held_def check_ledger_reservation_def)

lemma held_le_sum:
  assumes "r \<in> set (ledger_reservations db)" "\<forall>r \<in> set (ledger_reservations db). check_ledger_reservation r"
  shows "held r \<le> held_sum db (res_key r)"
proof -
  have "held r \<in> set (map held (filter (\<lambda>x. res_key x = res_key r) (ledger_reservations db)))"
    using assms(1) by auto
  moreover have "\<forall>n \<in> set (map held (filter (\<lambda>x. res_key x = res_key r) (ledger_reservations db))). 0 \<le> n"
    using assms(2) by (auto simp: held_nonneg)
  ultimately show ?thesis unfolding held_sum_def by (rule member_le_sum_int)
qed

subsection \<open>A posting keeps the books\<close>

lemma posted_inv:
  assumes "posted db db' e" "ledger_inv db"
  shows "ledger_inv db'"
proof -
  have tabs: "ledger_entries db' = ledger_entries db @ [e]" "ledger_reservations db' = ledger_reservations db"
    "billing_exceptions db' = billing_exceptions db" "next_id db \<le> leID e" "leID e < next_id db'"
    "check_ledger_entry e" "leIdempotencyKey e \<notin> entry_keys db" "balances_ok db'"
    using assms by (auto simp: posted_def ledger_inv_def)
  have "books db'"
    using posted_account [OF assms(1)] assms(2) entry_sum_append [OF tabs(1)] held_sum_same [OF tabs(2)]
    by (simp add: books_def ledger_inv_def fun_eq_iff del: split_paired_All)
  moreover have "entries_ok db'"
    using assms(2) tabs by (auto simp: inv_parts entry_keys_def)
  moreover have "users db' = users db" "requests db' = requests db" using assms(1) by (simp_all add: posted_def)
  then have "reservations_ok db'"
    using assms(2) tabs by (auto simp: inv_parts capture_linked_def owned_def)
  moreover have "exceptions_ok db'"
    using assms(2) tabs by (simp add: inv_parts)
  ultimately show ?thesis using tabs(8) by (simp add: ledger_inv_def)
qed

subsection \<open>Holding funds\<close>

definition reservation_keys :: "db \<Rightarrow> string set" where
  "reservation_keys db = lrIdempotencyKey ` set (ledger_reservations db)"

definition reserved_requests :: "db \<Rightarrow> int set" where
  "reserved_requests db = lrRequestRecordID ` set (ledger_reservations db)"

definition same_facts :: "db \<Rightarrow> db \<Rightarrow> bool" where
  "same_facts db db' \<longleftrightarrow> users db' = users db \<and> requests db' = requests db \<and> ledger_entries db' = ledger_entries db \<and>
     billing_exceptions db' = billing_exceptions db"

text \<open>
  The specification of a hold: one new authorized reservation under a new key for a new request,
  of a positive amount that was available and that moves into the reserved part; the balance is untouched.
\<close>

definition reserved :: "db \<Rightarrow> db \<Rightarrow> LedgerReservation \<Rightarrow> bool" where
  "reserved db db' r \<longleftrightarrow>
     check_ledger_reservation r \<and> lrStatus r = ReservationStatusAuthorized \<and>
     lrIdempotencyKey r \<notin> reservation_keys db \<and> lrRequestRecordID r \<notin> reserved_requests db \<and>
     next_id db \<le> lrID r \<and> lrID r < next_id db' \<and>
     ledger_reservations db' = ledger_reservations db @ [r] \<and> same_facts db db' \<and>
     owned db r \<and> 0 < lrAuthorizedAmount r \<and>
     lrAuthorizedAmount r \<le> fst (account db (res_key r)) - snd (account db (res_key r)) \<and>
     account db' = (account db)(res_key r :=
       (fst (account db (res_key r)), snd (account db (res_key r)) + lrAuthorizedAmount r)) \<and>
     (balances_ok db \<longrightarrow> balances_ok db')"

lemma reserved_inv:
  assumes "reserved db db' r" "ledger_inv db"
  shows "ledger_inv db'"
proof -
  have tabs: "ledger_reservations db' = ledger_reservations db @ [r]" "ledger_entries db' = ledger_entries db"
    "billing_exceptions db' = billing_exceptions db" "next_id db \<le> lrID r" "lrID r < next_id db'"
    "lrStatus r = ReservationStatusAuthorized" "balances_ok db'"
    "account db' = (account db)(res_key r := (fst (account db (res_key r)), snd (account db (res_key r)) + lrAuthorizedAmount r))"
    using assms by (auto simp: reserved_def same_facts_def ledger_inv_def)
  have "held r = lrAuthorizedAmount r" using tabs(6) by (simp add: held_def)
  then have "books db'"
    using tabs(8) assms(2) entry_sum_same [OF tabs(2)] held_sum_append [OF tabs(1)]
    by (simp add: books_def ledger_inv_def fun_eq_iff del: split_paired_All)
  moreover have "entries_ok db'" using assms(2) tabs by (fastforce simp: inv_parts)
  moreover have "reservations_ok db'"
    using assms tabs
    by (auto simp: inv_parts reserved_def same_facts_def owned_def capture_linked_def reservation_keys_def
        reserved_requests_def)
  moreover have "exceptions_ok db'"
    using assms(2) tabs(1,3) by (auto simp: inv_parts exception_linked_def)
  ultimately show ?thesis using tabs(7) by (simp add: ledger_inv_def)
qed

lemma insert_ledger_reservation_Inr:
  assumes "insert_ledger_reservation db row = Inr (r, db')"
  shows "r = row\<lparr>lrID := next_id db\<rparr>" "check_ledger_reservation r" "lrIdempotencyKey r \<notin> reservation_keys db"
    "lrRequestRecordID r \<notin> reserved_requests db"
    "db' = db\<lparr>ledger_reservations := ledger_reservations db @ [r], next_id := next_id db + 1\<rparr>" "lrID r = next_id db"
    "owned db r"
proof -
  have ok: "owned db row" "check_ledger_reservation row" "lrIdempotencyKey row \<notin> reservation_keys db"
    "lrRequestRecordID row \<notin> reserved_requests db" and r: "r = row\<lparr>lrID := next_id db\<rparr>"
    and db': "db' = db\<lparr>ledger_reservations := ledger_reservations db @ [row\<lparr>lrID := next_id db\<rparr>], next_id := next_id db + 1\<rparr>"
    using assms
    by (auto simp: insert_ledger_reservation_def reservation_keys_def reserved_requests_def owned_def split: if_splits)
  from ok show "check_ledger_reservation r" "lrIdempotencyKey r \<notin> reservation_keys db" "owned db r"
    "lrRequestRecordID r \<notin> reserved_requests db" by (simp_all add: r check_ledger_reservation_def owned_def)
  show "r = row\<lparr>lrID := next_id db\<rparr>" by (rule r)
  show "lrID r = next_id db" by (simp add: r)
  show "db' = db\<lparr>ledger_reservations := ledger_reservations db @ [r], next_id := next_id db + 1\<rparr>"
    unfolding r by (rule db')
qed

text \<open>The amounts a hold asks for and gets: the rounded estimate, and as much of it as is available.\<close>

definition reservation_matches :: "db \<Rightarrow> PreAuthorizeParams \<Rightarrow> LedgerReservation \<Rightarrow> bool" where
  "reservation_matches db params r \<longleftrightarrow>
     lrUserID r = paUserID params \<and> lrRequestRecordID r = paRequestRecordID params \<and> lrCurrency r = paCurrency params \<and>
     lrIdempotencyKey r = paIdempotencyKey params \<and> lrReason r = paReason params \<and>
     (\<exists>x. numericRat (paEstimatedAmount params) = Some x \<and> lrEstimatedAmount r = round_half_away (x * 10 ^ 10)) \<and>
     lrAuthorizedAmount r = min (fst (account db (res_key r)) - snd (account db (res_key r))) (lrEstimatedAmount r)"

lemma cast_param_Inr:
  "numericRat v = Some x \<Longrightarrow> cast_param v = Inr e \<Longrightarrow> e = Some (round_half_away (x * 10 ^ 10))"
  by (auto simp: cast_param_def bind_num_finite rbind_Inr_iff cast10_Inr)

lemma col10_of_bind:
  "numericRat v = Some x \<Longrightarrow> rbind (bind_num v) col10 = Inr n \<Longrightarrow> n = round_half_away (x * 10 ^ 10)"
  by (auto simp: bind_num_finite cast10_Inr)

lemma CreateLedgerReservation_Inr:
  assumes "CreateLedgerReservation now db arg = Inr (r, db')" "crAuthorizedAmount arg = num a"
    and "numericRat (crEstimatedAmount arg) = Some x"
  shows "insert_ledger_reservation db (r\<lparr>lrID := 0\<rparr>) = Inr (r, db')"
    "lrUserID r = crUserID arg" "lrRequestRecordID r = crRequestRecordID arg" "lrCurrency r = crCurrency arg"
    "lrStatus r = ReservationStatusAuthorized" "lrAuthorizedAmount r = a"
    "lrEstimatedAmount r = round_half_away (x * 10 ^ 10)" "lrIdempotencyKey r = crIdempotencyKey arg" "lrReason r = crReason arg"
proof -
  obtain est auth where est: "rbind (bind_num (crEstimatedAmount arg)) col10 = Inr est"
    and auth: "rbind (bind_num (crAuthorizedAmount arg)) col10 = Inr auth"
    and ins: "insert_ledger_reservation db
       \<lparr>lrID = 0, lrUserID = crUserID arg, lrRequestRecordID = crRequestRecordID arg,
        lrCurrency = crCurrency arg, lrStatus = ''authorized'', lrAuthorizedAmount = auth,
        lrCapturedAmount = 0, lrReleasedAmount = 0, lrEstimatedAmount = est,
        lrCaptureLedgerEntryID = None, lrIdempotencyKey = crIdempotencyKey arg, lrReason = crReason arg,
        lrCreatedAt = now, lrUpdatedAt = now, lrCapturedAt = None, lrReleasedAt = None\<rparr> = Inr (r, db')"
    using assms(1) unfolding CreateLedgerReservation_def by (blast elim: rbind_InrE)
  have "auth = a" using auth assms(2) by (auto split: if_splits)
  moreover have "est = round_half_away (x * 10 ^ 10)" by (rule col10_of_bind [OF assms(3) est])
  moreover note insert_ledger_reservation_Inr(1) [OF ins]
  ultimately show "lrUserID r = crUserID arg" "lrRequestRecordID r = crRequestRecordID arg" "lrCurrency r = crCurrency arg"
    "lrStatus r = ReservationStatusAuthorized" "lrAuthorizedAmount r = a"
    "lrEstimatedAmount r = round_half_away (x * 10 ^ 10)" "lrIdempotencyKey r = crIdempotencyKey arg" "lrReason r = crReason arg"
    "insert_ledger_reservation db (r\<lparr>lrID := 0\<rparr>) = Inr (r, db')"
    using ins by simp_all
qed

lemma PreAuthorize_inv:
  assumes "PreAuthorize env seen db params = (r, db')"
  obtains (failed) err where "r = Inl err" "db' = db"
  | (replay) existing where "GetLedgerReservationByIdempotencyKey seen (paIdempotencyKey params) = Inr existing"
      "r = matching_reservation existing params" "db' = db"
  | (unavailable) "r = resolveReservationUnavailable env db params" "db' = db"
  | (conflict) "r = resolveReservationCreateConflict env db params" "db' = db"
  | (reserved) row db2 where "reserved db db2 row" "reservation_matches db params row"
      "paIdempotencyKey params \<notin> reservation_keys seen"
      "commit_tx env ''commit ledger transaction'' db db2 (reservationFromSQLC row) = (r, db')"
proof (cases "isPositiveNumeric (paEstimatedAmount params)")
  case False
  with assms show ?thesis by (intro failed) (auto simp: PreAuthorize_def)
next
  case pos: True
  then obtain x where x: "numericRat (paEstimatedAmount params) = Some x" "0 < x" by (auto simp: isPositiveNumeric_val)
  let ?u = "paUserID params" and ?c = "paCurrency params" and ?k = "paIdempotencyKey params"
  consider "\<exists>err. r = Inl err \<and> db' = db"
    | existing where "GetLedgerReservationByIdempotencyKey seen ?k = Inr existing"
        "r = matching_reservation existing params" "db' = db"
    | err where "r = (if err = ErrNoRows then resolveReservationUnavailable env db params
           else Inl (store_failed err ''reserve available user balance''))" "db' = db"
    | err where "r = (if err = UniqueViolation then resolveReservationCreateConflict env db params
           else Inl (store_failed err ''create ledger reservation''))" "db' = db"
    | ub db1 row db2 where
      "GetLedgerReservationByIdempotencyKey seen ?k = Inl ErrNoRows"
      "ReserveAvailableUserBalance (clock env) db (paEstimatedAmount params) ?u ?c = Inr (ub, db1)"
      "CreateLedgerReservation (clock env) db1
               \<lparr>crUserID = ?u, crRequestRecordID = paRequestRecordID params,
                crCurrency = ?c, crEstimatedAmount = paEstimatedAmount params,
                crAuthorizedAmount = num (snd ub), crIdempotencyKey = ?k, crReason = paReason params\<rparr> = Inr (row, db2)"
      "commit_tx env ''commit ledger transaction'' db db2 (reservationFromSQLC row) = (r, db')"
    using assms pos unfolding PreAuthorize_def if_not_P [OF not_not [THEN iffD2, OF pos]]
    by (elim return_caseE lookup_caseE pair_caseE) (simp_all only: store_call_Inr store_call_ErrNoRows, blast+)
  then show ?thesis
  proof cases
    case 3
    then show ?thesis using failed unavailable by (cases "err = ErrNoRows") auto
  next
    case 4
    then show ?thesis using failed conflict by (cases "err = UniqueViolation") auto
  next
    case 5
    obtain r' a where ub: "ub = (r', a)" by (cases ub)
    obtain e where e: "cast_param (paEstimatedAmount params) = Inr e"
      "a = least_opt (fst (account db (?u, ?c)) - snd (account db (?u, ?c))) e" "0 < a"
      "balance_set db db1 (?u, ?c) (fst (account db (?u, ?c))) (snd (account db (?u, ?c)) + a)"
      using ReserveAvailableUserBalance_Inr [OF 5(2) [unfolded ub]] by blast
    have e': "e = Some (round_half_away (x * 10 ^ 10))" by (rule cast_param_Inr [OF x(1) e(1)])
    note cr = CreateLedgerReservation_Inr [OF 5(3), simplified ub, simplified, OF refl x(1)]
    note ins = insert_ledger_reservation_Inr [OF cr(1)]
    note frame = balance_set_frame [OF e(4)]
    have k: "res_key row = (?u, ?c)" using cr by simp
    have "account db2 = (account db)(res_key row := (fst (account db (res_key row)), snd (account db (res_key row)) + a))"
      using balance_set_account [OF e(4)] unfolding k by (simp add: ins(5))
    moreover have "balances_ok db \<longrightarrow> balances_ok db2"
      using balance_set_ok [OF e(4)] account_ok(3) [of db "(?u, ?c)"] by (simp add: ins(5))
    ultimately have "reserved db db2 row"
      using ins(2-7) frame(1) e(2,3) e' cr(2-) k
      by (auto simp: reserved_def same_facts_def owned_def same_tables_def reservation_keys_def reserved_requests_def least_opt_def)
    moreover have "reservation_matches db params row"
      using cr x(1) e(2) e' k by (simp add: reservation_matches_def least_opt_def)
    moreover have "?k \<notin> reservation_keys seen"
      using 5(1) by (simp add: reservations.lookup_Inl_iff reservation_keys_def)
    ultimately show ?thesis using reserved 5(4) by blast
  qed (use failed replay in blast)+
qed

subsection \<open>Settling a hold\<close>

text \<open>The row of an authorized reservation \<open>r\<close> becomes \<open>r'\<close>, in its terminal status.\<close>

definition same_hold :: "LedgerReservation \<Rightarrow> LedgerReservation \<Rightarrow> bool" where
  "same_hold r r' \<longleftrightarrow> lrID r' = lrID r \<and> lrUserID r' = lrUserID r \<and> lrRequestRecordID r' = lrRequestRecordID r \<and>
     lrCurrency r' = lrCurrency r \<and> lrAuthorizedAmount r' = lrAuthorizedAmount r \<and>
     lrEstimatedAmount r' = lrEstimatedAmount r \<and> lrIdempotencyKey r' = lrIdempotencyKey r \<and> lrReason r' = lrReason r"

definition settled_row :: "db \<Rightarrow> db \<Rightarrow> LedgerReservation \<Rightarrow> LedgerReservation \<Rightarrow> bool" where
  "settled_row db db' r r' \<longleftrightarrow>
     r \<in> set (ledger_reservations db) \<and> lrStatus r = ReservationStatusAuthorized \<and>
     lrStatus r' \<noteq> ReservationStatusAuthorized \<and> same_hold r r' \<and> check_ledger_reservation r' \<and>
     ledger_reservations db' = map (\<lambda>x. if lrID x = lrID r' then r' else x) (ledger_reservations db) \<and>
     users db' = users db \<and> requests db' = requests db \<and> billing_exceptions db' = billing_exceptions db"

text \<open>Released: only the reserved part of the account shrinks, by the whole hold.\<close>

definition released :: "db \<Rightarrow> db \<Rightarrow> LedgerReservation \<Rightarrow> LedgerReservation \<Rightarrow> bool" where
  "released db db' r r' \<longleftrightarrow> settled_row db db' r r' \<and> lrStatus r' = ReservationStatusReleased \<and>
     ledger_entries db' = ledger_entries db \<and> next_id db' = next_id db \<and>
     account db' = (account db)(res_key r :=
       (fst (account db (res_key r)), snd (account db (res_key r)) - lrAuthorizedAmount r)) \<and>
     (balances_ok db \<longrightarrow> balances_ok db')"

text \<open>Captured: the hold is gone and the captured part of it is debited by the entry \<open>e\<close>.\<close>

definition captured :: "db \<Rightarrow> db \<Rightarrow> LedgerReservation \<Rightarrow> LedgerReservation \<Rightarrow> LedgerEntry \<Rightarrow> bool" where
  "captured db db' r r' e \<longleftrightarrow> settled_row db db' r r' \<and> lrStatus r' = ReservationStatusCaptured \<and>
     capture_linked [e] r' \<and> entry_key e = res_key r \<and> leEntryType e = EntryTypeDebit \<and>
     check_ledger_entry e \<and> leIdempotencyKey e \<notin> entry_keys db \<and>
     next_id db \<le> leID e \<and> leID e < next_id db' \<and> ledger_entries db' = ledger_entries db @ [e] \<and>
     account db' = (account db)(res_key r :=
       (fst (account db (res_key r)) - leAmount e, snd (account db (res_key r)) - lrAuthorizedAmount r)) \<and>
     (balances_ok db \<longrightarrow> balances_ok db')"

lemma settled_reservations:
  assumes "settled_row db db' r r'" "reservations_ok db" "next_id db \<le> next_id db'"
    and "set (ledger_entries db) \<subseteq> set (ledger_entries db')" "capture_linked (ledger_entries db') r'"
  shows "reservations_ok db'"
proof -
  have rs: "ledger_reservations db' = map (\<lambda>x. if lrID x = lrID r' then r' else x) (ledger_reservations db)"
    and same: "lrID r' = lrID r" "lrIdempotencyKey r' = lrIdempotencyKey r" "lrRequestRecordID r' = lrRequestRecordID r"
    and r: "r \<in> set (ledger_reservations db)" "check_ledger_reservation r'"
    using assms(1) by (auto simp: settled_row_def same_hold_def)
  have dist: "distinct (map lrID (ledger_reservations db))" using assms(2) by (simp add: reservations_ok_def)
  have unique: "x = r" if "x \<in> set (ledger_reservations db)" "lrID x = lrID r'" for x
    using dist r(1) that same(1) by (simp add: distinct_map inj_on_def)
  have keys: "map f (ledger_reservations db') = map f (ledger_reservations db)" if "f r' = f r" for f :: "LedgerReservation \<Rightarrow> 'b"
    unfolding rs using that unique by (auto simp: o_def intro!: map_cong)
  have linked: "capture_linked (ledger_entries db') x" if "capture_linked (ledger_entries db) x" for x
    using that assms(4) by (auto simp: capture_linked_def)
  have "owned db' x \<longleftrightarrow> owned db x" for x using assms(1) by (simp add: owned_def settled_row_def)
  moreover have "owned db r' \<longleftrightarrow> owned db r" using assms(1) by (simp add: owned_def settled_row_def same_hold_def)
  ultimately have "\<forall>x \<in> set (ledger_reservations db'). check_ledger_reservation x \<and> lrID x < next_id db' \<and> owned db' x \<and>
      capture_linked (ledger_entries db') x"
    using assms(2,3,5) r same(1) linked by (fastforce simp: rs reservations_ok_def)
  with assms(2) keys [of lrID] keys [of lrIdempotencyKey] keys [of lrRequestRecordID] same show ?thesis
    by (simp add: reservations_ok_def)
qed

lemma settled_exceptions:
  assumes "settled_row db db' r r'" "exceptions_ok db" "distinct (map lrID (ledger_reservations db))"
  shows "exceptions_ok db'"
proof -
  have rs: "ledger_reservations db' = map (\<lambda>x. if lrID x = lrID r' then r' else x) (ledger_reservations db)"
    and r: "r \<in> set (ledger_reservations db)" "lrStatus r = ReservationStatusAuthorized" "lrID r' = lrID r"
    using assms(1) by (auto simp: settled_row_def same_hold_def)
  have kept: "x \<in> set (ledger_reservations db')"
    if "x \<in> set (ledger_reservations db)" "lrStatus x \<noteq> ReservationStatusAuthorized" for x
  proof -
    have "lrID x \<noteq> lrID r'"
      using assms(3) that r by (auto simp: distinct_map inj_on_def)
    with that(1) show ?thesis unfolding rs by (auto intro!: image_eqI [of _ _ x])
  qed
  have "exception_linked (ledger_reservations db') x" if "exception_linked (ledger_reservations db) x" for x
    using that kept unfolding exception_linked_def by (fastforce split: if_splits)
  then show ?thesis using assms(1,2) by (simp add: exceptions_ok_def settled_row_def)
qed

lemma settled_held_sum:
  assumes "settled_row db db' r r'" "distinct (map lrID (ledger_reservations db))"
  shows "held_sum db' = (held_sum db)(res_key r := held_sum db (res_key r) - lrAuthorizedAmount r)"
proof -
  have "held r = lrAuthorizedAmount r" "held r' = 0" using assms(1) by (auto simp: settled_row_def held_def)
  then show ?thesis
    using held_sum_update [OF assms(2), of r r' db'] assms(1) by (simp add: settled_row_def same_hold_def)
qed

lemma released_inv:
  assumes "released db db' r r'" "ledger_inv db"
  shows "ledger_inv db'"
proof -
  have row: "settled_row db db' r r'" and dist: "distinct (map lrID (ledger_reservations db))"
    and es: "ledger_entries db' = ledger_entries db" "next_id db' = next_id db" and st: "lrStatus r' = ReservationStatusReleased"
    using assms by (simp_all add: released_def inv_parts)
  have "books db'"
    using assms settled_held_sum [OF row dist] entry_sum_same [OF es(1)]
    by (simp add: released_def books_def ledger_inv_def fun_eq_iff del: split_paired_All)
  moreover have "reservations_ok db'"
    using settled_reservations [OF row] assms(2) es st by (simp add: ledger_inv_def capture_linked_def)
  moreover have "exceptions_ok db'" using settled_exceptions [OF row _ dist] assms(2) by (simp add: ledger_inv_def)
  moreover have "entries_ok db'" "balances_ok db'" using assms es by (simp_all add: inv_parts released_def)
  ultimately show ?thesis by (simp add: ledger_inv_def)
qed

lemma debit_signed: "leEntryType e = EntryTypeDebit \<Longrightarrow> signed e = - leAmount e"
  by (simp add: signed_def credit_types_def)

lemma captured_inv:
  assumes "captured db db' r r' e" "ledger_inv db"
  shows "ledger_inv db'"
proof -
  have row: "settled_row db db' r r'" and dist: "distinct (map lrID (ledger_reservations db))"
    and es: "ledger_entries db' = ledger_entries db @ [e]" "next_id db \<le> leID e" "leID e < next_id db'"
    "check_ledger_entry e" "leIdempotencyKey e \<notin> entry_keys db" "entry_key e = res_key r" "leEntryType e = EntryTypeDebit"
    "capture_linked [e] r'"
    using assms by (simp_all add: captured_def inv_parts)
  have "books db'"
    using assms settled_held_sum [OF row dist] entry_sum_append [OF es(1)] debit_signed [OF es(7)]
    by (simp add: captured_def books_def ledger_inv_def es(6) fun_eq_iff del: split_paired_All)
  moreover have "reservations_ok db'"
    using settled_reservations [OF row] assms(2) es by (auto simp: ledger_inv_def capture_linked_def)
  moreover have "exceptions_ok db'" using settled_exceptions [OF row _ dist] assms(2) by (simp add: ledger_inv_def)
  moreover have "entries_ok db'" using assms(2) es by (auto simp: inv_parts entry_keys_def)
  moreover have "balances_ok db'" using assms by (simp add: inv_parts captured_def)
  ultimately show ?thesis by (simp add: ledger_inv_def)
qed

subsection \<open>What release and capture do\<close>

lemma update_reservation_Inr:
  assumes "update_reservation db r1 = Inr (r', db')"
  shows "r' = r1" "check_ledger_reservation r'" "db' = put_reservation db r'"
  using assms by (auto simp: update_reservation_def split: if_splits)

lemma find_reservation:
  assumes "distinct (map lrID rs)" "r \<in> set rs" "find (\<lambda>x. lrID x = lrID r \<and> P x) rs = Some x"
  shows "x = r"
  using assms by (auto simp: find_Some_iff distinct_map inj_on_def)

lemma ReleaseLedgerReservation_Inr:
  assumes "ReleaseLedgerReservation now db (lrID r) = Inr (r', db')" "distinct (map lrID (ledger_reservations db))"
    and "r \<in> set (ledger_reservations db)"
  shows "lrStatus r = ReservationStatusAuthorized" "lrStatus r' = ReservationStatusReleased" "same_hold r r'"
    "check_ledger_reservation r'" "db' = put_reservation db r'"
proof -
  obtain x where x: "find (\<lambda>y. lrID y = lrID r \<and> lrStatus y = ''authorized'') (ledger_reservations db) = Some x"
    and up: "update_reservation db (x\<lparr>lrStatus := ''released'', lrReleasedAmount := lrAuthorizedAmount x,
          lrReleasedAt := Some now, lrUpdatedAt := now\<rparr>) = Inr (r', db')"
    using assms(1) by (auto simp: ReleaseLedgerReservation_def rbind_Inr_iff one_row_def split: option.splits)
  have "x = r" by (rule find_reservation [OF assms(2,3) x])
  moreover have "lrStatus x = ''authorized''" using x by (auto simp: find_Some_iff)
  moreover note update_reservation_Inr [OF up]
  ultimately show "lrStatus r = ReservationStatusAuthorized" "lrStatus r' = ReservationStatusReleased" "same_hold r r'"
    "check_ledger_reservation r'" "db' = put_reservation db r'"
    by (simp_all add: same_hold_def)
qed

lemma CaptureLedgerReservation_Inr:
  assumes "CaptureLedgerReservation now db v eid (lrID r) = Inr (r', db')" "distinct (map lrID (ledger_reservations db))"
    and "r \<in> set (ledger_reservations db)" "numericRat v = Some x"
  shows "lrStatus r = ReservationStatusAuthorized" "lrStatus r' = ReservationStatusCaptured" "same_hold r r'"
    "check_ledger_reservation r'" "db' = put_reservation db r'" "lrCaptureLedgerEntryID r' = eid"
    "lrCapturedAmount r' = round_half_away (x * 10 ^ 10)"
proof -
  have bind: "bind_num v = Inr (SqlNum x)" by (rule bind_num_finite [OF assms(4)])
  obtain y cap rel where y: "find (\<lambda>y. lrID y = lrID r \<and> (lrStatus y = ''authorized'' \<and>
         sql_ge (sql_col (lrAuthorizedAmount y)) (SqlNum x))) (ledger_reservations db) = Some y"
    and cap: "cast10 x = Inr cap"
    and up: "update_reservation db (y\<lparr>lrStatus := ''captured'', lrCapturedAmount := cap, lrReleasedAmount := rel,
          lrCaptureLedgerEntryID := eid, lrCapturedAt := Some now,
          lrReleasedAt := (if \<not> sql_ge (SqlNum x) (sql_col (lrAuthorizedAmount y)) then Some now else None),
          lrUpdatedAt := now\<rparr>) = Inr (r', db')"
    using assms(1) unfolding CaptureLedgerReservation_def bind rbind_simps rbind_Inr_iff one_row_def col10_SqlNum
    by (auto split: option.splits)
  have "y = r" by (rule find_reservation [OF assms(2,3) y])
  moreover have "lrStatus y = ''authorized''" using y by (auto simp: find_Some_iff)
  moreover note update_reservation_Inr [OF up]
  ultimately show "lrStatus r = ReservationStatusAuthorized" "lrStatus r' = ReservationStatusCaptured" "same_hold r r'"
    "check_ledger_reservation r'" "db' = put_reservation db r'" "lrCaptureLedgerEntryID r' = eid"
    "lrCapturedAmount r' = round_half_away (x * 10 ^ 10)"
    using cap by (simp_all add: same_hold_def cast10_Inr)
qed

lemma put_reservation_sel [simp]:
  "users (put_reservation db r) = users db" "requests (put_reservation db r) = requests db"
  "ledger_entries (put_reservation db r) = ledger_entries db" "billing_exceptions (put_reservation db r) = billing_exceptions db"
  "next_id (put_reservation db r) = next_id db" "account (put_reservation db r) = account db"
  "balances_ok (put_reservation db r) = balances_ok db"
  "ledger_reservations (put_reservation db r) = map (\<lambda>x. if lrID x = lrID r then r else x) (ledger_reservations db)"
  by (simp_all add: put_reservation_def)

lemma releaseWithQueries_inv:
  assumes "releaseWithQueries env db params = Inr (rv, db')" "ledger_inv db"
  obtains (replay) r where "r \<in> set (ledger_reservations db)" "lrRequestRecordID r = rlRequestRecordID params"
      "lrStatus r = ReservationStatusReleased" "rv = reservationFromSQLC r" "db' = db"
  | (released) r r' where "lrRequestRecordID r = rlRequestRecordID params" "released db db' r r'" "rv = reservationFromSQLC r'"
proof -
  obtain r where r: "GetLedgerReservationByRequestRecordIDForUpdate db (rlRequestRecordID params) = Inr r"
    and rest: "lrStatus r = ReservationStatusReleased \<and> rv = reservationFromSQLC r \<and> db' = db \<or>
      (\<exists>ub db1 r'. ReleaseUserReservedBalance (clock env) db (num (lrAuthorizedAmount r)) (lrUserID r) (lrCurrency r) = Inr (ub, db1) \<and>
        ReleaseLedgerReservation (clock env) db1 (lrID r) = Inr (r', db') \<and> rv = reservationFromSQLC r')"
    using assms(1) unfolding releaseWithQueries_def
    by (elim fail_caseE) (auto simp: store_call_Inr split: if_splits elim!: fail_caseE)
  have mem: "r \<in> set (ledger_reservations db)" "lrRequestRecordID r = rlRequestRecordID params"
    using request_reservations.lookup_Inr [OF r] by auto
  from rest show ?thesis
  proof (elim disjE exE conjE)
    fix ub db1 r'
    assume ub: "ReleaseUserReservedBalance (clock env) db (num (lrAuthorizedAmount r)) (lrUserID r) (lrCurrency r) = Inr (ub, db1)"
      and row: "ReleaseLedgerReservation (clock env) db1 (lrID r) = Inr (r', db')" and rv: "rv = reservationFromSQLC r'"
    note set = ReleaseUserReservedBalance_Inr [OF ub]
    note frame = balance_set_frame [OF set]
    have db1: "ledger_reservations db1 = ledger_reservations db" using frame(1) by (simp add: same_tables_def)
    have dist: "distinct (map lrID (ledger_reservations db1))" using assms(2) by (simp add: db1 inv_parts)
    note up = ReleaseLedgerReservation_Inr [OF row dist mem(1) [folded db1]]
    have "balances_ok db \<longrightarrow> balances_ok db'"
      using balance_set_ok [OF set] account_ok(3) [of db "res_key r"] by (simp add: up(5))
    then have "released db db' r r'"
      using up frame mem(1) balance_set_account [OF set]
      by (simp add: released_def settled_row_def same_tables_def)
    with mem(2) rv show ?thesis by (intro released)
  qed (use replay mem in blast)
qed

subsection \<open>The overage of a capture\<close>

text \<open>A statement that rewrote a balance row with the same amounts.\<close>

definition idle :: "db \<Rightarrow> db \<Rightarrow> bool" where
  "idle db db' \<longleftrightarrow> same_tables db db' \<and> account db' = account db \<and> (balances_ok db \<longrightarrow> balances_ok db')"

lemma idle_inv: "idle db db' \<Longrightarrow> ledger_inv db \<Longrightarrow> ledger_inv db'"
proof -
  assume "idle db db'" "ledger_inv db"
  then have t: "same_tables db db'" "account db' = account db" "balances_ok db'" "ledger_inv db"
    by (simp_all add: idle_def ledger_inv_def)
  moreover from this have "books db'"
    using entry_sum_same [of db' db] held_sum_same [of db' db] by (simp add: books_def ledger_inv_def same_tables_def)
  ultimately show ?thesis by (auto simp: inv_parts same_tables_def owned_def)
qed

text \<open>A billing exception that links to a reservation in its terminal status.\<close>

definition exception_added :: "db \<Rightarrow> db \<Rightarrow> LedgerBillingException \<Rightarrow> bool" where
  "exception_added db db' x \<longleftrightarrow> check_billing_exception x \<and> beReservationID x \<notin> beReservationID ` set (billing_exceptions db) \<and>
     db' = db\<lparr>billing_exceptions := billing_exceptions db @ [x], next_id := next_id db + 1\<rparr>"

lemma exception_added_inv:
  assumes "exception_added db db' x" "exception_linked (ledger_reservations db) x" "ledger_inv db"
  shows "ledger_inv db'"
proof -
  have db': "db' = db\<lparr>billing_exceptions := billing_exceptions db @ [x], next_id := next_id db + 1\<rparr>"
    using assms(1) by (simp add: exception_added_def)
  have "books db'" using assms(3) entry_sum_same [of db' db] held_sum_same [of db' db]
    by (simp add: db' books_def ledger_inv_def)
  moreover have "owned db' = owned db" by (simp add: db' owned_def fun_eq_iff)
  ultimately show ?thesis using assms by (fastforce simp: inv_parts exception_added_def)
qed

lemma insert_billing_exception_Inr:
  assumes "insert_billing_exception db row = Inr (x, db')"
  shows "exception_added db db' x" "x = row\<lparr>beID := next_id db\<rparr>"
proof -
  have "x = row\<lparr>beID := next_id db\<rparr>" "check_billing_exception row"
    "beReservationID row \<notin> beReservationID ` set (billing_exceptions db)"
    "db' = db\<lparr>billing_exceptions := billing_exceptions db @ [row\<lparr>beID := next_id db\<rparr>], next_id := next_id db + 1\<rparr>"
    using assms by (auto simp: insert_billing_exception_def split: if_splits)
  then show "exception_added db db' x" "x = row\<lparr>beID := next_id db\<rparr>"
    by (simp_all add: exception_added_def check_billing_exception_def split: option.splits)
qed

text \<open>
  The specification of the overage step for an actual cost of \<open>x > units a\<close>: \<open>got\<close> units are collected, as much
  of the excess as the available balance has, under an entry of their own; what is still missing is
  written off.
\<close>

definition overage_entry :: "CaptureParams \<Rightarrow> LedgerReservation \<Rightarrow> int \<Rightarrow> LedgerEntry \<Rightarrow> bool" where
  "overage_entry params r got e \<longleftrightarrow> leAmount e = got \<and> leEntryType e = EntryTypeDebit \<and> entry_key e = res_key r \<and>
     leRequestRecordID e = Some (lrRequestRecordID r) \<and>
     leIdempotencyKey e = overageIdempotencyKey (caIdempotencyKey params)"

definition write_off :: "LedgerReservation \<Rightarrow> rat \<Rightarrow> int \<Rightarrow> LedgerBillingException \<Rightarrow> bool" where
  "write_off r x got ex \<longleftrightarrow> beReservationID ex = lrID r \<and> beUserID ex = lrUserID r \<and> beCurrency ex = lrCurrency r \<and>
     beRequestRecordID ex = lrRequestRecordID r \<and> beEventType ex = BillingExceptionEventTypeWriteOff \<and>
     beActualAmount ex = Some (round_half_away (x * 10 ^ 10)) \<and> beCapturedAmount ex = lrAuthorizedAmount r + got \<and>
     bePlatformAmount ex = round_half_away ((x - units (lrAuthorizedAmount r) - units got) * 10 ^ 10)"

definition overage_taken :: "CaptureParams \<Rightarrow> LedgerReservation \<Rightarrow> rat \<Rightarrow> int \<Rightarrow> db \<Rightarrow> db \<Rightarrow> bool" where
  "overage_taken params r x got db db' \<longleftrightarrow>
     got = max (min (fst (account db (res_key r)) - snd (account db (res_key r)))
              (round_half_away (x * 10 ^ 10) - lrAuthorizedAmount r)) 0 \<and>
     (\<exists>db1. (if 0 < got then \<exists>e. posted db db1 e \<and> overage_entry params r got e else idle db db1) \<and>
        (if units (lrAuthorizedAmount r + got) < x
         then \<exists>ex. exception_added db1 db' ex \<and> write_off r x got ex else db' = db1))"

lemma CreateLedgerWriteOffException_Inr:
  assumes "CreateLedgerWriteOffException now db arg = Inr (ex, db')" "numericRat (cwActualAmount arg) = Some x"
    and "numericRat (cwCapturedAmount arg) = Some (units a)" "cwOverageAmount arg = num got"
  shows "exception_added db db' ex" "beReservationID ex = cwReservationID arg" "beUserID ex = cwUserID arg"
    "beCurrency ex = cwCurrency arg" "beRequestRecordID ex = cwRequestRecordID arg" "beEventType ex = ''write_off''"
    "beActualAmount ex = Some (round_half_away (x * 10 ^ 10))" "beCapturedAmount ex = a + got"
    "bePlatformAmount ex = round_half_away ((x - units a - units got) * 10 ^ 10)"
proof -
  note binds = bind_num_finite [OF assms(2)] bind_num_finite [OF assms(3)]
  obtain act cap plat where act: "cast10 x = Inr act" and cap: "cast10 (units a + units got) = Inr cap"
    and plat: "cast10 (x - units a - units got) = Inr plat"
    and ins: "insert_billing_exception db
       \<lparr>beID = 0, beUserID = cwUserID arg, beRequestRecordID = cwRequestRecordID arg,
        beReservationID = cwReservationID arg, beEventType = ''write_off'', beActualAmount = Some act,
        beCapturedAmount = cap, bePlatformAmount = plat, beCurrency = cwCurrency arg,
        beReasonCode = cwReasonCode arg, beReason = cwReason arg, beCreatedAt = now\<rparr> = Inr (ex, db')"
    using assms(1) unfolding CreateLedgerWriteOffException_def binds assms(4) bind_num_num rbind_simps
    by (auto simp: rbind_Inr_iff simp del: cast10_units units_simps(2,3))
  have "cap = a + got" using cap by (simp split: if_splits)
  moreover note insert_billing_exception_Inr [OF ins]
  ultimately show "exception_added db db' ex" "beReservationID ex = cwReservationID arg" "beUserID ex = cwUserID arg"
    "beCurrency ex = cwCurrency arg" "beRequestRecordID ex = cwRequestRecordID arg" "beEventType ex = ''write_off''"
    "beActualAmount ex = Some (round_half_away (x * 10 ^ 10))" "beCapturedAmount ex = a + got"
    "bePlatformAmount ex = round_half_away ((x - units a - units got) * 10 ^ 10)"
    using act plat by (simp_all add: cast10_Inr del: units_simps(2,3))
qed

lemma capture_overage_inv:
  assumes "capture_overage env db params r after c = Inr (ov, db')" "numericRat (caActualAmount params) = Some x"
    and "numericRat c = Some (units (lrAuthorizedAmount r))" "ubBalance after = fst (account db (res_key r))"
    and "balances_ok db"
  obtains got where "ov = num got" "overage_taken params r x got db db'"
proof -
  let ?a = "lrAuthorizedAmount r" and ?k = "overageIdempotencyKey (caIdempotencyKey params)"
  obtain bal got db1 where col: "CollectUserBalanceOverage (clock env) db (caActualAmount params) (num ?a)
      (lrUserID r) (lrCurrency r) = Inr ((bal, got), db1)" and ov: "ov = num got"
    and ent: "\<exists>db2. (if isPositiveNumeric (num got) then
        \<exists>e. CreateLedgerEntry (clock env) db1
            \<lparr>ceUserID = lrUserID r, ceRequestRecordID = Some (lrRequestRecordID r),
             ceEntryType = EntryTypeDebit, ceAmount = num got, ceCurrency = lrCurrency r,
             ceBalanceBefore = num (ubBalance after), ceBalanceAfter = num (ubBalance bal),
             ceIdempotencyKey = ?k, ceReason = caReason params @ '' (overage)''\<rparr> = Inr (e, db2)
        else db2 = db1) \<and>
      (if numericGreaterThan (caActualAmount params) (numericAdd c (num got))
       then \<exists>ex. CreateLedgerWriteOffException (clock env) db2
            \<lparr>cwUserID = lrUserID r, cwRequestRecordID = lrRequestRecordID r,
             cwReservationID = lrID r, cwActualAmount = caActualAmount params,
             cwCapturedAmount = c, cwOverageAmount = num got,
             cwCurrency = lrCurrency r, cwReasonCode = ''authorization_underfunded'',
             cwReason = ''actual amount exceeded authorized amount and available balance''\<rparr> = Inr (ex, db')
       else db' = db2)"
    using assms(1) unfolding capture_overage_def Let_def
    by (elim fail_caseE pair_caseE) (auto simp: store_call_Inr split: if_splits elim!: fail_caseE)
  obtain t where t: "cast_param (caActualAmount params) = Inr t"
    and got: "got = max (least_opt (fst (account db (res_key r)) - snd (account db (res_key r))) (map_option (\<lambda>y. y - ?a) t)) 0"
    and set: "balance_set db db1 (res_key r) (fst (account db (res_key r)) - got) (snd (account db (res_key r)))"
    and bal: "ubBalance bal = fst (account db (res_key r)) - got"
    using CollectUserBalanceOverage_Inr [OF col] by blast
  have got': "got = max (min (fst (account db (res_key r)) - snd (account db (res_key r)))
      (round_half_away (x * 10 ^ 10) - ?a)) 0"
    using got cast_param_Inr [OF assms(2) t] by (simp add: least_opt_def)
  note acc = account_ok [OF assms(5), of "res_key r"]
  have fits: "fits (fst (account db (res_key r)) - got)"
    using acc got' balance_set_frame(2,3) [OF set] by (auto simp: fits_def)
  obtain db2 where db2: "if isPositiveNumeric (num got) then
        \<exists>e. CreateLedgerEntry (clock env) db1
            \<lparr>ceUserID = lrUserID r, ceRequestRecordID = Some (lrRequestRecordID r),
             ceEntryType = EntryTypeDebit, ceAmount = num got, ceCurrency = lrCurrency r,
             ceBalanceBefore = num (ubBalance after), ceBalanceAfter = num (ubBalance bal),
             ceIdempotencyKey = ?k, ceReason = caReason params @ '' (overage)''\<rparr> = Inr (e, db2)
        else db2 = db1"
    and ex: "if numericGreaterThan (caActualAmount params) (numericAdd c (num got))
       then \<exists>ex. CreateLedgerWriteOffException (clock env) db2
            \<lparr>cwUserID = lrUserID r, cwRequestRecordID = lrRequestRecordID r,
             cwReservationID = lrID r, cwActualAmount = caActualAmount params,
             cwCapturedAmount = c, cwOverageAmount = num got,
             cwCurrency = lrCurrency r, cwReasonCode = ''authorization_underfunded'',
             cwReason = ''actual amount exceeded authorized amount and available balance''\<rparr> = Inr (ex, db')
       else db' = db2"
    using ent by blast
  have same: "same_tables db db" by (simp add: same_tables_def)
  have one: "if 0 < got then \<exists>e. posted db db2 e \<and> overage_entry params r got e else idle db db2"
  proof (cases "0 < got")
    case True
    then obtain e where e: "CreateLedgerEntry (clock env) db1
            \<lparr>ceUserID = lrUserID r, ceRequestRecordID = Some (lrRequestRecordID r),
             ceEntryType = EntryTypeDebit, ceAmount = num got, ceCurrency = lrCurrency r,
             ceBalanceBefore = num (ubBalance after), ceBalanceAfter = num (ubBalance bal),
             ceIdempotencyKey = ?k, ceReason = caReason params @ '' (overage)''\<rparr> = Inr (e, db2)"
      using db2 by (auto simp: isPositiveNumeric_val)
    note ce = CreateLedgerEntry_Inr [OF e, simplified]
    have key: "entry_key e = res_key r" using ce by (simp add: entry_key_def)
    have "posted db db2 e"
      using ce bal assms(4) by (intro postedI [OF set fits same refl _ ce(1) key]) auto
    moreover have "overage_entry params r got e"
      using ce key by (auto simp: overage_entry_def split: if_splits)
    ultimately show ?thesis using True by auto
  next
    case False
    then have "got = 0" using got' by simp
    then have "idle db db2"
      using db2 balance_set_frame(1) [OF set] balance_set_account [OF set] balance_set_ok [OF set _ fits]
      by (auto simp: isPositiveNumeric_val idle_def)
    with False show ?thesis by simp
  qed
  have "numericRat (numericAdd c (num got)) = Some (units (?a + got))"
    using numericAdd_val [OF assms(3), of "num got" "units got"] by simp
  then have gt: "numericGreaterThan (caActualAmount params) (numericAdd c (num got)) \<longleftrightarrow> units (?a + got) < x"
    using numericGreaterThan_val [OF assms(2)] by blast
  have two: "if units (?a + got) < x then \<exists>ex. exception_added db2 db' ex \<and> write_off r x got ex else db' = db2"
  proof (cases "units (?a + got) < x")
    case True
    then obtain ex where w: "CreateLedgerWriteOffException (clock env) db2
            \<lparr>cwUserID = lrUserID r, cwRequestRecordID = lrRequestRecordID r,
             cwReservationID = lrID r, cwActualAmount = caActualAmount params,
             cwCapturedAmount = c, cwOverageAmount = num got,
             cwCurrency = lrCurrency r, cwReasonCode = ''authorization_underfunded'',
             cwReason = ''actual amount exceeded authorized amount and available balance''\<rparr> = Inr (ex, db')"
      using ex gt by auto
    from CreateLedgerWriteOffException_Inr [OF w, simplified, OF assms(2,3) refl] True show ?thesis
      by (auto simp: write_off_def)
  next
    case False
    with ex gt show ?thesis by simp
  qed
  from one two got' have "overage_taken params r x got db db'"
    unfolding overage_taken_def by blast
  with ov show ?thesis by (rule that)
qed

subsection \<open>The first capture\<close>

lemma capture_authorized_inv:
  assumes "capture_authorized env db params r c over = Inr (rv, db')" "ledger_inv db"
    and "r \<in> set (ledger_reservations db)" "numericRat (caActualAmount params) = Some x"
    and "c = numericMin (caActualAmount params) (num (lrAuthorizedAmount r))"
    and "over = numericGreaterThan (caActualAmount params) (num (lrAuthorizedAmount r))"
  obtains r' e db3 where "captured db db3 r r' e" "leIdempotencyKey e = caIdempotencyKey params"
    "lrCapturedAmount r' = round_half_away (min x (units (lrAuthorizedAmount r)) * 10 ^ 10)"
    "if units (lrAuthorizedAmount r) < x
     then \<exists>got. rv = (reservationFromSQLC r')\<lparr>rvOverageCapturedAmount := num got\<rparr> \<and> overage_taken params r x got db3 db'
     else rv = (reservationFromSQLC r')\<lparr>rvOverageCapturedAmount := numericZero\<rparr> \<and> db' = db3"
proof -
  let ?a = "lrAuthorizedAmount r"
  have c: "numericRat c = Some (min x (units ?a))"
    using numericMin_val [OF assms(4), of "num ?a" "units ?a"] assms(5) by simp
  have over: "over \<longleftrightarrow> units ?a < x"
    using numericGreaterThan_val [OF assms(4), of "num ?a" "units ?a"] assms(6) by simp
  obtain before after db1 e db2 r' db3 ov where before: "GetUserBalanceForUpdate db (lrUserID r) (lrCurrency r) = Inr before"
    and cap: "CaptureUserReservedBalance (clock env) db c (num ?a) (lrUserID r) (lrCurrency r) = Inr (after, db1)"
    and ent: "CreateLedgerEntry (clock env) db1
               \<lparr>ceUserID = lrUserID r, ceRequestRecordID = Some (lrRequestRecordID r),
                ceEntryType = EntryTypeDebit, ceAmount = c, ceCurrency = lrCurrency r,
                ceBalanceBefore = num (ubBalance before), ceBalanceAfter = num (ubBalance after),
                ceIdempotencyKey = caIdempotencyKey params, ceReason = caReason params\<rparr> = Inr (e, db2)"
    and row: "CaptureLedgerReservation (clock env) db2 c (Some (leID e)) (lrID r) = Inr (r', db3)"
    and ovr: "(if over then capture_overage env db3 params r after c else Inr (numericZero, db3)) = Inr (ov, db')"
    and rv: "rv = (reservationFromSQLC r')\<lparr>rvOverageCapturedAmount := ov\<rparr>"
    using assms(1) unfolding capture_authorized_def
    by (elim fail_caseE pair_caseE) (auto simp: store_call_Inr)
  obtain bal where set: "balance_set db db1 (res_key r) bal (snd (account db (res_key r)) - ?a)" "fits bal" "ubBalance after = bal"
    using CaptureUserReservedBalance_Inr [OF cap] by metis
  note frame = balance_set_frame [OF set(1)]
  note ce = CreateLedgerEntry_Inr [OF ent, simplified]
  have key: "entry_key e = res_key r" using ce by (simp add: entry_key_def)
  have amt: "leAmount e = round_half_away (min x (units ?a) * 10 ^ 10)"
    using ce(2) c by (auto simp: bind_col10)
  have db2: "db2 = db1\<lparr>ledger_entries := ledger_entries db1 @ [e], next_id := next_id db1 + 1\<rparr>"
    using ce(1) by (simp add: entry_added_def)
  have check: "check_ledger_entry e" "leIdempotencyKey e \<notin> entry_keys db" "leID e = next_id db1"
    using ce(1) frame(1) by (simp_all add: entry_added_def entry_keys_def same_tables_def)
  have before': "leBalanceBefore e = fst (account db (res_key r))" and after': "leBalanceAfter e = bal"
    using ce GetUserBalance_account(1) [OF before] set(3) by simp_all
  have bal: "bal = fst (account db (res_key r)) - leAmount e"
    using check_entry_signed(1) [OF check(1)] debit_signed [of e] ce before' after' by simp
  have res: "ledger_reservations db2 = ledger_reservations db" using frame(1) by (simp add: db2 same_tables_def)
  have dist: "distinct (map lrID (ledger_reservations db2))" using assms(2) by (simp add: res inv_parts)
  note up = CaptureLedgerReservation_Inr [OF row dist assms(3) [folded res] c]
  have acc: "account db3 = (account db)(res_key r :=
      (fst (account db (res_key r)) - leAmount e, snd (account db (res_key r)) - ?a))"
    using balance_set_account [OF set(1)] by (simp add: up(5) db2 bal)
  have okb: "balances_ok db \<longrightarrow> balances_ok db3"
    using balance_set_ok [OF set(1) _ set(2)] by (simp add: up(5) db2)
  have linked: "capture_linked [e] r'"
    using up key ce amt by (simp add: capture_linked_def same_hold_def)
  have settled: "settled_row db db3 r r'"
    using up assms(3) frame(1) by (simp add: settled_row_def db2 res same_tables_def)
  have cap3: "captured db db3 r r' e"
    unfolding captured_def
    using settled up(2) linked key ce check frame acc okb by (simp add: up(5) db2 same_tables_def)
  have "if units ?a < x
     then \<exists>got. rv = (reservationFromSQLC r')\<lparr>rvOverageCapturedAmount := num got\<rparr> \<and> overage_taken params r x got db3 db'
     else rv = (reservationFromSQLC r')\<lparr>rvOverageCapturedAmount := numericZero\<rparr> \<and> db' = db3"
  proof (cases "units ?a < x")
    case True
    then have ov: "capture_overage env db3 params r after c = Inr (ov, db')" using ovr over by simp
    have "numericRat c = Some (units ?a)" using c True by simp
    moreover have "ubBalance after = fst (account db3 (res_key r))" using set(3) bal by (simp add: acc)
    moreover have "balances_ok db3" using okb assms(2) by (simp add: ledger_inv_def)
    ultimately obtain got where "ov = num got" "overage_taken params r x got db3 db'"
      using capture_overage_inv [OF ov assms(4)] by blast
    with True rv show ?thesis by auto
  next
    case False
    with ovr over rv show ?thesis by simp
  qed
  with cap3 ce(7) up(7) show ?thesis using that by blast
qed

subsection \<open>Every operation keeps the books\<close>

lemma overage_taken_inv:
  assumes "overage_taken params r x got db db'" "ledger_inv db" "r' \<in> set (ledger_reservations db)"
    and "same_hold r r'" "lrStatus r' = ReservationStatusCaptured"
  shows "ledger_inv db'" "ledger_reservations db' = ledger_reservations db"
proof -
  obtain db1 where one: "if 0 < got then \<exists>e. posted db db1 e \<and> overage_entry params r got e else idle db db1"
    and two: "if units (lrAuthorizedAmount r + got) < x
      then \<exists>ex. exception_added db1 db' ex \<and> write_off r x got ex else db' = db1"
    using assms(1) by (auto simp: overage_taken_def)
  have db1: "ledger_inv db1 \<and> ledger_reservations db1 = ledger_reservations db"
  proof (cases "0 < got")
    case True
    then obtain e where "posted db db1 e" using one by auto
    then show ?thesis using posted_inv [OF _ assms(2)] by (simp add: posted_def)
  next
    case False
    then have "idle db db1" using one by simp
    then show ?thesis using idle_inv [OF _ assms(2)] by (simp add: idle_def same_tables_def)
  qed
  have "exception_linked (ledger_reservations db1) ex" if "write_off r x got ex" for ex
    using that assms(3-5) db1 by (auto simp: exception_linked_def write_off_def same_hold_def)
  then have "ledger_inv db' \<and> ledger_reservations db' = ledger_reservations db1"
    using two db1 exception_added_inv by (auto simp: exception_added_def split: if_splits)
  with db1 show "ledger_inv db'" "ledger_reservations db' = ledger_reservations db" by simp_all
qed

text \<open>The two ways a capture succeeds.\<close>

lemma captureWithQueries_inv:
  assumes "captureWithQueries env db params = Inr (rv, db')" "ledger_inv db"
  obtains (replay) r where "r \<in> set (ledger_reservations db)" "lrRequestRecordID r = caRequestRecordID params"
      "lrStatus r = ReservationStatusCaptured" "db' = db"
      "capture_replay env db params r (numericMin (caActualAmount params) (num (lrAuthorizedAmount r))) = Inr rv"
  | (captured) r r' e db3 x where "lrRequestRecordID r = caRequestRecordID params"
      "numericRat (caActualAmount params) = Some x" "0 < x"
      "captured db db3 r r' e" "leIdempotencyKey e = caIdempotencyKey params"
      "lrCapturedAmount r' = round_half_away (min x (units (lrAuthorizedAmount r)) * 10 ^ 10)"
      "if units (lrAuthorizedAmount r) < x
       then \<exists>got. rv = (reservationFromSQLC r')\<lparr>rvOverageCapturedAmount := num got\<rparr> \<and> overage_taken params r x got db3 db'
       else rv = (reservationFromSQLC r')\<lparr>rvOverageCapturedAmount := numericZero\<rparr> \<and> db' = db3"
proof -
  have pos: "isPositiveNumeric (caActualAmount params)"
    using assms(1) by (auto simp: captureWithQueries_def split: if_splits)
  then obtain x where x: "numericRat (caActualAmount params) = Some x" "0 < x" by (auto simp: isPositiveNumeric_val)
  obtain r where r: "GetLedgerReservationByRequestRecordIDForUpdate db (caRequestRecordID params) = Inr r"
    and rest: "(if lrStatus r = ReservationStatusCaptured then
        rbind (capture_replay env db params r (numericMin (caActualAmount params) (num (lrAuthorizedAmount r)))) (\<lambda>rv. Inr (rv, db))
      else capture_authorized env db params r (numericMin (caActualAmount params) (num (lrAuthorizedAmount r)))
        (numericGreaterThan (caActualAmount params) (num (lrAuthorizedAmount r)))) = Inr (rv, db')"
    using assms(1) pos unfolding captureWithQueries_def Let_def
    by (auto simp: store_call_Inr split: if_splits elim!: fail_caseE)
  have mem: "r \<in> set (ledger_reservations db)" "lrRequestRecordID r = caRequestRecordID params"
    using request_reservations.lookup_Inr [OF r] by auto
  show ?thesis
  proof (cases "lrStatus r = ReservationStatusCaptured")
    case True
    with rest mem show ?thesis by (intro replay) (auto elim: rbind_InrE)
  next
    case False
    with rest have "capture_authorized env db params r (numericMin (caActualAmount params) (num (lrAuthorizedAmount r)))
        (numericGreaterThan (caActualAmount params) (num (lrAuthorizedAmount r))) = Inr (rv, db')" by simp
    from capture_authorized_inv [OF this assms(2) mem(1) x(1) refl refl] show ?thesis
      using captured [OF mem(2) x] by metis
  qed
qed

lemma captured_row:
  assumes "captured db db' r r' e"
  shows "r' \<in> set (ledger_reservations db')" "same_hold r r'" "lrStatus r' = ReservationStatusCaptured"
proof -
  have rs: "ledger_reservations db' = map (\<lambda>x. if lrID x = lrID r' then r' else x) (ledger_reservations db)"
    and r: "r \<in> set (ledger_reservations db)" and same: "same_hold r r'" and st: "lrStatus r' = ReservationStatusCaptured"
    using assms by (simp_all add: captured_def settled_row_def)
  have "(\<lambda>x. if lrID x = lrID r' then r' else x) r = r'" using same by (simp add: same_hold_def)
  then show "r' \<in> set (ledger_reservations db')" using r unfolding rs set_map by (rule image_eqI [OF sym])
  show "same_hold r r'" "lrStatus r' = ReservationStatusCaptured" by (fact same st)+
qed

lemma captureWithQueries_keeps:
  assumes "captureWithQueries env db params = Inr (rv, db')" "ledger_inv db"
  shows "ledger_inv db'"
  using assms
proof (cases rule: captureWithQueries_inv)
  case (captured r r' e db3 x)
  have "ledger_inv db3" by (rule captured_inv [OF captured(4) assms(2)])
  then show ?thesis
    using captured(7) overage_taken_inv(1) [OF _ _ captured_row [OF captured(4)]] by (auto split: if_splits)
qed (use assms in simp)

lemma releaseWithQueries_keeps:
  assumes "releaseWithQueries env db params = Inr (rv, db')" "ledger_inv db"
  shows "ledger_inv db'"
  using assms by (cases rule: releaseWithQueries_inv) (use assms released_inv in auto)

lemma commit_keeps:
  "commit_tx env msg db db1 x = (r, db') \<Longrightarrow> ledger_inv db \<Longrightarrow> ledger_inv db1 \<Longrightarrow> ledger_inv db'"
  using commit_posted(1) [of env msg db db1 x r db'] by auto

lemma creditWithType_keeps: "creditWithType env seen db params t = (r, db') \<Longrightarrow> ledger_inv db \<Longrightarrow> ledger_inv db'"
  by (erule creditWithType_cases) (auto intro: posted_inv)

lemma debitWithQueriesType_keeps:
  "debitWithQueriesType env seen db params t = Inr (x, db') \<Longrightarrow> ledger_inv db \<Longrightarrow> ledger_inv db'"
  by (erule debitWithQueriesType_cases) (auto intro: posted_inv)

lemma debitTx_keeps: "debitTx env seen db params t = (r, db') \<Longrightarrow> ledger_inv db \<Longrightarrow> ledger_inv db'"
  by (erule debitTx_cases) (auto intro: posted_inv)

lemma PreAuthorize_keeps: "PreAuthorize env seen db params = (r, db') \<Longrightarrow> ledger_inv db \<Longrightarrow> ledger_inv db'"
  by (erule PreAuthorize_inv) (auto intro: commit_keeps reserved_inv)

lemma Capture_keeps:
  assumes "Capture env db params = (r, db')" "ledger_inv db"
  shows "ledger_inv db'"
proof -
  consider "db' = db" | rv db1 where "captureWithQueries env db params = Inr (rv, db1)"
    "commit_tx env ''commit ledger transaction'' db db1 rv = (r, db')"
    using assms(1) unfolding Capture_def by (elim return_caseE pair_caseE) simp_all
  then show ?thesis
  proof cases
    case 2
    show ?thesis by (rule commit_keeps [OF 2(2) assms(2) captureWithQueries_keeps [OF 2(1) assms(2)]])
  qed (use assms in simp)
qed

lemma Release_keeps:
  assumes "Release env db params = (r, db')" "ledger_inv db"
  shows "ledger_inv db'"
proof -
  consider "db' = db" | rv db1 where "releaseWithQueries env db params = Inr (rv, db1)"
    "commit_tx env ''commit ledger transaction'' db db1 rv = (r, db')"
    using assms(1) unfolding Release_def by (elim return_caseE pair_caseE) simp_all
  then show ?thesis
  proof cases
    case 2
    show ?thesis by (rule commit_keeps [OF 2(2) assms(2) releaseWithQueries_keeps [OF 2(1) assms(2)]])
  qed (use assms in simp)
qed

lemma CreateLedgerRiskExposureException_Inr:
  assumes "CreateLedgerRiskExposureException now db arg = Inr (x, db')"
  obtains "db' = db" | "exception_added db db' x" "beReservationID x = cxReservationID arg" "beUserID x = cxUserID arg"
    "beCurrency x = cxCurrency arg" "beRequestRecordID x = cxRequestRecordID arg" "beActualAmount x = None"
    "rbind (bind_num (cxPlatformAmount arg)) col10 = Inr (bePlatformAmount x)"
proof -
  obtain p where p: "rbind (bind_num (cxPlatformAmount arg)) col10 = Inr p"
    using assms by (auto simp: CreateLedgerRiskExposureException_def elim: rbind_InrE)
  let ?row = "\<lparr>beID = 0, beUserID = cxUserID arg, beRequestRecordID = cxRequestRecordID arg,
         beReservationID = cxReservationID arg, beEventType = ''risk_exposure'', beActualAmount = None,
         beCapturedAmount = 0, bePlatformAmount = p, beCurrency = cxCurrency arg,
         beReasonCode = cxReasonCode arg, beReason = cxReason arg, beCreatedAt = now\<rparr>"
  have "db' = db \<or> insert_billing_exception db ?row = Inr (x, db')"
    using assms p by (auto simp: CreateLedgerRiskExposureException_def Let_def split: if_splits option.splits)
  then show ?thesis
  proof
    assume ins: "insert_billing_exception db ?row = Inr (x, db')"
    show ?thesis using insert_billing_exception_Inr [OF ins] p by (intro that(2)) simp_all
  qed (rule that(1))
qed

lemma releaseWithQueries_row:
  assumes "releaseWithQueries env db params = Inr (rv, db')" "ledger_inv db"
  obtains r where "r \<in> set (ledger_reservations db')" "lrStatus r = ReservationStatusReleased" "rv = reservationFromSQLC r"
  using assms
proof (cases rule: releaseWithQueries_inv)
  case (released r r')
  then have "r' \<in> set (ledger_reservations db')"
    by (auto simp: released_def settled_row_def same_hold_def intro!: image_eqI [of _ _ r])
  with released that show ?thesis by (auto simp: released_def)
qed (use that in blast)

lemma ReleaseWithBillingException_keeps:
  assumes "ReleaseWithBillingException env db params = (r, db')" "ledger_inv db"
  shows "ledger_inv db'"
proof -
  let ?p = "\<lparr>rlRequestRecordID = rbRequestRecordID params, rlReservationID = rbReservationID params\<rparr>"
  let ?arg = "\<lambda>rel. \<lparr>cxUserID = rvUserID rel, cxRequestRecordID = rvRequestRecordID rel,
                cxReservationID = rvID rel, cxPlatformAmount = rvAuthorizedAmount rel,
                cxCurrency = rvCurrency rel, cxReasonCode = rbReasonCode params, cxReason = rbReason params\<rparr>"
  consider "db' = db" | rel db1 x db2 where "releaseWithQueries env db ?p = Inr (rel, db1)"
    "CreateLedgerRiskExposureException (clock env) db1 (?arg rel) = Inr (x, db2)"
    "commit_tx env ''commit ledger billing exception transaction'' db db2 rel = (r, db')"
    using assms(1) unfolding ReleaseWithBillingException_def
    by (elim return_caseE pair_caseE) (simp_all only: store_call_Inr)
  then show ?thesis
  proof cases
    case 2
    have db1: "ledger_inv db1" by (rule releaseWithQueries_keeps [OF 2(1) assms(2)])
    obtain row where row: "row \<in> set (ledger_reservations db1)" "lrStatus row = ReservationStatusReleased"
      "rel = reservationFromSQLC row" using releaseWithQueries_row [OF 2(1) assms(2)] by blast
    have "ledger_inv db2"
      using 2(2)
    proof (cases rule: CreateLedgerRiskExposureException_Inr)
      case 2
      then have "exception_linked (ledger_reservations db1) x"
        using row by (auto simp: exception_linked_def reservationFromSQLC_def)
      then show ?thesis using exception_added_inv 2(1) db1 by blast
    qed (use db1 in simp)
    then show ?thesis using commit_keeps [OF 2(3) assms(2)] by simp
  qed (use assms in simp)
qed

end
