(* ===== verification/Transitions.thy ===== *)
theory Transitions
  imports Main
begin

text \<open>
  Interfaces of the state machines: what an invariant, an append-only set of facts and a relation that every step
  keeps give for all states a run reaches. The ledgers and the price tables interpret them.
\<close>

locale transition_system =
  fixes step :: "'s \<Rightarrow> 's \<Rightarrow> bool" and inv :: "'s \<Rightarrow> bool"
  assumes step_inv: "step s s' \<Longrightarrow> inv s \<Longrightarrow> inv s'"
begin

lemma reach_inv: "step\<^sup>*\<^sup>* s s' \<Longrightarrow> inv s \<Longrightarrow> inv s'"
  by (induction rule: rtranclp_induct) (auto intro: step_inv)

end

locale fact_log = transition_system +
  fixes facts :: "'a \<Rightarrow> 'b set"
  assumes step_facts: "step s s' \<Longrightarrow> inv s \<Longrightarrow> facts s \<subseteq> facts s'"
begin

lemma reach_facts:
  assumes "step\<^sup>*\<^sup>* s s'" "inv s"
  shows "facts s \<subseteq> facts s'"
  using assms
proof (induction rule: rtranclp_induct)
  case (step t u)
  then have "facts t \<subseteq> facts u" using step_facts reach_inv by blast
  with step show ?case by blast
qed simp

lemma fact_kept: "step\<^sup>*\<^sup>* s s' \<Longrightarrow> inv s \<Longrightarrow> x \<in> facts s \<Longrightarrow> x \<in> facts s'"
  using reach_facts by blast

end

locale step_relation = transition_system +
  fixes rel :: "'a \<Rightarrow> 'a \<Rightarrow> bool"
  assumes rel_refl: "rel s s" and rel_trans: "rel s t \<Longrightarrow> rel t u \<Longrightarrow> rel s u"
    and step_rel: "step s s' \<Longrightarrow> inv s \<Longrightarrow> rel s s'"
begin

lemma reach_rel:
  assumes "step\<^sup>*\<^sup>* s s'" "inv s"
  shows "rel s s'"
  using assms
proof (induction rule: rtranclp_induct)
  case base
  show ?case by (rule rel_refl)
next
  case (step t u)
  then have "rel t u" using step_rel reach_inv by blast
  with step show ?case using rel_trans by blast
qed

end

end
