(* ===== verification/Ledger_Machine.thy ===== *)
theory Ledger_Machine
  imports Ledger_Books Transitions
begin

text \<open>
  The ledger as a state machine: any sequence of its operations, with any parameters, any store failure,
  any commit outcome and any outdated view at the lookups (so every interleaving of
  transactions whose locks serialise their writes), and new users and requests arriving in between. The
  interfaces of \<^theory_text>\<open>Transitions\<close> prove once what an invariant and an append-only set of facts give for
  all reachable states; the ledger interprets them.
\<close>

subsection \<open>Steps\<close>

inductive ledger_step :: "db \<Rightarrow> db \<Rightarrow> bool" where
  credit: "Credit env seen db params = (r, db') \<Longrightarrow> ledger_step db db'"
| adjust_credit: "AdjustCredit env seen db adjust = (r, db') \<Longrightarrow> ledger_step db db'"
| debit: "Debit env seen db params = (r, db') \<Longrightarrow> ledger_step db db'"
| adjust_debit: "AdjustDebit env seen db adjust = (r, db') \<Longrightarrow> ledger_step db db'"
| debit_in_tx: "DebitWithQueries env seen db params = Inr (x, db') \<Longrightarrow> ledger_step db db'"
| pre_authorize: "PreAuthorize env seen db hold = (rv, db') \<Longrightarrow> ledger_step db db'"
| capture: "Capture env db cap = (rv, db') \<Longrightarrow> ledger_step db db'"
| capture_in_tx: "CaptureWithQueries env db cap = Inr (y, db') \<Longrightarrow> ledger_step db db'"
| release: "Release env db rel = (rv, db') \<Longrightarrow> ledger_step db db'"
| release_in_tx: "ReleaseWithQueries env db rel = Inr (y, db') \<Longrightarrow> ledger_step db db'"
| release_exception: "ReleaseWithBillingException env db exc = (rv, db') \<Longrightarrow> ledger_step db db'"
| new_user: "ledger_step db (db\<lparr>users := u # users db\<rparr>)"
| new_request: "ledger_step db (db\<lparr>requests := q # requests db\<rparr>)"

definition empty_db :: db where
  "empty_db = \<lparr>users = [], requests = [], user_balances = [], ledger_entries = [], ledger_reservations = [],
     billing_exceptions = [], next_id = 1\<rparr>"

definition ledger_reachable :: "db \<Rightarrow> bool" where
  "ledger_reachable db \<longleftrightarrow> ledger_step\<^sup>*\<^sup>* empty_db db"

text \<open>What one step does to the tables, in terms of the specifications of the operations.\<close>

inductive ledger_effect :: "db \<Rightarrow> db \<Rightarrow> bool" where
  none: "ledger_effect db db"
| post: "posted db db' e \<Longrightarrow> ledger_effect db db'"
| hold: "reserved db db' r \<Longrightarrow> ledger_effect db db'"
| free: "released db db' r r' \<Longrightarrow> ledger_effect db db'"
| free_exposed: "released db db1 r r' \<Longrightarrow> exception_added db1 db' x \<Longrightarrow>
    exception_linked (ledger_reservations db1) x \<Longrightarrow> beActualAmount x = None \<Longrightarrow> ledger_effect db db'"
| expose: "exception_added db db' x \<Longrightarrow> exception_linked (ledger_reservations db) x \<Longrightarrow>
    beActualAmount x = None \<Longrightarrow> ledger_effect db db'"
| take: "captured db db' r r' e \<Longrightarrow> ledger_effect db db'"
| take_more: "captured db db1 r r' e \<Longrightarrow> overage_taken params r x got db1 db' \<Longrightarrow> ledger_effect db db'"
| outside: "db' = db\<lparr>users := us, requests := qs\<rparr> \<Longrightarrow> set (users db) \<subseteq> set us \<Longrightarrow>
    set (requests db) \<subseteq> set qs \<Longrightarrow> ledger_effect db db'"

lemma commit_effect:
  "commit_tx env msg db db1 x = (r, db') \<Longrightarrow> ledger_effect db db1 \<Longrightarrow> ledger_effect db db'"
  using commit_posted(1) [of env msg db db1 x r db'] by (auto intro: none)

lemma credit_effect: "creditWithType env seen db params t = (r, db') \<Longrightarrow> ledger_effect db db'"
  by (erule creditWithType_cases) (auto intro: ledger_effect.intros)

lemma debit_effect: "debitTx env seen db params t = (r, db') \<Longrightarrow> ledger_effect db db'"
  by (erule debitTx_cases) (auto intro: ledger_effect.intros)

lemma debit_in_tx_effect: "debitWithQueriesType env seen db params t = Inr (x, db') \<Longrightarrow> ledger_effect db db'"
  by (erule debitWithQueriesType_cases) (auto intro: ledger_effect.intros)

lemma pre_authorize_effect: "PreAuthorize env seen db params = (r, db') \<Longrightarrow> ledger_effect db db'"
  by (erule PreAuthorize_inv) (auto intro: ledger_effect.intros commit_effect)

lemma capture_effect:
  assumes "captureWithQueries env db params = Inr (rv, db')" "ledger_inv db"
  shows "ledger_effect db db'"
  using assms
proof (cases rule: captureWithQueries_inv)
  case (captured r r' e db3 x)
  then show ?thesis by (auto intro: take take_more split: if_splits)
qed (auto intro: none)

lemma release_effect:
  assumes "releaseWithQueries env db params = Inr (rv, db')" "ledger_inv db"
  shows "ledger_effect db db'"
  using assms by (cases rule: releaseWithQueries_inv) (auto intro: none free)

lemma run_capture:
  assumes "Capture env db params = (r, db')"
  obtains "db' = db" | rv db1 where "captureWithQueries env db params = Inr (rv, db1)"
    "commit_tx env ''commit ledger transaction'' db db1 rv = (r, db')"
  using assms unfolding Capture_def by (elim return_caseE pair_caseE) simp_all

lemma run_release:
  assumes "Release env db params = (r, db')"
  obtains "db' = db" | rv db1 where "releaseWithQueries env db params = Inr (rv, db1)"
    "commit_tx env ''commit ledger transaction'' db db1 rv = (r, db')"
  using assms unfolding Release_def by (elim return_caseE pair_caseE) simp_all

lemma run_release_exception:
  assumes "ReleaseWithBillingException env db params = (r, db')"
  obtains "db' = db" | rel db1 x db2 where
    "releaseWithQueries env db \<lparr>rlRequestRecordID = rbRequestRecordID params, rlReservationID = rbReservationID params\<rparr>
       = Inr (rel, db1)"
    "CreateLedgerRiskExposureException (clock env) db1
       \<lparr>cxUserID = rvUserID rel, cxRequestRecordID = rvRequestRecordID rel,
        cxReservationID = rvID rel, cxPlatformAmount = rvAuthorizedAmount rel,
        cxCurrency = rvCurrency rel, cxReasonCode = rbReasonCode params, cxReason = rbReason params\<rparr> = Inr (x, db2)"
    "commit_tx env ''commit ledger billing exception transaction'' db db2 rel = (r, db')"
  using assms unfolding ReleaseWithBillingException_def
  by (elim return_caseE pair_caseE) (simp_all only: store_call_Inr)

lemma release_exception_effect:
  assumes "ReleaseWithBillingException env db params = (r, db')" "ledger_inv db"
  shows "ledger_effect db db'"
  using assms(1)
proof (cases rule: run_release_exception)
  case 1
  then show ?thesis by (simp add: none)
next
  case (2 rel db1 x db2)
  obtain row where row: "row \<in> set (ledger_reservations db1)" "lrStatus row = ReservationStatusReleased"
    "rel = reservationFromSQLC row" using releaseWithQueries_row [OF 2(1) assms(2)] by blast
  have x: "db2 = db1 \<or> exception_added db1 db2 x \<and> exception_linked (ledger_reservations db1) x \<and> beActualAmount x = None"
    using 2(2)
  proof (cases rule: CreateLedgerRiskExposureException_Inr)
    case 2
    then have "exception_linked (ledger_reservations db1) x"
      using row by (auto simp: exception_linked_def reservationFromSQLC_def)
    with 2 show ?thesis by simp
  qed simp
  have "ledger_effect db db2"
    using 2(1) assms(2)
  proof (cases rule: releaseWithQueries_inv)
    case (replay r)
    from x show ?thesis unfolding replay(5) using none expose by (elim disjE conjE) simp_all
  next
    case (released r r')
    from x show ?thesis using free [OF released(2)] free_exposed [OF released(2)] by (elim disjE conjE) simp_all
  qed
  with 2(3) show ?thesis by (rule commit_effect)
qed

lemma run_effects:
  "Capture env db params = (r, db') \<Longrightarrow> ledger_inv db \<Longrightarrow> ledger_effect db db'"
  "Release env db rel = (r, db') \<Longrightarrow> ledger_inv db \<Longrightarrow> ledger_effect db db'"
proof -
  assume a: "Capture env db params = (r, db')" "ledger_inv db"
  from a(1) show "ledger_effect db db'"
  proof (cases rule: run_capture)
    case (2 rv db1)
    show ?thesis by (rule commit_effect [OF 2(2) capture_effect [OF 2(1) a(2)]])
  qed (simp add: none)
next
  assume a: "Release env db rel = (r, db')" "ledger_inv db"
  from a(1) show "ledger_effect db db'"
  proof (cases rule: run_release)
    case (2 rv db1)
    show ?thesis by (rule commit_effect [OF 2(2) release_effect [OF 2(1) a(2)]])
  qed (simp add: none)
qed

lemma step_effect: "ledger_step db db' \<Longrightarrow> ledger_inv db \<Longrightarrow> ledger_effect db db'"
proof (induction rule: ledger_step.induct)
  case (credit env seen db params r db')
  then show ?case by (simp add: Credit_def credit_effect)
next
  case (adjust_credit env seen db adjust r db')
  then show ?case by (simp add: AdjustCredit_def credit_effect)
next
  case (debit env seen db params r db')
  then show ?case by (simp add: Debit_def debit_effect)
next
  case (adjust_debit env seen db adjust r db')
  then show ?case by (simp add: AdjustDebit_def debit_effect)
next
  case (debit_in_tx env seen db params x db')
  then show ?case by (simp add: DebitWithQueries_def debit_in_tx_effect)
next
  case (pre_authorize env seen db hold rv db')
  then show ?case by (simp add: pre_authorize_effect)
next
  case (capture env db cap rv db')
  then show ?case by (rule run_effects(1))
next
  case (capture_in_tx env db cap y db')
  then show ?case by (simp add: CaptureWithQueries_def capture_effect)
next
  case (release env db rel rv db')
  then show ?case by (rule run_effects(2))
next
  case (release_in_tx env db rel y db')
  then show ?case by (simp add: ReleaseWithQueries_def release_effect)
next
  case (release_exception env db exc rv db')
  then show ?case by (rule release_exception_effect)
next
  case (new_user db u)
  show ?case by (rule outside [where us = "u # users db" and qs = "requests db"]) auto
next
  case (new_request db q)
  show ?case by (rule outside [where us = "users db" and qs = "q # requests db"]) auto
qed

subsection \<open>What the steps keep\<close>

lemma outside_inv:
  assumes inv: "ledger_inv db" and grow: "set (users db) \<subseteq> set us" "set (requests db) \<subseteq> set qs"
  shows "ledger_inv (db\<lparr>users := us, requests := qs\<rparr>)"
proof -
  let ?db = "db\<lparr>users := us, requests := qs\<rparr>"
  have "owned ?db r" if "owned db r" for r using that grow by (auto simp: owned_def)
  moreover
  have "account ?db = account db" by (simp add: account_def fun_eq_iff)
  moreover have "balances_ok ?db = balances_ok db" by (simp add: balances_ok_def)
  ultimately show ?thesis
    using inv entry_sum_same [of ?db db] held_sum_same [of ?db db]
    by (simp add: inv_parts books_def)
qed

lemma effect_inv: "ledger_effect db db' \<Longrightarrow> ledger_inv db \<Longrightarrow> ledger_inv db'"
proof (induction rule: ledger_effect.induct)
  case (free_exposed db db1 r r' db' x)
  show ?case by (rule exception_added_inv [OF free_exposed(2,3) released_inv [OF free_exposed(1,5)]])
next
  case (take_more db db1 r r' e params x got db')
  show ?case
    by (rule overage_taken_inv(1) [OF take_more(2) captured_inv [OF take_more(1,3)] captured_row [OF take_more(1)]])
qed (auto intro: posted_inv reserved_inv released_inv captured_inv exception_added_inv outside_inv)

definition settled_reservations_of :: "db \<Rightarrow> LedgerReservation set" where
  "settled_reservations_of db = {r \<in> set (ledger_reservations db). lrStatus r \<noteq> ReservationStatusAuthorized}"

text \<open>What a reservation promises from its creation on: everything but its status and its settlement.\<close>

definition hold_terms :: "LedgerReservation \<Rightarrow> int \<times> int \<times> int \<times> string \<times> int \<times> int \<times> string \<times> string" where
  "hold_terms r = (lrID r, lrUserID r, lrRequestRecordID r, lrCurrency r, lrAuthorizedAmount r, lrEstimatedAmount r,
     lrIdempotencyKey r, lrReason r)"

definition logged :: "db \<Rightarrow> db \<Rightarrow> bool" where
  "logged db db' \<longleftrightarrow> set (ledger_entries db) \<subseteq> set (ledger_entries db') \<and>
     settled_reservations_of db \<subseteq> settled_reservations_of db' \<and>
     hold_terms ` set (ledger_reservations db) \<subseteq> hold_terms ` set (ledger_reservations db') \<and>
     set (billing_exceptions db) \<subseteq> set (billing_exceptions db')"

lemma logged_trans: "logged db db1 \<Longrightarrow> logged db1 db' \<Longrightarrow> logged db db'"
  unfolding logged_def by (elim conjE, intro conjI) (erule (1) subset_trans)+

lemma logged_same: "ledger_entries db' = ledger_entries db \<Longrightarrow> ledger_reservations db' = ledger_reservations db \<Longrightarrow>
    set (billing_exceptions db) \<subseteq> set (billing_exceptions db') \<Longrightarrow> logged db db'"
  by (simp add: logged_def settled_reservations_of_def)

lemma same_hold_terms: "same_hold r r' \<Longrightarrow> hold_terms r' = hold_terms r"
  by (simp add: same_hold_def hold_terms_def)

lemma settled_logged:
  assumes "settled_row db db' r r'" "distinct (map lrID (ledger_reservations db))"
    and "set (ledger_entries db) \<subseteq> set (ledger_entries db')"
  shows "logged db db'"
proof -
  have rs: "ledger_reservations db' = map (\<lambda>x. if lrID x = lrID r' then r' else x) (ledger_reservations db)"
    and r: "r \<in> set (ledger_reservations db)" "lrStatus r = ReservationStatusAuthorized" "same_hold r r'"
    using assms(1) by (simp_all add: settled_row_def)
  have unique: "x = r" if "x \<in> set (ledger_reservations db)" "lrID x = lrID r'" for x
    using assms(2) r that by (simp add: same_hold_def distinct_map inj_on_def)
  have "map hold_terms (ledger_reservations db') = map hold_terms (ledger_reservations db)"
    unfolding rs using unique same_hold_terms [OF r(3)] by (auto simp: o_def intro!: map_cong)
  then have "hold_terms ` set (ledger_reservations db') = hold_terms ` set (ledger_reservations db)"
    by (metis set_map)
  moreover have "settled_reservations_of db \<subseteq> settled_reservations_of db'"
    using unique r(2) by (auto simp: settled_reservations_of_def rs)
  ultimately show ?thesis using assms(1,3) by (simp add: logged_def settled_row_def)
qed

lemma log_steps:
  "logged db db" "posted db db' e \<Longrightarrow> logged db db'" "idle db db' \<Longrightarrow> logged db db'"
  "exception_added db db' x \<Longrightarrow> logged db db'" "reserved db db' r \<Longrightarrow> logged db db'"
  by (auto simp: posted_def idle_def same_tables_def exception_added_def reserved_def same_facts_def logged_def
      settled_reservations_of_def)

lemma overage_logged:
  assumes "overage_taken params r x got db db'"
  shows "logged db db'"
proof -
  obtain db1 where one: "if 0 < got then \<exists>e. posted db db1 e \<and> overage_entry params r got e else idle db db1"
    and two: "if units (lrAuthorizedAmount r + got) < x
      then \<exists>ex. exception_added db1 db' ex \<and> write_off r x got ex else db' = db1"
    using assms by (auto simp: overage_taken_def)
  have "logged db db1" using one log_steps(2,3) by (metis (no_types))
  moreover have "logged db1 db'" using two log_steps(1,4) by (metis (no_types))
  ultimately show ?thesis by (rule logged_trans)
qed

lemma settled_logged_if:
  "released db db' r r' \<Longrightarrow> ledger_inv db \<Longrightarrow> logged db db'"
  "captured db db' r r' e \<Longrightarrow> ledger_inv db \<Longrightarrow> logged db db'"
  using settled_logged [of db db' r r'] by (auto simp: released_def captured_def inv_parts)

lemma effect_logged: "ledger_effect db db' \<Longrightarrow> ledger_inv db \<Longrightarrow> logged db db'"
proof (induction rule: ledger_effect.induct)
  case (free_exposed db db1 r r' db' x)
  show ?case by (rule logged_trans [OF settled_logged_if(1) [OF free_exposed(1,5)] log_steps(4) [OF free_exposed(2)]])
next
  case (take_more db db1 r r' e params x got db')
  show ?case by (rule logged_trans [OF settled_logged_if(2) [OF take_more(1,3)] overage_logged [OF take_more(2)]])
next
  case (outside db' db us qs)
  then show ?case by (simp add: logged_def settled_reservations_of_def)
qed (auto intro: log_steps settled_logged_if)

subsection \<open>The ledger meets its contracts\<close>

interpretation ledger: transition_system ledger_step ledger_inv
  by unfold_locales (rule effect_inv [OF step_effect])

interpretation entry_log: fact_log ledger_step ledger_inv "\<lambda>db. set (ledger_entries db)"
  by unfold_locales (use effect_logged step_effect in \<open>auto simp: logged_def\<close>)

interpretation settlement_log: fact_log ledger_step ledger_inv settled_reservations_of
  by unfold_locales (use effect_logged step_effect in \<open>auto simp: logged_def\<close>)

interpretation hold_log: fact_log ledger_step ledger_inv "\<lambda>db. hold_terms ` set (ledger_reservations db)"
  by unfold_locales (use effect_logged step_effect in \<open>unfold logged_def, blast\<close>)

interpretation exception_log: fact_log ledger_step ledger_inv "\<lambda>db. set (billing_exceptions db)"
  by unfold_locales (use effect_logged step_effect in \<open>auto simp: logged_def\<close>)

lemma empty_db_inv: "ledger_inv empty_db"
  by (simp add: empty_db_def inv_parts balances_ok_def books_def entry_sum_def held_sum_def account_def fun_eq_iff)

lemma reachable_inv: "ledger_reachable db \<Longrightarrow> ledger_inv db"
  unfolding ledger_reachable_def by (erule ledger.reach_inv) (rule empty_db_inv)

lemma reachable_steps: "ledger_reachable db \<Longrightarrow> ledger_step\<^sup>*\<^sup>* db db' \<Longrightarrow> ledger_reachable db'"
  unfolding ledger_reachable_def by (rule rtranclp_trans)

end
