(* ===== verification/Ledger_Spec.thy ===== *)
theory Ledger_Spec
  imports Ledger_Machine
begin

text \<open>
  What the operations on reservations do when no store call fails and no other transaction
  intervenes: that they succeed exactly when the money and the rows are there, and with which result. The
  invariant \<open>ledger_inv\<close> (hence reachability) is what rules out every constraint violation on the way.
\<close>

subsection \<open>PreAuthorize\<close>

text \<open>A fresh hold of an estimate of \<open>est\<close> units for a user and request that exist.\<close>

definition hold_ok :: "db \<Rightarrow> PreAuthorizeParams \<Rightarrow> int \<Rightarrow> bool" where
  "hold_ok db params est \<longleftrightarrow>
     numericRat (paEstimatedAmount params) = Some (units est) \<and> 0 < est \<and> fits est \<and> paCurrency params \<noteq> '''' \<and>
     paIdempotencyKey params \<noteq> '''' \<and> paReason params \<noteq> '''' \<and> paUserID params \<in> set (users db) \<and>
     (paRequestRecordID params, paUserID params) \<in> set (requests db) \<and>
     paIdempotencyKey params \<notin> reservation_keys db \<and> paRequestRecordID params \<notin> reserved_requests db"

lemma fresh_reservation_lookup:
  "k \<notin> reservation_keys db \<Longrightarrow> GetLedgerReservationByIdempotencyKey db k = Inl ErrNoRows"
  by (simp add: reservations.lookup_Inl_iff reservation_keys_def)

lemma ReserveAvailable_if:
  assumes "balances_ok db" "numericRat v = Some (units est)" "fits est"
  shows "if 0 < min (fst (account db (u, c)) - snd (account db (u, c))) est
    then \<exists>r' db'. ReserveAvailableUserBalance now db v u c =
        Inr ((r', min (fst (account db (u, c)) - snd (account db (u, c))) est), db')
    else ReserveAvailableUserBalance now db v u c = Inl ErrNoRows"
proof -
  have cast: "cast_param v = Inr (Some est)"
    using assms(2,3) by (simp add: cast_param_def bind_num_finite)
  show ?thesis
  proof (cases "GetUserBalanceForUpdate db u c")
    case (Inl err)
    then have "find (is_balance u c) (user_balances db) = None" "err = ErrNoRows"
      by (simp_all add: GetUserBalanceForUpdate_def split: option.splits)
    with Inl cast show ?thesis by (simp add: ReserveAvailableUserBalance_def account_def)
  next
    case (Inr r)
    note acc = GetUserBalance_account(1) [OF Inr]
    note ok = account_ok [OF assms(1), of "(u, c)", unfolded acc]
    show ?thesis
    proof (cases "0 < min (ubBalance r - ubReservedBalance r) est")
      case True
      let ?res = "ubReservedBalance r + min (ubBalance r - ubReservedBalance r) est"
      have "0 \<le> ?res" "?res \<le> ubBalance r" using True ok by auto
      then obtain r' db' where "set_balance now db r (ubBalance r) ?res = Inr (r', db')"
        using set_balance_ok [OF Inr assms(1)] by blast
      with True Inr cast acc show ?thesis by (simp add: ReserveAvailableUserBalance_def least_opt_def)
    next
      case False
      with Inr cast acc show ?thesis
        by (auto simp: ReserveAvailableUserBalance_def least_opt_def Let_def)
    qed
  qed
qed

lemma CreateLedgerReservation_ok:
  assumes "hold_ok db params est" "0 < a" "a \<le> est" "users db1 = users db" "requests db1 = requests db"
    and "ledger_reservations db1 = ledger_reservations db"
  shows "\<exists>row db2. CreateLedgerReservation now db1
      \<lparr>crUserID = paUserID params, crRequestRecordID = paRequestRecordID params,
       crCurrency = paCurrency params, crEstimatedAmount = paEstimatedAmount params,
       crAuthorizedAmount = num a, crIdempotencyKey = paIdempotencyKey params,
       crReason = paReason params\<rparr> = Inr (row, db2)"
proof -
  have "bind_num (paEstimatedAmount params) = Inr (SqlNum (units est))"
    using assms(1) by (simp add: hold_ok_def bind_num_finite)
  moreover have "fits a" using assms(1-3) by (auto simp: hold_ok_def fits_def)
  ultimately show ?thesis
    using assms
    by (simp add: CreateLedgerReservation_def insert_ledger_reservation_def check_ledger_reservation_def hold_ok_def
        reservation_keys_def reserved_requests_def)
qed

lemma PreAuthorize_spec:
  assumes "healthy env" "balances_ok db" "hold_ok db params est"
    and "account db (paUserID params, paCurrency params) = (bal, res)"
  shows "if 0 < min (bal - res) est
    then \<exists>row db'. PreAuthorize env db db params = (Inr (reservationFromSQLC row), db') \<and>
      reserved db db' row \<and> reservation_matches db params row
    else PreAuthorize env db db params = (Inl insufficient_balance, db)"
proof -
  have v: "numericRat (paEstimatedAmount params) = Some (units est)" "fits est" "0 < est"
    and fresh: "paIdempotencyKey params \<notin> reservation_keys db"
    using assms(3) by (simp_all add: hold_ok_def)
  have pos: "isPositiveNumeric (paEstimatedAmount params)" using v by (simp add: isPositiveNumeric_val)
  note run = PreAuthorize_def fresh_reservation_lookup [OF fresh] pos
  note res = ReserveAvailable_if [OF assms(2) v(1,2), of "paUserID params" "paCurrency params" "clock env"]
  show ?thesis
  proof (cases "0 < min (bal - res) est")
    case False
    then have "ReserveAvailableUserBalance (clock env) db (paEstimatedAmount params) (paUserID params)
        (paCurrency params) = Inl ErrNoRows" using res assms(4) by simp
    with False assms(1) show ?thesis
      by (simp add: run resolveReservationUnavailable_def)
  next
    case True
    then obtain r' db1 where r': "ReserveAvailableUserBalance (clock env) db (paEstimatedAmount params) (paUserID params)
        (paCurrency params) = Inr ((r', min (bal - res) est), db1)" using res assms(4) by auto
    obtain e where set: "balance_set db db1 (paUserID params, paCurrency params)
        (fst (account db (paUserID params, paCurrency params)))
        (snd (account db (paUserID params, paCurrency params)) + min (bal - res) est)"
      using ReserveAvailableUserBalance_Inr [OF r'] by blast
    obtain row db2 where row: "CreateLedgerReservation (clock env) db1
      \<lparr>crUserID = paUserID params, crRequestRecordID = paRequestRecordID params,
       crCurrency = paCurrency params, crEstimatedAmount = paEstimatedAmount params,
       crAuthorizedAmount = num (min (bal - res) est), crIdempotencyKey = paIdempotencyKey params,
       crReason = paReason params\<rparr> = Inr (row, db2)"
      using CreateLedgerReservation_ok [OF assms(3) True, of db1 "clock env"] balance_set_frame(1) [OF set]
      by (auto simp: same_tables_def)
    have out: "PreAuthorize env db db params = (Inr (reservationFromSQLC row), db2)"
      using r' row assms(1) by (simp add: run)
    then have "reserved db db2 row \<and> reservation_matches db params row"
    proof (cases rule: PreAuthorize_inv)
      case (replay existing)
      then show ?thesis using fresh_reservation_lookup [OF fresh] by simp
    next
      case unavailable
      then show ?thesis
        using fresh_reservation_lookup [OF fresh] assms(1) by (simp add: resolveReservationUnavailable_def)
    next
      case conflict
      then show ?thesis
        using fresh_reservation_lookup [OF fresh] assms(1)
        by (auto simp: resolveReservationCreateConflict_def split: sum.splits if_splits)
    next
      case (reserved row' db3)
      then have same: "db3 = db2" "reservationFromSQLC row' = reservationFromSQLC row" using assms(1) by auto
      have "ledger_reservations db1 = ledger_reservations db" using balance_set_frame(1) [OF set] by (simp add: same_tables_def)
      moreover have "numericRat (paEstimatedAmount params) = Some (units est)" by (rule v(1))
      ultimately have "ledger_reservations db2 = ledger_reservations db @ [row]"
        using insert_ledger_reservation_Inr(5) [OF CreateLedgerReservation_Inr(1) [OF row, simplified, OF refl v(1)]] by simp
      then have "row' = row" using reserved(1) same(1) by (simp add: reserved_def)
      with reserved same show ?thesis by simp
    qed simp
    with out True show ?thesis by auto
  qed
qed

subsection \<open>Release\<close>

lemma reservation_found:
  assumes "ledger_inv db" "r \<in> set (ledger_reservations db)"
  shows "GetLedgerReservationByRequestRecordIDForUpdate db (lrRequestRecordID r) = Inr r"
  using request_reservations.lookup_member [of db r] assms by (simp add: inv_parts)

lemma reservation_unique:
  assumes "ledger_inv db" "r \<in> set (ledger_reservations db)" "s \<in> set (ledger_reservations db)"
    and "lrRequestRecordID s = lrRequestRecordID r"
  shows "s = r"
  using reservation_found [OF assms(1,2)] reservation_found [OF assms(1,3)] assms(4) by simp

lemma reservation_id_unique:
  assumes "ledger_inv db" "r \<in> set (ledger_reservations db)" "s \<in> set (ledger_reservations db)" "lrID s = lrID r"
  shows "s = r"
proof -
  have "inj_on lrID (set (ledger_reservations db))" using assms(1) by (simp add: inv_parts distinct_map)
  then show ?thesis using assms(4,3,2) by (rule inj_onD)
qed

lemma reservation_check:
  "ledger_inv db \<Longrightarrow> r \<in> set (ledger_reservations db) \<Longrightarrow> check_ledger_reservation r"
  "ledger_inv db \<Longrightarrow> r \<in> set (ledger_reservations db) \<Longrightarrow> owned db r"
  by (simp_all add: inv_parts)

lemma hold_backed:
  assumes "ledger_inv db" "r \<in> set (ledger_reservations db)" "lrStatus r = ReservationStatusAuthorized"
  shows "0 < lrAuthorizedAmount r" "lrAuthorizedAmount r \<le> snd (account db (res_key r))"
    "snd (account db (res_key r)) \<le> fst (account db (res_key r))" "fits (fst (account db (res_key r)))"
proof -
  show "0 < lrAuthorizedAmount r" using reservation_check(1) [OF assms(1,2)] by (simp add: check_ledger_reservation_def)
  have "held r \<le> held_sum db (res_key r)"
    using assms(1) by (intro held_le_sum [OF assms(2)]) (simp add: inv_parts)
  then show "lrAuthorizedAmount r \<le> snd (account db (res_key r))"
    using assms(1,3) by (simp add: held_def ledger_inv_def books_def)
  have "balances_ok db" using assms(1) by (simp add: ledger_inv_def)
  then show "snd (account db (res_key r)) \<le> fst (account db (res_key r))" "fits (fst (account db (res_key r)))"
    by (simp_all add: account_ok)
qed

lemma authorized_fields:
  assumes "check_ledger_reservation r" "lrStatus r = ReservationStatusAuthorized"
  shows "lrCapturedAmount r = 0" "lrReleasedAmount r = 0" "lrCaptureLedgerEntryID r = None" "lrCapturedAt r = None"
    "lrReleasedAt r = None"
  using assms by (auto simp: check_ledger_reservation_def)

lemma find_authorized:
  assumes "distinct (map lrID rs)" "r \<in> set rs" "P r"
  shows "find (\<lambda>x. lrID x = lrID r \<and> P x) rs = Some r"
  using assms by (induction rs) (auto simp: image_iff)

lemma ReleaseLedgerReservation_ok:
  assumes "ledger_inv db" "r \<in> set (ledger_reservations db)" "lrStatus r = ReservationStatusAuthorized"
    and "ledger_reservations db1 = ledger_reservations db"
  shows "\<exists>r' db2. ReleaseLedgerReservation now db1 (lrID r) = Inr (r', db2)"
proof -
  have "find (\<lambda>x. lrID x = lrID r \<and> lrStatus x = ''authorized'') (ledger_reservations db1) = Some r"
    using assms by (intro find_authorized) (simp_all add: inv_parts)
  moreover note authorized_fields [OF reservation_check(1) [OF assms(1,2)] assms(3)] reservation_check(1) [OF assms(1,2)]
  ultimately show ?thesis
    by (simp add: ReleaseLedgerReservation_def one_row_def update_reservation_def check_ledger_reservation_def)
qed

lemma releaseWithQueries_ok:
  assumes "healthy env" "ledger_inv db" "r \<in> set (ledger_reservations db)" "lrStatus r = ReservationStatusAuthorized"
    and "rlRequestRecordID params = lrRequestRecordID r" "rlReservationID params \<in> {None, Some (lrID r)}"
  shows "\<exists>r' db'. releaseWithQueries env db params = Inr (reservationFromSQLC r', db') \<and> released db db' r r'"
proof -
  have bal: "balances_ok db" using assms(2) by (simp add: ledger_inv_def)
  obtain ub db1 where ub: "ReleaseUserReservedBalance (clock env) db (num (lrAuthorizedAmount r)) (lrUserID r)
      (lrCurrency r) = Inr (ub, db1)"
    using ReleaseUserReservedBalance_ok [OF bal hold_backed(1,2) [OF assms(2-4)]] by blast
  have "ledger_reservations db1 = ledger_reservations db"
    using balance_set_frame(1) [OF ReleaseUserReservedBalance_Inr [OF ub]] by (simp add: same_tables_def)
  then obtain r' db2 where "ReleaseLedgerReservation (clock env) db1 (lrID r) = Inr (r', db2)"
    using ReleaseLedgerReservation_ok [OF assms(2-4)] by blast
  then have run: "releaseWithQueries env db params = Inr (reservationFromSQLC r', db2)"
    using assms ub reservation_found [OF assms(2,3)] by (auto simp: releaseWithQueries_def)
  then show ?thesis
    using assms(2)
  proof (cases rule: releaseWithQueries_inv)
    case (replay r0)
    then have "r0 = r" using assms(5) by (intro reservation_unique [OF assms(2,3)]) simp_all
    with replay(3) assms(4) show ?thesis by simp
  next
    case (released r0 r0')
    then have "r0 \<in> set (ledger_reservations db)" by (simp add: released_def settled_row_def)
    then have "r0 = r" using released(1) assms(5) by (intro reservation_unique [OF assms(2,3)]) simp_all
    with released run show ?thesis by auto
  qed
qed

lemma Release_spec:
  assumes "healthy env" "ledger_inv db" "r \<in> set (ledger_reservations db)" "lrStatus r = ReservationStatusAuthorized"
    and "rlRequestRecordID params = lrRequestRecordID r" "rlReservationID params \<in> {None, Some (lrID r)}"
  shows "\<exists>r' db'. Release env db params = (Inr (reservationFromSQLC r'), db') \<and> released db db' r r'"
  using releaseWithQueries_ok [OF assms] assms(1) by (auto simp: Release_def)

text \<open>No exception is filed for a reservation that is still authorized.\<close>

lemma no_exception:
  assumes "ledger_inv db" "r \<in> set (ledger_reservations db)" "lrStatus r = ReservationStatusAuthorized"
  shows "lrID r \<notin> beReservationID ` set (billing_exceptions db)"
    "lrRequestRecordID r \<notin> beRequestRecordID ` set (billing_exceptions db)"
proof -
  have *: "lrID r \<noteq> beReservationID x \<and> lrRequestRecordID r \<noteq> beRequestRecordID x" if "x \<in> set (billing_exceptions db)" for x
  proof -
    have "exception_linked (ledger_reservations db) x" using that assms(1) by (simp add: inv_parts)
    then obtain s where s: "s \<in> set (ledger_reservations db)" "lrID s = beReservationID x"
      "lrRequestRecordID s = beRequestRecordID x" "lrStatus s \<noteq> ReservationStatusAuthorized"
      unfolding exception_linked_def by (auto split: if_splits)
    then have "s \<noteq> r" using assms(3) by auto
    then show ?thesis
      using s reservation_id_unique [OF assms(1,2) s(1)] reservation_unique [OF assms(1,2) s(1)] by metis
  qed
  show "lrID r \<notin> beReservationID ` set (billing_exceptions db)"
    "lrRequestRecordID r \<notin> beRequestRecordID ` set (billing_exceptions db)" using * by auto
qed

lemma ReleaseWithBillingException_spec:
  assumes "healthy env" "ledger_inv db" "r \<in> set (ledger_reservations db)" "lrStatus r = ReservationStatusAuthorized"
    and "rbRequestRecordID params = lrRequestRecordID r" "rbReservationID params \<in> {None, Some (lrID r)}"
    and "rbReasonCode params \<noteq> ''''" "rbReason params \<noteq> ''''"
  shows "\<exists>r' x db1 db'. ReleaseWithBillingException env db params = (Inr (reservationFromSQLC r'), db') \<and>
    released db db1 r r' \<and> exception_added db1 db' x \<and> beReservationID x = lrID r \<and>
    beEventType x = ''risk_exposure'' \<and> bePlatformAmount x = lrAuthorizedAmount r"
proof -
  let ?rel = "\<lparr>rlRequestRecordID = rbRequestRecordID params, rlReservationID = rbReservationID params\<rparr>"
  obtain r' db1 where run: "releaseWithQueries env db ?rel = Inr (reservationFromSQLC r', db1)" and rel: "released db db1 r r'"
    using releaseWithQueries_ok [OF assms(1-4), of ?rel] assms(5,6) by auto
  have row: "settled_row db db1 r r'" "same_hold r r'" using rel by (simp_all add: released_def settled_row_def)
  have r': "r' \<in> set (ledger_reservations db1)"
    using row by (auto simp: settled_row_def same_hold_def intro!: image_eqI [of _ _ r])
  have a: "0 < lrAuthorizedAmount r" "fits (lrAuthorizedAmount r)"
    using hold_backed [OF assms(2-4)] by (auto simp: fits_def)
  have own: "owned db r" "lrCurrency r \<noteq> ''''"
    using reservation_check [OF assms(2,3)] by (simp_all add: check_ledger_reservation_def)
  have new: "lrID r \<notin> beReservationID ` set (billing_exceptions db1)"
    "lrRequestRecordID r \<notin> beRequestRecordID ` set (billing_exceptions db1)"
    using no_exception [OF assms(2-4)] row(1) by (simp_all add: settled_row_def)
  have none: "find (\<lambda>x. beReservationID x = lrID r) (billing_exceptions db1) = None"
    using new(1) by (simp only: find_key_None not_False_eq_True)
  let ?arg = "\<lparr>cxUserID = lrUserID r, cxRequestRecordID = lrRequestRecordID r, cxReservationID = lrID r,
     cxPlatformAmount = num (lrAuthorizedAmount r), cxCurrency = lrCurrency r,
     cxReasonCode = rbReasonCode params, cxReason = rbReason params\<rparr>"
  let ?row = "\<lparr>beID = 0, beUserID = lrUserID r, beRequestRecordID = lrRequestRecordID r,
         beReservationID = lrID r, beEventType = ''risk_exposure'', beActualAmount = None,
         beCapturedAmount = 0, bePlatformAmount = lrAuthorizedAmount r, beCurrency = lrCurrency r,
         beReasonCode = rbReasonCode params, beReason = rbReason params, beCreatedAt = clock env\<rparr>"
  have check: "check_billing_exception ?row" using a own assms(7,8) by (simp add: check_billing_exception_def)
  have create: "CreateLedgerRiskExposureException (clock env) db1 ?arg = insert_billing_exception db1 ?row"
    using a none check by (simp add: CreateLedgerRiskExposureException_def Let_def)
  have "\<exists>r2 \<in> set (ledger_reservations db1). lrID r2 = lrID r \<and> lrUserID r2 = lrUserID r \<and>
      lrRequestRecordID r2 = lrRequestRecordID r"
    using r' row(2) by (intro bexI [of _ r']) (simp_all add: same_hold_def)
  then obtain x db2 where ins: "insert_billing_exception db1 ?row = Inr (x, db2)"
    using check own(1) new row(1) by (simp add: insert_billing_exception_def owned_def settled_row_def)
  note x = insert_billing_exception_Inr [OF ins]
  have "ReleaseWithBillingException env db params = (Inr (reservationFromSQLC r'), db2)"
    using run create ins assms(1) row(2)
    by (simp add: ReleaseWithBillingException_def reservationFromSQLC_def same_hold_def)
  with rel x show ?thesis by (intro exI [of _ r'] exI [of _ x] exI [of _ db1] exI [of _ db2]) simp
qed

subsection \<open>Capture\<close>

text \<open>A first capture of \<open>n\<close> units from the reservation \<open>r\<close>, under keys that have no entry yet.\<close>

definition capture_ok :: "db \<Rightarrow> CaptureParams \<Rightarrow> LedgerReservation \<Rightarrow> int \<Rightarrow> bool" where
  "capture_ok db params r n \<longleftrightarrow>
     numericRat (caActualAmount params) = Some (units n) \<and> 0 < n \<and> fits n \<and>
     caRequestRecordID params = lrRequestRecordID r \<and> caReservationID params \<in> {None, Some (lrID r)} \<and>
     caIdempotencyKey params \<notin> entry_keys db \<and> overageIdempotencyKey (caIdempotencyKey params) \<notin> entry_keys db \<and>
     caIdempotencyKey params \<noteq> '''' \<and> caReason params \<noteq> ''''"

lemma CaptureUserReservedBalance_ok:
  assumes "balances_ok db" "numericRat v = Some (units c)" "0 \<le> c" "c \<le> a" "0 < a" "a \<le> snd (account db (u, k))"
  shows "\<exists>r' db'. CaptureUserReservedBalance now db v (num a) u k = Inr (r', db') \<and>
    ubBalance r' = fst (account db (u, k)) - c"
proof -
  obtain r where r: "GetUserBalanceForUpdate db u k = Inr r" "account db (u, k) = (ubBalance r, ubReservedBalance r)"
    using assms by (metis account_row less_le_trans)
  note acc = account_ok [OF assms(1), of "(u, k)", unfolded r(2)]
  have fits: "fits (ubReservedBalance r - a)" "fits (ubBalance r - c)" using acc assms r(2) by (auto simp: fits_def)
  have "0 \<le> ubReservedBalance r - a" "ubReservedBalance r - a \<le> ubBalance r - c" using acc assms r(2) by simp_all
  then obtain r' db' where set: "set_balance now db r (ubBalance r - c) (ubReservedBalance r - a) = Inr (r', db')"
    using set_balance_ok [OF r(1) assms(1)] by blast
  have "CaptureUserReservedBalance now db v (num a) u k = Inr (r', db')"
    using assms acc r fits set by (simp add: CaptureUserReservedBalance_def bind_num_finite)
  then show ?thesis using set_balance_Inr(2) [OF set r(1)] r(2) by simp
qed

lemma CaptureLedgerReservation_ok:
  assumes "ledger_inv db" "r \<in> set (ledger_reservations db)" "lrStatus r = ReservationStatusAuthorized"
    and "numericRat v = Some (units c)" "0 < c" "c \<le> lrAuthorizedAmount r" "fits (lrAuthorizedAmount r)"
    and "ledger_reservations db2 = ledger_reservations db" "e \<in> set (ledger_entries db2)"
    and "leID e \<ge> next_id db" "leUserID e = lrUserID r" "leRequestRecordID e = Some (lrRequestRecordID r)"
  shows "\<exists>r' db3. CaptureLedgerReservation now db2 v (Some (leID e)) (lrID r) = Inr (r', db3)"
proof -
  have fits: "fits c" "fits (lrAuthorizedAmount r - c)" using assms(5-7) by (auto simp: fits_def)
  have "find (\<lambda>x. lrID x = lrID r \<and> (lrStatus x = ''authorized'' \<and>
      sql_ge (sql_col (lrAuthorizedAmount x)) (SqlNum (units c)))) (ledger_reservations db2) = Some r"
    using assms(1-3,6,8) by (intro find_authorized) (simp_all add: inv_parts)
  moreover have "lrCaptureLedgerEntryID x \<noteq> Some (leID e)" if "x \<in> set (ledger_reservations db)" for x
  proof (cases "lrStatus x = ReservationStatusCaptured")
    case True
    with that assms(1) have "capture_linked (ledger_entries db) x" by (simp add: inv_parts)
    with True obtain e' where "e' \<in> set (ledger_entries db)" "lrCaptureLedgerEntryID x = Some (leID e')"
      by (auto simp: capture_linked_def)
    moreover from this assms(1) have "leID e' < next_id db" by (simp add: inv_parts)
    ultimately show ?thesis using assms(10) by simp
  next
    case False
    with reservation_check(1) [OF assms(1) that] show ?thesis by (auto simp: check_ledger_reservation_def)
  qed
  moreover have "\<exists>x \<in> set (ledger_entries db2). leID x = leID e \<and> leUserID x = lrUserID r \<and>
      leRequestRecordID x = Some (lrRequestRecordID r)"
    using assms(9,11,12) by blast
  moreover note authorized_fields [OF reservation_check(1) [OF assms(1,2)] assms(3)] reservation_check(1) [OF assms(1,2)]
  ultimately show ?thesis
    using assms(4-6,8) fits
    by (auto simp: CaptureLedgerReservation_def bind_num_finite one_row_def update_reservation_def
        check_ledger_reservation_def sql_col_def)
qed

lemma balance_set_row:
  assumes "balance_set db db' (u, k) bal res"
  shows "\<exists>r. GetUserBalanceForUpdate db' u k = Inr r"
proof -
  obtain r r' where r: "find (\<lambda>x. ub_key x = (u, k)) (user_balances db) = Some r" "ub_key r' = (u, k)"
    and db': "db' = put_balance db r'" using assms by (rule balance_setE)
  have "find (\<lambda>x. ub_key x = (u, k)) (user_balances db') = Some r'"
    using find_update [where key = ub_key, OF r, of "(u, k)"] r(2) by (simp add: db' put_balance_eq)
  then show ?thesis by (simp add: GetUserBalanceForUpdate_Inr)
qed

lemma CollectUserBalanceOverage_ok:
  assumes "balances_ok db" "GetUserBalanceForUpdate db u k = Inr r" "numericRat v = Some (units n)" "fits n" "fits a"
  shows "\<exists>r' got db'. CollectUserBalanceOverage now db v (num a) u k = Inr ((r', got), db')"
proof -
  have v: "cast_param v = Inr (Some n)" using assms(3,4) by (simp add: cast_param_def bind_num_finite)
  note acc = account_ok [OF assms(1), of "(u, k)", unfolded GetUserBalance_account(1) [OF assms(2)]]
  let ?got = "max (min (ubBalance r - ubReservedBalance r) (n - a)) 0"
  have got: "fits ?got" using acc by (auto simp: fits_def)
  have "0 \<le> ubReservedBalance r" "ubReservedBalance r \<le> ubBalance r - ?got" using acc by auto
  then obtain r' db' where "set_balance now db r (ubBalance r - ?got) (ubReservedBalance r) = Inr (r', db')"
    using set_balance_ok [OF assms(2,1)] by blast
  with v got assms(2,5) show ?thesis by (simp add: CollectUserBalanceOverage_def least_opt_def)
qed

lemma CreateLedgerWriteOffException_ok:
  assumes "numericRat v = Some (units n)" "numericRat c = Some (units a)" "0 \<le> a" "0 \<le> got" "a + got < n" "fits n"
    and "owned db r" "lrCurrency r \<noteq> ''''" "lrID r \<notin> beReservationID ` set (billing_exceptions db)"
    and "lrRequestRecordID r \<notin> beRequestRecordID ` set (billing_exceptions db)"
    and "\<exists>s \<in> set (ledger_reservations db). same_hold r s"
  shows "\<exists>x db'. CreateLedgerWriteOffException now db
    \<lparr>cwUserID = lrUserID r, cwRequestRecordID = lrRequestRecordID r, cwReservationID = lrID r, cwActualAmount = v,
     cwCapturedAmount = c, cwOverageAmount = num got, cwCurrency = lrCurrency r, cwReasonCode = ''authorization_underfunded'',
     cwReason = ''actual amount exceeded authorized amount and available balance''\<rparr> = Inr (x, db')"
proof -
  have "fits (a + got)" "fits (n - a - got)" using assms(3-6) by (auto simp: fits_def)
  moreover have "\<exists>s \<in> set (ledger_reservations db). lrID s = lrID r \<and> lrUserID s = lrUserID r \<and>
      lrRequestRecordID s = lrRequestRecordID r"
    using assms(11) by (auto simp: same_hold_def)
  ultimately show ?thesis
    using assms
    by (simp add: CreateLedgerWriteOffException_def bind_num_finite check_billing_exception_def
        insert_billing_exception_def owned_def)
qed

definition overage_params :: "CaptureParams \<Rightarrow> LedgerReservation \<Rightarrow> numeric \<Rightarrow> EntryParams" where
  "overage_params params r v = \<lparr>epUserID = lrUserID r, epRequestRecordID = Some (lrRequestRecordID r), epAmount = v,
     epCurrency = lrCurrency r, epIdempotencyKey = overageIdempotencyKey (caIdempotencyKey params),
     epReason = caReason params @ '' (overage)''\<rparr>"

lemma capture_overage_ok:
  assumes "healthy env" "balances_ok db" "GetUserBalanceForUpdate db (lrUserID r) (lrCurrency r) = Inr row"
    and "numericRat (caActualAmount params) = Some (units n)" "fits n" "0 < lrAuthorizedAmount r" "lrAuthorizedAmount r < n"
    and "numericRat c = Some (units (lrAuthorizedAmount r))" "ubBalance balanceAfter = fst (account db (res_key r))"
    and "overageIdempotencyKey (caIdempotencyKey params) \<notin> entry_keys db" "owned db r" "lrCurrency r \<noteq> ''''"
    and "lrID r \<notin> beReservationID ` set (billing_exceptions db)"
    and "lrRequestRecordID r \<notin> beRequestRecordID ` set (billing_exceptions db)"
    and "\<exists>s \<in> set (ledger_reservations db). same_hold r s"
  shows "\<exists>ov db'. capture_overage env db params r balanceAfter c = Inr (ov, db')"
proof -
  have a: "fits (lrAuthorizedAmount r)" using assms(5-7) by (auto simp: fits_def)
  obtain r' got db1 where col: "CollectUserBalanceOverage (clock env) db (caActualAmount params)
      (num (lrAuthorizedAmount r)) (lrUserID r) (lrCurrency r) = Inr ((r', got), db1)"
    using CollectUserBalanceOverage_ok [OF assms(2,3,4,5) a] by blast
  obtain e where e: "cast_param (caActualAmount params) = Inr e"
    and got: "got = max (least_opt (fst (account db (res_key r)) - snd (account db (res_key r)))
      (map_option (\<lambda>x. x - lrAuthorizedAmount r) e)) 0"
    and set: "balance_set db db1 (res_key r) (fst (account db (res_key r)) - got) (snd (account db (res_key r)))"
    and bal: "ubBalance r' = fst (account db (res_key r)) - got"
    using CollectUserBalanceOverage_Inr [OF col] by blast
  have "e = Some n" using e assms(4,5) by (simp add: cast_param_def bind_num_finite split: if_splits)
  then have got': "got = max (min (fst (account db (res_key r)) - snd (account db (res_key r))) (n - lrAuthorizedAmount r)) 0"
    using got by (simp add: least_opt_def)
  note acc = account_ok [OF assms(2), of "res_key r"] and frame = balance_set_frame [OF set]
  have same: "users db1 = users db" "requests db1 = requests db" "ledger_entries db1 = ledger_entries db"
    "billing_exceptions db1 = billing_exceptions db" "ledger_reservations db1 = ledger_reservations db"
    using frame(1) by (simp_all add: same_tables_def)
  let ?p = "overage_params params r (num got)"
  have "\<exists>db2. (if isPositiveNumeric (num got) then
      \<exists>e. CreateLedgerEntry (clock env) db1 (entry_args ?p EntryTypeDebit balanceAfter r') = Inr (e, db2)
     else db2 = db1) \<and> users db2 = users db \<and> requests db2 = requests db \<and> billing_exceptions db2 = billing_exceptions db \<and>
     ledger_reservations db2 = ledger_reservations db"
  proof (cases "0 < got")
    case True
    have "fits got" using got' acc by (auto simp: fits_def)
    then have p: "params_ok db ?p got"
      using True assms(11,12) by (simp add: params_ok_def overage_params_def owned_def overageIdempotencyKey_def)
    have bounds: "fits (ubBalance balanceAfter)" "fits (ubBalance r')" "0 \<le> ubBalance balanceAfter" "0 \<le> ubBalance r'"
      using acc bal got' assms(9) frame(2,3) by (auto simp: fits_def)
    have key: "epIdempotencyKey ?p \<notin> entry_keys db1"
      using assms(10) same(3) by (simp add: overage_params_def entry_keys_def)
    have deb: "EntryTypeDebit \<in> set credit_types \<and> ubBalance r' = ubBalance balanceAfter + got \<or>
        EntryTypeDebit \<in> set debit_types \<and> ubBalance r' = ubBalance balanceAfter - got"
      using bal assms(9) by (simp add: debit_types_def)
    obtain e db2 where e: "CreateLedgerEntry (clock env) db1 (entry_args ?p EntryTypeDebit balanceAfter r') = Inr (e, db2)"
      by (rule CreateLedgerEntry_ok [OF p same(1,2) key bounds deb])
    have "isPositiveNumeric (num got)" using True by (simp add: isPositiveNumeric_val)
    with e CreateLedgerEntry_Inr(1) [OF e] same show ?thesis by (intro exI [of _ db2]) (auto simp: entry_added_def)
  next
    case False
    then have "\<not> isPositiveNumeric (num got)" by (simp add: isPositiveNumeric_val)
    with same show ?thesis by simp
  qed
  then obtain db2 where db2: "if isPositiveNumeric (num got) then
      \<exists>e. CreateLedgerEntry (clock env) db1 (entry_args ?p EntryTypeDebit balanceAfter r') = Inr (e, db2)
     else db2 = db1"
    and same2: "users db2 = users db" "requests db2 = requests db" "billing_exceptions db2 = billing_exceptions db"
     "ledger_reservations db2 = ledger_reservations db" by blast
  have gt: "numericGreaterThan (caActualAmount params) (numericAdd c (num got)) \<longleftrightarrow> lrAuthorizedAmount r + got < n"
    using numericGreaterThan_val [OF assms(4) numericAdd_val [OF assms(8), of "num got" "units got"]] by simp
  have "owned db2 r" using assms(11) same2 by (simp add: owned_def)
  then have "lrAuthorizedAmount r + got < n \<Longrightarrow> \<exists>x db3. CreateLedgerWriteOffException (clock env) db2
    \<lparr>cwUserID = lrUserID r, cwRequestRecordID = lrRequestRecordID r, cwReservationID = lrID r,
     cwActualAmount = caActualAmount params, cwCapturedAmount = c, cwOverageAmount = num got, cwCurrency = lrCurrency r,
     cwReasonCode = ''authorization_underfunded'',
     cwReason = ''actual amount exceeded authorized amount and available balance''\<rparr> = Inr (x, db3)"
    using assms(6,13-15) same2 got' by (intro CreateLedgerWriteOffException_ok [OF assms(4,8) _ _ _ assms(5) _ assms(12)]) auto
  with db2 gt col assms(1) show ?thesis
    by (auto simp: capture_overage_def Let_def entry_args_def overage_params_def split: if_splits)
qed

definition capture_params :: "CaptureParams \<Rightarrow> LedgerReservation \<Rightarrow> numeric \<Rightarrow> EntryParams" where
  "capture_params params r v = \<lparr>epUserID = lrUserID r, epRequestRecordID = Some (lrRequestRecordID r), epAmount = v,
     epCurrency = lrCurrency r, epIdempotencyKey = caIdempotencyKey params, epReason = caReason params\<rparr>"

lemma capture_authorized_ok:
  assumes "healthy env" "ledger_inv db" "r \<in> set (ledger_reservations db)" "lrStatus r = ReservationStatusAuthorized"
    and "capture_ok db params r n" "numericRat c = Some (units (min n (lrAuthorizedAmount r)))"
    and "over = (lrAuthorizedAmount r < n)"
  shows "\<exists>rv db'. capture_authorized env db params r c over = Inr (rv, db')"
proof -
  let ?a = "lrAuthorizedAmount r" and ?k = "res_key r"
  let ?c = "min n ?a" and ?p = "capture_params params r c"
  have n: "0 < n" "fits n" using assms(5) by (simp_all add: capture_ok_def)
  note hold = hold_backed [OF assms(2-4)] and own = reservation_check [OF assms(2,3)]
  have cur: "lrCurrency r \<noteq> ''''" using own(1) by (simp add: check_ledger_reservation_def)
  have bal: "balances_ok db" using assms(2) by (simp add: ledger_inv_def)
  have c: "0 < ?c" "fits ?c" "fits ?a" using n hold by (auto simp: fits_def)
  obtain row where row: "GetUserBalanceForUpdate db (lrUserID r) (lrCurrency r) = Inr row"
    "account db ?k = (ubBalance row, ubReservedBalance row)"
    using hold(1,2) account_row [of db "lrUserID r" "lrCurrency r"] by auto
  obtain r1 db1 where cap: "CaptureUserReservedBalance (clock env) db c (num ?a) (lrUserID r) (lrCurrency r) = Inr (r1, db1)"
    "ubBalance r1 = fst (account db ?k) - ?c"
    using CaptureUserReservedBalance_ok [OF bal assms(6), of ?a "lrUserID r" "lrCurrency r" "clock env"] c hold by auto
  obtain bal1 where set: "balance_set db db1 ?k bal1 (snd (account db ?k) - ?a)" "fits bal1" "ubBalance r1 = bal1"
    using CaptureUserReservedBalance_Inr [OF cap(1)] by blast
  note frame = balance_set_frame [OF set(1)]
  have same: "users db1 = users db" "requests db1 = requests db" "ledger_entries db1 = ledger_entries db"
    "billing_exceptions db1 = billing_exceptions db" "ledger_reservations db1 = ledger_reservations db"
    using frame(1) by (simp_all add: same_tables_def)
  have p: "params_ok db ?p ?c"
    using assms(5,6) c cur own(2) by (simp add: params_ok_def capture_params_def capture_ok_def owned_def)
  have bounds: "fits (ubBalance row)" "fits (ubBalance r1)" "0 \<le> ubBalance row" "0 \<le> ubBalance r1"
    using hold row(2) set(2,3) frame(2,3) by auto
  have key: "epIdempotencyKey ?p \<notin> entry_keys db1"
    using assms(5) same(3) by (simp add: capture_params_def capture_ok_def entry_keys_def)
  have deb: "EntryTypeDebit \<in> set credit_types \<and> ubBalance r1 = ubBalance row + ?c \<or>
      EntryTypeDebit \<in> set debit_types \<and> ubBalance r1 = ubBalance row - ?c"
    using cap(2) row(2) by (simp add: debit_types_def)
  obtain e db2 where e: "CreateLedgerEntry (clock env) db1 (entry_args ?p EntryTypeDebit row r1) = Inr (e, db2)"
    by (rule CreateLedgerEntry_ok [OF p same(1,2) key bounds deb])
  note ce = CreateLedgerEntry_Inr [OF e]
  have db2: "db2 = db1\<lparr>ledger_entries := ledger_entries db1 @ [e], next_id := next_id db1 + 1\<rparr>" "leID e = next_id db1"
    using ce(1) by (simp_all add: entry_added_def)
  have res2: "ledger_reservations db2 = ledger_reservations db" "e \<in> set (ledger_entries db2)" "next_id db \<le> leID e"
    "leUserID e = lrUserID r" "leRequestRecordID e = Some (lrRequestRecordID r)"
    using same db2 frame(4) ce(3,4) by (simp_all add: capture_params_def)
  obtain r' db3 where row3: "CaptureLedgerReservation (clock env) db2 c (Some (leID e)) (lrID r) = Inr (r', db3)"
    using CaptureLedgerReservation_ok [OF assms(2-4,6) c(1) min.cobounded2 c(3) res2] by blast
  have dist: "distinct (map lrID (ledger_reservations db2))" using assms(2) by (simp add: res2 inv_parts)
  note up = CaptureLedgerReservation_Inr [OF row3 dist assms(3) [folded res2(1)] assms(6)]
  have "\<exists>ov db4. (if over then capture_overage env db3 params r r1 c else Inr (numericZero, db3)) = Inr (ov, db4)"
  proof (cases "?a < n")
    case True
    have acc: "account db3 = (account db)(?k := (bal1, snd (account db ?k) - ?a))"
      using balance_set_account [OF set(1)] by (simp add: up(5) db2)
    obtain row' where "GetUserBalanceForUpdate db1 (lrUserID r) (lrCurrency r) = Inr row'"
      using balance_set_row [OF set(1)] by blast
    then have row': "GetUserBalanceForUpdate db3 (lrUserID r) (lrCurrency r) = Inr row'"
      by (simp add: up(5) db2 GetUserBalanceForUpdate_def put_reservation_def)
    have ok: "balances_ok db3" using balance_set_ok [OF set(1) bal set(2)] by (simp add: up(5) db2)
    have "entry_keys db3 = insert (caIdempotencyKey params) (entry_keys db)"
      using ce(7) same(3) by (simp add: up(5) db2 entry_keys_def capture_params_def)
    then have key3: "overageIdempotencyKey (caIdempotencyKey params) \<notin> entry_keys db3"
      using assms(5) by (auto simp: capture_ok_def overageIdempotencyKey_def)
    have new: "lrID r \<notin> beReservationID ` set (billing_exceptions db3)"
      "lrRequestRecordID r \<notin> beRequestRecordID ` set (billing_exceptions db3)" "owned db3 r"
      using no_exception [OF assms(2-4)] own(2) same by (simp_all add: up(5) db2 owned_def)
    have "\<exists>s \<in> set (ledger_reservations db3). same_hold r s"
      using up(3) assms(3) same(5)
      by (auto simp: up(5) db2 same_hold_def intro!: bexI [of _ r'] image_eqI [of _ _ r])
    moreover have "numericRat (caActualAmount params) = Some (units n)" using assms(5) by (simp add: capture_ok_def)
    moreover have "numericRat c = Some (units ?a)" using assms(6) True by simp
    moreover have "ubBalance r1 = fst (account db3 ?k)" using set(3) by (simp add: acc)
    ultimately obtain ov db4 where "capture_overage env db3 params r r1 c = Inr (ov, db4)"
      using capture_overage_ok [OF assms(1) ok row' _ n(2) hold(1) True _ _ key3 new(3) cur new(1,2)] by blast
    then show ?thesis using assms(7) True by simp
  next
    case False
    then show ?thesis using assms(7) by simp
  qed
  with row cap e row3 assms(1) show ?thesis
    by (auto simp: capture_authorized_def entry_args_def capture_params_def)
qed

lemma captureWithQueries_ok:
  assumes "healthy env" "ledger_inv db" "r \<in> set (ledger_reservations db)" "lrStatus r = ReservationStatusAuthorized"
    and "capture_ok db params r n"
  shows "\<exists>rv db'. captureWithQueries env db params = Inr (rv, db')"
proof -
  have v: "numericRat (caActualAmount params) = Some (units n)" "0 < n" using assms(5) by (simp_all add: capture_ok_def)
  have c: "numericRat (numericMin (caActualAmount params) (num (lrAuthorizedAmount r)))
      = Some (units (min n (lrAuthorizedAmount r)))"
    using numericMin_val [OF v(1), of "num (lrAuthorizedAmount r)"] by (simp add: min_def)
  have gt: "numericGreaterThan (caActualAmount params) (num (lrAuthorizedAmount r)) = (lrAuthorizedAmount r < n)"
    using numericGreaterThan_val [OF v(1), of "num (lrAuthorizedAmount r)"] by simp
  have "isPositiveNumeric (caActualAmount params)" using v by (simp add: isPositiveNumeric_val)
  moreover have "\<not> wrong_reservation (caReservationID params) r" "caRequestRecordID params = lrRequestRecordID r"
    using assms(5) by (auto simp: capture_ok_def)
  ultimately show ?thesis
    using capture_authorized_ok [OF assms c gt] reservation_found [OF assms(2,3)] assms(1,4)
    by (simp add: captureWithQueries_def)
qed

text \<open>What the overage step does to the account and to the exceptions.\<close>

lemma overage_taken_account:
  assumes "overage_taken params r (units n) got db db'" "account db (res_key r) = (bal, res)" "lrAuthorizedAmount r < n"
    and "res \<le> bal"
  shows "got = min (bal - res) (n - lrAuthorizedAmount r)"
    "account db' = (account db)(res_key r := (bal - got, res))"
    "if lrAuthorizedAmount r + got < n
     then \<exists>x. billing_exceptions db' = billing_exceptions db @ [x] \<and> write_off r (units n) got x
     else billing_exceptions db' = billing_exceptions db"
proof -
  obtain db1 where got: "got = max (min (bal - res) (n - lrAuthorizedAmount r)) 0"
    and one: "if 0 < got then \<exists>e. posted db db1 e \<and> overage_entry params r got e else idle db db1"
    and two: "if lrAuthorizedAmount r + got < n
      then \<exists>ex. exception_added db1 db' ex \<and> write_off r (units n) got ex else db' = db1"
    using assms(1,2) by (auto simp: overage_taken_def)
  show got': "got = min (bal - res) (n - lrAuthorizedAmount r)" using got assms(3,4) by simp
  have db1: "account db1 = (account db)(res_key r := (bal - got, res)) \<and> billing_exceptions db1 = billing_exceptions db"
  proof (cases "0 < got")
    case True
    then obtain e where e: "posted db db1 e" "overage_entry params r got e" using one by auto
    then have "signed e = - got" using debit_signed [of e] by (simp add: overage_entry_def)
    moreover have "entry_key e = res_key r" using e(2) by (simp add: overage_entry_def)
    ultimately show ?thesis using posted_account [OF e(1)] e(1) assms(2) by (simp add: posted_def)
  next
    case False
    then have "idle db db1" "got = 0" using one got by simp_all
    moreover from this assms(2) have "(account db)(res_key r := (bal - got, res)) = account db" by auto
    ultimately show ?thesis by (simp add: idle_def same_tables_def)
  qed
  have "account db' = account db1"
    using two by (auto simp: exception_added_def split: if_splits)
  with db1 show "account db' = (account db)(res_key r := (bal - got, res))" by simp
  show "if lrAuthorizedAmount r + got < n
     then \<exists>x. billing_exceptions db' = billing_exceptions db @ [x] \<and> write_off r (units n) got x
     else billing_exceptions db' = billing_exceptions db"
    using two db1 by (auto simp: exception_added_def split: if_splits)
qed

lemma round_min_units: "round_half_away (min (units n) (units a) * 10 ^ 10) = min n a"
  by (cases "n \<le> a") (simp_all add: min_def)

lemma Capture_spec:
  assumes "healthy env" "ledger_inv db" "r \<in> set (ledger_reservations db)" "lrStatus r = ReservationStatusAuthorized"
    and "capture_ok db params r n" "account db (res_key r) = (bal, res)" "a = lrAuthorizedAmount r"
    and "paid = min n (a + (bal - res))"
  shows "\<exists>rv db'. Capture env db params = (Inr rv, db') \<and> rvID rv = lrID r \<and> rvStatus rv = ReservationStatusCaptured \<and>
    account db' = (account db)(res_key r := (bal - paid, res - a)) \<and>
    (if paid < n
     then \<exists>x. billing_exceptions db' = billing_exceptions db @ [x] \<and> write_off r (units n) (paid - a) x
     else billing_exceptions db' = billing_exceptions db)"
proof -
  obtain rv db' where run: "captureWithQueries env db params = Inr (rv, db')"
    using captureWithQueries_ok [OF assms(1-5)] by blast
  have v: "numericRat (caActualAmount params) = Some (units n)" "caRequestRecordID params = lrRequestRecordID r"
    using assms(5) by (simp_all add: capture_ok_def)
  have le: "res \<le> bal" using hold_backed(3) [OF assms(2-4)] assms(6) by simp
  from run assms(2) have "rvID rv = lrID r \<and> rvStatus rv = ReservationStatusCaptured \<and>
    account db' = (account db)(res_key r := (bal - paid, res - a)) \<and>
    (if paid < n
     then \<exists>x. billing_exceptions db' = billing_exceptions db @ [x] \<and> write_off r (units n) (paid - a) x
     else billing_exceptions db' = billing_exceptions db)"
  proof (cases rule: captureWithQueries_inv)
    case (replay r0)
    then have "r0 = r" using v(2) by (intro reservation_unique [OF assms(2,3)]) simp_all
    with replay(3) assms(4) show ?thesis by simp
  next
    case (captured r0 r' e db3 x)
    then have "r0 \<in> set (ledger_reservations db)" by (simp add: captured_def settled_row_def)
    then have r0: "r0 = r" using captured(1) v(2) by (intro reservation_unique [OF assms(2,3)]) simp_all
    have x: "x = units n" using captured(2) v(1) by simp
    have row: "same_hold r r'" "lrStatus r' = ReservationStatusCaptured" "billing_exceptions db3 = billing_exceptions db"
      "leAmount e = lrCapturedAmount r'"
      using captured(4) by (auto simp: captured_def settled_row_def r0 capture_linked_def)
    have amt: "leAmount e = min n a" using captured(6) row(4) round_min_units [of n a] by (simp add: r0 x assms(7))
    have acc: "account db3 = (account db)(res_key r := (bal - min n a, res - a))"
      using captured(4) assms(6) by (simp add: captured_def r0 amt assms(7))
    have rv: "rvID (reservationFromSQLC r') = lrID r" "rvStatus (reservationFromSQLC r') = ReservationStatusCaptured"
      using row(1,2) by (simp_all add: reservationFromSQLC_def same_hold_def)
    show ?thesis
    proof (cases "a < n")
      case True
      then obtain got where rv': "rv = (reservationFromSQLC r')\<lparr>rvOverageCapturedAmount := num got\<rparr>"
        and took: "overage_taken params r (units n) got db3 db'" using captured(7) by (auto simp: r0 x assms(7))
      have acc3: "account db3 (res_key r) = (bal - a, res - a)" using True by (simp add: acc)
      note o = overage_taken_account [OF took acc3 True [unfolded assms(7)], folded assms(7), simplified, OF le]
      have paid: "paid = a + got" using o(1) True le assms(8) by simp
      show ?thesis
        using o(2,3) rv row(3) by (cases "a + got < n") (simp_all add: rv' paid acc diff_diff_eq)
    next
      case False
      with captured(7) have "rv = (reservationFromSQLC r')\<lparr>rvOverageCapturedAmount := numericZero\<rparr>" "db' = db3"
        by (simp_all add: r0 x assms(7))
      moreover have "paid = n" "min n a = n" using False le assms(8) by simp_all
      ultimately show ?thesis using rv row(3) acc by simp
    qed
  qed
  with run assms(1) show ?thesis by (simp add: Capture_def)
qed

subsection \<open>After the settlement\<close>

text \<open>A captured reservation is never released, a released one never captured; only replays answer.\<close>

lemma settled_found:
  assumes "ledger_inv db" "r \<in> settled_reservations_of db" "ledger_step\<^sup>*\<^sup>* db db'"
  shows "r \<in> set (ledger_reservations db')" "ledger_inv db'"
    "GetLedgerReservationByRequestRecordIDForUpdate db' (lrRequestRecordID r) = Inr r"
proof -
  show inv: "ledger_inv db'" by (rule ledger.reach_inv [OF assms(3,1)])
  show r: "r \<in> set (ledger_reservations db')"
    using settlement_log.fact_kept [OF assms(3,1,2)] by (simp add: settled_reservations_of_def)
  show "GetLedgerReservationByRequestRecordIDForUpdate db' (lrRequestRecordID r) = Inr r"
    by (rule reservation_found [OF inv r])
qed

lemma releaseWithQueries_captured:
  assumes "GetLedgerReservationByRequestRecordIDForUpdate db (rlRequestRecordID params) = Inr r"
    and "lrStatus r = ReservationStatusCaptured"
  shows "\<exists>err. releaseWithQueries env db params = Inl err"
  using assms by (simp add: releaseWithQueries_def store_call_def)

lemma captureWithQueries_released:
  assumes "GetLedgerReservationByRequestRecordIDForUpdate db (caRequestRecordID params) = Inr r"
    and "lrStatus r = ReservationStatusReleased"
  shows "\<exists>err. captureWithQueries env db params = Inl err"
  using assms by (simp add: captureWithQueries_def store_call_def)

lemma refused_release:
  assumes "\<And>env params. rlRequestRecordID params = q \<Longrightarrow> \<exists>err. releaseWithQueries env db params = Inl err"
  shows "rlRequestRecordID params = q \<Longrightarrow> \<exists>err. Release env db params = (Inl err, db)"
    "rbRequestRecordID exc = q \<Longrightarrow> \<exists>err. ReleaseWithBillingException env db exc = (Inl err, db)"
proof -
  show "\<exists>err. Release env db params = (Inl err, db)" if "rlRequestRecordID params = q"
    using assms [OF that, of env] by (auto simp: Release_def split: sum.split)
  show "\<exists>err. ReleaseWithBillingException env db exc = (Inl err, db)" if "rbRequestRecordID exc = q"
    using assms [of "\<lparr>rlRequestRecordID = rbRequestRecordID exc, rlReservationID = rbReservationID exc\<rparr>" env] that
    by (auto simp: ReleaseWithBillingException_def split: sum.split)
qed

lemma refused_capture:
  "\<exists>err. captureWithQueries env db params = Inl err \<Longrightarrow> \<exists>err. Capture env db params = (Inl err, db)"
  by (auto simp: Capture_def split: sum.split)

text \<open>A second release answers with the same row and writes nothing.\<close>

lemma release_replay:
  assumes "healthy env" "GetLedgerReservationByRequestRecordIDForUpdate db (rlRequestRecordID params) = Inr r"
    and "lrStatus r = ReservationStatusReleased" "rlReservationID params \<in> {None, Some (lrID r)}"
  shows "Release env db params = (Inr (reservationFromSQLC r), db)"
  using assms by (auto simp: Release_def releaseWithQueries_def)

text \<open>Captured reservations without an exception stay without one.\<close>

definition unexcused :: "db \<Rightarrow> LedgerReservation set" where
  "unexcused db = {r \<in> set (ledger_reservations db). lrStatus r = ReservationStatusCaptured \<and>
     lrID r \<notin> beReservationID ` set (billing_exceptions db)}"

lemma unexcused_same:
  assumes "settled_reservations_of db \<subseteq> settled_reservations_of db'" "billing_exceptions db' = billing_exceptions db"
  shows "unexcused db \<subseteq> unexcused db'"
  using assms by (auto simp: unexcused_def settled_reservations_of_def)

lemma unexcused_added:
  assumes "settled_reservations_of db \<subseteq> settled_reservations_of db'"
    and "billing_exceptions db' = billing_exceptions db @ [x]"
    and "\<And>s. s \<in> unexcused db \<Longrightarrow> lrID s \<noteq> beReservationID x"
  shows "unexcused db \<subseteq> unexcused db'"
  using assms by (fastforce simp: unexcused_def settled_reservations_of_def)

lemma exposed_not_captured:
  assumes "ledger_inv db1" "exception_linked (ledger_reservations db1) x" "beActualAmount x = None"
    and "settled_reservations_of db \<subseteq> settled_reservations_of db1" "s \<in> unexcused db"
  shows "lrID s \<noteq> beReservationID x"
proof
  assume id: "lrID s = beReservationID x"
  obtain r where r: "r \<in> set (ledger_reservations db1)" "lrID r = beReservationID x" "lrStatus r = ReservationStatusReleased"
    using assms(2,3) by (auto simp: exception_linked_def)
  have s: "s \<in> set (ledger_reservations db1)" "lrStatus s = ReservationStatusCaptured"
    using assms(4,5) by (auto simp: unexcused_def settled_reservations_of_def)
  have "s = r" using reservation_id_unique [OF assms(1) r(1) s(1)] id r(2) by simp
  with r(3) s(2) show False by simp
qed

lemma overage_exceptions:
  assumes "overage_taken params r x got db db'"
  shows "billing_exceptions db' = billing_exceptions db \<or>
    (\<exists>ex. billing_exceptions db' = billing_exceptions db @ [ex] \<and> beReservationID ex = lrID r)"
proof -
  obtain db1 where one: "if 0 < got then \<exists>e. posted db db1 e \<and> overage_entry params r got e else idle db db1"
    and two: "if units (lrAuthorizedAmount r + got) < x
      then \<exists>ex. exception_added db1 db' ex \<and> write_off r x got ex else db' = db1"
    using assms by (auto simp: overage_taken_def)
  have "billing_exceptions db1 = billing_exceptions db"
    using one by (auto simp: posted_def idle_def same_tables_def split: if_splits)
  with two show ?thesis by (auto simp: exception_added_def write_off_def split: if_splits)
qed

lemma effect_unexcused: "ledger_effect db db' \<Longrightarrow> ledger_inv db \<Longrightarrow> unexcused db \<subseteq> unexcused db'"
proof (induction rule: ledger_effect.induct)
  case (free_exposed db db1 r r' db' x)
  have logs: "logged db db1" "logged db db'"
    using settled_logged_if(1) [OF free_exposed(1,5)] log_steps(4) [OF free_exposed(2)] logged_trans by blast+
  have "billing_exceptions db' = billing_exceptions db @ [x]"
    using free_exposed(1,2) by (simp add: released_def settled_row_def exception_added_def)
  then show ?case
    using exposed_not_captured [OF released_inv [OF free_exposed(1,5)] free_exposed(3,4)] logs
    by (intro unexcused_added) (auto simp: logged_def)
next
  case (expose db db' x)
  have "billing_exceptions db' = billing_exceptions db @ [x]" using expose(1) by (simp add: exception_added_def)
  then show ?case
    using exposed_not_captured [OF expose(4,2,3)] log_steps(4) [OF expose(1)]
    by (intro unexcused_added) (auto simp: logged_def)
next
  case (take_more db db1 r r' e params x got db')
  have log: "logged db db'"
    using settled_logged_if(2) [OF take_more(1,3)] overage_logged [OF take_more(2)] by (rule logged_trans)
  have r: "r \<in> set (ledger_reservations db)" "lrStatus r = ReservationStatusAuthorized"
    and same: "billing_exceptions db1 = billing_exceptions db"
    using take_more(1) by (simp_all add: captured_def settled_row_def)
  have new: "lrID s \<noteq> lrID r" if "s \<in> unexcused db" for s
    using that r reservation_id_unique [OF take_more(3) r(1), of s] by (auto simp: unexcused_def)
  show ?case
    using overage_exceptions [OF take_more(2)]
  proof (elim disjE exE conjE)
    fix ex assume "billing_exceptions db' = billing_exceptions db1 @ [ex]" "beReservationID ex = lrID r"
    then show ?case using log new same by (intro unexcused_added) (auto simp: logged_def)
  next
    assume "billing_exceptions db' = billing_exceptions db1"
    then show ?case using log same by (intro unexcused_same) (simp_all add: logged_def)
  qed
next
  case (outside db' db us qs)
  then show ?case by (intro unexcused_same) (simp_all add: settled_reservations_of_def)
next
  case (free db db' r r')
  then show ?case
    using settled_logged_if(1) [of db db' r r']
    by (intro unexcused_same) (simp_all add: logged_def released_def settled_row_def)
next
  case (take db db' r r' e)
  then show ?case
    using settled_logged_if(2) [of db db' r r' e]
    by (intro unexcused_same) (simp_all add: logged_def captured_def settled_row_def)
next
  case (post db db' e)
  then show ?case using log_steps(2) [of db db' e] by (intro unexcused_same) (simp_all add: logged_def posted_def)
next
  case (hold db db' r)
  then show ?case
    using log_steps(5) [of db db' r] by (intro unexcused_same) (simp_all add: logged_def reserved_def same_facts_def)
qed simp

interpretation unexcused_log: fact_log ledger_step ledger_inv unexcused
  by unfold_locales (rule effect_unexcused [OF step_effect])

subsection \<open>Repeating a capture\<close>

text \<open>What the first capture of \<open>n\<close> units leaves behind for a replay to find.\<close>

definition capture_trace :: "db \<Rightarrow> CaptureParams \<Rightarrow> LedgerReservation \<Rightarrow> int \<Rightarrow> int \<Rightarrow> LedgerReservation \<Rightarrow> bool" where
  "capture_trace db params r n got r' \<longleftrightarrow>
     r' \<in> set (ledger_reservations db) \<and> same_hold r r' \<and> lrStatus r' = ReservationStatusCaptured \<and>
     lrCapturedAmount r' = min n (lrAuthorizedAmount r) \<and> 0 \<le> got \<and>
     (if 0 < got
      then \<exists>e \<in> set (ledger_entries db). leIdempotencyKey e = overageIdempotencyKey (caIdempotencyKey params) \<and> leAmount e = got
      else overageIdempotencyKey (caIdempotencyKey params) \<notin> entry_keys db) \<and>
     (if min n (lrAuthorizedAmount r) + got < n
      then lrAuthorizedAmount r < n \<and> (\<exists>x \<in> set (billing_exceptions db). write_off r (units n) got x)
      else r' \<in> unexcused db)"

lemma overage_trace:
  assumes "overage_taken params r (units n) got db db'" "lrAuthorizedAmount r < n"
    and "r' \<in> set (ledger_reservations db)" "same_hold r r'" "lrStatus r' = ReservationStatusCaptured"
    and "lrCapturedAmount r' = lrAuthorizedAmount r" "lrID r \<notin> beReservationID ` set (billing_exceptions db)"
    and "overageIdempotencyKey (caIdempotencyKey params) \<notin> entry_keys db"
  shows "capture_trace db' params r n got r'"
proof -
  let ?k = "overageIdempotencyKey (caIdempotencyKey params)"
  obtain db1 where got: "0 \<le> got"
    and one: "if 0 < got then \<exists>e. posted db db1 e \<and> overage_entry params r got e else idle db db1"
    and two: "if lrAuthorizedAmount r + got < n
      then \<exists>ex. exception_added db1 db' ex \<and> write_off r (units n) got ex else db' = db1"
    using assms(1) by (auto simp: overage_taken_def)
  have db1: "ledger_reservations db1 = ledger_reservations db \<and> billing_exceptions db1 = billing_exceptions db \<and>
     (if 0 < got then \<exists>e \<in> set (ledger_entries db1). leIdempotencyKey e = ?k \<and> leAmount e = got
      else ?k \<notin> entry_keys db1)"
    using one assms(8) by (auto simp: posted_def overage_entry_def idle_def same_tables_def entry_keys_def split: if_splits)
  have tabs: "ledger_reservations db' = ledger_reservations db1" "ledger_entries db' = ledger_entries db1"
    using two by (auto simp: exception_added_def split: if_splits)
  have "if lrAuthorizedAmount r + got < n then \<exists>x \<in> set (billing_exceptions db'). write_off r (units n) got x
      else r' \<in> unexcused db'"
    using two db1 assms(3-5,7) by (auto simp: exception_added_def unexcused_def same_hold_def split: if_splits)
  moreover have "entry_keys db' = entry_keys db1" using tabs by (simp add: entry_keys_def)
  ultimately show ?thesis
    using got db1 tabs assms(2-6) by (simp add: capture_trace_def min_def)
qed

lemma first_capture_trace:
  assumes "captureWithQueries env db params = Inr (rv, db')" "ledger_inv db" "r \<in> set (ledger_reservations db)"
    and "lrStatus r = ReservationStatusAuthorized" "capture_ok db params r n"
  obtains r' got v where "capture_trace db' params r n got r'"
    "rv = (reservationFromSQLC r')\<lparr>rvOverageCapturedAmount := v\<rparr>" "numericRat v = Some (units got)"
proof -
  let ?a = "lrAuthorizedAmount r"
  have v: "numericRat (caActualAmount params) = Some (units n)" "caRequestRecordID params = lrRequestRecordID r"
    and keys: "overageIdempotencyKey (caIdempotencyKey params) \<notin> entry_keys db"
    using assms(5) by (simp_all add: capture_ok_def)
  from assms(1,2) show ?thesis
  proof (cases rule: captureWithQueries_inv)
    case (replay r0)
    then have "r0 = r" using v(2) by (intro reservation_unique [OF assms(2,3)]) simp_all
    with replay(3) assms(4) show ?thesis by simp
  next
    case (captured r0 r' e db3 x)
    then have "r0 \<in> set (ledger_reservations db)" by (simp add: captured_def settled_row_def)
    then have r0: "r0 = r" using captured(1) v(2) by (intro reservation_unique [OF assms(2,3)]) simp_all
    have x: "x = units n" using captured(2) v(1) by simp
    note row = captured_row [OF captured(4) [unfolded r0]]
    have amt: "lrCapturedAmount r' = min n ?a" using captured(6) round_min_units [of n ?a] by (simp add: r0 x)
    have new: "lrID r \<notin> beReservationID ` set (billing_exceptions db3)"
      using no_exception(1) [OF assms(2-4)] captured(4) by (simp add: captured_def settled_row_def)
    have "entry_keys db3 = insert (caIdempotencyKey params) (entry_keys db)"
      using captured(4,5) by (simp add: captured_def entry_keys_def)
    then have key3: "overageIdempotencyKey (caIdempotencyKey params) \<notin> entry_keys db3"
      using keys by (auto simp: overageIdempotencyKey_def)
    show ?thesis
    proof (cases "?a < n")
      case True
      then obtain got where "rv = (reservationFromSQLC r')\<lparr>rvOverageCapturedAmount := num got\<rparr>"
        "overage_taken params r (units n) got db3 db'" using captured(7) by (auto simp: r0 x)
      then show ?thesis
        using that [of got r' "num got"] overage_trace [OF _ True row _ new key3] amt True by simp
    next
      case False
      with captured(7) have "rv = (reservationFromSQLC r')\<lparr>rvOverageCapturedAmount := numericZero\<rparr>" "db' = db3"
        by (simp_all add: r0 x)
      moreover have "capture_trace db3 params r n 0 r'"
        using row amt new key3 False by (simp add: capture_trace_def unexcused_def same_hold_def)
      ultimately show ?thesis using that [of 0 r' numericZero] by simp
    qed
  qed
qed

lemma capture_trace_kept:
  assumes "capture_trace db params r n got r'" "ledger_inv db" "ledger_step\<^sup>*\<^sup>* db db'"
    and "overageIdempotencyKey (caIdempotencyKey params) \<in> entry_keys db' \<Longrightarrow>
      overageIdempotencyKey (caIdempotencyKey params) \<in> entry_keys db"
  shows "capture_trace db' params r n got r'"
proof -
  have "r' \<in> settled_reservations_of db" using assms(1) by (simp add: capture_trace_def settled_reservations_of_def)
  then have "r' \<in> set (ledger_reservations db')" by (rule settled_found(1) [OF assms(2) _ assms(3)])
  moreover note entry_log.reach_facts [OF assms(3,2)] exception_log.reach_facts [OF assms(3,2)]
    unexcused_log.reach_facts [OF assms(3,2)]
  ultimately show ?thesis
    using assms(1,4) unfolding capture_trace_def by (auto split: if_splits)
qed

text \<open>
  The replay is accepted for the captured amount \<open>n\<close>; it is accepted as well for any other amount \<open>m\<close> between the
  authorization and a fully collected \<open>n\<close>, because nothing compares \<open>m\<close> with what was collected.
\<close>

definition replay_amount :: "LedgerReservation \<Rightarrow> int \<Rightarrow> int \<Rightarrow> int \<Rightarrow> bool" where
  "replay_amount r n got m \<longleftrightarrow>
     m = n \<or> lrAuthorizedAmount r \<le> m \<and> m \<le> n \<and> n \<le> min n (lrAuthorizedAmount r) + got"

lemma replay_captured:
  assumes "capture_trace db params0 r n got r'" "ledger_inv db" "healthy env" "replay_amount r n got m"
    and "numericRat (caActualAmount params) = Some (units m)" "0 < m" "caRequestRecordID params = lrRequestRecordID r"
    and "caReservationID params \<in> {None, Some (lrID r)}" "caIdempotencyKey params = caIdempotencyKey params0"
  shows "\<exists>v. captureWithQueries env db params = Inr ((reservationFromSQLC r')\<lparr>rvOverageCapturedAmount := v\<rparr>, db) \<and>
    numericRat v = Some (units got)"
proof -
  let ?a = "lrAuthorizedAmount r" and ?k = "overageIdempotencyKey (caIdempotencyKey params)"
  let ?c = "numericMin (caActualAmount params) (num ?a)"
  have tr: "r' \<in> set (ledger_reservations db)" "same_hold r r'" "lrStatus r' = ReservationStatusCaptured"
    "lrCapturedAmount r' = min n ?a" "0 \<le> got" using assms(1) by (simp_all add: capture_trace_def)
  have mn: "min m ?a = min n ?a" using assms(4) by (auto simp: replay_amount_def)
  have c: "numericRat ?c = Some (units (min n ?a))"
    using numericMin_val [OF assms(5), of "num ?a"] unfolding mn [symmetric] by (simp add: min_def)
  obtain v where v: "(case GetLedgerEntryByIdempotencyKey db ?k of
       Inr overageEntry \<Rightarrow> Inr (num (leAmount overageEntry))
     | Inl err \<Rightarrow> if err \<noteq> ErrNoRows then Inl (store_failed err ''lookup ledger overage entry'') else Inr numericZero) = Inr v"
    "numericRat v = Some (units got)"
  proof (cases "0 < got")
    case True
    then obtain e where e: "e \<in> set (ledger_entries db)" "leIdempotencyKey e = ?k" "leAmount e = got"
      using assms(1,9) by (auto simp: capture_trace_def)
    then have "GetLedgerEntryByIdempotencyKey db ?k = Inr e"
      using entries.lookup_member [of db e] assms(2) by (simp add: inv_parts)
    with e that show ?thesis by simp
  next
    case False
    then have "?k \<notin> entry_keys db" "got = 0" using assms(1,9) tr(5) by (simp_all add: capture_trace_def)
    then show ?thesis using fresh_lookup [of ?k db] that by simp
  qed
  have sum: "numericRat (numericAdd ?c v) = Some (units (min n ?a + got))"
    using numericAdd_val [OF c v(2)] by simp
  have gt: "numericGreaterThan (caActualAmount params) (numericAdd ?c v) \<longleftrightarrow> min n ?a + got < n"
    using numericGreaterThan_val [OF assms(5) sum] assms(4) by (auto simp: replay_amount_def)
  have same: "sameNumeric (num (lrCapturedAmount r')) ?c" using tr(4) by (simp add: sameNumeric_iff c)
  have "capture_replay env db params r' ?c = Inr ((reservationFromSQLC r')\<lparr>rvOverageCapturedAmount := v\<rparr>)"
  proof (cases "min n ?a + got < n")
    case True
    then obtain x where x: "x \<in> set (billing_exceptions db)" "write_off r (units n) got x" "?a < n"
      using assms(1) by (auto simp: capture_trace_def)
    have "beReservationID x = lrID r'" using x(2) tr(2) by (simp add: write_off_def same_hold_def)
    then have "GetLedgerBillingExceptionByReservationID db (lrID r') = Inr x"
      using exceptions.lookup_member [of db x] x(1) assms(2) by (simp add: inv_parts)
    moreover have "m = n" using assms(4) True by (auto simp: replay_amount_def)
    ultimately show ?thesis
      using same v(1) gt True sum x(2,3) assms(3,5) by (simp add: capture_replay_def Let_def write_off_def sameNumeric_iff)
  next
    case False
    then have "r' \<in> unexcused db" using assms(1) by (auto simp: capture_trace_def)
    then have "GetLedgerBillingExceptionByReservationID db (lrID r') = Inl ErrNoRows"
      by (simp add: exceptions.lookup_Inl_iff unexcused_def)
    with same v(1) gt False assms(3) show ?thesis by (simp add: capture_replay_def Let_def)
  qed
  moreover have "GetLedgerReservationByRequestRecordIDForUpdate db (caRequestRecordID params) = Inr r'"
    using reservation_found [OF assms(2) tr(1)] tr(2) assms(7) by (simp add: same_hold_def)
  moreover have "\<not> wrong_reservation (caReservationID params) r'" "lrAuthorizedAmount r' = ?a"
    using assms(8) tr(2) by (auto simp: same_hold_def)
  moreover have "isPositiveNumeric (caActualAmount params)" using assms(5,6) by (simp add: isPositiveNumeric_val)
  ultimately show ?thesis
    using v(2) tr(3) assms(3) by (intro exI [of _ v]) (simp add: captureWithQueries_def)
qed

end
