(* ===== verification/Ledger_Laws.thy ===== *)
theory Ledger_Laws
  imports Ledger_Spec
begin

text \<open>
  The properties of the user ledger, over the operations of \<open>Ledger_Entries\<close> and \<open>Ledger_Reservations\<close> and the
  reachable states of \<open>Ledger_Machine\<close>. The witnesses run one request: a top-up of 12 units, a hold of 10, and
  a capture of 15 or a release.
\<close>

subsection \<open>A run\<close>

definition demo_env :: env where
  "demo_env = \<lparr>fault = \<lambda>_. False, commit_outcome = CommitOk, clock = 0\<rparr>"

definition demo_topup :: EntryParams where
  "demo_topup = \<lparr>epUserID = 1, epRequestRecordID = None, epAmount = num 12, epCurrency = ''USD'',
     epIdempotencyKey = ''topup'', epReason = ''topup''\<rparr>"

definition demo_hold :: PreAuthorizeParams where
  "demo_hold = \<lparr>paUserID = 1, paRequestRecordID = 7, paEstimatedAmount = num 10, paCurrency = ''USD'',
     paIdempotencyKey = ''hold'', paReason = ''chat''\<rparr>"

definition demo_capture :: "int \<Rightarrow> CaptureParams" where
  "demo_capture n = \<lparr>caRequestRecordID = 7, caReservationID = None, caActualAmount = num n,
     caIdempotencyKey = ''capture'', caReason = ''chat''\<rparr>"

definition demo_release :: ReleaseParams where
  "demo_release = \<lparr>rlRequestRecordID = 7, rlReservationID = None\<rparr>"

definition demo_new :: db where
  "demo_new = empty_db\<lparr>users := [1], requests := [(7, 1)]\<rparr>"

definition demo_funded :: db where "demo_funded = snd (Credit demo_env demo_new demo_new demo_topup)"
definition demo_held :: db where "demo_held = snd (PreAuthorize demo_env demo_funded demo_funded demo_hold)"
definition demo_captured :: db where "demo_captured = snd (Capture demo_env demo_held (demo_capture 15))"
definition demo_released :: db where "demo_released = snd (Release demo_env demo_held demo_release)"

definition demo_reservation :: LedgerReservation where
  "demo_reservation = \<lparr>lrID = 3, lrUserID = 1, lrRequestRecordID = 7, lrCurrency = ''USD'',
     lrStatus = ''authorized'', lrAuthorizedAmount = 10, lrCapturedAmount = 0, lrReleasedAmount = 0,
     lrEstimatedAmount = 10, lrCaptureLedgerEntryID = None, lrIdempotencyKey = ''hold'', lrReason = ''chat'',
     lrCreatedAt = 0, lrUpdatedAt = 0, lrCapturedAt = None, lrReleasedAt = None\<rparr>"

lemma demo_healthy: "healthy demo_env"
  by (simp add: demo_env_def healthy_def)

lemma demo_funded_eq: "demo_funded = \<lparr>users = [1], requests = [(7, 1)],
    user_balances = [\<lparr>ubID = 1, ubUserID = 1, ubCurrency = ''USD'', ubBalance = 12, ubReservedBalance = 0,
      ubCreatedAt = 0, ubUpdatedAt = 0\<rparr>],
    ledger_entries = [\<lparr>leID = 2, leUserID = 1, leRequestRecordID = None, leEntryType = ''credit'', leAmount = 12,
      leCurrency = ''USD'', leBalanceBefore = 0, leBalanceAfter = 12, leIdempotencyKey = ''topup'',
      leReason = ''topup'', leCreatedAt = 0\<rparr>],
    ledger_reservations = [], billing_exceptions = [], next_id = 3\<rparr>"
  by code_simp

lemma demo_held_eq: "demo_held = demo_funded\<lparr>
    user_balances := [\<lparr>ubID = 1, ubUserID = 1, ubCurrency = ''USD'', ubBalance = 12, ubReservedBalance = 10,
      ubCreatedAt = 0, ubUpdatedAt = 0\<rparr>],
    ledger_reservations := [demo_reservation], next_id := 4\<rparr>"
  by code_simp

lemmas demo_eqs = demo_held_eq demo_funded_eq demo_reservation_def

lemma reached:
  assumes "ledger_reachable db"
  shows "ledger_reachable (snd (Credit env seen db params))" "ledger_reachable (snd (PreAuthorize env seen db hold))"
    "ledger_reachable (snd (Capture env db cap))" "ledger_reachable (snd (Release env db rel))"
proof -
  have step: "ledger_reachable db'" if "ledger_step db db'" for db'
    using assms that by (simp add: ledger_reachable_def)
  show "ledger_reachable (snd (Credit env seen db params))" by (rule step, rule ledger_step.credit) (rule surjective_pairing)
  show "ledger_reachable (snd (PreAuthorize env seen db hold))"
    by (rule step, rule ledger_step.pre_authorize) (rule surjective_pairing)
  show "ledger_reachable (snd (Capture env db cap))" by (rule step, rule ledger_step.capture) (rule surjective_pairing)
  show "ledger_reachable (snd (Release env db rel))" by (rule step, rule ledger_step.release) (rule surjective_pairing)
qed

lemma demo_reachable:
  "ledger_reachable demo_new" "ledger_reachable demo_funded" "ledger_reachable demo_held"
  "ledger_reachable demo_captured" "ledger_reachable demo_released"
proof -
  have "ledger_step empty_db (empty_db\<lparr>users := 1 # users empty_db\<rparr>)" by (rule new_user)
  moreover have "ledger_step (empty_db\<lparr>users := 1 # users empty_db\<rparr>)
      (empty_db\<lparr>users := 1 # users empty_db\<rparr>\<lparr>requests := (7, 1) # requests (empty_db\<lparr>users := 1 # users empty_db\<rparr>)\<rparr>)"
    by (rule new_request)
  moreover have "empty_db\<lparr>users := 1 # users empty_db\<rparr>\<lparr>requests := (7, 1) # requests (empty_db\<lparr>users := 1 # users empty_db\<rparr>)\<rparr>
      = demo_new" by (simp add: demo_new_def empty_db_def)
  ultimately show new: "ledger_reachable demo_new" by (simp add: ledger_reachable_def)
  show funded: "ledger_reachable demo_funded" unfolding demo_funded_def by (rule reached(1) [OF new])
  show held: "ledger_reachable demo_held" unfolding demo_held_def by (rule reached(2) [OF funded])
  show "ledger_reachable demo_captured" unfolding demo_captured_def by (rule reached(3) [OF held])
  show "ledger_reachable demo_released" unfolding demo_released_def by (rule reached(4) [OF held])
qed

lemma demo_steps: "ledger_step\<^sup>*\<^sup>* demo_funded demo_held" "ledger_step\<^sup>*\<^sup>* demo_held demo_captured"
proof -
  have "ledger_step demo_funded demo_held" unfolding demo_held_def
    by (rule ledger_step.pre_authorize) (rule surjective_pairing)
  then show "ledger_step\<^sup>*\<^sup>* demo_funded demo_held" by simp
  have "ledger_step demo_held demo_captured" unfolding demo_captured_def
    by (rule ledger_step.capture) (rule surjective_pairing)
  then show "ledger_step\<^sup>*\<^sup>* demo_held demo_captured" by simp
qed

lemma demo_member: "demo_reservation \<in> set (ledger_reservations demo_held)"
  "lrStatus demo_reservation = ReservationStatusAuthorized" "account demo_held (res_key demo_reservation) = (12, 10)"
  by (simp_all add: demo_eqs account_def is_balance_def)

lemma demo_capture_ok: "capture_ok demo_held (demo_capture 15) demo_reservation 15"
  by (simp add: capture_ok_def demo_capture_def demo_eqs entry_keys_def overageIdempotencyKey_def fits_def)

subsection \<open>The books in every reachable state\<close>

text \<open>
  C9: In every state the ledger can reach, an account's balance is the signed sum of its entries, its reserved
  part the sum of its authorized reservations, and the reserved part lies between zero and the balance.
\<close>

theorem balances_reconcile:
  assumes "ledger_reachable db"
  shows "account db k = (entry_sum db k, held_sum db k) \<and> 0 \<le> held_sum db k \<and> held_sum db k \<le> entry_sum db k"
proof -
  have "books db" "balances_ok db" using reachable_inv [OF assms] by (simp_all add: ledger_inv_def)
  then show ?thesis using account_ok(1,2) [of db k] by (simp add: books_def)
qed

lemma balances_reconcile_witness:
  "entry_sum demo_held (1, ''USD'') = 12 \<and> held_sum demo_held (1, ''USD'') = 10 \<and>
   account demo_held (1, ''USD'') = (12, 10)"
  using balances_reconcile [OF demo_reachable(3), of "(1, ''USD'')"] demo_member(3) by (simp add: demo_reservation_def)

text \<open>
  C10: Facts are final: from a reachable state on, no entry and no billing exception changes or goes away, a
  settled reservation stays as it is, and a reservation keeps its owner, request, amounts and key.
\<close>

theorem ledger_facts_final:
  assumes "ledger_reachable db" "ledger_step\<^sup>*\<^sup>* db db'"
  shows "set (ledger_entries db) \<subseteq> set (ledger_entries db') \<and>
    set (billing_exceptions db) \<subseteq> set (billing_exceptions db') \<and>
    settled_reservations_of db \<subseteq> settled_reservations_of db' \<and>
    hold_terms ` set (ledger_reservations db) \<subseteq> hold_terms ` set (ledger_reservations db')"
  using entry_log.reach_facts [OF assms(2)] exception_log.reach_facts [OF assms(2)]
    settlement_log.reach_facts [OF assms(2)] hold_log.reach_facts [OF assms(2)] reachable_inv [OF assms(1)]
  by simp

lemma ledger_facts_final_witness:
  "hold_terms demo_reservation \<in> hold_terms ` set (ledger_reservations demo_captured)"
  using ledger_facts_final [OF demo_reachable(3) demo_steps(2)] demo_member(1) by blast

text \<open>
  In every reachable state a key names one fact: two entries with the same idempotency key are the same
  entry, two reservations of a request (or with the same key) the same reservation, and a
  reservation has at most one billing exception.
\<close>

theorem one_fact_per_key:
  assumes "ledger_reachable db"
  shows "distinct (map leIdempotencyKey (ledger_entries db)) \<and>
    distinct (map lrIdempotencyKey (ledger_reservations db)) \<and>
    distinct (map lrRequestRecordID (ledger_reservations db)) \<and>
    distinct (map beReservationID (billing_exceptions db))"
  using reachable_inv [OF assms] by (simp add: inv_parts)

lemma one_fact_per_key_witness:
  "distinct (map leIdempotencyKey (ledger_entries demo_captured)) \<and> length (ledger_entries demo_captured) = 3"
proof -
  have "length (ledger_entries demo_captured) = 3" by code_simp
  then show ?thesis using one_fact_per_key [OF demo_reachable(4)] by simp
qed

text \<open>
  No captured amount is lost: in every reachable state a captured reservation points at a debit entry of
  its request and account with exactly the captured amount, and its captured and released parts add up to the authorization.
\<close>

theorem captured_is_debited:
  assumes "ledger_reachable db" "r \<in> set (ledger_reservations db)" "lrStatus r = ReservationStatusCaptured"
  shows "\<exists>e \<in> set (ledger_entries db). lrCaptureLedgerEntryID r = Some (leID e) \<and> leEntryType e = EntryTypeDebit \<and>
    leAmount e = lrCapturedAmount r \<and> entry_key e = res_key r \<and> leRequestRecordID e = Some (lrRequestRecordID r) \<and>
    lrCapturedAmount r + lrReleasedAmount r = lrAuthorizedAmount r"
proof -
  have "capture_linked (ledger_entries db) r" "check_ledger_reservation r"
    using reachable_inv [OF assms(1)] assms(2) by (simp_all add: inv_parts)
  then show ?thesis using assms(3) by (auto simp: capture_linked_def check_ledger_reservation_def)
qed

lemma captured_is_debited_witness:
  "\<exists>r \<in> set (ledger_reservations demo_captured). \<exists>e \<in> set (ledger_entries demo_captured).
     lrCaptureLedgerEntryID r = Some (leID e) \<and> leAmount e = lrCapturedAmount r"
proof -
  have "\<exists>r \<in> set (ledger_reservations demo_captured). lrStatus r = ReservationStatusCaptured" by code_simp
  then show ?thesis using captured_is_debited [OF demo_reachable(4)] by blast
qed

subsection \<open>Credits and debits\<close>

text \<open>
  A key is posted at most once, whatever the idempotency lookup saw and however the commit ended: once
  the key has an entry, no credit, debit or adjustment under it changes the database.
\<close>

theorem posted_key_is_spent:
  assumes "epIdempotencyKey params \<in> entry_keys db" "apIdempotencyKey adjust \<in> entry_keys db"
  shows "snd (Credit env seen db params) = db \<and> snd (Debit env seen db params) = db \<and>
    snd (AdjustCredit env seen db adjust) = db \<and> snd (AdjustDebit env seen db adjust) = db"
proof -
  have "epIdempotencyKey (adjust_entry adjust) \<in> entry_keys db" using assms(2) by (simp add: adjust_entry_def)
  then show ?thesis
    using entry_key_known_unchanged [OF assms(1)] entry_key_known_unchanged [of "adjust_entry adjust" db]
    by (simp add: Credit_def Debit_def AdjustCredit_def AdjustDebit_def)
qed

lemma posted_key_is_spent_witness: "snd (Credit demo_env demo_new demo_funded demo_topup) = demo_funded"
proof -
  have key: "''topup'' \<in> entry_keys demo_funded" by (simp add: demo_eqs entry_keys_def)
  show ?thesis
    using posted_key_is_spent [of demo_topup demo_funded "\<lparr>apUserID = 1, apAmount = num 1, apCurrency = ''USD'',
        apIdempotencyKey = ''topup'', apReason = ''''\<rparr>" demo_env demo_new] key
    by (simp add: demo_topup_def)
qed

text \<open>
  A successful credit or debit is backed by an entry of the committed ledger with the requested
  user, request, type, currency and key, also when the lookup worked on an older state and the
  answer comes from another writer's row.
\<close>

theorem success_is_backed:
  assumes "ledger_reachable seen" "ledger_step\<^sup>*\<^sup>* seen db"
  shows "(\<forall>x db'. Credit env seen db params = (Inr x, db') \<longrightarrow> answered_by params EntryTypeCredit db' x) \<and>
    (\<forall>x db'. Debit env seen db params = (Inr x, db') \<longrightarrow> answered_by params EntryTypeDebit db' x)"
proof -
  have "set (ledger_entries seen) \<subseteq> set (ledger_entries db)"
    using entry_log.reach_facts [OF assms(2)] reachable_inv [OF assms(1)] by simp
  then show ?thesis
    using creditWithType_answers [of env seen db params EntryTypeCredit] debitTx_answers [of env seen db params EntryTypeDebit]
    by (simp add: Credit_def Debit_def)
qed

lemma success_is_backed_witness:
  "\<exists>x. Credit demo_env demo_new demo_funded demo_topup = (Inr x, demo_funded) \<and>
     answered_by demo_topup EntryTypeCredit demo_funded x"
proof -
  have step: "ledger_step\<^sup>*\<^sup>* demo_new demo_funded" unfolding demo_funded_def
    by (rule r_into_rtranclp, rule ledger_step.credit) (rule surjective_pairing)
  obtain x d where x: "Credit demo_env demo_new demo_funded demo_topup = (Inr x, d)" "d = demo_funded"
  proof -
    have "case Credit demo_env demo_new demo_funded demo_topup of (Inr x, d) \<Rightarrow> d = demo_funded | _ \<Rightarrow> False"
      by code_simp
    then show ?thesis using that by (auto split: prod.splits sum.splits)
  qed
  then show ?thesis using success_is_backed [OF demo_reachable(1) step] by blast
qed

text \<open>
  C11: Without store failures a fresh debit of \<open>n\<close> units succeeds exactly when \<open>n\<close> units are available (not
  reserved): it posts one entry of that amount and takes it from the balance; otherwise it answers with
  insufficient balance and changes nothing.
\<close>

theorem debit_iff_available:
  assumes "healthy env" "ledger_reachable db" "params_ok db params n" "epIdempotencyKey params \<notin> entry_keys db"
    and "account db (epUserID params, epCurrency params) = (bal, res)"
  shows "if n \<le> bal - res
    then \<exists>e db'. Debit env db db params = (Inr (entryFromSQLC e), db') \<and> ledger_entries db' = ledger_entries db @ [e] \<and>
      leAmount e = n \<and> account db' = (account db)((epUserID params, epCurrency params) := (bal - n, res))
    else Debit env db db params = (Inl insufficient_balance, db)"
proof -
  have bal: "balances_ok db" using reachable_inv [OF assms(2)] by (simp add: ledger_inv_def)
  have deb: "EntryTypeDebit \<in> set debit_types" by (simp add: debit_types_def)
  note spec = debitTx_spec [OF assms(1) bal assms(3,4) deb assms(5)]
  show ?thesis
  proof (cases "n \<le> bal - res")
    case True
    then obtain e db' where e: "Debit env db db params = (Inr (entryFromSQLC e), db')" "posted db db' e"
      "entry_matches params EntryTypeDebit e" "leAmount e = n" using spec by (auto simp: Debit_def)
    have "signed e = - n" "entry_key e = (epUserID params, epCurrency params)"
      using e(3,4) debit_signed [of e] by (simp_all add: entry_matches_def entry_key_def)
    then have "account db' = (account db)((epUserID params, epCurrency params) := (bal - n, res))"
      using posted_account [OF e(2)] assms(5) by simp
    moreover have "ledger_entries db' = ledger_entries db @ [e]" using e(2) by (simp add: posted_def)
    ultimately show ?thesis using True e(1,4) by auto
  next
    case False
    with spec show ?thesis by (simp add: Debit_def)
  qed
qed

lemma debit_iff_available_witness:
  "Debit demo_env demo_held demo_held (demo_topup\<lparr>epIdempotencyKey := ''d'', epAmount := num 3\<rparr>)
     = (Inl insufficient_balance, demo_held)"
proof -
  let ?p = "demo_topup\<lparr>epIdempotencyKey := ''d'', epAmount := num 3\<rparr>"
  have "params_ok demo_held ?p 3" "epIdempotencyKey ?p \<notin> entry_keys demo_held"
    "account demo_held (epUserID ?p, epCurrency ?p) = (12, 10)"
    by (simp_all add: params_ok_def demo_topup_def demo_eqs fits_def entry_keys_def account_def is_balance_def)
  from debit_iff_available [OF demo_healthy demo_reachable(3) this] show ?thesis by simp
qed

subsection \<open>Reservations\<close>

text \<open>
  C12: Without store failures a fresh pre-authorization of \<open>est\<close> units holds the smaller of the estimate and the
  available balance in a new authorized reservation, leaving the balance itself; with nothing available it answers
  with insufficient balance and changes nothing.
\<close>

theorem hold_takes_available:
  assumes "healthy env" "ledger_reachable db" "hold_ok db params est"
    and "account db (paUserID params, paCurrency params) = (bal, res)"
  shows "if res < bal
    then \<exists>row db'. PreAuthorize env db db params = (Inr (reservationFromSQLC row), db') \<and>
      ledger_reservations db' = ledger_reservations db @ [row] \<and> lrStatus row = ReservationStatusAuthorized \<and>
      lrRequestRecordID row = paRequestRecordID params \<and> lrEstimatedAmount row = est \<and>
      lrAuthorizedAmount row = min (bal - res) est \<and>
      account db' = (account db)((paUserID params, paCurrency params) := (bal, res + min (bal - res) est))
    else PreAuthorize env db db params = (Inl insufficient_balance, db)"
proof -
  have bal: "balances_ok db" using reachable_inv [OF assms(2)] by (simp add: ledger_inv_def)
  have est: "0 < est" "numericRat (paEstimatedAmount params) = Some (units est)"
    using assms(3) by (simp_all add: hold_ok_def)
  note spec = PreAuthorize_spec [OF assms(1) bal assms(3,4)]
  show ?thesis
  proof (cases "res < bal")
    case True
    then obtain row db' where row: "PreAuthorize env db db params = (Inr (reservationFromSQLC row), db')"
      "reserved db db' row" "reservation_matches db params row" using spec est(1) by auto
    have "lrAuthorizedAmount row = min (bal - res) est" "lrEstimatedAmount row = est"
      "res_key row = (paUserID params, paCurrency params)" "lrRequestRecordID row = paRequestRecordID params"
      using row(3) est(2) assms(4) by (auto simp: reservation_matches_def)
    with True row(1,2) assms(4) show ?thesis by (auto simp: reserved_def)
  next
    case False
    with spec est(1) show ?thesis by simp
  qed
qed

lemma demo_hold_ok: "hold_ok demo_funded demo_hold 10"
  by (simp add: hold_ok_def demo_hold_def demo_eqs fits_def reservation_keys_def reserved_requests_def)

lemma hold_takes_available_witness:
  "\<exists>row db'. PreAuthorize demo_env demo_funded demo_funded demo_hold = (Inr (reservationFromSQLC row), db') \<and>
     lrAuthorizedAmount row = 10"
proof -
  have "account demo_funded (paUserID demo_hold, paCurrency demo_hold) = (12, 0)"
    by (simp add: demo_eqs demo_hold_def account_def is_balance_def)
  from hold_takes_available [OF demo_healthy demo_reachable(2) demo_hold_ok this] show ?thesis by auto
qed

text \<open>
  C13: Without store failures the capture of an actual cost of \<open>n\<close> units from an authorized reservation of \<open>a\<close> units
  always succeeds in a reachable state. It takes \<open>paid\<close> units from the balance, the smaller of the cost and the authorization plus what is available
  (no other hold is touched), gives the whole hold back, and writes off exactly the unpaid
  rest, with no exception when nothing is unpaid.
\<close>

theorem capture_settles_cost:
  assumes "healthy env" "ledger_reachable db" "r \<in> set (ledger_reservations db)"
    and "lrStatus r = ReservationStatusAuthorized" "capture_ok db params r n" "account db (res_key r) = (bal, res)"
    and "a = lrAuthorizedAmount r" "paid = min n (a + (bal - res))"
  shows "\<exists>rv db'. Capture env db params = (Inr rv, db') \<and> rvID rv = lrID r \<and> rvStatus rv = ReservationStatusCaptured \<and>
    account db' = (account db)(res_key r := (bal - paid, res - a)) \<and>
    (if paid < n
     then \<exists>x. billing_exceptions db' = billing_exceptions db @ [x] \<and> beReservationID x = lrID r \<and>
       beEventType x = BillingExceptionEventTypeWriteOff \<and> beActualAmount x = Some n \<and> beCapturedAmount x = paid \<and>
       bePlatformAmount x = n - paid
     else billing_exceptions db' = billing_exceptions db)"
proof -
  obtain rv db' where run: "Capture env db params = (Inr rv, db')" "rvID rv = lrID r" "rvStatus rv = ReservationStatusCaptured"
    "account db' = (account db)(res_key r := (bal - paid, res - a))"
    and ex: "if paid < n
     then \<exists>x. billing_exceptions db' = billing_exceptions db @ [x] \<and> write_off r (units n) (paid - a) x
     else billing_exceptions db' = billing_exceptions db"
    using Capture_spec [OF assms(1) reachable_inv [OF assms(2)] assms(3-8)] by blast
  have "beReservationID x = lrID r \<and> beEventType x = BillingExceptionEventTypeWriteOff \<and> beActualAmount x = Some n \<and>
      beCapturedAmount x = paid \<and> bePlatformAmount x = n - paid" if "write_off r (units n) (paid - a) x" for x
    using that assms(7) by (simp add: write_off_def flip: of_int_diff)
  with run ex show ?thesis by (auto split: if_splits)
qed

lemma capture_settles_cost_witness:
  "\<exists>rv x. Capture demo_env demo_held (demo_capture 15) = (Inr rv, demo_captured) \<and>
     account demo_captured (1, ''USD'') = (0, 0) \<and> billing_exceptions demo_captured = [x] \<and> bePlatformAmount x = 3"
proof -
  have "res_key demo_reservation = (1, ''USD'')" "lrAuthorizedAmount demo_reservation = 10"
    "billing_exceptions demo_held = []" by (simp_all add: demo_eqs)
  then show ?thesis
    using capture_settles_cost [OF demo_healthy demo_reachable(3) demo_member(1,2) demo_capture_ok demo_member(3) refl refl]
    by (auto simp: demo_captured_def)
qed

text \<open>
  Without store failures the release of an authorized reservation always succeeds in a reachable state: the whole hold
  becomes available again, no entry is written, and the row ends in the status released.
\<close>

theorem release_returns_hold:
  assumes "healthy env" "ledger_reachable db" "r \<in> set (ledger_reservations db)"
    and "lrStatus r = ReservationStatusAuthorized" "rlRequestRecordID params = lrRequestRecordID r"
    and "rlReservationID params \<in> {None, Some (lrID r)}" "account db (res_key r) = (bal, res)"
  shows "\<exists>r' db'. Release env db params = (Inr (reservationFromSQLC r'), db') \<and> r' \<in> set (ledger_reservations db') \<and>
    lrID r' = lrID r \<and> lrStatus r' = ReservationStatusReleased \<and> ledger_entries db' = ledger_entries db \<and>
    account db' = (account db)(res_key r := (bal, res - lrAuthorizedAmount r))"
proof -
  obtain r' db' where run: "Release env db params = (Inr (reservationFromSQLC r'), db')" "released db db' r r'"
    using Release_spec [OF assms(1) reachable_inv [OF assms(2)] assms(3-6)] by blast
  then have "lrID r' = lrID r"
    "ledger_reservations db' = map (\<lambda>x. if lrID x = lrID r' then r' else x) (ledger_reservations db)"
    by (simp_all add: released_def settled_row_def same_hold_def)
  then have "r' \<in> set (ledger_reservations db')" using assms(3) by (auto intro!: image_eqI [of _ _ r])
  with run assms(7) \<open>lrID r' = lrID r\<close> show ?thesis by (auto simp: released_def)
qed

lemma release_returns_hold_witness:
  "\<exists>r'. Release demo_env demo_held demo_release = (Inr (reservationFromSQLC r'), demo_released) \<and>
     account demo_released (1, ''USD'') = (12, 0)"
proof -
  have p: "rlRequestRecordID demo_release = lrRequestRecordID demo_reservation"
    "rlReservationID demo_release \<in> {None, Some (lrID demo_reservation)}"
    by (simp_all add: demo_release_def demo_eqs)
  have "res_key demo_reservation = (1, ''USD'')" "lrAuthorizedAmount demo_reservation = 10" by (simp_all add: demo_eqs)
  then show ?thesis
    using release_returns_hold [OF demo_healthy demo_reachable(3) demo_member(1,2) p demo_member(3)]
    by (auto simp: demo_released_def)
qed

text \<open>
  A release with a billing exception always succeeds for an authorized reservation of a reachable state
  (without store failures) and, besides the release, files one risk exposure of the authorized amount.
\<close>

theorem exposed_release_files_hold:
  assumes "healthy env" "ledger_reachable db" "r \<in> set (ledger_reservations db)"
    and "lrStatus r = ReservationStatusAuthorized" "rbRequestRecordID params = lrRequestRecordID r"
    and "rbReservationID params \<in> {None, Some (lrID r)}" "rbReasonCode params \<noteq> ''''" "rbReason params \<noteq> ''''"
  shows "\<exists>r' x db'. ReleaseWithBillingException env db params = (Inr (reservationFromSQLC r'), db') \<and>
    lrStatus r' = ReservationStatusReleased \<and> billing_exceptions db' = billing_exceptions db @ [x] \<and>
    beReservationID x = lrID r \<and> bePlatformAmount x = lrAuthorizedAmount r \<and>
    account db' = (account db)(res_key r :=
      (fst (account db (res_key r)), snd (account db (res_key r)) - lrAuthorizedAmount r))"
proof -
  obtain r' x db1 db' where run: "ReleaseWithBillingException env db params = (Inr (reservationFromSQLC r'), db')"
    and rel: "released db db1 r r'" and add: "exception_added db1 db' x"
    and x: "beReservationID x = lrID r" "bePlatformAmount x = lrAuthorizedAmount r"
    using ReleaseWithBillingException_spec [OF assms(1) reachable_inv [OF assms(2)] assms(3-8)] by blast
  have "billing_exceptions db1 = billing_exceptions db" using rel by (simp add: released_def settled_row_def)
  with run rel add x show ?thesis
    by (intro exI [of _ r'] exI [of _ x] exI [of _ db']) (simp add: released_def exception_added_def)
qed

lemma exposed_release_files_hold_witness:
  "\<exists>r' x db'. ReleaseWithBillingException demo_env demo_held \<lparr>rbRequestRecordID = 7, rbReservationID = Some 3,
       rbReasonCode = ''unknown_usage'', rbReason = ''no usage''\<rparr> = (Inr (reservationFromSQLC r'), db') \<and>
     bePlatformAmount x = 10 \<and> billing_exceptions db' = [x]"
proof -
  let ?p = "\<lparr>rbRequestRecordID = 7, rbReservationID = Some 3, rbReasonCode = ''unknown_usage'', rbReason = ''no usage''\<rparr>"
  have p: "rbRequestRecordID ?p = lrRequestRecordID demo_reservation"
    "rbReservationID ?p \<in> {None, Some (lrID demo_reservation)}" "rbReasonCode ?p \<noteq> ''''" "rbReason ?p \<noteq> ''''"
    by (simp_all add: demo_eqs)
  have "billing_exceptions demo_held = []" "lrAuthorizedAmount demo_reservation = 10" by (simp_all add: demo_eqs)
  then show ?thesis
    using exposed_release_files_hold [OF demo_healthy demo_reachable(3) demo_member(1,2) p] by auto
qed

text \<open>
  C14: A reservation is settled once and for all: after a capture, in every later state no release of
  that request succeeds or writes anything, and after a release no capture does, whatever the parameters, failures and commit
  outcomes.
\<close>

theorem settlement_exclusive:
  assumes "ledger_reachable db" "r \<in> set (ledger_reservations db)" "ledger_step\<^sup>*\<^sup>* db db'"
  shows "(lrStatus r = ReservationStatusCaptured \<and> rlRequestRecordID rel = lrRequestRecordID r \<and>
      rbRequestRecordID exc = lrRequestRecordID r \<longrightarrow>
      (\<exists>err. Release env db' rel = (Inl err, db')) \<and> (\<exists>err. ReleaseWithBillingException env db' exc = (Inl err, db'))) \<and>
    (lrStatus r = ReservationStatusReleased \<and> caRequestRecordID cap = lrRequestRecordID r \<longrightarrow>
      (\<exists>err. Capture env db' cap = (Inl err, db')))"
proof (intro conjI impI; elim conjE)
  assume st: "lrStatus r = ReservationStatusCaptured" "rlRequestRecordID rel = lrRequestRecordID r"
    "rbRequestRecordID exc = lrRequestRecordID r"
  then have "r \<in> settled_reservations_of db" using assms(2) by (simp add: settled_reservations_of_def)
  note found = settled_found(3) [OF reachable_inv [OF assms(1)] this assms(3)]
  have refused: "\<exists>err. releaseWithQueries env db' params = Inl err" if "rlRequestRecordID params = lrRequestRecordID r" for env params
    using found that by (intro releaseWithQueries_captured [OF _ st(1)]) simp
  show "\<exists>err. Release env db' rel = (Inl err, db')" by (rule refused_release(1) [OF refused st(2)])
  show "\<exists>err. ReleaseWithBillingException env db' exc = (Inl err, db')" by (rule refused_release(2) [OF refused st(3)])
next
  assume st: "lrStatus r = ReservationStatusReleased" "caRequestRecordID cap = lrRequestRecordID r"
  then have "r \<in> settled_reservations_of db" using assms(2) by (simp add: settled_reservations_of_def)
  note found = settled_found(3) [OF reachable_inv [OF assms(1)] this assms(3)]
  show "\<exists>err. Capture env db' cap = (Inl err, db')"
    using found st(2) by (intro refused_capture captureWithQueries_released [OF _ st(1)]) simp
qed

lemma settlement_exclusive_witness:
  "\<exists>err. Release demo_env demo_captured demo_release = (Inl err, demo_captured)"
proof -
  have "\<exists>r \<in> set (ledger_reservations demo_captured). lrStatus r = ReservationStatusCaptured \<and> lrRequestRecordID r = 7"
    by code_simp
  then obtain r where r: "r \<in> set (ledger_reservations demo_captured)" "lrStatus r = ReservationStatusCaptured"
    "lrRequestRecordID r = 7" by blast
  show ?thesis
    using settlement_exclusive [OF demo_reachable(4) r(1) rtranclp.rtrancl_refl, of demo_release
        "\<lparr>rbRequestRecordID = 7, rbReservationID = None, rbReasonCode = '''', rbReason = ''''\<rparr>"] r(2,3)
    by (simp add: demo_release_def)
qed

text \<open>
  Releasing is idempotent: in every state after a release, releasing the request again answers with the same
  reservation and changes nothing.
\<close>

theorem release_idempotent:
  assumes "ledger_reachable db" "r \<in> set (ledger_reservations db)" "lrStatus r = ReservationStatusReleased"
    and "ledger_step\<^sup>*\<^sup>* db db'" "healthy env" "rlRequestRecordID params = lrRequestRecordID r"
    and "rlReservationID params \<in> {None, Some (lrID r)}"
  shows "Release env db' params = (Inr (reservationFromSQLC r), db')"
proof -
  have "r \<in> settled_reservations_of db" using assms(2,3) by (simp add: settled_reservations_of_def)
  from settled_found(3) [OF reachable_inv [OF assms(1)] this assms(4)] show ?thesis
    using assms(6) by (intro release_replay [OF assms(5) _ assms(3,7)]) simp
qed

lemma release_idempotent_witness:
  "\<exists>rv. Release demo_env demo_released demo_release = (Inr rv, demo_released)"
proof -
  have "\<exists>r \<in> set (ledger_reservations demo_released). lrStatus r = ReservationStatusReleased \<and> lrRequestRecordID r = 7"
    by code_simp
  then obtain r where r: "r \<in> set (ledger_reservations demo_released)" "lrStatus r = ReservationStatusReleased"
    "lrRequestRecordID r = 7" by blast
  show ?thesis
    using release_idempotent [OF demo_reachable(5) r(1,2) rtranclp.rtrancl_refl demo_healthy, of demo_release] r(3)
    by (simp add: demo_release_def)
qed

text \<open>
  C15: Capturing is idempotent. After a first capture of an authorized hold (\<open>capture_ok\<close>: a positive amount, exact at ten decimals, for
  the request of the hold, with a key and a derived overage key that no entry had yet), and whatever operations the ledger has
  run since, the same call without a failing store call answers with the same reservation and an overage amount of the same
  value, and changes nothing, provided no other posting has taken the derived overage key in between.
\<close>

theorem capture_idempotent:
  assumes "CaptureWithQueries env db params = Inr (rv, db1)" "ledger_reachable db" "r \<in> set (ledger_reservations db)"
    and "lrStatus r = ReservationStatusAuthorized" "capture_ok db params r n" "ledger_step\<^sup>*\<^sup>* db1 db'" "healthy env'"
    and "overageIdempotencyKey (caIdempotencyKey params) \<in> entry_keys db' \<longrightarrow>
      overageIdempotencyKey (caIdempotencyKey params) \<in> entry_keys db1"
  shows "\<exists>v. CaptureWithQueries env' db' params = Inr (rv\<lparr>rvOverageCapturedAmount := v\<rparr>, db') \<and>
    sameNumeric v (rvOverageCapturedAmount rv)"
proof -
  have run: "captureWithQueries env db params = Inr (rv, db1)" using assms(1) by (simp add: CaptureWithQueries_def)
  note inv = reachable_inv [OF assms(2)]
  note inv1 = captureWithQueries_keeps [OF run inv]
  obtain r' got v where tr: "capture_trace db1 params r n got r'"
    and rv: "rv = (reservationFromSQLC r')\<lparr>rvOverageCapturedAmount := v\<rparr>" "numericRat v = Some (units got)"
    by (rule first_capture_trace [OF run inv assms(3-5)])
  have tr': "capture_trace db' params r n got r'" by (rule capture_trace_kept [OF tr inv1 assms(6)]) (use assms(8) in blast)
  have ok: "numericRat (caActualAmount params) = Some (units n)" "0 < n" "caRequestRecordID params = lrRequestRecordID r"
    "caReservationID params \<in> {None, Some (lrID r)}" using assms(5) by (simp_all add: capture_ok_def)
  have "replay_amount r n got n" by (simp add: replay_amount_def)
  from replay_captured [OF tr' ledger.reach_inv [OF assms(6) inv1] assms(7) this ok refl]
  obtain w where "captureWithQueries env' db' params = Inr ((reservationFromSQLC r')\<lparr>rvOverageCapturedAmount := w\<rparr>, db')"
    "numericRat w = Some (units got)" by blast
  with rv show ?thesis by (intro exI [of _ w]) (simp add: CaptureWithQueries_def sameNumeric_iff)
qed

lemma demo_capture_runs: "\<exists>rv db1. CaptureWithQueries demo_env demo_held (demo_capture 12) = Inr (rv, db1)"
  "capture_ok demo_held (demo_capture 12) demo_reservation 12"
proof -
  show ok: "capture_ok demo_held (demo_capture 12) demo_reservation 12"
    by (simp add: capture_ok_def demo_capture_def demo_eqs entry_keys_def overageIdempotencyKey_def fits_def)
  show "\<exists>rv db1. CaptureWithQueries demo_env demo_held (demo_capture 12) = Inr (rv, db1)"
    using captureWithQueries_ok [OF demo_healthy reachable_inv [OF demo_reachable(3)] demo_member(1,2) ok]
    by (simp add: CaptureWithQueries_def)
qed

lemma capture_idempotent_witness:
  "\<exists>rv db1 v. CaptureWithQueries demo_env demo_held (demo_capture 12) = Inr (rv, db1) \<and>
     CaptureWithQueries demo_env db1 (demo_capture 12) = Inr (rv\<lparr>rvOverageCapturedAmount := v\<rparr>, db1)"
proof -
  obtain rv db1 where run: "CaptureWithQueries demo_env demo_held (demo_capture 12) = Inr (rv, db1)"
    using demo_capture_runs(1) by blast
  from capture_idempotent [OF this demo_reachable(3) demo_member(1,2) demo_capture_runs(2) rtranclp.rtrancl_refl demo_healthy]
  show ?thesis using run by blast
qed

text \<open>
  A replayed capture does not check its amount against the first one when the authorization was exceeded
  and fully collected: every actual amount \<open>m\<close> from the authorization up to the first amount \<open>n\<close> is
  accepted and answered with the first capture.
\<close>

theorem replay_accepts_other_amount:
  assumes "CaptureWithQueries env db params = Inr (rv, db1)" "ledger_reachable db" "r \<in> set (ledger_reservations db)"
    and "lrStatus r = ReservationStatusAuthorized" "capture_ok db params r n" "healthy env'"
    and "lrAuthorizedAmount r \<le> m" "m \<le> n" "billing_exceptions db1 = billing_exceptions db"
  shows "\<exists>v. CaptureWithQueries env' db1 (params\<lparr>caActualAmount := num m\<rparr>) = Inr (rv\<lparr>rvOverageCapturedAmount := v\<rparr>, db1)"
proof -
  have run: "captureWithQueries env db params = Inr (rv, db1)" using assms(1) by (simp add: CaptureWithQueries_def)
  note inv = reachable_inv [OF assms(2)]
  note inv1 = captureWithQueries_keeps [OF run inv]
  obtain r' got v where tr: "capture_trace db1 params r n got r'"
    and rv: "rv = (reservationFromSQLC r')\<lparr>rvOverageCapturedAmount := v\<rparr>"
    by (rule first_capture_trace [OF run inv assms(3-5)])
  have "beReservationID x \<noteq> lrID r" if "x \<in> set (billing_exceptions db1)" for x
    using no_exception(1) [OF inv assms(3,4)] that unfolding assms(9) by (metis image_eqI)
  then have "n \<le> min n (lrAuthorizedAmount r) + got"
    using tr by (force simp: capture_trace_def write_off_def split: if_splits)
  then have amount: "replay_amount r n got m" using assms(7,8) by (simp add: replay_amount_def)
  have ok: "caRequestRecordID params = lrRequestRecordID r" "caReservationID params \<in> {None, Some (lrID r)}"
    using assms(5) by (simp_all add: capture_ok_def)
  have "0 < m" using hold_backed(1) [OF inv assms(3,4)] assms(7) by simp
  then have "\<exists>w. captureWithQueries env' db1 (params\<lparr>caActualAmount := num m\<rparr>)
      = Inr ((reservationFromSQLC r')\<lparr>rvOverageCapturedAmount := w\<rparr>, db1) \<and> numericRat w = Some (units got)"
    using ok by (intro replay_captured [OF tr inv1 assms(6) amount]) simp_all
  then show ?thesis by (auto simp: rv CaptureWithQueries_def)
qed

lemma replay_accepts_other_amount_witness:
  "\<exists>rv db1 v. CaptureWithQueries demo_env demo_held (demo_capture 12) = Inr (rv, db1) \<and>
     CaptureWithQueries demo_env db1 (demo_capture 11) = Inr (rv\<lparr>rvOverageCapturedAmount := v\<rparr>, db1)"
proof -
  obtain rv db1 where run: "CaptureWithQueries demo_env demo_held (demo_capture 12) = Inr (rv, db1)"
    using demo_capture_runs(1) by blast
  have "case CaptureWithQueries demo_env demo_held (demo_capture 12) of
      Inr (_, d) \<Rightarrow> billing_exceptions d = billing_exceptions demo_held | _ \<Rightarrow> False" by code_simp
  then have "billing_exceptions db1 = billing_exceptions demo_held" by (simp add: run)
  then show ?thesis
    using replay_accepts_other_amount [OF run demo_reachable(3) demo_member(1,2) demo_capture_runs(2) demo_healthy, of 11] run
    by (auto simp: demo_eqs demo_capture_def)
qed

end
