(* ===== verification/Price_Store.thy ===== *)
theory Price_Store
  imports Sql_Store "HOL-Library.Product_Lexorder"
begin

text \<open>
  The price tables of \<open>src/migrations\<close> 14, 16, 17 and 28 (\<open>channel_cost_multipliers\<close>, \<open>channel_prices\<close>,
  \<open>channel_recharge_factors\<close>, \<open>model_prices\<close>) and the statements of \<open>internal/platform/store/sqlc\<close> on them.

  \<^item> Conventions are those of \<^theory_text>\<open>Sql_Store\<close>: a NUMERIC(20,10) column is an integer number of units,
    a nullable column an option, an instant an integer number of microseconds. Each table has its own sequence.
  \<^item> \<open>models\<close>, \<open>channels\<close> and \<open>channel_models\<close> are what the foreign keys of the price tables refer to. Tables that
    refer to a price row, a model or a channel are outside: \<open>referenced\<close> of the environment says which rows they name,
    and a DELETE of such a row fails.
  \<^item> The deferred trigger \<open>assert_non_negative_route_margins\<close> (migration 37) reads routes and providers too:
    \<open>margin_guard\<close> of the environment is its verdict on the tables a statement leaves.
  \<^item> \<open>math/big (Rat).SetString\<close> and \<open>pgtype (Numeric).Scan\<close>, which the admin services read decimal text with, are
    not in the repository: they are the fields \<open>ratSetString\<close> and \<open>numericScan\<close> of the environment.
  \<^item> No two enabled rows of one scope have overlapping windows (the \<open>EXCLUDE USING gist\<close> constraints); windows
    are half open.
\<close>

subsection \<open>Rows (models.go)\<close>

record ModelPrice =
  mpID :: int
  mpModelID :: int
  mpCurrency :: string
  mpPricingUnit :: string
  mpUncachedInputPrice :: int
  mpCacheReadInputPrice :: "int option"
  mpCacheWrite5mInputPrice :: "int option"
  mpCacheWrite1hInputPrice :: "int option"
  mpOutputPrice :: int
  mpReasoningOutputPrice :: "int option"
  mpStatus :: string
  mpEffectiveFrom :: int
  mpEffectiveTo :: "int option"
  mpCreatedAt :: int
  mpUpdatedAt :: int
  mpCacheWrite30mInputPrice :: "int option"
  mpLongContextEnabled :: bool
  mpLongContextThreshold :: "int option"
  mpLongContextInputMultiplier :: "int option"
  mpLongContextOutputMultiplier :: "int option"

record ChannelPrice =
  cprID :: int
  cprChannelID :: int
  cprModelID :: int
  cprCurrency :: string
  cprPricingUnit :: string
  cprUncachedInputCost :: "int option"
  cprCacheReadInputCost :: "int option"
  cprCacheWrite5mInputCost :: "int option"
  cprCacheWrite1hInputCost :: "int option"
  cprOutputCost :: "int option"
  cprReasoningOutputCost :: "int option"
  cprStatus :: string
  cprEffectiveFrom :: int
  cprEffectiveTo :: "int option"
  cprCreatedAt :: int
  cprUpdatedAt :: int
  cprCacheWrite30mInputCost :: "int option"

record ChannelCostMultiplier =
  cmID :: int
  cmChannelID :: int
  cmModelID :: "int option"
  cmMultiplier :: int
  cmStatus :: string
  cmEffectiveFrom :: int
  cmEffectiveTo :: "int option"
  cmCreatedAt :: int
  cmUpdatedAt :: int

record ChannelRechargeFactor =
  rfID :: int
  rfChannelID :: int
  rfFactor :: int
  rfStatus :: string
  rfEffectiveFrom :: int
  rfEffectiveTo :: "int option"
  rfCreatedAt :: int
  rfUpdatedAt :: int

record price_db =
  models :: "int list"
  channels :: "int list"
  channel_models :: "(int \<times> int) list"
  model_prices :: "ModelPrice list"
  channel_prices :: "ChannelPrice list"
  cost_multipliers :: "ChannelCostMultiplier list"
  recharge_factors :: "ChannelRechargeFactor list"
  model_price_seq :: int
  channel_price_seq :: int
  multiplier_seq :: int
  factor_seq :: int

datatype config_row =
    ModelRow int | ChannelRow int | ChannelModelRow int int
  | ModelPriceRow int | ChannelPriceRow int | MultiplierRow int | FactorRow int

record price_env = env +
  margin_guard :: "price_db \<Rightarrow> bool"
  referenced :: "config_row \<Rightarrow> bool"
  ratSetString :: "string \<Rightarrow> rat option"
  numericScan :: "string \<Rightarrow> numeric option"

text \<open>A nullable column as Go reads it, and a parameter for one: NULL stays NULL.\<close>

definition nullable :: "int option \<Rightarrow> numeric" where
  "nullable c = (case c of None \<Rightarrow> numeric_null | Some n \<Rightarrow> num n)"

definition col10_null :: "numeric \<Rightarrow> (db_error, int option) go_result" where
  "col10_null v = rbind (bind_num v) (\<lambda>p.
     case p of SqlNull \<Rightarrow> Inr None | SqlNum x \<Rightarrow> rbind (cast10 x) (\<lambda>n. Inr (Some n)))"

definition null_or_nonneg :: "int option \<Rightarrow> bool" where
  "null_or_nonneg c \<longleftrightarrow> (\<forall>n \<in> set_option c. n \<ge> 0)"

subsection \<open>Windows\<close>

text \<open>\<open>tstzrange(from, COALESCE(to, 'infinity'), '[)') &&\<close>, and the \<open>WHERE\<close> of an active row.\<close>

definition ranges_overlap :: "int \<Rightarrow> int option \<Rightarrow> int \<Rightarrow> int option \<Rightarrow> bool" where
  "ranges_overlap afrom ato bfrom bto \<longleftrightarrow>
     (case bto of None \<Rightarrow> True | Some b \<Rightarrow> afrom < b) \<and> (case ato of None \<Rightarrow> True | Some a \<Rightarrow> bfrom < a)"

definition window_check :: "string \<Rightarrow> int \<Rightarrow> int option \<Rightarrow> bool" where
  "window_check status efrom eto \<longleftrightarrow>
     status \<in> {''enabled'', ''disabled''} \<and> (case eto of None \<Rightarrow> True | Some t \<Rightarrow> t > efrom)"

definition active :: "string \<Rightarrow> int \<Rightarrow> int option \<Rightarrow> int \<Rightarrow> bool" where
  "active status efrom eto atTime \<longleftrightarrow>
     status = ''enabled'' \<and> efrom \<le> atTime \<and> (case eto of None \<Rightarrow> True | Some t \<Rightarrow> t > atTime)"

text \<open>\<open>ORDER BY ... LIMIT 1\<close> of a \<open>:one\<close> query.\<close>

definition order_limit1 :: "('r \<Rightarrow> 'k::linorder) \<Rightarrow> 'r list \<Rightarrow> (db_error, 'r) go_result" where
  "order_limit1 k rs = (case sort_key k rs of [] \<Rightarrow> Inl ErrNoRows | r # _ \<Rightarrow> Inr r)"

text \<open>
  The verdict on a row a statement writes: its CHECK constraints, the EXCLUDE constraint, its foreign keys, and
  the deferred margin trigger when the statement commits.
\<close>

definition constrained ::
  "price_env \<Rightarrow> bool \<Rightarrow> bool \<Rightarrow> bool \<Rightarrow> 'r \<Rightarrow> price_db \<Rightarrow> (db_error, 'r \<times> price_db) go_result" where
  "constrained env checked excluded fkeys r db' =
     (if \<not> checked then Inl CheckViolation
      else if excluded then Inl ExclusionViolation
      else if \<not> fkeys then Inl ForeignKeyViolation
      else if \<not> margin_guard env db' then Inl CheckViolation
      else Inr (r, db'))"

subsection \<open>model_prices.sql.go and its admin statements (model.sql.go)\<close>

definition check_model_price :: "ModelPrice \<Rightarrow> bool" where
  "check_model_price r \<longleftrightarrow>
     window_check (mpStatus r) (mpEffectiveFrom r) (mpEffectiveTo r) \<and>
     mpCurrency r \<noteq> '''' \<and> mpPricingUnit r = ''per_1m_tokens'' \<and>
     mpUncachedInputPrice r \<ge> 0 \<and> mpOutputPrice r \<ge> 0 \<and>
     null_or_nonneg (mpCacheReadInputPrice r) \<and> null_or_nonneg (mpCacheWrite5mInputPrice r) \<and>
     null_or_nonneg (mpCacheWrite1hInputPrice r) \<and> null_or_nonneg (mpCacheWrite30mInputPrice r) \<and>
     null_or_nonneg (mpReasoningOutputPrice r) \<and>
     (mpLongContextEnabled r \<longrightarrow>
        (\<exists>t \<in> set_option (mpLongContextThreshold r). t > 0) \<and>
        (\<exists>m \<in> set_option (mpLongContextInputMultiplier r). m > 0) \<and>
        (\<exists>m \<in> set_option (mpLongContextOutputMultiplier r). m > 0))"

definition mp_conflict :: "ModelPrice \<Rightarrow> ModelPrice \<Rightarrow> bool" where
  "mp_conflict a b \<longleftrightarrow> mpStatus a = ''enabled'' \<and> mpStatus b = ''enabled'' \<and> mpModelID a = mpModelID b \<and>
     mpCurrency a = mpCurrency b \<and> mpPricingUnit a = mpPricingUnit b \<and>
     ranges_overlap (mpEffectiveFrom a) (mpEffectiveTo a) (mpEffectiveFrom b) (mpEffectiveTo b)"

definition FindActiveModelPrice :: "price_db \<Rightarrow> int \<Rightarrow> int \<Rightarrow> (db_error, ModelPrice) go_result" where
  "FindActiveModelPrice db modelID atTime =
     order_limit1 (\<lambda>r. (- mpEffectiveFrom r, - mpID r))
       (filter (\<lambda>r. mpModelID r = modelID \<and> active (mpStatus r) (mpEffectiveFrom r) (mpEffectiveTo r) atTime)
         (model_prices db))"

definition GetModelPrice :: "price_db \<Rightarrow> int \<Rightarrow> (db_error, ModelPrice) go_result" where
  "GetModelPrice db i = one_row (find (\<lambda>r. mpID r = i) (model_prices db))"

definition ListEnabledModelPriceWindows :: "price_db \<Rightarrow> int \<Rightarrow> int \<Rightarrow> (int \<times> int \<times> int option) list" where
  "ListEnabledModelPriceWindows db modelID excludeID =
     map (\<lambda>r. (mpID r, mpEffectiveFrom r, mpEffectiveTo r))
       (filter (\<lambda>r. mpModelID r = modelID \<and> mpStatus r = ''enabled'' \<and> mpID r \<noteq> excludeID) (model_prices db))"

record CreateModelPriceParams =
  cmpModelID :: int
  cmpCurrency :: string
  cmpPricingUnit :: string
  cmpUncachedInputPrice :: numeric
  cmpCacheReadInputPrice :: numeric
  cmpCacheWrite5mInputPrice :: numeric
  cmpCacheWrite1hInputPrice :: numeric
  cmpCacheWrite30mInputPrice :: numeric
  cmpOutputPrice :: numeric
  cmpReasoningOutputPrice :: numeric
  cmpStatus :: string
  cmpEffectiveFrom :: int
  cmpEffectiveTo :: "int option"
  cmpLongContextEnabled :: bool
  cmpLongContextThreshold :: "int option"
  cmpLongContextInputMultiplier :: numeric
  cmpLongContextOutputMultiplier :: numeric

definition insert_model_price ::
  "price_env \<Rightarrow> price_db \<Rightarrow> ModelPrice \<Rightarrow> (db_error, ModelPrice \<times> price_db) go_result" where
  "insert_model_price env db row =
     (let r = row\<lparr>mpID := model_price_seq db\<rparr> in
      constrained env (check_model_price r) (\<exists>x \<in> set (model_prices db). mp_conflict r x)
        (mpModelID r \<in> set (models db)) r
        (db\<lparr>model_prices := model_prices db @ [r], model_price_seq := model_price_seq db + 1\<rparr>))"

definition CreateModelPrice ::
  "price_env \<Rightarrow> price_db \<Rightarrow> CreateModelPriceParams \<Rightarrow> (db_error, ModelPrice \<times> price_db) go_result" where
  "CreateModelPrice env db arg =
     rbind (rbind (bind_num (cmpUncachedInputPrice arg)) col10) (\<lambda>uncached.
     rbind (col10_null (cmpCacheReadInputPrice arg)) (\<lambda>cacheRead.
     rbind (col10_null (cmpCacheWrite5mInputPrice arg)) (\<lambda>cacheWrite5m.
     rbind (col10_null (cmpCacheWrite1hInputPrice arg)) (\<lambda>cacheWrite1h.
     rbind (col10_null (cmpCacheWrite30mInputPrice arg)) (\<lambda>cacheWrite30m.
     rbind (rbind (bind_num (cmpOutputPrice arg)) col10) (\<lambda>output.
     rbind (col10_null (cmpReasoningOutputPrice arg)) (\<lambda>reasoning.
     rbind (col10_null (cmpLongContextInputMultiplier arg)) (\<lambda>lcInput.
     rbind (col10_null (cmpLongContextOutputMultiplier arg)) (\<lambda>lcOutput.
       insert_model_price env db
         \<lparr>mpID = 0, mpModelID = cmpModelID arg, mpCurrency = cmpCurrency arg, mpPricingUnit = cmpPricingUnit arg,
          mpUncachedInputPrice = uncached, mpCacheReadInputPrice = cacheRead,
          mpCacheWrite5mInputPrice = cacheWrite5m, mpCacheWrite1hInputPrice = cacheWrite1h,
          mpOutputPrice = output, mpReasoningOutputPrice = reasoning, mpStatus = cmpStatus arg,
          mpEffectiveFrom = cmpEffectiveFrom arg, mpEffectiveTo = cmpEffectiveTo arg,
          mpCreatedAt = clock env, mpUpdatedAt = clock env, mpCacheWrite30mInputPrice = cacheWrite30m,
          mpLongContextEnabled = cmpLongContextEnabled arg, mpLongContextThreshold = cmpLongContextThreshold arg,
          mpLongContextInputMultiplier = lcInput, mpLongContextOutputMultiplier = lcOutput\<rparr>)))))))))"

definition UpdateModelPriceWindow ::
  "price_env \<Rightarrow> price_db \<Rightarrow> int option \<Rightarrow> string \<Rightarrow> int \<Rightarrow> (db_error, ModelPrice \<times> price_db) go_result" where
  "UpdateModelPriceWindow env db effectiveTo status i =
     rbind (GetModelPrice db i) (\<lambda>row.
       let r = row\<lparr>mpEffectiveTo := effectiveTo, mpStatus := status, mpUpdatedAt := clock env\<rparr> in
       constrained env (check_model_price r) (\<exists>x \<in> set (model_prices db). mpID x \<noteq> i \<and> mp_conflict r x)
         True r
         (db\<lparr>model_prices := map (\<lambda>x. if mpID x = i then r else x) (model_prices db)\<rparr>))"

subsection \<open>channel_prices.sql.go and its admin statements (channel.sql.go)\<close>

definition check_channel_price :: "ChannelPrice \<Rightarrow> bool" where
  "check_channel_price r \<longleftrightarrow>
     window_check (cprStatus r) (cprEffectiveFrom r) (cprEffectiveTo r) \<and>
     cprCurrency r \<noteq> '''' \<and> cprPricingUnit r = ''per_1m_tokens'' \<and>
     null_or_nonneg (cprUncachedInputCost r) \<and> null_or_nonneg (cprCacheReadInputCost r) \<and>
     null_or_nonneg (cprCacheWrite5mInputCost r) \<and> null_or_nonneg (cprCacheWrite1hInputCost r) \<and>
     null_or_nonneg (cprCacheWrite30mInputCost r) \<and> null_or_nonneg (cprOutputCost r) \<and>
     null_or_nonneg (cprReasoningOutputCost r)"

definition cpr_conflict :: "ChannelPrice \<Rightarrow> ChannelPrice \<Rightarrow> bool" where
  "cpr_conflict a b \<longleftrightarrow> cprStatus a = ''enabled'' \<and> cprStatus b = ''enabled'' \<and>
     cprChannelID a = cprChannelID b \<and> cprModelID a = cprModelID b \<and>
     cprCurrency a = cprCurrency b \<and> cprPricingUnit a = cprPricingUnit b \<and>
     ranges_overlap (cprEffectiveFrom a) (cprEffectiveTo a) (cprEffectiveFrom b) (cprEffectiveTo b)"

definition FindActiveChannelPrice :: "price_db \<Rightarrow> int \<Rightarrow> int \<Rightarrow> int \<Rightarrow> (db_error, ChannelPrice) go_result" where
  "FindActiveChannelPrice db channelID modelID atTime =
     order_limit1 (\<lambda>r. (- cprEffectiveFrom r, - cprID r))
       (filter (\<lambda>r. cprChannelID r = channelID \<and> cprModelID r = modelID \<and>
                 active (cprStatus r) (cprEffectiveFrom r) (cprEffectiveTo r) atTime) (channel_prices db))"

definition GetChannelPrice :: "price_db \<Rightarrow> int \<Rightarrow> (db_error, ChannelPrice) go_result" where
  "GetChannelPrice db i = one_row (find (\<lambda>r. cprID r = i) (channel_prices db))"

definition ListEnabledChannelPriceWindows ::
  "price_db \<Rightarrow> int \<Rightarrow> int \<Rightarrow> int \<Rightarrow> (int \<times> int \<times> int option) list" where
  "ListEnabledChannelPriceWindows db channelID modelID excludeID =
     map (\<lambda>r. (cprID r, cprEffectiveFrom r, cprEffectiveTo r))
       (filter (\<lambda>r. cprChannelID r = channelID \<and> cprModelID r = modelID \<and> cprStatus r = ''enabled'' \<and>
                 cprID r \<noteq> excludeID) (channel_prices db))"

record CreateChannelPriceParams =
  ccpChannelID :: int
  ccpModelID :: int
  ccpCurrency :: string
  ccpPricingUnit :: string
  ccpUncachedInputCost :: numeric
  ccpCacheReadInputCost :: numeric
  ccpCacheWrite5mInputCost :: numeric
  ccpCacheWrite1hInputCost :: numeric
  ccpCacheWrite30mInputCost :: numeric
  ccpOutputCost :: numeric
  ccpReasoningOutputCost :: numeric
  ccpStatus :: string
  ccpEffectiveFrom :: int
  ccpEffectiveTo :: "int option"

definition insert_channel_price ::
  "price_env \<Rightarrow> price_db \<Rightarrow> ChannelPrice \<Rightarrow> (db_error, ChannelPrice \<times> price_db) go_result" where
  "insert_channel_price env db row =
     (let r = row\<lparr>cprID := channel_price_seq db\<rparr> in
      constrained env (check_channel_price r) (\<exists>x \<in> set (channel_prices db). cpr_conflict r x)
        ((cprChannelID r, cprModelID r) \<in> set (channel_models db)) r
        (db\<lparr>channel_prices := channel_prices db @ [r], channel_price_seq := channel_price_seq db + 1\<rparr>))"

definition CreateChannelPrice ::
  "price_env \<Rightarrow> price_db \<Rightarrow> CreateChannelPriceParams \<Rightarrow> (db_error, ChannelPrice \<times> price_db) go_result" where
  "CreateChannelPrice env db arg =
     rbind (col10_null (ccpUncachedInputCost arg)) (\<lambda>uncached.
     rbind (col10_null (ccpCacheReadInputCost arg)) (\<lambda>cacheRead.
     rbind (col10_null (ccpCacheWrite5mInputCost arg)) (\<lambda>cacheWrite5m.
     rbind (col10_null (ccpCacheWrite1hInputCost arg)) (\<lambda>cacheWrite1h.
     rbind (col10_null (ccpCacheWrite30mInputCost arg)) (\<lambda>cacheWrite30m.
     rbind (col10_null (ccpOutputCost arg)) (\<lambda>output.
     rbind (col10_null (ccpReasoningOutputCost arg)) (\<lambda>reasoning.
       insert_channel_price env db
         \<lparr>cprID = 0, cprChannelID = ccpChannelID arg, cprModelID = ccpModelID arg, cprCurrency = ccpCurrency arg,
          cprPricingUnit = ccpPricingUnit arg, cprUncachedInputCost = uncached, cprCacheReadInputCost = cacheRead,
          cprCacheWrite5mInputCost = cacheWrite5m, cprCacheWrite1hInputCost = cacheWrite1h,
          cprOutputCost = output, cprReasoningOutputCost = reasoning, cprStatus = ccpStatus arg,
          cprEffectiveFrom = ccpEffectiveFrom arg, cprEffectiveTo = ccpEffectiveTo arg,
          cprCreatedAt = clock env, cprUpdatedAt = clock env, cprCacheWrite30mInputCost = cacheWrite30m\<rparr>)))))))"

definition UpdateChannelPriceWindow ::
  "price_env \<Rightarrow> price_db \<Rightarrow> int option \<Rightarrow> string \<Rightarrow> int \<Rightarrow> (db_error, ChannelPrice \<times> price_db) go_result" where
  "UpdateChannelPriceWindow env db effectiveTo status i =
     rbind (GetChannelPrice db i) (\<lambda>row.
       let r = row\<lparr>cprEffectiveTo := effectiveTo, cprStatus := status, cprUpdatedAt := clock env\<rparr> in
       constrained env (check_channel_price r) (\<exists>x \<in> set (channel_prices db). cprID x \<noteq> i \<and> cpr_conflict r x)
         True r
         (db\<lparr>channel_prices := map (\<lambda>x. if cprID x = i then r else x) (channel_prices db)\<rparr>))"

subsection \<open>channel_cost_multipliers.sql.go and its admin statements (channel.sql.go)\<close>

definition check_cost_multiplier :: "ChannelCostMultiplier \<Rightarrow> bool" where
  "check_cost_multiplier r \<longleftrightarrow>
     window_check (cmStatus r) (cmEffectiveFrom r) (cmEffectiveTo r) \<and> cmMultiplier r \<ge> 0"

text \<open>\<open>model_key\<close>: the rows without a model are one time line of their own, that of key 0.\<close>

definition model_key :: "int option \<Rightarrow> int" where
  "model_key m = (case m of None \<Rightarrow> 0 | Some i \<Rightarrow> i)"

definition cm_conflict :: "ChannelCostMultiplier \<Rightarrow> ChannelCostMultiplier \<Rightarrow> bool" where
  "cm_conflict a b \<longleftrightarrow> cmStatus a = ''enabled'' \<and> cmStatus b = ''enabled'' \<and> cmChannelID a = cmChannelID b \<and>
     model_key (cmModelID a) = model_key (cmModelID b) \<and>
     ranges_overlap (cmEffectiveFrom a) (cmEffectiveTo a) (cmEffectiveFrom b) (cmEffectiveTo b)"

definition FindActiveChannelCostMultiplier ::
  "price_db \<Rightarrow> int \<Rightarrow> int \<Rightarrow> int \<Rightarrow> (db_error, ChannelCostMultiplier) go_result" where
  "FindActiveChannelCostMultiplier db channelID modelID atTime =
     order_limit1 (\<lambda>r. (cmModelID r = None, - cmEffectiveFrom r, - cmID r))
       (filter (\<lambda>r. cmChannelID r = channelID \<and> (cmModelID r = Some modelID \<or> cmModelID r = None) \<and>
                 active (cmStatus r) (cmEffectiveFrom r) (cmEffectiveTo r) atTime) (cost_multipliers db))"

definition GetChannelCostMultiplier :: "price_db \<Rightarrow> int \<Rightarrow> (db_error, ChannelCostMultiplier) go_result" where
  "GetChannelCostMultiplier db i = one_row (find (\<lambda>r. cmID r = i) (cost_multipliers db))"

definition ListEnabledChannelCostMultiplierWindows ::
  "price_db \<Rightarrow> int \<Rightarrow> int option \<Rightarrow> int \<Rightarrow> (int \<times> int \<times> int option) list" where
  "ListEnabledChannelCostMultiplierWindows db channelID modelID excludeID =
     map (\<lambda>r. (cmID r, cmEffectiveFrom r, cmEffectiveTo r))
       (filter (\<lambda>r. cmChannelID r = channelID \<and> cmModelID r = modelID \<and> cmStatus r = ''enabled'' \<and>
                 cmID r \<noteq> excludeID) (cost_multipliers db))"

definition insert_cost_multiplier ::
  "price_env \<Rightarrow> price_db \<Rightarrow> ChannelCostMultiplier \<Rightarrow> (db_error, ChannelCostMultiplier \<times> price_db) go_result" where
  "insert_cost_multiplier env db row =
     (let r = row\<lparr>cmID := multiplier_seq db\<rparr> in
      constrained env (check_cost_multiplier r) (\<exists>x \<in> set (cost_multipliers db). cm_conflict r x)
        (cmChannelID r \<in> set (channels db) \<and> (\<forall>m \<in> set_option (cmModelID r). m \<in> set (models db))) r
        (db\<lparr>cost_multipliers := cost_multipliers db @ [r], multiplier_seq := multiplier_seq db + 1\<rparr>))"

definition CreateChannelCostMultiplier ::
  "price_env \<Rightarrow> price_db \<Rightarrow> int \<Rightarrow> int option \<Rightarrow> numeric \<Rightarrow> string \<Rightarrow> int \<Rightarrow> int option \<Rightarrow>
     (db_error, ChannelCostMultiplier \<times> price_db) go_result" where
  "CreateChannelCostMultiplier env db channelID modelID multiplier status effectiveFrom effectiveTo =
     rbind (rbind (bind_num multiplier) col10) (\<lambda>m.
       insert_cost_multiplier env db
         \<lparr>cmID = 0, cmChannelID = channelID, cmModelID = modelID, cmMultiplier = m, cmStatus = status,
          cmEffectiveFrom = effectiveFrom, cmEffectiveTo = effectiveTo,
          cmCreatedAt = clock env, cmUpdatedAt = clock env\<rparr>)"

definition UpdateChannelCostMultiplierWindow ::
  "price_env \<Rightarrow> price_db \<Rightarrow> int option \<Rightarrow> string \<Rightarrow> int \<Rightarrow> (db_error, ChannelCostMultiplier \<times> price_db) go_result" where
  "UpdateChannelCostMultiplierWindow env db effectiveTo status i =
     rbind (GetChannelCostMultiplier db i) (\<lambda>row.
       let r = row\<lparr>cmEffectiveTo := effectiveTo, cmStatus := status, cmUpdatedAt := clock env\<rparr> in
       constrained env (check_cost_multiplier r) (\<exists>x \<in> set (cost_multipliers db). cmID x \<noteq> i \<and> cm_conflict r x)
         True r
         (db\<lparr>cost_multipliers := map (\<lambda>x. if cmID x = i then r else x) (cost_multipliers db)\<rparr>))"

subsection \<open>channel_recharge_factors.sql.go and its admin statements (channel.sql.go)\<close>

definition check_recharge_factor :: "ChannelRechargeFactor \<Rightarrow> bool" where
  "check_recharge_factor r \<longleftrightarrow>
     window_check (rfStatus r) (rfEffectiveFrom r) (rfEffectiveTo r) \<and> rfFactor r \<ge> 0"

definition rf_conflict :: "ChannelRechargeFactor \<Rightarrow> ChannelRechargeFactor \<Rightarrow> bool" where
  "rf_conflict a b \<longleftrightarrow> rfStatus a = ''enabled'' \<and> rfStatus b = ''enabled'' \<and> rfChannelID a = rfChannelID b \<and>
     ranges_overlap (rfEffectiveFrom a) (rfEffectiveTo a) (rfEffectiveFrom b) (rfEffectiveTo b)"

definition FindActiveChannelRechargeFactor ::
  "price_db \<Rightarrow> int \<Rightarrow> int \<Rightarrow> (db_error, ChannelRechargeFactor) go_result" where
  "FindActiveChannelRechargeFactor db channelID atTime =
     order_limit1 (\<lambda>r. (- rfEffectiveFrom r, - rfID r))
       (filter (\<lambda>r. rfChannelID r = channelID \<and>
                 active (rfStatus r) (rfEffectiveFrom r) (rfEffectiveTo r) atTime) (recharge_factors db))"

definition GetChannelRechargeFactor :: "price_db \<Rightarrow> int \<Rightarrow> (db_error, ChannelRechargeFactor) go_result" where
  "GetChannelRechargeFactor db i = one_row (find (\<lambda>r. rfID r = i) (recharge_factors db))"

definition ListEnabledChannelRechargeFactorWindows ::
  "price_db \<Rightarrow> int \<Rightarrow> int \<Rightarrow> (int \<times> int \<times> int option) list" where
  "ListEnabledChannelRechargeFactorWindows db channelID excludeID =
     map (\<lambda>r. (rfID r, rfEffectiveFrom r, rfEffectiveTo r))
       (filter (\<lambda>r. rfChannelID r = channelID \<and> rfStatus r = ''enabled'' \<and> rfID r \<noteq> excludeID)
         (recharge_factors db))"

definition insert_recharge_factor ::
  "price_env \<Rightarrow> price_db \<Rightarrow> ChannelRechargeFactor \<Rightarrow> (db_error, ChannelRechargeFactor \<times> price_db) go_result" where
  "insert_recharge_factor env db row =
     (let r = row\<lparr>rfID := factor_seq db\<rparr> in
      constrained env (check_recharge_factor r) (\<exists>x \<in> set (recharge_factors db). rf_conflict r x)
        (rfChannelID r \<in> set (channels db)) r
        (db\<lparr>recharge_factors := recharge_factors db @ [r], factor_seq := factor_seq db + 1\<rparr>))"

definition CreateChannelRechargeFactor ::
  "price_env \<Rightarrow> price_db \<Rightarrow> int \<Rightarrow> numeric \<Rightarrow> string \<Rightarrow> int \<Rightarrow> int option \<Rightarrow>
     (db_error, ChannelRechargeFactor \<times> price_db) go_result" where
  "CreateChannelRechargeFactor env db channelID factor status effectiveFrom effectiveTo =
     rbind (rbind (bind_num factor) col10) (\<lambda>f.
       insert_recharge_factor env db
         \<lparr>rfID = 0, rfChannelID = channelID, rfFactor = f, rfStatus = status, rfEffectiveFrom = effectiveFrom,
          rfEffectiveTo = effectiveTo, rfCreatedAt = clock env, rfUpdatedAt = clock env\<rparr>)"

definition UpdateChannelRechargeFactorWindow ::
  "price_env \<Rightarrow> price_db \<Rightarrow> int option \<Rightarrow> string \<Rightarrow> int \<Rightarrow> (db_error, ChannelRechargeFactor \<times> price_db) go_result" where
  "UpdateChannelRechargeFactorWindow env db effectiveTo status i =
     rbind (GetChannelRechargeFactor db i) (\<lambda>row.
       let r = row\<lparr>rfEffectiveTo := effectiveTo, rfStatus := status, rfUpdatedAt := clock env\<rparr> in
       constrained env (check_recharge_factor r) (\<exists>x \<in> set (recharge_factors db). rfID x \<noteq> i \<and> rf_conflict r x)
         True r
         (db\<lparr>recharge_factors := map (\<lambda>x. if rfID x = i then r else x) (recharge_factors db)\<rparr>))"

subsection \<open>Deletes\<close>

text \<open>
  The cascading deletes of never used configuration. Foreign keys are checked at the end of the statement: a row
  outside the model that names a deleted one undoes the whole statement (the rows of the model that name one are
  deleted with it). The result is the number of main rows that were deleted.
\<close>

definition constrained_delete ::
  "price_env \<Rightarrow> price_db \<Rightarrow> config_row list \<Rightarrow> int \<Rightarrow> price_db \<Rightarrow> (db_error, int \<times> price_db) go_result" where
  "constrained_delete env db deleted n db' =
     (if \<exists>x \<in> set deleted. referenced env x then Inl ForeignKeyViolation
      else if \<not> margin_guard env db' then Inl CheckViolation
      else Inr (n, db'))"

definition DeleteChannelModel ::
  "price_env \<Rightarrow> price_db \<Rightarrow> int \<Rightarrow> int \<Rightarrow> (db_error, int \<times> price_db) go_result" where
  "DeleteChannelModel env db channelID modelID =
     (let gone = (\<lambda>r. cprChannelID r = channelID \<and> cprModelID r = modelID);
          bound = (\<lambda>b. b = (channelID, modelID))
      in constrained_delete env db
           (map (\<lambda>r. ChannelPriceRow (cprID r)) (filter gone (channel_prices db)) @
            map (\<lambda>b. ChannelModelRow (fst b) (snd b)) (filter bound (channel_models db)))
           (int (length (filter bound (channel_models db))))
           (db\<lparr>channel_prices := filter (\<lambda>r. \<not> gone r) (channel_prices db),
               channel_models := filter (\<lambda>b. \<not> bound b) (channel_models db)\<rparr>))"

definition DeleteChannelCascade :: "price_env \<Rightarrow> price_db \<Rightarrow> int \<Rightarrow> (db_error, int \<times> price_db) go_result" where
  "DeleteChannelCascade env db i =
     (let price = (\<lambda>r. cprChannelID r = i); bound = (\<lambda>b. fst b = i);
          multiplier = (\<lambda>r. cmChannelID r = i); factor = (\<lambda>r. rfChannelID r = i)
      in constrained_delete env db
           (map (\<lambda>r. ChannelPriceRow (cprID r)) (filter price (channel_prices db)) @
            map (\<lambda>b. ChannelModelRow (fst b) (snd b)) (filter bound (channel_models db)) @
            map (\<lambda>r. MultiplierRow (cmID r)) (filter multiplier (cost_multipliers db)) @
            map (\<lambda>r. FactorRow (rfID r)) (filter factor (recharge_factors db)) @
            map ChannelRow (filter ((=) i) (channels db)))
           (int (length (filter ((=) i) (channels db))))
           (db\<lparr>channel_prices := filter (\<lambda>r. \<not> price r) (channel_prices db),
               channel_models := filter (\<lambda>b. \<not> bound b) (channel_models db),
               cost_multipliers := filter (\<lambda>r. \<not> multiplier r) (cost_multipliers db),
               recharge_factors := filter (\<lambda>r. \<not> factor r) (recharge_factors db),
               channels := filter (\<lambda>c. i \<noteq> c) (channels db)\<rparr>))"

definition DeleteModelCascade :: "price_env \<Rightarrow> price_db \<Rightarrow> int \<Rightarrow> (db_error, int \<times> price_db) go_result" where
  "DeleteModelCascade env db i =
     (let base = (\<lambda>r. mpModelID r = i); price = (\<lambda>r. cprModelID r = i); bound = (\<lambda>b. snd b = i);
          multiplier = (\<lambda>r. cmModelID r = Some i)
      in constrained_delete env db
           (map (\<lambda>r. ModelPriceRow (mpID r)) (filter base (model_prices db)) @
            map (\<lambda>r. ChannelPriceRow (cprID r)) (filter price (channel_prices db)) @
            map (\<lambda>b. ChannelModelRow (fst b) (snd b)) (filter bound (channel_models db)) @
            map (\<lambda>r. MultiplierRow (cmID r)) (filter multiplier (cost_multipliers db)) @
            map ModelRow (filter ((=) i) (models db)))
           (int (length (filter ((=) i) (models db))))
           (db\<lparr>model_prices := filter (\<lambda>r. \<not> base r) (model_prices db),
               channel_prices := filter (\<lambda>r. \<not> price r) (channel_prices db),
               channel_models := filter (\<lambda>b. \<not> bound b) (channel_models db),
               cost_multipliers := filter (\<lambda>r. \<not> multiplier r) (cost_multipliers db),
               models := filter (\<lambda>m. i \<noteq> m) (models db)\<rparr>))"

end
