(* ===== verification/Price_Timelines.thy ===== *)
theory Price_Timelines
  imports Price_Store
begin

text \<open>
  What the four price tables have in common: versions of a price that are never changed, only closed or disabled,
  and whose enabled windows do not overlap within a scope. The locale \<open>timeline\<close> states that contract of the
  INSERT, UPDATE and SELECT of one table; each table interprets it.
\<close>

subsection \<open>Selecting the newest row\<close>

lemma order_limit1_Inr:
  assumes "order_limit1 k rs = Inr r"
  shows "r \<in> set rs" "\<And>x. x \<in> set rs \<Longrightarrow> k r \<le> k x"
proof -
  obtain xs where s: "sort_key k rs = r # xs"
    using assms by (auto simp: order_limit1_def split: list.splits)
  then have "set (r # xs) = set rs" by (metis set_sort)
  moreover have "sorted (map k (r # xs))" using s by (metis sorted_sort_key)
  ultimately show "r \<in> set rs" and "\<And>x. x \<in> set rs \<Longrightarrow> k r \<le> k x"
    by auto
qed

lemma order_limit1_Inl: "order_limit1 k rs = Inl e \<longleftrightarrow> e = ErrNoRows \<and> rs = []"
proof (cases "sort_key k rs")
  case Nil
  then have "rs = []" by (metis set_sort set_empty)
  then show ?thesis by (auto simp: order_limit1_def)
next
  case (Cons r xs)
  then have "rs \<noteq> []" by auto
  with Cons show ?thesis by (simp add: order_limit1_def)
qed

lemma order_limit1_least:
  assumes "r \<in> set rs" and "\<And>x. x \<in> set rs \<Longrightarrow> x \<noteq> r \<Longrightarrow> k r < k x"
  shows "order_limit1 k rs = Inr r"
proof (cases "order_limit1 k rs")
  case (Inl e)
  with assms(1) show ?thesis by (simp add: order_limit1_Inl)
next
  case (Inr x)
  then have "x \<in> set rs" "k x \<le> k r" using order_limit1_Inr [OF Inr] assms(1) by blast+
  with assms(2) [of x] Inr show ?thesis by (cases "x = r") auto
qed

subsection \<open>Windows\<close>

lemma active_overlap: "active s a b t \<Longrightarrow> active s' a' b' t \<Longrightarrow> ranges_overlap a b a' b'"
  by (auto simp: active_def ranges_overlap_def split: option.splits)

lemma ranges_overlap_witness:
  assumes "window_check s a b" "window_check s' a' b'" "ranges_overlap a b a' b'"
  shows "active ''enabled'' a b (max a a') \<and> active ''enabled'' a' b' (max a a')"
  using assms by (auto simp: active_def ranges_overlap_def window_check_def split: option.splits)

definition clash ::
  "('r \<Rightarrow> string) \<Rightarrow> ('r \<Rightarrow> int) \<Rightarrow> ('r \<Rightarrow> int option) \<Rightarrow> ('r \<Rightarrow> 'k) \<Rightarrow> 'r \<Rightarrow> 'r \<Rightarrow> bool" where
  "clash status since until scope a b \<longleftrightarrow> status a = ''enabled'' \<and> status b = ''enabled'' \<and> scope a = scope b \<and>
     ranges_overlap (since a) (until a) (since b) (until b)"

lemma clash_commute: "clash st si un sc a b = clash st si un sc b a"
  by (auto simp: clash_def ranges_overlap_def)

lemma constrained_Inr:
  "constrained env c x k r db' = Inr z \<longleftrightarrow> c \<and> \<not> x \<and> k \<and> margin_guard env db' \<and> z = (r, db')"
  by (auto simp: constrained_def)

subsection \<open>The contract of a price table\<close>

locale timeline =
  fixes rows :: "price_db \<Rightarrow> 'r list" and nextval :: "price_db \<Rightarrow> int"
    and rid :: "'r \<Rightarrow> int" and scope :: "'r \<Rightarrow> 'k" and status :: "'r \<Rightarrow> string"
    and since :: "'r \<Rightarrow> int" and until :: "'r \<Rightarrow> int option" and terms :: "'r \<Rightarrow> 't"
    and insert_row :: "price_env \<Rightarrow> price_db \<Rightarrow> 'r \<Rightarrow> (db_error, 'r \<times> price_db) go_result"
    and close_row :: "price_env \<Rightarrow> price_db \<Rightarrow> int option \<Rightarrow> string \<Rightarrow> int \<Rightarrow> (db_error, 'r \<times> price_db) go_result"
    and get_row :: "price_db \<Rightarrow> int \<Rightarrow> (db_error, 'r) go_result"
  assumes insert_appends: "insert_row env db r = Inr (r', db') \<Longrightarrow>
      rows db' = rows db @ [r'] \<and> rid r' = nextval db \<and> nextval db' = nextval db + 1 \<and> terms r' = terms r"
    and insert_free: "insert_row env db r = Inr (r', db') \<Longrightarrow> x \<in> set (rows db) \<Longrightarrow>
      \<not> clash status since until scope r' x"
    and insert_checked: "insert_row env db r = Inr (r', db') \<Longrightarrow> window_check (status r') (since r') (until r')"
    and close_replaces: "close_row env db t s i = Inr (r', db') \<Longrightarrow>
      \<exists>r. get_row db i = Inr r \<and> terms r' = terms r \<and> rid r' = i \<and> until r' = t \<and> status r' = s \<and>
        rows db' = map (\<lambda>x. if rid x = i then r' else x) (rows db) \<and> nextval db' = nextval db"
    and close_free: "close_row env db t s i = Inr (r', db') \<Longrightarrow> x \<in> set (rows db) \<Longrightarrow> rid x \<noteq> i \<Longrightarrow>
      \<not> clash status since until scope r' x"
    and close_checked: "close_row env db t s i = Inr (r', db') \<Longrightarrow> window_check (status r') (since r') (until r')"
    and get_find: "get_row db i = one_row (find (\<lambda>x. rid x = i) (rows db))"
begin

definition live :: "'r \<Rightarrow> int \<Rightarrow> bool" where
  "live r t \<longleftrightarrow> active (status r) (since r) (until r) t"

definition wf :: "price_db \<Rightarrow> bool" where
  "wf db \<longleftrightarrow> distinct (map rid (rows db)) \<and> 0 < nextval db \<and>
     (\<forall>r \<in> set (rows db). 0 < rid r \<and> rid r < nextval db) \<and>
     (\<forall>r \<in> set (rows db). window_check (status r) (since r) (until r)) \<and>
     (\<forall>a \<in> set (rows db). \<forall>b \<in> set (rows db). rid a \<noteq> rid b \<longrightarrow> \<not> clash status since until scope a b)"

lemma get_Inr: "get_row db i = Inr r \<Longrightarrow> r \<in> set (rows db) \<and> rid r = i"
  unfolding get_find one_row_def by (auto split: option.splits dest: find_key_Some)

lemma get_member: "wf db \<Longrightarrow> r \<in> set (rows db) \<Longrightarrow> get_row db (rid r) = Inr r"
  unfolding get_find one_row_def wf_def by (simp add: find_distinct)

lemma wf_insert:
  assumes "insert_row env db r = Inr (r', db')" and "wf db"
  shows "wf db'"
proof -
  have rows: "rows db' = rows db @ [r']" "rid r' = nextval db" "nextval db' = nextval db + 1"
    using insert_appends [OF assms(1)] by auto
  have "\<forall>x \<in> set (rows db). \<not> clash status since until scope r' x \<and> \<not> clash status since until scope x r'"
    using insert_free [OF assms(1)] clash_commute [of status since until scope] by blast
  with rows assms(2) insert_checked [OF assms(1)] show ?thesis
    unfolding wf_def by (auto simp: ball_Un)
qed

lemma wf_close:
  assumes "close_row env db t s i = Inr (r', db')" and "wf db"
  shows "wf db'"
proof -
  obtain r where r: "get_row db i = Inr r" "rid r' = i"
    and rows: "rows db' = map (\<lambda>x. if rid x = i then r' else x) (rows db)" "nextval db' = nextval db"
    using close_replaces [OF assms(1)] by auto
  have ids: "map rid (rows db') = map rid (rows db)"
    unfolding rows(1) using r(2) by (rule map_key_update)
  have mem: "x \<in> set (rows db') \<Longrightarrow> x = r' \<or> (x \<in> set (rows db) \<and> rid x \<noteq> i)" for x
    using rows(1) by auto
  have bound: "\<forall>x \<in> set (rows db'). 0 < rid x \<and> rid x < nextval db'"
  proof
    fix x assume "x \<in> set (rows db')"
    then have "rid x \<in> set (map rid (rows db))" using ids by (metis image_eqI set_map)
    with assms(2) rows(2) show "0 < rid x \<and> rid x < nextval db'" by (auto simp: wf_def)
  qed
  have free: "\<not> clash status since until scope r' x \<and> \<not> clash status since until scope x r'"
    if "x \<in> set (rows db)" "rid x \<noteq> i" for x
    using close_free [OF assms(1) that] clash_commute [of status since until scope] by blast
  have "\<not> clash status since until scope a b"
    if "a \<in> set (rows db')" "b \<in> set (rows db')" "rid a \<noteq> rid b" for a b
    using mem [OF that(1)] mem [OF that(2)] that(3) free r(2) assms(2) unfolding wf_def by metis
  moreover have "window_check (status x) (since x) (until x)" if "x \<in> set (rows db')" for x
    using mem [OF that] close_checked [OF assms(1)] assms(2) unfolding wf_def by metis
  ultimately show ?thesis
    using ids bound assms(2) rows(2) unfolding wf_def by simp
qed

lemma wf_subset:
  assumes "wf db" and "rows db' = filter P (rows db)" and "nextval db' = nextval db"
  shows "wf db'"
  using assms by (auto simp: wf_def distinct_map_filter)

lemma wf_same: "wf db \<Longrightarrow> rows db' = rows db \<Longrightarrow> nextval db' = nextval db \<Longrightarrow> wf db'"
  by (simp add: wf_def)

lemma one_live:
  assumes "wf db" "a \<in> set (rows db)" "b \<in> set (rows db)" "scope a = scope b" "live a t" "live b t"
  shows "a = b"
proof -
  have "clash status since until scope a b"
    using assms(4-6) active_overlap [of "status a" "since a" "until a" t "status b" "since b" "until b"]
    by (auto simp: clash_def live_def active_def)
  with assms(1-3) have "rid a = rid b" unfolding wf_def by blast
  with assms(1-3) show ?thesis unfolding wf_def by (metis distinct_map inj_onD)
qed

text \<open>
  The abstract state of a table: for each scope the row in force at each instant. An INSERT sets it on
  the window of the new row, an UPDATE takes the old window of the row away and gives it the new one.
\<close>

definition schedule :: "price_db \<Rightarrow> 'k \<Rightarrow> int \<Rightarrow> 'r option" where
  "schedule db k t = find (\<lambda>r. scope r = k \<and> live r t) (rows db)"

lemma schedule_iff:
  assumes "wf db"
  shows "schedule db k t = Some r \<longleftrightarrow> r \<in> set (rows db) \<and> scope r = k \<and> live r t"
proof
  assume "schedule db k t = Some r"
  then show "r \<in> set (rows db) \<and> scope r = k \<and> live r t"
    by (auto simp: schedule_def find_Some_iff)
next
  assume r: "r \<in> set (rows db) \<and> scope r = k \<and> live r t"
  then obtain x where x: "schedule db k t = Some x"
    by (cases "schedule db k t") (auto simp: schedule_def find_None_iff)
  then have "x \<in> set (rows db) \<and> scope x = k \<and> live x t" by (auto simp: schedule_def find_Some_iff)
  with one_live [OF assms, of x r t] r x show "schedule db k t = Some r" by simp
qed

lemma schedule_None: "schedule db k t = None \<longleftrightarrow> (\<forall>r \<in> set (rows db). scope r = k \<longrightarrow> \<not> live r t)"
  by (auto simp: schedule_def find_None_iff)

lemma schedule_insert:
  assumes "insert_row env db r = Inr (r', db')" "wf db"
  shows "schedule db' k t = (if k = scope r' \<and> live r' t then Some r' else schedule db k t)"
proof (cases "k = scope r' \<and> live r' t")
  case True
  then show ?thesis
    using insert_appends [OF assms(1)] schedule_iff [OF wf_insert [OF assms], of k t r'] by auto
next
  case False
  then show ?thesis
    using insert_appends [OF assms(1)] by (auto simp: schedule_def find_append split: option.splits)
qed

lemma schedule_close:
  assumes "close_row env db t0 s i = Inr (r', db')" "wf db"
  shows "schedule db' k t =
    (if k = scope r' \<and> live r' t then Some r'
     else case schedule db k t of None \<Rightarrow> None | Some r \<Rightarrow> if rid r = i then None else Some r)"
proof -
  have rows: "rows db' = map (\<lambda>x. if rid x = i then r' else x) (rows db)" and r': "rid r' = i" "r' \<in> set (rows db')"
    using close_replaces [OF assms(1)] get_Inr by fastforce+
  have new: "x \<in> set (rows db') \<Longrightarrow> x = r' \<or> (x \<in> set (rows db) \<and> rid x \<noteq> i)" for x
    using rows by auto
  have old: "x \<in> set (rows db) \<Longrightarrow> rid x \<noteq> i \<Longrightarrow> x \<in> set (rows db')" for x
    using rows by force
  have wf': "wf db'" using assms by (rule wf_close)
  show ?thesis
  proof (cases "k = scope r' \<and> live r' t")
    case True
    with r' schedule_iff [OF wf', of k t r'] show ?thesis by simp
  next
    case False
    show ?thesis
    proof (cases "schedule db k t")
      case None
      have "schedule db' k t = None"
        unfolding schedule_None using None new False by (auto simp: schedule_None)
      with None False show ?thesis by simp
    next
      case (Some r)
      then have r: "r \<in> set (rows db)" "scope r = k" "live r t" by (simp_all add: schedule_iff [OF assms(2)])
      show ?thesis
      proof (cases "rid r = i")
        case True
        have "schedule db' k t = None"
          unfolding schedule_None
        proof (intro ballI impI)
          fix x assume x: "x \<in> set (rows db')" "scope x = k"
          show "\<not> live x t"
          proof
            assume "live x t"
            with x False new have "x \<in> set (rows db)" "rid x \<noteq> i" by auto
            with one_live [OF assms(2), of x r t] r x \<open>live x t\<close> True show False by simp
          qed
        qed
        with Some True False show ?thesis by auto
      next
        case False
        with r old schedule_iff [OF wf', of k t r] Some \<open>\<not> (k = scope r' \<and> live r' t)\<close>
        show ?thesis by auto
      qed
    qed
  qed
qed

text \<open>What a version says is final: later inserts and updates keep it.\<close>

definition keeps :: "price_db \<Rightarrow> price_db \<Rightarrow> bool" where
  "keeps db db' \<longleftrightarrow> nextval db \<le> nextval db' \<and>
     (\<forall>i r'. get_row db' i = Inr r' \<longrightarrow> i < nextval db \<longrightarrow>
        (\<exists>r. get_row db i = Inr r \<and> terms r' = terms r))"

lemma keeps_refl: "keeps db db" by (auto simp: keeps_def)

lemma keeps_trans:
  assumes "keeps db db1" "keeps db1 db2"
  shows "keeps db db2"
  unfolding keeps_def
proof (intro conjI allI impI)
  show "nextval db \<le> nextval db2" using assms by (simp add: keeps_def)
  fix i r2
  assume "get_row db2 i = Inr r2" "i < nextval db"
  moreover from this assms(1) have "i < nextval db1" by (simp add: keeps_def)
  ultimately obtain r1 where "get_row db1 i = Inr r1" "terms r2 = terms r1"
    using assms(2) by (auto simp: keeps_def)
  moreover from this \<open>i < nextval db\<close> obtain r where "get_row db i = Inr r" "terms r1 = terms r"
    using assms(1) by (auto simp: keeps_def)
  ultimately show "\<exists>r. get_row db i = Inr r \<and> terms r2 = terms r" by simp
qed

lemma keeps_terms:
  "keeps db db' \<Longrightarrow> get_row db i = Inr r \<Longrightarrow> wf db \<Longrightarrow> get_row db' i = Inr r' \<Longrightarrow> terms r' = terms r"
  using get_Inr [of db i r] unfolding keeps_def wf_def by fastforce

lemma keeps_insert:
  assumes "insert_row env db r = Inr (r', db')"
  shows "keeps db db'"
  using insert_appends [OF assms]
  by (auto simp: keeps_def get_find find_append one_row_def split: option.splits if_splits)

lemma keeps_close:
  assumes "close_row env db t s i = Inr (r', db')"
  shows "keeps db db'"
proof -
  obtain r where r: "find (\<lambda>x. rid x = i) (rows db) = Some r" "terms r' = terms r" "rid r' = i"
    and rows: "rows db' = map (\<lambda>x. if rid x = i then r' else x) (rows db)" "nextval db' = nextval db"
    using close_replaces [OF assms] by (auto simp: get_find one_row_def split: option.splits)
  show ?thesis
    unfolding keeps_def get_find rows find_update [where key = rid, OF r(1) r(3)]
    using r by (auto simp: one_row_def split: option.splits if_splits)
qed

lemma find_filter: "distinct (map rid xs) \<Longrightarrow> find (\<lambda>x. rid x = i) (filter P xs) =
    (case find (\<lambda>x. rid x = i) xs of None \<Rightarrow> None | Some x \<Rightarrow> if P x then Some x else None)"
  by (induction xs) (auto simp: find_key_None [THEN iffD2])

lemma keeps_subset:
  assumes "wf db" "rows db' = filter P (rows db)" "nextval db' = nextval db"
  shows "keeps db db'"
  using assms
  by (auto simp: keeps_def get_find one_row_def wf_def find_filter split: option.splits if_splits)

lemma keeps_same: "rows db' = rows db \<Longrightarrow> nextval db' = nextval db \<Longrightarrow> keeps db db'"
  by (auto simp: keeps_def get_find)

end

subsection \<open>The four tables\<close>

text \<open>What an update never changes: the row without its end, its status and its time stamp.\<close>

definition mp_terms :: "ModelPrice \<Rightarrow> ModelPrice" where
  "mp_terms r = r\<lparr>mpID := 0, mpStatus := '''', mpEffectiveTo := None, mpUpdatedAt := 0\<rparr>"

definition cpr_terms :: "ChannelPrice \<Rightarrow> ChannelPrice" where
  "cpr_terms r = r\<lparr>cprID := 0, cprStatus := '''', cprEffectiveTo := None, cprUpdatedAt := 0\<rparr>"

definition cm_terms :: "ChannelCostMultiplier \<Rightarrow> ChannelCostMultiplier" where
  "cm_terms r = r\<lparr>cmID := 0, cmStatus := '''', cmEffectiveTo := None, cmUpdatedAt := 0\<rparr>"

definition rf_terms :: "ChannelRechargeFactor \<Rightarrow> ChannelRechargeFactor" where
  "rf_terms r = r\<lparr>rfID := 0, rfStatus := '''', rfEffectiveTo := None, rfUpdatedAt := 0\<rparr>"

abbreviation mp_scope :: "ModelPrice \<Rightarrow> int \<times> string \<times> string" where
  "mp_scope r \<equiv> (mpModelID r, mpCurrency r, mpPricingUnit r)"

abbreviation cpr_scope :: "ChannelPrice \<Rightarrow> (int \<times> int) \<times> string \<times> string" where
  "cpr_scope r \<equiv> ((cprChannelID r, cprModelID r), cprCurrency r, cprPricingUnit r)"

abbreviation cm_scope :: "ChannelCostMultiplier \<Rightarrow> int \<times> int" where
  "cm_scope r \<equiv> (cmChannelID r, model_key (cmModelID r))"

lemmas price_table_defs =
  insert_model_price_def insert_channel_price_def insert_cost_multiplier_def insert_recharge_factor_def
  UpdateModelPriceWindow_def UpdateChannelPriceWindow_def UpdateChannelCostMultiplierWindow_def
  UpdateChannelRechargeFactorWindow_def GetModelPrice_def GetChannelPrice_def GetChannelCostMultiplier_def
  GetChannelRechargeFactor_def check_model_price_def check_channel_price_def check_cost_multiplier_def
  check_recharge_factor_def mp_conflict_def cpr_conflict_def cm_conflict_def rf_conflict_def
  mp_terms_def cpr_terms_def cm_terms_def rf_terms_def clash_def constrained_Inr one_row_def

interpretation base_prices: timeline model_prices model_price_seq mpID mp_scope mpStatus mpEffectiveFrom
    mpEffectiveTo mp_terms insert_model_price UpdateModelPriceWindow GetModelPrice
  by unfold_locales
    (auto simp: price_table_defs Let_def rbind_Inr_iff split: option.splits dest: find_key_Some)

interpretation overrides: timeline channel_prices channel_price_seq cprID cpr_scope cprStatus cprEffectiveFrom
    cprEffectiveTo cpr_terms insert_channel_price UpdateChannelPriceWindow GetChannelPrice
  by unfold_locales
    (auto simp: price_table_defs Let_def rbind_Inr_iff split: option.splits dest: find_key_Some)

interpretation multipliers: timeline cost_multipliers multiplier_seq cmID cm_scope cmStatus cmEffectiveFrom
    cmEffectiveTo cm_terms insert_cost_multiplier UpdateChannelCostMultiplierWindow GetChannelCostMultiplier
  by unfold_locales
    (auto simp: price_table_defs Let_def rbind_Inr_iff split: option.splits dest: find_key_Some)

interpretation factors: timeline recharge_factors factor_seq rfID rfChannelID rfStatus rfEffectiveFrom
    rfEffectiveTo rf_terms insert_recharge_factor UpdateChannelRechargeFactorWindow GetChannelRechargeFactor
  by unfold_locales
    (auto simp: price_table_defs Let_def rbind_Inr_iff split: option.splits dest: find_key_Some)

end
