(* ===== verification/Go_Text.thy ===== *)
theory Go_Text
  imports Go_Numeric
begin

text \<open>
  The text functions the services use: \<open>strings.TrimSpace\<close> and \<open>strings.ContainsAny\<close> of the Go library, and the
  decimal form in which the admin packages print a NUMERIC (\<open>numericPtr\<close>, \<open>numericString\<close>). A Go string is the list
  of its bytes (UTF-8).
\<close>

subsection \<open>strings.TrimSpace\<close>

text \<open>
  \<open>space_rune\<close> is the number of bytes of the white space rune a byte list starts with: the ASCII spaces,
  U+0085, U+00A0, U+1680, U+2000 to U+200A, U+2028, U+2029, U+202F, U+205F and U+3000.
\<close>

abbreviation byte_of :: "char \<Rightarrow> nat" where "byte_of c \<equiv> of_char c"

definition ascii_space :: "char \<Rightarrow> bool" where
  "ascii_space c \<longleftrightarrow> byte_of c \<in> {9, 10, 11, 12, 13, 32}"

fun space_rune :: "string \<Rightarrow> nat" where
  "space_rune [] = 0"
| "space_rune [a] = (if ascii_space a then 1 else 0)"
| "space_rune [a, b] = (if ascii_space a then 1
     else if byte_of a = 194 \<and> byte_of b \<in> {133, 160} then 2 else 0)"
| "space_rune (a # b # c # s) = (if ascii_space a then 1
     else if byte_of a = 194 \<and> byte_of b \<in> {133, 160} then 2
     else if (byte_of a, byte_of b, byte_of c) \<in> {(225, 154, 128), (226, 129, 159), (227, 128, 128)} \<or>
             (byte_of a = 226 \<and> byte_of b = 128 \<and>
              byte_of c \<in> set [128 ..< 139] \<union> {168, 169, 175}) then 3 else 0)"

function trim_left :: "string \<Rightarrow> string" where
  "trim_left s = (if space_rune s = 0 then s else trim_left (drop (space_rune s) s))"
  by pat_completeness auto
termination
proof (relation "measure length")
  show "wf (measure length)" by simp
  fix s :: string
  assume "space_rune s \<noteq> 0"
  then show "(drop (space_rune s) s, s) \<in> measure length" by (cases s) auto
qed

declare trim_left.simps [simp del]

text \<open>The white space rune a byte list ends with, by trying the three lengths.\<close>

definition trailing_space :: "string \<Rightarrow> nat" where
  "trailing_space s =
     (if s \<noteq> [] \<and> ascii_space (last s) then 1
      else if length s \<ge> 2 \<and> space_rune (drop (length s - 2) s) = 2 then 2
      else if length s \<ge> 3 \<and> space_rune (drop (length s - 3) s) = 3 then 3 else 0)"

function trim_right :: "string \<Rightarrow> string" where
  "trim_right s = (if trailing_space s = 0 then s else trim_right (take (length s - trailing_space s) s))"
  by pat_completeness auto
termination
proof (relation "measure length")
  show "wf (measure length)" by simp
  fix s :: string
  assume "trailing_space s \<noteq> 0"
  then show "(take (length s - trailing_space s) s, s) \<in> measure length"
    by (auto simp: trailing_space_def split: if_splits)
qed

declare trim_right.simps [simp del]

definition TrimSpace :: "string \<Rightarrow> string" where
  "TrimSpace s = trim_right (trim_left s)"

definition ContainsAny :: "string \<Rightarrow> string \<Rightarrow> bool" where
  "ContainsAny s chars \<longleftrightarrow> (\<exists>c \<in> set s. c \<in> set chars)"

lemma TrimSpace_Nil [simp]: "TrimSpace '''' = ''''"
  by (simp add: TrimSpace_def trim_left.simps trim_right.simps trailing_space_def)

lemma TrimSpace_id: "space_rune s = 0 \<Longrightarrow> trailing_space s = 0 \<Longrightarrow> TrimSpace s = s"
  by (simp add: TrimSpace_def trim_left.simps trim_right.simps)

subsection \<open>Decimal text\<close>

text \<open>\<open>(*big.Int).String\<close> of a number that is not negative, and a NUMERIC as exact decimal text.\<close>

fun dec_digits :: "nat \<Rightarrow> string" where
  "dec_digits n = (if n < 10 then [char_of (48 + n)] else dec_digits (n div 10) @ [char_of (48 + n mod 10)])"

declare dec_digits.simps [simp del]

text \<open>\<open>fmt.Sprintf("%d", n)\<close>, \<open>strconv.Itoa\<close>.\<close>

definition sprint_int :: "int \<Rightarrow> string" where
  "sprint_int n = (if n < 0 then ''-'' else '''') @ dec_digits (nat \<bar>n\<bar>)"

definition numericPtr :: "numeric \<Rightarrow> string option" where
  "numericPtr n =
     (if \<not> nValid n \<or> nNaN n \<or> nInfinityModifier n \<noteq> Finite then None
      else case nInt n of None \<Rightarrow> Some ''0''
      | Some i \<Rightarrow>
          (let negative = i < 0;
               digits = dec_digits (nat \<bar>i\<bar>);
               e = nExp n;
               formatted =
                 (if e = 0 then digits
                  else if e > 0 then digits @ replicate (nat e) CHR ''0''
                  else (let scale = nat (- e);
                            padded = (if length digits \<le> scale
                              then replicate (scale - length digits + 1) CHR ''0'' @ digits else digits);
                            point = length padded - scale
                        in take point padded @ ''.'' @ drop point padded))
           in Some (if negative then ''-'' @ formatted else formatted)))"

definition numericString :: "numeric \<Rightarrow> string" where
  "numericString n = (case numericPtr n of Some s \<Rightarrow> s | None \<Rightarrow> ''0'')"

subsection \<open>Reading decimal text\<close>

text \<open>The reference: the value of a decimal, an optional sign, digits and an optional fraction.\<close>

definition is_digit :: "char \<Rightarrow> bool" where
  "is_digit c \<longleftrightarrow> 48 \<le> (byte_of c) \<and> byte_of c \<le> 57"

definition read_digits :: "string \<Rightarrow> nat" where
  "read_digits = foldl (\<lambda>a c. 10 * a + (byte_of c - 48)) 0"

definition read_unsigned :: "string \<Rightarrow> rat option" where
  "read_unsigned s =
     (let w = takeWhile is_digit s; rest = dropWhile is_digit s
      in if w = [] then None
         else case rest of [] \<Rightarrow> Some (of_nat (read_digits w))
         | c # f \<Rightarrow> if c = CHR ''.'' \<and> f \<noteq> [] \<and> list_all is_digit f
             then Some (of_nat (read_digits (w @ f)) / 10 ^ length f) else None)"

definition read_decimal :: "string \<Rightarrow> rat option" where
  "read_decimal s = (case s of [] \<Rightarrow> None
     | c # t \<Rightarrow> if c = CHR ''-'' then map_option uminus (read_unsigned t) else read_unsigned s)"

lemma read_digits_snoc: "read_digits (s @ [c]) = 10 * read_digits s + (byte_of c - 48)"
  by (simp add: read_digits_def)

lemma read_digits_zeros: "read_digits (replicate k CHR ''0'' @ s) = read_digits s"
  by (induction k) (simp_all add: read_digits_def)

lemma read_digits_zero: "read_digits (CHR ''0'' # s) = read_digits s"
  by (simp add: read_digits_def)

lemma read_digits_append_zeros: "read_digits (s @ replicate k CHR ''0'') = read_digits s * 10 ^ k"
proof (induction k)
  case (Suc k)
  have "s @ replicate (Suc k) CHR ''0'' = (s @ replicate k CHR ''0'') @ [CHR ''0'']"
    by (simp add: replicate_append_same)
  then show ?case using Suc by (simp only: read_digits_snoc) simp
qed (simp add: read_digits_def)

lemma dec_digits_read: "read_digits (dec_digits n) = n"
proof (induction n rule: dec_digits.induct)
  case (1 n)
  show ?case
  proof (cases "n < 10")
    case True
    then show ?thesis by (subst dec_digits.simps) (simp add: read_digits_def)
  next
    case False
    with 1 show ?thesis by (subst dec_digits.simps) (simp add: read_digits_snoc)
  qed
qed

lemma dec_digits_digits: "dec_digits n \<noteq> [] \<and> (\<forall>c \<in> set (dec_digits n). is_digit c)"
proof (induction n rule: dec_digits.induct)
  case (1 n)
  show ?case
  proof (cases "n < 10")
    case True
    then show ?thesis by (subst dec_digits.simps, subst (2) dec_digits.simps) (simp add: is_digit_def)
  next
    case False
    have "n mod 10 < 10" by simp
    with 1 False show ?thesis
      by (subst dec_digits.simps, subst (2) dec_digits.simps) (auto simp: is_digit_def)
  qed
qed

lemma read_unsigned_whole:
  assumes "s \<noteq> []" "\<forall>c \<in> set s. is_digit c"
  shows "read_unsigned s = Some (of_nat (read_digits s))"
proof -
  have tw: "takeWhile is_digit s = s" and dw: "dropWhile is_digit s = []" using assms(2) by auto
  show ?thesis unfolding read_unsigned_def tw dw Let_def using assms(1) by simp
qed

lemma read_unsigned_fraction:
  assumes "w \<noteq> []" "f \<noteq> []" "\<forall>c \<in> set w. is_digit c" "\<forall>c \<in> set f. is_digit c"
  shows "read_unsigned (w @ ''.'' @ f) = Some (of_nat (read_digits (w @ f)) / 10 ^ length f)"
proof -
  have "\<not> is_digit CHR ''.''" by (simp add: is_digit_def)
  then have "takeWhile is_digit (w @ ''.'' @ f) = w" "dropWhile is_digit (w @ ''.'' @ f) = ''.'' @ f"
    using assms(3) by (auto simp: takeWhile_append dropWhile_append)
  with assms(1,2,4) show ?thesis by (simp add: read_unsigned_def list_all_iff)
qed

lemma read_decimal_sign:
  assumes "s \<noteq> []" "is_digit (hd s)"
  shows "read_decimal (if b then ''-'' @ s else s) = map_option (if b then uminus else id) (read_unsigned s)"
proof -
  obtain c t where s: "s = c # t" using assms(1) by (cases s) auto
  with assms(2) have "c \<noteq> CHR ''-''" by (auto simp: is_digit_def)
  with s show ?thesis by (simp add: read_decimal_def option.map_id)
qed

text \<open>The printed digits of an integer at an exponent denote exactly \<open>int * 10 ^ exponent\<close>.\<close>

lemma numericPtr_read:
  assumes fin: "finite_num n" and i: "nInt n = Some i" and s: "numericPtr n = Some s"
  shows "read_decimal s = Some (numeric_val i (nExp n))"
proof -
  define e where "e = nExp n"
  define ds where "ds = dec_digits (nat \<bar>i\<bar>)"
  have ds: "ds \<noteq> []" "\<forall>c \<in> set ds. is_digit c" "read_digits ds = nat \<bar>i\<bar>"
    using dec_digits_digits dec_digits_read by (auto simp: ds_def)
  have zero: "is_digit CHR ''0''" by (simp add: is_digit_def)
  define p where "p = (if length ds \<le> nat (- e) then replicate (nat (- e) - length ds + 1) CHR ''0'' @ ds else ds)"
  define f where "f = (if e = 0 then ds else if e > 0 then ds @ replicate (nat e) CHR ''0''
     else take (length p - nat (- e)) p @ ''.'' @ drop (length p - nat (- e)) p)"
  have s': "s = (if i < 0 then ''-'' @ f else f)"
    using s fin unfolding numericPtr_def finite_num_def i Let_def f_def p_def e_def ds_def
    by (simp only: option.case option.inject simp_thms if_False)
  have p: "\<forall>c \<in> set p. is_digit c" "read_digits p = nat \<bar>i\<bar>" "length p > nat (- e)"
    using ds zero by (auto simp: p_def read_digits_zero read_digits_zeros)
  have f: "f \<noteq> [] \<and> is_digit (hd f) \<and> read_unsigned f = Some (of_int \<bar>i\<bar> * 10 powi e)"
  proof (cases "0 \<le> e")
    case True
    then have "f = ds @ replicate (nat e) CHR ''0''" by (simp add: f_def)
    moreover have "read_unsigned (ds @ replicate (nat e) CHR ''0'') = Some (of_int \<bar>i\<bar> * 10 powi e)"
      using ds zero True
      by (subst read_unsigned_whole) (auto simp: read_digits_append_zeros power_int_def)
    ultimately show ?thesis using ds by (simp add: hd_append)
  next
    case False
    define w where "w = take (length p - nat (- e)) p"
    define r where "r = drop (length p - nat (- e)) p"
    have wr: "w \<noteq> []" "r \<noteq> []" "length r = nat (- e)" "w @ r = p" "\<forall>c \<in> set w. is_digit c" "\<forall>c \<in> set r. is_digit c"
      using p False by (auto simp: w_def r_def dest: in_set_takeD in_set_dropD)
    have "f = w @ ''.'' @ r" using False by (simp add: f_def w_def r_def)
    moreover have "read_unsigned (w @ ''.'' @ r) = Some (of_int \<bar>i\<bar> * 10 powi e)"
      using read_unsigned_fraction [OF wr(1,2,5,6)] p(2) wr(3,4) False
      by (simp add: power_int_def field_simps)
    ultimately show ?thesis using wr(1,5) by (simp add: hd_append)
  qed
  have "read_decimal s = map_option (if i < 0 then uminus else id) (Some (of_int \<bar>i\<bar> * 10 powi e))"
    unfolding s' using f read_decimal_sign [of f "i < 0"] by simp
  then show ?thesis by (auto simp: numeric_val_def e_def)
qed

end
