(* ===== verification/Price_Admin.thy ===== *)
theory Price_Admin
  imports Price_Timelines Go_Text
begin

text \<open>
  The admin services that write the price tables: \<open>internal/service/admin/modelprice\<close>, \<open>channelprice\<close>,
  \<open>channelcostmultiplier\<close> and \<open>channelrechargefactor\<close>. Each creates a version, closes or disables one, and
  checks before both that no enabled window of the same price overlaps.

  \<^item> A service call is not one transaction: its reads see \<open>seen\<close>, its single write runs on \<open>db\<close> and commits by
    itself. A serial execution has \<open>seen = db\<close>; other writers may come between, then only the constraints of the
    table protect it.
  \<^item> A call returns the stored row; the response struct copies it and prints each NUMERIC with \<open>numericString\<close>.
  \<^item> The four packages carry identical copies of \<open>validateStatus\<close>, \<open>windowsOverlap\<close>, \<open>parseMoney\<close> and
    \<open>numericString\<close>; each is one definition here.
\<close>

datatype admin_error =
    AdminInvalidArgument string string
  | AdminNotFound string
  | AdminPricingWindowOverlap string
  | AdminStoreFailed db_error string

abbreviation StatusEnabled :: string where "StatusEnabled \<equiv> ''enabled''"
abbreviation StatusDisabled :: string where "StatusDisabled \<equiv> ''disabled''"

text \<open>\<open>time.Time{}\<close>, the first instant of year 1, in microseconds of the Unix epoch.\<close>

definition zero_time :: int where "zero_time = - 62135596800000000"

text \<open>A statement that commits by itself: it may fail before, or lose its reply after it took effect.\<close>

definition autocommit ::
  "'z env_scheme \<Rightarrow> string \<Rightarrow> 's \<Rightarrow> (db_error, 'r \<times> 's) go_result \<Rightarrow> (db_error, 'r) go_result \<times> 's" where
  "autocommit env msg db res =
     (if fault env msg then (Inl ConnFailure, db)
      else case res of Inl e \<Rightarrow> (Inl e, db)
      | Inr (x, db') \<Rightarrow>
          (case commit_outcome env of
             CommitOk \<Rightarrow> (Inr x, db')
           | CommitFailed \<Rightarrow> (Inl ConnFailure, db)
           | CommitReplyLost \<Rightarrow> (Inl ConnFailure, db')))"

subsection \<open>Shared checks\<close>

definition validateStatus :: "string \<Rightarrow> (admin_error, unit) go_result" where
  "validateStatus status =
     (if status = StatusEnabled \<or> status = StatusDisabled then Inr ()
      else Inl (AdminInvalidArgument ''status'' ''status must be \"enabled\" or \"disabled\"''))"

definition windowsOverlap :: "int \<Rightarrow> int option \<Rightarrow> int \<Rightarrow> int option \<Rightarrow> bool" where
  "windowsOverlap aFrom aTo bFrom bTo =
     (let aStartsBeforeBEnds = (bTo = None \<or> aFrom < the bTo);
          bStartsBeforeAEnds = (aTo = None \<or> bFrom < the aTo)
      in aStartsBeforeBEnds \<and> bStartsBeforeAEnds)"

fun windows_free ::
  "string \<Rightarrow> int \<Rightarrow> int option \<Rightarrow> (int \<times> int \<times> int option) list \<Rightarrow> (admin_error, unit) go_result" where
  "windows_free msg efrom eto [] = Inr ()"
| "windows_free msg efrom eto ((_, wFrom, wTo) # ws) =
     (if windowsOverlap efrom eto wFrom wTo then Inl (AdminPricingWindowOverlap msg)
      else windows_free msg efrom eto ws)"

definition parseMoney :: "price_env \<Rightarrow> string \<Rightarrow> string \<Rightarrow> (admin_error, numeric) go_result" where
  "parseMoney env field raw =
     (let s = TrimSpace raw
      in if s = '''' then Inl (AdminInvalidArgument field ''is required'')
         else case ratSetString env s of
           None \<Rightarrow> Inl (AdminInvalidArgument field ''must be a non-negative decimal amount'')
         | Some r \<Rightarrow>
             if ContainsAny s ''eE'' \<or> r < 0
             then Inl (AdminInvalidArgument field ''must be a non-negative decimal amount'')
             else (case numericScan env s of
                     None \<Rightarrow> Inl (AdminInvalidArgument field ''invalid decimal amount'')
                   | Some n \<Rightarrow> Inr n))"

definition parseOptionalMoney :: "price_env \<Rightarrow> string \<Rightarrow> string option \<Rightarrow> (admin_error, numeric) go_result" where
  "parseOptionalMoney env field raw =
     (case raw of None \<Rightarrow> Inr numeric_null
      | Some s \<Rightarrow> if TrimSpace s = '''' then Inr numeric_null else parseMoney env field s)"

text \<open>What every update may change, and every creation must say about its window.\<close>

record UpdateInput =
  uiID :: int
  uiStatus :: string
  uiEffectiveTo :: "int option"

definition window_input :: "string \<Rightarrow> int \<Rightarrow> int option \<Rightarrow> (admin_error, unit) go_result" where
  "window_input status effectiveFrom effectiveTo =
     rbind (validateStatus status) (\<lambda>_.
     if effectiveFrom = zero_time then Inl (AdminInvalidArgument ''effective_from'' ''effective_from is required'')
     else if effectiveTo \<noteq> None \<and> \<not> the effectiveTo > effectiveFrom
     then Inl (AdminInvalidArgument ''effective_to'' ''effective_to must be after effective_from'')
     else Inr ())"

definition lookup_failed :: "db_error \<Rightarrow> admin_error \<Rightarrow> string \<Rightarrow> admin_error" where
  "lookup_failed err missing msg = (if err = ErrNoRows then missing else AdminStoreFailed err msg)"

definition row_exists :: "bool \<Rightarrow> (db_error, unit) go_result" where
  "row_exists b = (if b then Inr () else Inl ErrNoRows)"

subsection \<open>channelcostmultiplier\<close>

record MultiplierInput =
  miChannelID :: int
  miModelID :: "int option"
  miMultiplier :: string
  miStatus :: string
  miEffectiveFrom :: int
  miEffectiveTo :: "int option"

definition parseMultiplier :: "price_env \<Rightarrow> string \<Rightarrow> (admin_error, numeric) go_result" where
  "parseMultiplier env raw =
     (let s = TrimSpace raw
      in if s = '''' then Inl (AdminInvalidArgument ''multiplier'' ''is required'')
         else case ratSetString env s of
           None \<Rightarrow> Inl (AdminInvalidArgument ''multiplier'' ''must be a non-negative decimal'')
         | Some r \<Rightarrow>
             if ContainsAny s ''eE'' \<or> r < 0
             then Inl (AdminInvalidArgument ''multiplier'' ''must be a non-negative decimal'')
             else (case numericScan env s of
                     None \<Rightarrow> Inl (AdminInvalidArgument ''multiplier'' ''invalid decimal'')
                   | Some n \<Rightarrow> Inr n))"

definition cm_ensureNoOverlap ::
  "price_env \<Rightarrow> price_db \<Rightarrow> int \<Rightarrow> int option \<Rightarrow> int \<Rightarrow> int \<Rightarrow> int option \<Rightarrow> (admin_error, unit) go_result" where
  "cm_ensureNoOverlap env seen channelID modelID excludeID efrom eto =
     (case store_call env ''list enabled channel cost multiplier windows''
             (Inr (ListEnabledChannelCostMultiplierWindows seen channelID modelID excludeID)) of
        Inl err \<Rightarrow> Inl (AdminStoreFailed err ''list enabled channel cost multiplier windows'')
      | Inr windows \<Rightarrow>
          windows_free ''effective window overlaps an existing enabled channel cost multiplier'' efrom eto windows)"

definition CreateMultiplier ::
  "price_env \<Rightarrow> price_db \<Rightarrow> price_db \<Rightarrow> MultiplierInput \<Rightarrow> (admin_error, ChannelCostMultiplier) go_result \<times> price_db" where
  "CreateMultiplier env seen db inp =
     (case (if miChannelID inp \<le> 0 then Inl (AdminInvalidArgument ''channel_id'' ''channel id must be positive'')
            else if miModelID inp \<noteq> None \<and> the (miModelID inp) \<le> 0
            then Inl (AdminInvalidArgument ''model_id'' ''model_id must be positive when provided'')
            else rbind (window_input (miStatus inp) (miEffectiveFrom inp) (miEffectiveTo inp)) (\<lambda>_.
              rbind (parseMultiplier env (miMultiplier inp)) (\<lambda>multiplier.
              case store_call env ''load channel'' (row_exists (miChannelID inp \<in> set (channels seen))) of
                Inl err \<Rightarrow> Inl (lookup_failed err (AdminNotFound ''channel not found'') ''load channel'')
              | Inr _ \<Rightarrow>
              rbind (case miModelID inp of None \<Rightarrow> Inr ()
                | Some m \<Rightarrow>
                   (case store_call env ''load channel model binding''
                           (row_exists ((miChannelID inp, m) \<in> set (channel_models seen))) of
                      Inl err \<Rightarrow> Inl (lookup_failed err
                        (AdminInvalidArgument ''model_id'' ''channel is not bound to this model'')
                        ''load channel model binding'')
                    | Inr _ \<Rightarrow> Inr ())) (\<lambda>_.
              rbind (if miStatus inp = StatusEnabled
                     then cm_ensureNoOverlap env seen (miChannelID inp) (miModelID inp) 0
                            (miEffectiveFrom inp) (miEffectiveTo inp)
                     else Inr ()) (\<lambda>_. Inr multiplier))))) of
        Inl e \<Rightarrow> (Inl e, db)
      | Inr multiplier \<Rightarrow>
          (case autocommit env ''create channel cost multiplier'' db
                  (CreateChannelCostMultiplier env db (miChannelID inp) (miModelID inp) multiplier
                    (miStatus inp) (miEffectiveFrom inp) (miEffectiveTo inp)) of
             (Inl err, db') \<Rightarrow> (Inl (AdminStoreFailed err ''create channel cost multiplier''), db')
           | (Inr row, db') \<Rightarrow> (Inr row, db')))"

definition UpdateMultiplier ::
  "price_env \<Rightarrow> price_db \<Rightarrow> price_db \<Rightarrow> UpdateInput \<Rightarrow> (admin_error, ChannelCostMultiplier) go_result \<times> price_db" where
  "UpdateMultiplier env seen db inp =
     (case (if uiID inp \<le> 0 then Inl (AdminInvalidArgument ''id'' ''id must be positive'')
            else rbind (validateStatus (uiStatus inp)) (\<lambda>_.
              case store_call env ''load channel cost multiplier'' (GetChannelCostMultiplier seen (uiID inp)) of
                Inl err \<Rightarrow> Inl (lookup_failed err (AdminNotFound ''channel cost multiplier not found'')
                                 ''load channel cost multiplier'')
              | Inr existing \<Rightarrow>
                  if uiEffectiveTo inp \<noteq> None \<and> \<not> the (uiEffectiveTo inp) > cmEffectiveFrom existing
                  then Inl (AdminInvalidArgument ''effective_to'' ''effective_to must be after effective_from'')
                  else if uiStatus inp = StatusEnabled
                  then cm_ensureNoOverlap env seen (cmChannelID existing) (cmModelID existing) (cmID existing)
                         (cmEffectiveFrom existing) (uiEffectiveTo inp)
                  else Inr ())) of
        Inl e \<Rightarrow> (Inl e, db)
      | Inr _ \<Rightarrow>
          (case autocommit env ''update channel cost multiplier'' db
                  (UpdateChannelCostMultiplierWindow env db (uiEffectiveTo inp) (uiStatus inp)
                    (uiID inp)) of
             (Inl err, db') \<Rightarrow> (Inl (lookup_failed err (AdminNotFound ''channel cost multiplier not found'')
                                  ''update channel cost multiplier''), db')
           | (Inr row, db') \<Rightarrow> (Inr row, db')))"

subsection \<open>channelrechargefactor\<close>

record FactorInput =
  fiChannelID :: int
  fiFactor :: string
  fiStatus :: string
  fiEffectiveFrom :: int
  fiEffectiveTo :: "int option"

definition parseFactor :: "price_env \<Rightarrow> string \<Rightarrow> (admin_error, numeric) go_result" where
  "parseFactor env raw =
     (let s = TrimSpace raw
      in if s = '''' then Inl (AdminInvalidArgument ''factor'' ''is required'')
         else case ratSetString env s of
           None \<Rightarrow> Inl (AdminInvalidArgument ''factor'' ''must be a non-negative decimal'')
         | Some r \<Rightarrow>
             if ContainsAny s ''eE'' \<or> r < 0
             then Inl (AdminInvalidArgument ''factor'' ''must be a non-negative decimal'')
             else (case numericScan env s of
                     None \<Rightarrow> Inl (AdminInvalidArgument ''factor'' ''invalid decimal'')
                   | Some n \<Rightarrow> Inr n))"

definition rf_ensureNoOverlap ::
  "price_env \<Rightarrow> price_db \<Rightarrow> int \<Rightarrow> int \<Rightarrow> int \<Rightarrow> int option \<Rightarrow> (admin_error, unit) go_result" where
  "rf_ensureNoOverlap env seen channelID excludeID efrom eto =
     (case store_call env ''list enabled channel recharge factor windows''
             (Inr (ListEnabledChannelRechargeFactorWindows seen channelID excludeID)) of
        Inl err \<Rightarrow> Inl (AdminStoreFailed err ''list enabled channel recharge factor windows'')
      | Inr windows \<Rightarrow>
          windows_free ''effective window overlaps an existing enabled channel recharge factor'' efrom eto windows)"

definition CreateFactor ::
  "price_env \<Rightarrow> price_db \<Rightarrow> price_db \<Rightarrow> FactorInput \<Rightarrow> (admin_error, ChannelRechargeFactor) go_result \<times> price_db" where
  "CreateFactor env seen db inp =
     (case (if fiChannelID inp \<le> 0 then Inl (AdminInvalidArgument ''channel_id'' ''channel id must be positive'')
            else rbind (window_input (fiStatus inp) (fiEffectiveFrom inp) (fiEffectiveTo inp)) (\<lambda>_.
              rbind (parseFactor env (fiFactor inp)) (\<lambda>factor.
              case store_call env ''load channel'' (row_exists (fiChannelID inp \<in> set (channels seen))) of
                Inl err \<Rightarrow> Inl (lookup_failed err (AdminNotFound ''channel not found'') ''load channel'')
              | Inr _ \<Rightarrow>
              rbind (if fiStatus inp = StatusEnabled
                     then rf_ensureNoOverlap env seen (fiChannelID inp) 0 (fiEffectiveFrom inp) (fiEffectiveTo inp)
                     else Inr ()) (\<lambda>_. Inr factor)))) of
        Inl e \<Rightarrow> (Inl e, db)
      | Inr factor \<Rightarrow>
          (case autocommit env ''create channel recharge factor'' db
                  (CreateChannelRechargeFactor env db (fiChannelID inp) factor (fiStatus inp)
                    (fiEffectiveFrom inp) (fiEffectiveTo inp)) of
             (Inl err, db') \<Rightarrow> (Inl (AdminStoreFailed err ''create channel recharge factor''), db')
           | (Inr row, db') \<Rightarrow> (Inr row, db')))"

definition UpdateFactor ::
  "price_env \<Rightarrow> price_db \<Rightarrow> price_db \<Rightarrow> UpdateInput \<Rightarrow> (admin_error, ChannelRechargeFactor) go_result \<times> price_db" where
  "UpdateFactor env seen db inp =
     (case (if uiID inp \<le> 0 then Inl (AdminInvalidArgument ''id'' ''id must be positive'')
            else rbind (validateStatus (uiStatus inp)) (\<lambda>_.
              case store_call env ''load channel recharge factor'' (GetChannelRechargeFactor seen (uiID inp)) of
                Inl err \<Rightarrow> Inl (lookup_failed err (AdminNotFound ''channel recharge factor not found'')
                                 ''load channel recharge factor'')
              | Inr existing \<Rightarrow>
                  if uiEffectiveTo inp \<noteq> None \<and> \<not> the (uiEffectiveTo inp) > rfEffectiveFrom existing
                  then Inl (AdminInvalidArgument ''effective_to'' ''effective_to must be after effective_from'')
                  else if uiStatus inp = StatusEnabled
                  then rf_ensureNoOverlap env seen (rfChannelID existing) (rfID existing) (rfEffectiveFrom existing)
                         (uiEffectiveTo inp)
                  else Inr ())) of
        Inl e \<Rightarrow> (Inl e, db)
      | Inr _ \<Rightarrow>
          (case autocommit env ''update channel recharge factor'' db
                  (UpdateChannelRechargeFactorWindow env db (uiEffectiveTo inp) (uiStatus inp) (uiID inp)) of
             (Inl err, db') \<Rightarrow> (Inl (lookup_failed err (AdminNotFound ''channel recharge factor not found'')
                                  ''update channel recharge factor''), db')
           | (Inr row, db') \<Rightarrow> (Inr row, db')))"

subsection \<open>channelprice\<close>

record ChannelPriceInput =
  ciChannelID :: int
  ciModelID :: int
  ciCurrency :: string
  ciPricingUnit :: string
  ciUncachedInputCost :: string
  ciCacheReadInputCost :: "string option"
  ciCacheWrite5mInputCost :: "string option"
  ciCacheWrite1hInputCost :: "string option"
  ciCacheWrite30mInputCost :: "string option"
  ciOutputCost :: string
  ciReasoningOutputCost :: "string option"
  ciStatus :: string
  ciEffectiveFrom :: int
  ciEffectiveTo :: "int option"

text \<open>\<open>parseChannelPriceAmounts\<close> puts the parsed amounts into the parameters of the INSERT.\<close>

definition parseChannelPriceAmounts ::
  "price_env \<Rightarrow> ChannelPriceInput \<Rightarrow> string \<Rightarrow> (admin_error, CreateChannelPriceParams) go_result" where
  "parseChannelPriceAmounts env inp cur =
     rbind (parseMoney env ''uncached_input_cost'' (ciUncachedInputCost inp)) (\<lambda>uncachedInputCost.
     rbind (parseMoney env ''output_cost'' (ciOutputCost inp)) (\<lambda>outputCost.
     rbind (parseOptionalMoney env ''cache_read_input_cost'' (ciCacheReadInputCost inp)) (\<lambda>cacheReadInputCost.
     rbind (parseOptionalMoney env ''cache_write_5m_input_cost'' (ciCacheWrite5mInputCost inp)) (\<lambda>cacheWrite5mInputCost.
     rbind (parseOptionalMoney env ''cache_write_1h_input_cost'' (ciCacheWrite1hInputCost inp)) (\<lambda>cacheWrite1hInputCost.
     rbind (parseOptionalMoney env ''cache_write_30m_input_cost'' (ciCacheWrite30mInputCost inp)) (\<lambda>cacheWrite30mInputCost.
     rbind (parseOptionalMoney env ''reasoning_output_cost'' (ciReasoningOutputCost inp)) (\<lambda>reasoningOutputCost.
       Inr \<lparr>ccpChannelID = ciChannelID inp, ccpModelID = ciModelID inp, ccpCurrency = cur,
            ccpPricingUnit = ciPricingUnit inp, ccpUncachedInputCost = uncachedInputCost,
            ccpCacheReadInputCost = cacheReadInputCost, ccpCacheWrite5mInputCost = cacheWrite5mInputCost,
            ccpCacheWrite1hInputCost = cacheWrite1hInputCost, ccpCacheWrite30mInputCost = cacheWrite30mInputCost,
            ccpOutputCost = outputCost, ccpReasoningOutputCost = reasoningOutputCost, ccpStatus = ciStatus inp,
            ccpEffectiveFrom = ciEffectiveFrom inp, ccpEffectiveTo = ciEffectiveTo inp\<rparr>)))))))"

definition cpr_ensureNoOverlap ::
  "price_env \<Rightarrow> price_db \<Rightarrow> int \<Rightarrow> int \<Rightarrow> int \<Rightarrow> int \<Rightarrow> int option \<Rightarrow> (admin_error, unit) go_result" where
  "cpr_ensureNoOverlap env seen channelID modelID excludeID efrom eto =
     (case store_call env ''list enabled channel price windows''
             (Inr (ListEnabledChannelPriceWindows seen channelID modelID excludeID)) of
        Inl err \<Rightarrow> Inl (AdminStoreFailed err ''list enabled channel price windows'')
      | Inr windows \<Rightarrow>
          windows_free ''effective window overlaps an existing enabled channel price'' efrom eto windows)"

definition CreatePrice ::
  "price_env \<Rightarrow> price_db \<Rightarrow> price_db \<Rightarrow> ChannelPriceInput \<Rightarrow> (admin_error, ChannelPrice) go_result \<times> price_db" where
  "CreatePrice env seen db inp =
     (case (if ciChannelID inp \<le> 0 then Inl (AdminInvalidArgument ''channel_id'' ''channel id must be positive'')
            else if ciModelID inp \<le> 0 then Inl (AdminInvalidArgument ''model_id'' ''model_id must be positive'')
            else (let cur = TrimSpace (ciCurrency inp) in
              if cur = '''' then Inl (AdminInvalidArgument ''currency'' ''currency is required'')
              else if ciPricingUnit inp \<noteq> ''per_1m_tokens''
              then Inl (AdminInvalidArgument ''pricing_unit'' ''pricing_unit must be \"per_1m_tokens\"'')
              else rbind (window_input (ciStatus inp) (ciEffectiveFrom inp) (ciEffectiveTo inp)) (\<lambda>_.
                rbind (parseChannelPriceAmounts env inp cur) (\<lambda>params.
                case store_call env ''load channel model binding''
                        (row_exists ((ciChannelID inp, ciModelID inp) \<in> set (channel_models seen))) of
                  Inl err \<Rightarrow> Inl (lookup_failed err
                    (AdminInvalidArgument ''model_id'' ''channel is not bound to this model'')
                    ''load channel model binding'')
                | Inr _ \<Rightarrow>
                rbind (if ciStatus inp = StatusEnabled
                       then cpr_ensureNoOverlap env seen (ciChannelID inp) (ciModelID inp) 0
                              (ciEffectiveFrom inp) (ciEffectiveTo inp)
                       else Inr ()) (\<lambda>_. Inr params))))) of
        Inl e \<Rightarrow> (Inl e, db)
      | Inr params \<Rightarrow>
          (case autocommit env ''create channel price'' db (CreateChannelPrice env db params) of
             (Inl err, db') \<Rightarrow> (Inl (AdminStoreFailed err ''create channel price''), db')
           | (Inr row, db') \<Rightarrow> (Inr row, db')))"

definition UpdatePrice ::
  "price_env \<Rightarrow> price_db \<Rightarrow> price_db \<Rightarrow> UpdateInput \<Rightarrow> (admin_error, ChannelPrice) go_result \<times> price_db" where
  "UpdatePrice env seen db inp =
     (case (if uiID inp \<le> 0 then Inl (AdminInvalidArgument ''id'' ''id must be positive'')
            else rbind (validateStatus (uiStatus inp)) (\<lambda>_.
              case store_call env ''load channel price'' (GetChannelPrice seen (uiID inp)) of
                Inl err \<Rightarrow> Inl (lookup_failed err (AdminNotFound ''channel price not found'') ''load channel price'')
              | Inr existing \<Rightarrow>
                  if uiEffectiveTo inp \<noteq> None \<and> \<not> the (uiEffectiveTo inp) > cprEffectiveFrom existing
                  then Inl (AdminInvalidArgument ''effective_to'' ''effective_to must be after effective_from'')
                  else if uiStatus inp = StatusEnabled
                  then cpr_ensureNoOverlap env seen (cprChannelID existing) (cprModelID existing) (cprID existing)
                         (cprEffectiveFrom existing) (uiEffectiveTo inp)
                  else Inr ())) of
        Inl e \<Rightarrow> (Inl e, db)
      | Inr _ \<Rightarrow>
          (case autocommit env ''update channel price'' db
                  (UpdateChannelPriceWindow env db (uiEffectiveTo inp) (uiStatus inp) (uiID inp)) of
             (Inl err, db') \<Rightarrow>
               (Inl (lookup_failed err (AdminNotFound ''channel price not found'') ''update channel price''), db')
           | (Inr row, db') \<Rightarrow> (Inr row, db')))"

subsection \<open>modelprice\<close>

record ModelPriceInput =
  piModelID :: int
  piCurrency :: string
  piPricingUnit :: string
  piUncachedInputPrice :: string
  piCacheReadInputPrice :: "string option"
  piCacheWrite5mInputPrice :: "string option"
  piCacheWrite1hInputPrice :: "string option"
  piCacheWrite30mInputPrice :: "string option"
  piOutputPrice :: string
  piReasoningOutputPrice :: "string option"
  piLongContextEnabled :: bool
  piLongContextThreshold :: "int option"
  piLongContextInputMultiplier :: "string option"
  piLongContextOutputMultiplier :: "string option"
  piStatus :: string
  piEffectiveFrom :: int
  piEffectiveTo :: "int option"

definition parseOptionalPositiveMultiplier ::
  "price_env \<Rightarrow> string \<Rightarrow> string option \<Rightarrow> (admin_error, numeric) go_result" where
  "parseOptionalPositiveMultiplier env field raw =
     (case raw of None \<Rightarrow> Inr numeric_null
      | Some s \<Rightarrow> if TrimSpace s = '''' then Inr numeric_null
          else rbind (parseMoney env field s) (\<lambda>n.
            case ratSetString env (TrimSpace s) of
              None \<Rightarrow> Inl (AdminInvalidArgument field ''must be a positive decimal amount'')
            | Some r \<Rightarrow> if r \<le> 0 then Inl (AdminInvalidArgument field ''must be a positive decimal amount'')
                else Inr n))"

text \<open>The result is the threshold and the two multipliers of \<open>longContextConfig\<close>; \<open>enabled\<close> is the input's.\<close>

definition parseLongContextConfig ::
  "price_env \<Rightarrow> ModelPriceInput \<Rightarrow> (admin_error, int option \<times> numeric \<times> numeric) go_result" where
  "parseLongContextConfig env inp =
     (if piLongContextThreshold inp \<noteq> None \<and> the (piLongContextThreshold inp) \<le> 0
      then Inl (AdminInvalidArgument ''long_context_threshold'' ''must be a positive integer'')
      else rbind (parseOptionalPositiveMultiplier env ''long_context_input_multiplier''
                    (piLongContextInputMultiplier inp)) (\<lambda>inputMultiplier.
        rbind (parseOptionalPositiveMultiplier env ''long_context_output_multiplier''
                 (piLongContextOutputMultiplier inp)) (\<lambda>outputMultiplier.
        let out = (piLongContextThreshold inp, inputMultiplier, outputMultiplier) in
        if \<not> piLongContextEnabled inp then Inr out
        else if piLongContextThreshold inp = None
        then Inl (AdminInvalidArgument ''long_context_threshold'' ''is required when long_context_enabled is true'')
        else if \<not> nValid inputMultiplier
        then Inl (AdminInvalidArgument ''long_context_input_multiplier''
                    ''is required when long_context_enabled is true'')
        else if \<not> nValid outputMultiplier
        then Inl (AdminInvalidArgument ''long_context_output_multiplier''
                    ''is required when long_context_enabled is true'')
        else Inr out)))"

definition parseModelPriceAmounts ::
  "price_env \<Rightarrow> ModelPriceInput \<Rightarrow> string \<Rightarrow> (admin_error, CreateModelPriceParams) go_result" where
  "parseModelPriceAmounts env inp cur =
     rbind (parseMoney env ''uncached_input_price'' (piUncachedInputPrice inp)) (\<lambda>uncachedInputPrice.
     rbind (parseMoney env ''output_price'' (piOutputPrice inp)) (\<lambda>outputPrice.
     rbind (parseOptionalMoney env ''cache_read_input_price'' (piCacheReadInputPrice inp)) (\<lambda>cacheReadInputPrice.
     rbind (parseOptionalMoney env ''cache_write_5m_input_price'' (piCacheWrite5mInputPrice inp)) (\<lambda>cacheWrite5mInputPrice.
     rbind (parseOptionalMoney env ''cache_write_1h_input_price'' (piCacheWrite1hInputPrice inp)) (\<lambda>cacheWrite1hInputPrice.
     rbind (parseOptionalMoney env ''cache_write_30m_input_price'' (piCacheWrite30mInputPrice inp)) (\<lambda>cacheWrite30mInputPrice.
     rbind (parseOptionalMoney env ''reasoning_output_price'' (piReasoningOutputPrice inp)) (\<lambda>reasoningOutputPrice.
       Inr \<lparr>cmpModelID = piModelID inp, cmpCurrency = cur, cmpPricingUnit = piPricingUnit inp,
            cmpUncachedInputPrice = uncachedInputPrice, cmpCacheReadInputPrice = cacheReadInputPrice,
            cmpCacheWrite5mInputPrice = cacheWrite5mInputPrice, cmpCacheWrite1hInputPrice = cacheWrite1hInputPrice,
            cmpCacheWrite30mInputPrice = cacheWrite30mInputPrice, cmpOutputPrice = outputPrice,
            cmpReasoningOutputPrice = reasoningOutputPrice, cmpStatus = piStatus inp,
            cmpEffectiveFrom = piEffectiveFrom inp, cmpEffectiveTo = piEffectiveTo inp,
            cmpLongContextEnabled = piLongContextEnabled inp, cmpLongContextThreshold = None,
            cmpLongContextInputMultiplier = numeric_null, cmpLongContextOutputMultiplier = numeric_null\<rparr>)))))))"

definition mp_ensureNoOverlap ::
  "price_env \<Rightarrow> price_db \<Rightarrow> int \<Rightarrow> int \<Rightarrow> int \<Rightarrow> int option \<Rightarrow> (admin_error, unit) go_result" where
  "mp_ensureNoOverlap env seen modelID excludeID efrom eto =
     (case store_call env ''list enabled model price windows''
             (Inr (ListEnabledModelPriceWindows seen modelID excludeID)) of
        Inl err \<Rightarrow> Inl (AdminStoreFailed err ''list enabled model price windows'')
      | Inr windows \<Rightarrow>
          windows_free ''effective window overlaps an existing enabled model price'' efrom eto windows)"

definition CreateBasePrice ::
  "price_env \<Rightarrow> price_db \<Rightarrow> price_db \<Rightarrow> ModelPriceInput \<Rightarrow> (admin_error, ModelPrice) go_result \<times> price_db" where
  "CreateBasePrice env seen db inp =
     (case (if piModelID inp \<le> 0 then Inl (AdminInvalidArgument ''model_id'' ''model_id must be positive'')
            else (let cur = TrimSpace (piCurrency inp) in
              if cur = '''' then Inl (AdminInvalidArgument ''currency'' ''currency is required'')
              else if piPricingUnit inp \<noteq> ''per_1m_tokens''
              then Inl (AdminInvalidArgument ''pricing_unit'' ''pricing_unit must be \"per_1m_tokens\"'')
              else rbind (window_input (piStatus inp) (piEffectiveFrom inp) (piEffectiveTo inp)) (\<lambda>_.
                rbind (parseModelPriceAmounts env inp cur) (\<lambda>params.
                rbind (parseLongContextConfig env inp) (\<lambda>(threshold, inputMultiplier, outputMultiplier).
                case store_call env ''load model'' (row_exists (piModelID inp \<in> set (models seen))) of
                  Inl err \<Rightarrow> Inl (lookup_failed err (AdminInvalidArgument ''model_id'' ''model not found'') ''load model'')
                | Inr _ \<Rightarrow>
                rbind (if piStatus inp = StatusEnabled
                       then mp_ensureNoOverlap env seen (piModelID inp) 0 (piEffectiveFrom inp) (piEffectiveTo inp)
                       else Inr ()) (\<lambda>_.
                Inr (params\<lparr>cmpLongContextThreshold := threshold,
                            cmpLongContextInputMultiplier := inputMultiplier,
                            cmpLongContextOutputMultiplier := outputMultiplier\<rparr>))))))) of
        Inl e \<Rightarrow> (Inl e, db)
      | Inr params \<Rightarrow>
          (case autocommit env ''create model price'' db (CreateModelPrice env db params) of
             (Inl err, db') \<Rightarrow> (Inl (AdminStoreFailed err ''create model price''), db')
           | (Inr row, db') \<Rightarrow> (Inr row, db')))"

definition UpdateBasePrice ::
  "price_env \<Rightarrow> price_db \<Rightarrow> price_db \<Rightarrow> UpdateInput \<Rightarrow> (admin_error, ModelPrice) go_result \<times> price_db" where
  "UpdateBasePrice env seen db inp =
     (case (if uiID inp \<le> 0 then Inl (AdminInvalidArgument ''id'' ''id must be positive'')
            else rbind (validateStatus (uiStatus inp)) (\<lambda>_.
              case store_call env ''load model price'' (GetModelPrice seen (uiID inp)) of
                Inl err \<Rightarrow> Inl (lookup_failed err (AdminNotFound ''model price not found'') ''load model price'')
              | Inr existing \<Rightarrow>
                  if uiEffectiveTo inp \<noteq> None \<and> \<not> the (uiEffectiveTo inp) > mpEffectiveFrom existing
                  then Inl (AdminInvalidArgument ''effective_to'' ''effective_to must be after effective_from'')
                  else if uiStatus inp = StatusEnabled
                  then mp_ensureNoOverlap env seen (mpModelID existing) (mpID existing) (mpEffectiveFrom existing)
                         (uiEffectiveTo inp)
                  else Inr ())) of
        Inl e \<Rightarrow> (Inl e, db)
      | Inr _ \<Rightarrow>
          (case autocommit env ''update model price'' db
                  (UpdateModelPriceWindow env db (uiEffectiveTo inp) (uiStatus inp) (uiID inp)) of
             (Inl err, db') \<Rightarrow>
               (Inl (lookup_failed err (AdminNotFound ''model price not found'') ''update model price''), db')
           | (Inr row, db') \<Rightarrow> (Inr row, db')))"

end
