(* ===== verification/Price_Machine.thy ===== *)
theory Price_Machine
  imports Price_Admin Transitions
begin

text \<open>
  The price tables as a state machine: any sequence of the calls that write them, with any input, any outdated view
  at the checks, any store failure and any commit outcome. The invariant is the well-formedness of the four
  time lines, and what every step keeps is the content of the versions it finds.
\<close>

definition price_inv :: "price_db \<Rightarrow> bool" where
  "price_inv db \<longleftrightarrow> base_prices.wf db \<and> overrides.wf db \<and> multipliers.wf db \<and> factors.wf db"

definition price_keeps :: "price_db \<Rightarrow> price_db \<Rightarrow> bool" where
  "price_keeps db db' \<longleftrightarrow> base_prices.keeps db db' \<and> overrides.keeps db db' \<and> multipliers.keeps db db' \<and>
     factors.keeps db db'"

inductive price_step :: "price_db \<Rightarrow> price_db \<Rightarrow> bool" where
  create_base: "CreateBasePrice env seen db p = (r, db') \<Longrightarrow> price_step db db'"
| update_base: "UpdateBasePrice env seen db u = (r, db') \<Longrightarrow> price_step db db'"
| create_override: "CreatePrice env seen db c = (s, db') \<Longrightarrow> price_step db db'"
| update_override: "UpdatePrice env seen db u = (s, db') \<Longrightarrow> price_step db db'"
| create_multiplier: "CreateMultiplier env seen db m = (t, db') \<Longrightarrow> price_step db db'"
| update_multiplier: "UpdateMultiplier env seen db u = (t, db') \<Longrightarrow> price_step db db'"
| create_factor: "CreateFactor env seen db f = (v, db') \<Longrightarrow> price_step db db'"
| update_factor: "UpdateFactor env seen db u = (v, db') \<Longrightarrow> price_step db db'"
| delete_binding: "autocommit env msg db (DeleteChannelModel env db ch mo) = (w, db') \<Longrightarrow> price_step db db'"
| delete_channel: "autocommit env msg db (DeleteChannelCascade env db ch) = (w, db') \<Longrightarrow> price_step db db'"
| delete_model: "autocommit env msg db (DeleteModelCascade env db mo) = (w, db') \<Longrightarrow> price_step db db'"
| outside: "price_step db (db\<lparr>models := ms, channels := cs, channel_models := bs\<rparr>)"

definition empty_prices :: price_db where
  "empty_prices = \<lparr>models = [], channels = [], channel_models = [], model_prices = [], channel_prices = [],
     cost_multipliers = [], recharge_factors = [], model_price_seq = 1, channel_price_seq = 1,
     multiplier_seq = 1, factor_seq = 1\<rparr>"

text \<open>What a write of one table leaves alone in the others.\<close>

definition good_write :: "price_db \<Rightarrow> price_db \<Rightarrow> bool" where
  "good_write db db' \<longleftrightarrow> (price_inv db \<longrightarrow> price_inv db' \<and> price_keeps db db')"

lemma good_write_refl: "good_write db db"
  by (simp add: good_write_def price_keeps_def base_prices.keeps_refl overrides.keeps_refl
      multipliers.keeps_refl factors.keeps_refl)

lemma autocommit_write:
  assumes "autocommit env msg db res = (r, db')" and "\<And>x db1. res = Inr (x, db1) \<Longrightarrow> good_write db db1"
  shows "good_write db db'"
  using assms good_write_refl
  by (auto simp: autocommit_def split: if_splits sum.splits commit_outcome.splits)

lemmas same_table_intros =
  base_prices.wf_same overrides.wf_same multipliers.wf_same factors.wf_same
  base_prices.keeps_same overrides.keeps_same multipliers.keeps_same factors.keeps_same

lemma base_write:
  assumes "base_prices.wf db \<longrightarrow> base_prices.wf db' \<and> base_prices.keeps db db'"
    and "channel_prices db' = channel_prices db" "channel_price_seq db' = channel_price_seq db"
    and "cost_multipliers db' = cost_multipliers db" "multiplier_seq db' = multiplier_seq db"
    and "recharge_factors db' = recharge_factors db" "factor_seq db' = factor_seq db"
  shows "good_write db db'"
  using assms by (auto simp: good_write_def price_inv_def price_keeps_def intro: same_table_intros)

lemma override_write:
  assumes "overrides.wf db \<longrightarrow> overrides.wf db' \<and> overrides.keeps db db'"
    and "model_prices db' = model_prices db" "model_price_seq db' = model_price_seq db"
    and "cost_multipliers db' = cost_multipliers db" "multiplier_seq db' = multiplier_seq db"
    and "recharge_factors db' = recharge_factors db" "factor_seq db' = factor_seq db"
  shows "good_write db db'"
  using assms by (auto simp: good_write_def price_inv_def price_keeps_def intro: same_table_intros)

lemma multiplier_write:
  assumes "multipliers.wf db \<longrightarrow> multipliers.wf db' \<and> multipliers.keeps db db'"
    and "model_prices db' = model_prices db" "model_price_seq db' = model_price_seq db"
    and "channel_prices db' = channel_prices db" "channel_price_seq db' = channel_price_seq db"
    and "recharge_factors db' = recharge_factors db" "factor_seq db' = factor_seq db"
  shows "good_write db db'"
  using assms by (auto simp: good_write_def price_inv_def price_keeps_def intro: same_table_intros)

lemma factor_write:
  assumes "factors.wf db \<longrightarrow> factors.wf db' \<and> factors.keeps db db'"
    and "model_prices db' = model_prices db" "model_price_seq db' = model_price_seq db"
    and "channel_prices db' = channel_prices db" "channel_price_seq db' = channel_price_seq db"
    and "cost_multipliers db' = cost_multipliers db" "multiplier_seq db' = multiplier_seq db"
  shows "good_write db db'"
  using assms by (auto simp: good_write_def price_inv_def price_keeps_def intro: same_table_intros)

definition subtable :: "'r list \<Rightarrow> 'r list \<Rightarrow> bool" where
  "subtable xs ys \<longleftrightarrow> (\<exists>P. xs = filter P ys)"

lemma subtable_simps [simp]: "subtable xs xs" "subtable (filter P xs) xs"
  unfolding subtable_def by (rule exI [where x = "\<lambda>_. True"], simp) blast

lemma delete_write:
  assumes "subtable (model_prices db') (model_prices db)" "model_price_seq db' = model_price_seq db"
    and "subtable (channel_prices db') (channel_prices db)" "channel_price_seq db' = channel_price_seq db"
    and "subtable (cost_multipliers db') (cost_multipliers db)" "multiplier_seq db' = multiplier_seq db"
    and "subtable (recharge_factors db') (recharge_factors db)" "factor_seq db' = factor_seq db"
  shows "good_write db db'"
proof -
  obtain P Q R S where rows: "model_prices db' = filter P (model_prices db)"
      "channel_prices db' = filter Q (channel_prices db)" "cost_multipliers db' = filter R (cost_multipliers db)"
      "recharge_factors db' = filter S (recharge_factors db)"
    using assms(1,3,5,7) by (auto simp: subtable_def)
  show ?thesis
    unfolding good_write_def price_inv_def price_keeps_def
    using base_prices.wf_subset [OF _ rows(1) assms(2)] overrides.wf_subset [OF _ rows(2) assms(4)]
      multipliers.wf_subset [OF _ rows(3) assms(6)] factors.wf_subset [OF _ rows(4) assms(8)]
      base_prices.keeps_subset [OF _ rows(1) assms(2)] overrides.keeps_subset [OF _ rows(2) assms(4)]
      multipliers.keeps_subset [OF _ rows(3) assms(6)] factors.keeps_subset [OF _ rows(4) assms(8)]
    by blast
qed

subsection \<open>The statements\<close>

lemma insert_model_price_write: "insert_model_price env db r = Inr (r', db') \<Longrightarrow> good_write db db'"
  by (rule base_write)
    (auto simp: base_prices.wf_insert base_prices.keeps_insert insert_model_price_def Let_def constrained_Inr)

lemma insert_channel_price_write: "insert_channel_price env db r = Inr (r', db') \<Longrightarrow> good_write db db'"
  by (rule override_write)
    (auto simp: overrides.wf_insert overrides.keeps_insert insert_channel_price_def Let_def constrained_Inr)

lemma insert_cost_multiplier_write: "insert_cost_multiplier env db r = Inr (r', db') \<Longrightarrow> good_write db db'"
  by (rule multiplier_write)
    (auto simp: multipliers.wf_insert multipliers.keeps_insert insert_cost_multiplier_def Let_def constrained_Inr)

lemma insert_recharge_factor_write: "insert_recharge_factor env db r = Inr (r', db') \<Longrightarrow> good_write db db'"
  by (rule factor_write)
    (auto simp: factors.wf_insert factors.keeps_insert insert_recharge_factor_def Let_def constrained_Inr)

lemma UpdateModelPriceWindow_write: "UpdateModelPriceWindow env db t s i = Inr (r', db') \<Longrightarrow> good_write db db'"
  by (rule base_write)
    (auto simp: base_prices.wf_close base_prices.keeps_close UpdateModelPriceWindow_def Let_def constrained_Inr
      rbind_Inr_iff)

lemma UpdateChannelPriceWindow_write: "UpdateChannelPriceWindow env db t s i = Inr (r', db') \<Longrightarrow> good_write db db'"
  by (rule override_write)
    (auto simp: overrides.wf_close overrides.keeps_close UpdateChannelPriceWindow_def Let_def constrained_Inr
      rbind_Inr_iff)

lemma UpdateChannelCostMultiplierWindow_write:
  "UpdateChannelCostMultiplierWindow env db t s i = Inr (r', db') \<Longrightarrow> good_write db db'"
  by (rule multiplier_write)
    (auto simp: multipliers.wf_close multipliers.keeps_close UpdateChannelCostMultiplierWindow_def Let_def
      constrained_Inr rbind_Inr_iff)

lemma UpdateChannelRechargeFactorWindow_write:
  "UpdateChannelRechargeFactorWindow env db t s i = Inr (r', db') \<Longrightarrow> good_write db db'"
  by (rule factor_write)
    (auto simp: factors.wf_close factors.keeps_close UpdateChannelRechargeFactorWindow_def Let_def
      constrained_Inr rbind_Inr_iff)

lemma CreateModelPrice_write: "CreateModelPrice env db arg = Inr (r, db') \<Longrightarrow> good_write db db'"
  unfolding CreateModelPrice_def by (elim rbind_InrE) (rule insert_model_price_write)

lemma CreateChannelPrice_write: "CreateChannelPrice env db arg = Inr (r, db') \<Longrightarrow> good_write db db'"
  unfolding CreateChannelPrice_def by (elim rbind_InrE) (rule insert_channel_price_write)

lemma CreateChannelCostMultiplier_write:
  "CreateChannelCostMultiplier env db ch mo m s a b = Inr (r, db') \<Longrightarrow> good_write db db'"
  unfolding CreateChannelCostMultiplier_def by (elim rbind_InrE) (rule insert_cost_multiplier_write)

lemma CreateChannelRechargeFactor_write:
  "CreateChannelRechargeFactor env db ch f s a b = Inr (r, db') \<Longrightarrow> good_write db db'"
  unfolding CreateChannelRechargeFactor_def by (elim rbind_InrE) (rule insert_recharge_factor_write)

lemma delete_writes:
  "DeleteChannelModel env db ch mo = Inr (n, db') \<Longrightarrow> good_write db db'"
  "DeleteChannelCascade env db ch = Inr (n, db') \<Longrightarrow> good_write db db'"
  "DeleteModelCascade env db mo = Inr (n, db') \<Longrightarrow> good_write db db'"
  by (rule delete_write;
      auto simp: DeleteChannelModel_def DeleteChannelCascade_def DeleteModelCascade_def constrained_delete_def Let_def
        split: if_splits)+

subsection \<open>The calls\<close>

text \<open>A call either stops before its write, or ends with it.\<close>

lemma checked_write:
  assumes "(case c of Inl e \<Rightarrow> (Inl e, db)
      | Inr x \<Rightarrow> (case autocommit env msg db (w x) of (Inl err, d) \<Rightarrow> (Inl (f err), d) | (Inr row, d) \<Rightarrow> (Inr row, d)))
    = (res, db')"
    and "\<And>x y db1. w x = Inr (y, db1) \<Longrightarrow> good_write db db1"
  shows "good_write db db'"
proof (cases c)
  case (Inl e)
  with assms(1) good_write_refl show ?thesis by simp
next
  case (Inr x)
  obtain v d where a: "autocommit env msg db (w x) = (v, d)" by (cases "autocommit env msg db (w x)")
  with Inr assms(1) have "d = db'" by (auto split: sum.splits)
  moreover have "good_write db d" by (rule autocommit_write [OF a]) (rule assms(2))
  ultimately show ?thesis by simp
qed

lemma price_step_write: "price_step db db' \<Longrightarrow> good_write db db'"
proof (induction rule: price_step.induct)
  case (create_base env seen db p r db')
  then show ?case unfolding CreateBasePrice_def by (rule checked_write) (rule CreateModelPrice_write)
next
  case (update_base env seen db u r db')
  then show ?case unfolding UpdateBasePrice_def by (rule checked_write) (rule UpdateModelPriceWindow_write)
next
  case (create_override env seen db c s db')
  then show ?case unfolding CreatePrice_def by (rule checked_write) (rule CreateChannelPrice_write)
next
  case (update_override env seen db u s db')
  then show ?case unfolding UpdatePrice_def by (rule checked_write) (rule UpdateChannelPriceWindow_write)
next
  case (create_multiplier env seen db m t db')
  then show ?case unfolding CreateMultiplier_def by (rule checked_write) (rule CreateChannelCostMultiplier_write)
next
  case (update_multiplier env seen db u t db')
  then show ?case unfolding UpdateMultiplier_def by (rule checked_write) (rule UpdateChannelCostMultiplierWindow_write)
next
  case (create_factor env seen db f v db')
  then show ?case unfolding CreateFactor_def by (rule checked_write) (rule CreateChannelRechargeFactor_write)
next
  case (update_factor env seen db u v db')
  then show ?case unfolding UpdateFactor_def by (rule checked_write) (rule UpdateChannelRechargeFactorWindow_write)
next
  case (delete_binding env msg db ch mo w db')
  then show ?case by (rule autocommit_write) (rule delete_writes)
next
  case (delete_channel env msg db ch w db')
  then show ?case by (rule autocommit_write) (rule delete_writes)
next
  case (delete_model env msg db mo w db')
  then show ?case by (rule autocommit_write) (rule delete_writes)
next
  case (outside db ms cs bs)
  show ?case by (rule delete_write) simp_all
qed

lemma price_keeps_refl: "price_keeps db db"
  by (simp add: price_keeps_def base_prices.keeps_refl overrides.keeps_refl multipliers.keeps_refl factors.keeps_refl)

lemma price_keeps_trans: "price_keeps db db1 \<Longrightarrow> price_keeps db1 db2 \<Longrightarrow> price_keeps db db2"
  unfolding price_keeps_def
  using base_prices.keeps_trans overrides.keeps_trans multipliers.keeps_trans factors.keeps_trans by blast

interpretation prices: step_relation price_step price_inv price_keeps
  by unfold_locales
    (use price_step_write in \<open>auto simp: good_write_def price_keeps_refl intro: price_keeps_trans\<close>)

definition price_reachable :: "price_db \<Rightarrow> bool" where
  "price_reachable db \<longleftrightarrow> price_step\<^sup>*\<^sup>* empty_prices db"

lemma empty_prices_inv: "price_inv empty_prices"
  by (simp add: price_inv_def empty_prices_def base_prices.wf_def overrides.wf_def multipliers.wf_def factors.wf_def)

lemma price_reachable_inv: "price_reachable db \<Longrightarrow> price_inv db"
  unfolding price_reachable_def by (rule prices.reach_inv) (auto intro: empty_prices_inv)

end
