(* ===== verification/Settlement_Cost.thy ===== *)
theory Settlement_Cost
  imports Price_Machine Billing
begin

text \<open>
  Which provider cost a settled request is booked with: \<open>internal/service/gateway/lifecycle/settlement.go\<close>
  (\<open>resolveSettlementCost\<close> and what it calls) and the pricing of a probe in
  \<open>internal/core/providerledger/probe.go\<close> (\<open>resolveProbeCost\<close>), over the price tables.
\<close>

subsection \<open>Sources of a cost\<close>

record settlementCostPins =
  pinChannelPriceID :: int
  pinCostBaseModelPriceID :: int
  pinChannelCostMultiplierID :: int
  pinChannelRechargeFactorID :: int

record resolvedSettlementCost =
  rcSnapshot :: ProviderCostSnapshot
  rcChannelPriceID :: int
  rcCostBaseModelPriceID :: int
  rcChannelCostMultiplierID :: int
  rcCostMultiplier :: numeric
  rcChannelRechargeFactorID :: int
  rcRechargeFactor :: numeric

datatype settlement_error =
    SettlementStoreFailed db_error string
  | SettlementScaleFailed billing_error string

definition oneNumeric :: numeric where
  "oneNumeric = mkNumeric 1 0"

definition numericOrZero :: "numeric \<Rightarrow> numeric" where
  "numericOrZero v =
     (if nValid v \<and> \<not> nNaN v \<and> nInfinityModifier v = Finite \<and> nInt v \<noteq> None then v else mkNumeric 0 0)"

definition channelPriceCostSnapshot :: "ChannelPrice \<Rightarrow> ProviderCostSnapshot" where
  "channelPriceCostSnapshot p =
     \<lparr>pcCurrency = cprCurrency p, pcPricingUnit = cprPricingUnit p,
      UncachedInputCost = numericOrZero (nullable (cprUncachedInputCost p)),
      CacheReadInputCost = nullable (cprCacheReadInputCost p),
      CacheWrite5mInputCost = nullable (cprCacheWrite5mInputCost p),
      CacheWrite1hInputCost = nullable (cprCacheWrite1hInputCost p),
      CacheWrite30mInputCost = nullable (cprCacheWrite30mInputCost p),
      OutputCost = numericOrZero (nullable (cprOutputCost p)),
      ReasoningOutputCost = nullable (cprReasoningOutputCost p),
      pcFormulaVersion = FormulaVersionV1\<rparr>"

definition overrideResolvedCost :: "ChannelPrice \<Rightarrow> resolvedSettlementCost" where
  "overrideResolvedCost price =
     \<lparr>rcSnapshot = channelPriceCostSnapshot price, rcChannelPriceID = cprID price, rcCostBaseModelPriceID = 0,
      rcChannelCostMultiplierID = 0, rcCostMultiplier = numeric_null, rcChannelRechargeFactorID = 0,
      rcRechargeFactor = numeric_null\<rparr>"

definition costBaseSnapshot :: "ModelPrice \<Rightarrow> ProviderCostSnapshot" where
  "costBaseSnapshot base =
     ModelPriceToProviderCost
       \<lparr>cpCurrency = mpCurrency base, cpPricingUnit = mpPricingUnit base,
        UncachedInputPrice = num (mpUncachedInputPrice base),
        CacheReadInputPrice = nullable (mpCacheReadInputPrice base),
        CacheWrite5mInputPrice = nullable (mpCacheWrite5mInputPrice base),
        CacheWrite1hInputPrice = nullable (mpCacheWrite1hInputPrice base),
        CacheWrite30mInputPrice = nullable (mpCacheWrite30mInputPrice base),
        OutputPrice = num (mpOutputPrice base),
        ReasoningOutputPrice = nullable (mpReasoningOutputPrice base),
        cpFormulaVersion = FormulaVersionV1\<rparr>"

definition normalizeCostSnapshotRequiredRates :: "ProviderCostSnapshot \<Rightarrow> ProviderCostSnapshot" where
  "normalizeCostSnapshotRequiredRates c =
     c\<lparr>UncachedInputCost := numericOrZero (UncachedInputCost c), OutputCost := numericOrZero (OutputCost c)\<rparr>"

definition scaledMultiplierCostSnapshot ::
  "ModelPrice \<Rightarrow> numeric \<Rightarrow> numeric \<Rightarrow> (settlement_error, ProviderCostSnapshot) go_result" where
  "scaledMultiplierCostSnapshot base priceMultiplier rechargeFactor =
     (case ScaleProviderCostByFactors (costBaseSnapshot base) priceMultiplier rechargeFactor of
        Inl err \<Rightarrow> Inl (SettlementScaleFailed err ''scale provider cost by channel multiplier and recharge factor'')
      | Inr scaledCost \<Rightarrow> Inr (normalizeCostSnapshotRequiredRates scaledCost))"

text \<open>The result of the multiplier path, from the rows it used.\<close>

abbreviation multiplier_cost ::
  "ProviderCostSnapshot \<Rightarrow> ModelPrice \<Rightarrow> ChannelCostMultiplier \<Rightarrow> int \<Rightarrow> numeric \<Rightarrow> resolvedSettlementCost" where
  "multiplier_cost snapshot base mult factorID factor \<equiv>
     \<lparr>rcSnapshot = snapshot, rcChannelPriceID = 0, rcCostBaseModelPriceID = mpID base,
      rcChannelCostMultiplierID = cmID mult, rcCostMultiplier = num (cmMultiplier mult),
      rcChannelRechargeFactorID = factorID, rcRechargeFactor = factor\<rparr>"

subsection \<open>settlement.go\<close>

text \<open>\<open>Inr None\<close> is \<open>ok = false\<close>: a pinned row is missing or belongs to something else.\<close>

definition resolvePinnedMultiplierCost ::
  "price_env \<Rightarrow> price_db \<Rightarrow> int \<Rightarrow> int \<Rightarrow> settlementCostPins \<Rightarrow>
     (settlement_error, resolvedSettlementCost option) go_result" where
  "resolvePinnedMultiplierCost env db channelID modelID pins =
     (case store_call env ''load pinned cost base model price'' (GetModelPrice db (pinCostBaseModelPriceID pins)) of
        Inl err \<Rightarrow> if err = ErrNoRows then Inr None
          else Inl (SettlementStoreFailed err ''load pinned cost base model price'')
      | Inr base \<Rightarrow>
     (case store_call env ''load pinned channel cost multiplier''
             (GetChannelCostMultiplier db (pinChannelCostMultiplierID pins)) of
        Inl err \<Rightarrow> if err = ErrNoRows then Inr None
          else Inl (SettlementStoreFailed err ''load pinned channel cost multiplier'')
      | Inr mult \<Rightarrow>
          if mpModelID base \<noteq> modelID \<or> cmChannelID mult \<noteq> channelID \<or>
             (cmModelID mult \<noteq> None \<and> cmModelID mult \<noteq> Some modelID) then Inr None
          else
            (let scaledCost = (\<lambda>factorID factor.
                   rbind (scaledMultiplierCostSnapshot base (num (cmMultiplier mult)) factor)
                     (\<lambda>snapshot. Inr (Some (multiplier_cost snapshot base mult factorID factor))))
             in if pinChannelRechargeFactorID pins > 0 then
                  (case store_call env ''load pinned channel recharge factor''
                          (GetChannelRechargeFactor db (pinChannelRechargeFactorID pins)) of
                     Inl err \<Rightarrow> if err = ErrNoRows then Inr None
                       else Inl (SettlementStoreFailed err ''load pinned channel recharge factor'')
                   | Inr crf \<Rightarrow>
                       if rfChannelID crf \<noteq> channelID then Inr None
                       else scaledCost (rfID crf) (num (rfFactor crf)))
                else scaledCost 0 oneNumeric)))"

definition resolveActiveSettlementCost ::
  "price_env \<Rightarrow> price_db \<Rightarrow> int \<Rightarrow> int \<Rightarrow> int \<Rightarrow> (settlement_error, resolvedSettlementCost) go_result" where
  "resolveActiveSettlementCost env db channelID modelID atTime =
     (case store_call env ''find active channel price for chat settlement''
             (FindActiveChannelPrice db channelID modelID atTime) of
        Inr price \<Rightarrow> Inr (overrideResolvedCost price)
      | Inl err \<Rightarrow>
          if err \<noteq> ErrNoRows
          then Inl (SettlementStoreFailed err ''find active channel price for chat settlement'') else
     (case store_call env ''find active cost base model price for chat settlement''
             (FindActiveModelPrice db modelID atTime) of
        Inl err \<Rightarrow> Inl (SettlementStoreFailed err ''find active cost base model price for chat settlement'')
      | Inr base \<Rightarrow>
     (case store_call env ''find active channel cost multiplier for chat settlement''
             (FindActiveChannelCostMultiplier db channelID modelID atTime) of
        Inl err \<Rightarrow> Inl (SettlementStoreFailed err ''find active channel cost multiplier for chat settlement'')
      | Inr mult \<Rightarrow>
          (let scaledCost = (\<lambda>factorID factor.
                 rbind (scaledMultiplierCostSnapshot base (num (cmMultiplier mult)) factor)
                   (\<lambda>snapshot. Inr (multiplier_cost snapshot base mult factorID factor)))
           in case store_call env ''find active channel recharge factor for chat settlement''
                     (FindActiveChannelRechargeFactor db channelID atTime) of
                Inr crf \<Rightarrow> scaledCost (rfID crf) (num (rfFactor crf))
              | Inl err \<Rightarrow>
                  if err \<noteq> ErrNoRows
                  then Inl (SettlementStoreFailed err ''find active channel recharge factor for chat settlement'')
                  else scaledCost 0 oneNumeric))))"

definition resolveSettlementCost ::
  "price_env \<Rightarrow> price_db \<Rightarrow> int \<Rightarrow> int \<Rightarrow> settlementCostPins \<Rightarrow> int \<Rightarrow>
     (settlement_error, resolvedSettlementCost) go_result" where
  "resolveSettlementCost env db channelID modelID pins atTime =
     (let active_cost = resolveActiveSettlementCost env db channelID modelID atTime;
          multiplier_pin =
            (if pinCostBaseModelPriceID pins > 0 \<and> pinChannelCostMultiplierID pins > 0 then
               (case resolvePinnedMultiplierCost env db channelID modelID pins of
                  Inl err \<Rightarrow> Inl err
                | Inr (Some resolved) \<Rightarrow> Inr resolved
                | Inr None \<Rightarrow> active_cost)
             else active_cost)
      in if pinChannelPriceID pins > 0 then
           (case store_call env ''load pinned channel price for chat settlement''
                   (GetChannelPrice db (pinChannelPriceID pins)) of
              Inr pinned \<Rightarrow>
                if cprChannelID pinned = channelID \<and> cprModelID pinned = modelID
                then Inr (overrideResolvedCost pinned) else multiplier_pin
            | Inl err \<Rightarrow>
                if err = ErrNoRows then multiplier_pin
                else Inl (SettlementStoreFailed err ''load pinned channel price for chat settlement''))
         else multiplier_pin)"

subsection \<open>probe.go\<close>

definition probe_numericOrZero :: "numeric \<Rightarrow> numeric" where
  "probe_numericOrZero v = (if nValid v then v else mkNumeric 0 0)"

datatype probe_cost_error = ProbeStoreError db_error | ProbeBillingError billing_error

text \<open>The store calls have no message here; each is named by its statement for the fault of the environment.\<close>

definition resolveProbeCost ::
  "'z env_scheme \<Rightarrow> price_db \<Rightarrow> int \<Rightarrow> int \<Rightarrow> int \<Rightarrow> (probe_cost_error, ProviderCostSnapshot) go_result" where
  "resolveProbeCost env db channelID modelID atTime =
     (case store_call env ''FindActiveChannelPrice'' (FindActiveChannelPrice db channelID modelID atTime) of
        Inr price \<Rightarrow>
          Inr \<lparr>pcCurrency = cprCurrency price, pcPricingUnit = cprPricingUnit price,
               UncachedInputCost = probe_numericOrZero (nullable (cprUncachedInputCost price)),
               CacheReadInputCost = nullable (cprCacheReadInputCost price),
               CacheWrite5mInputCost = nullable (cprCacheWrite5mInputCost price),
               CacheWrite1hInputCost = nullable (cprCacheWrite1hInputCost price),
               CacheWrite30mInputCost = nullable (cprCacheWrite30mInputCost price),
               OutputCost = probe_numericOrZero (nullable (cprOutputCost price)),
               ReasoningOutputCost = nullable (cprReasoningOutputCost price),
               pcFormulaVersion = FormulaVersionV1\<rparr>
      | Inl err \<Rightarrow>
          if err \<noteq> ErrNoRows then Inl (ProbeStoreError err) else
     (case store_call env ''FindActiveModelPrice'' (FindActiveModelPrice db modelID atTime) of
        Inl err \<Rightarrow> Inl (ProbeStoreError err)
      | Inr base \<Rightarrow>
     (case store_call env ''FindActiveChannelCostMultiplier''
             (FindActiveChannelCostMultiplier db channelID modelID atTime) of
        Inl err \<Rightarrow> Inl (ProbeStoreError err)
      | Inr mult \<Rightarrow>
          (let baseSnapshot = ModelPriceToProviderCost
                 \<lparr>cpCurrency = mpCurrency base, cpPricingUnit = mpPricingUnit base,
                  UncachedInputPrice = num (mpUncachedInputPrice base),
                  CacheReadInputPrice = nullable (mpCacheReadInputPrice base),
                  CacheWrite5mInputPrice = nullable (mpCacheWrite5mInputPrice base),
                  CacheWrite1hInputPrice = nullable (mpCacheWrite1hInputPrice base),
                  CacheWrite30mInputPrice = nullable (mpCacheWrite30mInputPrice base),
                  OutputPrice = num (mpOutputPrice base),
                  ReasoningOutputPrice = nullable (mpReasoningOutputPrice base),
                  cpFormulaVersion = FormulaVersionV1\<rparr>;
               scale = (\<lambda>recharge.
                 (case ScaleProviderCostByFactors baseSnapshot (num (cmMultiplier mult)) recharge of
                    Inl err \<Rightarrow> Inl (ProbeBillingError err)
                  | Inr scaledCost \<Rightarrow>
                      Inr (scaledCost\<lparr>UncachedInputCost := probe_numericOrZero (UncachedInputCost scaledCost),
                                  OutputCost := probe_numericOrZero (OutputCost scaledCost)\<rparr>)))
           in case store_call env ''FindActiveChannelRechargeFactor''
                     (FindActiveChannelRechargeFactor db channelID atTime) of
                Inr factor \<Rightarrow> scale (num (rfFactor factor))
              | Inl factorErr \<Rightarrow>
                  if factorErr \<noteq> ErrNoRows then Inl (ProbeStoreError factorErr)
                  else scale (mkNumeric 1 0)))))"

end
