(* ===== verification/Price_Laws.thy ===== *)
theory Price_Laws
  imports Settlement_Cost
begin

text \<open>
  The properties of the price tables and of the cost a settlement takes from them, with a run of the
  admin calls that shows each applies.
\<close>

subsection \<open>The statements that select a version\<close>

lemma order_limit1_unique:
  assumes "r \<in> set rs" and "\<And>x. x \<in> set rs \<Longrightarrow> x = r"
  shows "order_limit1 k rs = Inr r"
  by (rule order_limit1_least [OF assms(1)]) (use assms(2) in blast)

lemma find_factor:
  assumes "factors.wf db"
  shows "FindActiveChannelRechargeFactor db ch t =
    (case factors.schedule db ch t of None \<Rightarrow> Inl ErrNoRows | Some r \<Rightarrow> Inr r)"
proof (cases "factors.schedule db ch t")
  case None
  then have "filter (\<lambda>r. rfChannelID r = ch \<and> active (rfStatus r) (rfEffectiveFrom r) (rfEffectiveTo r) t)
      (recharge_factors db) = []"
    by (auto simp: factors.schedule_None factors.live_def filter_empty_conv)
  then show ?thesis unfolding FindActiveChannelRechargeFactor_def using None by (simp add: order_limit1_def)
next
  case (Some r)
  then have r: "r \<in> set (recharge_factors db)" "rfChannelID r = ch" "factors.live r t"
    by (simp_all add: factors.schedule_iff [OF assms])
  have "FindActiveChannelRechargeFactor db ch t = Inr r"
    unfolding FindActiveChannelRechargeFactor_def
    by (rule order_limit1_unique)
      (use r factors.one_live [OF assms] in \<open>auto simp: factors.live_def\<close>)
  with Some show ?thesis by simp
qed

lemma find_multiplier_own:
  assumes "multipliers.wf db" "r \<in> set (cost_multipliers db)" "cmChannelID r = ch" "cmModelID r = Some m"
    "multipliers.live r t"
  shows "FindActiveChannelCostMultiplier db ch m t = Inr r"
  unfolding FindActiveChannelCostMultiplier_def
proof (rule order_limit1_least)
  show "r \<in> set (filter (\<lambda>r. cmChannelID r = ch \<and> (cmModelID r = Some m \<or> cmModelID r = None) \<and>
      active (cmStatus r) (cmEffectiveFrom r) (cmEffectiveTo r) t) (cost_multipliers db))"
    using assms(2-5) by (simp add: multipliers.live_def)
next
  fix x
  assume x: "x \<in> set (filter (\<lambda>r. cmChannelID r = ch \<and> (cmModelID r = Some m \<or> cmModelID r = None) \<and>
      active (cmStatus r) (cmEffectiveFrom r) (cmEffectiveTo r) t) (cost_multipliers db))" "x \<noteq> r"
  then have "cmModelID x \<noteq> Some m"
    using multipliers.one_live [OF assms(1), of x r t] assms(2-5) by (auto simp: multipliers.live_def)
  with x(1) assms(4) show "(cmModelID r = None, - cmEffectiveFrom r, - cmID r)
      < (cmModelID x = None, - cmEffectiveFrom x, - cmID x)"
    by auto
qed

lemma find_multiplier_default:
  assumes "multipliers.wf db" "r \<in> set (cost_multipliers db)" "cmChannelID r = ch" "cmModelID r = None"
    "multipliers.live r t"
    and none: "\<And>x. x \<in> set (cost_multipliers db) \<Longrightarrow> cmChannelID x = ch \<Longrightarrow> cmModelID x = Some m \<Longrightarrow>
      \<not> multipliers.live x t"
  shows "FindActiveChannelCostMultiplier db ch m t = Inr r"
  unfolding FindActiveChannelCostMultiplier_def
proof (rule order_limit1_unique)
  show "r \<in> set (filter (\<lambda>r. cmChannelID r = ch \<and> (cmModelID r = Some m \<or> cmModelID r = None) \<and>
      active (cmStatus r) (cmEffectiveFrom r) (cmEffectiveTo r) t) (cost_multipliers db))"
    using assms(2-5) by (simp add: multipliers.live_def)
next
  fix x
  assume x: "x \<in> set (filter (\<lambda>r. cmChannelID r = ch \<and> (cmModelID r = Some m \<or> cmModelID r = None) \<and>
      active (cmStatus r) (cmEffectiveFrom r) (cmEffectiveTo r) t) (cost_multipliers db))"
  then have "cmModelID x = None" using none by (auto simp: multipliers.live_def)
  with x show "x = r"
    using multipliers.one_live [OF assms(1), of x r t] assms(2-5) by (auto simp: multipliers.live_def)
qed

lemma find_multiplier_Inr:
  assumes "FindActiveChannelCostMultiplier db ch m t = Inr r"
  shows "r \<in> set (cost_multipliers db)" "cmChannelID r = ch" "cmModelID r = Some m \<or> cmModelID r = None"
    "multipliers.live r t"
    "cmModelID r = None \<Longrightarrow> x \<in> set (cost_multipliers db) \<Longrightarrow> cmChannelID x = ch \<Longrightarrow> cmModelID x = Some m \<Longrightarrow>
      \<not> multipliers.live x t"
  using order_limit1_Inr(1) [OF assms [unfolded FindActiveChannelCostMultiplier_def]]
    order_limit1_Inr(2) [OF assms [unfolded FindActiveChannelCostMultiplier_def], of x]
  by (auto simp: multipliers.live_def)

lemma find_base_Inr:
  assumes "FindActiveModelPrice db m t = Inr r"
  shows "r \<in> set (model_prices db) \<and> mpModelID r = m \<and> base_prices.live r t"
  using order_limit1_Inr(1) [OF assms [unfolded FindActiveModelPrice_def]]
  by (auto simp: base_prices.live_def)

lemma find_override_Inr:
  assumes "FindActiveChannelPrice db ch m t = Inr r"
  shows "r \<in> set (channel_prices db) \<and> cprChannelID r = ch \<and> cprModelID r = m \<and> overrides.live r t"
  using order_limit1_Inr(1) [OF assms [unfolded FindActiveChannelPrice_def]]
  by (auto simp: overrides.live_def)

lemma find_factor_Inr:
  assumes "FindActiveChannelRechargeFactor db ch t = Inr r"
  shows "r \<in> set (recharge_factors db) \<and> rfChannelID r = ch \<and> factors.live r t"
  using order_limit1_Inr(1) [OF assms [unfolded FindActiveChannelRechargeFactor_def]]
  by (auto simp: factors.live_def)

subsection \<open>The content of a version\<close>

lemma terms_fields:
  "mp_terms r = mp_terms r' \<Longrightarrow> mpModelID r = mpModelID r' \<and> costBaseSnapshot r = costBaseSnapshot r'"
  "cpr_terms p = cpr_terms p' \<Longrightarrow> cprChannelID p = cprChannelID p' \<and> cprModelID p = cprModelID p' \<and>
     channelPriceCostSnapshot p = channelPriceCostSnapshot p'"
  "cm_terms c = cm_terms c' \<Longrightarrow> cmChannelID c = cmChannelID c' \<and> cmModelID c = cmModelID c' \<and>
     cmMultiplier c = cmMultiplier c'"
  "rf_terms f = rf_terms f' \<Longrightarrow> rfChannelID f = rfChannelID f' \<and> rfFactor f = rfFactor f'"
  by (cases r, cases r', simp add: mp_terms_def costBaseSnapshot_def)
    (cases p, cases p', simp add: cpr_terms_def channelPriceCostSnapshot_def,
     cases c, cases c', simp add: cm_terms_def, cases f, cases f', simp add: rf_terms_def)

subsection \<open>Pins\<close>

text \<open>The pins a resolved cost is stored with, and that none of the rows they name was deleted.\<close>

definition pins_of :: "resolvedSettlementCost \<Rightarrow> settlementCostPins" where
  "pins_of c = \<lparr>pinChannelPriceID = rcChannelPriceID c, pinCostBaseModelPriceID = rcCostBaseModelPriceID c,
     pinChannelCostMultiplierID = rcChannelCostMultiplierID c,
     pinChannelRechargeFactorID = rcChannelRechargeFactorID c\<rparr>"

definition pinned_rows :: "settlementCostPins \<Rightarrow> config_row set" where
  "pinned_rows p =
     (if pinChannelPriceID p > 0 then {ChannelPriceRow (pinChannelPriceID p)} else {}) \<union>
     (if pinCostBaseModelPriceID p > 0 then {ModelPriceRow (pinCostBaseModelPriceID p)} else {}) \<union>
     (if pinChannelCostMultiplierID p > 0 then {MultiplierRow (pinChannelCostMultiplierID p)} else {}) \<union>
     (if pinChannelRechargeFactorID p > 0 then {FactorRow (pinChannelRechargeFactorID p)} else {})"

definition price_rows :: "price_db \<Rightarrow> config_row set" where
  "price_rows db = ChannelPriceRow ` cprID ` set (channel_prices db) \<union> ModelPriceRow ` mpID ` set (model_prices db) \<union>
     MultiplierRow ` cmID ` set (cost_multipliers db) \<union> FactorRow ` rfID ` set (recharge_factors db)"

text \<open>A row that is still there is found by its id, with the content it had.\<close>

lemma kept_row:
  assumes "price_inv db" "price_inv db'" "price_keeps db db'"
  shows "base \<in> set (model_prices db) \<Longrightarrow> ModelPriceRow (mpID base) \<in> price_rows db' \<Longrightarrow>
      \<exists>r. GetModelPrice db' (mpID base) = Inr r \<and> mpID r = mpID base \<and> mp_terms r = mp_terms base"
    and "p \<in> set (channel_prices db) \<Longrightarrow> ChannelPriceRow (cprID p) \<in> price_rows db' \<Longrightarrow>
      \<exists>r. GetChannelPrice db' (cprID p) = Inr r \<and> cprID r = cprID p \<and> cpr_terms r = cpr_terms p"
    and "c \<in> set (cost_multipliers db) \<Longrightarrow> MultiplierRow (cmID c) \<in> price_rows db' \<Longrightarrow>
      \<exists>r. GetChannelCostMultiplier db' (cmID c) = Inr r \<and> cmID r = cmID c \<and> cm_terms r = cm_terms c"
    and "f \<in> set (recharge_factors db) \<Longrightarrow> FactorRow (rfID f) \<in> price_rows db' \<Longrightarrow>
      \<exists>r. GetChannelRechargeFactor db' (rfID f) = Inr r \<and> rfID r = rfID f \<and> rf_terms r = rf_terms f"
proof -
  note inv = assms [unfolded price_inv_def price_keeps_def]
  show "base \<in> set (model_prices db) \<Longrightarrow> ModelPriceRow (mpID base) \<in> price_rows db' \<Longrightarrow>
      \<exists>r. GetModelPrice db' (mpID base) = Inr r \<and> mpID r = mpID base \<and> mp_terms r = mp_terms base"
    using inv base_prices.get_member [of db base] base_prices.get_member [of db']
      base_prices.keeps_terms [of db db' "mpID base" base]
    by (fastforce simp: price_rows_def)
  show "p \<in> set (channel_prices db) \<Longrightarrow> ChannelPriceRow (cprID p) \<in> price_rows db' \<Longrightarrow>
      \<exists>r. GetChannelPrice db' (cprID p) = Inr r \<and> cprID r = cprID p \<and> cpr_terms r = cpr_terms p"
    using inv overrides.get_member [of db p] overrides.get_member [of db']
      overrides.keeps_terms [of db db' "cprID p" p]
    by (fastforce simp: price_rows_def)
  show "c \<in> set (cost_multipliers db) \<Longrightarrow> MultiplierRow (cmID c) \<in> price_rows db' \<Longrightarrow>
      \<exists>r. GetChannelCostMultiplier db' (cmID c) = Inr r \<and> cmID r = cmID c \<and> cm_terms r = cm_terms c"
    using inv multipliers.get_member [of db c] multipliers.get_member [of db']
      multipliers.keeps_terms [of db db' "cmID c" c]
    by (fastforce simp: price_rows_def)
  show "f \<in> set (recharge_factors db) \<Longrightarrow> FactorRow (rfID f) \<in> price_rows db' \<Longrightarrow>
      \<exists>r. GetChannelRechargeFactor db' (rfID f) = Inr r \<and> rfID r = rfID f \<and> rf_terms r = rf_terms f"
    using inv factors.get_member [of db f] factors.get_member [of db']
      factors.keeps_terms [of db db' "rfID f" f]
    by (fastforce simp: price_rows_def)
qed

lemma store_call_calm [simp]: "\<forall>msg. \<not> fault env msg \<Longrightarrow> store_call env msg r = r"
  by (simp add: store_call_def)

text \<open>The active cost is either an override, or a base price with a multiplier and perhaps a recharge factor.\<close>

lemma active_cost_cases:
  assumes "resolveActiveSettlementCost env db ch m t = Inr cost"
  obtains p where "FindActiveChannelPrice db ch m t = Inr p" "cost = overrideResolvedCost p"
  | base mult snapshot where "FindActiveModelPrice db m t = Inr base"
      "FindActiveChannelCostMultiplier db ch m t = Inr mult"
      "scaledMultiplierCostSnapshot base (num (cmMultiplier mult)) oneNumeric = Inr snapshot"
      "cost = multiplier_cost snapshot base mult 0 oneNumeric"
  | base mult f snapshot where "FindActiveModelPrice db m t = Inr base"
      "FindActiveChannelCostMultiplier db ch m t = Inr mult" "FindActiveChannelRechargeFactor db ch t = Inr f"
      "scaledMultiplierCostSnapshot base (num (cmMultiplier mult)) (num (rfFactor f)) = Inr snapshot"
      "cost = multiplier_cost snapshot base mult (rfID f) (num (rfFactor f))"
  using assms unfolding resolveActiveSettlementCost_def Let_def
  by (auto simp: store_call_def rbind_Inr_iff split: sum.splits if_splits)

lemma scaled_same_terms:
  "mp_terms r = mp_terms r' \<Longrightarrow> scaledMultiplierCostSnapshot r x y = scaledMultiplierCostSnapshot r' x y"
  using terms_fields(1) [of r r'] by (simp add: scaledMultiplierCostSnapshot_def)

lemma pinned_multiplier:
  assumes inv: "price_inv db" "price_inv db'" "price_keeps db db'"
    and calm: "\<forall>msg. \<not> fault env' msg"
    and found: "FindActiveModelPrice db m t = Inr base" "FindActiveChannelCostMultiplier db ch m t = Inr mult"
      "scaledMultiplierCostSnapshot base (num (cmMultiplier mult)) factor = Inr snapshot"
    and cost: "cost = multiplier_cost snapshot base mult factorID factor"
    and factor: "(factorID = 0 \<and> factor = oneNumeric) \<or>
      (FindActiveChannelRechargeFactor db ch t = Inr f \<and> factorID = rfID f \<and> factor = num (rfFactor f))"
    and rows: "pinned_rows (pins_of cost) \<subseteq> price_rows db'"
  shows "resolveSettlementCost env' db' ch m (pins_of cost) t' = Inr cost"
proof -
  have base: "base \<in> set (model_prices db)" "mpModelID base = m" using find_base_Inr [OF found(1)] by auto
  have mult: "mult \<in> set (cost_multipliers db)" "cmChannelID mult = ch"
      "cmModelID mult = None \<or> cmModelID mult = Some m" using find_multiplier_Inr(1-3) [OF found(2)] by auto
  have pos: "0 < mpID base" "0 < cmID mult"
    using base mult inv(1) by (simp_all add: price_inv_def base_prices.wf_def multipliers.wf_def)
  with cost rows have "ModelPriceRow (mpID base) \<in> price_rows db'" "MultiplierRow (cmID mult) \<in> price_rows db'"
    by (simp_all add: pins_of_def pinned_rows_def)
  with kept_row(1) [OF inv base(1)] kept_row(3) [OF inv mult(1)] obtain base' mult' where
      base': "GetModelPrice db' (mpID base) = Inr base'" "mpID base' = mpID base" "mp_terms base' = mp_terms base"
      and mult': "GetChannelCostMultiplier db' (cmID mult) = Inr mult'" "cmID mult' = cmID mult"
        "cm_terms mult' = cm_terms mult" by blast
  have same: "mpModelID base' = m" "cmChannelID mult' = ch" "cmModelID mult' = None \<or> cmModelID mult' = Some m"
      "scaledMultiplierCostSnapshot base' (num (cmMultiplier mult')) factor = Inr snapshot"
      "cmMultiplier mult' = cmMultiplier mult"
    using terms_fields(1) [OF base'(3)] terms_fields(3) [OF mult'(3)] base mult found(3) scaled_same_terms [OF base'(3)]
    by simp_all
  have factor': "factorID = 0 \<and> factor = oneNumeric \<or>
      (0 < factorID \<and> (\<exists>f'. GetChannelRechargeFactor db' factorID = Inr f' \<and> rfChannelID f' = ch \<and>
        rfID f' = factorID \<and> factor = num (rfFactor f')))"
    using factor
  proof
    assume f: "FindActiveChannelRechargeFactor db ch t = Inr f \<and> factorID = rfID f \<and> factor = num (rfFactor f)"
    then have mem: "f \<in> set (recharge_factors db)" "rfChannelID f = ch"
      using find_factor_Inr by auto
    then have "0 < rfID f" using inv(1) by (simp add: price_inv_def factors.wf_def)
    moreover from this f cost rows have "FactorRow (rfID f) \<in> price_rows db'"
      by (simp add: pins_of_def pinned_rows_def)
    ultimately show ?thesis using kept_row(4) [OF inv mem(1)] terms_fields(4) mem(2) f by metis
  qed simp
  have "resolvePinnedMultiplierCost env' db' ch m (pins_of cost) = Inr (Some cost)"
    using factor' base' mult' same calm cost
    by (auto simp: resolvePinnedMultiplierCost_def pins_of_def Let_def)
  with pos cost show ?thesis by (simp add: resolveSettlementCost_def pins_of_def)
qed

lemma pinned_override:
  assumes inv: "price_inv db" "price_inv db'" "price_keeps db db'"
    and calm: "\<forall>msg. \<not> fault env' msg"
    and found: "FindActiveChannelPrice db ch m t = Inr p" and cost: "cost = overrideResolvedCost p"
    and rows: "pinned_rows (pins_of cost) \<subseteq> price_rows db'"
  shows "resolveSettlementCost env' db' ch m (pins_of cost) t' = Inr cost"
proof -
  have p: "p \<in> set (channel_prices db)" "cprChannelID p = ch" "cprModelID p = m"
    using find_override_Inr [OF found] by auto
  then have pos: "0 < cprID p" using inv(1) by (simp add: price_inv_def overrides.wf_def)
  with cost rows have "ChannelPriceRow (cprID p) \<in> price_rows db'"
    by (simp add: pins_of_def pinned_rows_def overrideResolvedCost_def)
  from kept_row(2) [OF inv p(1) this] obtain r where r: "GetChannelPrice db' (cprID p) = Inr r"
      "cprID r = cprID p" "cpr_terms r = cpr_terms p" by blast
  with terms_fields(2) [OF r(3)] p have "overrideResolvedCost r = cost" "cprChannelID r = ch" "cprModelID r = m"
    using cost by (simp_all add: overrideResolvedCost_def)
  with r(1) pos cost calm show ?thesis
    by (simp add: resolveSettlementCost_def pins_of_def overrideResolvedCost_def)
qed

lemma pinned_cost:
  assumes inv: "price_inv db" "price_inv db'" "price_keeps db db'"
    and calm: "\<forall>msg. \<not> fault env' msg"
    and act: "resolveActiveSettlementCost env db ch m t = Inr cost"
    and rows: "pinned_rows (pins_of cost) \<subseteq> price_rows db'"
  shows "resolveSettlementCost env' db' ch m (pins_of cost) t' = Inr cost"
  using act
proof (cases rule: active_cost_cases)
  case (1 p)
  then show ?thesis by (rule pinned_override [OF inv calm _ _ rows])
next
  case (2 base mult snapshot)
  show ?thesis by (rule pinned_multiplier [OF inv calm 2 _ rows]) simp
next
  case (3 base mult f snapshot)
  show ?thesis by (rule pinned_multiplier [where f = f, OF inv calm 3(1,2,4,5) _ rows]) (simp add: 3(3))
qed

lemma run_facts:
  assumes "price_reachable db" "price_step\<^sup>*\<^sup>* db db'"
  shows "price_inv db" "price_inv db'" "price_keeps db db'"
  using assms price_reachable_inv prices.reach_inv prices.reach_rel by blast+

subsection \<open>A run\<close>

text \<open>
  A scanner for decimal text, and a run: one model on one channel, a base price, the multiplier of the channel, one
  of its own for the model from instant 50 on, and a recharge factor.
\<close>

definition decimal_scan :: "string \<Rightarrow> numeric option" where
  "decimal_scan s = map_option (\<lambda>r.
     (let f = length (tl (dropWhile (\<lambda>c. c \<noteq> CHR ''.'') s)) in mkNumeric \<lfloor>r * 10 ^ f\<rfloor> (- int f))) (read_decimal s)"

definition calm_prices :: price_env where
  "calm_prices = \<lparr>fault = (\<lambda>_. False), commit_outcome = CommitOk, clock = 7, margin_guard = (\<lambda>_. True),
     referenced = (\<lambda>_. False), ratSetString = read_decimal, numericScan = decimal_scan\<rparr>"

definition demo_base :: ModelPriceInput where
  "demo_base = \<lparr>piModelID = 1, piCurrency = ''USD'', piPricingUnit = ''per_1m_tokens'', piUncachedInputPrice = ''2.5'',
     piCacheReadInputPrice = None, piCacheWrite5mInputPrice = None, piCacheWrite1hInputPrice = None,
     piCacheWrite30mInputPrice = None, piOutputPrice = ''10'', piReasoningOutputPrice = None,
     piLongContextEnabled = False, piLongContextThreshold = None, piLongContextInputMultiplier = None,
     piLongContextOutputMultiplier = None, piStatus = ''enabled'', piEffectiveFrom = 10, piEffectiveTo = None\<rparr>"

definition demo_multiplier :: "int option \<Rightarrow> string \<Rightarrow> int \<Rightarrow> MultiplierInput" where
  "demo_multiplier m x t = \<lparr>miChannelID = 1, miModelID = m, miMultiplier = x, miStatus = ''enabled'',
     miEffectiveFrom = t, miEffectiveTo = None\<rparr>"

definition demo_factor :: FactorInput where
  "demo_factor = \<lparr>fiChannelID = 1, fiFactor = ''0.9'', fiStatus = ''enabled'', fiEffectiveFrom = 10,
     fiEffectiveTo = Some 100\<rparr>"

definition catalogue :: price_db where
  "catalogue = empty_prices\<lparr>models := [1], channels := [1], channel_models := [(1, 1)]\<rparr>"

definition base_row :: ModelPrice where
  "base_row = \<lparr>mpID = 1, mpModelID = 1, mpCurrency = ''USD'', mpPricingUnit = ''per_1m_tokens'',
     mpUncachedInputPrice = 25000000000, mpCacheReadInputPrice = None, mpCacheWrite5mInputPrice = None,
     mpCacheWrite1hInputPrice = None, mpOutputPrice = 100000000000, mpReasoningOutputPrice = None,
     mpStatus = ''enabled'', mpEffectiveFrom = 10, mpEffectiveTo = None, mpCreatedAt = 7, mpUpdatedAt = 7,
     mpCacheWrite30mInputPrice = None, mpLongContextEnabled = False, mpLongContextThreshold = None,
     mpLongContextInputMultiplier = None, mpLongContextOutputMultiplier = None\<rparr>"

definition default_row :: ChannelCostMultiplier where
  "default_row = \<lparr>cmID = 1, cmChannelID = 1, cmModelID = None, cmMultiplier = 12000000000, cmStatus = ''enabled'',
     cmEffectiveFrom = 10, cmEffectiveTo = None, cmCreatedAt = 7, cmUpdatedAt = 7\<rparr>"

definition own_row :: ChannelCostMultiplier where
  "own_row = \<lparr>cmID = 2, cmChannelID = 1, cmModelID = Some 1, cmMultiplier = 11000000000, cmStatus = ''enabled'',
     cmEffectiveFrom = 50, cmEffectiveTo = None, cmCreatedAt = 7, cmUpdatedAt = 7\<rparr>"

definition factor_row :: ChannelRechargeFactor where
  "factor_row = \<lparr>rfID = 1, rfChannelID = 1, rfFactor = 9000000000, rfStatus = ''enabled'', rfEffectiveFrom = 10,
     rfEffectiveTo = Some 100, rfCreatedAt = 7, rfUpdatedAt = 7\<rparr>"

definition demo1 :: price_db where "demo1 = catalogue\<lparr>model_prices := [base_row], model_price_seq := 2\<rparr>"
definition demo2 :: price_db where "demo2 = demo1\<lparr>cost_multipliers := [default_row], multiplier_seq := 2\<rparr>"
definition demo3 :: price_db where "demo3 = demo2\<lparr>recharge_factors := [factor_row], factor_seq := 2\<rparr>"
definition demo4 :: price_db where
  "demo4 = demo3\<lparr>cost_multipliers := [default_row, own_row], multiplier_seq := 3\<rparr>"
definition demo5 :: price_db where
  "demo5 = demo4\<lparr>cost_multipliers := [default_row\<lparr>cmStatus := ''disabled'', cmEffectiveTo := Some 60\<rparr>, own_row]\<rparr>"

lemma priced_calls:
  "CreateBasePrice calm_prices catalogue catalogue demo_base = (Inr base_row, demo1)"
  "CreateMultiplier calm_prices demo1 demo1 (demo_multiplier None ''1.2'' 10) = (Inr default_row, demo2)"
  "CreateFactor calm_prices demo2 demo2 demo_factor = (Inr factor_row, demo3)"
  "CreateMultiplier calm_prices demo3 demo3 (demo_multiplier (Some 1) ''1.1'' 50) = (Inr own_row, demo4)"
  "UpdateMultiplier calm_prices demo4 demo4 \<lparr>uiID = 1, uiStatus = ''disabled'', uiEffectiveTo = Some 60\<rparr> =
     (Inr (default_row\<lparr>cmStatus := ''disabled'', cmEffectiveTo := Some 60\<rparr>), demo5)"
  by code_simp+

lemma priced_steps:
  "price_step empty_prices catalogue" "price_step catalogue demo1" "price_step demo1 demo2" "price_step demo2 demo3"
  "price_step demo3 demo4" "price_step demo4 demo5"
  by (unfold catalogue_def, rule price_step.outside, fold catalogue_def,
    rule price_step.create_base [OF priced_calls(1)], rule price_step.create_multiplier [OF priced_calls(2)],
    rule price_step.create_factor [OF priced_calls(3)], rule price_step.create_multiplier [OF priced_calls(4)],
    rule price_step.update_multiplier [OF priced_calls(5)])

lemma priced_reachable: "price_reachable demo4" "price_step\<^sup>*\<^sup>* demo4 demo5"
  unfolding price_reachable_def
  by (meson priced_steps rtranclp.rtrancl_into_rtrancl rtranclp.rtrancl_refl)+

subsection \<open>Properties\<close>

text \<open>At instant \<open>t\<close> at most one row of each scope is in force.\<close>

definition one_in_force ::
  "('r \<Rightarrow> 'k) \<Rightarrow> ('r \<Rightarrow> string) \<Rightarrow> ('r \<Rightarrow> int) \<Rightarrow> ('r \<Rightarrow> int option) \<Rightarrow> 'r list \<Rightarrow> int \<Rightarrow> bool" where
  "one_in_force scope status since until rows t \<longleftrightarrow>
     (\<forall>a \<in> set rows. \<forall>b \<in> set rows. scope a = scope b \<longrightarrow> active (status a) (since a) (until a) t \<longrightarrow>
        active (status b) (since b) (until b) t \<longrightarrow> a = b)"

text \<open>
  C16: In every state the admin calls can reach, whatever other writers do between the check and the write of a
  call, at no instant are two rows of one scope in force: two base prices of a model, two cost overrides of
  a channel and model (each in one currency and unit), two multipliers of a channel and model (or
  two defaults of a channel), two recharge factors of a channel. The ids of each table stay unique.
\<close>

theorem one_version_in_force:
  assumes "price_reachable db"
  shows "one_in_force (\<lambda>r. (mpModelID r, mpCurrency r, mpPricingUnit r)) mpStatus mpEffectiveFrom mpEffectiveTo
      (model_prices db) t \<and>
    one_in_force (\<lambda>r. (cprChannelID r, cprModelID r, cprCurrency r, cprPricingUnit r)) cprStatus cprEffectiveFrom
      cprEffectiveTo (channel_prices db) t \<and>
    one_in_force (\<lambda>r. (cmChannelID r, cmModelID r)) cmStatus cmEffectiveFrom cmEffectiveTo (cost_multipliers db) t \<and>
    one_in_force rfChannelID rfStatus rfEffectiveFrom rfEffectiveTo (recharge_factors db) t \<and>
    distinct (map mpID (model_prices db)) \<and> distinct (map cprID (channel_prices db)) \<and>
    distinct (map cmID (cost_multipliers db)) \<and> distinct (map rfID (recharge_factors db))"
proof (intro conjI)
  have inv: "base_prices.wf db" "overrides.wf db" "multipliers.wf db" "factors.wf db"
    using price_reachable_inv [OF assms] by (simp_all add: price_inv_def)
  show "one_in_force (\<lambda>r. (mpModelID r, mpCurrency r, mpPricingUnit r)) mpStatus mpEffectiveFrom mpEffectiveTo
      (model_prices db) t"
    using base_prices.one_live [OF inv(1)] by (auto simp: one_in_force_def base_prices.live_def)
  show "one_in_force (\<lambda>r. (cprChannelID r, cprModelID r, cprCurrency r, cprPricingUnit r)) cprStatus cprEffectiveFrom
      cprEffectiveTo (channel_prices db) t"
    using overrides.one_live [OF inv(2)] by (auto simp: one_in_force_def overrides.live_def)
  show "one_in_force (\<lambda>r. (cmChannelID r, cmModelID r)) cmStatus cmEffectiveFrom cmEffectiveTo (cost_multipliers db) t"
    using multipliers.one_live [OF inv(3)] by (auto simp: one_in_force_def multipliers.live_def)
  show "one_in_force rfChannelID rfStatus rfEffectiveFrom rfEffectiveTo (recharge_factors db) t"
    using factors.one_live [OF inv(4)] by (auto simp: one_in_force_def factors.live_def)
  show "distinct (map mpID (model_prices db))" "distinct (map cprID (channel_prices db))"
    "distinct (map cmID (cost_multipliers db))" "distinct (map rfID (recharge_factors db))"
    using inv by (simp_all add: base_prices.wf_def overrides.wf_def multipliers.wf_def factors.wf_def)
qed

theorem one_version_in_force_witness:
  "one_in_force (\<lambda>r. (cmChannelID r, cmModelID r)) cmStatus cmEffectiveFrom cmEffectiveTo (cost_multipliers demo4) 60 \<and>
   length (cost_multipliers demo4) = 2 \<and> distinct (map cmID (cost_multipliers demo4))"
  using one_version_in_force [OF priced_reachable(1), of 60] by (simp add: demo4_def)

text \<open>
  The multiplier a request is priced with is the one the model itself has on the channel at that
  instant; only a model without one takes the default of the channel, and without either the lookup fails. In a
  reachable state this choice does not depend on the order of the rows.
\<close>

theorem multiplier_prefers_model:
  assumes "price_reachable db"
  shows "FindActiveChannelCostMultiplier db ch m t = Inr r \<longleftrightarrow>
     r \<in> set (cost_multipliers db) \<and> cmChannelID r = ch \<and> active (cmStatus r) (cmEffectiveFrom r) (cmEffectiveTo r) t \<and>
     (cmModelID r = Some m \<or>
      cmModelID r = None \<and> (\<forall>x \<in> set (cost_multipliers db). cmChannelID x = ch \<and> cmModelID x = Some m \<longrightarrow>
         \<not> active (cmStatus x) (cmEffectiveFrom x) (cmEffectiveTo x) t))" (is "?found \<longleftrightarrow> ?chosen")
proof
  assume ?found
  from find_multiplier_Inr [OF this] show ?chosen by (auto simp: multipliers.live_def)
next
  have wf: "multipliers.wf db" using price_reachable_inv [OF assms] by (simp add: price_inv_def)
  assume chosen: ?chosen
  then show ?found
    using find_multiplier_own [OF wf, of r ch m t] find_multiplier_default [OF wf, of r ch t m]
    by (auto simp: multipliers.live_def)
qed

theorem multiplier_prefers_model_witness:
  "FindActiveChannelCostMultiplier demo4 1 1 60 = Inr own_row \<and> default_row \<in> set (cost_multipliers demo4)"
  using multiplier_prefers_model [OF priced_reachable(1), of 1 1 60 own_row]
  by (simp add: demo4_def own_row_def default_row_def active_def)

text \<open>
  C17: Pins fix the cost. Let a request have found its cost at instant \<open>t\<close>, and let any admin calls follow:
  new prices and multipliers, closed or disabled windows, deletes. As long as none of the rows the cost was
  computed from is deleted, a settlement with their ids takes exactly that cost, whenever it runs.
\<close>

theorem pinned_cost_is_final:
  assumes "price_reachable db" and "price_step\<^sup>*\<^sup>* db db'"
    and "resolveActiveSettlementCost env db ch m t = Inr cost"
    and "pinned_rows (pins_of cost) \<subseteq> price_rows db'" and "\<forall>msg. \<not> fault env' msg"
  shows "resolveSettlementCost env' db' ch m (pins_of cost) t' = Inr cost"
  using run_facts [OF assms(1,2)] assms(5,3,4) by (rule pinned_cost)

definition demo_cost :: resolvedSettlementCost where
  "demo_cost = (case resolveActiveSettlementCost calm_prices demo4 1 1 20 of Inr c \<Rightarrow> c)"

lemma demo_cost_values:
  "resolveActiveSettlementCost calm_prices demo4 1 1 20 = Inr demo_cost"
  "pins_of demo_cost = \<lparr>pinChannelPriceID = 0, pinCostBaseModelPriceID = 1, pinChannelCostMultiplierID = 1,
     pinChannelRechargeFactorID = 1\<rparr>"
  "UncachedInputCost (rcSnapshot demo_cost) = num 27000000000"
  by code_simp+

theorem pinned_cost_is_final_witness:
  "resolveSettlementCost calm_prices demo5 1 1 (pins_of demo_cost) 99 = Inr demo_cost \<and>
   resolveActiveSettlementCost calm_prices demo5 1 1 99 \<noteq> Inr demo_cost"
proof
  show "resolveSettlementCost calm_prices demo5 1 1 (pins_of demo_cost) 99 = Inr demo_cost"
    by (rule pinned_cost_is_final [OF priced_reachable demo_cost_values(1)])
      (simp_all add: demo_cost_values(2) pinned_rows_def price_rows_def demo5_def demo4_def demo3_def demo2_def demo1_def
        base_row_def default_row_def own_row_def factor_row_def calm_prices_def)
  show "resolveActiveSettlementCost calm_prices demo5 1 1 99 \<noteq> Inr demo_cost"
    by code_simp
qed

lemma scaled_required_rates:
  assumes "scaleRate v m = Inr v'" and "nValid v"
  shows "numericOrZero v' = v' \<and> probe_numericOrZero v' = v'"
  using assms by (auto simp: scaleRate_valid rbind_Inr_iff numericOrZero_def probe_numericOrZero_def mkNumeric_def)

lemma required_rates_normalized:
  assumes "ScaleProviderCostByFactors (costBaseSnapshot base) x y = Inr c"
  shows "normalizeCostSnapshotRequiredRates c = c \<and> probe_numericOrZero (UncachedInputCost c) = UncachedInputCost c \<and>
    probe_numericOrZero (OutputCost c) = OutputCost c"
proof -
  obtain m k where rates:
    "scaleRate (num (mpUncachedInputPrice base)) (m * k) = Inr (UncachedInputCost c)"
    "scaleRate (num (mpOutputPrice base)) (m * k) = Inr (OutputCost c)"
    using assms
    by (auto simp: ScaleProviderCostByFactors_def scaleProviderCostByRat_def rbind_Inr_iff costBaseSnapshot_def
        ModelPriceToProviderCost_def)
  then have "numericOrZero (UncachedInputCost c) = UncachedInputCost c \<and>
      probe_numericOrZero (UncachedInputCost c) = UncachedInputCost c"
    "numericOrZero (OutputCost c) = OutputCost c \<and> probe_numericOrZero (OutputCost c) = OutputCost c"
    using scaled_required_rates [OF rates(1)] scaled_required_rates [OF rates(2)] by (simp_all add: mkNumeric_def)
  then show ?thesis by (simp add: normalizeCostSnapshotRequiredRates_def)
qed

lemma nullable_or_zero: "probe_numericOrZero (nullable c) = numericOrZero (nullable c)"
  by (cases c) (simp_all add: probe_numericOrZero_def numericOrZero_def nullable_def numeric_null_def mkNumeric_def)

definition probe_error :: "settlement_error \<Rightarrow> probe_cost_error" where
  "probe_error e = (case e of SettlementStoreFailed d _ \<Rightarrow> ProbeStoreError d
     | SettlementScaleFailed b _ \<Rightarrow> ProbeBillingError b)"

text \<open>
  C18: A probe is priced exactly like a settlement without pins: on every state of the price tables,
  channel, model and instant (no store failure), \<open>resolveProbeCost\<close> and \<open>resolveActiveSettlementCost\<close> find the same
  cost snapshot or fail for the same cause, although they are written twice and normalise empty rates differently.
\<close>

theorem probe_prices_like_settlement:
  "resolveProbeCost (env\<lparr>fault := \<lambda>_. False\<rparr>) db ch m t =
     (case resolveActiveSettlementCost (env\<lparr>fault := \<lambda>_. False\<rparr>) db ch m t of
        Inl e \<Rightarrow> Inl (probe_error e) | Inr cost \<Rightarrow> Inr (rcSnapshot cost))"
proof -
  have factor: "(case ScaleProviderCostByFactors (costBaseSnapshot base) x y of
        Inl err \<Rightarrow> Inl (ProbeBillingError err)
      | Inr c \<Rightarrow> Inr (c\<lparr>UncachedInputCost := probe_numericOrZero (UncachedInputCost c),
                       OutputCost := probe_numericOrZero (OutputCost c)\<rparr>)) =
    (case scaledMultiplierCostSnapshot base x y of Inl e \<Rightarrow> Inl (probe_error e) | Inr c \<Rightarrow> Inr c)" for base x y
    using required_rates_normalized [of base x y]
    by (auto simp: scaledMultiplierCostSnapshot_def probe_error_def split: sum.splits)
  have bind: "(case rbind r (\<lambda>s. Inr (f s)) of Inl e \<Rightarrow> Inl (probe_error e) | Inr c \<Rightarrow> Inr (rcSnapshot c)) =
      (case r of Inl e \<Rightarrow> Inl (probe_error e) | Inr s \<Rightarrow> Inr (rcSnapshot (f s)))"
    for r :: "(settlement_error, ProviderCostSnapshot) go_result" and f
    by (cases r) simp_all
  show ?thesis
    unfolding resolveProbeCost_def resolveActiveSettlementCost_def Let_def
    by (auto simp: store_call_def bind factor [unfolded costBaseSnapshot_def] oneNumeric_def probe_error_def
        overrideResolvedCost_def channelPriceCostSnapshot_def nullable_or_zero split: sum.split)
qed

text \<open>
  What the admin packages rely on in \<open>math/big\<close> and \<open>pgtype\<close>: both read decimal text as the number it denotes.
\<close>

definition reads_decimals :: "price_env \<Rightarrow> bool" where
  "reads_decimals env \<longleftrightarrow> (\<forall>s r. read_decimal s = Some r \<longrightarrow> ratSetString env s = Some r \<and>
     (\<exists>n. numericScan env s = Some n \<and> nValid n \<and> numericRat n = Some r))"

lemma space_rune_ascii:
  assumes "byte_of a < 128" "\<not> ascii_space a"
  shows "space_rune (a # t) = 0"
proof -
  have "byte_of a \<noteq> 194" "byte_of a \<noteq> 225" "byte_of a \<noteq> 226" "byte_of a \<noteq> 227" using assms(1) by linarith+
  with assms(2) show ?thesis by (cases t; cases "tl t") auto
qed

lemma plain_char:
  assumes "is_digit c \<or> c = CHR ''.''"
  shows "byte_of c < 128" "\<not> ascii_space c" "c \<noteq> CHR ''e''" "c \<noteq> CHR ''E''"
  using assms by (auto simp: is_digit_def ascii_space_def)

lemma digits_plain:
  assumes "\<forall>c \<in> set s. is_digit c \<or> c = CHR ''.''" "s \<noteq> []"
  shows "TrimSpace s = s" "\<not> ContainsAny s ''eE''"
proof -
  have lead: "space_rune u = 0" if "set u \<subseteq> set s" for u
  proof (cases u)
    case (Cons c v)
    with that assms(1) have "is_digit c \<or> c = CHR ''.''" by auto
    then show ?thesis unfolding Cons by (intro space_rune_ascii plain_char)
  qed simp
  have "space_rune (drop k s) = 0" for k by (rule lead) (rule set_drop_subset)
  moreover have "\<not> ascii_space (last s)" using assms by (intro plain_char(2)) simp
  ultimately have "trailing_space s = 0" by (simp add: trailing_space_def)
  with lead [of s] show "TrimSpace s = s" by (intro TrimSpace_id) simp_all
  show "\<not> ContainsAny s ''eE''"
    using assms(1) plain_char(3,4) by (auto simp: ContainsAny_def)
qed

lemma numericString_plain:
  "\<forall>c \<in> set (numericString (num u)). is_digit c \<or> c = CHR ''.'' \<or> u < 0"
  "numericString (num u) \<noteq> []"
proof -
  have zero: "is_digit CHR ''0''" by (simp add: is_digit_def)
  show "\<forall>c \<in> set (numericString (num u)). is_digit c \<or> c = CHR ''.'' \<or> u < 0" "numericString (num u) \<noteq> []"
    using dec_digits_digits [of "nat \<bar>u\<bar>"] zero
    by (auto simp: numericString_def numericPtr_def mkNumeric_def Let_def dest: in_set_takeD in_set_dropD)
qed

lemma numericString_value: "read_decimal (numericString (num u)) = Some (units u)"
proof -
  obtain s where s: "numericPtr (num u) = Some s" by (auto simp: numericPtr_def mkNumeric_def Let_def)
  have "read_decimal s = Some (numeric_val u (nExp (num u)))"
    by (rule numericPtr_read [OF _ _ s]) (simp_all add: finite_num_def mkNumeric_def)
  with s show ?thesis by (simp add: numericString_def mkNumeric_def)
qed

text \<open>
  C19: Amounts survive the admin API. The decimal text in which a stored price or factor is shown parses, when it
  is posted back, to a NUMERIC that is stored as exactly the same ten-decimal amount, through
  \<open>parseMoney\<close>, \<open>parseMultiplier\<close> and \<open>parseFactor\<close> alike.
\<close>

theorem shown_amount_round_trip:
  assumes "reads_decimals env" and "0 \<le> u" and "fits u"
  shows "\<exists>n. parseMoney env field (numericString (num u)) = Inr n \<and>
     parseMultiplier env (numericString (num u)) = Inr n \<and> parseFactor env (numericString (num u)) = Inr n \<and>
     rbind (bind_num n) col10 = Inr u"
proof -
  let ?s = "numericString (num u)"
  have plain: "TrimSpace ?s = ?s" "\<not> ContainsAny ?s ''eE''" "?s \<noteq> ''''"
    using digits_plain [of ?s] numericString_plain [of u] assms(2) by auto
  obtain n where n: "ratSetString env ?s = Some (units u)" "numericScan env ?s = Some n" "nValid n"
      "numericRat n = Some (units u)"
    using assms(1) numericString_value [of u] unfolding reads_decimals_def by blast
  have "rbind (bind_num n) col10 = Inr u"
    using n(3,4) assms(3) by (simp add: bind_num_def col10_def cast10_def fits_def)
  with n plain assms(2) show ?thesis
    by (simp add: parseMoney_def parseMultiplier_def parseFactor_def)
qed

lemma read_unsigned_scale:
  assumes "read_unsigned s = Some r"
  shows "\<exists>k::nat. r * 10 ^ length (tl (dropWhile (\<lambda>c. c \<noteq> CHR ''.'') s)) = of_nat k"
proof -
  have nodot: "c \<noteq> CHR ''.''" if "c \<in> set (takeWhile is_digit s)" for c
    using set_takeWhileD [OF that] by (auto simp: is_digit_def)
  show ?thesis
  proof (cases "dropWhile is_digit s")
    case Nil
    then have "\<forall>c \<in> set s. is_digit c" by simp
    moreover have "\<not> is_digit CHR ''.''" by (simp add: is_digit_def)
    ultimately have dot: "dropWhile (\<lambda>c. c \<noteq> CHR ''.'') s = []" unfolding dropWhile_eq_Nil_conv by metis
    have "r = of_nat (read_digits (takeWhile is_digit s))"
      using assms unfolding read_unsigned_def Nil Let_def by (simp split: if_splits)
    then have "r * 10 ^ length (tl ([] :: char list)) = of_nat (read_digits (takeWhile is_digit s))" by simp
    then show ?thesis unfolding dot by blast
  next
    case (Cons c f)
    with assms have c: "c = CHR ''.''" and r: "r = of_nat (read_digits (takeWhile is_digit s @ f)) / 10 ^ length f"
      by (auto simp: read_unsigned_def Let_def split: if_splits)
    have "dropWhile (\<lambda>c. c \<noteq> CHR ''.'') (takeWhile is_digit s @ dropWhile is_digit s) = CHR ''.'' # f"
      unfolding Cons c using nodot by (subst dropWhile_append2) auto
    then have "dropWhile (\<lambda>c. c \<noteq> CHR ''.'') s = CHR ''.'' # f" by simp
    with r show ?thesis by simp
  qed
qed

lemma decimal_scan_correct:
  assumes "read_decimal s = Some r"
  shows "\<exists>n. decimal_scan s = Some n \<and> nValid n \<and> numericRat n = Some r"
proof -
  define f where "f = length (tl (dropWhile (\<lambda>c. c \<noteq> CHR ''.'') s))"
  have "\<exists>k::int. r * 10 ^ f = of_int k"
  proof (cases s)
    case (Cons c t)
    show ?thesis
    proof (cases "c = CHR ''-''")
      case True
      with Cons assms obtain q where q: "read_unsigned t = Some q" "r = - q" by (auto simp: read_decimal_def)
      from read_unsigned_scale [OF q(1)] obtain k :: nat where
        "q * 10 ^ length (tl (dropWhile (\<lambda>c. c \<noteq> CHR ''.'') t)) = of_nat k" by blast
      with True Cons q(2) show ?thesis by (intro exI [of _ "- int k"]) (simp add: f_def)
    next
      case False
      with Cons assms have "read_unsigned s = Some r" by (simp add: read_decimal_def)
      from read_unsigned_scale [OF this] show ?thesis unfolding f_def by (metis of_int_of_nat_eq)
    qed
  qed (use assms in \<open>simp add: read_decimal_def\<close>)
  then obtain k :: int where k: "r * 10 ^ f = of_int k" by blast
  then have "numeric_val k (- int f) = r"
    by (simp add: numeric_val_nonpos flip: k)
  then have "numericRat (mkNumeric k (- int f)) = Some r"
    by (auto simp: numericRat_def mkNumeric_def numeric_val_if ledger_pow10_def Let_def)
  moreover have "decimal_scan s = Some (mkNumeric k (- int f))"
    unfolding decimal_scan_def Let_def f_def [symmetric] assms by (simp add: k)
  ultimately show ?thesis by (simp add: mkNumeric_def)
qed

theorem shown_amount_round_trip_witness:
  "\<exists>n. parseMoney calm_prices ''output_price'' (numericString (num 25000000000)) = Inr n \<and>
     rbind (bind_num n) col10 = Inr 25000000000"
proof -
  have "reads_decimals calm_prices"
    using decimal_scan_correct by (auto simp: reads_decimals_def calm_prices_def)
  moreover have "(0::int) \<le> 25000000000" "fits 25000000000" by (simp_all add: fits_def)
  ultimately show ?thesis
    using shown_amount_round_trip [of calm_prices 25000000000 "''output_price''"] by blast
qed

subsection \<open>A price table as a function of time\<close>

text \<open>
  The abstract state of the recharge factors: for each channel and instant the factor in force, in units. A CREATE
  of an enabled row sets it on the row's window, an UPDATE of a row takes it away where the row was
  in force and sets it on its new window.
\<close>

type_synonym factor_history = "int \<Rightarrow> int \<Rightarrow> int option"

definition factor_history :: "price_db \<Rightarrow> factor_history" where
  "factor_history db ch t = (case FindActiveChannelRechargeFactor db ch t of Inr r \<Rightarrow> Some (rfFactor r) | Inl _ \<Rightarrow> None)"

definition set_window :: "int \<Rightarrow> string \<Rightarrow> int \<Rightarrow> int option \<Rightarrow> int \<Rightarrow> factor_history \<Rightarrow> factor_history" where
  "set_window ch status efrom eto x h = (\<lambda>c t. if c = ch \<and> active status efrom eto t then Some x else h c t)"

definition unset_window :: "int \<Rightarrow> string \<Rightarrow> int \<Rightarrow> int option \<Rightarrow> factor_history \<Rightarrow> factor_history" where
  "unset_window ch status efrom eto h = (\<lambda>c t. if c = ch \<and> active status efrom eto t then None else h c t)"

lemma checked_result:
  assumes "(case c of Inl e \<Rightarrow> (Inl e, db)
      | Inr x \<Rightarrow> (case autocommit env msg db (w x) of (Inl err, d) \<Rightarrow> (Inl (f err), d) | (Inr row, d) \<Rightarrow> (Inr row, d)))
    = (Inr r, db')"
  shows "\<exists>x. c = Inr x \<and> w x = Inr (r, db')"
  using assms
  by (auto simp: autocommit_def split: sum.splits prod.splits if_splits commit_outcome.splits)

lemma CreateFactor_Inr:
  assumes "CreateFactor env seen db inp = (Inr r, db')"
  shows "\<exists>row. insert_recharge_factor env db row = Inr (r, db')"
    "rfChannelID r = fiChannelID inp" "rfStatus r = fiStatus inp" "rfEffectiveFrom r = fiEffectiveFrom inp"
    "rfEffectiveTo r = fiEffectiveTo inp"
proof -
  obtain x where "CreateChannelRechargeFactor env db (fiChannelID inp) x (fiStatus inp) (fiEffectiveFrom inp)
      (fiEffectiveTo inp) = Inr (r, db')"
    using checked_result [OF assms [unfolded CreateFactor_def]] by blast
  then obtain y where ins: "insert_recharge_factor env db
         \<lparr>rfID = 0, rfChannelID = fiChannelID inp, rfFactor = y, rfStatus = fiStatus inp,
          rfEffectiveFrom = fiEffectiveFrom inp, rfEffectiveTo = fiEffectiveTo inp, rfCreatedAt = clock env,
          rfUpdatedAt = clock env\<rparr> = Inr (r, db')"
    unfolding CreateChannelRechargeFactor_def by (auto elim: rbind_InrE)
  then show "\<exists>row. insert_recharge_factor env db row = Inr (r, db')" by blast
  show "rfChannelID r = fiChannelID inp" "rfStatus r = fiStatus inp" "rfEffectiveFrom r = fiEffectiveFrom inp"
    "rfEffectiveTo r = fiEffectiveTo inp"
    using ins by (auto simp: insert_recharge_factor_def Let_def constrained_Inr)
qed

lemma UpdateFactor_Inr:
  assumes "UpdateFactor env seen db inp = (Inr r, db')"
  shows "UpdateChannelRechargeFactorWindow env db (uiEffectiveTo inp) (uiStatus inp) (uiID inp) = Inr (r, db')"
  using checked_result [OF assms [unfolded UpdateFactor_def]] by blast

lemma history_schedule:
  "factors.wf db \<Longrightarrow> factor_history db ch t = map_option rfFactor (factors.schedule db ch t)"
  by (simp add: factor_history_def find_factor split: option.splits)

lemma history_close:
  assumes wf: "factors.wf db"
    and upd: "UpdateChannelRechargeFactorWindow env db eto status i = Inr (r, db')"
  shows "\<exists>old. GetChannelRechargeFactor db i = Inr old \<and> rfChannelID r = rfChannelID old \<and>
    rfEffectiveFrom r = rfEffectiveFrom old \<and> rfFactor r = rfFactor old \<and>
    factor_history db' = set_window (rfChannelID old) status (rfEffectiveFrom old) eto (rfFactor old)
      (unset_window (rfChannelID old) (rfStatus old) (rfEffectiveFrom old) (rfEffectiveTo old) (factor_history db))"
proof -
  obtain old where old: "GetChannelRechargeFactor db i = Inr old"
      "r = old\<lparr>rfEffectiveTo := eto, rfStatus := status, rfUpdatedAt := clock env\<rparr>"
    using upd by (auto simp: UpdateChannelRechargeFactorWindow_def rbind_Inr_iff Let_def constrained_Inr)
  then have mem: "old \<in> set (recharge_factors db)" "rfID old = i" using factors.get_Inr by auto
  have wf': "factors.wf db'" by (rule factors.wf_close [OF upd wf])
  have same: "x = old" if "factors.schedule db ch t = Some x" "rfID x = i" for x ch t
    using that mem wf factors.schedule_iff [OF wf, of ch t x] unfolding factors.wf_def
    by (metis distinct_map inj_onD)
  have hist: "factor_history db' ch t = set_window (rfChannelID old) status (rfEffectiveFrom old) eto (rfFactor old)
      (unset_window (rfChannelID old) (rfStatus old) (rfEffectiveFrom old) (rfEffectiveTo old) (factor_history db)) ch t"
    for ch t
  proof (cases "factors.schedule db ch t")
    case None
    then show ?thesis
      by (auto simp: history_schedule [OF wf'] history_schedule [OF wf] factors.schedule_close [OF upd wf] old(2)
          set_window_def unset_window_def factors.live_def)
  next
    case (Some x)
    then have x: "x \<in> set (recharge_factors db)" "rfChannelID x = ch" "factors.live x t"
      by (simp_all add: factors.schedule_iff [OF wf])
    have "rfID x = i \<longleftrightarrow> rfChannelID old = ch \<and> factors.live old t"
    proof
      assume "rfID x = i"
      with same [OF Some] x show "rfChannelID old = ch \<and> factors.live old t" by simp
    next
      assume "rfChannelID old = ch \<and> factors.live old t"
      then have "x = old" by (intro factors.one_live [OF wf x(1) mem(1) _ x(3)]) (simp_all add: x(2))
      with mem(2) show "rfID x = i" by simp
    qed
    with Some show ?thesis
      by (auto simp: history_schedule [OF wf'] history_schedule [OF wf] factors.schedule_close [OF upd wf] old(2)
          set_window_def unset_window_def factors.live_def)
  qed
  with old show ?thesis by (intro exI [of _ old]) (simp add: fun_eq_iff)
qed

text \<open>
  C20: The recharge factors refine a function of time. A successful \<open>Create\<close> changes the factor in force
  exactly on the window of the new row, a successful \<open>Update\<close> first takes the old window of the row away and then
  sets the new one, with the factor the row always had; every other channel and instant keeps its factor.
\<close>

theorem factor_history_refines:
  assumes "price_reachable db"
  shows "(CreateFactor env seen db inp = (Inr r, db') \<longrightarrow>
      factor_history db' = set_window (fiChannelID inp) (fiStatus inp) (fiEffectiveFrom inp) (fiEffectiveTo inp)
        (rfFactor r) (factor_history db)) \<and>
    (UpdateFactor env seen db u = (Inr r', db') \<longrightarrow>
      (\<exists>old. GetChannelRechargeFactor db (uiID u) = Inr old \<and> rfFactor r' = rfFactor old \<and>
        factor_history db' = set_window (rfChannelID old) (uiStatus u) (rfEffectiveFrom old) (uiEffectiveTo u)
          (rfFactor old) (unset_window (rfChannelID old) (rfStatus old) (rfEffectiveFrom old) (rfEffectiveTo old)
            (factor_history db))))"
proof (intro conjI impI)
  have wf: "factors.wf db" using price_reachable_inv [OF assms] by (simp add: price_inv_def)
  { assume create: "CreateFactor env seen db inp = (Inr r, db')"
    then obtain row where ins: "insert_recharge_factor env db row = Inr (r, db')" using CreateFactor_Inr(1) by blast
    have wf': "factors.wf db'" by (rule factors.wf_insert [OF ins wf])
    show "factor_history db' = set_window (fiChannelID inp) (fiStatus inp) (fiEffectiveFrom inp) (fiEffectiveTo inp)
        (rfFactor r) (factor_history db)"
      by (simp add: fun_eq_iff history_schedule [OF wf'] history_schedule [OF wf] factors.schedule_insert [OF ins wf]
          set_window_def factors.live_def CreateFactor_Inr(2-5) [OF create]) }
  { assume update: "UpdateFactor env seen db u = (Inr r', db')"
    show "\<exists>old. GetChannelRechargeFactor db (uiID u) = Inr old \<and> rfFactor r' = rfFactor old \<and>
        factor_history db' = set_window (rfChannelID old) (uiStatus u) (rfEffectiveFrom old) (uiEffectiveTo u)
          (rfFactor old) (unset_window (rfChannelID old) (rfStatus old) (rfEffectiveFrom old) (rfEffectiveTo old)
            (factor_history db))"
      using history_close [OF wf UpdateFactor_Inr [OF update]] by blast }
qed

lemma demo2_reachable: "price_reachable demo2"
  unfolding price_reachable_def
  by (meson priced_steps rtranclp.rtrancl_into_rtrancl rtranclp.rtrancl_refl)

theorem factor_history_refines_witness:
  "factor_history demo3 1 50 = Some 9000000000 \<and> factor_history demo3 1 100 = None \<and> factor_history demo2 1 50 = None"
proof -
  have "factor_history demo3 = set_window 1 ''enabled'' 10 (Some 100) 9000000000 (factor_history demo2)"
    using factor_history_refines [OF demo2_reachable] priced_calls(3) by (auto simp: demo_factor_def factor_row_def)
  moreover have "factor_history demo2 1 50 = None" "factor_history demo2 1 100 = None" by code_simp+
  ultimately show ?thesis by (simp add: set_window_def active_def)
qed

end
