(* ===== verification/Provider_Store.thy ===== *)
theory Provider_Store
  imports Go_Text Price_Store
begin

text \<open>
  The tables of \<open>src/migrations\<close> 40 to 43 (\<open>provider_balances\<close>, \<open>provider_probe_records\<close>,
  \<open>provider_ledger_entries\<close>, \<open>provider_cost_risks\<close>) and the statements of
  \<open>internal/platform/store/sqlc/provider_ledger.sql.go\<close> that the provider ledger runs, with the conventions of
  \<open>Sql_Store\<close>. A provider balance may be negative. The lists \<open>providers\<close>, \<open>pv_channels\<close>, ... are what the
  foreign keys refer to; \<open>pv_attempts\<close> holds the pairs of an attempt and its request.
\<close>

subsection \<open>Rows (models.go)\<close>

record ProviderBalance =
  pbID :: int
  pbProviderID :: int
  pbCurrency :: string
  pbBalance :: int
  pbCreatedAt :: int
  pbUpdatedAt :: int

record ProviderLedgerEntry =
  plID :: int
  plProviderID :: int
  plRequestRecordID :: "int option"
  plRequestAttemptID :: "int option"
  plProviderProbeRecordID :: "int option"
  plCostSnapshotID :: "int option"
  plChannelID :: "int option"
  plRequestID :: "string option"
  plChannelName :: "string option"
  plUpstreamModel :: "string option"
  plEntryType :: string
  plAmount :: int
  plCurrency :: string
  plBalanceBefore :: int
  plBalanceAfter :: int
  plIdempotencyKey :: string
  plReason :: string
  plCreatedAt :: int

text \<open>\<open>usage_facts\<close> (jsonb) has the type \<open>'f\<close> of what was encoded.\<close>

record 'f ProviderProbeRecord =
  ppID :: int
  ppProviderID :: int
  ppChannelID :: int
  ppModelID :: "int option"
  ppProtocol :: string
  ppSource :: string
  ppUpstreamModel :: string
  ppSuccess :: bool
  ppHttpStatus :: int
  ppErrorCode :: "string option"
  ppMessage :: "string option"
  ppLatencyMs :: "int option"
  ppUsageSource :: "string option"
  ppUsageFacts :: "'f option"
  ppUsageReliable :: bool
  ppCostAmount :: "int option"
  ppCurrency :: "string option"
  ppFormulaVersion :: "string option"
  ppIdempotencyKey :: string
  ppCreatedAt :: int

record ProviderCostRisk =
  prID :: int
  prProviderID :: int
  prRequestRecordID :: "int option"
  prRequestAttemptID :: "int option"
  prProviderProbeRecordID :: "int option"
  prSourceType :: string
  prEstimatedAmount :: "int option"
  prCurrency :: "string option"
  prReasonCode :: string
  prReason :: string
  prStatus :: string
  prReconciliationLedgerEntryID :: "int option"
  prCreatedAt :: int
  prReconciledAt :: "int option"

record 'f pdb =
  providers :: "int list"
  pv_channels :: "int list"
  pv_models :: "int list"
  pv_requests :: "int list"
  pv_attempts :: "(int \<times> int) list"
  pv_cost_snapshots :: "int list"
  provider_balances :: "ProviderBalance list"
  provider_entries :: "ProviderLedgerEntry list"
  probe_records :: "'f ProviderProbeRecord list"
  cost_risks :: "ProviderCostRisk list"
  pv_next_id :: int

text \<open>\<open>btrim(s)\<close> strips spaces only.\<close>

definition btrim :: "string \<Rightarrow> string" where
  "btrim s = rev (dropWhile ((=) CHR '' '') (rev (dropWhile ((=) CHR '' '') s)))"

text \<open>A foreign key column: NULL refers to nothing.\<close>

definition fk :: "'a option \<Rightarrow> 'a list \<Rightarrow> bool" where
  "fk k keys \<longleftrightarrow> (case k of None \<Rightarrow> True | Some x \<Rightarrow> x \<in> set keys)"

definition pair_opt :: "'a option \<Rightarrow> 'b option \<Rightarrow> ('a \<times> 'b) option" where
  "pair_opt a b = (case (a, b) of (Some x, Some y) \<Rightarrow> Some (x, y) | _ \<Rightarrow> None)"

subsection \<open>CHECK constraints\<close>

definition check_provider_entry :: "ProviderLedgerEntry \<Rightarrow> bool" where
  "check_provider_entry r \<longleftrightarrow>
     0 < plAmount r \<and> btrim (plCurrency r) \<noteq> '''' \<and> btrim (plIdempotencyKey r) \<noteq> '''' \<and> btrim (plReason r) \<noteq> '''' \<and>
     ((plEntryType r = ''adjustment_credit'' \<and> plBalanceAfter r = plBalanceBefore r + plAmount r) \<or>
      (plEntryType r \<in> {''usage_debit'', ''probe_debit'', ''adjustment_debit''} \<and>
       plBalanceAfter r = plBalanceBefore r - plAmount r)) \<and>
     ((plEntryType r = ''usage_debit'' \<and> plProviderProbeRecordID r = None \<and> plRequestRecordID r \<noteq> None \<and>
       plRequestAttemptID r \<noteq> None \<and> plCostSnapshotID r \<noteq> None \<and> plChannelID r \<noteq> None \<and>
       plRequestID r \<noteq> None \<and> btrim (the (plRequestID r)) \<noteq> '''' \<and>
       plChannelName r \<noteq> None \<and> btrim (the (plChannelName r)) \<noteq> '''' \<and>
       plUpstreamModel r \<noteq> None \<and> btrim (the (plUpstreamModel r)) \<noteq> '''') \<or>
      (plEntryType r \<in> {''probe_debit'', ''adjustment_credit'', ''adjustment_debit''} \<and>
       (plProviderProbeRecordID r \<noteq> None) = (plEntryType r = ''probe_debit'') \<and>
       plRequestRecordID r = None \<and> plRequestAttemptID r = None \<and> plCostSnapshotID r = None \<and>
       plChannelID r = None \<and> plRequestID r = None \<and> plChannelName r = None \<and> plUpstreamModel r = None))"

definition check_probe_record :: "'f ProviderProbeRecord \<Rightarrow> bool" where
  "check_probe_record r \<longleftrightarrow>
     btrim (ppSource r) \<noteq> '''' \<and> btrim (ppUpstreamModel r) \<noteq> '''' \<and>
     0 \<le> ppHttpStatus r \<and> ppHttpStatus r \<le> 599 \<and>
     (case ppLatencyMs r of None \<Rightarrow> True | Some n \<Rightarrow> 0 \<le> n) \<and>
     (\<not> ppUsageReliable r \<or>
      (ppUsageSource r \<noteq> None \<and> ppUsageFacts r \<noteq> None \<and> ppCostAmount r \<noteq> None \<and> ppCurrency r \<noteq> None)) \<and>
     (case ppCostAmount r of None \<Rightarrow> True | Some n \<Rightarrow> 0 \<le> n) \<and> btrim (ppIdempotencyKey r) \<noteq> ''''"

definition check_cost_risk :: "ProviderCostRisk \<Rightarrow> bool" where
  "check_cost_risk r \<longleftrightarrow>
     ((prSourceType r = ''request'' \<and> prRequestRecordID r \<noteq> None \<and> prRequestAttemptID r \<noteq> None \<and>
       prProviderProbeRecordID r = None) \<or>
      (prSourceType r = ''probe'' \<and> prRequestRecordID r = None \<and> prRequestAttemptID r = None \<and>
       prProviderProbeRecordID r \<noteq> None)) \<and>
     (case prEstimatedAmount r of None \<Rightarrow> True | Some n \<Rightarrow> 0 \<le> n) \<and>
     btrim (prReasonCode r) \<noteq> '''' \<and> btrim (prReason r) \<noteq> '''' \<and>
     ((prStatus r = ''unresolved'' \<and> prReconciliationLedgerEntryID r = None \<and> prReconciledAt r = None) \<or>
      (prStatus r = ''reconciled'' \<and> prReconciliationLedgerEntryID r \<noteq> None \<and> prReconciledAt r \<noteq> None))"

subsection \<open>Balances\<close>

definition is_provider_balance :: "int \<Rightarrow> string \<Rightarrow> ProviderBalance \<Rightarrow> bool" where
  "is_provider_balance p cur r \<longleftrightarrow> pbProviderID r = p \<and> pbCurrency r = cur"

definition GetProviderBalanceForUpdate :: "'f pdb \<Rightarrow> int \<Rightarrow> string \<Rightarrow> (db_error, ProviderBalance) go_result" where
  "GetProviderBalanceForUpdate db p cur = one_row (find (is_provider_balance p cur) (provider_balances db))"

text \<open>UPDATE of the balance column of the row of an account, whose CHECK (the currency) it leaves alone.\<close>

definition put_provider_balance ::
  "int \<Rightarrow> 'f pdb \<Rightarrow> ProviderBalance \<Rightarrow> int \<Rightarrow> ProviderBalance \<times> 'f pdb" where
  "put_provider_balance now db r bal =
     (let r' = r\<lparr>pbBalance := bal, pbUpdatedAt := now\<rparr>
      in (r', db\<lparr>provider_balances :=
           map (\<lambda>x. if is_provider_balance (pbProviderID r) (pbCurrency r) x then r' else x) (provider_balances db)\<rparr>))"

definition AddProviderBalance ::
  "int \<Rightarrow> 'f pdb \<Rightarrow> numeric \<Rightarrow> int \<Rightarrow> string \<Rightarrow> (db_error, ProviderBalance \<times> 'f pdb) go_result" where
  "AddProviderBalance now db amount p cur =
     rbind (bind_num amount) (\<lambda>a.
     rbind (GetProviderBalanceForUpdate db p cur) (\<lambda>r.
     rbind (col10 (sql_add (sql_col (pbBalance r)) a)) (\<lambda>bal.
     Inr (put_provider_balance now db r bal))))"

definition SubtractProviderBalance ::
  "int \<Rightarrow> 'f pdb \<Rightarrow> numeric \<Rightarrow> int \<Rightarrow> string \<Rightarrow> (db_error, ProviderBalance \<times> 'f pdb) go_result" where
  "SubtractProviderBalance now db amount p cur =
     rbind (bind_num amount) (\<lambda>a.
     rbind (GetProviderBalanceForUpdate db p cur) (\<lambda>r.
     rbind (col10 (sql_sub (sql_col (pbBalance r)) a)) (\<lambda>bal.
     Inr (put_provider_balance now db r bal))))"

definition EnsureProviderBalance :: "int \<Rightarrow> 'f pdb \<Rightarrow> int \<Rightarrow> string \<Rightarrow> (db_error, 'f pdb) go_result" where
  "EnsureProviderBalance now db p cur =
     (if btrim cur = '''' then Inl CheckViolation
      else if find (is_provider_balance p cur) (provider_balances db) \<noteq> None then Inr db
      else if p \<notin> set (providers db) then Inl ForeignKeyViolation
      else Inr (db\<lparr>provider_balances := provider_balances db @
             [\<lparr>pbID = pv_next_id db, pbProviderID = p, pbCurrency = cur, pbBalance = 0,
               pbCreatedAt = now, pbUpdatedAt = now\<rparr>], pv_next_id := pv_next_id db + 1\<rparr>))"

subsection \<open>Entries\<close>

record CreateProviderLedgerEntryParams =
  cplProviderID :: int
  cplRequestRecordID :: "int option"
  cplRequestAttemptID :: "int option"
  cplCostSnapshotID :: "int option"
  cplChannelID :: "int option"
  cplRequestID :: "string option"
  cplChannelName :: "string option"
  cplUpstreamModel :: "string option"
  cplProviderProbeRecordID :: "int option"
  cplEntryType :: string
  cplAmount :: numeric
  cplCurrency :: string
  cplBalanceBefore :: numeric
  cplBalanceAfter :: numeric
  cplIdempotencyKey :: string
  cplReason :: string

definition insert_provider_entry ::
  "'f pdb \<Rightarrow> ProviderLedgerEntry \<Rightarrow> (db_error, ProviderLedgerEntry \<times> 'f pdb) go_result" where
  "insert_provider_entry db row =
     (if \<not> check_provider_entry row then Inl CheckViolation
      else if plIdempotencyKey row \<in> plIdempotencyKey ` set (provider_entries db) \<or>
        (plCostSnapshotID row \<noteq> None \<and> plCostSnapshotID row \<in> plCostSnapshotID ` set (provider_entries db)) \<or>
        (plProviderProbeRecordID row \<noteq> None \<and>
         plProviderProbeRecordID row \<in> plProviderProbeRecordID ` set (provider_entries db))
      then Inl UniqueViolation
      else if plProviderID row \<notin> set (providers db) \<or> \<not> fk (plRequestRecordID row) (pv_requests db) \<or>
        \<not> fk (pair_opt (plRequestAttemptID row) (plRequestRecordID row)) (pv_attempts db) \<or>
        \<not> fk (plProviderProbeRecordID row) (map ppID (probe_records db)) \<or>
        \<not> fk (plCostSnapshotID row) (pv_cost_snapshots db) \<or> \<not> fk (plChannelID row) (pv_channels db)
      then Inl ForeignKeyViolation
      else Inr (row\<lparr>plID := pv_next_id db\<rparr>,
        db\<lparr>provider_entries := provider_entries db @ [row\<lparr>plID := pv_next_id db\<rparr>], pv_next_id := pv_next_id db + 1\<rparr>))"

definition CreateProviderLedgerEntry ::
  "int \<Rightarrow> 'f pdb \<Rightarrow> CreateProviderLedgerEntryParams \<Rightarrow> (db_error, ProviderLedgerEntry \<times> 'f pdb) go_result" where
  "CreateProviderLedgerEntry now db arg =
     rbind (rbind (bind_num (cplAmount arg)) col10) (\<lambda>amount.
     rbind (rbind (bind_num (cplBalanceBefore arg)) col10) (\<lambda>balanceBefore.
     rbind (rbind (bind_num (cplBalanceAfter arg)) col10) (\<lambda>balanceAfter.
     insert_provider_entry db
       \<lparr>plID = 0, plProviderID = cplProviderID arg, plRequestRecordID = cplRequestRecordID arg,
        plRequestAttemptID = cplRequestAttemptID arg, plProviderProbeRecordID = cplProviderProbeRecordID arg,
        plCostSnapshotID = cplCostSnapshotID arg, plChannelID = cplChannelID arg, plRequestID = cplRequestID arg,
        plChannelName = cplChannelName arg, plUpstreamModel = cplUpstreamModel arg, plEntryType = cplEntryType arg,
        plAmount = amount, plCurrency = cplCurrency arg, plBalanceBefore = balanceBefore,
        plBalanceAfter = balanceAfter, plIdempotencyKey = cplIdempotencyKey arg, plReason = cplReason arg,
        plCreatedAt = now\<rparr>)))"

definition GetProviderLedgerEntryByIdempotencyKey ::
  "'f pdb \<Rightarrow> string \<Rightarrow> (db_error, ProviderLedgerEntry) go_result" where
  "GetProviderLedgerEntryByIdempotencyKey db key =
     one_row (find (\<lambda>r. plIdempotencyKey r = key) (provider_entries db))"

definition GetProviderLedgerEntryByProbeRecordID ::
  "'f pdb \<Rightarrow> int \<Rightarrow> (db_error, ProviderLedgerEntry) go_result" where
  "GetProviderLedgerEntryByProbeRecordID db probeID =
     one_row (find (\<lambda>r. plProviderProbeRecordID r = Some probeID) (provider_entries db))"

subsection \<open>Probe records\<close>

record 'f CreateProviderProbeRecordParams =
  cppProviderID :: int
  cppChannelID :: int
  cppModelID :: "int option"
  cppProtocol :: string
  cppSource :: string
  cppUpstreamModel :: string
  cppSuccess :: bool
  cppHttpStatus :: int
  cppErrorCode :: "string option"
  cppMessage :: "string option"
  cppLatencyMs :: "int option"
  cppUsageSource :: "string option"
  cppUsageFacts :: "'f option"
  cppUsageReliable :: bool
  cppCostAmount :: numeric
  cppCurrency :: "string option"
  cppFormulaVersion :: "string option"
  cppIdempotencyKey :: string

definition insert_probe_record ::
  "'f pdb \<Rightarrow> 'f ProviderProbeRecord \<Rightarrow> (db_error, 'f ProviderProbeRecord \<times> 'f pdb) go_result" where
  "insert_probe_record db row =
     (if \<not> check_probe_record row then Inl CheckViolation
      else if ppIdempotencyKey row \<in> ppIdempotencyKey ` set (probe_records db) then Inl UniqueViolation
      else if ppProviderID row \<notin> set (providers db) \<or> ppChannelID row \<notin> set (pv_channels db) \<or>
        \<not> fk (ppModelID row) (pv_models db) then Inl ForeignKeyViolation
      else Inr (row\<lparr>ppID := pv_next_id db\<rparr>,
        db\<lparr>probe_records := probe_records db @ [row\<lparr>ppID := pv_next_id db\<rparr>], pv_next_id := pv_next_id db + 1\<rparr>))"

definition CreateProviderProbeRecord ::
  "int \<Rightarrow> 'f pdb \<Rightarrow> 'f CreateProviderProbeRecordParams \<Rightarrow> (db_error, 'f ProviderProbeRecord \<times> 'f pdb) go_result" where
  "CreateProviderProbeRecord now db arg =
     rbind (col10_null (cppCostAmount arg)) (\<lambda>cost.
     insert_probe_record db
       \<lparr>ppID = 0, ppProviderID = cppProviderID arg, ppChannelID = cppChannelID arg, ppModelID = cppModelID arg,
        ppProtocol = cppProtocol arg, ppSource = cppSource arg, ppUpstreamModel = cppUpstreamModel arg,
        ppSuccess = cppSuccess arg, ppHttpStatus = cppHttpStatus arg, ppErrorCode = cppErrorCode arg,
        ppMessage = cppMessage arg, ppLatencyMs = cppLatencyMs arg, ppUsageSource = cppUsageSource arg,
        ppUsageFacts = cppUsageFacts arg, ppUsageReliable = cppUsageReliable arg, ppCostAmount = cost,
        ppCurrency = cppCurrency arg, ppFormulaVersion = cppFormulaVersion arg,
        ppIdempotencyKey = cppIdempotencyKey arg, ppCreatedAt = now\<rparr>)"

definition GetProviderProbeRecordByIdempotencyKey ::
  "'f pdb \<Rightarrow> string \<Rightarrow> (db_error, 'f ProviderProbeRecord) go_result" where
  "GetProviderProbeRecordByIdempotencyKey db key = one_row (find (\<lambda>r. ppIdempotencyKey r = key) (probe_records db))"

subsection \<open>Cost risks\<close>

record CreateProviderCostRiskParams =
  ckProviderID :: int
  ckRequestRecordID :: "int option"
  ckRequestAttemptID :: "int option"
  ckProviderProbeRecordID :: "int option"
  ckSourceType :: string
  ckEstimatedAmount :: numeric
  ckCurrency :: "string option"
  ckReasonCode :: string
  ckReason :: string

text \<open>ON CONFLICT DO NOTHING: a row of the same attempt or probe makes the INSERT return no row.\<close>

definition insert_cost_risk ::
  "'f pdb \<Rightarrow> ProviderCostRisk \<Rightarrow> (db_error, ProviderCostRisk \<times> 'f pdb) go_result" where
  "insert_cost_risk db row =
     (if \<not> check_cost_risk row then Inl CheckViolation
      else if (prRequestAttemptID row \<noteq> None \<and> prRequestAttemptID row \<in> prRequestAttemptID ` set (cost_risks db)) \<or>
        (prProviderProbeRecordID row \<noteq> None \<and>
         prProviderProbeRecordID row \<in> prProviderProbeRecordID ` set (cost_risks db)) then Inl ErrNoRows
      else if prProviderID row \<notin> set (providers db) \<or> \<not> fk (prRequestRecordID row) (pv_requests db) \<or>
        \<not> fk (pair_opt (prRequestAttemptID row) (prRequestRecordID row)) (pv_attempts db) \<or>
        \<not> fk (prProviderProbeRecordID row) (map ppID (probe_records db)) then Inl ForeignKeyViolation
      else Inr (row\<lparr>prID := pv_next_id db\<rparr>,
        db\<lparr>cost_risks := cost_risks db @ [row\<lparr>prID := pv_next_id db\<rparr>], pv_next_id := pv_next_id db + 1\<rparr>))"

definition CreateProviderCostRisk ::
  "int \<Rightarrow> 'f pdb \<Rightarrow> CreateProviderCostRiskParams \<Rightarrow> (db_error, ProviderCostRisk \<times> 'f pdb) go_result" where
  "CreateProviderCostRisk now db arg =
     rbind (col10_null (ckEstimatedAmount arg)) (\<lambda>estimated.
     insert_cost_risk db
       \<lparr>prID = 0, prProviderID = ckProviderID arg, prRequestRecordID = ckRequestRecordID arg,
        prRequestAttemptID = ckRequestAttemptID arg, prProviderProbeRecordID = ckProviderProbeRecordID arg,
        prSourceType = ckSourceType arg, prEstimatedAmount = estimated, prCurrency = ckCurrency arg,
        prReasonCode = ckReasonCode arg, prReason = ckReason arg, prStatus = ''unresolved'',
        prReconciliationLedgerEntryID = None, prCreatedAt = now, prReconciledAt = None\<rparr>)"

definition GetProviderCostRiskByRequestAttemptID :: "'f pdb \<Rightarrow> int \<Rightarrow> (db_error, ProviderCostRisk) go_result" where
  "GetProviderCostRiskByRequestAttemptID db attemptID =
     one_row (find (\<lambda>r. prRequestAttemptID r = Some attemptID) (cost_risks db))"

definition GetProviderCostRiskByProbeRecordID :: "'f pdb \<Rightarrow> int \<Rightarrow> (db_error, ProviderCostRisk) go_result" where
  "GetProviderCostRiskByProbeRecordID db probeID =
     one_row (find (\<lambda>r. prProviderProbeRecordID r = Some probeID) (cost_risks db))"

text \<open>Which risks an adjustment closes: those of the account that were recorded up to the cutoff.\<close>

definition open_risk :: "int \<Rightarrow> string \<Rightarrow> int \<Rightarrow> ProviderCostRisk \<Rightarrow> bool" where
  "open_risk p cur cutoff r \<longleftrightarrow>
     prProviderID r = p \<and> prCurrency r = Some cur \<and> prStatus r = ''unresolved'' \<and> prCreatedAt r \<le> cutoff \<and>
     prReconciliationLedgerEntryID r = None"

definition ReconcileProviderCostRisks ::
  "int \<Rightarrow> 'f pdb \<Rightarrow> int \<Rightarrow> int \<Rightarrow> string \<Rightarrow> int \<Rightarrow> (db_error, int \<times> 'f pdb) go_result" where
  "ReconcileProviderCostRisks now db entryID p cur cutoff =
     (let hit = filter (open_risk p cur cutoff) (cost_risks db)
      in if hit \<noteq> [] \<and> entryID \<notin> plID ` set (provider_entries db) then Inl ForeignKeyViolation
         else Inr (int (length hit), db\<lparr>cost_risks := map (\<lambda>r. if open_risk p cur cutoff r
             then r\<lparr>prStatus := ''reconciled'', prReconciliationLedgerEntryID := Some entryID, prReconciledAt := Some now\<rparr>
             else r) (cost_risks db)\<rparr>))"

end
