(* ===== verification/Provider_Ledger.thy ===== *)
theory Provider_Ledger
  imports Provider_Store Ledger_Entries Settlement_Cost
begin

text \<open>
  \<open>internal/core/providerledger\<close> (\<open>providerledger.go\<close>, \<open>risk.go\<close>, \<open>probe.go\<close>): the internal balance of each provider
  and its immutable ledger, the risks of a cost that could not be measured, and the accounting of a probe.

  \<^item> Every operation that posts takes the advisory lock of its idempotency key first, so its lookup of the key sees
    the committed state in which it writes; \<open>AccountProbe\<close> reads the prices as they are when it asks (\<open>prices\<close>).
  \<^item> An operation that runs in its own transaction returns its result with the committed database;
    a \<open>..WithQueries\<close> operation returns the database of the caller's transaction, or an error that aborts it.
  \<^item> \<open>stored\<close> is \<open>if err != nil { return storeFailed(err, msg) }\<close>. The wall clock (\<open>time.Now\<close>) is an argument.
\<close>

subsection \<open>adapter/facts.go\<close>

record FinishFacts =
  ffClass :: string
  ffRawReason :: string

record UpstreamMetadata =
  umStatusCode :: int
  umRequestID :: string
  umRetryAfter :: int

record ResponseFacts =
  rfUpstreamProtocol :: string
  rfUpstreamResponseID :: string
  rfUpstreamModel :: string
  rfFinish :: FinishFacts
  rfUsage :: Facts
  rfUsageSource :: Source
  rfUsageMappingVersion :: string
  rfMetadata :: UpstreamMetadata

type_synonym provider_db = "ResponseFacts pdb"

subsection \<open>Parameters and entries\<close>

abbreviation EntryTypeUsageDebit :: string where "EntryTypeUsageDebit \<equiv> ''usage_debit''"
abbreviation EntryTypeProbeDebit :: string where "EntryTypeProbeDebit \<equiv> ''probe_debit''"
abbreviation RiskSourceRequest :: string where "RiskSourceRequest \<equiv> ''request''"
abbreviation RiskSourceProbe :: string where "RiskSourceProbe \<equiv> ''probe''"

record ProviderEntry =
  peID :: int
  peProviderID :: int
  peRequestRecordID :: "int option"
  peRequestAttemptID :: "int option"
  peCostSnapshotID :: "int option"
  peChannelID :: "int option"
  peRequestID :: "string option"
  peChannelName :: "string option"
  peUpstreamModel :: "string option"
  peProviderProbeRecordID :: "int option"
  peEntryType :: string
  peAmount :: numeric
  peCurrency :: string
  peBalanceBefore :: numeric
  peBalanceAfter :: numeric
  peIdempotencyKey :: string
  peReason :: string

record UsageDebitParams =
  udProviderID :: int
  udRequestRecordID :: int
  udRequestAttemptID :: int
  udCostSnapshotID :: int
  udChannelID :: int
  udRequestID :: string
  udChannelName :: string
  udUpstreamModel :: string
  udAmount :: numeric
  udCurrency :: string
  udIdempotencyKey :: string
  udReason :: string

record ProviderAdjustParams =
  paProviderID :: int
  paAmount :: numeric
  paAdjustCurrency :: string
  paAdjustKey :: string
  paAdjustReason :: string

record TargetParams =
  tpProviderID :: int
  tpTargetBalance :: numeric
  tpCurrency :: string
  tpIdempotencyKey :: string
  tpReason :: string

record source =
  srcRequestRecordID :: int
  srcRequestAttemptID :: int
  srcCostSnapshotID :: int
  srcChannelID :: int
  srcRequestID :: string
  srcChannelName :: string
  srcUpstreamModel :: string

record RequestCostRiskParams =
  rkProviderID :: int
  rkRequestRecordID :: int
  rkRequestAttemptID :: int
  rkEstimatedAmount :: numeric
  rkCurrency :: string
  rkReasonCode :: string
  rkReason :: string

record ProbeCostRiskParams =
  pkProviderID :: int
  pkProviderProbeID :: int
  pkEstimatedAmount :: numeric
  pkCurrency :: string
  pkReasonCode :: string
  pkReason :: string

record ProbeParams =
  prbProviderID :: int
  prbChannelID :: int
  prbModelID :: int
  prbProtocol :: string
  prbSource :: string
  prbUpstreamModel :: string
  prbSuccess :: bool
  prbHTTPStatus :: int
  prbErrorCode :: string
  prbMessage :: string
  prbLatencyMs :: int
  prbStartedAt :: int
  prbFacts :: "ResponseFacts option"
  prbIdempotencyKey :: string

definition pl_entryFromSQLC :: "ProviderLedgerEntry \<Rightarrow> ProviderEntry" where
  "pl_entryFromSQLC row =
     \<lparr>peID = plID row, peProviderID = plProviderID row, peRequestRecordID = plRequestRecordID row,
      peRequestAttemptID = plRequestAttemptID row, peCostSnapshotID = plCostSnapshotID row,
      peChannelID = plChannelID row, peRequestID = plRequestID row, peChannelName = plChannelName row,
      peUpstreamModel = plUpstreamModel row, peProviderProbeRecordID = plProviderProbeRecordID row,
      peEntryType = plEntryType row, peAmount = num (plAmount row), peCurrency = plCurrency row,
      peBalanceBefore = num (plBalanceBefore row), peBalanceAfter = num (plBalanceAfter row),
      peIdempotencyKey = plIdempotencyKey row, peReason = plReason row\<rparr>"

subsection \<open>Validation\<close>

abbreviation pl_invalidArgument :: "string \<Rightarrow> ledger_error" where
  "pl_invalidArgument msg \<equiv> LedgerFailure CodeAdminInvalidArgument None msg"

abbreviation pl_conflict :: "string \<Rightarrow> ledger_error" where
  "pl_conflict msg \<equiv> LedgerFailure CodeLedgerIdempotencyConflict None msg"

definition stored :: "env \<Rightarrow> string \<Rightarrow> (db_error, 'a) go_result \<Rightarrow> (ledger_error, 'a) go_result" where
  "stored env msg r = (case store_call env msg r of Inl e \<Rightarrow> Inl (store_failed e msg) | Inr x \<Rightarrow> Inr x)"

definition validateCommon :: "numeric \<Rightarrow> string \<Rightarrow> string \<Rightarrow> string \<Rightarrow> (ledger_error, unit) go_result" where
  "validateCommon amount cur key reason =
     (if \<not> pl_isPositive amount
      then Inl (LedgerFailure CodeLedgerInvalidAmount None ''provider ledger amount must be greater than zero'')
      else if TrimSpace cur = '''' \<or> TrimSpace key = '''' \<or> TrimSpace reason = ''''
      then Inl (pl_invalidArgument ''provider ledger currency, idempotency key and reason are required'')
      else Inr ())"

definition validateUsage :: "UsageDebitParams \<Rightarrow> (ledger_error, unit) go_result" where
  "validateUsage p =
     (if udProviderID p \<le> 0 \<or> udRequestRecordID p \<le> 0 \<or> udRequestAttemptID p \<le> 0 \<or> udCostSnapshotID p \<le> 0 \<or>
        udChannelID p \<le> 0 then Inl (pl_invalidArgument ''usage source is incomplete'')
      else if TrimSpace (udRequestID p) = '''' \<or> TrimSpace (udChannelName p) = '''' \<or> TrimSpace (udUpstreamModel p) = ''''
      then Inl (pl_invalidArgument ''usage source labels are incomplete'')
      else validateCommon (udAmount p) (udCurrency p) (udIdempotencyKey p) (udReason p))"

definition validateAdjustment :: "ProviderAdjustParams \<Rightarrow> (ledger_error, unit) go_result" where
  "validateAdjustment p =
     (if paProviderID p \<le> 0 then Inl (pl_invalidArgument ''provider_id must be greater than zero'')
      else validateCommon (paAmount p) (paAdjustCurrency p) (paAdjustKey p) (paAdjustReason p))"

definition validateTarget :: "TargetParams \<Rightarrow> (ledger_error, unit) go_result" where
  "validateTarget p =
     (if tpProviderID p \<le> 0 then Inl (pl_invalidArgument ''provider_id must be greater than zero'')
      else if \<not> nValid (tpTargetBalance p) \<or> nNaN (tpTargetBalance p) \<or>
        nInfinityModifier (tpTargetBalance p) \<noteq> Finite \<or> nInt (tpTargetBalance p) = None
      then Inl (pl_invalidArgument ''target balance must be a finite decimal'')
      else if TrimSpace (tpCurrency p) = '''' \<or> TrimSpace (tpIdempotencyKey p) = '''' \<or> TrimSpace (tpReason p) = ''''
      then Inl (pl_invalidArgument ''provider target balance currency, idempotency key and reason are required'')
      else Inr ())"

definition lockIdempotency :: "env \<Rightarrow> (ledger_error, unit) go_result" where
  "lockIdempotency env = stored env ''lock provider ledger idempotency key'' (Inr ())"

text \<open>A NULL column reads as the zero value of \<open>Int64\<close> and \<open>String\<close>.\<close>

definition int64_of :: "int option \<Rightarrow> int" where "int64_of v = (case v of None \<Rightarrow> 0 | Some n \<Rightarrow> n)"
definition string_of :: "string option \<Rightarrow> string" where "string_of v = (case v of None \<Rightarrow> '''' | Some s \<Rightarrow> s)"

definition idempotentEntry ::
  "ProviderLedgerEntry \<Rightarrow> int \<Rightarrow> string \<Rightarrow> numeric \<Rightarrow> string \<Rightarrow> string \<Rightarrow> source option \<Rightarrow>
   (ledger_error, ProviderEntry) go_result" where
  "idempotentEntry row providerID entryType amount cur reason src =
     (if plProviderID row \<noteq> providerID \<or> plEntryType row \<noteq> entryType \<or> plCurrency row \<noteq> cur \<or>
        \<not> pl_sameNumeric (num (plAmount row)) amount \<or> plReason row \<noteq> reason
      then Inl (pl_conflict ''provider ledger idempotency key conflict'')
      else if (case src of None \<Rightarrow> False | Some s \<Rightarrow>
        int64_of (plRequestRecordID row) \<noteq> srcRequestRecordID s \<or>
        int64_of (plRequestAttemptID row) \<noteq> srcRequestAttemptID s \<or>
        int64_of (plCostSnapshotID row) \<noteq> srcCostSnapshotID s \<or> int64_of (plChannelID row) \<noteq> srcChannelID s \<or>
        string_of (plRequestID row) \<noteq> srcRequestID s \<or> string_of (plChannelName row) \<noteq> srcChannelName s \<or>
        string_of (plUpstreamModel row) \<noteq> srcUpstreamModel s)
      then Inl (pl_conflict ''provider ledger source conflict'')
      else Inr (pl_entryFromSQLC row))"

subsection \<open>Postings inside a transaction\<close>

definition pl_creditWithQueries ::
  "env \<Rightarrow> provider_db \<Rightarrow> string \<Rightarrow> int \<Rightarrow> numeric \<Rightarrow> string \<Rightarrow> string \<Rightarrow> string \<Rightarrow>
   (ledger_error, ProviderEntry \<times> provider_db) go_result" where
  "pl_creditWithQueries env db entryType providerID amount cur key reason =
     rbind (lockIdempotency env) (\<lambda>_.
     case store_call env ''lookup provider ledger idempotency key'' (GetProviderLedgerEntryByIdempotencyKey db key) of
       Inr existing \<Rightarrow>
         rbind (idempotentEntry existing providerID entryType amount cur reason None) (\<lambda>entry. Inr (entry, db))
     | Inl err \<Rightarrow> if err \<noteq> ErrNoRows then Inl (store_failed err ''lookup provider ledger idempotency key'') else
     rbind (stored env ''ensure provider balance'' (EnsureProviderBalance (clock env) db providerID cur)) (\<lambda>db1.
     rbind (stored env ''lock provider balance'' (GetProviderBalanceForUpdate db1 providerID cur)) (\<lambda>before.
     rbind (stored env ''add provider balance'' (AddProviderBalance (clock env) db1 amount providerID cur)) (\<lambda>(after, db2).
     rbind (stored env ''create provider credit ledger entry'' (CreateProviderLedgerEntry (clock env) db2
              \<lparr>cplProviderID = providerID, cplRequestRecordID = None, cplRequestAttemptID = None,
               cplCostSnapshotID = None, cplChannelID = None, cplRequestID = None, cplChannelName = None,
               cplUpstreamModel = None, cplProviderProbeRecordID = None, cplEntryType = entryType,
               cplAmount = amount, cplCurrency = cur, cplBalanceBefore = num (pbBalance before),
               cplBalanceAfter = num (pbBalance after), cplIdempotencyKey = key, cplReason = reason\<rparr>)) (\<lambda>(created, db3).
     Inr (pl_entryFromSQLC created, db3))))))"

definition pl_debitWithQueries ::
  "env \<Rightarrow> provider_db \<Rightarrow> string \<Rightarrow> int \<Rightarrow> numeric \<Rightarrow> string \<Rightarrow> string \<Rightarrow> string \<Rightarrow> source option \<Rightarrow>
   (ledger_error, ProviderEntry \<times> provider_db) go_result" where
  "pl_debitWithQueries env db entryType providerID amount cur key reason src =
     rbind (lockIdempotency env) (\<lambda>_.
     case store_call env ''lookup provider ledger idempotency key'' (GetProviderLedgerEntryByIdempotencyKey db key) of
       Inr existing \<Rightarrow>
         rbind (idempotentEntry existing providerID entryType amount cur reason src) (\<lambda>entry. Inr (entry, db))
     | Inl err \<Rightarrow> if err \<noteq> ErrNoRows then Inl (store_failed err ''lookup provider ledger idempotency key'') else
     rbind (stored env ''ensure provider balance'' (EnsureProviderBalance (clock env) db providerID cur)) (\<lambda>db1.
     rbind (stored env ''lock provider balance'' (GetProviderBalanceForUpdate db1 providerID cur)) (\<lambda>before.
     rbind (stored env ''subtract provider balance'' (SubtractProviderBalance (clock env) db1 amount providerID cur))
       (\<lambda>(after, db2).
     rbind (stored env ''create provider debit ledger entry'' (CreateProviderLedgerEntry (clock env) db2
              \<lparr>cplProviderID = providerID, cplRequestRecordID = map_option srcRequestRecordID src,
               cplRequestAttemptID = map_option srcRequestAttemptID src,
               cplCostSnapshotID = map_option srcCostSnapshotID src, cplChannelID = map_option srcChannelID src,
               cplRequestID = map_option srcRequestID src, cplChannelName = map_option srcChannelName src,
               cplUpstreamModel = map_option srcUpstreamModel src, cplProviderProbeRecordID = None,
               cplEntryType = entryType, cplAmount = amount, cplCurrency = cur,
               cplBalanceBefore = num (pbBalance before), cplBalanceAfter = num (pbBalance after),
               cplIdempotencyKey = key, cplReason = reason\<rparr>)) (\<lambda>(created, db3).
     Inr (pl_entryFromSQLC created, db3))))))"

definition debitProbeWithQueries ::
  "env \<Rightarrow> provider_db \<Rightarrow> int \<Rightarrow> int \<Rightarrow> numeric \<Rightarrow> string \<Rightarrow> string \<Rightarrow> string \<Rightarrow>
   (ledger_error, ProviderEntry \<times> provider_db) go_result" where
  "debitProbeWithQueries env db providerID probeRecordID amount cur key reason =
     rbind (lockIdempotency env) (\<lambda>_.
     case store_call env ''lookup provider probe ledger idempotency key''
            (GetProviderLedgerEntryByIdempotencyKey db key) of
       Inr existing \<Rightarrow>
         (if plProviderID existing \<noteq> providerID \<or> plEntryType existing \<noteq> EntryTypeProbeDebit \<or>
            plCurrency existing \<noteq> cur \<or> \<not> pl_sameNumeric (num (plAmount existing)) amount \<or>
            plProviderProbeRecordID existing = None \<or> int64_of (plProviderProbeRecordID existing) \<noteq> probeRecordID \<or>
            plReason existing \<noteq> reason
          then Inl (pl_conflict ''provider probe ledger idempotency key conflict'')
          else Inr (pl_entryFromSQLC existing, db))
     | Inl err \<Rightarrow> if err \<noteq> ErrNoRows then Inl (store_failed err ''lookup provider probe ledger idempotency key'') else
     rbind (stored env ''ensure provider balance'' (EnsureProviderBalance (clock env) db providerID cur)) (\<lambda>db1.
     rbind (stored env ''lock provider balance'' (GetProviderBalanceForUpdate db1 providerID cur)) (\<lambda>before.
     rbind (stored env ''subtract provider balance for probe''
              (SubtractProviderBalance (clock env) db1 amount providerID cur)) (\<lambda>(after, db2).
     rbind (stored env ''create provider probe debit ledger entry'' (CreateProviderLedgerEntry (clock env) db2
              \<lparr>cplProviderID = providerID, cplRequestRecordID = None, cplRequestAttemptID = None,
               cplCostSnapshotID = None, cplChannelID = None, cplRequestID = None, cplChannelName = None,
               cplUpstreamModel = None, cplProviderProbeRecordID = Some probeRecordID,
               cplEntryType = EntryTypeProbeDebit, cplAmount = amount, cplCurrency = cur,
               cplBalanceBefore = num (pbBalance before), cplBalanceAfter = num (pbBalance after),
               cplIdempotencyKey = key, cplReason = reason\<rparr>)) (\<lambda>(created, db3).
     Inr (pl_entryFromSQLC created, db3))))))"

definition DebitUsageWithQueries ::
  "env \<Rightarrow> provider_db \<Rightarrow> UsageDebitParams \<Rightarrow> (ledger_error, ProviderEntry \<times> provider_db) go_result" where
  "DebitUsageWithQueries env db p =
     rbind (validateUsage p) (\<lambda>_.
     pl_debitWithQueries env db EntryTypeUsageDebit (udProviderID p) (udAmount p) (udCurrency p)
       (udIdempotencyKey p) (udReason p)
       (Some \<lparr>srcRequestRecordID = udRequestRecordID p, srcRequestAttemptID = udRequestAttemptID p,
              srcCostSnapshotID = udCostSnapshotID p, srcChannelID = udChannelID p, srcRequestID = udRequestID p,
              srcChannelName = udChannelName p, srcUpstreamModel = udUpstreamModel p\<rparr>))"

subsection \<open>Operations of an admin\<close>

text \<open>A transaction of its own: begin, the body, commit; an error before the commit rolls back.\<close>

definition in_tx ::
  "env \<Rightarrow> string \<Rightarrow> string \<Rightarrow> 's \<Rightarrow> (ledger_error, 'a \<times> 's) go_result \<Rightarrow> (ledger_error, 'a) go_result \<times> 's" where
  "in_tx env begin_msg commit_msg db body =
     (case rbind (begin_tx env begin_msg) (\<lambda>_. body) of
        Inl e \<Rightarrow> (Inl e, db)
      | Inr (x, db') \<Rightarrow> commit_tx env commit_msg db db' x)"

definition pl_adjust ::
  "env \<Rightarrow> provider_db \<Rightarrow> ProviderAdjustParams \<Rightarrow> string \<Rightarrow> (ledger_error, ProviderEntry) go_result \<times> provider_db" where
  "pl_adjust env db params entryType =
     (case validateAdjustment params of
        Inl e \<Rightarrow> (Inl e, db)
      | Inr _ \<Rightarrow>
          in_tx env ''begin provider ledger transaction'' ''commit provider ledger transaction'' db
            (if entryType = EntryTypeAdjustmentCredit
             then pl_creditWithQueries env db entryType (paProviderID params) (paAmount params)
                    (paAdjustCurrency params) (paAdjustKey params) (paAdjustReason params)
             else pl_debitWithQueries env db entryType (paProviderID params) (paAmount params)
                    (paAdjustCurrency params) (paAdjustKey params) (paAdjustReason params) None))"

definition pl_AdjustCredit ::
  "env \<Rightarrow> provider_db \<Rightarrow> ProviderAdjustParams \<Rightarrow> (ledger_error, ProviderEntry) go_result \<times> provider_db" where
  "pl_AdjustCredit env db params = pl_adjust env db params EntryTypeAdjustmentCredit"

definition pl_AdjustDebit ::
  "env \<Rightarrow> provider_db \<Rightarrow> ProviderAdjustParams \<Rightarrow> (ledger_error, ProviderEntry) go_result \<times> provider_db" where
  "pl_AdjustDebit env db params = pl_adjust env db params EntryTypeAdjustmentDebit"

text \<open>
  \<open>SetTargetBalance\<close>: the posting inside the transaction. \<open>None\<close> is the replay, which returns without a
  commit (the deferred rollback ends the transaction).
\<close>

definition target_posting ::
  "env \<Rightarrow> int \<Rightarrow> provider_db \<Rightarrow> TargetParams \<Rightarrow> (ledger_error, ProviderEntry \<times> provider_db option) go_result" where
  "target_posting env riskCutoff db p =
     rbind (lockIdempotency env) (\<lambda>_.
     case store_call env ''lookup provider target balance idempotency key''
            (GetProviderLedgerEntryByIdempotencyKey db (tpIdempotencyKey p)) of
       Inr existing \<Rightarrow>
         (if plProviderID existing \<noteq> tpProviderID p \<or> plCurrency existing \<noteq> tpCurrency p \<or>
            \<not> pl_sameNumeric (num (plBalanceAfter existing)) (tpTargetBalance p) \<or> plReason existing \<noteq> tpReason p
          then Inl (pl_conflict ''provider target balance idempotency key conflict'')
          else Inr (pl_entryFromSQLC existing, None))
     | Inl err \<Rightarrow> if err \<noteq> ErrNoRows then Inl (store_failed err ''lookup provider target balance idempotency key'') else
     rbind (stored env ''ensure provider balance'' (EnsureProviderBalance (clock env) db (tpProviderID p) (tpCurrency p)))
       (\<lambda>db1.
     rbind (stored env ''lock provider balance'' (GetProviderBalanceForUpdate db1 (tpProviderID p) (tpCurrency p)))
       (\<lambda>before.
       let delta = pl_numericRat (tpTargetBalance p) - pl_numericRat (num (pbBalance before));
           amount = pl_ratToNumeric \<bar>delta\<bar> 10;
           entryType = (if delta > 0 then EntryTypeAdjustmentCredit else EntryTypeAdjustmentDebit)
       in if delta = 0 then Inl (pl_invalidArgument ''target balance is the same as current balance'') else
     rbind (stored env ''apply provider target balance''
              (if delta > 0 then AddProviderBalance (clock env) db1 amount (tpProviderID p) (tpCurrency p)
               else SubtractProviderBalance (clock env) db1 amount (tpProviderID p) (tpCurrency p))) (\<lambda>(after, db2).
     rbind (stored env ''create provider target adjustment ledger entry'' (CreateProviderLedgerEntry (clock env) db2
              \<lparr>cplProviderID = tpProviderID p, cplRequestRecordID = None, cplRequestAttemptID = None,
               cplCostSnapshotID = None, cplChannelID = None, cplRequestID = None, cplChannelName = None,
               cplUpstreamModel = None, cplProviderProbeRecordID = None, cplEntryType = entryType,
               cplAmount = amount, cplCurrency = tpCurrency p, cplBalanceBefore = num (pbBalance before),
               cplBalanceAfter = num (pbBalance after), cplIdempotencyKey = tpIdempotencyKey p,
               cplReason = tpReason p\<rparr>)) (\<lambda>(created, db3).
     rbind (stored env ''reconcile provider cost risks''
              (ReconcileProviderCostRisks (clock env) db3 (plID created) (tpProviderID p) (tpCurrency p) riskCutoff))
       (\<lambda>(_, db4).
     Inr (pl_entryFromSQLC created, Some db4)))))))"

definition SetTargetBalance ::
  "env \<Rightarrow> int \<Rightarrow> provider_db \<Rightarrow> TargetParams \<Rightarrow> (ledger_error, ProviderEntry) go_result \<times> provider_db" where
  "SetTargetBalance env riskCutoff db p =
     (case rbind (validateTarget p) (\<lambda>_.
           rbind (begin_tx env ''begin provider target balance transaction'') (\<lambda>_. target_posting env riskCutoff db p)) of
        Inl e \<Rightarrow> (Inl e, db)
      | Inr (entry, None) \<Rightarrow> (Inr entry, db)
      | Inr (entry, Some db') \<Rightarrow> commit_tx env ''commit provider target balance transaction'' db db' entry)"

subsection \<open>risk.go\<close>

definition textNarg :: "string \<Rightarrow> string option" where
  "textNarg v = (if TrimSpace v = '''' then None else Some (TrimSpace v))"

definition validateRequestRisk :: "RequestCostRiskParams \<Rightarrow> (ledger_error, unit) go_result" where
  "validateRequestRisk p =
     (if rkProviderID p \<le> 0 \<or> rkRequestRecordID p \<le> 0 \<or> rkRequestAttemptID p \<le> 0 \<or>
        TrimSpace (rkReasonCode p) = '''' \<or> TrimSpace (rkReason p) = ''''
      then Inl (pl_invalidArgument ''provider request cost risk source is incomplete'')
      else if rkCurrency p \<noteq> '''' \<and> TrimSpace (rkCurrency p) = ''''
      then Inl (pl_invalidArgument ''provider request cost risk currency is invalid'')
      else Inr ())"

definition request_risk_args :: "RequestCostRiskParams \<Rightarrow> CreateProviderCostRiskParams" where
  "request_risk_args p =
     \<lparr>ckProviderID = rkProviderID p, ckRequestRecordID = Some (rkRequestRecordID p),
      ckRequestAttemptID = Some (rkRequestAttemptID p), ckProviderProbeRecordID = None,
      ckSourceType = RiskSourceRequest, ckEstimatedAmount = rkEstimatedAmount p, ckCurrency = textNarg (rkCurrency p),
      ckReasonCode = rkReasonCode p, ckReason = rkReason p\<rparr>"

text \<open>What \<open>createRequestRisk\<close> does once the INSERT has failed: the risk of the attempt may be there already.\<close>

definition existing_request_risk ::
  "env \<Rightarrow> provider_db \<Rightarrow> RequestCostRiskParams \<Rightarrow> db_error \<Rightarrow> (ledger_error, ProviderCostRisk) go_result" where
  "existing_request_risk env db p err =
     (if err \<noteq> ErrNoRows then Inl (store_failed err ''create provider request cost risk'')
      else rbind (stored env ''lookup provider request cost risk''
                    (GetProviderCostRiskByRequestAttemptID db (rkRequestAttemptID p))) (\<lambda>existing.
        if prProviderID existing \<noteq> rkProviderID p \<or> prSourceType existing \<noteq> RiskSourceRequest \<or>
          prRequestRecordID existing = None \<or> int64_of (prRequestRecordID existing) \<noteq> rkRequestRecordID p \<or>
          prRequestAttemptID existing = None \<or> int64_of (prRequestAttemptID existing) \<noteq> rkRequestAttemptID p
        then Inl (pl_conflict ''provider request cost risk conflict'')
        else Inr existing))"

definition createRequestRisk ::
  "env \<Rightarrow> provider_db \<Rightarrow> RequestCostRiskParams \<Rightarrow> (ledger_error, ProviderCostRisk \<times> provider_db) go_result" where
  "createRequestRisk env db p =
     (case store_call env ''create provider request cost risk''
             (CreateProviderCostRisk (clock env) db (request_risk_args p)) of
        Inr (row, db') \<Rightarrow> Inr (row, db')
      | Inl err \<Rightarrow> rbind (existing_request_risk env db p err) (\<lambda>existing. Inr (existing, db)))"

definition RecordRequestCostRiskWithQueries ::
  "env \<Rightarrow> provider_db \<Rightarrow> RequestCostRiskParams \<Rightarrow> (ledger_error, provider_db) go_result" where
  "RecordRequestCostRiskWithQueries env db p =
     rbind (validateRequestRisk p) (\<lambda>_. rbind (createRequestRisk env db p) (\<lambda>(_, db'). Inr db'))"

text \<open>Outside a transaction the INSERT commits by itself.\<close>

definition RecordRequestCostRisk ::
  "env \<Rightarrow> provider_db \<Rightarrow> RequestCostRiskParams \<Rightarrow> (ledger_error, unit) go_result \<times> provider_db" where
  "RecordRequestCostRisk env db p =
     (case validateRequestRisk p of
        Inl e \<Rightarrow> (Inl e, db)
      | Inr _ \<Rightarrow>
          (case autocommit env ''create provider request cost risk'' db
                  (CreateProviderCostRisk (clock env) db (request_risk_args p)) of
             (Inr _, db') \<Rightarrow> (Inr (), db')
           | (Inl err, db') \<Rightarrow> (rbind (existing_request_risk env db' p err) (\<lambda>_. Inr ()), db')))"

definition RecordProbeCostRiskWithQueries ::
  "env \<Rightarrow> provider_db \<Rightarrow> ProbeCostRiskParams \<Rightarrow> (ledger_error, provider_db) go_result" where
  "RecordProbeCostRiskWithQueries env db p =
     (if pkProviderID p \<le> 0 \<or> pkProviderProbeID p \<le> 0 \<or> TrimSpace (pkReasonCode p) = '''' \<or> TrimSpace (pkReason p) = ''''
      then Inl (pl_invalidArgument ''provider probe cost risk source is incomplete'') else
     (case store_call env ''create provider probe cost risk'' (CreateProviderCostRisk (clock env) db
             \<lparr>ckProviderID = pkProviderID p, ckRequestRecordID = None, ckRequestAttemptID = None,
              ckProviderProbeRecordID = Some (pkProviderProbeID p), ckSourceType = RiskSourceProbe,
              ckEstimatedAmount = pkEstimatedAmount p, ckCurrency = textNarg (pkCurrency p),
              ckReasonCode = pkReasonCode p, ckReason = pkReason p\<rparr>) of
        Inr (_, db') \<Rightarrow> Inr db'
      | Inl err \<Rightarrow>
          if err \<noteq> ErrNoRows then Inl (store_failed err ''create provider probe cost risk'') else
          rbind (stored env ''lookup provider probe cost risk''
                   (GetProviderCostRiskByProbeRecordID db (pkProviderProbeID p))) (\<lambda>existing.
          if prProviderID existing \<noteq> pkProviderID p \<or> prSourceType existing \<noteq> RiskSourceProbe \<or>
            prProviderProbeRecordID existing = None \<or> int64_of (prProviderProbeRecordID existing) \<noteq> pkProviderProbeID p
          then Inl (pl_conflict ''provider probe cost risk conflict'')
          else Inr db)))"

subsection \<open>probe.go\<close>

definition probe_debit_reason :: string where
  "probe_debit_reason = [
     CHR 0xE6, CHR 0xA8, CHR 0xA1, CHR 0xE5, CHR 0x9E, CHR 0x8B, CHR 0xE6, CHR 0x8E, CHR 0xA2,
     CHR 0xE6, CHR 0xB5, CHR 0x8B, CHR 0xE4, CHR 0xBA, CHR 0xA7, CHR 0xE7, CHR 0x94, CHR 0x9F,
     CHR 0xE7, CHR 0x9A, CHR 0x84, CHR 0xE6, CHR 0x9C, CHR 0x8D, CHR 0xE5, CHR 0x8A, CHR 0xA1,
     CHR 0xE5, CHR 0x95, CHR 0x86, CHR 0xE6, CHR 0x88, CHR 0x90, CHR 0xE6, CHR 0x9C, CHR 0xAC]"

definition probe_no_usage_reason :: string where
  "probe_no_usage_reason = [
     CHR 0xE6, CHR 0xA8, CHR 0xA1, CHR 0xE5, CHR 0x9E, CHR 0x8B, CHR 0xE6, CHR 0x8E, CHR 0xA2,
     CHR 0xE6, CHR 0xB5, CHR 0x8B, CHR 0xE6, CHR 0xB2, CHR 0xA1, CHR 0xE6, CHR 0x9C, CHR 0x89,
     CHR 0xE8, CHR 0xBF, CHR 0x94, CHR 0xE5, CHR 0x9B, CHR 0x9E, CHR 0xE5, CHR 0xAE, CHR 0x8C,
     CHR 0xE6, CHR 0x95, CHR 0xB4, CHR 0xE7, CHR 0x94, CHR 0xA8, CHR 0xE9, CHR 0x87, CHR 0x8F,
     CHR 0xEF, CHR 0xBC, CHR 0x8C, CHR 0xE5, CHR 0xAE, CHR 0x9E, CHR 0xE9, CHR 0x99, CHR 0x85,
     CHR 0xE8, CHR 0xB4, CHR 0xB9, CHR 0xE7, CHR 0x94, CHR 0xA8, CHR 0xE9, CHR 0x9C, CHR 0x80,
     CHR 0xE8, CHR 0xA6, CHR 0x81, CHR 0xE4, CHR 0xBA, CHR 0xBA, CHR 0xE5, CHR 0xB7, CHR 0xA5,
     CHR 0xE6, CHR 0xA0, CHR 0xB8, CHR 0xE5, CHR 0xAF, CHR 0xB9]"

definition probe_estimate_reason :: string where
  "probe_estimate_reason = [
     CHR 0xE6, CHR 0xA8, CHR 0xA1, CHR 0xE5, CHR 0x9E, CHR 0x8B, CHR 0xE6, CHR 0x8E, CHR 0xA2,
     CHR 0xE6, CHR 0xB5, CHR 0x8B, CHR 0xE5, CHR 0x8F, CHR 0xAA, CHR 0xE5, CHR 0xBE, CHR 0x97,
     CHR 0xE5, CHR 0x88, CHR 0xB0, CHR 0xE4, CHR 0xBC, CHR 0xB0, CHR 0xE7, CHR 0xAE, CHR 0x97,
     CHR 0xE7, CHR 0x94, CHR 0xA8, CHR 0xE9, CHR 0x87, CHR 0x8F, CHR 0xEF, CHR 0xBC, CHR 0x8C,
     CHR 0xE5, CHR 0xAE, CHR 0x9E, CHR 0xE9, CHR 0x99, CHR 0x85, CHR 0xE8, CHR 0xB4, CHR 0xB9,
     CHR 0xE7, CHR 0x94, CHR 0xA8, CHR 0xE9, CHR 0x9C, CHR 0x80, CHR 0xE8, CHR 0xA6, CHR 0x81,
     CHR 0xE4, CHR 0xBA, CHR 0xBA, CHR 0xE5, CHR 0xB7, CHR 0xA5, CHR 0xE6, CHR 0xA0, CHR 0xB8,
     CHR 0xE5, CHR 0xAF, CHR 0xB9]"

definition usageSource :: "ResponseFacts option \<Rightarrow> string option" where
  "usageSource facts = (case facts of None \<Rightarrow> None
     | Some f \<Rightarrow> if rfUsageSource f = '''' then None else Some (rfUsageSource f))"

definition costAmount :: "ProviderCost option \<Rightarrow> numeric" where
  "costAmount cost = (case cost of None \<Rightarrow> numeric_null | Some c \<Rightarrow> TotalCostAmount c)"

definition clampStatus :: "int \<Rightarrow> int" where
  "clampStatus v = (if v < 0 then 0 else if v > 599 then 599 else v)"

definition numericIsZero :: "numeric \<Rightarrow> bool" where
  "numericIsZero v \<longleftrightarrow> nValid v \<and> nInt v \<noteq> None \<and> pl_numericRat v = 0"

definition validateProbe :: "ProbeParams \<Rightarrow> (ledger_error, unit) go_result" where
  "validateProbe p =
     (if prbProviderID p \<le> 0 \<or> prbChannelID p \<le> 0 \<or> prbModelID p \<le> 0 \<or> prbProtocol p = '''' \<or> prbSource p = '''' \<or>
        prbUpstreamModel p = '''' \<or> prbIdempotencyKey p = ''''
      then Inl (pl_invalidArgument ''provider probe source is incomplete'')
      else if prbHTTPStatus p < 0 \<or> prbHTTPStatus p > 599 \<or> prbLatencyMs p < 0
      then Inl (pl_invalidArgument ''provider probe status or latency is invalid'')
      else Inr ())"

definition ensureProbeAccountingIdempotent ::
  "env \<Rightarrow> provider_db \<Rightarrow> ResponseFacts ProviderProbeRecord \<Rightarrow> ProbeParams \<Rightarrow> (ledger_error, unit) go_result" where
  "ensureProbeAccountingIdempotent env db row p =
     (if ppProviderID row \<noteq> prbProviderID p \<or> ppChannelID row \<noteq> prbChannelID p \<or> ppSource row \<noteq> prbSource p \<or>
        ppUpstreamModel row \<noteq> prbUpstreamModel p \<or> ppSuccess row \<noteq> prbSuccess p
      then Inl (pl_conflict ''provider probe idempotency key conflict'')
      else case store_call env ''lookup provider probe ledger entry''
                  (GetProviderLedgerEntryByProbeRecordID db (ppID row)) of
        Inl err \<Rightarrow> if err \<noteq> ErrNoRows then Inl (store_failed err ''lookup provider probe ledger entry'') else Inr ()
      | Inr _ \<Rightarrow> Inr ())"

text \<open>
  The cost of a probe: \<open>Some\<close> when the usage is reliable (\<open>usageReliable\<close>) and the cost could be calculated. A
  failed price lookup leaves the zero snapshot, with an empty currency and formula version.
\<close>

definition probe_cost ::
  "(probe_cost_error, ProviderCostSnapshot) go_result \<Rightarrow> ProbeParams \<Rightarrow> ProviderCost option" where
  "probe_cost pricing p =
     (case prbFacts p of
        None \<Rightarrow> None
      | Some facts \<Rightarrow>
          if prbSuccess p \<and> rfUsageSource facts \<noteq> SourcePartialStreamEstimate \<and> Facts_Valid (rfUsage facts)
          then (case pricing of
                  Inl _ \<Rightarrow> None
                | Inr snapshot \<Rightarrow>
                    (case CalculateProviderCost (rfUsage facts) snapshot of Inl _ \<Rightarrow> None | Inr cost \<Rightarrow> Some cost))
          else None)"

definition probe_record_args ::
  "(probe_cost_error, ProviderCostSnapshot) go_result \<Rightarrow> ProbeParams \<Rightarrow> ResponseFacts CreateProviderProbeRecordParams" where
  "probe_record_args pricing p =
     (let cost = probe_cost pricing p in
     \<lparr>cppProviderID = prbProviderID p, cppChannelID = prbChannelID p,
      cppModelID = (if prbModelID p > 0 then Some (prbModelID p) else None), cppProtocol = prbProtocol p,
      cppSource = prbSource p, cppUpstreamModel = prbUpstreamModel p, cppSuccess = prbSuccess p,
      cppHttpStatus = clampStatus (prbHTTPStatus p), cppErrorCode = textNarg (prbErrorCode p),
      cppMessage = textNarg (prbMessage p),
      cppLatencyMs = (if prbLatencyMs p \<ge> 0 then Some (prbLatencyMs p) else None),
      cppUsageSource = usageSource (prbFacts p), cppUsageFacts = prbFacts p, cppUsageReliable = (cost \<noteq> None),
      cppCostAmount = costAmount cost,
      cppCurrency = textNarg (case pricing of Inl _ \<Rightarrow> '''' | Inr snapshot \<Rightarrow> pcCurrency snapshot),
      cppFormulaVersion = textNarg (case pricing of Inl _ \<Rightarrow> '''' | Inr snapshot \<Rightarrow> pcFormulaVersion snapshot),
      cppIdempotencyKey = prbIdempotencyKey p\<rparr>)"

text \<open>The booking of a fresh probe record: a debit of its cost, or a risk, or nothing.\<close>

definition book_probe ::
  "env \<Rightarrow> provider_db \<Rightarrow> int \<Rightarrow> (probe_cost_error, ProviderCostSnapshot) go_result \<Rightarrow> ProbeParams \<Rightarrow>
   (ledger_error, provider_db) go_result" where
  "book_probe env db probeID pricing p =
     (let cost = probe_cost pricing p;
          cur = (case pricing of Inl _ \<Rightarrow> '''' | Inr snapshot \<Rightarrow> pcCurrency snapshot);
          responseMayHaveCost = prbSuccess p \<or> (prbHTTPStatus p \<ge> 200 \<and> prbHTTPStatus p < 300);
          reason = (case prbFacts p of None \<Rightarrow> probe_no_usage_reason
            | Some facts \<Rightarrow> if rfUsageSource facts = SourcePartialStreamEstimate then probe_estimate_reason
                else probe_no_usage_reason)
      in if cost \<noteq> None \<and> \<not> numericIsZero (TotalCostAmount (the cost))
         then rbind (debitProbeWithQueries env db (prbProviderID p) probeID (TotalCostAmount (the cost)) cur
                (''provider:probe:'' @ sprint_int probeID) probe_debit_reason) (\<lambda>(_, db'). Inr db')
         else if responseMayHaveCost \<and> cost = None
         then RecordProbeCostRiskWithQueries env db
                \<lparr>pkProviderID = prbProviderID p, pkProviderProbeID = probeID, pkEstimatedAmount = numeric_null,
                 pkCurrency = cur, pkReasonCode = ''probe_usage_unreliable'', pkReason = reason\<rparr>
         else Inr db)"

text \<open>The transaction of \<open>AccountProbe\<close>; \<open>None\<close> is the replay, which ends without a commit.\<close>

definition account_probe ::
  "env \<Rightarrow> price_db \<Rightarrow> int \<Rightarrow> provider_db \<Rightarrow> ProbeParams \<Rightarrow> (ledger_error, provider_db option) go_result" where
  "account_probe env prices now db p =
     rbind (lockIdempotency env) (\<lambda>_.
     case store_call env ''lookup provider probe idempotency key''
            (GetProviderProbeRecordByIdempotencyKey db (prbIdempotencyKey p)) of
       Inr existing \<Rightarrow> rbind (ensureProbeAccountingIdempotent env db existing p) (\<lambda>_. Inr None)
     | Inl err \<Rightarrow> if err \<noteq> ErrNoRows then Inl (store_failed err ''lookup provider probe idempotency key'') else
       let pricingAt = (if prbStartedAt p = zero_time then now else prbStartedAt p);
           pricing = resolveProbeCost env prices (prbChannelID p) (prbModelID p) pricingAt
       in rbind (stored env ''create provider probe record''
                   (CreateProviderProbeRecord (clock env) db (probe_record_args pricing p))) (\<lambda>(probe, db1).
          rbind (book_probe env db1 (ppID probe) pricing p) (\<lambda>db2. Inr (Some db2))))"

definition AccountProbe ::
  "env \<Rightarrow> price_db \<Rightarrow> int \<Rightarrow> provider_db \<Rightarrow> ProbeParams \<Rightarrow> (ledger_error, unit) go_result \<times> provider_db" where
  "AccountProbe env prices now db p =
     (case rbind (validateProbe p) (\<lambda>_.
           rbind (begin_tx env ''begin provider probe accounting transaction'') (\<lambda>_.
           account_probe env prices now db p)) of
        Inl e \<Rightarrow> (Inl e, db)
      | Inr None \<Rightarrow> (Inr (), db)
      | Inr (Some db') \<Rightarrow> commit_tx env ''commit provider probe accounting transaction'' db db' ())"

end
