(* ===== verification/Provider_Books.thy ===== *)
theory Provider_Books
  imports Provider_Ledger Transitions
begin

text \<open>
  The books of the provider ledger: what a posting, a probe record, a cost risk and a reconciliation do to the
  tables, and the invariant that ties the balances to the chain of entries, the risks to their adjustments and
  every probe record to its one booking.
\<close>

subsection \<open>Accounts\<close>

abbreviation pb_key :: "ProviderBalance \<Rightarrow> int \<times> string" where "pb_key r \<equiv> (pbProviderID r, pbCurrency r)"
abbreviation pe_key :: "ProviderLedgerEntry \<Rightarrow> int \<times> string" where "pe_key e \<equiv> (plProviderID e, plCurrency e)"

definition provider_account :: "'f pdb \<Rightarrow> int \<times> string \<Rightarrow> int" where
  "provider_account db k =
     (case find (\<lambda>r. pb_key r = k) (provider_balances db) of None \<Rightarrow> 0 | Some r \<Rightarrow> pbBalance r)"

text \<open>The entries of an account form a chain: each starts from the balance the one before it left.\<close>

fun chained :: "int \<Rightarrow> ProviderLedgerEntry list \<Rightarrow> int \<Rightarrow> bool" where
  "chained b [] c \<longleftrightarrow> b = c"
| "chained b (e # es) c \<longleftrightarrow> plBalanceBefore e = b \<and> chained (plBalanceAfter e) es c"

definition signed_provider :: "ProviderLedgerEntry \<Rightarrow> int" where
  "signed_provider e = (if plEntryType e = EntryTypeAdjustmentCredit then plAmount e else - plAmount e)"

definition account_chain :: "'f pdb \<Rightarrow> int \<times> string \<Rightarrow> ProviderLedgerEntry list" where
  "account_chain db k = filter (\<lambda>e. pe_key e = k) (provider_entries db)"

lemma chained_snoc: "chained b (es @ [e]) c \<longleftrightarrow> chained b es (plBalanceBefore e) \<and> plBalanceAfter e = c"
  by (induction es arbitrary: b) auto

lemma check_signed: "check_provider_entry e \<Longrightarrow> plBalanceAfter e = plBalanceBefore e + signed_provider e"
  by (auto simp: check_provider_entry_def signed_provider_def)

lemma chained_sum:
  assumes "chained b es c" "\<forall>e \<in> set es. check_provider_entry e"
  shows "c = b + (\<Sum>e\<leftarrow>es. signed_provider e)"
  using assms by (induction es arbitrary: b) (auto simp: check_signed simp flip: add.assoc)

lemma is_provider_balance_key: "is_provider_balance p c = (\<lambda>r. pb_key r = (p, c))"
  by (auto simp: is_provider_balance_def fun_eq_iff)

lemma GetProviderBalance_Inr:
  "GetProviderBalanceForUpdate db p c = Inr r \<longleftrightarrow> find (\<lambda>x. pb_key x = (p, c)) (provider_balances db) = Some r"
  by (auto simp: GetProviderBalanceForUpdate_def is_provider_balance_key one_row_def split: option.splits)

lemma GetProviderBalance_account:
  assumes "GetProviderBalanceForUpdate db p c = Inr r"
  shows "provider_account db (p, c) = pbBalance r" "pb_key r = (p, c)"
  using assms find_key_Some [of pb_key "(p, c)" "provider_balances db" r]
  by (auto simp: provider_account_def GetProviderBalance_Inr)

text \<open>Everything but the balances and the sequence.\<close>

definition same_provider_tables :: "'f pdb \<Rightarrow> 'f pdb \<Rightarrow> bool" where
  "same_provider_tables db db' \<longleftrightarrow> provider_entries db' = provider_entries db \<and> probe_records db' = probe_records db \<and>
     cost_risks db' = cost_risks db \<and> providers db' = providers db \<and> pv_channels db' = pv_channels db \<and>
     pv_models db' = pv_models db \<and> pv_requests db' = pv_requests db \<and> pv_attempts db' = pv_attempts db \<and>
     pv_cost_snapshots db' = pv_cost_snapshots db \<and> pv_next_id db \<le> pv_next_id db'"

definition distinct_accounts :: "'f pdb \<Rightarrow> bool" where
  "distinct_accounts db \<longleftrightarrow> distinct (map pb_key (provider_balances db))"

lemma put_provider_balance:
  assumes "put_provider_balance now db r bal = (r', db')" "GetProviderBalanceForUpdate db p c = Inr r"
  shows "provider_account db' = (provider_account db)((p, c) := bal)" "same_provider_tables db db'" "pbBalance r' = bal"
    "distinct_accounts db' = distinct_accounts db" "pv_next_id db' = pv_next_id db"
proof -
  have r: "find (\<lambda>x. pb_key x = (p, c)) (provider_balances db) = Some r" "pb_key r = (p, c)"
    using assms(2) GetProviderBalance_account(2) [OF assms(2)] by (simp_all add: GetProviderBalance_Inr)
  have r': "r' = r\<lparr>pbBalance := bal, pbUpdatedAt := now\<rparr>"
    "db' = db\<lparr>provider_balances := map (\<lambda>x. if pb_key x = pb_key r then r' else x) (provider_balances db)\<rparr>"
    using assms(1) by (auto simp: put_provider_balance_def is_provider_balance_key Let_def)
  have key: "pb_key r' = (p, c)" using r(2) by (simp add: r'(1))
  have "find (\<lambda>x. pb_key x = j) (provider_balances db')
      = (if j = (p, c) then Some r' else find (\<lambda>x. pb_key x = j) (provider_balances db))" for j
    using find_update [where key = pb_key, OF r(1) key, of j] by (simp add: r'(2) r(2))
  then show "provider_account db' = (provider_account db)((p, c) := bal)"
    by (auto simp: provider_account_def fun_eq_iff r'(1))
  have "map pb_key (provider_balances db') = map pb_key (provider_balances db)"
    using map_key_update [where key = pb_key and r' = r', OF key, of "provider_balances db"] r(2) by (simp add: r'(2))
  then show "distinct_accounts db' = distinct_accounts db" by (simp add: distinct_accounts_def)
  show "same_provider_tables db db'" "pbBalance r' = bal" "pv_next_id db' = pv_next_id db"
    by (simp_all add: r' same_provider_tables_def)
qed

lemma EnsureProviderBalance_Inr:
  assumes "EnsureProviderBalance now db p c = Inr db'"
  shows "provider_account db' = provider_account db" "same_provider_tables db db'"
    "distinct_accounts db \<Longrightarrow> distinct_accounts db'"
proof -
  let ?row = "\<lparr>pbID = pv_next_id db, pbProviderID = p, pbCurrency = c, pbBalance = 0, pbCreatedAt = now, pbUpdatedAt = now\<rparr>"
  consider "db' = db" | "find (\<lambda>r. pb_key r = (p, c)) (provider_balances db) = None"
      "db' = db\<lparr>provider_balances := provider_balances db @ [?row], pv_next_id := pv_next_id db + 1\<rparr>"
    using assms unfolding EnsureProviderBalance_def is_provider_balance_key by (auto split: if_splits)
  then have "provider_account db' k = provider_account db k \<and> same_provider_tables db db' \<and>
      (distinct_accounts db \<longrightarrow> distinct_accounts db')" for k
  proof cases
    case 2
    from 2(1) have new: "(p, c) \<notin> pb_key ` set (provider_balances db)" by (simp only: find_key_None not_False_eq_True)
    have "provider_account db' k = provider_account db k"
      using 2(1) by (auto simp: 2(2) provider_account_def find_append split: option.splits)
    with new show ?thesis by (simp add: 2(2) same_provider_tables_def distinct_accounts_def)
  qed (simp add: same_provider_tables_def)
  then show "provider_account db' = provider_account db" "same_provider_tables db db'"
    "distinct_accounts db \<Longrightarrow> distinct_accounts db'" by auto
qed

subsection \<open>Postings\<close>

text \<open>\<open>uses f x\<close>: the id that a row refers to through the nullable unique column \<open>f\<close> is new in the table.\<close>

definition fresh_ref :: "('r \<Rightarrow> 'k option) \<Rightarrow> 'r list \<Rightarrow> 'r \<Rightarrow> bool" where
  "fresh_ref f rows r \<longleftrightarrow> f r = None \<or> f r \<notin> f ` set rows"

definition pl_posted :: "'f pdb \<Rightarrow> 'f pdb \<Rightarrow> ProviderLedgerEntry \<Rightarrow> bool" where
  "pl_posted db db' e \<longleftrightarrow>
     check_provider_entry e \<and> plIdempotencyKey e \<notin> plIdempotencyKey ` set (provider_entries db) \<and>
     fresh_ref plCostSnapshotID (provider_entries db) e \<and> fresh_ref plProviderProbeRecordID (provider_entries db) e \<and>
     fk (plProviderProbeRecordID e) (map ppID (probe_records db)) \<and>
     pv_next_id db \<le> plID e \<and> plID e < pv_next_id db' \<and>
     provider_entries db' = provider_entries db @ [e] \<and> probe_records db' = probe_records db \<and>
     cost_risks db' = cost_risks db \<and> plBalanceBefore e = provider_account db (pe_key e) \<and>
     provider_account db' = (provider_account db)(pe_key e := plBalanceAfter e) \<and>
     fits (plBalanceAfter e) \<and> (distinct_accounts db \<longrightarrow> distinct_accounts db')"

lemma CreateProviderLedgerEntry_Inr:
  assumes "CreateProviderLedgerEntry now db arg = Inr (e, db')"
  shows "rbind (bind_num (cplAmount arg)) col10 = Inr (plAmount e)"
    "e = \<lparr>plID = pv_next_id db, plProviderID = cplProviderID arg, plRequestRecordID = cplRequestRecordID arg,
        plRequestAttemptID = cplRequestAttemptID arg, plProviderProbeRecordID = cplProviderProbeRecordID arg,
        plCostSnapshotID = cplCostSnapshotID arg, plChannelID = cplChannelID arg, plRequestID = cplRequestID arg,
        plChannelName = cplChannelName arg, plUpstreamModel = cplUpstreamModel arg, plEntryType = cplEntryType arg,
        plAmount = plAmount e, plCurrency = cplCurrency arg, plBalanceBefore = plBalanceBefore e,
        plBalanceAfter = plBalanceAfter e, plIdempotencyKey = cplIdempotencyKey arg, plReason = cplReason arg,
        plCreatedAt = now\<rparr>"
    "cplBalanceBefore arg = num b \<Longrightarrow> plBalanceBefore e = b" "cplBalanceAfter arg = num b' \<Longrightarrow> plBalanceAfter e = b'"
    "check_provider_entry e" "plIdempotencyKey e \<notin> plIdempotencyKey ` set (provider_entries db)"
    "fresh_ref plCostSnapshotID (provider_entries db) e" "fresh_ref plProviderProbeRecordID (provider_entries db) e"
    "fk (plProviderProbeRecordID e) (map ppID (probe_records db))"
    "db' = db\<lparr>provider_entries := provider_entries db @ [e], pv_next_id := pv_next_id db + 1\<rparr>"
proof -
  obtain am bb ba where am: "rbind (bind_num (cplAmount arg)) col10 = Inr am"
    and bb: "rbind (bind_num (cplBalanceBefore arg)) col10 = Inr bb"
    and ba: "rbind (bind_num (cplBalanceAfter arg)) col10 = Inr ba"
    and ins: "insert_provider_entry db
       \<lparr>plID = 0, plProviderID = cplProviderID arg, plRequestRecordID = cplRequestRecordID arg,
        plRequestAttemptID = cplRequestAttemptID arg, plProviderProbeRecordID = cplProviderProbeRecordID arg,
        plCostSnapshotID = cplCostSnapshotID arg, plChannelID = cplChannelID arg, plRequestID = cplRequestID arg,
        plChannelName = cplChannelName arg, plUpstreamModel = cplUpstreamModel arg, plEntryType = cplEntryType arg,
        plAmount = am, plCurrency = cplCurrency arg, plBalanceBefore = bb,
        plBalanceAfter = ba, plIdempotencyKey = cplIdempotencyKey arg, plReason = cplReason arg,
        plCreatedAt = now\<rparr> = Inr (e, db')" (is "insert_provider_entry db ?row = _")
    using assms unfolding CreateProviderLedgerEntry_def by (blast elim: rbind_InrE)
  have row: "e = ?row\<lparr>plID := pv_next_id db\<rparr>" "check_provider_entry ?row"
    "plIdempotencyKey ?row \<notin> plIdempotencyKey ` set (provider_entries db)"
    "fresh_ref plCostSnapshotID (provider_entries db) ?row" "fresh_ref plProviderProbeRecordID (provider_entries db) ?row"
    "fk (plProviderProbeRecordID ?row) (map ppID (probe_records db))"
    "db' = db\<lparr>provider_entries := provider_entries db @ [?row\<lparr>plID := pv_next_id db\<rparr>], pv_next_id := pv_next_id db + 1\<rparr>"
    using ins unfolding insert_provider_entry_def fresh_ref_def by (auto split: if_splits)
  show "rbind (bind_num (cplAmount arg)) col10 = Inr (plAmount e)" using am row(1) by simp
  show "e = \<lparr>plID = pv_next_id db, plProviderID = cplProviderID arg, plRequestRecordID = cplRequestRecordID arg,
        plRequestAttemptID = cplRequestAttemptID arg, plProviderProbeRecordID = cplProviderProbeRecordID arg,
        plCostSnapshotID = cplCostSnapshotID arg, plChannelID = cplChannelID arg, plRequestID = cplRequestID arg,
        plChannelName = cplChannelName arg, plUpstreamModel = cplUpstreamModel arg, plEntryType = cplEntryType arg,
        plAmount = plAmount e, plCurrency = cplCurrency arg, plBalanceBefore = plBalanceBefore e,
        plBalanceAfter = plBalanceAfter e, plIdempotencyKey = cplIdempotencyKey arg, plReason = cplReason arg,
        plCreatedAt = now\<rparr>" using row(1) by simp
  show "cplBalanceBefore arg = num b \<Longrightarrow> plBalanceBefore e = b"
    "cplBalanceAfter arg = num b' \<Longrightarrow> plBalanceAfter e = b'"
    using bb ba by (auto simp: row(1) split: if_splits)
  show "check_provider_entry e" "plIdempotencyKey e \<notin> plIdempotencyKey ` set (provider_entries db)"
    "fresh_ref plCostSnapshotID (provider_entries db) e" "fresh_ref plProviderProbeRecordID (provider_entries db) e"
    "fk (plProviderProbeRecordID e) (map ppID (probe_records db))"
    "db' = db\<lparr>provider_entries := provider_entries db @ [e], pv_next_id := pv_next_id db + 1\<rparr>"
    using row(2-) by (simp_all add: row(1) check_provider_entry_def fresh_ref_def)
qed

text \<open>The four statements every posting consists of: the row of the account, its balance before, the update, the entry.\<close>

definition moves ::
  "int \<Rightarrow> 'f pdb \<Rightarrow> numeric \<Rightarrow> int \<Rightarrow> string \<Rightarrow> ProviderBalance \<Rightarrow> 'f pdb \<Rightarrow> bool" where
  "moves now db amount p c after db' \<longleftrightarrow>
     AddProviderBalance now db amount p c = Inr (after, db') \<or> SubtractProviderBalance now db amount p c = Inr (after, db')"

lemma moves_balance:
  assumes "moves now db amount p c after db'"
  obtains r bal where "GetProviderBalanceForUpdate db p c = Inr r" "put_provider_balance now db r bal = (after, db')" "fits bal"
  using assms unfolding moves_def AddProviderBalance_def SubtractProviderBalance_def
  by (auto simp: rbind_Inr_iff col10_Inr cast10_Inr)

lemma posting:
  assumes "EnsureProviderBalance now db p c = Inr db1" "GetProviderBalanceForUpdate db1 p c = Inr before"
    and "moves now db1 amount p c after db2" "CreateProviderLedgerEntry now db2 arg = Inr (e, db3)"
    and "cplProviderID arg = p" "cplCurrency arg = c"
    and "cplBalanceBefore arg = num (pbBalance before)" "cplBalanceAfter arg = num (pbBalance after)"
  shows "pl_posted db db3 e"
proof -
  note ens = EnsureProviderBalance_Inr [OF assms(1)]
  obtain r bal where r: "GetProviderBalanceForUpdate db1 p c = Inr r" "put_provider_balance now db1 r bal = (after, db2)" "fits bal"
    using assms(3) by (rule moves_balance)
  note put = put_provider_balance [OF r(2,1)]
  note cr = CreateProviderLedgerEntry_Inr [OF assms(4)]
  have e: "pe_key e = (p, c)" "plID e = pv_next_id db2" using assms(5,6) by (subst cr(2), simp)+
  have bb: "plBalanceBefore e = provider_account db (p, c)" "plBalanceAfter e = bal"
    using cr(3) [OF assms(7)] cr(4) [OF assms(8)] GetProviderBalance_account(1) [OF assms(2)] ens(1) put(3) by simp_all
  have tabs: "provider_entries db2 = provider_entries db" "probe_records db2 = probe_records db" "cost_risks db2 = cost_risks db"
    "pv_next_id db \<le> pv_next_id db2"
    using ens(2) put(2) by (auto simp: same_provider_tables_def)
  have db3: "provider_entries db3 = provider_entries db @ [e]" "probe_records db3 = probe_records db"
    "cost_risks db3 = cost_risks db" "provider_account db3 = provider_account db2"
    "distinct_accounts db3 = distinct_accounts db2" "pv_next_id db3 = pv_next_id db2 + 1"
    by (simp_all add: cr(10) tabs provider_account_def distinct_accounts_def fun_eq_iff)
  show ?thesis
    using cr(5-9) ens put(1,4) e bb db3 tabs r(3) unfolding pl_posted_def by simp
qed

subsection \<open>The operations\<close>

lemma stored_Inr [simp]: "stored env msg r = Inr x \<longleftrightarrow> \<not> fault env msg \<and> r = Inr x"
  by (auto simp: stored_def store_call_def split: sum.splits)

text \<open>What an entry says about its posting: the account, the kind, the texts, and the amount at ten decimals.\<close>

definition pl_matches ::
  "int \<Rightarrow> string \<Rightarrow> numeric \<Rightarrow> string \<Rightarrow> string \<Rightarrow> string \<Rightarrow> ProviderLedgerEntry \<Rightarrow> bool" where
  "pl_matches p t amount c key reason e \<longleftrightarrow>
     plProviderID e = p \<and> plEntryType e = t \<and> plCurrency e = c \<and> plIdempotencyKey e = key \<and> plReason e = reason \<and>
     (\<exists>x. numericRat amount = Some x \<and> plAmount e = round_half_away (x * 10 ^ 10))"

lemma created_matches:
  assumes "CreateProviderLedgerEntry now db arg = Inr (e, db')"
  shows "pl_matches (cplProviderID arg) (cplEntryType arg) (cplAmount arg) (cplCurrency arg) (cplIdempotencyKey arg)
      (cplReason arg) e" "plProviderProbeRecordID e = cplProviderProbeRecordID arg"
    "plCostSnapshotID e = cplCostSnapshotID arg"
proof -
  note c = CreateProviderLedgerEntry_Inr(1,2) [OF assms]
  show "pl_matches (cplProviderID arg) (cplEntryType arg) (cplAmount arg) (cplCurrency arg) (cplIdempotencyKey arg)
      (cplReason arg) e"
    using c(1) unfolding pl_matches_def bind_col10 by (subst (1 2 3 4 5) c(2)) auto
  show "plProviderProbeRecordID e = cplProviderProbeRecordID arg" "plCostSnapshotID e = cplCostSnapshotID arg"
    by (subst c(2), simp)+
qed

lemma pl_creditWithQueries_cases:
  assumes "pl_creditWithQueries env db t p amount c key reason = Inr (x, db')"
  obtains e where "db' = db" "GetProviderLedgerEntryByIdempotencyKey db key = Inr e"
      "idempotentEntry e p t amount c reason None = Inr x"
  | e where "pl_posted db db' e" "pl_matches p t amount c key reason e" "plProviderProbeRecordID e = None"
      "x = pl_entryFromSQLC e"
proof (cases "store_call env ''lookup provider ledger idempotency key'' (GetProviderLedgerEntryByIdempotencyKey db key)")
  case (Inr e)
  with assms that(1) [of e] show ?thesis
    by (auto simp: pl_creditWithQueries_def rbind_Inr_iff store_call_Inr)
next
  case (Inl err)
  with assms obtain db1 before after db2 e where
    "EnsureProviderBalance (clock env) db p c = Inr db1" "GetProviderBalanceForUpdate db1 p c = Inr before"
    "AddProviderBalance (clock env) db1 amount p c = Inr (after, db2)" and
    cr: "CreateProviderLedgerEntry (clock env) db2
              \<lparr>cplProviderID = p, cplRequestRecordID = None, cplRequestAttemptID = None,
               cplCostSnapshotID = None, cplChannelID = None, cplRequestID = None, cplChannelName = None,
               cplUpstreamModel = None, cplProviderProbeRecordID = None, cplEntryType = t,
               cplAmount = amount, cplCurrency = c, cplBalanceBefore = num (pbBalance before),
               cplBalanceAfter = num (pbBalance after), cplIdempotencyKey = key, cplReason = reason\<rparr> = Inr (e, db')"
    and x: "x = pl_entryFromSQLC e"
    unfolding pl_creditWithQueries_def by (auto simp: rbind_Inr_iff if_Inl_Inr_iff)
  then have "pl_posted db db' e"
    by (intro posting [OF _ _ _ cr]) (auto simp: moves_def)
  with created_matches [OF cr] x show ?thesis by (intro that(2) [of e]) simp_all
qed

lemma pl_debitWithQueries_cases:
  assumes "pl_debitWithQueries env db t p amount c key reason src = Inr (x, db')"
  obtains e where "db' = db" "GetProviderLedgerEntryByIdempotencyKey db key = Inr e"
      "idempotentEntry e p t amount c reason src = Inr x"
  | e where "pl_posted db db' e" "pl_matches p t amount c key reason e" "plProviderProbeRecordID e = None"
      "plCostSnapshotID e = map_option srcCostSnapshotID src" "x = pl_entryFromSQLC e"
proof (cases "store_call env ''lookup provider ledger idempotency key'' (GetProviderLedgerEntryByIdempotencyKey db key)")
  case (Inr e)
  with assms that(1) [of e] show ?thesis
    by (auto simp: pl_debitWithQueries_def rbind_Inr_iff store_call_Inr)
next
  case (Inl err)
  with assms obtain db1 before after db2 e where
    "EnsureProviderBalance (clock env) db p c = Inr db1" "GetProviderBalanceForUpdate db1 p c = Inr before"
    "SubtractProviderBalance (clock env) db1 amount p c = Inr (after, db2)" and
    cr: "CreateProviderLedgerEntry (clock env) db2
              \<lparr>cplProviderID = p, cplRequestRecordID = map_option srcRequestRecordID src,
               cplRequestAttemptID = map_option srcRequestAttemptID src,
               cplCostSnapshotID = map_option srcCostSnapshotID src, cplChannelID = map_option srcChannelID src,
               cplRequestID = map_option srcRequestID src, cplChannelName = map_option srcChannelName src,
               cplUpstreamModel = map_option srcUpstreamModel src, cplProviderProbeRecordID = None,
               cplEntryType = t, cplAmount = amount, cplCurrency = c,
               cplBalanceBefore = num (pbBalance before), cplBalanceAfter = num (pbBalance after),
               cplIdempotencyKey = key, cplReason = reason\<rparr> = Inr (e, db')"
    and x: "x = pl_entryFromSQLC e"
    unfolding pl_debitWithQueries_def by (auto simp: rbind_Inr_iff if_Inl_Inr_iff)
  then have "pl_posted db db' e"
    by (intro posting [OF _ _ _ cr]) (auto simp: moves_def)
  with created_matches [OF cr] x show ?thesis by (intro that(2) [of e]) simp_all
qed

lemma debitProbeWithQueries_cases:
  assumes "debitProbeWithQueries env db p probe amount c key reason = Inr (x, db')"
  obtains e where "db' = db" "e \<in> set (provider_entries db)" "plProviderProbeRecordID e = Some probe"
  | e where "pl_posted db db' e" "pl_matches p EntryTypeProbeDebit amount c key reason e"
      "plProviderProbeRecordID e = Some probe"
proof (cases "store_call env ''lookup provider probe ledger idempotency key'' (GetProviderLedgerEntryByIdempotencyKey db key)")
  case (Inr e)
  then have "e \<in> set (provider_entries db)"
    by (auto simp: store_call_Inr GetProviderLedgerEntryByIdempotencyKey_def one_row_def split: option.splits
        dest: find_key_Some)
  moreover have "plProviderProbeRecordID e = Some probe" "db' = db"
    using assms Inr by (auto simp: debitProbeWithQueries_def rbind_Inr_iff int64_of_def split: if_splits option.splits)
  ultimately show ?thesis using that(1) by blast
next
  case (Inl err)
  with assms obtain db1 before after db2 e where
    "EnsureProviderBalance (clock env) db p c = Inr db1" "GetProviderBalanceForUpdate db1 p c = Inr before"
    "SubtractProviderBalance (clock env) db1 amount p c = Inr (after, db2)" and
    cr: "CreateProviderLedgerEntry (clock env) db2
              \<lparr>cplProviderID = p, cplRequestRecordID = None, cplRequestAttemptID = None,
               cplCostSnapshotID = None, cplChannelID = None, cplRequestID = None, cplChannelName = None,
               cplUpstreamModel = None, cplProviderProbeRecordID = Some probe,
               cplEntryType = EntryTypeProbeDebit, cplAmount = amount, cplCurrency = c,
               cplBalanceBefore = num (pbBalance before), cplBalanceAfter = num (pbBalance after),
               cplIdempotencyKey = key, cplReason = reason\<rparr> = Inr (e, db')"
    unfolding debitProbeWithQueries_def by (auto simp: rbind_Inr_iff if_Inl_Inr_iff)
  then have "pl_posted db db' e"
    by (intro posting [OF _ _ _ cr]) (auto simp: moves_def)
  with created_matches [OF cr] show ?thesis by (intro that(2) [of e]) simp_all
qed

subsection \<open>The invariant\<close>

text \<open>The ids a nullable unique column holds.\<close>

definition refs :: "('r \<Rightarrow> 'k option) \<Rightarrow> 'r list \<Rightarrow> 'k list" where
  "refs f rows = map the (filter (\<lambda>k. k \<noteq> None) (map f rows))"

lemma refs_append [simp]: "refs f (xs @ ys) = refs f xs @ refs f ys"
  and refs_simps [simp]: "refs f [] = []" "refs f (x # xs) = (case f x of None \<Rightarrow> refs f xs | Some k \<Rightarrow> k # refs f xs)"
  by (simp_all add: refs_def split: option.splits)

lemma set_refs: "k \<in> set (refs f rows) \<longleftrightarrow> Some k \<in> f ` set rows"
  by (induction rows) (auto split: option.splits)

lemma refs_map: "(\<And>x. f (g x) = f x) \<Longrightarrow> refs f (map g rows) = refs f rows"
  by (induction rows) (simp_all split: option.splits)

lemma distinct_refs_snoc: "distinct (refs f rows) \<Longrightarrow> fresh_ref f rows r \<Longrightarrow> distinct (refs f (rows @ [r]))"
  by (auto simp: fresh_ref_def set_refs split: option.splits)

definition entries_ok :: "'f pdb \<Rightarrow> bool" where
  "entries_ok db \<longleftrightarrow> distinct_accounts db \<and> (\<forall>k. fits (provider_account db k)) \<and> (\<forall>k. chained 0 (account_chain db k) (provider_account db k)) \<and>
     (\<forall>e \<in> set (provider_entries db). check_provider_entry e \<and> plID e < pv_next_id db \<and>
        fk (plProviderProbeRecordID e) (map ppID (probe_records db))) \<and>
     distinct (map plID (provider_entries db)) \<and> distinct (map plIdempotencyKey (provider_entries db)) \<and>
     distinct (refs plCostSnapshotID (provider_entries db)) \<and> distinct (refs plProviderProbeRecordID (provider_entries db))"

definition probes_ok :: "'f pdb \<Rightarrow> bool" where
  "probes_ok db \<longleftrightarrow> distinct (map ppID (probe_records db)) \<and> distinct (map ppIdempotencyKey (probe_records db)) \<and>
     (\<forall>r \<in> set (probe_records db). ppID r < pv_next_id db \<and> check_probe_record r)"

text \<open>A reconciled risk points at an entry of its own account.\<close>

definition risks_ok :: "'f pdb \<Rightarrow> bool" where
  "risks_ok db \<longleftrightarrow> distinct (refs prRequestAttemptID (cost_risks db)) \<and>
     distinct (refs prProviderProbeRecordID (cost_risks db)) \<and>
     (\<forall>k \<in> set (cost_risks db). check_cost_risk k \<and> fk (prProviderProbeRecordID k) (map ppID (probe_records db)) \<and>
        (\<forall>i. prReconciliationLedgerEntryID k = Some i \<longrightarrow>
           (\<exists>e \<in> set (provider_entries db). plID e = i \<and> plProviderID e = prProviderID k \<and>
              prCurrency k = Some (plCurrency e))))"

definition probe_debits :: "'f pdb \<Rightarrow> int \<Rightarrow> ProviderLedgerEntry list" where
  "probe_debits db i = filter (\<lambda>e. plProviderProbeRecordID e = Some i) (provider_entries db)"

definition probe_risks :: "'f pdb \<Rightarrow> int \<Rightarrow> ProviderCostRisk list" where
  "probe_risks db i = filter (\<lambda>k. prProviderProbeRecordID k = Some i) (cost_risks db)"

text \<open>What a probe record must have led to, and nothing else.\<close>

definition booked :: "'f pdb \<Rightarrow> 'f ProviderProbeRecord \<Rightarrow> bool" where
  "booked db r \<longleftrightarrow>
     (if ppUsageReliable r \<and> ppCostAmount r \<noteq> Some 0 then
        (\<exists>e. probe_debits db (ppID r) = [e] \<and> Some (plAmount e) = ppCostAmount r \<and> plProviderID e = ppProviderID r \<and>
           ppCurrency r = textNarg (plCurrency e)) \<and> probe_risks db (ppID r) = []
      else if \<not> ppUsageReliable r \<and> (ppSuccess r \<or> 200 \<le> ppHttpStatus r \<and> ppHttpStatus r < 300) then
        probe_debits db (ppID r) = [] \<and>
        (\<exists>k. probe_risks db (ppID r) = [k] \<and> prProviderID k = ppProviderID r \<and> prCurrency k = ppCurrency r)
      else probe_debits db (ppID r) = [] \<and> probe_risks db (ppID r) = [])"

definition provider_inv :: "'f pdb \<Rightarrow> bool" where
  "provider_inv db \<longleftrightarrow> 0 < pv_next_id db \<and> entries_ok db \<and> probes_ok db \<and> risks_ok db \<and>
     (\<forall>r \<in> set (probe_records db). booked db r)"

abbreviation provider_tables_ok :: "'f pdb \<Rightarrow> bool" where
  "provider_tables_ok db \<equiv> 0 < pv_next_id db \<and> entries_ok db \<and> probes_ok db \<and> risks_ok db"

lemma posted_tables:
  assumes "pl_posted db db' e" "provider_tables_ok db"
  shows "provider_tables_ok db'"
proof -
  note p = assms(1)[unfolded pl_posted_def]
  have "chained 0 (account_chain db' k) (provider_account db' k)" for k
  proof -
    have "chained 0 (account_chain db k) (provider_account db k)" using assms(2) unfolding entries_ok_def by blast
    then show ?thesis
      using p by (cases "pe_key e = k") (simp_all add: account_chain_def chained_snoc)
  qed
  moreover have "distinct (refs plCostSnapshotID (provider_entries db @ [e]))"
    "distinct (refs plProviderProbeRecordID (provider_entries db @ [e]))"
    using assms(2) p by (auto simp: entries_ok_def simp del: refs_append intro: distinct_refs_snoc)
  ultimately have "\<forall>k. chained 0 (account_chain db' k) (provider_account db' k)"
    "distinct (refs plCostSnapshotID (provider_entries db'))" "distinct (refs plProviderProbeRecordID (provider_entries db'))"
    using p by (simp_all del: refs_append)
  moreover from assms(2) p have "plID e \<notin> plID ` set (provider_entries db)" by (force simp: entries_ok_def)
  ultimately show ?thesis
    using assms(2) p unfolding entries_ok_def probes_ok_def risks_ok_def by fastforce
qed

definition risk_added :: "'f pdb \<Rightarrow> 'f pdb \<Rightarrow> ProviderCostRisk \<Rightarrow> bool" where
  "risk_added db db' k \<longleftrightarrow> check_cost_risk k \<and> fresh_ref prRequestAttemptID (cost_risks db) k \<and>
     fresh_ref prProviderProbeRecordID (cost_risks db) k \<and> fk (prProviderProbeRecordID k) (map ppID (probe_records db)) \<and>
     prReconciliationLedgerEntryID k = None \<and>
     db' = db\<lparr>cost_risks := cost_risks db @ [k], pv_next_id := pv_next_id db + 1\<rparr>"

lemma account_frame [simp]:
  "provider_account (db\<lparr>cost_risks := x, pv_next_id := n\<rparr>) = provider_account db"
  "provider_account (db\<lparr>cost_risks := x\<rparr>) = provider_account db"
  "provider_account (db\<lparr>probe_records := y, pv_next_id := n\<rparr>) = provider_account db"
  by (simp_all add: provider_account_def fun_eq_iff)

lemma risk_added_tables:
  assumes "risk_added db db' k" "provider_tables_ok db"
  shows "provider_tables_ok db'"
proof -
  note r = assms(1)[unfolded risk_added_def]
  have "distinct (refs prRequestAttemptID (cost_risks db @ [k]))" "distinct (refs prProviderProbeRecordID (cost_risks db @ [k]))"
    using assms(2) r by (auto simp: risks_ok_def simp del: refs_append intro: distinct_refs_snoc)
  moreover have "entries_ok db'" "probes_ok db'"
    using assms(2) r by (force simp: entries_ok_def probes_ok_def account_chain_def distinct_accounts_def)+
  ultimately show ?thesis using assms(2) r by (auto simp: risks_ok_def simp del: refs_append)
qed

definition probe_added :: "'f pdb \<Rightarrow> 'f pdb \<Rightarrow> 'f ProviderProbeRecord \<Rightarrow> bool" where
  "probe_added db db' r \<longleftrightarrow> check_probe_record r \<and> ppIdempotencyKey r \<notin> ppIdempotencyKey ` set (probe_records db) \<and>
     ppID r = pv_next_id db \<and>
     db' = db\<lparr>probe_records := probe_records db @ [r], pv_next_id := pv_next_id db + 1\<rparr>"

lemma fk_append: "fk k xs \<Longrightarrow> fk k (xs @ ys)"
  by (auto simp: fk_def split: option.splits)

lemma probe_added_tables:
  assumes "probe_added db db' r" "provider_tables_ok db"
  shows "provider_tables_ok db'" "probe_debits db' (ppID r) = []" "probe_risks db' (ppID r) = []"
proof -
  note p = assms(1)[unfolded probe_added_def]
  have new: "pv_next_id db \<notin> ppID ` set (probe_records db)" using assms(2) by (auto simp: probes_ok_def)
  have "entries_ok db'"
    using assms(2) p by (force simp: entries_ok_def account_chain_def distinct_accounts_def intro: fk_append)
  moreover have "probes_ok db'" using assms(2) p new by (force simp: probes_ok_def)
  moreover have "risks_ok db'" using assms(2) p by (auto simp: risks_ok_def intro: fk_append)
  ultimately show "provider_tables_ok db'" using assms(2) p by simp
  show "probe_debits db' (ppID r) = []"
    using assms(2) p new by (fastforce simp: probe_debits_def filter_empty_conv entries_ok_def fk_def)
  show "probe_risks db' (ppID r) = []"
    using assms(2) p new by (fastforce simp: probe_risks_def filter_empty_conv risks_ok_def fk_def)
qed

text \<open>A reconciliation closes open risks of the account of an entry that is there.\<close>

definition reconciled :: "int \<Rightarrow> int \<Rightarrow> ProviderLedgerEntry \<Rightarrow> 'f pdb \<Rightarrow> 'f pdb \<Rightarrow> bool" where
  "reconciled now cutoff e db db' \<longleftrightarrow> e \<in> set (provider_entries db) \<and>
     db' = db\<lparr>cost_risks := map (\<lambda>r. if open_risk (plProviderID e) (plCurrency e) cutoff r
        then r\<lparr>prStatus := ''reconciled'', prReconciliationLedgerEntryID := Some (plID e), prReconciledAt := Some now\<rparr>
        else r) (cost_risks db)\<rparr>"

lemma reconciled_tables:
  assumes "reconciled now cutoff e db db'" "provider_tables_ok db"
  shows "provider_tables_ok db'"
proof -
  note r = assms(1)[unfolded reconciled_def]
  have "refs prRequestAttemptID (cost_risks db') = refs prRequestAttemptID (cost_risks db)"
    "refs prProviderProbeRecordID (cost_risks db') = refs prProviderProbeRecordID (cost_risks db)"
    using r by (auto intro: refs_map)
  moreover have "entries_ok db'" "probes_ok db'"
    using assms(2) r by (auto simp: entries_ok_def probes_ok_def account_chain_def distinct_accounts_def)
  moreover have "check_cost_risk k \<and> fk (prProviderProbeRecordID k) (map ppID (probe_records db)) \<and>
      (\<forall>i. prReconciliationLedgerEntryID k = Some i \<longrightarrow> (\<exists>e \<in> set (provider_entries db). plID e = i \<and>
         plProviderID e = prProviderID k \<and> prCurrency k = Some (plCurrency e)))" if k: "k \<in> set (cost_risks db')" for k
  proof -
    obtain x where x: "x \<in> set (cost_risks db)" "k = (if open_risk (plProviderID e) (plCurrency e) cutoff x
        then x\<lparr>prStatus := ''reconciled'', prReconciliationLedgerEntryID := Some (plID e), prReconciledAt := Some now\<rparr>
        else x)" using k r by auto
    note ok = bspec [OF conjunct2 [OF conjunct2 [OF assms(2) [THEN conjunct2, THEN conjunct2, THEN conjunct2,
      unfolded risks_ok_def]]] x(1)]
    show ?thesis
    proof (cases "open_risk (plProviderID e) (plCurrency e) cutoff x")
      case True
      then have "prProviderID x = plProviderID e" "prCurrency x = Some (plCurrency e)" by (simp_all add: open_risk_def)
      with True x(2) ok r show ?thesis by (auto simp: check_cost_risk_def)
    qed (use x(2) ok in simp)
  qed
  moreover have "probe_records db' = probe_records db" "provider_entries db' = provider_entries db"
    "pv_next_id db' = pv_next_id db" using r by simp_all
  ultimately show ?thesis using assms(2) by (simp add: risks_ok_def)
qed

end
