(* ===== verification/Provider_Machine.thy ===== *)
theory Provider_Machine
  imports Provider_Books
begin

text \<open>
  The provider ledger as a state machine: any sequence of its operations, with any parameters, prices and clocks, any
  store failure and any commit outcome, and new rows in the tables its foreign keys refer to. Every step keeps
  \<open>provider_inv\<close>, and what is once in the ledger stays there.
\<close>

inductive provider_step :: "provider_db \<Rightarrow> provider_db \<Rightarrow> bool" where
  adjust_credit: "pl_AdjustCredit env db adjust = (r, db') \<Longrightarrow> provider_step db db'"
| adjust_debit: "pl_AdjustDebit env db adjust = (r, db') \<Longrightarrow> provider_step db db'"
| set_target: "SetTargetBalance env cutoff db target = (r, db') \<Longrightarrow> provider_step db db'"
| usage_in_tx: "DebitUsageWithQueries env db usage = Inr (x, db') \<Longrightarrow> provider_step db db'"
| request_risk: "RecordRequestCostRisk env db risk = (u, db') \<Longrightarrow> provider_step db db'"
| request_risk_in_tx: "RecordRequestCostRiskWithQueries env db risk = Inr db' \<Longrightarrow> provider_step db db'"
| probe: "AccountProbe env prices now db p = (u, db') \<Longrightarrow> provider_step db db'"
| outside: "provider_step db (db\<lparr>providers := ps, pv_channels := cs, pv_models := ms, pv_requests := rs,
      pv_attempts := attempts, pv_cost_snapshots := ss\<rparr>)"

definition empty_provider_db :: provider_db where
  "empty_provider_db = \<lparr>providers = [], pv_channels = [], pv_models = [], pv_requests = [], pv_attempts = [],
     pv_cost_snapshots = [], provider_balances = [], provider_entries = [], probe_records = [], cost_risks = [],
     pv_next_id = 1\<rparr>"

definition provider_reachable :: "provider_db \<Rightarrow> bool" where
  "provider_reachable db \<longleftrightarrow> provider_step\<^sup>*\<^sup>* empty_provider_db db"

subsection \<open>What the operations do\<close>

lemma in_tx_cases:
  assumes "in_tx env m1 m2 db body = (r, db')"
  obtains "db' = db" | x where "body = Inr (x, db')"
  using assms by (auto simp: in_tx_def split: sum.splits dest!: commit_posted(1) simp: rbind_Inr_iff)

abbreviation target_entry_args :: "TargetParams \<Rightarrow> rat \<Rightarrow> ProviderBalance \<Rightarrow> ProviderBalance \<Rightarrow> CreateProviderLedgerEntryParams" where
  "target_entry_args p delta before after \<equiv>
     \<lparr>cplProviderID = tpProviderID p, cplRequestRecordID = None, cplRequestAttemptID = None,
      cplCostSnapshotID = None, cplChannelID = None, cplRequestID = None, cplChannelName = None,
      cplUpstreamModel = None, cplProviderProbeRecordID = None,
      cplEntryType = (if delta > 0 then EntryTypeAdjustmentCredit else EntryTypeAdjustmentDebit),
      cplAmount = pl_ratToNumeric \<bar>delta\<bar> 10, cplCurrency = tpCurrency p,
      cplBalanceBefore = num (pbBalance before), cplBalanceAfter = num (pbBalance after),
      cplIdempotencyKey = tpIdempotencyKey p, cplReason = tpReason p\<rparr>"

lemma target_posting_run:
  assumes "target_posting env cutoff db p = Inr (x, Some db')"
  shows "\<exists>db1 before after db2 e db3 n delta.
      EnsureProviderBalance (clock env) db (tpProviderID p) (tpCurrency p) = Inr db1 \<and>
      GetProviderBalanceForUpdate db1 (tpProviderID p) (tpCurrency p) = Inr before \<and>
      moves (clock env) db1 (pl_ratToNumeric \<bar>delta\<bar> 10) (tpProviderID p) (tpCurrency p) after db2 \<and>
      CreateProviderLedgerEntry (clock env) db2 (target_entry_args p delta before after) = Inr (e, db3) \<and>
      ReconcileProviderCostRisks (clock env) db3 (plID e) (tpProviderID p) (tpCurrency p) cutoff = Inr (n, db') \<and>
      x = pl_entryFromSQLC e"
proof (cases "store_call env ''lookup provider target balance idempotency key''
    (GetProviderLedgerEntryByIdempotencyKey db (tpIdempotencyKey p))")
  case (Inr e)
  with assms show ?thesis by (auto simp: target_posting_def rbind_Inr_iff if_Inl_Inr_iff)
next
  case (Inl err)
  obtain db1 before where ens: "EnsureProviderBalance (clock env) db (tpProviderID p) (tpCurrency p) = Inr db1"
      "GetProviderBalanceForUpdate db1 (tpProviderID p) (tpCurrency p) = Inr before"
    using assms Inl by (auto simp: target_posting_def rbind_Inr_iff if_Inl_Inr_iff)
  define delta where "delta = pl_numericRat (tpTargetBalance p) - pl_numericRat (num (pbBalance before))"
  from assms Inl ens obtain after db2 e db3 n where
      mv: "(if delta > 0 then AddProviderBalance (clock env) db1 (pl_ratToNumeric \<bar>delta\<bar> 10) (tpProviderID p) (tpCurrency p)
         else SubtractProviderBalance (clock env) db1 (pl_ratToNumeric \<bar>delta\<bar> 10) (tpProviderID p) (tpCurrency p)) = Inr (after, db2)"
      and cr: "CreateProviderLedgerEntry (clock env) db2 (target_entry_args p delta before after) = Inr (e, db3)"
      and rc: "ReconcileProviderCostRisks (clock env) db3 (plID e) (tpProviderID p) (tpCurrency p) cutoff = Inr (n, db')"
      and x: "x = pl_entryFromSQLC e"
    unfolding target_posting_def Let_def delta_def [symmetric]
    by (auto simp only: rbind_Inr_iff if_Inl_Inr_iff stored_Inr sum.case split_beta prod.sel prod.collapse sum.inject
        delta_def [symmetric] prod.inject option.inject prod.exhaust_sel) blast
  from mv have "moves (clock env) db1 (pl_ratToNumeric \<bar>delta\<bar> 10) (tpProviderID p) (tpCurrency p) after db2"
    unfolding moves_def by (cases "0 < delta") simp_all
  with ens cr rc x show ?thesis by blast
qed

lemma target_posting_cases:
  assumes "target_posting env cutoff db p = Inr (x, Some db')"
  obtains e db3 now where "pl_posted db db3 e" "plProviderProbeRecordID e = None" "reconciled now cutoff e db3 db'"
      "plProviderID e = tpProviderID p" "plCurrency e = tpCurrency p" "plIdempotencyKey e = tpIdempotencyKey p"
      "plReason e = tpReason p" "x = pl_entryFromSQLC e"
proof -
  from target_posting_run [OF assms] obtain db1 before after db2 e db3 n delta where
    ens: "EnsureProviderBalance (clock env) db (tpProviderID p) (tpCurrency p) = Inr db1"
      "GetProviderBalanceForUpdate db1 (tpProviderID p) (tpCurrency p) = Inr before"
      "moves (clock env) db1 (pl_ratToNumeric \<bar>delta\<bar> 10) (tpProviderID p) (tpCurrency p) after db2"
    and cr: "CreateProviderLedgerEntry (clock env) db2 (target_entry_args p delta before after) = Inr (e, db3)"
    and rec: "ReconcileProviderCostRisks (clock env) db3 (plID e) (tpProviderID p) (tpCurrency p) cutoff = Inr (n, db')"
    and x: "x = pl_entryFromSQLC e"
    by blast
  have post: "pl_posted db db3 e" by (rule posting [OF ens cr]) simp_all
  note m = created_matches [OF cr, simplified]
  then have keys: "plProviderID e = tpProviderID p" "plCurrency e = tpCurrency p" "plIdempotencyKey e = tpIdempotencyKey p"
      "plReason e = tpReason p" by (simp_all add: pl_matches_def)
  have "reconciled (clock env) cutoff e db3 db'"
    using rec post unfolding keys(1,2) [symmetric]
    by (auto simp: reconciled_def ReconcileProviderCostRisks_def pl_posted_def Let_def split: if_splits)
  with post m(2) keys x show ?thesis by (intro that)
qed

lemma insert_cost_risk_Inr:
  assumes "CreateProviderCostRisk now db arg = Inr (k, db')"
  shows "risk_added db db' k" "prProviderProbeRecordID k = ckProviderProbeRecordID arg" "prProviderID k = ckProviderID arg"
    "prCurrency k = ckCurrency arg"
proof -
  obtain est row where row: "insert_cost_risk db row = Inr (k, db')" "prProviderProbeRecordID row = ckProviderProbeRecordID arg"
      "prProviderID row = ckProviderID arg" "prCurrency row = ckCurrency arg" "prReconciliationLedgerEntryID row = None"
    using assms unfolding CreateProviderCostRisk_def
    by (elim rbind_InrE) (metis ProviderCostRisk.select_convs(2,5,8,12))
  then have k: "k = row\<lparr>prID := pv_next_id db\<rparr>" and ok: "check_cost_risk row"
    "fresh_ref prRequestAttemptID (cost_risks db) row" "fresh_ref prProviderProbeRecordID (cost_risks db) row"
    "fk (prProviderProbeRecordID row) (map ppID (probe_records db))"
    and db': "db' = db\<lparr>cost_risks := cost_risks db @ [row\<lparr>prID := pv_next_id db\<rparr>], pv_next_id := pv_next_id db + 1\<rparr>"
    unfolding insert_cost_risk_def fresh_ref_def by (auto split: if_splits)
  show "risk_added db db' k" unfolding risk_added_def
    using ok db' k row(5) by (simp add: check_cost_risk_def fresh_ref_def)
  show "prProviderProbeRecordID k = ckProviderProbeRecordID arg" "prProviderID k = ckProviderID arg"
    "prCurrency k = ckCurrency arg" using row k by simp_all
qed

lemma insert_cost_risk_ErrNoRows:
  assumes "CreateProviderCostRisk now db arg = Inl ErrNoRows" "ckRequestAttemptID arg = None"
  shows "\<exists>k \<in> set (cost_risks db). prProviderProbeRecordID k = ckProviderProbeRecordID arg"
  using assms
  by (auto simp: CreateProviderCostRisk_def insert_cost_risk_def rbind_Inl_iff col10_null_def bind_num_def cast10_def
      Let_def split: if_splits option.splits sum.splits sql_num.splits)

lemma request_risk_args_probe [simp]: "ckProviderProbeRecordID (request_risk_args p) = None"
  by (simp add: request_risk_args_def)

lemma request_risk_cases:
  assumes "RecordRequestCostRiskWithQueries env db p = Inr db'"
  obtains "db' = db" | k where "risk_added db db' k" "prProviderProbeRecordID k = None"
proof -
  obtain row where row: "createRequestRisk env db p = Inr (row, db')"
    using assms by (auto simp: RecordRequestCostRiskWithQueries_def rbind_Inr_iff)
  show ?thesis
  proof (cases "store_call env ''create provider request cost risk''
      (CreateProviderCostRisk (clock env) db (request_risk_args p))")
    case (Inl err)
    with row that(1) show ?thesis by (auto simp: createRequestRisk_def rbind_Inr_iff)
  next
    case (Inr kd)
    with row have "CreateProviderCostRisk (clock env) db (request_risk_args p) = Inr (row, db')"
      by (cases kd) (simp add: createRequestRisk_def store_call_Inr)
    from insert_cost_risk_Inr [OF this] that(2) show ?thesis by simp
  qed
qed

lemma autocommit_cases:
  assumes "autocommit env msg db res = (r, db')"
  obtains "db' = db" "\<exists>e. r = Inl e" | x where "res = Inr (x, db')" "r = Inr x \<or> (\<exists>e. r = Inl e)"
  using assms by (auto simp: autocommit_def split: if_splits sum.splits prod.splits commit_outcome.splits)

lemma request_risk_auto_cases:
  assumes "RecordRequestCostRisk env db p = (u, db')"
  obtains "db' = db" | k where "risk_added db db' k" "prProviderProbeRecordID k = None"
proof -
  obtain r d where r: "autocommit env ''create provider request cost risk'' db
      (CreateProviderCostRisk (clock env) db (request_risk_args p)) = (r, d)" by fastforce
  have d: "db' = db \<or> db' = d" using assms r by (auto simp: RecordRequestCostRisk_def split: sum.splits)
  from r show ?thesis
  proof (cases rule: autocommit_cases)
    case (2 k)
    from insert_cost_risk_Inr [OF 2(1)] d that show ?thesis by auto
  qed (use d that(1) in auto)
qed

lemma probe_risk_cases:
  assumes "RecordProbeCostRiskWithQueries env db p = Inr db'"
  obtains k where "k \<in> set (cost_risks db)" "prProviderProbeRecordID k = Some (pkProviderProbeID p)" "db' = db"
  | k where "risk_added db db' k" "prProviderProbeRecordID k = Some (pkProviderProbeID p)"
      "prProviderID k = pkProviderID p" "prCurrency k = textNarg (pkCurrency p)"
proof -
  let ?arg = "\<lparr>ckProviderID = pkProviderID p, ckRequestRecordID = None, ckRequestAttemptID = None,
      ckProviderProbeRecordID = Some (pkProviderProbeID p), ckSourceType = RiskSourceProbe,
      ckEstimatedAmount = pkEstimatedAmount p, ckCurrency = textNarg (pkCurrency p),
      ckReasonCode = pkReasonCode p, ckReason = pkReason p\<rparr>"
  show ?thesis
  proof (cases "store_call env ''create provider probe cost risk'' (CreateProviderCostRisk (clock env) db ?arg)")
    case (Inl err)
    then have "err = ErrNoRows" "db' = db"
      using assms by (auto simp: RecordProbeCostRiskWithQueries_def rbind_Inr_iff if_Inl_Inr_iff)
    then have "CreateProviderCostRisk (clock env) db ?arg = Inl ErrNoRows" using Inl by (simp add: store_call_ErrNoRows)
    from insert_cost_risk_ErrNoRows [OF this] that(1) \<open>db' = db\<close> show ?thesis by auto
  next
    case (Inr kd)
    then obtain k where "CreateProviderCostRisk (clock env) db ?arg = Inr (k, db')"
      using assms by (cases kd) (auto simp: RecordProbeCostRiskWithQueries_def store_call_def if_Inl_Inr_iff split: if_splits)
    from insert_cost_risk_Inr [OF this] that(2) show ?thesis by simp
  qed
qed

subsection \<open>Probes\<close>

lemma posted_booked:
  "pl_posted db db' e \<Longrightarrow> plProviderProbeRecordID e \<noteq> Some (ppID r) \<Longrightarrow> booked db' r = booked db r"
  by (simp add: pl_posted_def booked_def probe_debits_def probe_risks_def)

lemma risk_booked:
  "risk_added db db' k \<Longrightarrow> prProviderProbeRecordID k \<noteq> Some (ppID r) \<Longrightarrow> booked db' r = booked db r"
  by (simp add: risk_added_def booked_def probe_debits_def probe_risks_def)

lemma probe_booked: "probe_added db db' x \<Longrightarrow> booked db' r = booked db r"
  by (simp add: probe_added_def booked_def probe_debits_def probe_risks_def)

lemma reconciled_booked:
  assumes "reconciled now cutoff e db db'" "booked db r"
  shows "booked db' r"
proof -
  obtain g where g: "probe_risks db' (ppID r) = map g (probe_risks db (ppID r))"
    "\<And>k. prProviderID (g k) = prProviderID k" "\<And>k. prCurrency (g k) = prCurrency k"
  proof -
    define g where "g = (\<lambda>r. if open_risk (plProviderID e) (plCurrency e) cutoff r
        then r\<lparr>prStatus := ''reconciled'', prReconciliationLedgerEntryID := Some (plID e), prReconciledAt := Some now\<rparr>
        else r)"
    have "filter (\<lambda>k. prProviderProbeRecordID k = i) (map g ks) = map g (filter (\<lambda>k. prProviderProbeRecordID k = i) ks)" for i ks
      by (induction ks) (simp_all add: g_def)
    then show ?thesis
      using assms(1) by (intro that [of g]) (auto simp: reconciled_def probe_risks_def g_def)
  qed
  have "probe_debits db' (ppID r) = probe_debits db (ppID r)"
    using assms(1) by (simp add: reconciled_def probe_debits_def)
  with assms(2) g show ?thesis by (auto simp: booked_def split: if_splits)
qed

lemma CreateProviderProbeRecord_Inr:
  assumes "CreateProviderProbeRecord now db arg = Inr (r, db')"
  shows "probe_added db db' r" "col10_null (cppCostAmount arg) = Inr (ppCostAmount r)"
    "ppProviderID r = cppProviderID arg" "ppSuccess r = cppSuccess arg" "ppHttpStatus r = cppHttpStatus arg"
    "ppUsageReliable r = cppUsageReliable arg" "ppCurrency r = cppCurrency arg"
proof -
  obtain cost where cost: "col10_null (cppCostAmount arg) = Inr cost" and
    ins: "insert_probe_record db
       \<lparr>ppID = 0, ppProviderID = cppProviderID arg, ppChannelID = cppChannelID arg, ppModelID = cppModelID arg,
        ppProtocol = cppProtocol arg, ppSource = cppSource arg, ppUpstreamModel = cppUpstreamModel arg,
        ppSuccess = cppSuccess arg, ppHttpStatus = cppHttpStatus arg, ppErrorCode = cppErrorCode arg,
        ppMessage = cppMessage arg, ppLatencyMs = cppLatencyMs arg, ppUsageSource = cppUsageSource arg,
        ppUsageFacts = cppUsageFacts arg, ppUsageReliable = cppUsageReliable arg, ppCostAmount = cost,
        ppCurrency = cppCurrency arg, ppFormulaVersion = cppFormulaVersion arg,
        ppIdempotencyKey = cppIdempotencyKey arg, ppCreatedAt = now\<rparr> = Inr (r, db')" (is "insert_probe_record db ?row = _")
    using assms unfolding CreateProviderProbeRecord_def by (elim rbind_InrE)
  have r: "r = ?row\<lparr>ppID := pv_next_id db\<rparr>" and ok: "check_probe_record ?row"
    "ppIdempotencyKey ?row \<notin> ppIdempotencyKey ` set (probe_records db)"
    "db' = db\<lparr>probe_records := probe_records db @ [?row\<lparr>ppID := pv_next_id db\<rparr>], pv_next_id := pv_next_id db + 1\<rparr>"
    using ins unfolding insert_probe_record_def by (auto split: if_splits)
  show "probe_added db db' r" using ok by (simp add: probe_added_def r check_probe_record_def)
  show "col10_null (cppCostAmount arg) = Inr (ppCostAmount r)"
    "ppProviderID r = cppProviderID arg" "ppSuccess r = cppSuccess arg" "ppHttpStatus r = cppHttpStatus arg"
    "ppUsageReliable r = cppUsageReliable arg" "ppCurrency r = cppCurrency arg"
    using cost by (simp_all add: r)
qed

lemma CalculateProviderCost_total:
  assumes "CalculateProviderCost f s = Inr c"
  shows "\<exists>n. TotalCostAmount c = num n"
proof -
  have u: "usage_ok f" using assms CalculateProviderCost_bad(1) [of f s] by fastforce
  have s: "snapshot_ok (provider_rs s)" using assms CalculateProviderCost_bad(2) [OF u, of s] by fastforce
  show ?thesis
    using CalculateProviderCost_ok [OF u s] assms by (metis cost_record_def sum.inject(2))
qed

lemma probe_cost_total: "probe_cost pricing p = Some c \<Longrightarrow> \<exists>n. TotalCostAmount c = num n"
  by (auto simp: probe_cost_def split: option.splits if_splits sum.splits dest: CalculateProviderCost_total)

text \<open>The booking of a fresh probe record leaves the record booked, and every other one as it was.\<close>

lemma book_probe_inv:
  assumes added: "probe_added db db1 r" and inv: "provider_inv db"
    and run: "book_probe env db1 (ppID r) pricing p = Inr db2"
    and cost: "col10_null (costAmount (probe_cost pricing p)) = Inr (ppCostAmount r)"
    and fields: "ppProviderID r = prbProviderID p" "ppSuccess r = prbSuccess p" "ppHttpStatus r = prbHTTPStatus p"
      "ppUsageReliable r = (probe_cost pricing p \<noteq> None)"
      "ppCurrency r = textNarg (case pricing of Inl _ \<Rightarrow> '''' | Inr s \<Rightarrow> pcCurrency s)"
  shows "provider_tables_ok db2 \<and> booked db2 r \<and> (\<forall>x \<in> set (probe_records db2). ppID x \<noteq> ppID r \<longrightarrow> booked db2 x) \<and>
    probe_records db2 = probe_records db1 \<and> set (provider_entries db1) \<subseteq> set (provider_entries db2)"
proof -
  have tables: "provider_tables_ok db" and old: "\<forall>x \<in> set (probe_records db). booked db x"
    using inv by (simp_all add: provider_inv_def)
  note fresh = probe_added_tables [OF added tables]
  have old1: "\<forall>x \<in> set (probe_records db). booked db1 x" using old probe_booked [OF added] by simp
  have recs: "probe_records db1 = probe_records db @ [r]" using added by (simp add: probe_added_def)
  let ?cur = "case pricing of Inl _ \<Rightarrow> '''' | Inr s \<Rightarrow> pcCurrency s"
  show ?thesis
  proof (cases "\<exists>c. probe_cost pricing p = Some c \<and> \<not> numericIsZero (TotalCostAmount c)")
    case True
    then obtain c where c: "probe_cost pricing p = Some c" "\<not> numericIsZero (TotalCostAmount c)" by blast
    from c(1) obtain n where n: "TotalCostAmount c = num n" using probe_cost_total by blast
    have amount: "ppCostAmount r = Some n" "n \<noteq> 0"
      using cost c n by (auto simp: costAmount_def col10_null_def numericIsZero_def pl_numericRat_val split: if_splits)
    obtain x where deb: "debitProbeWithQueries env db1 (prbProviderID p) (ppID r) (num n) ?cur
        (''provider:probe:'' @ sprint_int (ppID r)) probe_debit_reason = Inr (x, db2)"
      using run c n by (auto simp: book_probe_def Let_def rbind_Inr_iff)
    from deb show ?thesis
    proof (cases rule: debitProbeWithQueries_cases)
      case (1 e)
      with fresh(2) show ?thesis by (auto simp: probe_debits_def filter_empty_conv)
    next
      case (2 e)
      note post = 2(1)[unfolded pl_posted_def]
      have "probe_debits db2 (ppID r) = [e]" "probe_risks db2 (ppID r) = []"
        using post fresh(2,3) 2(3) by (simp_all add: probe_debits_def probe_risks_def)
      moreover have "plAmount e = n" "plProviderID e = prbProviderID p" "plCurrency e = ?cur"
        using 2(2) by (auto simp: pl_matches_def)
      ultimately have "booked db2 r" using amount c(1) fields by (simp add: booked_def)
      moreover have "booked db2 x" if "x \<in> set (probe_records db2)" "ppID x \<noteq> ppID r" for x
        using that old1 post recs 2(3) posted_booked [OF 2(1), of x] by auto
      ultimately show ?thesis using posted_tables [OF 2(1) fresh(1)] post by auto
    qed
  next
    case nodebit: False
    then have zero: "ppCostAmount r = Some 0" if "probe_cost pricing p = Some c" for c
      using that probe_cost_total [OF that] cost
      by (auto simp: costAmount_def col10_null_def numericIsZero_def pl_numericRat_val split: if_splits)
    have keep: "booked db1 x" if "x \<in> set (probe_records db1)" "ppID x \<noteq> ppID r" for x
      using that old1 recs by auto
    show ?thesis
    proof (cases "probe_cost pricing p = None \<and> (prbSuccess p \<or> prbHTTPStatus p \<ge> 200 \<and> prbHTTPStatus p < 300)")
      case True
      then obtain reason where "RecordProbeCostRiskWithQueries env db1
          \<lparr>pkProviderID = prbProviderID p, pkProviderProbeID = ppID r, pkEstimatedAmount = numeric_null,
           pkCurrency = ?cur, pkReasonCode = ''probe_usage_unreliable'', pkReason = reason\<rparr> = Inr db2"
        using run by (auto simp: book_probe_def Let_def)
      then show ?thesis
      proof (cases rule: probe_risk_cases)
        case (1 k)
        with fresh(3) show ?thesis by (auto simp: probe_risks_def filter_empty_conv)
      next
        case (2 k)
        note risk = 2(1)[unfolded risk_added_def]
        have "probe_risks db2 (ppID r) = [k]" "probe_debits db2 (ppID r) = []"
          using risk fresh(2,3) 2(2) by (simp_all add: probe_debits_def probe_risks_def)
        then have "booked db2 r" using True fields 2(3,4) by (simp add: booked_def)
        moreover have "booked db2 x" if "x \<in> set (probe_records db2)" "ppID x \<noteq> ppID r" for x
          using that keep [of x] risk 2(2) risk_booked [OF 2(1), of x] by auto
        ultimately show ?thesis using risk_added_tables [OF 2(1) fresh(1)] risk by auto
      qed
    next
      case False
      then have "db2 = db1" using run nodebit by (auto simp: book_probe_def Let_def split: if_splits)
      moreover have "booked db1 r"
        using fresh(2,3) False zero fields by (cases "probe_cost pricing p") (auto simp: booked_def)
      ultimately show ?thesis using keep fresh(1) by blast
    qed
  qed
qed

lemma account_probe_inv:
  assumes run: "account_probe env prices now db p = Inr (Some db')" and inv: "provider_inv db"
    and valid: "validateProbe p = Inr ()"
  shows "provider_inv db'" "set (provider_entries db) \<subseteq> set (provider_entries db')"
    "set (probe_records db) \<subseteq> set (probe_records db')"
proof -
  define pricing where "pricing = resolveProbeCost env prices (prbChannelID p) (prbModelID p)
      (if prbStartedAt p = zero_time then now else prbStartedAt p)"
  obtain r db1 where cr: "CreateProviderProbeRecord (clock env) db (probe_record_args pricing p) = Inr (r, db1)"
    and book: "book_probe env db1 (ppID r) pricing p = Inr db'"
    using run unfolding account_probe_def Let_def pricing_def [symmetric]
    by (auto simp: rbind_Inr_iff if_Inl_Inr_iff split: sum.splits)
  note c = CreateProviderProbeRecord_Inr [OF cr]
  have "clampStatus (prbHTTPStatus p) = prbHTTPStatus p"
    using valid by (auto simp: validateProbe_def clampStatus_def split: if_splits)
  then have fields: "col10_null (costAmount (probe_cost pricing p)) = Inr (ppCostAmount r)"
    "ppProviderID r = prbProviderID p" "ppSuccess r = prbSuccess p" "ppHttpStatus r = prbHTTPStatus p"
    "ppUsageReliable r = (probe_cost pricing p \<noteq> None)"
    "ppCurrency r = textNarg (case pricing of Inl _ \<Rightarrow> '''' | Inr s \<Rightarrow> pcCurrency s)"
    using c(2-) by (simp_all add: probe_record_args_def Let_def)
  note b = book_probe_inv [OF c(1) inv book fields]
  have recs: "probe_records db' = probe_records db @ [r]" "provider_entries db1 = provider_entries db"
    using b c(1) by (simp_all add: probe_added_def)
  have "booked db' x" if "x \<in> set (probe_records db')" for x
  proof (cases "ppID x = ppID r")
    case True
    have "distinct (map ppID (probe_records db'))" using b unfolding probes_ok_def by blast
    then have "distinct (map ppID (probe_records db @ [r]))" unfolding recs(1) .
    with True that recs(1) have "x = r" by (auto simp: image_iff)
    with b show ?thesis by simp
  qed (use b that in blast)
  with b show "provider_inv db'" by (simp add: provider_inv_def)
  show "set (provider_entries db) \<subseteq> set (provider_entries db')" using b recs(2) by simp
  show "set (probe_records db) \<subseteq> set (probe_records db')" by (auto simp: recs(1))
qed

subsection \<open>Every step keeps the books\<close>

text \<open>What a step may do: keep the invariant, and never drop or change an entry or a probe record.\<close>

definition good_step :: "provider_db \<Rightarrow> provider_db \<Rightarrow> bool" where
  "good_step db db' \<longleftrightarrow> (provider_inv db \<longrightarrow> provider_inv db' \<and>
     set (provider_entries db) \<subseteq> set (provider_entries db') \<and> set (probe_records db) \<subseteq> set (probe_records db'))"

lemma good_step_refl [simp]: "good_step db db"
  by (simp add: good_step_def)

lemma good_posted: "pl_posted db db' e \<Longrightarrow> plProviderProbeRecordID e = None \<Longrightarrow> good_step db db'"
  using posted_tables [of db db' e] posted_booked [of db db' e]
  by (auto simp: good_step_def provider_inv_def pl_posted_def)

lemma good_risk: "risk_added db db' k \<Longrightarrow> prProviderProbeRecordID k = None \<Longrightarrow> good_step db db'"
  using risk_added_tables [of db db' k] risk_booked [of db db' k]
  by (auto simp: good_step_def provider_inv_def risk_added_def)

lemma good_target:
  assumes "pl_posted db db1 e" "plProviderProbeRecordID e = None" "reconciled now cutoff e db1 db'"
  shows "good_step db db'"
proof -
  have "provider_inv db' \<and> set (provider_entries db) \<subseteq> set (provider_entries db') \<and> set (probe_records db) \<subseteq> set (probe_records db')"
    if inv: "provider_inv db"
  proof -
    have 1: "provider_inv db1" "set (provider_entries db) \<subseteq> set (provider_entries db1)"
      "set (probe_records db) \<subseteq> set (probe_records db1)"
      using good_posted [OF assms(1,2)] inv by (simp_all add: good_step_def)
    have "provider_entries db' = provider_entries db1" "probe_records db' = probe_records db1"
      using assms(3) by (simp_all add: reconciled_def)
    with 1 reconciled_tables [OF assms(3)] reconciled_booked [OF assms(3)] show ?thesis
      by (auto simp: provider_inv_def)
  qed
  then show ?thesis by (simp add: good_step_def)
qed

lemma pl_adjust_cases:
  assumes "pl_adjust env db params t = (r, db')"
  obtains "db' = db"
  | e where "pl_posted db db' e" "plProviderProbeRecordID e = None"
proof (cases "validateAdjustment params")
  case (Inr u)
  with assms obtain body where "in_tx env ''begin provider ledger transaction'' ''commit provider ledger transaction'' db body
      = (r, db')" and body: "body = (if t = EntryTypeAdjustmentCredit
             then pl_creditWithQueries env db t (paProviderID params) (paAmount params)
                    (paAdjustCurrency params) (paAdjustKey params) (paAdjustReason params)
             else pl_debitWithQueries env db t (paProviderID params) (paAmount params)
                    (paAdjustCurrency params) (paAdjustKey params) (paAdjustReason params) None)"
    by (simp add: pl_adjust_def)
  then show ?thesis
  proof (cases rule: in_tx_cases)
    case (2 x)
    then show ?thesis
    proof (cases "t = EntryTypeAdjustmentCredit")
      case True
      with 2 body have "pl_creditWithQueries env db t (paProviderID params) (paAmount params)
                    (paAdjustCurrency params) (paAdjustKey params) (paAdjustReason params) = Inr (x, db')" by simp
      then show ?thesis by (cases rule: pl_creditWithQueries_cases) (use that in blast)+
    next
      case False
      with 2 body have "pl_debitWithQueries env db t (paProviderID params) (paAmount params)
                    (paAdjustCurrency params) (paAdjustKey params) (paAdjustReason params) None = Inr (x, db')" by simp
      then show ?thesis by (cases rule: pl_debitWithQueries_cases) (use that in blast)+
    qed
  qed (use that in blast)
qed (use assms that in \<open>simp add: pl_adjust_def\<close>)

lemma pl_adjust_good:
  assumes "pl_adjust env db params t = (r, db')"
  shows "good_step db db'"
  using assms by (cases rule: pl_adjust_cases) (auto intro: good_posted)

lemma SetTargetBalance_cases:
  assumes "SetTargetBalance env cutoff db p = (r, db')"
  obtains "db' = db" | x where "target_posting env cutoff db p = Inr (x, Some db')"
  using assms
  by (auto simp: SetTargetBalance_def rbind_Inr_iff split: sum.splits option.splits dest!: commit_posted(1))

lemma AccountProbe_cases:
  assumes "AccountProbe env prices now db p = (r, db')"
  obtains "db' = db" | "account_probe env prices now db p = Inr (Some db')" "validateProbe p = Inr ()"
  using assms
  by (auto simp: AccountProbe_def rbind_Inr_iff split: sum.splits option.splits dest!: commit_posted(1))

lemma provider_step_good: "provider_step db db' \<Longrightarrow> good_step db db'"
proof (induction rule: provider_step.induct)
  case (adjust_credit env db adjust r db')
  then show ?case by (simp add: pl_AdjustCredit_def pl_adjust_good)
next
  case (adjust_debit env db adjust r db')
  then show ?case by (simp add: pl_AdjustDebit_def pl_adjust_good)
next
  case (set_target env cutoff db target r db')
  then show ?case
    by (cases rule: SetTargetBalance_cases) (auto elim!: target_posting_cases intro: good_target)
next
  case (usage_in_tx env db usage x db')
  then show ?case
    by (auto simp: DebitUsageWithQueries_def rbind_Inr_iff elim!: pl_debitWithQueries_cases intro: good_posted)
next
  case (request_risk env db risk u db')
  then show ?case by (cases rule: request_risk_auto_cases) (auto intro: good_risk)
next
  case (request_risk_in_tx env db risk db')
  then show ?case by (cases rule: request_risk_cases) (auto intro: good_risk)
next
  case (probe env prices now db p u db')
  then show ?case
    by (cases rule: AccountProbe_cases) (auto simp: good_step_def dest: account_probe_inv)
next
  case (outside db ps cs ms rs attempts ss)
  then show ?case
    by (auto simp: good_step_def provider_inv_def entries_ok_def probes_ok_def risks_ok_def distinct_accounts_def
        account_chain_def provider_account_def booked_def probe_debits_def probe_risks_def)
qed

interpretation provider_books: transition_system provider_step provider_inv
  using provider_step_good by unfold_locales (auto simp: good_step_def)

interpretation provider_facts: fact_log provider_step provider_inv
    "\<lambda>db. Inl ` set (provider_entries db) \<union> Inr ` set (probe_records db)"
  using provider_step_good by unfold_locales (fastforce simp: good_step_def)

lemma empty_provider_inv: "provider_inv empty_provider_db"
  by (simp add: empty_provider_db_def provider_inv_def entries_ok_def probes_ok_def risks_ok_def distinct_accounts_def
      account_chain_def provider_account_def)

lemma provider_reachable_inv: "provider_reachable db \<Longrightarrow> provider_inv db"
  unfolding provider_reachable_def by (rule provider_books.reach_inv [OF _ empty_provider_inv])

end
