(* ===== verification/Provider_Laws.thy ===== *)
theory Provider_Laws
  imports Provider_Machine
begin

text \<open>
  The properties of the provider ledger: its books, the accounting of probes, and the target balance of an admin,
  with a run that shows each applies.
\<close>

subsection \<open>Blank texts\<close>

lemma space_rune_space: "space_rune (CHR '' '' # s) = 1"
  by (cases s; cases "tl s") (auto simp: ascii_space_def)

lemma spaces_trimmed: "dropWhile ((=) CHR '' '') s = '''' \<Longrightarrow> trim_left s = ''''"
proof (induction s)
  case (Cons c s)
  then have "c = CHR '' ''" "dropWhile ((=) CHR '' '') s = ''''" by (auto split: if_splits)
  with Cons.IH show ?case by (simp add: trim_left.simps [of "CHR '' '' # s"] space_rune_space)
qed (simp add: trim_left.simps)

lemma btrim_not_blank: "TrimSpace s \<noteq> '''' \<Longrightarrow> btrim s \<noteq> ''''"
proof
  assume "TrimSpace s \<noteq> ''''" "btrim s = ''''"
  define t where "t = dropWhile ((=) CHR '' '') s"
  have "list_all ((=) CHR '' '') t"
    using \<open>btrim s = ''''\<close> by (simp add: btrim_def t_def list_all_iff dropWhile_eq_Nil_conv)
  moreover have "CHR '' '' \<noteq> hd t" if "t \<noteq> []" using hd_dropWhile [of "(=) CHR '' ''" s] that unfolding t_def by blast
  ultimately have "t = []" unfolding list_all_iff using list.set_sel(1) by blast
  then have "trim_left s = ''''" using spaces_trimmed by (simp add: t_def)
  with \<open>TrimSpace s \<noteq> ''''\<close> show False by (simp add: TrimSpace_def trim_right.simps trailing_space_def)
qed

subsection \<open>The target balance\<close>

lemma healthy_stored [simp]: "healthy env \<Longrightarrow> stored env msg r = (case r of Inl e \<Rightarrow> Inl (store_failed e msg) | Inr x \<Rightarrow> Inr x)"
  by (simp add: stored_def)

text \<open>Parameters that the validation and the constraints accept: a target of \<open>n\<close> units for a provider that exists.\<close>

definition target_ok :: "provider_db \<Rightarrow> TargetParams \<Rightarrow> int \<Rightarrow> bool" where
  "target_ok db p n \<longleftrightarrow> 0 < tpProviderID p \<and> tpProviderID p \<in> set (providers db) \<and> tpTargetBalance p = num n \<and> fits n \<and>
     TrimSpace (tpCurrency p) \<noteq> '''' \<and> TrimSpace (tpIdempotencyKey p) \<noteq> '''' \<and> TrimSpace (tpReason p) \<noteq> '''' \<and>
     fits (n - provider_account db (tpProviderID p, tpCurrency p))"

lemma EnsureProviderBalance_ok:
  assumes "btrim c \<noteq> ''''" "p \<in> set (providers db)"
  obtains db1 r where "EnsureProviderBalance now db p c = Inr db1" "GetProviderBalanceForUpdate db1 p c = Inr r"
    "pbBalance r = provider_account db (p, c)" "same_provider_tables db db1"
proof -
  obtain db1 where ens: "EnsureProviderBalance now db p c = Inr db1"
    using assms that by (cases "find (is_provider_balance p c) (provider_balances db)") (auto simp: EnsureProviderBalance_def)
  have "\<exists>r. GetProviderBalanceForUpdate db1 p c = Inr r"
    using ens by (auto simp: EnsureProviderBalance_def GetProviderBalanceForUpdate_def one_row_def find_append
        is_provider_balance_def split: if_splits option.splits)
  then show ?thesis
    using that [OF ens] EnsureProviderBalance_Inr(1,2) [OF ens] GetProviderBalance_account(1) by metis
qed

lemma provider_lookup:
  "GetProviderLedgerEntryByIdempotencyKey db k = Inl ErrNoRows \<longleftrightarrow> k \<notin> plIdempotencyKey ` set (provider_entries db)"
  "GetProviderLedgerEntryByIdempotencyKey db k = Inr e \<Longrightarrow> e \<in> set (provider_entries db) \<and> plIdempotencyKey e = k"
  by (auto simp: GetProviderLedgerEntryByIdempotencyKey_def one_row_def find_key_None split: option.splits
      dest: find_key_Some)

lemma target_delta:
  assumes "tpTargetBalance p = num n"
  shows "pl_numericRat (tpTargetBalance p) - pl_numericRat (num b) = units (n - b)"
    "pl_ratToNumeric \<bar>units (n - b)\<bar> 10 = num \<bar>n - b\<bar>"
proof -
  show "pl_numericRat (tpTargetBalance p) - pl_numericRat (num b) = units (n - b)"
    by (simp add: assms pl_numericRat_val)
  have "\<bar>units (n - b)\<bar> = units \<bar>n - b\<bar>" unfolding units_def of_int_abs abs_divide by simp
  then have "\<bar>units (n - b)\<bar> * 10 ^ 10 = of_int \<bar>n - b\<bar>" by simp
  then have "round_half_away (\<bar>units (n - b)\<bar> * 10 ^ 10) = \<bar>n - b\<bar>" by (simp only: round_half_away_of_int)
  then show "pl_ratToNumeric \<bar>units (n - b)\<bar> 10 = num \<bar>n - b\<bar>" by (simp add: pl_ratToNumeric_def)
qed

text \<open>The run of a target that is not met yet.\<close>

lemma SetTargetBalance_run:
  assumes "healthy env" "provider_inv db" "target_ok db p n" "tpIdempotencyKey p \<notin> plIdempotencyKey ` set (provider_entries db)"
    and bal: "bal = provider_account db (tpProviderID p, tpCurrency p)" "n \<noteq> bal"
  obtains e db' db3 where "SetTargetBalance env cutoff db p = (Inr (pl_entryFromSQLC e), db')"
    "pl_posted db db3 e" "reconciled (clock env) cutoff e db3 db'" "plProviderID e = tpProviderID p" "plCurrency e = tpCurrency p"
    "plIdempotencyKey e = tpIdempotencyKey p" "plReason e = tpReason p" "plAmount e = \<bar>n - bal\<bar>" "plBalanceAfter e = n"
    "plEntryType e = (if n > bal then EntryTypeAdjustmentCredit else EntryTypeAdjustmentDebit)"
    "plProviderProbeRecordID e = None"
proof -
  note t = assms(3)[unfolded target_ok_def]
  let ?p = "tpProviderID p" and ?c = "tpCurrency p"
  have blank: "btrim ?c \<noteq> ''''" "btrim (tpIdempotencyKey p) \<noteq> ''''" "btrim (tpReason p) \<noteq> ''''"
    using t btrim_not_blank by blast+
  obtain db1 before where ens: "EnsureProviderBalance (clock env) db ?p ?c = Inr db1"
    "GetProviderBalanceForUpdate db1 ?p ?c = Inr before" "pbBalance before = bal" "same_provider_tables db db1"
    using EnsureProviderBalance_ok [OF blank(1), of ?p db "clock env"] t bal(1) by metis
  have fits_bal: "fits bal" using assms(2) bal(1) by (simp add: provider_inv_def entries_ok_def)
  define d where "d = \<bar>n - bal\<bar>"
  have d: "0 < d" "fits d" using bal(2) t bal(1) by (auto simp: d_def fits_def)
  obtain after db2 where put: "put_provider_balance (clock env) db1 before n = (after, db2)" by fastforce
  note put' = put_provider_balance [OF put ens(2)]
  have upd: "(if 0 < units (n - bal) then AddProviderBalance (clock env) db1 (num d) ?p ?c
      else SubtractProviderBalance (clock env) db1 (num d) ?p ?c) = Inr (after, db2)"
    using ens t put bal(2)
    by (auto simp: AddProviderBalance_def SubtractProviderBalance_def d_def fits_bal)
  let ?args = "target_entry_args p (units (n - bal)) before after"
  let ?e = "\<lparr>plID = pv_next_id db2, plProviderID = ?p, plRequestRecordID = None, plRequestAttemptID = None,
      plProviderProbeRecordID = None, plCostSnapshotID = None, plChannelID = None, plRequestID = None,
      plChannelName = None, plUpstreamModel = None,
      plEntryType = (if 0 < units (n - bal) then EntryTypeAdjustmentCredit else EntryTypeAdjustmentDebit),
      plAmount = d, plCurrency = ?c, plBalanceBefore = bal, plBalanceAfter = n,
      plIdempotencyKey = tpIdempotencyKey p, plReason = tpReason p, plCreatedAt = clock env\<rparr>"
  let ?db3 = "db2\<lparr>provider_entries := provider_entries db2 @ [?e], pv_next_id := pv_next_id db2 + 1\<rparr>"
  have tabs: "provider_entries db2 = provider_entries db" "providers db2 = providers db"
    using ens(4) put'(2) by (simp_all add: same_provider_tables_def)
  have "check_provider_entry ?e"
    using blank d bal(2) by (auto simp: check_provider_entry_def d_def)
  then have cr: "CreateProviderLedgerEntry (clock env) db2 ?args = Inr (?e, ?db3)"
    using assms(4) t d fits_bal ens(3) put'(3) target_delta(2) [of p n bal]
    by (simp add: CreateProviderLedgerEntry_def insert_provider_entry_def tabs d_def fk_def pair_opt_def
        check_provider_entry_def)
  obtain k db4 where rec: "ReconcileProviderCostRisks (clock env) ?db3 (plID ?e) ?p ?c cutoff = Inr (k, db4)"
    by (simp add: ReconcileProviderCostRisks_def Let_def)
  have post: "target_posting env cutoff db p = Inr (pl_entryFromSQLC ?e, Some db4)"
  proof -
    obtain \<delta> where \<delta>: "\<delta> = units (n - bal)" by blast
    have delta: "pl_numericRat (tpTargetBalance p) - pl_numericRat (num (pbBalance before)) = \<delta>"
      "pl_ratToNumeric \<bar>\<delta>\<bar> 10 = num d" "\<delta> \<noteq> 0"
      using target_delta [of p n bal] t bal(2) by (simp_all add: \<delta> ens(3) d_def)
    have look: "GetProviderLedgerEntryByIdempotencyKey db (tpIdempotencyKey p) = Inl ErrNoRows"
      using assms(4) by (simp add: provider_lookup(1))
    show ?thesis unfolding \<delta> [symmetric]
      by (simp only: target_posting_def lockIdempotency_def healthy_stored [OF assms(1)] healthy_calls(1) [OF assms(1)]
          look ens(1,2) rbind_simps sum.case prod.case Let_def delta upd [folded \<delta>] cr [folded \<delta>, unfolded delta(2)]
          rec [folded \<delta>] simp_thms if_False if_True)
  qed
  have valid: "validateTarget p = Inr ()" using t by (simp add: validateTarget_def not_le)
  have run: "SetTargetBalance env cutoff db p = (Inr (pl_entryFromSQLC ?e), db4)"
    by (simp only: SetTargetBalance_def valid rbind_simps healthy_calls(2,3) [OF assms(1)] post sum.case prod.case option.case)
  have posted: "pl_posted db ?db3 ?e"
  proof (rule posting [OF ens(1,2) _ cr])
    show "moves (clock env) db1 (num d) ?p ?c after db2"
      using upd by (cases "0 < units (n - bal)") (simp_all only: moves_def if_True if_False simp_thms)
  qed simp_all
  have "reconciled (clock env) cutoff ?e ?db3 db4"
    using rec by (auto simp: reconciled_def ReconcileProviderCostRisks_def Let_def split: if_splits)
  with run posted show ?thesis by (intro that [of ?e db4 ?db3]) (simp_all add: d_def)
qed

lemma entry_lookup:
  assumes "provider_inv db" "e \<in> set (provider_entries db)"
  shows "GetProviderLedgerEntryByIdempotencyKey db (plIdempotencyKey e) = Inr e"
proof -
  have "distinct (map plIdempotencyKey (provider_entries db))" using assms(1) by (simp add: provider_inv_def entries_ok_def)
  then have "find (\<lambda>r. plIdempotencyKey r = plIdempotencyKey e) (provider_entries db) = Some e"
    using assms(2) by (intro find_distinct) simp_all
  then show ?thesis by (simp add: GetProviderLedgerEntryByIdempotencyKey_def one_row_def)
qed

lemma SetTargetBalance_replay:
  assumes "healthy env" "provider_inv db" "target_ok db0 p n" "e \<in> set (provider_entries db)"
    and "plProviderID e = tpProviderID p" "plCurrency e = tpCurrency p" "plIdempotencyKey e = tpIdempotencyKey p"
    and "plReason e = tpReason p" "plBalanceAfter e = n"
  shows "SetTargetBalance env cutoff db p = (Inr (pl_entryFromSQLC e), db)"
proof -
  note t = assms(3)[unfolded target_ok_def]
  have valid: "validateTarget p = Inr ()" using t by (simp add: validateTarget_def not_le)
  have look: "GetProviderLedgerEntryByIdempotencyKey db (tpIdempotencyKey p) = Inr e"
    using entry_lookup [OF assms(2,4)] assms(7) by simp
  have "target_posting env cutoff db p = Inr (pl_entryFromSQLC e, None)"
    using assms(5,6,8,9) t
    by (simp add: target_posting_def lockIdempotency_def healthy_stored [OF assms(1)] healthy_calls(1) [OF assms(1)] look
        pl_sameNumeric_def)
  then show ?thesis
    by (simp only: SetTargetBalance_def valid rbind_simps healthy_calls(2) [OF assms(1)] sum.case prod.case option.case)
qed

subsection \<open>Risks without a currency\<close>

abbreviation unpriced :: "provider_db \<Rightarrow> ProviderCostRisk set" where
  "unpriced db \<equiv> {k \<in> set (cost_risks db). prCurrency k = None}"

lemma posted_unpriced: "pl_posted db db' e \<Longrightarrow> unpriced db' = unpriced db"
  by (simp add: pl_posted_def)

lemma risk_unpriced: "risk_added db db' k \<Longrightarrow> unpriced db \<subseteq> unpriced db'"
  by (auto simp: risk_added_def)

lemma reconciled_unpriced:
  assumes "reconciled now cutoff e db db'"
  shows "unpriced db \<subseteq> unpriced db'"
proof
  fix k assume k: "k \<in> unpriced db"
  then have "\<not> open_risk (plProviderID e) (plCurrency e) cutoff k" by (simp add: open_risk_def)
  with k assms show "k \<in> unpriced db'" by (force simp: reconciled_def image_iff)
qed

lemma book_probe_unpriced:
  assumes "book_probe env db probe pricing p = Inr db'"
  shows "unpriced db \<subseteq> unpriced db'"
proof -
  consider "db' = db"
    | x cur n key reason where "debitProbeWithQueries env db (prbProviderID p) probe n cur key reason = Inr (x, db')"
    | a where "RecordProbeCostRiskWithQueries env db a = Inr db'"
  proof (cases "probe_cost pricing p \<noteq> None \<and> \<not> numericIsZero (TotalCostAmount (the (probe_cost pricing p)))")
    case True
    with assms show ?thesis
      unfolding book_probe_def Let_def if_P [OF True] by (elim rbind_InrE) (auto intro: that(2))
  next
    case nodebit: False
    show ?thesis
    proof (cases "(prbSuccess p \<or> prbHTTPStatus p \<ge> 200 \<and> prbHTTPStatus p < 300) \<and> probe_cost pricing p = None")
      case True
      with assms show ?thesis unfolding book_probe_def Let_def if_not_P [OF nodebit] if_P [OF True] by (intro that(3))
    next
      case False
      with assms show ?thesis unfolding book_probe_def Let_def if_not_P [OF nodebit] if_not_P [OF False] by (simp add: that(1))
    qed
  qed
  then show ?thesis
  proof cases
    case 2
    then show ?thesis by (cases rule: debitProbeWithQueries_cases) (simp_all add: posted_unpriced)
  next
    case 3
    then show ?thesis by (cases rule: probe_risk_cases) (auto dest: risk_unpriced)
  qed simp
qed

lemma provider_step_unpriced: "provider_step db db' \<Longrightarrow> unpriced db \<subseteq> unpriced db'"
proof (induction rule: provider_step.induct)
  case (set_target env cutoff db target r db')
  then show ?case
  proof (cases rule: SetTargetBalance_cases)
    case (2 x)
    then show ?thesis
      by (cases rule: target_posting_cases) (use posted_unpriced reconciled_unpriced in blast)
  qed simp
next
  case (usage_in_tx env db usage x db')
  then show ?case
    by (auto simp: DebitUsageWithQueries_def rbind_Inr_iff elim!: pl_debitWithQueries_cases dest: posted_unpriced)
next
  case (request_risk env db risk u db')
  then show ?case by (cases rule: request_risk_auto_cases) (auto dest: risk_unpriced)
next
  case (request_risk_in_tx env db risk db')
  then show ?case by (cases rule: request_risk_cases) (auto dest: risk_unpriced)
next
  case (probe env prices now db p u db')
  then show ?case
  proof (cases rule: AccountProbe_cases)
    case 2
    then obtain r db1 pricing args where "CreateProviderProbeRecord (clock env) db args = Inr (r, db1)"
      and book: "book_probe env db1 (ppID r) pricing p = Inr db'"
      unfolding account_probe_def Let_def by (auto simp: rbind_Inr_iff if_Inl_Inr_iff split: sum.splits)
    then have "unpriced db1 = unpriced db" by (auto dest!: CreateProviderProbeRecord_Inr(1) simp: probe_added_def)
    then show ?thesis using book_probe_unpriced [OF book] by simp
  qed simp
qed (auto simp: pl_AdjustCredit_def pl_AdjustDebit_def elim!: pl_adjust_cases dest: posted_unpriced)

interpretation provider_unpriced: fact_log provider_step provider_inv unpriced
  using provider_step_good provider_step_unpriced by unfold_locales (auto simp: good_step_def)

subsection \<open>The properties\<close>

text \<open>
  C21: In every state the provider ledger can reach, by any sequence of its operations with any parameters, clocks,
  store failures and commit outcomes, the books balance: the entries of each provider and currency form a chain that
  starts at zero, in which each entry starts from the balance the one before it left, and ends in the stored balance;
  the balance is the sum of the signed amounts; no idempotency key and no cost snapshot is posted twice; and every
  reconciled risk points at an entry of its own provider and currency.
\<close>

theorem provider_books_balance:
  assumes "provider_reachable db"
  shows "chained 0 (account_chain db k) (provider_account db k) \<and>
     provider_account db k = (\<Sum>e\<leftarrow>account_chain db k. signed_provider e) \<and>
     distinct (map plIdempotencyKey (provider_entries db)) \<and> distinct (refs plCostSnapshotID (provider_entries db)) \<and>
     (\<forall>r \<in> set (cost_risks db). \<forall>i. prReconciliationLedgerEntryID r = Some i \<longrightarrow>
        (\<exists>e \<in> set (provider_entries db). plID e = i \<and> plProviderID e = prProviderID r \<and> prCurrency r = Some (plCurrency e)))"
proof -
  note inv = provider_reachable_inv [OF assms, unfolded provider_inv_def entries_ok_def risks_ok_def]
  have chain: "chained 0 (account_chain db k) (provider_account db k)" using inv by blast
  have "\<forall>e \<in> set (account_chain db k). check_provider_entry e" using inv by (simp add: account_chain_def)
  with chain have "provider_account db k = 0 + (\<Sum>e\<leftarrow>account_chain db k. signed_provider e)" by (rule chained_sum)
  with chain inv show ?thesis by simp
qed

text \<open>
  C22: A probe is booked exactly once. A probe record of a reachable state stays in the ledger unchanged whatever
  happens afterwards, and the bookings that refer to it are always exactly these: one debit of its provider for the
  recorded cost, when the usage was reliable and the cost is not zero; one cost risk and no debit, when the usage was
  not reliable and the upstream may have charged (the probe succeeded or answered 2xx); nothing otherwise.
\<close>

theorem probe_booked_once:
  assumes "provider_reachable db" "r \<in> set (probe_records db)" "provider_step\<^sup>*\<^sup>* db db'"
  shows "r \<in> set (probe_records db') \<and> booked db' r"
proof -
  note inv = provider_reachable_inv [OF assms(1)]
  have "r \<in> set (probe_records db')" using provider_facts.fact_kept [OF assms(3) inv, of "Inr r"] assms(2) by auto
  then show ?thesis using provider_books.reach_inv [OF assms(3) inv] by (simp add: provider_inv_def)
qed

text \<open>
  An admin's target balance is reached, once. With valid parameters, a fresh idempotency key and a target that
  differs from the balance, \<open>SetTargetBalance\<close> posts one adjustment of exactly the difference (a credit up, a debit
  down), leaves the account at the target and every other account as it was, and closes exactly the open risks of the
  account recorded up to the cutoff. The same call at any later time, after any other operations and whatever the
  balance is by then, answers the same entry and changes nothing.
\<close>

theorem target_balance_reached:
  assumes "provider_reachable db" "healthy env" "target_ok db p n"
    and "tpIdempotencyKey p \<notin> plIdempotencyKey ` set (provider_entries db)"
    and "n \<noteq> provider_account db (tpProviderID p, tpCurrency p)"
  shows "\<exists>e db'. SetTargetBalance env cutoff db p = (Inr (pl_entryFromSQLC e), db') \<and>
     provider_account db' = (provider_account db)((tpProviderID p, tpCurrency p) := n) \<and>
     provider_entries db' = provider_entries db @ [e] \<and>
     signed_provider e = n - provider_account db (tpProviderID p, tpCurrency p) \<and>
     cost_risks db' = map (\<lambda>r. if open_risk (tpProviderID p) (tpCurrency p) cutoff r
        then r\<lparr>prStatus := ''reconciled'', prReconciliationLedgerEntryID := Some (plID e), prReconciledAt := Some (clock env)\<rparr>
        else r) (cost_risks db) \<and>
     (\<forall>env' cutoff' db''. healthy env' \<longrightarrow> provider_step\<^sup>*\<^sup>* db' db'' \<longrightarrow>
        SetTargetBalance env' cutoff' db'' p = (Inr (pl_entryFromSQLC e), db''))"
proof -
  note inv = provider_reachable_inv [OF assms(1)]
  obtain e db' db3 where run: "SetTargetBalance env cutoff db p = (Inr (pl_entryFromSQLC e), db')"
    and post: "pl_posted db db3 e" and rec: "reconciled (clock env) cutoff e db3 db'"
    and e: "plProviderID e = tpProviderID p" "plCurrency e = tpCurrency p" "plIdempotencyKey e = tpIdempotencyKey p"
      "plReason e = tpReason p" "plBalanceAfter e = n"
    by (rule SetTargetBalance_run [OF assms(2) inv assms(3,4) refl assms(5), of cutoff])
  note p = post[unfolded pl_posted_def] and r = rec[unfolded reconciled_def]
  have step: "provider_step db db'" by (rule provider_step.set_target [OF run])
  have signed: "signed_provider e = n - provider_account db (tpProviderID p, tpCurrency p)"
    using p e check_signed [of e] by simp
  have replay: "SetTargetBalance env' cutoff' db'' p = (Inr (pl_entryFromSQLC e), db'')"
    if "healthy env'" "provider_step\<^sup>*\<^sup>* db' db''" for env' cutoff' db''
  proof -
    have later: "provider_step\<^sup>*\<^sup>* db db''" using step that(2) by simp
    have inv': "provider_inv db'" using provider_books.step_inv [OF step inv] .
    have "e \<in> set (provider_entries db'')" using provider_facts.fact_kept [OF that(2) inv', of "Inl e"] r by auto
    then show ?thesis
      using SetTargetBalance_replay [OF that(1) provider_books.reach_inv [OF later inv] assms(3)] e by blast
  qed
  have "provider_account db' = (provider_account db)((tpProviderID p, tpCurrency p) := n)"
    "provider_entries db' = provider_entries db @ [e]"
    "cost_risks db' = map (\<lambda>r. if open_risk (tpProviderID p) (tpCurrency p) cutoff r
        then r\<lparr>prStatus := ''reconciled'', prReconciliationLedgerEntryID := Some (plID e), prReconciledAt := Some (clock env)\<rparr>
        else r) (cost_risks db)"
    using p r e by simp_all
  with run signed replay show ?thesis by blast
qed

text \<open>
  C23: A risk without a currency is never closed. Once a cost risk is recorded with no currency (a request risk whose
  price is not known, or a probe whose price lookup failed), no operation of the ledger changes it any more: it stays
  open whatever target balances the admin sets, since the reconciliation compares the currency of the risk with the
  currency of the account.
\<close>

theorem unpriced_risk_never_closes:
  assumes "provider_reachable db" "k \<in> set (cost_risks db)" "prCurrency k = None" "provider_step\<^sup>*\<^sup>* db db'"
  shows "k \<in> set (cost_risks db') \<and> prStatus k = ''unresolved''"
proof -
  note inv = provider_reachable_inv [OF assms(1)]
  have "check_cost_risk k" "prReconciliationLedgerEntryID k = None"
    using inv assms(2,3) by (force simp: provider_inv_def risks_ok_def)+
  then have "prStatus k = ''unresolved''" by (simp add: check_cost_risk_def)
  with provider_unpriced.fact_kept [OF assms(4) inv, of k] assms(2,3) show ?thesis by simp
qed

subsection \<open>A run\<close>

definition steady :: env where
  "steady = \<lparr>fault = \<lambda>_. False, commit_outcome = CommitOk, clock = 50\<rparr>"

definition one_price :: price_db where
  "one_price = empty_prices\<lparr>channel_prices := [\<lparr>cprID = 1, cprChannelID = 1, cprModelID = 1, cprCurrency = ''USD'',
     cprPricingUnit = ''per_1m_tokens'', cprUncachedInputCost = Some 20000000000, cprCacheReadInputCost = None,
     cprCacheWrite5mInputCost = None, cprCacheWrite1hInputCost = None, cprOutputCost = Some 80000000000,
     cprReasoningOutputCost = None, cprStatus = ''enabled'', cprEffectiveFrom = 0, cprEffectiveTo = None,
     cprCreatedAt = 0, cprUpdatedAt = 0, cprCacheWrite30mInputCost = None\<rparr>]\<rparr>"

definition one_million :: ResponseFacts where
  "one_million = \<lparr>rfUpstreamProtocol = ''openai'', rfUpstreamResponseID = ''r'', rfUpstreamModel = ''m'',
     rfFinish = \<lparr>ffClass = ''stop'', ffRawReason = ''stop''\<rparr>,
     rfUsage = \<lparr>UncachedInputTokens = KnownTokens 1000000, CacheReadInputTokens = NotApplicableTokens,
       CacheWrite5mInputTokens = NotApplicableTokens, CacheWrite1hInputTokens = NotApplicableTokens,
       CacheWrite30mInputTokens = NotApplicableTokens, OutputTokensTotal = KnownTokens 0,
       ReasoningOutputTokens = NotApplicableTokens, ServerToolUsage = []\<rparr>,
     rfUsageSource = SourceUpstreamResponse, rfUsageMappingVersion = ''v1'',
     rfMetadata = \<lparr>umStatusCode = 200, umRequestID = ''u'', umRetryAfter = 0\<rparr>\<rparr>"

definition some_probe :: "string \<Rightarrow> ResponseFacts option \<Rightarrow> ProbeParams" where
  "some_probe key facts = \<lparr>prbProviderID = 1, prbChannelID = 1, prbModelID = 1, prbProtocol = ''openai'',
     prbSource = ''manual'', prbUpstreamModel = ''m'', prbSuccess = True, prbHTTPStatus = 200, prbErrorCode = '''',
     prbMessage = '''', prbLatencyMs = 12, prbStartedAt = 40, prbFacts = facts, prbIdempotencyKey = key\<rparr>"

definition some_target :: TargetParams where
  "some_target = \<lparr>tpProviderID = 1, tpTargetBalance = num 50000000000, tpCurrency = ''USD'', tpIdempotencyKey = ''t1'',
     tpReason = ''count''\<rparr>"

definition pd0 :: provider_db where
  "pd0 = empty_provider_db\<lparr>providers := [1], pv_channels := [1], pv_models := [1]\<rparr>"

definition blank_record :: "int \<Rightarrow> string \<Rightarrow> ResponseFacts ProviderProbeRecord" where
  "blank_record i key = \<lparr>ppID = i, ppProviderID = 1, ppChannelID = 1, ppModelID = Some 1, ppProtocol = ''openai'',
     ppSource = ''manual'', ppUpstreamModel = ''m'', ppSuccess = True, ppHttpStatus = 200, ppErrorCode = None,
     ppMessage = None, ppLatencyMs = Some 12, ppUsageSource = None, ppUsageFacts = None, ppUsageReliable = False,
     ppCostAmount = None, ppCurrency = None, ppFormulaVersion = None, ppIdempotencyKey = key, ppCreatedAt = 50\<rparr>"

definition priced_record :: "ResponseFacts ProviderProbeRecord" where
  "priced_record = (blank_record 3 ''p2'')\<lparr>ppUsageSource := Some SourceUpstreamResponse, ppUsageFacts := Some one_million,
     ppUsageReliable := True, ppCostAmount := Some 20000000000, ppCurrency := Some ''USD'',
     ppFormulaVersion := Some ''token_v1''\<rparr>"

definition open_cost :: ProviderCostRisk where
  "open_cost = \<lparr>prID = 2, prProviderID = 1, prRequestRecordID = None, prRequestAttemptID = None,
     prProviderProbeRecordID = Some 1, prSourceType = RiskSourceProbe, prEstimatedAmount = None, prCurrency = None,
     prReasonCode = ''probe_usage_unreliable'', prReason = probe_no_usage_reason, prStatus = ''unresolved'',
     prReconciliationLedgerEntryID = None, prCreatedAt = 50, prReconciledAt = None\<rparr>"

definition account_row :: "int \<Rightarrow> ProviderBalance" where
  "account_row n = \<lparr>pbID = 4, pbProviderID = 1, pbCurrency = ''USD'', pbBalance = n, pbCreatedAt = 50, pbUpdatedAt = 50\<rparr>"

definition probe_entry :: ProviderLedgerEntry where
  "probe_entry = \<lparr>plID = 5, plProviderID = 1, plRequestRecordID = None, plRequestAttemptID = None,
     plProviderProbeRecordID = Some 3, plCostSnapshotID = None, plChannelID = None, plRequestID = None,
     plChannelName = None, plUpstreamModel = None, plEntryType = EntryTypeProbeDebit, plAmount = 20000000000,
     plCurrency = ''USD'', plBalanceBefore = 0, plBalanceAfter = - 20000000000, plIdempotencyKey = ''provider:probe:3'',
     plReason = probe_debit_reason, plCreatedAt = 50\<rparr>"

definition pd1 :: provider_db where
  "pd1 = pd0\<lparr>probe_records := [blank_record 1 ''p1''], cost_risks := [open_cost], pv_next_id := 3\<rparr>"

definition pd2 :: provider_db where
  "pd2 = pd1\<lparr>provider_balances := [account_row (- 20000000000)], provider_entries := [probe_entry],
     probe_records := [blank_record 1 ''p1'', priced_record], pv_next_id := 6\<rparr>"

definition pd3 :: provider_db where "pd3 = snd (SetTargetBalance steady 60 pd2 some_target)"

lemma pd_calls:
  "AccountProbe steady empty_prices 45 pd0 (some_probe ''p1'' None) = (Inr (), pd1)"
  "AccountProbe steady one_price 45 pd1 (some_probe ''p2'' (Some one_million)) = (Inr (), pd2)"
  by code_simp+

lemma pd_steps: "provider_step empty_provider_db pd0" "provider_step pd0 pd1" "provider_step pd1 pd2" "provider_step pd2 pd3"
proof -
  show "provider_step empty_provider_db pd0"
    using provider_step.outside [where db = empty_provider_db and ps = "[1]" and cs = "[1]" and ms = "[1]" and rs = "[]" and
        attempts = "[]" and ss = "[]"]
    by (simp add: pd0_def empty_provider_db_def)
  show "provider_step pd0 pd1" "provider_step pd1 pd2"
    by (rule provider_step.probe, rule pd_calls(1)) (rule provider_step.probe, rule pd_calls(2))
  show "provider_step pd2 pd3" unfolding pd3_def by (rule provider_step.set_target [OF surjective_pairing])
qed

lemma pd_reachable: "provider_reachable pd1" "provider_reachable pd2" "provider_step\<^sup>*\<^sup>* pd1 pd3" "provider_step\<^sup>*\<^sup>* pd2 pd3"
  unfolding provider_reachable_def using pd_steps by (meson rtranclp.rtrancl_into_rtrancl rtranclp.rtrancl_refl)+

lemmas pd_defs = pd0_def pd1_def pd2_def empty_provider_db_def

theorem provider_books_balance_witness:
  "provider_account pd2 (1, ''USD'') = - 20000000000 \<and> account_chain pd2 (1, ''USD'') = [probe_entry] \<and>
   provider_account pd2 (1, ''USD'') = (\<Sum>e\<leftarrow>account_chain pd2 (1, ''USD''). signed_provider e)"
  using provider_books_balance [OF pd_reachable(2), of "(1, ''USD'')"]
  by (simp add: provider_account_def account_chain_def account_row_def probe_entry_def pd2_def)

theorem probe_booked_once_witness:
  "booked pd3 priced_record \<and> booked pd3 (blank_record 1 ''p1'') \<and>
   (ppUsageReliable priced_record \<and> ppCostAmount priced_record = Some 20000000000)"
  using probe_booked_once [OF pd_reachable(2) _ pd_reachable(4), of priced_record]
    probe_booked_once [OF pd_reachable(2) _ pd_reachable(4), of "blank_record 1 ''p1''"]
  by (simp add: pd2_def priced_record_def)

theorem target_balance_reached_witness:
  "provider_account pd3 (1, ''USD'') = 50000000000 \<and> snd (SetTargetBalance steady 99 pd3 some_target) = pd3"
proof -
  have ok: "target_ok pd2 some_target 50000000000" "healthy steady"
    "tpIdempotencyKey some_target \<notin> plIdempotencyKey ` set (provider_entries pd2)"
    "50000000000 \<noteq> provider_account pd2 (tpProviderID some_target, tpCurrency some_target)"
    by (code_simp, simp add: steady_def healthy_def, code_simp, code_simp)
  from target_balance_reached [OF pd_reachable(2) ok(2,1,3,4), of 60] obtain e db' where
    run: "SetTargetBalance steady 60 pd2 some_target = (Inr (pl_entryFromSQLC e), db')"
      "provider_account db' = (provider_account pd2)((tpProviderID some_target, tpCurrency some_target) := 50000000000)"
    and replay: "\<And>env' cutoff' db''. healthy env' \<Longrightarrow> provider_step\<^sup>*\<^sup>* db' db'' \<Longrightarrow>
        SetTargetBalance env' cutoff' db'' some_target = (Inr (pl_entryFromSQLC e), db'')" by blast
  have "db' = pd3" by (simp add: pd3_def run(1))
  with run(2) replay [OF ok(2), of pd3 99] show ?thesis by (simp add: some_target_def)
qed

theorem unpriced_risk_never_closes_witness:
  "open_cost \<in> set (cost_risks pd3) \<and> prStatus open_cost = ''unresolved''"
  using unpriced_risk_never_closes [OF pd_reachable(1) _ _ pd_reachable(3), of open_cost]
  by (simp add: pd1_def open_cost_def)

end
