(* ===== verification/Request_Store.thy ===== *)
theory Request_Store
  imports Provider_Store
begin

text \<open>
  The tables of \<open>src/migrations\<close> 4, 10 and 11 (\<open>api_keys\<close>, \<open>request_records\<close>, \<open>request_attempts\<close>) and the
  statements of \<open>internal/platform/store/sqlc/request_records.sql.go\<close>, \<open>request_attempts.sql.go\<close> and \<open>api_keys.sql.go\<close>
  on them, with the conventions of \<open>Sql_Store\<close>. The record is extensible: the settlement adds its tables to it.

  \<^item> A transition is one UPDATE with the admitted states in its WHERE, and a fallback SELECT that returns the row when
    it is already there. The two read different row versions when another transaction holds the row: the UPDATE waits
    and sees the row as it is in the end, the SELECT the row as it was when the statement began (\<open>seen\<close>).
  \<^item> The generated column \<open>fault_party\<close> is the function \<open>fault_party\<close> of the row.
\<close>

text \<open>The value of Go's \<open>int32(x)\<close>.\<close>

definition wrap32 :: "int \<Rightarrow> int" where
  "wrap32 x = (x + 2 ^ 31) mod 2 ^ 32 - 2 ^ 31"

subsection \<open>Rows (models.go)\<close>

record ApiKey =
  akID :: int
  akName :: string
  akKeyPrefix :: string
  akKeyHash :: string
  akKeyPlaintext :: "string option"
  akLastUsedAt :: "int option"
  akExpiresAt :: "int option"
  akDisabledAt :: "int option"
  akRevokedAt :: "int option"
  akCreatedAt :: int
  akUpdatedAt :: int
  akSpendLimit :: "int option"
  akSpentTotal :: int
  akRouteID :: int
  akUserID :: int

record RequestRecord =
  rrID :: int
  rrRequestID :: string
  rrUserID :: int
  rrApiKeyID :: int
  rrRequestedModelID :: string
  rrIngressProtocol :: string
  rrEndpoint :: string
  rrResponseModelID :: "string option"
  rrResponseProtocol :: "string option"
  rrResponseID :: "string option"
  rrStream :: bool
  rrStatus :: string
  rrFinalProviderID :: "int option"
  rrFinalChannelID :: "int option"
  rrErrorCode :: "string option"
  rrErrorMessage :: "string option"
  rrInternalErrorDetail :: "string option"
  rrDeliveryStatus :: string
  rrGatewayFirstTokenAt :: "int option"
  rrResponseCompletedAt :: "int option"
  rrStartedAt :: int
  rrCompletedAt :: "int option"
  rrCreatedAt :: int
  rrUpdatedAt :: int
  rrRouteID :: "int option"
  rrReasoningEffort :: "string option"
  rrReasoningBudgetTokens :: "int option"
  rrClientIp :: "string option"

record RequestAttempt =
  raID :: int
  raRequestRecordID :: int
  raAttemptIndex :: int
  raProviderID :: int
  raChannelID :: int
  raAdapterKey :: string
  raUpstreamModel :: string
  raUpstreamProtocol :: string
  raUpstreamResponseID :: "string option"
  raUpstreamResponseModel :: "string option"
  raUpstreamFinishReason :: "string option"
  raFinishClass :: "string option"
  raStatus :: string
  raUpstreamStatusCode :: "int option"
  raUpstreamRequestID :: "string option"
  raErrorCode :: "string option"
  raErrorMessage :: "string option"
  raInternalErrorDetail :: "string option"
  raUpstreamTimeoutPhase :: "string option"
  raGatewayFirstTokenAt :: "int option"
  raFinalUsageReceived :: bool
  raUsageMappingVersion :: "string option"
  raStartedAt :: int
  raCompletedAt :: "int option"
  raCreatedAt :: int
  raUpstreamStartedAt :: "int option"
  raUpstreamFirstTokenAt :: "int option"
  raUpstreamCompletedAt :: "int option"
  raProviderOriginRevision :: int
  raProviderStatusRevision :: int
  raChannelConfigRevision :: int
  raRoutingCandidateIndex :: int
  raUpstreamEndpoint :: string
  raBreakerProviderDisposition :: "string option"
  raBreakerChannelDisposition :: "string option"
  raTtftScoringSample :: bool
  raErrorScoringSample :: bool
  raErrorScoringFailure :: bool
  raPermitID :: "string option"

record request_db =
  rq_users :: "int list"
  rq_providers :: "int list"
  rq_channels :: "int list"
  api_keys :: "ApiKey list"
  request_records :: "RequestRecord list"
  request_attempts :: "RequestAttempt list"
  request_record_seq :: int
  request_attempt_seq :: int

subsection \<open>Status values (requestlog/service.go)\<close>

abbreviation RequestStatusPending :: string where "RequestStatusPending \<equiv> ''pending''"
abbreviation RequestStatusRunning :: string where "RequestStatusRunning \<equiv> ''running''"
abbreviation RequestStatusSucceeded :: string where "RequestStatusSucceeded \<equiv> ''succeeded''"
abbreviation RequestStatusFailed :: string where "RequestStatusFailed \<equiv> ''failed''"
abbreviation RequestStatusCanceled :: string where "RequestStatusCanceled \<equiv> ''canceled''"
abbreviation DeliveryStatusNotStarted :: string where "DeliveryStatusNotStarted \<equiv> ''not_started''"
abbreviation DeliveryStatusInProgress :: string where "DeliveryStatusInProgress \<equiv> ''in_progress''"
abbreviation DeliveryStatusCompleted :: string where "DeliveryStatusCompleted \<equiv> ''completed''"
abbreviation DeliveryStatusInterrupted :: string where "DeliveryStatusInterrupted \<equiv> ''interrupted''"
abbreviation AttemptStatusRunning :: string where "AttemptStatusRunning \<equiv> ''running''"
abbreviation AttemptStatusSucceeded :: string where "AttemptStatusSucceeded \<equiv> ''succeeded''"
abbreviation AttemptStatusFailed :: string where "AttemptStatusFailed \<equiv> ''failed''"
abbreviation AttemptStatusCanceled :: string where "AttemptStatusCanceled \<equiv> ''canceled''"

subsection \<open>CHECK constraints\<close>

definition null_or :: "('a \<Rightarrow> bool) \<Rightarrow> 'a option \<Rightarrow> bool" where
  "null_or P v = (case v of None \<Rightarrow> True | Some x \<Rightarrow> P x)"

abbreviation protocols :: "string list" where "protocols \<equiv> [''openai'', ''anthropic'']"

definition check_request_record :: "RequestRecord \<Rightarrow> bool" where
  "check_request_record r \<longleftrightarrow>
     ((rrDeliveryStatus r = DeliveryStatusCompleted \<and> rrResponseCompletedAt r \<noteq> None) \<or>
      (rrDeliveryStatus r \<noteq> DeliveryStatusCompleted \<and> rrResponseCompletedAt r = None)) \<and>
     ((rrIngressProtocol r = ''openai'' \<and> rrEndpoint r \<in> set [''chat_completions'', ''responses'']) \<or>
      (rrIngressProtocol r = ''anthropic'' \<and> rrEndpoint r = ''messages'')) \<and>
     rrDeliveryStatus r \<in> set [''not_started'', ''in_progress'', ''completed'', ''interrupted''] \<and>
     null_or (\<lambda>n. 0 \<le> n) (rrReasoningBudgetTokens r) \<and> null_or (\<lambda>s. s \<noteq> '''') (rrResponseID r) \<and>
     null_or (\<lambda>s. s \<in> set protocols) (rrResponseProtocol r) \<and>
     rrStatus r \<in> set [''pending'', ''running'', ''succeeded'', ''failed'', ''canceled'']"

definition finish_classes :: "string list" where
  "finish_classes = [''stop'', ''length'', ''tool_use'', ''content_filter'', ''refusal'', ''pause'', ''other'']"

definition breaker_dispositions :: "string list" where
  "breaker_dispositions = [''applied'', ''stale_revision'', ''stale_status_revision'', ''stale_config_revision'',
     ''stale_generation'', ''runtime_state_lost'', ''stale_integrity_epoch'', ''runtime_sync_required'', ''expired'',
     ''unknown_permit'', ''terminal_conflict'', ''result_unknown'', ''not_applicable'']"

definition not_after :: "int option \<Rightarrow> int option \<Rightarrow> bool" where
  "not_after a b = (case (a, b) of (Some x, Some y) \<Rightarrow> x \<le> y | _ \<Rightarrow> True)"

definition check_request_attempt :: "RequestAttempt \<Rightarrow> bool" where
  "check_request_attempt r \<longleftrightarrow>
     0 \<le> raAttemptIndex r \<and> null_or (\<lambda>c. c \<in> set finish_classes) (raFinishClass r) \<and>
     raStatus r \<in> set [''running'', ''succeeded'', ''failed'', ''canceled''] \<and> raUpstreamProtocol r \<in> set protocols \<and>
     null_or (\<lambda>s. s \<noteq> '''') (raUpstreamResponseID r) \<and> null_or (\<lambda>n. 100 \<le> n \<and> n \<le> 599) (raUpstreamStatusCode r) \<and>
     null_or (\<lambda>s. s \<noteq> '''') (raUsageMappingVersion r) \<and>
     null_or (\<lambda>s. s \<in> set [''response_header'', ''first_token'', ''stream_idle'', ''response_body'']) (raUpstreamTimeoutPhase r) \<and>
     (raErrorScoringFailure r \<longrightarrow> raErrorScoringSample r) \<and> null_or (\<lambda>s. btrim s \<noteq> '''') (raPermitID r) \<and>
     (raUpstreamFirstTokenAt r = None \<or>
      (raUpstreamStartedAt r \<noteq> None \<and> not_after (raUpstreamStartedAt r) (raUpstreamFirstTokenAt r))) \<and>
     (raUpstreamCompletedAt r = None \<or>
      (raUpstreamStartedAt r \<noteq> None \<and> not_after (raUpstreamStartedAt r) (raUpstreamCompletedAt r))) \<and>
     not_after (raUpstreamFirstTokenAt r) (raUpstreamCompletedAt r) \<and>
     1 \<le> raProviderOriginRevision r \<and> 1 \<le> raProviderStatusRevision r \<and> 1 \<le> raChannelConfigRevision r \<and>
     0 \<le> raRoutingCandidateIndex r \<and>
     raUpstreamEndpoint r \<in> set [''chat_completions'', ''responses'', ''responses_compact'', ''messages''] \<and>
     null_or (\<lambda>s. s \<in> set breaker_dispositions) (raBreakerProviderDisposition r) \<and>
     null_or (\<lambda>s. s \<in> set breaker_dispositions) (raBreakerChannelDisposition r)"

text \<open>\<open>error_code LIKE 'gateway_%'\<close>: the underscore matches any character.\<close>

definition like_underscore :: "string \<Rightarrow> string \<Rightarrow> bool" where
  "like_underscore prefix s \<longleftrightarrow> take (length prefix) s = prefix \<and> length prefix < length s"

definition fault_party :: "RequestAttempt \<Rightarrow> string option" where
  "fault_party r =
     (let code = (\<lambda>P. case raErrorCode r of None \<Rightarrow> False | Some c \<Rightarrow> P c)
      in if raStatus r = AttemptStatusCanceled then Some ''client''
         else if raStatus r \<noteq> AttemptStatusFailed then None
         else if code (\<lambda>c. like_underscore ''gateway'' c \<or> like_underscore ''routing'' c \<or> like_underscore ''ledger'' c \<or>
           like_underscore ''config'' c \<or> c = ''adapter_not_registered'') then Some ''platform''
         else if code (\<lambda>c. c = ''client_canceled'') then Some ''client''
         else if (case raUpstreamStatusCode r of None \<Rightarrow> False
           | Some n \<Rightarrow> 400 \<le> n \<and> n \<le> 499 \<and> n \<notin> set [401, 403, 408, 429]) then Some ''client''
         else Some ''upstream'')"

subsection \<open>Transitions\<close>

text \<open>The shape of the \<open>Mark\<close> statements: \<open>cur\<close> and \<open>old\<close> are the row as it is and as the statement first saw it.\<close>

definition mark ::
  "'r option \<Rightarrow> 'r option \<Rightarrow> ('r \<Rightarrow> bool) \<Rightarrow> ('r \<Rightarrow> 'r) \<Rightarrow> ('r \<Rightarrow> bool) \<Rightarrow> ('r \<Rightarrow> (db_error, 's) go_result) \<Rightarrow> 's \<Rightarrow>
   (db_error, 'r \<times> 's) go_result" where
  "mark cur old from upd done_already put db =
     (let fallback = (case old of None \<Rightarrow> Inl ErrNoRows | Some r \<Rightarrow> if done_already r then Inr (r, db) else Inl ErrNoRows)
      in case cur of None \<Rightarrow> fallback
         | Some r \<Rightarrow> if from r then rbind (put (upd r)) (\<lambda>db'. Inr (upd r, db')) else fallback)"

definition coalesce :: "'a option \<Rightarrow> 'a option \<Rightarrow> 'a option" where
  "coalesce a b = (case a of None \<Rightarrow> b | Some _ \<Rightarrow> a)"

definition request_of :: "'z request_db_scheme \<Rightarrow> int \<Rightarrow> RequestRecord option" where
  "request_of db i = find (\<lambda>r. rrID r = i) (request_records db)"

text \<open>An UPDATE of a request record: its CHECKs and the foreign keys of the columns that change.\<close>

definition put_request :: "'z request_db_scheme \<Rightarrow> RequestRecord \<Rightarrow> (db_error, 'z request_db_scheme) go_result" where
  "put_request db r =
     (if \<not> check_request_record r then Inl CheckViolation
      else if \<not> fk (rrFinalProviderID r) (rq_providers db) \<or> \<not> fk (rrFinalChannelID r) (rq_channels db)
      then Inl ForeignKeyViolation
      else Inr (db\<lparr>request_records := map (\<lambda>x. if rrID x = rrID r then r else x) (request_records db)\<rparr>))"

definition mark_request ::
  "'z request_db_scheme \<Rightarrow> 'z request_db_scheme \<Rightarrow> int \<Rightarrow> (RequestRecord \<Rightarrow> bool) \<Rightarrow> (RequestRecord \<Rightarrow> RequestRecord) \<Rightarrow>
   (RequestRecord \<Rightarrow> bool) \<Rightarrow> (db_error, RequestRecord \<times> 'z request_db_scheme) go_result" where
  "mark_request seen db i from upd done_already =
     mark (request_of db i) (request_of seen i) from upd done_already (put_request db) db"

subsection \<open>request_records.sql.go\<close>

record CreateRequestRecordParams =
  crrRequestID :: string
  crrUserID :: int
  crrApiKeyID :: int
  crrRequestedModelID :: string
  crrIngressProtocol :: string
  crrEndpoint :: string
  crrResponseModelID :: "string option"
  crrResponseProtocol :: "string option"
  crrResponseID :: "string option"
  crrStream :: bool
  crrStatus :: string
  crrFinalProviderID :: "int option"
  crrFinalChannelID :: "int option"
  crrErrorCode :: "string option"
  crrErrorMessage :: "string option"
  crrInternalErrorDetail :: "string option"
  crrDeliveryStatus :: string
  crrGatewayFirstTokenAt :: "int option"
  crrResponseCompletedAt :: "int option"
  crrStartedAt :: int
  crrCompletedAt :: "int option"
  crrRouteID :: "int option"
  crrReasoningEffort :: "string option"
  crrReasoningBudgetTokens :: "int option"
  crrClientIp :: "string option"

definition insert_request_record ::
  "'z request_db_scheme \<Rightarrow> RequestRecord \<Rightarrow> (db_error, RequestRecord \<times> 'z request_db_scheme) go_result" where
  "insert_request_record db row =
     (if \<not> check_request_record row then Inl CheckViolation
      else if rrRequestID row \<in> rrRequestID ` set (request_records db) then Inl UniqueViolation
      else if rrApiKeyID row \<notin> akID ` set (api_keys db) \<or> rrUserID row \<notin> set (rq_users db) \<or>
        \<not> fk (rrFinalProviderID row) (rq_providers db) \<or> \<not> fk (rrFinalChannelID row) (rq_channels db)
      then Inl ForeignKeyViolation
      else Inr (row\<lparr>rrID := request_record_seq db\<rparr>,
        db\<lparr>request_records := request_records db @ [row\<lparr>rrID := request_record_seq db\<rparr>],
           request_record_seq := request_record_seq db + 1\<rparr>))"

definition CreateRequestRecord ::
  "int \<Rightarrow> 'z request_db_scheme \<Rightarrow> CreateRequestRecordParams \<Rightarrow> (db_error, RequestRecord \<times> 'z request_db_scheme) go_result" where
  "CreateRequestRecord now db arg =
     insert_request_record db
       \<lparr>rrID = 0, rrRequestID = crrRequestID arg, rrUserID = crrUserID arg, rrApiKeyID = crrApiKeyID arg,
        rrRequestedModelID = crrRequestedModelID arg, rrIngressProtocol = crrIngressProtocol arg,
        rrEndpoint = crrEndpoint arg, rrResponseModelID = crrResponseModelID arg,
        rrResponseProtocol = crrResponseProtocol arg, rrResponseID = crrResponseID arg, rrStream = crrStream arg,
        rrStatus = crrStatus arg, rrFinalProviderID = crrFinalProviderID arg, rrFinalChannelID = crrFinalChannelID arg,
        rrErrorCode = crrErrorCode arg, rrErrorMessage = crrErrorMessage arg,
        rrInternalErrorDetail = crrInternalErrorDetail arg, rrDeliveryStatus = crrDeliveryStatus arg,
        rrGatewayFirstTokenAt = crrGatewayFirstTokenAt arg, rrResponseCompletedAt = crrResponseCompletedAt arg,
        rrStartedAt = crrStartedAt arg, rrCompletedAt = crrCompletedAt arg, rrCreatedAt = now, rrUpdatedAt = now,
        rrRouteID = crrRouteID arg, rrReasoningEffort = crrReasoningEffort arg,
        rrReasoningBudgetTokens = crrReasoningBudgetTokens arg, rrClientIp = crrClientIp arg\<rparr>"

definition GetRequestRecordForUpdate :: "'z request_db_scheme \<Rightarrow> int \<Rightarrow> (db_error, RequestRecord) go_result" where
  "GetRequestRecordForUpdate db i = one_row (request_of db i)"

definition MarkRequestRunning ::
  "int \<Rightarrow> 'z request_db_scheme \<Rightarrow> 'z request_db_scheme \<Rightarrow> int \<Rightarrow> (db_error, RequestRecord \<times> 'z request_db_scheme) go_result" where
  "MarkRequestRunning now seen db i =
     mark_request seen db i (\<lambda>r. rrStatus r = RequestStatusPending)
       (\<lambda>r. r\<lparr>rrStatus := RequestStatusRunning, rrUpdatedAt := now\<rparr>) (\<lambda>r. rrStatus r = RequestStatusRunning)"

definition MarkRequestDeliveryStarted ::
  "int \<Rightarrow> 'z request_db_scheme \<Rightarrow> 'z request_db_scheme \<Rightarrow> int \<Rightarrow> (db_error, RequestRecord \<times> 'z request_db_scheme) go_result" where
  "MarkRequestDeliveryStarted now seen db i =
     mark_request seen db i
       (\<lambda>r. rrStatus r \<in> set [RequestStatusRunning, RequestStatusSucceeded] \<and> rrDeliveryStatus r = DeliveryStatusNotStarted)
       (\<lambda>r. r\<lparr>rrDeliveryStatus := (if rrDeliveryStatus r = DeliveryStatusNotStarted then DeliveryStatusInProgress
               else rrDeliveryStatus r), rrUpdatedAt := now\<rparr>)
       (\<lambda>r. rrDeliveryStatus r \<noteq> DeliveryStatusNotStarted)"

definition MarkRequestGatewayFirstToken ::
  "int \<Rightarrow> 'z request_db_scheme \<Rightarrow> 'z request_db_scheme \<Rightarrow> int \<Rightarrow> int \<Rightarrow>
   (db_error, RequestRecord \<times> 'z request_db_scheme) go_result" where
  "MarkRequestGatewayFirstToken now seen db firstTokenAt i =
     mark_request seen db i (\<lambda>r. rrGatewayFirstTokenAt r = None)
       (\<lambda>r. r\<lparr>rrGatewayFirstTokenAt := coalesce (rrGatewayFirstTokenAt r) (Some firstTokenAt), rrUpdatedAt := now\<rparr>)
       (\<lambda>r. rrGatewayFirstTokenAt r \<noteq> None)"

definition MarkRequestDeliveryCompleted ::
  "int \<Rightarrow> 'z request_db_scheme \<Rightarrow> 'z request_db_scheme \<Rightarrow> int \<Rightarrow> int \<Rightarrow>
   (db_error, RequestRecord \<times> 'z request_db_scheme) go_result" where
  "MarkRequestDeliveryCompleted now seen db responseCompletedAt i =
     mark_request seen db i (\<lambda>r. rrDeliveryStatus r \<in> set [DeliveryStatusNotStarted, DeliveryStatusInProgress])
       (\<lambda>r. r\<lparr>rrDeliveryStatus := DeliveryStatusCompleted, rrResponseCompletedAt := Some responseCompletedAt, rrUpdatedAt := now\<rparr>)
       (\<lambda>r. rrDeliveryStatus r = DeliveryStatusCompleted)"

definition MarkRequestDeliveryInterrupted ::
  "int \<Rightarrow> 'z request_db_scheme \<Rightarrow> 'z request_db_scheme \<Rightarrow> int \<Rightarrow> (db_error, RequestRecord \<times> 'z request_db_scheme) go_result" where
  "MarkRequestDeliveryInterrupted now seen db i =
     mark_request seen db i (\<lambda>r. rrDeliveryStatus r \<in> set [DeliveryStatusNotStarted, DeliveryStatusInProgress])
       (\<lambda>r. r\<lparr>rrDeliveryStatus := DeliveryStatusInterrupted, rrUpdatedAt := now\<rparr>)
       (\<lambda>r. rrDeliveryStatus r = DeliveryStatusInterrupted)"

text \<open>The columns a settled request gets, and those a failed or canceled one gets.\<close>

record sqlRequestOutcome =
  soResponseModelID :: "string option"
  soResponseProtocol :: "string option"
  soResponseID :: "string option"
  soFinalProviderID :: "int option"
  soFinalChannelID :: "int option"
  soGatewayFirstTokenAt :: "int option"
  soCompletedAt :: int
  soRequestRecordID :: int

record sqlErrorFacts =
  seErrorCode :: "string option"
  seErrorMessage :: "string option"
  seInternalErrorDetail :: "string option"

definition set_outcome :: "int \<Rightarrow> sqlRequestOutcome \<Rightarrow> RequestRecord \<Rightarrow> RequestRecord" where
  "set_outcome now arg r = r\<lparr>rrResponseModelID := soResponseModelID arg, rrResponseProtocol := soResponseProtocol arg,
     rrResponseID := soResponseID arg, rrFinalProviderID := soFinalProviderID arg, rrFinalChannelID := soFinalChannelID arg,
     rrGatewayFirstTokenAt := coalesce (rrGatewayFirstTokenAt r) (soGatewayFirstTokenAt arg),
     rrCompletedAt := Some (soCompletedAt arg), rrUpdatedAt := now\<rparr>"

definition set_request_error :: "sqlErrorFacts \<Rightarrow> RequestRecord \<Rightarrow> RequestRecord" where
  "set_request_error e r = r\<lparr>rrErrorCode := seErrorCode e, rrErrorMessage := seErrorMessage e,
     rrInternalErrorDetail := seInternalErrorDetail e\<rparr>"

definition MarkRequestSucceeded ::
  "int \<Rightarrow> 'z request_db_scheme \<Rightarrow> 'z request_db_scheme \<Rightarrow> sqlRequestOutcome \<Rightarrow>
   (db_error, RequestRecord \<times> 'z request_db_scheme) go_result" where
  "MarkRequestSucceeded now seen db arg =
     mark_request seen db (soRequestRecordID arg) (\<lambda>r. rrStatus r = RequestStatusRunning)
       (\<lambda>r. (set_outcome now arg r)\<lparr>rrStatus := RequestStatusSucceeded\<rparr>) (\<lambda>r. rrStatus r = RequestStatusSucceeded)"

definition MarkRequestFailed ::
  "int \<Rightarrow> 'z request_db_scheme \<Rightarrow> 'z request_db_scheme \<Rightarrow> sqlErrorFacts \<Rightarrow> int \<Rightarrow> int \<Rightarrow>
   (db_error, RequestRecord \<times> 'z request_db_scheme) go_result" where
  "MarkRequestFailed now seen db e completedAt i =
     mark_request seen db i (\<lambda>r. rrStatus r = RequestStatusRunning)
       (\<lambda>r. (set_request_error e r)\<lparr>rrStatus := RequestStatusFailed, rrCompletedAt := Some completedAt, rrUpdatedAt := now\<rparr>)
       (\<lambda>r. rrStatus r = RequestStatusFailed)"

definition MarkSettledRequestFailed ::
  "int \<Rightarrow> 'z request_db_scheme \<Rightarrow> 'z request_db_scheme \<Rightarrow> sqlErrorFacts \<Rightarrow> sqlRequestOutcome \<Rightarrow>
   (db_error, RequestRecord \<times> 'z request_db_scheme) go_result" where
  "MarkSettledRequestFailed now seen db e arg =
     mark_request seen db (soRequestRecordID arg) (\<lambda>r. rrStatus r = RequestStatusRunning)
       (\<lambda>r. (set_request_error e (set_outcome now arg r))\<lparr>rrStatus := RequestStatusFailed\<rparr>)
       (\<lambda>r. rrStatus r = RequestStatusFailed)"

definition MarkRequestCanceled ::
  "int \<Rightarrow> 'z request_db_scheme \<Rightarrow> 'z request_db_scheme \<Rightarrow> sqlErrorFacts \<Rightarrow> int \<Rightarrow> int \<Rightarrow>
   (db_error, RequestRecord \<times> 'z request_db_scheme) go_result" where
  "MarkRequestCanceled now seen db e completedAt i =
     mark_request seen db i (\<lambda>r. rrStatus r = RequestStatusRunning)
       (\<lambda>r. (set_request_error e r)\<lparr>rrStatus := RequestStatusCanceled, rrCompletedAt := Some completedAt, rrUpdatedAt := now\<rparr>)
       (\<lambda>r. rrStatus r = RequestStatusCanceled)"

definition MarkSettledRequestCanceled ::
  "int \<Rightarrow> 'z request_db_scheme \<Rightarrow> 'z request_db_scheme \<Rightarrow> sqlErrorFacts \<Rightarrow> sqlRequestOutcome \<Rightarrow>
   (db_error, RequestRecord \<times> 'z request_db_scheme) go_result" where
  "MarkSettledRequestCanceled now seen db e arg =
     mark_request seen db (soRequestRecordID arg) (\<lambda>r. rrStatus r = RequestStatusRunning)
       (\<lambda>r. (set_request_error e (set_outcome now arg r))\<lparr>rrStatus := RequestStatusCanceled\<rparr>)
       (\<lambda>r. rrStatus r = RequestStatusCanceled)"

subsection \<open>request_attempts.sql.go\<close>

record CreateRequestAttemptParams =
  craPermitID :: "string option"
  craAttemptIndex :: int
  craProviderID :: int
  craChannelID :: int
  craAdapterKey :: string
  craUpstreamModel :: string
  craUpstreamProtocol :: string
  craUpstreamResponseID :: "string option"
  craUpstreamResponseModel :: "string option"
  craUpstreamFinishReason :: "string option"
  craFinishClass :: "string option"
  craStatus :: string
  craUpstreamStatusCode :: "int option"
  craUpstreamRequestID :: "string option"
  craErrorCode :: "string option"
  craErrorMessage :: "string option"
  craInternalErrorDetail :: "string option"
  craGatewayFirstTokenAt :: "int option"
  craFinalUsageReceived :: bool
  craUsageMappingVersion :: "string option"
  craStartedAt :: int
  craCompletedAt :: "int option"
  craProviderOriginRevision :: int
  craProviderStatusRevision :: int
  craChannelConfigRevision :: int
  craRoutingCandidateIndex :: int
  craUpstreamEndpoint :: string
  craRequestRecordID :: int

definition attempt_of :: "'z request_db_scheme \<Rightarrow> int \<Rightarrow> RequestAttempt option" where
  "attempt_of db i = find (\<lambda>r. raID r = i) (request_attempts db)"

definition put_attempt :: "'z request_db_scheme \<Rightarrow> RequestAttempt \<Rightarrow> (db_error, 'z request_db_scheme) go_result" where
  "put_attempt db r =
     (if \<not> check_request_attempt r then Inl CheckViolation
      else Inr (db\<lparr>request_attempts := map (\<lambda>x. if raID x = raID r then r else x) (request_attempts db)\<rparr>))"

definition mark_attempt ::
  "'z request_db_scheme \<Rightarrow> 'z request_db_scheme \<Rightarrow> int \<Rightarrow> (RequestAttempt \<Rightarrow> bool) \<Rightarrow> (RequestAttempt \<Rightarrow> RequestAttempt) \<Rightarrow>
   (RequestAttempt \<Rightarrow> bool) \<Rightarrow> (db_error, RequestAttempt \<times> 'z request_db_scheme) go_result" where
  "mark_attempt seen db i from upd done_already =
     mark (attempt_of db i) (attempt_of seen i) from upd done_already (put_attempt db) db"

definition insert_request_attempt ::
  "'z request_db_scheme \<Rightarrow> RequestAttempt \<Rightarrow> (db_error, RequestAttempt \<times> 'z request_db_scheme) go_result" where
  "insert_request_attempt db row =
     (if \<not> check_request_attempt row then Inl CheckViolation
      else if (\<exists>x \<in> set (request_attempts db).
          (raRequestRecordID x = raRequestRecordID row \<and> raAttemptIndex x = raAttemptIndex row) \<or>
          (raPermitID row \<noteq> None \<and> raPermitID x = raPermitID row)) then Inl UniqueViolation
      else if raProviderID row \<notin> set (rq_providers db) \<or> raChannelID row \<notin> set (rq_channels db)
      then Inl ForeignKeyViolation
      else Inr (row\<lparr>raID := request_attempt_seq db\<rparr>,
        db\<lparr>request_attempts := request_attempts db @ [row\<lparr>raID := request_attempt_seq db\<rparr>],
           request_attempt_seq := request_attempt_seq db + 1\<rparr>))"

text \<open>The INSERT takes its rows from the running request: without one it returns no row.\<close>

definition CreateRequestAttempt ::
  "int \<Rightarrow> 'z request_db_scheme \<Rightarrow> CreateRequestAttemptParams \<Rightarrow> (db_error, RequestAttempt \<times> 'z request_db_scheme) go_result" where
  "CreateRequestAttempt now db arg =
     (case find (\<lambda>r. rrID r = craRequestRecordID arg \<and> rrStatus r = RequestStatusRunning) (request_records db) of
        None \<Rightarrow> Inl ErrNoRows
      | Some g \<Rightarrow> insert_request_attempt db
         \<lparr>raID = 0, raRequestRecordID = rrID g, raAttemptIndex = craAttemptIndex arg, raProviderID = craProviderID arg,
          raChannelID = craChannelID arg, raAdapterKey = craAdapterKey arg, raUpstreamModel = craUpstreamModel arg,
          raUpstreamProtocol = craUpstreamProtocol arg, raUpstreamResponseID = craUpstreamResponseID arg,
          raUpstreamResponseModel = craUpstreamResponseModel arg, raUpstreamFinishReason = craUpstreamFinishReason arg,
          raFinishClass = craFinishClass arg, raStatus = craStatus arg, raUpstreamStatusCode = craUpstreamStatusCode arg,
          raUpstreamRequestID = craUpstreamRequestID arg, raErrorCode = craErrorCode arg,
          raErrorMessage = craErrorMessage arg, raInternalErrorDetail = craInternalErrorDetail arg,
          raUpstreamTimeoutPhase = None, raGatewayFirstTokenAt = craGatewayFirstTokenAt arg,
          raFinalUsageReceived = craFinalUsageReceived arg, raUsageMappingVersion = craUsageMappingVersion arg,
          raStartedAt = craStartedAt arg, raCompletedAt = craCompletedAt arg, raCreatedAt = now,
          raUpstreamStartedAt = None, raUpstreamFirstTokenAt = None, raUpstreamCompletedAt = None,
          raProviderOriginRevision = craProviderOriginRevision arg,
          raProviderStatusRevision = craProviderStatusRevision arg,
          raChannelConfigRevision = craChannelConfigRevision arg,
          raRoutingCandidateIndex = craRoutingCandidateIndex arg, raUpstreamEndpoint = craUpstreamEndpoint arg,
          raBreakerProviderDisposition = None, raBreakerChannelDisposition = None, raTtftScoringSample = False,
          raErrorScoringSample = False, raErrorScoringFailure = False, raPermitID = craPermitID arg\<rparr>)"

definition HasRunningRequestAttempt :: "'z request_db_scheme \<Rightarrow> int \<Rightarrow> bool" where
  "HasRunningRequestAttempt db requestRecordID \<longleftrightarrow>
     (\<exists>a \<in> set (request_attempts db). raRequestRecordID a = requestRecordID \<and> raStatus a = AttemptStatusRunning)"

definition ListRequestAttemptsByRequest :: "'z request_db_scheme \<Rightarrow> int \<Rightarrow> RequestAttempt list" where
  "ListRequestAttemptsByRequest db requestRecordID =
     sort_key raAttemptIndex (filter (\<lambda>a. raRequestRecordID a = requestRecordID) (request_attempts db))"

definition MarkRequestAttemptGatewayFirstToken ::
  "'z request_db_scheme \<Rightarrow> 'z request_db_scheme \<Rightarrow> int \<Rightarrow> int \<Rightarrow>
   (db_error, RequestAttempt \<times> 'z request_db_scheme) go_result" where
  "MarkRequestAttemptGatewayFirstToken seen db firstTokenAt i =
     mark_attempt seen db i (\<lambda>r. raGatewayFirstTokenAt r = None)
       (\<lambda>r. r\<lparr>raGatewayFirstTokenAt := coalesce (raGatewayFirstTokenAt r) (Some firstTokenAt)\<rparr>)
       (\<lambda>r. raGatewayFirstTokenAt r \<noteq> None)"

definition update_attempt ::
  "'z request_db_scheme \<Rightarrow> int \<Rightarrow> (RequestAttempt \<Rightarrow> RequestAttempt) \<Rightarrow>
   (db_error, RequestAttempt \<times> 'z request_db_scheme) go_result" where
  "update_attempt db i upd = mark_attempt db db i (\<lambda>r. True) upd (\<lambda>r. False)"

record sqlAttemptTiming =
  atStartedAt :: "int option"
  atFirstTokenAt :: "int option"
  atCompletedAt :: "int option"
  atTimeoutPhase :: "string option"

definition RecordRequestAttemptUpstreamTiming ::
  "'z request_db_scheme \<Rightarrow> sqlAttemptTiming \<Rightarrow> int \<Rightarrow> (db_error, RequestAttempt \<times> 'z request_db_scheme) go_result" where
  "RecordRequestAttemptUpstreamTiming db arg i = update_attempt db i (\<lambda>r. r\<lparr>
     raUpstreamStartedAt := coalesce (raUpstreamStartedAt r) (atStartedAt arg),
     raUpstreamFirstTokenAt := coalesce (raUpstreamFirstTokenAt r) (atFirstTokenAt arg),
     raUpstreamCompletedAt := coalesce (raUpstreamCompletedAt r) (atCompletedAt arg),
     raUpstreamTimeoutPhase := coalesce (raUpstreamTimeoutPhase r) (atTimeoutPhase arg)\<rparr>)"

definition RecordRequestAttemptBreakerDisposition ::
  "'z request_db_scheme \<Rightarrow> string option \<Rightarrow> string option \<Rightarrow> int \<Rightarrow>
   (db_error, RequestAttempt \<times> 'z request_db_scheme) go_result" where
  "RecordRequestAttemptBreakerDisposition db p c i = update_attempt db i (\<lambda>r. r\<lparr>
     raBreakerProviderDisposition := coalesce (raBreakerProviderDisposition r) p,
     raBreakerChannelDisposition := coalesce (raBreakerChannelDisposition r) c\<rparr>)"

text \<open>An \<open>:exec\<close> statement: a missing row is not an error.\<close>

definition RecordRequestAttemptScoringSample ::
  "'z request_db_scheme \<Rightarrow> bool \<Rightarrow> bool \<Rightarrow> bool \<Rightarrow> int \<Rightarrow> (db_error, 'z request_db_scheme) go_result" where
  "RecordRequestAttemptScoringSample db ttft sample failed i =
     (case update_attempt db i (\<lambda>r. r\<lparr>raTtftScoringSample := raTtftScoringSample r \<or> ttft,
        raErrorScoringSample := raErrorScoringSample r \<or> sample,
        raErrorScoringFailure := raErrorScoringFailure r \<or> failed\<rparr>) of
        Inl ErrNoRows \<Rightarrow> Inr db
      | Inl e \<Rightarrow> Inl e
      | Inr (_, db') \<Rightarrow> Inr db')"

text \<open>What the upstream answered, as the settled statements write it.\<close>

record sqlAttemptOutcome =
  aoUpstreamResponseID :: "string option"
  aoUpstreamResponseModel :: "string option"
  aoUpstreamFinishReason :: "string option"
  aoFinishClass :: "string option"
  aoUpstreamStatusCode :: "int option"
  aoUpstreamRequestID :: "string option"
  aoGatewayFirstTokenAt :: "int option"
  aoFinalUsageReceived :: bool
  aoUsageMappingVersion :: "string option"
  aoCompletedAt :: int
  aoAttemptID :: int

definition set_attempt_outcome :: "sqlAttemptOutcome \<Rightarrow> RequestAttempt \<Rightarrow> RequestAttempt" where
  "set_attempt_outcome arg r = r\<lparr>raUpstreamResponseID := aoUpstreamResponseID arg,
     raUpstreamResponseModel := aoUpstreamResponseModel arg, raUpstreamFinishReason := aoUpstreamFinishReason arg,
     raFinishClass := aoFinishClass arg, raUpstreamStatusCode := aoUpstreamStatusCode arg,
     raUpstreamRequestID := aoUpstreamRequestID arg,
     raGatewayFirstTokenAt := coalesce (raGatewayFirstTokenAt r) (aoGatewayFirstTokenAt arg),
     raFinalUsageReceived := aoFinalUsageReceived arg, raUsageMappingVersion := aoUsageMappingVersion arg,
     raCompletedAt := Some (aoCompletedAt arg)\<rparr>"

definition set_attempt_error :: "sqlErrorFacts \<Rightarrow> RequestAttempt \<Rightarrow> RequestAttempt" where
  "set_attempt_error e r = r\<lparr>raErrorCode := seErrorCode e, raErrorMessage := seErrorMessage e,
     raInternalErrorDetail := seInternalErrorDetail e\<rparr>"

definition MarkRequestAttemptSucceeded ::
  "'z request_db_scheme \<Rightarrow> 'z request_db_scheme \<Rightarrow> sqlAttemptOutcome \<Rightarrow>
   (db_error, RequestAttempt \<times> 'z request_db_scheme) go_result" where
  "MarkRequestAttemptSucceeded seen db arg =
     mark_attempt seen db (aoAttemptID arg) (\<lambda>r. raStatus r = AttemptStatusRunning)
       (\<lambda>r. (set_attempt_outcome arg r)\<lparr>raStatus := AttemptStatusSucceeded\<rparr>)
       (\<lambda>r. raStatus r = AttemptStatusSucceeded)"

definition MarkSettledRequestAttemptFailed ::
  "'z request_db_scheme \<Rightarrow> 'z request_db_scheme \<Rightarrow> sqlErrorFacts \<Rightarrow> sqlAttemptOutcome \<Rightarrow>
   (db_error, RequestAttempt \<times> 'z request_db_scheme) go_result" where
  "MarkSettledRequestAttemptFailed seen db e arg =
     mark_attempt seen db (aoAttemptID arg) (\<lambda>r. raStatus r = AttemptStatusRunning)
       (\<lambda>r. (set_attempt_error e (set_attempt_outcome arg r))\<lparr>raStatus := AttemptStatusFailed\<rparr>)
       (\<lambda>r. raStatus r = AttemptStatusFailed)"

definition MarkSettledRequestAttemptCanceled ::
  "'z request_db_scheme \<Rightarrow> 'z request_db_scheme \<Rightarrow> sqlErrorFacts \<Rightarrow> sqlAttemptOutcome \<Rightarrow>
   (db_error, RequestAttempt \<times> 'z request_db_scheme) go_result" where
  "MarkSettledRequestAttemptCanceled seen db e arg =
     mark_attempt seen db (aoAttemptID arg) (\<lambda>r. raStatus r = AttemptStatusRunning)
       (\<lambda>r. (set_attempt_error e (set_attempt_outcome arg r))\<lparr>raStatus := AttemptStatusCanceled\<rparr>)
       (\<lambda>r. raStatus r = AttemptStatusCanceled)"

definition MarkRequestAttemptFailed ::
  "'z request_db_scheme \<Rightarrow> 'z request_db_scheme \<Rightarrow> int option \<Rightarrow> string option \<Rightarrow> sqlErrorFacts \<Rightarrow> int \<Rightarrow> int \<Rightarrow>
   (db_error, RequestAttempt \<times> 'z request_db_scheme) go_result" where
  "MarkRequestAttemptFailed seen db upstreamStatusCode upstreamRequestID e completedAt i =
     mark_attempt seen db i (\<lambda>r. raStatus r = AttemptStatusRunning)
       (\<lambda>r. (set_attempt_error e r)\<lparr>raStatus := AttemptStatusFailed, raUpstreamStatusCode := upstreamStatusCode,
          raUpstreamRequestID := upstreamRequestID, raCompletedAt := Some completedAt\<rparr>)
       (\<lambda>r. raStatus r = AttemptStatusFailed)"

definition MarkRequestAttemptCanceled ::
  "'z request_db_scheme \<Rightarrow> 'z request_db_scheme \<Rightarrow> sqlErrorFacts \<Rightarrow> int \<Rightarrow> int \<Rightarrow>
   (db_error, RequestAttempt \<times> 'z request_db_scheme) go_result" where
  "MarkRequestAttemptCanceled seen db e completedAt i =
     mark_attempt seen db i (\<lambda>r. raStatus r = AttemptStatusRunning)
       (\<lambda>r. (set_attempt_error e r)\<lparr>raStatus := AttemptStatusCanceled, raCompletedAt := Some completedAt\<rparr>)
       (\<lambda>r. raStatus r = AttemptStatusCanceled)"

end
