(* ===== verification/Recovery_Jobs.thy ===== *)
theory Recovery_Jobs
  imports Request_Store
begin

text \<open>
  The table \<open>settlement_recovery_jobs\<close> (\<open>src/migrations\<close> 32) and the statements of
  \<open>internal/platform/store/sqlc/settlement_recovery_jobs.sql.go\<close>.

  \<^item> \<open>job_facts\<close> are the columns a job is created with and never changes; the Go structs have them with \<open>pgtype.Numeric\<close>
    amounts (parameters), the table with \<open>numeric(20,10)\<close> ones, of which \<open>'o\<close> are nullable. The record is built in three
    layers, the row adds the columns of the job's own state.
  \<^item> \<open>locked\<close> are the rows another transaction holds: \<open>FOR UPDATE SKIP LOCKED\<close> passes over them.
  \<^item> \<open>refs\<close> are the foreign keys to reservations, models, channels and prices, tables no statement here changes.
\<close>

subsection \<open>Rows (models.go)\<close>

record job_response =
  sjUserID :: int
  sjRequestRecordID :: int
  sjAttemptID :: int
  sjReservationID :: int
  sjResponseProtocol :: string
  sjResponseID :: string
  sjResponseModelID :: string
  sjRequestFinalStatus :: string
  sjAttemptFinalStatus :: string
  sjSettlementErrorCode :: string
  sjSettlementErrorMessage :: string
  sjSettlementInternalErrorDetail :: string
  sjModelID :: int
  sjProviderID :: int
  sjChannelID :: int
  sjUpstreamProtocol :: string
  sjUpstreamResponseID :: string
  sjUpstreamModel :: string
  sjFinishClass :: string
  sjUpstreamFinishReason :: string
  sjUpstreamStatusCode :: int
  sjUpstreamRequestID :: "string option"

record job_usage = job_response +
  sjUsageUncachedInputTokens :: int
  sjUsageUncachedInputTokensState :: string
  sjUsageCacheReadInputTokens :: int
  sjUsageCacheReadInputTokensState :: string
  sjUsageCacheWrite5mInputTokens :: int
  sjUsageCacheWrite5mInputTokensState :: string
  sjUsageCacheWrite1hInputTokens :: int
  sjUsageCacheWrite1hInputTokensState :: string
  sjUsageCacheWrite30mInputTokens :: int
  sjUsageCacheWrite30mInputTokensState :: string
  sjUsageOutputTokensTotal :: int
  sjUsageOutputTokensTotalState :: string
  sjUsageReasoningOutputTokens :: int
  sjUsageReasoningOutputTokensState :: string
  sjUsageServerWebSearchRequests :: int
  sjUsageServerWebFetchRequests :: int
  sjUsageSource :: string
  sjUsageMappingVersion :: string

record ('n, 'o) job_facts = job_usage +
  sjPriceID :: "int option"
  sjCostBaseModelPriceID :: "int option"
  sjChannelCostMultiplierID :: "int option"
  sjChannelRechargeFactorID :: "int option"
  sjCurrency :: string
  sjPricingUnit :: string
  sjUncachedInputPrice :: 'n
  sjCacheReadInputPrice :: 'o
  sjCacheWrite5mInputPrice :: 'o
  sjCacheWrite1hInputPrice :: 'o
  sjCacheWrite30mInputPrice :: 'o
  sjOutputPrice :: 'n
  sjReasoningOutputPrice :: 'o
  sjFormulaVersion :: string
  sjPriceRatio :: 'o
  sjLongContextEnabled :: bool
  sjLongContextThreshold :: "int option"
  sjLongContextInputMultiplier :: 'o
  sjLongContextOutputMultiplier :: 'o
  sjEstimatedAmount :: 'n
  sjAuthorizedAmount :: 'n

record SettlementRecoveryJob = "(int, int option) job_facts" +
  sjID :: int
  sjStatus :: string
  sjAttemptCount :: int
  sjMaxAttempts :: int
  sjNextRunAt :: int
  sjLockedBy :: "string option"
  sjLockedUntil :: "int option"
  sjLastErrorCode :: "string option"
  sjLastErrorMessage :: "string option"
  sjLastInternalErrorDetail :: "string option"
  sjLastAttemptedAt :: "int option"
  sjCompletedAt :: "int option"
  sjCreatedAt :: int
  sjUpdatedAt :: int

record CreateSettlementRecoveryJobParams = "(numeric, numeric) job_facts" +
  csMaxAttempts :: int
  csNextRunAt :: int

record job_db = request_db +
  recovery_jobs :: "SettlementRecoveryJob list"
  recovery_job_seq :: int

abbreviation jobs_of :: "'z job_db_scheme \<Rightarrow> SettlementRecoveryJob list" where "jobs_of \<equiv> recovery_jobs"

abbreviation JobPending :: string where "JobPending \<equiv> ''pending''"
abbreviation JobRunning :: string where "JobRunning \<equiv> ''running''"
abbreviation JobSucceeded :: string where "JobSucceeded \<equiv> ''succeeded''"
abbreviation JobDead :: string where "JobDead \<equiv> ''dead''"

subsection \<open>CHECK constraints\<close>

definition count_states :: "string list" where "count_states = [''known'', ''not_applicable'', ''unknown'']"

definition check_count :: "int \<Rightarrow> string \<Rightarrow> bool" where
  "check_count v s \<longleftrightarrow> 0 \<le> v \<and> s \<in> set count_states \<and> (s = ''known'' \<or> v = 0)"

definition check_job_usage :: "'z job_usage_scheme \<Rightarrow> bool" where
  "check_job_usage r \<longleftrightarrow>
     check_count (sjUsageUncachedInputTokens r) (sjUsageUncachedInputTokensState r) \<and>
     check_count (sjUsageCacheReadInputTokens r) (sjUsageCacheReadInputTokensState r) \<and>
     check_count (sjUsageCacheWrite5mInputTokens r) (sjUsageCacheWrite5mInputTokensState r) \<and>
     check_count (sjUsageCacheWrite1hInputTokens r) (sjUsageCacheWrite1hInputTokensState r) \<and>
     check_count (sjUsageCacheWrite30mInputTokens r) (sjUsageCacheWrite30mInputTokensState r) \<and>
     check_count (sjUsageOutputTokensTotal r) (sjUsageOutputTokensTotalState r) \<and>
     check_count (sjUsageReasoningOutputTokens r) (sjUsageReasoningOutputTokensState r) \<and>
     (sjUsageReasoningOutputTokensState r \<noteq> ''known'' \<or> sjUsageOutputTokensTotalState r \<noteq> ''known'' \<or>
      sjUsageReasoningOutputTokens r \<le> sjUsageOutputTokensTotal r) \<and>
     0 \<le> sjUsageServerWebFetchRequests r \<and> 0 \<le> sjUsageServerWebSearchRequests r \<and>
     sjUsageSource r \<in> set [''upstream_response'', ''upstream_stream'', ''partial_stream_estimate''] \<and>
     sjUsageMappingVersion r \<noteq> ''''"

definition final_statuses :: "string list" where "final_statuses = [''succeeded'', ''failed'', ''canceled'']"

definition check_job_response :: "'z job_response_scheme \<Rightarrow> bool" where
  "check_job_response r \<longleftrightarrow>
     sjRequestFinalStatus r \<in> set final_statuses \<and> sjAttemptFinalStatus r \<in> set final_statuses \<and>
     ((sjRequestFinalStatus r = ''succeeded'' \<and> sjAttemptFinalStatus r = ''succeeded'' \<and> sjSettlementErrorCode r = '''' \<and>
       sjSettlementErrorMessage r = '''' \<and> sjSettlementInternalErrorDetail r = '''') \<or>
      ((sjRequestFinalStatus r \<noteq> ''succeeded'' \<or> sjAttemptFinalStatus r \<noteq> ''succeeded'') \<and>
       sjSettlementErrorCode r \<noteq> '''' \<and> sjSettlementErrorMessage r \<noteq> '''')) \<and>
     sjFinishClass r \<in> set finish_classes \<and> sjResponseID r \<noteq> '''' \<and> sjResponseModelID r \<noteq> '''' \<and>
     sjResponseProtocol r \<in> set protocols \<and> sjUpstreamModel r \<noteq> '''' \<and> sjUpstreamProtocol r \<in> set protocols \<and>
     null_or (\<lambda>s. s \<noteq> '''') (sjUpstreamRequestID r) \<and> sjUpstreamResponseID r \<noteq> '''' \<and>
     100 \<le> sjUpstreamStatusCode r \<and> sjUpstreamStatusCode r \<le> 599"

definition check_job_prices :: "(int, int option, 'z) job_facts_scheme \<Rightarrow> bool" where
  "check_job_prices r \<longleftrightarrow>
     sjAuthorizedAmount r \<le> sjEstimatedAmount r \<and> 0 < sjAuthorizedAmount r \<and> 0 < sjEstimatedAmount r \<and>
     (\<not> sjLongContextEnabled r \<or>
      ((case sjLongContextThreshold r of None \<Rightarrow> False | Some t \<Rightarrow> 0 < t) \<and>
       (case sjLongContextInputMultiplier r of None \<Rightarrow> False | Some m \<Rightarrow> 0 < m) \<and>
       (case sjLongContextOutputMultiplier r of None \<Rightarrow> False | Some m \<Rightarrow> 0 < m))) \<and>
     null_or_nonneg (sjCacheReadInputPrice r) \<and> null_or_nonneg (sjCacheWrite5mInputPrice r) \<and>
     null_or_nonneg (sjCacheWrite1hInputPrice r) \<and> null_or_nonneg (sjCacheWrite30mInputPrice r) \<and>
     null_or_nonneg (sjReasoningOutputPrice r) \<and> null_or_nonneg (sjPriceRatio r) \<and>
     0 \<le> sjUncachedInputPrice r \<and> 0 \<le> sjOutputPrice r \<and> sjCurrency r \<noteq> '''' \<and> sjFormulaVersion r \<noteq> '''' \<and>
     sjPricingUnit r = ''per_1m_tokens''"

definition check_job_state :: "SettlementRecoveryJob \<Rightarrow> bool" where
  "check_job_state r \<longleftrightarrow>
     0 \<le> sjAttemptCount r \<and> sjAttemptCount r \<le> sjMaxAttempts r \<and> 0 < sjMaxAttempts r \<and>
     sjStatus r \<in> set [JobPending, JobRunning, JobSucceeded, JobDead] \<and>
     ((sjStatus r \<in> set [JobSucceeded, JobDead] \<and> sjCompletedAt r \<noteq> None) \<or>
      (sjStatus r \<in> set [JobPending, JobRunning] \<and> sjCompletedAt r = None)) \<and>
     ((sjStatus r = JobRunning \<and> sjLockedBy r \<noteq> None \<and> sjLockedUntil r \<noteq> None) \<or>
      (sjStatus r \<in> set [JobPending, JobSucceeded, JobDead] \<and> sjLockedBy r = None \<and> sjLockedUntil r = None)) \<and>
     null_or (\<lambda>s. s \<noteq> '''') (sjLockedBy r)"

definition check_job :: "SettlementRecoveryJob \<Rightarrow> bool" where
  "check_job r \<longleftrightarrow> check_job_response r \<and> check_job_usage r \<and> check_job_prices r \<and> check_job_state r"

subsection \<open>settlement_recovery_jobs.sql.go\<close>

text \<open>The numeric parameters as the columns get them; the columns of the lower layers are passed as they are.\<close>

definition bind_job_facts ::
  "CreateSettlementRecoveryJobParams \<Rightarrow> (db_error, (int, int option) job_facts) go_result" where
  "bind_job_facts arg =
     rbind (rbind (bind_num (sjUncachedInputPrice arg)) col10) (\<lambda>uncached.
     rbind (col10_null (sjCacheReadInputPrice arg)) (\<lambda>cread.
     rbind (col10_null (sjCacheWrite5mInputPrice arg)) (\<lambda>cw5.
     rbind (col10_null (sjCacheWrite1hInputPrice arg)) (\<lambda>cw1.
     rbind (col10_null (sjCacheWrite30mInputPrice arg)) (\<lambda>cw30.
     rbind (rbind (bind_num (sjOutputPrice arg)) col10) (\<lambda>output.
     rbind (col10_null (sjReasoningOutputPrice arg)) (\<lambda>reasoning.
     rbind (col10_null (sjPriceRatio arg)) (\<lambda>ratio.
     rbind (col10_null (sjLongContextInputMultiplier arg)) (\<lambda>lcin.
     rbind (col10_null (sjLongContextOutputMultiplier arg)) (\<lambda>lcout.
     rbind (rbind (bind_num (sjEstimatedAmount arg)) col10) (\<lambda>estimated.
     rbind (rbind (bind_num (sjAuthorizedAmount arg)) col10) (\<lambda>authorized.
     Inr (job_usage.extend (job_usage.truncate arg)
       (job_facts.fields (sjPriceID arg) (sjCostBaseModelPriceID arg) (sjChannelCostMultiplierID arg)
         (sjChannelRechargeFactorID arg) (sjCurrency arg) (sjPricingUnit arg) uncached cread cw5 cw1 cw30 output reasoning
         (sjFormulaVersion arg) ratio (sjLongContextEnabled arg) (sjLongContextThreshold arg) lcin lcout estimated
         authorized))))))))))))))"

definition new_job :: "int \<Rightarrow> (int, int option) job_facts \<Rightarrow> int \<Rightarrow> int \<Rightarrow> SettlementRecoveryJob" where
  "new_job now facts maxAttempts nextRunAt =
     job_facts.extend facts (SettlementRecoveryJob.fields 0 JobPending 0 maxAttempts nextRunAt None None None None None None
       None now now)"

definition running_request :: "'z request_db_scheme \<Rightarrow> int \<Rightarrow> bool" where
  "running_request db i \<longleftrightarrow> (\<exists>r \<in> set (request_records db). rrID r = i \<and> rrStatus r = RequestStatusRunning)"

definition CreateSettlementRecoveryJob ::
  "('z job_db_scheme \<Rightarrow> SettlementRecoveryJob \<Rightarrow> bool) \<Rightarrow> int \<Rightarrow> 'z job_db_scheme \<Rightarrow> CreateSettlementRecoveryJobParams \<Rightarrow>
   (db_error, SettlementRecoveryJob \<times> 'z job_db_scheme) go_result" where
  "CreateSettlementRecoveryJob refs now db arg =
     rbind (bind_job_facts arg) (\<lambda>facts.
     if \<not> running_request db (sjRequestRecordID arg) then Inl ErrNoRows
     else let row = new_job now facts (csMaxAttempts arg) (csNextRunAt arg) in
       if \<not> check_job row then Inl CheckViolation
       else case find (\<lambda>j. sjRequestRecordID j = sjRequestRecordID row) (jobs_of db) of
         Some old \<Rightarrow> if job_facts.truncate old = job_facts.truncate row then Inr (old, db) else Inl ErrNoRows
       | None \<Rightarrow>
           if sjReservationID row \<in> sjReservationID ` set (jobs_of db) then Inl UniqueViolation
           else if \<not> (\<exists>a \<in> set (request_attempts db). raID a = sjAttemptID row \<and> raRequestRecordID a = sjRequestRecordID row) \<or>
             \<not> (\<exists>r \<in> set (request_records db). rrID r = sjRequestRecordID row \<and> rrUserID r = sjUserID row) \<or>
             sjProviderID row \<notin> set (rq_providers db) \<or> sjChannelID row \<notin> set (rq_channels db) \<or>
             sjUserID row \<notin> set (rq_users db) \<or> \<not> refs db row
           then Inl ForeignKeyViolation
           else Inr (row\<lparr>sjID := recovery_job_seq db\<rparr>,
             db\<lparr>recovery_jobs := jobs_of db @ [row\<lparr>sjID := recovery_job_seq db\<rparr>],
                recovery_job_seq := recovery_job_seq db + 1\<rparr>))"

definition job_of :: "'z job_db_scheme \<Rightarrow> int \<Rightarrow> SettlementRecoveryJob option" where
  "job_of db i = find (\<lambda>j. sjID j = i) (jobs_of db)"

definition put_job :: "'z job_db_scheme \<Rightarrow> SettlementRecoveryJob \<Rightarrow>
    (db_error, SettlementRecoveryJob \<times> 'z job_db_scheme) go_result" where
  "put_job db j =
     (if \<not> check_job j then Inl CheckViolation
      else Inr (j, db\<lparr>recovery_jobs := map (\<lambda>x. if sjID x = sjID j then j else x) (jobs_of db)\<rparr>))"

text \<open>\<open>pending\<close> and due, or \<open>running\<close> with an expired lease; the first of them by \<open>next_run_at\<close> and \<open>id\<close>.\<close>

definition job_due :: "int \<Rightarrow> SettlementRecoveryJob \<Rightarrow> bool" where
  "job_due now j \<longleftrightarrow> (sjStatus j = JobPending \<and> sjNextRunAt j \<le> now) \<or>
     (sjStatus j = JobRunning \<and> (case sjLockedUntil j of None \<Rightarrow> False | Some t \<Rightarrow> t \<le> now))"

definition candidate_job ::
  "int set \<Rightarrow> 'z job_db_scheme \<Rightarrow> (SettlementRecoveryJob \<Rightarrow> bool) \<Rightarrow> SettlementRecoveryJob option" where
  "candidate_job locked db P = find (\<lambda>j. True)
     (sort_key (\<lambda>j. (sjNextRunAt j, sjID j)) (filter (\<lambda>j. P j \<and> sjID j \<notin> locked) (jobs_of db)))"

definition ClaimNextSettlementRecoveryJob ::
  "int set \<Rightarrow> 'z job_db_scheme \<Rightarrow> string \<Rightarrow> int \<Rightarrow> int \<Rightarrow> (db_error, SettlementRecoveryJob \<times> 'z job_db_scheme) go_result" where
  "ClaimNextSettlementRecoveryJob locked db lockedBy lockedUntil nowAt =
     (case candidate_job locked db (\<lambda>j. sjAttemptCount j < sjMaxAttempts j \<and> job_due nowAt j) of
        None \<Rightarrow> Inl ErrNoRows
      | Some j \<Rightarrow> put_job db (j\<lparr>sjStatus := JobRunning, sjAttemptCount := sjAttemptCount j + 1, sjLockedBy := Some lockedBy,
          sjLockedUntil := Some lockedUntil, sjLastAttemptedAt := Some nowAt, sjUpdatedAt := nowAt\<rparr>))"

record job_failure =
  jfErrorCode :: "string option"
  jfErrorMessage :: "string option"
  jfInternalErrorDetail :: "string option"

definition dead_job :: "job_failure \<Rightarrow> int \<Rightarrow> SettlementRecoveryJob \<Rightarrow> SettlementRecoveryJob" where
  "dead_job e completedAt j = j\<lparr>sjStatus := JobDead, sjLockedBy := None, sjLockedUntil := None,
     sjLastErrorCode := jfErrorCode e, sjLastErrorMessage := jfErrorMessage e,
     sjLastInternalErrorDetail := jfInternalErrorDetail e, sjCompletedAt := Some completedAt, sjUpdatedAt := completedAt\<rparr>"

definition MarkExhaustedSettlementRecoveryJobDead ::
  "int set \<Rightarrow> 'z job_db_scheme \<Rightarrow> job_failure \<Rightarrow> int \<Rightarrow> int \<Rightarrow> (db_error, SettlementRecoveryJob \<times> 'z job_db_scheme) go_result" where
  "MarkExhaustedSettlementRecoveryJobDead locked db e completedAt nowAt =
     (case candidate_job locked db (\<lambda>j. sjAttemptCount j \<ge> sjMaxAttempts j \<and> job_due nowAt j) of
        None \<Rightarrow> Inl ErrNoRows
      | Some j \<Rightarrow> put_job db (dead_job e completedAt j))"

text \<open>The lease of a claim: who holds it, until when, and which attempt it is.\<close>

definition holds_lease :: "string option \<Rightarrow> int option \<Rightarrow> int \<Rightarrow> SettlementRecoveryJob \<Rightarrow> bool" where
  "holds_lease lockedBy lockedUntil attemptCount j \<longleftrightarrow> sjStatus j = JobRunning \<and> lockedBy \<noteq> None \<and> sjLockedBy j = lockedBy \<and>
     lockedUntil \<noteq> None \<and> sjLockedUntil j = lockedUntil \<and> sjAttemptCount j = attemptCount"

definition MarkSettlementRecoveryJobDead ::
  "'z job_db_scheme \<Rightarrow> job_failure \<Rightarrow> int \<Rightarrow> int \<Rightarrow> string option \<Rightarrow> int option \<Rightarrow> int \<Rightarrow>
   (db_error, SettlementRecoveryJob \<times> 'z job_db_scheme) go_result" where
  "MarkSettlementRecoveryJobDead db e completedAt i lockedBy lockedUntil attemptCount =
     (case job_of db i of
        None \<Rightarrow> Inl ErrNoRows
      | Some j \<Rightarrow> if holds_lease lockedBy lockedUntil attemptCount j then put_job db (dead_job e completedAt j)
                  else Inl ErrNoRows)"

definition MarkSettlementRecoveryJobRetry ::
  "'z job_db_scheme \<Rightarrow> int \<Rightarrow> job_failure \<Rightarrow> int \<Rightarrow> int \<Rightarrow> string option \<Rightarrow> int option \<Rightarrow> int \<Rightarrow>
   (db_error, SettlementRecoveryJob \<times> 'z job_db_scheme) go_result" where
  "MarkSettlementRecoveryJobRetry db nextRunAt e updatedAt i lockedBy lockedUntil attemptCount =
     (case job_of db i of
        None \<Rightarrow> Inl ErrNoRows
      | Some j \<Rightarrow>
          if holds_lease lockedBy lockedUntil attemptCount j \<and> sjAttemptCount j < sjMaxAttempts j
          then put_job db (j\<lparr>sjStatus := JobPending, sjLockedBy := None, sjLockedUntil := None, sjNextRunAt := nextRunAt,
            sjLastErrorCode := jfErrorCode e, sjLastErrorMessage := jfErrorMessage e,
            sjLastInternalErrorDetail := jfInternalErrorDetail e, sjUpdatedAt := updatedAt\<rparr>)
          else Inl ErrNoRows)"

definition MarkSettlementRecoveryJobSucceeded ::
  "'z job_db_scheme \<Rightarrow> 'z job_db_scheme \<Rightarrow> int \<Rightarrow> int \<Rightarrow> (db_error, SettlementRecoveryJob \<times> 'z job_db_scheme) go_result" where
  "MarkSettlementRecoveryJobSucceeded seen db completedAt i =
     mark (job_of db i) (job_of seen i) (\<lambda>j. sjStatus j \<in> set [JobPending, JobRunning])
       (\<lambda>j. j\<lparr>sjStatus := JobSucceeded, sjLockedBy := None, sjLockedUntil := None, sjCompletedAt := Some completedAt,
          sjUpdatedAt := completedAt\<rparr>)
       (\<lambda>j. sjStatus j = JobSucceeded) (\<lambda>j. rbind (put_job db j) (\<lambda>(_, db'). Inr db')) db"

definition GetSettlementRecoveryJobByRequest :: "'z job_db_scheme \<Rightarrow> int \<Rightarrow> (db_error, SettlementRecoveryJob) go_result" where
  "GetSettlementRecoveryJobByRequest db requestRecordID =
     one_row (find (\<lambda>j. sjRequestRecordID j = requestRecordID) (jobs_of db))"

definition GetDeadSettlementRecoveryJobWithRunningRequest ::
  "'z job_db_scheme \<Rightarrow> (db_error, SettlementRecoveryJob) go_result" where
  "GetDeadSettlementRecoveryJobWithRunningRequest db =
     one_row (find (\<lambda>j. True) (sort_key sjID
       (filter (\<lambda>j. sjStatus j = JobDead \<and> running_request db (sjRequestRecordID j)) (jobs_of db))))"

end
