(* ===== verification/Recovery_Worker.thy ===== *)
theory Recovery_Worker
  imports Recovery_Jobs Go_Text
begin

text \<open>
  \<open>internal/app/workers/settlement_recovery_worker.go\<close>: the worker that claims recovery jobs, replays their settlement and
  reports the outcome.

  \<^item> The recoverer (\<open>RecoverChatSettlement\<close> and \<open>FinalizeDeadChatSettlement\<close>) is a parameter: it takes the job and the
    database and returns an error or nothing, with the database it leaves. Everything other processes do between two calls
    of the worker can be part of it.
  \<^item> A \<open>tick\<close> is the surroundings of one call: its instants, the rows other transactions hold, the calls that fail. A
    statement commits on its own; one that fails may have taken effect all the same (\<open>CommitReplyLost\<close>).
  \<^item> A \<open>time.Duration\<close> is in nanoseconds, an instant in microseconds, which is what the columns store.
\<close>

record recover_error =
  reCode :: string
  reText :: string

record 's recoverer =
  RecoverChatSettlement :: "SettlementRecoveryJob \<Rightarrow> 's \<Rightarrow> recover_error option \<times> 's"
  rc_FinalizeDeadChatSettlement :: "SettlementRecoveryJob \<Rightarrow> 's \<Rightarrow> recover_error option \<times> 's"

record SettlementRecoveryWorker =
  swWorkerID :: string
  swLockTTL :: int
  swBackoffCap :: int
  swBatchSize :: int

record tick =
  tkEnv :: env
  tkNow :: int
  tkReport :: int
  tkLocked :: "int set"

datatype worker_error = WorkerStoreFailed db_error string | WorkerFinalizeFailed recover_error string

definition second :: int where "second = 10 ^ 9"

definition defaultSettlementRecoveryLockTTL :: int where "defaultSettlementRecoveryLockTTL = 30 * second"
definition settlementRecoveryLockMargin :: int where "settlementRecoveryLockMargin = 5 * second"
definition maxRecoveryErrorDetailBytes :: nat where "maxRecoveryErrorDetailBytes = 2048"
definition defaultSettlementRecoveryBackoffCap :: int where "defaultSettlementRecoveryBackoffCap = 5 * 60 * second"
definition defaultSettlementRecoveryBatchSize :: int where "defaultSettlementRecoveryBatchSize = 16"

definition NewSettlementRecoveryWorker :: "string \<Rightarrow> int \<Rightarrow> int \<Rightarrow> SettlementRecoveryWorker" where
  "NewSettlementRecoveryWorker workerID lockTTL backoffCap =
     \<lparr>swWorkerID = (if workerID = '''' then ''settlement-recovery-worker'' else workerID),
      swLockTTL = (if lockTTL \<le> 0 then defaultSettlementRecoveryLockTTL else lockTTL),
      swBackoffCap = (if backoffCap \<le> 0 then defaultSettlementRecoveryBackoffCap else backoffCap),
      swBatchSize = defaultSettlementRecoveryBatchSize\<rparr>"

definition SetBatchSize :: "SettlementRecoveryWorker \<Rightarrow> int \<Rightarrow> SettlementRecoveryWorker" where
  "SetBatchSize w n = w\<lparr>swBatchSize := (if n \<le> 0 then defaultSettlementRecoveryBatchSize else n)\<rparr>"

text \<open>\<open>now.Add(d)\<close>.\<close>

definition add_duration :: "int \<Rightarrow> int \<Rightarrow> int" where "add_duration now d = now + d div 1000"

subsection \<open>Backoff and timeout\<close>

definition minDuration :: "int \<Rightarrow> int \<Rightarrow> int" where "minDuration a b = (if a < b then a else b)"

definition settlementRecoveryBackoff :: "int \<Rightarrow> int \<Rightarrow> int" where
  "settlementRecoveryBackoff attemptCount backoffCap0 =
     (let backoffCap = (if backoffCap0 \<le> 0 then defaultSettlementRecoveryBackoffCap else backoffCap0)
      in if attemptCount \<le> 1 then minDuration second backoffCap
         else let shift = (if attemptCount - 1 > 30 then 30 else attemptCount - 1);
                  backoff = wrap64 (second * wrap64 (2 ^ nat shift))
              in if backoff \<le> 0 \<or> backoff > backoffCap then backoffCap else backoff)"

definition recoveryTimeout :: "SettlementRecoveryWorker \<Rightarrow> int" where
  "recoveryTimeout w =
     (if swLockTTL w \<le> 0 then defaultSettlementRecoveryLockTTL - settlementRecoveryLockMargin
      else if swLockTTL w \<le> settlementRecoveryLockMargin
      then (let timeout = swLockTTL w div 2 in if timeout \<le> 0 then swLockTTL w else timeout)
      else swLockTTL w - settlementRecoveryLockMargin)"

subsection \<open>Error facts\<close>

definition CodeGatewayChatSettlementFailed :: string where
  "CodeGatewayChatSettlementFailed = ''gateway_chat_settlement_failed''"

definition worker_nullableText :: "string \<Rightarrow> string option" where
  "worker_nullableText v = (if v = '''' then None else Some v)"

definition truncateRecoveryErrorDetail :: "recover_error \<Rightarrow> string" where
  "truncateRecoveryErrorDetail err =
     (let detail = TrimSpace (reText err)
      in if length detail \<le> maxRecoveryErrorDetailBytes then detail
         else take maxRecoveryErrorDetailBytes detail @ ''...[truncated]'')"

definition recoveryErrorFacts :: "recover_error \<Rightarrow> string \<times> string \<times> string" where
  "recoveryErrorFacts err =
     (if reCode err = '''' then CodeGatewayChatSettlementFailed else reCode err, ''Settlement recovery failed.'',
      truncateRecoveryErrorDetail err)"

definition job_failure_of :: "string \<times> string \<times> string \<Rightarrow> job_failure" where
  "job_failure_of f = (case f of (code, msg, detail) \<Rightarrow>
     \<lparr>jfErrorCode = worker_nullableText code, jfErrorMessage = worker_nullableText msg,
      jfInternalErrorDetail = worker_nullableText detail\<rparr>)"

subsection \<open>Statements on their own\<close>

definition auto_call ::
  "env \<Rightarrow> string \<Rightarrow> 's \<Rightarrow> (db_error, 'a \<times> 's) go_result \<Rightarrow> (db_error, 'a) go_result \<times> 's" where
  "auto_call env msg db r =
     (case r of
        Inl e \<Rightarrow> (Inl (if fault env msg then ConnFailure else e), db)
      | Inr (x, db') \<Rightarrow>
          if fault env msg then (Inl ConnFailure, if commit_outcome env = CommitReplyLost then db' else db)
          else (Inr x, db'))"

text \<open>\<open>if err != nil { if errors.Is(err, pgx.ErrNoRows) { .. } .. }\<close> of the reports.\<close>

definition report :: "string \<Rightarrow> (db_error, 'a) go_result \<times> 's \<Rightarrow> worker_error option \<times> 's" where
  "report msg r = (case r of
     (Inl e, db) \<Rightarrow> (if e = ErrNoRows then None else Some (WorkerStoreFailed e msg), db)
   | (Inr _, db) \<Rightarrow> (None, db))"

subsection \<open>The worker\<close>

definition markFailed ::
  "SettlementRecoveryWorker \<Rightarrow> tick \<Rightarrow> 'z job_db_scheme \<Rightarrow> SettlementRecoveryJob \<Rightarrow> recover_error \<Rightarrow>
   worker_error option \<times> 'z job_db_scheme" where
  "markFailed w t db job recoverErr =
     (let failed = job_failure_of (recoveryErrorFacts recoverErr)
      in if sjAttemptCount job \<ge> sjMaxAttempts job
         then report ''mark settlement recovery job dead'' (auto_call (tkEnv t) ''mark settlement recovery job dead'' db
           (MarkSettlementRecoveryJobDead db failed (tkReport t) (sjID job) (sjLockedBy job) (sjLockedUntil job)
             (sjAttemptCount job)))
         else report ''mark settlement recovery job retry'' (auto_call (tkEnv t) ''mark settlement recovery job retry'' db
           (MarkSettlementRecoveryJobRetry db
             (add_duration (tkReport t) (settlementRecoveryBackoff (sjAttemptCount job) (swBackoffCap w))) failed (tkReport t)
             (sjID job) (sjLockedBy job) (sjLockedUntil job) (sjAttemptCount job))))"

definition claimAndRecoverOne ::
  "'z job_db_scheme recoverer \<Rightarrow> SettlementRecoveryWorker \<Rightarrow> tick \<Rightarrow> 'z job_db_scheme \<Rightarrow>
   (bool \<times> worker_error option) \<times> 'z job_db_scheme" where
  "claimAndRecoverOne rcv w t db =
     (case auto_call (tkEnv t) ''claim settlement recovery job'' db
        (ClaimNextSettlementRecoveryJob (tkLocked t) db (swWorkerID w) (add_duration (tkNow t) (swLockTTL w)) (tkNow t)) of
        (Inl e, db1) \<Rightarrow>
          ((False, if e = ErrNoRows then None else Some (WorkerStoreFailed e ''claim settlement recovery job'')), db1)
      | (Inr job, db1) \<Rightarrow>
          (case RecoverChatSettlement rcv job db1 of
             (Some err, db2) \<Rightarrow> (case markFailed w t db2 job err of (r, db3) \<Rightarrow> ((True, r), db3))
           | (None, db2) \<Rightarrow>
               (case auto_call (tkEnv t) ''mark settlement recovery job succeeded'' db2
                  (MarkSettlementRecoveryJobSucceeded db2 db2 (tkReport t) (sjID job)) of
                  (Inl e, db3) \<Rightarrow> ((True, Some (WorkerStoreFailed e ''mark settlement recovery job succeeded'')), db3)
                | (Inr _, db3) \<Rightarrow> ((True, None), db3))))"

definition finalizeNextDeadJob ::
  "'z job_db_scheme recoverer \<Rightarrow> tick \<Rightarrow> 'z job_db_scheme \<Rightarrow> (bool \<times> worker_error option) \<times> 'z job_db_scheme" where
  "finalizeNextDeadJob rcv t db =
     (case store_call (tkEnv t) ''find dead settlement recovery job to finalize''
        (GetDeadSettlementRecoveryJobWithRunningRequest db) of
        Inl e \<Rightarrow>
          ((False, if e = ErrNoRows then None
                   else Some (WorkerStoreFailed e ''find dead settlement recovery job to finalize'')), db)
      | Inr job \<Rightarrow>
          (case rc_FinalizeDeadChatSettlement rcv job db of
             (Some err, db') \<Rightarrow> ((True, Some (WorkerFinalizeFailed err ''finalize dead settlement recovery job'')), db')
           | (None, db') \<Rightarrow> ((True, None), db')))"

definition exhausted_facts :: job_failure where
  "exhausted_facts = job_failure_of (CodeGatewayChatSettlementFailed, ''Settlement recovery attempts exhausted.'',
     ''settlement recovery job reached max_attempts before worker could claim another retry'')"

definition markExhausted ::
  "tick \<Rightarrow> 'z job_db_scheme \<Rightarrow> (bool \<times> worker_error option) \<times> 'z job_db_scheme" where
  "markExhausted t db =
     (case auto_call (tkEnv t) ''mark exhausted settlement recovery job dead'' db
        (MarkExhaustedSettlementRecoveryJobDead (tkLocked t) db exhausted_facts (tkNow t) (tkNow t)) of
        (Inl e, db1) \<Rightarrow>
          ((False, if e = ErrNoRows then None
                   else Some (WorkerStoreFailed e ''mark exhausted settlement recovery job dead'')), db1)
      | (Inr _, db1) \<Rightarrow> ((True, None), db1))"

text \<open>The loop of \<open>RunOnce\<close>: at most \<open>n\<close> more claims, the next one at tick \<open>i\<close>.\<close>

primrec claim_batch ::
  "'z job_db_scheme recoverer \<Rightarrow> SettlementRecoveryWorker \<Rightarrow> (nat \<Rightarrow> tick) \<Rightarrow> nat \<Rightarrow> nat \<Rightarrow> bool \<Rightarrow> 'z job_db_scheme \<Rightarrow>
   (bool \<times> worker_error option) \<times> 'z job_db_scheme" where
  "claim_batch rcv w ticks 0 i worked db = ((worked, None), db)"
| "claim_batch rcv w ticks (Suc n) i worked db =
     (case claimAndRecoverOne rcv w (ticks i) db of
        ((processed, Some e), db') \<Rightarrow> ((True, Some e), db')
      | ((processed, None), db') \<Rightarrow>
          if \<not> processed then ((worked, None), db') else claim_batch rcv w ticks n (Suc i) True db')"

definition RunOnce ::
  "'z job_db_scheme recoverer \<Rightarrow> SettlementRecoveryWorker \<Rightarrow> (nat \<Rightarrow> tick) \<Rightarrow> 'z job_db_scheme \<Rightarrow>
   (bool \<times> worker_error option) \<times> 'z job_db_scheme" where
  "RunOnce rcv w ticks db =
     (case finalizeNextDeadJob rcv (ticks 0) db of
        ((worked, err), db1) \<Rightarrow>
          if worked \<or> err \<noteq> None then ((worked, err), db1)
          else case markExhausted (ticks 0) db1 of
            ((worked, err), db2) \<Rightarrow>
              if worked \<or> err \<noteq> None then ((worked, err), db2)
              else claim_batch rcv w ticks
                (nat (if swBatchSize w \<le> 0 then defaultSettlementRecoveryBatchSize else swBatchSize w)) 1 False db2)"

end
