(* ===== verification/Request_Log.thy ===== *)
theory Request_Log
  imports Request_Store
begin

text \<open>
  \<open>internal/core/requestlog\<close> (\<open>service.go\<close>, \<open>store.go\<close>): the audit log of the requests of users and of the attempts
  on upstream channels that serve them.

  \<^item> Every method is one statement. It returns the record with the database after the statement; the caller's transaction
    or the statement's own commit makes that database the committed one. \<open>seen\<close> is what the statement's snapshot shows.
  \<^item> A statement without a row is an invalid state transition, except for the two INSERTs, whose every error is a store
    failure.
\<close>

subsection \<open>service.go\<close>

record CreateRequestParams =
  cqRequestID :: string
  cqUserID :: int
  cqAPIKeyID :: int
  cqRequestedModelID :: string
  cqIngressProtocol :: string
  cqEndpoint :: string
  cqStream :: bool
  cqStartedAt :: int
  cqRouteID :: "int option"
  cqReasoningEffort :: "string option"
  cqReasoningBudgetTokens :: "int option"
  cqClientIP :: "string option"

text \<open>\<open>requestlog.RequestRecord\<close> and \<open>requestlog.AttemptRecord\<close>.\<close>

record log_request =
  lqID :: int
  lqRequestID :: string
  lqUserID :: int
  lqAPIKeyID :: int
  lqRequestedModelID :: string
  lqIngressProtocol :: string
  lqEndpoint :: string
  lqResponseModelID :: "string option"
  lqResponseProtocol :: "string option"
  lqResponseID :: "string option"
  lqStream :: bool
  lqStatus :: string
  lqFinalProviderID :: "int option"
  lqFinalChannelID :: "int option"
  lqErrorCode :: "string option"
  lqErrorMessage :: "string option"
  lqInternalErrorDetail :: "string option"
  lqDeliveryStatus :: string
  lqGatewayFirstTokenAt :: "int option"
  lqResponseCompletedAt :: "int option"
  lqStartedAt :: int
  lqCompletedAt :: "int option"

record MarkRequestSucceededParams =
  msID :: int
  msResponseModelID :: string
  msResponseProtocol :: string
  msResponseID :: string
  msFinalProviderID :: int
  msFinalChannelID :: int
  msGatewayFirstTokenAt :: "int option"
  msCompletedAt :: int

record MarkSettledRequestFailedParams = MarkRequestSucceededParams +
  mfErrorCode :: string
  mfErrorMessage :: string
  mfInternalErrorDetail :: string

type_synonym MarkSettledRequestCanceledParams = MarkSettledRequestFailedParams

record MarkRequestFailedParams =
  mrID :: int
  mrErrorCode :: string
  mrErrorMessage :: string
  mrInternalErrorDetail :: string
  mrCompletedAt :: int

type_synonym MarkRequestCanceledParams = MarkRequestFailedParams

record CreateAttemptParams =
  catRequestRecordID :: int
  catPermitID :: string
  catAttemptIndex :: int
  catProviderID :: int
  catChannelID :: int
  catAdapterKey :: string
  catUpstreamModel :: string
  catUpstreamProtocol :: string
  catOriginRevision :: "int option"
  catProviderStatusRevision :: "int option"
  catChannelConfigRevision :: "int option"
  catRoutingCandidateIndex :: "int option"
  catUpstreamEndpoint :: string
  catStartedAt :: int

record log_attempt =
  ltID :: int
  ltRequestRecordID :: int
  ltPermitID :: "string option"
  ltAttemptIndex :: int
  ltProviderID :: int
  ltChannelID :: int
  ltAdapterKey :: string
  ltUpstreamModel :: string
  ltUpstreamProtocol :: string
  ltOriginRevision :: "int option"
  ltProviderStatusRevision :: "int option"
  ltChannelConfigRevision :: "int option"
  ltRoutingCandidateIndex :: "int option"
  ltUpstreamEndpoint :: string
  ltUpstreamResponseID :: "string option"
  ltUpstreamResponseModel :: "string option"
  ltUpstreamFinishReason :: "string option"
  ltFinishClass :: "string option"
  ltStatus :: string
  ltUpstreamStatusCode :: "int option"
  ltUpstreamRequestID :: "string option"
  ltErrorCode :: "string option"
  ltErrorMessage :: "string option"
  ltInternalErrorDetail :: "string option"
  ltGatewayFirstTokenAt :: "int option"
  ltUpstreamStartedAt :: "int option"
  ltUpstreamFirstTokenAt :: "int option"
  ltUpstreamCompletedAt :: "int option"
  ltBreakerProviderDisposition :: "string option"
  ltBreakerChannelDisposition :: "string option"
  ltFinalUsageReceived :: bool
  ltUsageMappingVersion :: "string option"
  ltStartedAt :: int
  ltCompletedAt :: "int option"

record MarkAttemptSucceededParams =
  mtID :: int
  mtUpstreamResponseID :: string
  mtUpstreamResponseModel :: string
  mtUpstreamFinishReason :: string
  mtFinishClass :: string
  mtUpstreamStatusCode :: int
  mtUpstreamRequestID :: "string option"
  mtGatewayFirstTokenAt :: "int option"
  mtFinalUsageReceived :: bool
  mtUsageMappingVersion :: string
  mtCompletedAt :: int

record MarkSettledAttemptFailedParams = MarkAttemptSucceededParams +
  meErrorCode :: string
  meErrorMessage :: string
  meInternalErrorDetail :: string

type_synonym MarkSettledAttemptCanceledParams = MarkSettledAttemptFailedParams

record RecordAttemptTimingParams =
  rtID :: int
  rtUpstreamStartedAt :: "int option"
  rtUpstreamFirstTokenAt :: "int option"
  rtUpstreamCompletedAt :: "int option"
  rtUpstreamTimeoutPhase :: string

record RecordAttemptBreakerDispositionParams =
  rdID :: int
  rdProviderDisposition :: string
  rdChannelDisposition :: string

record RecordAttemptScoringSampleParams =
  rsID :: int
  rsTTFTScoringSample :: bool
  rsErrorScoringSample :: bool
  rsErrorScoringFailure :: bool

record MarkAttemptCanceledParams =
  mcID :: int
  mcErrorCode :: string
  mcErrorMessage :: string
  mcInternalErrorDetail :: string
  mcCompletedAt :: int

record MarkAttemptFailedParams = MarkAttemptCanceledParams +
  mcUpstreamStatusCode :: "int option"
  mcUpstreamRequestID :: "string option"

subsection \<open>Failures and conversions (store.go)\<close>

datatype log_cause = StoreCause db_error | IncompleteIdentity | ErrInvalidStateTransition

datatype log_error =
    RequestLogStoreFailed log_cause string
  | RequestLogInvalidStateTransition log_cause string

definition requestLogStoreFailure :: "log_cause \<Rightarrow> string \<Rightarrow> log_error" where
  "requestLogStoreFailure err msg = RequestLogStoreFailed err msg"

definition requestLogStateTransitionFailure :: "string \<Rightarrow> log_error" where
  "requestLogStateTransitionFailure msg = RequestLogInvalidStateTransition ErrInvalidStateTransition msg"

definition textOrNull :: "string option \<Rightarrow> string option" where
  "textOrNull v = (case v of None \<Rightarrow> None | Some s \<Rightarrow> if s = '''' then None else Some s)"

definition optionalNonEmptyText :: "string \<Rightarrow> string option" where
  "optionalNonEmptyText v = (if v = '''' then None else Some v)"

definition nullableText :: "string \<Rightarrow> string option" where
  "nullableText v = (if v = '''' then None else Some v)"

definition optionalInt4 :: "int option \<Rightarrow> int option" where
  "optionalInt4 v = (case v of None \<Rightarrow> None | Some n \<Rightarrow> Some (wrap32 n))"

definition requestRecordFromSQLC :: "RequestRecord \<Rightarrow> log_request" where
  "requestRecordFromSQLC row =
     \<lparr>lqID = rrID row, lqRequestID = rrRequestID row, lqUserID = rrUserID row, lqAPIKeyID = rrApiKeyID row,
      lqRequestedModelID = rrRequestedModelID row, lqIngressProtocol = rrIngressProtocol row,
      lqEndpoint = rrEndpoint row, lqResponseModelID = rrResponseModelID row,
      lqResponseProtocol = rrResponseProtocol row, lqResponseID = rrResponseID row, lqStream = rrStream row,
      lqStatus = rrStatus row, lqFinalProviderID = rrFinalProviderID row, lqFinalChannelID = rrFinalChannelID row,
      lqErrorCode = rrErrorCode row, lqErrorMessage = rrErrorMessage row,
      lqInternalErrorDetail = rrInternalErrorDetail row, lqDeliveryStatus = rrDeliveryStatus row,
      lqGatewayFirstTokenAt = rrGatewayFirstTokenAt row, lqResponseCompletedAt = rrResponseCompletedAt row,
      lqStartedAt = rrStartedAt row, lqCompletedAt = rrCompletedAt row\<rparr>"

definition attemptRecordFromSQLC :: "RequestAttempt \<Rightarrow> log_attempt" where
  "attemptRecordFromSQLC row =
     \<lparr>ltID = raID row, ltRequestRecordID = raRequestRecordID row, ltPermitID = raPermitID row,
      ltAttemptIndex = raAttemptIndex row, ltProviderID = raProviderID row, ltChannelID = raChannelID row,
      ltAdapterKey = raAdapterKey row, ltUpstreamModel = raUpstreamModel row, ltUpstreamProtocol = raUpstreamProtocol row,
      ltOriginRevision = Some (raProviderOriginRevision row),
      ltProviderStatusRevision = Some (raProviderStatusRevision row),
      ltChannelConfigRevision = Some (raChannelConfigRevision row),
      ltRoutingCandidateIndex = Some (raRoutingCandidateIndex row), ltUpstreamEndpoint = raUpstreamEndpoint row,
      ltUpstreamResponseID = raUpstreamResponseID row, ltUpstreamResponseModel = raUpstreamResponseModel row,
      ltUpstreamFinishReason = raUpstreamFinishReason row, ltFinishClass = raFinishClass row, ltStatus = raStatus row,
      ltUpstreamStatusCode = raUpstreamStatusCode row, ltUpstreamRequestID = raUpstreamRequestID row,
      ltErrorCode = raErrorCode row, ltErrorMessage = raErrorMessage row,
      ltInternalErrorDetail = raInternalErrorDetail row, ltGatewayFirstTokenAt = raGatewayFirstTokenAt row,
      ltUpstreamStartedAt = raUpstreamStartedAt row, ltUpstreamFirstTokenAt = raUpstreamFirstTokenAt row,
      ltUpstreamCompletedAt = raUpstreamCompletedAt row,
      ltBreakerProviderDisposition = raBreakerProviderDisposition row,
      ltBreakerChannelDisposition = raBreakerChannelDisposition row, ltFinalUsageReceived = raFinalUsageReceived row,
      ltUsageMappingVersion = raUsageMappingVersion row, ltStartedAt = raStartedAt row, ltCompletedAt = raCompletedAt row\<rparr>"

subsection \<open>Requests (store.go)\<close>

text \<open>\<open>if err != nil \<dots> return requestRecordFromSQLC(row), nil\<close> of the methods on existing rows.\<close>

definition logged ::
  "'e env_scheme \<Rightarrow> string \<Rightarrow> ('r \<Rightarrow> 'a) \<Rightarrow> (db_error, 'r \<times> 's) go_result \<Rightarrow> (log_error, 'a \<times> 's) go_result" where
  "logged env msg conv r =
     (case store_call env msg r of
        Inl e \<Rightarrow> Inl (if e = ErrNoRows then requestLogStateTransitionFailure msg
                       else requestLogStoreFailure (StoreCause e) msg)
      | Inr (row, db') \<Rightarrow> Inr (conv row, db'))"

text \<open>The same of the methods that create a row.\<close>

definition created ::
  "'e env_scheme \<Rightarrow> string \<Rightarrow> ('r \<Rightarrow> 'a) \<Rightarrow> (db_error, 'r \<times> 's) go_result \<Rightarrow> (log_error, 'a \<times> 's) go_result" where
  "created env msg conv r =
     (case store_call env msg r of
        Inl e \<Rightarrow> Inl (requestLogStoreFailure (StoreCause e) msg)
      | Inr (row, db') \<Rightarrow> Inr (conv row, db'))"

definition CreateRequest ::
  "'e env_scheme \<Rightarrow> 'z request_db_scheme \<Rightarrow> CreateRequestParams \<Rightarrow> (log_error, log_request \<times> 'z request_db_scheme) go_result" where
  "CreateRequest env db p =
     created env ''create request record'' requestRecordFromSQLC (CreateRequestRecord (clock env) db
       \<lparr>crrRequestID = cqRequestID p, crrUserID = cqUserID p, crrApiKeyID = cqAPIKeyID p,
        crrRequestedModelID = cqRequestedModelID p, crrIngressProtocol = cqIngressProtocol p, crrEndpoint = cqEndpoint p,
        crrResponseModelID = None, crrResponseProtocol = None, crrResponseID = None, crrStream = cqStream p,
        crrStatus = RequestStatusPending, crrFinalProviderID = None, crrFinalChannelID = None, crrErrorCode = None,
        crrErrorMessage = None, crrInternalErrorDetail = None, crrDeliveryStatus = DeliveryStatusNotStarted,
        crrGatewayFirstTokenAt = None, crrResponseCompletedAt = None, crrStartedAt = cqStartedAt p,
        crrCompletedAt = None, crrRouteID = cqRouteID p, crrReasoningEffort = textOrNull (cqReasoningEffort p),
        crrReasoningBudgetTokens = cqReasoningBudgetTokens p, crrClientIp = textOrNull (cqClientIP p)\<rparr>)"

definition log_MarkRequestRunning ::
  "'e env_scheme \<Rightarrow> 'z request_db_scheme \<Rightarrow> 'z request_db_scheme \<Rightarrow> int \<Rightarrow>
   (log_error, log_request \<times> 'z request_db_scheme) go_result" where
  "log_MarkRequestRunning env seen db i =
     logged env ''mark request running'' requestRecordFromSQLC (MarkRequestRunning (clock env) seen db i)"

definition log_MarkRequestDeliveryStarted ::
  "'e env_scheme \<Rightarrow> 'z request_db_scheme \<Rightarrow> 'z request_db_scheme \<Rightarrow> int \<Rightarrow>
   (log_error, log_request \<times> 'z request_db_scheme) go_result" where
  "log_MarkRequestDeliveryStarted env seen db i =
     logged env ''mark request delivery started'' requestRecordFromSQLC
       (MarkRequestDeliveryStarted (clock env) seen db i)"

definition log_MarkRequestGatewayFirstToken ::
  "'e env_scheme \<Rightarrow> 'z request_db_scheme \<Rightarrow> 'z request_db_scheme \<Rightarrow> int \<Rightarrow> int \<Rightarrow>
   (log_error, log_request \<times> 'z request_db_scheme) go_result" where
  "log_MarkRequestGatewayFirstToken env seen db i firstTokenAt =
     logged env ''mark request response started'' requestRecordFromSQLC
       (MarkRequestGatewayFirstToken (clock env) seen db firstTokenAt i)"

definition log_MarkRequestDeliveryCompleted ::
  "'e env_scheme \<Rightarrow> 'z request_db_scheme \<Rightarrow> 'z request_db_scheme \<Rightarrow> int \<Rightarrow> int \<Rightarrow>
   (log_error, log_request \<times> 'z request_db_scheme) go_result" where
  "log_MarkRequestDeliveryCompleted env seen db i completedAt =
     logged env ''mark request delivery completed'' requestRecordFromSQLC
       (MarkRequestDeliveryCompleted (clock env) seen db completedAt i)"

definition log_MarkRequestDeliveryInterrupted ::
  "'e env_scheme \<Rightarrow> 'z request_db_scheme \<Rightarrow> 'z request_db_scheme \<Rightarrow> int \<Rightarrow>
   (log_error, log_request \<times> 'z request_db_scheme) go_result" where
  "log_MarkRequestDeliveryInterrupted env seen db i =
     logged env ''mark request delivery interrupted'' requestRecordFromSQLC
       (MarkRequestDeliveryInterrupted (clock env) seen db i)"

definition request_outcome :: "'x MarkRequestSucceededParams_scheme \<Rightarrow> sqlRequestOutcome" where
  "request_outcome p =
     \<lparr>soResponseModelID = Some (msResponseModelID p), soResponseProtocol = Some (msResponseProtocol p),
      soResponseID = Some (msResponseID p), soFinalProviderID = Some (msFinalProviderID p),
      soFinalChannelID = Some (msFinalChannelID p), soGatewayFirstTokenAt = msGatewayFirstTokenAt p,
      soCompletedAt = msCompletedAt p, soRequestRecordID = msID p\<rparr>"

definition error_facts :: "string \<Rightarrow> string \<Rightarrow> string \<Rightarrow> sqlErrorFacts" where
  "error_facts code msg detail =
     \<lparr>seErrorCode = Some code, seErrorMessage = Some msg, seInternalErrorDetail = nullableText detail\<rparr>"

definition log_MarkRequestSucceeded ::
  "'e env_scheme \<Rightarrow> 'z request_db_scheme \<Rightarrow> 'z request_db_scheme \<Rightarrow> MarkRequestSucceededParams \<Rightarrow>
   (log_error, log_request \<times> 'z request_db_scheme) go_result" where
  "log_MarkRequestSucceeded env seen db p =
     logged env ''mark request succeeded'' requestRecordFromSQLC
       (MarkRequestSucceeded (clock env) seen db (request_outcome p))"

definition log_MarkSettledRequestCanceled ::
  "'e env_scheme \<Rightarrow> 'z request_db_scheme \<Rightarrow> 'z request_db_scheme \<Rightarrow> MarkSettledRequestCanceledParams \<Rightarrow>
   (log_error, log_request \<times> 'z request_db_scheme) go_result" where
  "log_MarkSettledRequestCanceled env seen db p =
     logged env ''mark settled request canceled'' requestRecordFromSQLC
       (MarkSettledRequestCanceled (clock env) seen db
         (error_facts (mfErrorCode p) (mfErrorMessage p) (mfInternalErrorDetail p)) (request_outcome p))"

definition log_MarkSettledRequestFailed ::
  "'e env_scheme \<Rightarrow> 'z request_db_scheme \<Rightarrow> 'z request_db_scheme \<Rightarrow> MarkSettledRequestFailedParams \<Rightarrow>
   (log_error, log_request \<times> 'z request_db_scheme) go_result" where
  "log_MarkSettledRequestFailed env seen db p =
     logged env ''mark settled request failed'' requestRecordFromSQLC
       (MarkSettledRequestFailed (clock env) seen db
         (error_facts (mfErrorCode p) (mfErrorMessage p) (mfInternalErrorDetail p)) (request_outcome p))"

definition log_MarkRequestFailed ::
  "'e env_scheme \<Rightarrow> 'z request_db_scheme \<Rightarrow> 'z request_db_scheme \<Rightarrow> MarkRequestFailedParams \<Rightarrow>
   (log_error, log_request \<times> 'z request_db_scheme) go_result" where
  "log_MarkRequestFailed env seen db p =
     logged env ''mark request failed'' requestRecordFromSQLC
       (MarkRequestFailed (clock env) seen db
         (error_facts (mrErrorCode p) (mrErrorMessage p) (mrInternalErrorDetail p)) (mrCompletedAt p) (mrID p))"

definition log_MarkRequestCanceled ::
  "'e env_scheme \<Rightarrow> 'z request_db_scheme \<Rightarrow> 'z request_db_scheme \<Rightarrow> MarkRequestCanceledParams \<Rightarrow>
   (log_error, log_request \<times> 'z request_db_scheme) go_result" where
  "log_MarkRequestCanceled env seen db p =
     logged env ''mark request canceled'' requestRecordFromSQLC
       (MarkRequestCanceled (clock env) seen db
         (error_facts (mrErrorCode p) (mrErrorMessage p) (mrInternalErrorDetail p)) (mrCompletedAt p) (mrID p))"

subsection \<open>Attempts (store.go)\<close>

definition CreateAttempt ::
  "'e env_scheme \<Rightarrow> 'z request_db_scheme \<Rightarrow> CreateAttemptParams \<Rightarrow> (log_error, log_attempt \<times> 'z request_db_scheme) go_result" where
  "CreateAttempt env db p =
     (case (catOriginRevision p, catProviderStatusRevision p, catChannelConfigRevision p, catRoutingCandidateIndex p) of
        (Some origin, Some status, Some config, Some index) \<Rightarrow>
          if catProviderID p \<le> 0 \<or> origin \<le> 0 \<or> status \<le> 0 \<or> config \<le> 0 \<or> index < 0 \<or> catUpstreamEndpoint p = ''''
          then Inl (requestLogStoreFailure IncompleteIdentity ''create request attempt'')
          else created env ''create request attempt'' attemptRecordFromSQLC (CreateRequestAttempt (clock env) db
            \<lparr>craPermitID = optionalNonEmptyText (catPermitID p), craAttemptIndex = wrap32 (catAttemptIndex p),
             craProviderID = catProviderID p, craChannelID = catChannelID p, craAdapterKey = catAdapterKey p,
             craUpstreamModel = catUpstreamModel p, craUpstreamProtocol = catUpstreamProtocol p,
             craUpstreamResponseID = None, craUpstreamResponseModel = None, craUpstreamFinishReason = None,
             craFinishClass = None, craStatus = AttemptStatusRunning, craUpstreamStatusCode = None,
             craUpstreamRequestID = None, craErrorCode = None, craErrorMessage = None, craInternalErrorDetail = None,
             craGatewayFirstTokenAt = None, craFinalUsageReceived = False, craUsageMappingVersion = None,
             craStartedAt = catStartedAt p, craCompletedAt = None, craProviderOriginRevision = origin,
             craProviderStatusRevision = status, craChannelConfigRevision = config,
             craRoutingCandidateIndex = wrap32 index, craUpstreamEndpoint = catUpstreamEndpoint p,
             craRequestRecordID = catRequestRecordID p\<rparr>)
      | _ \<Rightarrow> Inl (requestLogStoreFailure IncompleteIdentity ''create request attempt''))"

definition log_MarkAttemptGatewayFirstToken ::
  "'e env_scheme \<Rightarrow> 'z request_db_scheme \<Rightarrow> 'z request_db_scheme \<Rightarrow> int \<Rightarrow> int \<Rightarrow>
   (log_error, log_attempt \<times> 'z request_db_scheme) go_result" where
  "log_MarkAttemptGatewayFirstToken env seen db i firstTokenAt =
     logged env ''mark request attempt gateway first token'' attemptRecordFromSQLC
       (MarkRequestAttemptGatewayFirstToken seen db firstTokenAt i)"

definition RecordAttemptTiming ::
  "'e env_scheme \<Rightarrow> 'z request_db_scheme \<Rightarrow> RecordAttemptTimingParams \<Rightarrow>
   (log_error, log_attempt \<times> 'z request_db_scheme) go_result" where
  "RecordAttemptTiming env db p =
     logged env ''record request attempt upstream timing'' attemptRecordFromSQLC
       (RecordRequestAttemptUpstreamTiming db
         \<lparr>atStartedAt = rtUpstreamStartedAt p, atFirstTokenAt = rtUpstreamFirstTokenAt p,
          atCompletedAt = rtUpstreamCompletedAt p, atTimeoutPhase = optionalNonEmptyText (rtUpstreamTimeoutPhase p)\<rparr>
         (rtID p))"

definition RecordAttemptScoringSample ::
  "'e env_scheme \<Rightarrow> 'z request_db_scheme \<Rightarrow> RecordAttemptScoringSampleParams \<Rightarrow>
   (log_error, 'z request_db_scheme) go_result" where
  "RecordAttemptScoringSample env db p =
     (let msg = ''record request attempt scoring sample''
      in case store_call env msg (RecordRequestAttemptScoringSample db (rsTTFTScoringSample p) (rsErrorScoringSample p)
             (rsErrorScoringFailure p) (rsID p)) of
           Inl e \<Rightarrow> Inl (requestLogStoreFailure (StoreCause e) msg)
         | Inr db' \<Rightarrow> Inr db')"

definition RecordAttemptBreakerDisposition ::
  "'e env_scheme \<Rightarrow> 'z request_db_scheme \<Rightarrow> RecordAttemptBreakerDispositionParams \<Rightarrow>
   (log_error, log_attempt \<times> 'z request_db_scheme) go_result" where
  "RecordAttemptBreakerDisposition env db p =
     logged env ''record request attempt breaker disposition'' attemptRecordFromSQLC
       (RecordRequestAttemptBreakerDisposition db (optionalNonEmptyText (rdProviderDisposition p))
         (optionalNonEmptyText (rdChannelDisposition p)) (rdID p))"

definition attempt_outcome :: "'x MarkAttemptSucceededParams_scheme \<Rightarrow> sqlAttemptOutcome" where
  "attempt_outcome p =
     \<lparr>aoUpstreamResponseID = Some (mtUpstreamResponseID p), aoUpstreamResponseModel = Some (mtUpstreamResponseModel p),
      aoUpstreamFinishReason = Some (mtUpstreamFinishReason p), aoFinishClass = Some (mtFinishClass p),
      aoUpstreamStatusCode = Some (wrap32 (mtUpstreamStatusCode p)), aoUpstreamRequestID = mtUpstreamRequestID p,
      aoGatewayFirstTokenAt = mtGatewayFirstTokenAt p, aoFinalUsageReceived = mtFinalUsageReceived p,
      aoUsageMappingVersion = Some (mtUsageMappingVersion p), aoCompletedAt = mtCompletedAt p, aoAttemptID = mtID p\<rparr>"

definition MarkAttemptSucceeded ::
  "'e env_scheme \<Rightarrow> 'z request_db_scheme \<Rightarrow> 'z request_db_scheme \<Rightarrow> MarkAttemptSucceededParams \<Rightarrow>
   (log_error, log_attempt \<times> 'z request_db_scheme) go_result" where
  "MarkAttemptSucceeded env seen db p =
     logged env ''mark request attempt succeeded'' attemptRecordFromSQLC
       (MarkRequestAttemptSucceeded seen db (attempt_outcome p))"

definition MarkSettledAttemptCanceled ::
  "'e env_scheme \<Rightarrow> 'z request_db_scheme \<Rightarrow> 'z request_db_scheme \<Rightarrow> MarkSettledAttemptCanceledParams \<Rightarrow>
   (log_error, log_attempt \<times> 'z request_db_scheme) go_result" where
  "MarkSettledAttemptCanceled env seen db p =
     logged env ''mark settled request attempt canceled'' attemptRecordFromSQLC
       (MarkSettledRequestAttemptCanceled seen db
         (error_facts (meErrorCode p) (meErrorMessage p) (meInternalErrorDetail p)) (attempt_outcome p))"

definition MarkSettledAttemptFailed ::
  "'e env_scheme \<Rightarrow> 'z request_db_scheme \<Rightarrow> 'z request_db_scheme \<Rightarrow> MarkSettledAttemptFailedParams \<Rightarrow>
   (log_error, log_attempt \<times> 'z request_db_scheme) go_result" where
  "MarkSettledAttemptFailed env seen db p =
     logged env ''mark settled request attempt failed'' attemptRecordFromSQLC
       (MarkSettledRequestAttemptFailed seen db
         (error_facts (meErrorCode p) (meErrorMessage p) (meInternalErrorDetail p)) (attempt_outcome p))"

definition MarkAttemptFailed ::
  "'e env_scheme \<Rightarrow> 'z request_db_scheme \<Rightarrow> 'z request_db_scheme \<Rightarrow> MarkAttemptFailedParams \<Rightarrow>
   (log_error, log_attempt \<times> 'z request_db_scheme) go_result" where
  "MarkAttemptFailed env seen db p =
     logged env ''mark request attempt failed'' attemptRecordFromSQLC
       (MarkRequestAttemptFailed seen db (optionalInt4 (mcUpstreamStatusCode p)) (mcUpstreamRequestID p)
         (error_facts (mcErrorCode p) (mcErrorMessage p) (mcInternalErrorDetail p)) (mcCompletedAt p) (mcID p))"

definition MarkAttemptCanceled ::
  "'e env_scheme \<Rightarrow> 'z request_db_scheme \<Rightarrow> 'z request_db_scheme \<Rightarrow> MarkAttemptCanceledParams \<Rightarrow>
   (log_error, log_attempt \<times> 'z request_db_scheme) go_result" where
  "MarkAttemptCanceled env seen db p =
     logged env ''mark request attempt canceled'' attemptRecordFromSQLC
       (MarkRequestAttemptCanceled seen db
         (error_facts (mcErrorCode p) (mcErrorMessage p) (mcInternalErrorDetail p)) (mcCompletedAt p) (mcID p))"

end
