(* ===== verification/Request_Machine.thy ===== *)
theory Request_Machine
  imports Request_Log Transitions
begin

text \<open>
  The request log as a state machine: any sequence of the methods of \<open>requestlog.Store\<close>, with any parameters, clocks,
  snapshots and store failures. \<open>request_le\<close> and \<open>attempt_le\<close> say how a row may differ from an earlier version of
  itself; every statement moves along them, so every run does.
\<close>

subsection \<open>How a row may change\<close>

definition terminal_statuses :: "string list" where
  "terminal_statuses = [RequestStatusSucceeded, RequestStatusFailed, RequestStatusCanceled]"

abbreviation settled :: "RequestRecord \<Rightarrow> bool" where "settled r \<equiv> rrStatus r \<in> set terminal_statuses"

abbreviation attempt_over :: "RequestAttempt \<Rightarrow> bool" where "attempt_over a \<equiv> raStatus a \<in> set terminal_statuses"

text \<open>\<open>pending\<close>, then \<open>running\<close>, then one of the three final states.\<close>

definition lifecycle :: "string \<Rightarrow> string \<Rightarrow> bool" where
  "lifecycle s s' \<longleftrightarrow> s = s' \<or> (s = RequestStatusPending \<and> s' = RequestStatusRunning) \<or>
     (s \<in> set [RequestStatusPending, RequestStatusRunning] \<and> s' \<in> set terminal_statuses)"

definition delivery :: "string \<Rightarrow> string \<Rightarrow> bool" where
  "delivery s s' \<longleftrightarrow> s = s' \<or> (s = DeliveryStatusNotStarted \<and> s' = DeliveryStatusInProgress) \<or>
     (s \<in> set [DeliveryStatusNotStarted, DeliveryStatusInProgress] \<and>
      s' \<in> set [DeliveryStatusCompleted, DeliveryStatusInterrupted])"

text \<open>A fact that is written once.\<close>

definition kept :: "'a option \<Rightarrow> 'a option \<Rightarrow> bool" where "kept a b \<longleftrightarrow> a = None \<or> b = a"

text \<open>What a request is, and what its settlement says of it.\<close>

definition request_identity :: "RequestRecord \<Rightarrow> _" where
  "request_identity r = (rrID r, rrRequestID r, rrUserID r, rrApiKeyID r, rrRequestedModelID r, rrIngressProtocol r,
     rrEndpoint r, rrStream r, rrStartedAt r, rrCreatedAt r, rrRouteID r, rrReasoningEffort r, rrReasoningBudgetTokens r,
     rrClientIp r)"

definition request_facts :: "RequestRecord \<Rightarrow> _" where
  "request_facts r = (rrResponseModelID r, rrResponseProtocol r, rrResponseID r, rrFinalProviderID r, rrFinalChannelID r,
     rrErrorCode r, rrErrorMessage r, rrInternalErrorDetail r, rrCompletedAt r)"

definition request_le :: "RequestRecord \<Rightarrow> RequestRecord \<Rightarrow> bool" where
  "request_le r r' \<longleftrightarrow> request_identity r' = request_identity r \<and> lifecycle (rrStatus r) (rrStatus r') \<and>
     delivery (rrDeliveryStatus r) (rrDeliveryStatus r') \<and> (settled r \<longrightarrow> request_facts r' = request_facts r) \<and>
     kept (rrGatewayFirstTokenAt r) (rrGatewayFirstTokenAt r') \<and>
     (rrDeliveryStatus r \<in> set [DeliveryStatusCompleted, DeliveryStatusInterrupted] \<longrightarrow>
        rrResponseCompletedAt r' = rrResponseCompletedAt r)"

definition attempt_identity :: "RequestAttempt \<Rightarrow> _" where
  "attempt_identity a = (raID a, raRequestRecordID a, raAttemptIndex a, raProviderID a, raChannelID a, raAdapterKey a,
     raUpstreamModel a, raUpstreamProtocol a, raStartedAt a, raCreatedAt a, raProviderOriginRevision a,
     raProviderStatusRevision a, raChannelConfigRevision a, raRoutingCandidateIndex a, raUpstreamEndpoint a, raPermitID a)"

definition attempt_facts :: "RequestAttempt \<Rightarrow> _" where
  "attempt_facts a = (raUpstreamResponseID a, raUpstreamResponseModel a, raUpstreamFinishReason a, raFinishClass a,
     raUpstreamStatusCode a, raUpstreamRequestID a, raErrorCode a, raErrorMessage a, raInternalErrorDetail a,
     raFinalUsageReceived a, raUsageMappingVersion a, raCompletedAt a)"

definition attempt_le :: "RequestAttempt \<Rightarrow> RequestAttempt \<Rightarrow> bool" where
  "attempt_le a b \<longleftrightarrow> attempt_identity b = attempt_identity a \<and>
     (raStatus a = raStatus b \<or> (raStatus a = AttemptStatusRunning \<and> attempt_over b)) \<and>
     (attempt_over a \<longrightarrow> attempt_facts b = attempt_facts a) \<and>
     kept (raGatewayFirstTokenAt a) (raGatewayFirstTokenAt b) \<and> kept (raUpstreamStartedAt a) (raUpstreamStartedAt b) \<and>
     kept (raUpstreamFirstTokenAt a) (raUpstreamFirstTokenAt b) \<and>
     kept (raUpstreamCompletedAt a) (raUpstreamCompletedAt b) \<and>
     kept (raUpstreamTimeoutPhase a) (raUpstreamTimeoutPhase b) \<and>
     kept (raBreakerProviderDisposition a) (raBreakerProviderDisposition b) \<and>
     kept (raBreakerChannelDisposition a) (raBreakerChannelDisposition b) \<and>
     (raTtftScoringSample a \<longrightarrow> raTtftScoringSample b) \<and> (raErrorScoringSample a \<longrightarrow> raErrorScoringSample b) \<and>
     (raErrorScoringFailure a \<longrightarrow> raErrorScoringFailure b)"

lemma kept_refl [simp]: "kept a a"
  and kept_coalesce [simp]: "kept a (coalesce a b)"
  by (auto simp: kept_def coalesce_def split: option.split)

lemma kept_trans: "kept a b \<Longrightarrow> kept b c \<Longrightarrow> kept a c"
  by (auto simp: kept_def)

lemma lifecycle_refl [simp]: "lifecycle s s" and delivery_refl [simp]: "delivery s s"
  by (simp_all add: lifecycle_def delivery_def)

lemma lifecycle_trans: "lifecycle a b \<Longrightarrow> lifecycle b c \<Longrightarrow> lifecycle a c"
  unfolding lifecycle_def terminal_statuses_def by auto

lemma delivery_trans: "delivery a b \<Longrightarrow> delivery b c \<Longrightarrow> delivery a c"
  unfolding delivery_def by auto

lemma lifecycle_final: "lifecycle s s' \<Longrightarrow> s \<in> set terminal_statuses \<Longrightarrow> s' = s"
  by (auto simp: lifecycle_def terminal_statuses_def)

lemma delivery_final: "delivery s s' \<Longrightarrow> s \<in> set [DeliveryStatusCompleted, DeliveryStatusInterrupted] \<Longrightarrow> s' = s"
  by (auto simp: delivery_def)

lemma request_le_refl [simp]: "request_le r r" and attempt_le_refl [simp]: "attempt_le a a"
  by (simp_all add: request_le_def attempt_le_def)

lemma request_le_trans: "request_le a b \<Longrightarrow> request_le b c \<Longrightarrow> request_le a c"
  unfolding request_le_def
  by (elim conjE, intro conjI impI)
    (simp, blast intro: lifecycle_trans, blast intro: delivery_trans,
     metis lifecycle_final, blast intro: kept_trans, metis delivery_final)

lemma running_not_over: "AttemptStatusRunning \<notin> set terminal_statuses" "RequestStatusPending \<notin> set terminal_statuses"
  by (simp_all add: terminal_statuses_def)

lemma attempt_le_trans:
  assumes "attempt_le a b" "attempt_le b c"
  shows "attempt_le a c"
proof -
  have "raStatus a = raStatus c \<or> (raStatus a = AttemptStatusRunning \<and> attempt_over c)"
    using assms running_not_over unfolding attempt_le_def by metis
  moreover have "attempt_over a \<Longrightarrow> attempt_facts c = attempt_facts a"
    using assms running_not_over unfolding attempt_le_def by metis
  ultimately show ?thesis
    using assms unfolding attempt_le_def by (elim conjE, intro conjI impI) (simp | blast intro: kept_trans)+
qed

subsection \<open>The invariant\<close>

definition failed_statuses :: "string list" where "failed_statuses = [RequestStatusFailed, RequestStatusCanceled]"

text \<open>A final request has its completion time, a failed one its error code, a successful one where it was served.\<close>

definition request_ok :: "RequestRecord \<Rightarrow> bool" where
  "request_ok r \<longleftrightarrow> (settled r \<longleftrightarrow> rrCompletedAt r \<noteq> None) \<and>
     (rrStatus r \<in> set failed_statuses \<longleftrightarrow> rrErrorCode r \<noteq> None) \<and>
     (rrStatus r = RequestStatusSucceeded \<longrightarrow>
        rrFinalProviderID r \<noteq> None \<and> rrFinalChannelID r \<noteq> None \<and> rrResponseID r \<noteq> None)"

definition attempt_ok :: "RequestAttempt \<Rightarrow> bool" where
  "attempt_ok a \<longleftrightarrow> (attempt_over a \<longleftrightarrow> raCompletedAt a \<noteq> None) \<and>
     (raStatus a \<in> set failed_statuses \<longleftrightarrow> raErrorCode a \<noteq> None)"

definition requests_wf :: "'z request_db_scheme \<Rightarrow> bool" where
  "requests_wf db \<longleftrightarrow> distinct (map rrID (request_records db)) \<and> distinct (map rrRequestID (request_records db)) \<and>
     (\<forall>r \<in> set (request_records db). rrID r < request_record_seq db \<and> check_request_record r \<and> request_ok r)"

definition attempts_wf :: "'z request_db_scheme \<Rightarrow> bool" where
  "attempts_wf db \<longleftrightarrow> distinct (map raID (request_attempts db)) \<and>
     distinct (map (\<lambda>a. (raRequestRecordID a, raAttemptIndex a)) (request_attempts db)) \<and>
     distinct (filter (\<lambda>p. p \<noteq> None) (map raPermitID (request_attempts db))) \<and>
     (\<forall>a \<in> set (request_attempts db). raID a < request_attempt_seq db \<and> check_request_attempt a \<and> attempt_ok a)"

text \<open>An attempt belongs to a request that has left \<open>pending\<close>.\<close>

definition attempts_guarded :: "'z request_db_scheme \<Rightarrow> bool" where
  "attempts_guarded db \<longleftrightarrow> (\<forall>a \<in> set (request_attempts db). \<exists>r \<in> set (request_records db).
     rrID r = raRequestRecordID a \<and> rrStatus r \<noteq> RequestStatusPending)"

definition log_inv :: "'z request_db_scheme \<Rightarrow> bool" where
  "log_inv db \<longleftrightarrow> requests_wf db \<and> attempts_wf db \<and> attempts_guarded db"

definition log_le :: "'z request_db_scheme \<Rightarrow> 'z request_db_scheme \<Rightarrow> bool" where
  "log_le db db' \<longleftrightarrow>
     (\<forall>r \<in> set (request_records db). \<exists>r' \<in> set (request_records db'). request_le r r') \<and>
     (\<forall>a \<in> set (request_attempts db). \<exists>a' \<in> set (request_attempts db'). attempt_le a a')"

lemma log_le_refl: "log_le db db"
  unfolding log_le_def by (meson attempt_le_refl request_le_refl)

lemma log_le_trans: "log_le a b \<Longrightarrow> log_le b c \<Longrightarrow> log_le a c"
  unfolding log_le_def by (meson attempt_le_trans request_le_trans)

subsection \<open>What a statement does\<close>

text \<open>A request moves on, an attempt moves on, one of the two is created, or nothing happens.\<close>

inductive log_edit :: "'z request_db_scheme \<Rightarrow> 'z request_db_scheme \<Rightarrow> bool" where
  nothing: "log_edit db db"
| request_moves: "request_of db (rrID r) = Some r \<Longrightarrow> request_le r r' \<Longrightarrow> check_request_record r' \<Longrightarrow>
    (request_ok r \<longrightarrow> request_ok r') \<Longrightarrow>
    log_edit db (db\<lparr>request_records := map (\<lambda>x. if rrID x = rrID r' then r' else x) (request_records db)\<rparr>)"
| attempt_moves: "attempt_of db (raID a) = Some a \<Longrightarrow> attempt_le a a' \<Longrightarrow> check_request_attempt a' \<Longrightarrow>
    (attempt_ok a \<longrightarrow> attempt_ok a') \<Longrightarrow>
    log_edit db (db\<lparr>request_attempts := map (\<lambda>x. if raID x = raID a' then a' else x) (request_attempts db)\<rparr>)"
| new_request: "rrID r = request_record_seq db \<Longrightarrow> check_request_record r \<Longrightarrow> request_ok r \<Longrightarrow>
    rrRequestID r \<notin> rrRequestID ` set (request_records db) \<Longrightarrow>
    log_edit db (db\<lparr>request_records := request_records db @ [r], request_record_seq := request_record_seq db + 1\<rparr>)"
| new_attempt: "raID a = request_attempt_seq db \<Longrightarrow> check_request_attempt a \<Longrightarrow> attempt_ok a \<Longrightarrow>
    \<exists>r \<in> set (request_records db). rrID r = raRequestRecordID a \<and> rrStatus r = RequestStatusRunning \<Longrightarrow>
    (raRequestRecordID a, raAttemptIndex a) \<notin>
      (\<lambda>x. (raRequestRecordID x, raAttemptIndex x)) ` set (request_attempts db) \<Longrightarrow>
    raPermitID a \<noteq> None \<longrightarrow> raPermitID a \<notin> raPermitID ` set (request_attempts db) \<Longrightarrow>
    log_edit db (db\<lparr>request_attempts := request_attempts db @ [a], request_attempt_seq := request_attempt_seq db + 1\<rparr>)"

lemma request_le_id: "request_le r r' \<Longrightarrow> rrID r' = rrID r \<and> rrRequestID r' = rrRequestID r"
  by (simp add: request_le_def request_identity_def)

lemma attempt_le_id: "attempt_le a b \<Longrightarrow> raID b = raID a \<and> raRequestRecordID b = raRequestRecordID a \<and>
    raAttemptIndex b = raAttemptIndex a \<and> raPermitID b = raPermitID a"
  by (simp add: attempt_le_def attempt_identity_def)

lemma request_le_left_pending: "request_le r r' \<Longrightarrow> rrStatus r \<noteq> RequestStatusPending \<Longrightarrow> rrStatus r' \<noteq> RequestStatusPending"
  by (auto simp: request_le_def lifecycle_def terminal_statuses_def)

lemma replaced_in_set:
  "y \<in> set (map (\<lambda>x. if key x = key r' then r' else x) xs) \<longleftrightarrow>
     (y \<in> set xs \<and> key y \<noteq> key r') \<or> (y = r' \<and> key r' \<in> key ` set xs)"
  by (auto simp: image_iff) metis+

lemma replace_same_map:
  assumes "find (\<lambda>x. key x = key r) xs = Some r" "key r' = key r" "f r' = f r" "distinct (map key xs)"
  shows "map f (map (\<lambda>x. if key x = key r' then r' else x) xs) = map f xs"
proof -
  have "x = r" if "x \<in> set xs" "key x = key r" for x
    using that find_key_Some [OF assms(1)] assms(4) by (metis distinct_map inj_onD)
  with assms(2,3) show ?thesis by auto
qed

lemma replaced_row:
  assumes "find (\<lambda>x. key x = key r) xs = Some r" "key r' = key r" "le r r'" "\<And>x. le x x" "distinct (map key xs)"
    "x \<in> set xs"
  shows "\<exists>y \<in> set (map (\<lambda>x. if key x = key r' then r' else x) xs). le x y"
proof (cases "key x = key r")
  case True
  with assms(5,6) find_key_Some [OF assms(1)] have "x = r" by (metis distinct_map inj_onD)
  with assms show ?thesis by (intro bexI [of _ r']) (auto simp: replaced_in_set)
next
  case False
  with assms show ?thesis by (intro bexI [of _ x]) (auto simp: replaced_in_set)
qed

lemma log_leI:
  assumes "\<And>r. r \<in> set (request_records db) \<Longrightarrow> \<exists>r' \<in> set (request_records db'). request_le r r'"
    and "\<And>a. a \<in> set (request_attempts db) \<Longrightarrow> \<exists>a' \<in> set (request_attempts db'). attempt_le a a'"
  shows "log_le db db'"
  using assms by (simp add: log_le_def)

lemma edit_le:
  assumes "log_edit db db'" "log_inv db"
  shows "log_le db db'"
  using assms
proof (induction rule: log_edit.induct)
  case (request_moves db r r')
  show ?case
  proof (rule log_leI)
    fix x assume "x \<in> set (request_records db)"
    with request_moves request_le_id [OF request_moves(2)]
    show "\<exists>y \<in> set (request_records (db\<lparr>request_records := map (\<lambda>x. if rrID x = rrID r' then r' else x) (request_records db)\<rparr>)).
        request_le x y"
      using replaced_row [of rrID r "request_records db" r' request_le x]
      by (simp add: request_of_def log_inv_def requests_wf_def del: set_map)
  qed (auto intro: attempt_le_refl)
next
  case (attempt_moves db a a')
  show ?case
  proof (rule log_leI)
    fix x assume "x \<in> set (request_attempts db)"
    with attempt_moves attempt_le_id [OF attempt_moves(2)]
    show "\<exists>y \<in> set (request_attempts (db\<lparr>request_attempts := map (\<lambda>x. if raID x = raID a' then a' else x) (request_attempts db)\<rparr>)).
        attempt_le x y"
      using replaced_row [of raID a "request_attempts db" a' attempt_le x]
      by (simp add: attempt_of_def log_inv_def attempts_wf_def del: set_map)
  qed (auto intro: request_le_refl)
qed (auto simp: log_le_def intro: request_le_refl attempt_le_refl)

lemma edit_requests_wf:
  assumes "log_edit db db'" "requests_wf db"
  shows "requests_wf db'"
  using assms
proof (induction rule: log_edit.induct)
  case (request_moves db r r')
  note found = request_moves(1) [unfolded request_of_def]
  note ids = request_le_id [OF request_moves(2)]
  let ?rs = "map (\<lambda>x. if rrID x = rrID r' then r' else x) (request_records db)"
  have same: "f r' = f r \<Longrightarrow> map f ?rs = map f (request_records db)" for f
    using ids request_moves(5) unfolding requests_wf_def
    by (intro replace_same_map [where key = rrID, OF found]) simp_all
  then have "map rrID ?rs = map rrID (request_records db)" "map rrRequestID ?rs = map rrRequestID (request_records db)"
    using ids by blast+
  moreover have "rrID y < request_record_seq db \<and> check_request_record y \<and> request_ok y" if "y \<in> set ?rs" for y
    using that request_moves(3-5) find_key_Some [OF found] ids unfolding replaced_in_set requests_wf_def by auto
  ultimately show ?case using request_moves(5) unfolding requests_wf_def
    by (simp del: map_map map_eq_conv set_map)
next
  case (new_request r db)
  then show ?case by (auto simp: requests_wf_def)
qed (simp_all add: requests_wf_def)

lemma edit_attempts_wf:
  assumes "log_edit db db'" "attempts_wf db"
  shows "attempts_wf db'"
  using assms
proof (induction rule: log_edit.induct)
  case (attempt_moves db a a')
  note found = attempt_moves(1) [unfolded attempt_of_def]
  note ids = attempt_le_id [OF attempt_moves(2)]
  let ?as = "map (\<lambda>x. if raID x = raID a' then a' else x) (request_attempts db)"
  have same: "f a' = f a \<Longrightarrow> map f ?as = map f (request_attempts db)" for f
    using ids attempt_moves(5) unfolding attempts_wf_def
    by (intro replace_same_map [where key = raID, OF found]) simp_all
  have "map raID ?as = map raID (request_attempts db)" "map raPermitID ?as = map raPermitID (request_attempts db)"
    "map (\<lambda>a. (raRequestRecordID a, raAttemptIndex a)) ?as =
     map (\<lambda>a. (raRequestRecordID a, raAttemptIndex a)) (request_attempts db)"
    by (rule same, simp add: ids)+
  moreover have "raID y < request_attempt_seq db \<and> check_request_attempt y \<and> attempt_ok y" if "y \<in> set ?as" for y
    using that attempt_moves(3-5) find_key_Some [OF found] ids unfolding replaced_in_set attempts_wf_def by auto
  ultimately show ?case using attempt_moves(5) unfolding attempts_wf_def
    by (simp del: map_map map_eq_conv set_map)
next
  case (new_attempt a db)
  then show ?case by (auto simp: attempts_wf_def)
qed (simp_all add: attempts_wf_def)

lemma edit_guarded:
  assumes "log_edit db db'" "attempts_guarded db" "requests_wf db"
  shows "attempts_guarded db'"
  using assms
proof (induction rule: log_edit.induct)
  case (request_moves db r r')
  note found = find_key_Some [OF request_moves(1) [unfolded request_of_def]]
  note ids = request_le_id [OF request_moves(2)]
  let ?rs = "map (\<lambda>x. if rrID x = rrID r' then r' else x) (request_records db)"
  have "\<exists>y \<in> set ?rs. rrID y = rrID x \<and> rrStatus y \<noteq> RequestStatusPending"
    if x: "x \<in> set (request_records db)" "rrStatus x \<noteq> RequestStatusPending" for x
  proof (cases "rrID x = rrID r")
    case True
    with x(1) found request_moves(6) have "x = r" by (metis distinct_map inj_onD requests_wf_def)
    with x found ids request_le_left_pending [OF request_moves(2)] show ?thesis
      by (intro bexI [of _ r']) (auto simp: replaced_in_set)
  next
    case False
    with x ids show ?thesis by (intro bexI [of _ x]) (auto simp: replaced_in_set)
  qed
  with request_moves(5) show ?case by (fastforce simp: attempts_guarded_def simp del: set_map)
next
  case (attempt_moves db a a')
  note found = find_key_Some [OF attempt_moves(1) [unfolded attempt_of_def]]
  show ?case
    using attempt_moves(5) found attempt_le_id [OF attempt_moves(2)]
    by (auto simp: attempts_guarded_def replaced_in_set)
next
  case (new_attempt a db)
  then show ?case by (auto simp: attempts_guarded_def)
qed (auto simp: attempts_guarded_def)

lemma edit_inv: "log_edit db db' \<Longrightarrow> log_inv db \<Longrightarrow> log_inv db'"
  unfolding log_inv_def using edit_requests_wf edit_attempts_wf edit_guarded by blast

lemma mark_InrE:
  assumes "mark cur old from upd done_already put db = Inr (x, db')"
  obtains "db' = db" "old = Some x" "done_already x" | r where "cur = Some r" "from r" "put (upd r) = Inr db'" "x = upd r"
proof -
  let ?fallback = "case old of None \<Rightarrow> Inl ErrNoRows | Some r \<Rightarrow> if done_already r then Inr (r, db) else Inl ErrNoRows"
  have fb: "db' = db \<and> old = Some x \<and> done_already x" if "?fallback = Inr (x, db')"
    using that by (auto split: option.splits if_splits)
  show thesis
  proof (cases "\<exists>r. cur = Some r \<and> from r")
    case True
    then obtain r where r: "cur = Some r" "from r" by blast
    with assms have "put (upd r) = Inr db'" "x = upd r" by (auto simp: mark_def Let_def rbind_Inr_iff)
    with r show ?thesis by (rule that(2))
  next
    case False
    with assms have "?fallback = Inr (x, db')" by (cases cur) (auto simp: mark_def Let_def)
    then show ?thesis using fb that(1) by blast
  qed
qed

lemma mark_request_edit:
  assumes "mark_request seen db i from upd done_already = Inr (x, db')"
    and "\<And>r. from r \<Longrightarrow> request_le r (upd r) \<and> (request_ok r \<longrightarrow> request_ok (upd r))"
  shows "log_edit db db'"
proof -
  from assms(1) consider "db' = db" | r where "request_of db i = Some r" "from r" "put_request db (upd r) = Inr db'"
    unfolding mark_request_def by (auto elim: mark_InrE)
  then show ?thesis
  proof cases
    case 1
    then show ?thesis by (simp add: log_edit.nothing)
  next
    case 2
    have "rrID r = i" using find_key_Some [OF 2(1) [unfolded request_of_def]] by simp
    with 2 assms(2) [OF 2(2)] log_edit.request_moves [of db r "upd r"] show ?thesis
      by (auto simp: put_request_def split: if_splits)
  qed
qed

lemma mark_attempt_edit:
  assumes "mark_attempt seen db i from upd done_already = Inr (x, db')"
    and "\<And>a. from a \<Longrightarrow> attempt_le a (upd a) \<and> (attempt_ok a \<longrightarrow> attempt_ok (upd a))"
  shows "log_edit db db'"
proof -
  from assms(1) consider "db' = db" | a where "attempt_of db i = Some a" "from a" "put_attempt db (upd a) = Inr db'"
    unfolding mark_attempt_def by (auto elim: mark_InrE)
  then show ?thesis
  proof cases
    case 1
    then show ?thesis by (simp add: log_edit.nothing)
  next
    case 2
    have "raID a = i" using find_key_Some [OF 2(1) [unfolded attempt_of_def]] by simp
    with 2 assms(2) [OF 2(2)] log_edit.attempt_moves [of db a "upd a"] show ?thesis
      by (auto simp: put_attempt_def split: if_splits)
  qed
qed

lemma logged_Inr: "logged env msg conv r = Inr (x, db') \<Longrightarrow> \<exists>row. r = Inr (row, db') \<and> x = conv row"
  by (auto simp: logged_def store_call_def split: sum.splits if_splits)

lemma created_Inr: "created env msg conv r = Inr (x, db') \<Longrightarrow> \<exists>row. r = Inr (row, db') \<and> x = conv row"
  by (auto simp: created_def store_call_def split: sum.splits if_splits)

lemmas request_move_simps = request_le_def request_identity_def request_facts_def request_ok_def lifecycle_def delivery_def
  terminal_statuses_def failed_statuses_def set_outcome_def set_request_error_def

lemmas attempt_move_simps = attempt_le_def attempt_identity_def attempt_facts_def attempt_ok_def terminal_statuses_def
  failed_statuses_def set_attempt_outcome_def set_attempt_error_def

text \<open>The methods of the store are edits.\<close>

lemma request_methods_edit:
  "log_MarkRequestRunning env seen db i = Inr (x, db') \<Longrightarrow> log_edit db db'"
  "log_MarkRequestDeliveryStarted env seen db i = Inr (x, db') \<Longrightarrow> log_edit db db'"
  "log_MarkRequestGatewayFirstToken env seen db i t = Inr (x, db') \<Longrightarrow> log_edit db db'"
  "log_MarkRequestDeliveryCompleted env seen db i t = Inr (x, db') \<Longrightarrow> log_edit db db'"
  "log_MarkRequestDeliveryInterrupted env seen db i = Inr (x, db') \<Longrightarrow> log_edit db db'"
  unfolding log_MarkRequestRunning_def log_MarkRequestDeliveryStarted_def log_MarkRequestGatewayFirstToken_def
    log_MarkRequestDeliveryCompleted_def log_MarkRequestDeliveryInterrupted_def
    MarkRequestRunning_def MarkRequestDeliveryStarted_def MarkRequestGatewayFirstToken_def
    MarkRequestDeliveryCompleted_def MarkRequestDeliveryInterrupted_def
  by (drule logged_Inr, elim exE conjE, erule mark_request_edit, auto simp: request_move_simps)+

lemma request_ends_edit:
  "log_MarkRequestSucceeded env seen db p = Inr (x, db') \<Longrightarrow> log_edit db db'"
  "log_MarkSettledRequestCanceled env seen db q = Inr (x, db') \<Longrightarrow> log_edit db db'"
  "log_MarkSettledRequestFailed env seen db q = Inr (x, db') \<Longrightarrow> log_edit db db'"
  "log_MarkRequestFailed env seen db e = Inr (x, db') \<Longrightarrow> log_edit db db'"
  "log_MarkRequestCanceled env seen db e = Inr (x, db') \<Longrightarrow> log_edit db db'"
  unfolding log_MarkRequestSucceeded_def log_MarkSettledRequestCanceled_def log_MarkSettledRequestFailed_def
    log_MarkRequestFailed_def log_MarkRequestCanceled_def MarkRequestSucceeded_def MarkSettledRequestCanceled_def
    MarkSettledRequestFailed_def MarkRequestFailed_def MarkRequestCanceled_def
  by (drule logged_Inr, elim exE conjE, erule mark_request_edit,
      auto simp: request_move_simps request_outcome_def error_facts_def)+

lemma attempt_methods_edit:
  "log_MarkAttemptGatewayFirstToken env seen db i t = Inr (x, db') \<Longrightarrow> log_edit db db'"
  "RecordAttemptTiming env db p = Inr (x, db') \<Longrightarrow> log_edit db db'"
  "RecordAttemptBreakerDisposition env db q = Inr (x, db') \<Longrightarrow> log_edit db db'"
  unfolding log_MarkAttemptGatewayFirstToken_def RecordAttemptTiming_def RecordAttemptBreakerDisposition_def
    MarkRequestAttemptGatewayFirstToken_def RecordRequestAttemptUpstreamTiming_def
    RecordRequestAttemptBreakerDisposition_def update_attempt_def
  by (drule logged_Inr, elim exE conjE, erule mark_attempt_edit, auto simp: attempt_move_simps)+

lemma attempt_sample_edit:
  assumes "RecordAttemptScoringSample env db p = Inr db'"
  shows "log_edit db db'"
proof -
  from assms consider "db' = db" | x where "update_attempt db (rsID p) (\<lambda>r. r\<lparr>
        raTtftScoringSample := raTtftScoringSample r \<or> rsTTFTScoringSample p,
        raErrorScoringSample := raErrorScoringSample r \<or> rsErrorScoringSample p,
        raErrorScoringFailure := raErrorScoringFailure r \<or> rsErrorScoringFailure p\<rparr>) = Inr (x, db')"
    by (auto simp: RecordAttemptScoringSample_def Let_def store_call_def RecordRequestAttemptScoringSample_def
        split: sum.splits if_splits db_error.splits)
  then show ?thesis
  proof cases
    case 1
    then show ?thesis by (simp add: log_edit.nothing)
  next
    case 2
    then show ?thesis unfolding update_attempt_def
      by (rule mark_attempt_edit) (auto simp: attempt_move_simps)
  qed
qed

lemma attempt_ends_edit:
  "MarkAttemptSucceeded env seen db p = Inr (x, db') \<Longrightarrow> log_edit db db'"
  "MarkSettledAttemptCanceled env seen db q = Inr (x, db') \<Longrightarrow> log_edit db db'"
  "MarkSettledAttemptFailed env seen db q = Inr (x, db') \<Longrightarrow> log_edit db db'"
  "MarkAttemptFailed env seen db f = Inr (x, db') \<Longrightarrow> log_edit db db'"
  "MarkAttemptCanceled env seen db c = Inr (x, db') \<Longrightarrow> log_edit db db'"
  unfolding MarkAttemptSucceeded_def MarkSettledAttemptCanceled_def MarkSettledAttemptFailed_def MarkAttemptFailed_def
    MarkAttemptCanceled_def MarkRequestAttemptSucceeded_def MarkSettledRequestAttemptCanceled_def
    MarkSettledRequestAttemptFailed_def MarkRequestAttemptFailed_def MarkRequestAttemptCanceled_def
  by (drule logged_Inr, elim exE conjE, erule mark_attempt_edit,
      auto simp: attempt_move_simps attempt_outcome_def error_facts_def)+

lemma insert_request_edit:
  assumes "insert_request_record db row = Inr (x, db')" "request_ok row"
  shows "log_edit db db'"
  using assms log_edit.new_request [of "row\<lparr>rrID := request_record_seq db\<rparr>" db]
  by (auto simp: insert_request_record_def request_ok_def check_request_record_def split: if_splits)

lemma create_request_edit: "CreateRequest env db p = Inr (x, db') \<Longrightarrow> log_edit db db'"
  unfolding CreateRequest_def CreateRequestRecord_def
  by (drule created_Inr, elim exE conjE, erule insert_request_edit) (simp add: request_ok_def terminal_statuses_def failed_statuses_def)

lemma insert_attempt_edit:
  assumes "insert_request_attempt db row = Inr (x, db')" "attempt_ok row"
    "\<exists>r \<in> set (request_records db). rrID r = raRequestRecordID row \<and> rrStatus r = RequestStatusRunning"
  shows "log_edit db db'"
proof -
  from assms(1) have "check_request_attempt row" and fresh: "\<forall>x \<in> set (request_attempts db).
      \<not> (raRequestRecordID x = raRequestRecordID row \<and> raAttemptIndex x = raAttemptIndex row) \<and>
      \<not> (raPermitID row \<noteq> None \<and> raPermitID x = raPermitID row)"
    and db': "db' = db\<lparr>request_attempts := request_attempts db @ [row\<lparr>raID := request_attempt_seq db\<rparr>],
      request_attempt_seq := request_attempt_seq db + 1\<rparr>"
    by (simp_all add: insert_request_attempt_def split: if_splits) blast+
  then have "check_request_attempt (row\<lparr>raID := request_attempt_seq db\<rparr>)"
    by (simp add: check_request_attempt_def)
  moreover have "attempt_ok (row\<lparr>raID := request_attempt_seq db\<rparr>)"
    using assms(2) by (simp add: attempt_ok_def)
  ultimately show ?thesis unfolding db'
    using fresh assms(3) by (intro log_edit.new_attempt) (auto simp: image_iff)
qed

lemma create_attempt_edit: 
  assumes "CreateAttempt env db p = Inr (x, db')"
  shows "log_edit db db'"
proof -
  obtain arg row where run: "CreateRequestAttempt (clock env) db arg = Inr (row, db')"
    and arg: "craStatus arg = AttemptStatusRunning" "craErrorCode arg = None" "craCompletedAt arg = None"
    using assms unfolding CreateAttempt_def
    by (auto split: option.splits if_splits dest!: created_Inr)
  obtain g where "find (\<lambda>r. rrID r = craRequestRecordID arg \<and> rrStatus r = RequestStatusRunning) (request_records db) = Some g"
    using run by (auto simp: CreateRequestAttempt_def split: option.splits)
  then have "g \<in> set (request_records db) \<and> rrStatus g = RequestStatusRunning"
    by (auto simp: find_Some_iff)
  with run arg \<open>find _ _ = Some g\<close> show ?thesis unfolding CreateRequestAttempt_def
    by (auto elim!: insert_attempt_edit simp: attempt_ok_def terminal_statuses_def failed_statuses_def)
qed

subsection \<open>Runs\<close>

inductive log_step :: "'z request_db_scheme \<Rightarrow> 'z request_db_scheme \<Rightarrow> bool" where
  create: "CreateRequest (env :: env) db p = Inr (x, db') \<Longrightarrow> log_step db db'"
| running: "log_MarkRequestRunning (env :: env) seen db i = Inr (x, db') \<Longrightarrow> log_step db db'"
| delivery_started: "log_MarkRequestDeliveryStarted (env :: env) seen db i = Inr (x, db') \<Longrightarrow> log_step db db'"
| first_token: "log_MarkRequestGatewayFirstToken (env :: env) seen db i t = Inr (x, db') \<Longrightarrow> log_step db db'"
| delivery_completed: "log_MarkRequestDeliveryCompleted (env :: env) seen db i t = Inr (x, db') \<Longrightarrow> log_step db db'"
| delivery_interrupted: "log_MarkRequestDeliveryInterrupted (env :: env) seen db i = Inr (x, db') \<Longrightarrow> log_step db db'"
| succeeded: "log_MarkRequestSucceeded (env :: env) seen db p1 = Inr (x, db') \<Longrightarrow> log_step db db'"
| settled_canceled: "log_MarkSettledRequestCanceled (env :: env) seen db p2 = Inr (x, db') \<Longrightarrow> log_step db db'"
| settled_failed: "log_MarkSettledRequestFailed (env :: env) seen db p2 = Inr (x, db') \<Longrightarrow> log_step db db'"
| failed: "log_MarkRequestFailed (env :: env) seen db p3 = Inr (x, db') \<Longrightarrow> log_step db db'"
| canceled: "log_MarkRequestCanceled (env :: env) seen db p3 = Inr (x, db') \<Longrightarrow> log_step db db'"
| attempt: "CreateAttempt (env :: env) db p4 = Inr (y, db') \<Longrightarrow> log_step db db'"
| attempt_first_token: "log_MarkAttemptGatewayFirstToken (env :: env) seen db i t = Inr (y, db') \<Longrightarrow> log_step db db'"
| timing: "RecordAttemptTiming (env :: env) db p5 = Inr (y, db') \<Longrightarrow> log_step db db'"
| disposition: "RecordAttemptBreakerDisposition (env :: env) db p6 = Inr (y, db') \<Longrightarrow> log_step db db'"
| scoring: "RecordAttemptScoringSample (env :: env) db p7 = Inr db' \<Longrightarrow> log_step db db'"
| attempt_succeeded: "MarkAttemptSucceeded (env :: env) seen db p8 = Inr (y, db') \<Longrightarrow> log_step db db'"
| attempt_settled_canceled: "MarkSettledAttemptCanceled (env :: env) seen db p9 = Inr (y, db') \<Longrightarrow> log_step db db'"
| attempt_settled_failed: "MarkSettledAttemptFailed (env :: env) seen db p9 = Inr (y, db') \<Longrightarrow> log_step db db'"
| attempt_failed: "MarkAttemptFailed (env :: env) seen db p10 = Inr (y, db') \<Longrightarrow> log_step db db'"
| attempt_canceled: "MarkAttemptCanceled (env :: env) seen db p11 = Inr (y, db') \<Longrightarrow> log_step db db'"
| outside: "log_step db (db\<lparr>rq_users := us, rq_providers := ps, rq_channels := cs, api_keys := ks\<rparr>)"

lemma step_edit:
  assumes "log_step db db'"
  shows "log_edit db db' \<or> (\<exists>us ps cs ks. db' = db\<lparr>rq_users := us, rq_providers := ps, rq_channels := cs, api_keys := ks\<rparr>)"
  using assms
  by cases (blast intro: create_request_edit request_methods_edit request_ends_edit create_attempt_edit
      attempt_methods_edit attempt_sample_edit attempt_ends_edit)+

lemma outside_inv_le:
  assumes "log_inv db"
  shows "log_inv (db\<lparr>rq_users := us, rq_providers := ps, rq_channels := cs, api_keys := ks\<rparr>)"
    "log_le db (db\<lparr>rq_users := us, rq_providers := ps, rq_channels := cs, api_keys := ks\<rparr>)"
  using assms log_le_refl [of db]
  by (simp_all add: log_inv_def requests_wf_def attempts_wf_def attempts_guarded_def log_le_def)

lemma step_inv_le: "log_step db db' \<Longrightarrow> log_inv db \<Longrightarrow> log_inv db' \<and> log_le db db'"
  using step_edit edit_inv edit_le outside_inv_le by blast

interpretation request_log: step_relation log_step log_inv log_le
  using step_inv_le log_le_refl log_le_trans by unfold_locales blast+

end
