(* ===== verification/Recovery_Machine.thy ===== *)
theory Recovery_Machine
  imports Recovery_Worker Request_Machine
begin

text \<open>
  The recovery jobs as a state machine: any order of the statements on the table, by any number of workers, with any
  parameters, between any changes of the other tables. A job keeps its facts, its attempts only grow, and a final job
  never changes.
\<close>

subsection \<open>How a job may change\<close>

definition job_final :: "SettlementRecoveryJob \<Rightarrow> bool" where
  "job_final j \<longleftrightarrow> sjStatus j \<in> set [JobSucceeded, JobDead]"

definition job_le :: "SettlementRecoveryJob \<Rightarrow> SettlementRecoveryJob \<Rightarrow> bool" where
  "job_le j j' \<longleftrightarrow> job_facts.truncate j' = job_facts.truncate j \<and> sjID j' = sjID j \<and> sjMaxAttempts j' = sjMaxAttempts j \<and>
     sjCreatedAt j' = sjCreatedAt j \<and> sjAttemptCount j \<le> sjAttemptCount j' \<and> (job_final j \<longrightarrow> j' = j)"

lemma job_le_refl [simp]: "job_le j j" by (simp add: job_le_def)

lemma job_le_trans: "job_le a b \<Longrightarrow> job_le b c \<Longrightarrow> job_le a c"
  unfolding job_le_def by auto

lemma truncate_keys:
  assumes "job_facts.truncate j' = job_facts.truncate j"
  shows "sjRequestRecordID j' = sjRequestRecordID j" "sjReservationID j' = sjReservationID j" "sjUserID j' = sjUserID j"
    "sjAttemptID j' = sjAttemptID j"
  using assms by (simp_all add: job_facts.defs)

definition jobs_wf :: "'z job_db_scheme \<Rightarrow> bool" where
  "jobs_wf db \<longleftrightarrow> distinct (map sjID (jobs_of db)) \<and> distinct (map sjRequestRecordID (jobs_of db)) \<and>
     distinct (map sjReservationID (jobs_of db)) \<and>
     (\<forall>j \<in> set (jobs_of db). sjID j < recovery_job_seq db \<and> check_job j)"

definition jobs_le :: "'z job_db_scheme \<Rightarrow> 'z job_db_scheme \<Rightarrow> bool" where
  "jobs_le db db' \<longleftrightarrow> (\<forall>i j. job_of db i = Some j \<longrightarrow> (\<exists>j'. job_of db' i = Some j' \<and> job_le j j'))"

lemma jobs_le_refl: "jobs_le db db" by (auto simp: jobs_le_def)

lemma jobs_le_trans: "jobs_le a b \<Longrightarrow> jobs_le b c \<Longrightarrow> jobs_le a c"
  unfolding jobs_le_def by (meson job_le_trans)

definition other_tables :: "'z job_db_scheme \<Rightarrow> 'z job_db_scheme \<Rightarrow> bool" where
  "other_tables db db' \<longleftrightarrow> recovery_jobs db' = recovery_jobs db \<and> recovery_job_seq db' = recovery_job_seq db"

text \<open>A job moves on, a job is created, or only other tables change.\<close>

inductive job_edit :: "'z job_db_scheme \<Rightarrow> 'z job_db_scheme \<Rightarrow> bool" where
  elsewhere: "other_tables db db' \<Longrightarrow> job_edit db db'"
| moves: "job_of db (sjID j) = Some j \<Longrightarrow> job_le j j' \<Longrightarrow> check_job j' \<Longrightarrow>
    job_edit db (db\<lparr>recovery_jobs := map (\<lambda>x. if sjID x = sjID j' then j' else x) (jobs_of db)\<rparr>)"
| new: "sjID j = recovery_job_seq db \<Longrightarrow> check_job j \<Longrightarrow> sjRequestRecordID j \<notin> sjRequestRecordID ` set (jobs_of db) \<Longrightarrow>
    sjReservationID j \<notin> sjReservationID ` set (jobs_of db) \<Longrightarrow>
    job_edit db (db\<lparr>recovery_jobs := jobs_of db @ [j], recovery_job_seq := recovery_job_seq db + 1\<rparr>)"

lemma job_of_member: "job_of db i = Some j \<Longrightarrow> j \<in> set (jobs_of db) \<and> sjID j = i"
  unfolding job_of_def by (rule find_key_Some)

lemma member_job_of: "jobs_wf db \<Longrightarrow> j \<in> set (jobs_of db) \<Longrightarrow> job_of db (sjID j) = Some j"
  unfolding job_of_def by (rule find_distinct) (simp_all add: jobs_wf_def)

lemma replaced_rows_map:
  assumes "find (\<lambda>x. key x = key r) xs = Some r" "key r' = key r" "f r' = f r" "distinct (map key xs)"
  shows "map f (map (\<lambda>x. if key x = key r' then r' else x) xs) = map f xs"
proof -
  have "x = r" if "x \<in> set xs" "key x = key r" for x
    using that find_key_Some [OF assms(1)] assms(4) by (metis distinct_map inj_onD)
  with assms(2,3) show ?thesis by auto
qed

lemma edit_jobs_wf:
  assumes "job_edit db db'" "jobs_wf db"
  shows "jobs_wf db'"
  using assms
proof (induction rule: job_edit.induct)
  case (moves db j j')
  note found = moves(1) [unfolded job_of_def]
  have ids: "sjID j' = sjID j" "sjRequestRecordID j' = sjRequestRecordID j" "sjReservationID j' = sjReservationID j"
    using moves(2) truncate_keys unfolding job_le_def by blast+
  let ?js = "map (\<lambda>x. if sjID x = sjID j' then j' else x) (jobs_of db)"
  have same: "f j' = f j \<Longrightarrow> map f ?js = map f (jobs_of db)" for f
    using ids moves(4) unfolding jobs_wf_def by (intro replaced_rows_map [where key = sjID, OF found]) simp_all
  have "map sjID ?js = map sjID (jobs_of db)" "map sjRequestRecordID ?js = map sjRequestRecordID (jobs_of db)"
    "map sjReservationID ?js = map sjReservationID (jobs_of db)"
    by (rule same, simp add: ids)+
  moreover have "sjID y < recovery_job_seq db \<and> check_job y" if "y \<in> set ?js" for y
    using that moves(3,4) find_key_Some [OF found] ids unfolding jobs_wf_def by (auto split: if_splits)
  ultimately show ?case using moves(4) unfolding jobs_wf_def
    by (simp del: map_map map_eq_conv set_map)
next
  case (new j db)
  then show ?case by (auto simp: jobs_wf_def)
qed (simp add: jobs_wf_def other_tables_def)

lemma edit_jobs_le:
  assumes "job_edit db db'" "jobs_wf db"
  shows "jobs_le db db'"
  using assms
proof (induction rule: job_edit.induct)
  case (elsewhere db db')
  then show ?case by (auto simp: jobs_le_def job_of_def other_tables_def)
next
  case (moves db j j')
  have "sjID j' = sjID j" using moves(2) by (simp add: job_le_def)
  with moves(1,2) show ?case
    unfolding jobs_le_def job_of_def by (auto simp: find_update [where key = sjID])
next
  case (new j db)
  then show ?case by (auto simp: jobs_le_def job_of_def find_append)
qed

subsection \<open>The statements\<close>

lemma put_job_edit:
  assumes "put_job db j' = Inr (x, db')" "job_of db (sjID j) = Some j" "job_le j j'"
  shows "job_edit db db' \<and> x = j'"
  using assms job_edit.moves [of db j j'] by (auto simp: put_job_def split: if_splits)

lemma candidate_job_some:
  assumes "candidate_job locked db P = Some j"
  shows "j \<in> set (jobs_of db)" "P j"
proof -
  have "x \<in> set xs" if "find (\<lambda>_. True) xs = Some x" for x and xs :: "SettlementRecoveryJob list"
    using that by (cases xs) auto
  from this [OF assms [unfolded candidate_job_def]] show "j \<in> set (jobs_of db)" "P j" by simp_all
qed

lemma job_due_not_final: "job_due now j \<Longrightarrow> \<not> job_final j"
  by (auto simp: job_due_def job_final_def)

lemma claim_edit:
  assumes "ClaimNextSettlementRecoveryJob locked db by until now = Inr (job, db')" "jobs_wf db"
  shows "\<exists>j. j \<in> set (jobs_of db) \<and> sjAttemptCount j < sjMaxAttempts j \<and> job_due now j \<and> job_le j job \<and>
    sjAttemptCount job = sjAttemptCount j + 1 \<and> sjStatus job = JobRunning \<and> sjLockedBy job = Some by \<and>
    sjLockedUntil job = Some until \<and> sjNextRunAt job = sjNextRunAt j \<and> put_job db job = Inr (job, db')" "job_edit db db'"
proof -
  obtain j where j: "candidate_job locked db (\<lambda>j. sjAttemptCount j < sjMaxAttempts j \<and> job_due now j) = Some j"
    using assms(1) by (auto simp: ClaimNextSettlementRecoveryJob_def split: option.splits)
  let ?j' = "j\<lparr>sjStatus := JobRunning, sjAttemptCount := sjAttemptCount j + 1, sjLockedBy := Some by,
      sjLockedUntil := Some until, sjLastAttemptedAt := Some now, sjUpdatedAt := now\<rparr>"
  have put: "put_job db ?j' = Inr (job, db')"
    using assms(1) j by (simp add: ClaimNextSettlementRecoveryJob_def)
  then have job: "job = ?j'" by (auto simp: put_job_def split: if_splits)
  note c = candidate_job_some [OF j]
  have le: "job_le j ?j'" using c(2) job_due_not_final by (auto simp: job_le_def job_facts.defs)
  show "\<exists>j. j \<in> set (jobs_of db) \<and> sjAttemptCount j < sjMaxAttempts j \<and> job_due now j \<and> job_le j job \<and>
    sjAttemptCount job = sjAttemptCount j + 1 \<and> sjStatus job = JobRunning \<and> sjLockedBy job = Some by \<and>
    sjLockedUntil job = Some until \<and> sjNextRunAt job = sjNextRunAt j \<and> put_job db job = Inr (job, db')"
    using c le put unfolding job by (intro exI [of _ j]) simp
  show "job_edit db db'" using put_job_edit [OF put _ le] member_job_of [OF assms(2) c(1)] by simp
qed

lemma dead_job_le: "\<not> job_final j \<Longrightarrow> job_le j (dead_job e t j)"
  by (simp add: job_le_def dead_job_def job_facts.defs)

lemma exhausted_edit:
  assumes "MarkExhaustedSettlementRecoveryJobDead locked db e t now = Inr (job, db')" "jobs_wf db"
  shows "\<exists>j. j \<in> set (jobs_of db) \<and> job_due now j \<and> job = dead_job e t j \<and> put_job db job = Inr (job, db')" "job_edit db db'"
proof -
  obtain j where j: "candidate_job locked db (\<lambda>j. sjAttemptCount j \<ge> sjMaxAttempts j \<and> job_due now j) = Some j"
    and put: "put_job db (dead_job e t j) = Inr (job, db')"
    using assms(1) by (auto simp: MarkExhaustedSettlementRecoveryJobDead_def split: option.splits)
  then have job: "job = dead_job e t j" by (auto simp: put_job_def split: if_splits)
  note c = candidate_job_some [OF j]
  then show "\<exists>j. j \<in> set (jobs_of db) \<and> job_due now j \<and> job = dead_job e t j \<and> put_job db job = Inr (job, db')"
    using put job by blast
  show "job_edit db db'" using put_job_edit [OF put, of j] member_job_of [OF assms(2) c(1)] dead_job_le c(2) job_due_not_final
    by blast
qed

lemma holds_lease_running: "holds_lease by until n j \<Longrightarrow> \<not> job_final j \<and> sjAttemptCount j = n"
  by (simp add: holds_lease_def job_final_def)

lemma dead_edit:
  assumes "MarkSettlementRecoveryJobDead db e t i by until n = Inr (job, db')"
  shows "\<exists>j. job_of db i = Some j \<and> holds_lease by until n j \<and> job = dead_job e t j \<and> put_job db job = Inr (job, db')" "job_edit db db'"
proof -
  obtain j where j: "job_of db i = Some j" "holds_lease by until n j" and put: "put_job db (dead_job e t j) = Inr (job, db')"
    using assms by (auto simp: MarkSettlementRecoveryJobDead_def split: option.splits if_splits)
  then have "job = dead_job e t j" by (auto simp: put_job_def split: if_splits)
  with j put show "\<exists>j. job_of db i = Some j \<and> holds_lease by until n j \<and> job = dead_job e t j \<and> put_job db job = Inr (job, db')" by blast
  show "job_edit db db'" using put_job_edit [OF put, of j] j dead_job_le holds_lease_running [OF j(2)] job_of_member [OF j(1)]
    by (simp add: dead_job_def)
qed

definition retry_job :: "int \<Rightarrow> job_failure \<Rightarrow> int \<Rightarrow> SettlementRecoveryJob \<Rightarrow> SettlementRecoveryJob" where
  "retry_job nextRunAt e updatedAt j = j\<lparr>sjStatus := JobPending, sjLockedBy := None, sjLockedUntil := None,
     sjNextRunAt := nextRunAt, sjLastErrorCode := jfErrorCode e, sjLastErrorMessage := jfErrorMessage e,
     sjLastInternalErrorDetail := jfInternalErrorDetail e, sjUpdatedAt := updatedAt\<rparr>"

lemma retry_edit:
  assumes "MarkSettlementRecoveryJobRetry db next e t i by until n = Inr (job, db')"
  shows "\<exists>j. job_of db i = Some j \<and> holds_lease by until n j \<and> job = retry_job next e t j \<and> put_job db job = Inr (job, db')"
    "job_edit db db'"
proof -
  obtain j where j: "job_of db i = Some j" "holds_lease by until n j" and put: "put_job db (retry_job next e t j) = Inr (job, db')"
    using assms by (auto simp: MarkSettlementRecoveryJobRetry_def retry_job_def split: option.splits if_splits)
  then have "job = retry_job next e t j" by (auto simp: put_job_def split: if_splits)
  with j put show "\<exists>j. job_of db i = Some j \<and> holds_lease by until n j \<and> job = retry_job next e t j \<and> put_job db job = Inr (job, db')"
    by blast
  have "job_le j (retry_job next e t j)" using holds_lease_running [OF j(2)]
    by (simp add: job_le_def retry_job_def job_facts.defs)
  then show "job_edit db db'" using put_job_edit [OF put, of j] j job_of_member [OF j(1)] by simp
qed

lemma succeeded_edit:
  assumes "MarkSettlementRecoveryJobSucceeded seen db t i = Inr (job, db')"
  shows "db' = db \<or> (\<exists>j. job_of db i = Some j \<and> \<not> job_final j \<and> sjStatus job = JobSucceeded \<and> sjID job = i \<and>
      sjRequestRecordID job = sjRequestRecordID j \<and> put_job db job = Inr (job, db'))" "job_edit db db'"
proof -
  let ?upd = "\<lambda>j. j\<lparr>sjStatus := JobSucceeded, sjLockedBy := None, sjLockedUntil := None, sjCompletedAt := Some t, sjUpdatedAt := t\<rparr>"
  from assms have "(db' = db \<or> (\<exists>j. job_of db i = Some j \<and> \<not> job_final j \<and> sjStatus job = JobSucceeded \<and> sjID job = i \<and>
      sjRequestRecordID job = sjRequestRecordID j \<and> put_job db job = Inr (job, db'))) \<and> job_edit db db'"
    unfolding MarkSettlementRecoveryJobSucceeded_def
  proof (cases rule: mark_InrE)
    case 1
    then show ?thesis by (simp add: job_edit.elsewhere other_tables_def)
  next
    case (2 j)
    obtain y where put: "put_job db (?upd j) = Inr (y, db')"
      using 2(3) by (auto simp: rbind_Inr_iff split: prod.splits)
    then have y: "y = ?upd j" by (auto simp: put_job_def split: if_splits)
    have nf: "\<not> job_final j" using 2(2) by (auto simp: job_final_def)
    then have "job_le j (?upd j)" by (simp add: job_le_def job_facts.defs)
    then have "job_edit db db'" using put_job_edit [OF put, of j] job_of_member [OF 2(1)] 2(1) by simp
    with nf put y 2 job_of_member [OF 2(1)] show ?thesis by auto
  qed
  then show "db' = db \<or> (\<exists>j. job_of db i = Some j \<and> \<not> job_final j \<and> sjStatus job = JobSucceeded \<and> sjID job = i \<and>
      sjRequestRecordID job = sjRequestRecordID j \<and> put_job db job = Inr (job, db'))" "job_edit db db'" by blast+
qed

lemma create_job_edit:
  assumes "CreateSettlementRecoveryJob refs now db arg = Inr (job, db')"
  shows "job_edit db db'"
proof -
  obtain facts where f: "bind_job_facts arg = Inr facts" using assms
    by (auto simp: CreateSettlementRecoveryJob_def rbind_Inr_iff)
  define row where "row = new_job now facts (csMaxAttempts arg) (csNextRunAt arg)"
  have run: "\<not> (\<not> running_request db (sjRequestRecordID arg))" "check_job row"
    using assms f by (auto simp: CreateSettlementRecoveryJob_def Let_def row_def split: if_splits)
  show ?thesis
  proof (cases "find (\<lambda>j. sjRequestRecordID j = sjRequestRecordID row) (jobs_of db)")
    case (Some old)
    with assms f run have "db' = db"
      by (simp add: CreateSettlementRecoveryJob_def Let_def row_def [symmetric] split: if_splits)
    then show ?thesis by (simp add: job_edit.elsewhere other_tables_def)
  next
    case None
    with assms f run have res: "sjReservationID row \<notin> sjReservationID ` set (jobs_of db)"
      by (simp add: CreateSettlementRecoveryJob_def Let_def row_def [symmetric] split: if_splits)
    from assms f run None have db': "db' = db\<lparr>recovery_jobs := jobs_of db @ [row\<lparr>sjID := recovery_job_seq db\<rparr>],
        recovery_job_seq := recovery_job_seq db + 1\<rparr>"
      by (auto simp: CreateSettlementRecoveryJob_def Let_def row_def [symmetric] split: if_splits)
    have "check_job (row\<lparr>sjID := recovery_job_seq db\<rparr>)"
      using run(2) by (simp add: check_job_def check_job_response_def check_job_usage_def check_job_prices_def check_job_state_def)
    moreover have "sjRequestRecordID row \<notin> sjRequestRecordID ` set (jobs_of db)"
      using None by (simp add: find_key_None)
    ultimately show ?thesis unfolding db' using res by (intro job_edit.new) simp_all
  qed
qed

subsection \<open>Runs\<close>

inductive job_step :: "'z job_db_scheme \<Rightarrow> 'z job_db_scheme \<Rightarrow> bool" where
  create: "CreateSettlementRecoveryJob refs now db arg = Inr (job, db') \<Longrightarrow> job_step db db'"
| claim: "ClaimNextSettlementRecoveryJob locked db by until now = Inr (job, db') \<Longrightarrow> job_step db db'"
| retry: "MarkSettlementRecoveryJobRetry db next e t i owner lease n = Inr (job, db') \<Longrightarrow> job_step db db'"
| dead: "MarkSettlementRecoveryJobDead db e t i owner lease n = Inr (job, db') \<Longrightarrow> job_step db db'"
| exhausted: "MarkExhaustedSettlementRecoveryJobDead locked db e t now = Inr (job, db') \<Longrightarrow> job_step db db'"
| succeeded: "MarkSettlementRecoveryJobSucceeded seen db t i = Inr (job, db') \<Longrightarrow> job_step db db'"
| elsewhere: "other_tables db db' \<Longrightarrow> job_step db db'"

lemma job_step_edit: "job_step db db' \<Longrightarrow> jobs_wf db \<Longrightarrow> job_edit db db'"
  by (cases rule: job_step.cases)
    (blast intro: create_job_edit claim_edit(2) retry_edit(2) dead_edit(2) exhausted_edit(2) succeeded_edit(2) job_edit.elsewhere)+

interpretation recovery: step_relation job_step jobs_wf jobs_le
proof
  show "jobs_wf db'" if "job_step db db'" "jobs_wf db" for db db' :: "'z job_db_scheme"
    using that job_step_edit edit_jobs_wf by blast
  show "jobs_le db db'" if "job_step db db'" "jobs_wf db" for db db' :: "'z job_db_scheme"
    using that job_step_edit edit_jobs_le by blast
qed (simp add: jobs_le_refl, erule (1) jobs_le_trans)

text \<open>A statement of a worker changes the job table and no other.\<close>

lemma put_job_tables: "put_job db j = Inr (x, d) \<Longrightarrow> \<exists>js k. d = db\<lparr>recovery_jobs := js, recovery_job_seq := k\<rparr>"
  for db :: "'z job_db_scheme"
  by (rule exI [of _ "recovery_jobs d"], rule exI [of _ "recovery_job_seq db"]) (auto simp: put_job_def split: if_splits)

lemma succeeded_tables:
  fixes db :: "'z job_db_scheme"
  assumes "MarkSettlementRecoveryJobSucceeded seen db t i = Inr (job, d)"
  shows "\<exists>js k. d = db\<lparr>recovery_jobs := js, recovery_job_seq := k\<rparr>"
proof -
  from succeeded_edit(1) [OF assms] consider "d = db" | j where "put_job db j = Inr (j, d)" by blast
  then show ?thesis
  proof cases
    case 1
    then show ?thesis by (intro exI [of _ "recovery_jobs db"] exI [of _ "recovery_job_seq db"]) simp
  qed (rule put_job_tables)
qed

definition job_tables :: "'z job_db_scheme \<Rightarrow> 'z job_db_scheme \<Rightarrow> bool" where
  "job_tables db d \<longleftrightarrow> job_edit db d \<and> (\<exists>js k. d = db\<lparr>recovery_jobs := js, recovery_job_seq := k\<rparr>)"

lemma job_statements:
  fixes db :: "'z job_db_scheme"
  assumes "jobs_wf db"
  shows "ClaimNextSettlementRecoveryJob locked db owner until now = Inr (job, d) \<Longrightarrow> job_tables db d"
    "MarkExhaustedSettlementRecoveryJobDead locked db e t now = Inr (job, d) \<Longrightarrow> job_tables db d"
    "MarkSettlementRecoveryJobDead db e t i by1 until1 n = Inr (job, d) \<Longrightarrow> job_tables db d"
    "MarkSettlementRecoveryJobRetry db next e t i by1 until1 n = Inr (job, d) \<Longrightarrow> job_tables db d"
    "MarkSettlementRecoveryJobSucceeded seen db t i = Inr (job, d) \<Longrightarrow> job_tables db d"
  unfolding job_tables_def
      apply (blast dest: claim_edit [OF _ assms] put_job_tables)
     apply (blast dest: exhausted_edit [OF _ assms] put_job_tables)
    apply (blast dest: dead_edit put_job_tables)
   apply (blast dest: retry_edit put_job_tables)
  apply (blast dest: succeeded_edit(2) succeeded_tables)
  done

subsection \<open>How much work is left\<close>

text \<open>What the statements can still do to a job; a dead job still needs its request finalized.\<close>

definition job_work :: "'z job_db_scheme \<Rightarrow> SettlementRecoveryJob \<Rightarrow> nat" where
  "job_work db j =
     (if sjStatus j = JobPending then 3 * nat (sjMaxAttempts j - sjAttemptCount j) + 2
      else if sjStatus j = JobRunning then 3 * nat (sjMaxAttempts j - sjAttemptCount j) + 3
      else if sjStatus j = JobDead \<and> running_request db (sjRequestRecordID j) then 1 else 0)"

definition work :: "'z job_db_scheme \<Rightarrow> nat" where "work db = sum_list (map (job_work db) (jobs_of db))"

lemma sum_replace:
  fixes f :: "'r \<Rightarrow> nat"
  assumes "find (\<lambda>x. key x = key r) xs = Some r" "key r' = key r" "distinct (map key xs)"
  shows "sum_list (map f (map (\<lambda>x. if key x = key r' then r' else x) xs)) + f r = sum_list (map f xs) + f r'"
  using assms
proof (induction xs)
  case (Cons x xs)
  show ?case
  proof (cases "key x = key r")
    case True
    with Cons.prems have "x = r" "map (\<lambda>x. if key x = key r' then r' else x) xs = xs"
      by (auto simp: image_iff intro!: map_idI)
    with Cons.prems(2) show ?thesis by (simp add: o_def)
  next
    case False
    with Cons show ?thesis by simp
  qed
qed simp

lemma put_job_work:
  assumes "put_job db j' = Inr (x, db')" "job_of db (sjID j) = Some j" "sjID j' = sjID j" "jobs_wf db"
  shows "work db' + job_work db j = work db + job_work db j'"
proof -
  have db': "db' = db\<lparr>recovery_jobs := map (\<lambda>x. if sjID x = sjID j' then j' else x) (jobs_of db)\<rparr>"
    using assms(1) by (auto simp: put_job_def split: if_splits)
  have "job_work db' = job_work db" by (auto simp: db' job_work_def running_request_def)
  then show ?thesis
    using sum_replace [where key = sjID and f = "job_work db", OF assms(2) [unfolded job_of_def] assms(3)] assms(4)
    by (simp add: work_def db' jobs_wf_def del: map_map)
qed

text \<open>A statement of a worker, or of the request that settled its own job, that has an effect.\<close>

inductive job_progress :: "'z job_db_scheme \<Rightarrow> 'z job_db_scheme \<Rightarrow> bool" where
  claim: "ClaimNextSettlementRecoveryJob locked db by until now = Inr (job, db') \<Longrightarrow> job_progress db db'"
| retry: "MarkSettlementRecoveryJobRetry db next e t i owner lease n = Inr (job, db') \<Longrightarrow> job_progress db db'"
| dead: "MarkSettlementRecoveryJobDead db e t i owner lease n = Inr (job, db') \<Longrightarrow> job_progress db db'"
| exhausted: "MarkExhaustedSettlementRecoveryJobDead locked db e t now = Inr (job, db') \<Longrightarrow> job_progress db db'"
| succeeded: "MarkSettlementRecoveryJobSucceeded seen db t i = Inr (job, db') \<Longrightarrow> db' \<noteq> db \<Longrightarrow> job_progress db db'"
| finalized: "other_tables db db' \<Longrightarrow> \<forall>i. running_request db' i \<longrightarrow> running_request db i \<Longrightarrow>
    j \<in> set (jobs_of db) \<Longrightarrow> sjStatus j = JobDead \<Longrightarrow> running_request db (sjRequestRecordID j) \<Longrightarrow>
    \<not> running_request db' (sjRequestRecordID j) \<Longrightarrow> job_progress db db'"

lemma job_work_due: "job_due now j \<Longrightarrow> 2 \<le> job_work db j"
  by (auto simp: job_due_def job_work_def)

lemma job_work_claim:
  assumes "sjAttemptCount j < sjMaxAttempts j" "job_due now j" "sjAttemptCount job = sjAttemptCount j + 1"
    "sjStatus job = JobRunning" "sjMaxAttempts job = sjMaxAttempts j"
  shows "job_work db job < job_work db j"
  using assms by (auto simp: job_due_def job_work_def)

lemma job_work_dead: "job_work db (dead_job e t j) \<le> 1"
  by (simp add: job_work_def dead_job_def)

lemma job_work_lease: "holds_lease by until n j \<Longrightarrow> job_work db j = 3 * nat (sjMaxAttempts j - sjAttemptCount j) + 3"
  by (simp add: holds_lease_def job_work_def)

lemma job_work_retry: "job_work db (retry_job next e t j) = 3 * nat (sjMaxAttempts j - sjAttemptCount j) + 2"
  by (simp add: retry_job_def job_work_def)

lemma other_tables_work:
  assumes "other_tables db db'" "\<forall>i. running_request db' i \<longrightarrow> running_request db i"
  shows "work db' \<le> work db"
  using assms unfolding work_def other_tables_def
  by (auto intro!: sum_list_mono simp: job_work_def)

lemma finalized_work:
  assumes "other_tables db db'" "\<forall>i. running_request db' i \<longrightarrow> running_request db i" "j \<in> set (jobs_of db)"
    "sjStatus j = JobDead" "running_request db (sjRequestRecordID j)" "\<not> running_request db' (sjRequestRecordID j)"
  shows "work db' < work db"
proof -
  obtain xs ys where split: "jobs_of db = xs @ j # ys" using assms(3) by (meson split_list)
  have le: "job_work db' x \<le> job_work db x" for x using assms(2) by (auto simp: job_work_def)
  have "job_work db' j < job_work db j" using assms(4-6) by (simp add: job_work_def)
  with le show ?thesis using assms(1) split
    by (simp add: work_def other_tables_def add_mono_thms_linordered_field sum_list_mono add_le_less_mono add_less_le_mono)
qed

lemma job_progress_work:
  assumes "job_progress db db'" "jobs_wf db"
  shows "work db' < work db"
  using assms(1)
proof cases
  case (claim locked "by" until now job)
  from claim_edit(1) [OF claim assms(2)] obtain j where j: "j \<in> set (jobs_of db)" "sjAttemptCount j < sjMaxAttempts j"
      "job_due now j" "job_le j job" "sjAttemptCount job = sjAttemptCount j + 1" "sjStatus job = JobRunning"
      "put_job db job = Inr (job, db')" by blast
  then have "job_work db job < job_work db j" by (intro job_work_claim) (simp_all add: job_le_def)
  with put_job_work [OF j(7) member_job_of [OF assms(2) j(1)] _ assms(2)] j(4) show ?thesis by (simp add: job_le_def)
next
  case (retry "next" e t i owner lease n job)
  from retry_edit(1) [OF retry] obtain j where j: "job_of db i = Some j" "holds_lease owner lease n j"
      "job = retry_job next e t j" "put_job db job = Inr (job, db')" by blast
  with put_job_work [OF j(4), of j] job_of_member [OF j(1)] assms(2) job_work_lease [OF j(2), of db]
  show ?thesis by (simp add: job_work_retry) (simp add: retry_job_def)
next
  case (dead e t i owner lease n job)
  from dead_edit(1) [OF dead] obtain j where j: "job_of db i = Some j" "holds_lease owner lease n j"
      "job = dead_job e t j" "put_job db job = Inr (job, db')" by blast
  have "sjID job = sjID j" using j(3) by (simp add: dead_job_def)
  with put_job_work [OF j(4), of j] job_of_member [OF j(1)] j(1) assms(2) job_work_lease [OF j(2), of db] job_work_dead [of db e t j] j(3)
  show ?thesis by simp
next
  case (exhausted locked e t now job)
  from exhausted_edit(1) [OF exhausted assms(2)] obtain j where j: "j \<in> set (jobs_of db)" "job_due now j"
      "job = dead_job e t j" "put_job db job = Inr (job, db')" by blast
  have "sjID job = sjID j" using j(3) by (simp add: dead_job_def)
  with put_job_work [OF j(4), of j] member_job_of [OF assms(2) j(1)] assms(2) job_work_due [OF j(2), of db] job_work_dead [of db e t j] j(3)
  show ?thesis by simp
next
  case (succeeded seen t i job)
  with succeeded_edit(1) [OF succeeded(1)] obtain j where j: "job_of db i = Some j" "\<not> job_final j"
      "sjStatus job = JobSucceeded" "sjID job = i" "put_job db job = Inr (job, db')" by blast
  have "check_job j" using job_of_member [OF j(1)] assms(2) by (simp add: jobs_wf_def)
  then have "0 < job_work db j" using j(2) by (auto simp: job_work_def check_job_def check_job_state_def job_final_def)
  moreover have "job_work db job = 0" using j(3) by (simp add: job_work_def)
  ultimately show ?thesis using put_job_work [OF j(5), of j] job_of_member [OF j(1)] j(1,4) assms(2) by simp
next
  case (finalized j)
  with finalized_work show ?thesis by blast
qed

end
