(* ===== verification/Request_Laws.thy ===== *)
theory Request_Laws
  imports Request_Machine
begin

text \<open>
  What the request log guarantees: every state a run reaches is well formed, the rows of requests and attempts only move
  forward, and a settled request refuses every other end and every late attempt.
\<close>

definition empty_request_db :: request_db where
  "empty_request_db = \<lparr>rq_users = [], rq_providers = [], rq_channels = [], api_keys = [], request_records = [],
     request_attempts = [], request_record_seq = 1, request_attempt_seq = 1\<rparr>"

definition log_reachable :: "request_db \<Rightarrow> bool" where
  "log_reachable db \<longleftrightarrow> log_step\<^sup>*\<^sup>* empty_request_db db"

lemma empty_log_inv: "log_inv empty_request_db"
  by (simp add: log_inv_def requests_wf_def attempts_wf_def attempts_guarded_def empty_request_db_def)

lemma reachable_log_inv: "log_reachable db \<Longrightarrow> log_inv db"
  unfolding log_reachable_def by (rule request_log.reach_inv [OF _ empty_log_inv])

lemma request_of_member: "request_of db i = Some r \<Longrightarrow> r \<in> set (request_records db) \<and> rrID r = i"
  unfolding request_of_def by (rule find_key_Some)

lemma attempt_of_member: "attempt_of db i = Some a \<Longrightarrow> a \<in> set (request_attempts db) \<and> raID a = i"
  unfolding attempt_of_def by (rule find_key_Some)

lemma member_request_of: "log_inv db \<Longrightarrow> r \<in> set (request_records db) \<Longrightarrow> request_of db (rrID r) = Some r"
  unfolding request_of_def by (rule find_distinct) (simp_all add: log_inv_def requests_wf_def)

lemma member_attempt_of: "log_inv db \<Longrightarrow> a \<in> set (request_attempts db) \<Longrightarrow> attempt_of db (raID a) = Some a"
  unfolding attempt_of_def by (rule find_distinct) (simp_all add: log_inv_def attempts_wf_def)

lemma kept_request:
  assumes "log_le db db'" "log_inv db'" "request_of db i = Some r"
  shows "\<exists>r'. request_of db' i = Some r' \<and> request_le r r'"
proof -
  have r: "r \<in> set (request_records db)" "rrID r = i" using request_of_member [OF assms(3)] by auto
  then obtain r' where "r' \<in> set (request_records db')" "request_le r r'"
    using assms(1) unfolding log_le_def by blast
  with member_request_of [OF assms(2)] request_le_id r(2) show ?thesis by metis
qed

lemma kept_attempt:
  assumes "log_le db db'" "log_inv db'" "attempt_of db i = Some a"
  shows "\<exists>a'. attempt_of db' i = Some a' \<and> attempt_le a a'"
proof -
  have a: "a \<in> set (request_attempts db)" "raID a = i" using attempt_of_member [OF assms(3)] by auto
  then obtain a' where "a' \<in> set (request_attempts db')" "attempt_le a a'"
    using assms(1) unfolding log_le_def by blast
  with member_attempt_of [OF assms(2)] attempt_le_id a(2) show ?thesis by metis
qed

text \<open>
  C24: The log only moves forward. Whatever methods of the store run after a state, with any parameters, clocks, stale
  snapshots and store failures, a request of that state is still there with the same identity; its status moves from
  pending to running to one final status and stays there, with the outcome facts, error and completion time it was
  settled with; the delivery status moves forward on its own; the first-token time is never overwritten. The same holds
  of an attempt with each of its first-write-wins facts.
\<close>

theorem request_history:
  assumes "log_reachable db" "log_step\<^sup>*\<^sup>* db db'"
  shows "(\<forall>i r. request_of db i = Some r \<longrightarrow> (\<exists>r'. request_of db' i = Some r' \<and> request_le r r')) \<and>
    (\<forall>j a. attempt_of db j = Some a \<longrightarrow> (\<exists>a'. attempt_of db' j = Some a' \<and> attempt_le a a'))"
  using kept_request kept_attempt request_log.reach_rel [OF assms(2)] request_log.reach_inv [OF assms(2)]
    reachable_log_inv [OF assms(1)] by blast

text \<open>
  C25: Every state the request log reaches is well formed: ids, request ids, (request, attempt index) pairs and permit ids
  are unique; every row satisfies its CHECK constraints, also those on the order of the upstream times; a request or an
  attempt has a completion time exactly when it is over and an error code exactly when it failed or was canceled; a
  successful request names the provider and channel that served it; and an attempt belongs to a request that left
  pending.
\<close>

theorem request_log_sound: "log_reachable db \<Longrightarrow> log_inv db"
  unfolding log_reachable_def by (rule request_log.reach_inv [OF _ empty_log_inv])

subsection \<open>A settled request\<close>

lemma mark_settled:
  assumes "request_of db i = Some r" "\<not> from r"
  shows "mark_request db db i from upd done_already = (if done_already r then Inr (r, db) else Inl ErrNoRows)"
  using assms by (simp add: mark_request_def mark_def)

text \<open>\<open>r\<close> when it already has the status, an invalid state transition otherwise.\<close>

definition replayed :: "RequestRecord \<Rightarrow> string \<Rightarrow> string \<Rightarrow> 'z request_db_scheme \<Rightarrow>
    (log_error, log_request \<times> 'z request_db_scheme) go_result" where
  "replayed r status msg db = (if rrStatus r = status then Inr (requestRecordFromSQLC r, db)
     else Inl (requestLogStateTransitionFailure msg))"

lemma settled_not_running: "settled r \<Longrightarrow> rrStatus r \<noteq> RequestStatusRunning"
  by (auto simp: terminal_statuses_def)

lemma logged_replayed:
  assumes "\<not> fault env msg"
  shows "logged env msg requestRecordFromSQLC (if rrStatus r = status then Inr (r, db) else Inl ErrNoRows)
    = replayed r status msg db"
  using assms by (simp add: logged_def store_call_def replayed_def)

text \<open>
  C26: A settled request is final. Marking it again with the status it has, by any of the methods for that status and with
  any facts, returns the stored record and changes nothing; marking it with another final status is an invalid state
  transition and changes nothing; and no further attempt can be logged for it.
\<close>

theorem settled_request_is_final:
  assumes "log_reachable db" "request_of db i = Some r" "settled r" "\<And>msg. \<not> fault env msg"
    and "msID p = i" "msID q = i" "mrID e = i" "catRequestRecordID c = i"
  shows "log_MarkRequestSucceeded env db db p = replayed r RequestStatusSucceeded ''mark request succeeded'' db \<and>
    log_MarkSettledRequestFailed env db db q = replayed r RequestStatusFailed ''mark settled request failed'' db \<and>
    log_MarkSettledRequestCanceled env db db q = replayed r RequestStatusCanceled ''mark settled request canceled'' db \<and>
    log_MarkRequestFailed env db db e = replayed r RequestStatusFailed ''mark request failed'' db \<and>
    log_MarkRequestCanceled env db db e = replayed r RequestStatusCanceled ''mark request canceled'' db \<and>
    (\<exists>err. CreateAttempt env db c = Inl err)"
proof (intro conjI)
  have to: "mark_request db db i (\<lambda>r. rrStatus r = RequestStatusRunning) upd d = (if d r then Inr (r, db) else Inl ErrNoRows)" for upd d
    using assms(2) settled_not_running [OF assms(3)] by (intro mark_settled)
  show "log_MarkRequestSucceeded env db db p = replayed r RequestStatusSucceeded ''mark request succeeded'' db"
    by (simp add: log_MarkRequestSucceeded_def MarkRequestSucceeded_def request_outcome_def to logged_replayed assms)
  show "log_MarkSettledRequestFailed env db db q = replayed r RequestStatusFailed ''mark settled request failed'' db"
    by (simp add: log_MarkSettledRequestFailed_def MarkSettledRequestFailed_def request_outcome_def to logged_replayed assms)
  show "log_MarkSettledRequestCanceled env db db q = replayed r RequestStatusCanceled ''mark settled request canceled'' db"
    by (simp add: log_MarkSettledRequestCanceled_def MarkSettledRequestCanceled_def request_outcome_def to logged_replayed assms)
  show "log_MarkRequestFailed env db db e = replayed r RequestStatusFailed ''mark request failed'' db"
    by (simp add: log_MarkRequestFailed_def MarkRequestFailed_def to logged_replayed assms)
  show "log_MarkRequestCanceled env db db e = replayed r RequestStatusCanceled ''mark request canceled'' db"
    by (simp add: log_MarkRequestCanceled_def MarkRequestCanceled_def to logged_replayed assms)
  have "x = r" if "x \<in> set (request_records db)" "rrID x = i" for x
    using that member_request_of [OF reachable_log_inv [OF assms(1)], of x] assms(2) by simp
  then have "find (\<lambda>x. rrID x = i \<and> rrStatus x = RequestStatusRunning) (request_records db) = None"
    using settled_not_running [OF assms(3)] by (auto simp: find_None_iff)
  then show "\<exists>err. CreateAttempt env db c = Inl err"
    unfolding CreateAttempt_def CreateRequestAttempt_def created_def store_call_def
    using assms(4,8) by (auto split: option.split)
qed

subsection \<open>A run\<close>

definition rd_env :: env where "rd_env = \<lparr>fault = (\<lambda>_. False), commit_outcome = CommitOk, clock = 100\<rparr>"

definition rd_key :: ApiKey where
  "rd_key = \<lparr>akID = 7, akName = ''k'', akKeyPrefix = ''unio'', akKeyHash = ''h'', akKeyPlaintext = None, akLastUsedAt = None,
     akExpiresAt = None, akDisabledAt = None, akRevokedAt = None, akCreatedAt = 1, akUpdatedAt = 1, akSpendLimit = None,
     akSpentTotal = 0, akRouteID = 1, akUserID = 3\<rparr>"

definition rd_create :: CreateRequestParams where
  "rd_create = \<lparr>cqRequestID = ''req_1'', cqUserID = 3, cqAPIKeyID = 7, cqRequestedModelID = ''gpt'',
     cqIngressProtocol = ''openai'', cqEndpoint = ''responses'', cqStream = True, cqStartedAt = 99, cqRouteID = Some 1,
     cqReasoningEffort = Some '''', cqReasoningBudgetTokens = None, cqClientIP = None\<rparr>"

definition rd_attempt :: CreateAttemptParams where
  "rd_attempt = \<lparr>catRequestRecordID = 1, catPermitID = ''p1'', catAttemptIndex = 0, catProviderID = 5, catChannelID = 6,
     catAdapterKey = ''openai'', catUpstreamModel = ''gpt'', catUpstreamProtocol = ''openai'', catOriginRevision = Some 1,
     catProviderStatusRevision = Some 1, catChannelConfigRevision = Some 1, catRoutingCandidateIndex = Some 0,
     catUpstreamEndpoint = ''responses'', catStartedAt = 101\<rparr>"

definition rd_done :: MarkRequestSucceededParams where
  "rd_done = \<lparr>msID = 1, msResponseModelID = ''gpt'', msResponseProtocol = ''openai'', msResponseID = ''resp'',
     msFinalProviderID = 5, msFinalChannelID = 6, msGatewayFirstTokenAt = Some 110, msCompletedAt = 120\<rparr>"

definition rd_settled :: MarkSettledRequestFailedParams where
  "rd_settled = MarkRequestSucceededParams.extend rd_done
     (MarkSettledRequestFailedParams.fields ''x'' ''y'' '''')"

definition rd_failed :: MarkRequestFailedParams where
  "rd_failed = \<lparr>mrID = 1, mrErrorCode = ''x'', mrErrorMessage = ''y'', mrInternalErrorDetail = '''', mrCompletedAt = 130\<rparr>"

definition rd0 :: request_db where
  "rd0 = empty_request_db\<lparr>rq_users := [3], rq_providers := [5], rq_channels := [6], api_keys := [rd_key]\<rparr>"

definition after_call :: "('e, 'a \<times> 's) go_result \<Rightarrow> 's" where "after_call r = snd (projr r)"

definition rd1 :: request_db where "rd1 = after_call (CreateRequest rd_env rd0 rd_create)"
definition rd2 :: request_db where "rd2 = after_call (log_MarkRequestRunning rd_env rd1 rd1 1)"
definition rd3 :: request_db where "rd3 = after_call (CreateAttempt rd_env rd2 rd_attempt)"
definition rd4 :: request_db where "rd4 = after_call (log_MarkRequestSucceeded rd_env rd3 rd3 rd_done)"

lemma after_callI: "\<not> isl r \<Longrightarrow> r = Inr (fst (projr r), after_call r)"
  by (cases r) (simp_all add: after_call_def)

lemma rd_reachable: "log_reachable rd2" "log_step\<^sup>*\<^sup>* rd2 rd4" "log_reachable rd4"
proof -
  have runs: "\<not> isl (CreateRequest rd_env rd0 rd_create)" "\<not> isl (log_MarkRequestRunning rd_env rd1 rd1 1)"
    "\<not> isl (CreateAttempt rd_env rd2 rd_attempt)" "\<not> isl (log_MarkRequestSucceeded rd_env rd3 rd3 rd_done)"
    by code_simp+
  note s = log_step.create [OF after_callI [OF runs(1)], folded rd1_def] log_step.running [OF after_callI [OF runs(2)], folded rd2_def]
    log_step.attempt [OF after_callI [OF runs(3)], folded rd3_def] log_step.succeeded [OF after_callI [OF runs(4)], folded rd4_def]
  have s0: "log_step empty_request_db rd0" unfolding rd0_def by (rule log_step.outside)
  show r: "log_reachable rd2" unfolding log_reachable_def using s0 s(1,2) by (meson converse_rtranclp_into_rtranclp rtranclp.rtrancl_refl)
  show t: "log_step\<^sup>*\<^sup>* rd2 rd4" using s(3,4) by (meson converse_rtranclp_into_rtranclp rtranclp.rtrancl_refl)
  from r t show "log_reachable rd4" unfolding log_reachable_def by (rule rtranclp_trans)
qed

lemma rd_find: "map_option rrStatus (request_of rd2 1) = Some RequestStatusRunning"
    "map_option rrStatus (request_of rd4 1) = Some RequestStatusSucceeded" "request_of rd4 1 \<noteq> None"
  by code_simp+

theorem request_history_witness:
  "\<exists>r r'. request_of rd2 1 = Some r \<and> request_of rd4 1 = Some r' \<and> rrStatus r = RequestStatusRunning \<and>
     rrStatus r' = RequestStatusSucceeded \<and> request_le r r'"
  using request_history [OF rd_reachable(1,2)] rd_find by (fastforce simp: map_option_eq_Some)

theorem request_log_sound_witness: "log_inv rd4"
  by (rule request_log_sound [OF rd_reachable(3)])

theorem settled_request_is_final_witness:
  "\<exists>r. request_of rd4 1 = Some r \<and> rrStatus r = RequestStatusSucceeded \<and>
     log_MarkRequestSucceeded rd_env rd4 rd4 rd_done = Inr (requestRecordFromSQLC r, rd4) \<and>
     log_MarkRequestFailed rd_env rd4 rd4 rd_failed = Inl (requestLogStateTransitionFailure ''mark request failed'')"
proof -
  obtain r where r: "request_of rd4 1 = Some r" "rrStatus r = RequestStatusSucceeded"
    using rd_find(2) by (auto simp: map_option_eq_Some)
  then have "settled r" by (simp add: terminal_statuses_def)
  with settled_request_is_final [of rd4 1 r rd_env rd_done rd_settled rd_failed rd_attempt] rd_reachable(3) r
  show ?thesis
    by (simp add: rd_env_def rd_done_def rd_settled_def rd_failed_def rd_attempt_def replayed_def
        MarkRequestSucceededParams.defs MarkSettledRequestFailedParams.defs)
qed

end
