(* ===== verification/Recovery_Laws.thy ===== *)
theory Recovery_Laws
  imports Recovery_Machine Request_Laws
begin

text \<open>
  What the recovery jobs guarantee: their history, the fencing of leases, the bound on what the workers can do, and when
  a worker gets every job to its end.
\<close>

subsection \<open>History\<close>

lemma empty_jobs_wf: "recovery_jobs db = [] \<Longrightarrow> jobs_wf db"
  by (simp add: jobs_wf_def)

lemma claimed_job_of:
  assumes "ClaimNextSettlementRecoveryJob locked db by until now = Inr (job, db')" "jobs_wf db"
  shows "job_of db' (sjID job) = Some job" "jobs_wf db'"
    "\<exists>j. job_of db (sjID job) = Some j \<and> sjAttemptCount job = sjAttemptCount j + 1 \<and> sjAttemptCount j < sjMaxAttempts j"
proof -
  from claim_edit(1) [OF assms] obtain j where j: "j \<in> set (jobs_of db)" "sjAttemptCount j < sjMaxAttempts j" "job_le j job"
      "sjAttemptCount job = sjAttemptCount j + 1" "put_job db job = Inr (job, db')" by blast
  have id: "sjID job = sjID j" using j(3) by (simp add: job_le_def)
  note old = member_job_of [OF assms(2) j(1)]
  show "job_of db' (sjID job) = Some job" using j(5) old id find_update [where key = sjID, of "sjID j" "jobs_of db" j job "sjID j"]
    by (auto simp: put_job_def job_of_def split: if_splits)
  show "jobs_wf db'" using edit_jobs_wf [OF claim_edit(2) [OF assms] assms(2)] .
  show "\<exists>j. job_of db (sjID job) = Some j \<and> sjAttemptCount job = sjAttemptCount j + 1 \<and> sjAttemptCount j < sjMaxAttempts j"
    using old id j(2,4) by auto
qed

text \<open>
  Over any run of the statements on the recovery jobs, from an empty table and whatever happens to other tables, a job
  keeps every fact the settlement is replayed from, its attempts never exceed their maximum and never go down, and a job
  that succeeded or died never changes again; no request and no reservation has two jobs.
\<close>

theorem recovery_history:
  assumes "recovery_jobs db0 = []" "job_step\<^sup>*\<^sup>* db0 db" "job_step\<^sup>*\<^sup>* db db'" "job_of db i = Some j"
  shows "\<exists>j'. job_of db' i = Some j' \<and> job_le j j' \<and> check_job j' \<and> sjAttemptCount j' \<le> sjMaxAttempts j' \<and>
    distinct (map sjRequestRecordID (jobs_of db')) \<and> distinct (map sjReservationID (jobs_of db'))"
proof -
  have wf: "jobs_wf db" using recovery.reach_inv [OF assms(2) empty_jobs_wf [OF assms(1)]] .
  then have wf': "jobs_wf db'" using recovery.reach_inv [OF assms(3)] by simp
  obtain j' where j': "job_of db' i = Some j'" "job_le j j'"
    using recovery.reach_rel [OF assms(3) wf] assms(4) unfolding jobs_le_def by blast
  then have "check_job j'" using wf' job_of_member [OF j'(1)] by (simp add: jobs_wf_def)
  with j' wf' show ?thesis by (auto simp: jobs_wf_def check_job_def check_job_state_def)
qed

text \<open>
  C29: A lease fences off the worker that held it before. When a job is claimed a second time, by whatever worker and after
  whatever statements, the later claim has a larger attempt number, and from then on every report (retry or dead) of the
  earlier claim is refused without effect, even with the same worker id.
\<close>

theorem lease_fencing:
  assumes "jobs_wf db" "ClaimNextSettlementRecoveryJob locked db by until now = Inr (j1, db1)" "job_step\<^sup>*\<^sup>* db1 db2"
    "ClaimNextSettlementRecoveryJob locked' db2 by' until' now' = Inr (j2, db3)" "sjID j2 = sjID j1" "job_step\<^sup>*\<^sup>* db3 db4"
  shows "sjAttemptCount j1 < sjAttemptCount j2 \<and>
    MarkSettlementRecoveryJobRetry db4 next e t (sjID j1) (sjLockedBy j1) (sjLockedUntil j1) (sjAttemptCount j1) = Inl ErrNoRows \<and>
    MarkSettlementRecoveryJobDead db4 e t (sjID j1) (sjLockedBy j1) (sjLockedUntil j1) (sjAttemptCount j1) = Inl ErrNoRows"
proof -
  note c1 = claimed_job_of [OF assms(2,1)]
  have wf2: "jobs_wf db2" using recovery.reach_inv [OF assms(3) c1(2)] .
  note c2 = claimed_job_of [OF assms(4) wf2]
  obtain j where j: "job_of db2 (sjID j1) = Some j" "sjAttemptCount j1 \<le> sjAttemptCount j"
    using recovery.reach_rel [OF assms(3) c1(2)] c1(1) unfolding jobs_le_def job_le_def by blast
  then have lt: "sjAttemptCount j1 < sjAttemptCount j2" using c2(3) assms(5) by auto
  obtain j' where j': "job_of db4 (sjID j1) = Some j'" "sjAttemptCount j2 \<le> sjAttemptCount j'"
    using recovery.reach_rel [OF assms(6) c2(2)] c2(1) assms(5) unfolding jobs_le_def job_le_def by metis
  then have "\<not> holds_lease owner lease (sjAttemptCount j1) j'" for owner lease
    using lt by (simp add: holds_lease_def)
  with lt j'(1) show ?thesis
    by (simp add: MarkSettlementRecoveryJobRetry_def MarkSettlementRecoveryJobDead_def)
qed

subsection \<open>Termination\<close>

lemma progress_step: "job_progress db db' \<Longrightarrow> job_step db db'"
  by (cases rule: job_progress.cases) (blast intro: job_step.intros)+

text \<open>
  C28: The workers come to an end. Whatever order the statements of any number of workers run in (claims, retries,
  exhausted and dead reports, successes, finalizations of dead jobs), and whatever the clocks say, at most \<open>work db\<close> of
  them have an effect when no job is created in between: three per attempt a job has left, and three more per job.
\<close>

theorem recovery_terminates:
  assumes "jobs_wf db" "(job_progress ^^ n) db db'"
  shows "n + work db' \<le> work db"
proof -
  have "n + work db' \<le> work db \<and> jobs_wf db'" using assms(2)
  proof (induction n arbitrary: db')
    case 0
    with assms(1) show ?case by simp
  next
    case (Suc n)
    then obtain mid where mid: "(job_progress ^^ n) db mid" "job_progress mid db'" by auto
    with Suc.IH have "n + work mid \<le> work db" "jobs_wf mid" by blast+
    moreover have "jobs_wf db'" using recovery.step_inv [OF progress_step [OF mid(2)]] \<open>jobs_wf mid\<close> .
    ultimately show ?case using job_progress_work [OF mid(2)] by simp
  qed
  then show ?thesis ..
qed

subsection \<open>Backoff and timeout\<close>

lemma backoff_value:
  assumes "0 < c"
  shows "settlementRecoveryBackoff n c = min (second * 2 ^ nat (min 30 (max 0 (n - 1)))) c"
proof -
  define s where "s = nat (min 30 (max 0 (n - 1)))"
  have s30: "s \<le> 30" by (simp add: s_def nat_le_iff)
  have pow: "(2::int) ^ s \<le> 2 ^ 30" "0 < (2::int) ^ s" using power_increasing [OF s30, of "2::int"] by simp_all
  have "is_int64 p \<and> is_int64 (second * p)" if "0 < p" "p \<le> 2 ^ 30" for p :: int
    using that by (simp add: is_int64_def int64_min_def int64_max_def second_def)
  from this [OF pow(2,1)] have w1: "wrap64 (2 ^ s) = 2 ^ s" and w2: "wrap64 (second * 2 ^ s) = second * 2 ^ s"
    by (simp_all add: wrap64_id)
  have pos: "0 < second * 2 ^ s" using pow by (simp add: second_def)
  show ?thesis
  proof (cases "n \<le> 1")
    case True
    then have "s = 0" by (simp add: s_def)
    with True assms show ?thesis by (simp add: settlementRecoveryBackoff_def minDuration_def s_def [symmetric] min_def)
  next
    case False
    then have sh: "nat (if n - 1 > 30 then 30 else n - 1) = s" by (auto simp: s_def)
    have cc: "(if c \<le> 0 then defaultSettlementRecoveryBackoffCap else c) = c" using assms by simp
    have "settlementRecoveryBackoff n c = (if second * 2 ^ s \<le> 0 \<or> second * 2 ^ s > c then c else second * 2 ^ s)"
      by (simp only: settlementRecoveryBackoff_def Let_def cc sh w1 w2 False if_False)
    with pos show ?thesis unfolding s_def [symmetric] by (simp add: min_def)
  qed
qed

lemma timeout_in_lease:
  assumes "2 \<le> swLockTTL w"
  shows "0 < recoveryTimeout w \<and> recoveryTimeout w < swLockTTL w"
proof -
  have half: "0 < swLockTTL w div 2" "swLockTTL w div 2 < swLockTTL w" using assms by simp_all
  have margin: "0 < settlementRecoveryLockMargin" by (simp add: settlementRecoveryLockMargin_def second_def)
  show ?thesis
  proof (cases "swLockTTL w \<le> settlementRecoveryLockMargin")
    case True
    with half assms show ?thesis by (simp add: recoveryTimeout_def)
  next
    case False
    with margin show ?thesis by (simp add: recoveryTimeout_def)
  qed
qed

text \<open>
  C30: The delay before a retry is 1s, 2s, 4s, .. for the attempts made so far, never above the cap, never zero or negative
  (no shift or product overflows), and it never gets shorter as attempts add up; and the time a worker gives a replay is
  positive and ends before the lease of its claim does, when the lease is at least two nanoseconds.
\<close>

theorem backoff_bounds:
  assumes "0 < backoffCap" "n \<le> m" "2 \<le> swLockTTL w"
  shows "settlementRecoveryBackoff n backoffCap = min (second * 2 ^ nat (min 30 (max 0 (n - 1)))) backoffCap \<and>
    0 < settlementRecoveryBackoff n backoffCap \<and> settlementRecoveryBackoff n backoffCap \<le> backoffCap \<and>
    settlementRecoveryBackoff n backoffCap \<le> settlementRecoveryBackoff m backoffCap \<and>
    0 < recoveryTimeout w \<and> recoveryTimeout w < swLockTTL w"
proof -
  have "nat (min 30 (max 0 (n - 1))) \<le> nat (min 30 (max 0 (m - 1)))" using assms(2) by (intro nat_mono) auto
  then have "(2::int) ^ nat (min 30 (max 0 (n - 1))) \<le> 2 ^ nat (min 30 (max 0 (m - 1)))" by (simp add: power_increasing)
  then have "second * 2 ^ nat (min 30 (max 0 (n - 1))) \<le> second * 2 ^ nat (min 30 (max 0 (m - 1)))"
    by (intro mult_left_mono) (simp_all add: second_def)
  moreover have "0 < second * 2 ^ nat (min 30 (max 0 (n - 1)))" by (simp add: second_def)
  moreover have "0 < recoveryTimeout w \<and> recoveryTimeout w < swLockTTL w"
    by (rule timeout_in_lease [OF assms(3)])
  ultimately show ?thesis unfolding backoff_value [OF assms(1)] using assms(1)
    by (simp add: min_le_iff_disj del: power_le_one_iff)
qed


subsection \<open>A single worker\<close>

text \<open>The recoverer leaves the job table to the worker and restarts no request.\<close>

definition leaves_jobs :: "'z job_db_scheme \<Rightarrow> 'z job_db_scheme \<Rightarrow> bool" where
  "leaves_jobs db db' \<longleftrightarrow> other_tables db db' \<and> (\<forall>i. running_request db' i \<longrightarrow> running_request db i)"

text \<open>No call fails and no row is held by another transaction.\<close>

definition healthy :: "tick \<Rightarrow> bool" where
  "healthy t \<longleftrightarrow> (\<forall>msg. \<not> fault (tkEnv t) msg) \<and> tkLocked t = {}"

text \<open>Every open job is due at \<open>T\<close>.\<close>

definition due_by :: "int \<Rightarrow> SettlementRecoveryJob \<Rightarrow> bool" where
  "due_by T j \<longleftrightarrow> job_final j \<or> (sjNextRunAt j \<le> T \<and> null_or (\<lambda>u. u \<le> T) (sjLockedUntil j))"

definition all_due :: "int \<Rightarrow> 'z job_db_scheme \<Rightarrow> bool" where
  "all_due T db \<longleftrightarrow> (\<forall>j \<in> set (jobs_of db). due_by T j)"

definition horizon :: "SettlementRecoveryWorker \<Rightarrow> int" where
  "horizon w = max (swLockTTL w) (swBackoffCap w) div 1000"

text \<open>What every call of the worker keeps: jobs that continue those of \<open>base\<close>, due at \<open>B\<close>, and at most \<open>W\<close> work.\<close>

definition calm :: "'z job_db_scheme \<Rightarrow> int \<Rightarrow> nat \<Rightarrow> 'z job_db_scheme \<Rightarrow> bool" where
  "calm base B W db \<longleftrightarrow> jobs_wf db \<and> jobs_le base db \<and> all_due B db \<and> work db \<le> W"

lemma due_by_mono: "due_by T j \<Longrightarrow> T \<le> B \<Longrightarrow> due_by B j"
  by (auto simp: due_by_def null_or_def split: option.splits)

lemma calm_mono: "calm base B W db \<Longrightarrow> W \<le> V \<Longrightarrow> calm base B V db" by (simp add: calm_def)

lemma put_job_due: "put_job db j = Inr (x, db') \<Longrightarrow> all_due B db \<Longrightarrow> due_by B j \<Longrightarrow> all_due B db'"
  by (auto simp: put_job_def all_due_def split: if_splits)

lemma leaves_calm:
  assumes "leaves_jobs db db'" "calm base B W db"
  shows "calm base B W db'"
proof -
  have "job_step db db'" using assms(1) by (intro job_step.elsewhere) (simp add: leaves_jobs_def)
  then have "jobs_wf db' \<and> jobs_le base db'"
    using assms(2) recovery.step_inv recovery.step_rel jobs_le_trans unfolding calm_def by blast
  then show ?thesis using assms other_tables_work [of db db']
    by (auto simp: leaves_jobs_def calm_def all_due_def other_tables_def)
qed

lemma calm_put:
  assumes "calm base B W db" "put_job db job = Inr (job, db')" "job_progress db db'" "due_by B job"
  shows "calm base B W db'" "work db' < work db"
proof -
  note s = progress_step [OF assms(3)]
  have wf: "jobs_wf db" using assms(1) by (simp add: calm_def)
  show lt: "work db' < work db" using job_progress_work [OF assms(3) wf] .
  have "jobs_le base db'" using assms(1) recovery.step_rel [OF s wf] jobs_le_trans unfolding calm_def by blast
  with lt assms recovery.step_inv [OF s wf] put_job_due [OF assms(2)] show "calm base B W db'" by (simp add: calm_def)
qed

lemma final_due: "job_final j \<Longrightarrow> due_by B j" by (simp add: due_by_def)

lemma dead_due: "due_by B (dead_job e t j)" by (simp add: due_by_def dead_job_def job_final_def)

lemma claim_calm:
  assumes "calm base B W db" "ClaimNextSettlementRecoveryJob locked db by until now = Inr (job, db')" "until \<le> B"
  shows "calm base B W db'" "work db' < work db"
proof -
  from claim_edit(1) [OF assms(2)] assms(1) obtain j where j: "j \<in> set (jobs_of db)" "job_due now j" "sjStatus job = JobRunning"
      "sjLockedUntil job = Some until" "sjNextRunAt job = sjNextRunAt j" "put_job db job = Inr (job, db')"
    by (auto simp: calm_def)
  have "due_by B job" using j assms(1,3) job_due_not_final [OF j(2)] by (auto simp: calm_def all_due_def due_by_def null_or_def)
  from calm_put [OF assms(1) j(6) job_progress.claim [OF assms(2)] this] show "calm base B W db'" "work db' < work db" by simp_all
qed

lemma exhausted_calm:
  assumes "calm base B W db" "MarkExhaustedSettlementRecoveryJobDead locked db e t now = Inr (job, db')"
  shows "calm base B W db'" "work db' < work db"
proof -
  from exhausted_edit(1) [OF assms(2)] assms(1) obtain j where "job = dead_job e t j" "put_job db job = Inr (job, db')"
    by (auto simp: calm_def)
  with calm_put [OF assms(1) _ job_progress.exhausted [OF assms(2)]] dead_due show "calm base B W db'" "work db' < work db"
    by blast+
qed

lemma succeeded_calm:
  assumes "calm base B W db" "MarkSettlementRecoveryJobSucceeded seen db t i = Inr (job, db')"
  shows "calm base B W db'"
proof (cases "db' = db")
  case False
  with succeeded_edit(1) [OF assms(2)] have "put_job db job = Inr (job, db')" "sjStatus job = JobSucceeded" by blast+
  then show ?thesis using calm_put(1) [OF assms(1) _ job_progress.succeeded [OF assms(2) False]] final_due
    by (simp add: job_final_def)
qed (use assms in simp)

lemma auto_call_cases:
  assumes "auto_call env msg db r = (x, db')"
  obtains "db' = db" | y where "r = Inr (y, db')"
  using assms by (auto simp: auto_call_def split: sum.splits if_splits)

lemma report_cases:
  assumes "report msg (auto_call env msg' db r) = (x, db')"
  obtains "db' = db" | y where "r = Inr (y, db')"
  using assms by (auto simp: report_def auto_call_def split: sum.splits if_splits)

lemma markFailed_calm:
  assumes "calm base B W db" "markFailed w t db job err = (r, db')" "0 < swBackoffCap w" "tkReport t + horizon w \<le> B"
  shows "calm base B W db'"
proof (cases "sjAttemptCount job \<ge> sjMaxAttempts job")
  case True
  from assms(2) [unfolded markFailed_def Let_def if_P [OF True]] show ?thesis
  proof (cases rule: report_cases)
    case (2 y)
    from dead_edit(1) [OF 2] calm_put(1) [OF assms(1) _ job_progress.dead [OF 2]] dead_due show ?thesis by blast
  qed (use assms in simp)
next
  case False
  from assms(2) [unfolded markFailed_def Let_def if_not_P [OF False]] show ?thesis
  proof (cases rule: report_cases)
    case (2 y)
    have "settlementRecoveryBackoff (sjAttemptCount job) (swBackoffCap w) div 1000 \<le> horizon w"
      using assms(3) unfolding horizon_def by (intro zdiv_mono1) (simp_all add: backoff_value min_le_iff_disj le_max_iff_disj)
    then have "due_by B (retry_job (add_duration (tkReport t) (settlementRecoveryBackoff (sjAttemptCount job) (swBackoffCap w))) e u j)" for e u j
      using assms(4) by (simp add: due_by_def retry_job_def add_duration_def null_or_def)
    with retry_edit(1) [OF 2] calm_put(1) [OF assms(1) _ job_progress.retry [OF 2]] show ?thesis by blast
  qed (use assms in simp)
qed

text \<open>A claim and its replay.\<close>

abbreviation next_claim :: "SettlementRecoveryWorker \<Rightarrow> tick \<Rightarrow> 'z job_db_scheme \<Rightarrow>
    (db_error, SettlementRecoveryJob \<times> 'z job_db_scheme) go_result" where
  "next_claim w t db \<equiv> ClaimNextSettlementRecoveryJob (tkLocked t) db (swWorkerID w) (add_duration (tkNow t) (swLockTTL w)) (tkNow t)"

lemma claim_lease: "tkNow t + horizon w \<le> B \<Longrightarrow> add_duration (tkNow t) (swLockTTL w) \<le> B"
proof -
  assume "tkNow t + horizon w \<le> B"
  moreover have "swLockTTL w div 1000 \<le> horizon w" unfolding horizon_def by (intro zdiv_mono1) simp_all
  ultimately show ?thesis by (simp add: add_duration_def)
qed

lemma check_job_facts:
  assumes "job_facts.truncate j' = job_facts.truncate j" "check_job j" "check_job_state j'"
  shows "check_job j'"
proof -
  have "check_job_response j' = check_job_response j" "check_job_usage j' = check_job_usage j" "check_job_prices j' = check_job_prices j"
    using assms(1) by (simp_all add: job_facts.defs check_job_response_def check_job_usage_def check_job_prices_def)
  with assms(2,3) show ?thesis by (simp add: check_job_def)
qed

lemma dead_facts: "job_facts.truncate (dead_job e t j) = job_facts.truncate j"
  by (simp add: job_facts.defs dead_job_def)

lemma due_job_claimed:
  assumes "jobs_wf db" "j \<in> set (jobs_of db)" "sjAttemptCount j < sjMaxAttempts j" "job_due now j" "owner \<noteq> ''''"
  shows "\<exists>job db'. ClaimNextSettlementRecoveryJob {} db owner lease now = Inr (job, db')"
proof -
  let ?P = "\<lambda>j. sjAttemptCount j < sjMaxAttempts j \<and> job_due now j"
  have "candidate_job {} db ?P \<noteq> None"
    using assms(2-4) unfolding candidate_job_def by (auto simp: find_None_iff)
  then obtain k where k: "candidate_job {} db ?P = Some k" by blast
  note ck = candidate_job_some [OF k]
  let ?k' = "k\<lparr>sjStatus := JobRunning, sjAttemptCount := sjAttemptCount k + 1, sjLockedBy := Some owner,
      sjLockedUntil := Some lease, sjLastAttemptedAt := Some now, sjUpdatedAt := now\<rparr>"
  have "check_job k" using ck(1) assms(1) by (simp add: jobs_wf_def)
  moreover then have "check_job_state ?k'" using ck(2) assms(5)
    by (auto simp: check_job_def check_job_state_def null_or_def job_due_def)
  ultimately have "check_job ?k'" by (intro check_job_facts [of ?k' k]) (simp_all add: job_facts.defs)
  then show ?thesis using k by (simp add: ClaimNextSettlementRecoveryJob_def put_job_def)
qed

lemma dead_found:
  "GetDeadSettlementRecoveryJobWithRunningRequest db = Inr job \<Longrightarrow>
     job \<in> set (jobs_of db) \<and> sjStatus job = JobDead \<and> running_request db (sjRequestRecordID job)"
  "j \<in> set (jobs_of db) \<Longrightarrow> sjStatus j = JobDead \<Longrightarrow> running_request db (sjRequestRecordID j) \<Longrightarrow>
     \<exists>job. GetDeadSettlementRecoveryJobWithRunningRequest db = Inr job"
proof -
  let ?xs = "sort_key sjID (filter (\<lambda>j. sjStatus j = JobDead \<and> running_request db (sjRequestRecordID j)) (jobs_of db))"
  show "job \<in> set (jobs_of db) \<and> sjStatus job = JobDead \<and> running_request db (sjRequestRecordID job)"
    if "GetDeadSettlementRecoveryJobWithRunningRequest db = Inr job"
  proof -
    have "find (\<lambda>j. True) ?xs = Some job"
      using that by (simp add: GetDeadSettlementRecoveryJobWithRunningRequest_def one_row_def split: option.splits)
    then have "job \<in> set ?xs" by (cases ?xs) auto
    then show ?thesis by simp
  qed
  assume j: "j \<in> set (jobs_of db)" "sjStatus j = JobDead" "running_request db (sjRequestRecordID j)"
  then have "find (\<lambda>j. True) ?xs \<noteq> None" unfolding find_None_iff by auto
  then show "\<exists>job. GetDeadSettlementRecoveryJobWithRunningRequest db = Inr job"
    by (auto simp: GetDeadSettlementRecoveryJobWithRunningRequest_def one_row_def split: option.splits)
qed

lemma markExhausted_calm:
  assumes "calm base B W db" "markExhausted t db = ((worked, err), db')"
  shows "calm base B W db'"
proof -
  let ?m = "MarkExhaustedSettlementRecoveryJobDead (tkLocked t) db exhausted_facts (tkNow t) (tkNow t)"
  obtain c db1 where c: "auto_call (tkEnv t) ''mark exhausted settlement recovery job dead'' db ?m = (c, db1)"
    by (cases rule: prod.exhaust)
  have "db' = db1" using assms(2) c by (cases c) (simp_all add: markExhausted_def)
  moreover from c have "calm base B W db1"
  proof (cases rule: auto_call_cases)
    case (2 y)
    then show ?thesis using exhausted_calm(1) [OF assms(1)] by blast
  qed (use assms in simp)
  ultimately show ?thesis by simp
qed

lemma markExhausted_healthy:
  assumes "calm base B W db" "markExhausted t db = ((worked, err), db')" "healthy t"
  shows "(worked \<and> work db' < work db) \<or> (\<not> worked \<and> err = None \<and> db' = db \<and>
    (\<forall>j \<in> set (jobs_of db). job_due (tkNow t) j \<longrightarrow> sjAttemptCount j < sjMaxAttempts j))"
proof -
  let ?P = "\<lambda>j. sjAttemptCount j \<ge> sjMaxAttempts j \<and> job_due (tkNow t) j"
  let ?m = "MarkExhaustedSettlementRecoveryJobDead {} db exhausted_facts (tkNow t) (tkNow t)"
  have mE: "markExhausted t db = (case ?m of Inl e \<Rightarrow>
      ((False, if e = ErrNoRows then None else Some (WorkerStoreFailed e ''mark exhausted settlement recovery job dead'')), db)
    | Inr (_, db1) \<Rightarrow> ((True, None), db1))"
    using assms(3) by (auto simp: markExhausted_def auto_call_def healthy_def split: sum.splits)
  show ?thesis
  proof (cases "candidate_job {} db ?P")
    case None
    then have "\<forall>j \<in> set (jobs_of db). \<not> ?P j" unfolding candidate_job_def find_None_iff by auto
    moreover have "?m = Inl ErrNoRows" using None by (simp add: MarkExhaustedSettlementRecoveryJobDead_def)
    ultimately show ?thesis using assms(2) unfolding mE by auto
  next
    case (Some j)
    note c = candidate_job_some [OF Some]
    have "check_job j" using c(1) assms(1) by (simp add: calm_def jobs_wf_def)
    moreover then have "check_job_state (dead_job exhausted_facts (tkNow t) j)"
      by (simp add: check_job_def check_job_state_def dead_job_def null_or_def)
    ultimately have "check_job (dead_job exhausted_facts (tkNow t) j)"
      by (rule check_job_facts [OF dead_facts])
    then obtain job db1 where m: "?m = Inr (job, db1)"
      using Some by (simp add: MarkExhaustedSettlementRecoveryJobDead_def put_job_def)
    with assms(2) have "worked" "db' = db1" unfolding mE by simp_all
    with exhausted_calm(2) [OF assms(1) m] show ?thesis by simp
  qed
qed

lemma no_work:
  assumes "jobs_wf db"
  shows "work db = 0 \<longleftrightarrow> (\<forall>j \<in> set (jobs_of db). job_final j \<and> (sjStatus j = JobDead \<longrightarrow> \<not> running_request db (sjRequestRecordID j)))"
proof -
  have "job_work db j = 0 \<longleftrightarrow> job_final j \<and> (sjStatus j = JobDead \<longrightarrow> \<not> running_request db (sjRequestRecordID j))"
    if "j \<in> set (jobs_of db)" for j
  proof -
    have "check_job j" using that assms by (simp add: jobs_wf_def)
    then have "sjStatus j \<in> set [JobPending, JobRunning, JobSucceeded, JobDead]" by (simp add: check_job_def check_job_state_def)
    then show ?thesis by (auto simp: job_work_def job_final_def)
  qed
  then show ?thesis by (simp add: work_def)
qed

subsection \<open>Rounds\<close>

primrec rounds ::
  "'z job_db_scheme recoverer \<Rightarrow> SettlementRecoveryWorker \<Rightarrow> (nat \<Rightarrow> nat \<Rightarrow> tick) \<Rightarrow> nat \<Rightarrow> 'z job_db_scheme \<Rightarrow> 'z job_db_scheme" where
  "rounds rcv w tk 0 db = db"
| "rounds rcv w tk (Suc n) db = snd (RunOnce rcv w (tk n) (rounds rcv w tk n db))"

lemma new_worker:
  "0 < swBackoffCap (NewSettlementRecoveryWorker wid ttl cap)" "0 < swLockTTL (NewSettlementRecoveryWorker wid ttl cap)"
  "swWorkerID (NewSettlementRecoveryWorker wid ttl cap) \<noteq> ''''"
  by (simp_all add: NewSettlementRecoveryWorker_def defaultSettlementRecoveryBackoffCap_def
      defaultSettlementRecoveryLockTTL_def second_def)

text \<open>Rounds of one worker, with the service as it is in each of them.\<close>

primrec service_rounds :: "(nat \<Rightarrow> 'z job_db_scheme recoverer) \<Rightarrow> SettlementRecoveryWorker \<Rightarrow> (nat \<Rightarrow> nat \<Rightarrow> tick) \<Rightarrow> nat \<Rightarrow>
    'z job_db_scheme \<Rightarrow> 'z job_db_scheme" where
  "service_rounds rcv w tk 0 db = db"
| "service_rounds rcv w tk (Suc n) db = snd (RunOnce (rcv n) w (tk n) (service_rounds rcv w tk n db))"

text \<open>The outcome of round \<open>k\<close>.\<close>

abbreviation round_outcome :: "(nat \<Rightarrow> 'z job_db_scheme recoverer) \<Rightarrow> SettlementRecoveryWorker \<Rightarrow> (nat \<Rightarrow> nat \<Rightarrow> tick) \<Rightarrow>
    'z job_db_scheme \<Rightarrow> nat \<Rightarrow> bool \<times> worker_error option" where
  "round_outcome rcv w tk db k \<equiv> fst (RunOnce (rcv k) w (tk k) (service_rounds rcv w tk k db))"

subsection \<open>What a worker needs of the settlement\<close>

text \<open>The finding of \<open>RunOnce\<close> that the oldest dead job could not be finalized.\<close>

definition finalize_failed :: "bool \<times> worker_error option \<Rightarrow> bool" where
  "finalize_failed r = (case snd r of Some (WorkerFinalizeFailed _ _) \<Rightarrow> True | _ \<Rightarrow> False)"

text \<open>
  The contract of the service behind a worker, which may be another one in every round: on a consistent database it leaves
  the job table to the worker and restarts no request, and when it reports that it finalized a dead job, the request of the
  job is over. It may fail at any time.
\<close>

locale recovery_service =
  fixes good :: "'z job_db_scheme \<Rightarrow> bool" and rcv :: "nat \<Rightarrow> 'z job_db_scheme recoverer"
  assumes good_jobs: "good db \<Longrightarrow> jobs_wf db"
    and worker_good: "good db \<Longrightarrow> job_tables db db' \<Longrightarrow> good db'"
    and recover_good: "good db \<Longrightarrow> good (snd (RecoverChatSettlement (rcv k) job db))"
    and recover_leaves: "good db \<Longrightarrow> leaves_jobs db (snd (RecoverChatSettlement (rcv k) job db))"
    and finalize_good: "good db \<Longrightarrow> good (snd (rc_FinalizeDeadChatSettlement (rcv k) job db))"
    and finalize_leaves: "good db \<Longrightarrow> leaves_jobs db (snd (rc_FinalizeDeadChatSettlement (rcv k) job db))"
    and finalize_ends: "good db \<Longrightarrow> fst (rc_FinalizeDeadChatSettlement (rcv k) job db) = None \<Longrightarrow>
      \<not> running_request (snd (rc_FinalizeDeadChatSettlement (rcv k) job db)) (sjRequestRecordID job)"
begin

lemma call_good:
  assumes "auto_call env msg db r = (x, db')" "good db" "\<And>y d. r = Inr (y, d) \<Longrightarrow> job_tables db d"
  shows "good db'"
  using assms(1)
proof (cases rule: auto_call_cases)
  case (2 y)
  then show ?thesis using worker_good [OF assms(2) assms(3)] by blast
qed (use assms(2) in simp)

lemma markFailed_good:
  assumes "markFailed w t db job err = (r, db')" "good db"
  shows "good db'"
proof -
  note statements = job_statements [OF good_jobs [OF assms(2)]]
  have "good d" if "report m (auto_call env msg db x) = (y, d)" "\<And>z d. x = Inr (z, d) \<Longrightarrow> job_tables db d" for m env msg x y d
    using that(1)
  proof (cases rule: report_cases)
    case (2 z)
    then show ?thesis using worker_good [OF assms(2) that(2)] by blast
  qed (use assms(2) in simp)
  from this [OF _ statements(3)] this [OF _ statements(4)] assms(1) show ?thesis
    unfolding markFailed_def Let_def by (auto split: if_splits)
qed

text \<open>A claim and its replay.\<close>

lemma replay_calm:
  assumes "calm base B V db1" "good db1" "0 < swBackoffCap w" "tkReport t + horizon w \<le> B"
    and "auto_call (tkEnv t) ''claim settlement recovery job'' db (next_claim w t db) = (Inr job, db1)"
    and "claimAndRecoverOne (rcv k) w t db = (x, db')"
  shows "calm base B V db' \<and> good db'"
proof -
  obtain err db2 where r: "RecoverChatSettlement (rcv k) job db1 = (err, db2)" by (cases rule: prod.exhaust)
  have "leaves_jobs db1 db2" using recover_leaves [OF assms(2), of k job] r by simp
  note two = leaves_calm [OF this assms(1)]
  have good2: "good db2" using recover_good [OF assms(2), of k job] r by simp
  show ?thesis
  proof (cases err)
    case (Some e)
    obtain m db3 where m: "markFailed w t db2 job e = (m, db3)" by (cases rule: prod.exhaust)
    have "db' = db3" using assms(6) by (simp add: claimAndRecoverOne_def assms(5) r Some m)
    then show ?thesis using markFailed_calm [OF two m assms(3,4)] markFailed_good [OF m good2] by simp
  next
    case None
    obtain m db3 where m: "auto_call (tkEnv t) ''mark settlement recovery job succeeded'' db2
        (MarkSettlementRecoveryJobSucceeded db2 db2 (tkReport t) (sjID job)) = (m, db3)" by (cases rule: prod.exhaust)
    have "db' = db3" using assms(6) by (cases m) (simp_all add: claimAndRecoverOne_def assms(5) r None m)
    moreover have "calm base B V db3" using m
    proof (cases rule: auto_call_cases)
      case (2 y)
      then show ?thesis by (rule succeeded_calm [OF two])
    qed (use two in simp)
    ultimately show ?thesis using call_good [OF m good2 job_statements(5) [OF good_jobs [OF good2]]] by simp
  qed
qed

lemma claim_good:
  assumes "auto_call (tkEnv t) ''claim settlement recovery job'' db (next_claim w t db) = (c, db1)" "good db"
  shows "good db1"
  by (rule call_good [OF assms job_statements(1) [OF good_jobs [OF assms(2)]]])

lemma claimAndRecoverOne_calm:
  assumes "calm base B W db" "good db" "claimAndRecoverOne (rcv k) w t db = (x, db')" "0 < swBackoffCap w"
    "tkNow t + horizon w \<le> B" "tkReport t + horizon w \<le> B"
  shows "calm base B W db' \<and> good db'"
proof -
  obtain c db1 where c: "auto_call (tkEnv t) ''claim settlement recovery job'' db (next_claim w t db) = (c, db1)"
    by (cases rule: prod.exhaust)
  note good1 = claim_good [OF c assms(2)]
  from c have one: "calm base B W db1"
  proof (cases rule: auto_call_cases)
    case (2 y)
    obtain job where "next_claim w t db = Inr (job, db1)" using 2 by blast
    from claim_calm(1) [OF assms(1) this claim_lease [OF assms(5)]] show ?thesis .
  qed (use assms in simp)
  show ?thesis
  proof (cases c)
    case (Inl e)
    with assms(3) c have "db' = db1" by (simp add: claimAndRecoverOne_def)
    with one good1 show ?thesis by simp
  next
    case (Inr job)
    from replay_calm [OF one good1 assms(4,6) c [unfolded Inr] assms(3)] show ?thesis .
  qed
qed

lemma claimAndRecoverOne_progress:
  assumes "calm base B W db" "good db" "claimAndRecoverOne (rcv k) w t db = (x, db')" "0 < swBackoffCap w"
    "tkNow t + horizon w \<le> B" "tkReport t + horizon w \<le> B" "healthy t" "swWorkerID w \<noteq> ''''"
    and "j \<in> set (jobs_of db)" "sjAttemptCount j < sjMaxAttempts j" "job_due (tkNow t) j"
  shows "work db' < work db"
proof -
  obtain job db1 where run: "next_claim w t db = Inr (job, db1)"
    using due_job_claimed [OF good_jobs [OF assms(2)] assms(9-11) assms(8)] assms(7) by (fastforce simp: healthy_def)
  have c: "auto_call (tkEnv t) ''claim settlement recovery job'' db (next_claim w t db) = (Inr job, db1)"
    using assms(7) unfolding run by (simp add: auto_call_def healthy_def)
  note one = claim_calm [OF assms(1) run claim_lease [OF assms(5)]]
  then have "calm base B (work db1) db1" by (simp add: calm_def)
  from replay_calm [OF this claim_good [OF c assms(2)] assms(4,6) c assms(3)] one(2) show ?thesis by (simp add: calm_def)
qed

lemma claim_batch_calm:
  assumes "0 < swBackoffCap w" "\<forall>i. tkNow (ticks i) + horizon w \<le> B \<and> tkReport (ticks i) + horizon w \<le> B"
  shows "calm base B W db \<Longrightarrow> good db \<Longrightarrow> claim_batch (rcv k) w ticks n i worked db = (x, db') \<Longrightarrow>
    calm base B W db' \<and> good db'"
proof (induction n arbitrary: i worked db)
  case (Suc n)
  obtain p e db1 where one: "claimAndRecoverOne (rcv k) w (ticks i) db = ((p, e), db1)" by (metis prod.exhaust)
  have "calm base B W db1 \<and> good db1"
    using claimAndRecoverOne_calm [OF Suc.prems(1,2) one assms(1)] assms(2) by blast
  with Suc.IH [of db1] Suc.prems(3) show ?case by (cases e; cases p) (auto simp: one)
qed simp

text \<open>Finalizing takes work away, unless it fails.\<close>

lemma finalize_calm:
  assumes "calm base B W db" "good db" "finalizeNextDeadJob (rcv k) t db = ((worked, err), db')"
  shows "calm base B W db' \<and> good db'"
  using assms leaves_calm [OF finalize_leaves [OF assms(2)] assms(1)] finalize_good [OF assms(2)]
  by (auto simp: finalizeNextDeadJob_def split: sum.splits prod.splits option.splits) (metis snd_conv)+

lemma finalize_healthy:
  assumes "finalizeNextDeadJob (rcv k) t db = ((worked, err), db')" "good db" "healthy t" "\<not> finalize_failed (worked, err)"
  shows "(worked \<and> work db' < work db) \<or> (\<not> worked \<and> err = None \<and> db' = db \<and>
    (\<forall>j \<in> set (jobs_of db). sjStatus j = JobDead \<longrightarrow> \<not> running_request db (sjRequestRecordID j)))"
proof (cases "GetDeadSettlementRecoveryJobWithRunningRequest db")
  case (Inl e)
  then have e: "e = ErrNoRows"
    by (auto simp: GetDeadSettlementRecoveryJobWithRunningRequest_def one_row_def split: option.splits)
  with Inl assms(1,3) have "\<not> worked \<and> err = None \<and> db' = db"
    by (simp add: finalizeNextDeadJob_def store_call_def healthy_def)
  with dead_found(2) [of _ db] Inl show ?thesis by fastforce
next
  case (Inr job)
  let ?r = "rc_FinalizeDeadChatSettlement (rcv k) job db"
  have run: "worked" "db' = snd ?r" "fst ?r = None"
    using assms(1,3,4) Inr
    by (auto simp: finalizeNextDeadJob_def store_call_def healthy_def finalize_failed_def split: prod.splits option.splits)
  have "work db' < work db" unfolding run(2)
    using finalized_work [of db "snd ?r" job] finalize_leaves [OF assms(2)] finalize_ends [OF assms(2) run(3)] dead_found(1) [OF Inr]
    by (simp add: leaves_jobs_def)
  with run(1) show ?thesis by simp
qed

lemma exhausted_good:
  assumes "markExhausted t db = ((worked, err), db')" "good db"
  shows "good db'"
proof -
  obtain m where "auto_call (tkEnv t) ''mark exhausted settlement recovery job dead'' db
      (MarkExhaustedSettlementRecoveryJobDead (tkLocked t) db exhausted_facts (tkNow t) (tkNow t)) = (m, db')"
    using assms(1) by (auto simp: markExhausted_def split: prod.splits sum.splits)
  then show ?thesis by (rule call_good [OF _ assms(2) job_statements(2) [OF good_jobs [OF assms(2)]]])
qed

text \<open>With nothing to finalize and nothing exhausted, a batch of claims takes work away, or there is none.\<close>

lemma batch_progress:
  assumes "calm base T W db" "good db" "claim_batch (rcv k) w ticks batch 1 False db = (r3, db3)"
    "batch = nat (if swBatchSize w \<le> 0 then defaultSettlementRecoveryBatchSize else swBatchSize w)" "0 < swBackoffCap w"
    "\<forall>i. T \<le> tkNow (ticks i) \<and> tkNow (ticks i) + horizon w \<le> B \<and> tkReport (ticks i) + horizon w \<le> B"
    "\<forall>i. healthy (ticks i)" "swWorkerID w \<noteq> ''''"
    "\<forall>j \<in> set (jobs_of db). sjStatus j = JobDead \<longrightarrow> \<not> running_request db (sjRequestRecordID j)"
    "\<forall>j \<in> set (jobs_of db). job_due (tkNow (ticks 0)) j \<longrightarrow> sjAttemptCount j < sjMaxAttempts j" "T \<le> B"
  shows "work db3 < work db \<or> work db = 0"
proof (cases "\<forall>j \<in> set (jobs_of db). job_final j")
  case True
  with assms(9) no_work [OF good_jobs [OF assms(2)]] show ?thesis by simp
next
  case False
  then obtain j where j: "j \<in> set (jobs_of db)" "\<not> job_final j" by blast
  have bound: "\<forall>i. tkNow (ticks i) + horizon w \<le> B \<and> tkReport (ticks i) + horizon w \<le> B" using assms(6) by blast
  have "check_job j" "due_by T j" using j(1) assms(1) by (simp_all add: calm_def jobs_wf_def all_due_def)
  then have due: "job_due T' j" if "T \<le> T'" for T'
    using j(2) that by (auto simp: check_job_def check_job_state_def job_final_def due_by_def job_due_def null_or_def)
  have att: "sjAttemptCount j < sjMaxAttempts j" using assms(6,10) j(1) due by blast
  have "batch \<noteq> 0" using assms(4) by (simp add: defaultSettlementRecoveryBatchSize_def)
  then obtain n where n: "batch = Suc n" using not0_implies_Suc by blast
  obtain p e dbc where one: "claimAndRecoverOne (rcv k) w (ticks 1) db = ((p, e), dbc)" by (metis prod.exhaust)
  have self: "calm base B (work db) db" using assms(1,11) due_by_mono by (fastforce simp: calm_def all_due_def)
  have lt: "work dbc < work db"
    using claimAndRecoverOne_progress [OF self assms(2) one assms(5) _ _ _ assms(8) j(1) att due] bound assms(6,7) by blast
  have "calm base B (work dbc) dbc \<and> good dbc"
    using claimAndRecoverOne_calm [OF self assms(2) one assms(5)] bound by (simp add: calm_def)
  moreover have "db3 = dbc \<or> (\<exists>x. claim_batch (rcv k) w ticks n (Suc 1) True dbc = (x, db3))"
    using assms(3) one n by (auto split: option.splits if_splits)
  ultimately have "calm base B (work dbc) db3" using claim_batch_calm [OF assms(5) bound] by blast
  then show ?thesis using lt by (simp add: calm_def)
qed

text \<open>
  A round of a healthy worker at a time when every open job is due takes work away, or there is none, or a dead job could not
  be finalized.
\<close>

lemma RunOnce_round:
  assumes "calm base T W db" "good db" "RunOnce (rcv k) w ticks db = (r, db')" "0 < swBackoffCap w" "0 < swLockTTL w"
    "\<forall>i. T \<le> tkNow (ticks i) \<and> tkNow (ticks i) + horizon w \<le> B \<and> tkReport (ticks i) + horizon w \<le> B"
  shows "calm base B W db' \<and> good db'"
    "(\<forall>i. healthy (ticks i)) \<Longrightarrow> swWorkerID w \<noteq> '''' \<Longrightarrow> \<not> finalize_failed r \<Longrightarrow> work db' < work db \<or> work db = 0"
proof -
  have h: "0 \<le> horizon w" using assms(4,5) by (simp add: horizon_def max_def pos_imp_zdiv_nonneg_iff)
  have TB: "T \<le> B" using assms(6) h by (meson add_increasing2 order_trans)
  have c0: "calm base B V db" if "calm base T V db" for V
    using that TB due_by_mono by (fastforce simp: calm_def all_due_def)
  obtain wk1 e1 db1 where f: "finalizeNextDeadJob (rcv k) (ticks 0) db = ((wk1, e1), db1)" by (metis prod.exhaust)
  obtain wk2 e2 db2 where m: "markExhausted (ticks 0) db1 = ((wk2, e2), db2)" by (metis prod.exhaust)
  define batch where "batch = nat (if swBatchSize w \<le> 0 then defaultSettlementRecoveryBatchSize else swBatchSize w)"
  obtain r3 db3 where b: "claim_batch (rcv k) w ticks batch 1 False db2 = (r3, db3)" by (metis prod.exhaust)
  have out: "(r, db') = (if wk1 \<or> e1 \<noteq> None then ((wk1, e1), db1) else if wk2 \<or> e2 \<noteq> None then ((wk2, e2), db2) else (r3, db3))"
    using assms(3) unfolding RunOnce_def f prod.case m batch_def [symmetric] b by (auto split: if_splits)
  have bound: "\<forall>i. tkNow (ticks i) + horizon w \<le> B \<and> tkReport (ticks i) + horizon w \<le> B" using assms(6) by blast
  have all: "(calm base B V db1 \<and> good db1) \<and> (calm base B V db2 \<and> good db2) \<and> (calm base B V db3 \<and> good db3)"
    if "calm base T V db" for V
  proof -
    have c1: "calm base B V db1 \<and> good db1" by (rule finalize_calm [OF c0 [OF that] assms(2) f])
    then have c2: "calm base B V db2 \<and> good db2" using markExhausted_calm [OF _ m] exhausted_good [OF m] by blast
    with c1 claim_batch_calm [OF assms(4) bound _ _ b] show ?thesis by blast
  qed
  show "calm base B W db' \<and> good db'" using all [OF assms(1)] out by (simp split: if_splits)
  show "work db' < work db \<or> work db = 0" if hl: "\<forall>i. healthy (ticks i)" "swWorkerID w \<noteq> ''''" "\<not> finalize_failed r"
  proof -
    have ok: "\<not> finalize_failed (wk1, e1)" using out hl(3) by (auto simp: finalize_failed_def split: if_splits)
    consider "wk1" "work db1 < work db" | "\<not> wk1" "e1 = None" "db1 = db"
        "\<forall>j \<in> set (jobs_of db). sjStatus j = JobDead \<longrightarrow> \<not> running_request db (sjRequestRecordID j)"
      using finalize_healthy [OF f assms(2) _ ok] hl(1) by blast
    then show ?thesis
    proof cases
      case 1
      then show ?thesis using out by simp
    next
      case one: 2
      consider "wk2" "work db2 < work db" | "\<not> wk2" "e2 = None" "db2 = db"
          "\<forall>j \<in> set (jobs_of db). job_due (tkNow (ticks 0)) j \<longrightarrow> sjAttemptCount j < sjMaxAttempts j"
        using markExhausted_healthy [OF assms(1) m [unfolded one(3)]] hl(1) by blast
      then show ?thesis
      proof cases
        case 1
        then show ?thesis using out one by simp
      next
        case two: 2
        have "work db3 < work db \<or> work db = 0"
          by (rule batch_progress [OF assms(1) assms(2) b [unfolded two(3)] batch_def assms(4,6) hl(1,2) one(4) two(4) TB])
        then show ?thesis using out one two by simp
      qed
    qed
  qed
qed

lemma rounds_calm:
  assumes "good db" "all_due (start 0) db" "w = NewSettlementRecoveryWorker wid ttl cap"
    and "\<And>k i. healthy (tk k i) \<and> start k \<le> tkNow (tk k i) \<and> tkNow (tk k i) + horizon w \<le> start (Suc k) \<and>
      tkReport (tk k i) + horizon w \<le> start (Suc k)"
  shows "calm db (start n) (work db - card {k. k < n \<and> \<not> finalize_failed (round_outcome rcv w tk db k)}) (service_rounds rcv w tk n db) \<and>
    good (service_rounds rcv w tk n db)"
proof (induction n)
  case 0
  then show ?case using assms(1,2) good_jobs jobs_le_refl by (simp add: calm_def)
next
  case (Suc n)
  let ?ok = "\<lambda>n. card {k. k < n \<and> \<not> finalize_failed (round_outcome rcv w tk db k)}"
  obtain r db' where run: "RunOnce (rcv n) w (tk n) (service_rounds rcv w tk n db) = (r, db')" by (metis prod.exhaust)
  have t: "\<forall>i. start n \<le> tkNow (tk n i) \<and> tkNow (tk n i) + horizon w \<le> start (Suc n) \<and>
      tkReport (tk n i) + horizon w \<le> start (Suc n)" "\<forall>i. healthy (tk n i)" using assms(4) by blast+
  have pos: "0 < swBackoffCap w" "0 < swLockTTL w" "swWorkerID w \<noteq> ''''" using new_worker assms(3) by simp_all
  have c: "calm db (start (Suc n)) W db' \<and> good db'" if "calm db (start n) W (service_rounds rcv w tk n db)" for W
    using RunOnce_round(1) [OF that _ run pos(1,2) t(1)] Suc.IH by blast
  have "calm db (start n) (work (service_rounds rcv w tk n db)) (service_rounds rcv w tk n db)"
    using Suc.IH by (simp add: calm_def)
  note less = c [OF this]
  have "work db' \<le> work db - ?ok (Suc n)"
  proof (cases "finalize_failed r")
    case True
    then have "{k. k < Suc n \<and> \<not> finalize_failed (round_outcome rcv w tk db k)} =
        {k. k < n \<and> \<not> finalize_failed (round_outcome rcv w tk db k)}"
      using run less_Suc_eq by auto
    then show ?thesis using c Suc.IH by (simp add: calm_def)
  next
    case False
    then have "{k. k < Suc n \<and> \<not> finalize_failed (round_outcome rcv w tk db k)} =
        insert n {k. k < n \<and> \<not> finalize_failed (round_outcome rcv w tk db k)}"
      using run less_Suc_eq by auto
    then have "?ok (Suc n) = Suc (?ok n)" by simp
    moreover have "work db' < work (service_rounds rcv w tk n db) \<or> work (service_rounds rcv w tk n db) = 0"
      by (rule RunOnce_round(2) [OF conjunct1 [OF Suc.IH] conjunct2 [OF Suc.IH] run pos(1,2) t(1,2) pos(3) False])
    ultimately show ?thesis using Suc.IH less by (auto simp: calm_def)
  qed
  then show ?case using less run by (simp add: calm_def)
qed

lemma drains:
  assumes "good db" "all_due (start 0) db" "w = NewSettlementRecoveryWorker wid ttl cap"
    and "\<And>k i. healthy (tk k i) \<and> start k \<le> tkNow (tk k i) \<and> tkNow (tk k i) + horizon w \<le> start (Suc k) \<and>
      tkReport (tk k i) + horizon w \<le> start (Suc k)"
    and "work db \<le> card {k. k < n \<and> \<not> finalize_failed (round_outcome rcv w tk db k)}"
  shows "(\<forall>i j. job_of db i = Some j \<longrightarrow> (\<exists>j'. job_of (service_rounds rcv w tk n db) i = Some j' \<and> job_le j j')) \<and>
    (\<forall>j \<in> set (jobs_of (service_rounds rcv w tk n db)). sjStatus j \<in> set [JobSucceeded, JobDead] \<and>
      (sjStatus j = JobDead \<longrightarrow> \<not> running_request (service_rounds rcv w tk n db) (sjRequestRecordID j)))"
proof -
  have fin: "jobs_wf (service_rounds rcv w tk n db)" "work (service_rounds rcv w tk n db) = 0" "jobs_le db (service_rounds rcv w tk n db)"
    using rounds_calm [where tk = tk and n = n, OF assms(1-4)] assms(5) by (simp_all add: calm_def)
  then show ?thesis using no_work [OF fin(1)] unfolding jobs_le_def job_final_def by blast
qed

end

subsection \<open>A job that blocks the others\<close>

text \<open>
  C31: One dead job can stop all recovery. While the oldest dead job whose request is still running cannot be finalized (its
  transaction fails and rolls back), every round ends with that error before it claims anything: the database stays as it
  is for good, and no other job is ever replayed, retried or given up, however long it has been due.
\<close>

theorem dead_job_blocks_recovery:
  assumes "GetDeadSettlementRecoveryJobWithRunningRequest db = Inr job"
    and "rc_FinalizeDeadChatSettlement rcv job db = (Some err, db)"
    and "\<And>k. \<not> fault (tkEnv (tk k 0)) ''find dead settlement recovery job to finalize''"
  shows "rounds rcv w tk n db = db \<and>
    RunOnce rcv w (tk n) (rounds rcv w tk n db) =
      ((True, Some (WorkerFinalizeFailed err ''finalize dead settlement recovery job'')), db)"
proof -
  have one: "RunOnce rcv w (tk k) db = ((True, Some (WorkerFinalizeFailed err ''finalize dead settlement recovery job'')), db)" for k
    using assms by (simp add: RunOnce_def finalizeNextDeadJob_def store_call_def)
  have "rounds rcv w tk n db = db" by (induction n) (simp_all add: one)
  with one show ?thesis by simp
qed

subsection \<open>A run\<close>

definition jd_params :: CreateSettlementRecoveryJobParams where
  "jd_params = \<lparr>sjUserID = 3, sjRequestRecordID = 1, sjAttemptID = 1, sjReservationID = 9, sjResponseProtocol = ''openai'',
     sjResponseID = ''resp'', sjResponseModelID = ''gpt'', sjRequestFinalStatus = ''succeeded'',
     sjAttemptFinalStatus = ''succeeded'', sjSettlementErrorCode = '''', sjSettlementErrorMessage = '''',
     sjSettlementInternalErrorDetail = '''', sjModelID = 4, sjProviderID = 5, sjChannelID = 6,
     sjUpstreamProtocol = ''openai'', sjUpstreamResponseID = ''up'', sjUpstreamModel = ''gpt'', sjFinishClass = ''stop'',
     sjUpstreamFinishReason = ''stop'', sjUpstreamStatusCode = 200, sjUpstreamRequestID = None,
     sjUsageUncachedInputTokens = 10, sjUsageUncachedInputTokensState = ''known'', sjUsageCacheReadInputTokens = 0,
     sjUsageCacheReadInputTokensState = ''not_applicable'', sjUsageCacheWrite5mInputTokens = 0,
     sjUsageCacheWrite5mInputTokensState = ''not_applicable'', sjUsageCacheWrite1hInputTokens = 0,
     sjUsageCacheWrite1hInputTokensState = ''not_applicable'', sjUsageCacheWrite30mInputTokens = 0,
     sjUsageCacheWrite30mInputTokensState = ''not_applicable'', sjUsageOutputTokensTotal = 5,
     sjUsageOutputTokensTotalState = ''known'', sjUsageReasoningOutputTokens = 0,
     sjUsageReasoningOutputTokensState = ''not_applicable'', sjUsageServerWebSearchRequests = 0,
     sjUsageServerWebFetchRequests = 0, sjUsageSource = ''upstream_stream'', sjUsageMappingVersion = ''v1'',
     sjPriceID = None, sjCostBaseModelPriceID = None, sjChannelCostMultiplierID = None, sjChannelRechargeFactorID = None,
     sjCurrency = ''USD'', sjPricingUnit = ''per_1m_tokens'', sjUncachedInputPrice = num 20000000000,
     sjCacheReadInputPrice = numeric_null, sjCacheWrite5mInputPrice = numeric_null, sjCacheWrite1hInputPrice = numeric_null,
     sjCacheWrite30mInputPrice = numeric_null, sjOutputPrice = num 80000000000, sjReasoningOutputPrice = numeric_null,
     sjFormulaVersion = ''v1'', sjPriceRatio = numeric_null, sjLongContextEnabled = False, sjLongContextThreshold = None,
     sjLongContextInputMultiplier = numeric_null, sjLongContextOutputMultiplier = numeric_null,
     sjEstimatedAmount = num 900000000, sjAuthorizedAmount = num 900000000, csMaxAttempts = 2, csNextRunAt = 130\<rparr>"

definition jd0 :: job_db where "jd0 = request_db.extend rd3 (job_db.fields [] 1)"
definition jd1 :: job_db where "jd1 = after_call (CreateSettlementRecoveryJob (\<lambda>_ _. True) 100 jd0 jd_params)"
definition jd2 :: job_db where "jd2 = after_call (ClaimNextSettlementRecoveryJob {} jd1 ''w'' 160 130)"
definition jd3 :: job_db where "jd3 = after_call (ClaimNextSettlementRecoveryJob {} jd2 ''w'' 200 170)"

definition jd_job :: "int \<Rightarrow> job_db \<Rightarrow> SettlementRecoveryJob" where
  "jd_job i db = the (job_of db i)"

definition jd_claim1 :: SettlementRecoveryJob where "jd_claim1 = fst (projr (ClaimNextSettlementRecoveryJob {} jd1 ''w'' 160 130))"
definition jd_claim2 :: SettlementRecoveryJob where "jd_claim2 = fst (projr (ClaimNextSettlementRecoveryJob {} jd2 ''w'' 200 170))"

text \<open>Replays fail; a dead job's request is marked failed.\<close>

definition jd_rcv :: "job_db recoverer" where
  "jd_rcv = \<lparr>RecoverChatSettlement = (\<lambda>job db. (Some \<lparr>reCode = ''x'', reText = ''y''\<rparr>, db)),
     rc_FinalizeDeadChatSettlement = (\<lambda>job db. (None, db\<lparr>request_records :=
       map (\<lambda>r. if rrID r = sjRequestRecordID job then r\<lparr>rrStatus := RequestStatusFailed\<rparr> else r) (request_records db)\<rparr>))\<rparr>"

definition jd_worker :: SettlementRecoveryWorker where "jd_worker = NewSettlementRecoveryWorker ''w'' 1000 2000"
definition jd_tick :: "nat \<Rightarrow> nat \<Rightarrow> tick" where
  "jd_tick k i = \<lparr>tkEnv = rd_env, tkNow = 200 + 10 * int k, tkReport = 200 + 10 * int k, tkLocked = {}\<rparr>"

lemma jd_runs:
  "\<not> isl (CreateSettlementRecoveryJob (\<lambda>_ _. True) 100 jd0 jd_params)"
  "\<not> isl (ClaimNextSettlementRecoveryJob {} jd1 ''w'' 160 130)" "\<not> isl (ClaimNextSettlementRecoveryJob {} jd2 ''w'' 200 170)"
  "recovery_jobs jd0 = []" "sjID jd_claim2 = sjID jd_claim1"
  by code_simp+

lemma jd_steps: "job_step jd0 jd1" "job_step jd1 jd2" "jobs_wf jd0" "jobs_wf jd1" "jobs_wf jd2"
proof -
  show s: "job_step jd0 jd1" "job_step jd1 jd2"
    using job_step.create [OF after_callI [OF jd_runs(1)], folded jd1_def] job_step.claim [OF after_callI [OF jd_runs(2)], folded jd2_def] by blast+
  show "jobs_wf jd0" using empty_jobs_wf jd_runs(4) .
  then show "jobs_wf jd1" using recovery.step_inv [OF s(1)] by blast
  then show "jobs_wf jd2" using recovery.step_inv [OF s(2)] by blast
qed

theorem recovery_history_witness:
  "\<exists>j j'. job_of jd1 1 = Some j \<and> job_of jd2 1 = Some j' \<and> job_le j j'"
proof -
  have "job_of jd1 1 \<noteq> None" by code_simp
  then obtain j where "job_of jd1 1 = Some j" by blast
  with recovery_history [OF jd_runs(4) r_into_rtranclp [where r = job_step, OF jd_steps(1)] r_into_rtranclp [where r = job_step, OF jd_steps(2)]]
  show ?thesis by blast
qed

theorem lease_fencing_witness:
  "sjAttemptCount jd_claim1 < sjAttemptCount jd_claim2 \<and>
   MarkSettlementRecoveryJobDead jd3 (job_failure_of (''a'', ''b'', ''c'')) 300 (sjID jd_claim1) (sjLockedBy jd_claim1)
     (sjLockedUntil jd_claim1) (sjAttemptCount jd_claim1) = Inl ErrNoRows"
  using lease_fencing [OF jd_steps(4) after_callI [OF jd_runs(2), folded jd_claim1_def jd2_def] rtranclp.rtrancl_refl
      after_callI [OF jd_runs(3), folded jd_claim2_def jd3_def] jd_runs(5) rtranclp.rtrancl_refl] by blast

theorem recovery_terminates_witness: "1 + work jd2 \<le> work jd1"
proof -
  have "job_progress jd1 jd2" using job_progress.claim [OF after_callI [OF jd_runs(2)], folded jd2_def] .
  then show ?thesis using recovery_terminates [OF jd_steps(4), of 1 jd2] by auto
qed

theorem backoff_bounds_witness:
  "settlementRecoveryBackoff 3 (300 * second) = 4 * second \<and>
   settlementRecoveryBackoff 3 (300 * second) \<le> settlementRecoveryBackoff 40 (300 * second) \<and>
   recoveryTimeout (NewSettlementRecoveryWorker ''w'' 0 0) < 30 * second"
  using backoff_bounds [of "300 * second" 3 40 "NewSettlementRecoveryWorker ''w'' 0 0"]
  by (simp add: second_def NewSettlementRecoveryWorker_def defaultSettlementRecoveryLockTTL_def)

definition jd_stuck :: job_db where
  "jd_stuck = jd1\<lparr>recovery_jobs := [dead_job exhausted_facts 150 (jd_job 1 jd1),
     (jd_job 1 jd1)\<lparr>sjID := 2, sjRequestRecordID := 2, sjReservationID := 10\<rparr>]\<rparr>"

definition jd_poison :: "job_db recoverer" where
  "jd_poison = jd_rcv\<lparr>rc_FinalizeDeadChatSettlement := (\<lambda>job db. (Some \<lparr>reCode = ''x'', reText = ''y''\<rparr>, db))\<rparr>"

theorem dead_job_blocks_recovery_witness:
  "(\<exists>j \<in> set (jobs_of jd_stuck). sjStatus j = JobPending \<and> sjNextRunAt j = 130) \<and>
   rounds jd_poison jd_worker jd_tick 1000 jd_stuck = jd_stuck"
proof -
  have "\<exists>j \<in> set (jobs_of jd_stuck). sjStatus j = JobPending \<and> sjNextRunAt j = 130"
    "\<not> isl (GetDeadSettlementRecoveryJobWithRunningRequest jd_stuck)"
    by code_simp+
  moreover then obtain job where "GetDeadSettlementRecoveryJobWithRunningRequest jd_stuck = Inr job"
    by (cases "GetDeadSettlementRecoveryJobWithRunningRequest jd_stuck") auto
  ultimately show ?thesis
    using dead_job_blocks_recovery [of jd_stuck job jd_poison "\<lparr>reCode = ''x'', reText = ''y''\<rparr>" jd_tick jd_worker 1000]
    by (simp add: jd_poison_def jd_tick_def rd_env_def)
qed

end
