(* ===== verification/Settlement_Store.thy ===== *)
theory Settlement_Store
  imports Recovery_Jobs Provider_Ledger Settlement_Cost Ledger_Reservations Request_Log
begin

text \<open>
  The database as a settlement sees it: the request log and the recovery jobs, the customer ledger, the provider ledger and
  the prices, each as its component keeps it, and the tables only a settlement writes (\<open>src/migrations\<close> 19, 29, 33, 34).
  The statements are those of \<open>usage_records.sql.go\<close>, \<open>usage_line_items.sql.go\<close>, \<open>price_snapshots.sql.go\<close> and
  \<open>cost_snapshots.sql.go\<close>, and the few of \<open>api_keys.sql.go\<close>, \<open>channels.sql.go\<close> and \<open>ledger_reservations.sql.go\<close> a
  settlement adds.

  The tables a component refers to belong to other components here: \<open>ledger_view\<close> and \<open>provider_view\<close> are the component's
  own tables with the keys of those tables as its foreign keys check them.
\<close>

subsection \<open>Rows (models.go)\<close>

record UsageRecord =
  urID :: int
  urRequestRecordID :: int
  urUncachedInputTokens :: int
  urUncachedInputTokensState :: string
  urCacheReadInputTokens :: int
  urCacheReadInputTokensState :: string
  urCacheWrite5mInputTokens :: int
  urCacheWrite5mInputTokensState :: string
  urCacheWrite1hInputTokens :: int
  urCacheWrite1hInputTokensState :: string
  urOutputTokensTotal :: int
  urOutputTokensTotalState :: string
  urReasoningOutputTokens :: int
  urReasoningOutputTokensState :: string
  urUsageSource :: string
  urUsageMappingVersion :: string
  urCreatedAt :: int
  urCacheWrite30mInputTokens :: int
  urCacheWrite30mInputTokensState :: string

record UsageLineItem =
  uiID :: int
  uiUsageRecordID :: int
  uiKind :: string
  uiQuantity :: int
  uiCreatedAt :: int

record PriceSnapshot =
  psID :: int
  psRequestRecordID :: int
  psPriceID :: "int option"
  psCurrency :: string
  psPricingUnit :: string
  psUncachedInputPrice :: int
  psCacheReadInputPrice :: "int option"
  psCacheWrite5mInputPrice :: "int option"
  psCacheWrite1hInputPrice :: "int option"
  psOutputPrice :: int
  psReasoningOutputPrice :: "int option"
  psFormulaVersion :: string
  psCreatedAt :: int
  psPriceRatio :: "int option"
  psCacheWrite30mInputPrice :: "int option"
  psLongContextApplied :: bool

record CostSnapshot =
  ctID :: int
  ctRequestRecordID :: int
  ctCostPriceID :: "int option"
  ctProviderID :: int
  ctChannelID :: int
  ctModelID :: int
  ctUpstreamModel :: string
  ctCurrency :: string
  ctPricingUnit :: string
  ctUncachedInputCost :: int
  ctCacheReadInputCost :: "int option"
  ctCacheWrite5mInputCost :: "int option"
  ctCacheWrite1hInputCost :: "int option"
  ctOutputCost :: int
  ctReasoningOutputCost :: "int option"
  ctUncachedInputCostAmount :: int
  ctCacheReadInputCostAmount :: int
  ctCacheWrite5mInputCostAmount :: int
  ctCacheWrite1hInputCostAmount :: int
  ctOutputCostAmount :: int
  ctReasoningOutputCostAmount :: int
  ctTotalCostAmount :: int
  ctFormulaVersion :: string
  ctCreatedAt :: int
  ctCacheWrite30mInputCost :: "int option"
  ctCacheWrite30mInputCostAmount :: int
  ctCostBaseModelPriceID :: "int option"
  ctChannelCostMultiplierID :: "int option"
  ctCostMultiplier :: "int option"
  ctChannelRechargeFactorID :: "int option"
  ctRechargeFactor :: "int option"
  ctLongContextApplied :: bool

text \<open>What the statements here read of a channel; \<open>rq_channels\<close> has the ids of all channels.\<close>

record ChannelRow =
  chnID :: int
  chnProviderID :: int
  chnName :: string

record settle_db = job_db +
  customer_ledger :: db
  provider_ledger :: provider_db
  price_tables :: price_db
  channel_rows :: "ChannelRow list"
  usage_records :: "UsageRecord list"
  usage_line_items :: "UsageLineItem list"
  price_snapshots :: "PriceSnapshot list"
  cost_snapshots :: "CostSnapshot list"
  usage_record_seq :: int
  usage_line_item_seq :: int
  price_snapshot_seq :: int
  cost_snapshot_seq :: int

definition ledger_view :: "'z settle_db_scheme \<Rightarrow> db" where
  "ledger_view s = customer_ledger s\<lparr>users := rq_users s,
     requests := map (\<lambda>r. (rrID r, rrUserID r)) (request_records s)\<rparr>"

definition provider_view :: "'z settle_db_scheme \<Rightarrow> provider_db" where
  "provider_view s = provider_ledger s\<lparr>providers := rq_providers s, pv_channels := rq_channels s,
     pv_models := models (price_tables s), pv_requests := map rrID (request_records s),
     pv_attempts := map (\<lambda>a. (raID a, raRequestRecordID a)) (request_attempts s),
     pv_cost_snapshots := map ctID (cost_snapshots s)\<rparr>"

subsection \<open>usage_records.sql.go\<close>

record CreateUsageRecordParams =
  cuRequestRecordID :: int
  cuUncachedInputTokens :: int
  cuUncachedInputTokensState :: string
  cuCacheReadInputTokens :: int
  cuCacheReadInputTokensState :: string
  cuCacheWrite5mInputTokens :: int
  cuCacheWrite5mInputTokensState :: string
  cuCacheWrite1hInputTokens :: int
  cuCacheWrite1hInputTokensState :: string
  cuCacheWrite30mInputTokens :: int
  cuCacheWrite30mInputTokensState :: string
  cuOutputTokensTotal :: int
  cuOutputTokensTotalState :: string
  cuReasoningOutputTokens :: int
  cuReasoningOutputTokensState :: string
  cuUsageSource :: string
  cuUsageMappingVersion :: string

definition check_usage_record :: "UsageRecord \<Rightarrow> bool" where
  "check_usage_record r \<longleftrightarrow>
     check_count (urUncachedInputTokens r) (urUncachedInputTokensState r) \<and>
     check_count (urCacheReadInputTokens r) (urCacheReadInputTokensState r) \<and>
     check_count (urCacheWrite5mInputTokens r) (urCacheWrite5mInputTokensState r) \<and>
     check_count (urCacheWrite1hInputTokens r) (urCacheWrite1hInputTokensState r) \<and>
     check_count (urCacheWrite30mInputTokens r) (urCacheWrite30mInputTokensState r) \<and>
     check_count (urOutputTokensTotal r) (urOutputTokensTotalState r) \<and>
     check_count (urReasoningOutputTokens r) (urReasoningOutputTokensState r) \<and>
     (urReasoningOutputTokensState r \<noteq> ''known'' \<or> urOutputTokensTotalState r \<noteq> ''known'' \<or>
      urReasoningOutputTokens r \<le> urOutputTokensTotal r) \<and>
     urUsageMappingVersion r \<noteq> '''' \<and>
     urUsageSource r \<in> set [''upstream_response'', ''upstream_stream'', ''partial_stream_estimate'']"

definition insert_usage_record ::
  "'z settle_db_scheme \<Rightarrow> UsageRecord \<Rightarrow> (db_error, UsageRecord \<times> 'z settle_db_scheme) go_result" where
  "insert_usage_record db row =
     (if \<not> check_usage_record row then Inl CheckViolation
      else if urRequestRecordID row \<in> urRequestRecordID ` set (usage_records db) then Inl UniqueViolation
      else if urRequestRecordID row \<notin> rrID ` set (request_records db) then Inl ForeignKeyViolation
      else Inr (row\<lparr>urID := usage_record_seq db\<rparr>,
        db\<lparr>usage_records := usage_records db @ [row\<lparr>urID := usage_record_seq db\<rparr>],
           usage_record_seq := usage_record_seq db + 1\<rparr>))"

definition CreateUsageRecord ::
  "int \<Rightarrow> 'z settle_db_scheme \<Rightarrow> CreateUsageRecordParams \<Rightarrow> (db_error, UsageRecord \<times> 'z settle_db_scheme) go_result" where
  "CreateUsageRecord now db arg =
     insert_usage_record db
       \<lparr>urID = 0, urRequestRecordID = cuRequestRecordID arg, urUncachedInputTokens = cuUncachedInputTokens arg,
        urUncachedInputTokensState = cuUncachedInputTokensState arg,
        urCacheReadInputTokens = cuCacheReadInputTokens arg, urCacheReadInputTokensState = cuCacheReadInputTokensState arg,
        urCacheWrite5mInputTokens = cuCacheWrite5mInputTokens arg,
        urCacheWrite5mInputTokensState = cuCacheWrite5mInputTokensState arg,
        urCacheWrite1hInputTokens = cuCacheWrite1hInputTokens arg,
        urCacheWrite1hInputTokensState = cuCacheWrite1hInputTokensState arg,
        urOutputTokensTotal = cuOutputTokensTotal arg, urOutputTokensTotalState = cuOutputTokensTotalState arg,
        urReasoningOutputTokens = cuReasoningOutputTokens arg,
        urReasoningOutputTokensState = cuReasoningOutputTokensState arg, urUsageSource = cuUsageSource arg,
        urUsageMappingVersion = cuUsageMappingVersion arg, urCreatedAt = now,
        urCacheWrite30mInputTokens = cuCacheWrite30mInputTokens arg,
        urCacheWrite30mInputTokensState = cuCacheWrite30mInputTokensState arg\<rparr>"

definition GetUsageRecordByRequest :: "'z settle_db_scheme \<Rightarrow> int \<Rightarrow> (db_error, UsageRecord) go_result" where
  "GetUsageRecordByRequest db requestRecordID =
     one_row (find (\<lambda>r. urRequestRecordID r = requestRecordID) (usage_records db))"

subsection \<open>usage_line_items.sql.go\<close>

definition check_usage_line_item :: "UsageLineItem \<Rightarrow> bool" where
  "check_usage_line_item r \<longleftrightarrow>
     uiKind r \<in> set [''server_web_search_request'', ''server_web_fetch_request''] \<and> 0 < uiQuantity r"

definition CreateUsageLineItem ::
  "int \<Rightarrow> 'z settle_db_scheme \<Rightarrow> int \<Rightarrow> string \<Rightarrow> int \<Rightarrow> (db_error, UsageLineItem \<times> 'z settle_db_scheme) go_result" where
  "CreateUsageLineItem now db usageRecordID kind quantity =
     (let row = \<lparr>uiID = usage_line_item_seq db, uiUsageRecordID = usageRecordID, uiKind = kind, uiQuantity = quantity,
        uiCreatedAt = now\<rparr>
      in if \<not> check_usage_line_item row then Inl CheckViolation
         else if (usageRecordID, kind) \<in> (\<lambda>x. (uiUsageRecordID x, uiKind x)) ` set (usage_line_items db)
         then Inl UniqueViolation
         else if usageRecordID \<notin> urID ` set (usage_records db) then Inl ForeignKeyViolation
         else Inr (row, db\<lparr>usage_line_items := usage_line_items db @ [row],
           usage_line_item_seq := usage_line_item_seq db + 1\<rparr>))"

definition ListUsageLineItemsByUsageRecord :: "'z settle_db_scheme \<Rightarrow> int \<Rightarrow> UsageLineItem list" where
  "ListUsageLineItemsByUsageRecord db usageRecordID =
     sort_key uiID (filter (\<lambda>x. uiUsageRecordID x = usageRecordID) (usage_line_items db))"

subsection \<open>price_snapshots.sql.go\<close>

record CreatePriceSnapshotParams =
  cpsRequestRecordID :: int
  cpsPriceID :: "int option"
  cpsCurrency :: string
  cpsPricingUnit :: string
  cpsUncachedInputPrice :: numeric
  cpsCacheReadInputPrice :: numeric
  cpsCacheWrite5mInputPrice :: numeric
  cpsCacheWrite1hInputPrice :: numeric
  cpsCacheWrite30mInputPrice :: numeric
  cpsOutputPrice :: numeric
  cpsReasoningOutputPrice :: numeric
  cpsFormulaVersion :: string
  cpsPriceRatio :: numeric
  cpsLongContextApplied :: bool

definition check_price_snapshot :: "PriceSnapshot \<Rightarrow> bool" where
  "check_price_snapshot r \<longleftrightarrow>
     null_or_nonneg (psCacheReadInputPrice r) \<and> null_or_nonneg (psCacheWrite5mInputPrice r) \<and>
     null_or_nonneg (psCacheWrite1hInputPrice r) \<and> null_or_nonneg (psCacheWrite30mInputPrice r) \<and>
     null_or_nonneg (psReasoningOutputPrice r) \<and> null_or_nonneg (psPriceRatio r) \<and> 0 \<le> psUncachedInputPrice r \<and>
     0 \<le> psOutputPrice r \<and> psCurrency r \<noteq> '''' \<and> psFormulaVersion r \<noteq> '''' \<and> psPricingUnit r = ''per_1m_tokens''"

definition insert_price_snapshot ::
  "'z settle_db_scheme \<Rightarrow> PriceSnapshot \<Rightarrow> (db_error, PriceSnapshot \<times> 'z settle_db_scheme) go_result" where
  "insert_price_snapshot db row =
     (if \<not> check_price_snapshot row then Inl CheckViolation
      else if psRequestRecordID row \<in> psRequestRecordID ` set (price_snapshots db) then Inl UniqueViolation
      else if psRequestRecordID row \<notin> rrID ` set (request_records db) \<or>
        \<not> fk (psPriceID row) (map cprID (channel_prices (price_tables db))) then Inl ForeignKeyViolation
      else Inr (row\<lparr>psID := price_snapshot_seq db\<rparr>,
        db\<lparr>price_snapshots := price_snapshots db @ [row\<lparr>psID := price_snapshot_seq db\<rparr>],
           price_snapshot_seq := price_snapshot_seq db + 1\<rparr>))"

abbreviation required_num :: "numeric \<Rightarrow> (db_error, int) go_result" where
  "required_num v \<equiv> rbind (bind_num v) col10"

definition CreatePriceSnapshot ::
  "int \<Rightarrow> 'z settle_db_scheme \<Rightarrow> CreatePriceSnapshotParams \<Rightarrow> (db_error, PriceSnapshot \<times> 'z settle_db_scheme) go_result" where
  "CreatePriceSnapshot now db arg =
     rbind (required_num (cpsUncachedInputPrice arg)) (\<lambda>uncached.
     rbind (col10_null (cpsCacheReadInputPrice arg)) (\<lambda>cread.
     rbind (col10_null (cpsCacheWrite5mInputPrice arg)) (\<lambda>cw5.
     rbind (col10_null (cpsCacheWrite1hInputPrice arg)) (\<lambda>cw1.
     rbind (col10_null (cpsCacheWrite30mInputPrice arg)) (\<lambda>cw30.
     rbind (required_num (cpsOutputPrice arg)) (\<lambda>output.
     rbind (col10_null (cpsReasoningOutputPrice arg)) (\<lambda>reasoning.
     rbind (col10_null (cpsPriceRatio arg)) (\<lambda>ratio.
     insert_price_snapshot db
       \<lparr>psID = 0, psRequestRecordID = cpsRequestRecordID arg, psPriceID = cpsPriceID arg, psCurrency = cpsCurrency arg,
        psPricingUnit = cpsPricingUnit arg, psUncachedInputPrice = uncached, psCacheReadInputPrice = cread,
        psCacheWrite5mInputPrice = cw5, psCacheWrite1hInputPrice = cw1, psOutputPrice = output,
        psReasoningOutputPrice = reasoning, psFormulaVersion = cpsFormulaVersion arg, psCreatedAt = now,
        psPriceRatio = ratio, psCacheWrite30mInputPrice = cw30,
        psLongContextApplied = cpsLongContextApplied arg\<rparr>))))))))"

definition GetPriceSnapshotByRequest :: "'z settle_db_scheme \<Rightarrow> int \<Rightarrow> (db_error, PriceSnapshot) go_result" where
  "GetPriceSnapshotByRequest db requestRecordID =
     one_row (find (\<lambda>r. psRequestRecordID r = requestRecordID) (price_snapshots db))"

subsection \<open>cost_snapshots.sql.go\<close>

record CreateCostSnapshotParams =
  cctRequestRecordID :: int
  cctCostPriceID :: "int option"
  cctCostBaseModelPriceID :: "int option"
  cctChannelCostMultiplierID :: "int option"
  cctCostMultiplier :: numeric
  cctChannelRechargeFactorID :: "int option"
  cctRechargeFactor :: numeric
  cctProviderID :: int
  cctChannelID :: int
  cctModelID :: int
  cctUpstreamModel :: string
  cctCurrency :: string
  cctPricingUnit :: string
  cctUncachedInputCost :: numeric
  cctCacheReadInputCost :: numeric
  cctCacheWrite5mInputCost :: numeric
  cctCacheWrite1hInputCost :: numeric
  cctCacheWrite30mInputCost :: numeric
  cctOutputCost :: numeric
  cctReasoningOutputCost :: numeric
  cctUncachedInputCostAmount :: numeric
  cctCacheReadInputCostAmount :: numeric
  cctCacheWrite5mInputCostAmount :: numeric
  cctCacheWrite1hInputCostAmount :: numeric
  cctCacheWrite30mInputCostAmount :: numeric
  cctOutputCostAmount :: numeric
  cctReasoningOutputCostAmount :: numeric
  cctTotalCostAmount :: numeric
  cctFormulaVersion :: string
  cctLongContextApplied :: bool

definition check_cost_snapshot :: "CostSnapshot \<Rightarrow> bool" where
  "check_cost_snapshot r \<longleftrightarrow>
     ctTotalCostAmount r = ctUncachedInputCostAmount r + ctCacheReadInputCostAmount r + ctCacheWrite5mInputCostAmount r +
       ctCacheWrite1hInputCostAmount r + ctCacheWrite30mInputCostAmount r + ctOutputCostAmount r +
       ctReasoningOutputCostAmount r \<and>
     null_or_nonneg (ctCacheReadInputCost r) \<and> null_or_nonneg (ctCacheWrite5mInputCost r) \<and>
     null_or_nonneg (ctCacheWrite1hInputCost r) \<and> null_or_nonneg (ctCacheWrite30mInputCost r) \<and>
     null_or_nonneg (ctReasoningOutputCost r) \<and> null_or_nonneg (ctCostMultiplier r) \<and>
     null_or_nonneg (ctRechargeFactor r) \<and> 0 \<le> ctUncachedInputCost r \<and> 0 \<le> ctOutputCost r \<and>
     0 \<le> ctUncachedInputCostAmount r \<and> 0 \<le> ctCacheReadInputCostAmount r \<and> 0 \<le> ctCacheWrite5mInputCostAmount r \<and>
     0 \<le> ctCacheWrite1hInputCostAmount r \<and> 0 \<le> ctCacheWrite30mInputCostAmount r \<and> 0 \<le> ctOutputCostAmount r \<and>
     0 \<le> ctReasoningOutputCostAmount r \<and> 0 \<le> ctTotalCostAmount r \<and> ctCurrency r \<noteq> '''' \<and> ctFormulaVersion r \<noteq> '''' \<and>
     ctPricingUnit r = ''per_1m_tokens'' \<and> ctUpstreamModel r \<noteq> ''''"

text \<open>The composite foreign key on the price is checked when the price id is not NULL.\<close>

definition cost_snapshot_fks :: "'z settle_db_scheme \<Rightarrow> CostSnapshot \<Rightarrow> bool" where
  "cost_snapshot_fks db r \<longleftrightarrow>
     ctRequestRecordID r \<in> rrID ` set (request_records db) \<and> ctProviderID r \<in> set (rq_providers db) \<and>
     ctChannelID r \<in> set (rq_channels db) \<and> ctModelID r \<in> set (models (price_tables db)) \<and>
     (ctChannelID r, ctProviderID r) \<in> (\<lambda>c. (chnID c, chnProviderID c)) ` set (channel_rows db) \<and>
     (ctChannelID r, ctModelID r) \<in> set (channel_models (price_tables db)) \<and>
     null_or (\<lambda>i. (i, ctChannelID r, ctModelID r) \<in>
       (\<lambda>p. (cprID p, cprChannelID p, cprModelID p)) ` set (channel_prices (price_tables db))) (ctCostPriceID r)"

definition insert_cost_snapshot ::
  "'z settle_db_scheme \<Rightarrow> CostSnapshot \<Rightarrow> (db_error, CostSnapshot \<times> 'z settle_db_scheme) go_result" where
  "insert_cost_snapshot db row =
     (if \<not> check_cost_snapshot row then Inl CheckViolation
      else if ctRequestRecordID row \<in> ctRequestRecordID ` set (cost_snapshots db) then Inl UniqueViolation
      else if \<not> cost_snapshot_fks db row then Inl ForeignKeyViolation
      else Inr (row\<lparr>ctID := cost_snapshot_seq db\<rparr>,
        db\<lparr>cost_snapshots := cost_snapshots db @ [row\<lparr>ctID := cost_snapshot_seq db\<rparr>],
           cost_snapshot_seq := cost_snapshot_seq db + 1\<rparr>))"

definition CreateCostSnapshot ::
  "int \<Rightarrow> 'z settle_db_scheme \<Rightarrow> CreateCostSnapshotParams \<Rightarrow> (db_error, CostSnapshot \<times> 'z settle_db_scheme) go_result" where
  "CreateCostSnapshot now db arg =
     rbind (col10_null (cctCostMultiplier arg)) (\<lambda>multiplier.
     rbind (col10_null (cctRechargeFactor arg)) (\<lambda>factor.
     rbind (required_num (cctUncachedInputCost arg)) (\<lambda>uncached.
     rbind (col10_null (cctCacheReadInputCost arg)) (\<lambda>cread.
     rbind (col10_null (cctCacheWrite5mInputCost arg)) (\<lambda>cw5.
     rbind (col10_null (cctCacheWrite1hInputCost arg)) (\<lambda>cw1.
     rbind (col10_null (cctCacheWrite30mInputCost arg)) (\<lambda>cw30.
     rbind (required_num (cctOutputCost arg)) (\<lambda>output.
     rbind (col10_null (cctReasoningOutputCost arg)) (\<lambda>reasoning.
     rbind (required_num (cctUncachedInputCostAmount arg)) (\<lambda>uncachedAmount.
     rbind (required_num (cctCacheReadInputCostAmount arg)) (\<lambda>creadAmount.
     rbind (required_num (cctCacheWrite5mInputCostAmount arg)) (\<lambda>cw5Amount.
     rbind (required_num (cctCacheWrite1hInputCostAmount arg)) (\<lambda>cw1Amount.
     rbind (required_num (cctCacheWrite30mInputCostAmount arg)) (\<lambda>cw30Amount.
     rbind (required_num (cctOutputCostAmount arg)) (\<lambda>outputAmount.
     rbind (required_num (cctReasoningOutputCostAmount arg)) (\<lambda>reasoningAmount.
     rbind (required_num (cctTotalCostAmount arg)) (\<lambda>total.
     insert_cost_snapshot db
       \<lparr>ctID = 0, ctRequestRecordID = cctRequestRecordID arg, ctCostPriceID = cctCostPriceID arg,
        ctProviderID = cctProviderID arg, ctChannelID = cctChannelID arg, ctModelID = cctModelID arg,
        ctUpstreamModel = cctUpstreamModel arg, ctCurrency = cctCurrency arg, ctPricingUnit = cctPricingUnit arg,
        ctUncachedInputCost = uncached, ctCacheReadInputCost = cread, ctCacheWrite5mInputCost = cw5,
        ctCacheWrite1hInputCost = cw1, ctOutputCost = output, ctReasoningOutputCost = reasoning,
        ctUncachedInputCostAmount = uncachedAmount, ctCacheReadInputCostAmount = creadAmount,
        ctCacheWrite5mInputCostAmount = cw5Amount, ctCacheWrite1hInputCostAmount = cw1Amount,
        ctOutputCostAmount = outputAmount, ctReasoningOutputCostAmount = reasoningAmount, ctTotalCostAmount = total,
        ctFormulaVersion = cctFormulaVersion arg, ctCreatedAt = now, ctCacheWrite30mInputCost = cw30,
        ctCacheWrite30mInputCostAmount = cw30Amount, ctCostBaseModelPriceID = cctCostBaseModelPriceID arg,
        ctChannelCostMultiplierID = cctChannelCostMultiplierID arg, ctCostMultiplier = multiplier,
        ctChannelRechargeFactorID = cctChannelRechargeFactorID arg, ctRechargeFactor = factor,
        ctLongContextApplied = cctLongContextApplied arg\<rparr>)))))))))))))))))"

definition GetCostSnapshotByRequest :: "'z settle_db_scheme \<Rightarrow> int \<Rightarrow> (db_error, CostSnapshot) go_result" where
  "GetCostSnapshotByRequest db requestRecordID =
     one_row (find (\<lambda>r. ctRequestRecordID r = requestRecordID) (cost_snapshots db))"

subsection \<open>Statements on the tables of other components\<close>

definition GetChannelName :: "'z settle_db_scheme \<Rightarrow> int \<Rightarrow> (db_error, string) go_result" where
  "GetChannelName db channelID =
     rbind (one_row (find (\<lambda>c. chnID c = channelID) (channel_rows db))) (\<lambda>c. Inr (chnName c))"

text \<open>An \<open>:exec\<close> statement: without a matching key nothing happens.\<close>

definition AddAPIKeySpentTotal ::
  "int \<Rightarrow> 'z settle_db_scheme \<Rightarrow> numeric \<Rightarrow> int \<Rightarrow> (db_error, 'z settle_db_scheme) go_result" where
  "AddAPIKeySpentTotal now db amount i =
     rbind (bind_num amount) (\<lambda>p.
     case find (\<lambda>k. akID k = i) (api_keys db) of
       None \<Rightarrow> Inr db
     | Some k \<Rightarrow> rbind (col10 (sql_add (sql_col (akSpentTotal k)) p)) (\<lambda>total.
         if total < 0 then Inl CheckViolation
         else Inr (db\<lparr>api_keys := map (\<lambda>x. if akID x = i then x\<lparr>akSpentTotal := total, akUpdatedAt := now\<rparr> else x)
           (api_keys db)\<rparr>)))"

record RunningAttemptPermit =
  rpID :: int
  rpPermitID :: "string option"
  rpUpstreamStartedAt :: "int option"
  rpGatewayFirstTokenAt :: "int option"

definition ListRunningRequestAttemptPermitsForUpdate :: "'z request_db_scheme \<Rightarrow> int \<Rightarrow> RunningAttemptPermit list" where
  "ListRunningRequestAttemptPermitsForUpdate db requestRecordID =
     map (\<lambda>a. \<lparr>rpID = raID a, rpPermitID = raPermitID a, rpUpstreamStartedAt = raUpstreamStartedAt a,
         rpGatewayFirstTokenAt = raGatewayFirstTokenAt a\<rparr>)
       (filter (\<lambda>a. raRequestRecordID a = requestRecordID \<and> raStatus a = AttemptStatusRunning) (request_attempts db))"

definition orphaned_attempt :: "sqlErrorFacts \<Rightarrow> int \<Rightarrow> RequestAttempt \<Rightarrow> RequestAttempt" where
  "orphaned_attempt e completedAt a =
     (set_attempt_error e a)\<lparr>raStatus := AttemptStatusFailed, raCompletedAt := Some completedAt\<rparr>"

definition MarkRunningRequestAttemptsOrphaned ::
  "'z request_db_scheme \<Rightarrow> sqlErrorFacts \<Rightarrow> int \<Rightarrow> int \<Rightarrow> (db_error, int \<times> 'z request_db_scheme) go_result" where
  "MarkRunningRequestAttemptsOrphaned db e completedAt requestRecordID =
     (let hit = (\<lambda>a. raRequestRecordID a = requestRecordID \<and> raStatus a = AttemptStatusRunning)
      in if list_all check_request_attempt (map (orphaned_attempt e completedAt) (filter hit (request_attempts db)))
         then Inr (int (length (filter hit (request_attempts db))), db\<lparr>request_attempts :=
           map (\<lambda>a. if hit a then orphaned_attempt e completedAt a else a) (request_attempts db)\<rparr>)
         else Inl CheckViolation)"

end
