(* ===== verification/Settlement.thy ===== *)
theory Settlement
  imports Settlement_Store
begin

text \<open>
  \<open>internal/service/gateway/lifecycle/settlement.go\<close>: the transaction that settles a delivered request. It ends the
  attempt and the request, keeps the usage, the prices and the cost as snapshots, charges the customer's reservation and
  the provider's balance, and counts the charge on the API key; a second call with the same facts changes nothing.

  \<^item> \<open>ChatSettlementService\<close> is the service with the ledger and billing services of the other theories; its provider ledger
    is optional.
  \<^item> Between the lock on the request and the commit the transaction is alone on the rows it reads, so that the snapshot a
    statement sees is the database it changes.
  \<^item> The log summary \<open>publishSettlementLogSummary\<close> is left out: it has no result. The failure injection of the
    \<open>billing_e2e\<close> build is off, as \<open>fault_inject_prod.go\<close> has it.
\<close>

subsection \<open>Parameters and failures\<close>

record APIKeyPrincipal =
  apAPIKeyID :: int
  apUserID :: int
  apKeyPrefix :: string
  apRouteID :: "int option"
  apRPMLimit :: "int option"
  apRPDLimit :: "int option"
  apConcurrencyLimit :: "int option"

record ChatAuthorization =
  auReservationID :: int
  auRequestRecordID :: int
  auEstimatedAmount :: numeric
  auAuthorizedAmount :: numeric
  auCurrency :: string

record ChatSettlementParams =
  spRequestRecord :: log_request
  spAttemptRecord :: log_attempt
  spPrincipal :: APIKeyPrincipal
  spAuthorization :: ChatAuthorization
  spResponseProtocol :: string
  spResponseID :: string
  spResponseModelID :: string
  spGatewayFirstTokenAt :: "int option"
  spRequestFinalStatus :: string
  spAttemptFinalStatus :: string
  spErrorCode :: string
  spErrorMessage :: string
  spInternalErrorDetail :: string
  spModelDBID :: int
  spFinalProviderID :: int
  spFinalChannelID :: int
  spChannelPriceID :: int
  spCostBaseModelPriceID :: int
  spChannelCostMultiplierID :: int
  spChannelRechargeFactorID :: int
  spSalePrice :: CustomerPriceSnapshot
  spPriceRatio :: numeric
  spLongContextPolicy :: LongContextPolicy
  spFacts :: ResponseFacts

record ChatSettlementService =
  hasProviderLedger :: bool

text \<open>The cause inside a failure, and an error returned as it came (\<open>return err\<close>).\<close>

datatype settle_cause = NoCause | DbCause db_error | LedgerCause ledger_error | BillingCause billing_error |
  LogCause log_error | CostCause settlement_error

datatype settle_error =
    SettlementFailed settle_cause string
  | SettlementConflict string
  | OrphanReclaimFailed settle_cause string
  | StrandedReclaimFailed settle_cause string
  | Returned settle_cause
  | RecoveryScheduled int settle_error

abbreviation settlement_failure :: "string \<Rightarrow> settle_error" where
  "settlement_failure msg \<equiv> SettlementFailed NoCause msg"

definition failing :: "('e \<Rightarrow> settle_error) \<Rightarrow> ('e, 'a) go_result \<Rightarrow> (settle_error, 'a) go_result" where
  "failing f r = (case r of Inl e \<Rightarrow> Inl (f e) | Inr x \<Rightarrow> Inr x)"

abbreviation wrapped :: "('e \<Rightarrow> settle_cause) \<Rightarrow> string \<Rightarrow> ('e, 'a) go_result \<Rightarrow> (settle_error, 'a) go_result" where
  "wrapped c msg \<equiv> failing (\<lambda>e. SettlementFailed (c e) msg)"

abbreviation passed :: "('e \<Rightarrow> settle_cause) \<Rightarrow> ('e, 'a) go_result \<Rightarrow> (settle_error, 'a) go_result" where
  "passed c \<equiv> failing (\<lambda>e. Returned (c e))"

text \<open>A statement of the transaction, failing under the message the code wraps it with.\<close>

abbreviation db_call :: "'e env_scheme \<Rightarrow> string \<Rightarrow> (db_error, 'a) go_result \<Rightarrow> (settle_error, 'a) go_result" where
  "db_call env msg r \<equiv> wrapped DbCause msg (store_call env msg r)"

definition ensure :: "bool \<Rightarrow> settle_error \<Rightarrow> (settle_error, unit) go_result" where
  "ensure ok e = (if ok then Inr () else Inl e)"

definition ChatSettlementIdempotencyConflict :: "string \<Rightarrow> settle_error" where
  "ChatSettlementIdempotencyConflict msg = SettlementConflict msg"

abbreviation agree :: "bool \<Rightarrow> string \<Rightarrow> (settle_error, unit) go_result" where
  "agree ok msg \<equiv> ensure ok (ChatSettlementIdempotencyConflict msg)"

text \<open>A transaction: \<open>None\<close> leaves it without a commit, \<open>Some (msg, db')\<close> commits, and \<open>msg\<close> is the failure of that.\<close>

definition settle_tx ::
  "'e env_scheme \<Rightarrow> (settle_cause \<Rightarrow> string \<Rightarrow> settle_error) \<Rightarrow> string \<Rightarrow> 's \<Rightarrow>
   (settle_error, (string \<times> 's) option \<times> 'a) go_result \<Rightarrow> (settle_error, 'a) go_result \<times> 's" where
  "settle_tx env failure begin_msg db body =
     (if fault env begin_msg then (Inl (failure (DbCause ConnFailure) begin_msg), db)
      else case body of
        Inl e \<Rightarrow> (Inl e, db)
      | Inr (None, x) \<Rightarrow> (Inr x, db)
      | Inr (Some (msg, db'), x) \<Rightarrow>
         (case commit_outcome env of
            CommitOk \<Rightarrow> (Inr x, db')
          | CommitFailed \<Rightarrow> (Inl (failure (DbCause ConnFailure) msg), db)
          | CommitReplyLost \<Rightarrow> (Inl (failure (DbCause ConnFailure) msg), db')))"

subsection \<open>Numeric helpers\<close>

definition chatSettlementPow10 :: "int \<Rightarrow> int" where
  "chatSettlementPow10 e = 10 ^ nat e"

definition chatSettlementNumericRat :: "numeric \<Rightarrow> rat option" where
  "chatSettlementNumericRat value =
     (if \<not> nValid value \<or> nNaN value \<or> nInfinityModifier value \<noteq> Finite then None
      else case nInt value of
        None \<Rightarrow> None
      | Some i \<Rightarrow>
          (let rat0 = of_int i;
               rat1 = (if nExp value > 0 then rat0 * of_int (chatSettlementPow10 (nExp value)) else rat0)
           in Some (if nExp value < 0 then rat1 / of_int (chatSettlementPow10 (- nExp value)) else rat1)))"

definition chatSettlementCompareNumeric :: "numeric \<Rightarrow> numeric \<Rightarrow> (rat \<times> rat) option" where
  "chatSettlementCompareNumeric left right =
     (case (chatSettlementNumericRat left, chatSettlementNumericRat right) of (Some l, Some r) \<Rightarrow> Some (l, r) | _ \<Rightarrow> None)"

definition chatSettlementSameNumeric :: "numeric \<Rightarrow> numeric \<Rightarrow> bool" where
  "chatSettlementSameNumeric left right =
     (case (chatSettlementNumericRat left, chatSettlementNumericRat right) of
        (Some l, Some r) \<Rightarrow> l = r
      | (l, r) \<Rightarrow> (l \<noteq> None) = (r \<noteq> None))"

definition chatSettlementNumericGreaterThan :: "numeric \<Rightarrow> numeric \<Rightarrow> bool" where
  "chatSettlementNumericGreaterThan left right =
     (case chatSettlementCompareNumeric left right of Some (l, r) \<Rightarrow> l > r | None \<Rightarrow> False)"

definition chatSettlementMinNumeric :: "numeric \<Rightarrow> numeric \<Rightarrow> numeric" where
  "chatSettlementMinNumeric left right =
     (case chatSettlementCompareNumeric left right of Some (l, r) \<Rightarrow> if l \<le> r then left else right | None \<Rightarrow> right)"

definition chatSettlementNumericDiffMatches :: "numeric \<Rightarrow> numeric \<Rightarrow> numeric \<Rightarrow> bool" where
  "chatSettlementNumericDiffMatches value left right =
     (case (chatSettlementNumericRat value, chatSettlementNumericRat left, chatSettlementNumericRat right) of
        (Some v, Some l, Some r) \<Rightarrow> v = l - r
      | _ \<Rightarrow> False)"

definition chatSettlementNumericZero :: numeric where
  "chatSettlementNumericZero = mkNumeric 0 0"

definition chatSettlementAddNumeric :: "numeric \<Rightarrow> numeric \<Rightarrow> numeric" where
  "chatSettlementAddNumeric left right =
     (if \<not> numericFinite left \<or> \<not> numericFinite right then numeric_null
      else let e = (if nExp right < nExp left then nExp right else nExp left);
               scale = (\<lambda>v. let diff = nExp v - e in if diff \<le> 0 then the (nInt v) else the (nInt v) * 10 ^ nat diff)
           in mkNumeric (scale left + scale right) e)"

definition settlement_numericIsZero :: "numeric \<Rightarrow> bool" where
  "settlement_numericIsZero v \<longleftrightarrow> (if \<not> nValid v then True else case nInt v of None \<Rightarrow> True | Some i \<Rightarrow> i = 0)"

definition nullableInt8 :: "int \<Rightarrow> int option" where
  "nullableInt8 i = (if i = 0 then None else Some i)"

definition int8OrZero :: "int option \<Rightarrow> int" where
  "int8OrZero v = (case v of None \<Rightarrow> 0 | Some i \<Rightarrow> i)"

subsection \<open>The facts of a settlement\<close>

definition chatSettlementFinalStatuses :: "ChatSettlementParams \<Rightarrow> string \<times> string" where
  "chatSettlementFinalStatuses p =
     (if spRequestFinalStatus p = '''' then RequestStatusSucceeded else spRequestFinalStatus p,
      if spAttemptFinalStatus p = '''' then AttemptStatusSucceeded else spAttemptFinalStatus p)"

definition validSettlementRequestFinalStatus :: "string \<Rightarrow> bool" where
  "validSettlementRequestFinalStatus s \<longleftrightarrow> s \<in> set [RequestStatusSucceeded, RequestStatusFailed, RequestStatusCanceled]"

definition validSettlementAttemptFinalStatus :: "string \<Rightarrow> bool" where
  "validSettlementAttemptFinalStatus s \<longleftrightarrow> s \<in> set [AttemptStatusSucceeded, AttemptStatusFailed, AttemptStatusCanceled]"

definition validSettlementFinishClass :: "string \<Rightarrow> bool" where
  "validSettlementFinishClass c \<longleftrightarrow> c \<in> set [''stop'', ''length'', ''tool_use'', ''content_filter'', ''refusal'', ''pause'', ''other'']"

definition ValidateChatSettlementFacts :: "ChatSettlementParams \<Rightarrow> (settle_error, unit) go_result" where
  "ValidateChatSettlementFacts params =
     (let facts = spFacts params; policy = spLongContextPolicy params;
          (requestFinalStatus, attemptFinalStatus) = chatSettlementFinalStatuses params;
          hasErrorTarget = (requestFinalStatus \<noteq> RequestStatusSucceeded \<or> attemptFinalStatus \<noteq> AttemptStatusSucceeded)
      in if \<not> validSettlementRequestFinalStatus requestFinalStatus \<or> \<not> validSettlementAttemptFinalStatus attemptFinalStatus
         then Inl (settlement_failure ''chat settlement target status is invalid'')
         else if hasErrorTarget \<and> (spErrorCode params = '''' \<or> spErrorMessage params = '''')
         then Inl (settlement_failure ''chat settlement error facts are incomplete'')
         else if \<not> hasErrorTarget \<and>
           (spErrorCode params \<noteq> '''' \<or> spErrorMessage params \<noteq> '''' \<or> spInternalErrorDetail params \<noteq> '''')
         then Inl (settlement_failure ''successful chat settlement contains error facts'')
         else if lcEnabled policy \<and> \<not> Active policy
         then Inl (settlement_failure ''chat settlement long-context policy is incomplete'')
         else if \<not> Source_Valid (rfUsageSource facts)
         then Inl (settlement_failure ''chat settlement usage source is invalid'')
         else if \<not> Facts_Valid (rfUsage facts)
         then Inl (settlement_failure ''chat settlement usage facts are invalid'')
         else if spResponseProtocol params = '''' \<or> spResponseID params = '''' \<or> rfUpstreamProtocol facts = '''' \<or>
           rfUpstreamResponseID facts = '''' \<or> rfUpstreamModel facts = '''' \<or> rfUsageMappingVersion facts = '''' \<or>
           umStatusCode (rfMetadata facts) < 100 \<or> umStatusCode (rfMetadata facts) > 599
         then Inl (settlement_failure ''chat settlement response facts are incomplete'')
         else if \<not> validSettlementFinishClass (ffClass (rfFinish facts))
         then Inl (settlement_failure ''chat settlement finish class is invalid'')
         else Inr ())"

definition createSettlementUsageRecord ::
  "int \<Rightarrow> settle_db \<Rightarrow> int \<Rightarrow> ResponseFacts \<Rightarrow> (db_error, UsageRecord \<times> settle_db) go_result" where
  "createSettlementUsageRecord now db requestRecordID facts =
     (let u = rfUsage facts in CreateUsageRecord now db
       \<lparr>cuRequestRecordID = requestRecordID, cuUncachedInputTokens = tcValue (UncachedInputTokens u),
        cuUncachedInputTokensState = tcState (UncachedInputTokens u),
        cuCacheReadInputTokens = tcValue (CacheReadInputTokens u),
        cuCacheReadInputTokensState = tcState (CacheReadInputTokens u),
        cuCacheWrite5mInputTokens = tcValue (CacheWrite5mInputTokens u),
        cuCacheWrite5mInputTokensState = tcState (CacheWrite5mInputTokens u),
        cuCacheWrite1hInputTokens = tcValue (CacheWrite1hInputTokens u),
        cuCacheWrite1hInputTokensState = tcState (CacheWrite1hInputTokens u),
        cuCacheWrite30mInputTokens = tcValue (CacheWrite30mInputTokens u),
        cuCacheWrite30mInputTokensState = tcState (CacheWrite30mInputTokens u),
        cuOutputTokensTotal = tcValue (OutputTokensTotal u), cuOutputTokensTotalState = tcState (OutputTokensTotal u),
        cuReasoningOutputTokens = tcValue (ReasoningOutputTokens u),
        cuReasoningOutputTokensState = tcState (ReasoningOutputTokens u), cuUsageSource = rfUsageSource facts,
        cuUsageMappingVersion = rfUsageMappingVersion facts\<rparr>)"

fun createSettlementUsageLineItems ::
  "'e env_scheme \<Rightarrow> settle_db \<Rightarrow> int \<Rightarrow> MeteredItem list \<Rightarrow> (settle_error, settle_db) go_result" where
  "createSettlementUsageLineItems env db usageRecordID [] = Inr db"
| "createSettlementUsageLineItems env db usageRecordID (item # items) =
     rbind (db_call env ''create usage line item''
       (CreateUsageLineItem (clock env) db usageRecordID (miKind item) (miQuantity item))) (\<lambda>(_, db').
     createSettlementUsageLineItems env db' usageRecordID items)"

definition UpstreamRequestIDPtr :: "string \<Rightarrow> string option" where
  "UpstreamRequestIDPtr requestID = (if requestID = '''' then None else Some requestID)"

subsection \<open>SettleSuccessfulChat, step by step\<close>

text \<open>A step on the ledger or the provider ledger runs on the component's view and gives back the component's tables.\<close>

definition on_ledger ::
  "settle_db \<Rightarrow> (ledger_error, 'a \<times> db) go_result \<Rightarrow> (ledger_error, 'a \<times> settle_db) go_result" where
  "on_ledger db r = rbind r (\<lambda>(x, l). Inr (x, db\<lparr>customer_ledger := l\<rparr>))"

definition settle_attempt ::
  "'e env_scheme \<Rightarrow> int \<Rightarrow> settle_db \<Rightarrow> ChatSettlementParams \<Rightarrow> string \<Rightarrow> (settle_error, log_attempt \<times> settle_db) go_result" where
  "settle_attempt env now db params attemptFinalStatus =
     (let facts = spFacts params;
          attemptSuccessParams =
            \<lparr>mtID = ltID (spAttemptRecord params), mtUpstreamResponseID = rfUpstreamResponseID facts,
             mtUpstreamResponseModel = rfUpstreamModel facts, mtUpstreamFinishReason = ffRawReason (rfFinish facts),
             mtFinishClass = ffClass (rfFinish facts), mtUpstreamStatusCode = umStatusCode (rfMetadata facts),
             mtUpstreamRequestID = UpstreamRequestIDPtr (umRequestID (rfMetadata facts)),
             mtGatewayFirstTokenAt = spGatewayFirstTokenAt params,
             mtFinalUsageReceived = (\<not> IsPartialEstimate (rfUsageSource facts)),
             mtUsageMappingVersion = rfUsageMappingVersion facts, mtCompletedAt = now\<rparr>;
          withError = MarkAttemptSucceededParams.extend attemptSuccessParams (MarkSettledAttemptFailedParams.fields
            (spErrorCode params) (spErrorMessage params) (spInternalErrorDetail params))
      in if attemptFinalStatus = AttemptStatusSucceeded
         then wrapped LogCause ''create usage record'' (MarkAttemptSucceeded env db db attemptSuccessParams)
         else if attemptFinalStatus = AttemptStatusFailed
         then wrapped LogCause ''create usage record'' (MarkSettledAttemptFailed env db db withError)
         else if attemptFinalStatus = AttemptStatusCanceled
         then wrapped LogCause ''create usage record'' (MarkSettledAttemptCanceled env db db withError)
         else Inl (settlement_failure ''unsupported settled attempt final status''))"

definition settlement_pins :: "ChatSettlementParams \<Rightarrow> settlementCostPins" where
  "settlement_pins params =
     \<lparr>pinChannelPriceID = spChannelPriceID params, pinCostBaseModelPriceID = spCostBaseModelPriceID params,
      pinChannelCostMultiplierID = spChannelCostMultiplierID params,
      pinChannelRechargeFactorID = spChannelRechargeFactorID params\<rparr>"

text \<open>The prices a stored snapshot bills by.\<close>

definition snapshot_price :: "PriceSnapshot \<Rightarrow> CustomerPriceSnapshot" where
  "snapshot_price s =
     \<lparr>cpCurrency = psCurrency s, cpPricingUnit = psPricingUnit s, UncachedInputPrice = num (psUncachedInputPrice s),
      CacheReadInputPrice = nullable (psCacheReadInputPrice s),
      CacheWrite5mInputPrice = nullable (psCacheWrite5mInputPrice s),
      CacheWrite1hInputPrice = nullable (psCacheWrite1hInputPrice s),
      CacheWrite30mInputPrice = nullable (psCacheWrite30mInputPrice s), OutputPrice = num (psOutputPrice s),
      ReasoningOutputPrice = nullable (psReasoningOutputPrice s), cpFormulaVersion = psFormulaVersion s\<rparr>"

definition settle_price ::
  "price_env \<Rightarrow> settle_db \<Rightarrow> ChatSettlementParams \<Rightarrow> resolvedSettlementCost \<Rightarrow>
   (settle_error, (CustomerCharge \<times> bool) \<times> settle_db) go_result" where
  "settle_price env db params cost =
     rbind (wrapped BillingCause ''apply long-context multiplier to customer sale price''
       (ApplyLongContextToCustomerPrice (spSalePrice params) (spLongContextPolicy params)
         (LongContextInputTokenSum (rfUsage (spFacts params))))) (\<lambda>(salePrice, longContextApplied).
     rbind (passed DbCause (store_call env ''create price snapshot'' (CreatePriceSnapshot (clock env) db
       \<lparr>cpsRequestRecordID = lqID (spRequestRecord params), cpsPriceID = nullableInt8 (rcChannelPriceID cost),
        cpsCurrency = cpCurrency salePrice, cpsPricingUnit = cpPricingUnit salePrice,
        cpsUncachedInputPrice = UncachedInputPrice salePrice, cpsCacheReadInputPrice = CacheReadInputPrice salePrice,
        cpsCacheWrite5mInputPrice = CacheWrite5mInputPrice salePrice,
        cpsCacheWrite1hInputPrice = CacheWrite1hInputPrice salePrice,
        cpsCacheWrite30mInputPrice = CacheWrite30mInputPrice salePrice, cpsOutputPrice = OutputPrice salePrice,
        cpsReasoningOutputPrice = ReasoningOutputPrice salePrice, cpsFormulaVersion = FormulaVersionV1,
        cpsPriceRatio = spPriceRatio params, cpsLongContextApplied = longContextApplied\<rparr>))) (\<lambda>(snapshot, db1).
     rbind (passed BillingCause (CalculateCustomerCharge (rfUsage (spFacts params)) (snapshot_price snapshot))) (\<lambda>charge.
     Inr ((charge, longContextApplied), db1))))"

definition settle_cost ::
  "price_env \<Rightarrow> settle_db \<Rightarrow> ChatSettlementParams \<Rightarrow> resolvedSettlementCost \<Rightarrow> bool \<Rightarrow>
   (settle_error, (ProviderCost \<times> CostSnapshot) \<times> settle_db) go_result" where
  "settle_cost env db params cost longContextApplied =
     rbind (wrapped BillingCause ''apply long-context multiplier to provider cost''
       (ApplyLongContextToProviderCost (rcSnapshot cost) (spLongContextPolicy params)
         (LongContextInputTokenSum (rfUsage (spFacts params))))) (\<lambda>(costSnapshot, costLongContextApplied).
     rbind (ensure (costLongContextApplied = longContextApplied)
       (settlement_failure ''long-context applied mismatch between sale price and provider cost'')) (\<lambda>_.
     rbind (wrapped BillingCause ''calculate provider cost for chat settlement''
       (CalculateProviderCost (rfUsage (spFacts params)) costSnapshot)) (\<lambda>providerCost.
     rbind (db_call env ''create chat cost snapshot'' (CreateCostSnapshot (clock env) db
       \<lparr>cctRequestRecordID = lqID (spRequestRecord params), cctCostPriceID = nullableInt8 (rcChannelPriceID cost),
        cctCostBaseModelPriceID = nullableInt8 (rcCostBaseModelPriceID cost),
        cctChannelCostMultiplierID = nullableInt8 (rcChannelCostMultiplierID cost),
        cctCostMultiplier = rcCostMultiplier cost,
        cctChannelRechargeFactorID = nullableInt8 (rcChannelRechargeFactorID cost),
        cctRechargeFactor = rcRechargeFactor cost, cctProviderID = spFinalProviderID params,
        cctChannelID = spFinalChannelID params, cctModelID = spModelDBID params,
        cctUpstreamModel = ltUpstreamModel (spAttemptRecord params), cctCurrency = pcCurrency costSnapshot,
        cctPricingUnit = pcPricingUnit costSnapshot, cctUncachedInputCost = UncachedInputCost costSnapshot,
        cctCacheReadInputCost = CacheReadInputCost costSnapshot,
        cctCacheWrite5mInputCost = CacheWrite5mInputCost costSnapshot,
        cctCacheWrite1hInputCost = CacheWrite1hInputCost costSnapshot,
        cctCacheWrite30mInputCost = CacheWrite30mInputCost costSnapshot, cctOutputCost = OutputCost costSnapshot,
        cctReasoningOutputCost = ReasoningOutputCost costSnapshot,
        cctUncachedInputCostAmount = UncachedInputCostAmount providerCost,
        cctCacheReadInputCostAmount = CacheReadInputCostAmount providerCost,
        cctCacheWrite5mInputCostAmount = CacheWrite5mInputCostAmount providerCost,
        cctCacheWrite1hInputCostAmount = CacheWrite1hInputCostAmount providerCost,
        cctCacheWrite30mInputCostAmount = CacheWrite30mInputCostAmount providerCost,
        cctOutputCostAmount = OutputCostAmount providerCost,
        cctReasoningOutputCostAmount = ReasoningOutputCostAmount providerCost,
        cctTotalCostAmount = TotalCostAmount providerCost, cctFormulaVersion = costFormulaVersion providerCost,
        cctLongContextApplied = longContextApplied\<rparr>)) (\<lambda>(costSnapshotRow, db1).
     Inr ((providerCost, costSnapshotRow), db1)))))"

text \<open>The two reasons the ledger entries carry, as the source spells them.\<close>

definition usage_debit_reason :: string where
  "usage_debit_reason = [
     CHR 0xE8, CHR 0xAF, CHR 0xB7, CHR 0xE6, CHR 0xB1, CHR 0x82, CHR 0xE4, CHR 0xBA, CHR 0xA7,
     CHR 0xE7, CHR 0x94, CHR 0x9F, CHR 0xE7, CHR 0x9A, CHR 0x84, CHR 0xE6, CHR 0x9C, CHR 0x8D,
     CHR 0xE5, CHR 0x8A, CHR 0xA1, CHR 0xE5, CHR 0x95, CHR 0x86, CHR 0xE6, CHR 0x88, CHR 0x90,
     CHR 0xE6, CHR 0x9C, CHR 0xAC]"

definition partial_estimate_reason :: string where
  "partial_estimate_reason = [
     CHR 0xE5, CHR 0xB7, CHR 0xB2, CHR 0xE5, CHR 0x90, CHR 0x91, CHR 0xE5, CHR 0xAE, CHR 0xA2,
     CHR 0xE6, CHR 0x88, CHR 0xB7, CHR 0xE4, CHR 0xBA, CHR 0xA4, CHR 0xE4, CHR 0xBB, CHR 0x98,
     CHR 0xE9, CHR 0x83, CHR 0xA8, CHR 0xE5, CHR 0x88, CHR 0x86, CHR 0xE5, CHR 0x86, CHR 0x85,
     CHR 0xE5, CHR 0xAE, CHR 0xB9, CHR 0xEF, CHR 0xBC, CHR 0x8C, CHR 0xE4, CHR 0xBD, CHR 0x86,
     CHR 0xE4, CHR 0xB8, CHR 0x8A, CHR 0xE6, CHR 0xB8, CHR 0xB8, CHR 0xE6, CHR 0xB2, CHR 0xA1,
     CHR 0xE6, CHR 0x9C, CHR 0x89, CHR 0xE8, CHR 0xBF, CHR 0x94, CHR 0xE5, CHR 0x9B, CHR 0x9E,
     CHR 0xE5, CHR 0xAE, CHR 0x8C, CHR 0xE6, CHR 0x95, CHR 0xB4, CHR 0xE7, CHR 0x94, CHR 0xA8,
     CHR 0xE9, CHR 0x87, CHR 0x8F, CHR 0xEF, CHR 0xBC, CHR 0x8C, CHR 0xE9, CHR 0x9C, CHR 0x80,
     CHR 0xE8, CHR 0xA6, CHR 0x81, CHR 0xE4, CHR 0xBA, CHR 0xBA, CHR 0xE5, CHR 0xB7, CHR 0xA5,
     CHR 0xE6, CHR 0xA0, CHR 0xB8, CHR 0xE5, CHR 0xAF, CHR 0xB9]"

definition settle_provider ::
  "ChatSettlementService \<Rightarrow> price_env \<Rightarrow> settle_db \<Rightarrow> ChatSettlementParams \<Rightarrow> ProviderCost \<Rightarrow> CostSnapshot \<Rightarrow>
   (settle_error, settle_db) go_result" where
  "settle_provider svc env db params providerCost costSnapshotRow =
     (let estimated = IsPartialEstimate (rfUsageSource (spFacts params));
          free = settlement_numericIsZero (TotalCostAmount providerCost)
      in if hasProviderLedger svc \<and> \<not> estimated \<and> \<not> free then
           rbind (db_call env ''load channel name for provider ledger'' (GetChannelName db (spFinalChannelID params)))
             (\<lambda>channelName.
           rbind (wrapped LedgerCause ''write provider usage ledger''
             (DebitUsageWithQueries (env.truncate env) (provider_view db)
               \<lparr>udProviderID = spFinalProviderID params, udRequestRecordID = lqID (spRequestRecord params),
                udRequestAttemptID = ltID (spAttemptRecord params), udCostSnapshotID = ctID costSnapshotRow,
                udChannelID = spFinalChannelID params, udRequestID = lqRequestID (spRequestRecord params),
                udChannelName = channelName, udUpstreamModel = ltUpstreamModel (spAttemptRecord params),
                udAmount = TotalCostAmount providerCost, udCurrency = ctCurrency costSnapshotRow,
                udIdempotencyKey = ''provider:usage:'' @ sprint_int (ctID costSnapshotRow),
                udReason = usage_debit_reason\<rparr>)) (\<lambda>(_, p).
           Inr (db\<lparr>provider_ledger := p\<rparr>)))
         else if hasProviderLedger svc \<and> estimated \<and> \<not> free then
           rbind (wrapped LedgerCause ''write provider partial stream cost risk''
             (RecordRequestCostRiskWithQueries (env.truncate env) (provider_view db)
               \<lparr>rkProviderID = spFinalProviderID params, rkRequestRecordID = lqID (spRequestRecord params),
                rkRequestAttemptID = ltID (spAttemptRecord params), rkEstimatedAmount = TotalCostAmount providerCost,
                rkCurrency = ctCurrency costSnapshotRow, rkReasonCode = ''partial_stream_estimate'',
                rkReason = partial_estimate_reason\<rparr>)) (\<lambda>p.
           Inr (db\<lparr>provider_ledger := p\<rparr>))
         else Inr db)"

definition settle_key :: "int \<Rightarrow> string" where
  "settle_key requestRecordID = ''chat:settle:'' @ sprint_int requestRecordID"

text \<open>Release a reservation, or capture the charge from it and count what the customer bore on the key.\<close>

definition settle_customer ::
  "price_env \<Rightarrow> settle_db \<Rightarrow> ChatSettlementParams \<Rightarrow> CustomerCharge \<Rightarrow> (settle_error, settle_db) go_result" where
  "settle_customer env db params charge =
     (let i = lqID (spRequestRecord params); reservationID = auReservationID (spAuthorization params);
          key = lqAPIKeyID (spRequestRecord params)
      in if settlement_numericIsZero (chAmount charge) then
           rbind (passed LedgerCause (on_ledger db (ReleaseWithQueries (env.truncate env) (ledger_view db)
             \<lparr>rlRequestRecordID = i, rlReservationID = Some reservationID\<rparr>))) (\<lambda>(_, db1). Inr db1)
         else
           rbind (passed LedgerCause (on_ledger db (CaptureWithQueries (env.truncate env) (ledger_view db)
             \<lparr>caRequestRecordID = i, caReservationID = Some reservationID, caActualAmount = chAmount charge,
              caIdempotencyKey = settle_key i, caReason = ''chat completion settlement''\<rparr>))) (\<lambda>(reservation, db1).
           rbind (db_call env ''add api key spent total''
             (AddAPIKeySpentTotal (clock env) db1 (rvCapturedAmount reservation) key)) (\<lambda>db2.
           if settlement_numericIsZero (rvOverageCapturedAmount reservation) then Inr db2
           else db_call env ''add api key overage spent total''
             (AddAPIKeySpentTotal (clock env) db2 (rvOverageCapturedAmount reservation) key))))"

definition settle_request ::
  "'e env_scheme \<Rightarrow> int \<Rightarrow> settle_db \<Rightarrow> ChatSettlementParams \<Rightarrow> string \<Rightarrow> (settle_error, log_request \<times> settle_db) go_result" where
  "settle_request env now db params requestFinalStatus =
     (let requestSuccessParams =
            \<lparr>msID = lqID (spRequestRecord params), msResponseModelID = spResponseModelID params,
             msResponseProtocol = spResponseProtocol params, msResponseID = spResponseID params,
             msFinalProviderID = spFinalProviderID params, msFinalChannelID = spFinalChannelID params,
             msGatewayFirstTokenAt = spGatewayFirstTokenAt params, msCompletedAt = now\<rparr>;
          withError = MarkRequestSucceededParams.extend requestSuccessParams (MarkSettledRequestFailedParams.fields
            (spErrorCode params) (spErrorMessage params) (spInternalErrorDetail params))
      in if requestFinalStatus = RequestStatusSucceeded
         then passed LogCause (log_MarkRequestSucceeded env db db requestSuccessParams)
         else if requestFinalStatus = RequestStatusFailed
         then passed LogCause (log_MarkSettledRequestFailed env db db withError)
         else if requestFinalStatus = RequestStatusCanceled
         then passed LogCause (log_MarkSettledRequestCanceled env db db withError)
         else Inl (settlement_failure ''unsupported settled request final status''))"

definition settle_usage ::
  "price_env \<Rightarrow> settle_db \<Rightarrow> ChatSettlementParams \<Rightarrow> (settle_error, settle_db) go_result" where
  "settle_usage env db params =
     rbind (db_call env ''create usage record''
       (createSettlementUsageRecord (clock env) db (lqID (spRequestRecord params)) (spFacts params))) (\<lambda>(usageRecord, db1).
     createSettlementUsageLineItems env db1 (urID usageRecord) (ServerToolUsage (rfUsage (spFacts params))))"

text \<open>What a running request gets, from the end of its attempt to its own.\<close>

definition settle_running ::
  "ChatSettlementService \<Rightarrow> price_env \<Rightarrow> int \<Rightarrow> settle_db \<Rightarrow> ChatSettlementParams \<Rightarrow> (settle_error, settle_db) go_result" where
  "settle_running svc env now db params =
     rbind (settle_attempt env now db params (snd (chatSettlementFinalStatuses params))) (\<lambda>(_, db1).
     rbind (settle_usage env db1 params) (\<lambda>db2.
     rbind (passed CostCause (resolveSettlementCost env (price_tables db2) (spFinalChannelID params) (spModelDBID params)
       (settlement_pins params) (ltStartedAt (spAttemptRecord params)))) (\<lambda>cost.
     rbind (settle_price env db2 params cost) (\<lambda>((charge, longContextApplied), db3).
     rbind (settle_cost env db3 params cost longContextApplied) (\<lambda>((providerCost, costSnapshotRow), db4).
     rbind (settle_provider svc env db4 params providerCost costSnapshotRow) (\<lambda>db5.
     rbind (settle_customer env db5 params charge) (\<lambda>db6.
     rbind (settle_request env now db6 params (fst (chatSettlementFinalStatuses params))) (\<lambda>(_, db7).
     Inr db7))))))))"

subsection \<open>A repeated settlement\<close>

definition requiredTextMatches :: "string option \<Rightarrow> string \<Rightarrow> bool" where
  "requiredTextMatches value want \<longleftrightarrow> value = Some want"

definition requiredInt8Matches :: "int option \<Rightarrow> int \<Rightarrow> bool" where
  "requiredInt8Matches value want \<longleftrightarrow> value = Some want"

definition requiredInt4Matches :: "int option \<Rightarrow> int \<Rightarrow> bool" where
  "requiredInt4Matches value want \<longleftrightarrow> value = Some want"

definition optionalTextMatches :: "string option \<Rightarrow> string option \<Rightarrow> bool" where
  "optionalTextMatches value want \<longleftrightarrow> (case want of None \<Rightarrow> value = None | Some s \<Rightarrow> value = Some s)"

definition settlementTextMatches :: "string option \<Rightarrow> string \<Rightarrow> bool" where
  "settlementTextMatches value want \<longleftrightarrow> (if want = '''' then value = None \<or> value = Some '''' else value = Some want)"

definition ensureSettlementRequestMatches :: "RequestRecord \<Rightarrow> ChatSettlementParams \<Rightarrow> (settle_error, unit) go_result" where
  "ensureSettlementRequestMatches request params =
     rbind (agree (rrID request = lqID (spRequestRecord params) \<and> rrUserID request = lqUserID (spRequestRecord params) \<and>
       rrApiKeyID request = lqAPIKeyID (spRequestRecord params)) ''request identity mismatch'') (\<lambda>_.
     rbind (agree (rrStatus request = fst (chatSettlementFinalStatuses params)) ''request status mismatch'') (\<lambda>_.
     rbind (agree (settlementTextMatches (rrErrorCode request) (spErrorCode params) \<and>
       settlementTextMatches (rrErrorMessage request) (spErrorMessage params) \<and>
       settlementTextMatches (rrInternalErrorDetail request) (spInternalErrorDetail params))
       ''request error facts mismatch'') (\<lambda>_.
     rbind (agree (requiredTextMatches (rrResponseModelID request) (spResponseModelID params)) ''response model mismatch'') (\<lambda>_.
     rbind (agree (requiredTextMatches (rrResponseProtocol request) (spResponseProtocol params))
       ''response protocol mismatch'') (\<lambda>_.
     rbind (agree (requiredTextMatches (rrResponseID request) (spResponseID params)) ''response id mismatch'') (\<lambda>_.
     rbind (agree (requiredInt8Matches (rrFinalProviderID request) (spFinalProviderID params))
       ''final provider mismatch'') (\<lambda>_.
     agree (requiredInt8Matches (rrFinalChannelID request) (spFinalChannelID params)) ''final channel mismatch'')))))))"

definition settled_attempt_matches :: "RequestAttempt \<Rightarrow> ChatSettlementParams \<Rightarrow> (settle_error, unit) go_result" where
  "settled_attempt_matches attempt params =
     (let facts = spFacts params in
     rbind (agree (raRequestRecordID attempt = lqID (spRequestRecord params) \<and>
       raProviderID attempt = spFinalProviderID params \<and> raChannelID attempt = spFinalChannelID params)
       ''attempt route mismatch'') (\<lambda>_.
     rbind (agree (raStatus attempt = snd (chatSettlementFinalStatuses params)) ''attempt status mismatch'') (\<lambda>_.
     rbind (agree (settlementTextMatches (raErrorCode attempt) (spErrorCode params) \<and>
       settlementTextMatches (raErrorMessage attempt) (spErrorMessage params) \<and>
       settlementTextMatches (raInternalErrorDetail attempt) (spInternalErrorDetail params))
       ''attempt error facts mismatch'') (\<lambda>_.
     rbind (agree (raAdapterKey attempt = ltAdapterKey (spAttemptRecord params) \<and>
       raUpstreamModel attempt = ltUpstreamModel (spAttemptRecord params) \<and>
       raUpstreamProtocol attempt = rfUpstreamProtocol facts) ''attempt upstream request mismatch'') (\<lambda>_.
     rbind (agree (requiredTextMatches (raUpstreamResponseID attempt) (rfUpstreamResponseID facts))
       ''attempt upstream response id mismatch'') (\<lambda>_.
     rbind (agree (requiredTextMatches (raUpstreamResponseModel attempt) (rfUpstreamModel facts))
       ''attempt upstream response model mismatch'') (\<lambda>_.
     rbind (agree (requiredTextMatches (raUpstreamFinishReason attempt) (ffRawReason (rfFinish facts)) \<and>
       requiredTextMatches (raFinishClass attempt) (ffClass (rfFinish facts))) ''attempt finish facts mismatch'') (\<lambda>_.
     rbind (agree (requiredInt4Matches (raUpstreamStatusCode attempt) (wrap32 (umStatusCode (rfMetadata facts))))
       ''attempt upstream status mismatch'') (\<lambda>_.
     rbind (agree (optionalTextMatches (raUpstreamRequestID attempt) (UpstreamRequestIDPtr (umRequestID (rfMetadata facts))))
       ''attempt upstream request id mismatch'') (\<lambda>_.
     agree (raFinalUsageReceived attempt = (\<not> IsPartialEstimate (rfUsageSource facts)) \<and>
       requiredTextMatches (raUsageMappingVersion attempt) (rfUsageMappingVersion facts))
       ''attempt usage mapping mismatch''))))))))))"

definition ensureSettlementAttemptMatches ::
  "'e env_scheme \<Rightarrow> settle_db \<Rightarrow> ChatSettlementParams \<Rightarrow> (settle_error, unit) go_result" where
  "ensureSettlementAttemptMatches env db params =
     rbind (db_call env ''lookup idempotent chat settlement attempts''
       (Inr (ListRequestAttemptsByRequest db (lqID (spRequestRecord params))))) (\<lambda>attempts.
     case find (\<lambda>a. raID a = ltID (spAttemptRecord params)) attempts of
       Some attempt \<Rightarrow> settled_attempt_matches attempt params
     | None \<Rightarrow> Inl (ChatSettlementIdempotencyConflict ''settlement attempt not found''))"

definition usage_matches :: "UsageRecord \<Rightarrow> Facts \<Rightarrow> bool" where
  "usage_matches row u \<longleftrightarrow>
     urUncachedInputTokens row = tcValue (UncachedInputTokens u) \<and>
     urUncachedInputTokensState row = tcState (UncachedInputTokens u) \<and>
     urCacheReadInputTokens row = tcValue (CacheReadInputTokens u) \<and>
     urCacheReadInputTokensState row = tcState (CacheReadInputTokens u) \<and>
     urCacheWrite5mInputTokens row = tcValue (CacheWrite5mInputTokens u) \<and>
     urCacheWrite5mInputTokensState row = tcState (CacheWrite5mInputTokens u) \<and>
     urCacheWrite1hInputTokens row = tcValue (CacheWrite1hInputTokens u) \<and>
     urCacheWrite1hInputTokensState row = tcState (CacheWrite1hInputTokens u) \<and>
     urCacheWrite30mInputTokens row = tcValue (CacheWrite30mInputTokens u) \<and>
     urCacheWrite30mInputTokensState row = tcState (CacheWrite30mInputTokens u) \<and>
     urOutputTokensTotal row = tcValue (OutputTokensTotal u) \<and>
     urOutputTokensTotalState row = tcState (OutputTokensTotal u) \<and>
     urReasoningOutputTokens row = tcValue (ReasoningOutputTokens u) \<and>
     urReasoningOutputTokensState row = tcState (ReasoningOutputTokens u)"

definition ensureSettlementUsageMatches :: "UsageRecord \<Rightarrow> ResponseFacts \<Rightarrow> (settle_error, unit) go_result" where
  "ensureSettlementUsageMatches row facts =
     rbind (agree (usage_matches row (rfUsage facts)) ''usage mismatch'') (\<lambda>_.
     agree (urUsageSource row = rfUsageSource facts \<and> urUsageMappingVersion row = rfUsageMappingVersion facts)
       ''usage source mismatch'')"

text \<open>Go's \<open>want\<close>: of two items of one kind the later one counts.\<close>

definition ensureSettlementUsageLineItemsMatch ::
  "UsageLineItem list \<Rightarrow> MeteredItem list \<Rightarrow> (settle_error, unit) go_result" where
  "ensureSettlementUsageLineItemsMatch rows items =
     (let want = map_of (rev (map (\<lambda>i. (miKind i, miQuantity i)) items)) in
     rbind (agree (length rows = length items) ''usage line item count mismatch'') (\<lambda>_.
     agree (list_all (\<lambda>row. want (uiKind row) = Some (uiQuantity row)) rows) ''usage line item mismatch''))"

definition settlementUsageFactsFromRecord :: "UsageRecord \<Rightarrow> UsageLineItem list \<Rightarrow> Facts" where
  "settlementUsageFactsFromRecord row lineItems =
     \<lparr>UncachedInputTokens = \<lparr>tcValue = urUncachedInputTokens row, tcState = urUncachedInputTokensState row\<rparr>,
      CacheReadInputTokens = \<lparr>tcValue = urCacheReadInputTokens row, tcState = urCacheReadInputTokensState row\<rparr>,
      CacheWrite5mInputTokens = \<lparr>tcValue = urCacheWrite5mInputTokens row, tcState = urCacheWrite5mInputTokensState row\<rparr>,
      CacheWrite1hInputTokens = \<lparr>tcValue = urCacheWrite1hInputTokens row, tcState = urCacheWrite1hInputTokensState row\<rparr>,
      CacheWrite30mInputTokens = \<lparr>tcValue = urCacheWrite30mInputTokens row, tcState = urCacheWrite30mInputTokensState row\<rparr>,
      OutputTokensTotal = \<lparr>tcValue = urOutputTokensTotal row, tcState = urOutputTokensTotalState row\<rparr>,
      ReasoningOutputTokens = \<lparr>tcValue = urReasoningOutputTokens row, tcState = urReasoningOutputTokensState row\<rparr>,
      ServerToolUsage = map (\<lambda>i. \<lparr>miKind = uiKind i, miQuantity = uiQuantity i\<rparr>) lineItems\<rparr>"

definition ensureSettlementCostSnapshotMatches ::
  "CostSnapshot \<Rightarrow> ChatSettlementParams \<Rightarrow> ProviderCost \<Rightarrow> (settle_error, unit) go_result" where
  "ensureSettlementCostSnapshotMatches snapshot params cost =
     (let positive = (\<lambda>v. case v of None \<Rightarrow> False | Some i \<Rightarrow> i > 0);
          same = (\<lambda>n v. chatSettlementSameNumeric (num n) v) in
     rbind (agree (ctRequestRecordID snapshot = lqID (spRequestRecord params) \<and>
       ctProviderID snapshot = spFinalProviderID params \<and> ctChannelID snapshot = spFinalChannelID params \<and>
       ctModelID snapshot = spModelDBID params) ''cost snapshot route mismatch'') (\<lambda>_.
     rbind (agree (ctUpstreamModel snapshot = ltUpstreamModel (spAttemptRecord params))
       ''cost snapshot upstream model mismatch'') (\<lambda>_.
     rbind (agree (positive (ctCostPriceID snapshot) \<or>
       (positive (ctCostBaseModelPriceID snapshot) \<and> positive (ctChannelCostMultiplierID snapshot)))
       ''cost snapshot source mismatch'') (\<lambda>_.
     rbind (agree (ctCurrency snapshot = costCurrency cost \<and> ctFormulaVersion snapshot = costFormulaVersion cost \<and>
       ctPricingUnit snapshot = PricingUnitPer1MTokens) ''cost snapshot metadata mismatch'') (\<lambda>_.
     agree (same (ctUncachedInputCostAmount snapshot) (UncachedInputCostAmount cost) \<and>
       same (ctCacheReadInputCostAmount snapshot) (CacheReadInputCostAmount cost) \<and>
       same (ctCacheWrite5mInputCostAmount snapshot) (CacheWrite5mInputCostAmount cost) \<and>
       same (ctCacheWrite1hInputCostAmount snapshot) (CacheWrite1hInputCostAmount cost) \<and>
       same (ctCacheWrite30mInputCostAmount snapshot) (CacheWrite30mInputCostAmount cost) \<and>
       same (ctOutputCostAmount snapshot) (OutputCostAmount cost) \<and>
       same (ctReasoningOutputCostAmount snapshot) (ReasoningOutputCostAmount cost) \<and>
       same (ctTotalCostAmount snapshot) (TotalCostAmount cost)) ''cost snapshot amount mismatch'')))))"

definition ensureSettlementReservationBaseMatches ::
  "LedgerReservation \<Rightarrow> RequestRecord \<Rightarrow> ChatAuthorization \<Rightarrow> (settle_error, unit) go_result" where
  "ensureSettlementReservationBaseMatches reservation request authorization =
     rbind (agree (lrID reservation = auReservationID authorization \<and> lrUserID reservation = rrUserID request \<and>
       lrRequestRecordID reservation = rrID request \<and> lrCurrency reservation = auCurrency authorization)
       ''reservation identity mismatch'') (\<lambda>_.
     agree (chatSettlementSameNumeric (num (lrEstimatedAmount reservation)) (auEstimatedAmount authorization) \<and>
       chatSettlementSameNumeric (num (lrAuthorizedAmount reservation)) (auAuthorizedAmount authorization))
       ''reservation authorization amount mismatch'')"

definition ensureSettlementReleasedReservationMatches ::
  "'e env_scheme \<Rightarrow> db \<Rightarrow> LedgerReservation \<Rightarrow> (settle_error, unit) go_result" where
  "ensureSettlementReleasedReservationMatches env db reservation =
     rbind (agree (lrStatus reservation = ReservationStatusReleased) ''reservation release status mismatch'') (\<lambda>_.
     rbind (agree (settlement_numericIsZero (num (lrCapturedAmount reservation)) \<and>
       chatSettlementSameNumeric (num (lrReleasedAmount reservation)) (num (lrAuthorizedAmount reservation)) \<and>
       lrCaptureLedgerEntryID reservation = None) ''released reservation amount mismatch'') (\<lambda>_.
     rbind (db_call env ''lookup idempotent released settlement ledger entries''
       (Inr (ListLedgerEntriesByRequest db (Some (lrRequestRecordID reservation))))) (\<lambda>entries.
     agree (list_all (\<lambda>e. leEntryType e \<noteq> EntryTypeDebit) entries)
       ''released settlement has debit ledger entry'')))"

definition settlementOverageIdempotencyKey :: "int \<Rightarrow> string" where
  "settlementOverageIdempotencyKey requestRecordID = settle_key requestRecordID @ '':overage''"

definition ensureSettlementWriteOffMatches ::
  "'e env_scheme \<Rightarrow> db \<Rightarrow> LedgerReservation \<Rightarrow> numeric \<Rightarrow> numeric \<Rightarrow> numeric \<Rightarrow> (settle_error, unit) go_result" where
  "ensureSettlementWriteOffMatches env db reservation actualAmount capturedAmount overageCaptured =
     (let totalCaptured = chatSettlementAddNumeric capturedAmount overageCaptured;
          lookup = store_call env ''lookup idempotent billing exception''
            (GetLedgerBillingExceptionByReservationID db (lrID reservation))
      in if \<not> chatSettlementNumericGreaterThan actualAmount totalCaptured then
           (case lookup of
              Inr _ \<Rightarrow> Inl (ChatSettlementIdempotencyConflict ''unexpected billing exception'')
            | Inl e \<Rightarrow> if e = ErrNoRows then Inr ()
                else Inl (SettlementFailed (DbCause e) ''lookup idempotent billing exception''))
         else
           (case lookup of
              Inl e \<Rightarrow> if e = ErrNoRows then Inl (ChatSettlementIdempotencyConflict ''missing write off exception'')
                else Inl (SettlementFailed (DbCause e) ''lookup idempotent write off exception'')
            | Inr x \<Rightarrow> agree (beEventType x = BillingExceptionEventTypeWriteOff \<and> beUserID x = lrUserID reservation \<and>
                beRequestRecordID x = lrRequestRecordID reservation \<and> beReservationID x = lrID reservation \<and>
                beCurrency x = lrCurrency reservation \<and>
                chatSettlementSameNumeric (nullable (beActualAmount x)) actualAmount \<and>
                chatSettlementSameNumeric (num (beCapturedAmount x)) totalCaptured \<and>
                chatSettlementNumericDiffMatches (num (bePlatformAmount x)) actualAmount totalCaptured)
                ''write off exception mismatch''))"

definition ensureSettlementCapturedReservationMatches ::
  "'e env_scheme \<Rightarrow> db \<Rightarrow> LedgerReservation \<Rightarrow> numeric \<Rightarrow> (settle_error, unit) go_result" where
  "ensureSettlementCapturedReservationMatches env db reservation actualAmount =
     (let capturedAmount = chatSettlementMinNumeric actualAmount (num (lrAuthorizedAmount reservation));
          i = lrRequestRecordID reservation in
     rbind (agree (lrStatus reservation = ReservationStatusCaptured) ''reservation capture status mismatch'') (\<lambda>_.
     rbind (agree (chatSettlementSameNumeric (num (lrCapturedAmount reservation)) capturedAmount \<and>
       chatSettlementNumericDiffMatches (num (lrReleasedAmount reservation)) (num (lrAuthorizedAmount reservation))
         capturedAmount \<and> lrCaptureLedgerEntryID reservation \<noteq> None) ''captured reservation amount mismatch'') (\<lambda>_.
     rbind (db_call env ''lookup idempotent capture ledger entry'' (GetLedgerEntryByIdempotencyKey db (settle_key i))) (\<lambda>entry.
     rbind (agree (Some (leID entry) = lrCaptureLedgerEntryID reservation \<and> leUserID entry = lrUserID reservation \<and>
       leRequestRecordID entry = Some i \<and> leEntryType entry = EntryTypeDebit \<and> leCurrency entry = lrCurrency reservation \<and>
       chatSettlementSameNumeric (num (leAmount entry)) capturedAmount) ''capture ledger entry mismatch'') (\<lambda>_.
     case store_call env ''lookup idempotent overage ledger entry''
         (GetLedgerEntryByIdempotencyKey db (settlementOverageIdempotencyKey i)) of
       Inr overage \<Rightarrow>
         rbind (agree (leUserID overage = lrUserID reservation \<and> leRequestRecordID overage = Some i \<and>
           leEntryType overage = EntryTypeDebit \<and> leCurrency overage = lrCurrency reservation \<and>
           chatSettlementNumericGreaterThan (num (leAmount overage)) chatSettlementNumericZero)
           ''overage ledger entry mismatch'') (\<lambda>_.
         ensureSettlementWriteOffMatches env db reservation actualAmount capturedAmount (num (leAmount overage)))
     | Inl e \<Rightarrow> if e = ErrNoRows
         then ensureSettlementWriteOffMatches env db reservation actualAmount capturedAmount chatSettlementNumericZero
         else Inl (SettlementFailed (DbCause e) ''lookup idempotent overage ledger entry''))))))"

text \<open>The cost a stored snapshot was computed with.\<close>

definition snapshot_cost :: "CostSnapshot \<Rightarrow> ProviderCostSnapshot" where
  "snapshot_cost s =
     \<lparr>pcCurrency = ctCurrency s, pcPricingUnit = ctPricingUnit s, UncachedInputCost = num (ctUncachedInputCost s),
      CacheReadInputCost = nullable (ctCacheReadInputCost s),
      CacheWrite5mInputCost = nullable (ctCacheWrite5mInputCost s),
      CacheWrite1hInputCost = nullable (ctCacheWrite1hInputCost s),
      CacheWrite30mInputCost = nullable (ctCacheWrite30mInputCost s), OutputCost = num (ctOutputCost s),
      ReasoningOutputCost = nullable (ctReasoningOutputCost s), pcFormulaVersion = ctFormulaVersion s\<rparr>"

definition ensureIdempotentChatSettlement ::
  "'e env_scheme \<Rightarrow> settle_db \<Rightarrow> RequestRecord \<Rightarrow> ChatSettlementParams \<Rightarrow> (settle_error, unit) go_result" where
  "ensureIdempotentChatSettlement env db request params =
     (let ledger = ledger_view db in
     rbind (ensureSettlementRequestMatches request params) (\<lambda>_.
     rbind (ensureSettlementAttemptMatches env db params) (\<lambda>_.
     rbind (db_call env ''lookup idempotent chat settlement usage'' (GetUsageRecordByRequest db (rrID request))) (\<lambda>usageRecord.
     rbind (ensureSettlementUsageMatches usageRecord (spFacts params)) (\<lambda>_.
     rbind (db_call env ''lookup idempotent chat settlement usage line items''
       (Inr (ListUsageLineItemsByUsageRecord db (urID usageRecord)))) (\<lambda>lineItems.
     rbind (ensureSettlementUsageLineItemsMatch lineItems (ServerToolUsage (rfUsage (spFacts params)))) (\<lambda>_.
     rbind (db_call env ''lookup idempotent chat settlement price snapshot''
       (GetPriceSnapshotByRequest db (rrID request))) (\<lambda>snapshot.
     let billingUsage = settlementUsageFactsFromRecord usageRecord lineItems in
     rbind (wrapped BillingCause ''calculate idempotent chat settlement amount''
       (CalculateCustomerCharge billingUsage (snapshot_price snapshot))) (\<lambda>charge.
     rbind (db_call env ''lookup idempotent chat settlement cost snapshot''
       (GetCostSnapshotByRequest db (rrID request))) (\<lambda>costSnapshot.
     rbind (wrapped BillingCause ''calculate idempotent chat settlement provider cost''
       (CalculateProviderCost billingUsage (snapshot_cost costSnapshot))) (\<lambda>providerCost.
     rbind (ensureSettlementCostSnapshotMatches costSnapshot params providerCost) (\<lambda>_.
     rbind (db_call env ''lookup idempotent chat settlement reservation''
       (GetLedgerReservationByRequestRecordID ledger (rrID request))) (\<lambda>reservation.
     rbind (ensureSettlementReservationBaseMatches reservation request (spAuthorization params)) (\<lambda>_.
     if settlement_numericIsZero (chAmount charge)
     then ensureSettlementReleasedReservationMatches env ledger reservation
     else ensureSettlementCapturedReservationMatches env ledger reservation (chAmount charge)))))))))))))))"

subsection \<open>SettleSuccessfulChat\<close>

definition faultInjectSettlementAlways :: bool where "faultInjectSettlementAlways = False"

definition SettleSuccessfulChat ::
  "ChatSettlementService \<Rightarrow> price_env \<Rightarrow> int \<Rightarrow> settle_db \<Rightarrow> ChatSettlementParams \<Rightarrow>
   (settle_error, unit) go_result \<times> settle_db" where
  "SettleSuccessfulChat svc env now db params =
     (if faultInjectSettlementAlways
      then (Inl (settlement_failure ''billing e2e injected settlement failure (always)''), db)
      else settle_tx env SettlementFailed ''begin chat settlement transaction'' db
        (rbind (db_call env ''lock request record for chat settlement''
          (GetRequestRecordForUpdate db (lqID (spRequestRecord params)))) (\<lambda>lockedRequest.
        rbind (ValidateChatSettlementFacts params) (\<lambda>_.
        if rrStatus lockedRequest = RequestStatusRunning then
          rbind (settle_running svc env now db params) (\<lambda>db'.
          Inr (Some (''commit chat settlement transaction'', db'), ()))
        else if rrStatus lockedRequest = fst (chatSettlementFinalStatuses params) then
          rbind (ensureIdempotentChatSettlement env db lockedRequest params) (\<lambda>_.
          Inr (Some (''commit idempotent chat settlement replay'', db), ()))
        else Inl (settlement_failure ''request status does not allow chat settlement'')))))"

end
