(* ===== verification/Settlement_Finalize.thy ===== *)
theory Settlement_Finalize
  imports Settlement
begin

text \<open>
  The transactions of \<open>settlement.go\<close> that give up on a settlement: a dead recovery job (\<open>FinalizeDeadChatSettlement\<close>), a
  request a crashed gateway left running (\<open>FinalizeOrphanReservation\<close>) and a hold that outlived its request
  (\<open>FinalizeStrandedReservation\<close>); and the safe texts of \<open>request_log.go\<close> they write, with the error categories of
  \<open>internal/platform/failure/code.go\<close> these go by.
\<close>

subsection \<open>Codes and texts\<close>

abbreviation CodeChatSettlementFailed :: string where "CodeChatSettlementFailed \<equiv> ''gateway_chat_settlement_failed''"
abbreviation CodeOrphanReclaimed :: string where "CodeOrphanReclaimed \<equiv> ''gateway_request_orphan_reclaimed''"

definition categories :: "string list" where
  "categories = [''config'', ''http'', ''dependency'', ''auth'', ''apikey'', ''ratelimit'', ''routing'', ''modelcatalog'',
     ''capability'', ''adapter'', ''sse'', ''billing'', ''ledger'', ''gateway'', ''requestlog'', ''bootstrap'',
     ''observability'', ''adminauth'', ''admin'']"

definition Category :: "string \<Rightarrow> string" where
  "Category c =
     (let prefix = takeWhile (\<lambda>x. x \<noteq> CHR ''_'') c
      in if c = ''rate_limit_exceeded'' \<or> c = ''channel_rate_limited'' then ''ratelimit''
         else if prefix = c \<or> prefix = '''' then ''unknown''
         else if prefix \<in> set categories then prefix else ''unknown'')"

definition BaseSafeRequestLogErrorMessage :: "string \<Rightarrow> string" where
  "BaseSafeRequestLogErrorMessage code =
     (if code = ''client_canceled'' then ''Request was canceled by the client.''
      else if code \<in> set [''model_not_found'', ''routing_model_not_found''] then ''The requested model was not found.''
      else if code \<in> set [''model_not_available'', ''no_available_channel'', ''routing_model_not_available'',
        ''routing_no_available_channel'', ''routing_route_not_configured'']
      then ''The requested model is temporarily unavailable.''
      else if code = ''gateway_chat_authorization_failed'' then ''Request authorization failed.''
      else if code = ''gateway_chat_settlement_failed'' then ''Request settlement failed.''
      else if code = ''ledger_insufficient_balance'' then ''Insufficient balance.''
      else if code = ''gateway_stream_usage_missing'' then ''Stream usage is missing.''
      else let category = Category code in
        if category = ''adapter'' then ''Upstream provider request failed.''
        else if category = ''routing'' then ''Request routing failed.''
        else if category = ''ledger'' \<or> category = ''billing'' then ''Request billing failed.''
        else if category = ''gateway'' then ''Gateway request failed.''
        else ''Request failed.'')"

subsection \<open>A dead recovery job\<close>

definition not_found :: "ledger_error \<Rightarrow> bool" where
  "not_found e = (case e of LedgerFailure c _ _ \<Rightarrow> c = CodeLedgerReservationNotFound)"

definition risk_exposure :: "Reservation \<Rightarrow> string \<Rightarrow> string \<Rightarrow> CreateLedgerRiskExposureExceptionParams" where
  "risk_exposure released reasonCode reason =
     \<lparr>cxUserID = rvUserID released, cxRequestRecordID = rvRequestRecordID released, cxReservationID = rvID released,
      cxPlatformAmount = rvAuthorizedAmount released, cxCurrency = rvCurrency released, cxReasonCode = reasonCode,
      cxReason = reason\<rparr>"

definition releaseDeadSettlementReservation ::
  "'e env_scheme \<Rightarrow> settle_db \<Rightarrow> SettlementRecoveryJob \<Rightarrow> (settle_error, settle_db) go_result" where
  "releaseDeadSettlementReservation env db job =
     (case ReleaseWithQueries (env.truncate env) (ledger_view db)
             \<lparr>rlRequestRecordID = sjRequestRecordID job, rlReservationID = Some (sjReservationID job)\<rparr> of
        Inl e \<Rightarrow> if not_found e then Inr db else Inl (Returned (LedgerCause e))
      | Inr (released, l) \<Rightarrow>
          rbind (db_call env ''record risk exposure for dead chat settlement finalize''
            (CreateLedgerRiskExposureException (clock env) l (risk_exposure released ''settlement_recovery_exhausted''
              ''settlement recovery job exhausted retries after upstream success without reliable settlement''))) (\<lambda>(_, l').
          Inr (db\<lparr>customer_ledger := l'\<rparr>)))"

definition dead_attempt_params :: "int \<Rightarrow> SettlementRecoveryJob \<Rightarrow> MarkSettledAttemptFailedParams" where
  "dead_attempt_params completedAt job =
     \<lparr>mtID = sjAttemptID job, mtUpstreamResponseID = sjUpstreamResponseID job,
      mtUpstreamResponseModel = sjUpstreamModel job, mtUpstreamFinishReason = sjUpstreamFinishReason job,
      mtFinishClass = sjFinishClass job, mtUpstreamStatusCode = sjUpstreamStatusCode job,
      mtUpstreamRequestID = UpstreamRequestIDPtr (string_of (sjUpstreamRequestID job)), mtGatewayFirstTokenAt = None,
      mtFinalUsageReceived = (\<not> IsPartialEstimate (sjUsageSource job)), mtUsageMappingVersion = sjUsageMappingVersion job,
      mtCompletedAt = completedAt, meErrorCode = CodeChatSettlementFailed,
      meErrorMessage = BaseSafeRequestLogErrorMessage CodeChatSettlementFailed,
      meInternalErrorDetail = ''settlement recovery job exhausted retries; upstream attempt finalized as failed''\<rparr>"

definition FinalizeDeadChatSettlement ::
  "'e env_scheme \<Rightarrow> int \<Rightarrow> settle_db \<Rightarrow> SettlementRecoveryJob \<Rightarrow> (settle_error, unit) go_result \<times> settle_db" where
  "FinalizeDeadChatSettlement env completedAt db job =
     settle_tx env SettlementFailed ''begin dead chat settlement finalize transaction'' db
       (rbind (db_call env ''lock request record for dead chat settlement finalize''
         (GetRequestRecordForUpdate db (sjRequestRecordID job))) (\<lambda>lockedRequest.
       if rrStatus lockedRequest \<noteq> RequestStatusRunning then Inr (None, ()) else
       rbind (releaseDeadSettlementReservation env db job) (\<lambda>db1.
       rbind (wrapped LogCause ''mark attempt failed for dead chat settlement finalize''
         (MarkSettledAttemptFailed env db1 db1 (dead_attempt_params completedAt job))) (\<lambda>(_, db2).
       rbind (wrapped LogCause ''mark request failed for dead chat settlement finalize''
         (log_MarkRequestFailed env db2 db2
           \<lparr>mrID = sjRequestRecordID job, mrErrorCode = CodeChatSettlementFailed,
            mrErrorMessage = BaseSafeRequestLogErrorMessage CodeChatSettlementFailed,
            mrInternalErrorDetail =
              ''settlement recovery job exhausted retries; frozen balance released and request finalized as failed'',
            mrCompletedAt = completedAt\<rparr>)) (\<lambda>(_, db3).
       Inr (Some (''commit dead chat settlement finalize transaction'', db3), ()))))))"

subsection \<open>An orphaned request\<close>

abbreviation orphan_failure :: "string \<Rightarrow> settle_error" where
  "orphan_failure msg \<equiv> OrphanReclaimFailed NoCause msg"

abbreviation orphan_call :: "'e env_scheme \<Rightarrow> string \<Rightarrow> (db_error, 'a) go_result \<Rightarrow> (settle_error, 'a) go_result" where
  "orphan_call env msg r \<equiv> failing (\<lambda>e. OrphanReclaimFailed (DbCause e) msg) (store_call env msg r)"

text \<open>
  The worker's proof that the running attempts are dead, against the rows as the transaction sees them: the same attempts,
  each still under the permit the proof is about, and one without a permit has not reached the upstream.
\<close>

definition proof_holds :: "(int \<times> string) list \<Rightarrow> RunningAttemptPermit list \<Rightarrow> bool" where
  "proof_holds proofs running \<longleftrightarrow>
     length running = length proofs \<and> list_all (\<lambda>p. 0 < fst p) proofs \<and> distinct (map fst proofs) \<and>
     list_all (\<lambda>a. (rpPermitID a \<noteq> None \<or> (rpUpstreamStartedAt a = None \<and> rpGatewayFirstTokenAt a = None)) \<and>
       map_of proofs (rpID a) = Some (string_of (rpPermitID a))) running"

definition orphan_error :: sqlErrorFacts where
  "orphan_error = \<lparr>seErrorCode = Some CodeOrphanReclaimed,
     seErrorMessage = Some (BaseSafeRequestLogErrorMessage CodeOrphanReclaimed),
     seInternalErrorDetail = Some ''gateway process exited before the running attempt reached a terminal state''\<rparr>"

definition end_orphaned_attempts ::
  "'e env_scheme \<Rightarrow> int \<Rightarrow> settle_db \<Rightarrow> int \<Rightarrow> nat \<Rightarrow> (settle_error, settle_db) go_result" where
  "end_orphaned_attempts env completedAt db requestRecordID n =
     (if n = 0 then Inr db else
      rbind (orphan_call env ''mark orphan request attempts failed''
        (MarkRunningRequestAttemptsOrphaned db orphan_error completedAt requestRecordID)) (\<lambda>(updated, db').
      rbind (ensure (updated = int n) (orphan_failure ''orphan request attempt set changed during finalize'')) (\<lambda>_.
      Inr db')))"

definition release_orphan ::
  "'e env_scheme \<Rightarrow> settle_db \<Rightarrow> LedgerReservation \<Rightarrow> (settle_error, settle_db) go_result" where
  "release_orphan env db reservation =
     (case ReleaseWithQueries (env.truncate env) (ledger_view db)
             \<lparr>rlRequestRecordID = lrRequestRecordID reservation, rlReservationID = Some (lrID reservation)\<rparr> of
        Inl e \<Rightarrow> if not_found e then Inr db
          else Inl (OrphanReclaimFailed (LedgerCause e) ''release orphan reservation'')
      | Inr (released, l) \<Rightarrow>
          rbind (orphan_call env ''record risk exposure for orphan reservation finalize''
            (CreateLedgerRiskExposureException (clock env) l (risk_exposure released ''orphan_reservation_swept''
              ''process crash left an authorized reservation with a stuck running request; frozen balance released and request finalized as failed'')))
            (\<lambda>(_, l'). Inr (db\<lparr>customer_ledger := l'\<rparr>)))"

definition finalize_orphan ::
  "'e env_scheme \<Rightarrow> int \<Rightarrow> int \<Rightarrow> settle_db \<Rightarrow> LedgerReservation \<Rightarrow> nat \<Rightarrow> (settle_error, settle_db) go_result" where
  "finalize_orphan env attemptsAt requestAt db reservation n =
     rbind (end_orphaned_attempts env attemptsAt db (lrRequestRecordID reservation) n) (\<lambda>db1.
     rbind (release_orphan env db1 reservation) (\<lambda>db2.
     rbind (failing (\<lambda>e. OrphanReclaimFailed (LogCause e) ''mark request failed for orphan reservation finalize'')
       (log_MarkRequestFailed env db2 db2
         \<lparr>mrID = lrRequestRecordID reservation, mrErrorCode = CodeOrphanReclaimed,
          mrErrorMessage = BaseSafeRequestLogErrorMessage CodeOrphanReclaimed,
          mrInternalErrorDetail =
            ''orphan authorized reservation swept by worker; frozen balance released and request finalized as failed'',
          mrCompletedAt = requestAt\<rparr>)) (\<lambda>(_, db3).
     Inr db3)))"

definition FinalizeOrphanReservation ::
  "'e env_scheme \<Rightarrow> int \<Rightarrow> int \<Rightarrow> settle_db \<Rightarrow> LedgerReservation \<Rightarrow> int list \<Rightarrow> string list \<Rightarrow>
   (settle_error, bool) go_result \<times> settle_db" where
  "FinalizeOrphanReservation env attemptsAt requestAt db reservation attemptIDs permitIDs =
     (if length attemptIDs \<noteq> length permitIDs then (Inl (orphan_failure ''orphan attempt permit proof is malformed''), db)
      else let i = lrRequestRecordID reservation in
        settle_tx env OrphanReclaimFailed ''begin orphan reservation finalize transaction'' db
        (rbind (orphan_call env ''lock request record for orphan reservation finalize'' (GetRequestRecordForUpdate db i))
          (\<lambda>lockedRequest.
         if rrStatus lockedRequest \<noteq> RequestStatusRunning \<or> rrDeliveryStatus lockedRequest \<noteq> DeliveryStatusNotStarted
         then Inr (None, False)
         else case store_call env ''recheck settlement recovery job for orphan reservation finalize''
             (GetSettlementRecoveryJobByRequest db i) of
           Inr _ \<Rightarrow> Inr (None, False)
         | Inl e \<Rightarrow>
             if e \<noteq> ErrNoRows
             then Inl (OrphanReclaimFailed (DbCause e) ''recheck settlement recovery job for orphan reservation finalize'')
             else rbind (orphan_call env ''lock running attempts for orphan reservation finalize''
               (Inr (ListRunningRequestAttemptPermitsForUpdate db i))) (\<lambda>runningAttempts.
             if \<not> proof_holds (zip attemptIDs permitIDs) runningAttempts then Inr (None, False)
             else rbind (finalize_orphan env attemptsAt requestAt db reservation (length runningAttempts)) (\<lambda>db'.
               Inr (Some (''commit orphan reservation finalize transaction'', db'), True))))))"

subsection \<open>A stranded hold\<close>

definition FinalizeStrandedReservation ::
  "'e env_scheme \<Rightarrow> settle_db \<Rightarrow> LedgerReservation \<Rightarrow> (settle_error, unit) go_result \<times> settle_db" where
  "FinalizeStrandedReservation env db reservation =
     settle_tx env StrandedReclaimFailed ''begin stranded reservation finalize transaction'' db
       (rbind (failing (\<lambda>e. StrandedReclaimFailed (DbCause e) ''lock request record for stranded reservation finalize'')
         (store_call env ''lock request record for stranded reservation finalize''
           (GetRequestRecordForUpdate db (lrRequestRecordID reservation)))) (\<lambda>lockedRequest.
       if rrStatus lockedRequest \<notin> set [RequestStatusFailed, RequestStatusCanceled] then Inr (None, ())
       else case ReleaseWithQueries (env.truncate env) (ledger_view db)
           \<lparr>rlRequestRecordID = lrRequestRecordID reservation, rlReservationID = Some (lrID reservation)\<rparr> of
         Inl e \<Rightarrow> if not_found e then Inr (None, ())
           else Inl (StrandedReclaimFailed (LedgerCause e) ''release stranded reservation'')
       | Inr (_, l) \<Rightarrow>
           Inr (Some (''commit stranded reservation finalize transaction'', db\<lparr>customer_ledger := l\<rparr>), ())))"

end
