(* ===== verification/Settlement_Recovery.thy ===== *)
theory Settlement_Recovery
  imports Settlement_Finalize Recovery_Worker
begin

text \<open>
  \<open>internal/service/gateway/lifecycle/settlement_recovery.go\<close>: the gateway writes a recovery job with the facts of a
  settlement before it settles, and the worker of \<open>Recovery_Worker\<close> replays a settlement from the job alone.

  \<^item> \<open>settlement_recoverer\<close> is what the worker runs: the two calls it makes on the service, each with the clock and the
    failures of its moment. The worker reads two things off an error, its code and its text; the text is a parameter.
  \<^item> The statements outside a transaction commit one by one (\<open>auto_call\<close>).
\<close>

subsection \<open>From the parameters to a job\<close>

record ChatSettlementRecoveryStore =
  srNextRunDelay :: int
  srMaxAttempts :: int

definition NewChatSettlementRecoveryStore :: "int \<Rightarrow> int \<Rightarrow> ChatSettlementRecoveryStore" where
  "NewChatSettlementRecoveryStore nextRunDelay maxAttempts =
     \<lparr>srNextRunDelay = (if nextRunDelay \<le> 0 then 30 * second else nextRunDelay),
      srMaxAttempts = (if maxAttempts \<le> 0 then 20 else maxAttempts)\<rparr>"

definition settlementRecoveryLongContextThreshold :: "LongContextPolicy \<Rightarrow> int option" where
  "settlementRecoveryLongContextThreshold policy = (if lcThreshold policy \<le> 0 then None else Some (lcThreshold policy))"

definition settlementRecoveryServerToolQuantities :: "MeteredItem list \<Rightarrow> int \<times> int" where
  "settlementRecoveryServerToolQuantities items =
     fold (\<lambda>item (search, fetch).
       if miKind item = MeteredServerWebSearchRequest then (miQuantity item, fetch)
       else if miKind item = MeteredServerWebFetchRequest then (search, miQuantity item)
       else (search, fetch)) items (0, 0)"

definition recovery_job_params :: "ChatSettlementRecoveryStore \<Rightarrow> int \<Rightarrow> ChatSettlementParams \<Rightarrow> CreateSettlementRecoveryJobParams" where
  "recovery_job_params s now params =
     (let facts = spFacts params; u = rfUsage facts; price = spSalePrice params; policy = spLongContextPolicy params;
          (requestFinalStatus, attemptFinalStatus) = chatSettlementFinalStatuses params;
          (searches, fetches) = settlementRecoveryServerToolQuantities (ServerToolUsage u)
      in \<lparr>sjUserID = lqUserID (spRequestRecord params), sjRequestRecordID = lqID (spRequestRecord params),
          sjAttemptID = ltID (spAttemptRecord params), sjReservationID = auReservationID (spAuthorization params),
          sjResponseProtocol = spResponseProtocol params, sjResponseID = spResponseID params,
          sjResponseModelID = spResponseModelID params, sjRequestFinalStatus = requestFinalStatus,
          sjAttemptFinalStatus = attemptFinalStatus, sjSettlementErrorCode = spErrorCode params,
          sjSettlementErrorMessage = spErrorMessage params, sjSettlementInternalErrorDetail = spInternalErrorDetail params,
          sjModelID = spModelDBID params, sjProviderID = spFinalProviderID params, sjChannelID = spFinalChannelID params,
          sjUpstreamProtocol = rfUpstreamProtocol facts, sjUpstreamResponseID = rfUpstreamResponseID facts,
          sjUpstreamModel = rfUpstreamModel facts, sjFinishClass = ffClass (rfFinish facts),
          sjUpstreamFinishReason = ffRawReason (rfFinish facts),
          sjUpstreamStatusCode = wrap32 (umStatusCode (rfMetadata facts)),
          sjUpstreamRequestID = UpstreamRequestIDPtr (umRequestID (rfMetadata facts)),
          sjUsageUncachedInputTokens = tcValue (UncachedInputTokens u),
          sjUsageUncachedInputTokensState = tcState (UncachedInputTokens u),
          sjUsageCacheReadInputTokens = tcValue (CacheReadInputTokens u),
          sjUsageCacheReadInputTokensState = tcState (CacheReadInputTokens u),
          sjUsageCacheWrite5mInputTokens = tcValue (CacheWrite5mInputTokens u),
          sjUsageCacheWrite5mInputTokensState = tcState (CacheWrite5mInputTokens u),
          sjUsageCacheWrite1hInputTokens = tcValue (CacheWrite1hInputTokens u),
          sjUsageCacheWrite1hInputTokensState = tcState (CacheWrite1hInputTokens u),
          sjUsageCacheWrite30mInputTokens = tcValue (CacheWrite30mInputTokens u),
          sjUsageCacheWrite30mInputTokensState = tcState (CacheWrite30mInputTokens u),
          sjUsageOutputTokensTotal = tcValue (OutputTokensTotal u),
          sjUsageOutputTokensTotalState = tcState (OutputTokensTotal u),
          sjUsageReasoningOutputTokens = tcValue (ReasoningOutputTokens u),
          sjUsageReasoningOutputTokensState = tcState (ReasoningOutputTokens u),
          sjUsageServerWebSearchRequests = searches, sjUsageServerWebFetchRequests = fetches,
          sjUsageSource = rfUsageSource facts, sjUsageMappingVersion = rfUsageMappingVersion facts,
          sjPriceID = nullableInt8 (spChannelPriceID params),
          sjCostBaseModelPriceID = nullableInt8 (spCostBaseModelPriceID params),
          sjChannelCostMultiplierID = nullableInt8 (spChannelCostMultiplierID params),
          sjChannelRechargeFactorID = nullableInt8 (spChannelRechargeFactorID params), sjCurrency = cpCurrency price,
          sjPricingUnit = cpPricingUnit price, sjUncachedInputPrice = UncachedInputPrice price,
          sjCacheReadInputPrice = CacheReadInputPrice price, sjCacheWrite5mInputPrice = CacheWrite5mInputPrice price,
          sjCacheWrite1hInputPrice = CacheWrite1hInputPrice price, sjCacheWrite30mInputPrice = CacheWrite30mInputPrice price,
          sjOutputPrice = OutputPrice price, sjReasoningOutputPrice = ReasoningOutputPrice price,
          sjFormulaVersion = FormulaVersionV1, sjPriceRatio = spPriceRatio params, sjLongContextEnabled = lcEnabled policy,
          sjLongContextThreshold = settlementRecoveryLongContextThreshold policy,
          sjLongContextInputMultiplier = lcInputMultiplier policy, sjLongContextOutputMultiplier = lcOutputMultiplier policy,
          sjEstimatedAmount = auEstimatedAmount (spAuthorization params),
          sjAuthorizedAmount = auAuthorizedAmount (spAuthorization params), csMaxAttempts = srMaxAttempts s,
          csNextRunAt = add_duration now (srNextRunDelay s)\<rparr>)"

text \<open>The foreign keys of a job to the tables of the other components.\<close>

definition job_refs :: "settle_db \<Rightarrow> SettlementRecoveryJob \<Rightarrow> bool" where
  "job_refs db j \<longleftrightarrow>
     (sjReservationID j, sjUserID j, sjRequestRecordID j) \<in>
       (\<lambda>r. (lrID r, lrUserID r, lrRequestRecordID r)) ` set (ledger_reservations (customer_ledger db)) \<and>
     (sjChannelID j, sjModelID j) \<in> set (channel_models (price_tables db)) \<and>
     (sjChannelID j, sjProviderID j) \<in> (\<lambda>c. (chnID c, chnProviderID c)) ` set (channel_rows db) \<and>
     sjModelID j \<in> set (models (price_tables db)) \<and> fk (sjPriceID j) (map cprID (channel_prices (price_tables db)))"

definition CreatePendingChatSettlementRecoveryJob ::
  "ChatSettlementRecoveryStore \<Rightarrow> env \<Rightarrow> int \<Rightarrow> settle_db \<Rightarrow> ChatSettlementParams \<Rightarrow>
   (settle_error, SettlementRecoveryJob) go_result \<times> settle_db" where
  "CreatePendingChatSettlementRecoveryJob s env now db params =
     (case ValidateChatSettlementFacts params of
        Inl e \<Rightarrow> (Inl e, db)
      | Inr _ \<Rightarrow>
          (case auto_call env ''create chat settlement recovery job'' db
              (CreateSettlementRecoveryJob job_refs (clock env) db (recovery_job_params s now params)) of
             (Inl e, db') \<Rightarrow>
               (Inl (if e = ErrNoRows
                  then ChatSettlementIdempotencyConflict ''settlement recovery job facts mismatch''
                  else SettlementFailed (DbCause e) ''create chat settlement recovery job''), db')
           | (Inr job, db') \<Rightarrow> (Inr job, db')))"

definition MarkChatSettlementRecoveryJobSucceeded ::
  "env \<Rightarrow> int \<Rightarrow> settle_db \<Rightarrow> int \<Rightarrow> (settle_error, unit) go_result \<times> settle_db" where
  "MarkChatSettlementRecoveryJobSucceeded env now db jobID =
     (case auto_call env ''mark chat settlement recovery job succeeded'' db
         (MarkSettlementRecoveryJobSucceeded db db now jobID) of
        (Inl e, db') \<Rightarrow> (Inl (SettlementFailed (DbCause e) ''mark chat settlement recovery job succeeded''), db')
      | (Inr _, db') \<Rightarrow> (Inr (), db'))"

subsection \<open>The recoverable executor\<close>

definition faultInjectSettlementOnce :: bool where "faultInjectSettlementOnce = False"

text \<open>The three calls have a moment each; the executor's timeout is one way they fail.\<close>

definition SettleRecoverable ::
  "ChatSettlementRecoveryStore \<Rightarrow> ChatSettlementService \<Rightarrow> env \<times> price_env \<times> env \<Rightarrow> int \<times> int \<times> int \<Rightarrow> settle_db \<Rightarrow>
   ChatSettlementParams \<Rightarrow> (settle_error, unit) go_result \<times> settle_db" where
  "SettleRecoverable s svc envs moments db params =
     (case (envs, moments) of ((env1, env2, env3), (t1, t2, t3)) \<Rightarrow>
      case CreatePendingChatSettlementRecoveryJob s env1 t1 db params of
        (Inl e, db1) \<Rightarrow> (Inl e, db1)
      | (Inr job, db1) \<Rightarrow>
          if faultInjectSettlementOnce
          then (Inl (RecoveryScheduled (lqID (spRequestRecord params))
            (settlement_failure ''billing e2e injected inline settlement failure (once)'')), db1)
          else (case SettleSuccessfulChat svc env2 t2 db1 params of
            (Inl e, db2) \<Rightarrow> (Inl (RecoveryScheduled (lqID (spRequestRecord params)) e), db2)
          | (Inr _, db2) \<Rightarrow> (Inr (), snd (MarkChatSettlementRecoveryJobSucceeded env3 t3 db2 (sjID job)))))"

definition IsChatSettlementRecoveryScheduled :: "settle_error \<Rightarrow> bool" where
  "IsChatSettlementRecoveryScheduled e = (case e of RecoveryScheduled _ _ \<Rightarrow> True | _ \<Rightarrow> False)"

subsection \<open>From a job back to the parameters\<close>

definition chatSettlementRecoveryFactsFromJob :: "SettlementRecoveryJob \<Rightarrow> ResponseFacts" where
  "chatSettlementRecoveryFactsFromJob job =
     \<lparr>rfUpstreamProtocol = sjUpstreamProtocol job, rfUpstreamResponseID = sjUpstreamResponseID job,
      rfUpstreamModel = sjUpstreamModel job,
      rfFinish = \<lparr>ffClass = sjFinishClass job, ffRawReason = sjUpstreamFinishReason job\<rparr>,
      rfUsage =
        \<lparr>UncachedInputTokens = \<lparr>tcValue = sjUsageUncachedInputTokens job, tcState = sjUsageUncachedInputTokensState job\<rparr>,
         CacheReadInputTokens = \<lparr>tcValue = sjUsageCacheReadInputTokens job, tcState = sjUsageCacheReadInputTokensState job\<rparr>,
         CacheWrite5mInputTokens =
           \<lparr>tcValue = sjUsageCacheWrite5mInputTokens job, tcState = sjUsageCacheWrite5mInputTokensState job\<rparr>,
         CacheWrite1hInputTokens =
           \<lparr>tcValue = sjUsageCacheWrite1hInputTokens job, tcState = sjUsageCacheWrite1hInputTokensState job\<rparr>,
         CacheWrite30mInputTokens =
           \<lparr>tcValue = sjUsageCacheWrite30mInputTokens job, tcState = sjUsageCacheWrite30mInputTokensState job\<rparr>,
         OutputTokensTotal = \<lparr>tcValue = sjUsageOutputTokensTotal job, tcState = sjUsageOutputTokensTotalState job\<rparr>,
         ReasoningOutputTokens =
           \<lparr>tcValue = sjUsageReasoningOutputTokens job, tcState = sjUsageReasoningOutputTokensState job\<rparr>,
         ServerToolUsage =
           (if sjUsageServerWebSearchRequests job > 0
            then [\<lparr>miKind = MeteredServerWebSearchRequest, miQuantity = sjUsageServerWebSearchRequests job\<rparr>] else []) @
           (if sjUsageServerWebFetchRequests job > 0
            then [\<lparr>miKind = MeteredServerWebFetchRequest, miQuantity = sjUsageServerWebFetchRequests job\<rparr>] else [])\<rparr>,
      rfUsageSource = sjUsageSource job, rfUsageMappingVersion = sjUsageMappingVersion job,
      rfMetadata = \<lparr>umStatusCode = sjUpstreamStatusCode job, umRequestID = string_of (sjUpstreamRequestID job),
        umRetryAfter = 0\<rparr>\<rparr>"

definition chatSettlementRecoveryRequestRecordFromSQLC :: "RequestRecord \<Rightarrow> log_request" where
  "chatSettlementRecoveryRequestRecordFromSQLC row =
     \<lparr>lqID = rrID row, lqRequestID = rrRequestID row, lqUserID = rrUserID row, lqAPIKeyID = rrApiKeyID row,
      lqRequestedModelID = rrRequestedModelID row, lqIngressProtocol = rrIngressProtocol row,
      lqEndpoint = rrEndpoint row, lqResponseModelID = rrResponseModelID row,
      lqResponseProtocol = rrResponseProtocol row, lqResponseID = rrResponseID row, lqStream = rrStream row,
      lqStatus = rrStatus row, lqFinalProviderID = rrFinalProviderID row, lqFinalChannelID = rrFinalChannelID row,
      lqErrorCode = rrErrorCode row, lqErrorMessage = rrErrorMessage row,
      lqInternalErrorDetail = rrInternalErrorDetail row, lqDeliveryStatus = rrDeliveryStatus row,
      lqGatewayFirstTokenAt = rrGatewayFirstTokenAt row, lqResponseCompletedAt = rrResponseCompletedAt row,
      lqStartedAt = rrStartedAt row, lqCompletedAt = rrCompletedAt row\<rparr>"

text \<open>The fields the conversion leaves out keep their zero values.\<close>

definition chatSettlementRecoveryAttemptRecordFromSQLC :: "RequestAttempt \<Rightarrow> log_attempt" where
  "chatSettlementRecoveryAttemptRecordFromSQLC row =
     \<lparr>ltID = raID row, ltRequestRecordID = raRequestRecordID row, ltPermitID = None, ltAttemptIndex = raAttemptIndex row,
      ltProviderID = raProviderID row, ltChannelID = raChannelID row, ltAdapterKey = raAdapterKey row,
      ltUpstreamModel = raUpstreamModel row, ltUpstreamProtocol = raUpstreamProtocol row, ltOriginRevision = None,
      ltProviderStatusRevision = None, ltChannelConfigRevision = None, ltRoutingCandidateIndex = None,
      ltUpstreamEndpoint = '''', ltUpstreamResponseID = raUpstreamResponseID row,
      ltUpstreamResponseModel = raUpstreamResponseModel row, ltUpstreamFinishReason = raUpstreamFinishReason row,
      ltFinishClass = raFinishClass row, ltStatus = raStatus row, ltUpstreamStatusCode = raUpstreamStatusCode row,
      ltUpstreamRequestID = raUpstreamRequestID row, ltErrorCode = raErrorCode row, ltErrorMessage = raErrorMessage row,
      ltInternalErrorDetail = raInternalErrorDetail row, ltGatewayFirstTokenAt = raGatewayFirstTokenAt row,
      ltUpstreamStartedAt = None, ltUpstreamFirstTokenAt = None, ltUpstreamCompletedAt = None,
      ltBreakerProviderDisposition = None, ltBreakerChannelDisposition = None,
      ltFinalUsageReceived = raFinalUsageReceived row, ltUsageMappingVersion = raUsageMappingVersion row,
      ltStartedAt = raStartedAt row, ltCompletedAt = raCompletedAt row\<rparr>"

definition loadRecoveryAttempt ::
  "'e env_scheme \<Rightarrow> settle_db \<Rightarrow> SettlementRecoveryJob \<Rightarrow> (settle_error, RequestAttempt) go_result" where
  "loadRecoveryAttempt env db job =
     rbind (db_call env ''load settlement recovery request attempts''
       (Inr (ListRequestAttemptsByRequest db (sjRequestRecordID job)))) (\<lambda>attempts.
     case find (\<lambda>a. raID a = sjAttemptID job) attempts of
       Some attempt \<Rightarrow> Inr attempt
     | None \<Rightarrow> Inl (settlement_failure ''settlement recovery attempt not found''))"

definition params_of_job :: "SettlementRecoveryJob \<Rightarrow> RequestRecord \<Rightarrow> RequestAttempt \<Rightarrow> ChatSettlementParams" where
  "params_of_job job requestRow attemptRow =
     \<lparr>spRequestRecord = chatSettlementRecoveryRequestRecordFromSQLC requestRow,
      spAttemptRecord = chatSettlementRecoveryAttemptRecordFromSQLC attemptRow,
      spPrincipal = \<lparr>apAPIKeyID = rrApiKeyID requestRow, apUserID = rrUserID requestRow, apKeyPrefix = '''',
        apRouteID = None, apRPMLimit = None, apRPDLimit = None, apConcurrencyLimit = None\<rparr>,
      spAuthorization = \<lparr>auReservationID = sjReservationID job, auRequestRecordID = sjRequestRecordID job,
        auEstimatedAmount = num (sjEstimatedAmount job), auAuthorizedAmount = num (sjAuthorizedAmount job),
        auCurrency = sjCurrency job\<rparr>,
      spResponseProtocol = sjResponseProtocol job, spResponseID = sjResponseID job,
      spResponseModelID = sjResponseModelID job, spGatewayFirstTokenAt = raGatewayFirstTokenAt attemptRow,
      spRequestFinalStatus = sjRequestFinalStatus job, spAttemptFinalStatus = sjAttemptFinalStatus job,
      spErrorCode = sjSettlementErrorCode job, spErrorMessage = sjSettlementErrorMessage job,
      spInternalErrorDetail = sjSettlementInternalErrorDetail job, spModelDBID = sjModelID job,
      spFinalProviderID = sjProviderID job, spFinalChannelID = sjChannelID job,
      spChannelPriceID = int8OrZero (sjPriceID job), spCostBaseModelPriceID = int8OrZero (sjCostBaseModelPriceID job),
      spChannelCostMultiplierID = int8OrZero (sjChannelCostMultiplierID job),
      spChannelRechargeFactorID = int8OrZero (sjChannelRechargeFactorID job),
      spSalePrice = \<lparr>cpCurrency = sjCurrency job, cpPricingUnit = sjPricingUnit job,
        UncachedInputPrice = num (sjUncachedInputPrice job), CacheReadInputPrice = nullable (sjCacheReadInputPrice job),
        CacheWrite5mInputPrice = nullable (sjCacheWrite5mInputPrice job),
        CacheWrite1hInputPrice = nullable (sjCacheWrite1hInputPrice job),
        CacheWrite30mInputPrice = nullable (sjCacheWrite30mInputPrice job), OutputPrice = num (sjOutputPrice job),
        ReasoningOutputPrice = nullable (sjReasoningOutputPrice job), cpFormulaVersion = sjFormulaVersion job\<rparr>,
      spPriceRatio = nullable (sjPriceRatio job),
      spLongContextPolicy = \<lparr>lcEnabled = sjLongContextEnabled job, lcThreshold = int8OrZero (sjLongContextThreshold job),
        lcInputMultiplier = nullable (sjLongContextInputMultiplier job),
        lcOutputMultiplier = nullable (sjLongContextOutputMultiplier job)\<rparr>,
      spFacts = chatSettlementRecoveryFactsFromJob job\<rparr>"

definition chatSettlementParamsFromJob ::
  "'e env_scheme \<Rightarrow> settle_db \<Rightarrow> SettlementRecoveryJob \<Rightarrow> (settle_error, ChatSettlementParams) go_result" where
  "chatSettlementParamsFromJob env db job =
     rbind (db_call env ''load settlement recovery request record''
       (GetRequestRecordForUpdate db (sjRequestRecordID job))) (\<lambda>requestRow.
     rbind (loadRecoveryAttempt env db job) (\<lambda>attemptRow.
     Inr (params_of_job job requestRow attemptRow)))"

definition ReplayChatSettlement ::
  "ChatSettlementService \<Rightarrow> price_env \<Rightarrow> int \<Rightarrow> SettlementRecoveryJob \<Rightarrow> settle_db \<Rightarrow>
   (settle_error, unit) go_result \<times> settle_db" where
  "ReplayChatSettlement svc env now job db =
     (case chatSettlementParamsFromJob env db job of
        Inl e \<Rightarrow> (Inl e, db)
      | Inr params \<Rightarrow> SettleSuccessfulChat svc env now db params)"

subsection \<open>What the worker runs\<close>

definition ledger_code_text :: "ledger_code \<Rightarrow> string" where
  "ledger_code_text c = (case c of
     CodeLedgerStoreFailed \<Rightarrow> ''ledger_store_failed''
   | CodeAdminInvalidArgument \<Rightarrow> ''admin_invalid_argument''
   | CodeLedgerIdempotencyConflict \<Rightarrow> ''ledger_idempotency_conflict''
   | CodeLedgerInsufficientBalance \<Rightarrow> ''ledger_insufficient_balance''
   | CodeLedgerInvalidAmount \<Rightarrow> ''ledger_invalid_amount''
   | CodeLedgerReservationNotFound \<Rightarrow> ''ledger_reservation_not_found'')"

text \<open>\<open>failure.CodeOf\<close>: the code of the outermost failure; a bare store error has none.\<close>

definition settle_code :: "settle_error \<Rightarrow> string" where
  "settle_code e = (case e of
     SettlementFailed _ _ \<Rightarrow> ''gateway_chat_settlement_failed''
   | SettlementConflict _ \<Rightarrow> ''gateway_chat_settlement_idempotency_conflict''
   | OrphanReclaimFailed _ _ \<Rightarrow> ''gateway_request_orphan_reclaimed''
   | StrandedReclaimFailed _ _ \<Rightarrow> ''gateway_request_stranded_reclaimed''
   | RecoveryScheduled _ _ \<Rightarrow> ''gateway_chat_settlement_failed''
   | Returned c \<Rightarrow> (case c of
       NoCause \<Rightarrow> ''''
     | DbCause _ \<Rightarrow> ''''
     | LedgerCause (LedgerFailure code _ _) \<Rightarrow> ledger_code_text code
     | BillingCause b \<Rightarrow> (case b of
         ErrInvalidUsage \<Rightarrow> ''billing_invalid_usage''
       | ErrUnsupportedPricingUnit \<Rightarrow> ''billing_unsupported_pricing_unit''
       | ErrUnsupportedFormula \<Rightarrow> ''billing_unsupported_formula''
       | Panic \<Rightarrow> ''''
       | _ \<Rightarrow> ''billing_invalid_price'')
     | LogCause l \<Rightarrow> (case l of
         RequestLogStoreFailed _ _ \<Rightarrow> ''requestlog_store_failed''
       | RequestLogInvalidStateTransition _ _ \<Rightarrow> ''requestlog_invalid_state_transition'')
     | CostCause _ \<Rightarrow> ''gateway_chat_settlement_failed''))"

definition to_recover_error :: "(settle_error \<Rightarrow> string) \<Rightarrow> (settle_error, unit) go_result \<times> 's \<Rightarrow> recover_error option \<times> 's" where
  "to_recover_error errorText r = (case r of
     (Inl e, db) \<Rightarrow> (Some \<lparr>reCode = settle_code e, reText = errorText e\<rparr>, db)
   | (Inr _, db) \<Rightarrow> (None, db))"

definition settlement_recoverer ::
  "(settle_error \<Rightarrow> string) \<Rightarrow> ChatSettlementService \<Rightarrow> price_env \<Rightarrow> int \<Rightarrow> settle_db recoverer" where
  "settlement_recoverer errorText svc env now =
     \<lparr>RecoverChatSettlement = (\<lambda>job db. to_recover_error errorText (ReplayChatSettlement svc env now job db)),
      rc_FinalizeDeadChatSettlement =
        (\<lambda>job db. to_recover_error errorText (FinalizeDeadChatSettlement env now db job))\<rparr>"

end
