(* ===== verification/Settlement_Machine.thy ===== *)
theory Settlement_Machine
  imports Settlement_Recovery Recovery_Machine Ledger_Spec Provider_Machine
begin

text \<open>
  The settlement as a composition: every change a settlement, a replay or a finalizer makes to the database is a sequence of
  steps of the components' machines (the request log, the recovery jobs, the customer ledger, the provider ledger) and of
  statements on the settlement's own tables (\<open>settle_edit\<close>). What the components promise therefore holds of the composed
  database (\<open>settle_inv\<close>), and facts once settled stay.
\<close>

subsection \<open>Edits\<close>

definition outside_kept :: "db \<Rightarrow> db \<Rightarrow> bool" where
  "outside_kept l l' \<longleftrightarrow> users l' = users l \<and> requests l' = requests l"

inductive settle_edit :: "settle_db \<Rightarrow> settle_db \<Rightarrow> bool" where
  log: "log_edit s s' \<Longrightarrow> settle_edit s s'"
| orphans: "MarkRunningRequestAttemptsOrphaned s e t i = Inr (n, s') \<Longrightarrow> seErrorCode e \<noteq> None \<Longrightarrow> settle_edit s s'"
| job: "job_edit s (s\<lparr>recovery_jobs := js, recovery_job_seq := k\<rparr>) \<Longrightarrow>
    settle_edit s (s\<lparr>recovery_jobs := js, recovery_job_seq := k\<rparr>)"
| ledger: "ledger_effect (ledger_view s) l \<Longrightarrow> outside_kept (ledger_view s) l \<Longrightarrow>
    settle_edit s (s\<lparr>customer_ledger := l\<rparr>)"
| provider: "provider_step (provider_view s) p \<Longrightarrow> settle_edit s (s\<lparr>provider_ledger := p\<rparr>)"
| usage: "insert_usage_record s u = Inr (x, s') \<Longrightarrow> settle_edit s s'"
| item: "CreateUsageLineItem now s i kind q = Inr (y, s') \<Longrightarrow> settle_edit s s'"
| price: "insert_price_snapshot s p = Inr (z, s') \<Longrightarrow> settle_edit s s'"
| cost: "insert_cost_snapshot s c = Inr (w, s') \<Longrightarrow> settle_edit s s'"
| spent: "AddAPIKeySpentTotal now s a i = Inr s' \<Longrightarrow> settle_edit s s'"
| outside: "set (rq_users s) \<subseteq> set us \<Longrightarrow> settle_edit s (s\<lparr>rq_users := us, rq_providers := ps, rq_channels := cs,
    api_keys := ks, channel_rows := rows, price_tables := prices\<rparr>)"

text \<open>The settlement's own tables: one row per request in each, and the line items of a usage record.\<close>

definition snapshots_wf :: "settle_db \<Rightarrow> bool" where
  "snapshots_wf s \<longleftrightarrow>
     distinct (map urID (usage_records s)) \<and> distinct (map urRequestRecordID (usage_records s)) \<and>
     distinct (map psRequestRecordID (price_snapshots s)) \<and> distinct (map ctRequestRecordID (cost_snapshots s)) \<and>
     distinct (map ctID (cost_snapshots s)) \<and>
     (\<forall>u \<in> set (usage_records s). check_usage_record u \<and> urID u < usage_record_seq s \<and>
        urRequestRecordID u \<in> rrID ` set (request_records s)) \<and>
     (\<forall>p \<in> set (price_snapshots s). check_price_snapshot p) \<and>
     (\<forall>c \<in> set (cost_snapshots s). check_cost_snapshot c \<and> ctID c < cost_snapshot_seq s) \<and>
     sorted_wrt (<) (map uiID (usage_line_items s)) \<and>
     (\<forall>x \<in> set (usage_line_items s). check_usage_line_item x \<and> uiID x < usage_line_item_seq s \<and>
        uiUsageRecordID x \<in> urID ` set (usage_records s))"

definition settle_inv :: "settle_db \<Rightarrow> bool" where
  "settle_inv s \<longleftrightarrow> log_inv s \<and> jobs_wf s \<and> ledger_inv (ledger_view s) \<and> provider_inv (provider_view s) \<and> snapshots_wf s"

text \<open>What is kept for good: the log and the jobs only move on, the ledgers and the snapshots only grow.\<close>

definition settle_le :: "settle_db \<Rightarrow> settle_db \<Rightarrow> bool" where
  "settle_le s s' \<longleftrightarrow> log_le s s' \<and> jobs_le s s' \<and> logged (ledger_view s) (ledger_view s') \<and>
     set (provider_entries (provider_ledger s)) \<subseteq> set (provider_entries (provider_ledger s')) \<and>
     set (usage_records s) \<subseteq> set (usage_records s') \<and> set (usage_line_items s) \<subseteq> set (usage_line_items s') \<and>
     set (price_snapshots s) \<subseteq> set (price_snapshots s') \<and> set (cost_snapshots s) \<subseteq> set (cost_snapshots s')"

lemma settle_le_refl: "settle_le s s"
  by (simp add: settle_le_def log_le_refl jobs_le_refl logged_def)

lemma settle_le_trans: "settle_le a b \<Longrightarrow> settle_le b c \<Longrightarrow> settle_le a c"
  unfolding settle_le_def by (meson log_le_trans jobs_le_trans logged_trans subset_trans)

subsection \<open>The views\<close>

lemma ledger_view_sel [simp]:
  "users (ledger_view s) = rq_users s" "requests (ledger_view s) = map (\<lambda>r. (rrID r, rrUserID r)) (request_records s)"
  "user_balances (ledger_view s) = user_balances (customer_ledger s)"
  "ledger_entries (ledger_view s) = ledger_entries (customer_ledger s)"
  "ledger_reservations (ledger_view s) = ledger_reservations (customer_ledger s)"
  "billing_exceptions (ledger_view s) = billing_exceptions (customer_ledger s)"
  "next_id (ledger_view s) = next_id (customer_ledger s)"
  by (simp_all add: ledger_view_def)

lemma ledger_view_put: "users l = rq_users s \<Longrightarrow> requests l = map (\<lambda>r. (rrID r, rrUserID r)) (request_records s) \<Longrightarrow>
    ledger_view (s\<lparr>customer_ledger := l\<rparr>) = l"
  by (simp add: ledger_view_def)

lemma ledger_view_cong: "customer_ledger s' = customer_ledger s \<Longrightarrow> rq_users s' = rq_users s \<Longrightarrow>
    request_records s' = request_records s \<Longrightarrow> ledger_view s' = ledger_view s"
  by (simp add: ledger_view_def)

lemma provider_view_sel [simp]:
  "provider_entries (provider_view s) = provider_entries (provider_ledger s)"
  "cost_risks (provider_view s) = cost_risks (provider_ledger s)"
  "provider_balances (provider_view s) = provider_balances (provider_ledger s)"
  "probe_records (provider_view s) = probe_records (provider_ledger s)"
  by (simp_all add: provider_view_def)

text \<open>The foreign keys of the provider ledger are no part of its invariant.\<close>

lemma provider_inv_view:
  fixes p :: provider_db
  assumes "provider_inv p"
  shows "provider_inv (p\<lparr>providers := ps, pv_channels := cs, pv_models := ms, pv_requests := rs, pv_attempts := attempts,
      pv_cost_snapshots := ss\<rparr>)"
  by (rule provider_books.step_inv [OF provider_step.outside assms])

lemma provider_inv_cong:
  assumes "provider_ledger s' = provider_ledger s" "provider_inv (provider_view s)"
  shows "provider_inv (provider_view s')"
proof -
  have "provider_view s' = provider_view s\<lparr>providers := rq_providers s', pv_channels := rq_channels s',
     pv_models := models (price_tables s'), pv_requests := map rrID (request_records s'),
     pv_attempts := map (\<lambda>a. (raID a, raRequestRecordID a)) (request_attempts s'),
     pv_cost_snapshots := map ctID (cost_snapshots s')\<rparr>"
    by (simp add: provider_view_def assms(1))
  then show ?thesis using provider_inv_view [OF assms(2)] by simp
qed

lemma provider_inv_put:
  assumes "provider_step (provider_view s) p" "provider_inv (provider_view s)"
  shows "provider_inv (provider_view (s\<lparr>provider_ledger := p\<rparr>))"
  using provider_inv_view [OF provider_books.step_inv [OF assms]] by (simp add: provider_view_def)

lemma provider_facts_put:
  assumes "provider_step (provider_view s) p" "provider_inv (provider_view s)"
  shows "set (provider_entries (provider_ledger s)) \<subseteq> set (provider_entries p)"
  using provider_facts.step_facts [OF assms] by auto

subsection \<open>What an edit keeps\<close>

text \<open>A step of the log touches the two tables of the log.\<close>

definition log_frame :: "settle_db \<Rightarrow> settle_db \<Rightarrow> bool" where
  "log_frame s s' \<longleftrightarrow> rq_users s' = rq_users s \<and> rq_providers s' = rq_providers s \<and> rq_channels s' = rq_channels s \<and>
     api_keys s' = api_keys s \<and> recovery_jobs s' = recovery_jobs s \<and> recovery_job_seq s' = recovery_job_seq s \<and>
     customer_ledger s' = customer_ledger s \<and> provider_ledger s' = provider_ledger s \<and> price_tables s' = price_tables s \<and>
     channel_rows s' = channel_rows s \<and> usage_records s' = usage_records s \<and> usage_line_items s' = usage_line_items s \<and>
     price_snapshots s' = price_snapshots s \<and> cost_snapshots s' = cost_snapshots s \<and>
     usage_record_seq s' = usage_record_seq s \<and> usage_line_item_seq s' = usage_line_item_seq s \<and>
     price_snapshot_seq s' = price_snapshot_seq s \<and> cost_snapshot_seq s' = cost_snapshot_seq s"

lemma log_edit_frame: "log_edit s s' \<Longrightarrow> log_frame s s'"
  by (erule log_edit.cases) (simp_all add: log_frame_def)

lemma log_le_keys:
  assumes "log_le s s'" "r \<in> set (request_records s)"
  shows "\<exists>r' \<in> set (request_records s'). rrID r' = rrID r \<and> rrUserID r' = rrUserID r"
proof -
  obtain r' where "r' \<in> set (request_records s')" "request_le r r'" using assms unfolding log_le_def by blast
  then show ?thesis by (intro bexI [of _ r']) (simp_all add: request_le_def request_identity_def)
qed

lemma log_le_requests:
  assumes "log_le s s'"
  shows "(\<lambda>r. (rrID r, rrUserID r)) ` set (request_records s) \<subseteq> (\<lambda>r. (rrID r, rrUserID r)) ` set (request_records s')"
    "rrID ` set (request_records s) \<subseteq> rrID ` set (request_records s')"
  unfolding image_subset_iff image_iff using log_le_keys [OF assms] by (metis, metis)

lemma logged_tables: "ledger_entries b = ledger_entries a \<Longrightarrow> ledger_reservations b = ledger_reservations a \<Longrightarrow>
    billing_exceptions b = billing_exceptions a \<Longrightarrow> logged a b"
  by (simp add: logged_def settled_reservations_of_def)

lemma ledger_view_grows:
  assumes "customer_ledger s' = customer_ledger s" "set (rq_users s) \<subseteq> set (rq_users s')" "log_le s s'"
    and "ledger_inv (ledger_view s)"
  shows "ledger_inv (ledger_view s')" "logged (ledger_view s) (ledger_view s')"
proof -
  have "ledger_view s' = ledger_view s\<lparr>users := rq_users s', requests := map (\<lambda>r. (rrID r, rrUserID r)) (request_records s')\<rparr>"
    by (simp add: ledger_view_def assms(1))
  with outside_inv [OF assms(4), of "rq_users s'" "map (\<lambda>r. (rrID r, rrUserID r)) (request_records s')"]
  show "ledger_inv (ledger_view s')" using assms(2) log_le_requests(1) [OF assms(3)] by simp
  show "logged (ledger_view s) (ledger_view s')" by (rule logged_tables) (simp_all add: assms(1))
qed

text \<open>An edit that leaves the settlement's own tables and the two ledgers alone.\<close>

definition same_snapshots :: "settle_db \<Rightarrow> settle_db \<Rightarrow> bool" where
  "same_snapshots s s' \<longleftrightarrow> usage_records s' = usage_records s \<and> usage_line_items s' = usage_line_items s \<and>
     price_snapshots s' = price_snapshots s \<and> cost_snapshots s' = cost_snapshots s \<and>
     usage_record_seq s' = usage_record_seq s \<and> usage_line_item_seq s' = usage_line_item_seq s \<and>
     cost_snapshot_seq s' = cost_snapshot_seq s"

lemma same_snapshots_wf: "same_snapshots s s' \<Longrightarrow> log_le s s' \<Longrightarrow> snapshots_wf s \<Longrightarrow> snapshots_wf s'"
  using log_le_requests(2) [of s s'] unfolding snapshots_wf_def same_snapshots_def by (elim conjE, intro conjI) (simp_all add: subset_iff)

lemma log_inv_cong: "request_records s' = request_records s \<Longrightarrow> request_attempts s' = request_attempts s \<Longrightarrow>
    request_record_seq s' = request_record_seq s \<Longrightarrow> request_attempt_seq s' = request_attempt_seq s \<Longrightarrow>
    log_inv s' = log_inv s"
  by (simp add: log_inv_def requests_wf_def attempts_wf_def attempts_guarded_def)

lemma log_le_cong: "request_records s' = request_records s \<Longrightarrow> request_attempts s' = request_attempts s \<Longrightarrow> log_le s s'"
  using log_le_refl [of s] by (simp add: log_le_def)

lemma jobs_cong: "recovery_jobs s' = recovery_jobs s \<Longrightarrow> recovery_job_seq s' = recovery_job_seq s \<Longrightarrow>
    jobs_wf s' = jobs_wf s \<and> jobs_le s s'"
  using jobs_le_refl [of s] by (simp add: jobs_wf_def jobs_le_def job_of_def)

lemma log_change_keeps:
  assumes "log_frame s s'" "log_inv s'" "log_le s s'" "settle_inv s"
  shows "settle_inv s' \<and> settle_le s s'"
proof -
  note f = assms(1) [unfolded log_frame_def]
  have "same_snapshots s s'" using f by (simp add: same_snapshots_def)
  then have "snapshots_wf s'" using assms(3,4) by (simp add: same_snapshots_wf settle_inv_def)
  moreover have "jobs_wf s'" "jobs_le s s'" using jobs_cong [of s' s] f assms(4) by (simp_all add: settle_inv_def)
  moreover have "ledger_inv (ledger_view s')" "logged (ledger_view s) (ledger_view s')"
    using ledger_view_grows [of s' s] f assms(3,4) by (simp_all add: settle_inv_def)
  moreover have "provider_inv (provider_view s')" using provider_inv_cong [of s' s] f assms(4) by (simp add: settle_inv_def)
  ultimately show ?thesis using f assms(2,3) by (simp add: settle_inv_def settle_le_def)
qed

definition same_log_jobs :: "settle_db \<Rightarrow> settle_db \<Rightarrow> bool" where
  "same_log_jobs s s' \<longleftrightarrow> request_records s' = request_records s \<and> request_attempts s' = request_attempts s \<and>
     request_record_seq s' = request_record_seq s \<and> request_attempt_seq s' = request_attempt_seq s \<and>
     recovery_jobs s' = recovery_jobs s \<and> recovery_job_seq s' = recovery_job_seq s"

lemma table_change_keeps:
  assumes "same_log_jobs s s'" "customer_ledger s' = customer_ledger s" "provider_ledger s' = provider_ledger s"
    and "set (rq_users s) \<subseteq> set (rq_users s')" "snapshots_wf s'"
    and "set (usage_records s) \<subseteq> set (usage_records s')" "set (usage_line_items s) \<subseteq> set (usage_line_items s')"
    and "set (price_snapshots s) \<subseteq> set (price_snapshots s')" "set (cost_snapshots s) \<subseteq> set (cost_snapshots s')"
    and "settle_inv s"
  shows "settle_inv s' \<and> settle_le s s'"
proof -
  note f = assms(1) [unfolded same_log_jobs_def]
  have log: "log_inv s'" "log_le s s'" using log_inv_cong [of s' s] log_le_cong [of s' s] f assms(10) by (simp_all add: settle_inv_def)
  moreover have "jobs_wf s'" "jobs_le s s'" using jobs_cong [of s' s] f assms(10) by (simp_all add: settle_inv_def)
  moreover have "ledger_inv (ledger_view s')" "logged (ledger_view s) (ledger_view s')"
    using ledger_view_grows [OF assms(2,4) log(2)] assms(10) by (simp_all add: settle_inv_def)
  moreover have "provider_inv (provider_view s')" using provider_inv_cong [OF assms(3)] assms(10) by (simp add: settle_inv_def)
  ultimately show ?thesis using assms(3,5-9) by (simp add: settle_inv_def settle_le_def)
qed

subsubsection \<open>The sweep of the running attempts\<close>

lemma orphaned_attempt_le:
  assumes "raStatus a = AttemptStatusRunning" "seErrorCode e \<noteq> None"
  shows "attempt_le a (orphaned_attempt e t a)" "attempt_ok (orphaned_attempt e t a)"
  using assms by (simp_all add: orphaned_attempt_def attempt_move_simps)

lemma orphans_log:
  assumes "MarkRunningRequestAttemptsOrphaned s e t i = Inr (n, s')" "seErrorCode e \<noteq> None" "log_inv s"
  shows "log_inv s'" "log_le s s'" "request_records s' = request_records s"
proof -
  define hit where "hit = (\<lambda>a :: RequestAttempt. raRequestRecordID a = i \<and> raStatus a = AttemptStatusRunning)"
  define upd where "upd = (\<lambda>a :: RequestAttempt. if hit a then orphaned_attempt e t a else a)"
  have ok: "list_all check_request_attempt (map (orphaned_attempt e t) (filter hit (request_attempts s)))"
    and s': "s' = s\<lparr>request_attempts := map upd (request_attempts s)\<rparr>"
    using assms(1) unfolding MarkRunningRequestAttemptsOrphaned_def Let_def hit_def upd_def
    by (simp_all split: if_splits)
  have le: "attempt_le a (upd a)" for a
    using orphaned_attempt_le(1) [OF _ assms(2)] by (simp add: upd_def hit_def)
  have ids: "raID (upd a) = raID a" "raRequestRecordID (upd a) = raRequestRecordID a" "raAttemptIndex (upd a) = raAttemptIndex a"
    "raPermitID (upd a) = raPermitID a" for a using attempt_le_id [OF le [of a]] by simp_all
  have row: "raID (upd a) < request_attempt_seq s \<and> check_request_attempt (upd a) \<and> attempt_ok (upd a)"
    if "a \<in> set (request_attempts s)" for a
  proof (cases "hit a")
    case True
    then have "check_request_attempt (orphaned_attempt e t a)" using ok that by (simp add: list_all_iff)
    moreover have "raID a < request_attempt_seq s" using that assms(3) by (simp add: log_inv_def attempts_wf_def)
    ultimately show ?thesis using True orphaned_attempt_le(2) [OF _ assms(2), of a t] ids(1) [of a]
      by (simp add: upd_def hit_def)
  next
    case False
    then show ?thesis using that assms(3) by (simp add: upd_def log_inv_def attempts_wf_def)
  qed
  have "attempts_wf s'" using assms(3) row
    by (simp add: s' log_inv_def attempts_wf_def o_def ids)
  moreover have "attempts_guarded s'" using assms(3) by (simp add: s' log_inv_def attempts_guarded_def ids)
  moreover have "requests_wf s'" using assms(3) by (simp add: s' log_inv_def requests_wf_def)
  ultimately show "log_inv s'" by (simp add: log_inv_def)
  show "log_le s s'" unfolding log_le_def s' using le by (simp, meson request_le_refl)
  show "request_records s' = request_records s" by (simp add: s')
qed

lemma orphans_frame: "MarkRunningRequestAttemptsOrphaned s e t i = Inr (n, s') \<Longrightarrow> log_frame s s'"
  unfolding MarkRunningRequestAttemptsOrphaned_def Let_def by (simp add: log_frame_def split: if_splits) (erule conjE, hypsubst, simp)

subsubsection \<open>Jobs and ledgers\<close>

lemma job_change_keeps:
  assumes "job_edit s (s\<lparr>recovery_jobs := js, recovery_job_seq := k\<rparr>)" "settle_inv s"
  shows "settle_inv (s\<lparr>recovery_jobs := js, recovery_job_seq := k\<rparr>) \<and> settle_le s (s\<lparr>recovery_jobs := js, recovery_job_seq := k\<rparr>)"
proof -
  let ?s = "s\<lparr>recovery_jobs := js, recovery_job_seq := k\<rparr>"
  have log: "log_inv ?s" "log_le s ?s" using log_inv_cong [of ?s s] log_le_cong [of ?s s] assms(2) by (simp_all add: settle_inv_def)
  have "jobs_wf ?s" "jobs_le s ?s" using edit_jobs_wf [OF assms(1)] edit_jobs_le [OF assms(1)] assms(2)
    by (simp_all add: settle_inv_def)
  moreover have "ledger_inv (ledger_view ?s)" "logged (ledger_view s) (ledger_view ?s)"
    using ledger_view_grows [of ?s s] log(2) assms(2) by (simp_all add: settle_inv_def)
  moreover have "provider_inv (provider_view ?s)" using provider_inv_cong [of ?s s] assms(2) by (simp add: settle_inv_def)
  moreover have "snapshots_wf ?s" using same_snapshots_wf [of s ?s] log(2) assms(2) by (simp add: same_snapshots_def settle_inv_def)
  ultimately show ?thesis using log assms(2) by (simp add: settle_inv_def settle_le_def)
qed

lemma ledger_change_keeps:
  assumes "ledger_effect (ledger_view s) l" "outside_kept (ledger_view s) l" "settle_inv s"
  shows "settle_inv (s\<lparr>customer_ledger := l\<rparr>) \<and> settle_le s (s\<lparr>customer_ledger := l\<rparr>)"
proof -
  let ?s = "s\<lparr>customer_ledger := l\<rparr>"
  have log: "log_inv ?s" "log_le s ?s" using log_inv_cong [of ?s s] log_le_cong [of ?s s] assms(3) by (simp_all add: settle_inv_def)
  have "jobs_wf ?s" "jobs_le s ?s" using jobs_cong [of ?s s] assms(3) by (simp_all add: settle_inv_def)
  moreover have "ledger_view ?s = l" using assms(2) by (intro ledger_view_put) (simp_all add: outside_kept_def)
  moreover have "ledger_inv l" "logged (ledger_view s) l"
    using effect_inv [OF assms(1)] effect_logged [OF assms(1)] assms(3) by (simp_all add: settle_inv_def)
  moreover have "provider_inv (provider_view ?s)" using provider_inv_cong [of ?s s] assms(3) by (simp add: settle_inv_def)
  moreover have "snapshots_wf ?s" using same_snapshots_wf [of s ?s] log(2) assms(3) by (simp add: same_snapshots_def settle_inv_def)
  ultimately show ?thesis using log by (simp add: settle_inv_def settle_le_def)
qed

lemma provider_change_keeps:
  assumes "provider_step (provider_view s) p" "settle_inv s"
  shows "settle_inv (s\<lparr>provider_ledger := p\<rparr>) \<and> settle_le s (s\<lparr>provider_ledger := p\<rparr>)"
proof -
  let ?s = "s\<lparr>provider_ledger := p\<rparr>"
  have pv: "provider_inv (provider_view s)" using assms(2) by (simp add: settle_inv_def)
  have log: "log_inv ?s" "log_le s ?s" using log_inv_cong [of ?s s] log_le_cong [of ?s s] assms(2) by (simp_all add: settle_inv_def)
  have "jobs_wf ?s" "jobs_le s ?s" using jobs_cong [of ?s s] assms(2) by (simp_all add: settle_inv_def)
  moreover have "ledger_inv (ledger_view ?s)" "logged (ledger_view s) (ledger_view ?s)"
    using ledger_view_grows [of ?s s] log(2) assms(2) by (simp_all add: settle_inv_def)
  moreover have "snapshots_wf ?s" using same_snapshots_wf [of s ?s] log(2) assms(2) by (simp add: same_snapshots_def settle_inv_def)
  ultimately show ?thesis using log assms(2) provider_inv_put [OF assms(1) pv] provider_facts_put [OF assms(1) pv]
    by (simp add: settle_inv_def settle_le_def)
qed

subsubsection \<open>The settlement's own tables\<close>

lemma insert_usage_keeps:
  assumes "insert_usage_record s u = Inr (x, s')" "settle_inv s"
  shows "settle_inv s' \<and> settle_le s s'"
proof -
  have s': "s' = s\<lparr>usage_records := usage_records s @ [u\<lparr>urID := usage_record_seq s\<rparr>], usage_record_seq := usage_record_seq s + 1\<rparr>"
    and ok: "check_usage_record u" "urRequestRecordID u \<notin> urRequestRecordID ` set (usage_records s)"
      "urRequestRecordID u \<in> rrID ` set (request_records s)"
    using assms(1) by (auto simp: insert_usage_record_def split: if_splits)
  have "check_usage_record (u\<lparr>urID := usage_record_seq s\<rparr>)" using ok(1) by (simp add: check_usage_record_def)
  moreover have "usage_record_seq s \<notin> urID ` set (usage_records s)" using assms(2) by (auto simp: settle_inv_def snapshots_wf_def)
  ultimately have "snapshots_wf s'" using assms(2) ok(2,3)
    by (simp add: s' settle_inv_def snapshots_wf_def less_imp_le)
  then show ?thesis by (intro table_change_keeps) (simp_all add: s' same_log_jobs_def assms(2) subset_insertI)
qed

lemma insert_item_keeps:
  assumes "CreateUsageLineItem now s i kind q = Inr (y, s')" "settle_inv s"
  shows "settle_inv s' \<and> settle_le s s'"
proof -
  define row where "row = \<lparr>uiID = usage_line_item_seq s, uiUsageRecordID = i, uiKind = kind, uiQuantity = q, uiCreatedAt = now\<rparr>"
  have s': "s' = s\<lparr>usage_line_items := usage_line_items s @ [row], usage_line_item_seq := usage_line_item_seq s + 1\<rparr>"
    and ok: "check_usage_line_item row" "i \<in> urID ` set (usage_records s)"
    using assms(1) unfolding CreateUsageLineItem_def Let_def row_def [symmetric] by (auto split: if_splits)
  have "snapshots_wf s'" using assms(2) ok
    by (simp add: s' settle_inv_def snapshots_wf_def sorted_wrt_append row_def less_imp_le)
  then show ?thesis by (intro table_change_keeps) (simp_all add: s' same_log_jobs_def assms(2) subset_insertI)
qed

lemma insert_price_keeps:
  assumes "insert_price_snapshot s p = Inr (z, s')" "settle_inv s"
  shows "settle_inv s' \<and> settle_le s s'"
proof -
  have s': "s' = s\<lparr>price_snapshots := price_snapshots s @ [p\<lparr>psID := price_snapshot_seq s\<rparr>], price_snapshot_seq := price_snapshot_seq s + 1\<rparr>"
    and ok: "check_price_snapshot p" "psRequestRecordID p \<notin> psRequestRecordID ` set (price_snapshots s)"
    using assms(1) by (auto simp: insert_price_snapshot_def split: if_splits)
  have "check_price_snapshot (p\<lparr>psID := price_snapshot_seq s\<rparr>)" using ok(1) by (simp add: check_price_snapshot_def)
  then have "snapshots_wf s'" using assms(2) ok(2) by (simp add: s' settle_inv_def snapshots_wf_def less_imp_le)
  then show ?thesis by (intro table_change_keeps) (simp_all add: s' same_log_jobs_def assms(2) subset_insertI)
qed

lemma insert_cost_keeps:
  assumes "insert_cost_snapshot s c = Inr (w, s')" "settle_inv s"
  shows "settle_inv s' \<and> settle_le s s'"
proof -
  have s': "s' = s\<lparr>cost_snapshots := cost_snapshots s @ [c\<lparr>ctID := cost_snapshot_seq s\<rparr>], cost_snapshot_seq := cost_snapshot_seq s + 1\<rparr>"
    and ok: "check_cost_snapshot c" "ctRequestRecordID c \<notin> ctRequestRecordID ` set (cost_snapshots s)"
    using assms(1) by (auto simp: insert_cost_snapshot_def split: if_splits)
  have "check_cost_snapshot (c\<lparr>ctID := cost_snapshot_seq s\<rparr>)" using ok(1) by (simp add: check_cost_snapshot_def)
  moreover have "cost_snapshot_seq s \<notin> ctID ` set (cost_snapshots s)" using assms(2) by (auto simp: settle_inv_def snapshots_wf_def)
  ultimately have "snapshots_wf s'" using assms(2) ok(2)
    by (simp add: s' settle_inv_def snapshots_wf_def less_imp_le)
  then show ?thesis by (intro table_change_keeps) (simp_all add: s' same_log_jobs_def assms(2) subset_insertI)
qed

lemma spent_keeps:
  assumes "AddAPIKeySpentTotal now s a i = Inr s'" "settle_inv s"
  shows "settle_inv s' \<and> settle_le s s'"
proof -
  obtain ks where s': "s' = s\<lparr>api_keys := ks\<rparr>"
  proof -
    have "\<exists>ks. s' = s\<lparr>api_keys := ks\<rparr>"
    proof (cases "find (\<lambda>k. akID k = i) (api_keys s)")
      case None
      then have "s' = s\<lparr>api_keys := api_keys s\<rparr>" using assms(1) by (simp add: AddAPIKeySpentTotal_def rbind_Inr_iff)
      then show ?thesis ..
    next
      case (Some k)
      then show ?thesis using assms(1)
        by (simp add: AddAPIKeySpentTotal_def rbind_Inr_iff split: if_splits) blast
    qed
    then show thesis using that by blast
  qed
  have "log_le s s'" using log_le_cong [of s' s] by (simp add: s')
  then have "snapshots_wf s'" using same_snapshots_wf [of s s'] assms(2) by (simp add: s' same_snapshots_def settle_inv_def)
  then show ?thesis by (intro table_change_keeps) (simp_all add: s' same_log_jobs_def assms(2))
qed

lemma outside_keeps:
  assumes "set (rq_users s) \<subseteq> set us" "settle_inv s"
    and s': "s' = s\<lparr>rq_users := us, rq_providers := ps, rq_channels := cs, api_keys := ks, channel_rows := rows, price_tables := prices\<rparr>"
  shows "settle_inv s' \<and> settle_le s s'"
proof -
  have "log_le s s'" using log_le_cong [of s' s] by (simp add: s')
  then have "snapshots_wf s'" using same_snapshots_wf [of s s'] assms(2) by (simp add: s' same_snapshots_def settle_inv_def)
  then show ?thesis using assms(1) by (intro table_change_keeps) (simp_all add: s' same_log_jobs_def assms(2))
qed

lemma settle_edit_keeps:
  assumes "settle_edit s s'" "settle_inv s"
  shows "settle_inv s' \<and> settle_le s s'"
  using assms
proof (induction rule: settle_edit.induct)
  case (log s s')
  then have i: "log_inv s" by (simp add: settle_inv_def)
  show ?case
    by (rule log_change_keeps [OF log_edit_frame [OF log(1)] edit_inv [OF log(1) i] edit_le [OF log(1) i] log(2)])
next
  case (orphans s e t i n s')
  then have i: "log_inv s" by (simp add: settle_inv_def)
  show ?case by (rule log_change_keeps [OF orphans_frame [OF orphans(1)] orphans_log(1,2) [OF orphans(1,2) i] orphans(3)])
next
  case (job s js k)
  then show ?case by (rule job_change_keeps)
next
  case (ledger s l)
  then show ?case by (rule ledger_change_keeps)
next
  case (provider s p)
  then show ?case by (rule provider_change_keeps)
next
  case (usage s u x s')
  then show ?case by (rule insert_usage_keeps)
next
  case (item now s i kind q y s')
  then show ?case by (rule insert_item_keeps)
next
  case (price s p z s')
  then show ?case by (rule insert_price_keeps)
next
  case (cost s c w s')
  then show ?case by (rule insert_cost_keeps)
next
  case (spent now s a i s')
  then show ?case by (rule spent_keeps)
next
  case (outside s us ps cs ks rows prices)
  show ?case by (rule outside_keeps [OF outside refl])
qed

interpretation edits: step_relation settle_edit settle_inv settle_le
  by unfold_locales (blast dest: settle_edit_keeps intro: settle_le_refl settle_le_trans)+

end
