(* ===== verification/Settlement_Runs.thy ===== *)
theory Settlement_Runs
  imports Settlement_Machine
begin

text \<open>
  Every operation of the settlement, of its finalizers and of its recovery is a sequence of the edits of
  \<open>Settlement_Machine\<close>: one lemma per step of the code, composed the way the code composes the steps. A run of the
  gateway and its workers (\<open>settle_step\<close>) therefore keeps \<open>settle_inv\<close> and never undoes a settled fact.
\<close>

subsection \<open>Failures and transactions\<close>

lemma failing_Inr [simp]: "failing f r = Inr x \<longleftrightarrow> r = Inr x"
  by (cases r) (simp_all add: failing_def)

lemma ensure_Inr [simp]: "ensure ok e = Inr u \<longleftrightarrow> ok"
  by (simp add: ensure_def)

lemma settle_tx_cases:
  assumes "settle_tx env f m db body = (r, db')"
  obtains "db' = db" | msg x where "body = Inr (Some (msg, db'), x)"
  using assms unfolding settle_tx_def
  by (auto split: if_splits sum.splits option.splits prod.splits commit_outcome.splits)

lemma settle_tx_outcomes:
  assumes "settle_tx env f m db body = (r, db')"
  obtains (kept) e where "r = Inl e" "db' = db"
  | (unchanged) x where "r = Inr x" "db' = db" "body = Inr (None, x)"
  | (written) msg x where "body = Inr (Some (msg, db'), x)" "r = Inr x \<or> commit_outcome env = CommitReplyLost"
  using assms unfolding settle_tx_def by (auto split: if_splits sum.splits option.splits prod.splits commit_outcome.splits)

lemma nested_pair_caseE:
  assumes "(case p of (a, b) \<Rightarrow> g a b) c = z"
  obtains a b where "p = (a, b)" "g a b c = z"
  using assms by (cases p) simp

lemma edits_trans: "settle_edit\<^sup>*\<^sup>* a b \<Longrightarrow> settle_edit\<^sup>*\<^sup>* b c \<Longrightarrow> settle_edit\<^sup>*\<^sup>* a c"
  by (rule rtranclp_trans)

lemma edit_run: "settle_edit a b \<Longrightarrow> settle_edit\<^sup>*\<^sup>* a b"
  by (rule r_into_rtranclp)

subsection \<open>The ledger inside the transaction\<close>

lemma settled_outside: "settled_row db db' r r' \<Longrightarrow> outside_kept db db'"
  by (simp add: settled_row_def outside_kept_def)

lemma outside_kept_trans: "outside_kept a b \<Longrightarrow> outside_kept b c \<Longrightarrow> outside_kept a c"
  by (simp add: outside_kept_def)

lemma exception_outside: "exception_added db db' x \<Longrightarrow> outside_kept db db'"
  by (simp add: exception_added_def outside_kept_def)

lemma overage_outside:
  assumes "overage_taken params r x got db db'"
  shows "outside_kept db db'"
proof -
  obtain db1 where "if 0 < got then \<exists>e. posted db db1 e \<and> overage_entry params r got e else idle db db1"
    and two: "if units (lrAuthorizedAmount r + got) < x
      then \<exists>ex. exception_added db1 db' ex \<and> write_off r x got ex else db' = db1"
    using assms by (auto simp: overage_taken_def)
  then have "outside_kept db db1" by (auto simp: posted_def idle_def same_tables_def outside_kept_def split: if_splits)
  moreover have "outside_kept db1 db'" using two exception_outside by (auto simp: outside_kept_def split: if_splits)
  ultimately show ?thesis by (rule outside_kept_trans)
qed

lemma release_outside:
  assumes "releaseWithQueries env db params = Inr (rv, db')" "ledger_inv db"
  shows "outside_kept db db'"
  using assms
proof (cases rule: releaseWithQueries_inv)
  case (released r r')
  then show ?thesis by (auto simp: released_def intro: settled_outside)
qed (simp add: outside_kept_def)

lemma capture_outside:
  assumes "captureWithQueries env db params = Inr (rv, db')" "ledger_inv db"
  shows "outside_kept db db'"
  using assms
proof (cases rule: captureWithQueries_inv)
  case (captured r r' e db3 x)
  have "outside_kept db db3" using captured(4) by (auto simp: captured_def intro: settled_outside)
  moreover have "outside_kept db3 db'" using captured(7) overage_outside by (auto simp: outside_kept_def split: if_splits)
  ultimately show ?thesis by (rule outside_kept_trans)
qed (simp add: outside_kept_def)

lemma on_ledger_Inr: "on_ledger db r = Inr (x, db') \<longleftrightarrow> (\<exists>l. r = Inr (x, l) \<and> db' = db\<lparr>customer_ledger := l\<rparr>)"
  by (cases r) (auto simp: on_ledger_def)

lemma release_run:
  assumes "ReleaseWithQueries env (ledger_view db) params = Inr (x, l)" "settle_inv db"
  shows "settle_edit\<^sup>*\<^sup>* db (db\<lparr>customer_ledger := l\<rparr>)"
proof -
  have inv: "ledger_inv (ledger_view db)" using assms(2) by (simp add: settle_inv_def)
  note run = assms(1) [unfolded ReleaseWithQueries_def]
  show ?thesis by (intro edit_run settle_edit.ledger release_effect [OF run inv] release_outside [OF run inv])
qed

lemma capture_run:
  assumes "CaptureWithQueries env (ledger_view db) params = Inr (x, l)" "settle_inv db"
  shows "settle_edit\<^sup>*\<^sup>* db (db\<lparr>customer_ledger := l\<rparr>)"
proof -
  have inv: "ledger_inv (ledger_view db)" using assms(2) by (simp add: settle_inv_def)
  note run = assms(1) [unfolded CaptureWithQueries_def]
  show ?thesis by (intro edit_run settle_edit.ledger capture_effect [OF run inv] capture_outside [OF run inv])
qed

text \<open>A release and the exception that records the exposure.\<close>

lemma exposed_release_run:
  assumes "ReleaseWithQueries env (ledger_view db) params = Inr (rv, l)"
    and "CreateLedgerRiskExposureException now l (risk_exposure rv code reason) = Inr (x, l')" "settle_inv db"
  shows "settle_edit\<^sup>*\<^sup>* db (db\<lparr>customer_ledger := l'\<rparr>)"
proof -
  let ?db = "db\<lparr>customer_ledger := l\<rparr>"
  have inv: "ledger_inv (ledger_view db)" using assms(3) by (simp add: settle_inv_def)
  note run = assms(1) [unfolded ReleaseWithQueries_def]
  have one: "settle_edit\<^sup>*\<^sup>* db ?db" by (rule release_run [OF assms(1,3)])
  have view: "ledger_view ?db = l"
    using release_outside [OF run inv] by (intro ledger_view_put) (simp_all add: outside_kept_def)
  obtain r where r: "r \<in> set (ledger_reservations l)" "lrStatus r = ReservationStatusReleased" "rv = reservationFromSQLC r"
    by (rule releaseWithQueries_row [OF run inv])
  from assms(2) show ?thesis
  proof (cases rule: CreateLedgerRiskExposureException_Inr)
    case 1
    with one show ?thesis by simp
  next
    case 2
    then have "exception_linked (ledger_reservations l) x"
      using r by (auto simp: exception_linked_def reservationFromSQLC_def risk_exposure_def)
    with 2 have "ledger_effect (ledger_view ?db) l'" "outside_kept (ledger_view ?db) l'"
      unfolding view by (auto intro: ledger_effect.expose exception_outside)
    then have "settle_edit ?db (?db\<lparr>customer_ledger := l'\<rparr>)" by (rule settle_edit.ledger)
    with one show ?thesis by (simp add: rtranclp.rtrancl_into_rtrancl)
  qed
qed

subsection \<open>The steps of a settlement\<close>

lemma settle_attempt_run:
  assumes "settle_attempt env now db params st = Inr (x, db')"
  shows "settle_edit\<^sup>*\<^sup>* db db'"
proof -
  from assms have "log_edit db db'" unfolding settle_attempt_def Let_def
    by (simp split: if_splits) (erule attempt_ends_edit)+
  then show ?thesis by (intro edit_run settle_edit.log)
qed

lemma settle_request_run:
  assumes "settle_request env now db params st = Inr (x, db')"
  shows "settle_edit\<^sup>*\<^sup>* db db'"
proof -
  from assms have "log_edit db db'" unfolding settle_request_def Let_def
    by (simp split: if_splits) (erule request_ends_edit)+
  then show ?thesis by (intro edit_run settle_edit.log)
qed

lemma line_items_run: "createSettlementUsageLineItems env db i items = Inr db' \<Longrightarrow> settle_edit\<^sup>*\<^sup>* db db'"
proof (induction items arbitrary: db)
  case (Cons item items)
  then obtain y db1 where one: "CreateUsageLineItem (clock env) db i (miKind item) (miQuantity item) = Inr (y, db1)"
    and rest: "createSettlementUsageLineItems env db1 i items = Inr db'"
    by (auto simp: rbind_Inr_iff store_call_Inr)
  show ?case by (rule converse_rtranclp_into_rtranclp [OF settle_edit.item [OF one] Cons.IH [OF rest]])
qed simp

lemma settle_usage_run:
  assumes "settle_usage env db params = Inr db'"
  shows "settle_edit\<^sup>*\<^sup>* db db'"
proof -
  obtain u x db1 where one: "insert_usage_record db u = Inr (x, db1)"
    and rest: "createSettlementUsageLineItems env db1 (urID x) (ServerToolUsage (rfUsage (spFacts params))) = Inr db'"
    using assms by (auto simp: settle_usage_def createSettlementUsageRecord_def CreateUsageRecord_def Let_def rbind_Inr_iff store_call_Inr)
  show ?thesis by (rule converse_rtranclp_into_rtranclp [OF settle_edit.usage [OF one] line_items_run [OF rest]])
qed

lemma settle_price_run:
  assumes "settle_price env db params cost = Inr (x, db')"
  shows "settle_edit\<^sup>*\<^sup>* db db'"
proof -
  obtain now p z where "CreatePriceSnapshot now db p = Inr (z, db')"
    using assms by (auto simp: settle_price_def rbind_Inr_iff store_call_Inr split: prod.splits)
  then obtain q where "insert_price_snapshot db q = Inr (z, db')"
    unfolding CreatePriceSnapshot_def by (elim rbind_InrE)
  then show ?thesis by (intro edit_run settle_edit.price)
qed

lemma settle_cost_run:
  assumes "settle_cost env db params cost applied = Inr (x, db')"
  shows "settle_edit\<^sup>*\<^sup>* db db'"
proof -
  obtain now p w where "CreateCostSnapshot now db p = Inr (w, db')"
    using assms by (auto simp: settle_cost_def rbind_Inr_iff store_call_Inr split: prod.splits)
  then obtain q where "insert_cost_snapshot db q = Inr (w, db')"
    unfolding CreateCostSnapshot_def by (elim rbind_InrE)
  then show ?thesis by (intro edit_run settle_edit.cost)
qed

lemma settle_provider_run:
  assumes "settle_provider svc env db params cost row = Inr db'"
  shows "settle_edit\<^sup>*\<^sup>* db db'"
proof -
  define estimated where "estimated = IsPartialEstimate (rfUsageSource (spFacts params))"
  define free where "free = settlement_numericIsZero (TotalCostAmount cost)"
  consider (debit) "hasProviderLedger svc" "\<not> estimated" "\<not> free" | (risk) "hasProviderLedger svc" "estimated" "\<not> free"
    | (none) "\<not> hasProviderLedger svc \<or> free" by blast
  then show ?thesis
  proof cases
    case debit
    then obtain u x p where "DebitUsageWithQueries (env.truncate env) (provider_view db) u = Inr (x, p)" "db' = db\<lparr>provider_ledger := p\<rparr>"
      using assms unfolding settle_provider_def Let_def estimated_def [symmetric] free_def [symmetric]
      by (simp add: rbind_Inr_iff split_beta) (metis prod.collapse)
    then show ?thesis by (auto intro!: edit_run settle_edit.provider intro: provider_step.usage_in_tx)
  next
    case risk
    then obtain u p where "RecordRequestCostRiskWithQueries (env.truncate env) (provider_view db) u = Inr p" "db' = db\<lparr>provider_ledger := p\<rparr>"
      using assms unfolding settle_provider_def Let_def estimated_def [symmetric] free_def [symmetric]
      by (simp add: rbind_Inr_iff) blast
    then show ?thesis by (auto intro!: edit_run settle_edit.provider intro: provider_step.request_risk_in_tx)
  next
    case none
    then have "db' = db" using assms unfolding settle_provider_def Let_def estimated_def [symmetric] free_def [symmetric] by auto
    then show ?thesis by simp
  qed
qed

lemma settle_customer_run:
  assumes "settle_customer env db params charge = Inr db'" "settle_inv db"
  shows "settle_edit\<^sup>*\<^sup>* db db'"
proof (cases "settlement_numericIsZero (chAmount charge)")
  case True
  with assms(1) obtain r x l where "ReleaseWithQueries (env.truncate env) (ledger_view db) r = Inr (x, l)"
      "db' = db\<lparr>customer_ledger := l\<rparr>"
    by (auto simp: settle_customer_def Let_def rbind_Inr_iff on_ledger_Inr)
  then show ?thesis using release_run [OF _ assms(2)] by blast
next
  case False
  with assms(1) obtain c rv l db2 a where cap: "CaptureWithQueries (env.truncate env) (ledger_view db) c = Inr (rv, l)"
      and add: "AddAPIKeySpentTotal (clock env) (db\<lparr>customer_ledger := l\<rparr>) (rvCapturedAmount rv) a = Inr db2"
      and more: "db' = db2 \<or> AddAPIKeySpentTotal (clock env) db2 (rvOverageCapturedAmount rv) a = Inr db'"
    by (auto simp: settle_customer_def Let_def rbind_Inr_iff on_ledger_Inr store_call_Inr split: if_splits)
  have "settle_edit\<^sup>*\<^sup>* db db2" by (rule rtranclp.rtrancl_into_rtrancl [OF capture_run [OF cap assms(2)] settle_edit.spent [OF add]])
  with more show ?thesis using settle_edit.spent rtranclp.rtrancl_into_rtrancl by metis
qed

text \<open>The steps one after the other.\<close>

lemma settle_running_run:
  assumes "settle_running svc env now db params = Inr db'" "settle_inv db"
  shows "settle_edit\<^sup>*\<^sup>* db db'"
proof -
  obtain a db1 db2 cost charge applied db3 providerCost row db4 db5 db6 r where
    steps: "settle_attempt env now db params (snd (chatSettlementFinalStatuses params)) = Inr (a, db1)"
      "settle_usage env db1 params = Inr db2"
      "settle_price env db2 params cost = Inr ((charge, applied), db3)"
      "settle_cost env db3 params cost applied = Inr ((providerCost, row), db4)"
      "settle_provider svc env db4 params providerCost row = Inr db5"
      "settle_customer env db5 params charge = Inr db6"
      "settle_request env now db6 params (fst (chatSettlementFinalStatuses params)) = Inr (r, db')"
    using assms(1) unfolding settle_running_def
    by (elim rbind_InrE pair_caseE nested_pair_caseE) (simp only: sum.inject)
  have "settle_edit\<^sup>*\<^sup>* db db5"
    using settle_attempt_run [OF steps(1)] settle_usage_run [OF steps(2)] settle_price_run [OF steps(3)]
      settle_cost_run [OF steps(4)] settle_provider_run [OF steps(5)] by (meson edits_trans)
  moreover from this have "settle_edit\<^sup>*\<^sup>* db5 db6"
    by (intro settle_customer_run [OF steps(6)] edits.reach_inv [OF _ assms(2)])
  ultimately show ?thesis using settle_request_run [OF steps(7)] by (meson edits_trans)
qed

subsection \<open>The transactions\<close>

lemma GetRequestRecordForUpdate_Inr: "GetRequestRecordForUpdate db i = Inr r \<longleftrightarrow> request_of db i = Some r"
  by (auto simp: GetRequestRecordForUpdate_def one_row_def split: option.splits)

lemma SettleSuccessfulChat_cases:
  assumes "SettleSuccessfulChat svc env now db params = (r, db')"
  obtains "db' = db"
  | req where "request_of db (lqID (spRequestRecord params)) = Some req" "rrStatus req = RequestStatusRunning"
      "ValidateChatSettlementFacts params = Inr ()" "settle_running svc env now db params = Inr db'"
proof (cases "db' = db")
  case False
  then obtain msg x where "rbind (db_call env ''lock request record for chat settlement''
          (GetRequestRecordForUpdate db (lqID (spRequestRecord params)))) (\<lambda>lockedRequest.
        rbind (ValidateChatSettlementFacts params) (\<lambda>_.
        if rrStatus lockedRequest = RequestStatusRunning then
          rbind (settle_running svc env now db params) (\<lambda>db'.
          Inr (Some (''commit chat settlement transaction'', db'), ()))
        else if rrStatus lockedRequest = fst (chatSettlementFinalStatuses params) then
          rbind (ensureIdempotentChatSettlement env db lockedRequest params) (\<lambda>_.
          Inr (Some (''commit idempotent chat settlement replay'', db), ()))
        else Inl (settlement_failure ''request status does not allow chat settlement''))) = Inr (Some (msg, db'), x)"
    using assms unfolding SettleSuccessfulChat_def faultInjectSettlementAlways_def if_False by (blast elim: settle_tx_cases)
  then obtain req where req: "request_of db (lqID (spRequestRecord params)) = Some req" "ValidateChatSettlementFacts params = Inr ()"
    and rest: "(if rrStatus req = RequestStatusRunning then
          rbind (settle_running svc env now db params) (\<lambda>db'.
          Inr (Some (''commit chat settlement transaction'', db'), ()))
        else if rrStatus req = fst (chatSettlementFinalStatuses params) then
          rbind (ensureIdempotentChatSettlement env db req params) (\<lambda>_.
          Inr (Some (''commit idempotent chat settlement replay'', db), ()))
        else Inl (settlement_failure ''request status does not allow chat settlement'')) = Inr (Some (msg, db'), x)"
    by (elim rbind_InrE) (simp add: store_call_Inr GetRequestRecordForUpdate_Inr)
  have "rrStatus req = RequestStatusRunning" "settle_running svc env now db params = Inr db'"
    using rest False by (simp_all add: rbind_Inr_iff split: if_splits)
  with req show thesis by (intro that(2))
qed (rule that(1))

lemma SettleSuccessfulChat_run:
  "SettleSuccessfulChat svc env now db params = (r, db') \<Longrightarrow> settle_inv db \<Longrightarrow> settle_edit\<^sup>*\<^sup>* db db'"
  by (erule SettleSuccessfulChat_cases) (simp_all add: settle_running_run)

lemma ReplayChatSettlement_run:
  "ReplayChatSettlement svc env now job db = (r, db') \<Longrightarrow> settle_inv db \<Longrightarrow> settle_edit\<^sup>*\<^sup>* db db'"
  unfolding ReplayChatSettlement_def by (auto split: sum.splits intro: SettleSuccessfulChat_run)

lemma releaseDead_run:
  assumes "releaseDeadSettlementReservation env db job = Inr db'" "settle_inv db"
  shows "settle_edit\<^sup>*\<^sup>* db db'"
proof -
  let ?p = "\<lparr>rlRequestRecordID = sjRequestRecordID job, rlReservationID = Some (sjReservationID job)\<rparr>"
  show ?thesis
  proof (cases "ReleaseWithQueries (env.truncate env) (ledger_view db) ?p")
    case (Inl e)
    then show ?thesis using assms(1) by (simp add: releaseDeadSettlementReservation_def split: if_splits)
  next
    case (Inr y)
    then obtain rv l x l' where r: "ReleaseWithQueries (env.truncate env) (ledger_view db) ?p = Inr (rv, l)"
        "CreateLedgerRiskExposureException (clock env) l (risk_exposure rv ''settlement_recovery_exhausted''
           ''settlement recovery job exhausted retries after upstream success without reliable settlement'') = Inr (x, l')"
      and db': "db' = db\<lparr>customer_ledger := l'\<rparr>"
      using assms(1) by (cases y) (auto simp: releaseDeadSettlementReservation_def rbind_Inr_iff store_call_Inr)
    show ?thesis unfolding db' by (rule exposed_release_run [OF r assms(2)])
  qed
qed

lemma release_orphan_run:
  assumes "release_orphan env db row = Inr db'" "settle_inv db"
  shows "settle_edit\<^sup>*\<^sup>* db db'"
proof -
  let ?p = "\<lparr>rlRequestRecordID = lrRequestRecordID row, rlReservationID = Some (lrID row)\<rparr>"
  show ?thesis
  proof (cases "ReleaseWithQueries (env.truncate env) (ledger_view db) ?p")
    case (Inl e)
    then show ?thesis using assms(1) by (simp add: release_orphan_def split: if_splits)
  next
    case (Inr y)
    then obtain rv l x l' where r: "ReleaseWithQueries (env.truncate env) (ledger_view db) ?p = Inr (rv, l)"
        "CreateLedgerRiskExposureException (clock env) l (risk_exposure rv ''orphan_reservation_swept''
           ''process crash left an authorized reservation with a stuck running request; frozen balance released and request finalized as failed'')
         = Inr (x, l')"
      and db': "db' = db\<lparr>customer_ledger := l'\<rparr>"
      using assms(1) by (cases y) (auto simp: release_orphan_def rbind_Inr_iff store_call_Inr)
    show ?thesis unfolding db' by (rule exposed_release_run [OF r assms(2)])
  qed
qed

lemma FinalizeDead_cases:
  assumes "FinalizeDeadChatSettlement env t db job = (r, db')"
  obtains "db' = db"
  | req db1 a db2 p q where "request_of db (sjRequestRecordID job) = Some req" "rrStatus req = RequestStatusRunning"
      "releaseDeadSettlementReservation env db job = Inr db1"
      "MarkSettledAttemptFailed env db1 db1 (dead_attempt_params t job) = Inr (a, db2)"
      "log_MarkRequestFailed env db2 db2 p = Inr (q, db')" "mrID p = sjRequestRecordID job"
proof (cases "db' = db")
  case False
  let ?p = "\<lparr>mrID = sjRequestRecordID job, mrErrorCode = CodeChatSettlementFailed,
            mrErrorMessage = BaseSafeRequestLogErrorMessage CodeChatSettlementFailed,
            mrInternalErrorDetail =
              ''settlement recovery job exhausted retries; frozen balance released and request finalized as failed'',
            mrCompletedAt = t\<rparr>"
  from settle_tx_cases [OF assms [unfolded FinalizeDeadChatSettlement_def]] False obtain msg x where
    "rbind (db_call env ''lock request record for dead chat settlement finalize''
         (GetRequestRecordForUpdate db (sjRequestRecordID job))) (\<lambda>lockedRequest.
       if rrStatus lockedRequest \<noteq> RequestStatusRunning then Inr (None, ()) else
       rbind (releaseDeadSettlementReservation env db job) (\<lambda>db1.
       rbind (wrapped LogCause ''mark attempt failed for dead chat settlement finalize''
         (MarkSettledAttemptFailed env db1 db1 (dead_attempt_params t job))) (\<lambda>(_, db2).
       rbind (wrapped LogCause ''mark request failed for dead chat settlement finalize''
         (log_MarkRequestFailed env db2 db2 ?p)) (\<lambda>(_, db3).
       Inr (Some (''commit dead chat settlement finalize transaction'', db3), ()))))) = Inr (Some (msg, db'), x)" by metis
  then obtain req db1 a db2 q where "request_of db (sjRequestRecordID job) = Some req" "rrStatus req = RequestStatusRunning"
      "releaseDeadSettlementReservation env db job = Inr db1"
      "MarkSettledAttemptFailed env db1 db1 (dead_attempt_params t job) = Inr (a, db2)"
      "log_MarkRequestFailed env db2 db2 ?p = Inr (q, db')"
    by (auto simp: rbind_Inr_iff store_call_Inr GetRequestRecordForUpdate_Inr split: if_splits)
  then show thesis by (rule that(2) [where p = ?p]) simp
qed (rule that(1))

lemma FinalizeDead_run:
  assumes "FinalizeDeadChatSettlement env t db job = (r, db')" "settle_inv db"
  shows "settle_edit\<^sup>*\<^sup>* db db'"
  using assms(1)
proof (cases rule: FinalizeDead_cases)
  case (2 req db1 a db2 p q)
  have "settle_edit\<^sup>*\<^sup>* db db1" by (rule releaseDead_run [OF 2(3) assms(2)])
  moreover have "settle_edit db1 db2" by (rule settle_edit.log [OF attempt_ends_edit(3) [OF 2(4)]])
  moreover have "settle_edit db2 db'" by (rule settle_edit.log [OF request_ends_edit(4) [OF 2(5)]])
  ultimately show ?thesis by (meson rtranclp.rtrancl_into_rtrancl)
qed simp

lemma end_orphaned_run:
  assumes "end_orphaned_attempts env t db i n = Inr db'"
  shows "settle_edit\<^sup>*\<^sup>* db db'"
proof (cases "n = 0")
  case False
  then obtain k where "MarkRunningRequestAttemptsOrphaned db orphan_error t i = Inr (k, db')"
    using assms by (auto simp: end_orphaned_attempts_def rbind_Inr_iff store_call_Inr)
  moreover have "seErrorCode orphan_error \<noteq> None" by (simp add: orphan_error_def)
  ultimately show ?thesis by (intro edit_run settle_edit.orphans)
qed (use assms in \<open>simp add: end_orphaned_attempts_def\<close>)

lemma finalize_orphan_steps:
  assumes "finalize_orphan env t1 t2 db row n = Inr db'"
  obtains db1 db2 p q where "end_orphaned_attempts env t1 db (lrRequestRecordID row) n = Inr db1"
    "release_orphan env db1 row = Inr db2" "log_MarkRequestFailed env db2 db2 p = Inr (q, db')" "mrID p = lrRequestRecordID row"
  using assms unfolding finalize_orphan_def
  by (elim rbind_InrE pair_caseE) (simp add: that)

lemma finalize_orphan_run:
  assumes "finalize_orphan env t1 t2 db row n = Inr db'" "settle_inv db"
  shows "settle_edit\<^sup>*\<^sup>* db db'"
  using assms(1)
proof (cases rule: finalize_orphan_steps)
  case (1 db1 db2 p q)
  have one: "settle_edit\<^sup>*\<^sup>* db db1" by (rule end_orphaned_run [OF 1(1)])
  then have "settle_edit\<^sup>*\<^sup>* db1 db2" by (intro release_orphan_run [OF 1(2)] edits.reach_inv [OF _ assms(2)])
  with one show ?thesis by (meson edits_trans edit_run settle_edit.log request_ends_edit(4) [OF 1(3)])
qed

lemma FinalizeOrphan_cases:
  assumes "FinalizeOrphanReservation env t1 t2 db row ids permits = (r, db')"
  obtains "db' = db"
  | req n where "request_of db (lrRequestRecordID row) = Some req" "rrStatus req = RequestStatusRunning"
      "rrDeliveryStatus req = DeliveryStatusNotStarted"
      "GetSettlementRecoveryJobByRequest db (lrRequestRecordID row) = Inl ErrNoRows"
      "proof_holds (zip ids permits) (ListRunningRequestAttemptPermitsForUpdate db (lrRequestRecordID row))"
      "length ids = length permits" "n = length (ListRunningRequestAttemptPermitsForUpdate db (lrRequestRecordID row))"
      "finalize_orphan env t1 t2 db row n = Inr db'"
proof (cases "db' = db")
  case False
  let ?i = "lrRequestRecordID row"
  have len: "length ids = length permits" using assms False
    by (cases "length ids = length permits") (simp_all add: FinalizeOrphanReservation_def)
  from settle_tx_cases [OF assms [unfolded FinalizeOrphanReservation_def Let_def if_not_P [OF not_not [THEN iffD2, OF len]]]] False
  obtain msg x where "rbind (orphan_call env ''lock request record for orphan reservation finalize'' (GetRequestRecordForUpdate db ?i))
          (\<lambda>lockedRequest.
         if rrStatus lockedRequest \<noteq> RequestStatusRunning \<or> rrDeliveryStatus lockedRequest \<noteq> DeliveryStatusNotStarted
         then Inr (None, False)
         else case store_call env ''recheck settlement recovery job for orphan reservation finalize''
             (GetSettlementRecoveryJobByRequest db ?i) of
           Inr _ \<Rightarrow> Inr (None, False)
         | Inl e \<Rightarrow>
             if e \<noteq> ErrNoRows
             then Inl (OrphanReclaimFailed (DbCause e) ''recheck settlement recovery job for orphan reservation finalize'')
             else rbind (orphan_call env ''lock running attempts for orphan reservation finalize''
               (Inr (ListRunningRequestAttemptPermitsForUpdate db ?i))) (\<lambda>runningAttempts.
             if \<not> proof_holds (zip ids permits) runningAttempts then Inr (None, False)
             else rbind (finalize_orphan env t1 t2 db row (length runningAttempts)) (\<lambda>db'.
               Inr (Some (''commit orphan reservation finalize transaction'', db'), True)))) = Inr (Some (msg, db'), x)" by metis
  then obtain req where "request_of db ?i = Some req" "rrStatus req = RequestStatusRunning"
      "rrDeliveryStatus req = DeliveryStatusNotStarted"
      "GetSettlementRecoveryJobByRequest db (lrRequestRecordID row) = Inl ErrNoRows"
      "proof_holds (zip ids permits) (ListRunningRequestAttemptPermitsForUpdate db ?i)"
      "finalize_orphan env t1 t2 db row (length (ListRunningRequestAttemptPermitsForUpdate db ?i)) = Inr db'"
    by (auto simp: rbind_Inr_iff store_call_Inr store_call_ErrNoRows GetRequestRecordForUpdate_Inr split: if_splits sum.splits)
  then show thesis using that(2) len by blast
qed (rule that(1))

lemma FinalizeOrphan_run:
  "FinalizeOrphanReservation env t1 t2 db row ids permits = (r, db') \<Longrightarrow> settle_inv db \<Longrightarrow> settle_edit\<^sup>*\<^sup>* db db'"
  by (erule FinalizeOrphan_cases) (simp_all add: finalize_orphan_run)

lemma FinalizeStranded_cases:
  assumes "FinalizeStrandedReservation env db row = (r, db')"
  obtains "db' = db"
  | req rv l where "request_of db (lrRequestRecordID row) = Some req" "rrStatus req \<in> set [RequestStatusFailed, RequestStatusCanceled]"
      "ReleaseWithQueries (env.truncate env) (ledger_view db)
         \<lparr>rlRequestRecordID = lrRequestRecordID row, rlReservationID = Some (lrID row)\<rparr> = Inr (rv, l)"
      "db' = db\<lparr>customer_ledger := l\<rparr>"
proof (cases "db' = db")
  case False
  let ?p = "\<lparr>rlRequestRecordID = lrRequestRecordID row, rlReservationID = Some (lrID row)\<rparr>"
  from settle_tx_cases [OF assms [unfolded FinalizeStrandedReservation_def]] False
  obtain msg x where "rbind (failing (\<lambda>e. StrandedReclaimFailed (DbCause e) ''lock request record for stranded reservation finalize'')
         (store_call env ''lock request record for stranded reservation finalize''
           (GetRequestRecordForUpdate db (lrRequestRecordID row)))) (\<lambda>lockedRequest.
       if rrStatus lockedRequest \<notin> set [RequestStatusFailed, RequestStatusCanceled] then Inr (None, ())
       else case ReleaseWithQueries (env.truncate env) (ledger_view db) ?p of
         Inl e \<Rightarrow> if not_found e then Inr (None, ())
           else Inl (StrandedReclaimFailed (LedgerCause e) ''release stranded reservation'')
       | Inr (_, l) \<Rightarrow>
           Inr (Some (''commit stranded reservation finalize transaction'', db\<lparr>customer_ledger := l\<rparr>), ())) = Inr (Some (msg, db'), x)" by metis
  then obtain req rv l where "request_of db (lrRequestRecordID row) = Some req"
      "rrStatus req \<in> set [RequestStatusFailed, RequestStatusCanceled]"
      "ReleaseWithQueries (env.truncate env) (ledger_view db) ?p = Inr (rv, l)" "db' = db\<lparr>customer_ledger := l\<rparr>"
    by (auto simp: rbind_Inr_iff store_call_Inr GetRequestRecordForUpdate_Inr split: if_splits sum.splits)
  then show thesis by (rule that(2))
qed (rule that(1))

lemma FinalizeStranded_run:
  "FinalizeStrandedReservation env db row = (r, db') \<Longrightarrow> settle_inv db \<Longrightarrow> settle_edit\<^sup>*\<^sup>* db db'"
  by (erule FinalizeStranded_cases) (simp_all add: release_run)

subsection \<open>Recovery\<close>

lemma job_call_run:
  assumes "auto_call env msg db r = (x, db')" "\<And>y d. r = Inr (y, d) \<Longrightarrow> job_edit db d \<and> (\<exists>js k. d = db\<lparr>recovery_jobs := js, recovery_job_seq := k\<rparr>)"
  shows "settle_edit\<^sup>*\<^sup>* db db'"
proof (cases "db' = db")
  case False
  then obtain y where "r = Inr (y, db')" using assms(1) by (auto simp: auto_call_def split: sum.splits if_splits)
  with assms(2) obtain js k where "job_edit db db'" "db' = db\<lparr>recovery_jobs := js, recovery_job_seq := k\<rparr>" by blast
  then show ?thesis using settle_edit.job by (intro edit_run) blast
qed simp

lemma create_job_tables:
  fixes db :: settle_db
  assumes "CreateSettlementRecoveryJob ok now db arg = Inr (job, d)"
  shows "\<exists>js k. d = db\<lparr>recovery_jobs := js, recovery_job_seq := k\<rparr>"
proof (intro exI)
  show "d = db\<lparr>recovery_jobs := recovery_jobs d, recovery_job_seq := recovery_job_seq d\<rparr>"
    using assms by (auto simp: CreateSettlementRecoveryJob_def Let_def rbind_Inr_iff split: if_splits option.splits)
qed

lemma CreatePending_run:
  assumes "CreatePendingChatSettlementRecoveryJob st env now db params = (r, db')"
  shows "settle_edit\<^sup>*\<^sup>* db db'"
proof (cases "ValidateChatSettlementFacts params")
  case (Inr u)
  obtain x where "auto_call env ''create chat settlement recovery job'' db
      (CreateSettlementRecoveryJob job_refs (clock env) db (recovery_job_params st now params)) = (x, db')"
    using assms Inr by (auto simp: CreatePendingChatSettlementRecoveryJob_def split: prod.splits sum.splits)
  then show ?thesis by (rule job_call_run) (use create_job_edit create_job_tables in blast)
qed (use assms in \<open>simp add: CreatePendingChatSettlementRecoveryJob_def\<close>)

lemma MarkRecovered_run:
  assumes "MarkChatSettlementRecoveryJobSucceeded env now db i = (r, db')"
  shows "settle_edit\<^sup>*\<^sup>* db db'"
proof -
  obtain x where "auto_call env ''mark chat settlement recovery job succeeded'' db
      (MarkSettlementRecoveryJobSucceeded db db now i) = (x, db')"
    using assms by (auto simp: MarkChatSettlementRecoveryJobSucceeded_def split: prod.splits sum.splits)
  then show ?thesis by (rule job_call_run) (use succeeded_edit(2) succeeded_tables in blast)
qed

lemma SettleRecoverable_run:
  assumes "SettleRecoverable st svc envs moments db params = (r, db')" "settle_inv db"
  shows "settle_edit\<^sup>*\<^sup>* db db'"
proof -
  obtain e1 e2 e3 t1 t2 t3 where parts: "envs = (e1, e2, e3)" "moments = (t1, t2, t3)"
    by (cases envs; cases moments) auto
  obtain c db1 where create: "CreatePendingChatSettlementRecoveryJob st e1 t1 db params = (c, db1)" by fastforce
  note one = CreatePending_run [OF create]
  show ?thesis
  proof (cases c)
    case (Inl e)
    with assms(1) one show ?thesis by (simp add: SettleRecoverable_def parts create)
  next
    case (Inr job)
    obtain s db2 where settle: "SettleSuccessfulChat svc e2 t2 db1 params = (s, db2)" by fastforce
    have two: "settle_edit\<^sup>*\<^sup>* db1 db2"
      by (rule SettleSuccessfulChat_run [OF settle edits.reach_inv [OF one assms(2)]])
    from assms(1) Inr have "db' = db2 \<or> db' = snd (MarkChatSettlementRecoveryJobSucceeded e3 t3 db2 (sjID job))"
      by (auto simp: SettleRecoverable_def parts create settle faultInjectSettlementOnce_def split: sum.splits)
    then have "settle_edit\<^sup>*\<^sup>* db2 db'"
      using MarkRecovered_run [of e3 t3 db2 "sjID job"] by (metis prod.collapse rtranclp.rtrancl_refl)
    with one two show ?thesis by (meson edits_trans)
  qed
qed

subsection \<open>The worker\<close>

lemma job_call_tables:
  assumes "auto_call env msg db r = (x, db')" "\<And>y d. r = Inr (y, d) \<Longrightarrow> job_tables db d"
  shows "settle_edit\<^sup>*\<^sup>* db db'"
  using job_call_run [OF assms(1)] assms(2) unfolding job_tables_def by blast

lemma report_run:
  assumes "report m (auto_call env msg db r) = (x, db')" "\<And>y d. r = Inr (y, d) \<Longrightarrow> job_tables db d"
  shows "settle_edit\<^sup>*\<^sup>* db db'"
proof -
  obtain y where "auto_call env msg db r = (y, db')" using assms(1) by (auto simp: report_def split: prod.splits sum.splits)
  then show ?thesis by (rule job_call_tables [OF _ assms(2)])
qed

text \<open>A recoverer whose two calls are runs.\<close>

definition runs :: "settle_db recoverer \<Rightarrow> bool" where
  "runs rcv \<longleftrightarrow> (\<forall>job db. settle_inv db \<longrightarrow> settle_edit\<^sup>*\<^sup>* db (snd (RecoverChatSettlement rcv job db)) \<and>
     settle_edit\<^sup>*\<^sup>* db (snd (rc_FinalizeDeadChatSettlement rcv job db)))"

lemma settlement_recoverer_runs: "runs (settlement_recoverer errorText svc env now)"
proof -
  have "settle_edit\<^sup>*\<^sup>* db (snd (to_recover_error errorText (r, db')))" if "settle_edit\<^sup>*\<^sup>* db db'" for r db db'
    using that by (simp add: to_recover_error_def split: sum.split)
  then show ?thesis unfolding runs_def settlement_recoverer_def
    by (simp, metis ReplayChatSettlement_run FinalizeDead_run prod.collapse)
qed

lemma markFailed_run:
  assumes "markFailed w t db job err = (r, db')" "settle_inv db"
  shows "settle_edit\<^sup>*\<^sup>* db db'"
proof -
  have wf: "jobs_wf db" using assms(2) by (simp add: settle_inv_def)
  from assms(1) show ?thesis unfolding markFailed_def Let_def
    by (simp split: if_splits) (erule report_run, erule job_statements [OF wf])+
qed

lemma claimAndRecoverOne_run:
  assumes "claimAndRecoverOne rcv w t db = (r, db')" "settle_inv db" "runs rcv"
  shows "settle_edit\<^sup>*\<^sup>* db db'"
proof -
  have wf: "jobs_wf db" using assms(2) by (simp add: settle_inv_def)
  obtain c db1 where c: "auto_call (tkEnv t) ''claim settlement recovery job'' db
        (ClaimNextSettlementRecoveryJob (tkLocked t) db (swWorkerID w) (add_duration (tkNow t) (swLockTTL w)) (tkNow t)) = (c, db1)"
    by fastforce
  have one: "settle_edit\<^sup>*\<^sup>* db db1" by (rule job_call_tables [OF c job_statements(1) [OF wf]])
  note inv1 = edits.reach_inv [OF one assms(2)]
  show ?thesis
  proof (cases c)
    case (Inl e)
    with assms(1) one c show ?thesis by (simp add: claimAndRecoverOne_def)
  next
    case (Inr job)
    obtain err db2 where rec: "RecoverChatSettlement rcv job db1 = (err, db2)" by fastforce
    have two: "settle_edit\<^sup>*\<^sup>* db1 db2" using assms(3) inv1 rec unfolding runs_def by (metis snd_conv)
    note inv2 = edits.reach_inv [OF two inv1]
    have wf2: "jobs_wf db2" using inv2 by (simp add: settle_inv_def)
    have "settle_edit\<^sup>*\<^sup>* db2 db'"
    proof (cases err)
      case (Some e)
      obtain m db3 where m: "markFailed w t db2 job e = (m, db3)" by fastforce
      with assms(1) c rec Inr Some have "db' = db3" by (simp add: claimAndRecoverOne_def)
      then show ?thesis using markFailed_run [OF m inv2] by simp
    next
      case None
      obtain m db3 where m: "auto_call (tkEnv t) ''mark settlement recovery job succeeded'' db2
          (MarkSettlementRecoveryJobSucceeded db2 db2 (tkReport t) (sjID job)) = (m, db3)" by fastforce
      with assms(1) c rec Inr None have "db' = db3" by (auto simp: claimAndRecoverOne_def split: sum.splits)
      then show ?thesis using job_call_tables [OF m job_statements(5) [OF wf2]] by simp
    qed
    with one two show ?thesis by (meson edits_trans)
  qed
qed

lemma claim_batch_run:
  assumes "runs rcv"
  shows "claim_batch rcv w ticks n i worked db = (r, db') \<Longrightarrow> settle_inv db \<Longrightarrow> settle_edit\<^sup>*\<^sup>* db db'"
proof (induction n arbitrary: i worked db)
  case (Suc n)
  obtain p e db1 where one: "claimAndRecoverOne rcv w (ticks i) db = ((p, e), db1)" by (metis prod.exhaust)
  note run = claimAndRecoverOne_run [OF one Suc.prems(2) assms]
  have "db' = db1 \<or> claim_batch rcv w ticks n (Suc i) True db1 = (r, db')"
    using Suc.prems(1) by (auto simp: one split: option.splits if_splits)
  then show ?case using run Suc.IH [OF _ edits.reach_inv [OF run Suc.prems(2)]] edits_trans by blast
qed simp

lemma RunOnce_run:
  assumes "RunOnce rcv w ticks db = (r, db')" "settle_inv db" "runs rcv"
  shows "settle_edit\<^sup>*\<^sup>* db db'"
proof -
  obtain f1 e1 db1 where fin: "finalizeNextDeadJob rcv (ticks 0) db = ((f1, e1), db1)" by (metis prod.exhaust)
  have one: "settle_edit\<^sup>*\<^sup>* db db1"
  proof (cases "store_call (tkEnv (ticks 0)) ''find dead settlement recovery job to finalize''
        (GetDeadSettlementRecoveryJobWithRunningRequest db)")
    case (Inl e)
    with fin show ?thesis by (simp add: finalizeNextDeadJob_def)
  next
    case (Inr job)
    with fin have "db1 = snd (rc_FinalizeDeadChatSettlement rcv job db)"
      by (auto simp: finalizeNextDeadJob_def split: prod.splits option.splits)
    with assms(2,3) show ?thesis by (simp add: runs_def)
  qed
  note inv1 = edits.reach_inv [OF one assms(2)]
  have wf1: "jobs_wf db1" using inv1 by (simp add: settle_inv_def)
  obtain f2 e2 db2 where exh: "markExhausted (ticks 0) db1 = ((f2, e2), db2)" by (metis prod.exhaust)
  obtain m where "auto_call (tkEnv (ticks 0)) ''mark exhausted settlement recovery job dead'' db1
      (MarkExhaustedSettlementRecoveryJobDead (tkLocked (ticks 0)) db1 exhausted_facts (tkNow (ticks 0)) (tkNow (ticks 0))) = (m, db2)"
    using exh by (auto simp: markExhausted_def split: prod.splits sum.splits)
  then have two: "settle_edit\<^sup>*\<^sup>* db1 db2" by (rule job_call_tables [OF _ job_statements(2) [OF wf1]])
  note inv2 = edits.reach_inv [OF two inv1]
  from assms(1) have "db' = db1 \<or> db' = db2 \<or> (\<exists>n. claim_batch rcv w ticks n 1 False db2 = (r, db'))"
    by (auto simp: RunOnce_def fin exh split: if_splits)
  then have "settle_edit\<^sup>*\<^sup>* db1 db'" using two claim_batch_run [OF assms(3) _ inv2] edits_trans by blast
  with one show ?thesis by (rule edits_trans)
qed

subsection \<open>The composed machine\<close>

text \<open>
  Gateways, workers and operators on one database: settlements inline, through a job or replayed from it, the three
  finalizers, whole rounds of workers and single statements of others in between, the log and the ledgers on their own, and
  changes of the tables the foreign keys refer to.
\<close>

inductive settle_step :: "settle_db \<Rightarrow> settle_db \<Rightarrow> bool" where
  settle: "SettleSuccessfulChat svc price_env now s params = (r, s') \<Longrightarrow> settle_step s s'"
| recoverable: "SettleRecoverable st svc envs moments s params = (r, s') \<Longrightarrow> settle_step s s'"
| job_created: "CreatePendingChatSettlementRecoveryJob st env now s params = (job, s') \<Longrightarrow> settle_step s s'"
| job_succeeded: "MarkChatSettlementRecoveryJobSucceeded env now s i = (r, s') \<Longrightarrow> settle_step s s'"
| replay: "ReplayChatSettlement svc price_env now job s = (r, s') \<Longrightarrow> settle_step s s'"
| dead: "FinalizeDeadChatSettlement (env :: env) now s job = (r, s') \<Longrightarrow> settle_step s s'"
| orphan: "FinalizeOrphanReservation (env :: env) now now' s row ids permits = (reclaimed, s') \<Longrightarrow> settle_step s s'"
| stranded: "FinalizeStrandedReservation (env :: env) s row = (r, s') \<Longrightarrow> settle_step s s'"
| worker: "RunOnce (settlement_recoverer errorText svc price_env now) w ticks s = (outcome, s') \<Longrightarrow> settle_step s s'"
| job_statement: "job_tables s s' \<Longrightarrow> settle_step s s'"
| log: "log_step s s' \<Longrightarrow> set (rq_users s) \<subseteq> set (rq_users s') \<Longrightarrow> settle_step s s'"
| ledger: "ledger_step (ledger_view s) l \<Longrightarrow> outside_kept (ledger_view s) l \<Longrightarrow> settle_step s (s\<lparr>customer_ledger := l\<rparr>)"
| provider: "provider_step (provider_view s) p \<Longrightarrow> settle_step s (s\<lparr>provider_ledger := p\<rparr>)"
| outside: "set (rq_users s) \<subseteq> set us \<Longrightarrow> settle_step s (s\<lparr>rq_users := us, rq_providers := ps, rq_channels := cs,
    api_keys := ks, channel_rows := rows, price_tables := prices\<rparr>)"

lemma log_step_run:
  fixes s s' :: settle_db
  assumes "log_step s s'" "set (rq_users s) \<subseteq> set (rq_users s')"
  shows "settle_edit\<^sup>*\<^sup>* s s'"
proof -
  from step_edit [OF assms(1)] consider "log_edit s s'"
    | us ps cs ks where "s' = s\<lparr>rq_users := us, rq_providers := ps, rq_channels := cs, api_keys := ks\<rparr>" by blast
  then show ?thesis
  proof cases
    case 2
    then show ?thesis using assms(2) settle_edit.outside [where s = s and us = us and ps = ps and cs = cs and ks = ks and rows = "channel_rows s" and prices = "price_tables s"]
      by (intro edit_run) simp
  qed (intro edit_run settle_edit.log)
qed

lemma settle_step_run:
  assumes "settle_step s s'" "settle_inv s"
  shows "settle_edit\<^sup>*\<^sup>* s s'"
  using assms
proof (induction rule: settle_step.induct)
  case (settle svc price_env now s params r s')
  then show ?case by (rule SettleSuccessfulChat_run)
next
  case (recoverable st svc envs moments s params r s')
  then show ?case by (rule SettleRecoverable_run)
next
  case (job_created st env now s params job s')
  show ?case by (rule CreatePending_run [OF job_created(1)])
next
  case (job_succeeded env now s i r s')
  show ?case by (rule MarkRecovered_run [OF job_succeeded(1)])
next
  case (replay svc price_env now job s r s')
  then show ?case by (rule ReplayChatSettlement_run)
next
  case (dead env now s job r s')
  then show ?case by (rule FinalizeDead_run)
next
  case (orphan env now now' s row ids permits reclaimed s')
  then show ?case by (rule FinalizeOrphan_run)
next
  case (stranded env s row r s')
  then show ?case by (rule FinalizeStranded_run)
next
  case (worker errorText svc price_env now w ticks s outcome s')
  show ?case by (rule RunOnce_run [OF worker settlement_recoverer_runs])
next
  case (job_statement s s')
  then show ?case using settle_edit.job by (intro edit_run) (auto simp: job_tables_def)
next
  case (log s s')
  show ?case by (rule log_step_run [OF log(1,2)])
next
  case (ledger s l)
  then have "ledger_inv (ledger_view s)" by (simp add: settle_inv_def)
  then show ?case by (intro edit_run settle_edit.ledger step_effect [OF ledger(1)] ledger(2))
next
  case (provider s p)
  then show ?case by (intro edit_run settle_edit.provider)
next
  case (outside s us ps cs ks rows prices)
  then show ?case by (intro edit_run settle_edit.outside)
qed

interpretation settlement: step_relation settle_step settle_inv settle_le
  using settle_step_run edits.reach_inv edits.reach_rel settle_le_refl settle_le_trans by unfold_locales blast+

end
