(* ===== verification/Settlement_Example.thy ===== *)
theory Settlement_Example
  imports Settlement_Runs Ledger_Laws Recovery_Laws
begin

text \<open>
  A run of the settlement on a small database: a funded user with an authorized hold, a running request with one attempt,
  and a channel with its price. The laws of the settlement are witnessed on it.
\<close>

definition sd_env :: price_env where
  "sd_env = env.extend rd_env (price_env.fields (\<lambda>_. True) (\<lambda>_. False) (\<lambda>_. None) (\<lambda>_. None))"

definition sd_ledger :: db where
  "sd_ledger =
     (let new = empty_db\<lparr>users := [3], requests := [(1, 3)]\<rparr>;
          funded = snd (Credit rd_env new new \<lparr>epUserID = 3, epRequestRecordID = None, epAmount = num 120000000000,
            epCurrency = ''USD'', epIdempotencyKey = ''topup'', epReason = ''topup''\<rparr>)
      in snd (PreAuthorize rd_env funded funded \<lparr>paUserID = 3, paRequestRecordID = 1, paEstimatedAmount = num 50000000,
         paCurrency = ''USD'', paIdempotencyKey = ''hold'', paReason = ''chat''\<rparr>))"

definition sd_price :: ChannelPrice where
  "sd_price = \<lparr>cprID = 4, cprChannelID = 6, cprModelID = 9, cprCurrency = ''USD'', cprPricingUnit = PricingUnitPer1MTokens,
     cprUncachedInputCost = Some 20000000000, cprCacheReadInputCost = None, cprCacheWrite5mInputCost = None,
     cprCacheWrite1hInputCost = None, cprOutputCost = Some 40000000000, cprReasoningOutputCost = None,
     cprStatus = ''enabled'', cprEffectiveFrom = 0, cprEffectiveTo = None, cprCreatedAt = 0, cprUpdatedAt = 0,
     cprCacheWrite30mInputCost = None\<rparr>"

definition sd_prices :: price_db where
  "sd_prices = \<lparr>models = [9], channels = [6], channel_models = [(6, 9)], model_prices = [], channel_prices = [sd_price],
     cost_multipliers = [], recharge_factors = [], model_price_seq = 1, channel_price_seq = 5, multiplier_seq = 1,
     factor_seq = 1\<rparr>"

definition sd0 :: settle_db where
  "sd0 = job_db.extend (request_db.extend rd3 (job_db.fields [] 1))
     (settle_db.fields sd_ledger (empty_provider_db\<lparr>providers := [5]\<rparr>) sd_prices
       [\<lparr>chnID = 6, chnProviderID = 5, chnName = ''main''\<rparr>] [] [] [] [] 1 1 1 1)"

abbreviation tokens :: "int \<Rightarrow> TokenCount" where "tokens n \<equiv> \<lparr>tcValue = n, tcState = ''known''\<rparr>"

definition sd_facts :: ResponseFacts where
  "sd_facts = \<lparr>rfUpstreamProtocol = ''openai'', rfUpstreamResponseID = ''up'', rfUpstreamModel = ''gpt'',
     rfFinish = \<lparr>ffClass = ''stop'', ffRawReason = ''stop''\<rparr>,
     rfUsage = \<lparr>UncachedInputTokens = tokens 1000, CacheReadInputTokens = tokens 0, CacheWrite5mInputTokens = tokens 0,
       CacheWrite1hInputTokens = tokens 0, CacheWrite30mInputTokens = tokens 0, OutputTokensTotal = tokens 500,
       ReasoningOutputTokens = tokens 0, ServerToolUsage = [\<lparr>miKind = MeteredServerWebSearchRequest, miQuantity = 2\<rparr>]\<rparr>,
     rfUsageSource = ''upstream_response'', rfUsageMappingVersion = ''v1'',
     rfMetadata = \<lparr>umStatusCode = 200, umRequestID = ''r'', umRetryAfter = 0\<rparr>\<rparr>"

definition sd_params :: ChatSettlementParams where
  "sd_params =
     (let r = hd (request_records rd3); a = hd (request_attempts rd3) in
      \<lparr>spRequestRecord = requestRecordFromSQLC r, spAttemptRecord = attemptRecordFromSQLC a,
       spPrincipal = \<lparr>apAPIKeyID = 7, apUserID = 3, apKeyPrefix = '''', apRouteID = None, apRPMLimit = None, apRPDLimit = None,
         apConcurrencyLimit = None\<rparr>,
       spAuthorization = \<lparr>auReservationID = 3, auRequestRecordID = 1, auEstimatedAmount = num 50000000,
         auAuthorizedAmount = num 50000000, auCurrency = ''USD''\<rparr>,
       spResponseProtocol = ''openai'', spResponseID = ''resp'', spResponseModelID = ''gpt'', spGatewayFirstTokenAt = Some 110,
       spRequestFinalStatus = '''', spAttemptFinalStatus = '''', spErrorCode = '''', spErrorMessage = '''',
       spInternalErrorDetail = '''', spModelDBID = 9, spFinalProviderID = 5, spFinalChannelID = 6, spChannelPriceID = 4,
       spCostBaseModelPriceID = 0, spChannelCostMultiplierID = 0, spChannelRechargeFactorID = 0,
       spSalePrice = \<lparr>cpCurrency = ''USD'', cpPricingUnit = PricingUnitPer1MTokens, UncachedInputPrice = num 30000000000,
         CacheReadInputPrice = num 30000000000, CacheWrite5mInputPrice = numeric_null, CacheWrite1hInputPrice = numeric_null,
         CacheWrite30mInputPrice = numeric_null, OutputPrice = num 60000000000, ReasoningOutputPrice = numeric_null,
         cpFormulaVersion = FormulaVersionV1\<rparr>,
       spPriceRatio = num 10000000000,
       spLongContextPolicy = \<lparr>lcEnabled = False, lcThreshold = 0, lcInputMultiplier = numeric_null, lcOutputMultiplier = numeric_null\<rparr>,
       spFacts = sd_facts\<rparr>)"

definition sd_svc :: ChatSettlementService where "sd_svc = \<lparr>hasProviderLedger = True\<rparr>"
definition sd1 :: settle_db where "sd1 = snd (SettleSuccessfulChat sd_svc sd_env 120 sd0 sd_params)"

definition sd_job :: SettlementRecoveryJob where
  "sd_job = projr (fst (CreatePendingChatSettlementRecoveryJob (NewChatSettlementRecoveryStore 1000 3) rd_env 119 sd0 sd_params))"

definition sd_hold :: LedgerReservation where "sd_hold = hd (ledger_reservations sd_ledger)"

subsection \<open>The run\<close>

lemma sd_ledger_inv: "ledger_inv sd_ledger"
proof -
  have "ledger_step\<^sup>*\<^sup>* (empty_db\<lparr>users := [3], requests := [(1, 3)]\<rparr>) sd_ledger"
    unfolding sd_ledger_def Let_def
    by (rule rtranclp.rtrancl_into_rtrancl, rule r_into_rtranclp, rule ledger_step.credit [OF prod.collapse [symmetric]],
        rule ledger_step.pre_authorize [OF prod.collapse [symmetric]])
  then show ?thesis by (rule ledger.reach_inv) (rule outside_inv [OF empty_db_inv], simp_all add: empty_db_def)
qed

lemma rd3_inv: "log_inv rd3"
proof -
  have "\<not> isl (CreateAttempt rd_env rd2 rd_attempt)" by code_simp
  from log_step.attempt [OF after_callI [OF this]] have "log_step rd2 rd3" by (simp add: rd3_def)
  then show ?thesis using request_log.step_inv reachable_log_inv [OF rd_reachable(1)] by blast
qed

lemma sd_tables: "rq_users rd3 = [3]" "map (\<lambda>r. (rrID r, rrUserID r)) (request_records rd3) = [(1, 3)]"
    "users sd_ledger = [3]" "requests sd_ledger = [(1, 3)]"
  by code_simp+

lemma sd0_inv: "settle_inv sd0"
proof -
  have "ledger_view sd0 = sd_ledger"
    using sd_tables by (simp add: ledger_view_def sd0_def request_db.defs job_db.defs settle_db.defs)
  moreover have "log_inv sd0" using rd3_inv
    by (simp add: sd0_def request_db.defs job_db.defs settle_db.defs log_inv_def requests_wf_def attempts_wf_def attempts_guarded_def)
  moreover have "provider_inv (provider_view sd0)"
    using provider_inv_view [OF provider_inv_view [OF empty_provider_inv]]
    by (simp add: provider_view_def sd0_def request_db.defs job_db.defs settle_db.defs)
  ultimately show ?thesis using sd_ledger_inv
    by (simp add: settle_inv_def jobs_wf_def snapshots_wf_def) (simp add: sd0_def request_db.defs job_db.defs settle_db.defs)
qed

lemma sd_settles: "settle_step sd0 sd1"
  unfolding sd1_def by (rule settle_step.settle [OF prod.collapse [symmetric]])

lemma sd1_inv: "settle_inv sd1"
  by (rule settlement.step_inv [OF sd_settles sd0_inv])

lemma sd1_request: "map (\<lambda>r. (rrID r, rrStatus r)) (request_records sd1) = [(1, RequestStatusSucceeded)]"
  by code_simp

lemma sd_one_request: "lqID (spRequestRecord sd_params) = 1" "sjRequestRecordID sd_job = 1" "lrRequestRecordID sd_hold = 1"
  by code_simp+

end
