(* ===== verification/Settlement_Effects.thy ===== *)
theory Settlement_Effects
  imports Settlement_Runs
begin

text \<open>
  What a first settlement leaves behind, row by row: the rows each step of \<open>settle_running\<close> writes, and that the checks of a
  repeated settlement (\<open>ensureIdempotentChatSettlement\<close>) pass on exactly these rows.
\<close>

subsection \<open>The attempt\<close>

text \<open>The outcome a settlement writes on its attempt.\<close>

definition settled_attempt :: "int \<Rightarrow> ChatSettlementParams \<Rightarrow> RequestAttempt \<Rightarrow> RequestAttempt" where
  "settled_attempt now params a =
     (let facts = spFacts params; st = snd (chatSettlementFinalStatuses params);
          done = set_attempt_outcome \<lparr>aoUpstreamResponseID = Some (rfUpstreamResponseID facts),
            aoUpstreamResponseModel = Some (rfUpstreamModel facts),
            aoUpstreamFinishReason = Some (ffRawReason (rfFinish facts)), aoFinishClass = Some (ffClass (rfFinish facts)),
            aoUpstreamStatusCode = Some (wrap32 (umStatusCode (rfMetadata facts))),
            aoUpstreamRequestID = UpstreamRequestIDPtr (umRequestID (rfMetadata facts)),
            aoGatewayFirstTokenAt = spGatewayFirstTokenAt params,
            aoFinalUsageReceived = (\<not> IsPartialEstimate (rfUsageSource facts)),
            aoUsageMappingVersion = Some (rfUsageMappingVersion facts), aoCompletedAt = now,
            aoAttemptID = ltID (spAttemptRecord params)\<rparr> a;
          errs = error_facts (spErrorCode params) (spErrorMessage params) (spInternalErrorDetail params)
      in (if st = AttemptStatusSucceeded then done else set_attempt_error errs done)\<lparr>raStatus := st\<rparr>)"

lemma settle_attempt_marks:
  fixes db :: settle_db
  defines "st \<equiv> \<lambda>params. snd (chatSettlementFinalStatuses params)"
  assumes "settle_attempt env now db params (st params) = Inr (x, db')"
  shows "\<exists>row. mark_attempt db db (ltID (spAttemptRecord params)) (\<lambda>r. raStatus r = AttemptStatusRunning)
    (settled_attempt now params) (\<lambda>r. raStatus r = st params) = Inr (row, db') \<and> st params \<in> set terminal_statuses"
proof -
  from assms(2) consider "st params = AttemptStatusSucceeded" | "st params = AttemptStatusFailed" | "st params = AttemptStatusCanceled"
    by (auto simp: settle_attempt_def Let_def split: if_splits)
  then show ?thesis
    using assms(2)
    by cases (auto simp: settle_attempt_def Let_def MarkAttemptSucceeded_def MarkSettledAttemptFailed_def
        MarkSettledAttemptCanceled_def MarkRequestAttemptSucceeded_def MarkSettledRequestAttemptFailed_def
        MarkSettledRequestAttemptCanceled_def MarkAttemptSucceededParams.defs MarkSettledAttemptFailedParams.defs
        attempt_outcome_def settled_attempt_def [abs_def] st_def terminal_statuses_def dest!: logged_Inr)
qed

lemma mark_attempt_moves:
  assumes "mark_attempt db db i (\<lambda>r. raStatus r = AttemptStatusRunning) upd done_already = Inr (x, db')"
    and "attempt_of db i = Some a" "raStatus a = AttemptStatusRunning" "raID (upd a) = raID a"
  shows "db' = db\<lparr>request_attempts := map (\<lambda>y. if raID y = raID a then upd a else y) (request_attempts db)\<rparr>"
  using assms unfolding mark_attempt_def mark_def Let_def
  by (auto simp: rbind_Inr_iff put_attempt_def split: if_splits)

lemma settled_attempt_sel [simp]:
  "raID (settled_attempt now params a) = raID a"
  "raRequestRecordID (settled_attempt now params a) = raRequestRecordID a"
  "raStatus (settled_attempt now params a) = snd (chatSettlementFinalStatuses params)"
  by (simp_all add: settled_attempt_def Let_def set_attempt_outcome_def set_attempt_error_def)

lemma settle_attempt_wrote:
  fixes db :: settle_db
  assumes "settle_attempt env now db params (snd (chatSettlementFinalStatuses params)) = Inr (x, db')"
    and "attempt_of db (ltID (spAttemptRecord params)) = Some a" "raStatus a = AttemptStatusRunning"
  shows "db' = db\<lparr>request_attempts := map (\<lambda>y. if raID y = raID a then settled_attempt now params a else y) (request_attempts db)\<rparr>"
  using settle_attempt_marks [OF assms(1)] mark_attempt_moves [OF _ assms(2,3)] settled_attempt_sel(1) by blast

subsection \<open>The request\<close>

definition settled_request :: "int \<Rightarrow> int \<Rightarrow> ChatSettlementParams \<Rightarrow> RequestRecord \<Rightarrow> RequestRecord" where
  "settled_request t now params r =
     (let st = fst (chatSettlementFinalStatuses params);
          done = set_outcome t \<lparr>soResponseModelID = Some (spResponseModelID params),
            soResponseProtocol = Some (spResponseProtocol params), soResponseID = Some (spResponseID params),
            soFinalProviderID = Some (spFinalProviderID params), soFinalChannelID = Some (spFinalChannelID params),
            soGatewayFirstTokenAt = spGatewayFirstTokenAt params, soCompletedAt = now,
            soRequestRecordID = lqID (spRequestRecord params)\<rparr> r;
          errs = error_facts (spErrorCode params) (spErrorMessage params) (spInternalErrorDetail params)
      in (if st = RequestStatusSucceeded then done else set_request_error errs done)\<lparr>rrStatus := st\<rparr>)"

lemma settle_request_marks:
  fixes db :: settle_db
  defines "st \<equiv> \<lambda>params. fst (chatSettlementFinalStatuses params)"
  assumes "settle_request env now db params (st params) = Inr (x, db')"
  shows "\<exists>row. mark_request db db (lqID (spRequestRecord params)) (\<lambda>r. rrStatus r = RequestStatusRunning)
    (settled_request (clock env) now params) (\<lambda>r. rrStatus r = st params) = Inr (row, db') \<and> st params \<in> set terminal_statuses"
proof -
  from assms(2) consider "st params = RequestStatusSucceeded" | "st params = RequestStatusFailed" | "st params = RequestStatusCanceled"
    by (auto simp: settle_request_def Let_def split: if_splits)
  then show ?thesis
    using assms(2)
    by cases (auto simp: settle_request_def Let_def log_MarkRequestSucceeded_def log_MarkSettledRequestFailed_def
        log_MarkSettledRequestCanceled_def MarkRequestSucceeded_def MarkSettledRequestFailed_def
        MarkSettledRequestCanceled_def MarkRequestSucceededParams.defs MarkSettledRequestFailedParams.defs
        request_outcome_def settled_request_def [abs_def] st_def terminal_statuses_def dest!: logged_Inr)
qed

lemma mark_request_moves:
  assumes "mark_request db db i (\<lambda>r. rrStatus r = RequestStatusRunning) upd done_already = Inr (x, db')"
    and "request_of db i = Some r" "rrStatus r = RequestStatusRunning" "rrID (upd r) = rrID r"
  shows "db' = db\<lparr>request_records := map (\<lambda>y. if rrID y = rrID r then upd r else y) (request_records db)\<rparr>"
  using assms unfolding mark_request_def mark_def Let_def
  by (auto simp: rbind_Inr_iff put_request_def split: if_splits)

lemma settled_request_sel [simp]:
  "rrID (settled_request t now params r) = rrID r" "rrUserID (settled_request t now params r) = rrUserID r"
  "rrApiKeyID (settled_request t now params r) = rrApiKeyID r"
  "rrStatus (settled_request t now params r) = fst (chatSettlementFinalStatuses params)"
  by (simp_all add: settled_request_def Let_def set_outcome_def set_request_error_def)

lemma settle_request_wrote:
  fixes db :: settle_db
  assumes "settle_request env now db params (fst (chatSettlementFinalStatuses params)) = Inr (x, db')"
    and "request_of db (lqID (spRequestRecord params)) = Some r" "rrStatus r = RequestStatusRunning"
  shows "db' = db\<lparr>request_records := map (\<lambda>y. if rrID y = rrID r then settled_request (clock env) now params r else y) (request_records db)\<rparr>"
  using settle_request_marks [OF assms(1)] mark_request_moves [OF _ assms(2,3)] settled_request_sel(1) by blast

subsection \<open>The usage\<close>

definition usage_row :: "int \<Rightarrow> int \<Rightarrow> ChatSettlementParams \<Rightarrow> UsageRecord" where
  "usage_row t i params =
     (let u = rfUsage (spFacts params) in
      \<lparr>urID = i, urRequestRecordID = lqID (spRequestRecord params), urUncachedInputTokens = tcValue (UncachedInputTokens u),
       urUncachedInputTokensState = tcState (UncachedInputTokens u),
       urCacheReadInputTokens = tcValue (CacheReadInputTokens u), urCacheReadInputTokensState = tcState (CacheReadInputTokens u),
       urCacheWrite5mInputTokens = tcValue (CacheWrite5mInputTokens u),
       urCacheWrite5mInputTokensState = tcState (CacheWrite5mInputTokens u),
       urCacheWrite1hInputTokens = tcValue (CacheWrite1hInputTokens u),
       urCacheWrite1hInputTokensState = tcState (CacheWrite1hInputTokens u),
       urOutputTokensTotal = tcValue (OutputTokensTotal u), urOutputTokensTotalState = tcState (OutputTokensTotal u),
       urReasoningOutputTokens = tcValue (ReasoningOutputTokens u),
       urReasoningOutputTokensState = tcState (ReasoningOutputTokens u), urUsageSource = rfUsageSource (spFacts params),
       urUsageMappingVersion = rfUsageMappingVersion (spFacts params), urCreatedAt = t,
       urCacheWrite30mInputTokens = tcValue (CacheWrite30mInputTokens u),
       urCacheWrite30mInputTokensState = tcState (CacheWrite30mInputTokens u)\<rparr>)"

fun line_rows :: "int \<Rightarrow> int \<Rightarrow> int \<Rightarrow> MeteredItem list \<Rightarrow> UsageLineItem list" where
  "line_rows t n i [] = []"
| "line_rows t n i (item # items) = \<lparr>uiID = n, uiUsageRecordID = i, uiKind = miKind item, uiQuantity = miQuantity item,
     uiCreatedAt = t\<rparr> # line_rows t (n + 1) i items"

lemma line_items_wrote:
  "createSettlementUsageLineItems env db i items = Inr db' \<Longrightarrow>
   db' = db\<lparr>usage_line_items := usage_line_items db @ line_rows (clock env) (usage_line_item_seq db) i items,
     usage_line_item_seq := usage_line_item_seq db + int (length items)\<rparr>"
proof (induction items arbitrary: db)
  case (Cons item items)
  let ?row = "\<lparr>uiID = usage_line_item_seq db, uiUsageRecordID = i, uiKind = miKind item, uiQuantity = miQuantity item,
     uiCreatedAt = clock env\<rparr>"
  let ?db = "db\<lparr>usage_line_items := usage_line_items db @ [?row], usage_line_item_seq := usage_line_item_seq db + 1\<rparr>"
  have "createSettlementUsageLineItems env ?db i items = Inr db'"
    using Cons.prems by (auto simp: rbind_Inr_iff store_call_Inr CreateUsageLineItem_def Let_def split: if_splits)
  from Cons.IH [OF this] show ?case by (simp add: add.assoc)
qed simp

lemma settle_usage_wrote:
  assumes "settle_usage env db params = Inr db'"
  shows "db' = db\<lparr>usage_records := usage_records db @ [usage_row (clock env) (usage_record_seq db) params],
     usage_record_seq := usage_record_seq db + 1,
     usage_line_items := usage_line_items db @
       line_rows (clock env) (usage_line_item_seq db) (usage_record_seq db) (ServerToolUsage (rfUsage (spFacts params))),
     usage_line_item_seq := usage_line_item_seq db + int (length (ServerToolUsage (rfUsage (spFacts params))))\<rparr>"
    "lqID (spRequestRecord params) \<notin> urRequestRecordID ` set (usage_records db)"
  using assms by (auto simp: settle_usage_def rbind_Inr_iff store_call_Inr createSettlementUsageRecord_def Let_def
      CreateUsageRecord_def insert_usage_record_def usage_row_def split: if_splits dest!: line_items_wrote)

subsection \<open>Rates in the snapshots\<close>

text \<open>A rate that is NULL or a whole number of units comes back from its column as it went in.\<close>

definition same_rate :: "numeric \<Rightarrow> numeric \<Rightarrow> bool" where
  "same_rate v w \<longleftrightarrow> nValid v = nValid w \<and> numericToRat v = numericToRat w"

definition unit_rate :: "numeric \<Rightarrow> bool" where
  "unit_rate v \<longleftrightarrow> \<not> nValid v \<or> (\<exists>n. numericRat v = Some (units n))"

lemma unit_rate_num [simp]: "unit_rate (num n)" "unit_rate (nullable c)" "unit_rate numeric_null" "unit_rate (mkNumeric 0 0)"
  by (auto simp: unit_rate_def nullable_def numeric_null_def split: option.split intro!: exI [of _ "0 :: int"])

lemma numericRat_valid: "numericRat v = Some r \<Longrightarrow> nValid v \<and> numericToRat v = Inr r"
  by (simp add: numericToRat_of_numericRat) (simp add: numericRat_def split: if_splits)

lemma required_same_rate: "unit_rate v \<Longrightarrow> required_num v = Inr n \<Longrightarrow> same_rate (num n) v"
  by (auto simp: unit_rate_def same_rate_def bind_col10 dest!: numericRat_valid)

lemma null_same_rate: "unit_rate v \<Longrightarrow> col10_null v = Inr c \<Longrightarrow> same_rate (nullable c) v"
  by (auto simp: unit_rate_def same_rate_def col10_null_def nullable_def numericToRat_invalid numeric_null_def bind_num_def bind_num_finite rbind_Inr_iff
      dest: numericRat_valid split: if_splits option.splits)

text \<open>Costs whose rates agree are computed alike.\<close>

definition same_cost :: "ProviderCostSnapshot \<Rightarrow> ProviderCostSnapshot \<Rightarrow> bool" where
  "same_cost a b \<longleftrightarrow> pcCurrency a = pcCurrency b \<and> pcPricingUnit a = pcPricingUnit b \<and> pcFormulaVersion a = pcFormulaVersion b \<and>
     same_rate (UncachedInputCost a) (UncachedInputCost b) \<and> same_rate (CacheReadInputCost a) (CacheReadInputCost b) \<and>
     same_rate (CacheWrite5mInputCost a) (CacheWrite5mInputCost b) \<and>
     same_rate (CacheWrite1hInputCost a) (CacheWrite1hInputCost b) \<and>
     same_rate (CacheWrite30mInputCost a) (CacheWrite30mInputCost b) \<and>
     same_rate (OutputCost a) (OutputCost b) \<and> same_rate (ReasoningOutputCost a) (ReasoningOutputCost b)"

lemma same_rate_norm:
  "same_rate v w \<Longrightarrow> requiredNonNegativeNumeric v = requiredNonNegativeNumeric w"
  "same_rate v w \<Longrightarrow> optionalRate b v = optionalRate b w"
  by (simp_all add: same_rate_def requiredNonNegativeNumeric_def optionalRate_def)

lemma same_cost_amounts:
  assumes "same_cost a b"
  shows "CalculateProviderCost f a = CalculateProviderCost f b"
proof -
  have base: "pcCurrency a = pcCurrency b" "pcPricingUnit a = pcPricingUnit b" "pcFormulaVersion a = pcFormulaVersion b"
    "requiredNonNegativeNumeric (UncachedInputCost a) = requiredNonNegativeNumeric (UncachedInputCost b)"
    "requiredNonNegativeNumeric (OutputCost a) = requiredNonNegativeNumeric (OutputCost b)"
    using assms by (auto simp: same_cost_def intro: same_rate_norm)
  have rest: "optionalRate x (CacheReadInputCost a) = optionalRate x (CacheReadInputCost b)"
    "optionalRate x (CacheWrite5mInputCost a) = optionalRate x (CacheWrite5mInputCost b)"
    "optionalRate x (CacheWrite1hInputCost a) = optionalRate x (CacheWrite1hInputCost b)"
    "optionalRate x (CacheWrite30mInputCost a) = optionalRate x (CacheWrite30mInputCost b)"
    "optionalRate x (ReasoningOutputCost a) = optionalRate x (ReasoningOutputCost b)" for x
    using assms by (auto simp: same_cost_def intro: same_rate_norm)
  have "normalizeProviderCostRates a = normalizeProviderCostRates b"
    by (simp add: normalizeProviderCostRates_def normalizeTokenRates_def Let_def base rest)
  then show ?thesis by (simp add: CalculateProviderCost_def)
qed

definition unit_rs :: "tokenRateSnapshot \<Rightarrow> bool" where
  "unit_rs s \<longleftrightarrow> unit_rate (rsUncachedInputRate s) \<and> unit_rate (rsCacheReadInputRate s) \<and>
     unit_rate (rsCacheWrite5mInputRate s) \<and> unit_rate (rsCacheWrite1hInputRate s) \<and>
     unit_rate (rsCacheWrite30mInputRate s) \<and> unit_rate (rsOutputRate s) \<and> unit_rate (rsReasoningOutputRate s) \<and>
     rsFormulaVersion s = FormulaVersionV1"

abbreviation unit_cost :: "ProviderCostSnapshot \<Rightarrow> bool" where "unit_cost c \<equiv> unit_rs (provider_rs c)"

lemma scaleRate_unit: "unit_rate v \<Longrightarrow> scaleRate v m = Inr w \<Longrightarrow> unit_rate w"
  by (cases "nValid v") (auto simp: scaleRate_valid scaleRate_null rbind_Inr_iff)

lemma rs_scaled_unit: "rs_scaled i out s s' \<Longrightarrow> unit_rs s \<Longrightarrow> unit_rs s'"
  unfolding rs_scaled_def unit_rs_def by (elim conjE, intro conjI) (erule scaleRate_unit, assumption | simp)+

lemma long_context_unit:
  "ApplyLongContextToProviderCost c policy n = Inr (c', applied) \<Longrightarrow> unit_cost c \<Longrightarrow> unit_cost c'"
  unfolding ApplyLongContextToProviderCost_Inr using rs_scaled_unit by (metis (full_types))

lemma numericOrZero_unit: "unit_rate v \<Longrightarrow> unit_rate (numericOrZero v)"
  by (simp add: numericOrZero_def)

lemma base_unit: "unit_cost (costBaseSnapshot base)" "unit_cost (channelPriceCostSnapshot price)"
  by (simp_all add: unit_rs_def provider_rs_def costBaseSnapshot_def ModelPriceToProviderCost_def channelPriceCostSnapshot_def
      numericOrZero_unit)

lemma normalize_unit: "unit_cost c \<Longrightarrow> unit_cost (normalizeCostSnapshotRequiredRates c)"
  by (simp add: unit_rs_def provider_rs_def normalizeCostSnapshotRequiredRates_def numericOrZero_unit)

lemma scaled_unit: "scaledMultiplierCostSnapshot base m k = Inr c \<Longrightarrow> unit_cost c"
  using rs_scaled_unit [OF _ base_unit(1) [of base]] normalize_unit
  by (auto simp: scaledMultiplierCostSnapshot_def ScaleProviderCostByFactors_Inr split: sum.splits)

text \<open>A resolved cost has unit rates and names its source.\<close>

definition sourced :: "resolvedSettlementCost \<Rightarrow> bool" where
  "sourced cost \<longleftrightarrow> unit_cost (rcSnapshot cost) \<and>
     (0 < rcChannelPriceID cost \<or> 0 < rcCostBaseModelPriceID cost \<and> 0 < rcChannelCostMultiplierID cost)"

definition positive_prices :: "price_db \<Rightarrow> bool" where
  "positive_prices db \<longleftrightarrow> (\<forall>p \<in> set (channel_prices db). 0 < cprID p) \<and> (\<forall>p \<in> set (model_prices db). 0 < mpID p) \<and>
     (\<forall>m \<in> set (cost_multipliers db). 0 < cmID m)"

lemma positive_rows:
  assumes "positive_prices db"
  shows "GetChannelPrice db i = Inr p \<Longrightarrow> 0 < cprID p" "FindActiveChannelPrice db c m t = Inr p \<Longrightarrow> 0 < cprID p"
    "GetModelPrice db i = Inr q \<Longrightarrow> 0 < mpID q" "FindActiveModelPrice db m t = Inr q \<Longrightarrow> 0 < mpID q"
    "GetChannelCostMultiplier db i = Inr x \<Longrightarrow> 0 < cmID x" "FindActiveChannelCostMultiplier db c m t = Inr x \<Longrightarrow> 0 < cmID x"
  using assms order_limit1_Inr(1)
  by (fastforce simp: positive_prices_def GetChannelPrice_def GetModelPrice_def GetChannelCostMultiplier_def one_row_def
      FindActiveChannelPrice_def FindActiveModelPrice_def FindActiveChannelCostMultiplier_def find_Some_iff split: option.splits)+

lemma override_sourced: "0 < cprID p \<Longrightarrow> sourced (overrideResolvedCost p)"
  by (simp add: sourced_def overrideResolvedCost_def base_unit)

lemma multiplier_sourced:
  "scaledMultiplierCostSnapshot base m k = Inr c \<Longrightarrow> 0 < mpID base \<Longrightarrow> 0 < cmID mult \<Longrightarrow>
    sourced (multiplier_cost c base mult i factor)"
  by (simp add: sourced_def scaled_unit)

lemma active_sourced:
  assumes "positive_prices db" "resolveActiveSettlementCost env db c m t = Inr cost"
  shows "sourced cost"
  using assms(2) positive_rows [OF assms(1)]
  by (auto simp: resolveActiveSettlementCost_def rbind_Inr_iff store_call_Inr Let_def override_sourced
      split: sum.splits if_splits intro!: multiplier_sourced)

lemma pinned_sourced:
  assumes "positive_prices db" "resolvePinnedMultiplierCost env db c m pins = Inr (Some cost)"
  shows "sourced cost"
  using assms(2) positive_rows [OF assms(1)]
  by (auto simp: resolvePinnedMultiplierCost_def rbind_Inr_iff store_call_Inr Let_def
      split: sum.splits if_splits intro!: multiplier_sourced)

lemma resolved_sourced:
  assumes "positive_prices db" "resolveSettlementCost env db c m pins t = Inr cost"
  shows "sourced cost"
  using assms(2) positive_rows(1) [OF assms(1)] active_sourced [OF assms(1)] pinned_sourced [OF assms(1)]
  by (auto simp: resolveSettlementCost_def store_call_Inr Let_def override_sourced split: sum.splits if_splits option.splits)

subsection \<open>The snapshots\<close>

text \<open>The rates the row keeps are those of the quoted price after the long-context policy, as the columns round them.\<close>

definition stored_price :: "CustomerPriceSnapshot \<Rightarrow> PriceSnapshot \<Rightarrow> bool" where
  "stored_price sale s \<longleftrightarrow> psCurrency s = cpCurrency sale \<and> psPricingUnit s = cpPricingUnit sale \<and>
     required_num (UncachedInputPrice sale) = Inr (psUncachedInputPrice s) \<and>
     col10_null (CacheReadInputPrice sale) = Inr (psCacheReadInputPrice s) \<and>
     col10_null (CacheWrite5mInputPrice sale) = Inr (psCacheWrite5mInputPrice s) \<and>
     col10_null (CacheWrite1hInputPrice sale) = Inr (psCacheWrite1hInputPrice s) \<and>
     col10_null (CacheWrite30mInputPrice sale) = Inr (psCacheWrite30mInputPrice s) \<and>
     required_num (OutputPrice sale) = Inr (psOutputPrice s) \<and>
     col10_null (ReasoningOutputPrice sale) = Inr (psReasoningOutputPrice s)"

definition quoted :: "ChatSettlementParams \<Rightarrow> PriceSnapshot \<Rightarrow> bool" where
  "quoted params s \<longleftrightarrow> (\<exists>sale. ApplyLongContextToCustomerPrice (spSalePrice params) (spLongContextPolicy params)
     (LongContextInputTokenSum (rfUsage (spFacts params))) = Inr (sale, psLongContextApplied s) \<and> stored_price sale s)"

lemma insert_price_snapshot_wrote:
  assumes "insert_price_snapshot db row = Inr (s, db')"
  shows "s = row\<lparr>psID := price_snapshot_seq db\<rparr>" "psRequestRecordID row \<notin> psRequestRecordID ` set (price_snapshots db)"
    "db' = db\<lparr>price_snapshots := price_snapshots db @ [s], price_snapshot_seq := price_snapshot_seq db + 1\<rparr>"
  using assms by (auto simp: insert_price_snapshot_def split: if_splits)

lemma settle_price_wrote:
  assumes "settle_price env db params cost = Inr ((charge, applied), db')"
  obtains s where "psRequestRecordID s = lqID (spRequestRecord params)"
    "CalculateCustomerCharge (rfUsage (spFacts params)) (snapshot_price s) = Inr charge"
    "lqID (spRequestRecord params) \<notin> psRequestRecordID ` set (price_snapshots db)"
    "db' = db\<lparr>price_snapshots := price_snapshots db @ [s], price_snapshot_seq := price_snapshot_seq db + 1\<rparr>"
    "quoted params s"
proof -
  obtain sale s db1 where steps: "ApplyLongContextToCustomerPrice (spSalePrice params) (spLongContextPolicy params)
      (LongContextInputTokenSum (rfUsage (spFacts params))) = Inr (sale, applied)"
    "CreatePriceSnapshot (clock env) db
       \<lparr>cpsRequestRecordID = lqID (spRequestRecord params), cpsPriceID = nullableInt8 (rcChannelPriceID cost),
        cpsCurrency = cpCurrency sale, cpsPricingUnit = cpPricingUnit sale,
        cpsUncachedInputPrice = UncachedInputPrice sale, cpsCacheReadInputPrice = CacheReadInputPrice sale,
        cpsCacheWrite5mInputPrice = CacheWrite5mInputPrice sale, cpsCacheWrite1hInputPrice = CacheWrite1hInputPrice sale,
        cpsCacheWrite30mInputPrice = CacheWrite30mInputPrice sale, cpsOutputPrice = OutputPrice sale,
        cpsReasoningOutputPrice = ReasoningOutputPrice sale, cpsFormulaVersion = FormulaVersionV1,
        cpsPriceRatio = spPriceRatio params, cpsLongContextApplied = applied\<rparr> = Inr (s, db1)"
    "CalculateCustomerCharge (rfUsage (spFacts params)) (snapshot_price s) = Inr charge" "db1 = db'"
    using assms unfolding settle_price_def
    by (elim rbind_InrE pair_caseE) (fastforce simp: store_call_Inr)
  from steps(2) obtain u cr c5 c1 c30 out re ratio where rows:
    "required_num (UncachedInputPrice sale) = Inr u" "col10_null (CacheReadInputPrice sale) = Inr cr"
    "col10_null (CacheWrite5mInputPrice sale) = Inr c5" "col10_null (CacheWrite1hInputPrice sale) = Inr c1"
    "col10_null (CacheWrite30mInputPrice sale) = Inr c30" "required_num (OutputPrice sale) = Inr out"
    "col10_null (ReasoningOutputPrice sale) = Inr re"
    "insert_price_snapshot db
       \<lparr>psID = 0, psRequestRecordID = lqID (spRequestRecord params), psPriceID = nullableInt8 (rcChannelPriceID cost),
        psCurrency = cpCurrency sale, psPricingUnit = cpPricingUnit sale, psUncachedInputPrice = u, psCacheReadInputPrice = cr,
        psCacheWrite5mInputPrice = c5, psCacheWrite1hInputPrice = c1, psOutputPrice = out, psReasoningOutputPrice = re,
        psFormulaVersion = FormulaVersionV1, psCreatedAt = clock env, psPriceRatio = ratio, psCacheWrite30mInputPrice = c30,
        psLongContextApplied = applied\<rparr> = Inr (s, db1)"
    unfolding CreatePriceSnapshot_def by (elim rbind_InrE) (simp add: rbind_Inr_iff)
  note wrote = insert_price_snapshot_wrote [OF rows(8)]
  have "stored_price sale s" using rows(1-7) by (simp add: stored_price_def wrote(1))
  moreover have "psLongContextApplied s = applied" by (simp add: wrote(1))
  ultimately have "quoted params s" using steps(1) by (auto simp: quoted_def)
  then show thesis using wrote(2,3) steps(3,4) by (intro that [of s]) (simp_all add: wrote(1))
qed

lemma provider_amounts_units:
  assumes "CalculateProviderCost f c = Inr pc"
  obtains as total where "provider_amounts pc = map num as" "length as = 7" "TotalCostAmount pc = num total"
    "costCurrency pc = pcCurrency c" "costFormulaVersion pc = FormulaVersionV1" "pcPricingUnit c = PricingUnitPer1MTokens"
proof -
  have u: "usage_ok f" using assms CalculateProviderCost_bad(1) [of f c] by fastforce
  have s: "snapshot_ok (provider_rs c)" using assms CalculateProviderCost_bad(2) [OF u, of c] by fastforce
  obtain xs where r: "cost_record (pcCurrency c) FormulaVersionV1 xs pc"
    using CalculateProviderCost_ok [OF u s] assms by (metis sum.inject(2))
  then show thesis using s
    by (intro that [of "map (\<lambda>x. roundHalfUp (x * 10 ^ 10)) xs"])
       (auto simp: cost_record_def ratToNumeric_10 provider_amounts_def snapshot_ok_def provider_rs_def dest!: arg_cong [of _ _ length])
qed

lemma insert_cost_snapshot_wrote:
  assumes "insert_cost_snapshot db row = Inr (c, db')"
  shows "c = row\<lparr>ctID := cost_snapshot_seq db\<rparr> \<and> ctRequestRecordID row \<notin> ctRequestRecordID ` set (cost_snapshots db) \<and>
    db' = db\<lparr>cost_snapshots := cost_snapshots db @ [c], cost_snapshot_seq := cost_snapshot_seq db + 1\<rparr>"
  using assms by (auto simp: insert_cost_snapshot_def split: if_splits)

text \<open>What the row keeps of the parameters.\<close>

definition stores_cost :: "CreateCostSnapshotParams \<Rightarrow> CostSnapshot \<Rightarrow> bool" where
  "stores_cost arg c \<longleftrightarrow> ctRequestRecordID c = cctRequestRecordID arg \<and> ctCostPriceID c = cctCostPriceID arg \<and>
     ctCostBaseModelPriceID c = cctCostBaseModelPriceID arg \<and> ctChannelCostMultiplierID c = cctChannelCostMultiplierID arg \<and>
     ctProviderID c = cctProviderID arg \<and> ctChannelID c = cctChannelID arg \<and> ctModelID c = cctModelID arg \<and>
     ctUpstreamModel c = cctUpstreamModel arg \<and> ctCurrency c = cctCurrency arg \<and> ctPricingUnit c = cctPricingUnit arg \<and>
     ctFormulaVersion c = cctFormulaVersion arg \<and>
     required_num (cctUncachedInputCost arg) = Inr (ctUncachedInputCost c) \<and>
     col10_null (cctCacheReadInputCost arg) = Inr (ctCacheReadInputCost c) \<and>
     col10_null (cctCacheWrite5mInputCost arg) = Inr (ctCacheWrite5mInputCost c) \<and>
     col10_null (cctCacheWrite1hInputCost arg) = Inr (ctCacheWrite1hInputCost c) \<and>
     col10_null (cctCacheWrite30mInputCost arg) = Inr (ctCacheWrite30mInputCost c) \<and>
     required_num (cctOutputCost arg) = Inr (ctOutputCost c) \<and>
     col10_null (cctReasoningOutputCost arg) = Inr (ctReasoningOutputCost c) \<and>
     map required_num [cctUncachedInputCostAmount arg, cctCacheReadInputCostAmount arg, cctCacheWrite5mInputCostAmount arg,
       cctCacheWrite1hInputCostAmount arg, cctCacheWrite30mInputCostAmount arg, cctOutputCostAmount arg,
       cctReasoningOutputCostAmount arg, cctTotalCostAmount arg] =
     map Inr [ctUncachedInputCostAmount c, ctCacheReadInputCostAmount c, ctCacheWrite5mInputCostAmount c,
       ctCacheWrite1hInputCostAmount c, ctCacheWrite30mInputCostAmount c, ctOutputCostAmount c,
       ctReasoningOutputCostAmount c, ctTotalCostAmount c]"

lemma CreateCostSnapshot_wrote:
  assumes "CreateCostSnapshot now db arg = Inr (c, db')"
  shows "stores_cost arg c \<and> cctRequestRecordID arg \<notin> ctRequestRecordID ` set (cost_snapshots db) \<and>
    db' = db\<lparr>cost_snapshots := cost_snapshots db @ [c], cost_snapshot_seq := cost_snapshot_seq db + 1\<rparr>"
  using assms unfolding CreateCostSnapshot_def
  by (elim rbind_InrE) (drule insert_cost_snapshot_wrote, simp add: stores_cost_def)

text \<open>The settlement's own numeric helpers on a column.\<close>

lemma chat_rat_num [simp]: "chatSettlementNumericRat (num n) = Some (units n)"
  by (simp add: chatSettlementNumericRat_def chatSettlementPow10_def numeric_val_if)

lemma same_num [simp]: "chatSettlementSameNumeric (num a) (num b) \<longleftrightarrow> a = b"
  by (simp add: chatSettlementSameNumeric_def)

lemma required_num_num: "required_num (num a) = Inr n \<Longrightarrow> n = a"
  by (simp split: if_splits)

lemma stored_same: "required_num v = Inr n \<Longrightarrow> v = num a \<Longrightarrow> chatSettlementSameNumeric (num n) v"
  using required_num_num by simp

lemma settle_cost_wrote:
  assumes "settle_cost env db params cost applied = Inr ((pc, c), db')" "sourced cost"
  shows "CalculateProviderCost (rfUsage (spFacts params)) (snapshot_cost c) = Inr pc"
    "ensureSettlementCostSnapshotMatches c params pc = Inr ()" "ctRequestRecordID c = lqID (spRequestRecord params)"
    "lqID (spRequestRecord params) \<notin> ctRequestRecordID ` set (cost_snapshots db)"
    "db' = db\<lparr>cost_snapshots := cost_snapshots db @ [c], cost_snapshot_seq := cost_snapshot_seq db + 1\<rparr>"
proof -
  obtain k where k: "ApplyLongContextToProviderCost (rcSnapshot cost) (spLongContextPolicy params)
         (LongContextInputTokenSum (rfUsage (spFacts params))) = Inr (k, applied)"
    and pc: "CalculateProviderCost (rfUsage (spFacts params)) k = Inr pc"
    and row: "CreateCostSnapshot (clock env) db
       \<lparr>cctRequestRecordID = lqID (spRequestRecord params), cctCostPriceID = nullableInt8 (rcChannelPriceID cost),
        cctCostBaseModelPriceID = nullableInt8 (rcCostBaseModelPriceID cost),
        cctChannelCostMultiplierID = nullableInt8 (rcChannelCostMultiplierID cost),
        cctCostMultiplier = rcCostMultiplier cost,
        cctChannelRechargeFactorID = nullableInt8 (rcChannelRechargeFactorID cost),
        cctRechargeFactor = rcRechargeFactor cost, cctProviderID = spFinalProviderID params,
        cctChannelID = spFinalChannelID params, cctModelID = spModelDBID params,
        cctUpstreamModel = ltUpstreamModel (spAttemptRecord params), cctCurrency = pcCurrency k,
        cctPricingUnit = pcPricingUnit k, cctUncachedInputCost = UncachedInputCost k,
        cctCacheReadInputCost = CacheReadInputCost k, cctCacheWrite5mInputCost = CacheWrite5mInputCost k,
        cctCacheWrite1hInputCost = CacheWrite1hInputCost k, cctCacheWrite30mInputCost = CacheWrite30mInputCost k,
        cctOutputCost = OutputCost k, cctReasoningOutputCost = ReasoningOutputCost k,
        cctUncachedInputCostAmount = UncachedInputCostAmount pc, cctCacheReadInputCostAmount = CacheReadInputCostAmount pc,
        cctCacheWrite5mInputCostAmount = CacheWrite5mInputCostAmount pc,
        cctCacheWrite1hInputCostAmount = CacheWrite1hInputCostAmount pc,
        cctCacheWrite30mInputCostAmount = CacheWrite30mInputCostAmount pc, cctOutputCostAmount = OutputCostAmount pc,
        cctReasoningOutputCostAmount = ReasoningOutputCostAmount pc, cctTotalCostAmount = TotalCostAmount pc,
        cctFormulaVersion = costFormulaVersion pc, cctLongContextApplied = applied\<rparr> = Inr (c, db')"
    using assms(1) unfolding settle_cost_def
    by (elim rbind_InrE pair_caseE) (fastforce simp: store_call_Inr)
  note w = CreateCostSnapshot_wrote [OF row]
  then show "ctRequestRecordID c = lqID (spRequestRecord params)"
    "lqID (spRequestRecord params) \<notin> ctRequestRecordID ` set (cost_snapshots db)"
    "db' = db\<lparr>cost_snapshots := cost_snapshots db @ [c], cost_snapshot_seq := cost_snapshot_seq db + 1\<rparr>"
    by (simp_all add: stores_cost_def)
  obtain as total where shape: "provider_amounts pc = map num as" "length as = 7" "TotalCostAmount pc = num total"
    "costCurrency pc = pcCurrency k" "costFormulaVersion pc = FormulaVersionV1" "pcPricingUnit k = PricingUnitPer1MTokens"
    by (rule provider_amounts_units [OF pc])
  have unit: "unit_cost k" using long_context_unit [OF k] assms(2) by (simp add: sourced_def)
  note s = w [THEN conjunct1, unfolded stores_cost_def, simplified]
  have "same_cost (snapshot_cost c) k"
    using s unit shape(5) by (auto simp: same_cost_def snapshot_cost_def unit_rs_def provider_rs_def intro: required_same_rate null_same_rate)
  with pc show cost: "CalculateProviderCost (rfUsage (spFacts params)) (snapshot_cost c) = Inr pc"
    by (simp add: same_cost_amounts)
  show "ensureSettlementCostSnapshotMatches c params pc = Inr ()"
proof -
    obtain a1 a2 a3 a4 a5 a6 a7 where "as = [a1, a2, a3, a4, a5, a6, a7]"
      using shape(2) by (auto simp: length_Suc_conv numeral_eq_Suc)
    with shape(1) have am: "UncachedInputCostAmount pc = num a1" "CacheReadInputCostAmount pc = num a2"
      "CacheWrite5mInputCostAmount pc = num a3" "CacheWrite1hInputCostAmount pc = num a4"
      "CacheWrite30mInputCostAmount pc = num a5" "OutputCostAmount pc = num a6" "ReasoningOutputCostAmount pc = num a7"
      by (simp_all add: provider_amounts_def)
    note col = s [THEN conjunct2, THEN conjunct2, THEN conjunct2, THEN conjunct2, THEN conjunct2, THEN conjunct2, THEN conjunct2]
    have same: "chatSettlementSameNumeric (num (ctUncachedInputCostAmount c)) (UncachedInputCostAmount pc)"
      "chatSettlementSameNumeric (num (ctCacheReadInputCostAmount c)) (CacheReadInputCostAmount pc)"
      "chatSettlementSameNumeric (num (ctCacheWrite5mInputCostAmount c)) (CacheWrite5mInputCostAmount pc)"
      "chatSettlementSameNumeric (num (ctCacheWrite1hInputCostAmount c)) (CacheWrite1hInputCostAmount pc)"
      "chatSettlementSameNumeric (num (ctCacheWrite30mInputCostAmount c)) (CacheWrite30mInputCostAmount pc)"
      "chatSettlementSameNumeric (num (ctOutputCostAmount c)) (OutputCostAmount pc)"
      "chatSettlementSameNumeric (num (ctReasoningOutputCostAmount c)) (ReasoningOutputCostAmount pc)"
      "chatSettlementSameNumeric (num (ctTotalCostAmount c)) (TotalCostAmount pc)"
      by (rule stored_same; use col am shape(3) in blast)+
    have source: "(case ctCostPriceID c of None \<Rightarrow> False | Some i \<Rightarrow> 0 < i) \<or>
        (case ctCostBaseModelPriceID c of None \<Rightarrow> False | Some i \<Rightarrow> 0 < i) \<and>
        (case ctChannelCostMultiplierID c of None \<Rightarrow> False | Some i \<Rightarrow> 0 < i)"
      using assms(2) s by (auto simp: sourced_def nullableInt8_def)
    show ?thesis unfolding ensureSettlementCostSnapshotMatches_def Let_def
      using same source s [THEN conjunct1] shape(4-6) by (simp add: rbind_Inr_iff s)
  qed
qed

subsection \<open>The provider's ledger\<close>

lemma settle_provider_wrote:
  assumes "settle_provider svc env db params pc c = Inr db'"
  obtains p where "db' = db\<lparr>provider_ledger := p\<rparr>"
  using assms that [of "provider_ledger db"]
  by (auto simp: settle_provider_def Let_def rbind_Inr_iff split: if_splits)

subsection \<open>The customer's ledger\<close>

lemma hold_row_found: "ledger_inv db \<Longrightarrow> r \<in> set (ledger_reservations db) \<Longrightarrow>
    GetLedgerReservationByRequestRecordID db (lrRequestRecordID r) = Inr r"
  unfolding GetLedgerReservationByRequestRecordID_def
  by (subst find_distinct [of lrRequestRecordID _ r]) (simp_all add: inv_parts one_row_def)

lemma same_request_reservation:
  "ledger_inv db \<Longrightarrow> r \<in> set (ledger_reservations db) \<Longrightarrow> q \<in> set (ledger_reservations db) \<Longrightarrow>
    lrRequestRecordID q = lrRequestRecordID r \<Longrightarrow> q = r"
  using hold_row_found [of db r] hold_row_found [of db q] by simp

lemma settled_row_member: "settled_row db db' r r' \<Longrightarrow> r' \<in> set (ledger_reservations db')"
  by (auto simp: settled_row_def same_hold_def intro!: image_eqI [of _ _ r])

lemma released_matches:
  assumes "releaseWithQueries env db p = Inr (rv, db')" "ledger_inv db" "r \<in> set (ledger_reservations db)"
    and "lrStatus r = ReservationStatusAuthorized" "rlRequestRecordID p = lrRequestRecordID r"
    and "\<And>e. e \<in> set (ledger_entries db) \<Longrightarrow> leRequestRecordID e \<noteq> Some (lrRequestRecordID r)" "\<And>msg. \<not> fault env' msg"
  obtains r' where "GetLedgerReservationByRequestRecordID db' (lrRequestRecordID r) = Inr r'" "same_hold r r'"
    "ensureSettlementReleasedReservationMatches env' db' r' = Inr ()"
  using assms(1,2)
proof (cases rule: releaseWithQueries_inv)
  case (replay q)
  then show ?thesis using same_request_reservation [OF assms(2,3), of q] assms(4,5) by simp
next
  case (released q r')
  then have "q = r" using same_request_reservation [OF assms(2,3), of q] assms(5) by (simp add: released_def settled_row_def)
  with released have row: "settled_row db db' r r'" "lrStatus r' = ReservationStatusReleased" "ledger_entries db' = ledger_entries db"
    by (simp_all add: released_def)
  have same: "same_hold r r'" "check_ledger_reservation r'" using row(1) by (simp_all add: settled_row_def)
  have "ledger_inv db'" using released_inv released(2) assms(2) by blast
  from hold_row_found [OF this settled_row_member [OF row(1)]]
  have "GetLedgerReservationByRequestRecordID db' (lrRequestRecordID r) = Inr r'" using same(1) by (simp add: same_hold_def)
  moreover have "ensureSettlementReleasedReservationMatches env' db' r' = Inr ()"
    using same row(2,3) assms(6,7)
    by (auto simp: ensureSettlementReleasedReservationMatches_def rbind_Inr_iff store_call_def check_ledger_reservation_def
        settlement_numericIsZero_def ListLedgerEntriesByRequest_def same_hold_def list_all_iff)
  ultimately show ?thesis using same(1) by (intro that)
qed

text \<open>The rows of a capture of \<open>n\<close> units: the entry of the captured part, the entry of the overage, the write-off.\<close>

lemma overage_rows:
  assumes "overage_taken p r (units n) got db3 db'"
  obtains tail xs where "ledger_entries db' = ledger_entries db3 @ tail" "billing_exceptions db' = billing_exceptions db3 @ xs"
    "if 0 < got then \<exists>e. tail = [e] \<and> overage_entry p r got e else tail = []"
    "if lrAuthorizedAmount r + got < n then \<exists>ex. xs = [ex] \<and> write_off r (units n) got ex else xs = []"
    "got = max (min (fst (account db3 (res_key r)) - snd (account db3 (res_key r))) (n - lrAuthorizedAmount r)) 0"
    "account db' = (account db3)(res_key r := (fst (account db3 (res_key r)) - got, snd (account db3 (res_key r))))"
proof -
  obtain db1 where one: "if 0 < got then \<exists>e. posted db3 db1 e \<and> overage_entry p r got e else idle db3 db1"
    and two: "if units (lrAuthorizedAmount r + got) < units n
        then \<exists>ex. exception_added db1 db' ex \<and> write_off r (units n) got ex else db' = db1"
    and got: "got = max (min (fst (account db3 (res_key r)) - snd (account db3 (res_key r))) (n - lrAuthorizedAmount r)) 0"
    using assms by (auto simp: overage_taken_def)
  have acc1: "account db1 = (account db3)(res_key r := (fst (account db3 (res_key r)) - got, snd (account db3 (res_key r))))"
  proof (cases "0 < got")
    case True
    then obtain e where "posted db3 db1 e" "overage_entry p r got e" using one by auto
    then show ?thesis using posted_account [of db3 db1 e] by (simp add: overage_entry_def signed_def credit_types_def)
  next
    case False
    then have "got = 0" "account db1 = account db3" using one got by (simp_all add: idle_def)
    then show ?thesis by simp
  qed
  have acc: "account db' = account db1"
    using two by (auto simp: exception_added_def account_def fun_eq_iff split: if_splits)
  obtain tail where tail: "ledger_entries db1 = ledger_entries db3 @ tail" "billing_exceptions db1 = billing_exceptions db3"
    "if 0 < got then \<exists>e. tail = [e] \<and> overage_entry p r got e else tail = []"
    using one by (cases "0 < got") (auto simp: posted_def idle_def same_tables_def)
  obtain xs where "ledger_entries db' = ledger_entries db1" "billing_exceptions db' = billing_exceptions db1 @ xs"
    "if lrAuthorizedAmount r + got < n then \<exists>ex. xs = [ex] \<and> write_off r (units n) got ex else xs = []"
    using two by (cases "lrAuthorizedAmount r + got < n") (auto simp: exception_added_def)
  with tail got acc acc1 show thesis by (intro that [of tail xs]) simp_all
qed

lemma capture_rows:
  assumes "captureWithQueries env db p = Inr (rv, db')" "ledger_inv db" "r \<in> set (ledger_reservations db)"
    and "lrStatus r = ReservationStatusAuthorized" "caRequestRecordID p = lrRequestRecordID r" "caActualAmount p = num n"
  obtains r' e tail xs got where "0 < n" "r' \<in> set (ledger_reservations db')" "same_hold r r'"
    "lrStatus r' = ReservationStatusCaptured" "check_ledger_reservation r'" "lrCapturedAmount r' = min n (lrAuthorizedAmount r)"
    "capture_linked [e] r'" "leIdempotencyKey e = caIdempotencyKey p"
    "ledger_entries db' = ledger_entries db @ e # tail" "billing_exceptions db' = billing_exceptions db @ xs"
    "if 0 < got then \<exists>e. tail = [e] \<and> overage_entry p r got e else tail = []"
    "if lrAuthorizedAmount r + got < n then \<exists>ex. xs = [ex] \<and> write_off r (units n) got ex else xs = []"
    "0 \<le> got" "got = (if n \<le> lrAuthorizedAmount r then 0
       else max (min (fst (account db (res_key r)) - snd (account db (res_key r))) (n - lrAuthorizedAmount r)) 0)"
    "account db' = (account db)(res_key r := (fst (account db (res_key r)) - (min n (lrAuthorizedAmount r) + got),
       snd (account db (res_key r)) - lrAuthorizedAmount r))"
    "rv = (reservationFromSQLC r')\<lparr>rvOverageCapturedAmount := if n \<le> lrAuthorizedAmount r then numericZero else num got\<rparr>"
  using assms(1,2)
proof (cases rule: captureWithQueries_inv)
  case (replay q)
  then show ?thesis using same_request_reservation [OF assms(2,3), of q] assms(4,5) by simp
next
  case (captured q r' e db3 x)
  then have q: "q = r" using same_request_reservation [OF assms(2,3), of q] assms(5) by (simp add: captured_def settled_row_def)
  have x: "x = units n" "0 < n" using captured(2,3) assms(6) by (auto simp: units_def)
  have row: "settled_row db db3 r r'" "lrStatus r' = ReservationStatusCaptured" "capture_linked [e] r'"
    "ledger_entries db3 = ledger_entries db @ [e]" "billing_exceptions db3 = billing_exceptions db"
    using captured(4) by (simp_all add: q captured_def settled_row_def)
  have cap: "lrCapturedAmount r' = min n (lrAuthorizedAmount r)" using captured(6) by (simp add: q x min_def)
  have acc3: "account db3 = (account db)(res_key r := (fst (account db (res_key r)) - min n (lrAuthorizedAmount r),
      snd (account db (res_key r)) - lrAuthorizedAmount r))"
    using captured(4) row(2) cap by (auto simp: q captured_def capture_linked_def)
  have chk: "check_ledger_reservation r'" "same_hold r r'" using row(1) by (simp_all add: settled_row_def)
  have mem: "r' \<in> set (ledger_reservations db3)" by (rule settled_row_member [OF row(1)])
  show ?thesis
  proof (cases "lrAuthorizedAmount r < n")
    case True
    then obtain got where rv: "rv = (reservationFromSQLC r')\<lparr>rvOverageCapturedAmount := num got\<rparr>"
      and over: "overage_taken p r (units n) got db3 db'" using captured(7) by (auto simp: q x)
    have acc3': "fst (account db3 (res_key r)) - snd (account db3 (res_key r)) =
        fst (account db (res_key r)) - snd (account db (res_key r))" using True by (simp add: acc3)
    from over obtain tail xs where o: "ledger_entries db' = ledger_entries db3 @ tail" "billing_exceptions db' = billing_exceptions db3 @ xs"
      "if 0 < got then \<exists>e. tail = [e] \<and> overage_entry p r got e else tail = []"
      "if lrAuthorizedAmount r + got < n then \<exists>ex. xs = [ex] \<and> write_off r (units n) got ex else xs = []"
      "got = max (min (fst (account db3 (res_key r)) - snd (account db3 (res_key r))) (n - lrAuthorizedAmount r)) 0"
      "account db' = (account db3)(res_key r := (fst (account db3 (res_key r)) - got, snd (account db3 (res_key r))))"
      by (rule overage_rows)
    have f1: "got = (if n \<le> lrAuthorizedAmount r then 0
       else max (min (fst (account db (res_key r)) - snd (account db (res_key r))) (n - lrAuthorizedAmount r)) 0)"
      using o(5) True unfolding acc3' by simp
    have f2: "account db' = (account db)(res_key r := (fst (account db (res_key r)) - (min n (lrAuthorizedAmount r) + got),
       snd (account db (res_key r)) - lrAuthorizedAmount r))" unfolding o(6) acc3 by (simp add: diff_diff_eq)
    have f3: "rv = (reservationFromSQLC r')\<lparr>rvOverageCapturedAmount := if n \<le> lrAuthorizedAmount r then numericZero else num got\<rparr>"
      using True rv by simp
    have "ledger_reservations db' = ledger_reservations db3"
      using over by (auto simp: overage_taken_def posted_def idle_def same_tables_def exception_added_def split: if_splits)
    then have f4: "r' \<in> set (ledger_reservations db')" using mem by simp
    have f5: "0 \<le> got" unfolding o(5) by simp
    have f6: "ledger_entries db' = ledger_entries db @ e # tail" "billing_exceptions db' = billing_exceptions db @ xs"
      using o(1,2) row(4,5) by simp_all
    show ?thesis by (rule that; fact x row cap chk captured(5) o(3,4) f1 f2 f3 f4 f5 f6)
  next
    case False
    then have "db' = db3" "rv = (reservationFromSQLC r')\<lparr>rvOverageCapturedAmount := numericZero\<rparr>"
      using captured(7) by (simp_all add: q x not_less)
    with False show ?thesis using x row cap chk mem captured(5) acc3 by (intro that [of r' e "[]" "[]" 0]) simp_all
  qed
qed

lemma no_exception_of_hold:
  "ledger_inv db \<Longrightarrow> r \<in> set (ledger_reservations db) \<Longrightarrow> lrStatus r = ReservationStatusAuthorized \<Longrightarrow>
    x \<in> set (billing_exceptions db) \<Longrightarrow> beReservationID x \<noteq> lrID r"
proof
  assume a: "ledger_inv db" "r \<in> set (ledger_reservations db)" "lrStatus r = ReservationStatusAuthorized"
    "x \<in> set (billing_exceptions db)" "beReservationID x = lrID r"
  then obtain q where q: "q \<in> set (ledger_reservations db)" "lrID q = lrID r" "lrStatus q \<noteq> ReservationStatusAuthorized"
    by (fastforce simp: inv_parts exception_linked_def)
  moreover from a(1) have "distinct (map lrID (ledger_reservations db))" by (simp add: inv_parts)
  ultimately have "q = r" using a(2) by (auto simp: distinct_map inj_on_def)
  with q(3) a(3) show False by simp
qed

lemma find_none: "\<forall>x \<in> set xs. key x \<noteq> k \<Longrightarrow> find (\<lambda>x. key x = k) (xs @ ys) = find (\<lambda>x. key x = k) ys"
  by (induction xs) auto

lemma chat_numerics [simp]:
  "chatSettlementCompareNumeric (num a) (num b) = Some (units a, units b)"
  "chatSettlementNumericGreaterThan (num a) (num b) \<longleftrightarrow> b < a"
  "chatSettlementNumericGreaterThan (num a) chatSettlementNumericZero \<longleftrightarrow> 0 < a"
  "chatSettlementMinNumeric (num a) (num b) = num (min a b)"
  "chatSettlementNumericDiffMatches (num v) (num a) (num b) \<longleftrightarrow> v = a - b"
  "chatSettlementAddNumeric (num a) (num b) = num (a + b)"
  "chatSettlementAddNumeric (num a) chatSettlementNumericZero = num a"
  by (auto simp: chatSettlementCompareNumeric_def chatSettlementNumericGreaterThan_def chatSettlementMinNumeric_def
      chatSettlementNumericDiffMatches_def chatSettlementAddNumeric_def chatSettlementNumericZero_def numericFinite_iff
      chatSettlementNumericRat_def [of "mkNumeric 0 0"] min_def)

lemma write_off_matches:
  assumes "\<And>msg. \<not> fault env msg" "billing_exceptions db' = old @ xs" "\<And>x. x \<in> set old \<Longrightarrow> beReservationID x \<noteq> lrID r'"
    and "same_hold r r'" "chatSettlementAddNumeric (num c) over = num tot" "n \<le> lrAuthorizedAmount r \<Longrightarrow> got = 0"
    and "tot = min n (lrAuthorizedAmount r) + got"
    and "if lrAuthorizedAmount r + got < n then \<exists>ex. xs = [ex] \<and> write_off r (units n) got ex else xs = []"
  shows "ensureSettlementWriteOffMatches env db' r' (num n) (num c) over = Inr ()"
proof -
  have hold: "lrID r' = lrID r" "lrUserID r' = lrUserID r" "lrCurrency r' = lrCurrency r"
    "lrRequestRecordID r' = lrRequestRecordID r" using assms(4) by (simp_all add: same_hold_def)
  have find: "find (\<lambda>x. beReservationID x = lrID r) (billing_exceptions db') = find (\<lambda>x. beReservationID x = lrID r) xs"
    unfolding assms(2) by (rule find_none) (use assms(3) hold(1) in auto)
  have call: "store_call env msg (GetLedgerBillingExceptionByReservationID db' (lrID r)) =
      one_row (find (\<lambda>x. beReservationID x = lrID r) xs)" for msg
    by (simp add: store_call_def assms(1) GetLedgerBillingExceptionByReservationID_def find)
  show ?thesis
  proof (cases "lrAuthorizedAmount r + got < n")
    case True
    then obtain ex where ex: "xs = [ex]" "write_off r (units n) got ex" using assms(8) by auto
    have tot: "tot = lrAuthorizedAmount r + got" using True assms(6,7) by (cases "n \<le> lrAuthorizedAmount r") auto
    have row: "beReservationID ex = lrID r" "beUserID ex = lrUserID r" "beCurrency ex = lrCurrency r"
      "beRequestRecordID ex = lrRequestRecordID r" "beEventType ex = BillingExceptionEventTypeWriteOff"
      "beActualAmount ex = Some n" "beCapturedAmount ex = tot" "bePlatformAmount ex = n - tot"
      using ex(2) by (simp_all add: write_off_def tot flip: of_int_diff)
    show ?thesis using True
      by (simp add: ensureSettlementWriteOffMatches_def hold call assms(5) Let_def one_row_def ex(1) row nullable_def tot)
  next
    case False
    then have "\<not> tot < n" "xs = []" using assms(6,7,8) by (auto simp: min_def)
    then show ?thesis
      by (simp add: ensureSettlementWriteOffMatches_def hold call assms(5) Let_def one_row_def)
  qed
qed

lemma captured_matches:
  assumes "captureWithQueries env db p = Inr (rv, db')" "ledger_inv db" "r \<in> set (ledger_reservations db)"
    and "lrStatus r = ReservationStatusAuthorized" "caRequestRecordID p = lrRequestRecordID r" "caActualAmount p = num n"
    and "caIdempotencyKey p = settle_key (lrRequestRecordID r)"
    and "\<And>e. e \<in> set (ledger_entries db) \<Longrightarrow> leIdempotencyKey e \<notin>
      {settle_key (lrRequestRecordID r), settlementOverageIdempotencyKey (lrRequestRecordID r)}" "\<And>msg. \<not> fault env' msg"
  obtains r' where "GetLedgerReservationByRequestRecordID db' (lrRequestRecordID r) = Inr r'" "same_hold r r'"
    "ensureSettlementCapturedReservationMatches env' db' r' (num n) = Inr ()"
proof -
  let ?i = "lrRequestRecordID r"
  obtain r' e tail xs got where c: "0 < n" "r' \<in> set (ledger_reservations db')" "same_hold r r'"
    "lrStatus r' = ReservationStatusCaptured" "check_ledger_reservation r'" "lrCapturedAmount r' = min n (lrAuthorizedAmount r)"
    "capture_linked [e] r'" "leIdempotencyKey e = caIdempotencyKey p"
    "ledger_entries db' = ledger_entries db @ e # tail" "billing_exceptions db' = billing_exceptions db @ xs"
    "if 0 < got then \<exists>e. tail = [e] \<and> overage_entry p r got e else tail = []"
    "if lrAuthorizedAmount r + got < n then \<exists>ex. xs = [ex] \<and> write_off r (units n) got ex else xs = []"
    "0 \<le> got" "got = (if n \<le> lrAuthorizedAmount r then 0
       else max (min (fst (account db (res_key r)) - snd (account db (res_key r))) (n - lrAuthorizedAmount r)) 0)"
    "account db' = (account db)(res_key r := (fst (account db (res_key r)) - (min n (lrAuthorizedAmount r) + got),
       snd (account db (res_key r)) - lrAuthorizedAmount r))"
    "rv = (reservationFromSQLC r')\<lparr>rvOverageCapturedAmount := if n \<le> lrAuthorizedAmount r then numericZero else num got\<rparr>"
    by (rule capture_rows [OF assms(1-6)])
  have inv': "ledger_inv db'" by (rule captureWithQueries_keeps [OF assms(1,2)])
  have lookup: "GetLedgerReservationByRequestRecordID db' ?i = Inr r'"
    using hold_row_found [OF inv' c(2)] c(3) by (simp add: same_hold_def)
  have hold: "lrID r' = lrID r" "lrRequestRecordID r' = ?i" "lrUserID r' = lrUserID r" "lrCurrency r' = lrCurrency r"
    "lrAuthorizedAmount r' = lrAuthorizedAmount r" using c(3) by (simp_all add: same_hold_def)
  have linked: "lrCaptureLedgerEntryID r' = Some (leID e)" "leAmount e = lrCapturedAmount r'" "entry_key e = res_key r'"
    "leRequestRecordID e = Some ?i" "leEntryType e = EntryTypeDebit"
    using c(4,7) by (auto simp: capture_linked_def hold)
  have released: "lrReleasedAmount r' = lrAuthorizedAmount r - min n (lrAuthorizedAmount r)"
    using c(4,5,6) hold by (auto simp: check_ledger_reservation_def)
  have new: "find (\<lambda>e. leIdempotencyKey e = k) (ledger_entries db') = find (\<lambda>e. leIdempotencyKey e = k) (e # tail)"
    if "k \<in> {settle_key ?i, settlementOverageIdempotencyKey ?i}" for k
    unfolding c(9) by (rule find_none) (use assms(8) that in blast)
  have entry: "GetLedgerEntryByIdempotencyKey db' (settle_key ?i) = Inr e"
    using new [of "settle_key ?i"] c(8) assms(7) by (simp add: GetLedgerEntryByIdempotencyKey_def)
  have over: "GetLedgerEntryByIdempotencyKey db' (settlementOverageIdempotencyKey ?i) =
      (case tail of [] \<Rightarrow> Inl ErrNoRows | o1 # _ \<Rightarrow> Inr o1)"
    using new [of "settlementOverageIdempotencyKey ?i"] c(8,11) assms(7)
    by (auto simp: GetLedgerEntryByIdempotencyKey_def settlementOverageIdempotencyKey_def overage_entry_def
        overageIdempotencyKey_def split: if_splits)
  have off: "ensureSettlementWriteOffMatches env' db' r' (num n) (num (min n (lrAuthorizedAmount r))) v = Inr ()"
    if "chatSettlementAddNumeric (num (min n (lrAuthorizedAmount r))) v = num (min n (lrAuthorizedAmount r) + got)" for v
    by (rule write_off_matches [OF assms(9) c(10) _ c(3) that, where got = got])
       (use no_exception_of_hold [OF assms(2-4)] hold(1) c(12,14) in \<open>simp_all split: if_splits\<close>)
  have "ensureSettlementCapturedReservationMatches env' db' r' (num n) = Inr ()"
  proof (cases "0 < got")
    case True
    then obtain o1 where o1: "tail = [o1]" "overage_entry p r got o1" using c(11) by auto
    with True off [of "num got"] show ?thesis
      using c(4,6) released linked hold entry over assms(5)
      by (simp add: ensureSettlementCapturedReservationMatches_def rbind_Inr_iff store_call_def assms(9) Let_def overage_entry_def
          entry_key_def)
  next
    case False
    then have "tail = []" "got = 0" using c(11,13) by simp_all
    with off [of chatSettlementNumericZero] show ?thesis
      using c(4,6) released linked hold entry over
      by (simp add: ensureSettlementCapturedReservationMatches_def rbind_Inr_iff store_call_def assms(9) Let_def entry_key_def)
  qed
  with lookup c(3) show thesis by (rule that)
qed

lemma add_spent_keys: "AddAPIKeySpentTotal now db amount i = Inr db' \<Longrightarrow> \<exists>ks. db' = db\<lparr>api_keys := ks\<rparr>"
  by (auto simp: AddAPIKeySpentTotal_def rbind_Inr_iff split: option.splits if_splits intro: exI [of _ "api_keys db"])

lemma add_spent_ledger: "AddAPIKeySpentTotal now db amount i = Inr db' \<Longrightarrow> customer_ledger db' = customer_ledger db"
  by (drule add_spent_keys) auto

lemma settle_customer_wrote:
  assumes "settle_customer env db params charge = Inr db'"
  obtains (free) rv l where "settlement_numericIsZero (chAmount charge)"
      "releaseWithQueries (env.truncate env) (ledger_view db) \<lparr>rlRequestRecordID = lqID (spRequestRecord params),
         rlReservationID = Some (auReservationID (spAuthorization params))\<rparr> = Inr (rv, l)"
      "db' = db\<lparr>customer_ledger := l\<rparr>"
  | (charged) rv l ks where "\<not> settlement_numericIsZero (chAmount charge)"
      "captureWithQueries (env.truncate env) (ledger_view db) \<lparr>caRequestRecordID = lqID (spRequestRecord params),
         caReservationID = Some (auReservationID (spAuthorization params)), caActualAmount = chAmount charge,
         caIdempotencyKey = settle_key (lqID (spRequestRecord params)), caReason = ''chat completion settlement''\<rparr> = Inr (rv, l)"
      "db' = db\<lparr>customer_ledger := l, api_keys := ks\<rparr>"
proof (cases "settlement_numericIsZero (chAmount charge)")
  case True
  with assms free show thesis
    by (auto simp: settle_customer_def Let_def rbind_Inr_iff on_ledger_Inr ReleaseWithQueries_def)
next
  case False
  with assms obtain rv l db2 where c: "captureWithQueries (env.truncate env) (ledger_view db) \<lparr>caRequestRecordID = lqID (spRequestRecord params),
         caReservationID = Some (auReservationID (spAuthorization params)), caActualAmount = chAmount charge,
         caIdempotencyKey = settle_key (lqID (spRequestRecord params)), caReason = ''chat completion settlement''\<rparr> = Inr (rv, l)"
    "AddAPIKeySpentTotal (clock env) (db\<lparr>customer_ledger := l\<rparr>) (rvCapturedAmount rv) (lqAPIKeyID (spRequestRecord params)) = Inr db2"
    "db' = db2 \<or> AddAPIKeySpentTotal (clock env) db2 (rvOverageCapturedAmount rv) (lqAPIKeyID (spRequestRecord params)) = Inr db'"
    by (auto simp: settle_customer_def Let_def rbind_Inr_iff on_ledger_Inr CaptureWithQueries_def store_call_Inr split: if_splits)
  obtain ks where "db2 = db\<lparr>customer_ledger := l, api_keys := ks\<rparr>" using add_spent_keys [OF c(2)] by auto
  with c(3) obtain ks' where "db' = db\<lparr>customer_ledger := l, api_keys := ks'\<rparr>" using add_spent_keys by fastforce
  with False c(1) show thesis by (rule charged)
qed

subsection \<open>The whole settlement\<close>

definition spent_total :: "settle_db \<Rightarrow> int \<Rightarrow> int option" where
  "spent_total db k = map_option akSpentTotal (find (\<lambda>x. akID x = k) (api_keys db))"

text \<open>
  The parameters are those of a request the gateway is serving: the log's rows are running and are the ones the parameters
  name, the hold is authorized as they say, and nothing has been booked for the request yet.
\<close>

definition own_log :: "settle_db \<Rightarrow> ChatSettlementParams \<Rightarrow> RequestRecord \<Rightarrow> RequestAttempt \<Rightarrow> bool" where
  "own_log db params req a \<longleftrightarrow>
     request_of db (lqID (spRequestRecord params)) = Some req \<and> rrStatus req = RequestStatusRunning \<and>
     rrUserID req = lqUserID (spRequestRecord params) \<and> rrApiKeyID req = lqAPIKeyID (spRequestRecord params) \<and>
     rrErrorMessage req = None \<and> rrInternalErrorDetail req = None \<and>
     attempt_of db (ltID (spAttemptRecord params)) = Some a \<and> raStatus a = AttemptStatusRunning \<and>
     raRequestRecordID a = lqID (spRequestRecord params) \<and> raProviderID a = spFinalProviderID params \<and>
     raChannelID a = spFinalChannelID params \<and> raAdapterKey a = ltAdapterKey (spAttemptRecord params) \<and>
     raUpstreamModel a = ltUpstreamModel (spAttemptRecord params) \<and>
     raUpstreamProtocol a = rfUpstreamProtocol (spFacts params) \<and> raErrorMessage a = None \<and> raInternalErrorDetail a = None"

definition own_hold :: "settle_db \<Rightarrow> ChatSettlementParams \<Rightarrow> LedgerReservation \<Rightarrow> bool" where
  "own_hold db params hold \<longleftrightarrow>
     hold \<in> set (ledger_reservations (customer_ledger db)) \<and> lrStatus hold = ReservationStatusAuthorized \<and>
     lrRequestRecordID hold = lqID (spRequestRecord params) \<and> lrID hold = auReservationID (spAuthorization params) \<and>
     lrUserID hold = lqUserID (spRequestRecord params) \<and> lrCurrency hold = auCurrency (spAuthorization params) \<and>
     auEstimatedAmount (spAuthorization params) = num (lrEstimatedAmount hold) \<and>
     auAuthorizedAmount (spAuthorization params) = num (lrAuthorizedAmount hold) \<and>
     (\<forall>e \<in> set (ledger_entries (customer_ledger db)).
        leRequestRecordID e \<noteq> Some (lrRequestRecordID hold) \<and>
        leIdempotencyKey e \<notin> {settle_key (lrRequestRecordID hold), settlementOverageIdempotencyKey (lrRequestRecordID hold)})"

lemma settlement_committed:
  assumes "SettleSuccessfulChat svc env now db params = (Inr (), db')" "request_of db (lqID (spRequestRecord params)) = Some req"
    and "rrStatus req = RequestStatusRunning"
  shows "ValidateChatSettlementFacts params = Inr ()" "settle_running svc env now db params = Inr db'"
  using assms(1) unfolding SettleSuccessfulChat_def settle_tx_def
  by (auto simp: faultInjectSettlementAlways_def GetRequestRecordForUpdate_def one_row_def assms(2,3) failing_def store_call_def
      rbind_Inr_iff split: if_splits sum.splits commit_outcome.splits option.splits elim!: rbind_InrE)

lemma settle_running_wrote:
  assumes "settle_running svc env now db params = Inr db'" "own_log db params req a" "positive_prices (price_tables db)"
  obtains s c charge pc db5 db6 ledger where
    "request_records db' = map (\<lambda>y. if rrID y = rrID req then settled_request (clock env) now params req else y) (request_records db)"
    "request_attempts db' = map (\<lambda>y. if raID y = raID a then settled_attempt now params a else y) (request_attempts db)"
    "usage_records db' = usage_records db @ [usage_row (clock env) (usage_record_seq db) params]"
    "usage_line_items db' = usage_line_items db @
       line_rows (clock env) (usage_line_item_seq db) (usage_record_seq db) (ServerToolUsage (rfUsage (spFacts params)))"
    "lqID (spRequestRecord params) \<notin> urRequestRecordID ` set (usage_records db)"
    "price_snapshots db' = price_snapshots db @ [s]" "psRequestRecordID s = lqID (spRequestRecord params)"
    "lqID (spRequestRecord params) \<notin> psRequestRecordID ` set (price_snapshots db)"
    "CalculateCustomerCharge (rfUsage (spFacts params)) (snapshot_price s) = Inr charge"
    "cost_snapshots db' = cost_snapshots db @ [c]" "ctRequestRecordID c = lqID (spRequestRecord params)"
    "lqID (spRequestRecord params) \<notin> ctRequestRecordID ` set (cost_snapshots db)"
    "CalculateProviderCost (rfUsage (spFacts params)) (snapshot_cost c) = Inr pc"
    "ensureSettlementCostSnapshotMatches c params pc = Inr ()"
    "customer_ledger db' = ledger" "customer_ledger db6 = ledger" "settle_customer env db5 params charge = Inr db6"
    "ledger_view db5 = ledger_view db" "rq_users db' = rq_users db"
    "spent_total db5 = spent_total db" "spent_total db' = spent_total db6" "quoted params s"
proof -
  obtain x db1 db2 cost charge applied db3 pc c db4 db5 db6 r where
    steps: "settle_attempt env now db params (snd (chatSettlementFinalStatuses params)) = Inr (x, db1)"
      "settle_usage env db1 params = Inr db2"
      "resolveSettlementCost env (price_tables db2) (spFinalChannelID params) (spModelDBID params)
         (settlement_pins params) (ltStartedAt (spAttemptRecord params)) = Inr cost"
      "settle_price env db2 params cost = Inr ((charge, applied), db3)"
      "settle_cost env db3 params cost applied = Inr ((pc, c), db4)"
      "settle_provider svc env db4 params pc c = Inr db5"
      "settle_customer env db5 params charge = Inr db6"
      "settle_request env now db6 params (fst (chatSettlementFinalStatuses params)) = Inr (r, db')"
    using assms(1) unfolding settle_running_def
    by (elim rbind_InrE pair_caseE nested_pair_caseE) (simp only: sum.inject failing_Inr)
  note own = assms(2) [unfolded own_log_def]
  have db1: "db1 = db\<lparr>request_attempts := map (\<lambda>y. if raID y = raID a then settled_attempt now params a else y) (request_attempts db)\<rparr>"
    by (rule settle_attempt_wrote [OF steps(1)]) (use own in blast)+
  note db2 = settle_usage_wrote [OF steps(2)]
  have "price_tables db2 = price_tables db" by (simp add: db2(1) db1)
  then have src: "sourced cost" using resolved_sourced [OF assms(3)] steps(3) by simp
  obtain s where s: "psRequestRecordID s = lqID (spRequestRecord params)"
    "CalculateCustomerCharge (rfUsage (spFacts params)) (snapshot_price s) = Inr charge"
    "lqID (spRequestRecord params) \<notin> psRequestRecordID ` set (price_snapshots db2)"
    "db3 = db2\<lparr>price_snapshots := price_snapshots db2 @ [s], price_snapshot_seq := price_snapshot_seq db2 + 1\<rparr>" "quoted params s"
    by (rule settle_price_wrote [OF steps(4)])
  note c = settle_cost_wrote [OF steps(5) src]
  obtain p where p: "db5 = db4\<lparr>provider_ledger := p\<rparr>" by (rule settle_provider_wrote [OF steps(6)])
  obtain l ks where l: "db6 = db5\<lparr>customer_ledger := l, api_keys := ks\<rparr>"
    using steps(7)
  proof (cases rule: settle_customer_wrote)
    case (free rv l)
    then show thesis by (intro that [where l = l and ks = "api_keys db5"]) simp
  next
    case (charged rv l ks)
    then show thesis using that by blast
  qed
  have req6: "request_of db6 (lqID (spRequestRecord params)) = Some req"
    using own by (simp add: request_of_def l p c(5) s(4) db2(1) db1)
  have db': "db' = db6\<lparr>request_records := map (\<lambda>y. if rrID y = rrID req then settled_request (clock env) now params req else y)
      (request_records db6)\<rparr>"
    by (rule settle_request_wrote [OF steps(8) req6]) (use own in blast)
  have "ledger_view db5 = ledger_view db" by (rule ledger_view_cong) (simp_all add: p c(5) s(4) db2(1) db1)
  then show thesis
    using db2(2) s(1-3,5) c(1-4) steps(7)
    by (intro that [of s charge c pc l db6 db5]) (simp_all add: spent_total_def fun_eq_iff db' l p c(5) s(4) db2(1) db1)
qed

subsection \<open>The checks of a repeated settlement\<close>

lemma final_statuses_valid:
  assumes "ValidateChatSettlementFacts params = Inr ()"
  shows "fst (chatSettlementFinalStatuses params) \<in> set terminal_statuses"
    "snd (chatSettlementFinalStatuses params) \<in> set terminal_statuses" "Facts_Valid (rfUsage (spFacts params))"
  using assms by (auto simp: ValidateChatSettlementFacts_def Let_def validSettlementRequestFinalStatus_def
      validSettlementAttemptFinalStatus_def terminal_statuses_def split: if_splits prod.splits)

text \<open>Error facts are given exactly when a final status is not success.\<close>

lemma error_facts_valid:
  assumes "ValidateChatSettlementFacts params = Inr ()"
    and "fst (chatSettlementFinalStatuses params) = RequestStatusSucceeded \<longleftrightarrow>
      snd (chatSettlementFinalStatuses params) = AttemptStatusSucceeded"
  shows "if fst (chatSettlementFinalStatuses params) = RequestStatusSucceeded
    then spErrorCode params = '''' \<and> spErrorMessage params = '''' \<and> spInternalErrorDetail params = ''''
    else spErrorCode params \<noteq> '''' \<and> spErrorMessage params \<noteq> ''''"
  using assms by (auto simp: ValidateChatSettlementFacts_def Let_def split: if_splits prod.splits)

lemma settled_request_agrees:
  assumes "own_log db params req a" "request_ok req" "ValidateChatSettlementFacts params = Inr ()"
    and "fst (chatSettlementFinalStatuses params) = RequestStatusSucceeded \<longleftrightarrow>
      snd (chatSettlementFinalStatuses params) = AttemptStatusSucceeded"
  shows "ensureSettlementRequestMatches (settled_request t now params req) params = Inr ()"
proof -
  have "rrID req = lqID (spRequestRecord params)" using assms(1) find_key_Some by (fastforce simp: own_log_def request_of_def)
  then show ?thesis
    using assms(1,2) error_facts_valid [OF assms(3,4)]
    by (auto simp: ensureSettlementRequestMatches_def rbind_Inr_iff settled_request_def Let_def set_outcome_def
        set_request_error_def own_log_def request_ok_def failed_statuses_def error_facts_def nullableText_def
        settlementTextMatches_def requiredTextMatches_def requiredInt8Matches_def split: if_splits)
qed

lemma settled_attempt_agrees:
  assumes "own_log db params req a" "attempt_ok a" "ValidateChatSettlementFacts params = Inr ()"
    and "fst (chatSettlementFinalStatuses params) = RequestStatusSucceeded \<longleftrightarrow>
      snd (chatSettlementFinalStatuses params) = AttemptStatusSucceeded"
  shows "settled_attempt_matches (settled_attempt now params a) params = Inr ()"
  using assms(1,2) error_facts_valid [OF assms(3,4)] assms(4)
  by (auto simp: settled_attempt_matches_def rbind_Inr_iff settled_attempt_def Let_def set_attempt_outcome_def
      set_attempt_error_def own_log_def attempt_ok_def failed_statuses_def error_facts_def nullableText_def
      settlementTextMatches_def requiredTextMatches_def requiredInt4Matches_def optionalTextMatches_def split: if_splits option.splits)

lemma find_listed:
  "distinct (map key xs) \<Longrightarrow> r \<in> set xs \<Longrightarrow> P r \<Longrightarrow> key r = k \<Longrightarrow>
    find (\<lambda>x. key x = k) (sort_key f (filter P xs)) = Some r"
  by (rule find_distinct) (auto simp: distinct_map inj_on_def)

lemma usage_row_agrees: "ensureSettlementUsageMatches (usage_row t n params) (spFacts params) = Inr ()"
  by (simp add: ensureSettlementUsageMatches_def rbind_Inr_iff usage_row_def Let_def usage_matches_def)

lemma line_rows_sel [simp]:
  "length (line_rows t n i items) = length items" "map uiKind (line_rows t n i items) = map miKind items"
  "map (\<lambda>x. \<lparr>miKind = uiKind x, miQuantity = uiQuantity x\<rparr>) (line_rows t n i items) = items"
  "filter (\<lambda>x. uiUsageRecordID x = i) (line_rows t n i items) = line_rows t n i items"
  by (induction items arbitrary: n) simp_all

lemma line_rows_range: "x \<in> set (line_rows t n i items) \<Longrightarrow> n \<le> uiID x"
  by (induction items arbitrary: n) fastforce+

lemma line_rows_sorted: "sorted (map uiID (line_rows t n i items))"
  by (induction items arbitrary: n) (auto dest: line_rows_range)

lemma line_rows_agree:
  assumes "distinct (map miKind items)"
  shows "ensureSettlementUsageLineItemsMatch (line_rows t n i items) items = Inr ()"
proof -
  have "map_of (rev (map (\<lambda>i. (miKind i, miQuantity i)) items)) (miKind x) = Some (miQuantity x)" if "x \<in> set items" for x
    using that assms by (intro map_of_is_SomeI) (auto simp: comp_def rev_map [symmetric])
  moreover have "\<exists>y \<in> set items. uiKind x = miKind y \<and> uiQuantity x = miQuantity y" if "x \<in> set (line_rows t n i items)" for x
    using that by (induction items arbitrary: n) auto
  ultimately show ?thesis
    by (fastforce simp: ensureSettlementUsageLineItemsMatch_def rbind_Inr_iff Let_def list_all_iff)
qed

lemma facts_from_rows: "settlementUsageFactsFromRecord (usage_row t n params)
    (line_rows t' m n (ServerToolUsage (rfUsage (spFacts params)))) = rfUsage (spFacts params)"
  by (simp add: settlementUsageFactsFromRecord_def usage_row_def Let_def)

lemma line_rows_listed:
  assumes "snapshots_wf db" "usage_line_items db' = usage_line_items db @ line_rows t m (usage_record_seq db) items"
  shows "ListUsageLineItemsByUsageRecord db' (usage_record_seq db) = line_rows t m (usage_record_seq db) items"
proof -
  have "uiUsageRecordID x \<noteq> usage_record_seq db" if "x \<in> set (usage_line_items db)" for x
    using assms(1) that by (fastforce simp: snapshots_wf_def)
  then have "filter (\<lambda>x. uiUsageRecordID x = usage_record_seq db) (usage_line_items db) = []"
    by (simp add: filter_empty_conv)
  then show ?thesis
    by (simp add: ListUsageLineItemsByUsageRecord_def assms(2) sort_key_id_if_sorted line_rows_sorted)
qed

lemma charge_units: "CalculateCustomerCharge f p = Inr charge \<Longrightarrow> \<exists>n. chAmount charge = num n"
  by (auto simp: CalculateCustomerCharge_def rbind_Inr_iff Let_def ratToNumeric_10 amountDecimalScale_def)

lemma settle_customer_agrees:
  assumes "settle_customer env db5 params charge = Inr db6" "ledger_view db5 = ledger_view db" "settle_inv db"
    and "own_hold db params hold" "chAmount charge = num n" "\<And>msg. \<not> fault env' msg"
  obtains r' where "GetLedgerReservationByRequestRecordID (customer_ledger db6) (lqID (spRequestRecord params)) = Inr r'"
    "same_hold hold r'" "outside_kept (ledger_view db) (customer_ledger db6)"
    "(if settlement_numericIsZero (chAmount charge) then ensureSettlementReleasedReservationMatches env' (customer_ledger db6) r'
      else ensureSettlementCapturedReservationMatches env' (customer_ledger db6) r' (chAmount charge)) = Inr ()"
proof -
  have inv: "ledger_inv (ledger_view db)" using assms(3) by (simp add: settle_inv_def)
  note own = assms(4) [unfolded own_hold_def]
  have mem: "hold \<in> set (ledger_reservations (ledger_view db))" using own by simp
  from assms(1) show thesis
  proof (cases rule: settle_customer_wrote)
    case (free rv l)
    from free(2) have run: "releaseWithQueries (env.truncate env) (ledger_view db) \<lparr>rlRequestRecordID = lqID (spRequestRecord params),
         rlReservationID = Some (auReservationID (spAuthorization params))\<rparr> = Inr (rv, l)" by (simp add: assms(2))
    obtain r' where "GetLedgerReservationByRequestRecordID l (lrRequestRecordID hold) = Inr r'" "same_hold hold r'"
      "ensureSettlementReleasedReservationMatches env' l r' = Inr ()"
      by (rule released_matches [OF run inv mem]) (use own assms(6) in auto)
    then show thesis using free(1,3) own release_outside [OF run inv] by (intro that) simp_all
  next
    case (charged rv l ks)
    from charged(2) have run: "captureWithQueries (env.truncate env) (ledger_view db) \<lparr>caRequestRecordID = lqID (spRequestRecord params),
         caReservationID = Some (auReservationID (spAuthorization params)), caActualAmount = chAmount charge,
         caIdempotencyKey = settle_key (lqID (spRequestRecord params)), caReason = ''chat completion settlement''\<rparr> = Inr (rv, l)"
      by (simp add: assms(2))
    obtain r' where "GetLedgerReservationByRequestRecordID l (lrRequestRecordID hold) = Inr r'" "same_hold hold r'"
      "ensureSettlementCapturedReservationMatches env' l r' (num n) = Inr ()"
      by (rule captured_matches [OF run inv mem]) (use own assms(5,6) in auto)
    then show thesis using charged(1,3) own assms(5) capture_outside [OF run inv] by (intro that) simp_all
  qed
qed

lemma appended_row_found: "k \<notin> key ` set xs \<Longrightarrow> key x = k \<Longrightarrow> one_row (find (\<lambda>x. key x = k) (xs @ [x])) = Inr x"
  by (induction xs) (auto simp: one_row_def)

lemma failing_ok: "failing f (Inr x) = Inr x"
  by (simp add: failing_def)

lemma no_fault_call: "(\<And>msg. \<not> fault env msg) \<Longrightarrow> store_call env msg r = r"
  by (simp add: store_call_def)

lemma settled_log_agrees:
  assumes "settle_inv db" "own_log db params req a" "ValidateChatSettlementFacts params = Inr ()"
    and "fst (chatSettlementFinalStatuses params) = RequestStatusSucceeded \<longleftrightarrow>
      snd (chatSettlementFinalStatuses params) = AttemptStatusSucceeded" "\<And>msg. \<not> fault env' msg"
    and "request_records db' = map (\<lambda>y. if rrID y = rrID req then settled_request t now params req else y) (request_records db)"
    and "request_attempts db' = map (\<lambda>y. if raID y = raID a then settled_attempt now params a else y) (request_attempts db)"
  shows "request_of db' (lqID (spRequestRecord params)) = Some (settled_request t now params req)"
    "ensureSettlementRequestMatches (settled_request t now params req) params = Inr ()"
    "ensureSettlementAttemptMatches env' db' params = Inr ()"
proof -
  have mem: "req \<in> set (request_records db)" "rrID req = lqID (spRequestRecord params)" "a \<in> set (request_attempts db)"
    "raID a = ltID (spAttemptRecord params)"
    using assms(2) find_key_Some by (fastforce simp: own_log_def request_of_def attempt_of_def)+
  have inv: "distinct (map rrID (request_records db))" "distinct (map raID (request_attempts db))" "request_ok req" "attempt_ok a"
    using assms(1) mem(1,3) by (simp_all add: settle_inv_def log_inv_def requests_wf_def attempts_wf_def)
  have "distinct (map rrID (request_records db'))" "distinct (map raID (request_attempts db'))"
    using inv(1,2) by (simp_all add: assms(6,7) map_key_update [of rrID] map_key_update [of raID] del: map_map)
  moreover have "settled_request t now params req \<in> set (request_records db')" "settled_attempt now params a \<in> set (request_attempts db')"
    using mem by (auto simp: assms(6,7) intro!: image_eqI [of _ _ req] image_eqI [of _ _ a])
  ultimately show "request_of db' (lqID (spRequestRecord params)) = Some (settled_request t now params req)"
    "ensureSettlementAttemptMatches env' db' params = Inr ()"
    using mem(2,4) assms(2) settled_attempt_agrees [OF assms(2) inv(4) assms(3,4)]
    by (auto simp: request_of_def ensureSettlementAttemptMatches_def rbind_Inr_iff no_fault_call [OF assms(5)]
        ListRequestAttemptsByRequest_def own_log_def find_listed [of raID] intro!: find_distinct)
  show "ensureSettlementRequestMatches (settled_request t now params req) params = Inr ()"
    by (rule settled_request_agrees [OF assms(2) inv(3) assms(3,4)])
qed

text \<open>What was settled is settled again without effect.\<close>

lemma settlement_accepted:
  assumes "settle_inv db" "settle_running svc env now db params = Inr db'" "own_log db params req a" "own_hold db params hold"
    and "positive_prices (price_tables db)" "ValidateChatSettlementFacts params = Inr ()"
    and "fst (chatSettlementFinalStatuses params) = RequestStatusSucceeded \<longleftrightarrow>
      snd (chatSettlementFinalStatuses params) = AttemptStatusSucceeded" "\<And>msg. \<not> fault env' msg"
  shows "\<exists>r. request_of db' (lqID (spRequestRecord params)) = Some r \<and> rrStatus r = fst (chatSettlementFinalStatuses params) \<and>
    ensureIdempotentChatSettlement env' db' r params = Inr ()"
proof -
  let ?i = "lqID (spRequestRecord params)" and ?r = "settled_request (clock env) now params req"
    and ?u = "usage_row (clock env) (usage_record_seq db) params"
    and ?ls = "line_rows (clock env) (usage_line_item_seq db) (usage_record_seq db) (ServerToolUsage (rfUsage (spFacts params)))"
  obtain s c charge pc db5 db6 ledger where rows:
    "request_records db' = map (\<lambda>y. if rrID y = rrID req then settled_request (clock env) now params req else y) (request_records db)"
    "request_attempts db' = map (\<lambda>y. if raID y = raID a then settled_attempt now params a else y) (request_attempts db)"
    "usage_records db' = usage_records db @ [?u]" "usage_line_items db' = usage_line_items db @ ?ls"
    "?i \<notin> urRequestRecordID ` set (usage_records db)"
    "price_snapshots db' = price_snapshots db @ [s]" "psRequestRecordID s = ?i"
    "?i \<notin> psRequestRecordID ` set (price_snapshots db)"
    "CalculateCustomerCharge (rfUsage (spFacts params)) (snapshot_price s) = Inr charge"
    "cost_snapshots db' = cost_snapshots db @ [c]" "ctRequestRecordID c = ?i"
    "?i \<notin> ctRequestRecordID ` set (cost_snapshots db)"
    "CalculateProviderCost (rfUsage (spFacts params)) (snapshot_cost c) = Inr pc"
    "ensureSettlementCostSnapshotMatches c params pc = Inr ()"
    "customer_ledger db' = ledger" "customer_ledger db6 = ledger" "settle_customer env db5 params charge = Inr db6"
    "ledger_view db5 = ledger_view db" "rq_users db' = rq_users db"
    "spent_total db5 = spent_total db" "spent_total db' = spent_total db6" "quoted params s"
    by (rule settle_running_wrote [OF assms(2,3,5)])
  note log = settled_log_agrees [OF assms(1,3,6,7,8) rows(1,2)]
  obtain n where n: "chAmount charge = num n" using charge_units [OF rows(9)] by blast
  obtain h where h: "GetLedgerReservationByRequestRecordID (customer_ledger db6) ?i = Inr h" "same_hold hold h"
    "outside_kept (ledger_view db) (customer_ledger db6)"
    "(if settlement_numericIsZero (chAmount charge) then ensureSettlementReleasedReservationMatches env' (customer_ledger db6) h
      else ensureSettlementCapturedReservationMatches env' (customer_ledger db6) h (chAmount charge)) = Inr ()"
    by (rule settle_customer_agrees [OF rows(17,18) assms(1,4) n assms(8)])
  have "y = req" if "y \<in> set (request_records db)" "rrID y = rrID req" for y
    using that assms(1,3) find_key_Some [of rrID _ "request_records db" req]
    by (auto simp: own_log_def request_of_def settle_inv_def log_inv_def requests_wf_def distinct_map inj_on_def)
  then have "map (\<lambda>r. (rrID r, rrUserID r)) (request_records db') = map (\<lambda>r. (rrID r, rrUserID r)) (request_records db)"
    by (auto simp: rows(1))
  then have view: "ledger_view db' = ledger"
    using h(3) rows(15,16,19) by (simp add: ledger_view_def outside_kept_def)
  have usage: "GetUsageRecordByRequest db' ?i = Inr ?u" "ListUsageLineItemsByUsageRecord db' (urID ?u) = ?ls"
    using rows(3,5) line_rows_listed [OF _ rows(4)] assms(1)
    by (simp_all add: GetUsageRecordByRequest_def appended_row_found usage_row_def Let_def settle_inv_def)
  have price: "GetPriceSnapshotByRequest db' ?i = Inr s" and cost: "GetCostSnapshotByRequest db' ?i = Inr c"
    using rows(6-8,10-12) by (simp_all add: GetPriceSnapshotByRequest_def GetCostSnapshotByRequest_def appended_row_found)
  have lines: "ensureSettlementUsageLineItemsMatch ?ls (ServerToolUsage (rfUsage (spFacts params))) = Inr ()"
    using final_statuses_valid(3) [OF assms(6)] by (intro line_rows_agree) (simp add: Facts_Valid_iff)
  have id: "rrID ?r = ?i" using assms(3) find_key_Some by (fastforce simp: own_log_def request_of_def)
  have hold: "ensureSettlementReservationBaseMatches h ?r (spAuthorization params) = Inr ()"
    using h(2) assms(3,4) id by (simp add: ensureSettlementReservationBaseMatches_def rbind_Inr_iff same_hold_def own_hold_def own_log_def)
  have "ensureIdempotentChatSettlement env' db' ?r params = Inr ()"
    by (simp only: ensureIdempotentChatSettlement_def Let_def view id no_fault_call [OF assms(8)] log(2,3) usage price cost
      facts_from_rows usage_row_agrees lines rows(9,13,14) h(1) [unfolded rows(16)] hold h(4) [unfolded rows(16)]
      rbind_simps failing_ok)
  with log(1) show ?thesis by (intro exI [of _ ?r]) simp
qed

subsection \<open>What a settlement costs\<close>

lemma find_updated: "(\<And>x. key (f x) = key x) \<Longrightarrow>
    find (\<lambda>x. key x = k) (map (\<lambda>x. if key x = i then f x else x) xs) =
    map_option (\<lambda>x. if k = i then f x else x) (find (\<lambda>x. key x = k) xs)"
  by (induction xs) auto

lemma AddAPIKeySpentTotal_adds:
  assumes "AddAPIKeySpentTotal now db (num a) i = Inr db'"
  shows "spent_total db' = (spent_total db)(i := map_option (\<lambda>t. t + a) (spent_total db i))"
proof (cases "find (\<lambda>k. akID k = i) (api_keys db)")
  case None
  with assms show ?thesis by (simp add: AddAPIKeySpentTotal_def spent_total_def fun_eq_iff)
next
  case (Some k)
  define f where "f x = x\<lparr>akSpentTotal := akSpentTotal k + a, akUpdatedAt := now\<rparr>" for x :: ApiKey
  from assms Some have keys: "api_keys db' = map (\<lambda>x. if akID x = i then f x else x) (api_keys db)"
    by (auto simp: AddAPIKeySpentTotal_def rbind_Inr_iff f_def split: if_splits)
  have "spent_total db' j = ((spent_total db)(i := map_option (\<lambda>t. t + a) (spent_total db i))) j" for j
    unfolding spent_total_def keys
    by (subst find_updated) (cases "j = i"; cases "find (\<lambda>x. akID x = j) (api_keys db)"; simp add: f_def Some)+
  then show ?thesis by (rule ext)
qed

lemma account_room: "ledger_inv db \<Longrightarrow> snd (account db k) \<le> fst (account db k)"
  by (auto simp: ledger_inv_def balances_ok_def account_def check_user_balance_def split: option.split dest!: find_Some_iff [THEN iffD1] nth_mem)

text \<open>The exception of a write-off of what the customer did not pay.\<close>

definition written_off :: "settle_db \<Rightarrow> LedgerReservation \<Rightarrow> int \<Rightarrow> int \<Rightarrow> LedgerBillingException list \<Rightarrow> bool" where
  "written_off db hold n paid xs \<longleftrightarrow>
     (if paid < n
      then \<exists>x. xs = billing_exceptions (customer_ledger db) @ [x] \<and> beReservationID x = lrID hold \<and>
        beEventType x = BillingExceptionEventTypeWriteOff \<and> beActualAmount x = Some n \<and> beCapturedAmount x = paid \<and>
        bePlatformAmount x = n - paid
      else xs = billing_exceptions (customer_ledger db))"

text \<open>
  The customer pays the charge up to the hold and what else is available; the hold is gone, the key has spent what was paid,
  and the rest is written off.
\<close>

lemma settle_customer_money:
  assumes "settle_customer env db5 params charge = Inr db6" "ledger_view db5 = ledger_view db" "settle_inv db"
    and "own_hold db params hold" "chAmount charge = num n"
    and "account (customer_ledger db) (res_key hold) = (bal, res)" "paid = min n (lrAuthorizedAmount hold + (bal - res))"
  shows "0 \<le> n \<and> account (customer_ledger db6) = (account (customer_ledger db))(res_key hold := (bal - paid, res - lrAuthorizedAmount hold)) \<and>
    spent_total db6 = (spent_total db5)(lqAPIKeyID (spRequestRecord params) :=
      map_option (\<lambda>t. t + paid) (spent_total db5 (lqAPIKeyID (spRequestRecord params)))) \<and>
    written_off db hold n paid (billing_exceptions (customer_ledger db6))"
proof -
  let ?k = "lqAPIKeyID (spRequestRecord params)"
  have inv: "ledger_inv (ledger_view db)" using assms(3) by (simp add: settle_inv_def)
  note own = assms(4) [unfolded own_hold_def]
  have mem: "hold \<in> set (ledger_reservations (ledger_view db))" using own by simp
  have acc: "account (ledger_view db) = account (customer_ledger db)" by (simp add: account_def fun_eq_iff)
  have room: "res \<le> bal" using account_room [OF inv, of "res_key hold"] assms(6) by (simp add: acc)
  have auth: "0 < lrAuthorizedAmount hold" using inv mem by (auto simp: inv_parts check_ledger_reservation_def)
  show ?thesis
  proof (cases "settlement_numericIsZero (chAmount charge)")
    case True
    then have n: "n = 0" using assms(5) by (simp add: settlement_numericIsZero_def)
    with room auth assms(7) have paid: "paid = 0" by simp
    obtain rv l where run: "releaseWithQueries (env.truncate env) (ledger_view db) \<lparr>rlRequestRecordID = lqID (spRequestRecord params),
         rlReservationID = Some (auReservationID (spAuthorization params))\<rparr> = Inr (rv, l)" and db6: "db6 = db5\<lparr>customer_ledger := l\<rparr>"
      using assms(1,2) True by (auto simp: settle_customer_def Let_def rbind_Inr_iff on_ledger_Inr ReleaseWithQueries_def)
    from run inv have "account l = (account (customer_ledger db))(res_key hold := (bal, res - lrAuthorizedAmount hold)) \<and>
        billing_exceptions l = billing_exceptions (customer_ledger db)"
    proof (cases rule: releaseWithQueries_inv)
      case (replay q)
      then show ?thesis using same_request_reservation [OF inv mem, of q] own by simp
    next
      case (released q r')
      then have "q = hold" using same_request_reservation [OF inv mem, of q] own by (simp add: released_def settled_row_def)
      with released(2) show ?thesis using assms(6) acc by (simp add: released_def settled_row_def)
    qed
    then show ?thesis by (simp add: db6 n paid written_off_def spent_total_def fun_eq_iff option.map_comp comp_def option.map_ident)
  next
    case False
    let ?p = "\<lparr>caRequestRecordID = lqID (spRequestRecord params),
         caReservationID = Some (auReservationID (spAuthorization params)), caActualAmount = chAmount charge,
         caIdempotencyKey = settle_key (lqID (spRequestRecord params)), caReason = ''chat completion settlement''\<rparr>"
    obtain rv l db2 where run: "captureWithQueries (env.truncate env) (ledger_view db) ?p = Inr (rv, l)"
      and one: "AddAPIKeySpentTotal (clock env) (db5\<lparr>customer_ledger := l\<rparr>) (rvCapturedAmount rv) ?k = Inr db2"
      and two: "if settlement_numericIsZero (rvOverageCapturedAmount rv) then db6 = db2
        else AddAPIKeySpentTotal (clock env) db2 (rvOverageCapturedAmount rv) ?k = Inr db6"
      using assms(1,2) False
      by (auto simp: settle_customer_def Let_def rbind_Inr_iff on_ledger_Inr CaptureWithQueries_def store_call_Inr split: if_splits)
    have pre: "lrStatus hold = ReservationStatusAuthorized" "caRequestRecordID ?p = lrRequestRecordID hold" "caActualAmount ?p = num n"
      using own assms(5) by simp_all
    obtain r' e tail xs got where c: "0 < n" "r' \<in> set (ledger_reservations l)" "same_hold hold r'"
      "lrStatus r' = ReservationStatusCaptured" "check_ledger_reservation r'" "lrCapturedAmount r' = min n (lrAuthorizedAmount hold)"
      "capture_linked [e] r'" "leIdempotencyKey e = caIdempotencyKey ?p"
      "ledger_entries l = ledger_entries (ledger_view db) @ e # tail" "billing_exceptions l = billing_exceptions (ledger_view db) @ xs"
      "if 0 < got then \<exists>e. tail = [e] \<and> overage_entry ?p hold got e else tail = []"
      "if lrAuthorizedAmount hold + got < n then \<exists>ex. xs = [ex] \<and> write_off hold (units n) got ex else xs = []"
      "0 \<le> got" "got = (if n \<le> lrAuthorizedAmount hold then 0
         else max (min (fst (account (ledger_view db) (res_key hold)) - snd (account (ledger_view db) (res_key hold))) (n - lrAuthorizedAmount hold)) 0)"
      "account l = (account (ledger_view db))(res_key hold :=
         (fst (account (ledger_view db) (res_key hold)) - (min n (lrAuthorizedAmount hold) + got),
          snd (account (ledger_view db) (res_key hold)) - lrAuthorizedAmount hold))"
      "rv = (reservationFromSQLC r')\<lparr>rvOverageCapturedAmount := if n \<le> lrAuthorizedAmount hold then numericZero else num got\<rparr>"
      by (rule capture_rows [OF run inv mem pre])
    have view: "fst (account (ledger_view db) (res_key hold)) = bal" "snd (account (ledger_view db) (res_key hold)) = res"
      using assms(6) by (simp_all add: acc)
    have paid: "paid = min n (lrAuthorizedAmount hold) + got" using c(14) room unfolding assms(7) view by (simp add: min_def max_def)
    have off: "written_off db hold n paid (billing_exceptions l)"
      using c(6,10,12,14) unfolding view by (auto simp: written_off_def write_off_def paid min_def simp flip: of_int_diff split: if_splits)
    have none: "n \<le> lrAuthorizedAmount hold \<longrightarrow> got = 0" using c(14) by simp
    have amounts: "rvCapturedAmount rv = num (min n (lrAuthorizedAmount hold))"
      "settlement_numericIsZero (rvOverageCapturedAmount rv) \<longleftrightarrow> got = 0" "got \<noteq> 0 \<Longrightarrow> rvOverageCapturedAmount rv = num got"
      using c(6,16) none by (simp_all add: reservationFromSQLC_def settlement_numericIsZero_def numericZero_def)
    have same: "spent_total (db5\<lparr>customer_ledger := l\<rparr>) = spent_total db5" by (simp add: spent_total_def fun_eq_iff)
    have "spent_total db2 = (spent_total db5)(?k := map_option (\<lambda>t. t + min n (lrAuthorizedAmount hold)) (spent_total db5 ?k))"
      using AddAPIKeySpentTotal_adds [OF one [unfolded amounts(1)]] unfolding same .
    then have spent: "spent_total db6 = (spent_total db5)(?k := map_option (\<lambda>t. t + paid) (spent_total db5 ?k))"
      using two amounts(2,3) AddAPIKeySpentTotal_adds [of "clock env" db2 got ?k db6]
      by (cases "got = 0") (auto simp: paid option.map_comp comp_def add.assoc)
    have "customer_ledger db6 = l" using add_spent_ledger [OF one] two add_spent_ledger [of _ db2 _ _ db6] by (auto split: if_splits)
    moreover have "account l = (account (customer_ledger db))(res_key hold := (bal - paid, res - lrAuthorizedAmount hold))"
      using c(15) unfolding view paid unfolding acc .
    ultimately show ?thesis using off spent c(1) by simp
  qed
qed

end
