(* ===== verification/Settlement_Giving_Up.thy ===== *)
theory Settlement_Giving_Up
  imports Settlement_Effects
begin

text \<open>
  What the three finalizers do to money. A request that is given up, because its recovery job is exhausted, its process died or
  its hold was stranded, costs nobody anything: the finalizers only give holds back.
\<close>

subsection \<open>Nothing is charged\<close>

text \<open>The customer's side: no balance falls, no entry is added, no hold is captured and no hold grows.\<close>

definition ledger_uncharged :: "db \<Rightarrow> db \<Rightarrow> bool" where
  "ledger_uncharged l l' \<longleftrightarrow> ledger_entries l' = ledger_entries l \<and>
     (\<forall>k. fst (account l' k) = fst (account l k) \<and> snd (account l' k) \<le> snd (account l k)) \<and>
     (\<forall>r \<in> set (ledger_reservations l'). lrStatus r = ReservationStatusCaptured \<longrightarrow> r \<in> set (ledger_reservations l))"

definition uncharged :: "settle_db \<Rightarrow> settle_db \<Rightarrow> bool" where
  "uncharged db db' \<longleftrightarrow> ledger_uncharged (customer_ledger db) (customer_ledger db') \<and> api_keys db' = api_keys db \<and>
     provider_ledger db' = provider_ledger db \<and> usage_records db' = usage_records db \<and>
     usage_line_items db' = usage_line_items db \<and> price_snapshots db' = price_snapshots db \<and>
     cost_snapshots db' = cost_snapshots db"

lemma ledger_uncharged_refl [simp]: "ledger_uncharged l l"
  by (simp add: ledger_uncharged_def)

lemma ledger_uncharged_trans [trans]: "ledger_uncharged a b \<Longrightarrow> ledger_uncharged b c \<Longrightarrow> ledger_uncharged a c"
  by (simp add: ledger_uncharged_def) (meson order_trans)

lemma uncharged_refl [simp]: "uncharged db db"
  by (simp add: uncharged_def)

lemma uncharged_trans [trans]: "uncharged a b \<Longrightarrow> uncharged b c \<Longrightarrow> uncharged a c"
  by (auto simp: uncharged_def intro: ledger_uncharged_trans)

lemma uncharged_frame: "log_frame db db' \<Longrightarrow> uncharged db db'"
  by (simp add: log_frame_def uncharged_def)

lemma view_account [simp]: "account (ledger_view db) = account (customer_ledger db)"
  by (simp add: account_def fun_eq_iff)

lemma ledger_uncharged_view: "ledger_uncharged (ledger_view db) l \<longleftrightarrow> ledger_uncharged (customer_ledger db) l"
  by (simp add: ledger_uncharged_def)

lemma uncharged_ledger: "ledger_uncharged (ledger_view db) l \<Longrightarrow> uncharged db (db\<lparr>customer_ledger := l\<rparr>)"
  by (simp add: uncharged_def ledger_uncharged_view)

subsection \<open>The steps\<close>

lemma release_uncharged:
  assumes "releaseWithQueries env db params = Inr (rv, db')" "ledger_inv db"
  shows "ledger_uncharged db db'"
  using assms
proof (cases rule: releaseWithQueries_inv)
  case (released r r')
  then have row: "r \<in> set (ledger_reservations db)" "lrStatus r' = ReservationStatusReleased"
    "ledger_reservations db' = map (\<lambda>x. if lrID x = lrID r' then r' else x) (ledger_reservations db)"
    "ledger_entries db' = ledger_entries db"
    "account db' = (account db)(res_key r := (fst (account db (res_key r)), snd (account db (res_key r)) - lrAuthorizedAmount r))"
    by (simp_all add: released_def settled_row_def)
  have "0 < lrAuthorizedAmount r" using assms(2) row(1) by (auto simp: inv_parts check_ledger_reservation_def)
  then show ?thesis using row(2-5) by (auto simp: ledger_uncharged_def split: if_splits)
qed simp

lemma exposure_uncharged: "CreateLedgerRiskExposureException now db arg = Inr (x, db') \<Longrightarrow> ledger_uncharged db db'"
  by (erule CreateLedgerRiskExposureException_Inr) (simp_all add: exception_added_def ledger_uncharged_def account_def)

lemma release_exposed_uncharged:
  assumes "ReleaseWithQueries env (ledger_view db) params = Inr (rv, l)" "ledger_inv (ledger_view db)"
    and "CreateLedgerRiskExposureException now l arg = Inr (x, l')"
  shows "uncharged db (db\<lparr>customer_ledger := l'\<rparr>)"
  using ledger_uncharged_trans [OF release_uncharged [OF assms(1) [unfolded ReleaseWithQueries_def] assms(2)] exposure_uncharged [OF assms(3)]]
  by (rule uncharged_ledger)

lemma releaseDead_uncharged:
  assumes "releaseDeadSettlementReservation env db job = Inr db'" "ledger_inv (ledger_view db)"
  shows "uncharged db db'"
proof (cases "ReleaseWithQueries (env.truncate env) (ledger_view db)
    \<lparr>rlRequestRecordID = sjRequestRecordID job, rlReservationID = Some (sjReservationID job)\<rparr>")
  case (Inl e)
  then show ?thesis using assms(1) by (simp add: releaseDeadSettlementReservation_def split: if_splits)
next
  case (Inr y)
  then show ?thesis using assms(1) release_exposed_uncharged [OF _ assms(2)]
    by (cases y) (auto simp: releaseDeadSettlementReservation_def rbind_Inr_iff store_call_Inr)
qed

lemma release_orphan_uncharged:
  assumes "release_orphan env db row = Inr db'" "ledger_inv (ledger_view db)"
  shows "uncharged db db'"
proof (cases "ReleaseWithQueries (env.truncate env) (ledger_view db)
    \<lparr>rlRequestRecordID = lrRequestRecordID row, rlReservationID = Some (lrID row)\<rparr>")
  case (Inl e)
  then show ?thesis using assms(1) by (simp add: release_orphan_def split: if_splits)
next
  case (Inr y)
  then show ?thesis using assms(1) release_exposed_uncharged [OF _ assms(2)]
    by (cases y) (auto simp: release_orphan_def rbind_Inr_iff store_call_Inr)
qed

lemma end_orphaned_frame:
  assumes "end_orphaned_attempts env t db i n = Inr db'"
  shows "log_frame db db'"
proof (cases "n = 0")
  case False
  then obtain k where "MarkRunningRequestAttemptsOrphaned db orphan_error t i = Inr (k, db')"
    using assms by (auto simp: end_orphaned_attempts_def rbind_Inr_iff store_call_Inr)
  then show ?thesis by (rule orphans_frame)
qed (use assms in \<open>simp add: end_orphaned_attempts_def log_frame_def\<close>)

subsection \<open>The finalizers\<close>

lemma FinalizeDead_uncharged:
  assumes "FinalizeDeadChatSettlement env t db job = (r, db')" "settle_inv db"
  shows "uncharged db db'"
  using assms(1)
proof (cases rule: FinalizeDead_cases)
  case (2 req db1 a db2 p q)
  have "uncharged db db1" using releaseDead_uncharged [OF 2(3)] assms(2) by (simp add: settle_inv_def)
  also have "uncharged db1 db2" by (intro uncharged_frame log_edit_frame attempt_ends_edit(3) [OF 2(4)])
  also have "uncharged db2 db'" by (intro uncharged_frame log_edit_frame request_ends_edit(4) [OF 2(5)])
  finally show ?thesis .
qed simp

lemma FinalizeOrphan_uncharged:
  assumes "FinalizeOrphanReservation env t1 t2 db row ids permits = (r, db')" "settle_inv db"
  shows "uncharged db db'"
  using assms(1)
proof (cases rule: FinalizeOrphan_cases)
  case (2 req n)
  from 2(8) show ?thesis
  proof (cases rule: finalize_orphan_steps)
    case (1 db1 db2 p q)
    have "settle_inv db1" by (rule edits.reach_inv [OF end_orphaned_run [OF 1(1)] assms(2)])
    then have inv: "ledger_inv (ledger_view db1)" by (simp add: settle_inv_def)
    have "uncharged db db1" by (intro uncharged_frame end_orphaned_frame [OF 1(1)])
    also have "uncharged db1 db2" by (rule release_orphan_uncharged [OF 1(2) inv])
    also have "uncharged db2 db'" by (intro uncharged_frame log_edit_frame request_ends_edit(4) [OF 1(3)])
    finally show ?thesis .
  qed
qed simp

lemma FinalizeStranded_uncharged:
  assumes "FinalizeStrandedReservation env db row = (r, db')" "settle_inv db"
  shows "uncharged db db'"
  using assms(1)
proof (cases rule: FinalizeStranded_cases)
  case (2 req rv l)
  have "ledger_inv (ledger_view db)" using assms(2) by (simp add: settle_inv_def)
  with 2(3) have "ledger_uncharged (ledger_view db) l" unfolding ReleaseWithQueries_def by (rule release_uncharged)
  then show ?thesis unfolding 2(4) by (rule uncharged_ledger)
qed simp


subsection \<open>The hold is given back\<close>

text \<open>The request is over and no hold of it is left.\<close>

abbreviation no_hold :: "db \<Rightarrow> int \<Rightarrow> bool" where
  "no_hold l i \<equiv> \<forall>h \<in> set (ledger_reservations l). lrRequestRecordID h = i \<longrightarrow> lrStatus h \<noteq> ReservationStatusAuthorized"

definition given_up :: "settle_db \<Rightarrow> int \<Rightarrow> bool" where
  "given_up db i \<longleftrightarrow> (\<exists>r. request_of db i = Some r \<and> rrStatus r \<in> {RequestStatusFailed, RequestStatusCanceled}) \<and>
     no_hold (customer_ledger db) i"

lemma release_frees:
  assumes "releaseWithQueries env db params = Inr (rv, db')" "ledger_inv db"
  shows "no_hold db' (rlRequestRecordID params)"
  using assms
proof (cases rule: releaseWithQueries_inv)
  case (replay r)
  have "h = r" if "h \<in> set (ledger_reservations db')" "lrRequestRecordID h = rlRequestRecordID params" for h
    using same_request_reservation [OF assms(2) replay(1), of h] that replay(2,5) by simp
  with replay(3) show ?thesis by (intro ballI impI) simp
next
  case (released r r')
  then have row: "r \<in> set (ledger_reservations db)" "lrStatus r' = ReservationStatusReleased" "lrID r' = lrID r"
    "lrRequestRecordID r' = lrRequestRecordID r"
    "ledger_reservations db' = map (\<lambda>x. if lrID x = lrID r' then r' else x) (ledger_reservations db)"
    by (simp_all add: released_def settled_row_def same_hold_def)
  show ?thesis
  proof (intro ballI impI)
    fix h
    assume h: "h \<in> set (ledger_reservations db')" "lrRequestRecordID h = rlRequestRecordID params"
    from h(1) consider "h = r'" | "h \<in> set (ledger_reservations db)" "lrID h \<noteq> lrID r'" unfolding row(5) by force
    then show "lrStatus h \<noteq> ReservationStatusAuthorized"
    proof cases
      case 1
      then show ?thesis using row(2) by simp
    next
      case 2
      then show ?thesis using same_request_reservation [OF assms(2) row(1), of h] h(2) released(1) row(3) by simp
    qed
  qed
qed

lemma release_missing:
  assumes "releaseWithQueries env db params = Inl e" "not_found e"
  shows "no_hold db (rlRequestRecordID params)"
proof -
  have "GetLedgerReservationByRequestRecordIDForUpdate db (rlRequestRecordID params) = Inl ErrNoRows"
    using assms unfolding releaseWithQueries_def
    by (auto simp: not_found_def store_call_def split: sum.splits prod.splits if_splits)
  then show ?thesis
    by (auto simp: GetLedgerReservationByRequestRecordIDForUpdate_def GetLedgerReservationByRequestRecordID_def one_row_def
        find_None_iff split: option.splits)
qed

lemma exposure_keeps: "CreateLedgerRiskExposureException now db arg = Inr (x, db') \<Longrightarrow> ledger_reservations db' = ledger_reservations db"
  by (erule CreateLedgerRiskExposureException_Inr) (simp_all add: exception_added_def)

lemma releaseDead_frees:
  assumes "releaseDeadSettlementReservation env db job = Inr db'" "ledger_inv (ledger_view db)"
  shows "no_hold (customer_ledger db') (sjRequestRecordID job)"
proof (cases "ReleaseWithQueries (env.truncate env) (ledger_view db)
    \<lparr>rlRequestRecordID = sjRequestRecordID job, rlReservationID = Some (sjReservationID job)\<rparr>")
  case (Inl e)
  then show ?thesis using assms(1) release_missing [OF Inl [unfolded ReleaseWithQueries_def]]
    by (simp add: releaseDeadSettlementReservation_def split: if_splits)
next
  case (Inr y)
  then show ?thesis using assms(1) release_frees [OF _ assms(2)] exposure_keeps
    by (cases y) (fastforce simp: releaseDeadSettlementReservation_def rbind_Inr_iff store_call_Inr ReleaseWithQueries_def)
qed

lemma release_orphan_frees:
  assumes "release_orphan env db row = Inr db'" "ledger_inv (ledger_view db)"
  shows "no_hold (customer_ledger db') (lrRequestRecordID row)"
proof (cases "ReleaseWithQueries (env.truncate env) (ledger_view db)
    \<lparr>rlRequestRecordID = lrRequestRecordID row, rlReservationID = Some (lrID row)\<rparr>")
  case (Inl e)
  then show ?thesis using assms(1) release_missing [OF Inl [unfolded ReleaseWithQueries_def]]
    by (simp add: release_orphan_def split: if_splits)
next
  case (Inr y)
  then show ?thesis using assms(1) release_frees [OF _ assms(2)] exposure_keeps
    by (cases y) (fastforce simp: release_orphan_def rbind_Inr_iff store_call_Inr ReleaseWithQueries_def)
qed

lemma log_failed_request:
  fixes db :: settle_db
  assumes "log_MarkRequestFailed env db db p = Inr (q, db')"
  shows "\<exists>r. request_of db' (mrID p) = Some r \<and> rrStatus r = RequestStatusFailed" "customer_ledger db' = customer_ledger db"
proof -
  obtain row where m: "mark_request db db (mrID p) (\<lambda>r. rrStatus r = RequestStatusRunning)
       (\<lambda>r. (set_request_error (error_facts (mrErrorCode p) (mrErrorMessage p) (mrInternalErrorDetail p)) r)
         \<lparr>rrStatus := RequestStatusFailed, rrCompletedAt := Some (mrCompletedAt p), rrUpdatedAt := clock env\<rparr>)
       (\<lambda>r. rrStatus r = RequestStatusFailed) = Inr (row, db')"
    using assms by (auto simp: log_MarkRequestFailed_def MarkRequestFailed_def dest!: logged_Inr)
  obtain r where r: "request_of db (mrID p) = Some r" using m by (auto simp: mark_request_def mark_def split: option.splits)
  show "customer_ledger db' = customer_ledger db"
    using log_edit_frame [OF request_ends_edit(4) [OF assms]] by (simp add: log_frame_def)
  show "\<exists>r. request_of db' (mrID p) = Some r \<and> rrStatus r = RequestStatusFailed"
  proof (cases "rrStatus r = RequestStatusRunning")
    case True
    let ?upd = "\<lambda>r. (set_request_error (error_facts (mrErrorCode p) (mrErrorMessage p) (mrInternalErrorDetail p)) r)
         \<lparr>rrStatus := RequestStatusFailed, rrCompletedAt := Some (mrCompletedAt p), rrUpdatedAt := clock env\<rparr>"
    have id: "rrID (?upd y) = rrID y" for y by (simp add: set_request_error_def)
    have db': "db' = db\<lparr>request_records := map (\<lambda>y. if rrID y = rrID r then ?upd r else y) (request_records db)\<rparr>"
      by (rule mark_request_moves [OF m r True id])
    have key: "rrID r = mrID p" using r find_key_Some by (fastforce simp: request_of_def)
    have "find (\<lambda>y. rrID y = mrID p) (map (\<lambda>y. if rrID y = rrID r then ?upd r else y) xs) =
        (if mrID p \<in> rrID ` set xs then Some (?upd r) else None)" for xs
      using key id by (induction xs) auto
    moreover have "mrID p \<in> rrID ` set (request_records db)"
      using r key by (auto simp: request_of_def find_Some_iff intro!: rev_image_eqI [of r])
    ultimately show ?thesis by (simp add: db' request_of_def)
  next
    case False
    then show ?thesis using m r by (auto simp: mark_request_def mark_def split: if_splits)
  qed
qed

lemma FinalizeDead_given_up:
  assumes "FinalizeDeadChatSettlement env t db job = (r, db')" "settle_inv db" "db' \<noteq> db"
  shows "given_up db' (sjRequestRecordID job)"
  using assms(1)
proof (cases rule: FinalizeDead_cases)
  case (2 req db1 a db2 p q)
  have "no_hold (customer_ledger db1) (sjRequestRecordID job)"
    using releaseDead_frees [OF 2(3)] assms(2) by (simp add: settle_inv_def)
  moreover have "customer_ledger db2 = customer_ledger db1"
    using log_edit_frame [OF attempt_ends_edit(3) [OF 2(4)]] by (simp add: log_frame_def)
  ultimately show ?thesis using log_failed_request [OF 2(5)] 2(6) by (auto simp: given_up_def)
qed (use assms(3) in simp)

lemma FinalizeOrphan_given_up:
  assumes "FinalizeOrphanReservation env t1 t2 db row ids permits = (r, db')" "settle_inv db" "db' \<noteq> db"
  shows "given_up db' (lrRequestRecordID row)"
  using assms(1)
proof (cases rule: FinalizeOrphan_cases)
  case (2 req n)
  from 2(8) show ?thesis
  proof (cases rule: finalize_orphan_steps)
    case (1 db1 db2 p q)
    have "settle_inv db1" by (rule edits.reach_inv [OF end_orphaned_run [OF 1(1)] assms(2)])
    then have "no_hold (customer_ledger db2) (lrRequestRecordID row)"
      using release_orphan_frees [OF 1(2)] by (simp add: settle_inv_def)
    then show ?thesis using log_failed_request [OF 1(3)] 1(4) by (auto simp: given_up_def)
  qed
qed (use assms(3) in simp)

lemma FinalizeStranded_given_up:
  assumes "FinalizeStrandedReservation env db row = (r, db')" "settle_inv db" "db' \<noteq> db"
  shows "given_up db' (lrRequestRecordID row)"
  using assms(1)
proof (cases rule: FinalizeStranded_cases)
  case (2 req rv l)
  have "ledger_inv (ledger_view db)" using assms(2) by (simp add: settle_inv_def)
  then have "no_hold l (lrRequestRecordID row)"
    using release_frees [OF 2(3) [unfolded ReleaseWithQueries_def]] by simp
  then show ?thesis using 2(1,2) by (auto simp: given_up_def 2(4) request_of_def)
qed (use assms(3) in simp)

lemma FinalizeDead_gives_up:
  assumes "settle_inv db"
  shows "let db' = snd (FinalizeDeadChatSettlement env t db job) in
    uncharged db db' \<and> (db' = db \<or> given_up db' (sjRequestRecordID job))"
  using FinalizeDead_uncharged [OF prod.collapse [symmetric] assms] FinalizeDead_given_up [OF prod.collapse [symmetric] assms]
  unfolding Let_def disj_imp by (intro conjI impI)

lemma FinalizeOrphan_gives_up:
  assumes "settle_inv db"
  shows "let db' = snd (FinalizeOrphanReservation env t1 t2 db row ids permits) in
    uncharged db db' \<and> (db' = db \<or> given_up db' (lrRequestRecordID row))"
  using FinalizeOrphan_uncharged [OF prod.collapse [symmetric] assms] FinalizeOrphan_given_up [OF prod.collapse [symmetric] assms]
  unfolding Let_def disj_imp by (intro conjI impI)

lemma FinalizeStranded_gives_up:
  assumes "settle_inv db"
  shows "let db' = snd (FinalizeStrandedReservation env db row) in
    uncharged db db' \<and> (db' = db \<or> given_up db' (lrRequestRecordID row))"
  using FinalizeStranded_uncharged [OF prod.collapse [symmetric] assms] FinalizeStranded_given_up [OF prod.collapse [symmetric] assms]
  unfolding Let_def disj_imp by (intro conjI impI)

end
