(* ===== verification/Settlement_Laws.thy ===== *)
theory Settlement_Laws
  imports Settlement_Example Settlement_Effects Settlement_Giving_Up
begin

text \<open>What the composed settlement guarantees, and a run of it that witnesses each guarantee.\<close>

lemma settle_log_inv: "settle_inv db \<Longrightarrow> log_inv db"
  by (simp add: settle_inv_def)

lemma settled_later:
  assumes "settle_inv s" "settle_step\<^sup>*\<^sup>* s s'" "r \<in> set (request_records s)" "settled r"
  obtains r' where "request_of s' (rrID r) = Some r'" "settled r'" "request_facts r' = request_facts r" "rrStatus r' = rrStatus r"
proof -
  have "settle_le s s'" "settle_inv s'" using settlement.reach_rel [OF assms(2,1)] settlement.reach_inv [OF assms(2,1)] .
  then obtain r' where r': "r' \<in> set (request_records s')" "request_le r r'"
    using assms(3) unfolding settle_le_def log_le_def by blast
  then have "rrID r' = rrID r" "rrStatus r' = rrStatus r" "request_facts r' = request_facts r"
    using assms(4) lifecycle_final by (simp_all add: request_le_def request_identity_def)
  then show thesis using that member_request_of [OF settle_log_inv [OF \<open>settle_inv s'\<close>] r'(1)] assms(4) by simp
qed

lemma final_settles_nothing:
  assumes "request_of db (lqID (spRequestRecord params)) = Some r" "rrStatus r \<noteq> RequestStatusRunning"
  shows "snd (SettleSuccessfulChat svc env now db params) = db"
  using assms by (cases "SettleSuccessfulChat svc env now db params") (auto elim!: SettleSuccessfulChat_cases)

lemma FinalizeStranded_final:
  assumes "settle_inv db" "request_of db (lrRequestRecordID row) = Some r"
  shows "uncharged db (snd (FinalizeStrandedReservation env db row))"
    "rrStatus r = RequestStatusSucceeded \<Longrightarrow> snd (FinalizeStrandedReservation env db row) = db"
    "snd (FinalizeStrandedReservation env db row) \<noteq> db \<Longrightarrow>
      no_hold (customer_ledger (snd (FinalizeStrandedReservation env db row))) (lrRequestRecordID row)"
proof -
  obtain x db' where run: "FinalizeStrandedReservation env db row = (x, db')" by (metis prod.exhaust)
  show "uncharged db (snd (FinalizeStrandedReservation env db row))"
    using FinalizeStranded_uncharged [OF run assms(1)] run by simp
  show "snd (FinalizeStrandedReservation env db row) = db" if "rrStatus r = RequestStatusSucceeded"
    using run
  proof (cases rule: FinalizeStranded_cases)
    case (2 req rv l)
    then show ?thesis using assms(2) that by simp
  qed (simp add: run)
  show "no_hold (customer_ledger (snd (FinalizeStrandedReservation env db row))) (lrRequestRecordID row)"
    if "snd (FinalizeStrandedReservation env db row) \<noteq> db"
    using FinalizeStranded_gives_up [OF assms(1), of env row] that by (simp add: Let_def given_up_def)
qed

text \<open>
  C32: A request is settled once. From the moment its row is final, whatever gateways, workers and operators do afterwards, its
  status and its outcome stay, and no settlement with any parameters, no replay from any job and neither finalizer of running
  requests (of an exhausted job, of a dead process) changes the database. The third finalizer, which sweeps stranded holds,
  changes nothing when the request succeeded; for a failed or canceled request it gives the hold that is left back and does
  nothing else: no balance falls, and nothing is added or booked. Nobody is charged a second time.
\<close>

theorem settled_once:
  assumes "settle_inv s" "settle_step\<^sup>*\<^sup>* s s'" "r \<in> set (request_records s)" "rrStatus r \<in> set terminal_statuses"
    and "lqID (spRequestRecord params) = rrID r" "sjRequestRecordID job = rrID r" "lrRequestRecordID row = rrID r"
  shows "(\<exists>r'. request_of s' (rrID r) = Some r' \<and> rrStatus r' = rrStatus r \<and> request_facts r' = request_facts r) \<and>
    snd (SettleSuccessfulChat svc env now s' params) = s' \<and>
    snd (ReplayChatSettlement svc env now job s') = s' \<and>
    snd (FinalizeDeadChatSettlement env now s' job) = s' \<and>
    snd (FinalizeOrphanReservation env now later s' row ids permits) = s' \<and>
    (rrStatus r = RequestStatusSucceeded \<longrightarrow> snd (FinalizeStrandedReservation env s' row) = s') \<and>
    uncharged s' (snd (FinalizeStrandedReservation env s' row)) \<and>
    (snd (FinalizeStrandedReservation env s' row) \<noteq> s' \<longrightarrow>
      no_hold (customer_ledger (snd (FinalizeStrandedReservation env s' row))) (rrID r))"
proof -
  obtain r' where r': "request_of s' (rrID r) = Some r'" "settled r'" "request_facts r' = request_facts r" "rrStatus r' = rrStatus r"
    by (rule settled_later [OF assms(1-4)])
  note still = settled_not_running [OF r'(2)]
  have settle: "snd (SettleSuccessfulChat svc env now s' p) = s'" if "lqID (spRequestRecord p) = rrID r" for p
    using r'(1) still that by (intro final_settles_nothing) simp_all
  have "snd (ReplayChatSettlement svc env now job s') = s'"
  proof (cases "chatSettlementParamsFromJob env s' job")
    case (Inr p)
    then have "lqID (spRequestRecord p) = rrID r"
      using r'(1) request_of_member [OF r'(1)] assms(6)
      by (auto simp: chatSettlementParamsFromJob_def rbind_Inr_iff store_call_Inr GetRequestRecordForUpdate_Inr params_of_job_def
          chatSettlementRecoveryRequestRecordFromSQLC_def)
    with settle Inr show ?thesis by (simp add: ReplayChatSettlement_def)
  qed (simp add: ReplayChatSettlement_def)
  moreover have "snd (FinalizeDeadChatSettlement env now s' job) = s'"
    using r'(1) still assms(6) by (cases "FinalizeDeadChatSettlement env now s' job") (auto elim!: FinalizeDead_cases)
  moreover have "snd (FinalizeOrphanReservation env now later s' row ids permits) = s'"
    using r'(1) still assms(7)
    by (cases "FinalizeOrphanReservation env now later s' row ids permits") (auto elim!: FinalizeOrphan_cases)
  moreover note FinalizeStranded_final [OF settlement.reach_inv [OF assms(2,1)] r'(1) [folded assms(7)], of env]
  ultimately show ?thesis using r' settle [OF assms(5)] assms(7) by simp
qed

lemma settled_once_witness:
  "\<exists>r. request_of sd1 1 = Some r \<and> rrStatus r = RequestStatusSucceeded \<and>
     snd (SettleSuccessfulChat sd_svc sd_env 130 sd1 sd_params) = sd1 \<and>
     snd (ReplayChatSettlement sd_svc sd_env 130 sd_job sd1) = sd1 \<and>
     snd (FinalizeDeadChatSettlement sd_env 130 sd1 sd_job) = sd1 \<and>
     snd (FinalizeOrphanReservation sd_env 130 131 sd1 sd_hold [] []) = sd1 \<and>
     snd (FinalizeStrandedReservation sd_env sd1 sd_hold) = sd1"
proof -
  obtain r where r: "request_records sd1 = [r]" "rrID r = 1" "rrStatus r = RequestStatusSucceeded"
    using sd1_request by (auto simp: map_eq_Cons_conv)
  then have "request_of sd1 1 = Some r" using member_request_of [OF settle_log_inv [OF sd1_inv], of r] by simp
  with settled_once [of sd1 sd1 r sd_params sd_job sd_hold sd_svc] r sd1_inv sd_one_request
  show ?thesis by (simp add: terminal_statuses_def)
qed

text \<open>
  C33: Whatever happens on the composed database, in any order and with any failures, it stays consistent and keeps what it
  knows: the log, the jobs, both ledgers and the snapshots satisfy their invariants; requests and attempts only move forward
  and keep what they were settled with; jobs keep their facts; and no ledger entry, settled reservation, provider entry, usage
  record, line item, price or cost snapshot is ever changed or removed.
\<close>

theorem settlement_history:
  assumes "settle_inv s" "settle_step\<^sup>*\<^sup>* s s'"
  shows "settle_inv s' \<and> log_le s s' \<and> jobs_le s s' \<and> logged (ledger_view s) (ledger_view s') \<and>
     set (provider_entries (provider_ledger s)) \<subseteq> set (provider_entries (provider_ledger s')) \<and>
     set (usage_records s) \<subseteq> set (usage_records s') \<and> set (usage_line_items s) \<subseteq> set (usage_line_items s') \<and>
     set (price_snapshots s) \<subseteq> set (price_snapshots s') \<and> set (cost_snapshots s) \<subseteq> set (cost_snapshots s')"
  using settlement.reach_inv [OF assms(2,1)] settlement.reach_rel [OF assms(2,1)] by (simp add: settle_le_def)

lemma settlement_history_witness: "settle_inv sd1 \<and> log_le sd0 sd1 \<and> logged (ledger_view sd0) (ledger_view sd1)"
  using settlement_history [OF sd0_inv r_into_rtranclp, OF sd_settles] by simp


subsection \<open>Settling again\<close>

definition reliable :: "'e env_scheme \<Rightarrow> bool" where
  "reliable env \<longleftrightarrow> (\<forall>msg. \<not> fault env msg) \<and> commit_outcome env = CommitOk"

text \<open>A settlement of a running request changes nothing, or it ran to its end and only the answer of the commit may be lost.\<close>

lemma settlement_outcomes:
  assumes "SettleSuccessfulChat svc env now db params = (r, db')" "request_of db (lqID (spRequestRecord params)) = Some req"
    and "rrStatus req = RequestStatusRunning"
  obtains (kept) e where "r = Inl e" "db' = db"
  | (settled) "r = Inr () \<or> commit_outcome env = CommitReplyLost" "ValidateChatSettlementFacts params = Inr ()"
      "settle_running svc env now db params = Inr db'"
proof -
  let ?body = "rbind (db_call env ''lock request record for chat settlement''
      (GetRequestRecordForUpdate db (lqID (spRequestRecord params)))) (\<lambda>lockedRequest.
    rbind (ValidateChatSettlementFacts params) (\<lambda>_.
    if rrStatus lockedRequest = RequestStatusRunning then
      rbind (settle_running svc env now db params) (\<lambda>db'. Inr (Some (''commit chat settlement transaction'', db'), ()))
    else if rrStatus lockedRequest = fst (chatSettlementFinalStatuses params) then
      rbind (ensureIdempotentChatSettlement env db lockedRequest params) (\<lambda>_.
      Inr (Some (''commit idempotent chat settlement replay'', db), ()))
    else Inl (settlement_failure ''request status does not allow chat settlement'')))"
  have body: "ValidateChatSettlementFacts params = Inr () \<and> (\<exists>d. settle_running svc env now db params = Inr d \<and> w = Some d)"
    if "?body = Inr (u, x)" "w = map_option snd u" for u x w
    using that assms(2,3) by (elim rbind_InrE) (auto simp: store_call_Inr GetRequestRecordForUpdate_Inr rbind_Inr_iff)
  from assms(1) [unfolded SettleSuccessfulChat_def faultInjectSettlementAlways_def if_False] show thesis
  proof (cases rule: settle_tx_outcomes)
    case (kept e)
    then show thesis by (rule that(1))
  next
    case (unchanged x)
    then show thesis using body [OF unchanged(3)] by simp
  next
    case (written msg x)
    then show thesis using body [OF written(1) refl] by (intro that(2)) simp_all
  qed
qed

lemma replay_accepted:
  assumes "request_of db (lqID (spRequestRecord params)) = Some r" "rrStatus r = fst (chatSettlementFinalStatuses params)"
    and "ensureIdempotentChatSettlement env db r params = Inr ()" "ValidateChatSettlementFacts params = Inr ()"
    and "reliable env"
  shows "SettleSuccessfulChat svc env now db params = (Inr (), db)"
proof -
  have no: "\<And>msg. \<not> fault env msg" "commit_outcome env = CommitOk" using assms(5) by (simp_all add: reliable_def)
  have fin: "rrStatus r \<noteq> RequestStatusRunning"
    using final_statuses_valid(1) [OF assms(4)] assms(2) by (auto simp: terminal_statuses_def)
  have lock: "GetRequestRecordForUpdate db (lqID (spRequestRecord params)) = Inr r"
    using assms(1) by (simp add: GetRequestRecordForUpdate_Inr)
  show ?thesis
    by (simp add: SettleSuccessfulChat_def settle_tx_def faultInjectSettlementAlways_def no lock no_fault_call [OF no(1)]
        failing_ok assms(2-4) fin [unfolded assms(2)])
qed

text \<open>
  C34: Settling again is safe. For the parameters of a request the gateway is serving (\<open>own_log\<close>: its request and its attempt
  are running and are the rows the parameters name; \<open>own_hold\<close>: its hold is authorized as they say and nothing is booked for it
  yet), with positive price ids and with final statuses that are both success or both not, which is how the gateway sets them:
  a settlement that reports an error has changed nothing, unless the answer of the commit was lost. Once it has happened,
  reported or not, asking for it again with the same parameters, on the database it left, without a failing call, and whatever the
  clock says, succeeds and changes nothing; and in any later state, whatever gateways, workers and operators have done since,
  asking for it again changes nothing. A gateway that does not know whether its settlement happened can simply repeat it.
\<close>

theorem settlement_retry:
  assumes "settle_inv db" "own_log db params req a" "own_hold db params hold" "positive_prices (price_tables db)"
    and "fst (chatSettlementFinalStatuses params) = RequestStatusSucceeded \<longleftrightarrow>
      snd (chatSettlementFinalStatuses params) = AttemptStatusSucceeded"
    and "SettleSuccessfulChat svc env now db params = (r, db')" "reliable env'"
  shows "isl r \<and> db' = db \<or>
    (r = Inr () \<or> commit_outcome env = CommitReplyLost) \<and> SettleSuccessfulChat svc' env' later db' params = (Inr (), db') \<and>
    (\<forall>db''. settle_step\<^sup>*\<^sup>* db' db'' \<longrightarrow> snd (SettleSuccessfulChat svc' env'' later db'' params) = db'')"
proof -
  have run: "request_of db (lqID (spRequestRecord params)) = Some req" "rrStatus req = RequestStatusRunning"
    using assms(2) by (simp_all add: own_log_def)
  from assms(6) run show ?thesis
  proof (cases rule: settlement_outcomes)
    case (kept e)
    then show ?thesis by simp
  next
    case settled
    have "\<And>msg. \<not> fault env' msg" using assms(7) by (simp add: reliable_def)
    then obtain q where q: "request_of db' (lqID (spRequestRecord params)) = Some q" "rrStatus q = fst (chatSettlementFinalStatuses params)"
      "ensureIdempotentChatSettlement env' db' q params = Inr ()"
      using settlement_accepted [OF assms(1) settled(3) assms(2,3,4) settled(2) assms(5)] by blast
    then have again: "SettleSuccessfulChat svc' env' later db' params = (Inr (), db')"
      by (rule replay_accepted) (rule settled(2) assms(7))+
    have inv: "settle_inv db'" by (rule settlement.step_inv [OF settle_step.settle [OF assms(6)] assms(1)])
    have "snd (SettleSuccessfulChat svc' env'' later db'' params) = db''" if run: "settle_step\<^sup>*\<^sup>* db' db''" for db''
    proof -
      have mem: "q \<in> set (request_records db')" "rrID q = lqID (spRequestRecord params)" using request_of_member [OF q(1)] by simp_all
      have "rrStatus q \<in> set terminal_statuses" using q(2) final_statuses_valid(1) [OF settled(2)] by simp
      from settled_later [OF inv run mem(1) this] show ?thesis
        using mem(2) settled_not_running final_settles_nothing by metis
    qed
    with settled(1) again show ?thesis by blast
  qed
qed


lemma sd_own_log: "own_log sd0 sd_params (hd (request_records sd0)) (hd (request_attempts sd0))"
  by code_simp

lemma sd_own_hold: "own_hold sd0 sd_params sd_hold"
  by code_simp

lemma sd_positive: "positive_prices (price_tables sd0)"
  by code_simp

lemma sd_settled: "SettleSuccessfulChat sd_svc sd_env 120 sd0 sd_params = (Inr (), sd1)"
proof -
  have "fst (SettleSuccessfulChat sd_svc sd_env 120 sd0 sd_params) = Inr ()" by code_simp
  then show ?thesis by (simp add: sd1_def prod_eq_iff)
qed

lemma sd_statuses: "chatSettlementFinalStatuses sd_params = (RequestStatusSucceeded, AttemptStatusSucceeded)"
  by code_simp

lemma sd_reliable: "reliable sd_env"
  by (simp add: reliable_def sd_env_def env.defs rd_env_def price_env.defs)

lemma settlement_retry_witness:
  "SettleSuccessfulChat sd_svc sd_env 120 sd0 sd_params = (Inr (), sd1) \<and>
   SettleSuccessfulChat sd_svc sd_env 130 sd1 sd_params = (Inr (), sd1)"
  using settlement_retry [OF sd0_inv sd_own_log sd_own_hold sd_positive _ sd_settled sd_reliable] sd_settled
  by (simp add: sd_statuses)

subsection \<open>What a settlement charges\<close>

text \<open>
  C35: What a settlement charges. It stores the quoted price, after the long-context policy, and computes the charge from the
  reported usage and that stored price alone; the customer pays the charge from the hold and then from what is available, the
  hold is given back whole, the API key's total grows by exactly what was paid, and what could not be collected is one
  write-off; no other account and no other key changes.
\<close>

theorem settlement_charges:
  assumes "settle_inv db" "own_log db params req a" "own_hold db params hold" "positive_prices (price_tables db)"
    and "SettleSuccessfulChat svc env now db params = (Inr (), db')"
    and "account (customer_ledger db) (res_key hold) = (bal, res)"
  shows "\<exists>s charge n paid. GetPriceSnapshotByRequest db' (lqID (spRequestRecord params)) = Inr s \<and> quoted params s \<and>
     CalculateCustomerCharge (rfUsage (spFacts params)) (snapshot_price s) = Inr charge \<and> chAmount charge = num n \<and> 0 \<le> n \<and>
     paid = min n (lrAuthorizedAmount hold + (bal - res)) \<and>
     account (customer_ledger db') =
       (account (customer_ledger db))(res_key hold := (bal - paid, res - lrAuthorizedAmount hold)) \<and>
     spent_total db' = (spent_total db)(lqAPIKeyID (spRequestRecord params) :=
       map_option (\<lambda>t. t + paid) (spent_total db (lqAPIKeyID (spRequestRecord params)))) \<and>
     written_off db hold n paid (billing_exceptions (customer_ledger db'))"
proof -
  have run: "request_of db (lqID (spRequestRecord params)) = Some req" "rrStatus req = RequestStatusRunning"
    using assms(2) by (simp_all add: own_log_def)
  note settled = settlement_committed [OF assms(5) run]
  obtain s c charge pc db5 db6 ledger where rows: "price_snapshots db' = price_snapshots db @ [s]"
    "psRequestRecordID s = lqID (spRequestRecord params)"
    "lqID (spRequestRecord params) \<notin> psRequestRecordID ` set (price_snapshots db)" "quoted params s"
    "CalculateCustomerCharge (rfUsage (spFacts params)) (snapshot_price s) = Inr charge"
    "settle_customer env db5 params charge = Inr db6" "ledger_view db5 = ledger_view db"
    "customer_ledger db' = ledger" "customer_ledger db6 = ledger"
    "spent_total db5 = spent_total db" "spent_total db' = spent_total db6"
    by (rule settle_running_wrote [OF settled(2) assms(2,4)])
  obtain n where n: "chAmount charge = num n" using charge_units [OF rows(5)] by blast
  note money = settle_customer_money [OF rows(6,7) assms(1,3) n assms(6) refl]
  have "GetPriceSnapshotByRequest db' (lqID (spRequestRecord params)) = Inr s"
    using rows(1-3) by (simp add: GetPriceSnapshotByRequest_def appended_row_found)
  with rows(4,5,8-11) n money show ?thesis by auto
qed

lemma settlement_charges_witness:
  "\<exists>s charge n. GetPriceSnapshotByRequest sd1 1 = Inr s \<and> quoted sd_params s \<and>
     CalculateCustomerCharge (rfUsage sd_facts) (snapshot_price s) = Inr charge \<and> chAmount charge = num n \<and> 0 \<le> n"
proof -
  have "lqID (spRequestRecord sd_params) = 1" "rfUsage (spFacts sd_params) = rfUsage sd_facts"
    by (simp_all add: sd_one_request) (simp add: sd_params_def Let_def)
  with settlement_charges [OF sd0_inv sd_own_log sd_own_hold sd_positive sd_settled prod.collapse [symmetric]]
  show ?thesis by auto
qed


subsection \<open>What giving up costs\<close>

text \<open>
  C36: A request that is given up costs nobody anything. A finalizer of an exhausted job, of a dead process's request or of a
  stranded hold lowers no balance, adds no ledger entry, captures no hold, counts nothing to an API key, books nothing at a
  provider and writes no usage, price or cost; and if it changes anything, then the request is over afterwards and no hold of it
  is left.
\<close>

theorem giving_up_never_charges:
  assumes "settle_inv db"
  shows "(let db' = snd (FinalizeDeadChatSettlement env now db job) in
       uncharged db db' \<and> (db' = db \<or> given_up db' (sjRequestRecordID job))) \<and>
     (let db' = snd (FinalizeOrphanReservation env now later db row ids permits) in
       uncharged db db' \<and> (db' = db \<or> given_up db' (lrRequestRecordID row))) \<and>
     (let db' = snd (FinalizeStrandedReservation env db row) in
       uncharged db db' \<and> (db' = db \<or> given_up db' (lrRequestRecordID row)))"
  using FinalizeDead_gives_up [OF assms] FinalizeOrphan_gives_up [OF assms] FinalizeStranded_gives_up [OF assms]
  by (intro conjI)

lemma sd_dead: "account (customer_ledger (snd (FinalizeDeadChatSettlement sd_env 130 sd0 sd_job))) (3, ''USD'') = (120000000000, 0)"
    "snd (account (customer_ledger sd0) (3, ''USD'')) = 50000000"
  by code_simp+

lemma giving_up_never_charges_witness:
  "(let db' = snd (FinalizeDeadChatSettlement sd_env 130 sd0 sd_job) in uncharged sd0 db' \<and> db' \<noteq> sd0 \<and> given_up db' 1)"
proof -
  have "snd (FinalizeDeadChatSettlement sd_env 130 sd0 sd_job) \<noteq> sd0" using sd_dead by auto
  then show ?thesis
    using giving_up_never_charges [OF sd0_inv, of sd_env 130 sd_job] by (auto simp: Let_def sd_one_request)
qed

end
