(* ===== verification/Settlement_Draining.thy ===== *)
theory Settlement_Draining
  imports Settlement_Laws
begin

text \<open>
  The recovery workers on the composed database. The settlement service keeps the contract a worker relies on
  (\<open>recovery_service\<close> of \<open>Recovery_Laws\<close>): a replay and a finalizer leave the job table to the worker and restart no request,
  and a finalizer that reports success has ended the request. So the workers drain the jobs.
\<close>

subsection \<open>What a replay leaves alone\<close>

lemma leaves_jobs_refl [simp]: "leaves_jobs db db"
  by (simp add: leaves_jobs_def other_tables_def)

lemma leaves_jobs_trans [trans]: "leaves_jobs a b \<Longrightarrow> leaves_jobs b c \<Longrightarrow> leaves_jobs a c"
  by (simp add: leaves_jobs_def other_tables_def)

lemma leaves_jobs_same: "recovery_jobs db' = recovery_jobs db \<Longrightarrow> recovery_job_seq db' = recovery_job_seq db \<Longrightarrow>
    request_records db' = request_records db \<Longrightarrow> leaves_jobs db db'"
  for db :: settle_db
  by (simp add: leaves_jobs_def other_tables_def running_request_def)

lemma mark_request_leaves:
  fixes db :: settle_db
  assumes "mark_request seen db i from upd done_already = Inr (x, db')" "\<And>r. rrStatus (upd r) \<noteq> RequestStatusRunning"
  shows "leaves_jobs db db'"
  using assms(1) unfolding mark_request_def
proof (rule mark_InrE)
  fix r
  assume "put_request db (upd r) = Inr db'"
  then have "db' = db\<lparr>request_records := map (\<lambda>y. if rrID y = rrID (upd r) then upd r else y) (request_records db)\<rparr>"
    by (auto simp: put_request_def split: if_splits)
  then show "leaves_jobs db db'" using assms(2)
    by (auto simp: leaves_jobs_def other_tables_def running_request_def split: if_splits)
qed simp

lemma mark_attempt_leaves:
  fixes db :: settle_db
  assumes "mark_attempt seen db i from upd done_already = Inr (x, db')"
  shows "leaves_jobs db db'"
  using assms unfolding mark_attempt_def
  by (rule mark_InrE) (auto simp: put_attempt_def split: if_splits intro: leaves_jobs_same)

lemma settle_running_leaves:
  assumes "settle_running svc env now db params = Inr db'"
  shows "leaves_jobs db db'"
proof -
  obtain a db1 db2 cost charge applied db3 providerCost row db4 db5 db6 r where
    steps: "settle_attempt env now db params (snd (chatSettlementFinalStatuses params)) = Inr (a, db1)"
      "settle_usage env db1 params = Inr db2"
      "settle_price env db2 params cost = Inr ((charge, applied), db3)"
      "settle_cost env db3 params cost applied = Inr ((providerCost, row), db4)"
      "settle_provider svc env db4 params providerCost row = Inr db5"
      "settle_customer env db5 params charge = Inr db6"
      "settle_request env now db6 params (fst (chatSettlementFinalStatuses params)) = Inr (r, db')"
    using assms unfolding settle_running_def
    by (elim rbind_InrE pair_caseE nested_pair_caseE) (simp only: sum.inject)
  have "leaves_jobs db db1" using settle_attempt_marks [OF steps(1)] mark_attempt_leaves by blast
  also have "leaves_jobs db1 db2" by (rule leaves_jobs_same) (simp_all add: settle_usage_wrote(1) [OF steps(2)])
  also have "leaves_jobs db2 db3" by (rule settle_price_wrote [OF steps(3)]) (simp add: leaves_jobs_same)
  also have "leaves_jobs db3 db4"
  proof -
    obtain t p w where "CreateCostSnapshot t db3 p = Inr (w, db4)"
      using steps(4) by (auto simp: settle_cost_def rbind_Inr_iff store_call_Inr split: prod.splits)
    then obtain q where "insert_cost_snapshot db3 q = Inr (w, db4)" unfolding CreateCostSnapshot_def by (elim rbind_InrE)
    then show ?thesis by (auto simp: insert_cost_snapshot_def split: if_splits intro: leaves_jobs_same)
  qed
  also have "leaves_jobs db4 db5" by (rule settle_provider_wrote [OF steps(5)]) (simp add: leaves_jobs_same)
  also have "leaves_jobs db5 db6" by (rule settle_customer_wrote [OF steps(6)]) (simp_all add: leaves_jobs_same)
  also have "leaves_jobs db6 db'" 
    using settle_request_marks [OF steps(7)] mark_request_leaves settled_not_running by (metis settled_request_sel(4))
  finally show ?thesis .
qed

lemma replay_leaves: "leaves_jobs db (snd (ReplayChatSettlement svc env now job db))"
proof (cases "chatSettlementParamsFromJob env db job")
  case (Inr params)
  obtain r db' where run: "SettleSuccessfulChat svc env now db params = (r, db')" by (metis prod.exhaust)
  then have "leaves_jobs db db'" by (cases rule: SettleSuccessfulChat_cases) (auto intro: settle_running_leaves)
  then show ?thesis by (simp add: ReplayChatSettlement_def Inr run)
qed (simp add: ReplayChatSettlement_def)

subsection \<open>What a finalizer ends\<close>

lemma releaseDead_leaves:
  assumes "releaseDeadSettlementReservation env db job = Inr db'"
  shows "leaves_jobs db db'"
proof -
  have "db' = db \<or> (\<exists>l. db' = db\<lparr>customer_ledger := l\<rparr>)"
    using assms by (auto simp: releaseDeadSettlementReservation_def rbind_Inr_iff split: sum.splits prod.splits if_splits)
  then show ?thesis by (auto intro: leaves_jobs_same)
qed

lemma request_failed_leaves:
  fixes db :: settle_db
  shows "log_MarkRequestFailed env seen db p = Inr (x, db') \<Longrightarrow> leaves_jobs db db'"
  unfolding log_MarkRequestFailed_def MarkRequestFailed_def by (auto dest!: logged_Inr intro: mark_request_leaves)

lemma attempt_failed_leaves:
  fixes db :: settle_db
  shows "MarkSettledAttemptFailed env seen db p = Inr (x, db') \<Longrightarrow> leaves_jobs db db'"
  unfolding MarkSettledAttemptFailed_def MarkSettledRequestAttemptFailed_def
  by (auto dest!: logged_Inr intro: mark_attempt_leaves)

lemma finalize_dead_leaves: "leaves_jobs db (snd (FinalizeDeadChatSettlement env now db job))"
proof -
  obtain r db' where run: "FinalizeDeadChatSettlement env now db job = (r, db')" by (metis prod.exhaust)
  then have "leaves_jobs db db'"
  proof (cases rule: FinalizeDead_cases)
    case (2 req db1 a db2 p q)
    have "leaves_jobs db db1" by (rule releaseDead_leaves [OF 2(3)])
    also have "leaves_jobs db1 db2" by (rule attempt_failed_leaves [OF 2(4)])
    also have "leaves_jobs db2 db'" by (rule request_failed_leaves [OF 2(5)])
    finally show ?thesis .
  qed simp
  with run show ?thesis by simp
qed

lemma not_running_row:
  assumes "settle_inv db" "request_of db i = Some r" "rrStatus r \<noteq> RequestStatusRunning"
  shows "\<not> running_request db i"
  using assms(2,3) member_request_of [OF settle_log_inv [OF assms(1)]] by (auto simp: running_request_def)

text \<open>A finalizer that reports success has ended the request, or found it over.\<close>

lemma finalize_dead_ends:
  assumes "FinalizeDeadChatSettlement env now db job = (Inr (), db')" "settle_inv db"
  shows "\<not> running_request db' (sjRequestRecordID job)"
proof (cases "db' = db")
  case False
  have "settle_inv db'" by (rule edits.reach_inv [OF FinalizeDead_run [OF assms] assms(2)])
  moreover obtain r where "request_of db' (sjRequestRecordID job) = Some r" "rrStatus r \<noteq> RequestStatusRunning"
  proof -
    have "\<exists>r. request_of db' (sjRequestRecordID job) = Some r \<and> rrStatus r \<noteq> RequestStatusRunning"
      using FinalizeDead_given_up [OF assms False] unfolding given_up_def by fastforce
    then show ?thesis using that by blast
  qed
  ultimately show ?thesis by (rule not_running_row)
next
  case True
  from assms(1) [unfolded FinalizeDeadChatSettlement_def] show ?thesis
  proof (cases rule: settle_tx_outcomes)
    case (unchanged x)
    then obtain r where "request_of db (sjRequestRecordID job) = Some r" "rrStatus r \<noteq> RequestStatusRunning"
      by (auto simp: rbind_Inr_iff store_call_Inr GetRequestRecordForUpdate_Inr split: if_splits)
    then show ?thesis using not_running_row [OF assms(2)] unchanged(2) by simp
  next
    case (written msg x)
    then obtain d2 p q where "log_MarkRequestFailed env d2 d2 p = Inr (q, db')" "mrID p = sjRequestRecordID job"
      by (auto simp: rbind_Inr_iff split: if_splits)
    then obtain r where "request_of db' (sjRequestRecordID job) = Some r" "rrStatus r = RequestStatusFailed"
      using log_failed_request(1) by metis
    then show ?thesis using not_running_row [OF assms(2)] True by simp
  qed simp
qed

subsection \<open>The service behind the workers\<close>

interpretation settlement_service: recovery_service settle_inv "\<lambda>k. settlement_recoverer errorText (svc k) (env k) (now k)"
  for errorText svc env now
proof
  show "settle_inv db \<Longrightarrow> jobs_wf db" for db by (simp add: settle_inv_def)
  show "settle_inv db \<Longrightarrow> job_tables db db' \<Longrightarrow> settle_inv db'" for db db'
    using settlement.step_inv [OF settle_step.job_statement] by blast
  fix k job db
  let ?rcv = "settlement_recoverer errorText (svc k) (env k) (now k)"
  have same: "snd (to_recover_error errorText x) = snd x" for x :: "(settle_error, unit) go_result \<times> settle_db"
    by (simp add: to_recover_error_def split: sum.split prod.split)
  show "leaves_jobs db (snd (RecoverChatSettlement ?rcv job db))"
    and "leaves_jobs db (snd (rc_FinalizeDeadChatSettlement ?rcv job db))"
    by (simp_all add: settlement_recoverer_def same replay_leaves finalize_dead_leaves)
  assume inv: "settle_inv db"
  show "settle_inv (snd (RecoverChatSettlement ?rcv job db))" "settle_inv (snd (rc_FinalizeDeadChatSettlement ?rcv job db))"
    using settlement_recoverer_runs edits.reach_inv [OF _ inv] inv unfolding runs_def by blast+
  show "\<not> running_request (snd (rc_FinalizeDeadChatSettlement ?rcv job db)) (sjRequestRecordID job)"
    if "fst (rc_FinalizeDeadChatSettlement ?rcv job db) = None"
  proof -
    obtain x db' where run: "FinalizeDeadChatSettlement (env k) (now k) db job = (x, db')" by (metis prod.exhaust)
    with that have "x = Inr ()" by (simp add: settlement_recoverer_def to_recover_error_def split: sum.splits)
    with finalize_dead_ends [OF _ inv] run same show ?thesis by (simp add: settlement_recoverer_def)
  qed
qed

text \<open>
  C27: The workers get every job to its end. On any consistent database, let the job statements of a worker succeed and its clock
  reach in every round the time at which the leases and retries of the round before are over; the replays and the finalizers
  it runs are those of the settlement service and may fail or succeed at any time. Then after as many rounds in which no
  finalizer failed as there is work, every job that was there is still there, has succeeded or is dead, and no dead job has a
  request that is still running.
\<close>

theorem recovery_drains:
  assumes "settle_inv db" "all_due (start 0) db" "w = NewSettlementRecoveryWorker wid ttl cap"
    and "rcv = (\<lambda>k. settlement_recoverer errorText (svc k) (env k) (now k))"
    and "\<And>k i. healthy (tk k i) \<and> start k \<le> tkNow (tk k i) \<and> tkNow (tk k i) + horizon w \<le> start (Suc k) \<and>
      tkReport (tk k i) + horizon w \<le> start (Suc k)"
    and "work db \<le> card {k. k < n \<and> \<not> finalize_failed (round_outcome rcv w tk db k)}"
  shows "(\<forall>i j. job_of db i = Some j \<longrightarrow> (\<exists>j'. job_of (service_rounds rcv w tk n db) i = Some j' \<and> job_le j j')) \<and>
    (\<forall>j \<in> set (jobs_of (service_rounds rcv w tk n db)). sjStatus j \<in> set [JobSucceeded, JobDead] \<and>
      (sjStatus j = JobDead \<longrightarrow> \<not> running_request (service_rounds rcv w tk n db) (sjRequestRecordID j)))"
  using settlement_service.drains [OF assms(1-3,5) assms(6) [unfolded assms(4)]] unfolding assms(4) .

subsection \<open>A run\<close>

text \<open>A job that was created, claimed for its only attempt and given up after the lease, with its request still running.\<close>

definition dr1 :: settle_db where
  "dr1 = snd (CreatePendingChatSettlementRecoveryJob (NewChatSettlementRecoveryStore 1000 1) rd_env 119 sd0 sd_params)"
definition dr2 :: settle_db where "dr2 = after_call (ClaimNextSettlementRecoveryJob {} dr1 ''w'' 130 125)"
definition dr3 :: settle_db where "dr3 = after_call (MarkExhaustedSettlementRecoveryJobDead {} dr2 exhausted_facts 140 140)"

definition dr_rcv :: "nat \<Rightarrow> settle_db recoverer" where
  "dr_rcv = (\<lambda>k. settlement_recoverer (\<lambda>_. ''error'') sd_svc sd_env 200)"

lemma dr_calls: "\<not> isl (ClaimNextSettlementRecoveryJob {} dr1 ''w'' 130 125)"
    "\<not> isl (MarkExhaustedSettlementRecoveryJobDead {} dr2 exhausted_facts 140 140)"
  by code_simp+

lemma dr_inv: "settle_inv dr3"
proof -
  have one: "settle_inv dr1" unfolding dr1_def
    by (rule settlement.step_inv [OF settle_step.job_created [OF prod.collapse [symmetric]] sd0_inv])
  have two: "settle_inv dr2" unfolding dr2_def
    using settlement_service.worker_good [OF one job_statements(1)] settlement_service.good_jobs [OF one] after_callI [OF dr_calls(1)]
    by metis
  show ?thesis unfolding dr3_def
    using settlement_service.worker_good [OF two job_statements(2)] settlement_service.good_jobs [OF two] after_callI [OF dr_calls(2)]
    by metis
qed

lemma dr_facts: "all_due 200 dr3" "work dr3 = 1" "running_request dr3 1" "map sjStatus (jobs_of dr3) = [JobDead]"
  by code_simp+

lemma dr_round: "\<not> finalize_failed (round_outcome dr_rcv jd_worker jd_tick dr3 0)"
  by code_simp

lemma recovery_drains_witness:
  "running_request dr3 1 \<and> map sjStatus (jobs_of dr3) = [JobDead] \<and>
   filter (\<lambda>j. sjStatus j \<notin> set [JobSucceeded, JobDead]) (jobs_of (service_rounds dr_rcv jd_worker jd_tick 1 dr3)) = [] \<and>
   filter (\<lambda>j. sjStatus j = JobDead \<and> running_request (service_rounds dr_rcv jd_worker jd_tick 1 dr3) (sjRequestRecordID j))
     (jobs_of (service_rounds dr_rcv jd_worker jd_tick 1 dr3)) = []"
proof -
  have t: "healthy (jd_tick k i) \<and> 200 + 10 * int k \<le> tkNow (jd_tick k i) \<and>
      tkNow (jd_tick k i) + horizon jd_worker \<le> 200 + 10 * int (Suc k) \<and>
      tkReport (jd_tick k i) + horizon jd_worker \<le> 200 + 10 * int (Suc k)" for k i
    by (simp add: healthy_def jd_tick_def rd_env_def horizon_def jd_worker_def NewSettlementRecoveryWorker_def)
  have "{k. k < (1 :: nat) \<and> \<not> finalize_failed (round_outcome dr_rcv jd_worker jd_tick dr3 k)} = {0}"
    using dr_round by auto
  then have "work dr3 \<le> card {k. k < (1 :: nat) \<and> \<not> finalize_failed (round_outcome dr_rcv jd_worker jd_tick dr3 k)}"
    using dr_facts(2) by simp
  with recovery_drains [where start = "\<lambda>k. 200 + 10 * int k" and tk = jd_tick and n = 1,
      OF dr_inv _ jd_worker_def dr_rcv_def t this] dr_facts
  show ?thesis by (auto simp: filter_empty_conv)
qed

end
