(* ===== verification/Sse_Stream.thy ===== *)
theory Sse_Stream
  imports Go_Text
begin

text \<open>
  The server-sent event streams: \<open>internal/core/adapter/sse/reader.go\<close> reads the events an upstream sends, and
  \<open>internal/platform/httpx/sse_writer.go\<close> writes the events a client gets. A stream is the list of its bytes and how it ends;
  the connection of a writer is the list of the bytes it took and the number of bytes it will still take.
\<close>

abbreviation LF :: char where "LF \<equiv> CHR 0x0A"
abbreviation CR :: char where "CR \<equiv> CHR 0x0D"
abbreviation NUL :: char where "NUL \<equiv> CHR 0x00"

subsection \<open>reader.go\<close>

definition DefaultMaxEventBytes :: int where "DefaultMaxEventBytes = 4 * 1024 * 1024"
definition DefaultMaxLineBytes :: int where "DefaultMaxLineBytes = DefaultMaxEventBytes"
definition utf8BOM :: string where "utf8BOM = [CHR 0xEF, CHR 0xBB, CHR 0xBF]"

datatype sse_error = ErrLineTooLong | ErrEventTooLarge | ErrMalformedStream

record sse_config =
  MaxLineBytes :: int
  MaxEventBytes :: int

record sse_event =
  evType :: string
  evData :: string
  evID :: "string option"
  evRetryMilliseconds :: "int option"

text \<open>How the bytes of a body end: at its end, or in an error of the connection.\<close>

datatype stream_end = EOF | ReadError

text \<open>
  \<open>sdInput\<close> is what \<open>bufio.Reader\<close> has not handed out yet; \<open>sdActivity\<close> counts the calls of \<open>OnActivity\<close>. The fields of the
  pending event are those of the source.
\<close>

record sse_reader =
  sdInput :: string
  sdEnd :: stream_end
  sdConfig :: sse_config
  sdEvent :: sse_event
  sdErr :: "sse_error option"
  sdType :: string
  sdData :: string
  sdID :: "string option"
  sdRetry :: "int option"
  sdHasData :: bool
  sdSeenLine :: bool
  sdActivity :: nat

definition normalizeConfig :: "sse_config \<Rightarrow> sse_config" where
  "normalizeConfig cfg = \<lparr>MaxLineBytes = (if MaxLineBytes cfg \<le> 0 then DefaultMaxLineBytes else MaxLineBytes cfg),
     MaxEventBytes = (if MaxEventBytes cfg \<le> 0 then DefaultMaxEventBytes else MaxEventBytes cfg)\<rparr>"

definition NewReader :: "string \<Rightarrow> stream_end \<Rightarrow> sse_config \<Rightarrow> sse_reader" where
  "NewReader body e cfg = \<lparr>sdInput = body, sdEnd = e, sdConfig = normalizeConfig cfg,
     sdEvent = \<lparr>evType = '''', evData = '''', evID = None, evRetryMilliseconds = None\<rparr>, sdErr = None, sdType = '''',
     sdData = '''', sdID = None, sdRetry = None, sdHasData = False, sdSeenLine = False, sdActivity = 0\<rparr>"

text \<open>
  The loop of \<open>readLine\<close> over the bytes: the line (\<open>None\<close> is the nil slice) and whether it was terminated, and the bytes that
  are left. A carriage return takes the line feed behind it, and needs to know what is behind it.
\<close>

fun read_line :: "int \<Rightarrow> stream_end \<Rightarrow> string \<Rightarrow> string \<Rightarrow> (sse_error, string option \<times> bool) go_result \<times> string" where
  "read_line mx e line [] =
     (case e of EOF \<Rightarrow> (Inr (if line = [] then None else Some line, False), [])
      | ReadError \<Rightarrow> (Inl ErrMalformedStream, []))"
| "read_line mx e line (b # bs) =
     (if b = LF then (Inr (Some line, True), bs)
      else if b = CR then
        (case bs of
           [] \<Rightarrow> (case e of EOF \<Rightarrow> (Inr (Some line, True), []) | ReadError \<Rightarrow> (Inl ErrMalformedStream, []))
         | c # cs \<Rightarrow> (Inr (Some line, True), if c \<noteq> LF then bs else cs))
      else if int (length line) + 1 > mx then (Inl ErrLineTooLong, bs)
      else read_line mx e (line @ [b]) bs)"

definition readLine :: "sse_reader \<Rightarrow> (sse_error, string option \<times> bool) go_result \<times> sse_reader" where
  "readLine r =
     (let (res, rest) = read_line (MaxLineBytes (sdConfig r)) (sdEnd r) [] (sdInput r)
      in (res, r\<lparr>sdInput := rest,
        sdActivity := sdActivity r + (case res of Inr (Some line, _) \<Rightarrow> 1 | _ \<Rightarrow> 0)\<rparr>))"

definition TrimPrefix :: "string \<Rightarrow> string \<Rightarrow> string" where
  "TrimPrefix s p = (if take (length p) s = p then drop (length p) s else s)"

definition normalizeLine :: "sse_reader \<Rightarrow> string \<Rightarrow> string \<times> sse_reader" where
  "normalizeLine r line = (if sdSeenLine r then (line, r) else (TrimPrefix line utf8BOM, r\<lparr>sdSeenLine := True\<rparr>))"

definition resetPendingEvent :: "sse_reader \<Rightarrow> sse_reader" where
  "resetPendingEvent r = r\<lparr>sdType := '''', sdData := '''', sdID := None, sdRetry := None, sdHasData := False\<rparr>"

definition dispatchEvent :: "sse_reader \<Rightarrow> sse_reader" where
  "dispatchEvent r =
     (let data = (if sdData r \<noteq> [] \<and> last (sdData r) = LF then butlast (sdData r) else sdData r)
      in resetPendingEvent (r\<lparr>sdEvent := \<lparr>evType = sdType r, evData = data, evID = sdID r,
        evRetryMilliseconds = sdRetry r\<rparr>\<rparr>))"

text \<open>\<open>strconv.Atoi\<close> of digits fails only above the largest \<open>int\<close>.\<close>

definition parseRetryMilliseconds :: "string \<Rightarrow> int option" where
  "parseRetryMilliseconds value =
     (if value = [] then None else if \<not> list_all is_digit value then None
      else if read_digits value < 2 ^ 63 then Some (int (read_digits value)) else None)"

text \<open>\<open>bytes.Cut\<close> at the first colon.\<close>

definition cut_colon :: "string \<Rightarrow> string \<times> string" where
  "cut_colon line = (takeWhile (\<lambda>c. c \<noteq> CHR '':'') line, drop 1 (dropWhile (\<lambda>c. c \<noteq> CHR '':'') line))"

definition line_field :: "string \<Rightarrow> string \<times> string" where
  "line_field line =
     (let (name, value) = cut_colon line
      in (name, if value \<noteq> [] \<and> hd value = CHR '' '' then tl value else value))"

definition processLine :: "sse_reader \<Rightarrow> string \<Rightarrow> (sse_error, bool \<times> sse_reader) go_result" where
  "processLine r line =
     (if line = [] then
        (if \<not> sdHasData r then Inr (False, resetPendingEvent r) else Inr (True, dispatchEvent r))
      else if hd line = CHR '':'' then Inr (False, r)
      else let (name, value) = line_field line in
        if name = ''data'' then
          (if int (length (sdData r)) + int (length value) + 1 > MaxEventBytes (sdConfig r) then Inl ErrEventTooLarge
           else Inr (False, r\<lparr>sdData := sdData r @ value @ [LF], sdHasData := True\<rparr>))
        else if name = ''event'' then Inr (False, r\<lparr>sdType := value\<rparr>)
        else if name = ''id'' then Inr (False, if NUL \<in> set value then r else r\<lparr>sdID := Some value\<rparr>)
        else if name = ''retry'' then
          Inr (False, case parseRetryMilliseconds value of None \<Rightarrow> r | Some n \<Rightarrow> r\<lparr>sdRetry := Some n\<rparr>)
        else Inr (False, r))"

text \<open>The stream ended: what is pending is dropped, and it is an error if it had data.\<close>

definition end_pending :: "sse_reader \<Rightarrow> sse_reader" where
  "end_pending r = resetPendingEvent (if sdHasData r then r\<lparr>sdErr := Some ErrMalformedStream\<rparr> else r)"

lemma read_line_rest: "read_line mx e line bs = (Inr x, rest) \<Longrightarrow> bs \<noteq> [] \<Longrightarrow> length rest < length bs"
proof (induction mx e line bs rule: read_line.induct)
  case (2 mx e line b bs)
  show ?case
  proof (cases "b = LF \<or> b = CR \<or> int (length line) + 1 > mx")
    case True
    then show ?thesis using 2(2) by (auto split: if_splits list.splits stream_end.splits)
  next
    case False
    then show ?thesis using 2 by (cases bs) (auto split: stream_end.splits)
  qed
qed simp

lemma readLine_shorter:
  assumes "readLine r = (Inr (line, terminated), r')" "line \<noteq> None \<or> terminated"
  shows "length (sdInput r') < length (sdInput r)"
proof (cases "sdInput r")
  case Nil
  then show ?thesis using assms by (auto simp: readLine_def split: stream_end.splits)
next
  case (Cons b bs)
  then show ?thesis using assms(1)
    by (auto simp: readLine_def Let_def simp del: read_line.simps split: prod.splits dest!: read_line_rest)
qed

lemma pending_keeps_input [simp]:
  "sdInput (resetPendingEvent r) = sdInput r" "sdInput (dispatchEvent r) = sdInput r" "sdInput (end_pending r) = sdInput r"
  by (simp_all add: resetPendingEvent_def dispatchEvent_def end_pending_def Let_def)

lemma normalizeLine_input: "normalizeLine r l = (l', r') \<Longrightarrow> sdInput r' = sdInput r"
  by (auto simp: normalizeLine_def split: if_splits)

lemma processLine_input: "processLine r l = Inr (d, r') \<Longrightarrow> sdInput r' = sdInput r"
  by (auto simp: processLine_def Let_def split: if_splits prod.splits option.splits)

text \<open>The loop of \<open>Next\<close>: it goes on while a terminated line dispatched nothing, so each round takes at least one byte.\<close>

function next_event :: "sse_reader \<Rightarrow> bool \<times> sse_reader" where
  "next_event r =
     (case readLine r of
        (Inl e, r1) \<Rightarrow> (False, r1\<lparr>sdErr := Some e\<rparr>)
      | (Inr (line, terminated), r1) \<Rightarrow>
          if line = None \<and> \<not> terminated then (False, end_pending r1)
          else let (l, r2) = normalizeLine r1 (case line of None \<Rightarrow> [] | Some l \<Rightarrow> l) in
            (case processLine r2 l of
               Inl e \<Rightarrow> (False, r2\<lparr>sdErr := Some e\<rparr>)
             | Inr (dispatched, r3) \<Rightarrow>
                 if dispatched then (True, r3)
                 else if terminated then next_event r3 else (False, end_pending r3)))"
  by pat_completeness auto
termination
  by (relation "measure (\<lambda>r. length (sdInput r))")
     (auto dest!: readLine_shorter [OF sym] normalizeLine_input [OF sym] processLine_input)

declare next_event.simps [simp del]

definition Next :: "sse_reader \<Rightarrow> bool \<times> sse_reader" where
  "Next r = (if sdErr r \<noteq> None then (False, r) else next_event r)"

text \<open>
  What a caller sees that asks for events until there is none, as the adapters do: the events, and \<open>Err()\<close> at the end.
\<close>

lemma next_event_shorter: "next_event r = (True, r') \<Longrightarrow> length (sdInput r') < length (sdInput r)"
proof (induction r rule: next_event.induct)
  case (1 r)
  obtain res r1 where read: "readLine r = (res, r1)" by fastforce
  from 1(2) read obtain line terminated where line: "res = Inr (line, terminated)" "line \<noteq> None \<or> terminated"
    by (subst (asm) next_event.simps) (auto split: sum.splits if_splits)
  obtain l r2 where norm: "normalizeLine r1 (case line of None \<Rightarrow> [] | Some l \<Rightarrow> l) = (l, r2)" by fastforce
  from 1(2) read line norm obtain dispatched r3 where process: "processLine r2 l = Inr (dispatched, r3)"
    by (subst (asm) next_event.simps) (auto split: sum.splits)
  have less: "length (sdInput r3) < length (sdInput r)"
    using normalizeLine_input [OF norm] processLine_input [OF process] readLine_shorter [of r line terminated r1] read line by simp
  show ?case
  proof (cases dispatched)
    case True
    then have "r' = r3" using 1(2) read line norm process by (subst (asm) next_event.simps) auto
    then show ?thesis using less by simp
  next
    case False
    with 1(2) read line norm process have t: "terminated" "next_event r3 = (True, r')"
      by (subst (asm) next_event.simps, auto split: if_splits)+
    have "length (sdInput r') < length (sdInput r3)"
      using 1(1) [OF read [symmetric] line(1) refl _ norm [symmetric] refl process refl _ _ t(2)] line(2) t(1) False by blast
    with less show ?thesis by simp
  qed
qed

lemma Next_shorter: "Next r = (True, r') \<Longrightarrow> length (sdInput r') < length (sdInput r)"
  by (auto simp: Next_def next_event_shorter split: if_splits)

function read_all :: "sse_reader \<Rightarrow> sse_event list \<times> sse_error option" where
  "read_all r =
     (case Next r of
        (False, r1) \<Rightarrow> ([], sdErr r1)
      | (True, r1) \<Rightarrow> (let (es, e) = read_all r1 in (sdEvent r1 # es, e)))"
  by pat_completeness auto
termination
  by (relation "measure (\<lambda>r. length (sdInput r))") (auto dest: Next_shorter [OF sym])

declare read_all.simps [simp del]

definition sse_events :: "sse_config \<Rightarrow> string \<Rightarrow> stream_end \<Rightarrow> sse_event list \<times> sse_error option" where
  "sse_events cfg body e = read_all (NewReader body e cfg)"

subsection \<open>sse_writer.go\<close>

datatype write_error = ErrStreamingUnsupported | ErrClientDisconnected | ErrWriteDeadline | ErrWriteFailed | ErrWriteTooLarge

record sse_writer_config =
  wcMaxEventBytes :: int

text \<open>
  \<open>swOut\<close> are the bytes the response writer took, \<open>swRoom\<close> how many it will still take before the connection breaks (\<open>None\<close>:
  it does not break), \<open>swFlushed\<close> how many were taken at the last flush. \<open>swHeader\<close> is the status line and headers.
\<close>

record sse_writer =
  swOut :: string
  swRoom :: "nat option"
  swFlushed :: nat
  swHeader :: "(int \<times> (string \<times> string) list) option"
  swConfig :: sse_writer_config
  swStarted :: bool
  swErr :: "write_error option"

text \<open>What a call meets: a context that is done, and a write deadline that cannot be set.\<close>

record write_call =
  ctxDone :: bool
  deadlineFails :: bool

definition NewSSEWriter :: "bool \<Rightarrow> nat option \<Rightarrow> sse_writer_config \<Rightarrow> (write_error, sse_writer) go_result" where
  "NewSSEWriter flusher room cfg =
     (if \<not> flusher then Inl ErrStreamingUnsupported
      else Inr \<lparr>swOut = [], swRoom = room, swFlushed = 0, swHeader = None, swConfig = cfg, swStarted = False, swErr = None\<rparr>)"

definition guard :: "write_call \<Rightarrow> sse_writer \<Rightarrow> write_error option \<times> sse_writer" where
  "guard call s =
     (if swErr s \<noteq> None then (swErr s, s)
      else if ctxDone call then (Some ErrClientDisconnected, s\<lparr>swErr := Some ErrClientDisconnected\<rparr>)
      else if deadlineFails call then (Some ErrWriteDeadline, s\<lparr>swErr := Some ErrWriteDeadline\<rparr>)
      else (None, s))"

definition ensureStarted :: "sse_writer \<Rightarrow> sse_writer" where
  "ensureStarted s =
     (if swStarted s then s
      else s\<lparr>swHeader := Some (200, [(''Content-Type'', ''text/event-stream''), (''Cache-Control'', ''no-cache''),
        (''X-Accel-Buffering'', ''no'')]), swStarted := True\<rparr>)"

text \<open>\<open>io.WriteString\<close> to a connection that breaks: what still fits goes out.\<close>

definition writeRaw :: "string \<Rightarrow> sse_writer \<Rightarrow> write_error option \<times> sse_writer" where
  "writeRaw text s =
     (case swRoom s of
        None \<Rightarrow> (None, s\<lparr>swOut := swOut s @ text\<rparr>)
      | Some n \<Rightarrow>
          if length text \<le> n then (None, s\<lparr>swOut := swOut s @ text, swRoom := Some (n - length text)\<rparr>)
          else (Some ErrWriteFailed, s\<lparr>swOut := swOut s @ take n text, swRoom := Some 0, swErr := Some ErrWriteFailed\<rparr>))"

text \<open>The calls of \<open>writeRaw\<close> one after the other, with the return at the first that fails.\<close>

fun write_raws :: "string list \<Rightarrow> sse_writer \<Rightarrow> write_error option \<times> sse_writer" where
  "write_raws [] s = (None, s)"
| "write_raws (t # ts) s = (case writeRaw t s of (Some e, s') \<Rightarrow> (Some e, s') | (None, s') \<Rightarrow> write_raws ts s')"

definition Flush :: "sse_writer \<Rightarrow> sse_writer" where
  "Flush s = s\<lparr>swFlushed := length (swOut s)\<rparr>"

text \<open>The two \<open>strings.ReplaceAll\<close> and \<open>strings.Split\<close> of \<open>splitSSEDataLines\<close>.\<close>

fun crlf_to_lf :: "string \<Rightarrow> string" where
  "crlf_to_lf (c # d # s) = (if c = CR \<and> d = LF then LF # crlf_to_lf s else c # crlf_to_lf (d # s))"
| "crlf_to_lf s = s"

definition cr_to_lf :: "string \<Rightarrow> string" where
  "cr_to_lf = map (\<lambda>c. if c = CR then LF else c)"

fun split_lf :: "string \<Rightarrow> string list" where
  "split_lf [] = [[]]"
| "split_lf (c # s) = (if c = LF then [] # split_lf s else (c # hd (split_lf s)) # tl (split_lf s))"

definition splitSSEDataLines :: "string \<Rightarrow> string list" where
  "splitSSEDataLines data = (if data = [] then [[]] else split_lf (cr_to_lf (crlf_to_lf data)))"

definition event_lines :: "sse_event \<Rightarrow> string list" where
  "event_lines ev =
     (if evType ev \<noteq> [] then [''event: '' @ evType ev @ [LF]] else []) @
     (case evID ev of None \<Rightarrow> [] | Some i \<Rightarrow> [''id: '' @ i @ [LF]]) @
     (case evRetryMilliseconds ev of None \<Rightarrow> [] | Some n \<Rightarrow> [''retry: '' @ sprint_int n @ [LF]]) @
     map (\<lambda>line. ''data: '' @ line @ [LF]) (splitSSEDataLines (evData ev)) @ [[LF]]"

definition WriteEvent :: "write_call \<Rightarrow> sse_event \<Rightarrow> sse_writer \<Rightarrow> write_error option \<times> sse_writer" where
  "WriteEvent call ev s =
     (case guard call s of
        (Some e, s1) \<Rightarrow> (Some e, s1)
      | (None, s1) \<Rightarrow>
          if wcMaxEventBytes (swConfig s1) > 0 \<and> int (length (evData ev)) > wcMaxEventBytes (swConfig s1)
          then (Some ErrWriteTooLarge, s1)
          else case write_raws (event_lines ev) (ensureStarted s1) of
            (Some e, s2) \<Rightarrow> (Some e, s2)
          | (None, s2) \<Rightarrow> (None, Flush s2))"

definition WriteData :: "write_call \<Rightarrow> string \<Rightarrow> sse_writer \<Rightarrow> write_error option \<times> sse_writer" where
  "WriteData call data s =
     WriteEvent call \<lparr>evType = '''', evData = data, evID = None, evRetryMilliseconds = None\<rparr> s"

definition WriteComment :: "write_call \<Rightarrow> string \<Rightarrow> sse_writer \<Rightarrow> write_error option \<times> sse_writer" where
  "WriteComment call text s =
     (case guard call s of
        (Some e, s1) \<Rightarrow> (Some e, s1)
      | (None, s1) \<Rightarrow>
          case writeRaw ('': '' @ text @ [LF, LF]) (ensureStarted s1) of
            (Some e, s2) \<Rightarrow> (Some e, s2)
          | (None, s2) \<Rightarrow> (None, Flush s2))"

end
