(* ===== verification/Sse_Spec.thy ===== *)
theory Sse_Spec
  imports Sse_Stream
begin

text \<open>
  What the bytes of a stream mean, without buffers and bounds: the lines, the blocks between empty lines, and the event of
  each block; and the proof that the reader delivers exactly these events.
\<close>

subsection \<open>The meaning of a stream\<close>

text \<open>
  The terminated lines and the rest. A carriage return at the very end terminates a line only when the stream ended there; a
  broken connection might have had a line feed behind it.
\<close>

fun sse_split :: "stream_end \<Rightarrow> string \<Rightarrow> string list \<times> string" where
  "sse_split e [] = ([], [])"
| "sse_split e [b] = (if b = LF \<or> b = CR \<and> e = EOF then ([[]], []) else if b = CR then ([], []) else ([], [b]))"
| "sse_split e (b # c # bs) =
     (if b = LF then (let (ls, t) = sse_split e (c # bs) in ([] # ls, t))
      else if b = CR then (let (ls, t) = sse_split e (if c = LF then bs else c # bs) in ([] # ls, t))
      else case sse_split e (c # bs) of ([], t) \<Rightarrow> ([], b # t) | (l # ls, t) \<Rightarrow> ((b # l) # ls, t))"

text \<open>The blocks that an empty line ends, and the lines of the block that none ends.\<close>

fun blocks :: "string list \<Rightarrow> string list list \<times> string list" where
  "blocks [] = ([], [])"
| "blocks (l # ls) =
     (let (bs, t) = blocks ls
      in if l = [] then ([] # bs, t) else case bs of [] \<Rightarrow> ([], l # t) | b # bs' \<Rightarrow> ((l # b) # bs', t))"

definition field_values :: "string \<Rightarrow> string list \<Rightarrow> string list" where
  "field_values name b = map snd (filter (\<lambda>f. fst f = name) (map line_field (filter (\<lambda>l. hd l \<noteq> CHR '':'') b)))"

definition last_option :: "'a list \<Rightarrow> 'a option" where
  "last_option xs = (if xs = [] then None else Some (last xs))"

definition join_lines :: "string list \<Rightarrow> string" where
  "join_lines vs = butlast (concat (map (\<lambda>v. v @ [LF]) vs))"

definition block_type :: "string list \<Rightarrow> string" where
  "block_type b = (case last_option (field_values ''event'' b) of None \<Rightarrow> [] | Some t \<Rightarrow> t)"

definition block_id :: "string list \<Rightarrow> string option" where
  "block_id b = last_option (filter (\<lambda>v. NUL \<notin> set v) (field_values ''id'' b))"

definition block_retry :: "string list \<Rightarrow> int option" where
  "block_retry b = last_option (List.map_filter parseRetryMilliseconds (field_values ''retry'' b))"

definition block_event :: "string list \<Rightarrow> sse_event option" where
  "block_event b =
     (if field_values ''data'' b = [] then None
      else Some \<lparr>evType = block_type b, evData = join_lines (field_values ''data'' b), evID = block_id b,
        evRetryMilliseconds = block_retry b\<rparr>)"

text \<open>The end of a stream is an error if the connection broke or a block with data was not finished.\<close>

definition end_error :: "stream_end \<Rightarrow> string list \<Rightarrow> string \<Rightarrow> sse_error option" where
  "end_error e b t =
     (if e = ReadError \<or> field_values ''data'' (b @ (if t = [] then [] else [t])) \<noteq> [] then Some ErrMalformedStream else None)"

definition stream_meaning :: "stream_end \<Rightarrow> string list \<Rightarrow> string \<Rightarrow> sse_event list \<times> sse_error option" where
  "stream_meaning e ls t = (let (bs, b) = blocks ls in (List.map_filter block_event bs, end_error e b t))"

definition sse_meaning :: "stream_end \<Rightarrow> string \<Rightarrow> sse_event list \<times> sse_error option" where
  "sse_meaning e body = (let (ls, t) = sse_split e (TrimPrefix body utf8BOM) in stream_meaning e ls t)"

text \<open>The bounds: every line, and the data of every block with a line feed after each line.\<close>

definition block_size :: "string list \<Rightarrow> int" where
  "block_size b = int (length (concat (map (\<lambda>v. v @ [LF]) (field_values ''data'' b))))"

definition lines_within :: "sse_config \<Rightarrow> string list \<Rightarrow> string \<Rightarrow> bool" where
  "lines_within cfg ls t \<longleftrightarrow> (\<forall>l \<in> set (ls @ [t]). int (length l) \<le> MaxLineBytes cfg)"

definition blocks_within :: "sse_config \<Rightarrow> string list \<Rightarrow> string \<Rightarrow> bool" where
  "blocks_within cfg ls t \<longleftrightarrow>
     (let (bs, b) = blocks ls in \<forall>x \<in> set ((b @ (if t = [] then [] else [t])) # bs). block_size x \<le> MaxEventBytes cfg)"

definition sse_within :: "sse_config \<Rightarrow> stream_end \<Rightarrow> string \<Rightarrow> bool" where
  "sse_within cfg e body \<longleftrightarrow>
     (let (ls, t) = sse_split e body in lines_within cfg ls t) \<and>
     (let (ls, t) = sse_split e (TrimPrefix body utf8BOM) in blocks_within cfg ls t)"

subsection \<open>Lines\<close>

lemma read_line_terminated:
  assumes "sse_split e bs = (l # ls, t)" "int (length acc + length l) \<le> mx"
  shows "\<exists>rest. read_line mx e acc bs = (Inr (Some (acc @ l), True), rest) \<and> sse_split e rest = (ls, t)"
  using assms
proof (induction e bs arbitrary: acc l ls t rule: sse_split.induct)
  case (2 e b)
  then show ?case by (auto split: if_splits)
next
  case (3 e b c bs)
  consider "b = LF" | "b = CR" | "b \<noteq> LF" "b \<noteq> CR" by blast
  then show ?case
  proof cases
    case 3
    with "3.prems"(1) obtain l' where l': "sse_split e (c # bs) = (l' # ls, t)" "l = b # l'"
      by (auto split: prod.splits list.splits)
    then have "\<exists>rest. read_line mx e (acc @ [b]) (c # bs) = (Inr (Some ((acc @ [b]) @ l'), True), rest) \<and> sse_split e rest = (ls, t)"
      using "3.prems"(2) 3 by (intro "3.IH"(3)) auto
    with 3 l' "3.prems"(2) show ?thesis by simp
  qed (use "3.prems" in \<open>auto split: prod.splits if_splits\<close>)
qed simp

lemma read_line_rest_only:
  assumes "sse_split e bs = ([], t)" "int (length acc + length t) \<le> mx"
  shows "read_line mx e acc bs = (if e = EOF then (Inr (if acc @ t = [] then None else Some (acc @ t), False), []) else (Inl ErrMalformedStream, []))"
  using assms
proof (induction e bs arbitrary: acc t rule: sse_split.induct)
  case (1 e)
  then show ?case by (cases e) auto
next
  case (2 e b)
  then show ?case by (cases e) (auto split: if_splits)
next
  case (3 e b c bs)
  from "3.prems"(1) have b: "b \<noteq> LF" "b \<noteq> CR" by (auto split: prod.splits if_splits)
  with "3.prems"(1) obtain t' where t': "sse_split e (c # bs) = ([], t')" "t = b # t'"
    by (auto split: prod.splits list.splits)
  show ?case using "3.IH"(3) [OF b t'(1), of "acc @ [b]"] "3.prems"(2) b t'(2) by simp
qed

subsection \<open>Blocks\<close>

lemma field_values_append [simp]: "field_values name (b @ c) = field_values name b @ field_values name c"
  by (simp add: field_values_def)

lemma field_values_Nil [simp]: "field_values name [] = []"
  by (simp add: field_values_def)

lemma field_values_line: "field_values name [l] = (if hd l \<noteq> CHR '':'' \<and> fst (line_field l) = name then [snd (line_field l)] else [])"
  by (simp add: field_values_def)

lemma last_option_append [simp]: "last_option (xs @ ys) = (if ys = [] then last_option xs else last_option ys)"
  by (simp add: last_option_def)

lemma last_option_simps [simp]: "last_option [] = None" "last_option [x] = Some x"
  by (simp_all add: last_option_def)

lemma blocks_open: "[] \<notin> set b \<Longrightarrow> blocks b = ([], b)"
  by (induction b) auto

lemma blocks_closed: "[] \<notin> set b \<Longrightarrow> blocks (b @ [] # ls) = (b # fst (blocks ls), snd (blocks ls))"
  by (induction b) (auto simp: Let_def split: prod.splits)

lemma block_size_append: "block_size (b @ c) = block_size b + block_size c"
  by (simp add: block_size_def)

lemma block_size_nonneg [simp]: "0 \<le> block_size b"
  by (simp add: block_size_def)

text \<open>The pending event of the reader is the event of the lines of the block so far.\<close>

definition pending :: "string list \<Rightarrow> sse_reader \<Rightarrow> bool" where
  "pending b r \<longleftrightarrow> sdType r = block_type b \<and> sdData r = concat (map (\<lambda>v. v @ [LF]) (field_values ''data'' b)) \<and>
     sdID r = block_id b \<and> sdRetry r = block_retry b \<and> (sdHasData r \<longleftrightarrow> field_values ''data'' b \<noteq> [])"

definition same_stream :: "sse_reader \<Rightarrow> sse_reader \<Rightarrow> bool" where
  "same_stream r r' \<longleftrightarrow> sdInput r' = sdInput r \<and> sdEnd r' = sdEnd r \<and> sdConfig r' = sdConfig r \<and> sdErr r' = sdErr r \<and>
     sdSeenLine r' = sdSeenLine r"

lemma pending_reset: "pending [] (resetPendingEvent r)"
  by (simp add: pending_def resetPendingEvent_def block_type_def block_id_def block_retry_def List.map_filter_def)

lemma process_blank:
  assumes "pending b r"
  shows "\<exists>r'. processLine r [] = Inr (block_event b \<noteq> None, r') \<and> pending [] r' \<and> same_stream r r' \<and>
    (\<forall>ev. block_event b = Some ev \<longrightarrow> sdEvent r' = ev)"
proof (cases "field_values ''data'' b = []")
  case True
  with assms show ?thesis
    by (auto simp: processLine_def pending_def [of b] block_event_def pending_reset) (simp add: same_stream_def resetPendingEvent_def)
next
  case False
  then obtain vs v where vs: "field_values ''data'' b = vs @ [v]" by (cases "field_values ''data'' b" rule: rev_cases) auto
  let ?ev = "\<lparr>evType = sdType r, evData = butlast (sdData r), evID = sdID r, evRetryMilliseconds = sdRetry r\<rparr>"
  have data: "sdData r \<noteq> []" "last (sdData r) = LF" using assms by (simp_all add: pending_def vs)
  then have "processLine r [] = Inr (True, resetPendingEvent (r\<lparr>sdEvent := ?ev\<rparr>))"
    using assms False by (simp add: processLine_def pending_def dispatchEvent_def)
  moreover have "block_event b = Some ?ev"
    using assms False by (simp add: block_event_def pending_def join_lines_def)
  ultimately show ?thesis by (auto simp: pending_reset) (simp_all add: same_stream_def resetPendingEvent_def)
qed

lemma process_field:
  assumes "pending b r" "l \<noteq> []" "block_size (b @ [l]) \<le> MaxEventBytes (sdConfig r)"
  shows "\<exists>r'. processLine r l = Inr (False, r') \<and> pending (b @ [l]) r' \<and> same_stream r r'"
proof (cases "hd l = CHR '':''")
  case True
  then show ?thesis using assms
    by (auto simp: processLine_def pending_def same_stream_def block_type_def block_id_def block_retry_def field_values_line
        List.map_filter_def)
next
  case False
  obtain name v where f: "line_field l = (name, v)" by fastforce
  note vals = field_values_line [of _ l] f False
  consider "name = ''data''" | "name = ''event''" | "name = ''id''" | "name = ''retry''"
    | "name \<notin> {''data'', ''event'', ''id'', ''retry''}" by blast
  then show ?thesis
  proof cases
    case 1
    have "int (length (sdData r)) + int (length v) + 1 \<le> MaxEventBytes (sdConfig r)"
      using assms(1,3) 1 by (simp add: block_size_append) (simp add: block_size_def vals pending_def)
    then show ?thesis using assms 1 vals
      by (auto simp: processLine_def pending_def same_stream_def block_type_def block_id_def block_retry_def List.map_filter_def)
  next
    case 4
    then show ?thesis using assms vals
      by (cases "parseRetryMilliseconds v")
         (auto simp: processLine_def pending_def same_stream_def block_type_def block_id_def block_retry_def List.map_filter_def)
  qed (use assms vals in \<open>auto simp: processLine_def pending_def same_stream_def block_type_def block_id_def block_retry_def
        List.map_filter_def\<close>)
qed

subsection \<open>The loop\<close>

lemma read_all_unfold:
  assumes "sdErr r = None"
  shows "read_all r = (case next_event r of (False, r1) \<Rightarrow> ([], sdErr r1) | (True, r1) \<Rightarrow> (sdEvent r1 # fst (read_all r1), snd (read_all r1)))"
  using assms by (subst read_all.simps) (simp add: Next_def split: prod.splits bool.splits)

lemma read_all_error: "sdErr r = None \<Longrightarrow> readLine r = (Inl e, r1) \<Longrightarrow> read_all r = ([], Some e)"
  by (simp add: read_all_unfold next_event.simps)

lemma end_pending_err: "sdErr r = None \<Longrightarrow> sdErr (end_pending r) = (if sdHasData r then Some ErrMalformedStream else None)"
  by (simp add: end_pending_def resetPendingEvent_def)

lemma read_all_end: "sdErr r = None \<Longrightarrow> readLine r = (Inr (None, False), r1) \<Longrightarrow> sdErr r1 = None \<Longrightarrow>
    read_all r = ([], if sdHasData r1 then Some ErrMalformedStream else None)"
  by (simp add: read_all_unfold next_event.simps end_pending_err)

lemma read_all_line:
  assumes "sdErr r = None" "readLine r = (Inr (Some l0, terminated), r1)" "normalizeLine r1 l0 = (l, r2)"
    and "processLine r2 l = Inr (dispatched, r3)" "sdErr r3 = None"
  shows "read_all r = (if dispatched then (sdEvent r3 # fst (read_all r3), snd (read_all r3))
    else if terminated then read_all r3 else ([], if sdHasData r3 then Some ErrMalformedStream else None))"
proof (cases "\<not> dispatched \<and> terminated")
  case True
  then have "next_event r = next_event r3" using assms by (subst next_event.simps) simp
  with True show ?thesis by (simp add: read_all_unfold assms(1,5))
next
  case False
  then show ?thesis using assms by (auto simp: read_all_unfold [OF assms(1)] next_event.simps [of r] end_pending_err)
qed

lemma readLine_line:
  assumes "sse_split (sdEnd r) (sdInput r) = (l # ls, t)" "int (length l) \<le> MaxLineBytes (sdConfig r)"
  obtains rest n where "readLine r = (Inr (Some l, True), r\<lparr>sdInput := rest, sdActivity := n\<rparr>)" "sse_split (sdEnd r) rest = (ls, t)"
proof -
  obtain rest where "read_line (MaxLineBytes (sdConfig r)) (sdEnd r) [] (sdInput r) = (Inr (Some l, True), rest)"
    "sse_split (sdEnd r) rest = (ls, t)"
    using read_line_terminated [OF assms(1), of "[]"] assms(2) by auto
  then show thesis by (intro that [of "sdActivity r + 1" rest]) (simp_all add: readLine_def)
qed

definition trimmed :: "sse_reader \<Rightarrow> string \<Rightarrow> string" where
  "trimmed r l = (if sdSeenLine r then l else TrimPrefix l utf8BOM)"

lemma pending_cong: "pending b r \<Longrightarrow> sdType r' = sdType r \<Longrightarrow> sdData r' = sdData r \<Longrightarrow> sdID r' = sdID r \<Longrightarrow> sdRetry r' = sdRetry r \<Longrightarrow>
    sdHasData r' = sdHasData r \<Longrightarrow> pending b r'"
  by (simp add: pending_def)

lemma normalized_line:
  assumes "pending b r"
  obtains r2 where "normalizeLine (r\<lparr>sdInput := rest, sdActivity := n\<rparr>) l0 = (trimmed r l0, r2)" "sdSeenLine r2" "pending b r2"
    "sdInput r2 = rest" "sdEnd r2 = sdEnd r" "sdConfig r2 = sdConfig r" "sdErr r2 = sdErr r"
proof
  let ?r2 = "r\<lparr>sdInput := rest, sdActivity := n, sdSeenLine := True\<rparr>"
  show "pending b ?r2" by (rule pending_cong [OF assms]) simp_all
  show "normalizeLine (r\<lparr>sdInput := rest, sdActivity := n\<rparr>) l0 = (trimmed r l0, ?r2)"
    by (simp add: normalizeLine_def trimmed_def)
qed simp_all

lemma terminated_step:
  assumes "sdErr r = None" "sse_split (sdEnd r) (sdInput r) = (l0 # ls, t)" "int (length l0) \<le> MaxLineBytes (sdConfig r)"
    and "pending b r" "trimmed r l0 \<noteq> [] \<Longrightarrow> block_size (b @ [trimmed r l0]) \<le> MaxEventBytes (sdConfig r)"
  obtains r3 where "sdErr r3 = None" "sdSeenLine r3" "sdEnd r3 = sdEnd r" "sdConfig r3 = sdConfig r"
    "sse_split (sdEnd r3) (sdInput r3) = (ls, t)"
    "if trimmed r l0 \<noteq> [] then pending (b @ [trimmed r l0]) r3 \<and> read_all r = read_all r3
     else pending [] r3 \<and> read_all r =
       (case block_event b of None \<Rightarrow> read_all r3 | Some ev \<Rightarrow> (ev # fst (read_all r3), snd (read_all r3)))"
proof -
  obtain rest n where r1: "readLine r = (Inr (Some l0, True), r\<lparr>sdInput := rest, sdActivity := n\<rparr>)" "sse_split (sdEnd r) rest = (ls, t)"
    by (rule readLine_line [OF assms(2,3)])
  obtain r2 where r2: "normalizeLine (r\<lparr>sdInput := rest, sdActivity := n\<rparr>) l0 = (trimmed r l0, r2)" "sdSeenLine r2"
    "pending b r2" "sdInput r2 = rest" "sdEnd r2 = sdEnd r" "sdConfig r2 = sdConfig r" "sdErr r2 = sdErr r"
    by (rule normalized_line [OF assms(4)])
  show thesis
  proof (cases "trimmed r l0 = []")
    case True
    obtain r3 where r3: "processLine r2 [] = Inr (block_event b \<noteq> None, r3)" "pending [] r3" "same_stream r2 r3"
      "\<And>ev. block_event b = Some ev \<Longrightarrow> sdEvent r3 = ev"
      using process_blank [OF r2(3)] by blast
    have s: "sdErr r3 = None" using r3(3) r2(7) assms(1) by (simp add: same_stream_def)
    note all = read_all_line [OF assms(1) r1(1) r2(1) r3(1) [folded True] s]
    show thesis using r3 r2 r1(2) s all
      by (intro that [of r3]) (auto simp: same_stream_def True split: option.splits)
  next
    case False
    obtain r3 where r3: "processLine r2 (trimmed r l0) = Inr (False, r3)" "pending (b @ [trimmed r l0]) r3" "same_stream r2 r3"
      using process_field [OF r2(3) False] assms(5) [OF False] r2(6) by metis
    have s: "sdErr r3 = None" using r3(3) r2(7) assms(1) by (simp add: same_stream_def)
    note all = read_all_line [OF assms(1) r1(1) r2(1) r3(1) s]
    show thesis using r3 r2 r1(2) s all False
      by (intro that [of r3]) (auto simp: same_stream_def)
  qed
qed

lemma end_step:
  assumes "sdErr r = None" "sse_split (sdEnd r) (sdInput r) = ([], t)" "int (length t) \<le> MaxLineBytes (sdConfig r)"
    and "pending b r" "trimmed r t \<noteq> [] \<Longrightarrow> block_size (b @ [trimmed r t]) \<le> MaxEventBytes (sdConfig r)" "sdSeenLine r \<or> b = []"
  shows "read_all r = ([], end_error (sdEnd r) b (trimmed r t))"
proof -
  note line = read_line_rest_only [OF assms(2), of "[]" "MaxLineBytes (sdConfig r)"]
  show ?thesis
  proof (cases "sdEnd r = ReadError")
    case True
    then have "readLine r = (Inl ErrMalformedStream, r\<lparr>sdInput := []\<rparr>)" using line assms(3) by (simp add: readLine_def)
    then show ?thesis using True by (simp add: read_all_error [OF assms(1)] end_error_def)
  next
    case False
    then have e: "sdEnd r = EOF" by (cases "sdEnd r") simp_all
    show ?thesis
    proof (cases "t = []")
      case True
      then have "readLine r = (Inr (None, False), r\<lparr>sdInput := []\<rparr>)" using line assms(3) e by (simp add: readLine_def)
      then show ?thesis using assms(4) e True
        by (simp add: read_all_end [OF assms(1)] assms(1) end_error_def pending_def trimmed_def TrimPrefix_def utf8BOM_def)
    next
      case False
      let ?r1 = "r\<lparr>sdInput := [], sdActivity := sdActivity r + 1\<rparr>"
      have r1: "readLine r = (Inr (Some t, False), ?r1)" using line assms(3) e False by (simp add: readLine_def)
      obtain r2 where r2: "normalizeLine ?r1 t = (trimmed r t, r2)" "sdSeenLine r2" "pending b r2" "sdInput r2 = []"
        "sdEnd r2 = sdEnd r" "sdConfig r2 = sdConfig r" "sdErr r2 = sdErr r"
        by (rule normalized_line [OF assms(4)])
      show ?thesis
      proof (cases "trimmed r t = []")
        case True
        then have b: "b = []" using False assms(6) by (auto simp: trimmed_def)
        obtain r3 where r3: "processLine r2 [] = Inr (block_event b \<noteq> None, r3)" "pending [] r3" "same_stream r2 r3"
          using process_blank [OF r2(3)] by blast
        have s: "sdErr r3 = None" using r3(3) r2(7) assms(1) by (simp add: same_stream_def)
        show ?thesis using read_all_line [OF assms(1) r1 r2(1) r3(1) [folded True] s] r3(2) e
          by (simp add: b True block_event_def end_error_def pending_def)
      next
        case False
        obtain r3 where r3: "processLine r2 (trimmed r t) = Inr (False, r3)" "pending (b @ [trimmed r t]) r3" "same_stream r2 r3"
          using process_field [OF r2(3) False] assms(5) [OF False] r2(6) by metis
        have s: "sdErr r3 = None" using r3(3) r2(7) assms(1) by (simp add: same_stream_def)
        show ?thesis using read_all_line [OF assms(1) r1 r2(1) r3(1) s] r3(2) e False
          by (simp add: end_error_def pending_def)
      qed
    qed
  qed
qed

lemma blocks_within_open:
  assumes "[] \<notin> set b" "blocks_within cfg (b @ l # ls) t" "l \<noteq> []"
  shows "block_size (b @ [l]) \<le> MaxEventBytes cfg"
proof -
  obtain cs c where split: "blocks ls = (cs, c)" by fastforce
  have b: "blocks (b @ l # ls) = (case cs of [] \<Rightarrow> ([], b @ l # c) | d # ds \<Rightarrow> ((b @ l # d) # ds, c))"
    using assms(1,3) split by (induction b) (auto split: list.splits)
  have eq: "block_size (b @ l # x) = block_size (b @ [l]) + block_size x" for x using block_size_append [of "b @ [l]" x] by simp
  obtain x where "block_size (b @ l # x) \<le> MaxEventBytes cfg"
  proof (cases cs)
    case Nil
    then show thesis using assms(2) by (intro that [of "c @ (if t = [] then [] else [t])"]) (simp add: blocks_within_def b)
  next
    case (Cons d ds)
    then show thesis using assms(2) by (intro that [of d]) (simp add: blocks_within_def b)
  qed
  then show ?thesis using block_size_nonneg [of x] eq [of x] by linarith
qed

lemma stream_meaning_line: "[] \<notin> set b \<Longrightarrow> stream_meaning e (b @ [] # ls) t =
    (case block_event b of None \<Rightarrow> stream_meaning e ls t | Some ev \<Rightarrow> (ev # fst (stream_meaning e ls t), snd (stream_meaning e ls t)))"
  by (simp add: stream_meaning_def blocks_closed List.map_filter_simps split: option.splits prod.splits)

lemma read_lines:
  assumes "sdErr r = None" "sdSeenLine r" "sse_split (sdEnd r) (sdInput r) = (ls, t)" "pending b r" "[] \<notin> set b"
    and "lines_within (sdConfig r) ls t" "blocks_within (sdConfig r) (b @ ls) t"
  shows "read_all r = stream_meaning (sdEnd r) (b @ ls) t"
  using assms
proof (induction ls arbitrary: r b)
  case Nil
  have t: "trimmed r t = t" using Nil(2) by (simp add: trimmed_def)
  have "read_all r = ([], end_error (sdEnd r) b (trimmed r t))"
  proof (rule end_step [OF Nil(1,3)])
    show "int (length t) \<le> MaxLineBytes (sdConfig r)" using Nil(6) by (simp add: lines_within_def)
    show "trimmed r t \<noteq> [] \<Longrightarrow> block_size (b @ [trimmed r t]) \<le> MaxEventBytes (sdConfig r)"
      using Nil(5,7) by (simp add: blocks_within_def blocks_open t)
  qed (use Nil in simp_all)
  then show ?case using Nil(5) by (simp add: stream_meaning_def blocks_open t List.map_filter_simps)
next
  case (Cons l ls)
  have t: "trimmed r l = l" using Cons(3) by (simp add: trimmed_def)
  obtain r3 where r3: "sdErr r3 = None" "sdSeenLine r3" "sdEnd r3 = sdEnd r" "sdConfig r3 = sdConfig r"
    "sse_split (sdEnd r3) (sdInput r3) = (ls, t)"
    "if trimmed r l \<noteq> [] then pending (b @ [trimmed r l]) r3 \<and> read_all r = read_all r3
     else pending [] r3 \<and> read_all r =
       (case block_event b of None \<Rightarrow> read_all r3 | Some ev \<Rightarrow> (ev # fst (read_all r3), snd (read_all r3)))"
  proof (rule terminated_step [OF Cons(2,4) _ Cons(5)])
    show "int (length l) \<le> MaxLineBytes (sdConfig r)" using Cons(7) by (simp add: lines_within_def)
    show "trimmed r l \<noteq> [] \<Longrightarrow> block_size (b @ [trimmed r l]) \<le> MaxEventBytes (sdConfig r)"
      using blocks_within_open [OF Cons(6,8)] t by simp
  qed
  have within: "lines_within (sdConfig r3) ls t" using Cons(7) r3(4) by (simp add: lines_within_def)
  show ?case
  proof (cases "l = []")
    case True
    have "blocks_within (sdConfig r3) ls t"
      using Cons(6,8) r3(4) by (cases "blocks ls") (simp add: blocks_within_def True blocks_closed)
    then have "read_all r3 = stream_meaning (sdEnd r) ls t"
      using Cons(1) [OF r3(1,2,5), of "[]"] r3(3,6) within True t by simp
    then show ?thesis using r3(6) True t Cons(6) by (simp add: stream_meaning_line split: option.split)
  next
    case False
    have "read_all r3 = stream_meaning (sdEnd r3) ((b @ [l]) @ ls) t"
      using r3(6) within Cons(6,8) r3(4) False t by (intro Cons(1) r3) auto
    then show ?thesis using r3(3,6) False t by simp
  qed
qed

subsection \<open>The first line\<close>

lemma BOM_char: "c \<in> set utf8BOM \<Longrightarrow> c \<noteq> LF \<and> c \<noteq> CR"
  by (auto simp: utf8BOM_def)

lemma split_prepend: "\<forall>c \<in> set p. c \<noteq> LF \<and> c \<noteq> CR \<Longrightarrow>
    sse_split e (p @ s) = (case sse_split e s of ([], t) \<Rightarrow> ([], p @ t) | (l # ls, t) \<Rightarrow> ((p @ l) # ls, t))"
proof (induction p)
  case (Cons c p)
  then show ?case by (cases "p @ s") (auto split: prod.splits list.splits)
qed (auto split: prod.splits list.splits)

lemma split_head: "sse_split e s = (l # ls, t) \<Longrightarrow> take (length l) s = l"
proof (induction e s arbitrary: l ls t rule: sse_split.induct)
  case (3 e b c bs)
  then show ?case by (auto split: prod.splits list.splits if_splits)
qed (auto split: if_splits)

lemma split_whole: "sse_split e s = ([], t) \<Longrightarrow> take (length t) s = t"
proof (induction e s arbitrary: t rule: sse_split.induct)
  case (3 e b c bs)
  then show ?case by (auto split: prod.splits list.splits if_splits)
qed (auto split: if_splits)

lemma not_bom:
  assumes "take (length l) s = l" "TrimPrefix s utf8BOM = s"
  shows "TrimPrefix l utf8BOM = l"
proof (cases "take (length utf8BOM) l = utf8BOM")
  case True
  have "length utf8BOM \<le> length l" using True by (metis length_take min.absorb_iff2 min.commute)
  then have "take (length utf8BOM) s = utf8BOM" using True assms(1) by (metis min.absorb1 take_take)
  then have "drop (length utf8BOM) s = s" using assms(2) by (simp add: TrimPrefix_def)
  then have "length s - length utf8BOM = length s" by (metis length_drop)
  then have "s = []" by (simp add: utf8BOM_def) (cases s; simp)
  then show ?thesis using \<open>take (length utf8BOM) s = utf8BOM\<close> by (simp add: utf8BOM_def)
qed (simp add: TrimPrefix_def)

lemma split_trimmed:
  "sse_split e (TrimPrefix s utf8BOM) = (case sse_split e s of
     ([], t) \<Rightarrow> ([], TrimPrefix t utf8BOM) | (l # ls, t) \<Rightarrow> (TrimPrefix l utf8BOM # ls, t))"
proof (cases "take (length utf8BOM) s = utf8BOM")
  case True
  then have s: "s = utf8BOM @ drop (length utf8BOM) s" by (metis append_take_drop_id)
  have "sse_split e s = (case sse_split e (drop (length utf8BOM) s) of
      ([], t) \<Rightarrow> ([], utf8BOM @ t) | (l # ls, t) \<Rightarrow> ((utf8BOM @ l) # ls, t))"
    by (subst s) (rule split_prepend, use BOM_char in blast)
  then show ?thesis using True by (auto simp: TrimPrefix_def split: prod.splits list.splits)
next
  case False
  then have s: "TrimPrefix s utf8BOM = s" by (simp add: TrimPrefix_def)
  obtain ls t where split: "sse_split e s = (ls, t)" by fastforce
  show ?thesis
  proof (cases ls)
    case Nil
    then show ?thesis using split not_bom [OF split_whole s, of e t] s by simp
  next
    case (Cons l ls')
    then show ?thesis using split not_bom [OF split_head s, of e l ls' t] s by simp
  qed
qed

text \<open>Within its bounds the reader delivers what the stream means.\<close>

lemma reader_meaning:
  assumes "sse_within (normalizeConfig cfg) e body"
  shows "sse_events cfg body e = sse_meaning e body"
proof -
  let ?r = "NewReader body e cfg"
  obtain ls t where split: "sse_split e body = (ls, t)" by fastforce
  have r: "sdErr ?r = None" "\<not> sdSeenLine ?r" "sdEnd ?r = e" "sdInput ?r = body" "sdConfig ?r = normalizeConfig cfg" "pending [] ?r"
    by (simp_all add: NewReader_def pending_def block_type_def block_id_def block_retry_def List.map_filter_simps)
  have within: "lines_within (normalizeConfig cfg) ls t" using assms split by (simp add: sse_within_def)
  show ?thesis
  proof (cases ls)
    case Nil
    then have t: "sse_split e (TrimPrefix body utf8BOM) = ([], trimmed ?r t)" using split r(2) by (simp add: split_trimmed trimmed_def)
    have "blocks_within (normalizeConfig cfg) [] (trimmed ?r t)" using assms t by (simp add: sse_within_def)
    then have "read_all ?r = ([], end_error (sdEnd ?r) [] (trimmed ?r t))"
      using r split within Nil by (intro end_step) (simp_all add: lines_within_def blocks_within_def)
    then show ?thesis using t r(3) by (simp add: sse_events_def sse_meaning_def stream_meaning_def List.map_filter_simps)
  next
    case (Cons l ls')
    let ?l = "trimmed ?r l"
    have t: "sse_split e (TrimPrefix body utf8BOM) = (?l # ls', t)" using split Cons r(2) by (simp add: split_trimmed trimmed_def)
    have bs: "blocks_within (normalizeConfig cfg) (?l # ls') t" using assms t by (simp add: sse_within_def)
    obtain r3 where r3: "sdErr r3 = None" "sdSeenLine r3" "sdEnd r3 = sdEnd ?r" "sdConfig r3 = sdConfig ?r"
      "sse_split (sdEnd r3) (sdInput r3) = (ls', t)"
      "if ?l \<noteq> [] then pending ([] @ [?l]) r3 \<and> read_all ?r = read_all r3
       else pending [] r3 \<and> read_all ?r =
         (case block_event [] of None \<Rightarrow> read_all r3 | Some ev \<Rightarrow> (ev # fst (read_all r3), snd (read_all r3)))"
    proof (rule terminated_step [of ?r l ls' t])
      show "sse_split (sdEnd ?r) (sdInput ?r) = (l # ls', t)" using split Cons r by simp
      show "int (length l) \<le> MaxLineBytes (sdConfig ?r)" using within Cons r by (simp add: lines_within_def)
      show "?l \<noteq> [] \<Longrightarrow> block_size ([] @ [?l]) \<le> MaxEventBytes (sdConfig ?r)"
        using blocks_within_open [of "[]" "normalizeConfig cfg" ?l ls' t] bs r by simp
    qed (use r in simp_all)
    have w: "lines_within (sdConfig r3) ls' t" using within Cons r r3(4) by (simp add: lines_within_def)
    have "read_all ?r = stream_meaning e (?l # ls') t"
    proof (cases "?l = []")
      case True
      have "blocks_within (sdConfig r3) ls' t" using bs r r3(4) True by (cases "blocks ls'") (simp add: blocks_within_def)
      then have "read_all r3 = stream_meaning (sdEnd r3) ([] @ ls') t" using r3 w True by (intro read_lines) simp_all
      then show ?thesis using r3(3,6) r(3) True stream_meaning_line [of "[]" e ls' t] by (simp add: block_event_def)
    next
      case False
      have "read_all r3 = stream_meaning (sdEnd r3) ([?l] @ ls') t" using r3 w bs r False by (intro read_lines) simp_all
      then show ?thesis using r3(3,6) r(3) False by simp
    qed
    then show ?thesis using t by (simp add: sse_events_def sse_meaning_def)
  qed
qed

end
