(* ===== verification/Sse_Laws.thy ===== *)
theory Sse_Laws
  imports Sse_Spec "HOL-Library.Sublist"
begin

text \<open>
  What the two ends of a stream promise together: what is written is read, a stream that is cut delivers a prefix of the
  events, and no event or line grows beyond its bound.
\<close>

subsection \<open>Cut streams\<close>

lemma read_line_extended:
  assumes "read_line mx e acc xs = (Inr (Some l, True), rest)"
  shows "\<exists>zs. read_line mx EOF acc (xs @ ys) = (Inr (Some l, True), rest @ zs)"
  using assms
proof (induction mx e acc xs rule: read_line.induct)
  case (1 mx e line)
  then show ?case by (cases e) auto
next
  case (2 mx e line b bs)
  show ?case
  proof (cases "b = CR")
    case True
    show ?thesis
    proof (cases bs)
      case Nil
      then have "e = EOF" "l = line" "rest = []" using 2(2) True by (cases e; simp)+
      with True Nil show ?thesis by (cases ys) (auto simp: exI [of _ "tl ys"])
    next
      case (Cons c cs)
      then show ?thesis using 2(2) True by (auto split: if_splits)
    qed
  next
    case False
    then show ?thesis using 2 by (auto split: if_splits)
  qed
qed

text \<open>Two readers that differ in what comes after the bytes of the first.\<close>

definition extends :: "sse_reader \<Rightarrow> sse_reader \<Rightarrow> bool" where
  "extends r r' \<longleftrightarrow> (\<exists>ys n. r' = r\<lparr>sdInput := sdInput r @ ys, sdEnd := EOF, sdActivity := n\<rparr>)"

lemma readLine_extended:
  assumes "extends r r'" "readLine r = (Inr (Some l, True), r1)"
  obtains r1' where "readLine r' = (Inr (Some l, True), r1')" "extends r1 r1'"
proof -
  obtain ys n where r': "r' = r\<lparr>sdInput := sdInput r @ ys, sdEnd := EOF, sdActivity := n\<rparr>" using assms(1) by (auto simp: extends_def)
  obtain rest where rest: "read_line (MaxLineBytes (sdConfig r)) (sdEnd r) [] (sdInput r) = (Inr (Some l, True), rest)"
    "r1 = r\<lparr>sdInput := rest, sdActivity := sdActivity r + 1\<rparr>"
    using assms(2) by (auto simp: readLine_def Let_def split: prod.splits)
  obtain zs where zs: "read_line (MaxLineBytes (sdConfig r)) EOF [] (sdInput r @ ys) = (Inr (Some l, True), rest @ zs)"
    using read_line_extended [OF rest(1)] by blast
  show thesis
  proof (rule that)
    show "readLine r' = (Inr (Some l, True), r'\<lparr>sdInput := rest @ zs, sdActivity := sdActivity r' + 1\<rparr>)"
      using zs by (simp add: readLine_def r')
    show "extends r1 (r'\<lparr>sdInput := rest @ zs, sdActivity := sdActivity r' + 1\<rparr>)"
      unfolding extends_def by (intro exI [of _ zs] exI [of _ "n + 1"]) (simp add: rest(2) r')
  qed
qed

lemma normalizeLine_extended: "extends r r' \<Longrightarrow> normalizeLine r l = (l', r2) \<Longrightarrow> \<exists>r2'. normalizeLine r' l = (l', r2') \<and> extends r2 r2'"
proof -
  assume "extends r r'" "normalizeLine r l = (l', r2)"
  then obtain ys n where "r' = r\<lparr>sdInput := sdInput r @ ys, sdEnd := EOF, sdActivity := n\<rparr>" "normalizeLine r l = (l', r2)"
    by (auto simp: extends_def)
  then show ?thesis unfolding extends_def
    by (intro exI [of _ "r2\<lparr>sdInput := sdInput r2 @ ys, sdEnd := EOF, sdActivity := n\<rparr>"] conjI exI [of _ ys] exI [of _ n])
       (auto simp: normalizeLine_def split: if_splits)
qed

lemma processLine_extended:
  assumes "extends r r'" "processLine r l = Inr (d, r3)"
  shows "\<exists>r3'. processLine r' l = Inr (d, r3') \<and> extends r3 r3' \<and> sdEvent r3' = sdEvent r3 \<and> sdErr r3' = sdErr r3"
proof -
  obtain ys n where r': "r' = r\<lparr>sdInput := sdInput r @ ys, sdEnd := EOF, sdActivity := n\<rparr>" using assms(1) by (auto simp: extends_def)
  have "processLine r' l = map_sum id (map_prod id (\<lambda>r. r\<lparr>sdInput := sdInput r @ ys, sdEnd := EOF, sdActivity := n\<rparr>)) (processLine r l)"
    by (cases "line_field l"; cases "parseRetryMilliseconds (snd (line_field l))")
       (simp_all add: r' processLine_def Let_def resetPendingEvent_def dispatchEvent_def)
  then show ?thesis using assms(2) by (auto simp: extends_def)
qed

lemma processLine_err: "processLine r l = Inr (d, r3) \<Longrightarrow> sdErr r3 = sdErr r"
  by (auto simp: processLine_def Let_def resetPendingEvent_def dispatchEvent_def split: if_splits prod.splits option.splits)

lemma processLine_seen: "processLine r l = Inr (d, r3) \<Longrightarrow> sdSeenLine r3 = sdSeenLine r"
  by (auto simp: processLine_def Let_def resetPendingEvent_def dispatchEvent_def split: if_splits prod.splits option.splits)

lemma processLine_end: "processLine r l = Inr (d, r3) \<Longrightarrow> sdEnd r3 = sdEnd r"
  by (auto simp: processLine_def Let_def resetPendingEvent_def dispatchEvent_def split: if_splits prod.splits option.splits)

lemma dispatched_blank: "processLine r l = Inr (True, r3) \<Longrightarrow> l = [] \<and> sdHasData r"
  by (auto simp: processLine_def Let_def split: if_splits prod.splits option.splits)

text \<open>The ways a round of the loop goes, for a reader that has no error yet and has no data before the first line.\<close>

definition ready :: "sse_reader \<Rightarrow> bool" where
  "ready r \<longleftrightarrow> sdErr r = None \<and> (sdSeenLine r \<or> \<not> sdHasData r)"

lemma readLine_fields: "readLine r = (x, r1) \<Longrightarrow> sdErr r1 = sdErr r \<and> sdSeenLine r1 = sdSeenLine r \<and> sdHasData r1 = sdHasData r \<and> sdEnd r1 = sdEnd r"
  by (auto simp: readLine_def Let_def split: prod.splits)

lemma readLine_nonempty: "readLine r = (Inr (Some l, False), r1) \<Longrightarrow> l \<noteq> [] \<and> sdEnd r = EOF"
proof -
  have "read_line mx e acc xs = (Inr (Some l, False), rest) \<Longrightarrow> l \<noteq> [] \<and> e = EOF" for mx e acc xs rest
    by (induction mx e acc xs rule: read_line.induct) (auto split: if_splits stream_end.splits list.splits)
  then show "readLine r = (Inr (Some l, False), r1) \<Longrightarrow> ?thesis"
    by (auto simp: readLine_def Let_def split: prod.splits)
qed

lemma readLine_none: "readLine r = (Inr (None, t), r1) \<Longrightarrow> \<not> t \<and> sdEnd r = EOF"
proof -
  have "read_line mx e acc xs = (Inr (None, t), rest) \<Longrightarrow> \<not> t \<and> e = EOF" for mx e acc xs rest
    by (induction mx e acc xs rule: read_line.induct) (auto split: if_splits stream_end.splits list.splits)
  then show "readLine r = (Inr (None, t), r1) \<Longrightarrow> ?thesis"
    by (auto simp: readLine_def Let_def split: prod.splits)
qed

lemma read_all_rounds:
  assumes "ready r"
  obtains (last) e where "read_all r = ([], e)" "sdEnd r = ReadError \<Longrightarrow> e \<noteq> None"
  | (line) l0 r1 l r2 d r3 where "readLine r = (Inr (Some l0, True), r1)" "normalizeLine r1 l0 = (l, r2)"
      "processLine r2 l = Inr (d, r3)" "ready r3" "sdEnd r3 = sdEnd r" "length (sdInput r3) < length (sdInput r)"
      "read_all r = (if d then (sdEvent r3 # fst (read_all r3), snd (read_all r3)) else read_all r3)"
proof -
  have err: "sdErr r = None" using assms by (simp add: ready_def)
  obtain res r1 where read: "readLine r = (res, r1)" by fastforce
  note f = readLine_fields [OF read]
  show thesis
  proof (cases res)
    case (Inl e)
    then show thesis using read by (intro last [of "Some e"]) (simp_all add: read_all_error [OF err])
  next
    case (Inr x)
    then obtain line terminated where x: "res = Inr (line, terminated)" by (cases x) simp
    show thesis
    proof (cases line)
      case None
      then have "\<not> terminated" "sdEnd r = EOF" using readLine_none read x by auto
      then show thesis using read x None f err
        by (intro last [of "if sdHasData r1 then Some ErrMalformedStream else None"]) (simp_all add: read_all_end)
    next
      case (Some l0)
      obtain l r2 where norm: "normalizeLine r1 l0 = (l, r2)" by fastforce
      have f2: "sdErr r2 = None" "sdSeenLine r2" "sdHasData r2 = sdHasData r" "sdEnd r2 = sdEnd r" "sdInput r2 = sdInput r1"
        using norm f err by (auto simp: normalizeLine_def split: if_splits)
      show thesis
      proof (cases "processLine r2 l")
        case (Inl e)
        then have "read_all r = ([], Some e)" using read x Some norm
          by (simp add: read_all_unfold [OF err] next_event.simps)
        then show thesis by (intro last [of "Some e"]) simp_all
      next
        case (Inr y)
        then obtain d r3 where proc: "processLine r2 l = Inr (d, r3)" by (cases y) simp
        have f3: "sdErr r3 = None" "sdSeenLine r3" "sdEnd r3 = sdEnd r"
          using processLine_err [OF proc] processLine_seen [OF proc] processLine_end [OF proc] f2 by simp_all
        note all = read_all_line [OF err read [unfolded x Some] norm proc f3(1)]
        show thesis
        proof (cases terminated)
          case True
          have "length (sdInput r3) < length (sdInput r)"
            using readLine_shorter [of r line terminated r1] read x Some processLine_input [OF proc] f2(5) by simp
          moreover have "read_all r = (if d then (sdEvent r3 # fst (read_all r3), snd (read_all r3)) else read_all r3)"
            using all by (simp only: True if_True)
          moreover have "readLine r = (Inr (Some l0, True), r1)" using read x Some True by simp
          ultimately show thesis using f3 by (intro line [OF _ norm proc]) (simp_all only: ready_def simp_thms)
        next
          case False
          then have "l0 \<noteq> []" "sdEnd r = EOF" using readLine_nonempty read x Some by auto
          have "\<not> d"
          proof
            assume d
            then have "l = []" "sdHasData r2" using dispatched_blank proc by auto
            then have "sdSeenLine r1" using f f2(3) assms by (simp add: ready_def)
            then show False using norm \<open>l = []\<close> \<open>l0 \<noteq> []\<close> by (simp add: normalizeLine_def)
          qed
          then show thesis using all False \<open>sdEnd r = EOF\<close>
            by (intro last [of "if sdHasData r3 then Some ErrMalformedStream else None"]) simp_all
        qed
      qed
    qed
  qed
qed

lemma extends_ready: "extends r r' \<Longrightarrow> ready r \<Longrightarrow> ready r'"
  by (auto simp: extends_def ready_def)

lemma extends_prefix: "ready r \<Longrightarrow> extends r r' \<Longrightarrow> prefix (fst (read_all r)) (fst (read_all r'))"
proof (induction "length (sdInput r)" arbitrary: r r' rule: less_induct)
  case less
  from less(2) show ?case
  proof (cases rule: read_all_rounds)
    case (line l0 r1 l r2 d r3)
    obtain r1' where r1': "readLine r' = (Inr (Some l0, True), r1')" "extends r1 r1'"
      by (rule readLine_extended [OF less(3) line(1)])
    obtain r2' where r2': "normalizeLine r1' l0 = (l, r2')" "extends r2 r2'"
      using normalizeLine_extended [OF r1'(2) line(2)] by blast
    obtain r3' where r3': "processLine r2' l = Inr (d, r3')" "extends r3 r3'" "sdEvent r3' = sdEvent r3" "sdErr r3' = sdErr r3"
      using processLine_extended [OF r2'(2) line(3)] by blast
    have "sdErr r' = None" "sdErr r3' = None"
      using extends_ready [OF less(3,2)] r3'(4) line(4) by (simp_all add: ready_def)
    then have "read_all r' = (if d then (sdEvent r3' # fst (read_all r3'), snd (read_all r3')) else read_all r3')"
      using read_all_line [OF _ r1'(1) r2'(1) r3'(1)] by simp
    moreover have "prefix (fst (read_all r3)) (fst (read_all r3'))" by (rule less(1) [OF line(6,4) r3'(2)])
    ultimately show ?thesis using line(7) r3'(3) by simp
  qed simp
qed

lemma broken_reported: "ready r \<Longrightarrow> sdEnd r = ReadError \<Longrightarrow> snd (read_all r) \<noteq> None"
proof (induction "length (sdInput r)" arbitrary: r rule: less_induct)
  case less
  from less(2) show ?case
  proof (cases rule: read_all_rounds)
    case (line l0 r1 l r2 d r3)
    have "snd (read_all r3) \<noteq> None" using line(5) less(3) by (intro less(1) [OF line(6,4)]) simp
    with line(7) show ?thesis by simp
  qed (use less(3) in simp)
qed

lemma NewReader_ready: "ready (NewReader body e cfg)"
  by (simp add: NewReader_def ready_def)

lemma cut_prefix: "prefix (fst (sse_events cfg xs e)) (fst (sse_events cfg (xs @ ys) EOF))"
  unfolding sse_events_def
  by (rule extends_prefix [OF NewReader_ready]) (auto simp: extends_def NewReader_def)

subsection \<open>What the writer puts out\<close>

datatype sse_frame = Event sse_event | Comment string

text \<open>A stream of frames, each with what its call meets. The handlers go on after an error; the writer does not.\<close>

fun write_frame :: "write_call \<Rightarrow> sse_frame \<Rightarrow> sse_writer \<Rightarrow> write_error option \<times> sse_writer" where
  "write_frame call (Event ev) s = WriteEvent call ev s"
| "write_frame call (Comment text) s = WriteComment call text s"

fun write_frames :: "(write_call \<times> sse_frame) list \<Rightarrow> sse_writer \<Rightarrow> sse_writer" where
  "write_frames [] s = s"
| "write_frames ((call, f) # fs) s = write_frames fs (snd (write_frame call f s))"

definition opened :: "nat option \<Rightarrow> sse_writer_config \<Rightarrow> sse_writer" where
  "opened room cfg = projr (NewSSEWriter True room cfg)"

definition event_fields :: "sse_event \<Rightarrow> string list" where
  "event_fields ev =
     (if evType ev \<noteq> [] then [''event: '' @ evType ev] else []) @
     (case evID ev of None \<Rightarrow> [] | Some i \<Rightarrow> [''id: '' @ i]) @
     (case evRetryMilliseconds ev of None \<Rightarrow> [] | Some n \<Rightarrow> [''retry: '' @ sprint_int n]) @
     map (\<lambda>line. ''data: '' @ line) (splitSSEDataLines (evData ev))"

fun frame_lines :: "sse_frame \<Rightarrow> string list" where
  "frame_lines (Event ev) = event_fields ev"
| "frame_lines (Comment text) = ['': '' @ text]"

definition frame_text :: "sse_frame \<Rightarrow> string" where
  "frame_text f = concat (map (\<lambda>l. l @ [LF]) (frame_lines f @ [[]]))"

lemma event_text: "concat (event_lines ev) = frame_text (Event ev)"
proof -
  have "event_lines ev = map (\<lambda>l. l @ [LF]) (event_fields ev @ [[]])"
    by (auto simp: event_lines_def event_fields_def split: option.splits)
  then show ?thesis by (simp add: frame_text_def)
qed

text \<open>A text went out whole, or a part of it and then the error stays; with room nothing fails.\<close>

definition wrote :: "string \<Rightarrow> write_error option \<Rightarrow> sse_writer \<Rightarrow> sse_writer \<Rightarrow> bool" where
  "wrote t e s s' \<longleftrightarrow>
     (\<exists>p. prefix p t \<and> swOut s' = swOut s @ p \<and> (e = None \<longrightarrow> p = t)) \<and> swConfig s' = swConfig s \<and>
     swErr s' = (if e = None then swErr s else e) \<and> (swRoom s = None \<longrightarrow> e = None \<and> swRoom s' = None)"

lemma writeRaw_wrote: "writeRaw t s = (e, s') \<Longrightarrow> wrote t e s s'"
  by (auto simp: wrote_def writeRaw_def take_is_prefix split: option.splits if_splits)

lemma wrote_append: "wrote t None s s1 \<Longrightarrow> wrote u e s1 s' \<Longrightarrow> wrote (t @ u) e s s'"
proof -
  assume w: "wrote t None s s1" "wrote u e s1 s'"
  from w(2) obtain q where "prefix q u" "swOut s' = swOut s1 @ q" "e = None \<longrightarrow> q = u" by (auto simp: wrote_def)
  with w show ?thesis by (auto simp: wrote_def intro!: exI [of _ "t @ q"])
qed

lemma wrote_stop: "wrote t (Some x) s s' \<Longrightarrow> wrote (t @ u) (Some x) s s'"
  unfolding wrote_def by (auto intro: prefix_prefix)

lemma write_raws_wrote: "write_raws ts s = (e, s') \<Longrightarrow> wrote (concat ts) e s s'"
proof (induction ts s arbitrary: e s' rule: write_raws.induct)
  case (2 t ts s)
  obtain f s1 where one: "writeRaw t s = (f, s1)" by fastforce
  show ?case
  proof (cases f)
    case None
    then have "wrote (concat ts) e s1 s'" using 2(2) one by (intro 2(1) [OF one [symmetric] None]) simp
    then show ?thesis using wrote_append writeRaw_wrote [OF one] None by simp
  next
    case (Some x)
    then have "e = Some x" "s' = s1" using 2(2) one by simp_all
    then show ?thesis using wrote_stop [of t x s s1 "concat ts"] writeRaw_wrote [OF one] Some by simp
  qed
qed (simp add: wrote_def)

lemma ensureStarted_sel [simp]: "swOut (ensureStarted s) = swOut s" "swRoom (ensureStarted s) = swRoom s"
  "swErr (ensureStarted s) = swErr s" "swConfig (ensureStarted s) = swConfig s"
  by (simp_all add: ensureStarted_def)

lemma Flush_sel [simp]: "swOut (Flush s) = swOut s" "swRoom (Flush s) = swRoom s" "swErr (Flush s) = swErr s" "swConfig (Flush s) = swConfig s"
  by (simp_all add: Flush_def)

fun fits :: "sse_writer_config \<Rightarrow> sse_frame \<Rightarrow> bool" where
  "fits cfg (Event ev) \<longleftrightarrow> wcMaxEventBytes cfg \<le> 0 \<or> int (length (evData ev)) \<le> wcMaxEventBytes cfg"
| "fits cfg (Comment text) \<longleftrightarrow> True"

lemma guard_out:
  assumes "guard call s = (e, s')"
  shows "swOut s' = swOut s \<and> swRoom s' = swRoom s \<and> swConfig s' = swConfig s \<and> swErr s' = e \<and> (swErr s \<noteq> None \<longrightarrow> e \<noteq> None)"
    "\<not> ctxDone call \<Longrightarrow> \<not> deadlineFails call \<Longrightarrow> swErr s = None \<Longrightarrow> e = None \<and> s' = s"
  using assms by (auto simp: guard_def split: if_splits)

text \<open>One frame: all of it goes out, or a part of it and the error stays.\<close>

lemma write_frame_out:
  assumes "write_frame call f s = (e, s')" "fits (swConfig s) f"
  shows "(\<exists>p. prefix p (frame_text f) \<and> swOut s' = swOut s @ p \<and> (e = None \<longrightarrow> p = frame_text f) \<and> (swErr s \<noteq> None \<longrightarrow> p = [])) \<and>
    swConfig s' = swConfig s \<and> swErr s' = e \<and> (swErr s \<noteq> None \<longrightarrow> e \<noteq> None) \<and>
    (swRoom s = None \<and> swErr s = None \<and> \<not> ctxDone call \<and> \<not> deadlineFails call \<longrightarrow> e = None \<and> swRoom s' = None)"
proof -
  obtain g s1 where g: "guard call s = (g, s1)" by fastforce
  note out = guard_out [OF g]
  show ?thesis
  proof (cases g)
    case (Some x)
    then have "e = g" "s' = s1" using assms(1) g by (cases f; simp add: WriteEvent_def WriteComment_def)+
    with Some out show ?thesis by (intro conjI exI [of _ "[]"]) auto
  next
    case None
    then have s: "swErr s = None" "swErr s1 = None" using out(1) by auto
    obtain e2 s2 where w: "wrote (frame_text f) e2 (ensureStarted s1) s2" "e = e2" "s' = (if e2 = None then Flush s2 else s2)"
    proof (cases f)
      case (Event ev)
      obtain e2 s2 where w: "write_raws (event_lines ev) (ensureStarted s1) = (e2, s2)" by fastforce
      have we: "WriteEvent call ev s = (e2, if e2 = None then Flush s2 else s2)"
        using assms(2) Event None g out(1) w by (cases e2) (auto simp: WriteEvent_def)
      have "(e, s') = (e2, if e2 = None then Flush s2 else s2)"
        using assms(1) unfolding Event write_frame.simps we by (rule sym)
      then have "e = e2" "s' = (if e2 = None then Flush s2 else s2)" by (simp_all only: prod.inject)
      then show thesis using Event write_raws_wrote [OF w] event_text [of ev] by (intro that [of e2 s2]) simp_all
    next
      case (Comment c)
      obtain e2 s2 where w: "writeRaw ('': '' @ c @ [LF, LF]) (ensureStarted s1) = (e2, s2)" by fastforce
      have we: "WriteComment call c s = (e2, if e2 = None then Flush s2 else s2)"
        using None g w by (cases e2) (simp_all add: WriteComment_def)
      have "(e, s') = (e2, if e2 = None then Flush s2 else s2)"
        using assms(1) unfolding Comment write_frame.simps we by (rule sym)
      then have "e = e2" "s' = (if e2 = None then Flush s2 else s2)" by (simp_all only: prod.inject)
      then show thesis using Comment writeRaw_wrote [OF w] by (intro that [of e2 s2]) (simp_all add: frame_text_def)
    qed
    obtain p where p: "prefix p (frame_text f)" "swOut s2 = swOut s1 @ p" "e2 = None \<longrightarrow> p = frame_text f"
      using w(1) by (auto simp: wrote_def)
    show ?thesis using w p out(1) s by (intro conjI exI [of _ p]) (simp_all add: wrote_def)
  qed
qed

text \<open>An event that is larger than the writer's bound is refused before anything goes out, and the next frame is tried.\<close>

lemma write_frame_refused:
  assumes "write_frame call f s = (e, s')" "\<not> fits (swConfig s) f"
  shows "swOut s' = swOut s \<and> swConfig s' = swConfig s \<and> (swErr s \<noteq> None \<longrightarrow> swErr s' \<noteq> None) \<and>
    (swRoom s = None \<and> swErr s = None \<and> \<not> ctxDone call \<and> \<not> deadlineFails call \<longrightarrow> swRoom s' = None \<and> swErr s' = None)"
proof (cases f)
  case (Event ev)
  obtain g s1 where g: "guard call s = (g, s1)" by fastforce
  note out = guard_out [OF g]
  have "s' = s1" using assms g out(1) Event by (auto simp: WriteEvent_def split: option.splits prod.splits if_splits)
  with out show ?thesis by auto
qed (use assms(2) in simp)

lemma write_frames_out:
  shows "\<exists>p. prefix p (concat (map frame_text (filter (fits (swConfig s)) (map snd fs)))) \<and>
    swOut (write_frames fs s) = swOut s @ p \<and> (swErr s \<noteq> None \<longrightarrow> p = [])"
proof (induction fs s rule: write_frames.induct)
  case (2 call f fs s)
  obtain e s1 where one: "write_frame call f s = (e, s1)" by fastforce
  obtain q where q: "prefix q (concat (map frame_text (filter (fits (swConfig s1)) (map snd fs))))"
    "swOut (write_frames fs s1) = swOut s1 @ q" "swErr s1 \<noteq> None \<longrightarrow> q = []"
    using 2 one by auto
  show ?case
  proof (cases "fits (swConfig s) f")
    case True
    obtain p where p: "prefix p (frame_text f)" "swOut s1 = swOut s @ p" "swConfig s1 = swConfig s" "swErr s1 = e"
      "e = None \<longrightarrow> p = frame_text f" "swErr s \<noteq> None \<longrightarrow> p = []" "swErr s \<noteq> None \<longrightarrow> e \<noteq> None"
      using write_frame_out [OF one True] by (elim conjE exE) (rule that; assumption)
    show ?thesis
    proof (cases e)
      case None
      then show ?thesis using p q(1,2) one True by (intro exI [of _ "frame_text f @ q"]) simp
    next
      case (Some x)
      then have "q = []" using p(4) q(3) by simp
      then show ?thesis using p(1,2,6) q(2) one True by (intro exI [of _ p]) (simp add: prefix_prefix)
    qed
  next
    case False
    with q one write_frame_refused [OF one False] show ?thesis by (intro exI [of _ q]) simp
  qed
qed auto

lemma write_frames_healthy:
  assumes "swRoom s = None" "swErr s = None" "list_all (\<lambda>c. \<not> ctxDone c \<and> \<not> deadlineFails c) (map fst fs)"
  shows "swOut (write_frames fs s) = swOut s @ concat (map frame_text (filter (fits (swConfig s)) (map snd fs))) \<and>
    swErr (write_frames fs s) = None"
  using assms
proof (induction fs s rule: write_frames.induct)
  case (2 call f fs s)
  obtain e s1 where one: "write_frame call f s = (e, s1)" by fastforce
  have "swRoom s1 = None" "swOut s1 = swOut s @ (if fits (swConfig s) f then frame_text f else [])" "swConfig s1 = swConfig s" "swErr s1 = None"
    using write_frame_out [OF one] write_frame_refused [OF one] 2(2-4) by auto
  with 2 one show ?case by simp
qed simp

subsection \<open>What a reader makes of it\<close>

text \<open>A client gets the data with every line ending as a line feed.\<close>

definition newlines :: "string \<Rightarrow> string" where
  "newlines data = cr_to_lf (crlf_to_lf data)"

definition received :: "sse_frame list \<Rightarrow> sse_event list" where
  "received = List.map_filter (\<lambda>f. case f of Event ev \<Rightarrow> Some (ev\<lparr>evData := newlines (evData ev)\<rparr>) | Comment c \<Rightarrow> None)"

text \<open>
  A frame the protocol can carry within the bounds of the reader: no line break in a type, an id or a comment, no NUL in an
  id, a retry that is a Go \<open>int\<close> and not negative, and lines and data within the bounds.
\<close>

fun opt_all :: "('a \<Rightarrow> bool) \<Rightarrow> 'a option \<Rightarrow> bool" where
  "opt_all P None \<longleftrightarrow> True"
| "opt_all P (Some x) \<longleftrightarrow> P x"

lemma opt_all_mono: "opt_all P x \<Longrightarrow> (\<And>y. P y \<Longrightarrow> Q y) \<Longrightarrow> opt_all Q x"
  by (cases x) auto

definition one_line :: "string \<Rightarrow> bool" where
  "one_line s \<longleftrightarrow> LF \<notin> set s \<and> CR \<notin> set s"

definition frame_ok :: "sse_config \<Rightarrow> sse_frame \<Rightarrow> bool" where
  "frame_ok cfg f \<longleftrightarrow> list_all (\<lambda>l. int (length l) \<le> MaxLineBytes cfg) (frame_lines f) \<and>
     (case f of Event ev \<Rightarrow> one_line (evType ev) \<and> opt_all (\<lambda>i. one_line i \<and> NUL \<notin> set i) (evID ev) \<and>
          opt_all (\<lambda>n. 0 \<le> n \<and> n < 2 ^ 63) (evRetryMilliseconds ev) \<and>
          int (length (newlines (evData ev))) + 1 \<le> MaxEventBytes cfg
      | Comment c \<Rightarrow> one_line c)"

lemma one_line_append [simp]: "one_line (a @ b) \<longleftrightarrow> one_line a \<and> one_line b"
  by (auto simp: one_line_def)

lemma split_one_line: "one_line l \<Longrightarrow> sse_split e ((l @ [LF]) @ s) = (l # fst (sse_split e s), snd (sse_split e s))"
proof -
  assume l: "one_line l"
  have "sse_split e (LF # s) = ([] # fst (sse_split e s), snd (sse_split e s))"
    by (cases s) (auto split: prod.splits)
  then show ?thesis using l split_prepend [of l e "LF # s"] by (auto simp: one_line_def)
qed

lemma split_lines_text: "list_all one_line ls \<Longrightarrow> sse_split e (concat (map (\<lambda>l. l @ [LF]) ls)) = (ls, [])"
proof (induction ls)
  case (Cons l ls)
  then show ?case using split_one_line [of l e "concat (map (\<lambda>l. l @ [LF]) ls)"] by simp
qed simp

lemma split_lf_one_line: "CR \<notin> set s \<Longrightarrow> list_all one_line (split_lf s) \<and> split_lf s \<noteq> []"
proof (induction s)
  case (Cons c s)
  then show ?case by (cases "split_lf s") (auto simp: one_line_def)
qed (simp add: one_line_def)

lemma split_lf_join: "concat (map (\<lambda>v. v @ [LF]) (split_lf s)) = s @ [LF]"
proof (induction s)
  case (Cons c s)
  then show ?case by (cases "split_lf s") auto
qed simp

lemma data_lines:
  shows "list_all one_line (splitSSEDataLines data)" "splitSSEDataLines data \<noteq> []"
    "concat (map (\<lambda>v. v @ [LF]) (splitSSEDataLines data)) = newlines data @ [LF]"
proof -
  have "CR \<notin> set (newlines data)" by (auto simp: newlines_def cr_to_lf_def)
  moreover have "splitSSEDataLines data = split_lf (newlines data)"
    by (simp add: splitSSEDataLines_def newlines_def cr_to_lf_def)
  ultimately show "list_all one_line (splitSSEDataLines data)" "splitSSEDataLines data \<noteq> []"
    "concat (map (\<lambda>v. v @ [LF]) (splitSSEDataLines data)) = newlines data @ [LF]"
    using split_lf_one_line split_lf_join by simp_all
qed

lemma sprint_digits: "0 \<le> n \<Longrightarrow> sprint_int n \<noteq> [] \<and> list_all is_digit (sprint_int n) \<and> int (read_digits (sprint_int n)) = n"
  using dec_digits_digits [of "nat n"] dec_digits_read [of "nat n"] by (simp add: sprint_int_def list_all_iff)

lemma retry_read: "0 \<le> n \<Longrightarrow> n < 2 ^ 63 \<Longrightarrow> parseRetryMilliseconds (sprint_int n) = Some n"
  using sprint_digits [of n] by (auto simp: parseRetryMilliseconds_def)

lemma digits_one_line: "0 \<le> n \<Longrightarrow> one_line (sprint_int n)"
proof -
  assume "0 \<le> n"
  then have "\<forall>c \<in> set (sprint_int n). is_digit c" using sprint_digits [of n] by (simp add: list_all_iff)
  moreover have "\<not> is_digit LF" "\<not> is_digit CR" by (simp_all add: is_digit_def)
  ultimately show ?thesis by (auto simp: one_line_def)
qed

lemma written_fields [simp]:
  "line_field (''event: '' @ v) = (''event'', v)" "line_field (''id: '' @ v) = (''id'', v)"
  "line_field (''retry: '' @ v) = (''retry'', v)" "line_field (''data: '' @ v) = (''data'', v)"
  by (simp_all add: line_field_def cut_colon_def)

lemma frame_lines_ok:
  assumes "frame_ok cfg f"
  shows "list_all one_line (frame_lines f)" "[] \<notin> set (frame_lines f)"
proof -
  have "one_line ''event: ''" "one_line ''id: ''" "one_line ''retry: ''" "one_line ''data: ''" "one_line '': ''"
    by (simp_all add: one_line_def)
  note heads = this
  show "list_all one_line (frame_lines f)"
  proof (cases f)
    case (Event ev)
    then have "one_line (evType ev)" "opt_all one_line (evID ev)" "opt_all (\<lambda>n. 0 \<le> n) (evRetryMilliseconds ev)"
      using assms by (auto simp: frame_ok_def elim: opt_all_mono)
    moreover have "list_all one_line (map (\<lambda>l. ''data: '' @ l) (splitSSEDataLines (evData ev)))"
      using data_lines(1) [of "evData ev"] heads(4) by (simp only: list_all_iff set_map ball_simps one_line_append) simp
    ultimately show ?thesis using Event heads digits_one_line
      by (cases "evID ev"; cases "evRetryMilliseconds ev") (simp_all add: event_fields_def del: append.simps append_Cons)
  qed (use assms heads(5) in \<open>simp add: frame_ok_def del: append.simps append_Cons\<close>)
  show "[] \<notin> set (frame_lines f)"
    by (cases f) (auto simp: event_fields_def split: option.splits)
qed

lemma data_values: "field_values name (map (\<lambda>l. ''data: '' @ l) ls) = (if name = ''data'' then ls else [])"
proof (induction ls)
  case (Cons l ls)
  have "field_values name (map (\<lambda>l. ''data: '' @ l) (l # ls)) =
      field_values name [''data: '' @ l] @ field_values name (map (\<lambda>l. ''data: '' @ l) ls)"
    by (subst field_values_append [symmetric]) simp
  then show ?case using Cons by (simp only: field_values_line written_fields) simp
qed simp

lemma event_values:
  "field_values ''data'' (event_fields ev) = splitSSEDataLines (evData ev)"
  "field_values ''event'' (event_fields ev) = (if evType ev \<noteq> [] then [evType ev] else [])"
  "field_values ''id'' (event_fields ev) = (case evID ev of None \<Rightarrow> [] | Some i \<Rightarrow> [i])"
  "field_values ''retry'' (event_fields ev) = (case evRetryMilliseconds ev of None \<Rightarrow> [] | Some n \<Rightarrow> [sprint_int n])"
  by (auto simp: event_fields_def field_values_line data_values simp del: append.simps append_Cons split: option.splits)

lemma frame_block:
  assumes "frame_ok cfg f"
  shows "block_event (frame_lines f) = (case f of Event ev \<Rightarrow> Some (ev\<lparr>evData := newlines (evData ev)\<rparr>) | Comment c \<Rightarrow> None)"
    "block_size (frame_lines f) \<le> max 0 (MaxEventBytes cfg)"
proof -
  show "block_event (frame_lines f) = (case f of Event ev \<Rightarrow> Some (ev\<lparr>evData := newlines (evData ev)\<rparr>) | Comment c \<Rightarrow> None)"
  proof (cases f)
    case (Event ev)
    have "block_type (event_fields ev) = evType ev" by (simp add: block_type_def event_values)
    moreover have "block_id (event_fields ev) = evID ev"
      using assms Event by (auto simp: block_id_def event_values frame_ok_def split: option.splits)
    moreover have "block_retry (event_fields ev) = evRetryMilliseconds ev"
      using assms Event by (auto simp: block_retry_def event_values frame_ok_def List.map_filter_simps retry_read split: option.splits)
    ultimately show ?thesis using Event data_lines(2,3) by (simp add: block_event_def event_values join_lines_def)
  qed (simp add: block_event_def field_values_line)
  show "block_size (frame_lines f) \<le> max 0 (MaxEventBytes cfg)"
    using assms data_lines(3) by (cases f) (simp_all add: block_size_def event_values frame_ok_def field_values_line)
qed

lemma blocks_frames:
  "list_all (frame_ok cfg) fs \<Longrightarrow> blocks (concat (map (\<lambda>f. frame_lines f @ [[]]) fs)) = (map frame_lines fs, [])"
proof (induction fs)
  case (Cons f fs)
  then show ?case using blocks_closed [OF frame_lines_ok(2), of cfg f "concat (map (\<lambda>f. frame_lines f @ [[]]) fs)"] by simp
qed simp

lemma frames_text: "concat (map frame_text fs) = concat (map (\<lambda>l. l @ [LF]) (concat (map (\<lambda>f. frame_lines f @ [[]]) fs)))"
  by (induction fs) (simp_all add: frame_text_def)

lemma frame_no_bom: "frame_text f \<noteq> [] \<and> hd (frame_text f) \<noteq> CHR 0xEF"
proof (cases f)
  case (Event ev)
  obtain l ls where "splitSSEDataLines (evData ev) = l # ls" using data_lines(2) by (cases "splitSSEDataLines (evData ev)") auto
  then show ?thesis using Event by (auto simp: frame_text_def event_fields_def split: option.splits)
qed (simp add: frame_text_def)

lemma frames_no_bom: "TrimPrefix (concat (map frame_text fs)) utf8BOM = concat (map frame_text fs)"
proof (cases fs)
  case (Cons f gs)
  have "take (length utf8BOM) (concat (map frame_text fs)) \<noteq> utf8BOM"
    using Cons frame_no_bom [of f] by (cases "frame_text f") (simp_all add: utf8BOM_def)
  then show ?thesis by (simp add: TrimPrefix_def)
qed (simp add: TrimPrefix_def utf8BOM_def)

lemma normalizeConfig_positive: "0 < MaxLineBytes (normalizeConfig cfg)" "0 < MaxEventBytes (normalizeConfig cfg)"
  by (simp_all add: normalizeConfig_def DefaultMaxLineBytes_def DefaultMaxEventBytes_def)

lemma frames_read:
  assumes "list_all (frame_ok (normalizeConfig cfg)) fs"
  shows "sse_events cfg (concat (map frame_text fs)) EOF = (received fs, None)"
proof -
  let ?ls = "concat (map (\<lambda>f. frame_lines f @ [[]]) fs)"
  have "list_all one_line ?ls" using assms frame_lines_ok(1) by (fastforce simp: list_all_iff one_line_def)
  then have split: "sse_split EOF (concat (map frame_text fs)) = (?ls, [])" unfolding frames_text by (rule split_lines_text)
  have "lines_within (normalizeConfig cfg) ?ls []"
    using assms normalizeConfig_positive(1) [of cfg] by (fastforce simp: lines_within_def list_all_iff frame_ok_def)
  moreover have "blocks_within (normalizeConfig cfg) ?ls []"
    using assms frame_block(2) normalizeConfig_positive(2) [of cfg]
    by (fastforce simp: blocks_within_def blocks_frames [OF assms] list_all_iff block_size_def max_def)
  ultimately have "sse_within (normalizeConfig cfg) EOF (concat (map frame_text fs))"
    by (simp add: sse_within_def frames_no_bom split)
  then have "sse_events cfg (concat (map frame_text fs)) EOF = sse_meaning EOF (concat (map frame_text fs))" by (rule reader_meaning)
  moreover have "List.map_filter block_event (map frame_lines fs) = received fs"
    using assms
  proof (induction fs)
    case (Cons f fs)
    then show ?case using frame_block(1) [of "normalizeConfig cfg" f]
      by (cases f) (simp_all add: received_def List.map_filter_simps)
  qed (simp add: received_def List.map_filter_simps)
  ultimately show ?thesis by (simp add: sse_meaning_def frames_no_bom split stream_meaning_def blocks_frames [OF assms] end_error_def)
qed

subsection \<open>What a delivered event is\<close>

definition sound_event :: "sse_config \<Rightarrow> sse_event \<Rightarrow> bool" where
  "sound_event cfg ev \<longleftrightarrow> one_line (evType ev) \<and> int (length (evType ev)) \<le> MaxLineBytes cfg \<and>
     opt_all (\<lambda>i. one_line i \<and> NUL \<notin> set i) (evID ev) \<and> opt_all (\<lambda>n. 0 \<le> n \<and> n < 2 ^ 63) (evRetryMilliseconds ev) \<and>
     CR \<notin> set (evData ev) \<and> int (length (evData ev)) < MaxEventBytes cfg"

definition sound_reader :: "sse_reader \<Rightarrow> bool" where
  "sound_reader r \<longleftrightarrow> 0 < MaxLineBytes (sdConfig r) \<and> one_line (sdType r) \<and> int (length (sdType r)) \<le> MaxLineBytes (sdConfig r) \<and>
     opt_all (\<lambda>i. one_line i \<and> NUL \<notin> set i) (sdID r) \<and> opt_all (\<lambda>n. 0 \<le> n \<and> n < 2 ^ 63) (sdRetry r) \<and>
     CR \<notin> set (sdData r) \<and> (if sdHasData r then sdData r \<noteq> [] \<and> last (sdData r) = LF \<and>
       int (length (sdData r)) \<le> MaxEventBytes (sdConfig r) else sdData r = [])"

lemma read_line_sound:
  "read_line mx e acc xs = (Inr (Some l, t), rest) \<Longrightarrow> one_line acc \<Longrightarrow> int (length acc) \<le> mx \<Longrightarrow> one_line l \<and> int (length l) \<le> mx"
proof (induction mx e acc xs rule: read_line.induct)
  case (1 mx e line)
  then show ?case by (cases e) (auto split: if_splits)
next
  case (2 mx e line b bs)
  show ?case
  proof (cases "b = LF \<or> b = CR \<or> int (length line) + 1 > mx")
    case True
    then show ?thesis using 2(2-4) by (auto split: if_splits list.splits stream_end.splits)
  next
    case False
    then have "one_line (line @ [b])" "int (length (line @ [b])) \<le> mx" using 2(3) by (auto simp: one_line_def)
    then show ?thesis using False 2(1,2) by simp
  qed
qed

lemma cut_sound: "one_line l \<Longrightarrow> line_field l = (name, v) \<Longrightarrow> one_line v \<and> length v \<le> length l"
proof -
  assume l: "one_line l" "line_field l = (name, v)"
  let ?w = "drop 1 (dropWhile (\<lambda>c. c \<noteq> CHR '':'') l)"
  have "set ?w \<subseteq> set l" "length ?w \<le> length l"
    using set_dropWhileD [of _ "\<lambda>c. c \<noteq> CHR '':''" l] length_dropWhile_le [of "\<lambda>c. c \<noteq> CHR '':''" l]
    by (auto dest: in_set_dropD)
  moreover have "v = ?w \<or> v = tl ?w" using l(2) by (auto simp: line_field_def cut_colon_def split: if_splits)
  moreover have "set (tl ?w) \<subseteq> set ?w" by (cases ?w) auto
  ultimately show ?thesis using l(1) by (auto simp: one_line_def)
qed

lemma sound_line:
  assumes "sound_reader r" "readLine r = (Inr (Some l0, True), r1)" "normalizeLine r1 l0 = (l, r2)"
  shows "sound_reader r2 \<and> one_line l \<and> int (length l) \<le> MaxLineBytes (sdConfig r) \<and> sdConfig r2 = sdConfig r"
proof -
  obtain rest where rest: "read_line (MaxLineBytes (sdConfig r)) (sdEnd r) [] (sdInput r) = (Inr (Some l0, True), rest)"
    "r1 = r\<lparr>sdInput := rest, sdActivity := sdActivity r + 1\<rparr>"
    using assms(2) by (auto simp: readLine_def Let_def split: prod.splits)
  have l0: "one_line l0" "int (length l0) \<le> MaxLineBytes (sdConfig r)"
    using read_line_sound [OF rest(1)] assms(1) by (simp_all add: sound_reader_def one_line_def)
  have "set (TrimPrefix l0 utf8BOM) \<subseteq> set l0" "length (TrimPrefix l0 utf8BOM) \<le> length l0"
    by (auto simp: TrimPrefix_def dest: in_set_dropD)
  with l0 have "one_line (TrimPrefix l0 utf8BOM)" "int (length (TrimPrefix l0 utf8BOM)) \<le> MaxLineBytes (sdConfig r)"
    by (auto simp: one_line_def)
  then show ?thesis using assms(1,3) l0 by (auto simp: normalizeLine_def rest(2) sound_reader_def split: if_splits)
qed

lemma sound_process:
  assumes "sound_reader r" "one_line l" "int (length l) \<le> MaxLineBytes (sdConfig r)" "processLine r l = Inr (d, r')"
  shows "sound_reader r' \<and> sdConfig r' = sdConfig r \<and> (d \<longrightarrow> sound_event (sdConfig r) (sdEvent r'))"
proof (cases "l = []")
  case True
  show ?thesis
  proof (cases "sdHasData r")
    case True
    then have "d" "r' = dispatchEvent r" using assms(4) \<open>l = []\<close> by (simp_all add: processLine_def)
    moreover have "CR \<notin> set (butlast (sdData r))" using assms(1) by (auto simp: sound_reader_def dest: in_set_butlastD)
    moreover have "int (length (butlast (sdData r))) < MaxEventBytes (sdConfig r)"
      using assms(1) True by (cases "sdData r" rule: rev_cases) (simp_all add: sound_reader_def)
    ultimately show ?thesis using assms(1) True
      by (simp add: sound_reader_def dispatchEvent_def resetPendingEvent_def sound_event_def one_line_def)
  next
    case False
    then show ?thesis using assms(1,4) True by (auto simp: processLine_def sound_reader_def resetPendingEvent_def one_line_def)
  qed
next
  case False
  obtain name v where f: "line_field l = (name, v)" by fastforce
  have v: "one_line v" "int (length v) \<le> MaxLineBytes (sdConfig r)" using cut_sound [OF assms(2) f] assms(3) by simp_all
  have retry: "parseRetryMilliseconds v = Some n \<Longrightarrow> 0 \<le> n \<and> n < 2 ^ 63" for n
    by (auto simp: parseRetryMilliseconds_def split: if_splits)
  have "\<not> d" using assms(4) dispatched_blank False by auto
  consider "hd l = CHR '':''" | "name = ''data''" "hd l \<noteq> CHR '':''" | "name = ''event''" "hd l \<noteq> CHR '':''"
    | "name = ''id''" "hd l \<noteq> CHR '':''" | "name = ''retry''" "hd l \<noteq> CHR '':''"
    | "name \<notin> {''data'', ''event'', ''id'', ''retry''}" "hd l \<noteq> CHR '':''" by blast
  then show ?thesis
  proof cases
    case 2
    then show ?thesis using assms(1,4) f False v(1) \<open>\<not> d\<close>
      by (auto simp: processLine_def sound_reader_def one_line_def split: if_splits)
  next
    case 5
    then show ?thesis using assms(1,4) f False retry \<open>\<not> d\<close>
      by (cases "parseRetryMilliseconds v") (auto simp: processLine_def sound_reader_def)
  qed (use assms(1,4) f False v \<open>\<not> d\<close> in \<open>auto simp: processLine_def sound_reader_def split: if_splits\<close>)
qed

lemma read_all_sound: "ready r \<Longrightarrow> sound_reader r \<Longrightarrow> list_all (sound_event (sdConfig r)) (fst (read_all r))"
proof (induction "length (sdInput r)" arbitrary: r rule: less_induct)
  case less
  from less(2) show ?case
  proof (cases rule: read_all_rounds)
    case (line l0 r1 l r2 d r3)
    have l: "sound_reader r2" "one_line l" "int (length l) \<le> MaxLineBytes (sdConfig r2)" "sdConfig r2 = sdConfig r"
      using sound_line [OF less(3) line(1,2)] by simp_all
    note p = sound_process [OF l(1-3) line(3)]
    have "list_all (sound_event (sdConfig r3)) (fst (read_all r3))" using p by (intro less(1) [OF line(6,4)]) simp
    then show ?thesis using line(7) p l(4) by simp
  qed simp
qed

subsection \<open>The laws\<close>

text \<open>
  C37: Two gateways understand each other. Let frames be written over a connection that holds, in any order and with heartbeat
  comments between them; an event larger than the writer's bound is refused and leaves no trace. If the others are frames the
  protocol can carry to this reader (\<open>frame_ok\<close>: no line break in a type, an id or a comment, no NUL in an id, a retry that is not
  negative, each line within the reader's line bound and the data below its event bound, none of which the writer checks), then
  the reader of the bytes gets exactly these events, with their types, ids, retries and data, and reaches the end of the stream
  without an error. Only the line endings of the data are unified.
\<close>

theorem sse_round_trip:
  assumes "sent = filter (fits wcfg) (map snd fs)" "list_all (frame_ok (normalizeConfig cfg)) sent"
    and "list_all (\<lambda>c. \<not> ctxDone c \<and> \<not> deadlineFails c) (map fst fs)"
  shows "swErr (write_frames fs (opened None wcfg)) = None \<and>
    sse_events cfg (swOut (write_frames fs (opened None wcfg))) EOF = (received sent, None)"
proof -
  have s: "swConfig (opened None wcfg) = wcfg" "swRoom (opened None wcfg) = None" "swErr (opened None wcfg) = None" "swOut (opened None wcfg) = []"
    by (simp_all add: opened_def NewSSEWriter_def)
  show ?thesis
    using write_frames_healthy [of "opened None wcfg" fs] assms(3) frames_read [OF assms(2)] s assms(1) by simp
qed

definition quiet :: write_call where "quiet = \<lparr>ctxDone = False, deadlineFails = False\<rparr>"

definition demo_frames :: "sse_frame list" where
  "demo_frames = [Event \<lparr>evType = ''delta'', evData = ''a'' @ [CR, LF] @ ''b'', evID = Some ''7'', evRetryMilliseconds = Some 1500\<rparr>,
     Comment ''ping'', Event \<lparr>evType = [], evData = ''[DONE]'', evID = None, evRetryMilliseconds = None\<rparr>]"

lemma demo_frames_ok: "list_all (frame_ok (normalizeConfig \<lparr>MaxLineBytes = 32, MaxEventBytes = 0\<rparr>)) demo_frames"
  by code_simp

text \<open>All of them are within a bound of seven bytes, and an event of eight bytes is not.\<close>

lemma demo_sent: "filter (fits \<lparr>wcMaxEventBytes = 7\<rparr>) (map snd (map (Pair quiet) demo_frames)) = demo_frames"
  by code_simp

lemma sse_round_trip_witness:
  "sse_events \<lparr>MaxLineBytes = 32, MaxEventBytes = 0\<rparr>
     (swOut (write_frames ((quiet, Event \<lparr>evType = [], evData = ''too long'', evID = None, evRetryMilliseconds = None\<rparr>) #
       map (Pair quiet) demo_frames) (opened None \<lparr>wcMaxEventBytes = 7\<rparr>))) EOF =
   ([\<lparr>evType = ''delta'', evData = ''a'' @ [LF] @ ''b'', evID = Some ''7'', evRetryMilliseconds = Some 1500\<rparr>,
     \<lparr>evType = [], evData = ''[DONE]'', evID = None, evRetryMilliseconds = None\<rparr>], None)"
proof -
  have "received demo_frames = [\<lparr>evType = ''delta'', evData = ''a'' @ [LF] @ ''b'', evID = Some ''7'', evRetryMilliseconds = Some 1500\<rparr>,
     \<lparr>evType = [], evData = ''[DONE]'', evID = None, evRetryMilliseconds = None\<rparr>]" by code_simp
  moreover have "demo_frames = filter (fits \<lparr>wcMaxEventBytes = 7\<rparr>) (map snd ((quiet,
      Event \<lparr>evType = [], evData = ''too long'', evID = None, evRetryMilliseconds = None\<rparr>) # map (Pair quiet) demo_frames))"
    using demo_sent by simp
  note sse_round_trip [OF this demo_frames_ok]
  moreover have "list_all (\<lambda>c. \<not> ctxDone c \<and> \<not> deadlineFails c) (map fst ((quiet,
      Event \<lparr>evType = [], evData = ''too long'', evID = None, evRetryMilliseconds = None\<rparr>) # map (Pair quiet) demo_frames))"
    by (simp add: quiet_def comp_def list_all_iff)
  ultimately show ?thesis by argo
qed

text \<open>
  C38: A stream that is cut never delivers half an event. However a connection breaks while frames are written, by a client
  that leaves, a deadline or a write that goes through in part, the reader of what went out gets a prefix of the events that are within the
  writer's bound, each of them whole, provided that these are frames the protocol can carry to this reader (\<open>frame_ok\<close>: no line break in a type,
  an id or a comment, no NUL in an id, a retry that is not negative, lines and data within the reader's bounds; the writer
  checks none of it); and of any bytes at all, a reader whose connection breaks ends in an error, so a cut stream is never taken
  for a finished one.
\<close>

theorem sse_cut_safe:
  assumes "sent = filter (fits wcfg) (map snd fs)" "list_all (frame_ok (normalizeConfig cfg)) sent"
  shows "prefix (fst (sse_events cfg (swOut (write_frames fs (opened room wcfg))) e)) (received sent) \<and>
    snd (sse_events cfg body ReadError) \<noteq> None"
proof -
  have s: "swConfig (opened room wcfg) = wcfg" "swOut (opened room wcfg) = []" by (simp_all add: opened_def NewSSEWriter_def)
  obtain p where "prefix p (concat (map frame_text sent))" "swOut (write_frames fs (opened room wcfg)) = p"
    using write_frames_out [of "opened room wcfg" fs] assms(1) s by auto
  moreover have "snd (sse_events cfg body ReadError) \<noteq> None"
    unfolding sse_events_def by (rule broken_reported [OF NewReader_ready]) (simp add: NewReader_def)
  ultimately show ?thesis using cut_prefix frames_read [OF assms(2)] by (metis fst_conv prefix_def)
qed

lemma sse_cut_safe_witness:
  "prefix (fst (sse_events \<lparr>MaxLineBytes = 32, MaxEventBytes = 0\<rparr>
     (swOut (write_frames (map (Pair quiet) demo_frames) (opened (Some 60) \<lparr>wcMaxEventBytes = 7\<rparr>))) ReadError))
   (received demo_frames)"
  using sse_cut_safe [OF demo_sent [symmetric], of "\<lparr>MaxLineBytes = 32, MaxEventBytes = 0\<rparr>" "Some 60" ReadError "[]"]
    demo_frames_ok by simp

text \<open>
  C39: Within its bounds the reader is the standard: with no line and no event above the configured sizes, the events and the
  final error it delivers are exactly the meaning of the bytes, the lines ended by a line feed, a carriage return or both, the
  blocks between empty lines, and of each block with data the last type, the joined data, the last id without NUL and the
  last retry of digits.
\<close>

theorem sse_reader_meaning:
  assumes "sse_within (normalizeConfig cfg) e body"
  shows "sse_events cfg body e = sse_meaning e body"
  by (rule reader_meaning [OF assms])

lemma sse_reader_meaning_witness:
  "sse_events \<lparr>MaxLineBytes = 9, MaxEventBytes = 8\<rparr> (utf8BOM @ ''data:x'' @ [CR, LF, CR] @ '':c'' @ [LF]) EOF =
   ([\<lparr>evType = [], evData = ''x'', evID = None, evRetryMilliseconds = None\<rparr>], None)"
proof -
  have "sse_within (normalizeConfig \<lparr>MaxLineBytes = 9, MaxEventBytes = 8\<rparr>) EOF (utf8BOM @ ''data:x'' @ [CR, LF, CR] @ '':c'' @ [LF])"
    by code_simp
  from sse_reader_meaning [OF this] show ?thesis by code_simp
qed

text \<open>
  C40: No upstream can make the gateway deliver an event beyond its bounds or with a line break where none belongs: of any bytes
  at all, each event the reader delivers has less data than the event bound, a type of one line within the line bound, an id
  of one line without NUL, a retry that fits a Go \<open>int\<close>, and no carriage return in its data, so it can be written on to a
  client without adding a line to it.
\<close>

theorem sse_events_sound:
  "list_all (sound_event (normalizeConfig cfg)) (fst (sse_events cfg body e))"
proof -
  have "sound_reader (NewReader body e cfg)"
    using normalizeConfig_positive(1) [of cfg] by (simp add: NewReader_def sound_reader_def one_line_def)
  from read_all_sound [OF NewReader_ready this] show ?thesis by (simp add: sse_events_def NewReader_def)
qed

text \<open>
  The two bounds on an event are not the same: the reader counts a line feed after each line of the data, so an event with as
  many bytes as the bound is written, and refused by a reader with the same bound.
\<close>

lemma sse_bounds_differ:
  "WriteEvent quiet \<lparr>evType = [], evData = ''abc'', evID = None, evRetryMilliseconds = None\<rparr> (opened None \<lparr>wcMaxEventBytes = 3\<rparr>) =
     (None, snd (WriteEvent quiet \<lparr>evType = [], evData = ''abc'', evID = None, evRetryMilliseconds = None\<rparr> (opened None \<lparr>wcMaxEventBytes = 3\<rparr>)))"
  "sse_events \<lparr>MaxLineBytes = 32, MaxEventBytes = 3\<rparr> (swOut (snd (WriteEvent quiet
     \<lparr>evType = [], evData = ''abc'', evID = None, evRetryMilliseconds = None\<rparr> (opened None \<lparr>wcMaxEventBytes = 3\<rparr>)))) EOF =
   ([], Some ErrEventTooLarge)"
  by code_simp+

end
