(* ===== verification/Spec2Isabelle.thy ===== *)
theory Spec2Isabelle
  imports Billing Ledger_Laws Price_Laws Provider_Laws Recovery_Laws Settlement_Draining Sse_Laws
begin

text \<open>
  The money core of \<open>unio-api\<close>, a gateway that sells upstream model APIs: what a request costs, who is charged,
  and which rows of the database say so. Paths are relative to \<open>src/\<close>.

  \<^bold>\<open>Parts and how they interact.\<close> An upstream answer is reduced to usage facts (\<open>internal/core/usage\<close>). Billing
  (\<open>internal/core/billing\<close>) turns the facts and a price snapshot into a customer charge and a provider cost, and
  estimates the amount to hold before a request starts. The user ledger (\<open>internal/core/ledger\<close>) holds, captures
  and releases that amount against a prepaid balance. The price tables and the admin services that write them
  (\<open>internal/service/admin\<close>) say which price, multiplier and recharge factor is in force; the settlement
  (\<open>internal/service/gateway/lifecycle/settlement.go\<close>) and the probe resolve a provider cost from them. The provider
  ledger (\<open>internal/core/providerledger\<close>) keeps what is owed to each upstream provider. The request log
  (\<open>internal/core/requestlog\<close>) follows each request and attempt from its start to its final status; the settlement ends
  both, keeps usage, prices and cost as snapshots and moves the money, all in one transaction; and a recovery job written
  before it lets a worker (\<open>internal/app/workers\<close>) repeat it, or give it up, after a crash. Beside the money, the two ends
  of a streamed answer are modelled: the reader of an upstream's server-sent events and the writer of a client's.

  \<^bold>\<open>Theories.\<close>
  \<^item> \<open>Prelude\<close>: Go results as sums, 64-bit integers, the interface of the roundings, and the lemma collections.
    \<open>Transitions\<close>: the interfaces of the state machines (an invariant, an append-only set of facts, a kept relation).
    \<open>Go_Numeric\<close>: \<open>pgtype.Numeric\<close>, \<open>big.Rat\<close> and the rounding of the three packages. \<open>Go_Text\<close>: the
    text functions of the Go library that validation uses.
  \<^item> \<open>Usage_Facts\<close> (\<open>usage/facts.go\<close>) and \<open>Billing\<close> (\<open>billing/*.go\<close>): charge, cost, estimate, scaling, long context,
    margin. Lemmas: the exact amounts, the bounds between estimate and charge, and between sale and cost.
  \<^item> \<open>Sql_Store\<close> (the ledger statements of \<open>platform/store/sqlc\<close>), \<open>Ledger_Entries\<close> (\<open>ledger/entry.go\<close>),
    \<open>Ledger_Reservations\<close> (\<open>ledger/reservation.go\<close>); \<open>Ledger_Books\<close> (the invariant and what each operation does to it),
    \<open>Ledger_Spec\<close> (what a healthy operation answers), \<open>Ledger_Machine\<close> (all runs) and \<open>Ledger_Laws\<close> (the properties).
  \<^item> \<open>Price_Store\<close> (the statements of the four price tables), \<open>Price_Timelines\<close> (their common contract, as a locale
    interpreted on each table), \<open>Price_Admin\<close> (the four admin services), \<open>Price_Machine\<close>, \<open>Settlement_Cost\<close>
    (\<open>resolveSettlementCost\<close>, \<open>resolveProbeCost\<close>) and \<open>Price_Laws\<close>.
  \<^item> \<open>Provider_Store\<close> (\<open>provider_ledger.sql.go\<close>), \<open>Provider_Ledger\<close> (\<open>providerledger.go\<close>, \<open>risk.go\<close>, \<open>probe.go\<close>),
    \<open>Provider_Books\<close>, \<open>Provider_Machine\<close> and \<open>Provider_Laws\<close>.
  \<^item> \<open>Request_Store\<close> (\<open>request_records.sql.go\<close>, \<open>request_attempts.sql.go\<close>), \<open>Request_Log\<close> (\<open>requestlog/*.go\<close>),
    \<open>Request_Machine\<close> (every method is an edit of a row that keeps its identity and moves it forward) and
    \<open>Request_Laws\<close>.
  \<^item> \<open>Recovery_Jobs\<close> (\<open>settlement_recovery_jobs.sql.go\<close>), \<open>Recovery_Worker\<close>
    (\<open>workers/settlement_recovery_worker.go\<close>, whose service is the argument \<open>recoverer\<close>), \<open>Recovery_Machine\<close> (leases,
    attempts and the measure that decreases) and \<open>Recovery_Laws\<close> (with \<open>recovery_service\<close>, the contract between a worker and its
    service, under which the rounds of a worker drain the jobs).
  \<^item> \<open>Settlement_Store\<close> (the composed database: the tables of all components and the four snapshot tables), \<open>Settlement\<close>
    (\<open>settlement.go\<close>: \<open>SettleSuccessfulChat\<close> and its replay), \<open>Settlement_Finalize\<close> (the three transactions that give up),
    \<open>Settlement_Recovery\<close> (\<open>settlement_recovery.go\<close>, which is the worker's \<open>recoverer\<close>); \<open>Settlement_Machine\<close> (every
    change is an edit of one component, and edits keep the invariants of all), \<open>Settlement_Runs\<close> (every operation is a
    sequence of edits, and so are the machine's steps), \<open>Settlement_Effects\<close> (the rows a settlement writes, that a repeated
    settlement accepts them, and the money it moves), \<open>Settlement_Giving_Up\<close> (the finalizers charge nothing and free the
    hold), \<open>Settlement_Example\<close> (a run the witnesses use), \<open>Settlement_Laws\<close>, and
    \<open>Settlement_Draining\<close> (the settlement service keeps the contract of the workers, so they end every job).
  \<^item> \<open>Sse_Stream\<close> (\<open>core/adapter/sse/reader.go\<close>, \<open>platform/httpx/sse_writer.go\<close>), \<open>Sse_Spec\<close> (what the bytes of a
    stream mean, and that the reader delivers it) and \<open>Sse_Laws\<close>.

  \<^bold>\<open>Conventions.\<close> A table is a list of rows with the constraints of \<open>migrations/\<close> (CHECK, UNIQUE, EXCLUDE, foreign
  keys) written out in its INSERT and UPDATE; \<open>numeric(20,10)\<close> is an \<open>int\<close> of ten-decimal units, and a value that does
  not fit is an error of the statement. An environment says which store calls fail (by the message the code gives them),
  how a commit ends (done, refused, or done with the reply lost) and what the clock is; a transaction that fails leaves the
  database as it was. Concurrency is in the arguments: a lookup before a lock may see any earlier state, and the machines
  allow any order of committed operations. Instants are microseconds. Go strings are byte lists.
  The two loops of the recovery worker run a given number of rounds, as the code has them (\<open>claim_batch\<close> counts the batch
  size down); the loops over bytes, of the stream reader and of the text functions, end because each round takes a byte.
  No fuel is used.

  \<^bold>\<open>Not modelled.\<close> The lifecycle of a request before its settlement (routing, attempt runner, streaming, permits) is concurrent
  code around upstream HTTP and Redis with floating-point scores, whose state is changed by Lua scripts; the adapters translate JSON between protocols;
  identity rests on cryptographic libraries and token estimation on a tokenizer's tables; the remaining admin services are
  reads and updates of configuration, and the servers are wiring, input and output. List pages and dashboards only read.
\<close>

end
